(* ===== verification/Prelude.thy ===== *)
theory Prelude
  imports Complex_Main "HOL-Library.Word"
begin

text \<open>
  Shared vocabulary of the development: the result type of a TypeScript function that may
  throw, byte buffers, little- and big-endian integers of a fixed width, hexadecimal
  strings as the runtime prints and parses them, and JavaScript numbers.

  \<^item> A function that throws returns \<open>js_error + 'a\<close>: \<open>Inl (JsError m)\<close> is
    \<open>throw new Error(m)\<close>, \<open>Inl JsRangeError\<close> the error a \<open>DataView\<close> raises when it is
    asked for bytes outside its buffer, \<open>Inl JsSyntaxError\<close> the one \<open>BigInt\<close> raises on a
    string that is not a number.
  \<^item> A \<open>Uint8Array\<close> or \<open>Buffer\<close> is a list of 8-bit words; a \<open>bigint\<close> is an \<open>int\<close>.
  \<^item> A string is a list of characters with codes 0 to 255: the development covers strings
    whose UTF-16 code units all lie in Latin-1.
\<close>

named_theorems js_simps \<open>evaluation of the error monad\<close>
named_theorems codec_simps \<open>lengths and round trips of the integer encodings\<close>

section \<open>Results of functions that may throw\<close>

datatype js_error = JsError string | JsRangeError | JsSyntaxError

type_synonym 'a js = "js_error + 'a"

definition bindE :: "'e + 'a \<Rightarrow> ('a \<Rightarrow> 'e + 'b) \<Rightarrow> 'e + 'b" where
  "bindE m f = (case m of Inl e \<Rightarrow> Inl e | Inr x \<Rightarrow> f x)"

text \<open>Arguments of a call and elements of an array literal are evaluated from left to right;
  the first one that throws decides the error.\<close>

fun seqE :: "('e + 'a) list \<Rightarrow> 'e + 'a list" where
  "seqE [] = Inr []"
| "seqE (m # ms) = bindE m (\<lambda>x. bindE (seqE ms) (\<lambda>xs. Inr (x # xs)))"

lemma bindE_simps [simp, js_simps]:
  "bindE (Inl e) f = Inl e"
  "bindE (Inr x) f = f x"
  by (simp_all add: bindE_def)

lemma bindE_Inr_iff [js_simps]: "bindE m f = Inr y \<longleftrightarrow> (\<exists>x. m = Inr x \<and> f x = Inr y)"
  by (cases m) simp_all

lemma bindE_InrE:
  assumes "bindE m f = Inr y"
  obtains x where "m = Inr x" and "f x = Inr y"
  using assms by (auto simp: bindE_Inr_iff)

lemma seqE_Inr_Cons_iff [js_simps]:
  "seqE (m # ms) = Inr ys \<longleftrightarrow> (\<exists>x xs. ys = x # xs \<and> m = Inr x \<and> seqE ms = Inr xs)"
  by (auto simp: bindE_Inr_iff)

lemma seqE_map_Inr [simp]: "seqE (map Inr xs) = Inr xs"
  by (induction xs) simp_all

lemma seqE_length: "seqE ms = Inr xs \<Longrightarrow> length xs = length ms"
  by (induction ms arbitrary: xs) (auto simp: bindE_Inr_iff)

text \<open>Whether a call returns, without naming what it returns.\<close>

definition returns :: "'e + 'a \<Rightarrow> bool" where
  "returns m \<longleftrightarrow> (\<exists>x. m = Inr x)"

lemma returns_simps [simp]:
  "returns (Inr x)"
  "\<not> returns (Inl e)"
  "returns (bindE m (\<lambda>x. Inr (f x))) \<longleftrightarrow> returns m"
  "returns (bindE m (\<lambda>_. k)) \<longleftrightarrow> returns m \<and> returns k"
  by (auto simp: returns_def bindE_Inr_iff)

lemma returns_seqE: "returns (seqE ms) \<longleftrightarrow> list_all returns ms"
  by (induction ms) (simp_all add: returns_def bindE_Inr_iff, metis)

section \<open>Byte buffers\<close>

type_synonym byte = "8 word"
type_synonym bytes = "byte list"

text \<open>Indexing a typed array out of range gives \<open>undefined\<close>; \<open>slice\<close> and \<open>subarray\<close> clip.\<close>

definition elemAt :: "'a list \<Rightarrow> nat \<Rightarrow> 'a option" where
  "elemAt xs i = (if i < length xs then Some (xs ! i) else None)"

definition subarray :: "'a list \<Rightarrow> nat \<Rightarrow> nat \<Rightarrow> 'a list" where
  "subarray xs i j = take (j - i) (drop i xs)"

lemma elemAt_simps [simp]:
  "elemAt [] i = None"
  "elemAt (x # xs) 0 = Some x"
  "elemAt (x # xs) (Suc i) = elemAt xs i"
  by (simp_all add: elemAt_def)

lemma elemAt_numeral [simp]: "elemAt (x # xs) (numeral k) = elemAt xs (pred_numeral k)"
  by (simp add: numeral_eq_Suc)

lemma elemAt_append: "elemAt (xs @ ys) i = (if i < length xs then Some (xs ! i) else elemAt ys (i - length xs))"
  by (auto simp: elemAt_def nth_append)

lemma length_subarray [simp]: "j \<le> length xs \<Longrightarrow> length (subarray xs i j) = j - i"
  by (auto simp: subarray_def)

lemma subarray_append_skip:
  "length xs \<le> i \<Longrightarrow> subarray (xs @ ys) i j = subarray ys (i - length xs) (j - length xs)"
  by (simp add: subarray_def)

lemma subarray_append_here: "length xs = j \<Longrightarrow> subarray (xs @ ys) 0 j = xs"
  by (simp add: subarray_def)

lemma subarray_exact: "length xs = j \<Longrightarrow> subarray xs 0 j = xs"
  by (simp add: subarray_def)

section \<open>Integers of a fixed number of bytes\<close>

primrec le_bytes :: "nat \<Rightarrow> int \<Rightarrow> bytes" where
  "le_bytes 0 v = []"
| "le_bytes (Suc n) v = word_of_int v # le_bytes n (v div 256)"

primrec le_uint :: "bytes \<Rightarrow> int" where
  "le_uint [] = 0"
| "le_uint (b # bs) = uint b + 256 * le_uint bs"

text \<open>Two's complement reading of the same bytes.\<close>

definition le_sint :: "bytes \<Rightarrow> int" where
  "le_sint bs = (let u = le_uint bs; m = 256 ^ length bs in if m \<le> 2 * u then u - m else u)"

definition be_uint :: "bytes \<Rightarrow> int" where
  "be_uint bs = le_uint (rev bs)"

definition be_bytes :: "nat \<Rightarrow> int \<Rightarrow> bytes" where
  "be_bytes n v = rev (le_bytes n v)"

lemma length_le_bytes [simp, codec_simps]: "length (le_bytes n v) = n"
  by (induction n arbitrary: v) simp_all

lemma length_be_bytes [simp, codec_simps]: "length (be_bytes n v) = n"
  by (simp add: be_bytes_def)

lemma uint_byte_bounds [simp]: "0 \<le> uint (b :: byte)" "uint (b :: byte) < 256"
  using uint_bounded [of b] by simp_all

lemma le_uint_nonneg [simp]: "0 \<le> le_uint bs"
  by (induction bs) simp_all

lemma le_uint_upper: "le_uint bs < 256 ^ length bs"
proof (induction bs)
  case (Cons b bs)
  have "uint b \<le> 255" using uint_byte_bounds(2) [of b] by linarith
  with Cons.IH show ?case by simp
qed simp

lemma le_uint_le_bytes: "le_uint (le_bytes n v) = v mod 256 ^ n"
proof (induction n arbitrary: v)
  case (Suc n)
  have "v mod 256 ^ Suc n = v mod (256 * 256 ^ n)" by simp
  also have "\<dots> = 256 * (v div 256 mod 256 ^ n) + v mod 256"
    by (rule zmod_zmult2_eq) simp
  finally show ?case
    by (simp add: Suc.IH uint_word_of_int)
qed simp

lemma le_bytes_le_uint: "length bs = n \<Longrightarrow> le_bytes n (le_uint bs) = bs"
proof (induction bs arbitrary: n)
  case (Cons b bs)
  have div: "(uint b + 256 * le_uint bs) div 256 = le_uint bs" by simp
  have "word_of_int (uint b + 256 * le_uint bs) = b"
    by (rule word_uint_eqI) (simp add: uint_word_of_int take_bit_eq_mod del: of_int_add of_int_mult)
  with Cons div show ?case by auto
qed simp

lemma le_uint_inj: "length bs = length cs \<Longrightarrow> le_uint bs = le_uint cs \<Longrightarrow> bs = cs"
  by (metis le_bytes_le_uint)

lemma be_uint_inj: "length bs = length cs \<Longrightarrow> be_uint bs = be_uint cs \<Longrightarrow> bs = cs"
  using le_uint_inj [of "rev bs" "rev cs"] by (simp add: be_uint_def)

lemma be_uint_nonneg [simp]: "0 \<le> be_uint bs"
  by (simp add: be_uint_def)

lemma be_uint_upper: "be_uint bs < 256 ^ length bs"
  using le_uint_upper [of "rev bs"] by (simp add: be_uint_def)

lemma le_uint_append: "le_uint (bs @ cs) = le_uint bs + 256 ^ length bs * le_uint cs"
  by (induction bs) (simp_all add: algebra_simps)

lemma be_uint_Nil [simp]: "be_uint [] = 0"
  by (simp add: be_uint_def)

lemma be_uint_Cons: "be_uint (b # bs) = uint b * 256 ^ length bs + be_uint bs"
  by (simp add: be_uint_def le_uint_append)

lemma be_uint_append: "be_uint (bs @ cs) = be_uint bs * 256 ^ length cs + be_uint cs"
  by (simp add: be_uint_def le_uint_append)

lemma be_uint_be_bytes: "be_uint (be_bytes n v) = v mod 256 ^ n"
  by (simp add: be_uint_def be_bytes_def le_uint_le_bytes)

lemma be_bytes_be_uint: "length bs = n \<Longrightarrow> be_bytes n (be_uint bs) = bs"
  by (simp add: be_bytes_def be_uint_def le_bytes_le_uint)

lemma le_sint_le_bytes:
  assumes "0 < n" and "- (256 ^ n) \<le> 2 * v" and "2 * v < 256 ^ n"
  shows "le_sint (le_bytes n v) = v"
proof (cases "0 \<le> v")
  case True
  with assms have "v mod 256 ^ n = v" by simp
  with assms True show ?thesis by (simp add: le_sint_def le_uint_le_bytes Let_def)
next
  case False
  have "v mod 256 ^ n = (v + 256 ^ n) mod 256 ^ n" by simp
  also have "\<dots> = v + 256 ^ n"
    using assms False by (intro mod_pos_pos_trivial) auto
  finally show ?thesis
    using assms False by (auto simp: le_sint_def le_uint_le_bytes Let_def)
qed

lemma le_sint_bounds:
  assumes "length bs = n" and "0 < n"
  shows "- (256 ^ n) \<le> 2 * le_sint bs" and "2 * le_sint bs < 256 ^ n"
  using assms le_uint_upper [of bs] le_uint_nonneg [of bs]
  by (auto simp: le_sint_def Let_def simp del: le_uint_nonneg)

lemma le_bytes_mod: "le_bytes n (v mod 256 ^ n) = le_bytes n v"
  by (rule le_uint_inj) (simp_all add: le_uint_le_bytes)

lemma le_bytes_le_sint: "length bs = n \<Longrightarrow> le_bytes n (le_sint bs) = bs"
proof -
  assume len: "length bs = n"
  have "le_sint bs mod 256 ^ n = le_uint bs mod 256 ^ n"
    using len by (simp add: le_sint_def Let_def)
  then have "le_bytes n (le_sint bs) = le_bytes n (le_uint bs)"
    by (metis le_bytes_mod)
  with len show ?thesis by (simp add: le_bytes_le_uint)
qed

section \<open>Hexadecimal strings\<close>

text \<open>\<open>Buffer.toString('hex')\<close>, \<open>Buffer.from(s, 'hex')\<close> (which stops at the first pair that is
  not two hexadecimal digits), \<open>BigInt.toString(16)\<close>, \<open>BigInt('0x' + s)\<close> and
  \<open>String.padStart\<close>.\<close>

definition nibble_char :: "nat \<Rightarrow> char" where
  "nibble_char n = ''0123456789abcdef'' ! n"

definition char_nibble :: "char \<Rightarrow> nat option" where
  "char_nibble c =
     (let k = (of_char c :: nat) in
      if 48 \<le> k \<and> k \<le> 57 then Some (k - 48)
      else if 97 \<le> k \<and> k \<le> 102 then Some (k - 87)
      else if 65 \<le> k \<and> k \<le> 70 then Some (k - 55)
      else None)"

definition to_hex :: "bytes \<Rightarrow> string" where
  "to_hex bs = concat (map (\<lambda>b. [nibble_char (unat b div 16), nibble_char (unat b mod 16)]) bs)"

fun from_hex :: "string \<Rightarrow> bytes" where
  "from_hex (a # b # s) =
     (case (char_nibble a, char_nibble b) of
        (Some x, Some y) \<Rightarrow> word_of_nat (16 * x + y) # from_hex s
      | _ \<Rightarrow> [])"
| "from_hex _ = []"

fun hex_le :: "nat \<Rightarrow> nat list" where
  "hex_le n = (if n < 16 then [n] else n mod 16 # hex_le (n div 16))"

declare hex_le.simps [simp del]

definition bigint_to_hex :: "int \<Rightarrow> string" where
  "bigint_to_hex v = (if v < 0 then ''-'' else []) @ map nibble_char (rev (hex_le (nat \<bar>v\<bar>)))"

definition padStart :: "nat \<Rightarrow> char \<Rightarrow> string \<Rightarrow> string" where
  "padStart n c s = replicate (n - length s) c @ s"

fun hex_value :: "nat \<Rightarrow> string \<Rightarrow> nat option" where
  "hex_value acc [] = Some acc"
| "hex_value acc (c # s) =
     (case char_nibble c of None \<Rightarrow> None | Some d \<Rightarrow> hex_value (16 * acc + d) s)"

definition bigint_of_hex :: "string \<Rightarrow> int js" where
  "bigint_of_hex s =
     (if s = [] then Inl JsSyntaxError
      else case hex_value 0 s of None \<Rightarrow> Inl JsSyntaxError | Some n \<Rightarrow> Inr (int n))"

text \<open>The number a list of hexadecimal digits denotes, most significant digit first.\<close>

primrec nib_val :: "nat list \<Rightarrow> nat" where
  "nib_val [] = 0"
| "nib_val (d # ds) = d * 16 ^ length ds + nib_val ds"

lemma less_16_cases:
  "n < (16 :: nat) \<Longrightarrow> n \<in> {0, 1, 2, 3, 4, 5, 6, 7, 8, 9, 10, 11, 12, 13, 14, 15}"
  by (simp add: numeral_eq_Suc less_Suc_eq)

lemma char_nibble_nibble_char [simp]: "n < 16 \<Longrightarrow> char_nibble (nibble_char n) = Some n"
  by (drule less_16_cases) (auto simp: nibble_char_def char_nibble_def)

lemma unat_byte_nibbles [simp]: "unat (b :: byte) div 16 < 16" "unat (b :: byte) < 256"
proof -
  show "unat b < 256"
    using unsigned_less [of b, where 'a = nat] by simp
  then show "unat b div 16 < 16" by simp
qed

lemma from_hex_to_hex [simp]: "from_hex (to_hex bs) = bs"
  by (induction bs) (simp_all add: to_hex_def)

lemma length_to_hex [simp]: "length (to_hex bs) = 2 * length bs"
  by (induction bs) (simp_all add: to_hex_def)

lemma hex_value_to_hex: "hex_value acc (to_hex bs) = Some (acc * 256 ^ length bs + nat (be_uint bs))"
proof (induction bs arbitrary: acc)
  case (Cons b bs)
  have 1: "to_hex (b # bs) = nibble_char (unat b div 16) # nibble_char (unat b mod 16) # to_hex bs"
    by (simp add: to_hex_def)
  have 2: "16 * (16 * acc + unat b div 16) + unat b mod 16 = 256 * acc + unat b"
    using mult_div_mod_eq [of 16 "unat b"] by (simp add: algebra_simps del: mult_div_mod_eq)
  have 3: "nat (be_uint (b # bs)) = unat b * 256 ^ length bs + nat (be_uint bs)"
    by (simp add: be_uint_Cons nat_add_distrib nat_mult_distrib nat_power_eq)
  show ?case
    unfolding 1 using 2 3 by (simp add: Cons.IH algebra_simps)
qed (simp add: to_hex_def)

lemma bigint_of_hex_to_hex: "bs \<noteq> [] \<Longrightarrow> bigint_of_hex (to_hex bs) = Inr (be_uint bs)"
proof -
  assume "bs \<noteq> []"
  then have "to_hex bs \<noteq> []" by (cases bs) (simp_all add: to_hex_def)
  then show ?thesis by (simp add: bigint_of_hex_def hex_value_to_hex)
qed

lemma nib_val_append: "nib_val (xs @ ys) = nib_val xs * 16 ^ length ys + nib_val ys"
  by (induction xs) (simp_all add: algebra_simps power_add)

lemma nib_val_replicate_0 [simp]: "nib_val (replicate k 0 @ ds) = nib_val ds"
  by (induction k) simp_all

lemma nib_val_hex_le: "nib_val (rev (hex_le n)) = n"
proof (induction n rule: hex_le.induct)
  case (1 n)
  show ?case
  proof (cases "n < 16")
    case True
    then show ?thesis by (simp add: hex_le.simps [of n])
  next
    case False
    with 1 have "nib_val (rev (hex_le (n div 16))) = n div 16" by simp
    with False show ?thesis by (simp add: hex_le.simps [of n] nib_val_append)
  qed
qed

lemma hex_le_digits: "d \<in> set (hex_le n) \<Longrightarrow> d < 16"
proof (induction n rule: hex_le.induct)
  case (1 n)
  then show ?case by (cases "n < 16") (auto simp: hex_le.simps [of n])
qed

lemma hex_le_nonempty [simp]: "hex_le n \<noteq> []"
  by (simp add: hex_le.simps)

lemma hex_le_length_upper: "n < 16 ^ k \<Longrightarrow> 0 < k \<Longrightarrow> length (hex_le n) \<le> k"
proof (induction n arbitrary: k rule: hex_le.induct)
  case (1 n)
  show ?case
  proof (cases "n < 16")
    case True
    with 1 show ?thesis by (simp add: hex_le.simps [of n])
  next
    case False
    obtain j where k: "k = Suc j" using 1 by (cases k) auto
    with False 1 have j: "0 < j" by (cases j) auto
    from 1(2) k have "n div 16 < 16 ^ j" by (simp add: less_mult_imp_div_less mult.commute)
    with False j 1(1) have "length (hex_le (n div 16)) \<le> j" by simp
    with False k show ?thesis by (simp add: hex_le.simps [of n])
  qed
qed

lemma hex_le_length_lower: "0 < n \<Longrightarrow> 16 ^ (length (hex_le n) - 1) \<le> n"
proof (induction n rule: hex_le.induct)
  case (1 n)
  show ?case
  proof (cases "n < 16")
    case True
    with 1 show ?thesis by (simp add: hex_le.simps [of n])
  next
    case False
    then have "0 < n div 16" by (simp add: div_greater_zero_iff)
    with 1(1) False have "16 ^ (length (hex_le (n div 16)) - 1) \<le> n div 16" by simp
    then have le: "16 * 16 ^ (length (hex_le (n div 16)) - 1) \<le> n" by linarith
    have "length (hex_le (n div 16)) = Suc (length (hex_le (n div 16)) - 1)"
      by (cases "hex_le (n div 16)") simp_all
    with False le show ?thesis
      by (metis diff_Suc_1 hex_le.simps length_Cons power_Suc)
  qed
qed

lemma from_hex_digits:
  assumes "\<forall>d \<in> set ds. d < 16" and "even (length ds)"
  shows "length (from_hex (map nibble_char ds)) = length ds div 2
       \<and> be_uint (from_hex (map nibble_char ds)) = int (nib_val ds)"
  using assms
proof (induction ds rule: induct_list012)
  case (3 x y zs)
  let ?b = "word_of_nat (16 * x + y) :: byte"
  from 3 have IH: "length (from_hex (map nibble_char zs)) = length zs div 2"
    "be_uint (from_hex (map nibble_char zs)) = int (nib_val zs)" by simp_all
  from 3 have "16 * x + y < 256" by simp
  then have b: "uint ?b = 16 * int x + int y"
    by (simp add: unsigned_of_nat take_bit_eq_mod del: of_nat_add of_nat_mult)
  obtain k where k: "length zs = 2 * k" using 3 by auto
  then have p: "(16 :: int) ^ length zs = 256 ^ (length zs div 2)"
    by (simp add: power_mult)
  show ?case
    using 3 IH b p by (simp add: be_uint_Cons algebra_simps del: of_nat_add of_nat_mult) simp
qed simp_all

section \<open>JavaScript numbers\<close>

text \<open>A \<open>number\<close> is an IEEE double: a rational, NaN or an infinity. Comparisons are exact and
  false as soon as NaN takes part; where the code adds or multiplies numbers, the rounding
  is written out at that place.\<close>

datatype js_number = JNum rat | JNaN | JInf | JNegInf

fun jlt :: "js_number \<Rightarrow> js_number \<Rightarrow> bool" where
  "jlt (JNum a) (JNum b) = (a < b)"
| "jlt (JNum a) JInf = True"
| "jlt JNegInf (JNum b) = True"
| "jlt JNegInf JInf = True"
| "jlt _ _ = False"

definition jle :: "js_number \<Rightarrow> js_number \<Rightarrow> bool" where
  "jle x y = (jlt x y \<or> (x = y \<and> x \<noteq> JNaN))"

fun isInteger :: "js_number \<Rightarrow> bool" where
  "isInteger (JNum r) = (of_int \<lfloor>r\<rfloor> = r)"
| "isInteger _ = False"

definition isSafeInteger :: "js_number \<Rightarrow> bool" where
  "isSafeInteger x = (isInteger x \<and> jle (JNum (- 9007199254740991)) x \<and> jle x (JNum 9007199254740991))"

fun num_int :: "js_number \<Rightarrow> int" where
  "num_int (JNum r) = \<lfloor>r\<rfloor>"
| "num_int _ = 0"

abbreviation jint :: "int \<Rightarrow> js_number" where
  "jint v \<equiv> JNum (of_int v)"

abbreviation jnat :: "nat \<Rightarrow> js_number" where
  "jnat n \<equiv> JNum (of_nat n)"

lemma jle_JNum [simp]: "jle (JNum a) (JNum b) = (a \<le> b)"
  by (auto simp: jle_def)

lemma isInteger_iff: "isInteger x \<longleftrightarrow> (\<exists>v. x = jint v)"
proof (cases x)
  case (JNum r)
  then show ?thesis by (auto simp: eq_commute [of "of_int _" r])
qed simp_all

section \<open>Printing numbers\<close>

text \<open>A natural number inside a template string.\<close>

fun dec_le :: "nat \<Rightarrow> nat list" where
  "dec_le n = (if n < 10 then [n] else n mod 10 # dec_le (n div 10))"

declare dec_le.simps [simp del]

definition show_nat :: "nat \<Rightarrow> string" where
  "show_nat n = map (\<lambda>d. char_of (48 + d)) (rev (dec_le n))"

section \<open>String operations\<close>

text \<open>\<open>trim\<close> on Latin-1: tab to carriage return, space and no-break space.\<close>

definition is_ws :: "char \<Rightarrow> bool" where
  "is_ws c = (let k = (of_char c :: nat) in 9 \<le> k \<and> k \<le> 13 \<or> k = 32 \<or> k = 160)"

definition trim :: "string \<Rightarrow> string" where
  "trim s = rev (dropWhile is_ws (rev (dropWhile is_ws s)))"

definition startsWith :: "string \<Rightarrow> string \<Rightarrow> bool" where
  "startsWith s p \<longleftrightarrow> take (length p) s = p"

definition lower_char :: "char \<Rightarrow> char" where
  "lower_char c =
     (let k = (of_char c :: nat) in
      if 65 \<le> k \<and> k \<le> 90 \<or> 192 \<le> k \<and> k \<le> 222 \<and> k \<noteq> 215 then char_of (k + 32) else c)"

definition toLowerCase :: "string \<Rightarrow> string" where
  "toLowerCase s = map lower_char s"

definition upper_char :: "char \<Rightarrow> char" where
  "upper_char c =
     (let k = (of_char c :: nat) in
      if 97 \<le> k \<and> k \<le> 122 \<or> 224 \<le> k \<and> k \<le> 254 \<and> k \<noteq> 247 then char_of (k - 32) else c)"

definition toUpperCase :: "string \<Rightarrow> string" where
  "toUpperCase s = concat (map (\<lambda>c. if of_char c = (223 :: nat) then ''SS'' else [upper_char c]) s)"

text \<open>\<open>s.replace(/^@/, '')\<close>.\<close>

definition strip_at :: "string \<Rightarrow> string" where
  "strip_at s = (case s of c # rest \<Rightarrow> if c = CHR ''@'' then rest else s | [] \<Rightarrow> [])"

definition show_int :: "int \<Rightarrow> string" where
  "show_int v = (if v < 0 then ''-'' @ show_nat (nat (- v)) else show_nat (nat v))"

text \<open>\<open>parseInt(s, 16)\<close>: leading white space, a sign and an \<open>0x\<close> are skipped, the longest run of
  hexadecimal digits is read and the rest of the string ignored; \<^term>\<open>None\<close> is \<open>NaN\<close>.\<close>

definition parse_digits16 :: "string \<Rightarrow> int option" where
  "parse_digits16 s =
     (let s' = (if startsWith s ''0x'' \<or> startsWith s ''0X'' then drop 2 s else s);
          ds = takeWhile (\<lambda>c. char_nibble c \<noteq> None) s'
      in if ds = [] then None else map_option int (hex_value 0 ds))"

definition parseInt16 :: "string \<Rightarrow> int option" where
  "parseInt16 s =
     (case dropWhile is_ws s of
        [] \<Rightarrow> None
      | c # rest \<Rightarrow>
          if c = CHR ''-'' then map_option uminus (parse_digits16 rest)
          else if c = CHR ''+'' then parse_digits16 rest
          else parse_digits16 (c # rest))"

lemma nibble_not_special:
  "char_nibble c = Some n \<Longrightarrow> \<not> is_ws c \<and> c \<noteq> CHR ''-'' \<and> c \<noteq> CHR ''+'' \<and> c \<noteq> CHR ''x'' \<and> c \<noteq> CHR ''X''"
  by (auto simp: char_nibble_def is_ws_def Let_def split: if_splits)

lemma parseInt16_two_digits:
  assumes "char_nibble a = Some x" and "char_nibble b = Some y"
  shows "parseInt16 [a, b] = Some (int (16 * x + y))"
proof -
  have "\<not> is_ws a" "a \<noteq> CHR ''-''" "a \<noteq> CHR ''+''" "b \<noteq> CHR ''x''" "b \<noteq> CHR ''X''"
    using nibble_not_special [OF assms(1)] nibble_not_special [OF assms(2)] by simp_all
  with assms show ?thesis
    by (simp add: parseInt16_def parse_digits16_def startsWith_def)
qed

lemma parseInt16_byte:
  "parseInt16 [nibble_char (unat (b :: byte) div 16), nibble_char (unat b mod 16)] = Some (uint b)"
proof -
  have "int (16 * (unat b div 16) + unat b mod 16) = uint b" by (simp only: mult_div_mod_eq uint_nat)
  with parseInt16_two_digits [OF char_nibble_nibble_char char_nibble_nibble_char, of "unat b div 16" "unat b mod 16"]
  show ?thesis by simp
qed

end
