(* ===== verification/Bytes.thy ===== *)
theory Bytes
  imports Prelude
begin

text \<open>
  The byte helpers of \<open>packages/chain-solana/src/bytes.ts\<close> (with the \<open>u16Le\<close> that
  \<open>challenge.ts\<close> and \<open>program.ts\<close> each declare): concatenation, fixed-width little-endian
  integers, length-prefixed vectors, unpadded base64url and hexadecimal.
  The locale \<open>int_codec\<close> is the contract the message and instruction formats rely on: an
  encoder refuses exactly the values outside its range, writes a fixed number of bytes, and
  its decoder reads the value back. It is interpreted on the four encoders of the source.
\<close>

section \<open>Definitions\<close>

text \<open>\<open>TextEncoder.encode\<close> on strings of Latin-1 code units.\<close>

definition utf8_char :: "char \<Rightarrow> bytes" where
  "utf8_char c =
     (let k = (of_char c :: nat) in
      if k < 128 then [word_of_nat k] else [word_of_nat (192 + k div 64), word_of_nat (128 + k mod 64)])"

definition utf8 :: "string \<Rightarrow> bytes" where
  "utf8 value = concat (map utf8_char value)"

text \<open>\<open>result.set(value, offset)\<close>, and the loop of \<open>concatBytes\<close> over its arguments.\<close>

definition set_bytes :: "bytes \<Rightarrow> bytes \<Rightarrow> nat \<Rightarrow> bytes" where
  "set_bytes result value offset = take offset result @ value @ drop (offset + length value) result"

fun concatBytes_loop :: "bytes \<Rightarrow> nat \<Rightarrow> bytes list \<Rightarrow> bytes" where
  "concatBytes_loop result offset [] = result"
| "concatBytes_loop result offset (value # values) =
     concatBytes_loop (set_bytes result value offset) (offset + length value) values"

definition concatBytes :: "bytes list \<Rightarrow> bytes" where
  "concatBytes values =
     (let len = foldl (\<lambda>total value. total + length value) 0 values
      in concatBytes_loop (replicate len 0) 0 values)"

definition u16Le :: "js_number \<Rightarrow> bytes js" where
  "u16Le value =
     (if \<not> isInteger value \<or> jlt value (JNum 0) \<or> jlt (JNum 0xffff) value
      then Inl (JsError ''Value is outside the u16 range'')
      else Inr (le_bytes 2 (num_int value)))"

definition u32Le :: "js_number \<Rightarrow> bytes js" where
  "u32Le value =
     (if \<not> isSafeInteger value \<or> jlt value (JNum 0) \<or> jlt (JNum 0xffffffff) value
      then Inl (JsError ''Value is outside the u32 range'')
      else Inr (le_bytes 4 (num_int value)))"

definition u64Le :: "int \<Rightarrow> bytes js" where
  "u64Le value =
     (if value < 0 \<or> value > 0xffffffffffffffff
      then Inl (JsError ''Value is outside the u64 range'')
      else Inr (le_bytes 8 value))"

definition i64Le :: "int \<Rightarrow> bytes js" where
  "i64Le value =
     (if value < - 0x8000000000000000 \<or> value > 0x7fffffffffffffff
      then Inl (JsError ''Value is outside the i64 range'')
      else Inr (le_bytes 8 value))"

definition encodeVector :: "bytes \<Rightarrow> bytes js" where
  "encodeVector value =
     bindE (u32Le (jnat (length value))) (\<lambda>prefix. Inr (concatBytes [prefix, value]))"

text \<open>Base64 as \<open>Buffer\<close> writes and reads it: the decoder accepts both alphabets and skips
  every other character, the padding included.\<close>

definition b64_char :: "nat \<Rightarrow> char" where
  "b64_char n =
     (if n < 26 then char_of (65 + n)
      else if n < 52 then char_of (97 + (n - 26))
      else if n < 62 then char_of (48 + (n - 52))
      else if n = 62 then CHR ''+'' else CHR ''/'')"

definition b64_value :: "char \<Rightarrow> nat option" where
  "b64_value c =
     (let k = (of_char c :: nat) in
      if 65 \<le> k \<and> k \<le> 90 then Some (k - 65)
      else if 97 \<le> k \<and> k \<le> 122 then Some (26 + (k - 97))
      else if 48 \<le> k \<and> k \<le> 57 then Some (52 + (k - 48))
      else if c = CHR ''+'' \<or> c = CHR ''-'' then Some 62
      else if c = CHR ''/'' \<or> c = CHR ''_'' then Some 63
      else None)"

fun sextets :: "bytes \<Rightarrow> nat list" where
  "sextets [] = []"
| "sextets [a] = [unat a div 4, unat a mod 4 * 16]"
| "sextets [a, b] = [unat a div 4, unat a mod 4 * 16 + unat b div 16, unat b mod 16 * 4]"
| "sextets (a # b # c # bs) =
     unat a div 4 # (unat a mod 4 * 16 + unat b div 16) #
     (unat b mod 16 * 4 + unat c div 64) # (unat c mod 64) # sextets bs"

fun unsextets :: "nat list \<Rightarrow> bytes" where
  "unsextets (s # t # u # v # ss) =
     word_of_nat (s * 4 + t div 16) # word_of_nat (t mod 16 * 16 + u div 4) #
     word_of_nat (u mod 4 * 64 + v) # unsextets ss"
| "unsextets [s, t, u] = [word_of_nat (s * 4 + t div 16), word_of_nat (t mod 16 * 16 + u div 4)]"
| "unsextets [s, t] = [word_of_nat (s * 4 + t div 16)]"
| "unsextets _ = []"

definition base64_encode :: "bytes \<Rightarrow> string" where
  "base64_encode bs =
     map b64_char (sextets bs) @ replicate ((3 - length bs mod 3) mod 3) (CHR ''='')"

definition base64_decode :: "string \<Rightarrow> bytes" where
  "base64_decode s = unsextets (List.map_filter b64_value s)"

definition replace_char :: "char \<Rightarrow> char \<Rightarrow> string \<Rightarrow> string" where
  "replace_char a b s = map (\<lambda>c. if c = a then b else c) s"

definition strip_trailing :: "char \<Rightarrow> string \<Rightarrow> string" where
  "strip_trailing c s = rev (dropWhile (\<lambda>d. d = c) (rev s))"

definition bytesToBase64Url :: "bytes \<Rightarrow> string" where
  "bytesToBase64Url value =
     strip_trailing (CHR ''='')
       (replace_char (CHR ''/'') (CHR ''_'')
         (replace_char (CHR ''+'') (CHR ''-'') (base64_encode value)))"

text \<open>The regular expression \<open>^[A-Za-z0-9_-]+$\<close>.\<close>

definition is_base64url_char :: "char \<Rightarrow> bool" where
  "is_base64url_char c =
     (let k = (of_char c :: nat) in
      65 \<le> k \<and> k \<le> 90 \<or> 97 \<le> k \<and> k \<le> 122 \<or> 48 \<le> k \<and> k \<le> 57 \<or> c = CHR ''_'' \<or> c = CHR ''-'')"

definition is_base64url :: "string \<Rightarrow> bool" where
  "is_base64url s = (s \<noteq> [] \<and> list_all is_base64url_char s)"

definition base64UrlToBytes :: "string \<Rightarrow> bytes js" where
  "base64UrlToBytes value =
     (if \<not> is_base64url value \<or> length value mod 4 = 1
      then Inl (JsError ''Value is not unpadded base64url'')
      else
        let padding = replicate ((4 - length value mod 4) mod 4) (CHR ''='');
            base64 = replace_char (CHR ''_'') (CHR ''/'')
                       (replace_char (CHR ''-'') (CHR ''+'') value) @ padding
        in Inr (base64_decode base64))"

definition bytesToHex :: "bytes \<Rightarrow> string" where
  "bytesToHex value = to_hex value"

section \<open>Concatenation\<close>

lemma foldl_length: "foldl (\<lambda>t v. t + length v) k vs = k + length (concat vs)"
  by (induction vs arbitrary: k) simp_all

lemma concatBytes_loop_concat:
  "length (concat vs) = n \<Longrightarrow> concatBytes_loop (pre @ replicate n 0) (length pre) vs = pre @ concat vs"
proof (induction vs arbitrary: pre n)
  case (Cons v vs)
  then have n: "n = length v + length (concat vs)" by simp
  have "set_bytes (pre @ replicate n 0) v (length pre) =
        (pre @ v) @ replicate (length (concat vs)) 0"
    unfolding set_bytes_def n by simp
  with Cons.IH [of "length (concat vs)" "pre @ v"] show ?case by simp
qed simp

lemma concatBytes_eq [simp]: "concatBytes vs = concat vs"
  using concatBytes_loop_concat [of vs "length (concat vs)" "[]"]
  by (simp add: concatBytes_def foldl_length)

section \<open>The integer encoders\<close>

locale int_codec =
  fixes enc :: "'v \<Rightarrow> bytes js"
    and dec :: "bytes \<Rightarrow> 'v"
    and ok :: "'v \<Rightarrow> bool"
    and width :: nat
  assumes enc_ok: "ok v \<Longrightarrow> \<exists>bs. enc v = Inr bs \<and> length bs = width \<and> dec bs = v"
    and enc_refuses: "\<not> ok v \<Longrightarrow> \<exists>m. enc v = Inl (JsError m)"
    and enc_dec: "length bs = width \<Longrightarrow> enc (dec bs) = Inr bs"
begin

lemma enc_Inr_iff: "(\<exists>bs. enc v = Inr bs) \<longleftrightarrow> ok v"
  using enc_ok [of v] enc_refuses [of v] by force

lemma enc_length: "enc v = Inr bs \<Longrightarrow> length bs = width"
  using enc_ok [of v] enc_refuses [of v] by force

lemma dec_enc: "enc v = Inr bs \<Longrightarrow> dec bs = v"
  using enc_ok [of v] enc_refuses [of v] by force

lemma enc_inj: "enc v = Inr bs \<Longrightarrow> enc w = Inr bs \<Longrightarrow> v = w"
  using dec_enc [of v bs] dec_enc [of w bs] by simp

lemma dec_prefix: "enc v = Inr bs \<Longrightarrow> dec (take width (bs @ rest)) = v"
  using dec_enc [of v bs] enc_length [of v bs] by simp

lemma drop_prefix: "enc v = Inr bs \<Longrightarrow> drop width (bs @ rest) = rest"
  using enc_length [of v bs] by simp

end

definition u16_ok :: "js_number \<Rightarrow> bool" where
  "u16_ok x \<longleftrightarrow> (\<exists>v. x = jint v \<and> 0 \<le> v \<and> v < 2 ^ 16)"

definition u32_ok :: "js_number \<Rightarrow> bool" where
  "u32_ok x \<longleftrightarrow> (\<exists>v. x = jint v \<and> 0 \<le> v \<and> v < 2 ^ 32)"

definition u64_ok :: "int \<Rightarrow> bool" where
  "u64_ok v \<longleftrightarrow> 0 \<le> v \<and> v < 2 ^ 64"

definition i64_ok :: "int \<Rightarrow> bool" where
  "i64_ok v \<longleftrightarrow> - (2 ^ 63) \<le> v \<and> v < 2 ^ 63"

lemma u16Le_unfold:
  "u16Le x = (if u16_ok x then Inr (le_bytes 2 (num_int x))
              else Inl (JsError ''Value is outside the u16 range''))"
proof (cases "isInteger x")
  case True
  then obtain v where x: "x = jint v" by (auto simp: isInteger_iff)
  have "(0xffff :: rat) < of_int v \<longleftrightarrow> 0xffff < v" by (metis of_int_less_iff of_int_numeral)
  with x True show ?thesis
    by (auto simp: u16Le_def u16_ok_def simp del: isInteger.simps)
next
  case False
  then show ?thesis by (auto simp: u16Le_def u16_ok_def isInteger_iff)
qed

lemma u32Le_unfold:
  "u32Le x = (if u32_ok x then Inr (le_bytes 4 (num_int x))
              else Inl (JsError ''Value is outside the u32 range''))"
proof (cases "isInteger x")
  case True
  then obtain v where x: "x = jint v" by (auto simp: isInteger_iff)
  have 1: "(0xffffffff :: rat) < of_int v \<longleftrightarrow> 0xffffffff < v"
    by (metis of_int_less_iff of_int_numeral)
  have 2: "of_int v \<le> (9007199254740991 :: rat) \<longleftrightarrow> v \<le> 9007199254740991"
    by (metis of_int_le_iff of_int_numeral)
  have 3: "- 9007199254740991 \<le> (of_int v :: rat) \<longleftrightarrow> - 9007199254740991 \<le> v"
    by (metis of_int_le_iff of_int_numeral of_int_minus)
  from x True 1 2 3 show ?thesis
    by (auto simp: u32Le_def u32_ok_def isSafeInteger_def simp del: isInteger.simps)
next
  case False
  then show ?thesis by (auto simp: u32Le_def u32_ok_def isInteger_iff isSafeInteger_def)
qed

interpretation u16: int_codec u16Le "\<lambda>bs. jint (le_uint bs)" u16_ok 2
proof
  fix x assume "u16_ok x"
  then show "\<exists>bs. u16Le x = Inr bs \<and> length bs = 2 \<and> jint (le_uint bs) = x"
    by (auto simp: u16Le_unfold u16_ok_def le_uint_le_bytes)
next
  fix bs :: bytes assume len: "length bs = 2"
  with le_uint_upper [of bs] have "u16_ok (jint (le_uint bs))" by (auto simp: u16_ok_def)
  with len show "u16Le (jint (le_uint bs)) = Inr bs"
    by (simp add: u16Le_unfold le_bytes_le_uint)
qed (simp add: u16Le_unfold)

interpretation u32: int_codec u32Le "\<lambda>bs. jint (le_uint bs)" u32_ok 4
proof
  fix x assume "u32_ok x"
  then show "\<exists>bs. u32Le x = Inr bs \<and> length bs = 4 \<and> jint (le_uint bs) = x"
    by (auto simp: u32Le_unfold u32_ok_def le_uint_le_bytes)
next
  fix bs :: bytes assume len: "length bs = 4"
  with le_uint_upper [of bs] have "u32_ok (jint (le_uint bs))" by (auto simp: u32_ok_def)
  with len show "u32Le (jint (le_uint bs)) = Inr bs"
    by (simp add: u32Le_unfold le_bytes_le_uint)
qed (simp add: u32Le_unfold)

interpretation u64: int_codec u64Le le_uint u64_ok 8
proof
  fix v assume "u64_ok v"
  then show "\<exists>bs. u64Le v = Inr bs \<and> length bs = 8 \<and> le_uint bs = v"
    by (auto simp: u64Le_def u64_ok_def le_uint_le_bytes)
next
  fix v assume "\<not> u64_ok v"
  then show "\<exists>m. u64Le v = Inl (JsError m)" by (auto simp: u64Le_def u64_ok_def)
next
  fix bs :: bytes assume len: "length bs = 8"
  with le_uint_upper [of bs] le_uint_nonneg [of bs] show "u64Le (le_uint bs) = Inr bs"
    by (simp add: u64Le_def le_bytes_le_uint linorder_not_less del: le_uint_nonneg)
qed

interpretation i64: int_codec i64Le le_sint i64_ok 8
proof
  fix v assume "i64_ok v"
  then show "\<exists>bs. i64Le v = Inr bs \<and> length bs = 8 \<and> le_sint bs = v"
    by (auto simp: i64Le_def i64_ok_def le_sint_le_bytes)
next
  fix v assume "\<not> i64_ok v"
  then show "\<exists>m. i64Le v = Inl (JsError m)" by (auto simp: i64Le_def i64_ok_def)
next
  fix bs :: bytes assume len: "length bs = 8"
  with le_sint_bounds [of bs 8] show "i64Le (le_sint bs) = Inr bs"
    by (auto simp: i64Le_def le_bytes_le_sint)
qed

lemmas int_enc_length = u16.enc_length u32.enc_length u64.enc_length i64.enc_length
lemmas int_enc_inj = u16.enc_inj u32.enc_inj u64.enc_inj i64.enc_inj
lemmas int_dec_enc = u16.dec_enc u32.dec_enc u64.dec_enc i64.dec_enc

section \<open>Length-prefixed vectors\<close>

text \<open>What an on-chain reader does with a vector: the length word, then that many bytes.\<close>

definition decodeVector :: "bytes \<Rightarrow> (bytes \<times> bytes) option" where
  "decodeVector bs =
     (let n = nat (le_uint (take 4 bs)); rest = drop 4 bs in
      if length bs < 4 \<or> length rest < n then None else Some (take n rest, drop n rest))"

lemma u32_ok_nat: "u32_ok (jnat n) \<longleftrightarrow> n < 2 ^ 32"
proof -
  have "(of_nat n :: rat) = of_int v \<longleftrightarrow> int n = v" for v
    by (metis of_int_eq_iff of_int_of_nat_eq)
  then show ?thesis by (auto simp: u32_ok_def)
qed

lemma encodeVector_Inr_iff:
  "encodeVector v = Inr bs \<longleftrightarrow> length v < 2 ^ 32 \<and> bs = le_bytes 4 (int (length v)) @ v"
proof -
  have "num_int (jnat (length v)) = int (length v)" by (simp add: floor_of_nat)
  then show ?thesis
    by (auto simp: encodeVector_def bindE_Inr_iff u32Le_unfold u32_ok_nat simp del: num_int.simps)
qed

lemma decodeVector_encodeVector:
  assumes "encodeVector v = Inr bs"
  shows "decodeVector (bs @ rest) = Some (v, rest)"
proof -
  from assms have "length v < 2 ^ 32" and bs: "bs = le_bytes 4 (int (length v)) @ v"
    by (simp_all add: encodeVector_Inr_iff)
  then have "le_uint (le_bytes 4 (int (length v))) = int (length v)"
    by (simp add: le_uint_le_bytes)
  with bs show ?thesis by (simp add: decodeVector_def)
qed

lemma encodeVector_append_inj:
  assumes "encodeVector v = Inr bs" and "encodeVector w = Inr cs" and "bs @ r = cs @ s"
  shows "v = w \<and> r = s"
  using decodeVector_encodeVector [OF assms(1), of r] decodeVector_encodeVector [OF assms(2), of s]
    assms(3) by simp

section \<open>Unpadded base64url\<close>

text \<open>The URL alphabet: what \<open>b64_char\<close> gives after the two replacements.\<close>

definition b64url_char :: "nat \<Rightarrow> char" where
  "b64url_char n = (if n = 62 then CHR ''-'' else if n = 63 then CHR ''_'' else b64_char n)"

lemma b64_char_code:
  "n < 62 \<Longrightarrow> of_char (b64_char n) = (if n < 26 then 65 + n else if n < 52 then 71 + n else n - 4)"
  by (auto simp: b64_char_def)

lemma b64_char_plain:
  "n < 62 \<Longrightarrow> b64_char n \<noteq> CHR ''+'' \<and> b64_char n \<noteq> CHR ''/'' \<and> b64_char n \<noteq> CHR ''-''
     \<and> b64_char n \<noteq> CHR ''_'' \<and> b64_char n \<noteq> CHR ''=''"
  using b64_char_code [of n] by (auto split: if_splits)

lemma b64_value_char: "n < 64 \<Longrightarrow> b64_value (b64_char n) = Some n"
proof (cases "n < 62")
  case True
  then show ?thesis using b64_char_code [of n] by (auto simp: b64_value_def Let_def)
next
  case False
  moreover assume "n < 64"
  ultimately have "n = 62 \<or> n = 63" by auto
  then show ?thesis by (auto simp: b64_value_def b64_char_def)
qed

lemma is_base64url_b64url_char: "n < 64 \<Longrightarrow> is_base64url_char (b64url_char n)"
proof (cases "n < 62")
  case True
  then show ?thesis
    using b64_char_code [of n] by (auto simp: is_base64url_char_def b64url_char_def Let_def)
next
  case False
  moreover assume "n < 64"
  ultimately have "n = 62 \<or> n = 63" by auto
  then show ?thesis by (auto simp: is_base64url_char_def b64url_char_def)
qed

lemma replace_to_url:
  "n < 64 \<Longrightarrow> replace_char (CHR ''/'') (CHR ''_'') (replace_char (CHR ''+'') (CHR ''-'') [b64_char n])
             = [b64url_char n]"
  using b64_char_plain [of n]
  by (cases "n < 62") (auto simp: replace_char_def b64url_char_def b64_char_def)

lemma replace_from_url:
  "n < 64 \<Longrightarrow> replace_char (CHR ''_'') (CHR ''/'') (replace_char (CHR ''-'') (CHR ''+'') [b64url_char n])
             = [b64_char n]"
  using b64_char_plain [of n]
  by (cases "n < 62") (auto simp: replace_char_def b64url_char_def b64_char_def)

lemma b64url_char_not_pad: "n < 64 \<Longrightarrow> b64url_char n \<noteq> CHR ''=''"
  using b64_char_plain [of n] by (cases "n < 62") (auto simp: b64url_char_def)

lemma sextets_small: "s \<in> set (sextets bs) \<Longrightarrow> s < 64"
proof (induction bs rule: sextets.induct)
  case (4 a b c bs)
  have "unat a mod 4 * 16 + unat b div 16 < 64" using unat_byte_nibbles(1) [of b] by linarith
  moreover have "unat b mod 16 * 4 + unat c div 64 < 64"
    using unat_byte_nibbles(2) [of c] by linarith
  moreover have "unat a div 4 < 64" using unat_byte_nibbles(2) [of a] by linarith
  ultimately show ?case using 4 by auto
next
  case (3 a b)
  have "unat a mod 4 * 16 + unat b div 16 < 64" using unat_byte_nibbles(1) [of b] by linarith
  moreover have "unat a div 4 < 64" using unat_byte_nibbles(2) [of a] by linarith
  ultimately show ?case using 3 by auto
next
  case (2 a)
  have "unat a div 4 < 64" using unat_byte_nibbles(2) [of a] by linarith
  with 2 show ?case by auto
qed simp

lemma byte_quarter: "unat (c :: byte) div 64 < 4"
  using unat_byte_nibbles(2) [of c] by linarith

lemma unsextets_sextets: "unsextets (sextets bs) = bs"
proof (induction bs rule: sextets.induct)
  case (4 a b c bs)
  have "unat a div 4 * 4 + (unat a mod 4 * 16 + unat b div 16) div 16 = unat a"
    using unat_byte_nibbles(1) [of b] by simp
  moreover have "(unat a mod 4 * 16 + unat b div 16) mod 16 * 16
      + (unat b mod 16 * 4 + unat c div 64) div 4 = unat b"
    using unat_byte_nibbles(1) [of b] byte_quarter [of c] by simp
  moreover have "(unat b mod 16 * 4 + unat c div 64) mod 4 * 64 + unat c mod 64 = unat c"
    using byte_quarter [of c] by simp
  ultimately show ?case
    using 4 by (simp del: of_nat_add of_nat_mult)
next
  case (3 a b)
  have "unat a div 4 * 4 + (unat a mod 4 * 16 + unat b div 16) div 16 = unat a"
    using unat_byte_nibbles(1) [of b] by simp
  moreover have "(unat a mod 4 * 16 + unat b div 16) mod 16 * 16 + unat b mod 16 * 4 div 4 = unat b"
    using unat_byte_nibbles(1) [of b] by simp
  ultimately show ?case by (simp del: of_nat_add of_nat_mult)
next
  case (2 a)
  have "unat a div 4 * 4 + unat a mod 4 * 16 div 16 = unat a" by simp
  then show ?case by (simp del: of_nat_add of_nat_mult)
qed simp

lemma length_sextets: "length (sextets bs) = (8 * length bs + 5) div 6"
  by (induction bs rule: sextets.induct) simp_all

lemma replace_char_append: "replace_char a b (s @ t) = replace_char a b s @ replace_char a b t"
  by (simp add: replace_char_def)

lemma replace_to_url_map:
  "\<forall>n \<in> set ns. n < 64 \<Longrightarrow>
   replace_char (CHR ''/'') (CHR ''_'') (replace_char (CHR ''+'') (CHR ''-'') (map b64_char ns))
   = map b64url_char ns"
  using replace_to_url by (induction ns) (simp_all add: replace_char_def)

lemma replace_from_url_map:
  "\<forall>n \<in> set ns. n < 64 \<Longrightarrow>
   replace_char (CHR ''_'') (CHR ''/'') (replace_char (CHR ''-'') (CHR ''+'') (map b64url_char ns))
   = map b64_char ns"
  using replace_from_url by (induction ns) (simp_all add: replace_char_def)

lemma strip_trailing_pad:
  "\<forall>c \<in> set s. c \<noteq> p \<Longrightarrow> strip_trailing p (s @ replicate k p) = s"
proof -
  assume s: "\<forall>c \<in> set s. c \<noteq> p"
  have "dropWhile (\<lambda>d. d = p) (replicate k p @ rev s) = rev s"
    using s last_in_set [of s]
    by (subst dropWhile_append2) (auto simp: dropWhile_eq_self_iff hd_rev)
  then show ?thesis by (simp add: strip_trailing_def)
qed

lemma bytesToBase64Url_eq: "bytesToBase64Url bs = map b64url_char (sextets bs)"
proof -
  have small: "\<forall>n \<in> set (sextets bs). n < 64" by (auto dest: sextets_small)
  have pad: "replace_char (CHR ''/'') (CHR ''_'') (replace_char (CHR ''+'') (CHR ''-'')
      (replicate k (CHR ''=''))) = replicate k (CHR ''='')" for k
    by (simp add: replace_char_def)
  have "\<forall>c \<in> set (map b64url_char (sextets bs)). c \<noteq> CHR ''=''"
    using small b64url_char_not_pad by auto
  then show ?thesis
    by (simp only: bytesToBase64Url_def base64_encode_def replace_char_append
        replace_to_url_map [OF small] pad strip_trailing_pad)
qed

lemma map_filter_b64: "\<forall>n \<in> set ns. n < 64 \<Longrightarrow>
    List.map_filter b64_value (map b64_char ns @ replicate k (CHR ''='')) = ns"
proof (induction ns)
  case Nil
  show ?case by (induction k) (simp_all add: List.map_filter_def b64_value_def)
next
  case (Cons n ns)
  then show ?case by (simp add: b64_value_char List.map_filter_def)
qed

lemma base64_round_trip: "bs \<noteq> [] \<Longrightarrow> base64UrlToBytes (bytesToBase64Url bs) = Inr bs"
proof -
  assume ne: "bs \<noteq> []"
  have small: "\<forall>n \<in> set (sextets bs). n < 64" by (auto dest: sextets_small)
  have "sextets bs \<noteq> []" using ne by (cases bs rule: sextets.cases) simp_all
  then have ok: "is_base64url (map b64url_char (sextets bs))"
    using small is_base64url_b64url_char by (auto simp: is_base64url_def list_all_iff)
  have len: "length (sextets bs) mod 4 \<noteq> 1"
    unfolding length_sextets by presburger
  show ?thesis
    using ok len
    by (simp add: base64UrlToBytes_def bytesToBase64Url_eq replace_from_url_map [OF small]
        base64_decode_def map_filter_b64 [OF small] unsextets_sextets)
qed

end
