(* ===== verification/Sdk.thy ===== *)
theory Sdk
  imports Bytes
begin

text \<open>
  The third-party code the package calls: \<open>@solana/web3.js\<close> (\<open>PublicKey\<close>,
  \<open>TransactionInstruction\<close>, \<open>SystemProgram\<close>), \<open>@solana/spl-token\<close> and the SHA-256 of
  \<open>@noble/hashes\<close>. None of it is under \<open>src/\<close>, so it is a parameter: a record of the
  operations the package uses, over a type \<open>'pk\<close> of public keys. \<open>sdk_ok\<close> states what their
  documentation says and the package relies on: a public key is 32 bytes and determined by
  them, and a SHA-256 digest is 32 bytes.
\<close>

record 'pk sdk =
  sha256 :: "bytes \<Rightarrow> bytes"
  pk_bytes :: "'pk \<Rightarrow> bytes"
  pk_of_bytes :: "bytes \<Rightarrow> 'pk"
  pk_of_base58 :: "string \<Rightarrow> 'pk"
  findProgramAddress :: "bytes list \<Rightarrow> 'pk \<Rightarrow> 'pk"
  getAssociatedTokenAddress :: "'pk \<Rightarrow> 'pk \<Rightarrow> bool \<Rightarrow> 'pk \<Rightarrow> 'pk"
  SYSVAR_INSTRUCTIONS_PUBKEY :: 'pk
  TOKEN_PROGRAM_ID :: 'pk
  ASSOCIATED_TOKEN_PROGRAM_ID :: 'pk
  SystemProgram_programId :: 'pk

text \<open>Instructions as the SDK represents them.\<close>

record 'pk account_meta =
  pubkey :: 'pk
  isSigner :: bool
  isWritable :: bool

record 'pk instruction =
  ix_programId :: 'pk
  ix_keys :: "'pk account_meta list"
  ix_data :: bytes

definition sdk_ok :: "'pk sdk \<Rightarrow> bool" where
  "sdk_ok S \<longleftrightarrow>
     (\<forall>m. length (sha256 S m) = 32) \<and>
     (\<forall>k. length (pk_bytes S k) = 32) \<and>
     (\<forall>k l. pk_bytes S k = pk_bytes S l \<longrightarrow> k = l) \<and>
     (\<forall>bs. length bs = 32 \<longrightarrow> pk_bytes S (pk_of_bytes S bs) = bs)"

lemma sdk_length [codec_simps]: "sdk_ok S \<Longrightarrow> length (pk_bytes S k) = 32"
  by (simp add: sdk_ok_def)

lemma sdk_sha_length [codec_simps]: "sdk_ok S \<Longrightarrow> length (sha256 S m) = 32"
  by (simp add: sdk_ok_def)

lemma sdk_inj [codec_simps]: "sdk_ok S \<Longrightarrow> pk_bytes S k = pk_bytes S l \<longleftrightarrow> k = l"
  by (auto simp: sdk_ok_def)

lemma sdk_of_bytes: "sdk_ok S \<Longrightarrow> length bs = 32 \<Longrightarrow> pk_bytes S (pk_of_bytes S bs) = bs"
  by (simp add: sdk_ok_def)

lemma sdk_of_bytes_bytes: "sdk_ok S \<Longrightarrow> pk_of_bytes S (pk_bytes S k) = k"
  using sdk_of_bytes [of S "pk_bytes S k"] sdk_inj [of S "pk_of_bytes S (pk_bytes S k)" k]
  by (simp add: sdk_length)

text \<open>A concrete instance with 256-bit words for keys, used where a statement is exercised on
  concrete inputs. Its digest keeps the first 32 bytes of a zero-padded message.\<close>

definition word_sdk :: "256 word sdk" where
  "word_sdk =
     \<lparr>sha256 = (\<lambda>bs. take 32 (bs @ replicate 32 0)),
      pk_bytes = (\<lambda>k. le_bytes 32 (uint k)),
      pk_of_bytes = (\<lambda>bs. word_of_int (le_uint bs)),
      pk_of_base58 = (\<lambda>s. of_nat (length s)),
      findProgramAddress = (\<lambda>seeds p. word_of_int (le_uint (concat seeds)) + p),
      getAssociatedTokenAddress = (\<lambda>mint owner b p. mint + owner + p),
      SYSVAR_INSTRUCTIONS_PUBKEY = 1, TOKEN_PROGRAM_ID = 2,
      ASSOCIATED_TOKEN_PROGRAM_ID = 3, SystemProgram_programId = 4\<rparr>"

lemma word_sdk_ok: "sdk_ok word_sdk"
proof -
  have mod: "uint (k :: 256 word) mod 256 ^ 32 = uint k" for k
    using uint_bounded [of k] by simp
  have "le_bytes 32 (uint k) = le_bytes 32 (uint l) \<longrightarrow> k = l" for k l :: "256 word"
    by (metis mod le_uint_le_bytes word_uint_eqI)
  moreover have "le_bytes 32 (uint (word_of_int (le_uint bs) :: 256 word)) = bs"
    if "length bs = 32" for bs
  proof -
    have "le_uint bs < 2 ^ 256" using le_uint_upper [of bs] that by simp
    then have "uint (word_of_int (le_uint bs) :: 256 word) = le_uint bs"
      by (simp add: uint_word_of_int)
    with that show ?thesis by (simp add: le_bytes_le_uint)
  qed
  moreover have "length (take 32 (m @ replicate 32 0)) = 32" for m :: bytes
    by simp
  ultimately show ?thesis by (simp add: sdk_ok_def word_sdk_def del: length_take)
qed

end
