(* ===== verification/Challenge.thy ===== *)
theory Challenge
  imports Sdk
begin

text \<open>
  The signing challenges of \<open>packages/chain-solana/src/challenge.ts\<close> and the constants of
  \<open>constants.ts\<close> they use. A challenge is the SHA-256 of a domain tag and the fields of one
  action; a passkey signs it and the on-chain program recomputes it, so it has to determine
  the action and every field. Each challenge function is the checks of the source followed
  by the array literal it hashes, which is a definition of its own (\<open>\<dots>Parts\<close>).
  The locale \<open>challenge_format\<close> is what makes such an array a binding format; it is
  interpreted on all seven.
\<close>

section \<open>Constants\<close>

definition CHALLENGE_DOMAIN :: bytes where
  "CHALLENGE_DOMAIN = utf8 ''VERIAGENT_SOLANA_V1''"

definition ACTION_INITIALIZE_VAULT :: byte where "ACTION_INITIALIZE_VAULT = 1"
definition ACTION_GRANT_SESSION :: byte where "ACTION_GRANT_SESSION = 2"
definition ACTION_TRANSFER :: byte where "ACTION_TRANSFER = 3"
definition ACTION_INITIALIZE_VAULT_AND_GRANT_SESSION :: byte where
  "ACTION_INITIALIZE_VAULT_AND_GRANT_SESSION = 4"
definition ACTION_TRANSFER_SOL :: byte where "ACTION_TRANSFER_SOL = 5"
definition ACTION_CREATE_SOL_PAYMENT_LINK :: byte where "ACTION_CREATE_SOL_PAYMENT_LINK = 6"
definition ACTION_CANCEL_SOL_PAYMENT_LINK :: byte where "ACTION_CANCEL_SOL_PAYMENT_LINK = 7"

lemmas action_defs = ACTION_INITIALIZE_VAULT_def ACTION_GRANT_SESSION_def ACTION_TRANSFER_def
  ACTION_INITIALIZE_VAULT_AND_GRANT_SESSION_def ACTION_TRANSFER_SOL_def
  ACTION_CREATE_SOL_PAYMENT_LINK_def ACTION_CANCEL_SOL_PAYMENT_LINK_def

section \<open>Inputs\<close>

record 'pk InitializeVaultChallengeInput =
  iv_clusterDomain :: bytes
  iv_programId :: 'pk
  iv_config :: 'pk
  iv_vault :: 'pk
  iv_vaultTokenAccount :: 'pk
  iv_rootPublicKey :: bytes
  iv_rootKeyHash :: bytes
  iv_userSalt :: bytes
  iv_expiresAtUnix :: int

record 'pk TransferChallengeInput =
  tr_clusterDomain :: bytes
  tr_programId :: 'pk
  tr_config :: 'pk
  tr_vault :: 'pk
  tr_vaultTokenAccount :: 'pk
  tr_destinationTokenAccount :: 'pk
  tr_stablecoinMint :: 'pk
  tr_amount :: int
  tr_vaultNonce :: int
  tr_expiresAtUnix :: int

record 'pk SessionGrantChallengeInput =
  sg_clusterDomain :: bytes
  sg_programId :: 'pk
  sg_config :: 'pk
  sg_vault :: 'pk
  sg_session :: 'pk
  sg_sessionPublicKey :: 'pk
  sg_actionBitmap :: js_number
  sg_perActionLimit :: int
  sg_cumulativeLimit :: int
  sg_validAfterUnix :: int
  sg_validUntilUnix :: int
  sg_vaultNonce :: int
  sg_expiresAtUnix :: int

record 'pk InitializeVaultAndGrantSessionChallengeInput =
  ig_clusterDomain :: bytes
  ig_programId :: 'pk
  ig_config :: 'pk
  ig_vault :: 'pk
  ig_session :: 'pk
  ig_sessionPublicKey :: 'pk
  ig_actionBitmap :: js_number
  ig_perActionLimit :: int
  ig_cumulativeLimit :: int
  ig_validAfterUnix :: int
  ig_validUntilUnix :: int
  ig_expiresAtUnix :: int
  ig_vaultTokenAccount :: 'pk
  ig_stablecoinMint :: 'pk
  ig_rootPublicKey :: bytes
  ig_rootKeyHash :: bytes
  ig_userSalt :: bytes

record 'pk SolTransferChallengeInput =
  st_clusterDomain :: bytes
  st_programId :: 'pk
  st_config :: 'pk
  st_vault :: 'pk
  st_recipient :: 'pk
  st_amountLamports :: int
  st_vaultNonce :: int
  st_expiresAtUnix :: int

record 'pk SolPaymentLinkChallengeInput =
  pl_clusterDomain :: bytes
  pl_programId :: 'pk
  pl_config :: 'pk
  pl_vault :: 'pk
  pl_paymentLink :: 'pk
  pl_linkId :: bytes
  pl_recipientCommitment :: bytes
  pl_amountLamports :: int
  pl_linkExpiresAtUnix :: int
  pl_vaultNonce :: int
  pl_proofExpiresAtUnix :: int

record 'pk CancelSolPaymentLinkChallengeInput =
  cl_clusterDomain :: bytes
  cl_programId :: 'pk
  cl_config :: 'pk
  cl_vault :: 'pk
  cl_paymentLink :: 'pk
  cl_vaultNonce :: int
  cl_proofExpiresAtUnix :: int

section \<open>The challenge functions\<close>

definition assertBytes :: "bytes \<Rightarrow> nat \<Rightarrow> string \<Rightarrow> unit js" where
  "assertBytes value n name =
     (if length value \<noteq> n
      then Inl (JsError (name @ '' must contain '' @ show_nat n @ '' bytes''))
      else Inr ())"

definition challenge_message :: "bytes list \<Rightarrow> bytes" where
  "challenge_message parts = concatBytes (CHALLENGE_DOMAIN # parts)"

definition challenge :: "'pk sdk \<Rightarrow> bytes list \<Rightarrow> bytes" where
  "challenge S parts = sha256 S (challenge_message parts)"

definition clusterDomainFromGenesisHash :: "'pk sdk \<Rightarrow> string \<Rightarrow> bytes js" where
  "clusterDomainFromGenesisHash S genesisHash =
     (let normalized = trim genesisHash in
      if length normalized = 0
      then Inl (JsError ''Genesis hash is required for cluster-domain binding'')
      else Inr (sha256 S (utf8 normalized)))"

definition initializeVaultParts :: "'pk sdk \<Rightarrow> 'pk InitializeVaultChallengeInput \<Rightarrow> bytes list js" where
  "initializeVaultParts S input =
     bindE (assertBytes (iv_clusterDomain input) 32 ''cluster domain'') (\<lambda>_.
     bindE (assertBytes (iv_rootPublicKey input) 33 ''root public key'') (\<lambda>_.
     bindE (assertBytes (iv_rootKeyHash input) 32 ''root key hash'') (\<lambda>_.
     bindE (assertBytes (iv_userSalt input) 32 ''user salt'') (\<lambda>_.
     seqE [Inr (iv_clusterDomain input),
           Inr (pk_bytes S (iv_programId input)),
           Inr [ACTION_INITIALIZE_VAULT],
           Inr (pk_bytes S (iv_config input)),
           Inr (pk_bytes S (iv_vault input)),
           Inr (pk_bytes S (iv_vaultTokenAccount input)),
           Inr (iv_rootPublicKey input),
           Inr (iv_rootKeyHash input),
           Inr (iv_userSalt input),
           u64Le 0,
           i64Le (iv_expiresAtUnix input)]))))"

definition initializeVaultChallenge :: "'pk sdk \<Rightarrow> 'pk InitializeVaultChallengeInput \<Rightarrow> bytes js" where
  "initializeVaultChallenge S input =
     bindE (initializeVaultParts S input) (\<lambda>parts. Inr (challenge S parts))"

definition transferParts :: "'pk sdk \<Rightarrow> 'pk TransferChallengeInput \<Rightarrow> bytes list js" where
  "transferParts S input =
     bindE (assertBytes (tr_clusterDomain input) 32 ''cluster domain'') (\<lambda>_.
     seqE [Inr (tr_clusterDomain input),
           Inr (pk_bytes S (tr_programId input)),
           Inr [ACTION_TRANSFER],
           Inr (pk_bytes S (tr_config input)),
           Inr (pk_bytes S (tr_vault input)),
           Inr (pk_bytes S (tr_vaultTokenAccount input)),
           Inr (pk_bytes S (tr_destinationTokenAccount input)),
           Inr (pk_bytes S (tr_stablecoinMint input)),
           u64Le (tr_amount input),
           u64Le (tr_vaultNonce input),
           i64Le (tr_expiresAtUnix input)])"

definition transferChallenge :: "'pk sdk \<Rightarrow> 'pk TransferChallengeInput \<Rightarrow> bytes js" where
  "transferChallenge S input = bindE (transferParts S input) (\<lambda>parts. Inr (challenge S parts))"

definition sessionGrantParts :: "'pk sdk \<Rightarrow> 'pk SessionGrantChallengeInput \<Rightarrow> bytes list js" where
  "sessionGrantParts S input =
     bindE (assertBytes (sg_clusterDomain input) 32 ''cluster domain'') (\<lambda>_.
     seqE [Inr (sg_clusterDomain input),
           Inr (pk_bytes S (sg_programId input)),
           Inr [ACTION_GRANT_SESSION],
           Inr (pk_bytes S (sg_config input)),
           Inr (pk_bytes S (sg_vault input)),
           Inr (pk_bytes S (sg_session input)),
           Inr (pk_bytes S (sg_sessionPublicKey input)),
           u16Le (sg_actionBitmap input),
           u64Le (sg_perActionLimit input),
           u64Le (sg_cumulativeLimit input),
           i64Le (sg_validAfterUnix input),
           i64Le (sg_validUntilUnix input),
           u64Le (sg_vaultNonce input),
           i64Le (sg_expiresAtUnix input)])"

definition sessionGrantChallenge :: "'pk sdk \<Rightarrow> 'pk SessionGrantChallengeInput \<Rightarrow> bytes js" where
  "sessionGrantChallenge S input =
     bindE (sessionGrantParts S input) (\<lambda>parts. Inr (challenge S parts))"

definition initializeVaultAndGrantSessionParts ::
    "'pk sdk \<Rightarrow> 'pk InitializeVaultAndGrantSessionChallengeInput \<Rightarrow> bytes list js" where
  "initializeVaultAndGrantSessionParts S input =
     bindE (assertBytes (ig_clusterDomain input) 32 ''cluster domain'') (\<lambda>_.
     bindE (assertBytes (ig_rootPublicKey input) 33 ''root public key'') (\<lambda>_.
     bindE (assertBytes (ig_rootKeyHash input) 32 ''root key hash'') (\<lambda>_.
     bindE (assertBytes (ig_userSalt input) 32 ''user salt'') (\<lambda>_.
     seqE [Inr (ig_clusterDomain input),
           Inr (pk_bytes S (ig_programId input)),
           Inr [ACTION_INITIALIZE_VAULT_AND_GRANT_SESSION],
           Inr (pk_bytes S (ig_config input)),
           Inr (pk_bytes S (ig_vault input)),
           Inr (pk_bytes S (ig_session input)),
           Inr (pk_bytes S (ig_vaultTokenAccount input)),
           Inr (pk_bytes S (ig_stablecoinMint input)),
           Inr (ig_rootPublicKey input),
           Inr (ig_rootKeyHash input),
           Inr (ig_userSalt input),
           Inr (pk_bytes S (ig_sessionPublicKey input)),
           u16Le (ig_actionBitmap input),
           u64Le (ig_perActionLimit input),
           u64Le (ig_cumulativeLimit input),
           i64Le (ig_validAfterUnix input),
           i64Le (ig_validUntilUnix input),
           u64Le 0,
           i64Le (ig_expiresAtUnix input)]))))"

definition initializeVaultAndGrantSessionChallenge ::
    "'pk sdk \<Rightarrow> 'pk InitializeVaultAndGrantSessionChallengeInput \<Rightarrow> bytes js" where
  "initializeVaultAndGrantSessionChallenge S input =
     bindE (initializeVaultAndGrantSessionParts S input) (\<lambda>parts. Inr (challenge S parts))"

definition solTransferParts :: "'pk sdk \<Rightarrow> 'pk SolTransferChallengeInput \<Rightarrow> bytes list js" where
  "solTransferParts S input =
     bindE (assertBytes (st_clusterDomain input) 32 ''cluster domain'') (\<lambda>_.
     seqE [Inr (st_clusterDomain input),
           Inr (pk_bytes S (st_programId input)),
           Inr [ACTION_TRANSFER_SOL],
           Inr (pk_bytes S (st_config input)),
           Inr (pk_bytes S (st_vault input)),
           Inr (pk_bytes S (st_recipient input)),
           u64Le (st_amountLamports input),
           u64Le (st_vaultNonce input),
           i64Le (st_expiresAtUnix input)])"

definition solTransferChallenge :: "'pk sdk \<Rightarrow> 'pk SolTransferChallengeInput \<Rightarrow> bytes js" where
  "solTransferChallenge S input =
     bindE (solTransferParts S input) (\<lambda>parts. Inr (challenge S parts))"

definition solPaymentLinkParts :: "'pk sdk \<Rightarrow> 'pk SolPaymentLinkChallengeInput \<Rightarrow> bytes list js" where
  "solPaymentLinkParts S input =
     bindE (assertBytes (pl_clusterDomain input) 32 ''cluster domain'') (\<lambda>_.
     bindE (assertBytes (pl_linkId input) 32 ''payment-link ID'') (\<lambda>_.
     bindE (assertBytes (pl_recipientCommitment input) 32 ''recipient commitment'') (\<lambda>_.
     seqE [Inr (pl_clusterDomain input),
           Inr (pk_bytes S (pl_programId input)),
           Inr [ACTION_CREATE_SOL_PAYMENT_LINK],
           Inr (pk_bytes S (pl_config input)),
           Inr (pk_bytes S (pl_vault input)),
           Inr (pk_bytes S (pl_paymentLink input)),
           Inr (pl_linkId input),
           Inr (pl_recipientCommitment input),
           u64Le (pl_amountLamports input),
           i64Le (pl_linkExpiresAtUnix input),
           u64Le (pl_vaultNonce input),
           i64Le (pl_proofExpiresAtUnix input)])))"

definition solPaymentLinkChallenge :: "'pk sdk \<Rightarrow> 'pk SolPaymentLinkChallengeInput \<Rightarrow> bytes js" where
  "solPaymentLinkChallenge S input =
     bindE (solPaymentLinkParts S input) (\<lambda>parts. Inr (challenge S parts))"

definition cancelSolPaymentLinkParts ::
    "'pk sdk \<Rightarrow> 'pk CancelSolPaymentLinkChallengeInput \<Rightarrow> bytes list js" where
  "cancelSolPaymentLinkParts S input =
     bindE (assertBytes (cl_clusterDomain input) 32 ''cluster domain'') (\<lambda>_.
     seqE [Inr (cl_clusterDomain input),
           Inr (pk_bytes S (cl_programId input)),
           Inr [ACTION_CANCEL_SOL_PAYMENT_LINK],
           Inr (pk_bytes S (cl_config input)),
           Inr (pk_bytes S (cl_vault input)),
           Inr (pk_bytes S (cl_paymentLink input)),
           u64Le (cl_vaultNonce input),
           i64Le (cl_proofExpiresAtUnix input)])"

definition cancelSolPaymentLinkChallenge ::
    "'pk sdk \<Rightarrow> 'pk CancelSolPaymentLinkChallengeInput \<Rightarrow> bytes js" where
  "cancelSolPaymentLinkChallenge S input =
     bindE (cancelSolPaymentLinkParts S input) (\<lambda>parts. Inr (challenge S parts))"

section \<open>Binding formats\<close>

locale binding_format =
  fixes parts :: "'pk sdk \<Rightarrow> 'i \<Rightarrow> bytes list js"
  assumes parts_inj: "sdk_ok S \<Longrightarrow> parts S a = Inr p \<Longrightarrow> parts S b = Inr q \<Longrightarrow>
                      concat p = concat q \<Longrightarrow> a = b"
begin

lemma binding:
  assumes "sdk_ok S" and "parts S a = Inr p" and "parts S b = Inr q"
    and "challenge S p = challenge S q"
  shows "a = b \<or> (challenge_message p \<noteq> challenge_message q
                  \<and> sha256 S (challenge_message p) = sha256 S (challenge_message q))"
  using assms parts_inj [OF assms(1-3)] by (auto simp: challenge_def challenge_message_def)

end

text \<open>A format that also carries its action byte after the cluster domain and the program id.\<close>

locale challenge_format = binding_format parts
  for parts :: "'pk sdk \<Rightarrow> 'i \<Rightarrow> bytes list js" +
  fixes action :: byte
  assumes parts_tag: "sdk_ok S \<Longrightarrow> parts S a = Inr p \<Longrightarrow>
                      length (concat p) > 64 \<and> concat p ! 64 = action"

lemma assertBytes_Inr_iff [js_simps]: "assertBytes v n name = Inr u \<longleftrightarrow> length v = n"
  by (auto simp: assertBytes_def)

lemmas parts_defs = initializeVaultParts_def transferParts_def sessionGrantParts_def
  initializeVaultAndGrantSessionParts_def solTransferParts_def solPaymentLinkParts_def
  cancelSolPaymentLinkParts_def

interpretation initializeVault: challenge_format initializeVaultParts ACTION_INITIALIZE_VAULT
  by unfold_locales
    (auto simp: parts_defs js_simps codec_simps int_enc_length nth_append
       intro!: InitializeVaultChallengeInput.equality dest: int_enc_inj)

interpretation transfer: challenge_format transferParts ACTION_TRANSFER
  by unfold_locales
    (auto simp: parts_defs js_simps codec_simps int_enc_length nth_append
       intro!: TransferChallengeInput.equality dest: int_enc_inj)

interpretation sessionGrant: challenge_format sessionGrantParts ACTION_GRANT_SESSION
  by unfold_locales
    (auto simp: parts_defs js_simps codec_simps int_enc_length nth_append
       intro!: SessionGrantChallengeInput.equality dest: int_enc_inj)

interpretation vaultAndSession: challenge_format initializeVaultAndGrantSessionParts 
    ACTION_INITIALIZE_VAULT_AND_GRANT_SESSION
  by unfold_locales
    (auto simp: parts_defs js_simps codec_simps int_enc_length nth_append
       intro!: InitializeVaultAndGrantSessionChallengeInput.equality dest: int_enc_inj)

interpretation solTransfer: challenge_format solTransferParts ACTION_TRANSFER_SOL
  by unfold_locales
    (auto simp: parts_defs js_simps codec_simps int_enc_length nth_append
       intro!: SolTransferChallengeInput.equality dest: int_enc_inj)

interpretation solPaymentLink: challenge_format solPaymentLinkParts ACTION_CREATE_SOL_PAYMENT_LINK
  by unfold_locales
    (auto simp: parts_defs js_simps codec_simps int_enc_length nth_append
       intro!: SolPaymentLinkChallengeInput.equality dest: int_enc_inj)

interpretation cancelLink: challenge_format cancelSolPaymentLinkParts ACTION_CANCEL_SOL_PAYMENT_LINK
  by unfold_locales
    (auto simp: parts_defs js_simps codec_simps int_enc_length nth_append
       intro!: CancelSolPaymentLinkChallengeInput.equality dest: int_enc_inj)

section \<open>Every action together\<close>

text \<open>The seven kinds of request a passkey is asked to sign, and the challenge for each.\<close>

datatype 'pk signing_request =
    SignInitializeVault "'pk InitializeVaultChallengeInput"
  | SignTransfer "'pk TransferChallengeInput"
  | SignSessionGrant "'pk SessionGrantChallengeInput"
  | SignVaultAndSession "'pk InitializeVaultAndGrantSessionChallengeInput"
  | SignSolTransfer "'pk SolTransferChallengeInput"
  | SignSolPaymentLink "'pk SolPaymentLinkChallengeInput"
  | SignCancelSolPaymentLink "'pk CancelSolPaymentLinkChallengeInput"

fun request_challenge :: "'pk sdk \<Rightarrow> 'pk signing_request \<Rightarrow> bytes js" where
  "request_challenge S (SignInitializeVault i) = initializeVaultChallenge S i"
| "request_challenge S (SignTransfer i) = transferChallenge S i"
| "request_challenge S (SignSessionGrant i) = sessionGrantChallenge S i"
| "request_challenge S (SignVaultAndSession i) = initializeVaultAndGrantSessionChallenge S i"
| "request_challenge S (SignSolTransfer i) = solTransferChallenge S i"
| "request_challenge S (SignSolPaymentLink i) = solPaymentLinkChallenge S i"
| "request_challenge S (SignCancelSolPaymentLink i) = cancelSolPaymentLinkChallenge S i"

fun request_parts :: "'pk sdk \<Rightarrow> 'pk signing_request \<Rightarrow> bytes list js" where
  "request_parts S (SignInitializeVault i) = initializeVaultParts S i"
| "request_parts S (SignTransfer i) = transferParts S i"
| "request_parts S (SignSessionGrant i) = sessionGrantParts S i"
| "request_parts S (SignVaultAndSession i) = initializeVaultAndGrantSessionParts S i"
| "request_parts S (SignSolTransfer i) = solTransferParts S i"
| "request_parts S (SignSolPaymentLink i) = solPaymentLinkParts S i"
| "request_parts S (SignCancelSolPaymentLink i) = cancelSolPaymentLinkParts S i"

fun request_action :: "'pk signing_request \<Rightarrow> byte" where
  "request_action (SignInitializeVault i) = ACTION_INITIALIZE_VAULT"
| "request_action (SignTransfer i) = ACTION_TRANSFER"
| "request_action (SignSessionGrant i) = ACTION_GRANT_SESSION"
| "request_action (SignVaultAndSession i) = ACTION_INITIALIZE_VAULT_AND_GRANT_SESSION"
| "request_action (SignSolTransfer i) = ACTION_TRANSFER_SOL"
| "request_action (SignSolPaymentLink i) = ACTION_CREATE_SOL_PAYMENT_LINK"
| "request_action (SignCancelSolPaymentLink i) = ACTION_CANCEL_SOL_PAYMENT_LINK"

lemmas challenge_defs = initializeVaultChallenge_def transferChallenge_def sessionGrantChallenge_def
  initializeVaultAndGrantSessionChallenge_def solTransferChallenge_def solPaymentLinkChallenge_def
  cancelSolPaymentLinkChallenge_def

lemma request_challenge_eq:
  "request_challenge S r = bindE (request_parts S r) (\<lambda>parts. Inr (challenge S parts))"
  by (cases r) (simp_all add: challenge_defs)

lemma request_tag:
  "sdk_ok S \<Longrightarrow> request_parts S r = Inr p \<Longrightarrow> concat p ! 64 = request_action r"
  by (cases r)
    (auto dest: initializeVault.parts_tag transfer.parts_tag sessionGrant.parts_tag
       vaultAndSession.parts_tag solTransfer.parts_tag solPaymentLink.parts_tag
       cancelLink.parts_tag)

lemma request_parts_inj:
  assumes "sdk_ok S" and "request_parts S a = Inr p" and "request_parts S b = Inr q"
    and "concat p = concat q"
  shows "a = b"
proof -
  have tag: "request_action a = request_action b"
    using request_tag assms by metis
  show ?thesis
  proof (cases a; cases b)
  qed (use tag assms in \<open>auto simp: action_defs intro: initializeVault.parts_inj transfer.parts_inj
      sessionGrant.parts_inj vaultAndSession.parts_inj solTransfer.parts_inj
      solPaymentLink.parts_inj cancelLink.parts_inj\<close>)
qed

interpretation request: binding_format request_parts
  by unfold_locales (rule request_parts_inj)

text \<open>When each request is accepted: its byte strings have the lengths the format fixes and its
  integers fit their words.\<close>

fun request_ok :: "'pk signing_request \<Rightarrow> bool" where
  "request_ok (SignInitializeVault i) \<longleftrightarrow>
     length (iv_clusterDomain i) = 32 \<and> length (iv_rootPublicKey i) = 33 \<and>
     length (iv_rootKeyHash i) = 32 \<and> length (iv_userSalt i) = 32 \<and> i64_ok (iv_expiresAtUnix i)"
| "request_ok (SignTransfer i) \<longleftrightarrow>
     length (tr_clusterDomain i) = 32 \<and> u64_ok (tr_amount i) \<and> u64_ok (tr_vaultNonce i) \<and>
     i64_ok (tr_expiresAtUnix i)"
| "request_ok (SignSessionGrant i) \<longleftrightarrow>
     length (sg_clusterDomain i) = 32 \<and> u16_ok (sg_actionBitmap i) \<and>
     u64_ok (sg_perActionLimit i) \<and> u64_ok (sg_cumulativeLimit i) \<and>
     i64_ok (sg_validAfterUnix i) \<and> i64_ok (sg_validUntilUnix i) \<and>
     u64_ok (sg_vaultNonce i) \<and> i64_ok (sg_expiresAtUnix i)"
| "request_ok (SignVaultAndSession i) \<longleftrightarrow>
     length (ig_clusterDomain i) = 32 \<and> length (ig_rootPublicKey i) = 33 \<and>
     length (ig_rootKeyHash i) = 32 \<and> length (ig_userSalt i) = 32 \<and>
     u16_ok (ig_actionBitmap i) \<and> u64_ok (ig_perActionLimit i) \<and>
     u64_ok (ig_cumulativeLimit i) \<and> i64_ok (ig_validAfterUnix i) \<and>
     i64_ok (ig_validUntilUnix i) \<and> i64_ok (ig_expiresAtUnix i)"
| "request_ok (SignSolTransfer i) \<longleftrightarrow>
     length (st_clusterDomain i) = 32 \<and> u64_ok (st_amountLamports i) \<and>
     u64_ok (st_vaultNonce i) \<and> i64_ok (st_expiresAtUnix i)"
| "request_ok (SignSolPaymentLink i) \<longleftrightarrow>
     length (pl_clusterDomain i) = 32 \<and> length (pl_linkId i) = 32 \<and>
     length (pl_recipientCommitment i) = 32 \<and> u64_ok (pl_amountLamports i) \<and>
     i64_ok (pl_linkExpiresAtUnix i) \<and> u64_ok (pl_vaultNonce i) \<and>
     i64_ok (pl_proofExpiresAtUnix i)"
| "request_ok (SignCancelSolPaymentLink i) \<longleftrightarrow>
     length (cl_clusterDomain i) = 32 \<and> u64_ok (cl_vaultNonce i) \<and>
     i64_ok (cl_proofExpiresAtUnix i)"

lemma u64_ok_0 [simp]: "u64_ok 0"
  by (simp add: u64_ok_def)

lemma returns_enc:
  "returns (u16Le x) \<longleftrightarrow> u16_ok x"
  "returns (u64Le v) \<longleftrightarrow> u64_ok v"
  "returns (i64Le v) \<longleftrightarrow> i64_ok v"
  "returns (assertBytes bs n name) \<longleftrightarrow> length bs = n"
  by (simp_all add: returns_def u16.enc_Inr_iff u64.enc_Inr_iff i64.enc_Inr_iff assertBytes_Inr_iff)

section \<open>Properties\<close>

text \<open>C7. A challenge binds the whole request: if two requests, of the same or of different
  actions, have the same challenge, then they are the same request, field for field, or the
  two signed messages are an explicit SHA-256 collision.\<close>

theorem challenge_binds_request:
  assumes "sdk_ok S" and "request_challenge S a = Inr c" and "request_challenge S b = Inr c"
  shows "a = b \<or> (\<exists>p q. request_parts S a = Inr p \<and> request_parts S b = Inr q
                  \<and> challenge_message p \<noteq> challenge_message q
                  \<and> sha256 S (challenge_message p) = sha256 S (challenge_message q))"
proof -
  from assms obtain p q where "request_parts S a = Inr p" "request_parts S b = Inr q"
    and "challenge S p = challenge S q"
    by (auto simp: request_challenge_eq js_simps)
  with request.binding [OF assms(1)] show ?thesis by blast
qed

text \<open>A challenge function returns exactly on well-formed requests: every byte string of
  the stated length and every integer inside its unsigned or signed word; otherwise it
  throws, so no truncated or wrapped value is ever signed.\<close>

theorem challenge_returns_iff_ok: "(\<exists>c. request_challenge S r = Inr c) \<longleftrightarrow> request_ok r"
  unfolding request_challenge_eq returns_def [symmetric]
  by (cases r) (simp_all add: parts_defs returns_seqE returns_enc del: seqE.simps)

text \<open>Two requests of different actions under the truncating digest of \<open>word_sdk\<close>: both are
  accepted and their challenges agree, so the theorem exhibits the colliding messages.\<close>

definition demo_transfer :: "256 word TransferChallengeInput" where
  "demo_transfer =
     \<lparr>tr_clusterDomain = replicate 32 7, tr_programId = 10, tr_config = 11, tr_vault = 12,
      tr_vaultTokenAccount = 13, tr_destinationTokenAccount = 14, tr_stablecoinMint = 15,
      tr_amount = 5000000, tr_vaultNonce = 4, tr_expiresAtUnix = 1800000000\<rparr>"

definition demo_sol_transfer :: "256 word SolTransferChallengeInput" where
  "demo_sol_transfer =
     \<lparr>st_clusterDomain = replicate 32 7, st_programId = 10, st_config = 11, st_vault = 12,
      st_recipient = 14, st_amountLamports = 5000000, st_vaultNonce = 4,
      st_expiresAtUnix = 1800000000\<rparr>"

definition demo_digest :: bytes where
  "demo_digest = CHALLENGE_DOMAIN @ replicate 13 7"

theorem challenge_binds_request_witness:
  "sdk_ok word_sdk
   \<and> request_challenge word_sdk (SignTransfer demo_transfer) = Inr demo_digest
   \<and> request_challenge word_sdk (SignSolTransfer demo_sol_transfer) = Inr demo_digest
   \<and> (\<exists>p q. request_parts word_sdk (SignTransfer demo_transfer) = Inr p
        \<and> request_parts word_sdk (SignSolTransfer demo_sol_transfer) = Inr q
        \<and> challenge_message p \<noteq> challenge_message q
        \<and> sha256 word_sdk (challenge_message p) = sha256 word_sdk (challenge_message q))"
proof -
  have a: "request_challenge word_sdk (SignTransfer demo_transfer) = Inr demo_digest" by code_simp
  have b: "request_challenge word_sdk (SignSolTransfer demo_sol_transfer) = Inr demo_digest"
    by code_simp
  from challenge_binds_request [OF word_sdk_ok a b] a b word_sdk_ok show ?thesis by auto
qed

end
