(* ===== verification/P256.thy ===== *)
theory P256
  imports Sdk
begin

text \<open>
  \<open>packages/chain-solana/src/p256.ts\<close> and \<open>veridex-passkey.ts\<close>: the DER encoding of P-256
  signatures (written by \<open>compactScalarsToDer\<close>, read by \<open>derToCompactLowS\<close>, which also moves
  \<open>s\<close> to the lower half of the curve order) and the instruction for the on-chain signature
  precompile. The central lemmas characterise the DER integers both sides agree on
  (\<open>der_canon\<close>): the reader accepts exactly the writer's output.
\<close>

unbundle bit_operations_syntax

section \<open>Definitions: p256.ts\<close>

definition CURVE_ORDER :: int where
  "CURVE_ORDER = 0xffffffff00000000ffffffffffffffffbce6faada7179e84f3b9cac2fc632551"

definition HALF_CURVE_ORDER :: int where
  "HALF_CURVE_ORDER = CURVE_ORDER div 2"

definition PUBLIC_KEY_SIZE :: nat where "PUBLIC_KEY_SIZE = 33"
definition COMPACT_SIGNATURE_SIZE :: nat where "COMPACT_SIGNATURE_SIZE = 64"
definition OFFSETS_SIZE :: nat where "OFFSETS_SIZE = 14"
definition DATA_START :: nat where "DATA_START = 2 + OFFSETS_SIZE"

record WebAuthnProof =
  compressedPublicKey :: bytes
  authenticatorData :: bytes
  clientDataJson :: bytes
  signatureDer :: bytes

definition webAuthnSignedMessage :: "'pk sdk \<Rightarrow> bytes \<Rightarrow> bytes \<Rightarrow> bytes js" where
  "webAuthnSignedMessage S authData clientData =
     (if length authData < 37
      then Inl (JsError ''Authenticator data must contain RP hash, flags, and sign count'')
      else Inr (concatBytes [authData, sha256 S clientData]))"

definition readDerElement :: "bytes \<Rightarrow> nat \<Rightarrow> byte \<Rightarrow> (nat \<times> nat) js" where
  "readDerElement input offset expectedTag =
     (if elemAt input offset \<noteq> Some expectedTag
      then Inl (JsError ''DER signature has an unexpected tag'')
      else
        let finish = (\<lambda>contentStart len.
              let fin = contentStart + len in
              if fin > length input then Inl (JsError ''DER signature is truncated'')
              else Inr (contentStart, fin))
        in case elemAt input (offset + 1) of
             None \<Rightarrow> Inl (JsError ''DER signature is truncated'')
           | Some firstLength \<Rightarrow>
               if unat firstLength < 0x80 then finish (offset + 2) (unat firstLength)
               else if firstLength = 0x81 then
                 (case elemAt input (offset + 2) of
                    None \<Rightarrow> Inl (JsError ''DER signature uses a non-canonical length'')
                  | Some longLength \<Rightarrow>
                      if unat longLength < 0x80
                      then Inl (JsError ''DER signature uses a non-canonical length'')
                      else finish (offset + 3) (unat longLength))
               else Inl (JsError ''DER signature length encoding is unsupported''))"

definition or0 :: "byte option \<Rightarrow> byte" where
  "or0 x = (case x of None \<Rightarrow> 0 | Some b \<Rightarrow> b)"

definition parseDerInteger :: "bytes \<Rightarrow> int js" where
  "parseDerInteger value =
     (if length value = 0 \<or> length value > 33
      then Inl (JsError ''DER integer has an invalid length'')
      else if or0 (elemAt value 0) AND 0x80 \<noteq> 0
      then Inl (JsError ''DER integer must be positive'')
      else if length value > 1 \<and> elemAt value 0 = Some 0 \<and> or0 (elemAt value 1) AND 0x80 = 0
      then Inl (JsError ''DER integer has redundant leading zeroes'')
      else
        let normalized = (if elemAt value 0 = Some 0 then drop 1 value else value);
            hex = (if to_hex normalized = [] then ''0'' else to_hex normalized)
        in bigint_of_hex hex)"

definition bigIntTo32Bytes :: "int \<Rightarrow> bytes" where
  "bigIntTo32Bytes value = from_hex (padStart 64 (CHR ''0'') (bigint_to_hex value))"

definition derToCompactLowS :: "bytes \<Rightarrow> bytes js" where
  "derToCompactLowS sig =
     bindE (readDerElement sig 0 0x30) (\<lambda>(seqStart, seqEnd).
     if seqEnd \<noteq> length sig then Inl (JsError ''DER signature contains trailing data'')
     else
     bindE (readDerElement sig seqStart 0x02) (\<lambda>(rStart, rEnd).
     bindE (readDerElement sig rEnd 0x02) (\<lambda>(sStart, sEnd).
     if sEnd \<noteq> seqEnd then Inl (JsError ''DER signature must contain exactly two integers'')
     else
     bindE (parseDerInteger (subarray sig rStart rEnd)) (\<lambda>r.
     bindE (parseDerInteger (subarray sig sStart sEnd)) (\<lambda>s.
     if r \<le> 0 \<or> r \<ge> CURVE_ORDER \<or> s \<le> 0 \<or> s \<ge> CURVE_ORDER
     then Inl (JsError ''P-256 signature scalar is outside the curve order'')
     else
       let s' = (if s > HALF_CURVE_ORDER then CURVE_ORDER - s else s)
       in Inr (concatBytes [bigIntTo32Bytes r, bigIntTo32Bytes s']))))))"

definition SECP256R1_PROGRAM_ID :: "'pk sdk \<Rightarrow> 'pk" where
  "SECP256R1_PROGRAM_ID S = pk_of_base58 S ''Secp256r1SigVerify1111111111111111111111111''"

text \<open>\<open>view.setUint16(offset, value, true)\<close> on the header buffer.\<close>

definition setUint16 :: "nat \<Rightarrow> nat \<Rightarrow> bytes \<Rightarrow> bytes" where
  "setUint16 offset value buf = set_bytes buf (le_bytes 2 (int value)) offset"

definition createSecp256r1Instruction :: "'pk sdk \<Rightarrow> WebAuthnProof \<Rightarrow> 'pk instruction js" where
  "createSecp256r1Instruction S proof =
     (if length (compressedPublicKey proof) \<noteq> PUBLIC_KEY_SIZE
      then Inl (JsError ''P-256 public key must use 33-byte compressed SEC1 encoding'')
      else if elemAt (compressedPublicKey proof) 0 \<noteq> Some 2
              \<and> elemAt (compressedPublicKey proof) 0 \<noteq> Some 3
      then Inl (JsError ''P-256 compressed public key has an invalid prefix'')
      else
      bindE (derToCompactLowS (signatureDer proof)) (\<lambda>signature.
      bindE (webAuthnSignedMessage S (authenticatorData proof) (clientDataJson proof)) (\<lambda>message.
      let publicKeyOffset = DATA_START;
          signatureOffset = publicKeyOffset + PUBLIC_KEY_SIZE;
          messageOffset = signatureOffset + COMPACT_SIGNATURE_SIZE
      in
      if length message > 0xffff
      then Inl (JsError ''WebAuthn signed message exceeds the precompile offset range'')
      else
        let header0 = (replicate DATA_START 0)[0 := 1];
            header = setUint16 14 0xffff (setUint16 12 (length message)
                      (setUint16 10 messageOffset (setUint16 8 0xffff
                       (setUint16 6 publicKeyOffset (setUint16 4 0xffff
                        (setUint16 2 signatureOffset header0))))))
        in Inr \<lparr>ix_programId = SECP256R1_PROGRAM_ID S, ix_keys = [],
                ix_data = concatBytes [header, compressedPublicKey proof, signature, message]\<rparr>)))"

section \<open>Definitions: veridex-passkey.ts\<close>

record VeridexWebAuthnSignature =
  vs_authenticatorData :: string
  vs_clientDataJSON :: string
  vs_r :: int
  vs_s :: int

record WebAuthnAssertionJson =
  as_id :: string
  as_rawId :: string
  as_type :: string
  as_authenticatorData :: string
  as_clientDataJSON :: string
  as_signature :: string

definition derInteger :: "int \<Rightarrow> bytes js" where
  "derInteger value =
     (if value \<le> 0 \<or> value \<ge> 2 ^ 256
      then Inl (JsError ''P-256 signature scalar is outside the 256-bit positive range'')
      else
        let hex = bigint_to_hex value;
            hex' = (if length hex mod 2 \<noteq> 0 then CHR ''0'' # hex else hex);
            bytes = from_hex hex'
        in Inr (if or0 (elemAt bytes 0) AND 0x80 \<noteq> 0 then concatBytes [[0], bytes] else bytes))"

definition compactScalarsToDer :: "int \<Rightarrow> int \<Rightarrow> bytes js" where
  "compactScalarsToDer r s =
     bindE (derInteger r) (\<lambda>rBytes.
     bindE (derInteger s) (\<lambda>sBytes.
     let body = concatBytes [[0x02, word_of_nat (length rBytes)], rBytes,
                             [0x02, word_of_nat (length sBytes)], sBytes]
     in Inr (concatBytes [[0x30, word_of_nat (length body)], body])))"

text \<open>The regular expression \<open>^0x(?:[0-9a-fA-F]{2})+$\<close>.\<close>

definition is_hex_bytes :: "string \<Rightarrow> bool" where
  "is_hex_bytes s =
     (take 2 s = ''0x'' \<and> length s > 2 \<and> even (length s)
      \<and> list_all (\<lambda>c. char_nibble c \<noteq> None) (drop 2 s))"

definition hexToBytes :: "string \<Rightarrow> bytes js" where
  "hexToBytes value =
     (if \<not> is_hex_bytes value
      then Inl (JsError ''Authenticator data must be an even-length 0x-prefixed hex string'')
      else Inr (from_hex (drop 2 value)))"

definition veridexSignatureToAssertion ::
    "string \<Rightarrow> VeridexWebAuthnSignature \<Rightarrow> WebAuthnAssertionJson js" where
  "veridexSignatureToAssertion credentialId signature =
     (if \<not> is_base64url credentialId
      then Inl (JsError ''Credential ID must be unpadded base64url'')
      else
      bindE (hexToBytes (vs_authenticatorData signature)) (\<lambda>authData.
      bindE (compactScalarsToDer (vs_r signature) (vs_s signature)) (\<lambda>der.
      Inr \<lparr>as_id = credentialId, as_rawId = credentialId, as_type = ''public-key'',
           as_authenticatorData = bytesToBase64Url authData,
           as_clientDataJSON = bytesToBase64Url (utf8 (vs_clientDataJSON signature)),
           as_signature = bytesToBase64Url der\<rparr>)))"

section \<open>Canonical DER integers\<close>

definition der_canon :: "bytes \<Rightarrow> bool" where
  "der_canon bs \<longleftrightarrow>
     bs \<noteq> [] \<and> uint (hd bs) < 128
     \<and> (length bs > 1 \<longrightarrow> hd bs = 0 \<longrightarrow> 128 \<le> uint (bs ! 1))"

lemma sign_bit: "(b :: byte) AND 0x80 = 0 \<longleftrightarrow> uint b < 128"
proof -
  have "b AND 0x80 = 0 \<longleftrightarrow> \<not> bit b 7"
    using and_exp_eq_0_iff_not_bit [of b 7] by simp
  also have "bit b 7 \<longleftrightarrow> odd (uint b div 128)"
    using bit_uint_iff [of b 7] bit_iff_odd [of "uint b" 7] by simp
  also have "odd (uint b div 128) \<longleftrightarrow> 128 \<le> uint b"
    using uint_byte_bounds [of b] by presburger
  finally show ?thesis by auto
qed

lemma der_canon_upper: "der_canon bs \<Longrightarrow> be_uint bs < 128 * 256 ^ (length bs - 1)"
proof -
  assume c: "der_canon bs"
  then obtain b rest where bs: "bs = b # rest" and b: "uint b \<le> 127"
    by (cases bs) (auto simp: der_canon_def)
  have "uint b * 256 ^ length rest \<le> 127 * 256 ^ length rest"
    by (rule mult_right_mono [OF b]) simp
  with be_uint_upper [of rest] have "be_uint bs < 128 * 256 ^ length rest"
    unfolding bs be_uint_Cons by linarith
  then show ?thesis by (simp add: bs)
qed

lemma der_canon_lower:
  assumes "der_canon bs" and "1 < length bs"
  shows "128 * 256 ^ (length bs - 2) \<le> be_uint bs"
proof -
  obtain b c rest where bs: "bs = b # c # rest"
    using assms(2) by (cases bs; cases "tl bs") auto
  show ?thesis
  proof (cases "b = 0")
    case True
    with assms bs have "128 \<le> uint c" by (simp add: der_canon_def)
    then have "128 * 256 ^ length rest \<le> uint c * (256 :: int) ^ length rest"
      by (rule mult_right_mono) simp
    with be_uint_nonneg [of rest] have "128 * 256 ^ length rest \<le> uint c * 256 ^ length rest + be_uint rest"
      by linarith
    with True bs show ?thesis by (simp add: be_uint_Cons)
  next
    case False
    then have "1 \<le> uint b"
      using uint_byte_bounds(1) [of b] by (metis int_one_le_iff_zero_less le_less uint_0_iff)
    then have "1 * (256 * 256 ^ length rest) \<le> uint b * (256 * (256 :: int) ^ length rest)"
      by (rule mult_right_mono) simp
    moreover have "0 \<le> uint c * (256 :: int) ^ length rest" by simp
    moreover have "(0 :: int) \<le> 256 ^ length rest" by simp
    ultimately have "128 * 256 ^ length rest
        \<le> uint b * (256 * 256 ^ length rest) + (uint c * 256 ^ length rest + be_uint rest)"
      using be_uint_nonneg [of rest] by linarith
    then show ?thesis by (simp add: bs be_uint_Cons)
  qed
qed

lemma der_canon_length_le:
  assumes "der_canon bs" and "der_canon cs" and "be_uint bs = be_uint cs"
  shows "length bs \<le> length cs"
proof (rule ccontr)
  assume "\<not> length bs \<le> length cs"
  moreover have "0 < length cs" using assms(2) by (simp add: der_canon_def)
  ultimately have less: "length cs - 1 \<le> length bs - 2" and bs: "1 < length bs" by linarith+
  have "be_uint cs < 128 * 256 ^ (length cs - 1)" by (rule der_canon_upper [OF assms(2)])
  also have "\<dots> \<le> 128 * 256 ^ (length bs - 2)" using less by (simp add: power_increasing)
  also have "\<dots> \<le> be_uint bs" by (rule der_canon_lower [OF assms(1) bs])
  finally show False using assms(3) by simp
qed

lemma der_canon_unique:
  "der_canon bs \<Longrightarrow> der_canon cs \<Longrightarrow> be_uint bs = be_uint cs \<Longrightarrow> bs = cs"
  by (metis be_uint_inj der_canon_length_le le_antisym)

lemma der_canon_length_33: "der_canon bs \<Longrightarrow> be_uint bs < 2 ^ 256 \<Longrightarrow> length bs \<le> 33"
proof (rule ccontr)
  assume c: "der_canon bs" and v: "be_uint bs < 2 ^ 256" and "\<not> length bs \<le> 33"
  then have l: "32 \<le> length bs - 2" and "1 < length bs" by auto
  have "(2 :: int) ^ 256 \<le> 128 * 256 ^ 32" by simp
  also have "\<dots> \<le> 128 * 256 ^ (length bs - 2)"
    by (rule mult_left_mono [OF power_increasing [OF l]]) simp_all
  also have "\<dots> \<le> be_uint bs" by (rule der_canon_lower) fact+
  finally show False using v by simp
qed

text \<open>The reader's integers.\<close>

lemma parseDerInteger_Inr_iff:
  "parseDerInteger bs = Inr v \<longleftrightarrow> der_canon bs \<and> length bs \<le> 33 \<and> v = be_uint bs"
proof (cases bs)
  case Nil
  then show ?thesis by (simp add: parseDerInteger_def der_canon_def)
next
  case (Cons b rest)
  have hex: "bigint_of_hex (if to_hex n = [] then ''0'' else to_hex n) = Inr (be_uint n)" for n
  proof (cases "n = []")
    case True
    then show ?thesis by (simp add: to_hex_def bigint_of_hex_def char_nibble_def)
  next
    case False
    then have "to_hex n \<noteq> []" by (cases n) (simp_all add: to_hex_def)
    with False show ?thesis by (simp add: bigint_of_hex_to_hex)
  qed
  have norm: "be_uint (if elemAt bs 0 = Some 0 then drop 1 bs else bs) = be_uint bs"
    by (simp add: Cons be_uint_Cons)
  have red: "(length bs > 1 \<and> elemAt bs 0 = Some 0 \<and> or0 (elemAt bs 1) AND 0x80 = 0)
      \<longleftrightarrow> (length bs > 1 \<and> hd bs = 0 \<and> \<not> 128 \<le> uint (bs ! 1))"
    by (auto simp: Cons sign_bit or0_def elemAt_def linorder_not_le)
  have pos: "or0 (elemAt bs 0) AND 0x80 \<noteq> 0 \<longleftrightarrow> \<not> uint (hd bs) < 128"
    by (simp add: Cons sign_bit or0_def)
  show ?thesis
    unfolding parseDerInteger_def red pos Let_def hex norm
    by (auto simp: Cons der_canon_def)
qed

text \<open>The writer's integers.\<close>

lemma hex_digit_0: "CHR ''0'' = nibble_char 0"
  by (simp add: nibble_char_def)

lemma bigint_to_hex_pos: "0 < v \<Longrightarrow> bigint_to_hex v = map nibble_char (rev (hex_le (nat v)))"
  by (simp add: bigint_to_hex_def)

lemma even_hex_bytes:
  assumes v: "0 < v"
  defines "hex \<equiv> bigint_to_hex v"
  defines "bs \<equiv> from_hex (if length hex mod 2 \<noteq> 0 then CHR ''0'' # hex else hex)"
  shows "be_uint bs = v" and "bs \<noteq> []" and "hd bs \<noteq> 0"
proof -
  let ?d = "rev (hex_le (nat v))"
  define ds where "ds = (if odd (length ?d) then 0 # ?d else ?d)"
  have bs: "bs = from_hex (map nibble_char ds)"
    by (simp add: bs_def hex_def bigint_to_hex_pos [OF v] ds_def hex_digit_0 odd_iff_mod_2_eq_one)
  have dig: "\<forall>d \<in> set ds. d < 16" and even: "even (length ds)"
    by (auto simp: ds_def dest: hex_le_digits)
  have len: "length bs = length ds div 2" and val: "be_uint bs = int (nib_val ds)"
    using from_hex_digits [OF dig even] by (simp_all add: bs)
  have "nib_val ds = nat v" by (simp add: ds_def nib_val_hex_le)
  with val v show beu: "be_uint bs = v" by simp
  have "0 < length (hex_le (nat v))" by simp
  then have lpos: "0 < length bs" unfolding len ds_def by (cases "hex_le (nat v)") auto
  then show ne: "bs \<noteq> []" by simp
  show "hd bs \<noteq> 0"
  proof
    assume h: "hd bs = 0"
    obtain rest where "bs = 0 # rest" using h ne by (cases bs) auto
    then have "v < 256 ^ (length bs - 1)"
      using be_uint_upper [of rest] beu by (simp add: be_uint_Cons)
    also have "(256 :: int) ^ (length bs - 1) = 16 ^ (2 * (length bs - 1))"
      by (simp add: power_mult)
    also have "\<dots> \<le> 16 ^ (length (hex_le (nat v)) - 1)"
      by (rule power_increasing) (auto simp: len ds_def)
    finally have "nat v < 16 ^ (length (hex_le (nat v)) - 1)"
      using v by (simp add: nat_less_iff)
    with hex_le_length_lower [of "nat v"] v show False by simp
  qed
qed

lemma derInteger_Inr_iff:
  "derInteger v = Inr bs \<longleftrightarrow> 0 < v \<and> v < 2 ^ 256 \<and> der_canon bs \<and> be_uint bs = v"
proof (cases "0 < v \<and> v < 2 ^ 256")
  case True
  then obtain cs where cs: "derInteger v = Inr cs" and canon: "der_canon cs" and val: "be_uint cs = v"
  proof -
    define hex where "hex = bigint_to_hex v"
    define b where "b = from_hex (if length hex mod 2 \<noteq> 0 then CHR ''0'' # hex else hex)"
    have b: "be_uint b = v" "b \<noteq> []" "hd b \<noteq> 0"
      unfolding b_def hex_def using even_hex_bytes [of v] True by blast+
    let ?cs = "if uint (hd b) < 128 then b else 0 # b"
    have "derInteger v = Inr (if or0 (elemAt b 0) AND 0x80 \<noteq> 0 then concatBytes [[0], b] else b)"
      using True unfolding derInteger_def Let_def b_def hex_def by simp
    moreover have "or0 (elemAt b 0) = hd b" using b(2) by (cases b) (simp_all add: or0_def)
    ultimately have "derInteger v = Inr ?cs" by (simp add: sign_bit)
    moreover have "der_canon ?cs" using b by (cases b) (auto simp: der_canon_def)
    moreover have "be_uint ?cs = v" using b by (simp add: be_uint_Cons)
    ultimately show thesis using that by blast
  qed
  with True der_canon_unique show ?thesis by auto
next
  case False
  then show ?thesis by (auto simp: derInteger_def)
qed

lemma bigIntTo32Bytes_eq:
  assumes "0 < v" and "v < 2 ^ 256"
  shows "bigIntTo32Bytes v = be_bytes 32 v"
proof -
  let ?d = "rev (hex_le (nat v))"
  have "nat v < 16 ^ 64" using assms by (simp add: nat_less_iff)
  then have len: "length ?d \<le> 64" using hex_le_length_upper [of "nat v" 64] by simp
  let ?ds = "replicate (64 - length ?d) 0 @ ?d"
  have "bigIntTo32Bytes v = from_hex (map nibble_char ?ds)"
    by (simp add: bigIntTo32Bytes_def padStart_def bigint_to_hex_pos [OF assms(1)] hex_digit_0
        map_replicate_const)
  moreover have "\<forall>d \<in> set ?ds. d < 16" by (auto dest: hex_le_digits)
  moreover have "even (length ?ds)" using len by simp
  ultimately have "length (bigIntTo32Bytes v) = 32" "be_uint (bigIntTo32Bytes v) = v"
    using from_hex_digits [of ?ds] len assms by (simp_all add: nib_val_hex_le)
  then show ?thesis using be_bytes_be_uint by metis
qed

section \<open>DER signatures\<close>

lemma readDerElement_short:
  assumes "drop off d = tag # word_of_nat n # c @ post" and "length c = n" and "n < 128"
  shows "readDerElement d off tag = Inr (off + 2, off + 2 + n)"
proof -
  have len: "length d = off + 2 + n + length post"
  proof -
    have "off \<le> length d" using assms(1) by (metis drop_all list.distinct(1) nat_le_linear)
    then show ?thesis using arg_cong [OF assms(1), of length] assms(2) by simp
  qed
  have at0: "elemAt d off = Some tag"
    using assms(1) len by (simp add: elemAt_def nth_via_drop)
  have "d ! (off + 1) = drop off d ! 1" using len by simp
  also have "\<dots> = word_of_nat n" by (simp add: assms(1))
  finally have at1: "elemAt d (off + 1) = Some (word_of_nat n)" using len by (simp add: elemAt_def)
  have "unat (word_of_nat n :: byte) = n"
    using assms(3) by (simp add: unsigned_of_nat take_bit_eq_mod)
  with at0 at1 assms(3) len show ?thesis
    by (simp add: readDerElement_def Let_def)
qed

lemma readDerElement_cases:
  assumes "readDerElement d off tag = Inr (cs, en)"
  obtains (short) "cs = off + 2" "en - cs < 128" "cs \<le> en" "en \<le> length d"
      "drop off d = tag # word_of_nat (en - cs) # subarray d cs en @ drop en d"
    | (long) "cs = off + 3" "128 \<le> en - cs" "en \<le> length d"
proof -
  from assms obtain b where t: "elemAt d off = Some tag" and b: "elemAt d (off + 1) = Some b"
    by (auto simp: readDerElement_def Let_def split: if_splits option.splits)
  show thesis
  proof (cases "unat b < 128")
    case True
    with assms t b have cs: "cs = off + 2" and en: "en = off + 2 + unat b" and le: "en \<le> length d"
      by (auto simp: readDerElement_def Let_def split: if_splits)
    have o: "off < length d" "Suc off < length d" using le en by auto
    have "drop off d = d ! off # d ! Suc off # drop (Suc (Suc off)) d"
      using o by (simp add: Cons_nth_drop_Suc)
    also have "drop (Suc (Suc off)) d = subarray d cs en @ drop en d"
    proof -
      have "drop en d = drop (en - cs) (drop cs d)" using cs en by (simp add: add.commute)
      then have "drop cs d = subarray d cs en @ drop en d"
        unfolding subarray_def by (metis append_take_drop_id)
      with cs show ?thesis by simp
    qed
    finally have "drop off d = tag # word_of_nat (en - cs) # subarray d cs en @ drop en d"
      using t b o cs en by (simp add: elemAt_def)
    with True cs en le show thesis by (intro short) auto
  next
    case False
    with assms t b show thesis
      by (intro long) (auto simp: readDerElement_def Let_def split: if_splits option.splits)
  qed
qed

definition lowS :: "int \<Rightarrow> int" where
  "lowS s = (if s > HALF_CURVE_ORDER then CURVE_ORDER - s else s)"

definition der_signature :: "bytes \<Rightarrow> bytes \<Rightarrow> bytes" where
  "der_signature rb sb =
     0x30 # word_of_nat (length rb + length sb + 4) #
     (0x02 # word_of_nat (length rb) # rb @ 0x02 # word_of_nat (length sb) # sb)"

lemma compactScalarsToDer_Inr_iff:
  "compactScalarsToDer r s = Inr d \<longleftrightarrow>
     (\<exists>rb sb. derInteger r = Inr rb \<and> derInteger s = Inr sb \<and> d = der_signature rb sb)"
  by (auto simp: compactScalarsToDer_def bindE_Inr_iff der_signature_def Let_def)

lemma derToCompactLowS_der_signature:
  assumes "length rb \<le> 33" and "length sb \<le> 33"
  shows "derToCompactLowS (der_signature rb sb) =
     bindE (parseDerInteger rb) (\<lambda>r. bindE (parseDerInteger sb) (\<lambda>s.
       if r \<le> 0 \<or> r \<ge> CURVE_ORDER \<or> s \<le> 0 \<or> s \<ge> CURVE_ORDER
       then Inl (JsError ''P-256 signature scalar is outside the curve order'')
       else Inr (bigIntTo32Bytes r @ bigIntTo32Bytes (lowS s))))"
proof -
  let ?d = "der_signature rb sb"
  let ?e = "length rb + length sb + 6"
  have 1: "readDerElement ?d 0 0x30 = Inr (2, ?e)"
    using readDerElement_short [of 0 ?d "0x30" "length rb + length sb + 4"
        "0x02 # word_of_nat (length rb) # rb @ 0x02 # word_of_nat (length sb) # sb" "[]"] assms
    by (simp add: der_signature_def)
  have 2: "readDerElement ?d 2 0x02 = Inr (4, 4 + length rb)"
    using readDerElement_short [of 2 ?d "0x02" "length rb" rb
        "0x02 # word_of_nat (length sb) # sb"] assms
    by (simp add: der_signature_def)
  have 3: "readDerElement ?d (4 + length rb) 0x02 = Inr (6 + length rb, ?e)"
    using readDerElement_short [of "4 + length rb" ?d "0x02" "length sb" sb "[]"] assms
    by (simp add: der_signature_def numeral_eq_Suc)
  have 4: "subarray ?d 4 (4 + length rb) = rb" and 5: "subarray ?d (6 + length rb) ?e = sb"
    by (simp_all add: der_signature_def subarray_def numeral_eq_Suc)
  have 6: "length ?d = ?e" by (simp add: der_signature_def)
  show ?thesis
    unfolding derToCompactLowS_def
    by (simp add: 1 2 3 4 5 6 lowS_def Let_def cong: if_cong)
qed

lemma derToCompactLowS_shape:
  assumes "derToCompactLowS d = Inr out"
  obtains rb sb where "length rb \<le> 33" and "length sb \<le> 33" and "d = der_signature rb sb"
proof -
  from assms obtain st rs re ss where 1: "readDerElement d 0 0x30 = Inr (st, length d)"
    and 2: "readDerElement d st 0x02 = Inr (rs, re)"
    and 3: "readDerElement d re 0x02 = Inr (ss, length d)"
    and pr: "returns (parseDerInteger (subarray d rs re))"
    and ps: "returns (parseDerInteger (subarray d ss (length d)))"
    by (auto simp: derToCompactLowS_def bindE_Inr_iff returns_def split: if_splits)
  from pr ps have lr: "length (subarray d rs re) \<le> 33" and ls: "length (subarray d ss (length d)) \<le> 33"
    by (auto simp: returns_def parseDerInteger_Inr_iff)
  have r: "rs = st + 2" "re - rs \<le> 33" "rs \<le> re" "re \<le> length d"
      "drop st d = 0x02 # word_of_nat (re - rs) # subarray d rs re @ drop re d"
    using 2 lr by (cases rule: readDerElement_cases; simp)+
  have s: "ss = re + 2" "length d - ss \<le> 33" "ss \<le> length d"
      "drop re d = 0x02 # word_of_nat (length d - ss) # subarray d ss (length d)"
    using 3 ls by (cases rule: readDerElement_cases; simp)+
  have st: "st = 2" "drop 0 d = 0x30 # word_of_nat (length d - st) # subarray d st (length d)"
    using 1 r s by (cases rule: readDerElement_cases; simp)+
  have "d = der_signature (subarray d rs re) (subarray d ss (length d))"
  proof -
    have "subarray d st (length d) = drop st d" by (simp add: subarray_def)
    moreover have "length (subarray d rs re) = re - rs" and "length (subarray d ss (length d)) = length d - ss"
      using r s by simp_all
    moreover have "length d - st = (re - rs) + (length d - ss) + 4" using r s st by simp
    ultimately show ?thesis using st r s by (simp add: der_signature_def)
  qed
  with lr ls that show thesis by blast
qed

lemma CURVE_ORDER_bound: "CURVE_ORDER < 2 ^ 256" "0 < CURVE_ORDER"
  "2 * HALF_CURVE_ORDER + 1 = CURVE_ORDER"
  by (simp_all add: CURVE_ORDER_def HALF_CURVE_ORDER_def)

lemma lowS_bounds: "0 < s \<Longrightarrow> s < CURVE_ORDER \<Longrightarrow> 0 < lowS s \<and> lowS s \<le> HALF_CURVE_ORDER"
  using CURVE_ORDER_bound(3) by (auto simp: lowS_def)

lemma lowS_flip: "lowS (CURVE_ORDER - s) = lowS s"
  using CURVE_ORDER_bound(3) by (auto simp: lowS_def)

lemma derToCompactLowS_iff:
  "derToCompactLowS d = Inr out \<longleftrightarrow>
     (\<exists>r s. 0 < r \<and> r < CURVE_ORDER \<and> 0 < s \<and> s < CURVE_ORDER
        \<and> compactScalarsToDer r s = Inr d \<and> out = be_bytes 32 r @ be_bytes 32 (lowS s))"
proof
  assume ok: "derToCompactLowS d = Inr out"
  obtain rb sb where l: "length rb \<le> 33" "length sb \<le> 33" and d: "d = der_signature rb sb"
    using derToCompactLowS_shape [OF ok] by blast
  from ok d derToCompactLowS_der_signature [OF l] obtain r s
    where p: "parseDerInteger rb = Inr r" "parseDerInteger sb = Inr s"
    and b: "0 < r" "r < CURVE_ORDER" "0 < s" "s < CURVE_ORDER"
    and out: "out = bigIntTo32Bytes r @ bigIntTo32Bytes (lowS s)"
    by (auto simp: bindE_Inr_iff split: if_splits)
  have "derInteger r = Inr rb" "derInteger s = Inr sb"
    using p b CURVE_ORDER_bound(1) by (auto simp: derInteger_Inr_iff parseDerInteger_Inr_iff)
  moreover have "bigIntTo32Bytes r = be_bytes 32 r" "bigIntTo32Bytes (lowS s) = be_bytes 32 (lowS s)"
    using b lowS_bounds [of s] CURVE_ORDER_bound by (auto intro!: bigIntTo32Bytes_eq)
  ultimately show "\<exists>r s. 0 < r \<and> r < CURVE_ORDER \<and> 0 < s \<and> s < CURVE_ORDER
        \<and> compactScalarsToDer r s = Inr d \<and> out = be_bytes 32 r @ be_bytes 32 (lowS s)"
    using b d out by (auto simp: compactScalarsToDer_Inr_iff)
next
  assume "\<exists>r s. 0 < r \<and> r < CURVE_ORDER \<and> 0 < s \<and> s < CURVE_ORDER
        \<and> compactScalarsToDer r s = Inr d \<and> out = be_bytes 32 r @ be_bytes 32 (lowS s)"
  then obtain r s rb sb where b: "0 < r" "r < CURVE_ORDER" "0 < s" "s < CURVE_ORDER"
    and i: "derInteger r = Inr rb" "derInteger s = Inr sb" and d: "d = der_signature rb sb"
    and out: "out = be_bytes 32 r @ be_bytes 32 (lowS s)"
    by (auto simp: compactScalarsToDer_Inr_iff)
  from i have l: "length rb \<le> 33" "length sb \<le> 33"
    by (auto simp: derInteger_Inr_iff intro!: der_canon_length_33)
  with i have "parseDerInteger rb = Inr r" "parseDerInteger sb = Inr s"
    by (auto simp: derInteger_Inr_iff parseDerInteger_Inr_iff)
  moreover have "bigIntTo32Bytes r = be_bytes 32 r" "bigIntTo32Bytes (lowS s) = be_bytes 32 (lowS s)"
    using b lowS_bounds [of s] CURVE_ORDER_bound by (auto intro!: bigIntTo32Bytes_eq)
  ultimately show "derToCompactLowS d = Inr out"
    using b d out derToCompactLowS_der_signature [OF l] by simp
qed

lemma derToCompactLowS_ok:
  assumes "compactScalarsToDer r s = Inr d" and "0 < r" "r < CURVE_ORDER" "0 < s" "s < CURVE_ORDER"
  shows "derToCompactLowS d = Inr (be_bytes 32 r @ be_bytes 32 (lowS s))"
  using assms derToCompactLowS_iff by blast

lemma compactScalarsToDer_returns:
  assumes "0 < r" "r < CURVE_ORDER" "0 < s" "s < CURVE_ORDER"
  shows "\<exists>d. compactScalarsToDer r s = Inr d"
proof -
  have "\<exists>b. derInteger v = Inr b" if "0 < v" "v < CURVE_ORDER" for v
    using that CURVE_ORDER_bound(1) by (auto simp: derInteger_def Let_def)
  from this [OF assms(1,2)] this [OF assms(3,4)] show ?thesis
    by (auto simp: compactScalarsToDer_Inr_iff)
qed

section \<open>The precompile instruction\<close>

definition u16_at :: "bytes \<Rightarrow> nat \<Rightarrow> nat" where
  "u16_at d i = nat (le_uint (subarray d i (i + 2)))"

definition secp_header :: "nat \<Rightarrow> bytes" where
  "secp_header n = [1, 0] @ le_bytes 2 49 @ le_bytes 2 0xffff @ le_bytes 2 16 @ le_bytes 2 0xffff
     @ le_bytes 2 113 @ le_bytes 2 (int n) @ le_bytes 2 0xffff"

lemma le_bytes_2: "le_bytes 2 v = [word_of_int v, word_of_int (v div 256)]"
  by (simp add: numeral_2_eq_2)

lemma secp_header_eq:
  "setUint16 14 0xffff (setUint16 12 n (setUint16 10 (16 + 33 + 64) (setUint16 8 0xffff
     (setUint16 6 16 (setUint16 4 0xffff (setUint16 2 (16 + 33) ((replicate 16 0)[0 := 1])))))))
   = secp_header n"
proof -
  have "(replicate 16 0)[0 := 1] = [1 :: byte, 0, 0, 0, 0, 0, 0, 0, 0, 0, 0, 0, 0, 0, 0, 0]"
    by (simp add: numeral_eq_Suc)
  then show ?thesis by (simp add: setUint16_def set_bytes_def secp_header_def le_bytes_2)
qed

lemma length_secp_header [simp]: "length (secp_header n) = 16"
  by (simp add: secp_header_def)

lemma u16_at_secp_header:
  assumes "n < 65536"
  shows "u16_at (secp_header n @ rest) 2 = 49" "u16_at (secp_header n @ rest) 4 = 0xffff"
    "u16_at (secp_header n @ rest) 6 = 16" "u16_at (secp_header n @ rest) 8 = 0xffff"
    "u16_at (secp_header n @ rest) 10 = 113" "u16_at (secp_header n @ rest) 12 = n"
    "u16_at (secp_header n @ rest) 14 = 0xffff"
proof -
  have v: "le_uint [word_of_int v, word_of_int (v div 256)] = v" if "0 \<le> v" "v < 65536" for v
    using le_uint_le_bytes [of 2 v] that by (simp add: le_bytes_2)
  show "u16_at (secp_header n @ rest) 2 = 49" "u16_at (secp_header n @ rest) 4 = 0xffff"
    "u16_at (secp_header n @ rest) 6 = 16" "u16_at (secp_header n @ rest) 8 = 0xffff"
    "u16_at (secp_header n @ rest) 10 = 113" "u16_at (secp_header n @ rest) 12 = n"
    "u16_at (secp_header n @ rest) 14 = 0xffff"
    using assms v [of 49] v [of 65535] v [of 16] v [of 113] v [of "int n"]
    by (simp_all add: u16_at_def subarray_def secp_header_def le_bytes_2 del: le_uint.simps)
qed

lemma createSecp256r1Instruction_Inr:
  assumes "createSecp256r1Instruction S p = Inr ix"
  obtains sig where "derToCompactLowS (signatureDer p) = Inr sig" and "length sig = 64"
    and "length (compressedPublicKey p) = 33"
    and "hd (compressedPublicKey p) = 2 \<or> hd (compressedPublicKey p) = 3"
    and "length (authenticatorData p @ sha256 S (clientDataJson p)) < 65536"
    and "ix = \<lparr>ix_programId = SECP256R1_PROGRAM_ID S, ix_keys = [],
               ix_data = secp_header (length (authenticatorData p @ sha256 S (clientDataJson p)))
                 @ compressedPublicKey p @ sig
                 @ (authenticatorData p @ sha256 S (clientDataJson p))\<rparr>"
proof -
  from assms obtain sig msg where pk: "length (compressedPublicKey p) = 33"
    and pre: "elemAt (compressedPublicKey p) 0 = Some 2 \<or> elemAt (compressedPublicKey p) 0 = Some 3"
    and sig: "derToCompactLowS (signatureDer p) = Inr sig"
    and msg: "webAuthnSignedMessage S (authenticatorData p) (clientDataJson p) = Inr msg"
    and len: "length msg < 65536"
    and ix: "ix = \<lparr>ix_programId = SECP256R1_PROGRAM_ID S, ix_keys = [],
                  ix_data = secp_header (length msg) @ compressedPublicKey p @ sig @ msg\<rparr>"
    unfolding createSecp256r1Instruction_def DATA_START_def OFFSETS_SIZE_def PUBLIC_KEY_SIZE_def
      COMPACT_SIGNATURE_SIZE_def Let_def
    using secp_header_eq
    by (auto simp: bindE_Inr_iff split: if_splits)
  have m: "msg = authenticatorData p @ sha256 S (clientDataJson p)"
    using msg by (auto simp: webAuthnSignedMessage_def split: if_splits)
  have "hd (compressedPublicKey p) = 2 \<or> hd (compressedPublicKey p) = 3"
    using pre by (cases "compressedPublicKey p") auto
  moreover have "length sig = 64" using sig by (auto simp: derToCompactLowS_iff)
  ultimately show thesis using that sig pk len ix m by simp
qed

section \<open>Properties\<close>

text \<open>C8. The DER reader accepts exactly the canonical encodings of scalars inside the curve
  order, that is exactly what \<open>compactScalarsToDer\<close> writes for them, and returns \<open>r\<close> and the
  low form of \<open>s\<close> as two 32-byte big-endian numbers. Trailing bytes, padded or negative
  integers, long-form lengths and scalars outside the order are refused, and so no two DER
  strings decode to the same pair.\<close>

theorem der_accepts_exactly_canonical:
  "derToCompactLowS d = Inr out \<longleftrightarrow>
     (\<exists>r s. 0 < r \<and> r < CURVE_ORDER \<and> 0 < s \<and> s < CURVE_ORDER
        \<and> compactScalarsToDer r s = Inr d \<and> out = be_bytes 32 r @ be_bytes 32 (lowS s))"
  by (rule derToCompactLowS_iff)

text \<open>Every signature the reader returns is 64 bytes: a nonzero \<open>r\<close> below the curve order
  and a nonzero \<open>s\<close> in its lower half, the only form the precompile accepts.\<close>

theorem compact_signature_low_s:
  assumes "derToCompactLowS d = Inr out"
  shows "length out = 64
       \<and> 0 < be_uint (take 32 out) \<and> be_uint (take 32 out) < CURVE_ORDER
       \<and> 0 < be_uint (drop 32 out) \<and> be_uint (drop 32 out) \<le> HALF_CURVE_ORDER"
proof -
  from assms obtain r s where b: "0 < r" "r < CURVE_ORDER" "0 < s" "s < CURVE_ORDER"
    and out: "out = be_bytes 32 r @ be_bytes 32 (lowS s)"
    by (auto simp: derToCompactLowS_iff)
  have "r mod 2 ^ 256 = r" "lowS s mod 2 ^ 256 = lowS s"
    using b lowS_bounds [of s] CURVE_ORDER_bound by auto
  with b lowS_bounds [of s] show ?thesis by (simp add: out be_uint_be_bytes)
qed

theorem compact_signature_low_s_witness:
  "derToCompactLowS [0x30, 6, 2, 1, 1, 2, 1, 2] = Inr (be_bytes 32 1 @ be_bytes 32 2)
   \<and> be_uint (drop 32 (be_bytes 32 1 @ be_bytes 32 2)) \<le> HALF_CURVE_ORDER"
proof -
  have h: "derToCompactLowS [0x30, 6, 2, 1, 1, 2, 1, 2] = Inr (be_bytes 32 1 @ be_bytes 32 2)"
    by code_simp
  with compact_signature_low_s [OF h] show ?thesis by blast
qed

text \<open>A signature survives the trip through DER, and the two forms \<open>s\<close> and \<open>n - s\<close> of one
  signature come out as the same 64 bytes: an authenticator's choice between them never
  reaches the chain.\<close>

theorem der_round_trip_normalises_s:
  assumes "0 < r" and "r < CURVE_ORDER" and "0 < s" and "s < CURVE_ORDER"
  shows "\<exists>d d'. compactScalarsToDer r s = Inr d \<and> compactScalarsToDer r (CURVE_ORDER - s) = Inr d'
           \<and> derToCompactLowS d = Inr (be_bytes 32 r @ be_bytes 32 (lowS s))
           \<and> derToCompactLowS d' = derToCompactLowS d"
proof -
  from assms have f: "0 < CURVE_ORDER - s" "CURVE_ORDER - s < CURVE_ORDER" by simp_all
  obtain d where d: "compactScalarsToDer r s = Inr d"
    using compactScalarsToDer_returns assms by blast
  obtain d' where d': "compactScalarsToDer r (CURVE_ORDER - s) = Inr d'"
    using compactScalarsToDer_returns [OF assms(1,2) f] by blast
  from d have "derToCompactLowS d = Inr (be_bytes 32 r @ be_bytes 32 (lowS s))"
    by (rule derToCompactLowS_ok) (use assms in auto)
  moreover from d' have "derToCompactLowS d' = Inr (be_bytes 32 r @ be_bytes 32 (lowS (CURVE_ORDER - s)))"
    by (rule derToCompactLowS_ok) (use assms f in auto)
  ultimately show ?thesis using d d' by (auto simp: lowS_flip)
qed

theorem der_round_trip_normalises_s_witness:
  "\<exists>d d'. compactScalarsToDer 1 2 = Inr d \<and> compactScalarsToDer 1 (CURVE_ORDER - 2) = Inr d'
      \<and> derToCompactLowS d = Inr (be_bytes 32 1 @ be_bytes 32 (lowS 2))
      \<and> derToCompactLowS d' = derToCompactLowS d"
  by (rule der_round_trip_normalises_s) (simp_all add: CURVE_ORDER_def)

text \<open>The precompile instruction is self-consistent: the offsets and the length its header
  announces lead exactly to the public key, to the 64-byte low-s signature and to the signed
  message \<open>authenticatorData || SHA-256(clientDataJSON)\<close>, with nothing after the message and
  every instruction index set to "this instruction".\<close>

theorem secp_instruction_layout:
  assumes "createSecp256r1Instruction S p = Inr ix"
  shows "let d = ix_data ix; sg = u16_at d 2; pk = u16_at d 6; ms = u16_at d 10; n = u16_at d 12
         in d ! 0 = 1 \<and> u16_at d 4 = 0xffff \<and> u16_at d 8 = 0xffff \<and> u16_at d 14 = 0xffff
          \<and> subarray d pk (pk + 33) = compressedPublicKey p
          \<and> Inr (subarray d sg (sg + 64)) = derToCompactLowS (signatureDer p)
          \<and> subarray d ms (ms + n) = authenticatorData p @ sha256 S (clientDataJson p)
          \<and> length d = ms + n"
proof -
  let ?m = "authenticatorData p @ sha256 S (clientDataJson p)"
  obtain sig where sig: "derToCompactLowS (signatureDer p) = Inr sig" "length sig = 64"
    and pk: "length (compressedPublicKey p) = 33" and m: "length ?m < 65536"
    and ix: "ix_data ix = secp_header (length ?m) @ compressedPublicKey p @ sig @ ?m"
    using createSecp256r1Instruction_Inr [OF assms] by (metis instruction.select_convs(3))
  have "secp_header (length ?m) ! 0 = 1" by (simp add: secp_header_def)
  then show ?thesis
    unfolding ix Let_def u16_at_secp_header [OF m]
    using sig pk by (simp add: nth_append subarray_def)
qed

definition demo_proof :: WebAuthnProof where
  "demo_proof = \<lparr>compressedPublicKey = 2 # replicate 32 7, authenticatorData = replicate 37 8,
                 clientDataJson = utf8 ''{}'', signatureDer = [0x30, 6, 2, 1, 1, 2, 1, 2]\<rparr>"

theorem secp_instruction_layout_witness:
  "\<exists>ix. createSecp256r1Instruction word_sdk demo_proof = Inr ix
     \<and> subarray (ix_data ix) (u16_at (ix_data ix) 6) (u16_at (ix_data ix) 6 + 33)
       = compressedPublicKey demo_proof
     \<and> length (ix_data ix) = u16_at (ix_data ix) 10 + u16_at (ix_data ix) 12"
proof -
  have "derToCompactLowS [0x30, 6, 2, 1, 1, 2, 1, 2] = Inr (be_bytes 32 1 @ be_bytes 32 2)"
    by code_simp
  moreover have "length (utf8 ''{}'') = 2" by code_simp
  ultimately obtain ix where ix: "createSecp256r1Instruction word_sdk demo_proof = Inr ix"
    by (simp add: createSecp256r1Instruction_def demo_proof_def PUBLIC_KEY_SIZE_def
        webAuthnSignedMessage_def word_sdk_def Let_def)
  from secp_instruction_layout [OF ix] ix show ?thesis by (auto simp: Let_def)
qed

lemma hexToBytes_Inr_iff:
  "hexToBytes v = Inr bs \<longleftrightarrow> is_hex_bytes v \<and> bs = from_hex (drop 2 v)"
  by (auto simp: hexToBytes_def)

lemma from_hex_nonempty: "is_hex_bytes v \<Longrightarrow> from_hex (drop 2 v) \<noteq> []"
proof -
  assume v: "is_hex_bytes v"
  then have "drop 2 v \<noteq> []" "even (length (drop 2 v))" by (auto simp: is_hex_bytes_def)
  then obtain a b s where d: "drop 2 v = a # b # s"
    by (cases "drop 2 v" rule: from_hex.cases) auto
  with v have "char_nibble a \<noteq> None" "char_nibble b \<noteq> None" by (simp_all add: is_hex_bytes_def)
  with d show ?thesis by auto
qed

text \<open>The assertion the frontend sends carries the signature losslessly: decoding its
  base64url fields gives back the authenticator data and a DER signature that the backend
  turns into exactly \<open>r\<close> and the low form of \<open>s\<close>.\<close>

theorem assertion_carries_signature:
  assumes "veridexSignatureToAssertion cid sg = Inr a"
    and "0 < vs_r sg" "vs_r sg < CURVE_ORDER" "0 < vs_s sg" "vs_s sg < CURVE_ORDER"
  shows "as_id a = cid
       \<and> base64UrlToBytes (as_authenticatorData a) = Inr (from_hex (drop 2 (vs_authenticatorData sg)))
       \<and> (\<exists>der. base64UrlToBytes (as_signature a) = Inr der
            \<and> derToCompactLowS der = Inr (be_bytes 32 (vs_r sg) @ be_bytes 32 (lowS (vs_s sg))))"
proof -
  from assms(1) obtain der where hx: "is_hex_bytes (vs_authenticatorData sg)"
    and der: "compactScalarsToDer (vs_r sg) (vs_s sg) = Inr der"
    and a: "as_id a = cid" "as_signature a = bytesToBase64Url der"
      "as_authenticatorData a = bytesToBase64Url (from_hex (drop 2 (vs_authenticatorData sg)))"
    by (auto simp: veridexSignatureToAssertion_def bindE_Inr_iff hexToBytes_Inr_iff split: if_splits)
  have "der \<noteq> []" using der by (auto simp: compactScalarsToDer_Inr_iff der_signature_def)
  then show ?thesis
    using a derToCompactLowS_ok [OF der assms(2-5)] base64_round_trip from_hex_nonempty [OF hx]
    by simp
qed

theorem assertion_carries_signature_witness:
  "\<exists>a der. veridexSignatureToAssertion ''cred-1''
        \<lparr>vs_authenticatorData = ''0x00ff'', vs_clientDataJSON = ''{}'', vs_r = 5, vs_s = 9\<rparr> = Inr a
     \<and> base64UrlToBytes (as_signature a) = Inr der
     \<and> derToCompactLowS der = Inr (be_bytes 32 5 @ be_bytes 32 (lowS 9))"
proof -
  let ?sg = "\<lparr>vs_authenticatorData = ''0x00ff'', vs_clientDataJSON = ''{}'', vs_r = 5, vs_s = 9\<rparr>"
  have "returns (hexToBytes ''0x00ff'')" "is_base64url ''cred-1''"
    by (simp_all add: hexToBytes_def is_hex_bytes_def char_nibble_def is_base64url_def
        is_base64url_char_def)
  moreover have "\<exists>d. compactScalarsToDer 5 9 = Inr d"
    by (rule compactScalarsToDer_returns) (simp_all add: CURVE_ORDER_def)
  ultimately obtain a where a: "veridexSignatureToAssertion ''cred-1'' ?sg = Inr a"
    by (auto simp: veridexSignatureToAssertion_def returns_def)
  from assertion_carries_signature [OF a] a show ?thesis by (auto simp: CURVE_ORDER_def)
qed

end
