(* ===== verification/Borsh.thy ===== *)
theory Borsh
  imports Sdk
begin

text \<open>
  The on-chain side of the wire formats: the argument structs of the Anchor program
  (\<open>contracts/anchor/programs/veriagent_pay/src\<close>) and its account structs, as field lists, with
  the reader Borsh documents for them (fixed-size fields in order, little-endian integers, a
  vector as its 32-bit length and its bytes, a boolean as one byte 0 or 1). The TypeScript
  encoders and decoders are proved against this reader.
\<close>

section \<open>Field types and the reader\<close>

datatype field = FBytes nat | FU8 | FBool | FU16 | FU64 | FI64 | FVec

datatype fval = VBytes bytes | VInt int | VBool bool

definition take_field :: "nat \<Rightarrow> bytes \<Rightarrow> (bytes \<times> bytes) option" where
  "take_field n bs = (if length bs < n then None else Some (take n bs, drop n bs))"

fun read_field :: "field \<Rightarrow> bytes \<Rightarrow> (fval \<times> bytes) option" where
  "read_field (FBytes n) bs = map_option (map_prod VBytes id) (take_field n bs)"
| "read_field FU8 bs = map_option (map_prod (\<lambda>b. VInt (le_uint b)) id) (take_field 1 bs)"
| "read_field FBool bs =
     (case take_field 1 bs of
        None \<Rightarrow> None
      | Some (b, rest) \<Rightarrow>
          if le_uint b = 0 then Some (VBool False, rest)
          else if le_uint b = 1 then Some (VBool True, rest) else None)"
| "read_field FU16 bs = map_option (map_prod (\<lambda>b. VInt (le_uint b)) id) (take_field 2 bs)"
| "read_field FU64 bs = map_option (map_prod (\<lambda>b. VInt (le_uint b)) id) (take_field 8 bs)"
| "read_field FI64 bs = map_option (map_prod (\<lambda>b. VInt (le_sint b)) id) (take_field 8 bs)"
| "read_field FVec bs = map_option (map_prod VBytes id) (decodeVector bs)"

fun read_struct :: "field list \<Rightarrow> bytes \<Rightarrow> (fval list \<times> bytes) option" where
  "read_struct [] bs = Some ([], bs)"
| "read_struct (f # fs) bs =
     (case read_field f bs of
        None \<Rightarrow> None
      | Some (v, rest) \<Rightarrow> map_option (map_prod (\<lambda>vs. v # vs) id) (read_struct fs rest))"

fun field_size :: "field \<Rightarrow> nat" where
  "field_size (FBytes n) = n"
| "field_size FU8 = 1"
| "field_size FBool = 1"
| "field_size FU16 = 2"
| "field_size FU64 = 8"
| "field_size FI64 = 8"
| "field_size FVec = 4"

section \<open>The argument structs\<close>

definition InitializeVaultArgs :: "field list" where
  "InitializeVaultArgs = [FBytes 33, FBytes 32, FBytes 32, FI64, FVec, FVec]"

definition GrantSessionArgs :: "field list" where
  "GrantSessionArgs = [FBytes 32, FU16, FU64, FU64, FI64, FI64, FU64, FI64, FVec, FVec]"

definition InitializeVaultAndGrantSessionArgs :: "field list" where
  "InitializeVaultAndGrantSessionArgs =
     [FBytes 33, FBytes 32, FBytes 32, FBytes 32, FU16, FU64, FU64, FI64, FI64, FI64, FVec, FVec]"

definition PasskeyTransferArgs :: "field list" where
  "PasskeyTransferArgs = [FU64, FU64, FI64, FVec, FVec]"

definition SessionTransferArgs :: "field list" where
  "SessionTransferArgs = [FU64, FU64]"

definition InitializeClaimAuthorityArgs :: "field list" where
  "InitializeClaimAuthorityArgs = [FBytes 32]"

definition CreatePaymentLinkWithSessionArgs :: "field list" where
  "CreatePaymentLinkWithSessionArgs = [FBytes 32, FBytes 32, FU64, FI64, FU64]"

definition CancelPaymentLinkWithSessionArgs :: "field list" where
  "CancelPaymentLinkWithSessionArgs = [FU64]"

definition SolPasskeyTransferArgs :: "field list" where
  "SolPasskeyTransferArgs = [FU64, FU64, FI64, FVec, FVec]"

definition CreateSolPaymentLinkWithPasskeyArgs :: "field list" where
  "CreateSolPaymentLinkWithPasskeyArgs =
     [FBytes 32, FBytes 32, FU64, FI64, FU64, FI64, FVec, FVec]"

definition CancelSolPaymentLinkWithPasskeyArgs :: "field list" where
  "CancelSolPaymentLinkWithPasskeyArgs = [FU64, FI64, FVec, FVec]"

section \<open>The account structs\<close>

definition Vault_fields :: "field list" where
  "Vault_fields = [FU8, FU8, FBytes 33, FBytes 32, FBytes 32, FU64, FI64]"

definition Session_fields :: "field list" where
  "Session_fields =
     [FU8, FU8, FBool, FBytes 32, FBytes 32, FU16, FU64, FU64, FU64, FI64, FI64, FU64]"

definition PaymentLink_fields :: "field list" where
  "PaymentLink_fields =
     [FU8, FU8, FU8, FBytes 32, FBytes 32, FBytes 32, FBytes 32, FU64, FI64, FI64, FI64, FBytes 32]"

section \<open>Writing and reading back\<close>

fun fits :: "field \<Rightarrow> fval \<Rightarrow> bool" where
  "fits (FBytes n) (VBytes b) \<longleftrightarrow> length b = n"
| "fits FU8 (VInt v) \<longleftrightarrow> 0 \<le> v \<and> v < 2 ^ 8"
| "fits FBool (VBool b) \<longleftrightarrow> True"
| "fits FU16 (VInt v) \<longleftrightarrow> 0 \<le> v \<and> v < 2 ^ 16"
| "fits FU64 (VInt v) \<longleftrightarrow> u64_ok v"
| "fits FI64 (VInt v) \<longleftrightarrow> i64_ok v"
| "fits FVec (VBytes b) \<longleftrightarrow> length b < 2 ^ 32"
| "fits _ _ \<longleftrightarrow> False"

fun write_field :: "field \<Rightarrow> fval \<Rightarrow> bytes" where
  "write_field FVec (VBytes b) = le_bytes 4 (int (length b)) @ b"
| "write_field _ (VBytes b) = b"
| "write_field _ (VBool b) = [if b then 1 else 0]"
| "write_field f (VInt v) = le_bytes (field_size f) v"

definition write_struct :: "field list \<Rightarrow> fval list \<Rightarrow> bytes" where
  "write_struct fs vs = concat (map2 write_field fs vs)"

lemma write_struct_simps [simp]:
  "write_struct [] vs = []"
  "write_struct (f # fs) (v # vs) = write_field f v @ write_struct fs vs"
  by (simp_all add: write_struct_def)

lemma take_field_append: "length b = n \<Longrightarrow> take_field n (b @ rest) = Some (b, rest)"
  by (simp add: take_field_def)

lemma decodeVector_write:
  "length b < 2 ^ 32 \<Longrightarrow> decodeVector (le_bytes 4 (int (length b)) @ b @ rest) = Some (b, rest)"
  using decodeVector_encodeVector [of b "le_bytes 4 (int (length b)) @ b" rest]
  by (simp add: encodeVector_Inr_iff)

lemma take_field_le_bytes:
  "take_field n (le_bytes n v @ rest) = Some (le_bytes n v, rest)"
  by (simp add: take_field_append)

lemma take_field_one: "take_field (Suc 0) (x # rest) = Some ([x], rest)"
  by (simp add: take_field_def)

lemma read_field_write: "fits f v \<Longrightarrow> read_field f (write_field f v @ rest) = Some (v, rest)"
proof (cases "(f, v)" rule: fits.cases)
  case (2 v')
  assume "fits f v"
  then show ?thesis using 2 by (simp add: take_field_le_bytes le_uint_le_bytes del: le_bytes.simps)
next
  case (4 v')
  assume "fits f v"
  then show ?thesis using 4 by (simp add: take_field_le_bytes le_uint_le_bytes)
qed (auto simp: take_field_append take_field_le_bytes le_uint_le_bytes le_sint_le_bytes
      u64_ok_def i64_ok_def decodeVector_write take_field_one)

lemma read_struct_write:
  "list_all2 fits fs vs \<Longrightarrow> read_struct fs (write_struct fs vs @ rest) = Some (vs, rest)"
  by (induction rule: list_all2_induct) (simp_all add: read_field_write)

lemma read_struct_write_exact:
  "list_all2 fits fs vs \<Longrightarrow> read_struct fs (write_struct fs vs) = Some (vs, [])"
  using read_struct_write [of fs vs "[]"] by simp

section \<open>Reading at a fixed offset\<close>

lemma read_field_rest:
  "read_field f bs = Some (v, rest) \<Longrightarrow> field_size f + length rest \<le> length bs"
  by (cases f) (auto simp: take_field_def decodeVector_def Let_def split: if_splits option.splits)

lemma read_struct_rest:
  "read_struct fs bs = Some (vs, rest) \<Longrightarrow> sum_list (map field_size fs) + length rest \<le> length bs"
proof (induction fs arbitrary: bs vs)
  case (Cons f fs)
  then obtain v ws bs' where "read_field f bs = Some (v, bs')" "read_struct fs bs' = Some (ws, rest)"
    by (auto split: option.splits)
  with Cons.IH [of bs' ws] read_field_rest [of f bs v bs'] show ?case by simp
qed simp

lemma read_struct_truncated:
  "length bs < sum_list (map field_size fs) \<Longrightarrow> read_struct fs bs = None"
  using read_struct_rest [of fs bs] by (cases "read_struct fs bs") fastforce+

lemma take_field_drop:
  "i + n \<le> length bs \<Longrightarrow> take_field n (drop i bs) = Some (take n (drop i bs), drop (i + n) bs)"
  by (simp add: take_field_def add.commute)

end
