(* ===== verification/Accounts.thy ===== *)
theory Accounts
  imports Borsh
begin

text \<open>
  The first part of \<open>program.ts\<close>: the addresses of the program's accounts
  (\<open>derive*\<close>, from the seeds of \<open>constants.ts\<close>) and the decoders of their data
  (\<open>decode*Account\<close>). The decoders are proved equal to the Borsh reader on the account
  structs of the Anchor program; the seeds are proved to identify the account.
\<close>

section \<open>Seeds and addresses\<close>

definition VERIAGENT_PROGRAM_ID :: "'pk sdk \<Rightarrow> 'pk" where
  "VERIAGENT_PROGRAM_ID S = pk_of_base58 S ''AJirAN6RarZXyHWfYLSFB6NUCbFG3RaKDXMCDueRi7uV''"

definition program_or_default :: "'pk sdk \<Rightarrow> 'pk option \<Rightarrow> 'pk" where
  "program_or_default S p = (case p of Some k \<Rightarrow> k | None \<Rightarrow> VERIAGENT_PROGRAM_ID S)"

definition PROTOCOL_SEED :: bytes where
  "PROTOCOL_SEED = utf8 ''protocol''"

definition VAULT_SEED :: bytes where
  "VAULT_SEED = utf8 ''vault''"

definition SESSION_SEED :: bytes where
  "SESSION_SEED = utf8 ''session''"

definition CLAIM_AUTHORITY_SEED :: bytes where
  "CLAIM_AUTHORITY_SEED = utf8 ''claim_authority''"

definition PAYMENT_LINK_SEED :: bytes where
  "PAYMENT_LINK_SEED = utf8 ''payment_link''"

definition deriveProtocolConfig :: "'pk sdk \<Rightarrow> 'pk option \<Rightarrow> 'pk" where
  "deriveProtocolConfig S p = findProgramAddress S [PROTOCOL_SEED] (program_or_default S p)"

definition deriveVault :: "'pk sdk \<Rightarrow> bytes \<Rightarrow> bytes \<Rightarrow> 'pk option \<Rightarrow> 'pk js" where
  "deriveVault S rootKeyHash userSalt p =
     (if length rootKeyHash \<noteq> 32 \<or> length userSalt \<noteq> 32
      then Inl (JsError ''Vault root key hash and user salt must each contain 32 bytes'')
      else Inr (findProgramAddress S [VAULT_SEED, rootKeyHash, userSalt] (program_or_default S p)))"

definition deriveVaultTokenAccount :: "'pk sdk \<Rightarrow> 'pk \<Rightarrow> 'pk \<Rightarrow> 'pk" where
  "deriveVaultTokenAccount S vault mint =
     getAssociatedTokenAddress S mint vault True (TOKEN_PROGRAM_ID S)"

definition deriveSession :: "'pk sdk \<Rightarrow> 'pk \<Rightarrow> 'pk \<Rightarrow> 'pk option \<Rightarrow> 'pk" where
  "deriveSession S vault sessionPublicKey p =
     findProgramAddress S [SESSION_SEED, pk_bytes S vault, pk_bytes S sessionPublicKey]
       (program_or_default S p)"

definition deriveClaimAuthorityConfig :: "'pk sdk \<Rightarrow> 'pk option \<Rightarrow> 'pk" where
  "deriveClaimAuthorityConfig S p =
     findProgramAddress S [CLAIM_AUTHORITY_SEED] (program_or_default S p)"

definition derivePaymentLink :: "'pk sdk \<Rightarrow> 'pk \<Rightarrow> bytes \<Rightarrow> 'pk option \<Rightarrow> 'pk js" where
  "derivePaymentLink S senderVault linkId p =
     (if length linkId \<noteq> 32 then Inl (JsError ''Payment-link ID must contain 32 bytes'')
      else Inr (findProgramAddress S [PAYMENT_LINK_SEED, pk_bytes S senderVault, linkId]
                  (program_or_default S p)))"

definition derivePaymentLinkTokenAccount :: "'pk sdk \<Rightarrow> 'pk \<Rightarrow> 'pk \<Rightarrow> 'pk" where
  "derivePaymentLinkTokenAccount S paymentLink mint =
     getAssociatedTokenAddress S mint paymentLink True (TOKEN_PROGRAM_ID S)"

section \<open>Reading account data\<close>

text \<open>The \<open>DataView\<close> getters throw a \<open>RangeError\<close> past the end of the buffer;
  \<open>data[i] ?? 0\<close> never does.\<close>

definition getUint16 :: "bytes \<Rightarrow> nat \<Rightarrow> int js" where
  "getUint16 bs i = (if length bs < i + 2 then Inl JsRangeError
                     else Inr (le_uint (subarray bs i (i + 2))))"

definition getBigUint64 :: "bytes \<Rightarrow> nat \<Rightarrow> int js" where
  "getBigUint64 bs i = (if length bs < i + 8 then Inl JsRangeError
                        else Inr (le_uint (subarray bs i (i + 8))))"

definition getBigInt64 :: "bytes \<Rightarrow> nat \<Rightarrow> int js" where
  "getBigInt64 bs i = (if length bs < i + 8 then Inl JsRangeError
                       else Inr (le_sint (subarray bs i (i + 8))))"

definition byte_or_zero :: "bytes \<Rightarrow> nat \<Rightarrow> int" where
  "byte_or_zero bs i = (case elemAt bs i of Some b \<Rightarrow> uint b | None \<Rightarrow> 0)"

definition VAULT_NONCE_OFFSET :: nat where
  "VAULT_NONCE_OFFSET = 8 + 1 + 1 + 33 + 32 + 32"

definition VAULT_ACCOUNT_SIZE :: nat where
  "VAULT_ACCOUNT_SIZE = VAULT_NONCE_OFFSET + 8 + 8"

definition SESSION_NONCE_OFFSET :: nat where
  "SESSION_NONCE_OFFSET = 8 + 1 + 1 + 1 + 32 + 32 + 2 + 8 + 8 + 8 + 8 + 8"

definition SESSION_ACCOUNT_SIZE :: nat where
  "SESSION_ACCOUNT_SIZE = SESSION_NONCE_OFFSET + 8"

definition PAYMENT_LINK_AMOUNT_OFFSET :: nat where
  "PAYMENT_LINK_AMOUNT_OFFSET = 8 + 1 + 1 + 1 + 32 + 32 + 32 + 32"

definition PAYMENT_LINK_ACCOUNT_SIZE :: nat where
  "PAYMENT_LINK_ACCOUNT_SIZE = PAYMENT_LINK_AMOUNT_OFFSET + 8 + 8 + 8 + 8 + 32"

record DecodedVault =
  dv_version :: int
  dv_bump :: int
  dv_rootPublicKey :: bytes
  dv_rootKeyHash :: bytes
  dv_userSalt :: bytes
  dv_nonce :: int
  dv_createdAt :: int

record 'pk DecodedSession =
  ds_version :: int
  ds_bump :: int
  ds_revoked :: bool
  ds_vault :: 'pk
  ds_publicKey :: 'pk
  ds_actionBitmap :: int
  ds_perActionLimit :: int
  ds_cumulativeLimit :: int
  ds_spent :: int
  ds_validAfter :: int
  ds_validUntil :: int
  ds_nonce :: int

record 'pk DecodedPaymentLink =
  dp_version :: int
  dp_bump :: int
  dp_status :: int
  dp_senderVault :: 'pk
  dp_mint :: 'pk
  dp_linkId :: bytes
  dp_recipientCommitment :: bytes
  dp_amount :: int
  dp_expiresAt :: int
  dp_createdAt :: int
  dp_settledAt :: int
  dp_claimedDestination :: 'pk

definition decodeVaultAccount :: "bytes \<Rightarrow> DecodedVault js" where
  "decodeVaultAccount data =
     (if length data < VAULT_ACCOUNT_SIZE
      then Inl (JsError ''Vault account data is truncated'')
      else bindE (getBigUint64 data VAULT_NONCE_OFFSET) (\<lambda>nonce.
           bindE (getBigInt64 data (VAULT_NONCE_OFFSET + 8)) (\<lambda>createdAt.
           Inr \<lparr>dv_version = byte_or_zero data 8, dv_bump = byte_or_zero data 9,
                dv_rootPublicKey = subarray data 10 43,
                dv_rootKeyHash = subarray data 43 75,
                dv_userSalt = subarray data 75 107,
                dv_nonce = nonce, dv_createdAt = createdAt\<rparr>)))"

definition decodeSessionAccount :: "'pk sdk \<Rightarrow> bytes \<Rightarrow> 'pk DecodedSession js" where
  "decodeSessionAccount S data =
     (if length data < SESSION_ACCOUNT_SIZE
      then Inl (JsError ''Session account data is truncated'')
      else bindE (getUint16 data 75) (\<lambda>actionBitmap.
           bindE (getBigUint64 data 77) (\<lambda>perActionLimit.
           bindE (getBigUint64 data 85) (\<lambda>cumulativeLimit.
           bindE (getBigUint64 data 93) (\<lambda>spent.
           bindE (getBigInt64 data 101) (\<lambda>validAfter.
           bindE (getBigInt64 data 109) (\<lambda>validUntil.
           bindE (getBigUint64 data SESSION_NONCE_OFFSET) (\<lambda>nonce.
           Inr \<lparr>ds_version = byte_or_zero data 8, ds_bump = byte_or_zero data 9,
                ds_revoked = (elemAt data 10 = Some 1),
                ds_vault = pk_of_bytes S (subarray data 11 43),
                ds_publicKey = pk_of_bytes S (subarray data 43 75),
                ds_actionBitmap = actionBitmap,
                ds_perActionLimit = perActionLimit, ds_cumulativeLimit = cumulativeLimit,
                ds_spent = spent, ds_validAfter = validAfter, ds_validUntil = validUntil,
                ds_nonce = nonce\<rparr>))))))))"

definition decodePaymentLinkAccount :: "'pk sdk \<Rightarrow> bytes \<Rightarrow> 'pk DecodedPaymentLink js" where
  "decodePaymentLinkAccount S data =
     (if length data < PAYMENT_LINK_ACCOUNT_SIZE
      then Inl (JsError ''Payment-link account data is truncated'')
      else bindE (getBigUint64 data PAYMENT_LINK_AMOUNT_OFFSET) (\<lambda>amount.
           bindE (getBigInt64 data (PAYMENT_LINK_AMOUNT_OFFSET + 8)) (\<lambda>expiresAt.
           bindE (getBigInt64 data (PAYMENT_LINK_AMOUNT_OFFSET + 16)) (\<lambda>createdAt.
           bindE (getBigInt64 data (PAYMENT_LINK_AMOUNT_OFFSET + 24)) (\<lambda>settledAt.
           Inr \<lparr>dp_version = byte_or_zero data 8, dp_bump = byte_or_zero data 9,
                dp_status = byte_or_zero data 10,
                dp_senderVault = pk_of_bytes S (subarray data 11 43),
                dp_mint = pk_of_bytes S (subarray data 43 75),
                dp_linkId = subarray data 75 107,
                dp_recipientCommitment = subarray data 107 139,
                dp_amount = amount, dp_expiresAt = expiresAt,
                dp_createdAt = createdAt, dp_settledAt = settledAt,
                dp_claimedDestination =
                  pk_of_bytes S (subarray data (PAYMENT_LINK_AMOUNT_OFFSET + 32)
                                   (PAYMENT_LINK_AMOUNT_OFFSET + 64))\<rparr>)))))"

section \<open>The decoders agree with the program's structs\<close>

text \<open>The decoded records in terms of the values Borsh reads.\<close>

primrec as_int :: "fval \<Rightarrow> int" where
  "as_int (VInt i) = i"
| "as_int (VBytes b) = 0"
| "as_int (VBool b) = 0"

primrec as_bytes :: "fval \<Rightarrow> bytes" where
  "as_bytes (VInt i) = []"
| "as_bytes (VBytes b) = b"
| "as_bytes (VBool b) = []"

primrec as_bool :: "fval \<Rightarrow> bool" where
  "as_bool (VInt i) = False"
| "as_bool (VBytes b) = False"
| "as_bool (VBool b) = b"

definition vault_of :: "fval list \<Rightarrow> DecodedVault" where
  "vault_of vs =
     \<lparr>dv_version = as_int (vs ! 0), dv_bump = as_int (vs ! 1),
      dv_rootPublicKey = as_bytes (vs ! 2), dv_rootKeyHash = as_bytes (vs ! 3),
      dv_userSalt = as_bytes (vs ! 4), dv_nonce = as_int (vs ! 5), dv_createdAt = as_int (vs ! 6)\<rparr>"

definition session_of :: "'pk sdk \<Rightarrow> fval list \<Rightarrow> 'pk DecodedSession" where
  "session_of S vs =
     \<lparr>ds_version = as_int (vs ! 0), ds_bump = as_int (vs ! 1), ds_revoked = as_bool (vs ! 2),
      ds_vault = pk_of_bytes S (as_bytes (vs ! 3)), ds_publicKey = pk_of_bytes S (as_bytes (vs ! 4)),
      ds_actionBitmap = as_int (vs ! 5), ds_perActionLimit = as_int (vs ! 6),
      ds_cumulativeLimit = as_int (vs ! 7), ds_spent = as_int (vs ! 8),
      ds_validAfter = as_int (vs ! 9), ds_validUntil = as_int (vs ! 10), ds_nonce = as_int (vs ! 11)\<rparr>"

definition payment_link_of :: "'pk sdk \<Rightarrow> fval list \<Rightarrow> 'pk DecodedPaymentLink" where
  "payment_link_of S vs =
     \<lparr>dp_version = as_int (vs ! 0), dp_bump = as_int (vs ! 1), dp_status = as_int (vs ! 2),
      dp_senderVault = pk_of_bytes S (as_bytes (vs ! 3)), dp_mint = pk_of_bytes S (as_bytes (vs ! 4)),
      dp_linkId = as_bytes (vs ! 5), dp_recipientCommitment = as_bytes (vs ! 6),
      dp_amount = as_int (vs ! 7), dp_expiresAt = as_int (vs ! 8), dp_createdAt = as_int (vs ! 9),
      dp_settledAt = as_int (vs ! 10), dp_claimedDestination = pk_of_bytes S (as_bytes (vs ! 11))\<rparr>"

lemmas account_layout_defs =
  VAULT_NONCE_OFFSET_def VAULT_ACCOUNT_SIZE_def SESSION_NONCE_OFFSET_def SESSION_ACCOUNT_SIZE_def
  PAYMENT_LINK_AMOUNT_OFFSET_def PAYMENT_LINK_ACCOUNT_SIZE_def
  getUint16_def getBigUint64_def getBigInt64_def

lemma byte_or_zero_take: "i < length bs \<Longrightarrow> byte_or_zero bs i = le_uint (take 1 (drop i bs))"
  by (simp add: byte_or_zero_def elemAt_def take_Suc hd_drop_conv_nth)

lemma elemAt_take1: "i < length bs \<Longrightarrow> (elemAt bs i = Some 1) = (le_uint (take 1 (drop i bs)) = 1)"
proof -
  assume "i < length bs"
  then have "take 1 (drop i bs) = [bs ! i]" by (simp add: take_Suc hd_drop_conv_nth)
  moreover have "uint (w :: 8 word) = 1 \<longleftrightarrow> w = 1" for w
    by (metis uint_1 word_uint_eq_iff)
  ultimately show ?thesis using \<open>i < length bs\<close> by (simp add: elemAt_def)
qed

lemma decodeVaultAccount_read:
  "decodeVaultAccount data =
     (case read_struct Vault_fields (drop 8 data) of
        Some (vs, rest) \<Rightarrow> Inr (vault_of vs)
      | None \<Rightarrow> Inl (JsError ''Vault account data is truncated''))"
proof (cases "length data < VAULT_ACCOUNT_SIZE")
  case True
  then have "read_struct Vault_fields (drop 8 data) = None"
    by (intro read_struct_truncated) (simp add: Vault_fields_def account_layout_defs)
  with True show ?thesis by (simp add: decodeVaultAccount_def)
next
  case False
  then have "123 \<le> length data" by (simp add: account_layout_defs)
  then show ?thesis
    by (simp add: decodeVaultAccount_def Vault_fields_def vault_of_def account_layout_defs
        take_field_drop byte_or_zero_take subarray_def del: One_nat_def)
qed

lemma decodePaymentLinkAccount_read:
  "decodePaymentLinkAccount S data =
     (case read_struct PaymentLink_fields (drop 8 data) of
        Some (vs, rest) \<Rightarrow> Inr (payment_link_of S vs)
      | None \<Rightarrow> Inl (JsError ''Payment-link account data is truncated''))"
proof (cases "length data < PAYMENT_LINK_ACCOUNT_SIZE")
  case True
  then have "read_struct PaymentLink_fields (drop 8 data) = None"
    by (intro read_struct_truncated) (simp add: PaymentLink_fields_def account_layout_defs)
  with True show ?thesis by (simp add: decodePaymentLinkAccount_def)
next
  case False
  then have "203 \<le> length data" by (simp add: account_layout_defs)
  then show ?thesis
    by (simp add: decodePaymentLinkAccount_def PaymentLink_fields_def payment_link_of_def
        account_layout_defs take_field_drop byte_or_zero_take subarray_def del: One_nat_def)
qed

lemma decodeSessionAccount_truncated:
  assumes "length data < SESSION_ACCOUNT_SIZE"
  shows "decodeSessionAccount S data = Inl (JsError ''Session account data is truncated'')"
    and "read_struct Session_fields (drop 8 data) = None"
proof -
  show "decodeSessionAccount S data = Inl (JsError ''Session account data is truncated'')"
    using assms by (simp add: decodeSessionAccount_def)
  show "read_struct Session_fields (drop 8 data) = None"
    using assms by (intro read_struct_truncated) (simp add: Session_fields_def account_layout_defs)
qed

text \<open>Borsh accepts only 0 and 1 for a boolean; the decoder reads every other byte as
  \<^term>\<open>False\<close>. On all data the program can read they agree.\<close>

lemma decodeSessionAccount_read:
  "case read_struct Session_fields (drop 8 data) of
     Some (vs, rest) \<Rightarrow> decodeSessionAccount S data = Inr (session_of S vs)
   | None \<Rightarrow>
       if length data < SESSION_ACCOUNT_SIZE
       then decodeSessionAccount S data = Inl (JsError ''Session account data is truncated'')
       else byte_or_zero data 10 \<notin> {0, 1} \<and>
            (\<exists>d. decodeSessionAccount S data = Inr d \<and> \<not> ds_revoked d)"
proof (cases "length data < SESSION_ACCOUNT_SIZE")
  case True
  then show ?thesis by (simp add: decodeSessionAccount_truncated)
next
  case False
  then have "125 \<le> length data" by (simp add: account_layout_defs)
  then show ?thesis
    by (simp add: decodeSessionAccount_def Session_fields_def session_of_def account_layout_defs
        take_field_drop byte_or_zero_take elemAt_take1 subarray_def del: One_nat_def)
qed

text \<open>Any other byte in the place of the boolean is decoded as a zero would be.\<close>

lemma decodeSessionAccount_boolean:
  assumes "byte_or_zero data 10 \<noteq> 1"
  shows "decodeSessionAccount S (data[10 := 0]) = decodeSessionAccount S data"
proof (cases "length data < SESSION_ACCOUNT_SIZE")
  case True
  then show ?thesis by (simp add: decodeSessionAccount_def)
next
  case False
  then have long: "125 \<le> length data" by (simp add: account_layout_defs)
  have slices: "take n (drop m (data[10 := 0])) = take n (drop m data)" if "10 < m" for n m
    using that by (simp add: drop_update_cancel)
  from assms long have "elemAt data 10 \<noteq> Some 1" "elemAt (data[10 := 0]) 10 \<noteq> Some 1"
    by (auto simp: byte_or_zero_def elemAt_def split: option.splits)
  moreover have "byte_or_zero (data[10 := 0]) k = byte_or_zero data k" if "k \<noteq> 10" for k
    using that by (simp add: byte_or_zero_def elemAt_def)
  ultimately show ?thesis
    using long
    by (simp add: decodeSessionAccount_def account_layout_defs slices subarray_def getUint16_def getBigUint64_def getBigInt64_def)
qed

section \<open>The seeds identify the account\<close>

text \<open>The account identities the five derivations address, the seeds each passes to
  \<open>findProgramAddressSync\<close>, and the derivation of each by its function. The program address
  is a hash of the concatenated seeds, so two accounts can share an address only when the
  concatenations agree.\<close>

datatype 'pk account_id =
    ProtocolConfigId
  | VaultId bytes bytes
  | SessionId 'pk 'pk
  | ClaimAuthorityId
  | PaymentLinkId 'pk bytes

fun derive_account :: "'pk sdk \<Rightarrow> 'pk option \<Rightarrow> 'pk account_id \<Rightarrow> 'pk js" where
  "derive_account S p ProtocolConfigId = Inr (deriveProtocolConfig S p)"
| "derive_account S p (VaultId h s) = deriveVault S h s p"
| "derive_account S p (SessionId v k) = Inr (deriveSession S v k p)"
| "derive_account S p ClaimAuthorityId = Inr (deriveClaimAuthorityConfig S p)"
| "derive_account S p (PaymentLinkId v i) = derivePaymentLink S v i p"

fun account_seeds :: "'pk sdk \<Rightarrow> 'pk account_id \<Rightarrow> bytes list" where
  "account_seeds S ProtocolConfigId = [PROTOCOL_SEED]"
| "account_seeds S (VaultId h s) = [VAULT_SEED, h, s]"
| "account_seeds S (SessionId v k) = [SESSION_SEED, pk_bytes S v, pk_bytes S k]"
| "account_seeds S ClaimAuthorityId = [CLAIM_AUTHORITY_SEED]"
| "account_seeds S (PaymentLinkId v i) = [PAYMENT_LINK_SEED, pk_bytes S v, i]"

fun account_id_ok :: "'pk account_id \<Rightarrow> bool" where
  "account_id_ok (VaultId h s) \<longleftrightarrow> length h = 32 \<and> length s = 32"
| "account_id_ok (PaymentLinkId v i) \<longleftrightarrow> length i = 32"
| "account_id_ok _ \<longleftrightarrow> True"

lemmas derive_defs = deriveProtocolConfig_def deriveVault_def deriveSession_def
  deriveClaimAuthorityConfig_def derivePaymentLink_def

lemma derive_account_seeds:
  "derive_account S p a =
     (if account_id_ok a
      then Inr (findProgramAddress S (account_seeds S a) (program_or_default S p))
      else derive_account S p a)"
  by (cases a) (simp_all add: derive_defs)

lemma seed_lengths:
  "length PROTOCOL_SEED = 8" "length VAULT_SEED = 5" "length SESSION_SEED = 7"
  "length CLAIM_AUTHORITY_SEED = 15" "length PAYMENT_LINK_SEED = 12"
  by (simp_all add: PROTOCOL_SEED_def VAULT_SEED_def SESSION_SEED_def CLAIM_AUTHORITY_SEED_def
      PAYMENT_LINK_SEED_def utf8_def utf8_char_def)

fun seeds_length :: "'pk account_id \<Rightarrow> nat" where
  "seeds_length ProtocolConfigId = 8"
| "seeds_length (VaultId _ _) = 69"
| "seeds_length (SessionId _ _) = 71"
| "seeds_length ClaimAuthorityId = 15"
| "seeds_length (PaymentLinkId _ _) = 76"

lemma account_seeds_length:
  "sdk_ok S \<Longrightarrow> account_id_ok a \<Longrightarrow> length (concat (account_seeds S a)) = seeds_length a"
  by (cases a) (simp_all add: seed_lengths sdk_length)

lemma account_seeds_inj:
  assumes "sdk_ok S" and "account_id_ok a" and "account_id_ok b"
    and "concat (account_seeds S a) = concat (account_seeds S b)"
  shows "a = b"
proof -
  have "seeds_length a = seeds_length b"
    using account_seeds_length [OF assms(1,2)] account_seeds_length [OF assms(1,3)] assms(4) by metis
  with assms show ?thesis
    by (cases a; cases b) (simp_all add: sdk_length sdk_inj)
qed

section \<open>Properties\<close>

lemma foreign_boolean:
  assumes "SESSION_ACCOUNT_SIZE \<le> length data" and "byte_or_zero data 10 \<notin> {0, 1}"
  shows "\<exists>vs rest. read_struct Session_fields (drop 8 (data[10 := 0])) = Some (vs, rest) \<and>
    decodeSessionAccount S data = Inr (session_of S vs)"
proof -
  have "byte_or_zero (data[10 := 0]) 10 = 0"
    using assms(1) by (simp add: byte_or_zero_def elemAt_def account_layout_defs)
  with assms decodeSessionAccount_read [of "data[10 := 0]" S] show ?thesis
    by (auto simp: decodeSessionAccount_boolean split: option.splits)
qed

text \<open>C36. For vaults and payment links the account decoders of \<open>program.ts\<close> return on any data exactly what the Borsh
  structs of the Anchor program say: the fields of the struct when they can be read after the discriminator of eight
  bytes, and the truncation error otherwise. For sessions the same holds except for the boolean \<open>revoked\<close>: a byte other
  than 0 and 1, which Borsh rejects, is decoded as if it were 0, that is, as not revoked.\<close>

theorem account_decoders_match_program:
  "decodeVaultAccount data =
     (case read_struct Vault_fields (drop 8 data) of
        Some (vs, rest) \<Rightarrow> Inr (vault_of vs)
      | None \<Rightarrow> Inl (JsError ''Vault account data is truncated'')) \<and>
   decodePaymentLinkAccount S data =
     (case read_struct PaymentLink_fields (drop 8 data) of
        Some (vs, rest) \<Rightarrow> Inr (payment_link_of S vs)
      | None \<Rightarrow> Inl (JsError ''Payment-link account data is truncated'')) \<and>
   (case read_struct Session_fields (drop 8 data) of
      Some (vs, rest) \<Rightarrow> decodeSessionAccount S data = Inr (session_of S vs)
    | None \<Rightarrow>
        if length data < SESSION_ACCOUNT_SIZE
        then decodeSessionAccount S data = Inl (JsError ''Session account data is truncated'')
        else byte_or_zero data 10 \<notin> {0, 1} \<and>
             (\<exists>vs rest. read_struct Session_fields (drop 8 (data[10 := 0])) = Some (vs, rest) \<and>
                decodeSessionAccount S data = Inr (session_of S vs)))"
  using decodeVaultAccount_read [of data] decodePaymentLinkAccount_read [of S data] decodeSessionAccount_read [of data S]
    foreign_boolean [of data S]
  by (auto split: option.splits if_splits)

text \<open>Every address derivation that does not throw asks the SDK for the program address of the
  account's seeds, and the concatenated seeds, which are what the address hashes, determine the
  account: no two accounts, of one kind or of two, share a preimage.\<close>

theorem account_addresses_bind_identity:
  assumes "sdk_ok S" and "derive_account S p a = Inr x" and "derive_account S p b = Inr y"
  shows "x = findProgramAddress S (account_seeds S a) (program_or_default S p) \<and>
         (concat (account_seeds S a) = concat (account_seeds S b) \<longleftrightarrow> a = b)"
proof -
  have "account_id_ok a" using assms(2) by (cases a) (auto simp: derive_defs split: if_splits)
  moreover have "account_id_ok b" using assms(3) by (cases b) (auto simp: derive_defs split: if_splits)
  ultimately show ?thesis
    using assms derive_account_seeds [of S p a] account_seeds_inj [OF assms(1), of a b] by auto
qed

theorem account_addresses_bind_identity_witness:
  "concat (account_seeds word_sdk (SessionId 5 6)) \<noteq>
   concat (account_seeds word_sdk (PaymentLinkId 5 (replicate 32 6)))"
  using account_addresses_bind_identity
    [of word_sdk None "SessionId 5 6" _ "PaymentLinkId 5 (replicate 32 6)"] word_sdk_ok
  by (simp add: derivePaymentLink_def del: account_seeds.simps)

end
