(* ===== verification/Instructions.thy ===== *)
theory Instructions
  imports Accounts
begin

text \<open>
  The second part of \<open>program.ts\<close>: the builders of the fifteen instructions of the Anchor program.
  Each builder is its own definition, translated from its source. The locale
  \<open>borsh_instruction\<close> is the contract between a builder and the program: the data
  it emits is the instruction's discriminator and the Borsh form of its argument struct, and the
  accounts carry the signer and writable flags the program's \<open>Accounts\<close> struct asks for.
  The locale is interpreted on all fifteen builders.
\<close>

section \<open>Inputs\<close>

record 'pk InitializeVaultInstructionInput =
  ivi_payer :: 'pk
  ivi_config :: 'pk
  ivi_vault :: 'pk
  ivi_stablecoinMint :: 'pk
  ivi_vaultTokenAccount :: 'pk
  ivi_rootPublicKey :: bytes
  ivi_rootKeyHash :: bytes
  ivi_userSalt :: bytes
  ivi_proofExpiresAt :: int
  ivi_authenticatorData :: bytes
  ivi_clientDataJson :: bytes
  ivi_programId :: "'pk option"

record 'pk PasskeyTransferInstructionInput =
  pti_payer :: 'pk
  pti_config :: 'pk
  pti_vault :: 'pk
  pti_stablecoinMint :: 'pk
  pti_vaultTokenAccount :: 'pk
  pti_destinationTokenAccount :: 'pk
  pti_amount :: int
  pti_vaultNonce :: int
  pti_proofExpiresAt :: int
  pti_authenticatorData :: bytes
  pti_clientDataJson :: bytes
  pti_programId :: "'pk option"

record 'pk SessionGrantInstructionInput =
  sgi_payer :: 'pk
  sgi_config :: 'pk
  sgi_vault :: 'pk
  sgi_session :: 'pk
  sgi_sessionPublicKey :: 'pk
  sgi_actionBitmap :: js_number
  sgi_perActionLimit :: int
  sgi_cumulativeLimit :: int
  sgi_validAfterUnix :: int
  sgi_validUntilUnix :: int
  sgi_vaultNonce :: int
  sgi_proofExpiresAt :: int
  sgi_authenticatorData :: bytes
  sgi_clientDataJson :: bytes
  sgi_programId :: "'pk option"

record 'pk InitializeVaultAndGrantSessionInstructionInput =
  vgi_payer :: 'pk
  vgi_config :: 'pk
  vgi_vault :: 'pk
  vgi_session :: 'pk
  vgi_sessionPublicKey :: 'pk
  vgi_actionBitmap :: js_number
  vgi_perActionLimit :: int
  vgi_cumulativeLimit :: int
  vgi_validAfterUnix :: int
  vgi_validUntilUnix :: int
  vgi_proofExpiresAt :: int
  vgi_authenticatorData :: bytes
  vgi_clientDataJson :: bytes
  vgi_stablecoinMint :: 'pk
  vgi_vaultTokenAccount :: 'pk
  vgi_rootPublicKey :: bytes
  vgi_rootKeyHash :: bytes
  vgi_userSalt :: bytes
  vgi_programId :: "'pk option"

record 'pk SessionTransferInstructionInput =
  sti_config :: 'pk
  sti_vault :: 'pk
  sti_session :: 'pk
  sti_sessionSigner :: 'pk
  sti_stablecoinMint :: 'pk
  sti_vaultTokenAccount :: 'pk
  sti_destinationTokenAccount :: 'pk
  sti_amount :: int
  sti_sessionNonce :: int
  sti_programId :: "'pk option"

record 'pk InitializeClaimAuthorityInstructionInput =
  cai_protocolAuthority :: 'pk
  cai_config :: 'pk
  cai_claimAuthorityConfig :: 'pk
  cai_authority :: 'pk
  cai_programId :: "'pk option"

record 'pk CreatePaymentLinkWithSessionInstructionInput =
  cpi_payer :: 'pk
  cpi_config :: 'pk
  cpi_vault :: 'pk
  cpi_session :: 'pk
  cpi_sessionSigner :: 'pk
  cpi_stablecoinMint :: 'pk
  cpi_vaultTokenAccount :: 'pk
  cpi_paymentLink :: 'pk
  cpi_escrowTokenAccount :: 'pk
  cpi_linkId :: bytes
  cpi_recipientCommitment :: bytes
  cpi_amount :: int
  cpi_expiresAtUnix :: int
  cpi_sessionNonce :: int
  cpi_programId :: "'pk option"

record 'pk ClaimPaymentLinkInstructionInput =
  clm_claimAuthority :: 'pk
  clm_config :: 'pk
  clm_claimAuthorityConfig :: 'pk
  clm_recipientVault :: 'pk
  clm_paymentLink :: 'pk
  clm_stablecoinMint :: 'pk
  clm_escrowTokenAccount :: 'pk
  clm_destinationTokenAccount :: 'pk
  clm_programId :: "'pk option"

record 'pk CancelPaymentLinkWithSessionInstructionInput =
  can_config :: 'pk
  can_vault :: 'pk
  can_session :: 'pk
  can_sessionSigner :: 'pk
  can_paymentLink :: 'pk
  can_stablecoinMint :: 'pk
  can_escrowTokenAccount :: 'pk
  can_vaultTokenAccount :: 'pk
  can_sessionNonce :: int
  can_programId :: "'pk option"

record 'pk RefundExpiredPaymentLinkInstructionInput =
  rfd_config :: 'pk
  rfd_senderVault :: 'pk
  rfd_paymentLink :: 'pk
  rfd_stablecoinMint :: 'pk
  rfd_escrowTokenAccount :: 'pk
  rfd_vaultTokenAccount :: 'pk
  rfd_programId :: "'pk option"

record 'pk SolPasskeyTransferInstructionInput =
  spt_payer :: 'pk
  spt_config :: 'pk
  spt_vault :: 'pk
  spt_recipient :: 'pk
  spt_amountLamports :: int
  spt_vaultNonce :: int
  spt_proofExpiresAt :: int
  spt_authenticatorData :: bytes
  spt_clientDataJson :: bytes
  spt_programId :: "'pk option"

record 'pk CreateSolPaymentLinkWithPasskeyInstructionInput =
  csp_payer :: 'pk
  csp_config :: 'pk
  csp_vault :: 'pk
  csp_paymentLink :: 'pk
  csp_linkId :: bytes
  csp_recipientCommitment :: bytes
  csp_amountLamports :: int
  csp_linkExpiresAtUnix :: int
  csp_vaultNonce :: int
  csp_proofExpiresAt :: int
  csp_authenticatorData :: bytes
  csp_clientDataJson :: bytes
  csp_programId :: "'pk option"

record 'pk ClaimSolPaymentLinkInstructionInput =
  cls_claimAuthority :: 'pk
  cls_config :: 'pk
  cls_claimAuthorityConfig :: 'pk
  cls_recipientVault :: 'pk
  cls_paymentLink :: 'pk
  cls_programId :: "'pk option"

record 'pk CancelSolPaymentLinkWithPasskeyInstructionInput =
  cns_payer :: 'pk
  cns_config :: 'pk
  cns_vault :: 'pk
  cns_paymentLink :: 'pk
  cns_vaultNonce :: int
  cns_proofExpiresAt :: int
  cns_authenticatorData :: bytes
  cns_clientDataJson :: bytes
  cns_programId :: "'pk option"

record 'pk RefundExpiredSolPaymentLinkInstructionInput =
  rfs_config :: 'pk
  rfs_senderVault :: 'pk
  rfs_paymentLink :: 'pk
  rfs_programId :: "'pk option"

section \<open>Builders\<close>

definition discriminator :: "'pk sdk \<Rightarrow> string \<Rightarrow> bytes" where
  "discriminator S name = subarray (sha256 S (utf8 name)) 0 8"

definition meta :: "'pk \<Rightarrow> bool \<Rightarrow> bool \<Rightarrow> 'pk account_meta" where
  "meta k signer writable = \<lparr>pubkey = k, isSigner = signer, isWritable = writable\<rparr>"

definition createInitializeVaultInstruction ::
    "'pk sdk \<Rightarrow> 'pk InitializeVaultInstructionInput \<Rightarrow> 'pk instruction js" where
  "createInitializeVaultInstruction S input =
     (if length (ivi_rootPublicKey input) \<noteq> 33 \<or> length (ivi_rootKeyHash input) \<noteq> 32 \<or> length (ivi_userSalt input) \<noteq> 32
      then Inl (JsError ''Vault key material has an invalid length'')
      else
     bindE (seqE
          [Inr (discriminator S ''global:initialize_vault''),
           Inr (ivi_rootPublicKey input),
           Inr (ivi_rootKeyHash input),
           Inr (ivi_userSalt input),
           i64Le (ivi_proofExpiresAt input),
           encodeVector (ivi_authenticatorData input),
           encodeVector (ivi_clientDataJson input)]) (\<lambda>parts.
     Inr \<lparr>ix_programId = program_or_default S (ivi_programId input),
          ix_keys =
            [meta (ivi_payer input) True True,
             meta (ivi_config input) False False,
             meta (ivi_vault input) False True,
             meta (ivi_stablecoinMint input) False False,
             meta (ivi_vaultTokenAccount input) False True,
             meta (SYSVAR_INSTRUCTIONS_PUBKEY S) False False,
             meta (TOKEN_PROGRAM_ID S) False False,
             meta (ASSOCIATED_TOKEN_PROGRAM_ID S) False False,
             meta (SystemProgram_programId S) False False],
          ix_data = concatBytes parts\<rparr>))"

definition createPasskeyTransferInstruction ::
    "'pk sdk \<Rightarrow> 'pk PasskeyTransferInstructionInput \<Rightarrow> 'pk instruction js" where
  "createPasskeyTransferInstruction S input =
     bindE (seqE
          [Inr (discriminator S ''global:transfer_with_passkey''),
           u64Le (pti_amount input),
           u64Le (pti_vaultNonce input),
           i64Le (pti_proofExpiresAt input),
           encodeVector (pti_authenticatorData input),
           encodeVector (pti_clientDataJson input)]) (\<lambda>parts.
     Inr \<lparr>ix_programId = program_or_default S (pti_programId input),
          ix_keys =
            [meta (pti_payer input) True True,
             meta (pti_config input) False False,
             meta (pti_vault input) False True,
             meta (pti_stablecoinMint input) False False,
             meta (pti_vaultTokenAccount input) False True,
             meta (pti_destinationTokenAccount input) False True,
             meta (SYSVAR_INSTRUCTIONS_PUBKEY S) False False,
             meta (TOKEN_PROGRAM_ID S) False False],
          ix_data = concatBytes parts\<rparr>)"

definition createGrantSessionInstruction ::
    "'pk sdk \<Rightarrow> 'pk SessionGrantInstructionInput \<Rightarrow> 'pk instruction js" where
  "createGrantSessionInstruction S input =
     bindE (seqE
          [Inr (discriminator S ''global:grant_session''),
           Inr (pk_bytes S (sgi_sessionPublicKey input)),
           u16Le (sgi_actionBitmap input),
           u64Le (sgi_perActionLimit input),
           u64Le (sgi_cumulativeLimit input),
           i64Le (sgi_validAfterUnix input),
           i64Le (sgi_validUntilUnix input),
           u64Le (sgi_vaultNonce input),
           i64Le (sgi_proofExpiresAt input),
           encodeVector (sgi_authenticatorData input),
           encodeVector (sgi_clientDataJson input)]) (\<lambda>parts.
     Inr \<lparr>ix_programId = program_or_default S (sgi_programId input),
          ix_keys =
            [meta (sgi_payer input) True True,
             meta (sgi_config input) False False,
             meta (sgi_vault input) False True,
             meta (sgi_session input) False True,
             meta (SYSVAR_INSTRUCTIONS_PUBKEY S) False False,
             meta (SystemProgram_programId S) False False],
          ix_data = concatBytes parts\<rparr>)"

definition createInitializeVaultAndGrantSessionInstruction ::
    "'pk sdk \<Rightarrow> 'pk InitializeVaultAndGrantSessionInstructionInput \<Rightarrow> 'pk instruction js" where
  "createInitializeVaultAndGrantSessionInstruction S input =
     bindE (seqE
          [Inr (discriminator S ''global:initialize_vault_and_grant_session''),
           Inr (vgi_rootPublicKey input),
           Inr (vgi_rootKeyHash input),
           Inr (vgi_userSalt input),
           Inr (pk_bytes S (vgi_sessionPublicKey input)),
           u16Le (vgi_actionBitmap input),
           u64Le (vgi_perActionLimit input),
           u64Le (vgi_cumulativeLimit input),
           i64Le (vgi_validAfterUnix input),
           i64Le (vgi_validUntilUnix input),
           i64Le (vgi_proofExpiresAt input),
           encodeVector (vgi_authenticatorData input),
           encodeVector (vgi_clientDataJson input)]) (\<lambda>parts.
     Inr \<lparr>ix_programId = program_or_default S (vgi_programId input),
          ix_keys =
            [meta (vgi_payer input) True True,
             meta (vgi_config input) False False,
             meta (vgi_vault input) False True,
             meta (vgi_session input) False True,
             meta (vgi_stablecoinMint input) False False,
             meta (vgi_vaultTokenAccount input) False True,
             meta (SYSVAR_INSTRUCTIONS_PUBKEY S) False False,
             meta (TOKEN_PROGRAM_ID S) False False,
             meta (ASSOCIATED_TOKEN_PROGRAM_ID S) False False,
             meta (SystemProgram_programId S) False False],
          ix_data = concatBytes parts\<rparr>)"

definition createSessionTransferInstruction ::
    "'pk sdk \<Rightarrow> 'pk SessionTransferInstructionInput \<Rightarrow> 'pk instruction js" where
  "createSessionTransferInstruction S input =
     bindE (seqE
          [Inr (discriminator S ''global:transfer_with_session''),
           u64Le (sti_amount input),
           u64Le (sti_sessionNonce input)]) (\<lambda>parts.
     Inr \<lparr>ix_programId = program_or_default S (sti_programId input),
          ix_keys =
            [meta (sti_config input) False False,
             meta (sti_vault input) False False,
             meta (sti_session input) False True,
             meta (sti_sessionSigner input) True False,
             meta (sti_stablecoinMint input) False False,
             meta (sti_vaultTokenAccount input) False True,
             meta (sti_destinationTokenAccount input) False True,
             meta (TOKEN_PROGRAM_ID S) False False],
          ix_data = concatBytes parts\<rparr>)"

definition createInitializeClaimAuthorityInstruction ::
    "'pk sdk \<Rightarrow> 'pk InitializeClaimAuthorityInstructionInput \<Rightarrow> 'pk instruction" where
  "createInitializeClaimAuthorityInstruction S input =
     \<lparr>ix_programId = program_or_default S (cai_programId input),
      ix_keys =
            [meta (cai_protocolAuthority input) True True,
             meta (cai_config input) False False,
             meta (cai_claimAuthorityConfig input) False True,
             meta (SystemProgram_programId S) False False],
      ix_data = concatBytes [discriminator S ''global:initialize_claim_authority'',
             pk_bytes S (cai_authority input)]\<rparr>"

definition createPaymentLinkWithSessionInstruction ::
    "'pk sdk \<Rightarrow> 'pk CreatePaymentLinkWithSessionInstructionInput \<Rightarrow> 'pk instruction js" where
  "createPaymentLinkWithSessionInstruction S input =
     (if length (cpi_linkId input) \<noteq> 32 \<or> length (cpi_recipientCommitment input) \<noteq> 32
      then Inl (JsError ''Payment-link ID and recipient commitment must each contain 32 bytes'')
      else
     bindE (seqE
          [Inr (discriminator S ''global:create_payment_link_with_session''),
           Inr (cpi_linkId input),
           Inr (cpi_recipientCommitment input),
           u64Le (cpi_amount input),
           i64Le (cpi_expiresAtUnix input),
           u64Le (cpi_sessionNonce input)]) (\<lambda>parts.
     Inr \<lparr>ix_programId = program_or_default S (cpi_programId input),
          ix_keys =
            [meta (cpi_payer input) True True,
             meta (cpi_config input) False False,
             meta (cpi_vault input) False False,
             meta (cpi_session input) False True,
             meta (cpi_sessionSigner input) True False,
             meta (cpi_stablecoinMint input) False False,
             meta (cpi_vaultTokenAccount input) False True,
             meta (cpi_paymentLink input) False True,
             meta (cpi_escrowTokenAccount input) False True,
             meta (TOKEN_PROGRAM_ID S) False False,
             meta (ASSOCIATED_TOKEN_PROGRAM_ID S) False False,
             meta (SystemProgram_programId S) False False],
          ix_data = concatBytes parts\<rparr>))"

definition createClaimPaymentLinkInstruction ::
    "'pk sdk \<Rightarrow> 'pk ClaimPaymentLinkInstructionInput \<Rightarrow> 'pk instruction" where
  "createClaimPaymentLinkInstruction S input =
     \<lparr>ix_programId = program_or_default S (clm_programId input),
      ix_keys =
            [meta (clm_claimAuthority input) True True,
             meta (clm_config input) False False,
             meta (clm_claimAuthorityConfig input) False False,
             meta (clm_recipientVault input) False False,
             meta (clm_paymentLink input) False True,
             meta (clm_stablecoinMint input) False False,
             meta (clm_escrowTokenAccount input) False True,
             meta (clm_destinationTokenAccount input) False True,
             meta (TOKEN_PROGRAM_ID S) False False,
             meta (ASSOCIATED_TOKEN_PROGRAM_ID S) False False,
             meta (SystemProgram_programId S) False False],
      ix_data = discriminator S ''global:claim_payment_link''\<rparr>"

definition createCancelPaymentLinkWithSessionInstruction ::
    "'pk sdk \<Rightarrow> 'pk CancelPaymentLinkWithSessionInstructionInput \<Rightarrow> 'pk instruction js" where
  "createCancelPaymentLinkWithSessionInstruction S input =
     bindE (seqE
          [Inr (discriminator S ''global:cancel_payment_link_with_session''),
           u64Le (can_sessionNonce input)]) (\<lambda>parts.
     Inr \<lparr>ix_programId = program_or_default S (can_programId input),
          ix_keys =
            [meta (can_config input) False False,
             meta (can_vault input) False False,
             meta (can_session input) False True,
             meta (can_sessionSigner input) True False,
             meta (can_paymentLink input) False True,
             meta (can_stablecoinMint input) False False,
             meta (can_escrowTokenAccount input) False True,
             meta (can_vaultTokenAccount input) False True,
             meta (TOKEN_PROGRAM_ID S) False False],
          ix_data = concatBytes parts\<rparr>)"

definition createRefundExpiredPaymentLinkInstruction ::
    "'pk sdk \<Rightarrow> 'pk RefundExpiredPaymentLinkInstructionInput \<Rightarrow> 'pk instruction" where
  "createRefundExpiredPaymentLinkInstruction S input =
     \<lparr>ix_programId = program_or_default S (rfd_programId input),
      ix_keys =
            [meta (rfd_config input) False False,
             meta (rfd_senderVault input) False False,
             meta (rfd_paymentLink input) False True,
             meta (rfd_stablecoinMint input) False False,
             meta (rfd_escrowTokenAccount input) False True,
             meta (rfd_vaultTokenAccount input) False True,
             meta (TOKEN_PROGRAM_ID S) False False],
      ix_data = discriminator S ''global:refund_expired_payment_link''\<rparr>"

definition createSolPasskeyTransferInstruction ::
    "'pk sdk \<Rightarrow> 'pk SolPasskeyTransferInstructionInput \<Rightarrow> 'pk instruction js" where
  "createSolPasskeyTransferInstruction S input =
     bindE (seqE
          [Inr (discriminator S ''global:transfer_sol_with_passkey''),
           u64Le (spt_amountLamports input),
           u64Le (spt_vaultNonce input),
           i64Le (spt_proofExpiresAt input),
           encodeVector (spt_authenticatorData input),
           encodeVector (spt_clientDataJson input)]) (\<lambda>parts.
     Inr \<lparr>ix_programId = program_or_default S (spt_programId input),
          ix_keys =
            [meta (spt_payer input) True True,
             meta (spt_config input) False False,
             meta (spt_vault input) False True,
             meta (spt_recipient input) False True,
             meta (SYSVAR_INSTRUCTIONS_PUBKEY S) False False],
          ix_data = concatBytes parts\<rparr>)"

definition createSolPaymentLinkWithPasskeyInstruction ::
    "'pk sdk \<Rightarrow> 'pk CreateSolPaymentLinkWithPasskeyInstructionInput \<Rightarrow> 'pk instruction js" where
  "createSolPaymentLinkWithPasskeyInstruction S input =
     (if length (csp_linkId input) \<noteq> 32 \<or> length (csp_recipientCommitment input) \<noteq> 32
      then Inl (JsError ''Payment-link ID and recipient commitment must each contain 32 bytes'')
      else
     bindE (seqE
          [Inr (discriminator S ''global:create_sol_payment_link_with_passkey''),
           Inr (csp_linkId input),
           Inr (csp_recipientCommitment input),
           u64Le (csp_amountLamports input),
           i64Le (csp_linkExpiresAtUnix input),
           u64Le (csp_vaultNonce input),
           i64Le (csp_proofExpiresAt input),
           encodeVector (csp_authenticatorData input),
           encodeVector (csp_clientDataJson input)]) (\<lambda>parts.
     Inr \<lparr>ix_programId = program_or_default S (csp_programId input),
          ix_keys =
            [meta (csp_payer input) True True,
             meta (csp_config input) False False,
             meta (csp_vault input) False True,
             meta (csp_paymentLink input) False True,
             meta (SYSVAR_INSTRUCTIONS_PUBKEY S) False False,
             meta (SystemProgram_programId S) False False],
          ix_data = concatBytes parts\<rparr>))"

definition createClaimSolPaymentLinkInstruction ::
    "'pk sdk \<Rightarrow> 'pk ClaimSolPaymentLinkInstructionInput \<Rightarrow> 'pk instruction" where
  "createClaimSolPaymentLinkInstruction S input =
     \<lparr>ix_programId = program_or_default S (cls_programId input),
      ix_keys =
            [meta (cls_claimAuthority input) True True,
             meta (cls_config input) False False,
             meta (cls_claimAuthorityConfig input) False False,
             meta (cls_recipientVault input) False True,
             meta (cls_paymentLink input) False True],
      ix_data = discriminator S ''global:claim_sol_payment_link''\<rparr>"

definition createCancelSolPaymentLinkWithPasskeyInstruction ::
    "'pk sdk \<Rightarrow> 'pk CancelSolPaymentLinkWithPasskeyInstructionInput \<Rightarrow> 'pk instruction js" where
  "createCancelSolPaymentLinkWithPasskeyInstruction S input =
     bindE (seqE
          [Inr (discriminator S ''global:cancel_sol_payment_link_with_passkey''),
           u64Le (cns_vaultNonce input),
           i64Le (cns_proofExpiresAt input),
           encodeVector (cns_authenticatorData input),
           encodeVector (cns_clientDataJson input)]) (\<lambda>parts.
     Inr \<lparr>ix_programId = program_or_default S (cns_programId input),
          ix_keys =
            [meta (cns_payer input) True True,
             meta (cns_config input) False False,
             meta (cns_vault input) False True,
             meta (cns_paymentLink input) False True,
             meta (SYSVAR_INSTRUCTIONS_PUBKEY S) False False],
          ix_data = concatBytes parts\<rparr>)"

definition createRefundExpiredSolPaymentLinkInstruction ::
    "'pk sdk \<Rightarrow> 'pk RefundExpiredSolPaymentLinkInstructionInput \<Rightarrow> 'pk instruction" where
  "createRefundExpiredSolPaymentLinkInstruction S input =
     \<lparr>ix_programId = program_or_default S (rfs_programId input),
      ix_keys =
            [meta (rfs_config input) False False,
             meta (rfs_senderVault input) False True,
             meta (rfs_paymentLink input) False True],
      ix_data = discriminator S ''global:refund_expired_sol_payment_link''\<rparr>"

section \<open>What the program expects\<close>

text \<open>An instruction without an argument struct reads no fields.\<close>

definition NoArgs :: "field list" where
  "NoArgs = []"

text \<open>The instructions together: the input of each builder, the builder, the instruction's name in
  the program, its argument struct, the values of the struct's fields in its order, and the
  (signer, writable) flags of its accounts.\<close>

datatype 'pk ix_request =
    IxInitializeVault "'pk InitializeVaultInstructionInput"
  | IxGrantSession "'pk SessionGrantInstructionInput"
  | IxInitializeVaultAndGrantSession "'pk InitializeVaultAndGrantSessionInstructionInput"
  | IxTransferWithPasskey "'pk PasskeyTransferInstructionInput"
  | IxTransferWithSession "'pk SessionTransferInstructionInput"
  | IxInitializeClaimAuthority "'pk InitializeClaimAuthorityInstructionInput"
  | IxCreatePaymentLink "'pk CreatePaymentLinkWithSessionInstructionInput"
  | IxClaimPaymentLink "'pk ClaimPaymentLinkInstructionInput"
  | IxCancelPaymentLink "'pk CancelPaymentLinkWithSessionInstructionInput"
  | IxRefundExpiredPaymentLink "'pk RefundExpiredPaymentLinkInstructionInput"
  | IxTransferSol "'pk SolPasskeyTransferInstructionInput"
  | IxCreateSolPaymentLink "'pk CreateSolPaymentLinkWithPasskeyInstructionInput"
  | IxClaimSolPaymentLink "'pk ClaimSolPaymentLinkInstructionInput"
  | IxCancelSolPaymentLink "'pk CancelSolPaymentLinkWithPasskeyInstructionInput"
  | IxRefundExpiredSolPaymentLink "'pk RefundExpiredSolPaymentLinkInstructionInput"

fun ix_build :: "'pk sdk \<Rightarrow> 'pk ix_request \<Rightarrow> 'pk instruction js" where
  "ix_build S (IxInitializeVault i) = createInitializeVaultInstruction S i"
| "ix_build S (IxGrantSession i) = createGrantSessionInstruction S i"
| "ix_build S (IxInitializeVaultAndGrantSession i) = createInitializeVaultAndGrantSessionInstruction S i"
| "ix_build S (IxTransferWithPasskey i) = createPasskeyTransferInstruction S i"
| "ix_build S (IxTransferWithSession i) = createSessionTransferInstruction S i"
| "ix_build S (IxInitializeClaimAuthority i) = Inr (createInitializeClaimAuthorityInstruction S i)"
| "ix_build S (IxCreatePaymentLink i) = createPaymentLinkWithSessionInstruction S i"
| "ix_build S (IxClaimPaymentLink i) = Inr (createClaimPaymentLinkInstruction S i)"
| "ix_build S (IxCancelPaymentLink i) = createCancelPaymentLinkWithSessionInstruction S i"
| "ix_build S (IxRefundExpiredPaymentLink i) = Inr (createRefundExpiredPaymentLinkInstruction S i)"
| "ix_build S (IxTransferSol i) = createSolPasskeyTransferInstruction S i"
| "ix_build S (IxCreateSolPaymentLink i) = createSolPaymentLinkWithPasskeyInstruction S i"
| "ix_build S (IxClaimSolPaymentLink i) = Inr (createClaimSolPaymentLinkInstruction S i)"
| "ix_build S (IxCancelSolPaymentLink i) = createCancelSolPaymentLinkWithPasskeyInstruction S i"
| "ix_build S (IxRefundExpiredSolPaymentLink i) = Inr (createRefundExpiredSolPaymentLinkInstruction S i)"

fun ix_name :: "'pk ix_request \<Rightarrow> string" where
  "ix_name (IxInitializeVault i) = ''global:initialize_vault''"
| "ix_name (IxGrantSession i) = ''global:grant_session''"
| "ix_name (IxInitializeVaultAndGrantSession i) = ''global:initialize_vault_and_grant_session''"
| "ix_name (IxTransferWithPasskey i) = ''global:transfer_with_passkey''"
| "ix_name (IxTransferWithSession i) = ''global:transfer_with_session''"
| "ix_name (IxInitializeClaimAuthority i) = ''global:initialize_claim_authority''"
| "ix_name (IxCreatePaymentLink i) = ''global:create_payment_link_with_session''"
| "ix_name (IxClaimPaymentLink i) = ''global:claim_payment_link''"
| "ix_name (IxCancelPaymentLink i) = ''global:cancel_payment_link_with_session''"
| "ix_name (IxRefundExpiredPaymentLink i) = ''global:refund_expired_payment_link''"
| "ix_name (IxTransferSol i) = ''global:transfer_sol_with_passkey''"
| "ix_name (IxCreateSolPaymentLink i) = ''global:create_sol_payment_link_with_passkey''"
| "ix_name (IxClaimSolPaymentLink i) = ''global:claim_sol_payment_link''"
| "ix_name (IxCancelSolPaymentLink i) = ''global:cancel_sol_payment_link_with_passkey''"
| "ix_name (IxRefundExpiredSolPaymentLink i) = ''global:refund_expired_sol_payment_link''"

fun ix_args :: "'pk ix_request \<Rightarrow> field list" where
  "ix_args (IxInitializeVault i) = InitializeVaultArgs"
| "ix_args (IxGrantSession i) = GrantSessionArgs"
| "ix_args (IxInitializeVaultAndGrantSession i) = InitializeVaultAndGrantSessionArgs"
| "ix_args (IxTransferWithPasskey i) = PasskeyTransferArgs"
| "ix_args (IxTransferWithSession i) = SessionTransferArgs"
| "ix_args (IxInitializeClaimAuthority i) = InitializeClaimAuthorityArgs"
| "ix_args (IxCreatePaymentLink i) = CreatePaymentLinkWithSessionArgs"
| "ix_args (IxClaimPaymentLink i) = NoArgs"
| "ix_args (IxCancelPaymentLink i) = CancelPaymentLinkWithSessionArgs"
| "ix_args (IxRefundExpiredPaymentLink i) = NoArgs"
| "ix_args (IxTransferSol i) = SolPasskeyTransferArgs"
| "ix_args (IxCreateSolPaymentLink i) = CreateSolPaymentLinkWithPasskeyArgs"
| "ix_args (IxClaimSolPaymentLink i) = NoArgs"
| "ix_args (IxCancelSolPaymentLink i) = CancelSolPaymentLinkWithPasskeyArgs"
| "ix_args (IxRefundExpiredSolPaymentLink i) = NoArgs"

fun ix_values :: "'pk sdk \<Rightarrow> 'pk ix_request \<Rightarrow> fval list" where
  "ix_values S (IxInitializeVault i) =
     [VBytes (ivi_rootPublicKey i), VBytes (ivi_rootKeyHash i), VBytes (ivi_userSalt i),
     VInt (ivi_proofExpiresAt i), VBytes (ivi_authenticatorData i), VBytes (ivi_clientDataJson i)]"
| "ix_values S (IxGrantSession i) =
     [VBytes (pk_bytes S (sgi_sessionPublicKey i)), VInt (num_int (sgi_actionBitmap i)),
     VInt (sgi_perActionLimit i), VInt (sgi_cumulativeLimit i), VInt (sgi_validAfterUnix i),
     VInt (sgi_validUntilUnix i), VInt (sgi_vaultNonce i), VInt (sgi_proofExpiresAt i),
     VBytes (sgi_authenticatorData i), VBytes (sgi_clientDataJson i)]"
| "ix_values S (IxInitializeVaultAndGrantSession i) =
     [VBytes (vgi_rootPublicKey i), VBytes (vgi_rootKeyHash i), VBytes (vgi_userSalt i),
     VBytes (pk_bytes S (vgi_sessionPublicKey i)), VInt (num_int (vgi_actionBitmap i)),
     VInt (vgi_perActionLimit i), VInt (vgi_cumulativeLimit i), VInt (vgi_validAfterUnix i),
     VInt (vgi_validUntilUnix i), VInt (vgi_proofExpiresAt i), VBytes (vgi_authenticatorData i),
     VBytes (vgi_clientDataJson i)]"
| "ix_values S (IxTransferWithPasskey i) =
     [VInt (pti_amount i), VInt (pti_vaultNonce i), VInt (pti_proofExpiresAt i),
     VBytes (pti_authenticatorData i), VBytes (pti_clientDataJson i)]"
| "ix_values S (IxTransferWithSession i) =
     [VInt (sti_amount i), VInt (sti_sessionNonce i)]"
| "ix_values S (IxInitializeClaimAuthority i) =
     [VBytes (pk_bytes S (cai_authority i))]"
| "ix_values S (IxCreatePaymentLink i) =
     [VBytes (cpi_linkId i), VBytes (cpi_recipientCommitment i), VInt (cpi_amount i),
     VInt (cpi_expiresAtUnix i), VInt (cpi_sessionNonce i)]"
| "ix_values S (IxClaimPaymentLink i) = []"
| "ix_values S (IxCancelPaymentLink i) =
     [VInt (can_sessionNonce i)]"
| "ix_values S (IxRefundExpiredPaymentLink i) = []"
| "ix_values S (IxTransferSol i) =
     [VInt (spt_amountLamports i), VInt (spt_vaultNonce i), VInt (spt_proofExpiresAt i),
     VBytes (spt_authenticatorData i), VBytes (spt_clientDataJson i)]"
| "ix_values S (IxCreateSolPaymentLink i) =
     [VBytes (csp_linkId i), VBytes (csp_recipientCommitment i), VInt (csp_amountLamports i),
     VInt (csp_linkExpiresAtUnix i), VInt (csp_vaultNonce i), VInt (csp_proofExpiresAt i),
     VBytes (csp_authenticatorData i), VBytes (csp_clientDataJson i)]"
| "ix_values S (IxClaimSolPaymentLink i) = []"
| "ix_values S (IxCancelSolPaymentLink i) =
     [VInt (cns_vaultNonce i), VInt (cns_proofExpiresAt i), VBytes (cns_authenticatorData i),
     VBytes (cns_clientDataJson i)]"
| "ix_values S (IxRefundExpiredSolPaymentLink i) = []"

fun ix_flags :: "'pk ix_request \<Rightarrow> (bool \<times> bool) list" where
  "ix_flags (IxInitializeVault i) =
     [(True, True), (False, False), (False, True), (False, False), (False, True), (False, False),
      (False, False), (False, False), (False, False)]"
| "ix_flags (IxGrantSession i) =
     [(True, True), (False, False), (False, True), (False, True), (False, False), (False, False)]"
| "ix_flags (IxInitializeVaultAndGrantSession i) =
     [(True, True), (False, False), (False, True), (False, True), (False, False), (False, True),
      (False, False), (False, False), (False, False), (False, False)]"
| "ix_flags (IxTransferWithPasskey i) =
     [(True, True), (False, False), (False, True), (False, False), (False, True), (False, True),
      (False, False), (False, False)]"
| "ix_flags (IxTransferWithSession i) =
     [(False, False), (False, False), (False, True), (True, False), (False, False),
      (False, True), (False, True), (False, False)]"
| "ix_flags (IxInitializeClaimAuthority i) =
     [(True, True), (False, False), (False, True), (False, False)]"
| "ix_flags (IxCreatePaymentLink i) =
     [(True, True), (False, False), (False, False), (False, True), (True, False), (False, False),
      (False, True), (False, True), (False, True), (False, False), (False, False), (False, False)]"
| "ix_flags (IxClaimPaymentLink i) =
     [(True, True), (False, False), (False, False), (False, False), (False, True),
      (False, False), (False, True), (False, True), (False, False), (False, False), (False, False)]"
| "ix_flags (IxCancelPaymentLink i) =
     [(False, False), (False, False), (False, True), (True, False), (False, True),
      (False, False), (False, True), (False, True), (False, False)]"
| "ix_flags (IxRefundExpiredPaymentLink i) =
     [(False, False), (False, False), (False, True), (False, False), (False, True),
      (False, True), (False, False)]"
| "ix_flags (IxTransferSol i) =
     [(True, True), (False, False), (False, True), (False, True), (False, False)]"
| "ix_flags (IxCreateSolPaymentLink i) =
     [(True, True), (False, False), (False, True), (False, True), (False, False), (False, False)]"
| "ix_flags (IxClaimSolPaymentLink i) =
     [(True, True), (False, False), (False, False), (False, True), (False, True)]"
| "ix_flags (IxCancelSolPaymentLink i) =
     [(True, True), (False, False), (False, True), (False, True), (False, False)]"
| "ix_flags (IxRefundExpiredSolPaymentLink i) =
     [(False, False), (False, True), (False, True)]"

text \<open>The action bitmap is a JavaScript number; it fits the struct when it is an integer too.\<close>

fun ix_integral :: "'pk ix_request \<Rightarrow> bool" where
  "ix_integral (IxGrantSession i) \<longleftrightarrow> isInteger (sgi_actionBitmap i)"
| "ix_integral (IxInitializeVaultAndGrantSession i) \<longleftrightarrow> isInteger (vgi_actionBitmap i)"
| "ix_integral _ \<longleftrightarrow> True"

definition ix_fits :: "'pk sdk \<Rightarrow> 'pk ix_request \<Rightarrow> bool" where
  "ix_fits S r \<longleftrightarrow> list_all2 fits (ix_args r) (ix_values S r) \<and> ix_integral r"

definition account_flags :: "'pk instruction \<Rightarrow> (bool \<times> bool) list" where
  "account_flags ix = map (\<lambda>m. (isSigner m, isWritable m)) (ix_keys ix)"

section \<open>The contract of a builder\<close>

locale borsh_instruction =
  fixes build :: "'pk sdk \<Rightarrow> 'i \<Rightarrow> 'pk instruction js"
    and req :: "'i \<Rightarrow> 'pk ix_request"
  assumes build_writes:
    "sdk_ok S \<Longrightarrow> ix_fits S (req i) \<Longrightarrow>
       \<exists>ix. build S i = Inr ix \<and>
            ix_data ix = discriminator S (ix_name (req i)) @ write_struct (ix_args (req i)) (ix_values S (req i)) \<and>
            account_flags ix = ix_flags (req i)"
begin

lemma reads_back:
  assumes "sdk_ok S" and "ix_fits S (req i)"
  shows "\<exists>ix. build S i = Inr ix \<and>
              take 8 (ix_data ix) = discriminator S (ix_name (req i)) \<and>
              read_struct (ix_args (req i)) (drop 8 (ix_data ix)) = Some (ix_values S (req i), []) \<and>
              account_flags ix = ix_flags (req i)"
proof -
  have "length (discriminator S (ix_name (req i))) = 8"
    using assms(1) by (simp add: discriminator_def subarray_def sdk_sha_length)
  with build_writes [OF assms] assms(2) show ?thesis
    by (auto simp: ix_fits_def read_struct_write_exact)
qed

end

text \<open>A builder that also refuses every input that does not fit.\<close>

locale checked_instruction = borsh_instruction build req
  for build :: "'pk sdk \<Rightarrow> 'i \<Rightarrow> 'pk instruction js"
    and req :: "'i \<Rightarrow> 'pk ix_request" +
  assumes build_refuses: "sdk_ok S \<Longrightarrow> build S i = Inr ix \<Longrightarrow> ix_fits S (req i)"
begin

lemma returns_iff: "sdk_ok S \<Longrightarrow> returns (build S i) \<longleftrightarrow> ix_fits S (req i)"
  using build_writes [of S i] build_refuses [of S i] by (auto simp: returns_def)

end

lemma u16Le_int: "u16Le x = (if isInteger x \<and> 0 \<le> num_int x \<and> num_int x < 2 ^ 16
                             then Inr (le_bytes 2 (num_int x))
                             else Inl (JsError ''Value is outside the u16 range''))"
  by (auto simp: u16Le_unfold u16_ok_def isInteger_iff)

lemma u64Le_int: "u64Le v = (if u64_ok v then Inr (le_bytes 8 v)
                             else Inl (JsError ''Value is outside the u64 range''))"
  by (auto simp: u64Le_def u64_ok_def)

lemma i64Le_int: "i64Le v = (if i64_ok v then Inr (le_bytes 8 v)
                             else Inl (JsError ''Value is outside the i64 range''))"
  by (auto simp: i64Le_def i64_ok_def)

lemma encodeVector_len: "encodeVector v = (if length v < 2 ^ 32 then Inr (le_bytes 4 (int (length v)) @ v)
                                           else Inl (JsError ''Value is outside the u32 range''))"
  by (auto simp: encodeVector_def u32Le_unfold u32_ok_nat)

lemmas ix_contract_simps =
  ix_fits_def account_flags_def meta_def fits.simps write_field.simps field_size.simps
  u16Le_int u64Le_int i64Le_int encodeVector_len
  InitializeVaultArgs_def GrantSessionArgs_def InitializeVaultAndGrantSessionArgs_def
  PasskeyTransferArgs_def SessionTransferArgs_def InitializeClaimAuthorityArgs_def
  CreatePaymentLinkWithSessionArgs_def CancelPaymentLinkWithSessionArgs_def
  SolPasskeyTransferArgs_def CreateSolPaymentLinkWithPasskeyArgs_def
  CancelSolPaymentLinkWithPasskeyArgs_def NoArgs_def sdk_length

interpretation ivi: checked_instruction createInitializeVaultInstruction IxInitializeVault
  by unfold_locales (auto simp: createInitializeVaultInstruction_def ix_contract_simps split: if_splits)

interpretation sgi: checked_instruction createGrantSessionInstruction IxGrantSession
  by unfold_locales (auto simp: createGrantSessionInstruction_def ix_contract_simps split: if_splits)

interpretation vgi: borsh_instruction createInitializeVaultAndGrantSessionInstruction IxInitializeVaultAndGrantSession
  by unfold_locales (auto simp: createInitializeVaultAndGrantSessionInstruction_def ix_contract_simps split: if_splits)

interpretation pti: checked_instruction createPasskeyTransferInstruction IxTransferWithPasskey
  by unfold_locales (auto simp: createPasskeyTransferInstruction_def ix_contract_simps split: if_splits)

interpretation sti: checked_instruction createSessionTransferInstruction IxTransferWithSession
  by unfold_locales (auto simp: createSessionTransferInstruction_def ix_contract_simps split: if_splits)

interpretation cai: checked_instruction "\<lambda>S i. Inr (createInitializeClaimAuthorityInstruction S i)" IxInitializeClaimAuthority
  by unfold_locales (auto simp: createInitializeClaimAuthorityInstruction_def ix_contract_simps split: if_splits)

interpretation cpi: checked_instruction createPaymentLinkWithSessionInstruction IxCreatePaymentLink
  by unfold_locales (auto simp: createPaymentLinkWithSessionInstruction_def ix_contract_simps split: if_splits)

interpretation clm: checked_instruction "\<lambda>S i. Inr (createClaimPaymentLinkInstruction S i)" IxClaimPaymentLink
  by unfold_locales (auto simp: createClaimPaymentLinkInstruction_def ix_contract_simps split: if_splits)

interpretation can: checked_instruction createCancelPaymentLinkWithSessionInstruction IxCancelPaymentLink
  by unfold_locales (auto simp: createCancelPaymentLinkWithSessionInstruction_def ix_contract_simps split: if_splits)

interpretation rfd: checked_instruction "\<lambda>S i. Inr (createRefundExpiredPaymentLinkInstruction S i)" IxRefundExpiredPaymentLink
  by unfold_locales (auto simp: createRefundExpiredPaymentLinkInstruction_def ix_contract_simps split: if_splits)

interpretation spt: checked_instruction createSolPasskeyTransferInstruction IxTransferSol
  by unfold_locales (auto simp: createSolPasskeyTransferInstruction_def ix_contract_simps split: if_splits)

interpretation csp: checked_instruction createSolPaymentLinkWithPasskeyInstruction IxCreateSolPaymentLink
  by unfold_locales (auto simp: createSolPaymentLinkWithPasskeyInstruction_def ix_contract_simps split: if_splits)

interpretation cls: checked_instruction "\<lambda>S i. Inr (createClaimSolPaymentLinkInstruction S i)" IxClaimSolPaymentLink
  by unfold_locales (auto simp: createClaimSolPaymentLinkInstruction_def ix_contract_simps split: if_splits)

interpretation cns: checked_instruction createCancelSolPaymentLinkWithPasskeyInstruction IxCancelSolPaymentLink
  by unfold_locales (auto simp: createCancelSolPaymentLinkWithPasskeyInstruction_def ix_contract_simps split: if_splits)

interpretation rfs: checked_instruction "\<lambda>S i. Inr (createRefundExpiredSolPaymentLinkInstruction S i)" IxRefundExpiredSolPaymentLink
  by unfold_locales (auto simp: createRefundExpiredSolPaymentLinkInstruction_def ix_contract_simps split: if_splits)

section \<open>All builders\<close>

interpretation ix: borsh_instruction ix_build "\<lambda>r. r"
proof
  fix S :: "'pk sdk" and r :: "'pk ix_request"
  assume "sdk_ok S" and "ix_fits S r"
  then show "\<exists>ix. ix_build S r = Inr ix \<and>
      ix_data ix = discriminator S (ix_name r) @ write_struct (ix_args r) (ix_values S r) \<and>
      account_flags ix = ix_flags r"
    using ivi.build_writes sgi.build_writes vgi.build_writes pti.build_writes sti.build_writes
      cai.build_writes cpi.build_writes clm.build_writes can.build_writes rfd.build_writes
      spt.build_writes csp.build_writes cls.build_writes cns.build_writes rfs.build_writes
    by (cases r) (simp_all only: ix_build.simps)
qed

fun is_vault_and_session :: "'pk ix_request \<Rightarrow> bool" where
  "is_vault_and_session (IxInitializeVaultAndGrantSession i) \<longleftrightarrow> True"
| "is_vault_and_session _ \<longleftrightarrow> False"

lemma ix_returns_iff:
  assumes "sdk_ok S" and "\<not> is_vault_and_session r"
  shows "returns (ix_build S r) \<longleftrightarrow> ix_fits S r"
  using assms
  by (cases r) (simp_all only: ix_build.simps is_vault_and_session.simps ivi.returns_iff sgi.returns_iff
      pti.returns_iff sti.returns_iff cai.returns_iff cpi.returns_iff clm.returns_iff can.returns_iff
      rfd.returns_iff spt.returns_iff csp.returns_iff cls.returns_iff cns.returns_iff rfs.returns_iff
      not_True_eq_False)

text \<open>Concrete inputs.\<close>

definition sample_transfer :: "256 word PasskeyTransferInstructionInput" where
  "sample_transfer =
     \<lparr>pti_payer = 1, pti_config = 2, pti_vault = 3, pti_stablecoinMint = 4,
      pti_vaultTokenAccount = 5, pti_destinationTokenAccount = 6, pti_amount = 1000000,
      pti_vaultNonce = 7, pti_proofExpiresAt = 1700000000, pti_authenticatorData = replicate 37 0,
      pti_clientDataJson = [123, 125], pti_programId = None\<rparr>"

definition sample_vault_and_session ::
    "bytes \<Rightarrow> bytes \<Rightarrow> 'pk \<Rightarrow> 'pk InitializeVaultAndGrantSessionInstructionInput" where
  "sample_vault_and_session pub kh k =
     \<lparr>vgi_payer = k, vgi_config = k, vgi_vault = k, vgi_session = k, vgi_sessionPublicKey = k,
      vgi_actionBitmap = jint 1, vgi_perActionLimit = 5, vgi_cumulativeLimit = 9,
      vgi_validAfterUnix = 0, vgi_validUntilUnix = 10, vgi_proofExpiresAt = 10,
      vgi_authenticatorData = [], vgi_clientDataJson = [], vgi_stablecoinMint = k,
      vgi_vaultTokenAccount = k, vgi_rootPublicKey = pub, vgi_rootKeyHash = kh,
      vgi_userSalt = replicate 32 0, vgi_programId = None\<rparr>"

section \<open>Properties\<close>

text \<open>C37. Every builder, given an input that fits the program's argument struct, returns an
  instruction the program reads back exactly: its first eight bytes are the instruction's
  discriminator, the Borsh reader on the rest returns the input's values in the order of the Rust
  struct with nothing left over, and the accounts have the signer and writable flags of the
  program's \<open>Accounts\<close> struct.\<close>

theorem instructions_read_back:
  assumes "sdk_ok S" and "ix_fits S r"
  shows "\<exists>ix. ix_build S r = Inr ix \<and>
              take 8 (ix_data ix) = discriminator S (ix_name r) \<and>
              read_struct (ix_args r) (drop 8 (ix_data ix)) = Some (ix_values S r, []) \<and>
              account_flags ix = ix_flags r"
  using ix.reads_back [OF assms] .

theorem instructions_read_back_witness:
  "\<exists>ix. ix_build word_sdk (IxTransferWithPasskey sample_transfer) = Inr ix \<and>
        read_struct PasskeyTransferArgs (drop 8 (ix_data ix)) =
          Some ([VInt 1000000, VInt 7, VInt 1700000000, VBytes (replicate 37 0), VBytes [123, 125]], [])"
  using instructions_read_back [of word_sdk "IxTransferWithPasskey sample_transfer"] word_sdk_ok
  by (auto simp: ix_contract_simps sample_transfer_def u64_ok_def i64_ok_def)

text \<open>Every builder but the combined one throws on exactly the inputs that do not fit the
  program's argument struct: a byte string of another length, an integer outside its word, an
  action bitmap that is not an integer.\<close>

theorem builders_refuse_exactly_misfits:
  assumes "sdk_ok S" and "\<not> is_vault_and_session r"
  shows "returns (ix_build S r) \<longleftrightarrow> ix_fits S r"
  using ix_returns_iff [OF assms] .

theorem builders_refuse_exactly_misfits_witness:
  "returns (ix_build word_sdk (IxTransferWithPasskey sample_transfer)) \<and>
   \<not> returns (ix_build word_sdk (IxTransferWithPasskey (sample_transfer \<lparr>pti_amount := 2 ^ 64\<rparr>)))"
  using builders_refuse_exactly_misfits [of word_sdk "IxTransferWithPasskey sample_transfer"]
    builders_refuse_exactly_misfits
      [of word_sdk "IxTransferWithPasskey (sample_transfer \<lparr>pti_amount := 2 ^ 64\<rparr>)"] word_sdk_ok
  by (simp add: ix_contract_simps sample_transfer_def u64_ok_def i64_ok_def del: ix_build.simps)

text \<open>\<open>createInitializeVaultAndGrantSessionInstruction\<close>, unlike
  \<open>createInitializeVaultInstruction\<close>, has no length check on the key material: for every SDK it
  returns on a 32-byte root public key with a 33-byte root key hash, and emits the very
  instruction of the input with the byte on the other side of the field boundary.\<close>

theorem combined_builder_accepts_misfit_key_material:
  "\<exists>(i :: 'pk InitializeVaultAndGrantSessionInstructionInput) j.
     length (vgi_rootPublicKey i) = 32 \<and> length (vgi_rootKeyHash i) = 33 \<and>
     length (vgi_rootPublicKey j) = 33 \<and> length (vgi_rootKeyHash j) = 32 \<and>
     returns (createInitializeVaultAndGrantSessionInstruction S i) \<and>
     createInitializeVaultAndGrantSessionInstruction S i =
       createInitializeVaultAndGrantSessionInstruction S j"
proof -
  let ?i = "sample_vault_and_session (replicate 32 1) (1 # replicate 32 1) (undefined :: 'pk)"
  let ?j = "sample_vault_and_session (replicate 32 1 @ [1]) (replicate 32 1) (undefined :: 'pk)"
  have "returns (createInitializeVaultAndGrantSessionInstruction S ?i)"
    "createInitializeVaultAndGrantSessionInstruction S ?i =
     createInitializeVaultAndGrantSessionInstruction S ?j"
    by (simp_all add: createInitializeVaultAndGrantSessionInstruction_def sample_vault_and_session_def
        ix_contract_simps u64_ok_def i64_ok_def returns_def)
  moreover have "length (vgi_rootPublicKey ?i) = 32" "length (vgi_rootKeyHash ?i) = 33"
    "length (vgi_rootPublicKey ?j) = 33" "length (vgi_rootKeyHash ?j) = 32"
    by (simp_all add: sample_vault_and_session_def)
  ultimately show ?thesis by blast
qed

end
