(* ===== verification/RelayerPolicy.thy ===== *)
theory RelayerPolicy
  imports Prelude
begin

text \<open>
  \<open>backend/src/relayer/relayer-policy.ts\<close>: what the relayer key is willing to sign. The policy
  reads the first two bytes of a hexadecimal action payload with \<open>parseInt\<close>; it is proved
  equal to the policy on the bytes themselves for every payload that is the hexadecimal form of
  a byte string.
\<close>

section \<open>Definitions\<close>

definition ACTION_TRANSFER_TYPE :: int where "ACTION_TRANSFER_TYPE = 1"
definition ACTION_EXECUTE :: int where "ACTION_EXECUTE = 2"
definition ACTION_CONFIG :: int where "ACTION_CONFIG = 3"
definition ACTION_ADD_KEY :: int where "ACTION_ADD_KEY = 5"
definition ACTION_REMOVE_KEY :: int where "ACTION_REMOVE_KEY = 6"

definition FORBIDDEN_CONFIG_TYPES :: "int \<rightharpoonup> string" where
  "FORBIDDEN_CONFIG_TYPES =
     [1 \<mapsto> ''daily limit'', 3 \<mapsto> ''recovery guardians'', 7 \<mapsto> ''spending limit module'',
      10 \<mapsto> ''session registry'', 11 \<mapsto> ''owner rotation'']"

definition ALLOWED_CONFIG_TYPES :: "int set" where
  "ALLOWED_CONFIG_TYPES = {2, 8}"

record ActionPolicyVerdict =
  allowed :: bool
  reason :: "string option"

definition allow :: ActionPolicyVerdict where
  "allow = \<lparr>allowed = True, reason = None\<rparr>"

definition refuse :: "string \<Rightarrow> ActionPolicyVerdict" where
  "refuse r = \<lparr>allowed = False, reason = Some r\<rparr>"

text \<open>A number in a template string; \<^term>\<open>None\<close> is \<open>NaN\<close>.\<close>

definition show_parsed :: "int option \<Rightarrow> string" where
  "show_parsed v = (case v of Some i \<Rightarrow> show_int i | None \<Rightarrow> ''NaN'')"

definition evaluateConfig :: "string \<Rightarrow> ActionPolicyVerdict" where
  "evaluateConfig body =
     (if length body < 4 then refuse ''CONFIG action is missing its sub-type''
      else
        let configType = parseInt16 (subarray body 2 4) in
        if (case configType of Some i \<Rightarrow> i \<in> ALLOWED_CONFIG_TYPES | None \<Rightarrow> False) then allow
        else case Option.bind configType FORBIDDEN_CONFIG_TYPES of
               Some label \<Rightarrow>
                 refuse (''CONFIG '' @ show_parsed configType @ '' ('' @ label @
                         '') requires direct passkey authorization'')
             | None \<Rightarrow>
                 refuse (''CONFIG '' @ show_parsed configType @
                         '' is not permitted on the relayer path''))"

definition evaluateRelayerAction :: "string \<Rightarrow> ActionPolicyVerdict" where
  "evaluateRelayerAction actionPayload =
     (if \<not> startsWith actionPayload ''0x'' then refuse ''Action payload must be 0x-prefixed hex''
      else
        let body = drop 2 actionPayload in
        if length body < 2 then refuse ''Action payload is empty''
        else case parseInt16 (subarray body 0 2) of
               None \<Rightarrow> refuse ''Action payload is not valid hex''
             | Some actionType \<Rightarrow>
                 if actionType = ACTION_TRANSFER_TYPE \<or> actionType = ACTION_EXECUTE then allow
                 else if actionType = ACTION_ADD_KEY \<or> actionType = ACTION_REMOVE_KEY then
                   refuse ''Key management requires direct passkey authorization and cannot be signed by the relayer''
                 else if actionType = ACTION_CONFIG then evaluateConfig body
                 else refuse (''Unknown action type '' @ show_int actionType))"

text \<open>\<open>ForbiddenException\<close> carries its message.\<close>

definition assertRelayerMaySign :: "string \<Rightarrow> unit js" where
  "assertRelayerMaySign actionPayload =
     (let verdict = evaluateRelayerAction actionPayload in
      if \<not> allowed verdict
      then Inl (JsError (''Relayer policy: '' @
             (case reason verdict of Some r \<Rightarrow> r | None \<Rightarrow> ''undefined'')))
      else Inr ())"

section \<open>The policy on bytes\<close>

text \<open>What the vault executes is a byte string: the action type and, for a configuration action,
  its sub-type. The relayer may sign transfers, executions, pausing and session revocation.\<close>

definition relayer_may_sign :: "bytes \<Rightarrow> bool" where
  "relayer_may_sign bs =
     (case bs of
        [] \<Rightarrow> False
      | a # rest \<Rightarrow>
          a = 1 \<or> a = 2 \<or> a = 3 \<and> (case rest of c # _ \<Rightarrow> c = 2 \<or> c = 8 | [] \<Rightarrow> False))"

lemma to_hex_Cons [simp]:
  "to_hex (b # bs) = nibble_char (unat b div 16) # nibble_char (unat b mod 16) # to_hex bs"
  "to_hex [] = []"
  by (simp_all add: to_hex_def)

lemma uint_byte_eq:
  "uint (b :: byte) = 1 \<longleftrightarrow> b = 1" "uint b = 2 \<longleftrightarrow> b = 2" "uint b = 3 \<longleftrightarrow> b = 3" "uint b = 8 \<longleftrightarrow> b = 8"
  by (simp_all add: word_uint_eq_iff)

lemmas policy_defs =
  ACTION_TRANSFER_TYPE_def ACTION_EXECUTE_def ACTION_CONFIG_def ACTION_ADD_KEY_def
  ACTION_REMOVE_KEY_def ALLOWED_CONFIG_TYPES_def allow_def refuse_def

lemma config_verdict_hex:
  "allowed (evaluateConfig (to_hex (a # rest))) \<longleftrightarrow>
     (case rest of c # _ \<Rightarrow> c = 2 \<or> c = 8 | [] \<Rightarrow> False)"
  by (cases rest)
    (auto simp: evaluateConfig_def policy_defs subarray_def parseInt16_byte uint_byte_eq Let_def
       split: option.splits)

lemma verdict_hex: "allowed (evaluateRelayerAction (''0x'' @ to_hex bs)) \<longleftrightarrow> relayer_may_sign bs"
proof (cases bs)
  case Nil
  then show ?thesis by (simp add: evaluateRelayerAction_def relayer_may_sign_def refuse_def startsWith_def)
next
  case (Cons a rest)
  have "allowed (evaluateRelayerAction (''0x'' @ to_hex bs)) \<longleftrightarrow>
      uint a = 1 \<or> uint a = 2 \<or> uint a = 3 \<and> allowed (evaluateConfig (to_hex (a # rest)))"
    by (simp add: Cons evaluateRelayerAction_def policy_defs startsWith_def subarray_def
        parseInt16_byte Let_def)
  then show ?thesis
    unfolding config_verdict_hex by (auto simp: Cons relayer_may_sign_def uint_byte_eq)
qed

section \<open>Properties\<close>

text \<open>On every payload that is the hexadecimal form of a byte string, the relayer guard passes
  exactly the actions the policy names: transfers, executions, and of the configuration actions
  only pausing and session revocation; everything else throws.\<close>

theorem relayer_guard_matches_policy:
  "returns (assertRelayerMaySign (''0x'' @ to_hex bs)) \<longleftrightarrow> relayer_may_sign bs"
  unfolding assertRelayerMaySign_def Let_def verdict_hex by simp

text \<open>The guard answers \<open>not valid hex\<close> only when not even one digit can be read:
  \<open>parseInt\<close> ignores everything after the first digits, so a payload whose first byte is a digit 1
  followed by any character that is not hexadecimal passes as a transfer.\<close>

theorem relayer_guard_passes_invalid_hex:
  assumes "char_nibble c = None"
  shows "returns (assertRelayerMaySign (''0x1'' @ c # rest))"
  using assms
  by (simp add: assertRelayerMaySign_def evaluateRelayerAction_def policy_defs startsWith_def
      subarray_def parseInt16_def parse_digits16_def char_nibble_def is_ws_def)

theorem relayer_guard_passes_invalid_hex_witness:
  "returns (assertRelayerMaySign ''0x1z'') \<and> from_hex (drop 2 ''0x1z'') = []"
  using relayer_guard_passes_invalid_hex [of "CHR ''z''" "[]"] by (simp add: char_nibble_def)

end
