(* ===== verification/Backend.thy ===== *)
theory Backend
  imports Prelude
begin

text \<open>
  What the services of \<open>backend/src\<close> share: the HTTP exceptions they throw, and the database
  tables they keep through Prisma. A handler takes the tables and returns its result, or the
  exception, with the tables after it. A table is a list of rows in the order of their creation;
  \<open>findUnique\<close>, \<open>update\<close>, \<open>updateMany\<close> with a condition and \<open>create\<close> are its operations.
  Amounts are JavaScript numbers; they are modelled by rationals, so the rounding of binary
  floating point is not represented.
\<close>

section \<open>Exceptions\<close>

datatype http_error =
    BadRequest string
  | NotFound string
  | Forbidden string
  | Conflict string
  | Unauthorized string
  | ServiceUnavailable string
  | InternalError string

type_synonym 'a http = "http_error + 'a"
type_synonym ('a, 's) outcome = "'a http \<times> 's"

definition failed :: "'e + 'a \<Rightarrow> bool" where
  "failed r \<longleftrightarrow> \<not> returns r"

lemma failed_simps [simp]: "failed (Inl e)" "\<not> failed (Inr x)"
  by (simp_all add: failed_def)

section \<open>Tables\<close>

type_synonym 'r table = "(string \<times> 'r) list"

definition findUnique :: "'r table \<Rightarrow> string \<Rightarrow> 'r option" where
  "findUnique t k = map_of t k"

definition update_row :: "string \<Rightarrow> ('r \<Rightarrow> 'r) \<Rightarrow> 'r table \<Rightarrow> 'r table" where
  "update_row k f t = map (\<lambda>(i, r). if i = k then (i, f r) else (i, r)) t"

definition create_row :: "string \<Rightarrow> 'r \<Rightarrow> 'r table \<Rightarrow> 'r table" where
  "create_row k r t = t @ [(k, r)]"

text \<open>\<open>updateMany({ where: { id, ... } })\<close> changes the rows that satisfy the condition and
  returns their number.\<close>

definition updateMany :: "string \<Rightarrow> ('r \<Rightarrow> bool) \<Rightarrow> ('r \<Rightarrow> 'r) \<Rightarrow> 'r table \<Rightarrow> nat \<times> 'r table" where
  "updateMany k c f t =
     (length (filter (\<lambda>(i, r). i = k \<and> c r) t),
      map (\<lambda>(i, r). if i = k \<and> c r then (i, f r) else (i, r)) t)"

definition keys_unique :: "'r table \<Rightarrow> bool" where
  "keys_unique t \<longleftrightarrow> distinct (map fst t)"

lemma findUnique_update [simp]:
  "findUnique (update_row k f t) j = (if j = k then map_option f (findUnique t j) else findUnique t j)"
  by (induction t) (auto simp: findUnique_def update_row_def)

lemma keys_update [simp]: "map fst (update_row k f t) = map fst t"
  by (induction t) (auto simp: update_row_def)

lemma findUnique_create:
  "findUnique (create_row k r t) j =
     (case findUnique t j of Some x \<Rightarrow> Some x | None \<Rightarrow> if j = k then Some r else None)"
  by (auto simp: findUnique_def create_row_def map_add_def split: option.splits)

lemma findUnique_None: "findUnique t k = None \<longleftrightarrow> k \<notin> fst ` set t"
  by (simp add: findUnique_def map_of_eq_None_iff)

lemma keys_create: "keys_unique t \<Longrightarrow> findUnique t k = None \<Longrightarrow> keys_unique (create_row k r t)"
  by (auto simp: keys_unique_def create_row_def findUnique_None)

lemma updateMany_keys [simp]: "map fst (snd (updateMany k c f t)) = map fst t"
  by (induction t) (auto simp: updateMany_def)

lemma updateMany_unique:
  assumes "keys_unique t"
  shows "updateMany k c f t =
    (case findUnique t k of
       Some r \<Rightarrow> if c r then (1, update_row k f t) else (0, t)
     | None \<Rightarrow> (0, t))"
  using assms
proof (induction t)
  case (Cons p t)
  have *: "k \<notin> fst ` set t \<Longrightarrow> filter (\<lambda>(i, r). i = k \<and> c r) t = [] \<and>
      map (\<lambda>(i, r). if i = k \<and> c r then (i, f r) else (i, r)) t = t \<and> update_row k f t = t"
    by (induction t) (auto simp: update_row_def)
  obtain i r where p: "p = (i, r)" by force
  have u: "keys_unique t" "i \<notin> fst ` set t" using Cons.prems by (auto simp: keys_unique_def p)
  show ?case
  proof (cases "i = k")
    case True
    then show ?thesis using * u by (simp add: p updateMany_def findUnique_def update_row_def)
  next
    case False
    then show ?thesis
      using Cons.IH [OF u(1)]
      by (auto simp: p updateMany_def findUnique_def update_row_def split: option.splits if_splits)
  qed
qed (simp add: updateMany_def findUnique_def)

lemma update_row_const:
  assumes "keys_unique t" and "findUnique t k = Some r"
  shows "update_row k f t = update_row k (\<lambda>_. f r) t"
proof -
  have "\<forall>(i, x) \<in> set t. i = k \<longrightarrow> x = r"
    using assms by (auto simp: keys_unique_def findUnique_def dest: map_of_SomeD eq_key_imp_eq_value)
  then show ?thesis by (auto simp: update_row_def)
qed

section \<open>Numbers\<close>

text \<open>\<open>parseFloat(x.toFixed(2))\<close>: the nearest multiple of one hundredth, the larger of two.\<close>

definition toFixed2 :: "rat \<Rightarrow> rat" where
  "toFixed2 x = of_int \<lfloor>x * 100 + 1 / 2\<rfloor> / 100"

lemma toFixed2_bounds: "toFixed2 x \<le> x + 1 / 200" "x - 1 / 200 < toFixed2 x"
proof -
  have "of_int \<lfloor>x * 100 + 1 / 2\<rfloor> \<le> x * 100 + 1 / 2" by (rule of_int_floor_le)
  then show "toFixed2 x \<le> x + 1 / 200" by (simp add: toFixed2_def field_simps)
  have "x * 100 + 1 / 2 < of_int \<lfloor>x * 100 + 1 / 2\<rfloor> + 1" by linarith
  then show "x - 1 / 200 < toFixed2 x" by (simp add: toFixed2_def field_simps)
qed

lemma toFixed2_nonneg: "0 \<le> x \<Longrightarrow> 0 \<le> toFixed2 x"
  by (simp add: toFixed2_def)

end
