(* ===== verification/Dates.thy ===== *)
theory Dates
  imports Prelude
begin

text \<open>
  The part of the ECMAScript \<open>Date\<close> that the backend uses: a date is its time value, an integer
  number of milliseconds since 1970; \<open>getUTCFullYear\<close>, \<open>getUTCMonth\<close>, \<open>getUTCDate\<close>,
  \<open>Date.UTC\<close> and the day part of \<open>toISOString\<close>, by the formulas of the language
  specification. The year of a time is computed by an estimate and one correction, and proved to
  be the year the specification names.
\<close>

type_synonym date = int

definition msPerDay :: int where
  "msPerDay = 24 * 60 * 60 * 1000"

definition day_of :: "date \<Rightarrow> int" where
  "day_of t = t div msPerDay"

definition day_from_year :: "int \<Rightarrow> int" where
  "day_from_year y =
     365 * (y - 1970) + (y - 1969) div 4 - (y - 1901) div 100 + (y - 1601) div 400"

definition leap :: "int \<Rightarrow> bool" where
  "leap y \<longleftrightarrow> y mod 4 = 0 \<and> (y mod 100 \<noteq> 0 \<or> y mod 400 = 0)"

definition year_of_day :: "int \<Rightarrow> int" where
  "year_of_day d =
     (let y = 1970 + 400 * d div 146097 in
      if day_from_year (y + 1) \<le> d then y + 1
      else if d < day_from_year y then y - 1 else y)"

definition month_start :: "bool \<Rightarrow> int \<Rightarrow> int" where
  "month_start lp m =
     [0, 31, 59, 90, 120, 151, 181, 212, 243, 273, 304, 334] ! nat m + (if lp \<and> 2 \<le> m then 1 else 0)"

definition month_of_yday :: "bool \<Rightarrow> int \<Rightarrow> int" where
  "month_of_yday lp n =
     (let l = (if lp then 1 else 0) in
      if n < 31 then 0 else if n < 59 + l then 1 else if n < 90 + l then 2
      else if n < 120 + l then 3 else if n < 151 + l then 4 else if n < 181 + l then 5
      else if n < 212 + l then 6 else if n < 243 + l then 7 else if n < 273 + l then 8
      else if n < 304 + l then 9 else if n < 334 + l then 10 else 11)"

definition getUTCFullYear :: "date \<Rightarrow> int" where
  "getUTCFullYear t = year_of_day (day_of t)"

definition yday :: "date \<Rightarrow> int" where
  "yday t = day_of t - day_from_year (getUTCFullYear t)"

definition getUTCMonth :: "date \<Rightarrow> int" where
  "getUTCMonth t = month_of_yday (leap (getUTCFullYear t)) (yday t)"

definition getUTCDate :: "date \<Rightarrow> int" where
  "getUTCDate t = yday t - month_start (leap (getUTCFullYear t)) (getUTCMonth t) + 1"

text \<open>\<open>Date.UTC\<close> reads a year from 0 to 99 as one of the twentieth century.\<close>

definition DateUTC :: "int \<Rightarrow> int \<Rightarrow> int \<Rightarrow> date" where
  "DateUTC y m d =
     (let yr = (if 0 \<le> y \<and> y \<le> 99 then 1900 + y else y)
      in (day_from_year yr + month_start (leap yr) m + d - 1) * msPerDay)"

text \<open>\<open>t.toISOString().split('T')[0]\<close>.\<close>

definition iso_year :: "int \<Rightarrow> string" where
  "iso_year y =
     (if 0 \<le> y \<and> y \<le> 9999 then padStart 4 CHR ''0'' (show_nat (nat y))
      else (if y < 0 then ''-'' else ''+'') @ padStart 6 CHR ''0'' (show_nat (nat \<bar>y\<bar>)))"

definition iso_day :: "date \<Rightarrow> string" where
  "iso_day t =
     iso_year (getUTCFullYear t) @ ''-'' @
     padStart 2 CHR ''0'' (show_nat (nat (getUTCMonth t + 1))) @ ''-'' @
     padStart 2 CHR ''0'' (show_nat (nat (getUTCDate t)))"

text \<open>\<open>Math.round\<close>.\<close>

definition math_round :: "rat \<Rightarrow> int" where
  "math_round x = \<lfloor>x + 1 / 2\<rfloor>"

section \<open>The year is the one the specification names\<close>

lemma div_lower: "0 < n \<Longrightarrow> x - (n - 1) \<le> n * (x div n)" for x n :: int
  using pos_mod_bound [of n x] minus_mult_div_eq_mod [of x n] by linarith

lemma div_upper: "0 < n \<Longrightarrow> n * (x div n) \<le> x" for x n :: int
  using pos_mod_sign [of n x] minus_mult_div_eq_mod [of x n] by linarith

lemma day_from_year_bounds:
  "400 * day_from_year y \<le> 146097 * (y - 1970) + 589"
  "146097 * (y - 1970) - 506 \<le> 400 * day_from_year y"
  unfolding day_from_year_def
  using div_lower [of 4 "y - 1969", simplified] div_upper [of 4 "y - 1969", simplified]
    div_lower [of 100 "y - 1901", simplified] div_upper [of 100 "y - 1901", simplified]
    div_lower [of 400 "y - 1601", simplified] div_upper [of 400 "y - 1601", simplified]
  by (simp_all add: algebra_simps)

lemma div_succ: "0 < n \<Longrightarrow> (x + 1) div n = x div n + (if (x + 1) mod n = 0 then 1 else 0)" for x n :: int
proof -
  assume n: "0 < n"
  show ?thesis
  proof (cases "(x + 1) mod n = 0")
    case True
    then obtain k where k: "x + 1 = n * k" by blast
    then have "x = n * (k - 1) + (n - 1)" by (simp add: algebra_simps)
    then have "x div n = k - 1" using n by (simp add: div_mult_self4)
    with k n True show ?thesis by simp
  next
    case False
    have "(x + 1) mod n \<ge> 1" using False pos_mod_sign [OF n, of "x + 1"] by linarith
    then have "x = n * ((x + 1) div n) + ((x + 1) mod n - 1)"
      using mult_div_mod_eq [of n "x + 1"] by linarith
    moreover have "0 \<le> (x + 1) mod n - 1" "(x + 1) mod n - 1 < n"
      using \<open>(x + 1) mod n \<ge> 1\<close> pos_mod_bound [OF n, of "x + 1"] by linarith+
    ultimately have "x div n = (x + 1) div n" by (metis int_div_pos_eq)
    with False show ?thesis by simp
  qed
qed

lemma shift_mod: "(y - n * k) mod n = y mod n" for y n k :: int
  by (metis diff_conv_add_uminus mod_mult_self2 mult_minus_right)

lemma year_step:
  "(q \<Longrightarrow> p) \<Longrightarrow> (r \<Longrightarrow> q) \<Longrightarrow>
   365 * (y + 1 - 1970) + (a + (if p then 1 else 0)) - (b + (if q then 1 else 0)) + (c + (if r then 1 else 0)) =
   365 * (y - 1970) + a - b + c + (if p \<and> (\<not> q \<or> r) then 366 else 365)" for y a b c :: int
  by (cases p; cases q; cases r) simp_all

lemma day_from_year_succ: "day_from_year (y + 1) = day_from_year y + (if leap y then 366 else 365)"
proof -
  have m: "(y - 1968) mod 4 = 0 \<longleftrightarrow> y mod 4 = 0" "(y - 1900) mod 100 = 0 \<longleftrightarrow> y mod 100 = 0"
    "(y - 1600) mod 400 = 0 \<longleftrightarrow> y mod 400 = 0"
    using shift_mod [of y 4 492] shift_mod [of y 100 19] shift_mod [of y 400 4] by simp_all
  have "4 dvd (100 :: int)" "100 dvd (400 :: int)" by simp_all
  then have i: "y mod 100 = 0 \<Longrightarrow> y mod 4 = 0" "y mod 400 = 0 \<Longrightarrow> y mod 100 = 0"
    unfolding mod_eq_0_iff_dvd by (blast intro: dvd_trans)+
  have s: "y - 1969 + 1 = y - 1968" "y - 1901 + 1 = y - 1900" "y - 1601 + 1 = y - 1600" by simp_all
  have t: "y + 1 - 1969 = y - 1968" "y + 1 - 1901 = y - 1900" "y + 1 - 1601 = y - 1600" by simp_all
  have a: "(y - 1968) div 4 = (y - 1969) div 4 + (if y mod 4 = 0 then 1 else 0)"
    by (rule div_succ [of 4 "y - 1969", unfolded s m]) (rule zero_less_numeral)
  have b: "(y - 1900) div 100 = (y - 1901) div 100 + (if y mod 100 = 0 then 1 else 0)"
    by (rule div_succ [of 100 "y - 1901", unfolded s m]) (rule zero_less_numeral)
  have c: "(y - 1600) div 400 = (y - 1601) div 400 + (if y mod 400 = 0 then 1 else 0)"
    by (rule div_succ [of 400 "y - 1601", unfolded s m]) (rule zero_less_numeral)
  show ?thesis
    unfolding day_from_year_def leap_def t a b c by (rule year_step [OF i])
qed

lemma year_of_day_bounds:
  "day_from_year (year_of_day d) \<le> d \<and> d < day_from_year (year_of_day d + 1)"
proof -
  define k where "k = 400 * d div 146097"
  have k: "146097 * k \<le> 400 * d" "400 * d < 146097 * k + 146097"
    using div_lower [of 146097 "400 * d"] div_upper [of 146097 "400 * d"] by (simp_all add: k_def)
  have "day_from_year (1970 + k - 1) \<le> d"
    using k day_from_year_bounds(1) [of "1970 + k - 1"] by (simp add: algebra_simps)
  moreover have "d < day_from_year (1970 + k + 1 + 1)"
    using k day_from_year_bounds(2) [of "1970 + k + 1 + 1"] by (simp add: algebra_simps)
  ultimately show ?thesis by (auto simp: year_of_day_def Let_def k_def [symmetric])
qed

lemma day_from_year_mono_nat: "day_from_year y \<le> day_from_year (y + int n)"
proof (induction n)
  case (Suc n)
  have "day_from_year (y + int n) \<le> day_from_year (y + int n + 1)" by (simp add: day_from_year_succ)
  with Suc show ?case by (simp add: algebra_simps)
qed simp

lemma day_from_year_mono: "y \<le> z \<Longrightarrow> day_from_year y \<le> day_from_year z"
  using day_from_year_mono_nat [of y "nat (z - y)"] by simp

lemma year_of_day_unique:
  assumes "day_from_year y \<le> d" and "d < day_from_year (y + 1)"
  shows "year_of_day d = y"
proof (rule ccontr)
  assume "year_of_day d \<noteq> y"
  then consider "year_of_day d + 1 \<le> y" | "y + 1 \<le> year_of_day d" by linarith
  then show False
    using year_of_day_bounds [of d] assms day_from_year_mono by cases (meson leD le_less_trans order.trans)+
qed

lemma year_of_day_mono: "d \<le> e \<Longrightarrow> year_of_day d \<le> year_of_day e"
  using year_of_day_bounds [of d] year_of_day_bounds [of e] day_from_year_mono [of "year_of_day e + 1" "year_of_day d"]
  by linarith

section \<open>Months and days\<close>

lemma month_of_yday_range: "0 \<le> month_of_yday lp n \<and> month_of_yday lp n \<le> 11"
  by (simp add: month_of_yday_def Let_def)

lemma month_of_yday_mono: "n \<le> m \<Longrightarrow> month_of_yday lp n \<le> month_of_yday lp m"
  by (simp add: month_of_yday_def Let_def)

text \<open>The months counted from year 0.\<close>

definition month_index :: "date \<Rightarrow> int" where
  "month_index t = 12 * getUTCFullYear t + getUTCMonth t"

lemma month_index_eq:
  "month_index s = month_index t \<longleftrightarrow> getUTCFullYear s = getUTCFullYear t \<and> getUTCMonth s = getUTCMonth t"
  using month_of_yday_range [of "leap (getUTCFullYear s)" "yday s"]
    month_of_yday_range [of "leap (getUTCFullYear t)" "yday t"]
  unfolding month_index_def getUTCMonth_def by presburger

lemma month_index_mono:
  assumes "day_of s \<le> day_of t"
  shows "month_index s \<le> month_index t"
proof (cases "getUTCFullYear s = getUTCFullYear t")
  case True
  with assms have "yday s \<le> yday t" by (simp add: yday_def)
  with True show ?thesis by (simp add: month_index_def getUTCMonth_def month_of_yday_mono)
next
  case False
  then have "getUTCFullYear s + 1 \<le> getUTCFullYear t"
    using year_of_day_mono [OF assms] by (simp add: getUTCFullYear_def)
  then show ?thesis
    using month_of_yday_range [of "leap (getUTCFullYear s)" "yday s"]
      month_of_yday_range [of "leap (getUTCFullYear t)" "yday t"]
    unfolding month_index_def getUTCMonth_def by linarith
qed

lemma DateUTC_of_date:
  assumes "\<not> (0 \<le> getUTCFullYear t \<and> getUTCFullYear t \<le> 99)"
  shows "DateUTC (getUTCFullYear t) (getUTCMonth t) (getUTCDate t) = day_of t * msPerDay"
  using assms unfolding DateUTC_def Let_def getUTCDate_def yday_def by (simp only: if_False) simp

lemma day_of_mono: "s \<le> t \<Longrightarrow> day_of s \<le> day_of t"
  by (simp add: day_of_def msPerDay_def zdiv_mono1)

lemma year_from_1970: "0 \<le> t \<Longrightarrow> 1970 \<le> getUTCFullYear t"
  using year_of_day_mono [of 0 "day_of t"] day_of_mono [of 0 t]
    year_of_day_unique [of 1970 0]
  by (simp add: getUTCFullYear_def day_of_def day_from_year_def)

end
