(* ===== verification/Streak.thy ===== *)
theory Streak
  imports Dates
begin

text \<open>
  \<open>backend/src/growth/interaction-streak.utils.ts\<close> and \<open>savings-streak.utils.ts\<close>: the daily streak,
  its longest value and the grace pass that forgives one missed day once per calendar month.
  The locale \<open>streak_rule\<close> is the contract both calculators promise their callers, stated
  against an abstract rule on UTC days; its lemmas on whole histories are proved once and
  interpreted on both calculators.
\<close>

section \<open>Definitions\<close>

definition calendarDayDifference :: "date \<Rightarrow> date \<Rightarrow> int" where
  "calendarDayDifference from to =
     (let fromDay = DateUTC (getUTCFullYear from) (getUTCMonth from) (getUTCDate from);
          toDay = DateUTC (getUTCFullYear to) (getUTCMonth to) (getUTCDate to)
      in math_round (of_int (toDay - fromDay) / of_int (24 * 60 * 60 * 1000)))"

definition usedGracePassThisMonth :: "date option \<Rightarrow> date \<Rightarrow> bool" where
  "usedGracePassThisMonth lastUsedAt now =
     (case lastUsedAt of
        None \<Rightarrow> False
      | Some t \<Rightarrow> getUTCFullYear t = getUTCFullYear now \<and> getUTCMonth t = getUTCMonth now)"

record InteractionStreakState =
  is_currentStreak :: int
  is_longestStreak :: int
  is_lastActiveAt :: date
  is_lastGracePassUsedAt :: "date option"

record InteractionStreakUpdate =
  iu_currentStreak :: int
  iu_longestStreak :: int
  iu_lastActiveAt :: date
  iu_lastGracePassUsedAt :: "date option"
  iu_gracePassUsed :: bool

definition calculateInteractionStreakUpdate ::
    "InteractionStreakState \<Rightarrow> date \<Rightarrow> InteractionStreakUpdate option" where
  "calculateInteractionStreakUpdate streak now =
     (let daysSinceLast = calendarDayDifference (is_lastActiveAt streak) now in
      if daysSinceLast \<le> 0 then None
      else
        let gracePassUsed =
              (daysSinceLast = 2 \<and> \<not> usedGracePassThisMonth (is_lastGracePassUsedAt streak) now);
            currentStreak =
              (if daysSinceLast = 1 \<or> gracePassUsed then is_currentStreak streak + 1 else 1)
        in Some \<lparr>iu_currentStreak = currentStreak,
                 iu_longestStreak = max currentStreak (is_longestStreak streak),
                 iu_lastActiveAt = now,
                 iu_lastGracePassUsedAt = (if gracePassUsed then Some now else None),
                 iu_gracePassUsed = gracePassUsed\<rparr>)"

record SavingsStreakState =
  ss_currentStreak :: int
  ss_longestStreak :: int
  ss_lastDepositAt :: date
  ss_lastGracePassUsedAt :: "date option"

record SavingsStreakUpdate =
  su_currentStreak :: int
  su_longestStreak :: int
  su_lastDepositAt :: date
  su_lastGracePassUsedAt :: "date option"
  su_gracePassUsed :: bool

definition calculateSavingsStreakUpdate ::
    "SavingsStreakState \<Rightarrow> date \<Rightarrow> SavingsStreakUpdate option" where
  "calculateSavingsStreakUpdate streak now =
     (let daysSinceLast = calendarDayDifference (ss_lastDepositAt streak) now in
      if daysSinceLast \<le> 0 then None
      else
        let gracePassUsed =
              (daysSinceLast = 2 \<and> \<not> usedGracePassThisMonth (ss_lastGracePassUsedAt streak) now);
            currentStreak =
              (if daysSinceLast = 1 \<or> gracePassUsed then ss_currentStreak streak + 1 else 1)
        in Some \<lparr>su_currentStreak = currentStreak,
                 su_longestStreak = max currentStreak (ss_longestStreak streak),
                 su_lastDepositAt = now,
                 su_lastGracePassUsedAt = (if gracePassUsed then Some now else None),
                 su_gracePassUsed = gracePassUsed\<rparr>)"

text \<open>What the callers store: the new fields, and the grace pass only when it was used.\<close>

definition interaction_step :: "InteractionStreakState \<Rightarrow> date \<Rightarrow> InteractionStreakState" where
  "interaction_step s now =
     (case calculateInteractionStreakUpdate s now of
        None \<Rightarrow> s
      | Some u \<Rightarrow>
          \<lparr>is_currentStreak = iu_currentStreak u, is_longestStreak = iu_longestStreak u,
           is_lastActiveAt = iu_lastActiveAt u,
           is_lastGracePassUsedAt =
             (if iu_gracePassUsed u then iu_lastGracePassUsedAt u else is_lastGracePassUsedAt s)\<rparr>)"

definition savings_step :: "SavingsStreakState \<Rightarrow> date \<Rightarrow> SavingsStreakState" where
  "savings_step s now =
     (case calculateSavingsStreakUpdate s now of
        None \<Rightarrow> s
      | Some u \<Rightarrow>
          \<lparr>ss_currentStreak = su_currentStreak u, ss_longestStreak = su_longestStreak u,
           ss_lastDepositAt = su_lastDepositAt u,
           ss_lastGracePassUsedAt =
             (if su_gracePassUsed u then su_lastGracePassUsedAt u else ss_lastGracePassUsedAt s)\<rparr>)"

section \<open>The abstract rule\<close>

text \<open>A streak on UTC days and months, with no calendar arithmetic.\<close>

record streak =
  st_current :: int
  st_longest :: int
  st_last :: date
  st_grace :: "date option"

definition uses_pass :: "streak \<Rightarrow> date \<Rightarrow> bool" where
  "uses_pass s now \<longleftrightarrow>
     day_of now = day_of (st_last s) + 2 \<and> map_option month_index (st_grace s) \<noteq> Some (month_index now)"

definition streak_spec :: "streak \<Rightarrow> date \<Rightarrow> streak" where
  "streak_spec s now =
     (if day_of now \<le> day_of (st_last s) then s
      else
        let c = (if day_of now = day_of (st_last s) + 1 \<or> uses_pass s now then st_current s + 1 else 1)
        in \<lparr>st_current = c, st_longest = max c (st_longest s), st_last = now,
            st_grace = (if uses_pass s now then Some now else st_grace s)\<rparr>)"

definition streak_wf :: "streak \<Rightarrow> bool" where
  "streak_wf s \<longleftrightarrow>
     1 \<le> st_current s \<and> st_current s \<le> st_longest s \<and> 0 \<le> st_last s \<and>
     (case st_grace s of None \<Rightarrow> True | Some t \<Rightarrow> day_of t \<le> day_of (st_last s))"

fun passes_used :: "streak \<Rightarrow> date list \<Rightarrow> date list" where
  "passes_used s [] = []"
| "passes_used s (t # ts) = (if uses_pass s t then [t] else []) @ passes_used (streak_spec s t) ts"

lemma streak_spec_wf: "streak_wf s \<Longrightarrow> 0 \<le> now \<Longrightarrow> streak_wf (streak_spec s now)"
  by (auto simp: streak_wf_def streak_spec_def Let_def split: option.splits)

lemma passes_used_increasing:
  assumes "streak_wf s" and "\<forall>t \<in> set ts. 0 \<le> t"
  shows "sorted_wrt (<) (map month_index (passes_used s ts)) \<and>
         (\<forall>t \<in> set (passes_used s ts). case st_grace s of None \<Rightarrow> True | Some g \<Rightarrow> month_index g < month_index t)
         \<and> (\<forall>t \<in> set (passes_used s ts). day_of (st_last s) < day_of t)"
  using assms
proof (induction ts arbitrary: s)
  case (Cons t ts)
  let ?s = "streak_spec s t"
  have IH: "sorted_wrt (<) (map month_index (passes_used ?s ts))"
    "\<forall>u \<in> set (passes_used ?s ts). case st_grace ?s of None \<Rightarrow> True | Some g \<Rightarrow> month_index g < month_index u"
    "\<forall>u \<in> set (passes_used ?s ts). day_of (st_last ?s) < day_of u"
    using Cons.IH [of ?s] Cons.prems streak_spec_wf [of s t] by auto
  have last: "day_of (st_last s) \<le> day_of (st_last ?s)" by (simp add: streak_spec_def Let_def)
  show ?case
  proof (cases "uses_pass s t")
    case True
    then have g: "st_grace ?s = Some t" "day_of (st_last s) < day_of t"
      by (simp_all add: streak_spec_def Let_def uses_pass_def)
    have "month_index g \<le> month_index t \<and> month_index g \<noteq> month_index t" if "st_grace s = Some g" for g
      using that Cons.prems(1) True month_index_mono [of g t] g(2)
      by (auto simp: streak_wf_def uses_pass_def)
    with True g IH last show ?thesis
      by (fastforce split: option.splits)
  next
    case False
    then have "st_grace ?s = st_grace s" by (simp add: streak_spec_def Let_def)
    with False IH last show ?thesis by (fastforce split: option.splits)
  qed
qed simp

section \<open>The contract of a calculator\<close>

locale streak_rule =
  fixes step :: "'s \<Rightarrow> date \<Rightarrow> 's"
    and view :: "'s \<Rightarrow> streak"
  assumes step_refines: "streak_wf (view s) \<Longrightarrow> 0 \<le> now \<Longrightarrow> view (step s now) = streak_spec (view s) now"
begin

lemma run_refines:
  assumes "streak_wf (view s)" and "\<forall>t \<in> set ts. 0 \<le> t"
  shows "view (foldl step s ts) = foldl streak_spec (view s) ts \<and> streak_wf (view (foldl step s ts))"
  using assms
proof (induction ts arbitrary: s)
  case (Cons t ts)
  then have "view (step s t) = streak_spec (view s) t" "streak_wf (view (step s t))"
    by (simp_all add: step_refines streak_spec_wf)
  with Cons.IH [of "step s t"] Cons.prems show ?case by auto
qed simp

lemma same_day_idempotent:
  assumes "streak_wf (view s)" and "0 \<le> t" and "0 \<le> u" and "day_of t = day_of u"
  shows "view (step (step s t) u) = view (step s t)"
proof -
  have "streak_wf (view (step s t))" using assms by (simp add: step_refines streak_spec_wf)
  moreover have "day_of u \<le> day_of (st_last (view (step s t)))"
    using assms by (simp add: step_refines streak_spec_def Let_def)
  ultimately show ?thesis using assms by (simp add: step_refines [of "step s t"] streak_spec_def)
qed

end

lemma calendarDayDifference_days:
  assumes "0 \<le> s" and "0 \<le> t"
  shows "calendarDayDifference s t = day_of t - day_of s"
proof -
  have "DateUTC (getUTCFullYear x) (getUTCMonth x) (getUTCDate x) = day_of x * msPerDay" if "0 \<le> x" for x
    using that year_from_1970 [of x] by (intro DateUTC_of_date) simp
  then have "calendarDayDifference s t =
      math_round (of_int ((day_of t - day_of s) * 86400000) / of_int 86400000)"
    using assms by (simp add: calendarDayDifference_def msPerDay_def left_diff_distrib)
  also have "(of_int ((day_of t - day_of s) * 86400000) / of_int 86400000 :: rat) = of_int (day_of t - day_of s)"
    by (simp only: of_int_mult) simp
  finally show ?thesis by (simp add: math_round_def) linarith
qed

lemma usedGracePassThisMonth_iff:
  "usedGracePassThisMonth g now \<longleftrightarrow> map_option month_index g = Some (month_index now)"
  by (cases g) (simp_all add: usedGracePassThisMonth_def month_index_eq)

definition interaction_view :: "InteractionStreakState \<Rightarrow> streak" where
  "interaction_view s =
     \<lparr>st_current = is_currentStreak s, st_longest = is_longestStreak s,
      st_last = is_lastActiveAt s, st_grace = is_lastGracePassUsedAt s\<rparr>"

definition savings_view :: "SavingsStreakState \<Rightarrow> streak" where
  "savings_view s =
     \<lparr>st_current = ss_currentStreak s, st_longest = ss_longestStreak s,
      st_last = ss_lastDepositAt s, st_grace = ss_lastGracePassUsedAt s\<rparr>"

interpretation interaction: streak_rule interaction_step interaction_view
  by unfold_locales
    (auto simp: interaction_step_def calculateInteractionStreakUpdate_def interaction_view_def
       streak_spec_def streak_wf_def uses_pass_def calendarDayDifference_days usedGracePassThisMonth_iff Let_def)

interpretation savings: streak_rule savings_step savings_view
  by unfold_locales
    (auto simp: savings_step_def calculateSavingsStreakUpdate_def savings_view_def
       streak_spec_def streak_wf_def uses_pass_def calendarDayDifference_days usedGracePassThisMonth_iff Let_def)

section \<open>Histories\<close>

text \<open>The times at which the calculator reports the grace pass as used.\<close>

fun interaction_passes :: "InteractionStreakState \<Rightarrow> date list \<Rightarrow> date list" where
  "interaction_passes s [] = []"
| "interaction_passes s (t # ts) =
     (case calculateInteractionStreakUpdate s t of
        Some u \<Rightarrow> if iu_gracePassUsed u then [t] else []
      | None \<Rightarrow> []) @ interaction_passes (interaction_step s t) ts"

lemma interaction_passes_refine:
  assumes "streak_wf (interaction_view s)" and "\<forall>t \<in> set ts. 0 \<le> t"
  shows "interaction_passes s ts = passes_used (interaction_view s) ts"
  using assms
proof (induction ts arbitrary: s)
  case (Cons t ts)
  have "interaction_passes (interaction_step s t) ts = passes_used (streak_spec (interaction_view s) t) ts"
    using Cons interaction.step_refines [of s t] streak_spec_wf [of "interaction_view s" t] by simp
  moreover have "(case calculateInteractionStreakUpdate s t of
        Some u \<Rightarrow> if iu_gracePassUsed u then [t] else [] | None \<Rightarrow> []) =
      (if uses_pass (interaction_view s) t then [t] else [])"
    using Cons.prems
    by (simp add: calculateInteractionStreakUpdate_def uses_pass_def interaction_view_def streak_wf_def
        calendarDayDifference_days usedGracePassThisMonth_iff Let_def)
  ultimately show ?case by simp
qed simp

lemma strictly_increasing_distinct: "sorted_wrt (<) (xs :: int list) \<Longrightarrow> distinct xs"
  by (induction xs) auto

definition sample_streak :: InteractionStreakState where
  "sample_streak =
     \<lparr>is_currentStreak = 1, is_longestStreak = 1, is_lastActiveAt = 0, is_lastGracePassUsedAt = None\<rparr>"

definition sample_savings :: SavingsStreakState where
  "sample_savings =
     \<lparr>ss_currentStreak = 1, ss_longestStreak = 1, ss_lastDepositAt = 0, ss_lastGracePassUsedAt = None\<rparr>"

lemma sample_streak_wf [simp]: "streak_wf (interaction_view sample_streak)"
  by (simp add: streak_wf_def interaction_view_def sample_streak_def)

section \<open>Properties\<close>

text \<open>\<open>calendarDayDifference\<close>, which goes through years, months and dates and rounds a
  quotient of milliseconds, is the difference of the UTC day numbers of the two instants, for all
  instants from 1970 on.\<close>

theorem calendar_difference_is_utc_days:
  assumes "0 \<le> s" and "0 \<le> t"
  shows "calendarDayDifference s t = t div 86400000 - s div 86400000"
  using calendarDayDifference_days [OF assms] by (simp add: day_of_def msPerDay_def)

theorem calendar_difference_is_utc_days_witness:
  "calendarDayDifference 951782399999 951868800000 = 2"
  using calendar_difference_is_utc_days [of 951782399999 951868800000] by simp

text \<open>C38. Over any history of interactions, however the calculator is called, the stored streak is
  the one the rule on UTC days gives, the current streak is positive and never above the longest,
  and no two grace passes fall in the same calendar month.\<close>

theorem interaction_history_follows_rule:
  assumes "streak_wf (interaction_view s)" and "\<forall>t \<in> set ts. 0 \<le> t"
  shows "interaction_view (foldl interaction_step s ts) = foldl streak_spec (interaction_view s) ts \<and>
         streak_wf (interaction_view (foldl interaction_step s ts)) \<and>
         distinct (map month_index (interaction_passes s ts))"
  using interaction.run_refines [OF assms] passes_used_increasing [OF assms]
    interaction_passes_refine [OF assms] strictly_increasing_distinct by auto

theorem interaction_history_follows_rule_witness:
  "is_currentStreak (foldl interaction_step sample_streak [86400000, 3 * 86400000, 5 * 86400000]) = 1 \<and>
   interaction_passes sample_streak [86400000, 3 * 86400000, 5 * 86400000] = [3 * 86400000] \<and>
   distinct (map month_index (interaction_passes sample_streak [86400000, 3 * 86400000, 5 * 86400000]))"
proof -
  have "is_currentStreak (foldl interaction_step sample_streak [86400000, 3 * 86400000, 5 * 86400000]) = 1"
    by code_simp
  moreover have "interaction_passes sample_streak [86400000, 3 * 86400000, 5 * 86400000] = [3 * 86400000]"
    by code_simp
  ultimately show ?thesis
    using interaction_history_follows_rule [of sample_streak "[86400000, 3 * 86400000, 5 * 86400000]"] by simp
qed

text \<open>The savings calculator and the interaction calculator are the same rule: from states with
  the same fields, any history leaves the same fields.\<close>

theorem savings_and_interaction_agree:
  assumes "savings_view v = interaction_view s" and "streak_wf (interaction_view s)"
    and "\<forall>t \<in> set ts. 0 \<le> t"
  shows "savings_view (foldl savings_step v ts) = interaction_view (foldl interaction_step s ts)"
  using interaction.run_refines [OF assms(2,3)] savings.run_refines [of v ts] assms by simp

theorem savings_and_interaction_agree_witness:
  "savings_view (foldl savings_step sample_savings [86400000, 3 * 86400000]) =
   interaction_view (foldl interaction_step sample_streak [86400000, 3 * 86400000])"
  using savings_and_interaction_agree [of sample_savings sample_streak "[86400000, 3 * 86400000]"]
  by (simp add: savings_view_def interaction_view_def sample_streak_def sample_savings_def streak_wf_def)

end
