(* ===== verification/Growth.thy ===== *)
theory Growth
  imports Backend Streak
begin

text \<open>
  \<open>backend/src/growth/growth.service.ts\<close> and \<open>interaction-streak.interceptor.ts\<close>: public envelopes
  and their claims, managed vaults, the airdrop and the stored streaks. A claim reads the
  envelope and commits in a second step, so that claims of several users can interleave between
  the two; the invariant of the envelope is proved over all interleavings.
\<close>

section \<open>Tables\<close>

record PublicEnvelope =
  pe_creatorId :: string
  pe_token :: string
  pe_totalAmount :: rat
  pe_remainingBalance :: rat
  pe_maxClaims :: int
  pe_remainingClaims :: int
  pe_status :: string

record PublicEnvelopeClaim =
  pc_envelopeId :: string
  pc_claimerAddress :: string
  pc_amount :: rat

record ManagedVault =
  mv_name :: string
  mv_symbol :: string
  mv_managerAddress :: string
  mv_token :: string
  mv_apy :: rat
  mv_performanceFeeBps :: int
  mv_totalDeposits :: rat

record AirdropClaim =
  ac_userId :: string
  ac_wallet :: string
  ac_rewardAmount :: rat
  ac_vestingDays :: int
  ac_unlockDate :: date

record growth_user =
  gu_wallet :: "string option"
  gu_createdAt :: date

record growth_db =
  gd_envelopes :: "PublicEnvelope table"
  gd_claims :: "PublicEnvelopeClaim list"
  gd_vaults :: "ManagedVault table"
  gd_airdrops :: "AirdropClaim list"
  gd_users :: "growth_user table"
  gd_streaks :: "(InteractionStreakState \<times> string) table"
  gd_activity :: "(string \<times> date \<times> string) list"

section \<open>Public envelopes\<close>

record envelope_dto =
  ed_token :: "string option"
  ed_totalAmount :: rat
  ed_maxClaims :: int

text \<open>\<open>(dto.token || 'USDC').toUpperCase()\<close>.\<close>

definition token_or_usdc :: "string option \<Rightarrow> string" where
  "token_or_usdc t = toUpperCase (case t of Some s \<Rightarrow> if s = [] then ''USDC'' else s | None \<Rightarrow> ''USDC'')"

definition createPublicEnvelope ::
    "string \<Rightarrow> string \<Rightarrow> string \<Rightarrow> envelope_dto \<Rightarrow> growth_db \<Rightarrow> (PublicEnvelope \<times> string, growth_db) outcome" where
  "createPublicEnvelope baseUrl newId creatorId dto db =
     (if ed_totalAmount dto \<le> 0 then (Inl (BadRequest ''Total amount must be > 0''), db)
      else
        let maxClaims = min 1000 (max 1 (if ed_maxClaims dto = 0 then 100 else ed_maxClaims dto));
            envelope =
              \<lparr>pe_creatorId = creatorId, pe_token = token_or_usdc (ed_token dto),
               pe_totalAmount = ed_totalAmount dto, pe_remainingBalance = ed_totalAmount dto,
               pe_maxClaims = maxClaims, pe_remainingClaims = maxClaims, pe_status = ''ACTIVE''\<rparr>
        in (Inr (envelope, baseUrl @ ''/claim/envelope?id='' @ newId),
            db\<lparr>gd_envelopes := create_row newId envelope (gd_envelopes db)\<rparr>))"

definition getPublicEnvelope :: "string \<Rightarrow> growth_db \<Rightarrow> PublicEnvelope http" where
  "getPublicEnvelope envId db =
     (case findUnique (gd_envelopes db) envId of
        None \<Rightarrow> Inl (NotFound (''Public envelope '' @ [CHR 0x22] @ envId @ [CHR 0x22] @ '' not found''))
      | Some e \<Rightarrow> Inr e)"

definition has_claimed :: "string \<Rightarrow> string \<Rightarrow> growth_db \<Rightarrow> bool" where
  "has_claimed envId addr db \<longleftrightarrow>
     list_ex (\<lambda>c. pc_envelopeId c = envId \<and> pc_claimerAddress c = addr) (gd_claims db)"

text \<open>The claim up to the transaction: what it read, and the amount it will claim.
  \<open>Math.random()\<close> is the argument \<open>rnd\<close>.\<close>

record claim_ticket =
  ct_id :: string
  ct_claimer :: string
  ct_env :: PublicEnvelope
  ct_amount :: rat

definition claim_amount :: "PublicEnvelope \<Rightarrow> rat \<Rightarrow> rat" where
  "claim_amount env rnd =
     toFixed2 (min (pe_remainingBalance env)
       (max (1 / 2)
         (pe_remainingBalance env / of_int (pe_remainingClaims env) * (rnd * (8 / 10) + 6 / 10))))"

definition claim_read :: "string \<Rightarrow> string \<Rightarrow> rat \<Rightarrow> growth_db \<Rightarrow> claim_ticket http" where
  "claim_read envId claimerAddress rnd db =
     bindE (getPublicEnvelope envId db) (\<lambda>env.
       if pe_remainingClaims env \<le> 0 \<or> pe_remainingBalance env \<le> 0
       then Inl (BadRequest ''Public envelope drop fully claimed'')
       else if has_claimed envId claimerAddress db
       then Inl (BadRequest ''You have already claimed from this envelope'')
       else Inr \<lparr>ct_id = envId, ct_claimer = claimerAddress, ct_env = env,
                 ct_amount = claim_amount env rnd\<rparr>)"

text \<open>The transaction and what follows it. The array form of \<open>$transaction\<close> rolls back only
  when an operation throws: \<open>create\<close> does on a duplicate (\<open>P2002\<close>), \<open>updateMany\<close> that matches no
  row does not, so the claim row of a lost race stays.\<close>

definition claim_commit :: "claim_ticket \<Rightarrow> growth_db \<Rightarrow> (rat \<times> string \<times> int, growth_db) outcome" where
  "claim_commit t db =
     (let env = ct_env t;
          remainingBalance = max 0 (pe_remainingBalance env - ct_amount t);
          remainingClaims = max 0 (pe_remainingClaims env - 1)
      in if has_claimed (ct_id t) (ct_claimer t) db
         then (Inl (BadRequest ''You have already claimed from this envelope''), db)
         else
           let (count, envelopes) =
                 updateMany (ct_id t) (\<lambda>e. pe_remainingClaims e = pe_remainingClaims env)
                   (\<lambda>e. e\<lparr>pe_remainingBalance := remainingBalance,
                          pe_remainingClaims := remainingClaims,
                          pe_status := (if remainingClaims = 0 then ''COMPLETED'' else ''ACTIVE'')\<rparr>)
                   (gd_envelopes db);
               db' = db\<lparr>gd_envelopes := envelopes,
                        gd_claims := gd_claims db @
                          [\<lparr>pc_envelopeId = ct_id t, pc_claimerAddress = ct_claimer t, pc_amount = ct_amount t\<rparr>]\<rparr>
           in if count \<noteq> 1
              then (Inl (BadRequest ''Envelope was claimed concurrently. Please try again.''), db')
              else (Inr (ct_amount t, pe_token env, remainingClaims), db'))"

definition claimPublicEnvelope ::
    "string \<Rightarrow> string \<Rightarrow> rat \<Rightarrow> growth_db \<Rightarrow> (rat \<times> string \<times> int, growth_db) outcome" where
  "claimPublicEnvelope envId claimerAddress rnd db =
     (case claim_read envId claimerAddress rnd db of
        Inl e \<Rightarrow> (Inl e, db)
      | Inr t \<Rightarrow> claim_commit t db)"

section \<open>Managed vaults and the airdrop\<close>

definition createManagedVault ::
    "string \<Rightarrow> string \<Rightarrow> string \<Rightarrow> string \<Rightarrow> string option \<Rightarrow> int \<Rightarrow> growth_db \<Rightarrow> (ManagedVault, growth_db) outcome" where
  "createManagedVault newId creatorId name symbol token feeBps db =
     (if name = [] \<or> symbol = [] then (Inl (BadRequest ''Vault name and symbol required''), db)
      else
        let fee = min 5000 (max 0 (if feeBps = 0 then 2000 else feeBps));
            vault = \<lparr>mv_name = name, mv_symbol = symbol, mv_managerAddress = creatorId,
                     mv_token = token_or_usdc token, mv_apy = 168 / 10,
                     mv_performanceFeeBps = fee, mv_totalDeposits = 0\<rparr>
        in (Inr vault, db\<lparr>gd_vaults := create_row newId vault (gd_vaults db)\<rparr>))"

text \<open>\<open>AIRDROP_CAMPAIGN_CUTOFF\<close> is the argument \<open>cutoff\<close>, \<^term>\<open>None\<close> when it is not a date. The
  table has unique constraints on the user and on the wallet.\<close>

definition claimAirdrop :: "date option \<Rightarrow> date \<Rightarrow> string \<Rightarrow> growth_db \<Rightarrow> (AirdropClaim, growth_db) outcome" where
  "claimAirdrop cutoff now userId db =
     (case Option.bind (findUnique (gd_users db) userId) gu_wallet of
        None \<Rightarrow> (Inl (BadRequest ''A registered smart wallet is required to claim''), db)
      | Some wallet \<Rightarrow>
          if wallet = [] then (Inl (BadRequest ''A registered smart wallet is required to claim''), db)
          else case cutoff of
            None \<Rightarrow> (Inl (BadRequest ''Airdrop campaign is not configured''), db)
          | Some c \<Rightarrow>
              if (case findUnique (gd_users db) userId of Some u \<Rightarrow> c < gu_createdAt u | None \<Rightarrow> False)
              then (Inl (BadRequest ''Account not eligible for this airdrop''), db)
              else if list_ex (\<lambda>a. ac_userId a = userId \<or> ac_wallet a = wallet) (gd_airdrops db)
              then (Inl (BadRequest ''Airdrop already claimed''), db)
              else
                let claim = \<lparr>ac_userId = userId, ac_wallet = wallet, ac_rewardAmount = 250,
                             ac_vestingDays = 30, ac_unlockDate = now + 30 * 24 * 60 * 60 * 1000\<rparr>
                in (Inr claim, db\<lparr>gd_airdrops := gd_airdrops db @ [claim]\<rparr>))"

section \<open>Stored streaks\<close>

definition QUALIFYING_STREAK_ACTIVITY_ACTIONS :: "string list" where
  "QUALIFYING_STREAK_ACTIVITY_ACTIONS =
     [''TRANSFER_SENT'', ''REQUEST_CREATED'', ''REQUEST_PAID'', ''SPLIT_CREATED'', ''SPLIT_PAID'',
      ''ENVELOPE_CREATED'', ''ENVELOPE_CLAIMED'', ''REFERRAL_REGISTERED'']"

definition QUALIFYING_STREAK_ACTIONS :: "string list" where
  "QUALIFYING_STREAK_ACTIONS =
     [''TRANSFER_SENT'', ''REQUEST_CREATED'', ''REQUEST_PAID'', ''SPLIT_CREATED'', ''SPLIT_PAID'',
      ''ENVELOPE_CREATED'', ''ENVELOPE_CLAIMED'', ''REFERRAL_REGISTERED'',
      ''BOT_COMMAND'', ''APP_LOGIN'']"

record streak_view =
  sv_currentStreak :: int
  sv_longestStreak :: int
  sv_totalBonusPoints :: int
  sv_lastActiveDate :: "string option"
  sv_lastInteractionType :: "string option"
  sv_gracePassAvailable :: "bool option"
  sv_gracePassLastUsedAt :: "date option"
  sv_history :: "string list"

text \<open>\<open>[...new Set(xs)]\<close>: the first occurrences, in order.\<close>

fun uniq :: "'a list \<Rightarrow> 'a list" where
  "uniq [] = []"
| "uniq (x # xs) = x # filter (\<lambda>y. y \<noteq> x) (uniq xs)"

definition getInteractionStreak :: "date \<Rightarrow> string \<Rightarrow> growth_db \<Rightarrow> streak_view" where
  "getInteractionStreak now userId db =
     (case findUnique (gd_streaks db) userId of
        None \<Rightarrow>
          \<lparr>sv_currentStreak = 0, sv_longestStreak = 0, sv_totalBonusPoints = 0,
           sv_lastActiveDate = None, sv_lastInteractionType = None,
           sv_gracePassAvailable = None, sv_gracePassLastUsedAt = None, sv_history = []\<rparr>
      | Some (s, ty) \<Rightarrow>
          let since = now - 30 * 24 * 60 * 60 * 1000;
              activities =
                sort_key (\<lambda>(u, t, a). t)
                  (filter (\<lambda>(u, t, a). u = userId \<and> since \<le> t \<and> a \<in> set QUALIFYING_STREAK_ACTIVITY_ACTIONS)
                    (gd_activity db))
          in \<lparr>sv_currentStreak = is_currentStreak s, sv_longestStreak = is_longestStreak s,
              sv_totalBonusPoints = is_currentStreak s * 5,
              sv_lastActiveDate = Some (iso_day (is_lastActiveAt s)),
              sv_lastInteractionType = Some ty,
              sv_gracePassAvailable =
                Some (case is_lastGracePassUsedAt s of
                        None \<Rightarrow> True
                      | Some g \<Rightarrow> getUTCFullYear g \<noteq> getUTCFullYear now \<or> getUTCMonth g \<noteq> getUTCMonth now),
              sv_gracePassLastUsedAt = is_lastGracePassUsedAt s,
              sv_history = uniq (map (\<lambda>(u, t, a). iso_day t) activities)\<rparr>)"

definition recordInteraction :: "date \<Rightarrow> string \<Rightarrow> string \<Rightarrow> growth_db \<Rightarrow> streak_view \<times> growth_db" where
  "recordInteraction now userId interactionType db =
     (if interactionType \<notin> set QUALIFYING_STREAK_ACTIONS then (getInteractionStreak now userId db, db)
      else
        let db' =
          (case findUnique (gd_streaks db) userId of
             None \<Rightarrow>
               db\<lparr>gd_streaks := create_row userId
                   (\<lparr>is_currentStreak = 1, is_longestStreak = 1, is_lastActiveAt = now,
                     is_lastGracePassUsedAt = None\<rparr>, interactionType) (gd_streaks db)\<rparr>
           | Some (existing, ty) \<Rightarrow>
               (case calculateInteractionStreakUpdate existing now of
                  None \<Rightarrow> db
                | Some u \<Rightarrow>
                    db\<lparr>gd_streaks := update_row userId
                       (\<lambda>(s, _).
                          (s\<lparr>is_currentStreak := iu_currentStreak u, is_longestStreak := iu_longestStreak u,
                             is_lastActiveAt := iu_lastActiveAt u,
                             is_lastGracePassUsedAt :=
                               (if iu_gracePassUsed u then iu_lastGracePassUsedAt u
                                else is_lastGracePassUsedAt s)\<rparr>, interactionType)) (gd_streaks db)\<rparr>))
        in (getInteractionStreak now userId db', db'))"

section \<open>The interceptor\<close>

text \<open>\<open>touchedToday\<close> in insertion order; \<open>Map.set\<close> on a known key keeps its place. The interceptor
  returns whether it records the interaction.\<close>

definition map_set :: "string \<Rightarrow> string \<Rightarrow> (string \<times> string) list \<Rightarrow> (string \<times> string) list" where
  "map_set k v m =
     (if k \<in> fst ` set m then map (\<lambda>(i, x). if i = k then (i, v) else (i, x)) m else m @ [(k, v)])"

definition intercept ::
    "date \<Rightarrow> string option \<Rightarrow> (string \<times> string) list \<Rightarrow> bool \<times> (string \<times> string) list" where
  "intercept now user touchedToday =
     (case user of
        None \<Rightarrow> (False, touchedToday)
      | Some userId \<Rightarrow>
          let todayUTC = iso_day now in
          if userId = [] \<or> map_of touchedToday userId = Some todayUTC then (False, touchedToday)
          else
            let t = map_set userId todayUTC touchedToday;
                t' = (if length t > 10000 then filter (\<lambda>(uid, day). day = todayUTC) t else t)
            in (True, t'))"

section \<open>Claims in any interleaving\<close>

text \<open>One envelope and its claimers: the tables, the claims between their read and their commit, and
  the payouts of the claims that returned successfully.\<close>

record drop_state =
  dr_db :: growth_db
  dr_pending :: "claim_ticket list"
  dr_paid :: "(string \<times> rat) list"

definition commit_paid :: "claim_ticket \<Rightarrow> growth_db \<Rightarrow> (string \<times> rat) list" where
  "commit_paid t db = (case fst (claim_commit t db) of Inr (a, _) \<Rightarrow> [(ct_claimer t, a)] | Inl _ \<Rightarrow> [])"

inductive drop_step :: "string \<Rightarrow> drop_state \<Rightarrow> drop_state \<Rightarrow> bool" for envId where
  read: "claim_read envId addr rnd (dr_db s) = Inr t \<Longrightarrow> 0 \<le> rnd \<Longrightarrow> rnd < 1 \<Longrightarrow>
         drop_step envId s (s\<lparr>dr_pending := t # dr_pending s\<rparr>)"
| commit: "t \<in> set (dr_pending s) \<Longrightarrow>
         drop_step envId s
           (s\<lparr>dr_db := snd (claim_commit t (dr_db s)), dr_pending := remove1 t (dr_pending s),
              dr_paid := dr_paid s @ commit_paid t (dr_db s)\<rparr>)"

inductive drop_reach :: "string \<Rightarrow> drop_state \<Rightarrow> drop_state \<Rightarrow> bool" for envId s0 where
  start: "drop_reach envId s0 s0"
| step: "drop_reach envId s0 s \<Longrightarrow> drop_step envId s s' \<Longrightarrow> drop_reach envId s0 s'"

definition paid_sum :: "(string \<times> rat) list \<Rightarrow> rat" where
  "paid_sum ps = sum_list (map snd ps)"

text \<open>The envelope's books: the claims left and the payouts add up to the maximum, the balance
  left and the payouts to the total, up to the half cent that \<open>toFixed(2)\<close> can round up on the
  last payout.\<close>

definition books_ok :: "PublicEnvelope \<Rightarrow> (string \<times> rat) list \<Rightarrow> bool" where
  "books_ok e ps \<longleftrightarrow>
     0 \<le> pe_remainingClaims e \<and> pe_remainingClaims e + int (length ps) = pe_maxClaims e \<and>
     0 \<le> pe_remainingBalance e \<and>
     (paid_sum ps + pe_remainingBalance e = pe_totalAmount e \<or>
      pe_remainingBalance e = 0 \<and> paid_sum ps \<le> pe_totalAmount e + 1 / 200)"

definition ticket_ok :: "string \<Rightarrow> PublicEnvelope \<Rightarrow> claim_ticket \<Rightarrow> bool" where
  "ticket_ok envId e t \<longleftrightarrow>
     ct_id t = envId \<and> 0 < pe_remainingClaims (ct_env t) \<and> 0 < pe_remainingBalance (ct_env t) \<and>
     ct_amount t \<le> pe_remainingBalance (ct_env t) + 1 / 200 \<and>
     pe_remainingClaims e \<le> pe_remainingClaims (ct_env t) \<and>
     (pe_remainingClaims e = pe_remainingClaims (ct_env t) \<longrightarrow> e = ct_env t)"

definition drop_inv :: "string \<Rightarrow> drop_state \<Rightarrow> bool" where
  "drop_inv envId s \<longleftrightarrow>
     keys_unique (gd_envelopes (dr_db s)) \<and>
     (\<exists>e. findUnique (gd_envelopes (dr_db s)) envId = Some e \<and> books_ok e (dr_paid s) \<and>
          (\<forall>t \<in> set (dr_pending s). ticket_ok envId e t)) \<and>
     distinct (map fst (dr_paid s)) \<and>
     (\<forall>a \<in> fst ` set (dr_paid s). has_claimed envId a (dr_db s))"

lemma claim_read_ticket:
  assumes "claim_read envId addr rnd db = Inr t"
  shows "\<exists>e. findUnique (gd_envelopes db) envId = Some e \<and> ct_env t = e \<and> ct_claimer t = addr \<and>
             ticket_ok envId e t"
proof -
  obtain e where e: "findUnique (gd_envelopes db) envId = Some e"
    and g: "0 < pe_remainingClaims e" "0 < pe_remainingBalance e"
    and t: "ct_id t = envId" "ct_claimer t = addr" "ct_env t = e"
    and a: "ct_amount t = claim_amount e rnd"
    using assms by (auto simp: claim_read_def getPublicEnvelope_def js_simps split: option.splits if_splits)
  have "ct_amount t \<le> pe_remainingBalance e + 1 / 200"
    unfolding a claim_amount_def by (rule order.trans [OF toFixed2_bounds(1)]) simp
  with e g t show ?thesis by (simp add: ticket_ok_def)
qed

text \<open>What a commit does, by cases.\<close>

definition env_after :: "claim_ticket \<Rightarrow> PublicEnvelope" where
  "env_after t =
     (let c = max 0 (pe_remainingClaims (ct_env t) - 1) in
      (ct_env t)\<lparr>pe_remainingBalance := max 0 (pe_remainingBalance (ct_env t) - ct_amount t),
                pe_remainingClaims := c, pe_status := (if c = 0 then ''COMPLETED'' else ''ACTIVE'')\<rparr>)"

lemma claim_commit_cases:
  assumes "keys_unique (gd_envelopes db)" and "findUnique (gd_envelopes db) envId = Some e"
    and "ticket_ok envId e t"
  obtains (already) "has_claimed envId (ct_claimer t) db" "failed (fst (claim_commit t db))"
      "snd (claim_commit t db) = db"
  | (lost) "\<not> has_claimed envId (ct_claimer t) db" "failed (fst (claim_commit t db))"
      "gd_envelopes (snd (claim_commit t db)) = gd_envelopes db"
      "\<And>a. has_claimed envId a (snd (claim_commit t db)) \<longleftrightarrow> has_claimed envId a db \<or> a = ct_claimer t"
  | (won) "\<not> has_claimed envId (ct_claimer t) db" "e = ct_env t"
      "commit_paid t db = [(ct_claimer t, ct_amount t)]"
      "gd_envelopes (snd (claim_commit t db)) = update_row envId (\<lambda>_. env_after t) (gd_envelopes db)"
      "\<And>a. has_claimed envId a (snd (claim_commit t db)) \<longleftrightarrow> has_claimed envId a db \<or> a = ct_claimer t"
proof -
  have id: "ct_id t = envId" using assms(3) by (simp add: ticket_ok_def)
  consider "has_claimed envId (ct_claimer t) db"
    | "\<not> has_claimed envId (ct_claimer t) db" "pe_remainingClaims e \<noteq> pe_remainingClaims (ct_env t)"
    | "\<not> has_claimed envId (ct_claimer t) db" "e = ct_env t"
    using assms(3) by (auto simp: ticket_ok_def)
  then show thesis
  proof cases
    case 1
    then show thesis by (intro already) (simp_all add: claim_commit_def id Let_def)
  next
    case 2
    then show thesis
      by (intro lost)
        (auto simp: claim_commit_def id Let_def updateMany_unique [OF assms(1)] assms(2) has_claimed_def)
  next
    case 3
    have "update_row envId (\<lambda>r. r\<lparr>pe_remainingBalance := b, pe_remainingClaims := c, pe_status := st\<rparr>) (gd_envelopes db)
        = update_row envId (\<lambda>_. e\<lparr>pe_remainingBalance := b, pe_remainingClaims := c, pe_status := st\<rparr>) (gd_envelopes db)"
      for b c st
      using update_row_const [OF assms(1,2),
          of "\<lambda>r. r\<lparr>pe_remainingBalance := b, pe_remainingClaims := c, pe_status := st\<rparr>"] .
    with 3 show thesis
      by (intro won)
        (auto simp: claim_commit_def commit_paid_def id Let_def updateMany_unique [OF assms(1)] assms(2)
          has_claimed_def env_after_def)
  qed
qed

lemma books_after_commit:
  assumes "books_ok (ct_env t) ps" and "ticket_ok envId e t"
  shows "books_ok (env_after t) (ps @ [(a, ct_amount t)])"
  using assms by (auto simp: books_ok_def ticket_ok_def env_after_def paid_sum_def Let_def max_def)

lemma drop_step_inv:
  assumes "drop_step envId s s'" and "drop_inv envId s"
  shows "drop_inv envId s'"
proof -
  from assms(2) obtain e where keys: "keys_unique (gd_envelopes (dr_db s))"
    and e: "findUnique (gd_envelopes (dr_db s)) envId = Some e" "books_ok e (dr_paid s)"
    and p: "\<forall>t \<in> set (dr_pending s). ticket_ok envId e t"
    and d: "distinct (map fst (dr_paid s))" "\<forall>a \<in> fst ` set (dr_paid s). has_claimed envId a (dr_db s)"
    by (auto simp: drop_inv_def)
  from assms(1) show ?thesis
  proof (cases rule: drop_step.cases)
    case (read addr rnd t)
    then show ?thesis using claim_read_ticket [of envId addr rnd "dr_db s" t] keys e p d
      by (auto simp: drop_inv_def)
  next
    case (commit t)
    then have t: "ticket_ok envId e t" using p by blast
    have rest: "\<forall>u \<in> set (remove1 t (dr_pending s)). ticket_ok envId e u"
      using p set_remove1_subset by fastforce
    show ?thesis
    proof (rule claim_commit_cases [OF keys e(1) t])
      assume "failed (fst (claim_commit t (dr_db s)))" "snd (claim_commit t (dr_db s)) = dr_db s"
      then show ?thesis using commit keys e rest d
        by (auto simp: drop_inv_def commit_paid_def split: sum.splits)
    next
      assume "failed (fst (claim_commit t (dr_db s)))"
        "gd_envelopes (snd (claim_commit t (dr_db s))) = gd_envelopes (dr_db s)"
        "\<And>a. has_claimed envId a (snd (claim_commit t (dr_db s))) \<longleftrightarrow> has_claimed envId a (dr_db s) \<or> a = ct_claimer t"
      then show ?thesis using commit keys e rest d
        by (auto simp: drop_inv_def commit_paid_def split: sum.splits)
    next
      assume w: "\<not> has_claimed envId (ct_claimer t) (dr_db s)" "e = ct_env t"
        "commit_paid t (dr_db s) = [(ct_claimer t, ct_amount t)]"
        "gd_envelopes (snd (claim_commit t (dr_db s))) = update_row envId (\<lambda>_. env_after t) (gd_envelopes (dr_db s))"
        "\<And>a. has_claimed envId a (snd (claim_commit t (dr_db s))) \<longleftrightarrow> has_claimed envId a (dr_db s) \<or> a = ct_claimer t"
      have "\<forall>u \<in> set (remove1 t (dr_pending s)). ticket_ok envId (env_after t) u"
        using rest t w(2) by (auto simp: ticket_ok_def env_after_def Let_def)
      moreover have "books_ok (env_after t) (dr_paid s @ [(ct_claimer t, ct_amount t)])"
        using books_after_commit [OF _ t] e(2) w(2) by simp
      moreover have "ct_claimer t \<notin> fst ` set (dr_paid s)" using d(2) w(1) by blast
      ultimately show ?thesis using commit keys e d w
        by (auto simp: drop_inv_def keys_unique_def)
    qed
  qed
qed

lemma drop_reach_inv: "drop_reach envId s0 s \<Longrightarrow> drop_inv envId s0 \<Longrightarrow> drop_inv envId s"
  by (induction rule: drop_reach.induct) (auto intro: drop_step_inv)


lemma created_drop_inv:
  assumes "createPublicEnvelope base newId creator dto db = (Inr (e, l), db')"
    and "keys_unique (gd_envelopes db)" and "findUnique (gd_envelopes db) newId = None"
  shows "drop_inv newId \<lparr>dr_db = db', dr_pending = [], dr_paid = []\<rparr> \<and>
         pe_maxClaims e \<in> {1..1000} \<and> pe_totalAmount e = ed_totalAmount dto \<and>
         findUnique (gd_envelopes db') newId = Some e"
  using assms keys_create [OF assms(2,3)]
  by (auto simp: createPublicEnvelope_def drop_inv_def books_ok_def paid_sum_def findUnique_create Let_def
      split: if_splits)

lemma update_row_books: "drop_inv envId s \<Longrightarrow>
    \<exists>e. findUnique (gd_envelopes (dr_db s)) envId = Some e \<and> books_ok e (dr_paid s)"
  by (auto simp: drop_inv_def)

text \<open>The total and the maximum of an envelope never change.\<close>

lemma commit_keeps_limits:
  assumes "keys_unique (gd_envelopes db)" and "findUnique (gd_envelopes db) k = Some e"
  shows "\<exists>e'. findUnique (gd_envelopes (snd (claim_commit t db))) k = Some e' \<and>
              pe_totalAmount e' = pe_totalAmount e \<and> pe_maxClaims e' = pe_maxClaims e"
  using assms
  by (auto simp: claim_commit_def updateMany_unique Let_def split: option.splits)

lemma drop_reach_limits:
  assumes "drop_reach envId s0 s" and "drop_inv envId s0"
    and "findUnique (gd_envelopes (dr_db s0)) envId = Some e"
  shows "\<exists>e'. findUnique (gd_envelopes (dr_db s)) envId = Some e' \<and>
              pe_totalAmount e' = pe_totalAmount e \<and> pe_maxClaims e' = pe_maxClaims e"
  using assms
proof (induction rule: drop_reach.induct)
  case (step s s')
  then obtain e' where e': "findUnique (gd_envelopes (dr_db s)) envId = Some e'"
    "pe_totalAmount e' = pe_totalAmount e" "pe_maxClaims e' = pe_maxClaims e"
    by auto
  have "keys_unique (gd_envelopes (dr_db s))"
    using drop_reach_inv [OF step.hyps(1) step.prems(1)] by (simp add: drop_inv_def)
  with step.hyps(2) e' show ?case
    by cases (use commit_keeps_limits in fastforce)+
qed auto

section \<open>Streak rows\<close>

fun record_all :: "(date \<times> string \<times> string) list \<Rightarrow> growth_db \<Rightarrow> growth_db" where
  "record_all [] db = db"
| "record_all ((now, userId, ty) # evs) db = record_all evs (snd (recordInteraction now userId ty db))"

definition qualifying_times :: "string \<Rightarrow> (date \<times> string \<times> string) list \<Rightarrow> date list" where
  "qualifying_times userId evs =
     map fst (filter (\<lambda>(now, u, ty). u = userId \<and> ty \<in> set QUALIFYING_STREAK_ACTIONS) evs)"

definition first_streak :: "date \<Rightarrow> streak" where
  "first_streak now = \<lparr>st_current = 1, st_longest = 1, st_last = now, st_grace = None\<rparr>"

text \<open>The row of a user, viewed by the abstract rule, after times \<open>ts\<close>.\<close>

fun continue_streak :: "streak option \<Rightarrow> date list \<Rightarrow> streak option" where
  "continue_streak r [] = r"
| "continue_streak None (t # ts) = Some (foldl streak_spec (first_streak t) ts)"
| "continue_streak (Some s) ts = Some (foldl streak_spec s ts)"

definition row_view :: "string \<Rightarrow> growth_db \<Rightarrow> streak option" where
  "row_view userId db = map_option (\<lambda>(s, ty). interaction_view s) (findUnique (gd_streaks db) userId)"

definition row_ok :: "streak option \<Rightarrow> bool" where
  "row_ok r = (case r of None \<Rightarrow> True | Some s \<Rightarrow> streak_wf s)"

lemma recordInteraction_row:
  assumes "0 \<le> now" and "row_ok (row_view userId db)"
  shows "row_view u (snd (recordInteraction now userId ty db)) =
     (if u = userId \<and> ty \<in> set QUALIFYING_STREAK_ACTIONS then continue_streak (row_view u db) [now]
      else row_view u db)"
proof (cases "ty \<in> set QUALIFYING_STREAK_ACTIONS")
  case True
  show ?thesis
  proof (cases "findUnique (gd_streaks db) userId")
    case None
    with True show ?thesis
      by (auto simp: recordInteraction_def row_view_def findUnique_create Let_def first_streak_def
          interaction_view_def split: option.splits)
  next
    case (Some row)
    obtain s ty0 where row: "row = (s, ty0)" by force
    have "streak_wf (interaction_view s)" using assms(2) Some row by (simp add: row_ok_def row_view_def)
    then have "interaction_view (interaction_step s now) = streak_spec (interaction_view s) now"
      using interaction.step_refines assms(1) by blast
    with True Some row show ?thesis
      by (cases "calculateInteractionStreakUpdate s now")
        (auto simp: recordInteraction_def row_view_def Let_def interaction_step_def interaction_view_def)
  qed
next
  case False
  then show ?thesis by (simp add: recordInteraction_def)
qed

lemma continue_streak_append:
  "continue_streak (continue_streak r [t]) ts = continue_streak r (t # ts)"
  by (cases r; cases ts) simp_all

lemma row_ok_continue: "row_ok r \<Longrightarrow> 0 \<le> t \<Longrightarrow> row_ok (continue_streak r [t])"
  by (cases r) (simp add: row_ok_def first_streak_def streak_wf_def, simp add: row_ok_def streak_spec_wf)

lemma record_all_rows:
  assumes "\<forall>u. row_ok (row_view u db)" and "\<forall>(now, u, ty) \<in> set evs. 0 \<le> now"
  shows "row_view u (record_all evs db) = continue_streak (row_view u db) (qualifying_times u evs) \<and>
         row_ok (row_view u (record_all evs db))"
  using assms
proof (induction evs arbitrary: db)
  case Nil
  then show ?case by (simp add: qualifying_times_def)
next
  case (Cons ev evs)
  obtain now v ty where ev: "ev = (now, v, ty)" by (cases ev) auto
  let ?db = "snd (recordInteraction now v ty db)"
  have now: "0 \<le> now" using Cons.prems(2) ev by simp
  have rows: "row_view w ?db = (if w = v \<and> ty \<in> set QUALIFYING_STREAK_ACTIONS
      then continue_streak (row_view w db) [now] else row_view w db)" for w
    using recordInteraction_row [OF now, of v db w ty] Cons.prems(1) by blast
  then have "\<forall>w. row_ok (row_view w ?db)" using Cons.prems(1) now row_ok_continue by simp
  then have "row_view u (record_all evs ?db) = continue_streak (row_view u ?db) (qualifying_times u evs) \<and>
         row_ok (row_view u (record_all evs ?db))"
    using Cons.IH [of ?db] Cons.prems(2) ev by auto
  then show ?case by (auto simp: ev rows qualifying_times_def continue_streak_append)
qed

section \<open>One day of requests\<close>

fun intercept_all :: "(date \<times> string option) list \<Rightarrow> (string \<times> string) list \<Rightarrow> (bool \<times> string option) list" where
  "intercept_all [] m = []"
| "intercept_all ((now, u) # rs) m =
     (let (rec, m') = intercept now u m in (rec, u) # intercept_all rs m')"

lemma map_of_map_set: "map_of (map_set k v m) j = (if j = k then Some v else map_of m j)"
proof -
  have *: "map_of (map (\<lambda>(i, x). if i = k then (i, v) else (i, x)) m) j =
      (if j = k then map_option (\<lambda>_. v) (map_of m j) else map_of m j)"
    by (induction m) auto
  show ?thesis
  proof (cases "k \<in> fst ` set m")
    case True
    then obtain x where "map_of m k = Some x" by (metis map_of_eq_None_iff not_None_eq)
    with True * show ?thesis by (simp add: map_set_def)
  next
    case False
    then have "map_of m k = None" by (simp add: map_of_eq_None_iff)
    with False show ?thesis by (simp add: map_set_def map_add_def split: option.split)
  qed
qed

lemma map_of_filter_day:
  "distinct (map fst m) \<Longrightarrow> map_of m k = Some d \<Longrightarrow> map_of (filter (\<lambda>(uid, day). day = d) m) k = Some d"
  by (induction m) (auto dest: map_of_SomeD)

lemma map_set_distinct: "distinct (map fst m) \<Longrightarrow> distinct (map fst (map_set k v m))"
proof -
  have "map fst (map (\<lambda>(i, x). if i = k then (i, v) else (i, x)) m) = map fst m" by (induction m) auto
  then show "distinct (map fst m) \<Longrightarrow> distinct (map fst (map_set k v m))"
    unfolding map_set_def by (cases "k \<in> fst ` set m") (simp_all only: if_True if_False, simp)
qed

lemma intercept_keeps:
  assumes "intercept now v m = (rec, m')" and "distinct (map fst m)"
  shows "distinct (map fst m') \<and>
    (map_of m u = Some (iso_day now) \<longrightarrow> map_of m' u = Some (iso_day now)) \<and>
    (rec \<longrightarrow> v \<noteq> None \<and> map_of m (the v) \<noteq> Some (iso_day now) \<and> map_of m' (the v) = Some (iso_day now))"
proof (cases v)
  case (Some w)
  show ?thesis
  proof (cases "w = [] \<or> map_of m w = Some (iso_day now)")
    case True
    then show ?thesis using assms by (auto simp: intercept_def Some Let_def)
  next
    case False
    let ?t = "map_set w (iso_day now) m"
    have m': "rec" "m' = (if length ?t > 10000 then filter (\<lambda>(uid, day). day = iso_day now) ?t else ?t)"
      using assms(1) False by (auto simp: intercept_def Some Let_def split: if_splits)
    have d: "distinct (map fst ?t)" using assms(2) by (rule map_set_distinct)
    have "distinct (map fst (filter P ?t))" for P
      using d by (metis distinct_map_filter)
    moreover have "map_of ?t x = Some (iso_day now) \<Longrightarrow> map_of m' x = Some (iso_day now)" for x
      unfolding m' using map_of_filter_day [OF d] by simp
    ultimately show ?thesis using False d by (auto simp: m' Some map_of_map_set)
  qed
qed (use assms in \<open>simp add: intercept_def\<close>)

lemma intercept_all_once:
  assumes "\<forall>(now, v) \<in> set rs. iso_day now = d" and "distinct (map fst m)"
  shows "length (filter (\<lambda>(rec, v). rec \<and> v = Some u) (intercept_all rs m))
           \<le> (if map_of m u = Some d then 0 else 1)"
  using assms
proof (induction rs arbitrary: m)
  case (Cons r rs)
  obtain now v where r: "r = (now, v)" by force
  obtain rec m' where i: "intercept now v m = (rec, m')" by force
  have d: "iso_day now = d" using Cons.prems(1) r by simp
  have k: "distinct (map fst m')" "map_of m u = Some d \<longrightarrow> map_of m' u = Some d"
    "rec \<longrightarrow> v \<noteq> None \<and> map_of m (the v) \<noteq> Some d \<and> map_of m' (the v) = Some d"
    using intercept_keeps [OF i Cons.prems(2), of u] d by auto
  have "length (filter (\<lambda>(rec, v). rec \<and> v = Some u) (intercept_all rs m'))
           \<le> (if map_of m' u = Some d then 0 else 1)"
    using Cons.IH [OF _ k(1)] Cons.prems(1) by simp
  with k i r show ?case by (auto split: if_splits)
qed simp


section \<open>Properties\<close>

definition empty_growth :: growth_db where
  "empty_growth = \<lparr>gd_envelopes = [], gd_claims = [], gd_vaults = [], gd_airdrops = [],
                   gd_users = [(''u1'', \<lparr>gu_wallet = Some ''w1'', gu_createdAt = 5\<rparr>)],
                   gd_streaks = [], gd_activity = []\<rparr>"

definition drop_of_two :: growth_db where
  "drop_of_two = snd (createPublicEnvelope ''u'' ''e1'' ''c''
     \<lparr>ed_token = None, ed_totalAmount = 10, ed_maxClaims = 2\<rparr> empty_growth)"

definition drop_ticket :: "string \<Rightarrow> claim_ticket" where
  "drop_ticket a =
     \<lparr>ct_id = ''e1'', ct_claimer = a,
      ct_env = \<lparr>pe_creatorId = ''c'', pe_token = ''USDC'', pe_totalAmount = 10,
                pe_remainingBalance = 10, pe_maxClaims = 2, pe_remainingClaims = 2,
                pe_status = ''ACTIVE''\<rparr>,
      ct_amount = 5\<rparr>"

lemma toUpperCase_usdc [simp]: "toUpperCase ''USDC'' = ''USDC''"
  by (simp add: toUpperCase_def upper_char_def)

lemma drop_of_two_eq:
  "drop_of_two = empty_growth\<lparr>gd_envelopes := [(''e1'', ct_env (drop_ticket a))]\<rparr>"
  by (simp add: drop_of_two_def createPublicEnvelope_def empty_growth_def drop_ticket_def Let_def
      token_or_usdc_def create_row_def)

lemma drop_ticket_read: "claim_read ''e1'' a (1 / 2) drop_of_two = Inr (drop_ticket a)"
proof -
  have "\<lfloor>1001 / 2 :: rat\<rfloor> = 500" by (rule floor_unique) simp_all
  then show ?thesis
    by (simp add: drop_of_two_eq [of a] claim_read_def getPublicEnvelope_def findUnique_def has_claimed_def
        empty_growth_def drop_ticket_def bindE_def claim_amount_def toFixed2_def)
qed

text \<open>A public envelope is never overdrawn: from the moment it is created, however the reads and
  the transactions of its claimers interleave, at most \<open>maxClaims\<close> (between 1 and 1000) claims
  return a payout, no address is paid twice, and the payouts never exceed the total by more than
  the half cent that \<open>toFixed(2)\<close> can round up.\<close>

theorem public_envelope_never_overdrawn:
  assumes "createPublicEnvelope base newId creator dto db = (Inr (e, l), db')"
    and "keys_unique (gd_envelopes db)" and "findUnique (gd_envelopes db) newId = None"
    and "drop_reach newId \<lparr>dr_db = db', dr_pending = [], dr_paid = []\<rparr> s"
  shows "int (length (dr_paid s)) \<le> pe_maxClaims e \<and> pe_maxClaims e \<in> {1..1000} \<and>
         distinct (map fst (dr_paid s)) \<and> paid_sum (dr_paid s) \<le> ed_totalAmount dto + 1 / 200"
proof -
  note c = created_drop_inv [OF assms(1-3)]
  have inv: "drop_inv newId s" using drop_reach_inv [OF assms(4)] c by blast
  obtain e' where "findUnique (gd_envelopes (dr_db s)) newId = Some e'"
    "pe_totalAmount e' = pe_totalAmount e" "pe_maxClaims e' = pe_maxClaims e"
    using drop_reach_limits [OF assms(4)] c by fastforce
  with update_row_books [OF inv] inv c show ?thesis
    by (auto simp: books_ok_def drop_inv_def)
qed

theorem public_envelope_never_overdrawn_witness:
  "paid_sum [(''w1'', 5)] \<le> 10 + 1 / 200 \<and>
   (\<exists>s. drop_reach ''e1'' \<lparr>dr_db = drop_of_two, dr_pending = [], dr_paid = []\<rparr> s \<and> dr_paid s = [(''w1'', 5)])"
proof -
  let ?s0 = "\<lparr>dr_db = drop_of_two, dr_pending = [], dr_paid = []\<rparr>"
  let ?s1 = "?s0\<lparr>dr_pending := [drop_ticket ''w1'']\<rparr>"
  let ?s2 = "?s1\<lparr>dr_db := snd (claim_commit (drop_ticket ''w1'') drop_of_two), dr_pending := [],
                 dr_paid := commit_paid (drop_ticket ''w1'') drop_of_two\<rparr>"
  have "drop_step ''e1'' ?s0 ?s1"
    using drop_step.read [of "''e1''" "''w1''" "1 / 2" ?s0 "drop_ticket ''w1''"] drop_ticket_read by simp
  moreover have "drop_step ''e1'' ?s1 ?s2"
    using drop_step.commit [of "drop_ticket ''w1''" ?s1 "''e1''"] by simp
  ultimately have r: "drop_reach ''e1'' ?s0 ?s2" by (blast intro: drop_reach.intros)
  have p: "dr_paid ?s2 = [(''w1'', 5)]"
    by (simp add: commit_paid_def claim_commit_def drop_of_two_eq [of "''w1''"] has_claimed_def
        empty_growth_def drop_ticket_def updateMany_def Let_def)
  have "keys_unique (gd_envelopes empty_growth)" "findUnique (gd_envelopes empty_growth) ''e1'' = None"
    by (simp_all add: keys_unique_def findUnique_def empty_growth_def)
  then have "paid_sum (dr_paid ?s2) \<le> 10 + 1 / 200"
    using public_envelope_never_overdrawn [of "''u''" "''e1''" "''c''"
        "\<lparr>ed_token = None, ed_totalAmount = 10, ed_maxClaims = 2\<rparr>" empty_growth _ _ drop_of_two ?s2] r
    by (simp add: drop_of_two_def createPublicEnvelope_def Let_def del: drop_state.update_defs)
  with r p show ?thesis by auto
qed

text \<open>A claimer who loses a race is locked out: the answer says to try again, but the claim row
  stays in the table without a payout, so that every later claim of that address on the envelope
  fails.\<close>

theorem lost_race_locks_claimer_out:
  assumes "claim_commit t db =
    (Inl (BadRequest ''Envelope was claimed concurrently. Please try again.''), db')"
  shows "has_claimed (ct_id t) (ct_claimer t) db' \<and> \<not> has_claimed (ct_id t) (ct_claimer t) db \<and>
         failed (fst (claimPublicEnvelope (ct_id t) (ct_claimer t) rnd db')) \<and>
         snd (claimPublicEnvelope (ct_id t) (ct_claimer t) rnd db') = db'"
proof -
  have c: "has_claimed (ct_id t) (ct_claimer t) db'" "\<not> has_claimed (ct_id t) (ct_claimer t) db"
    using assms by (auto simp: claim_commit_def has_claimed_def Let_def split: if_splits prod.splits)
  then have "\<exists>x. claim_read (ct_id t) (ct_claimer t) rnd db' = Inl x"
    by (auto simp: claim_read_def bindE_def split: sum.splits)
  with c show ?thesis by (auto simp: claimPublicEnvelope_def)
qed

theorem lost_race_locks_claimer_out_witness:
  "failed (fst (claimPublicEnvelope ''e1'' ''w2'' (1 / 2)
     (snd (claim_commit (drop_ticket ''w2'') (snd (claim_commit (drop_ticket ''w1'') drop_of_two))))))"
proof -
  let ?db = "snd (claim_commit (drop_ticket ''w1'') drop_of_two)"
  have "claim_commit (drop_ticket ''w2'') ?db =
      (Inl (BadRequest ''Envelope was claimed concurrently. Please try again.''),
       snd (claim_commit (drop_ticket ''w2'') ?db))"
    by (simp add: claim_commit_def drop_of_two_eq [of "''w1''"] has_claimed_def
        empty_growth_def drop_ticket_def updateMany_def Let_def)
  from lost_race_locks_claimer_out [OF this, of "1 / 2"] show ?thesis by (simp add: drop_ticket_def)
qed

text \<open>The streak table is exactly the abstract rule applied to each user's own qualifying
  interactions, in their order, whatever the other users do in between: the first creates the
  row, each later one follows the rule on UTC days, and the rest leave it alone.\<close>

theorem streak_table_is_per_user_history:
  assumes "gd_streaks db = []" and "\<forall>(now, u, ty) \<in> set evs. 0 \<le> now"
  shows "row_view userId (record_all evs db) =
           (case qualifying_times userId evs of
              [] \<Rightarrow> None
            | t # ts \<Rightarrow> Some (foldl streak_spec (first_streak t) ts))"
proof -
  have "\<forall>u. row_ok (row_view u db)" using assms(1) by (simp add: row_ok_def row_view_def findUnique_def)
  moreover have "row_view userId db = None" using assms(1) by (simp add: row_view_def findUnique_def)
  ultimately show ?thesis using record_all_rows [of db evs userId] assms(2) by (simp split: list.split)
qed

theorem streak_table_is_per_user_history_witness:
  "row_view ''u1'' (record_all [(0, ''u1'', ''BOT_COMMAND''), (5, ''u2'', ''APP_LOGIN''),
      (86400000, ''u1'', ''TRANSFER_RECEIVED''), (86400001, ''u1'', ''SPLIT_PAID'')] empty_growth) =
   Some \<lparr>st_current = 2, st_longest = 2, st_last = 86400001, st_grace = None\<rparr>"
  using streak_table_is_per_user_history [of empty_growth "[(0, ''u1'', ''BOT_COMMAND''), (5, ''u2'', ''APP_LOGIN''),
      (86400000, ''u1'', ''TRANSFER_RECEIVED''), (86400001, ''u1'', ''SPLIT_PAID'')]" "''u1''"]
  by (simp add: empty_growth_def qualifying_times_def QUALIFYING_STREAK_ACTIONS_def first_streak_def
      streak_spec_def uses_pass_def day_of_def msPerDay_def Let_def)

text \<open>On one UTC day the interceptor records each user at most once, whatever requests come in
  between and even when it drops stale entries, and not at all when the user was already
  recorded that day.\<close>

theorem interceptor_records_once_a_day:
  assumes "\<forall>(now, v) \<in> set requests. iso_day now = d" and "distinct (map fst touchedToday)"
  shows "length (filter (\<lambda>(rec, v). rec \<and> v = Some u) (intercept_all requests touchedToday))
           \<le> (if map_of touchedToday u = Some d then 0 else 1)"
  using intercept_all_once [OF assms] .

theorem interceptor_records_once_a_day_witness:
  "intercept_all [(1, Some ''u''), (2, None), (3, Some ''u'')] [] = [(True, Some ''u''), (False, None), (False, Some ''u'')] \<and>
   length (filter (\<lambda>(rec, v). rec \<and> v = Some ''u'') (intercept_all [(1, Some ''u''), (2, None), (3, Some ''u'')] [])) \<le> 1"
proof -
  have "iso_day 1 = ''1970-01-01''" "iso_day 2 = ''1970-01-01''" "iso_day 3 = ''1970-01-01''" by code_simp+
  then show ?thesis
    using interceptor_records_once_a_day [of "[(1, Some ''u''), (2, None), (3, Some ''u'')]" "''1970-01-01''" "[]" "''u''"]
    by (simp add: intercept_def map_set_def)
qed


end
