(* ===== verification/ClaimRetry.thy ===== *)
theory ClaimRetry
  imports Backend
begin

text \<open>
  \<open>backend/src/relayer/claim-retry.service.ts\<close>: the queue of failed claims and the job that
  retries them. \<open>processPendingClaims\<close> is modelled as it runs alone, and, because several
  replicas of the backend run it at once, as a step relation in which the reads, the conditional
  updates and the executions of the workers interleave. The executors are injected services; what
  a call returns or throws is an argument.
\<close>

section \<open>Definitions\<close>

record claim_payload =
  cp_envelopeId :: string
  cp_code :: string
  cp_claimerAddress :: string

text \<open>A stored payload is an object, or a string that \<open>JSON.parse\<close> refuses with a message.\<close>

record PendingClaim =
  pcl_userId :: string
  pcl_type :: string
  pcl_payload :: "string + claim_payload"
  pcl_status :: string
  pcl_retries :: int
  pcl_errorMessage :: string

datatype executor_call = ClaimEnvelope string string | ClaimEscrow string string

record registered =
  has_envelopes :: bool
  has_escrow :: bool

definition registerExecutors :: "registered \<Rightarrow> registered \<Rightarrow> registered" where
  "registerExecutors ex old =
     \<lparr>has_envelopes = has_envelopes ex \<or> has_envelopes old, has_escrow = has_escrow ex \<or> has_escrow old\<rparr>"

definition recordPendingClaim ::
    "string \<Rightarrow> string \<Rightarrow> string \<Rightarrow> claim_payload \<Rightarrow> string \<Rightarrow> PendingClaim table \<Rightarrow> PendingClaim \<times> PendingClaim table" where
  "recordPendingClaim newId userId type payload errorMsg tbl =
     (let claim = \<lparr>pcl_userId = userId, pcl_type = type, pcl_payload = Inr payload,
                   pcl_status = ''PENDING'', pcl_retries = 0, pcl_errorMessage = errorMsg\<rparr>
      in (claim, create_row newId claim tbl))"

text \<open>The executor call an item leads to, if any: the general fallback calls nothing.\<close>

definition dispatch :: "registered \<Rightarrow> string \<Rightarrow> claim_payload \<Rightarrow> executor_call option" where
  "dispatch reg type p =
     (if type = ''ENVELOPE_CLAIM'' \<and> has_envelopes reg
      then Some (ClaimEnvelope (cp_envelopeId p) (cp_claimerAddress p))
      else if type = ''ESCROW_CLAIM'' \<and> has_escrow reg
      then Some (ClaimEscrow (cp_code p) (cp_claimerAddress p))
      else None)"

text \<open>The \<open>try\<close> block: the message of the exception, or success, and the calls made. \<open>ans\<close> is what
  the executor answers.\<close>

definition attempt ::
    "registered \<Rightarrow> (executor_call \<Rightarrow> string + unit) \<Rightarrow> PendingClaim \<Rightarrow> (string + unit) \<times> executor_call list" where
  "attempt reg ans item =
     (case pcl_payload item of
        Inl msg \<Rightarrow> (Inl msg, [])
      | Inr p \<Rightarrow>
          (case dispatch reg (pcl_type item) p of
             Some c \<Rightarrow> (ans c, [c])
           | None \<Rightarrow> (Inr (), [])))"

definition is_pending :: "PendingClaim \<Rightarrow> bool" where
  "is_pending c \<longleftrightarrow> pcl_status c = ''PENDING''"

definition find_pending :: "PendingClaim table \<Rightarrow> PendingClaim table" where
  "find_pending tbl = take 20 (filter (\<lambda>(i, c). is_pending c \<and> pcl_retries c < 3) tbl)"

definition claim_item :: "string \<Rightarrow> PendingClaim table \<Rightarrow> nat \<times> PendingClaim table" where
  "claim_item i tbl = updateMany i is_pending (\<lambda>c. c\<lparr>pcl_status := ''PROCESSING''\<rparr>) tbl"

definition finish_row :: "PendingClaim \<Rightarrow> string + unit \<Rightarrow> PendingClaim \<Rightarrow> PendingClaim" where
  "finish_row item res c =
     (let newRetryCount = pcl_retries item + 1 in
      case res of
        Inr _ \<Rightarrow> c\<lparr>pcl_status := ''COMPLETED''\<rparr>
      | Inl msg \<Rightarrow>
          if 3 \<le> newRetryCount
          then c\<lparr>pcl_status := ''FAILED'', pcl_retries := newRetryCount, pcl_errorMessage := msg\<rparr>
          else c\<lparr>pcl_status := ''PENDING'', pcl_retries := newRetryCount, pcl_errorMessage := msg\<rparr>)"

definition finish_item :: "string \<Rightarrow> PendingClaim \<Rightarrow> string + unit \<Rightarrow> PendingClaim table \<Rightarrow> PendingClaim table" where
  "finish_item i item res tbl = update_row i (finish_row item res) tbl"

definition process_item ::
    "registered \<Rightarrow> (executor_call \<Rightarrow> string + unit) \<Rightarrow> string \<times> PendingClaim \<Rightarrow> PendingClaim table \<Rightarrow> PendingClaim table" where
  "process_item reg ans it tbl =
     (let (count, tbl') = claim_item (fst it) tbl in
      if count = 0 then tbl' else finish_item (fst it) (snd it) (fst (attempt reg ans (snd it))) tbl')"

definition processPendingClaims ::
    "registered \<Rightarrow> (executor_call \<Rightarrow> string + unit) \<Rightarrow> bool \<Rightarrow> PendingClaim table \<Rightarrow> PendingClaim table" where
  "processPendingClaims reg ans isLow tbl =
     (if isLow then tbl else fold (process_item reg ans) (find_pending tbl) tbl)"

section \<open>A single worker\<close>

text \<open>The attempts a row can still have.\<close>

definition attempts_left :: "PendingClaim \<Rightarrow> nat" where
  "attempts_left c = (if is_pending c then nat (3 - pcl_retries c) else 0)"

definition queue_size :: "PendingClaim table \<Rightarrow> nat" where
  "queue_size tbl = sum_list (map (attempts_left \<circ> snd) tbl)"

text \<open>What one turn of the loop does to the row of a pending item.\<close>

definition turn :: "registered \<Rightarrow> (executor_call \<Rightarrow> string + unit) \<Rightarrow> PendingClaim \<Rightarrow> PendingClaim" where
  "turn reg ans c = finish_row c (fst (attempt reg ans c)) (c\<lparr>pcl_status := ''PROCESSING''\<rparr>)"

lemma update_row_twice: "update_row k f (update_row k g t) = update_row k (f \<circ> g) t"
  by (induction t) (auto simp: update_row_def)

lemma process_item_turn:
  assumes "keys_unique tbl" and "findUnique tbl i = Some c" and "is_pending c"
  shows "process_item reg ans (i, c) tbl = update_row i (\<lambda>_. turn reg ans c) tbl"
proof -
  let ?proc = "\<lambda>c. c\<lparr>pcl_status := ''PROCESSING''\<rparr>" and ?fin = "finish_row c (fst (attempt reg ans c))"
  have "process_item reg ans (i, c) tbl = update_row i ?fin (update_row i ?proc tbl)"
    using assms by (simp add: process_item_def claim_item_def updateMany_unique finish_item_def)
  also have "\<dots> = update_row i (?fin \<circ> ?proc) tbl" by (rule update_row_twice)
  also have "\<dots> = update_row i (\<lambda>_. (?fin \<circ> ?proc) c) tbl" by (rule update_row_const [OF assms(1,2)])
  finally show ?thesis by (simp add: turn_def)
qed

text \<open>Every turn uses up one attempt of a row with retries left.\<close>

lemma turn_attempts:
  assumes "is_pending c" and "pcl_retries c < 3"
  shows "attempts_left (turn reg ans c) < attempts_left c"
  using assms
  by (auto simp: turn_def finish_row_def attempts_left_def is_pending_def Let_def split: sum.split)

lemma queue_size_update:
  assumes "keys_unique tbl" and "findUnique tbl i = Some c"
  shows "queue_size (update_row i (\<lambda>_. c') tbl) + attempts_left c = queue_size tbl + attempts_left c'"
  using assms
proof (induction tbl)
  case (Cons p tbl)
  obtain j d where p: "p = (j, d)" by force
  show ?case
  proof (cases "j = i")
    case True
    then have "i \<notin> fst ` set tbl" using Cons.prems(1) by (simp add: keys_unique_def p)
    then have "update_row i (\<lambda>_. c') tbl = tbl" by (induction tbl) (auto simp: update_row_def)
    with True Cons.prems(2) show ?thesis
      by (simp add: p queue_size_def update_row_def findUnique_def)
  next
    case False
    then show ?thesis
      using Cons by (simp add: p queue_size_def update_row_def findUnique_def keys_unique_def)
  qed
qed (simp add: findUnique_def)

text \<open>The loop over the items that were read: each is still as it was read when its turn comes.\<close>

lemma fold_process:
  assumes "keys_unique tbl" and "distinct (map fst items)"
    and "\<forall>(i, c) \<in> set items. findUnique tbl i = Some c \<and> is_pending c \<and> pcl_retries c < 3"
  shows "queue_size (fold (process_item reg ans) items tbl) + length items \<le> queue_size tbl \<and>
         keys_unique (fold (process_item reg ans) items tbl) \<and>
         (\<forall>j. findUnique (fold (process_item reg ans) items tbl) j =
            (case map_of items j of Some c \<Rightarrow> Some (turn reg ans c) | None \<Rightarrow> findUnique tbl j))"
  using assms
proof (induction items arbitrary: tbl)
  case (Cons it items)
  obtain i c where it: "it = (i, c)" by force
  have c: "findUnique tbl i = Some c" "is_pending c" "pcl_retries c < 3" using Cons.prems(3) it by auto
  let ?t = "update_row i (\<lambda>_. turn reg ans c) tbl"
  have step: "process_item reg ans it tbl = ?t" using process_item_turn [OF Cons.prems(1) c(1,2)] it by simp
  have size: "queue_size ?t + 1 \<le> queue_size tbl"
    using queue_size_update [OF Cons.prems(1) c(1), of "turn reg ans c"] turn_attempts [OF c(2,3), of reg ans]
    by linarith
  have keys: "keys_unique ?t" using Cons.prems(1) by (simp add: keys_unique_def)
  have "\<forall>(j, d) \<in> set items. findUnique ?t j = Some d \<and> is_pending d \<and> pcl_retries d < 3"
    using Cons.prems(2,3) it by (force simp: image_iff)
  with Cons.IH [OF keys] Cons.prems(2) have IH:
    "queue_size (fold (process_item reg ans) items ?t) + length items \<le> queue_size ?t"
    "keys_unique (fold (process_item reg ans) items ?t)"
    "\<forall>j. findUnique (fold (process_item reg ans) items ?t) j =
       (case map_of items j of Some c \<Rightarrow> Some (turn reg ans c) | None \<Rightarrow> findUnique ?t j)"
    using it by auto
  have "map_of items i = None" using Cons.prems(2) it by (simp add: map_of_eq_None_iff)
  with IH size step it c show ?case by (auto split: option.splits)
qed simp

lemma find_pending_items:
  assumes "keys_unique tbl"
  shows "distinct (map fst (find_pending tbl))"
    and "\<forall>(i, c) \<in> set (find_pending tbl). findUnique tbl i = Some c \<and> is_pending c \<and> pcl_retries c < 3"
proof -
  have "distinct (map fst (filter P tbl))" for P using assms by (simp add: keys_unique_def distinct_map_filter)
  then show "distinct (map fst (find_pending tbl))"
    by (simp add: find_pending_def take_map [symmetric])
  show "\<forall>(i, c) \<in> set (find_pending tbl). findUnique tbl i = Some c \<and> is_pending c \<and> pcl_retries c < 3"
    using assms set_take_subset [of 20 "filter (\<lambda>(i, c). is_pending c \<and> pcl_retries c < 3) tbl"]
    by (fastforce simp: find_pending_def findUnique_def keys_unique_def)
qed

lemma find_pending_empty:
  "find_pending tbl = [] \<longleftrightarrow> (\<forall>(i, c) \<in> set tbl. \<not> (is_pending c \<and> pcl_retries c < 3))"
  by (auto simp: find_pending_def filter_empty_conv)

fun runs :: "registered \<Rightarrow> (nat \<Rightarrow> executor_call \<Rightarrow> string + unit) \<Rightarrow> nat \<Rightarrow> PendingClaim table \<Rightarrow> PendingClaim table" where
  "runs reg ans 0 tbl = tbl"
| "runs reg ans (Suc n) tbl = runs reg ans n (processPendingClaims reg (ans n) False tbl)"

lemma processPendingClaims_queue:
  assumes "keys_unique tbl"
  shows "keys_unique (processPendingClaims reg ans isLow tbl)"
    and "queue_size (processPendingClaims reg ans False tbl) + length (find_pending tbl) \<le> queue_size tbl"
  using fold_process [OF assms find_pending_items [OF assms]] assms
  by (simp_all add: processPendingClaims_def)

lemma runs_settle:
  assumes "keys_unique tbl" and "queue_size tbl \<le> n"
  shows "find_pending (runs reg ans n tbl) = []"
  using assms
proof (induction n arbitrary: tbl)
  case 0
  then have "\<forall>(i, c) \<in> set tbl. attempts_left c = 0" by (auto simp: queue_size_def)
  then show ?case by (fastforce simp: find_pending_empty attempts_left_def split: if_splits)
next
  case (Suc n)
  let ?t = "processPendingClaims reg (ans n) False tbl"
  have keys: "keys_unique ?t" using processPendingClaims_queue(1) [OF Suc.prems(1)] .
  show ?case
  proof (cases "find_pending tbl = []")
    case True
    then have "?t = tbl" by (simp add: processPendingClaims_def)
    moreover have "runs reg ans m tbl = tbl" for m
      using True by (induction m) (simp_all add: processPendingClaims_def)
    ultimately show ?thesis using True by simp
  next
    case False
    then have "queue_size ?t \<le> n"
      using processPendingClaims_queue(2) [OF Suc.prems(1), of reg "ans n"] Suc.prems(2)
      by (cases "find_pending tbl") auto
    with Suc.IH [OF keys] show ?thesis by simp
  qed
qed

section \<open>Several workers\<close>

text \<open>Each replica is idle, between two items of the list it read, or executing an item it claimed.
  An event is one database or executor operation of one worker; \<^term>\<open>None\<close> means that the worker
  cannot do it now. The log has the items whose execution has finished, in order.\<close>

datatype worker = Idle | Looping "PendingClaim table" | Running string PendingClaim "PendingClaim table"

record cluster =
  cl_table :: "PendingClaim table"
  cl_workers :: "nat \<Rightarrow> worker"
  cl_log :: "string list"

datatype event = Fetch nat | Next nat | Finish nat "string + unit"

fun cluster_event :: "event \<Rightarrow> cluster \<Rightarrow> cluster option" where
  "cluster_event (Fetch w) s =
     (case cl_workers s w of
        Idle \<Rightarrow> Some (s\<lparr>cl_workers := (cl_workers s)(w := Looping (find_pending (cl_table s)))\<rparr>)
      | _ \<Rightarrow> None)"
| "cluster_event (Next w) s =
     (case cl_workers s w of
        Looping [] \<Rightarrow> Some (s\<lparr>cl_workers := (cl_workers s)(w := Idle)\<rparr>)
      | Looping ((i, c) # rest) \<Rightarrow>
          (let (count, tbl) = claim_item i (cl_table s) in
           Some (s\<lparr>cl_table := tbl,
                   cl_workers := (cl_workers s)(w := (if count = 0 then Looping rest else Running i c rest))\<rparr>))
      | _ \<Rightarrow> None)"
| "cluster_event (Finish w res) s =
     (case cl_workers s w of
        Running i c rest \<Rightarrow>
          Some (s\<lparr>cl_table := finish_item i c res (cl_table s),
                  cl_workers := (cl_workers s)(w := Looping rest),
                  cl_log := cl_log s @ [i]\<rparr>)
      | _ \<Rightarrow> None)"

fun run_events :: "event list \<Rightarrow> cluster \<Rightarrow> cluster option" where
  "run_events [] s = Some s"
| "run_events (e # es) s = Option.bind (cluster_event e s) (run_events es)"

definition cluster_start :: "PendingClaim table \<Rightarrow> cluster" where
  "cluster_start tbl = \<lparr>cl_table = tbl, cl_workers = (\<lambda>_. Idle), cl_log = []\<rparr>"

primrec in_execution :: "worker \<Rightarrow> string option" where
  "in_execution Idle = None"
| "in_execution (Looping items) = None"
| "in_execution (Running i c items) = Some i"

definition marked :: "string \<Rightarrow> cluster \<Rightarrow> bool" where
  "marked i s \<longleftrightarrow> (\<exists>r. findUnique (cl_table s) i = Some r \<and> pcl_status r = ''PROCESSING'')"

definition exclusive :: "cluster \<Rightarrow> bool" where
  "exclusive s \<longleftrightarrow>
     keys_unique (cl_table s) \<and>
     (\<forall>w i. in_execution (cl_workers s w) = Some i \<longrightarrow> marked i s) \<and>
     (\<forall>v w i. in_execution (cl_workers s v) = Some i \<and> in_execution (cl_workers s w) = Some i \<longrightarrow> v = w)"

lemma exclusiveD:
  assumes "exclusive s"
  shows "keys_unique (cl_table s)"
    and "in_execution (cl_workers s w) = Some i \<Longrightarrow> marked i s"
    and "in_execution (cl_workers s v) = Some i \<Longrightarrow> in_execution (cl_workers s w) = Some i \<Longrightarrow> v = w"
  using assms unfolding exclusive_def by blast+

text \<open>A worker that stops executing, or did not, cannot break the invariant.\<close>

lemma exclusive_release:
  assumes "exclusive s" and "in_execution x = None"
    and "keys_unique tbl"
    and "\<And>v i. v \<noteq> w \<Longrightarrow> in_execution (cl_workers s v) = Some i \<Longrightarrow>
           \<exists>r. findUnique tbl i = Some r \<and> pcl_status r = ''PROCESSING''"
  shows "exclusive (s\<lparr>cl_table := tbl, cl_workers := (cl_workers s)(w := x), cl_log := lg\<rparr>)"
  using assms exclusiveD(3) [OF assms(1)] unfolding exclusive_def marked_def by auto

lemma exclusive_idle:
  assumes "exclusive s" and "in_execution x = None"
  shows "exclusive (s\<lparr>cl_workers := (cl_workers s)(w := x)\<rparr>)"
  using assms exclusiveD(3) [OF assms(1)] unfolding exclusive_def marked_def by auto

lemma claim_item_cases:
  assumes "keys_unique tbl"
  shows "claim_item i tbl =
    (case findUnique tbl i of
       Some r \<Rightarrow> if is_pending r then (1, update_row i (\<lambda>c. c\<lparr>pcl_status := ''PROCESSING''\<rparr>) tbl) else (0, tbl)
     | None \<Rightarrow> (0, tbl))"
  unfolding claim_item_def by (rule updateMany_unique [OF assms])

lemma exclusive_next:
  assumes "exclusive s" and "cl_workers s w = Looping ((i, c) # rest)"
    and "cluster_event (Next w) s = Some s'"
  shows "exclusive s'"
proof (cases "\<exists>r. findUnique (cl_table s) i = Some r \<and> is_pending r")
  case True
  then obtain r where r: "findUnique (cl_table s) i = Some r" "is_pending r" by blast
  then have none: "in_execution (cl_workers s v) \<noteq> Some i" for v
    using exclusiveD(2) [OF assms(1), of v i] by (auto simp: marked_def is_pending_def)
  let ?tbl = "update_row i (\<lambda>c. c\<lparr>pcl_status := ''PROCESSING''\<rparr>) (cl_table s)"
  have s': "s' = s\<lparr>cl_table := ?tbl, cl_workers := (cl_workers s)(w := Running i c rest)\<rparr>"
    using assms r by (simp add: claim_item_cases [OF exclusiveD(1) [OF assms(1)]])
  show ?thesis
    unfolding exclusive_def marked_def s'
    using exclusiveD [OF assms(1)] none r by (auto simp: keys_unique_def marked_def)
next
  case False
  then have "claim_item i (cl_table s) = (0, cl_table s)"
    by (auto simp: claim_item_cases [OF exclusiveD(1) [OF assms(1)]] split: option.split)
  then have "s' = s\<lparr>cl_workers := (cl_workers s)(w := Looping rest)\<rparr>"
    using assms by auto
  then show ?thesis using exclusive_idle [OF assms(1)] by simp
qed

lemma exclusive_event:
  assumes "exclusive s" and "cluster_event e s = Some s'"
  shows "exclusive s'"
proof (cases e)
  case (Fetch w)
  then have "s' = s\<lparr>cl_workers := (cl_workers s)(w := Looping (find_pending (cl_table s)))\<rparr>"
    using assms(2) by (simp split: worker.splits)
  then show ?thesis using exclusive_idle [OF assms(1)] by simp
next
  case (Next w)
  then consider "cl_workers s w = Looping []" | i c rest where "cl_workers s w = Looping ((i, c) # rest)"
    using assms(2) by (auto split: worker.splits list.splits)
  then show ?thesis
  proof cases
    case 1
    then have "s' = s\<lparr>cl_workers := (cl_workers s)(w := Idle)\<rparr>"
      using assms(2) Next by simp
    then show ?thesis using exclusive_idle [OF assms(1)] by simp
  qed (use exclusive_next assms Next in blast)
next
  case (Finish w res)
  then obtain i c rest where w: "cl_workers s w = Running i c rest"
    and s': "s' = s\<lparr>cl_table := finish_item i c res (cl_table s), cl_workers := (cl_workers s)(w := Looping rest),
      cl_log := cl_log s @ [i]\<rparr>"
    using assms(2) by (auto split: worker.splits)
  show ?thesis
    unfolding s'
  proof (rule exclusive_release [OF assms(1)])
    show "keys_unique (finish_item i c res (cl_table s))"
      using exclusiveD(1) [OF assms(1)] by (simp add: finish_item_def keys_unique_def)
    fix v j assume v: "v \<noteq> w" "in_execution (cl_workers s v) = Some j"
    then have "j \<noteq> i" using exclusiveD(3) [OF assms(1), of v j w] w by auto
    with exclusiveD(2) [OF assms(1) v(2)]
    show "\<exists>r. findUnique (finish_item i c res (cl_table s)) j = Some r \<and> pcl_status r = ''PROCESSING''"
      by (simp add: finish_item_def marked_def)
  qed simp
qed

lemma exclusive_run: "run_events es s = Some s' \<Longrightarrow> exclusive s \<Longrightarrow> exclusive s'"
  by (induction es s rule: run_events.induct) (auto split: Option.bind_splits intro: exclusive_event)

section \<open>Properties\<close>

definition sample_claim :: "string \<Rightarrow> PendingClaim" where
  "sample_claim ty =
     \<lparr>pcl_userId = ''u'', pcl_type = ty,
      pcl_payload = Inr \<lparr>cp_envelopeId = ''e'', cp_code = [], cp_claimerAddress = ''a''\<rparr>,
      pcl_status = ''PENDING'', pcl_retries = 0, pcl_errorMessage = ''gas''\<rparr>"

text \<open>A single worker empties the queue: whatever the executors answer in each run, after as many
  runs with a funded relayer as there are attempts left in the queue (at most three per claim),
  no claim is waiting for a retry.\<close>

theorem single_worker_settles_queue:
  assumes "keys_unique tbl" and "queue_size tbl \<le> n"
  shows "find_pending (runs reg ans n tbl) = []"
  using runs_settle [OF assms] .

theorem single_worker_settles_queue_witness:
  "find_pending (runs \<lparr>has_envelopes = True, has_escrow = False\<rparr> (\<lambda>_ _. Inl ''no gas'') 3
     [(''p'', sample_claim ''ENVELOPE_CLAIM'')]) = []"
  using single_worker_settles_queue [of "[(''p'', sample_claim ''ENVELOPE_CLAIM'')]" 3]
  by (simp add: keys_unique_def queue_size_def attempts_left_def is_pending_def sample_claim_def)

text \<open>With any number of workers and any interleaving of their database and executor operations, no
  claim is ever executed by two workers at once, and a claim in execution is marked
  \<open>PROCESSING\<close>.\<close>

theorem workers_never_share_a_claim:
  assumes "keys_unique tbl" and "run_events es (cluster_start tbl) = Some s"
    and "cl_workers s v = Running i c xs" and "cl_workers s w = Running i d ys"
  shows "v = w \<and> (\<exists>r. findUnique (cl_table s) i = Some r \<and> pcl_status r = ''PROCESSING'')"
proof -
  have "exclusive (cluster_start tbl)" using assms(1) by (simp add: exclusive_def cluster_start_def)
  then have "exclusive s" using exclusive_run [OF assms(2)] by blast
  from exclusiveD(2) [OF this, of v i] exclusiveD(3) [OF this, of v i w] assms(3,4)
  show ?thesis by (simp add: marked_def)
qed

theorem workers_never_share_a_claim_witness:
  "\<exists>s c. run_events [Fetch 1, Fetch 2, Next 1, Next 2] (cluster_start [(''p'', sample_claim ''X'')]) = Some s \<and>
     cl_workers s 1 = Running ''p'' c [] \<and>
     (\<exists>r. findUnique (cl_table s) ''p'' = Some r \<and> pcl_status r = ''PROCESSING'')"
proof -
  have "\<exists>s. run_events [Fetch 1, Fetch 2, Next 1, Next 2] (cluster_start [(''p'', sample_claim ''X'')]) = Some s \<and>
      cl_workers s 1 = Running ''p'' (sample_claim ''X'') []"
    by (simp add: cluster_start_def find_pending_def is_pending_def sample_claim_def claim_item_def
        updateMany_def)
  then obtain s where s: "run_events [Fetch 1, Fetch 2, Next 1, Next 2] (cluster_start [(''p'', sample_claim ''X'')]) = Some s"
    "cl_workers s 1 = Running ''p'' (sample_claim ''X'') []"
    by blast
  have "keys_unique [(''p'', sample_claim ''X'')]" by (simp add: keys_unique_def)
  from workers_never_share_a_claim [OF this s(1) s(2) s(2)] s show ?thesis by blast
qed

text \<open>The bound of three retries does not hold with two workers: a worker that read the claim
  before another retried it writes back its own, older count, so that one claim is executed four
  times before it is marked \<open>FAILED\<close>.\<close>

theorem two_workers_exceed_retry_bound:
  "\<exists>es s. run_events es (cluster_start [(''p'', sample_claim ''ENVELOPE_CLAIM'')]) = Some s \<and>
     cl_log s = replicate 4 ''p'' \<and>
     map_option pcl_status (findUnique (cl_table s) ''p'') = Some ''FAILED''"
proof -
  let ?no = "Inl ''no gas'' :: string + unit"
  let ?es = "[Fetch 1, Fetch 2, Next 1, Finish 1 ?no, Next 1, Fetch 1, Next 1, Finish 1 ?no, Next 1, Fetch 1,
     Next 2, Finish 2 ?no, Next 1, Finish 1 ?no]"
  have "\<exists>s. run_events ?es (cluster_start [(''p'', sample_claim ''ENVELOPE_CLAIM'')]) = Some s \<and>
     cl_log s = replicate 4 ''p'' \<and> map_option pcl_status (findUnique (cl_table s) ''p'') = Some ''FAILED''"
    by (simp add: cluster_start_def find_pending_def is_pending_def sample_claim_def claim_item_def
        updateMany_def finish_item_def finish_row_def update_row_def findUnique_def numeral_eq_Suc)
  then show ?thesis by blast
qed

text \<open>The general fallback reports success without doing anything: when no executor is registered,
  every claim whose payload is an object is marked \<open>COMPLETED\<close> by its first turn, and no
  executor is called.\<close>

theorem unregistered_executor_completes_claims:
  assumes "keys_unique tbl" and "(i, c) \<in> set (find_pending tbl)" and "pcl_payload c = Inr p"
  shows "map_option pcl_status
           (findUnique (processPendingClaims \<lparr>has_envelopes = False, has_escrow = False\<rparr> ans False tbl) i)
         = Some ''COMPLETED'' \<and>
         snd (attempt \<lparr>has_envelopes = False, has_escrow = False\<rparr> ans c) = []"
proof -
  let ?reg = "\<lparr>has_envelopes = False, has_escrow = False\<rparr>"
  have "map_of (find_pending tbl) i = Some c"
    using assms(2) find_pending_items(1) [OF assms(1)] by simp
  moreover have "attempt ?reg ans c = (Inr (), [])" using assms(3) by (simp add: attempt_def dispatch_def)
  ultimately show ?thesis
    using fold_process [OF assms(1) find_pending_items [OF assms(1)], of ?reg ans]
    by (simp add: processPendingClaims_def turn_def finish_row_def)
qed

theorem unregistered_executor_completes_claims_witness:
  "map_option pcl_status
     (findUnique (processPendingClaims \<lparr>has_envelopes = False, has_escrow = False\<rparr> (\<lambda>_. Inl ''x'') False
        [(''p'', sample_claim ''ENVELOPE_CLAIM'')]) ''p'') = Some ''COMPLETED''"
  using unregistered_executor_completes_claims
    [of "[(''p'', sample_claim ''ENVELOPE_CLAIM'')]" "''p''" "sample_claim ''ENVELOPE_CLAIM''"]
  by (simp add: keys_unique_def find_pending_def is_pending_def sample_claim_def)


end
