(* ===== verification/Amounts.thy ===== *)
theory Amounts
  imports Backend
begin

text \<open>
  The conversions of amounts from JavaScript numbers to atomic token units: \<open>usdToAtomic\<close> of
  \<open>solana-relayer.service.ts\<close>, \<open>amountToAtomic\<close> and \<open>solToLamports\<close> of
  \<open>solana-passkey-execution.service.ts\<close>, \<open>usdcToAtomic\<close> and \<open>solToLamports\<close> of
  \<open>solana-payment-links.service.ts\<close>. They go through decimal strings: \<open>toFixed\<close>, \<open>split\<close>,
  \<open>replace\<close>, \<open>padEnd\<close> and \<open>BigInt\<close> are modelled on strings. A finite number is a rational.
\<close>

section \<open>Decimal strings\<close>

definition char_digit :: "char \<Rightarrow> nat option" where
  "char_digit c = (let k = (of_char c :: nat) in if 48 \<le> k \<and> k \<le> 57 then Some (k - 48) else None)"

fun dec_value :: "nat \<Rightarrow> string \<Rightarrow> nat option" where
  "dec_value acc [] = Some acc"
| "dec_value acc (c # s) = (case char_digit c of None \<Rightarrow> None | Some d \<Rightarrow> dec_value (10 * acc + d) s)"

text \<open>\<open>BigInt(s)\<close> on a string without sign and white space: the empty string is zero, anything that
  is not a digit is a \<open>SyntaxError\<close>, an exception that no handler turns into a client error.\<close>

definition bigint_of_dec :: "string \<Rightarrow> int http" where
  "bigint_of_dec s = (case dec_value 0 s of None \<Rightarrow> Inl (InternalError ''SyntaxError'') | Some n \<Rightarrow> Inr (int n))"

text \<open>\<open>x.toFixed(f)\<close> for \<open>0 \<le> x\<close>: the nearest multiple of \<open>10\<^sup>-\<^sup>f\<close>, the larger of two. From \<open>10\<^sup>2\<^sup>1\<close> on the
  result is in exponent notation; only that it contains a character that is no digit matters.\<close>

definition fixed_units :: "nat \<Rightarrow> rat \<Rightarrow> nat" where
  "fixed_units f x = nat \<lfloor>x * 10 ^ f + 1 / 2\<rfloor>"

definition toFixed :: "nat \<Rightarrow> rat \<Rightarrow> string" where
  "toFixed f x =
     (if 10 ^ 21 \<le> x then ''e+''
      else let n = fixed_units f x in
        show_nat (n div 10 ^ f) @
        (if f = 0 then [] else CHR ''.'' # padStart f (CHR ''0'') (show_nat (n mod 10 ^ f))))"

definition padEnd :: "nat \<Rightarrow> char \<Rightarrow> string \<Rightarrow> string" where
  "padEnd n c s = s @ replicate (n - length s) c"

text \<open>\<open>s.replace('.', '')\<close> removes the first dot; \<open>[whole, fraction = ''] = s.split('.')\<close>.\<close>

definition remove_dot :: "string \<Rightarrow> string" where
  "remove_dot s = takeWhile (\<lambda>c. c \<noteq> CHR ''.'') s @ drop 1 (dropWhile (\<lambda>c. c \<noteq> CHR ''.'') s)"

definition split_dot :: "string \<Rightarrow> string \<times> string" where
  "split_dot s =
     (takeWhile (\<lambda>c. c \<noteq> CHR ''.'') s,
      takeWhile (\<lambda>c. c \<noteq> CHR ''.'') (drop 1 (dropWhile (\<lambda>c. c \<noteq> CHR ''.'') s)))"

section \<open>The conversions\<close>

fun usdToAtomic :: "js_number \<Rightarrow> int http" where
  "usdToAtomic (JNum amount) =
     (if amount \<le> 0 then Inl (BadRequest ''Invalid USDC amount'')
      else
        let (whole, fraction) = split_dot (toFixed 6 amount) in
        bindE (bigint_of_dec whole) (\<lambda>w.
        bindE (bigint_of_dec (padEnd 6 (CHR ''0'') fraction)) (\<lambda>f.
        Inr (w * 1000000 + f))))"
| "usdToAtomic _ = Inl (BadRequest ''Invalid USDC amount'')"

fun usdcToAtomic :: "js_number \<Rightarrow> int http" where
  "usdcToAtomic (JNum amount) =
     (if amount \<le> 0 then Inl (BadRequest ''Invalid USDC amount'')
      else bigint_of_dec (remove_dot (toFixed 6 amount)))"
| "usdcToAtomic _ = Inl (BadRequest ''Invalid USDC amount'')"

fun amountToAtomic :: "js_number \<Rightarrow> int http" where
  "amountToAtomic (JNum amount) =
     (if amount \<le> 0 then Inl (BadRequest ''Amount must be positive'')
      else bigint_of_dec (remove_dot (toFixed 6 amount)))"
| "amountToAtomic _ = Inl (BadRequest ''Amount must be positive'')"

text \<open>\<open>solToLamports\<close> of the passkey service has an upper bound, that of the payment links has none.\<close>

fun solToLamports :: "js_number \<Rightarrow> int http" where
  "solToLamports (JNum amount) =
     (if amount \<le> 0 \<or> amount > 1000000 then Inl (BadRequest ''SOL amount must be positive and finite'')
      else bigint_of_dec (remove_dot (toFixed 9 amount)))"
| "solToLamports _ = Inl (BadRequest ''SOL amount must be positive and finite'')"

fun linkSolToLamports :: "js_number \<Rightarrow> int http" where
  "linkSolToLamports (JNum amount) =
     (if amount \<le> 0 then Inl (BadRequest ''Invalid SOL amount'')
      else bigint_of_dec (remove_dot (toFixed 9 amount)))"
| "linkSolToLamports _ = Inl (BadRequest ''Invalid SOL amount'')"

section \<open>Decimal digits\<close>

abbreviation digit_char :: "nat \<Rightarrow> char" where
  "digit_char d \<equiv> char_of (48 + d)"

lemma char_digit_char [simp]: "d < 10 \<Longrightarrow> char_digit (digit_char d) = Some d"
  by (simp add: char_digit_def of_char_of)

lemma digit_char_not_dot [simp]: "d < 10 \<Longrightarrow> digit_char d \<noteq> CHR ''.''"
  by (auto dest!: arg_cong [where f = "of_char :: char \<Rightarrow> nat"])

lemma dec_le_digits: "d \<in> set (dec_le n) \<Longrightarrow> d < 10"
  by (induction n rule: dec_le.induct) (subst (asm) (2) dec_le.simps, auto split: if_splits)

primrec dig_val :: "nat list \<Rightarrow> nat" where
  "dig_val [] = 0"
| "dig_val (d # ds) = d * 10 ^ length ds + dig_val ds"

lemma dig_val_append: "dig_val (xs @ ys) = dig_val xs * 10 ^ length ys + dig_val ys"
  by (induction xs) (simp_all add: power_add algebra_simps)

lemma dig_val_dec_le: "dig_val (rev (dec_le n)) = n"
  by (induction n rule: dec_le.induct) (subst dec_le.simps, simp add: dig_val_append)

lemma dec_value_digits:
  "\<forall>d \<in> set ds. d < 10 \<Longrightarrow> dec_value acc (map digit_char ds @ s) = dec_value (acc * 10 ^ length ds + dig_val ds) s"
proof (induction ds arbitrary: acc)
  case (Cons d ds)
  have "(10 * acc + d) * 10 ^ length ds + dig_val ds = acc * 10 ^ length (d # ds) + dig_val (d # ds)"
    by (simp add: algebra_simps)
  with Cons show ?case by (simp add: add.assoc)
qed simp

lemma length_show_nat: "length (show_nat n) = length (dec_le n)"
  by (simp add: show_nat_def)

lemma dec_value_show: "dec_value acc (show_nat n @ s) = dec_value (acc * 10 ^ length (show_nat n) + n) s"
  using dec_value_digits [of "rev (dec_le n)" acc s] dec_le_digits [of _ n]
  by (simp add: length_show_nat) (simp add: show_nat_def dig_val_dec_le)

lemma bigint_of_dec_show [simp]: "bigint_of_dec (show_nat n) = Inr (int n)"
  using dec_value_show [of 0 n "[]"] by (simp add: bigint_of_dec_def)

lemma dec_value_zeros: "dec_value acc (replicate k (CHR ''0'') @ s) = dec_value (acc * 10 ^ k) s"
  by (induction k arbitrary: acc) (simp_all add: char_digit_def algebra_simps)

lemma dec_le_length: "n < 10 ^ k \<Longrightarrow> 0 < k \<Longrightarrow> length (dec_le n) \<le> k"
proof (induction n arbitrary: k rule: dec_le.induct)
  case (1 n)
  show ?case
  proof (cases "n < 10")
    case False
    then obtain j where k: "k = Suc j" "0 < j"
      using 1(2,3) by (cases k; cases "k - 1") auto
    with 1(2) have "n div 10 < 10 ^ j" by (simp add: less_mult_imp_div_less mult.commute)
    with 1(1) [OF False] k show ?thesis by (subst dec_le.simps) (simp add: False)
  qed (use 1 in \<open>subst dec_le.simps, simp\<close>)
qed

lemma padStart_length: "n < 10 ^ k \<Longrightarrow> 0 < k \<Longrightarrow> length (padStart k (CHR ''0'') (show_nat n)) = k"
  using dec_le_length [of n k] by (simp add: padStart_def length_show_nat)

lemma dec_value_padStart:
  assumes "n < 10 ^ k" and "0 < k"
  shows "dec_value acc (padStart k (CHR ''0'') (show_nat n)) = Some (acc * 10 ^ k + n)"
proof -
  have "length (show_nat n) \<le> k" using dec_le_length [OF assms] by (simp add: length_show_nat)
  then have "10 ^ (k - length (show_nat n)) * 10 ^ length (show_nat n) = (10 :: nat) ^ k"
    by (simp flip: power_add)
  then show ?thesis
    using dec_value_show [of _ n "[]"] by (simp add: padStart_def dec_value_zeros mult.assoc)
qed

lemma show_nat_no_dot: "CHR ''.'' \<notin> set (show_nat n)"
  using digit_char_not_dot dec_le_digits by (auto simp: show_nat_def dest: sym)

lemma padStart_no_dot: "CHR ''.'' \<notin> set (padStart k (CHR ''0'') (show_nat n))"
  using show_nat_no_dot by (auto simp: padStart_def)

section \<open>What the conversions compute\<close>

lemma before_dot:
  assumes "CHR ''.'' \<notin> set w"
  shows "takeWhile (\<lambda>c. c \<noteq> CHR ''.'') (w @ CHR ''.'' # r) = w"
    and "dropWhile (\<lambda>c. c \<noteq> CHR ''.'') (w @ CHR ''.'' # r) = CHR ''.'' # r"
  using assms by (induction w) auto

lemma no_dot: "CHR ''.'' \<notin> set w \<Longrightarrow> takeWhile (\<lambda>c. c \<noteq> CHR ''.'') w = w"
  by (induction w) auto

lemma int_div_mod: "int (n div m) * int m + int (n mod m) = int n"
  by (metis div_mult_mod_eq of_nat_add of_nat_mult)

lemma toFixed_parts:
  assumes "x < 10 ^ 21" and "0 < f" and "n = fixed_units f x"
  shows "split_dot (toFixed f x) =
           (show_nat (n div 10 ^ f), padStart f (CHR ''0'') (show_nat (n mod 10 ^ f)))"
    and "remove_dot (toFixed f x) =
           show_nat (n div 10 ^ f) @ padStart f (CHR ''0'') (show_nat (n mod 10 ^ f))"
proof -
  let ?w = "show_nat (n div 10 ^ f)" and ?r = "padStart f (CHR ''0'') (show_nat (n mod 10 ^ f))"
  have t: "toFixed f x = ?w @ CHR ''.'' # ?r" using assms by (simp add: toFixed_def Let_def)
  have w: "takeWhile (\<lambda>c. c \<noteq> CHR ''.'') (?w @ CHR ''.'' # ?r) = ?w"
    "dropWhile (\<lambda>c. c \<noteq> CHR ''.'') (?w @ CHR ''.'' # ?r) = CHR ''.'' # ?r"
    by (rule before_dot, rule show_nat_no_dot) (rule before_dot, rule show_nat_no_dot)
  have "takeWhile (\<lambda>c. c \<noteq> CHR ''.'') ?r = ?r" by (rule no_dot, rule padStart_no_dot)
  with t w show "split_dot (toFixed f x) = (?w, ?r)" and "remove_dot (toFixed f x) = ?w @ ?r"
    by (simp_all add: split_dot_def remove_dot_def)
qed

lemma bigint_remove_dot:
  assumes "x < 10 ^ 21" and "0 < f"
  shows "bigint_of_dec (remove_dot (toFixed f x)) = Inr (int (fixed_units f x))"
  using assms int_div_mod [of "fixed_units f x" "10 ^ f"]
  by (simp add: toFixed_parts bigint_of_dec_def dec_value_show dec_value_padStart)

lemma bigint_exponent: "10 ^ 21 \<le> x \<Longrightarrow> bigint_of_dec (remove_dot (toFixed f x)) = Inl (InternalError ''SyntaxError'')"
  by (simp add: toFixed_def remove_dot_def bigint_of_dec_def char_digit_def)

lemma usdToAtomic_split:
  assumes "0 < x" and "x < 10 ^ 21"
  shows "usdToAtomic (JNum x) = Inr (int (fixed_units 6 x))"
proof -
  let ?n = "fixed_units 6 x"
  have "padEnd 6 (CHR ''0'') (padStart 6 (CHR ''0'') (show_nat (?n mod 10 ^ 6))) =
      padStart 6 (CHR ''0'') (show_nat (?n mod 10 ^ 6))"
    using padStart_length [of "?n mod 10 ^ 6" 6] by (simp add: padEnd_def)
  moreover have "bigint_of_dec (padStart 6 (CHR ''0'') (show_nat (?n mod 10 ^ 6))) = Inr (int (?n mod 10 ^ 6))"
    using dec_value_padStart [of "?n mod 10 ^ 6" 6 0] by (simp add: bigint_of_dec_def)
  moreover have "int (?n div 10 ^ 6) * 1000000 + int (?n mod 10 ^ 6) = int ?n"
    using int_div_mod [of ?n "10 ^ 6"] by simp
  ultimately show ?thesis using assms by (simp add: toFixed_parts)
qed

lemma scale_half:
  fixes k x :: rat
  shows "\<bar>k - x * 10 ^ f\<bar> \<le> 1 / 2 \<Longrightarrow> \<bar>k / 10 ^ f - x\<bar> \<le> 1 / (2 * 10 ^ f)"
  by (simp add: abs_le_iff field_simps)

lemma fixed_units_bounds:
  assumes "0 < x"
  shows "\<bar>of_nat (fixed_units f x) / 10 ^ f - x\<bar> \<le> 1 / (2 * 10 ^ f)"
proof -
  let ?y = "x * 10 ^ f + 1 / 2"
  have "0 \<le> \<lfloor>?y\<rfloor>" using assms by simp
  then have n: "(of_nat (fixed_units f x) :: rat) = of_int \<lfloor>?y\<rfloor>"
    by (simp add: fixed_units_def)
  have "of_int \<lfloor>?y\<rfloor> \<le> ?y" "?y < of_int \<lfloor>?y\<rfloor> + 1" by linarith+
  then have "\<bar>of_int \<lfloor>?y\<rfloor> - x * 10 ^ f\<bar> \<le> 1 / 2" by linarith
  then show ?thesis unfolding n by (rule scale_half)
qed

lemma removing_dot_conversion:
  assumes "0 < f"
  shows "bigint_of_dec (remove_dot (toFixed f x)) =
     (if x < 10 ^ 21 then Inr (int (fixed_units f x)) else Inl (InternalError ''SyntaxError''))"
  using assms bigint_remove_dot [of x f] bigint_exponent [of x f] by (simp add: not_less)

lemma usdToAtomic_exponent: "10 ^ 21 \<le> x \<Longrightarrow> usdToAtomic (JNum x) = Inl (InternalError ''SyntaxError'')"
  by (simp add: toFixed_def split_dot_def bigint_of_dec_def char_digit_def)

lemma usdToAtomic_cases:
  "usdToAtomic (JNum x) =
     (if x \<le> 0 then Inl (BadRequest ''Invalid USDC amount'')
      else if x < 10 ^ 21 then Inr (int (fixed_units 6 x)) else Inl (InternalError ''SyntaxError''))"
  using usdToAtomic_split [of x] usdToAtomic_exponent [of x] by (cases "x \<le> 0") (simp_all add: not_less)

lemmas atomic_cases = usdToAtomic_cases removing_dot_conversion [of 6] removing_dot_conversion [of 9]

section \<open>Properties\<close>

text \<open>The three conversions of USDC amounts, written once with \<open>split\<close> and \<open>padEnd\<close> and twice with
  \<open>replace\<close>, accept the same numbers, the positive ones below \<open>10\<^sup>2\<^sup>1\<close>, and give the same number of
  atomic units, within half a unit of the exact amount; the two conversions of SOL amounts agree
  where the bounded one accepts.\<close>

theorem atomic_conversions_agree:
  "(case usdToAtomic a of
      Inr n \<Rightarrow> usdcToAtomic a = Inr n \<and> amountToAtomic a = Inr n \<and>
        (\<exists>x. a = JNum x \<and> 0 < x \<and> x < 10 ^ 21 \<and> 0 \<le> n \<and> \<bar>of_int n / 10 ^ 6 - x\<bar> \<le> 1 / (2 * 10 ^ 6))
    | Inl e \<Rightarrow> usdcToAtomic a = Inl e \<and> failed (amountToAtomic a) \<and>
        \<not> (\<exists>x. a = JNum x \<and> 0 < x \<and> x < 10 ^ 21)) \<and>
   (case solToLamports a of
      Inr n \<Rightarrow> linkSolToLamports a = Inr n \<and>
        (\<exists>x. a = JNum x \<and> 0 < x \<and> x \<le> 1000000 \<and> 0 \<le> n \<and> \<bar>of_int n / 10 ^ 9 - x\<bar> \<le> 1 / (2 * 10 ^ 9))
    | Inl e \<Rightarrow> \<not> (\<exists>x. a = JNum x \<and> 0 < x \<and> x \<le> 1000000))"
proof (cases a)
  case (JNum x)
  have "x \<le> 1000000 \<Longrightarrow> x < 10 ^ 21" by simp
  with fixed_units_bounds [of x 6] fixed_units_bounds [of x 9] JNum show ?thesis
    by (auto simp: atomic_cases simp del: usdToAtomic.simps power_numeral)
qed simp_all


end
