(* ===== verification/Prepared.thy ===== *)
theory Prepared
  imports Amounts
begin

text \<open>
  The approvals that \<open>backend/src/relayer/solana-passkey-execution.service.ts\<close> keeps in Redis between the
  preparation of an action and its signature: the record and how its payload is read back. A payload
  is a JSON object; the only number it holds is the action bitmap, so its numbers are integers.
\<close>

section \<open>Records\<close>

datatype json_scalar = PStr string | PNumber int | PBool bool

datatype ActionKind = Kind_transfer | Kind_sol_transfer | Kind_sol_payment_link | Kind_sol_payment_link_cancel | Kind_session_grant

record PreparedAction =
  pa_userId :: string
  pa_vaultAddress :: string
  pa_challengeB64Url :: string
  pa_kind :: ActionKind
  pa_expiresAtUnix :: string
  pa_payload :: "(string \<times> json_scalar) list"
  pa_sessionKeyId :: "string option"

section \<open>Reading a payload\<close>

text \<open>The decimal form of a bigint, and \<open>BigInt(s)\<close> on a decimal literal with an optional sign.\<close>

definition show_bigint :: "int \<Rightarrow> string" where
  "show_bigint i = (if i < 0 then CHR ''-'' # show_nat (nat (- i)) else show_nat (nat i))"

definition bigint_of_text :: "string \<Rightarrow> int http" where
  "bigint_of_text s =
     (case s of
        [] \<Rightarrow> Inr 0
      | c # cs \<Rightarrow>
          if c = CHR ''-''
          then if cs = [] then Inl (InternalError ''SyntaxError'') else bindE (bigint_of_dec cs) (\<lambda>i. Inr (- i))
          else bigint_of_dec s)"

text \<open>\<open>String(payload.x)\<close>, \<open>Number(payload.x)\<close> and the truth value of \<open>payload.x\<close>.\<close>

definition payload_text :: "(string \<times> json_scalar) list \<Rightarrow> string \<Rightarrow> string" where
  "payload_text p k =
     (case map_of p k of
        Some (PStr s) \<Rightarrow> s
      | Some (PNumber i) \<Rightarrow> show_bigint i
      | Some (PBool b) \<Rightarrow> if b then ''true'' else ''false''
      | None \<Rightarrow> ''undefined'')"

definition payload_number :: "(string \<times> json_scalar) list \<Rightarrow> string \<Rightarrow> js_number" where
  "payload_number p k =
     (case map_of p k of
        Some (PStr s) \<Rightarrow> (case bigint_of_text s of Inr i \<Rightarrow> JNum (of_int i) | Inl _ \<Rightarrow> JNaN)
      | Some (PNumber i) \<Rightarrow> JNum (of_int i)
      | Some (PBool b) \<Rightarrow> JNum (if b then 1 else 0)
      | None \<Rightarrow> JNaN)"

definition payload_flag :: "(string \<times> json_scalar) list \<Rightarrow> string \<Rightarrow> bool" where
  "payload_flag p k =
     (case map_of p k of
        Some (PStr s) \<Rightarrow> s \<noteq> []
      | Some (PNumber i) \<Rightarrow> i \<noteq> 0
      | Some (PBool b) \<Rightarrow> b
      | None \<Rightarrow> False)"

definition payload_bigint :: "(string \<times> json_scalar) list \<Rightarrow> string \<Rightarrow> int http" where
  "payload_bigint p k = bigint_of_text (payload_text p k)"

section \<open>Facts\<close>

lemma show_nat_first: "\<exists>c cs. show_nat n = c # cs \<and> c \<noteq> CHR ''-''"
proof -
  have "rev (dec_le n) \<noteq> []" by (subst dec_le.simps) simp
  then obtain d ds where d: "rev (dec_le n) = d # ds" by (cases "rev (dec_le n)") auto
  then have "d < 10" using dec_le_digits [of d n] by (metis list.set_intros(1) set_rev)
  then have "digit_char d \<noteq> CHR ''-''" by (auto dest!: arg_cong [where f = "of_char :: char \<Rightarrow> nat"])
  then show ?thesis by (simp add: show_nat_def d)
qed

lemma bigint_round_trip [simp]: "bigint_of_text (show_bigint i) = Inr i"
proof (cases "i < 0")
  case True
  moreover obtain c cs where "show_nat (nat (- i)) = c # cs" using show_nat_first by blast
  ultimately show ?thesis using bigint_of_dec_show [of "nat (- i)"] by (simp add: show_bigint_def bigint_of_text_def)
next
  case False
  obtain c cs where c: "show_nat (nat i) = c # cs" "c \<noteq> CHR ''-''" using show_nat_first by blast
  with False bigint_of_dec_show [of "nat i"] show ?thesis by (simp add: show_bigint_def bigint_of_text_def)
qed

lemma payload_simps [simp]:
  "payload_text ((k, PStr s) # p) k = s"
  "k \<noteq> k' \<Longrightarrow> payload_text ((k', v) # p) k = payload_text p k"
  "payload_bigint ((k, PStr (show_bigint i)) # p) k = Inr i"
  "k \<noteq> k' \<Longrightarrow> payload_bigint ((k', v) # p) k = payload_bigint p k"
  "payload_number ((k, PNumber i) # p) k = JNum (of_int i)"
  "k \<noteq> k' \<Longrightarrow> payload_number ((k', v) # p) k = payload_number p k"
  "payload_flag ((k, PBool b) # p) k = b"
  "k \<noteq> k' \<Longrightarrow> payload_flag ((k', v) # p) k = payload_flag p k"
  by (simp_all add: payload_text_def payload_bigint_def payload_number_def payload_flag_def)

end
