(* ===== verification/HotState.thy ===== *)
theory HotState
  imports Prepared Dates
begin

text \<open>
  \<open>backend/src/core/redis.service.ts\<close> and \<open>hot-state.service.ts\<close>: the shared Redis store and the
  caches of session keys, handles, spending counters and idempotency keys kept in it. Redis keys
  carry their expiry; a read at or after it finds nothing. The locale \<open>expiring_store\<close> is what the
  caches rely on; it is interpreted on the model of the Redis commands.
\<close>

section \<open>Redis\<close>

text \<open>What the service writes: plain text, the decimal form of a number, and the JSON forms of the
  cached objects. The rounding of Lua's \<open>tostring\<close> is not represented.\<close>

record CachedSessionKey =
  sk_id :: string
  sk_userId :: string
  sk_keyHash :: string
  sk_encryptedKey :: string
  sk_encryptedSymmetricKey :: "string option"
  sk_perTxLimitUSD :: rat
  sk_dailyLimitUSD :: rat
  sk_expiryAt :: date
  sk_revokedAt :: "date option"

datatype rvalue =
    RText string
  | RNumber rat
  | RSpend rat
  | RSession CachedSessionKey
  | RString string
  | RIdem "string option"
  | RPrepared PreparedAction

type_synonym redis = "string \<rightharpoonup> (rvalue \<times> date option)"

definition live :: "date \<Rightarrow> (rvalue \<times> date option) option \<Rightarrow> (rvalue \<times> date option) option" where
  "live now e =
     (case e of
        Some (v, Some x) \<Rightarrow> if now < x then e else None
      | _ \<Rightarrow> e)"

definition redis_get :: "date \<Rightarrow> string \<Rightarrow> redis \<Rightarrow> rvalue option" where
  "redis_get now k s = map_option fst (live now (s k))"

definition redis_set_px :: "date \<Rightarrow> string \<Rightarrow> rvalue \<Rightarrow> int \<Rightarrow> redis \<Rightarrow> redis" where
  "redis_set_px now k v ttl s = s(k \<mapsto> (v, Some (now + ttl)))"

definition redis_del :: "string \<Rightarrow> redis \<Rightarrow> redis" where
  "redis_del k s = s(k := None)"

text \<open>\<open>PTTL\<close>: -2 for a missing key, -1 for one without expiry.\<close>

definition redis_pttl :: "date \<Rightarrow> string \<Rightarrow> redis \<Rightarrow> int" where
  "redis_pttl now k s =
     (case live now (s k) of None \<Rightarrow> -2 | Some (_, None) \<Rightarrow> -1 | Some (_, Some x) \<Rightarrow> x - now)"

section \<open>redis.service.ts\<close>

definition claimOnce :: "date \<Rightarrow> string \<Rightarrow> int \<Rightarrow> redis \<Rightarrow> bool \<times> redis" where
  "claimOnce now key ttlSeconds s =
     (if redis_get now key s = None then (True, redis_set_px now key (RText ''1'') (ttlSeconds * 1000) s)
      else (False, s))"

definition redis_exists :: "date \<Rightarrow> string \<Rightarrow> redis \<Rightarrow> bool" where
  "redis_exists now key s \<longleftrightarrow> redis_get now key s \<noteq> None"

definition setValue :: "date \<Rightarrow> string \<Rightarrow> string \<Rightarrow> int \<Rightarrow> redis \<Rightarrow> redis" where
  "setValue now key v ttlSeconds s = redis_set_px now key (RText v) (ttlSeconds * 1000) s"

definition setJson :: "date \<Rightarrow> string \<Rightarrow> rvalue \<Rightarrow> int \<Rightarrow> redis \<Rightarrow> redis" where
  "setJson now key v ttlMs s = redis_set_px now key v ttlMs s"

definition getJson :: "date \<Rightarrow> string \<Rightarrow> redis \<Rightarrow> rvalue option" where
  "getJson now key s = redis_get now key s"

definition takeJson :: "date \<Rightarrow> string \<Rightarrow> redis \<Rightarrow> rvalue option \<times> redis" where
  "takeJson now key s = (redis_get now key s, redis_del key s)"

definition delByPrefix :: "string \<Rightarrow> redis \<Rightarrow> redis" where
  "delByPrefix prefix s = (\<lambda>k. if startsWith k prefix then None else s k)"

text \<open>The throttle counter. \<open>online\<close> is whether Redis answers; when it does not, the keys whose
  rate limit is the security control fail closed and the others fail open.\<close>

record ThrottlerStorageRecord =
  totalHits :: int
  timeToExpire :: int
  isBlocked :: bool
  timeToBlockExpire :: int

definition contains_ci :: "string \<Rightarrow> string \<Rightarrow> bool" where
  "contains_ci needle s \<longleftrightarrow>
     list_ex (\<lambda>i. startsWith (drop i (toLowerCase s)) needle) [0..<Suc (length s)]"

definition RATE_LIMIT_CRITICAL :: "string \<Rightarrow> bool" where
  "RATE_LIMIT_CRITICAL key \<longleftrightarrow>
     list_ex (\<lambda>w. contains_ci w key) [''otp'', ''challenge'', ''verify'', ''login'', ''auth'']"

definition ceil_div :: "int \<Rightarrow> int \<Rightarrow> int" where
  "ceil_div a b = - ((- a) div b)"

definition increment :: "bool \<Rightarrow> date \<Rightarrow> string \<Rightarrow> int \<Rightarrow> redis \<Rightarrow> (ThrottlerStorageRecord, redis) outcome" where
  "increment online now key ttl s =
     (if \<not> online then
        (if RATE_LIMIT_CRITICAL key
         then (Inl (ServiceUnavailable ''This service is temporarily unavailable. Please try again shortly.''), s)
         else (Inr \<lparr>totalHits = 0, timeToExpire = ceil_div ttl 1000, isBlocked = False, timeToBlockExpire = 0\<rparr>, s))
      else
        let k = ''throttle:'' @ key;
            hits = (case redis_get now k s of Some (RNumber n) \<Rightarrow> n + 1 | _ \<Rightarrow> 1);
            s' = (if hits = 1 then redis_set_px now k (RNumber 1) ttl s
                  else s(k := map_option (\<lambda>(_, x). (RNumber hits, x)) (s k)));
            remaining = redis_pttl now k s'
        in (Inr \<lparr>totalHits = \<lfloor>hits\<rfloor>, timeToExpire = max 0 (ceil_div remaining 1000),
                 isBlocked = False, timeToBlockExpire = 0\<rparr>, s'))"

text \<open>The Lua script of \<open>atomicCheckAndIncrementSpend\<close>, one atomic step of Redis.\<close>

definition spent_value :: "rvalue option \<Rightarrow> rat" where
  "spent_value v = (case v of Some (RNumber n) \<Rightarrow> n | Some (RSpend n) \<Rightarrow> n | _ \<Rightarrow> 0)"

definition atomicCheckAndIncrementSpend ::
    "date \<Rightarrow> string \<Rightarrow> rat \<Rightarrow> rat \<Rightarrow> int \<Rightarrow> redis \<Rightarrow> (bool \<times> rat \<times> rat) \<times> redis" where
  "atomicCheckAndIncrementSpend now key txAmountUSD dailyLimitUSD ttlMs s =
     (let currentSpent = spent_value (redis_get now key s) in
      if currentSpent + txAmountUSD > dailyLimitUSD then ((False, currentSpent, currentSpent), s)
      else
        let newTotal = currentSpent + txAmountUSD;
            pttl = redis_pttl now key s;
            s' = redis_set_px now key (RNumber newTotal) (if pttl > 0 then pttl else ttlMs) s
        in ((True, currentSpent, newTotal), s'))"

section \<open>hot-state.service.ts\<close>

definition SK_PREFIX :: string where "SK_PREFIX = ''hotstate:sk:''"
definition H2A_PREFIX :: string where "H2A_PREFIX = ''hotstate:h2a:''"
definition A2H_PREFIX :: string where "A2H_PREFIX = ''hotstate:a2h:''"
definition SPEND_PREFIX :: string where "SPEND_PREFIX = ''hotstate:spend:''"
definition IDEM_PREFIX :: string where "IDEM_PREFIX = ''hotstate:idem:''"

text \<open>\<open>checkAndSetIdempotencyKey\<close> is a read and, when it finds nothing, a write: two commands, so
  that another request can come between them. The result is \<open>Some cachedResult\<close> for a duplicate.\<close>

definition idem_read :: "date \<Rightarrow> string \<Rightarrow> redis \<Rightarrow> string option option" where
  "idem_read now key s =
     (case getJson now (IDEM_PREFIX @ key) s of Some (RIdem r) \<Rightarrow> Some r | _ \<Rightarrow> None)"

definition idem_write :: "date \<Rightarrow> string \<Rightarrow> int \<Rightarrow> redis \<Rightarrow> redis" where
  "idem_write now key ttlSeconds s = setJson now (IDEM_PREFIX @ key) (RIdem None) (ttlSeconds * 1000) s"

definition checkAndSetIdempotencyKey ::
    "date \<Rightarrow> string \<Rightarrow> int \<Rightarrow> redis \<Rightarrow> string option option \<times> redis" where
  "checkAndSetIdempotencyKey now key ttlSeconds s =
     (case idem_read now key s of
        Some r \<Rightarrow> (Some r, s)
      | None \<Rightarrow> (None, idem_write now key ttlSeconds s))"

definition saveIdempotencyResult :: "date \<Rightarrow> string \<Rightarrow> string \<Rightarrow> redis \<Rightarrow> redis" where
  "saveIdempotencyResult now key result s =
     setJson now (IDEM_PREFIX @ key) (RIdem (Some result)) 300000 s"

definition normalizeHandle :: "string \<Rightarrow> string" where
  "normalizeHandle handle = strip_at (trim handle)"

definition string_value :: "rvalue option \<Rightarrow> string option" where
  "string_value v = (case v of Some (RString x) \<Rightarrow> if x = [] then None else Some x | _ \<Rightarrow> None)"

definition resolveHandle :: "date \<Rightarrow> string \<Rightarrow> redis \<Rightarrow> string option" where
  "resolveHandle now handle s =
     (if handle = [] then None
      else string_value (getJson now (H2A_PREFIX @ normalizeHandle handle) s))"

definition getHandleForAddress :: "date \<Rightarrow> string \<Rightarrow> redis \<Rightarrow> string option" where
  "getHandleForAddress now address s =
     (if address = [] then None else string_value (getJson now (A2H_PREFIX @ toLowerCase address) s))"

definition HANDLE_TTL :: int where "HANDLE_TTL = 86400000 * 30"

definition setHandleMapping :: "date \<Rightarrow> string \<Rightarrow> string \<Rightarrow> redis \<Rightarrow> redis" where
  "setHandleMapping now handle address s =
     (if handle = [] \<or> address = [] then s
      else
        let displayHandle = (if startsWith handle ''@'' then handle else CHR ''@'' # handle) in
        setJson now (A2H_PREFIX @ toLowerCase address) (RString displayHandle) HANDLE_TTL
          (setJson now (H2A_PREFIX @ normalizeHandle handle) (RString address) HANDLE_TTL s))"

definition getSessionKey :: "date \<Rightarrow> string \<Rightarrow> redis \<Rightarrow> CachedSessionKey option \<times> redis" where
  "getSessionKey now keyHash s =
     (case getJson now (SK_PREFIX @ keyHash) s of
        Some (RSession key) \<Rightarrow>
          if sk_revokedAt key \<noteq> None \<or> sk_expiryAt key < now
          then (None, redis_del (SK_PREFIX @ keyHash) s)
          else (Some key, s)
      | _ \<Rightarrow> (None, s))"

definition setSessionKey :: "date \<Rightarrow> CachedSessionKey \<Rightarrow> redis \<Rightarrow> redis" where
  "setSessionKey now keyData s =
     (let ttlMs = sk_expiryAt keyData - now in
      if ttlMs \<le> 0 then s else setJson now (SK_PREFIX @ sk_keyHash keyData) (RSession keyData) ttlMs s)"

definition revokeSessionKey :: "string \<Rightarrow> redis \<Rightarrow> redis" where
  "revokeSessionKey keyHash s = redis_del (SK_PREFIX @ keyHash) s"

datatype spend_refusal = BadSession | OverTxLimit rat rat | OverDailyLimit rat rat

definition validateAndRecordSpending ::
    "date \<Rightarrow> string \<Rightarrow> rat \<Rightarrow> rat \<Rightarrow> rat \<Rightarrow> redis \<Rightarrow> (spend_refusal + unit) \<times> redis" where
  "validateAndRecordSpending now sessionKeyHash txAmountUSD perTxLimitUSD dailyLimitUSD s =
     (case getSessionKey now sessionKeyHash s of
        (None, s1) \<Rightarrow> (Inl BadSession, s1)
      | (Some session, s1) \<Rightarrow>
          if txAmountUSD > perTxLimitUSD then (Inl (OverTxLimit txAmountUSD perTxLimitUSD), s1)
          else
            let ((allowed, currentSpent, newTotal), s2) =
              atomicCheckAndIncrementSpend now (SPEND_PREFIX @ sk_id session) txAmountUSD dailyLimitUSD 86400000 s1
            in if \<not> allowed then (Inl (OverDailyLimit (currentSpent + txAmountUSD) dailyLimitUSD), s2)
               else (Inr (), s2))"

text \<open>The warm-up: the rows it reads, and the writes it does with them, in order.\<close>

record hot_user =
  hu_username :: "string option"
  hu_telegramId :: "string option"
  hu_whatsappId :: "string option"
  hu_discordId :: "string option"
  hu_slackId :: "string option"
  hu_address :: "string option"

record social_node =
  sn_username :: "string option"
  sn_platformUserId :: string
  sn_address :: "string option"

record hot_db =
  hd_users :: "hot_user list"
  hd_nodes :: "social_node list"
  hd_sessionKeys :: "CachedSessionKey list"
  hd_spending :: "(string \<times> date \<times> rat) list"

definition truthy :: "string option \<Rightarrow> bool" where
  "truthy x \<longleftrightarrow> (case x of Some v \<Rightarrow> v \<noteq> [] | None \<Rightarrow> False)"

definition handle_write :: "string \<Rightarrow> string option \<Rightarrow> (string \<times> rvalue \<times> int) list" where
  "handle_write addr h =
     (if truthy h then [(H2A_PREFIX @ normalizeHandle (the h), RString addr, HANDLE_TTL)] else [])"

definition user_writes :: "hot_user \<Rightarrow> (string \<times> rvalue \<times> int) list" where
  "user_writes u =
     (if \<not> truthy (hu_address u) then []
      else
        let addr = the (hu_address u);
            primaryHandle =
              (if truthy (hu_username u) then CHR ''@'' # the (hu_username u)
               else if truthy (hu_telegramId u) then CHR ''@'' # the (hu_telegramId u)
               else if truthy (hu_whatsappId u) then the (hu_whatsappId u) else addr)
        in (A2H_PREFIX @ toLowerCase addr, RString primaryHandle, HANDLE_TTL) #
           handle_write addr (hu_username u) @ handle_write addr (hu_telegramId u) @
           handle_write addr (hu_whatsappId u) @ handle_write addr (hu_discordId u) @
           handle_write addr (hu_slackId u))"

definition node_writes :: "social_node \<Rightarrow> (string \<times> rvalue \<times> int) list" where
  "node_writes n =
     (if \<not> truthy (sn_address n) then []
      else
        let addr = the (sn_address n);
            handle =
              (if truthy (sn_username n)
               then (if startsWith (the (sn_username n)) ''@'' then the (sn_username n)
                     else CHR ''@'' # the (sn_username n))
               else sn_platformUserId n)
        in (A2H_PREFIX @ toLowerCase addr, RString handle, HANDLE_TTL) #
           handle_write addr (sn_username n) @ handle_write addr (Some (sn_platformUserId n)))"

definition session_writes :: "date \<Rightarrow> CachedSessionKey list \<Rightarrow> (string \<times> rvalue \<times> int) list" where
  "session_writes now ks =
     map (\<lambda>k. (SK_PREFIX @ sk_keyHash k, RSession k, sk_expiryAt k - now))
       (filter (\<lambda>k. sk_revokedAt k = None \<and> now < sk_expiryAt k) ks)"

fun group_sums :: "(string \<times> rat) list \<Rightarrow> (string \<times> rat) list" where
  "group_sums [] = []"
| "group_sums ((k, v) # xs) =
     (k, v + sum_list (map snd (filter (\<lambda>(j, w). j = k) xs))) #
     group_sums (filter (\<lambda>(j, w). j \<noteq> k) xs)"

definition spend_writes :: "date \<Rightarrow> (string \<times> date \<times> rat) list \<Rightarrow> (string \<times> rvalue \<times> int) list" where
  "spend_writes now rows =
     map (\<lambda>(k, v). (SPEND_PREFIX @ k, RSpend v, 86400000))
       (group_sums (map (\<lambda>(k, t, v). (k, v)) (filter (\<lambda>(k, t, v). now - 24 * 60 * 60 * 1000 \<le> t) rows)))"

definition write_all :: "date \<Rightarrow> (string \<times> rvalue \<times> int) list \<Rightarrow> redis \<Rightarrow> redis" where
  "write_all now ws s = fold (\<lambda>(k, v, ttl). setJson now k v ttl) ws s"

definition onModuleInit :: "date \<Rightarrow> hot_db \<Rightarrow> redis \<Rightarrow> redis" where
  "onModuleInit now db s =
     write_all now
       (concat (map user_writes (hd_users db)) @ concat (map node_writes (hd_nodes db)) @
        session_writes now (hd_sessionKeys db) @ spend_writes now (hd_spending db))
       (delByPrefix ''hotstate:'' s)"

section \<open>The store as an interface\<close>

locale expiring_store =
  fixes get :: "date \<Rightarrow> 'k \<Rightarrow> 's \<Rightarrow> 'v option"
    and put :: "date \<Rightarrow> 'k \<Rightarrow> 'v \<Rightarrow> int \<Rightarrow> 's \<Rightarrow> 's"
    and del :: "'k \<Rightarrow> 's \<Rightarrow> 's"
  assumes get_put: "get n k (put m j v ttl s) = (if k = j then (if n < m + ttl then Some v else None) else get n k s)"
    and get_del: "get n k (del j s) = (if k = j then None else get n k s)"
begin

lemma get_fold_other:
  "k \<notin> fst ` set ws \<Longrightarrow> get n k (fold (\<lambda>(j, v, ttl). put m j v ttl) ws s) = get n k s"
  by (induction ws arbitrary: s) (auto simp: get_put)

lemma get_fold_distinct:
  assumes "distinct (map fst ws)" and "(k, v, ttl) \<in> set ws"
  shows "get n k (fold (\<lambda>(j, v, ttl). put m j v ttl) ws s) = (if n < m + ttl then Some v else None)"
  using assms
proof (induction ws arbitrary: s)
  case (Cons w ws)
  obtain j u tt where w: "w = (j, u, tt)" by (cases w) auto
  show ?case
  proof (cases "(k, v, ttl) = w")
    case True
    then show ?thesis using Cons.prems(1) w by (simp add: get_fold_other get_put)
  next
    case False
    then have "(k, v, ttl) \<in> set ws" using Cons.prems(2) by auto
    then show ?thesis using Cons.IH Cons.prems(1) w by simp
  qed
qed simp

end

interpretation redis: expiring_store redis_get redis_set_px redis_del
  by unfold_locales (auto simp: redis_get_def redis_set_px_def redis_del_def live_def)

lemmas store_defs = setJson_def getJson_def

lemma write_all_append: "write_all now (xs @ ys) s = write_all now ys (write_all now xs s)"
  by (simp add: write_all_def)

lemma write_all_redis: "write_all now ws s = fold (\<lambda>(j, v, ttl). redis_set_px now j v ttl) ws s"
  by (simp add: write_all_def setJson_def [abs_def])

text \<open>The five families of keys are disjoint.\<close>

lemma prefixes [simp]:
  "SK_PREFIX @ a \<noteq> H2A_PREFIX @ b" "SK_PREFIX @ a \<noteq> A2H_PREFIX @ b" "SK_PREFIX @ a \<noteq> SPEND_PREFIX @ b"
  "SPEND_PREFIX @ a \<noteq> SK_PREFIX @ b" "SPEND_PREFIX @ a \<noteq> H2A_PREFIX @ b" "SPEND_PREFIX @ a \<noteq> A2H_PREFIX @ b"
  "H2A_PREFIX @ a \<noteq> A2H_PREFIX @ b" "A2H_PREFIX @ a \<noteq> H2A_PREFIX @ b"
  "H2A_PREFIX @ a \<noteq> SK_PREFIX @ b" "A2H_PREFIX @ a \<noteq> SK_PREFIX @ b"
  by (simp_all add: SK_PREFIX_def H2A_PREFIX_def A2H_PREFIX_def SPEND_PREFIX_def)

lemma handle_write_keys: "SK_PREFIX @ h \<notin> fst ` set (handle_write a x)"
  by (cases "truthy x") (simp_all add: handle_write_def)

lemma user_write_keys: "SK_PREFIX @ h \<notin> fst ` set (user_writes u)"
  using handle_write_keys unfolding user_writes_def Let_def by (simp add: image_Un)

lemma node_write_keys: "SK_PREFIX @ h \<notin> fst ` set (node_writes n)"
  using handle_write_keys unfolding node_writes_def Let_def by (simp add: image_Un)

section \<open>Sessions after the warm-up\<close>

lemma session_after_warmup:
  assumes "distinct (map sk_keyHash (hd_sessionKeys db))"
  shows "redis_get n (SK_PREFIX @ h) (onModuleInit now db s) =
    (case find (\<lambda>k. sk_keyHash k = h \<and> sk_revokedAt k = None \<and> now < sk_expiryAt k) (hd_sessionKeys db) of
       Some k \<Rightarrow> if n < sk_expiryAt k then Some (RSession k) else None
     | None \<Rightarrow> None)"
proof -
  let ?ks = "filter (\<lambda>k. sk_revokedAt k = None \<and> now < sk_expiryAt k) (hd_sessionKeys db)"
  let ?pre = "concat (map user_writes (hd_users db)) @ concat (map node_writes (hd_nodes db))"
  let ?s1 = "write_all now ?pre (delByPrefix ''hotstate:'' s)"
  let ?s2 = "write_all now (session_writes now (hd_sessionKeys db)) ?s1"
  have pre: "SK_PREFIX @ h \<notin> fst ` set ?pre"
    using user_write_keys node_write_keys by (simp add: image_Un image_UN)
  have post: "SK_PREFIX @ h \<notin> fst ` set (spend_writes now (hd_spending db))"
    by (auto simp: spend_writes_def)
  have "redis_get n (SK_PREFIX @ h) (onModuleInit now db s) = redis_get n (SK_PREFIX @ h) ?s2"
    using redis.get_fold_other [OF post] by (simp add: onModuleInit_def write_all_append write_all_redis)
  also have "\<dots> = (case find (\<lambda>k. sk_keyHash k = h \<and> sk_revokedAt k = None \<and> now < sk_expiryAt k) (hd_sessionKeys db) of
       Some k \<Rightarrow> if n < sk_expiryAt k then Some (RSession k) else None
     | None \<Rightarrow> None)"
  proof (cases "find (\<lambda>k. sk_keyHash k = h \<and> sk_revokedAt k = None \<and> now < sk_expiryAt k) (hd_sessionKeys db)")
    case None
    then have "SK_PREFIX @ h \<notin> fst ` set (session_writes now (hd_sessionKeys db))"
      by (auto simp: session_writes_def find_None_iff)
    then have "redis_get n (SK_PREFIX @ h) ?s2 = redis_get n (SK_PREFIX @ h) ?s1"
      by (simp add: write_all_redis redis.get_fold_other)
    also have "\<dots> = redis_get n (SK_PREFIX @ h) (delByPrefix ''hotstate:'' s)"
      using redis.get_fold_other [OF pre] by (simp add: write_all_redis)
    also have "\<dots> = None"
      by (simp add: redis_get_def delByPrefix_def live_def startsWith_def SK_PREFIX_def)
    finally show ?thesis using None by simp
  next
    case (Some k)
    then have k: "k \<in> set ?ks" "sk_keyHash k = h" by (auto simp: find_Some_iff)
    have "distinct (map fst (session_writes now (hd_sessionKeys db)))"
      using assms by (auto simp: session_writes_def comp_def distinct_map inj_on_def)
    moreover have "(SK_PREFIX @ h, RSession k, sk_expiryAt k - now) \<in> set (session_writes now (hd_sessionKeys db))"
      using k by (auto simp: session_writes_def)
    ultimately show ?thesis
      using redis.get_fold_distinct Some by (simp add: write_all_redis)
  qed
  finally show ?thesis .
qed

section \<open>Spending\<close>

text \<open>A sequence of spends on one counter with one limit: the amounts that were allowed.\<close>

fun run_spends :: "string \<Rightarrow> rat \<Rightarrow> int \<Rightarrow> (date \<times> rat) list \<Rightarrow> redis \<Rightarrow> rat list \<times> redis" where
  "run_spends key limit ttl [] s = ([], s)"
| "run_spends key limit ttl ((now, tx) # calls) s =
     (let ((ok, _, _), s') = atomicCheckAndIncrementSpend now key tx limit ttl s;
          (rest, s'') = run_spends key limit ttl calls s'
      in ((if ok then [tx] else []) @ rest, s''))"

lemma spend_keeps_window:
  assumes "s key = Some (RNumber v, Some x)" and "now < x"
  shows "atomicCheckAndIncrementSpend now key tx limit ttl s =
    (if v + tx > limit then ((False, v, v), s)
     else ((True, v, v + tx), s(key \<mapsto> (RNumber (v + tx), Some x))))"
  using assms
  by (simp add: atomicCheckAndIncrementSpend_def redis_get_def redis_pttl_def live_def spent_value_def
      redis_set_px_def Let_def)

lemma run_spends_window:
  assumes "s key = Some (RNumber v, Some x)" and "\<forall>(t, tx) \<in> set calls. t < x" and "v \<le> limit"
  shows "v + sum_list (fst (run_spends key limit ttl calls s)) \<le> limit \<and>
    snd (run_spends key limit ttl calls s) key = Some (RNumber (v + sum_list (fst (run_spends key limit ttl calls s))), Some x)"
  using assms
proof (induction calls arbitrary: s v)
  case (Cons call calls)
  obtain t tx where c: "call = (t, tx)" by force
  have step: "atomicCheckAndIncrementSpend t key tx limit ttl s =
    (if v + tx > limit then ((False, v, v), s)
     else ((True, v, v + tx), s(key \<mapsto> (RNumber (v + tx), Some x))))"
    using Cons.prems c by (intro spend_keeps_window) auto
  show ?case
  proof (cases "v + tx > limit")
    case True
    then show ?thesis using Cons.IH [of s v] Cons.prems c step
      by (auto simp: Let_def split: prod.splits)
  next
    case False
    define s' where "s' = s(key \<mapsto> (RNumber (v + tx), Some x))"
    have "v + tx + sum_list (fst (run_spends key limit ttl calls s')) \<le> limit \<and>
      snd (run_spends key limit ttl calls s') key = Some (RNumber (v + tx + sum_list (fst (run_spends key limit ttl calls s'))), Some x)"
    proof (rule Cons.IH)
      show "s' key = Some (RNumber (v + tx), Some x)" by (simp add: s'_def)
    qed (use Cons.prems False in auto)
    with False c step show ?thesis
      by (simp add: s'_def [symmetric] Let_def case_prod_beta add.assoc)
  qed
qed simp

lemma spend_fresh:
  assumes "redis_get t key s = None"
  shows "atomicCheckAndIncrementSpend t key tx limit ttl s =
    (if tx > limit then ((False, 0, 0), s) else ((True, 0, tx), s(key \<mapsto> (RNumber tx, Some (t + ttl)))))"
  using assms
  by (auto simp: atomicCheckAndIncrementSpend_def redis_pttl_def redis_get_def spent_value_def redis_set_px_def Let_def
      split: option.splits)

text \<open>Attempts above the limit leave the counter absent.\<close>

lemma run_spends_refused:
  assumes "redis_get t0 key s = None" and "\<forall>(t, tx) \<in> set before. t0 \<le> t \<and> limit < tx"
  shows "run_spends key limit ttl (before @ calls) s = run_spends key limit ttl calls s"
  using assms
proof (induction before)
  case (Cons call before)
  obtain t tx where c: "call = (t, tx)" by force
  have "redis_get t key s = None"
    using Cons.prems c by (auto simp: redis_get_def live_def split: option.splits if_splits)
  from spend_fresh [OF this, of tx limit ttl] Cons c show ?case by simp
qed simp

lemma run_spends_from:
  assumes "redis_get t1 key s = None" and "tx1 \<le> limit" and "\<forall>(t, tx) \<in> set calls. t < t1 + ttl"
  shows "sum_list (fst (run_spends key limit ttl ((t1, tx1) # calls) s)) \<le> limit \<and>
    snd (run_spends key limit ttl ((t1, tx1) # calls) s) key =
      Some (RNumber (sum_list (fst (run_spends key limit ttl ((t1, tx1) # calls) s))), Some (t1 + ttl))"
  using run_spends_window [of "s(key \<mapsto> (RNumber tx1, Some (t1 + ttl)))" key tx1 "t1 + ttl" calls limit ttl] assms
  by (simp add: spend_fresh case_prod_beta)

section \<open>Claims of a key\<close>

fun run_claims :: "string \<Rightarrow> int \<Rightarrow> date list \<Rightarrow> redis \<Rightarrow> bool list" where
  "run_claims key ttl [] s = []"
| "run_claims key ttl (t # ts) s = (let (ok, s') = claimOnce t key ttl s in ok # run_claims key ttl ts s')"

lemma run_claims_taken:
  "s key = Some (v, Some x) \<Longrightarrow> \<forall>t \<in> set ts. t < x \<Longrightarrow> run_claims key ttl ts s = replicate (length ts) False"
  by (induction ts) (simp_all add: claimOnce_def redis_get_def live_def)

section \<open>Overlapping idempotency checks\<close>

text \<open>Requests as numbers, and a schedule of their commands: a request that has read nothing and not
  yet written is pending, and its next command is the write; any other command is its read, with
  what it answers: \<^term>\<open>None\<close> when the request goes ahead, the cached result when it is a duplicate.\<close>

fun run_idem :: "date \<Rightarrow> string \<Rightarrow> int \<Rightarrow> nat list \<Rightarrow> nat list \<Rightarrow> redis \<Rightarrow> (nat \<times> string option option) list" where
  "run_idem now key ttl pending [] s = []"
| "run_idem now key ttl pending (i # sched) s =
     (if i \<in> set pending
      then run_idem now key ttl (remove1 i pending) sched (idem_write now key ttl s)
      else case idem_read now key s of
             Some r \<Rightarrow> (i, Some r) # run_idem now key ttl pending sched s
           | None \<Rightarrow> (i, None) # run_idem now key ttl (i # pending) sched s)"

section \<open>Properties\<close>

definition sample_session :: "date option \<Rightarrow> CachedSessionKey" where
  "sample_session revoked =
     \<lparr>sk_id = ''k'', sk_userId = ''u'', sk_keyHash = ''h'', sk_encryptedKey = [], sk_encryptedSymmetricKey = None, sk_perTxLimitUSD = 50,
      sk_dailyLimitUSD = 100, sk_expiryAt = 5000, sk_revokedAt = revoked\<rparr>"

text \<open>\<open>validateAndRecordSpending\<close> allows a transaction only for a cached session key that is
  neither revoked nor expired, within the per-transaction limit, and when the counter of that key
  plus the amount stays within the daily limit; it then stores exactly that sum, and otherwise
  leaves the counter as it was.\<close>

theorem spending_allowed_only_within_policy:
  "case validateAndRecordSpending now h tx perTx daily s of
     (Inr _, s') \<Rightarrow>
       (\<exists>key. redis_get now (SK_PREFIX @ h) s = Some (RSession key) \<and>
              sk_revokedAt key = None \<and> now \<le> sk_expiryAt key \<and> tx \<le> perTx \<and>
              spent_value (redis_get now (SPEND_PREFIX @ sk_id key) s) + tx \<le> daily \<and>
              s' (SPEND_PREFIX @ sk_id key) \<noteq> None \<and>
              map_option fst (s' (SPEND_PREFIX @ sk_id key)) =
                Some (RNumber (spent_value (redis_get now (SPEND_PREFIX @ sk_id key) s) + tx)))
   | (Inl _, s') \<Rightarrow> (\<forall>k. s' (SPEND_PREFIX @ k) = s (SPEND_PREFIX @ k))"
  by (auto simp: validateAndRecordSpending_def getSessionKey_def getJson_def atomicCheckAndIncrementSpend_def
      redis_set_px_def redis_del_def Let_def split: option.splits rvalue.splits prod.splits if_splits)

text \<open>C39. The daily limit holds within a window, and the window is fixed by its first spend: when the counter is absent,
  attempts above the limit change nothing, and from the first spend that is allowed, at \<open>t1\<close>, whatever amounts are tried
  in the window that it opens and in whatever order, the allowed amounts sum to at most the limit, the counter holds their
  sum, and it expires at \<open>t1 + ttlMs\<close>, however late the last of them came: from then on it is absent again.\<close>

theorem window_spending_bounded:
  assumes "redis_get t0 key s = None" and "\<forall>(t, tx) \<in> set before. t0 \<le> t \<and> limit < tx"
    and "t0 \<le> t1" and "tx1 \<le> limit" and "\<forall>(t, tx) \<in> set calls. t < t1 + ttl"
  shows "let (allowed, s') = run_spends key limit ttl (before @ (t1, tx1) # calls) s in
    sum_list allowed \<le> limit \<and> s' key = Some (RNumber (sum_list allowed), Some (t1 + ttl)) \<and>
    (\<forall>t \<ge> t1 + ttl. redis_get t key s' = None)"
proof -
  have "redis_get t1 key s = None"
    using assms(1,3) by (auto simp: redis_get_def live_def split: option.splits if_splits)
  from run_spends_from [OF this assms(4,5)] show ?thesis
    unfolding run_spends_refused [OF assms(1,2)] Let_def by (simp add: case_prod_beta redis_get_def live_def)
qed

theorem window_spending_bounded_witness:
  "fst (run_spends ''k'' 100 1000 [(0, 200), (1, 60), (2, 50), (900, 40)] Map.empty) = [60, 40] \<and>
   snd (run_spends ''k'' 100 1000 [(0, 200), (1, 60), (2, 50), (900, 40)] Map.empty) ''k'' = Some (RNumber 100, Some 1001)"
proof -
  have "fst (run_spends ''k'' 100 1000 [(0, 200), (1, 60), (2, 50), (900, 40)] Map.empty) = [60, 40]"
    by (simp add: redis_get_def live_def atomicCheckAndIncrementSpend_def spent_value_def redis_pttl_def redis_set_px_def)
  with window_spending_bounded [of 0 "''k''" Map.empty "[(0, 200)]" 100 1 60 "[(2, 50), (900, 40)]" 1000] show ?thesis
    by (simp add: redis_get_def live_def case_prod_beta del: run_spends.simps)
qed

text \<open>\<open>claimOnce\<close> grants a free key exactly once: of any sequence of claims within the life of the
  key, from any number of replicas, the first wins and all others are refused.\<close>

theorem claim_once_grants_once:
  assumes "redis_get t key s = None" and "\<forall>t' \<in> set ts. t' < t + ttlSeconds * 1000"
  shows "run_claims key ttlSeconds (t # ts) s = True # replicate (length ts) False"
  using assms run_claims_taken [of "redis_set_px t key (RText ''1'') (ttlSeconds * 1000) s" key]
  by (simp add: claimOnce_def redis_set_px_def)

theorem claim_once_grants_once_witness:
  "run_claims ''n'' 60 [0, 5, 7] Map.empty = [True, False, False]"
  using claim_once_grants_once [of 0 "''n''" Map.empty "[5, 7]" 60] by (simp add: redis_get_def live_def)

text \<open>\<open>checkAndSetIdempotencyKey\<close> detects a repeated request only when the requests do not
  overlap: a second call after the first, within the time to live, is a duplicate, but two
  requests that both read before either writes are both let through.\<close>

theorem idempotency_check_races:
  assumes "idem_read now key s = None" and "0 < ttlSeconds"
  shows "run_idem now key ttlSeconds [] [1, 1, 2, 2] s = [(1, None), (2, Some None), (2, Some None)] \<and>
         run_idem now key ttlSeconds [] [1, 2, 1, 2] s = [(1, None), (2, None)]"
proof -
  have "idem_read now key (idem_write now key ttlSeconds s) = Some None"
    using assms(2) by (simp add: idem_read_def idem_write_def store_defs redis.get_put)
  with assms(1) show ?thesis by simp
qed

theorem idempotency_check_races_witness:
  "run_idem 0 ''r'' 300 [] [1, 2, 1, 2] Map.empty = [(1, None), (2, None)]"
  using idempotency_check_races [of 0 "''r''" Map.empty 300]
  by (simp add: idem_read_def getJson_def redis_get_def live_def)

text \<open>After the warm-up a session key is served exactly when the database has an unrevoked key
  with that hash that had not expired at the warm-up and has not expired since: keys that were
  cached before and are revoked or gone in the database are no longer served.\<close>

theorem warmup_serves_exactly_active_keys:
  assumes "distinct (map sk_keyHash (hd_sessionKeys db))" and "now \<le> later"
  shows "fst (getSessionKey later h (onModuleInit now db s)) =
           find (\<lambda>k. sk_keyHash k = h \<and> sk_revokedAt k = None \<and> later < sk_expiryAt k) (hd_sessionKeys db)"
proof -
  let ?P = "\<lambda>k. sk_keyHash k = h \<and> sk_revokedAt k = None \<and> now < sk_expiryAt k"
  let ?Q = "\<lambda>k. sk_keyHash k = h \<and> sk_revokedAt k = None \<and> later < sk_expiryAt k"
  have uniq: "k = k'" if "k \<in> set (hd_sessionKeys db)" "k' \<in> set (hd_sessionKeys db)"
    "sk_keyHash k = h" "sk_keyHash k' = h" for k k'
    using assms(1) that by (auto simp: distinct_map dest: inj_onD)
  have Q: "find ?Q (hd_sessionKeys db) = (case find ?P (hd_sessionKeys db) of
      Some k \<Rightarrow> if later < sk_expiryAt k then Some k else None | None \<Rightarrow> None)"
  proof (cases "find ?P (hd_sessionKeys db)")
    case None
    then have "find ?Q (hd_sessionKeys db) = None" using assms(2) by (auto simp: find_None_iff)
    with None show ?thesis by simp
  next
    case (Some k)
    then have k: "k \<in> set (hd_sessionKeys db)" "?P k" by (auto simp: find_Some_iff)
    show ?thesis
    proof (cases "find ?Q (hd_sessionKeys db)")
      case None
      then have "\<not> later < sk_expiryAt k" using k by (auto simp: find_None_iff)
      with None Some show ?thesis by simp
    next
      case (Some k')
      then have "k' \<in> set (hd_sessionKeys db)" "?Q k'" by (auto simp: find_Some_iff)
      with uniq [of k k'] k \<open>find ?P (hd_sessionKeys db) = Some k\<close> Some show ?thesis by simp
    qed
  qed
  show ?thesis
  proof (cases "find ?P (hd_sessionKeys db)")
    case None
    then show ?thesis by (simp add: Q getSessionKey_def getJson_def session_after_warmup [OF assms(1)])
  next
    case (Some k)
    then have "?P k" by (auto simp: find_Some_iff)
    with Some show ?thesis by (simp add: Q getSessionKey_def getJson_def session_after_warmup [OF assms(1)])
  qed
qed

theorem warmup_serves_exactly_active_keys_witness:
  "fst (getSessionKey 10 ''h'' (onModuleInit 5
     \<lparr>hd_users = [], hd_nodes = [], hd_sessionKeys = [sample_session (Some 3)], hd_spending = []\<rparr>
     (setSessionKey 0 (sample_session None) Map.empty))) = None"
  using warmup_serves_exactly_active_keys
    [of "\<lparr>hd_users = [], hd_nodes = [], hd_sessionKeys = [sample_session (Some 3)], hd_spending = []\<rparr>" 5 10]
  by (simp add: sample_session_def)

text \<open>A handle mapping is found again, by any spelling of the handle with the same normal form, for
  thirty days, and the address gives back its display form whatever its letter case; the other
  handles keep their addresses.\<close>

theorem handle_mapping_round_trip:
  assumes "h \<noteq> []" and "a \<noteq> []" and "g \<noteq> []" and "later < now + HANDLE_TTL"
  shows "resolveHandle later g (setHandleMapping now h a s) =
           (if normalizeHandle g = normalizeHandle h then Some a else resolveHandle later g s) \<and>
         getHandleForAddress later a (setHandleMapping now h a s) =
           Some (if startsWith h ''@'' then h else CHR ''@'' # h)"
  using assms
  by (simp add: resolveHandle_def getHandleForAddress_def setHandleMapping_def store_defs redis.get_put
      string_value_def Let_def)

theorem handle_mapping_round_trip_witness:
  "resolveHandle 1 '' alice'' (setHandleMapping 0 ''@alice'' ''0xAb'' Map.empty) = Some ''0xAb''"
  using handle_mapping_round_trip [of "''@alice''" "''0xAb''" "'' alice''" 1 0 Map.empty]
  by (simp add: HANDLE_TTL_def normalizeHandle_def trim_def strip_at_def is_ws_def)


end
