(* ===== verification/Requests.thy ===== *)
theory Requests
  imports Backend Dates
begin

text \<open>
  \<open>backend/src/requests/requests.service.ts\<close>: payment requests. \<open>create\<close>, \<open>payRequest\<close>,
  \<open>cancelRequest\<close>, \<open>remindRequest\<close>, \<open>findOne\<close> and \<open>findAllForUser\<close> on the tables of users and
  requests, with the notifications, the activity log and the transfers they cause. The identity
  service and the relayer are arguments: what a lookup answers, and the transaction hash or the
  message of a failed transfer. Whether a write of the request row succeeds is an argument too,
  because the code catches its failure and goes on.
\<close>

section \<open>Tables\<close>

datatype RequestStatus = PENDING | PAID | CANCELLED | EXPIRED

definition show_status :: "RequestStatus \<Rightarrow> string" where
  "show_status s =
     (case s of PENDING \<Rightarrow> ''PENDING'' | PAID \<Rightarrow> ''PAID'' | CANCELLED \<Rightarrow> ''CANCELLED'' | EXPIRED \<Rightarrow> ''EXPIRED'')"

record PaymentRequest =
  rq_requesterId :: string
  rq_recipientId :: "string option"
  rq_recipientIdentifier :: string
  rq_token :: string
  rq_amount :: rat
  rq_note :: "string option"
  rq_status :: RequestStatus
  rq_txHash :: "string option"
  rq_expiresAt :: date
  rq_lastRemindedAt :: "date option"

record rq_user =
  ru_username :: "string option"
  ru_telegramId :: "string option"
  ru_whatsappId :: "string option"
  ru_discordId :: "string option"
  ru_address :: "string option"

record transfer =
  tf_request :: string
  tf_payer :: string
  tf_to :: string
  tf_amount :: rat
  tf_txHash :: string

record rq_db =
  rd_users :: "rq_user table"
  rd_requests :: "PaymentRequest table"
  rd_notifications :: "(string \<times> string) list"
  rd_activity :: "(string \<times> string) list"
  rd_transfers :: "transfer list"

record CreateRequestDto =
  cr_recipientIdentifier :: string
  cr_token :: string
  cr_amount :: rat
  cr_note :: "string option"
  cr_expiresInDays :: "rat option"

section \<open>Definitions\<close>

text \<open>\<open>prisma.user.findFirst\<close>: the first row with one of the alternatives.\<close>

definition find_user :: "(string \<Rightarrow> rq_user \<Rightarrow> bool) \<Rightarrow> rq_db \<Rightarrow> (string \<times> rq_user) option" where
  "find_user c db = find (\<lambda>(i, u). c i u) (rd_users db)"

definition by_wallet :: "string \<Rightarrow> rq_db \<Rightarrow> (string \<times> rq_user) option" where
  "by_wallet a db = find_user (\<lambda>i u. ru_address u = Some a) db"

text \<open>The caller is a user id or, from \<open>0x\<close> on, a wallet address.\<close>

definition resolve_caller :: "string \<Rightarrow> rq_db \<Rightarrow> string option" where
  "resolve_caller x db = (if startsWith x ''0x'' then map_option fst (by_wallet x db) else Some x)"

definition expiry :: "date \<Rightarrow> rat option \<Rightarrow> date" where
  "expiry now d =
     (let days = (case d of Some x \<Rightarrow> if x = 0 then 30 else x | None \<Rightarrow> 30);
          t = of_int now + days * 24 * 60 * 60 * 1000
      in if 0 \<le> t then \<lfloor>t\<rfloor> else \<lceil>t\<rceil>)"

text \<open>The recipient's user id (for the notification) and stored id. \<open>ident\<close> is the identity service:
  absent, or a lookup that may throw.\<close>

definition resolve_recipient ::
    "(string \<Rightarrow> unit + string option) option \<Rightarrow> string \<Rightarrow> rq_db \<Rightarrow> string option \<times> string option" where
  "resolve_recipient ident r db =
     (let viaIdentity =
        (case ident of
           None \<Rightarrow> None
         | Some f \<Rightarrow> (case f r of Inr (Some x) \<Rightarrow> if x = [] then None else Some x | _ \<Rightarrow> None))
      in case viaIdentity of
           Some x \<Rightarrow> (map_option fst (find_user (\<lambda>i u. i = x \<or> ru_address u = Some x) db), Some x)
         | None \<Rightarrow>
             let cleanHandle = trim (strip_at r) in
             case find_user (\<lambda>i u. ru_username u = Some cleanHandle \<or> ru_telegramId u = Some cleanHandle \<or>
                                   ru_whatsappId u = Some r \<or> ru_discordId u = Some cleanHandle \<or>
                                   ru_address u = Some r) db of
               None \<Rightarrow> (None, None)
             | Some (i, u) \<Rightarrow>
                 (Some i, Some (case ru_address u of Some a \<Rightarrow> if a = [] then i else a | None \<Rightarrow> i)))"

definition create ::
    "(string \<Rightarrow> unit + string option) option \<Rightarrow> bool \<Rightarrow> date \<Rightarrow> string \<Rightarrow> string \<Rightarrow> CreateRequestDto \<Rightarrow> rq_db
     \<Rightarrow> (string \<times> PaymentRequest, rq_db) outcome" where
  "create ident writeOk now newId requesterIdOrAddress dto db =
     (if trim (cr_recipientIdentifier dto) = []
      then (Inl (BadRequest ''Recipient identifier is required''), db)
      else if cr_amount dto \<le> 0 then (Inl (BadRequest ''Amount must be greater than 0''), db)
      else
        let token = toUpperCase (if cr_token dto = [] then ''USDC'' else cr_token dto) in
        if token \<noteq> ''USDC''
        then (Inl (BadRequest ''The Solana edition currently supports USDC requests only''), db)
        else case resolve_caller requesterIdOrAddress db of
          None \<Rightarrow> (Inl (BadRequest ''Requester user not found''), db)
        | Some requesterId \<Rightarrow>
            let (recipientUserId, recipientId) = resolve_recipient ident (cr_recipientIdentifier dto) db;
                request = \<lparr>rq_requesterId = requesterId, rq_recipientId = recipientId,
                           rq_recipientIdentifier = trim (cr_recipientIdentifier dto), rq_token = token,
                           rq_amount = cr_amount dto, rq_note = (if cr_note dto = Some [] then None else cr_note dto), rq_status = PENDING,
                           rq_txHash = None, rq_expiresAt = expiry now (cr_expiresInDays dto),
                           rq_lastRemindedAt = None\<rparr>;
                i = (if writeOk then newId else ''req-'' @ show_int now);
                db1 = (if writeOk then db\<lparr>rd_requests := create_row i request (rd_requests db)\<rparr> else db);
                db2 = (case recipientUserId of
                         None \<Rightarrow> db1
                       | Some u \<Rightarrow> db1\<lparr>rd_notifications := rd_notifications db1 @ [(u, ''SPLIT_REQUEST'')]\<rparr>);
                db3 = db2\<lparr>rd_activity := rd_activity db2 @ [(requesterId, ''REQUEST_CREATED'')]\<rparr>
            in (Inr (i, request), db3))"

definition findOne :: "string \<Rightarrow> rq_db \<Rightarrow> PaymentRequest http" where
  "findOne i db =
     (case findUnique (rd_requests db) i of
        None \<Rightarrow> Inl (NotFound ''Payment request not found'') | Some r \<Rightarrow> Inr r)"

text \<open>\<open>findAllForUser\<close>: the filter is \<open>sent\<close>, \<open>received\<close> or anything else; the newest come first. A
  status that is not one of the enumeration matches no row: the query throws and the handler
  returns the empty list.\<close>

definition findAllForUser :: "string \<Rightarrow> string \<Rightarrow> string option \<Rightarrow> rq_db \<Rightarrow> PaymentRequest table" where
  "findAllForUser userIdOrAddress flt status db =
     (let isAddr = startsWith userIdOrAddress ''0x'';
          userId = (if isAddr then (case by_wallet userIdOrAddress db of Some (i, _) \<Rightarrow> i | None \<Rightarrow> userIdOrAddress)
                    else userIdOrAddress);
          sent = (\<lambda>r. rq_requesterId r = userId);
          received = (\<lambda>r. rq_recipientId r = Some userId \<or> rq_recipientIdentifier r = userId \<or>
                          isAddr \<and> rq_recipientId r = Some userIdOrAddress);
          c = (\<lambda>r. (if flt = ''sent'' then sent r else if flt = ''received'' then received r
                    else sent r \<or> received r) \<and>
                   (case status of
                      Some st \<Rightarrow> st = [] \<or> show_status (rq_status r) = toUpperCase st
                    | None \<Rightarrow> True))
      in rev (filter (\<lambda>(i, r). c r) (rd_requests db)))"

text \<open>\<open>payRequest\<close> up to the transfer: what it read. \<open>payRequest\<close> awaits the relayer between the
  check of the status and the update, so that two calls can both pass the check.\<close>

record pay_ticket =
  pt_id :: string
  pt_request :: PaymentRequest
  pt_payerId :: string
  pt_to :: string

definition pay_check :: "string \<Rightarrow> string \<Rightarrow> rq_db \<Rightarrow> pay_ticket http" where
  "pay_check i payerUserIdOrAddress db =
     bindE (findOne i db) (\<lambda>request.
       if rq_status request \<noteq> PENDING
       then Inl (BadRequest (''Cannot pay request with status: '' @ show_status (rq_status request)))
       else case resolve_caller payerUserIdOrAddress db of
         None \<Rightarrow> Inl (BadRequest ''Payer user not found. Please ensure you are logged in.'')
       | Some payerUserId \<Rightarrow>
           (case Option.bind (findUnique (rd_users db) payerUserId) ru_address of
              None \<Rightarrow> Inl (BadRequest ''Payer wallet not found'')
            | Some _ \<Rightarrow>
                (case Option.bind (findUnique (rd_users db) (rq_requesterId request)) ru_address of
                   None \<Rightarrow> Inl (BadRequest ''Requester wallet not found'')
                 | Some a \<Rightarrow>
                     Inr \<lparr>pt_id = i, pt_request = request, pt_payerId = payerUserId, pt_to = a\<rparr>)))"

text \<open>The transfer and what follows it; \<open>ans\<close> is what the relayer answers.\<close>

definition pay_settle :: "string + string \<Rightarrow> bool \<Rightarrow> pay_ticket \<Rightarrow> rq_db \<Rightarrow> (string, rq_db) outcome" where
  "pay_settle ans writeOk t db =
     (case ans of
        Inl msg \<Rightarrow> (Inl (BadRequest (''Payment failed: '' @ msg)), db)
      | Inr txHash \<Rightarrow>
          let request = pt_request t;
              db1 = db\<lparr>rd_transfers := rd_transfers db @
                [\<lparr>tf_request = pt_id t, tf_payer = pt_payerId t, tf_to = pt_to t,
                  tf_amount = rq_amount request, tf_txHash = txHash\<rparr>]\<rparr>;
              db2 = (if writeOk
                     then db1\<lparr>rd_requests := update_row (pt_id t)
                            (\<lambda>r. r\<lparr>rq_status := PAID, rq_txHash := Some txHash\<rparr>) (rd_requests db1),
                            rd_activity := rd_activity db1 @
                              [(pt_payerId t, ''TRANSFER_SENT''), (rq_requesterId request, ''TRANSFER_RECEIVED'')]\<rparr>
                     else db1)
          in (Inr txHash,
              db2\<lparr>rd_notifications := rd_notifications db2 @ [(rq_requesterId request, ''TRANSACTION_RECEIVED'')]\<rparr>))"

definition payRequest :: "string + string \<Rightarrow> bool \<Rightarrow> string \<Rightarrow> string \<Rightarrow> rq_db \<Rightarrow> (string, rq_db) outcome" where
  "payRequest ans writeOk i payer db =
     (case pay_check i payer db of Inl e \<Rightarrow> (Inl e, db) | Inr t \<Rightarrow> pay_settle ans writeOk t db)"

definition notify_target :: "PaymentRequest \<Rightarrow> string" where
  "notify_target r = (case rq_recipientId r of Some x \<Rightarrow> if x = [] then rq_recipientIdentifier r else x
                                            | None \<Rightarrow> rq_recipientIdentifier r)"

definition cancelRequest :: "bool \<Rightarrow> string \<Rightarrow> string \<Rightarrow> rq_db \<Rightarrow> (unit, rq_db) outcome" where
  "cancelRequest writeOk i requesterUserId db =
     (case findOne i db of
        Inl e \<Rightarrow> (Inl e, db)
      | Inr request \<Rightarrow>
          if rq_requesterId request \<noteq> requesterUserId
          then (Inl (Forbidden ''Only the requester can cancel this payment request''), db)
          else
            let db1 = (if writeOk
                       then db\<lparr>rd_requests := update_row i (\<lambda>r. r\<lparr>rq_status := CANCELLED\<rparr>) (rd_requests db)\<rparr>
                       else db);
                db2 = (if notify_target request \<noteq> []
                       then db1\<lparr>rd_notifications := rd_notifications db1 @ [(notify_target request, ''SYSTEM'')]\<rparr>
                       else db1)
            in (Inr (), db2))"

definition remindRequest :: "bool \<Rightarrow> date \<Rightarrow> string \<Rightarrow> string \<Rightarrow> rq_db \<Rightarrow> (date, rq_db) outcome" where
  "remindRequest writeOk now i requesterUserId db =
     (case findOne i db of
        Inl e \<Rightarrow> (Inl e, db)
      | Inr request \<Rightarrow>
          if rq_requesterId request \<noteq> requesterUserId
          then (Inl (Forbidden ''Only the requester can trigger reminders for this request''), db)
          else if rq_status request \<noteq> PENDING
          then (Inl (BadRequest ''Reminders can only be sent for PENDING requests''), db)
          else if (case rq_lastRemindedAt request of Some t \<Rightarrow> now - 60 * 60 * 1000 < t | None \<Rightarrow> False)
          then (Inl (Conflict ''Reminder already sent recently. Please wait before reminding again.''), db)
          else
            let db1 = (if writeOk
                       then db\<lparr>rd_requests := update_row i (\<lambda>r. r\<lparr>rq_lastRemindedAt := Some now\<rparr>) (rd_requests db)\<rparr>
                       else db)
            in (Inr now, db1\<lparr>rd_notifications := rd_notifications db1 @ [(notify_target request, ''SPLIT_REQUEST'')]\<rparr>))"

section \<open>Sequences of operations\<close>

text \<open>The operations one after another, with every write succeeding; creating a request under an
  identifier that is taken is a failed write.\<close>

datatype rq_op =
    OpCreate "(string \<Rightarrow> unit + string option) option" date string string CreateRequestDto
  | OpPay "string + string" string string
  | OpCancel string string
  | OpRemind date string string

fun rq_step :: "rq_op \<Rightarrow> rq_db \<Rightarrow> rq_db" where
  "rq_step (OpCreate ident now newId who dto) db =
     snd (create ident (findUnique (rd_requests db) newId = None) now newId who dto db)"
| "rq_step (OpPay ans i who) db = snd (payRequest ans True i who db)"
| "rq_step (OpCancel i who) db = snd (cancelRequest True i who db)"
| "rq_step (OpRemind now i who) db = snd (remindRequest True now i who db)"

definition transfers_of :: "string \<Rightarrow> rq_db \<Rightarrow> transfer list" where
  "transfers_of i db = filter (\<lambda>t. tf_request t = i) (rd_transfers db)"

definition paid_once :: "rq_db \<Rightarrow> bool" where
  "paid_once db \<longleftrightarrow>
     (\<forall>i. case findUnique (rd_requests db) i of
            None \<Rightarrow> transfers_of i db = []
          | Some r \<Rightarrow> if rq_status r = PENDING then transfers_of i db = [] else length (transfers_of i db) \<le> 1)"

lemma paid_onceI:
  assumes "\<And>i. findUnique (rd_requests db) i = None \<Longrightarrow> transfers_of i db = []"
    and "\<And>i r. findUnique (rd_requests db) i = Some r \<Longrightarrow>
           (rq_status r = PENDING \<longrightarrow> transfers_of i db = []) \<and> length (transfers_of i db) \<le> 1"
  shows "paid_once db"
  using assms by (auto simp: paid_once_def split: option.split)

lemma paid_onceD:
  assumes "paid_once db"
  shows "findUnique (rd_requests db) i = None \<Longrightarrow> transfers_of i db = []"
    and "findUnique (rd_requests db) i = Some r \<Longrightarrow> rq_status r = PENDING \<Longrightarrow> transfers_of i db = []"
    and "length (transfers_of i db) \<le> 1"
  using assms [unfolded paid_once_def, rule_format, of i] by (auto split: option.splits if_splits)

text \<open>An operation that moves no money keeps the invariant when it turns no request back to pending.\<close>

lemma paid_once_same_transfers:
  assumes "paid_once db" and "rd_transfers db' = rd_transfers db"
    and "\<And>i r'. findUnique (rd_requests db') i = Some r' \<Longrightarrow> rq_status r' = PENDING \<Longrightarrow>
           (case findUnique (rd_requests db) i of Some r \<Rightarrow> rq_status r = PENDING | None \<Rightarrow> True)"
    and "\<And>i. findUnique (rd_requests db') i = None \<Longrightarrow> findUnique (rd_requests db) i = None"
  shows "paid_once db'"
proof (rule paid_onceI)
  have t: "transfers_of i db' = transfers_of i db" for i using assms(2) by (simp add: transfers_of_def)
  fix i
  show "findUnique (rd_requests db') i = None \<Longrightarrow> transfers_of i db' = []"
    using assms(4) paid_onceD(1) [OF assms(1)] t by simp
  fix r' assume r': "findUnique (rd_requests db') i = Some r'"
  show "(rq_status r' = PENDING \<longrightarrow> transfers_of i db' = []) \<and> length (transfers_of i db') \<le> 1"
    using assms(3) [OF r'] paid_onceD [OF assms(1), of i] t by (auto split: option.splits)
qed

lemma pay_check_pending:
  "pay_check i who db = Inr t \<Longrightarrow>
     pt_id t = i \<and> findUnique (rd_requests db) i = Some (pt_request t) \<and> rq_status (pt_request t) = PENDING"
  by (auto simp: pay_check_def findOne_def js_simps split: option.splits if_splits)

lemma pay_check_cong:
  "rd_users db' = rd_users db \<Longrightarrow> rd_requests db' = rd_requests db \<Longrightarrow> pay_check i who db' = pay_check i who db"
  unfolding pay_check_def findOne_def resolve_caller_def by_wallet_def find_user_def by (simp only:)

lemma paid_once_pay:
  assumes "paid_once db"
  shows "paid_once (snd (payRequest ans True i who db))"
proof (cases "pay_check i who db")
  case (Inr t)
  note c = pay_check_pending [OF Inr]
  show ?thesis
  proof (cases ans)
    case (Inr tx)
    have none: "transfers_of i db = []" using paid_onceD(2) [OF assms] c by blast
    show ?thesis
      using \<open>pay_check i who db = Inr t\<close> c none paid_onceD [OF assms]
      by (intro paid_onceI)
        (auto simp: payRequest_def pay_settle_def Inr transfers_of_def Let_def split: if_splits)
  qed (use Inr assms in \<open>simp add: payRequest_def pay_settle_def\<close>)
qed (use assms in \<open>simp add: payRequest_def\<close>)

lemma paid_once_cancel:
  assumes "paid_once db"
  shows "paid_once (snd (cancelRequest True i who db))"
  by (rule paid_once_same_transfers [OF assms])
    (auto simp: cancelRequest_def findOne_def Let_def split: option.splits if_splits)

lemma paid_once_remind:
  assumes "paid_once db"
  shows "paid_once (snd (remindRequest True now i who db))"
  by (rule paid_once_same_transfers [OF assms])
    (auto simp: remindRequest_def findOne_def Let_def split: option.splits if_splits)

text \<open>What \<open>create\<close> does to the requests and the transfers.\<close>

lemma create_effect:
  "rd_transfers (snd (create ident writeOk now newId who dto db)) = rd_transfers db"
  "rd_requests (snd (create ident writeOk now newId who dto db)) = rd_requests db \<or>
   writeOk \<and> (\<exists>r. rd_requests (snd (create ident writeOk now newId who dto db)) = create_row newId r (rd_requests db))"
  by (auto simp: create_def Let_def split: option.splits prod.splits)

lemma paid_once_create:
  assumes "paid_once db"
  shows "paid_once (snd (create ident (findUnique (rd_requests db) newId = None) now newId who dto db))"
proof -
  let ?db = "snd (create ident (findUnique (rd_requests db) newId = None) now newId who dto db)"
  show ?thesis
    using create_effect(2) [of ident "findUnique (rd_requests db) newId = None" now newId who dto db]
    by (intro paid_once_same_transfers [OF assms create_effect(1)])
      (auto simp: findUnique_create split: option.splits if_splits)
qed

lemma paid_once_run: "paid_once db \<Longrightarrow> paid_once (fold rq_step ops db)"
proof (induction ops arbitrary: db)
  case (Cons op ops)
  have "paid_once (rq_step op db)"
    using Cons.prems paid_once_create paid_once_pay paid_once_cancel paid_once_remind by (cases op) simp_all
  with Cons.IH show ?case by simp
qed simp

section \<open>Reminders\<close>

fun reminders :: "string \<Rightarrow> string \<Rightarrow> date list \<Rightarrow> rq_db \<Rightarrow> date list" where
  "reminders i who [] db = []"
| "reminders i who (t # ts) db =
     (case remindRequest True t i who db of
        (Inr _, db') \<Rightarrow> t # reminders i who ts db'
      | (Inl _, db') \<Rightarrow> reminders i who ts db')"

definition last_reminder :: "string \<Rightarrow> rq_db \<Rightarrow> date option" where
  "last_reminder i db = Option.bind (findUnique (rd_requests db) i) rq_lastRemindedAt"

lemma remind_effect:
  "case remindRequest True t i who db of
     (Inr _, db') \<Rightarrow>
       (case last_reminder i db of Some u \<Rightarrow> u + 3600000 \<le> t | None \<Rightarrow> True) \<and> last_reminder i db' = Some t
   | (Inl _, db') \<Rightarrow> db' = db"
  by (auto simp: remindRequest_def findOne_def last_reminder_def Let_def split: option.splits)

lemma reminders_spaced:
  "sorted_wrt (\<lambda>a b. a + 3600000 \<le> b) (case last_reminder i db of Some u \<Rightarrow> u # reminders i who ts db
                                                            | None \<Rightarrow> reminders i who ts db)"
proof (induction ts arbitrary: db)
  case (Cons t ts)
  obtain r db' where r: "remindRequest True t i who db = (r, db')" by force
  show ?case
  proof (cases r)
    case (Inl e)
    then have "reminders i who (t # ts) db = reminders i who ts db"
      using remind_effect [where t = t and i = i and who = who and db = db] r by simp
    with Cons [of db] show ?thesis by metis
  next
    case (Inr x)
    then have e: "case last_reminder i db of Some u \<Rightarrow> u + 3600000 \<le> t | None \<Rightarrow> True" "last_reminder i db' = Some t"
      using remind_effect [where t = t and i = i and who = who and db = db] r by simp_all
    have "sorted_wrt (\<lambda>a b. a + 3600000 \<le> b) (t # reminders i who ts db')" using Cons [of db'] e(2) by simp
    with e(1) r Inr show ?thesis by (auto split: option.splits)
  qed
qed (simp split: option.split)


section \<open>Properties\<close>

definition sample_user :: "string \<Rightarrow> rq_user" where
  "sample_user a = \<lparr>ru_username = None, ru_telegramId = None, ru_whatsappId = None, ru_discordId = None,
                    ru_address = Some a\<rparr>"

definition sample_request :: PaymentRequest where
  "sample_request = \<lparr>rq_requesterId = ''alice'', rq_recipientId = None, rq_recipientIdentifier = ''@bob'',
                     rq_token = ''USDC'', rq_amount = 25, rq_note = None, rq_status = PENDING,
                     rq_txHash = None, rq_expiresAt = 0, rq_lastRemindedAt = None\<rparr>"

definition sample_requests :: rq_db where
  "sample_requests = \<lparr>rd_users = [(''alice'', sample_user ''0xa''), (''bob'', sample_user ''0xb'')],
                      rd_requests = [(''r'', sample_request)], rd_notifications = [], rd_activity = [],
                      rd_transfers = []\<rparr>"

definition sample_pay :: pay_ticket where
  "sample_pay = \<lparr>pt_id = ''r'', pt_request = sample_request, pt_payerId = ''bob'', pt_to = ''0xa''\<rparr>"

lemma sample_pay_check: "pay_check ''r'' ''bob'' sample_requests = Inr sample_pay"
  by (simp add: pay_check_def findOne_def sample_requests_def sample_pay_def sample_request_def
      sample_user_def findUnique_def resolve_caller_def startsWith_def bindE_def)

text \<open>C40. When the operations run one after another and their writes succeed, every payment request
  causes at most one transfer, whatever sequence of creations, payments, cancellations and
  reminders is run, and a request that is still pending has caused none.\<close>

theorem request_paid_at_most_once:
  assumes "rd_transfers db = []"
  shows "length (transfers_of i (fold rq_step ops db)) \<le> 1 \<and>
         (case findUnique (rd_requests (fold rq_step ops db)) i of
            Some r \<Rightarrow> if rq_status r = PENDING then transfers_of i (fold rq_step ops db) = [] else True
          | None \<Rightarrow> True)"
proof -
  have "paid_once db"
    using assms by (simp add: paid_once_def transfers_of_def split: option.split)
  then have "paid_once (fold rq_step ops db)" by (rule paid_once_run)
  from paid_onceD [OF this, of i] show ?thesis by (auto split: option.split)
qed

theorem request_paid_at_most_once_witness:
  "length (transfers_of ''r'' (fold rq_step [OpPay (Inr ''t1'') ''r'' ''bob'', OpPay (Inr ''t2'') ''r'' ''bob'']
     sample_requests)) \<le> 1"
proof -
  have "rd_transfers sample_requests = []" by (simp add: sample_requests_def)
  from request_paid_at_most_once [OF this] show ?thesis by (rule conjunct1)
qed

text \<open>Payments that overlap are not safe: when a second call has passed the check of the status
  before the first has stored its result, both transfers are executed; and a failed write after
  a successful transfer is swallowed, so that the call reports success, the request is still
  pending and can be paid again.\<close>

theorem overlapping_payments_pay_twice:
  assumes "pay_check i who db = Inr t" and "transfers_of i db = []"
  shows "length (transfers_of i (snd (pay_settle (Inr tx2) True t (snd (pay_settle (Inr tx1) True t db))))) = 2 \<and>
         (let (r, db') = payRequest (Inr tx1) False i who db in
            r = Inr tx1 \<and> length (transfers_of i (snd (payRequest (Inr tx2) True i who db'))) = 2)"
proof -
  have i: "pt_id t = i" using pay_check_pending [OF assms(1)] by simp
  have "pay_check i who (snd (pay_settle (Inr tx1) False t db)) = Inr t"
    using assms(1) pay_check_cong [of "snd (pay_settle (Inr tx1) False t db)" db i who]
    by (simp add: pay_settle_def Let_def)
  with assms i show ?thesis
    by (simp add: payRequest_def pay_settle_def transfers_of_def Let_def)
qed

theorem overlapping_payments_pay_twice_witness:
  "length (transfers_of ''r'' (snd (pay_settle (Inr ''t2'') True sample_pay
     (snd (pay_settle (Inr ''t1'') True sample_pay sample_requests))))) = 2"
  using overlapping_payments_pay_twice [OF sample_pay_check, of "''t2''" "''t1''"]
  by (simp add: transfers_of_def sample_requests_def)

text \<open>\<open>cancelRequest\<close> does not look at the status: the requester can cancel a request that has
  been paid, and the row then says \<open>CANCELLED\<close> although the money was transferred.\<close>

theorem paid_request_can_be_cancelled:
  assumes "findUnique (rd_requests db) i = Some r" and "rq_requesterId r = who"
  shows "fst (cancelRequest True i who db) = Inr () \<and>
         map_option rq_status (findUnique (rd_requests (snd (cancelRequest True i who db))) i) = Some CANCELLED \<and>
         transfers_of i (snd (cancelRequest True i who db)) = transfers_of i db"
  using assms by (simp add: cancelRequest_def findOne_def transfers_of_def Let_def)

theorem paid_request_can_be_cancelled_witness:
  "let db = snd (payRequest (Inr ''t1'') True ''r'' ''bob'' sample_requests);
       db' = snd (cancelRequest True ''r'' ''alice'' db)
   in map_option rq_status (findUnique (rd_requests db) ''r'') = Some PAID \<and>
      map_option rq_status (findUnique (rd_requests db') ''r'') = Some CANCELLED \<and>
      length (transfers_of ''r'' db') = 1"
proof -
  let ?db = "snd (payRequest (Inr ''t1'') True ''r'' ''bob'' sample_requests)"
  let ?paid = "sample_request\<lparr>rq_status := PAID, rq_txHash := Some ''t1''\<rparr>"
  have p: "payRequest (Inr ''t1'') True ''r'' ''bob'' sample_requests =
      pay_settle (Inr ''t1'') True sample_pay sample_requests"
    by (simp add: payRequest_def sample_pay_check)
  have r: "findUnique (rd_requests ?db) ''r'' = Some ?paid"
    unfolding p by (simp add: pay_settle_def sample_pay_def sample_requests_def findUnique_def update_row_def Let_def)
  have "length (transfers_of ''r'' ?db) = 1"
    unfolding p by (simp add: pay_settle_def sample_pay_def sample_requests_def transfers_of_def Let_def)
  with paid_request_can_be_cancelled [OF r, of "''alice''"] r show ?thesis
    by (simp add: sample_request_def Let_def)
qed

text \<open>Reminders are rate limited: of any sequence of attempts on a request, those that succeed are at
  least one hour apart, the ones before the sequence included.\<close>

theorem reminders_an_hour_apart:
  "sorted_wrt (\<lambda>a b. a + 60 * 60 * 1000 \<le> b)
     (case Option.bind (findUnique (rd_requests db) i) rq_lastRemindedAt of
        Some t \<Rightarrow> t # reminders i who ts db
      | None \<Rightarrow> reminders i who ts db)"
  using reminders_spaced [where i = i and db = db and who = who and ts = ts] by (simp add: last_reminder_def)

text \<open>\<open>create\<close> succeeds exactly for a recipient that is not blank, a positive amount, the token
  \<open>USDC\<close> (in any letter case, or absent) and a requester who resolves; it then stores one new
  pending request with the trimmed recipient and the amount, and every other request is
  unchanged.\<close>

theorem create_stores_one_pending_request:
  assumes "findUnique (rd_requests db) newId = None"
  shows "case create ident True now newId who dto db of
     (Inr (i, r), db') \<Rightarrow>
       i = newId \<and> findUnique (rd_requests db') newId = Some r \<and> rq_status r = PENDING \<and>
       rq_amount r = cr_amount dto \<and> 0 < rq_amount r \<and> rq_token r = ''USDC'' \<and>
       rq_recipientIdentifier r = trim (cr_recipientIdentifier dto) \<and> rq_recipientIdentifier r \<noteq> [] \<and>
       resolve_caller who db = Some (rq_requesterId r) \<and>
       (\<forall>j. j \<noteq> newId \<longrightarrow> findUnique (rd_requests db') j = findUnique (rd_requests db) j)
   | (Inl e, db') \<Rightarrow>
       db' = db \<and>
       (trim (cr_recipientIdentifier dto) = [] \<or> cr_amount dto \<le> 0 \<or>
        toUpperCase (if cr_token dto = [] then ''USDC'' else cr_token dto) \<noteq> ''USDC'' \<or>
        resolve_caller who db = None)"
  using assms
  by (auto simp: create_def findUnique_create Let_def split: option.splits prod.splits if_splits)

theorem create_stores_one_pending_request_witness:
  "map_option rq_amount (findUnique (rd_requests (snd (create None True 0 ''n'' ''alice''
     \<lparr>cr_recipientIdentifier = '' @bob '', cr_token = [], cr_amount = 5, cr_note = None, cr_expiresInDays = None\<rparr>
     sample_requests))) ''n'') = Some 5"
  using create_stores_one_pending_request [where db = sample_requests and newId = "''n''" and ident = None
      and now = 0 and who = "''alice''" and dto =
      "\<lparr>cr_recipientIdentifier = '' @bob '', cr_token = [], cr_amount = 5, cr_note = None, cr_expiresInDays = None\<rparr>"]
  by (auto simp: sample_requests_def findUnique_def trim_def is_ws_def resolve_caller_def startsWith_def
      toUpperCase_def upper_char_def split: prod.splits sum.splits)


end
