(* ===== verification/Splits.thy ===== *)
theory Splits
  imports Backend Dates
begin

text \<open>
  \<open>backend/src/splits/splits.service.ts\<close>: bill splits. Resolving a user may create one, so that
  every handler that takes an identifier returns the tables after it. New identifiers and the
  suffixes of generated names come from a supply; the token table, the relayer and whether a user
  row can be created are arguments.
\<close>

section \<open>Tables\<close>

record sp_user =
  us_username :: "string option"
  us_email :: "string option"
  us_telegramId :: "string option"
  us_whatsappId :: "string option"
  us_slackId :: "string option"
  us_discordId :: "string option"
  us_address :: "string option"
  us_nodes :: "string list"
  us_activeSession :: bool

datatype BillSplitStatus = SplitPending | SplitPartial | SplitCompleted | SplitCancelled | SplitExpired

record SplitParticipant =
  pa_userId :: "string option"
  pa_userIdentifier :: string
  pa_shareAmount :: rat
  pa_hasPaid :: bool
  pa_txHash :: "string option"

record BillSplit =
  bs_creatorId :: string
  bs_description :: "string + rat \<times> string"
  bs_token :: string
  bs_totalAmount :: rat
  bs_status :: BillSplitStatus
  bs_amountCollected :: rat
  bs_deadline :: "date option"
  bs_participants :: "SplitParticipant table"

record split_transfer =
  st_split :: string
  st_participant :: string
  st_amount :: rat
  st_txHash :: string

record sp_db =
  sd_users :: "sp_user table"
  sd_splits :: "BillSplit table"
  sd_notifications :: "(string \<times> string) list"
  sd_activity :: "(string \<times> string) list"
  sd_transfers :: "split_transfer list"
  sd_next :: nat

text \<open>The supply: the identifier and the suffix of the n-th new row, and whether it can be created.\<close>

record id_supply =
  new_id :: "nat \<Rightarrow> string"
  new_suffix :: "nat \<Rightarrow> string"
  can_create :: "nat \<Rightarrow> bool"

section \<open>Resolving users\<close>

definition same_ci :: "string option \<Rightarrow> string \<Rightarrow> bool" where
  "same_ci x s \<longleftrightarrow> (case x of Some v \<Rightarrow> toLowerCase v = toLowerCase s | None \<Rightarrow> False)"

definition matches_user :: "string \<Rightarrow> string \<times> sp_user \<Rightarrow> bool" where
  "matches_user clean iu \<longleftrightarrow>
     (let (i, u) = iu; cleanHandle = strip_at clean in
      i = clean \<or> us_username u = Some cleanHandle \<or> same_ci (us_email u) clean \<or>
      us_telegramId u = Some clean \<or> us_whatsappId u = Some clean \<or> us_slackId u = Some clean \<or>
      us_discordId u = Some clean \<or> same_ci (us_address u) clean)"

definition blank_user :: sp_user where
  "blank_user = \<lparr>us_username = None, us_email = None, us_telegramId = None, us_whatsappId = None,
                 us_slackId = None, us_discordId = None, us_address = None, us_nodes = [],
                 us_activeSession = False\<rparr>"

definition create_user :: "id_supply \<Rightarrow> sp_user \<Rightarrow> sp_db \<Rightarrow> (string \<times> sp_user) option \<times> sp_db" where
  "create_user g u db =
     (let n = sd_next db; db' = db\<lparr>sd_next := n + 1\<rparr> in
      if can_create g n
      then (Some (new_id g n, u), db'\<lparr>sd_users := create_row (new_id g n) u (sd_users db')\<rparr>)
      else (None, db'))"

text \<open>The two ways \<open>resolveUser\<close> makes up a user: one with the wallet address, then one with the handle.\<close>

definition find_wallet :: "string \<Rightarrow> sp_db \<Rightarrow> (string \<times> sp_user) option" where
  "find_wallet clean db = find (\<lambda>(i, u). same_ci (us_address u) (toLowerCase clean)) (sd_users db)"

definition provision_handle :: "id_supply \<Rightarrow> string \<Rightarrow> sp_db \<Rightarrow> (string \<times> sp_user) option \<times> sp_db" where
  "provision_handle g clean db =
     (if clean \<noteq> [] \<and> clean \<noteq> ''anonymous'' \<and> clean \<noteq> ''creator'' \<and> CHR '' '' \<notin> set clean
      then let sfx = new_suffix g (sd_next db);
               handle = (if length (strip_at clean) > 2 then strip_at clean else ''user_'' @ sfx)
           in create_user g (blank_user\<lparr>us_username := Some (handle @ ''_'' @ sfx)\<rparr>) db
      else (None, db))"

definition provision_wallet :: "id_supply \<Rightarrow> string \<Rightarrow> sp_db \<Rightarrow> (string \<times> sp_user) option \<times> sp_db" where
  "provision_wallet g clean db =
     (case find_wallet clean db of
        Some iu \<Rightarrow> (Some iu, db)
      | None \<Rightarrow>
          (case create_user g
                  (blank_user\<lparr>us_username := Some (''user_'' @ subarray (toLowerCase clean) 2 8 @ ''_''
                               @ new_suffix g (sd_next db)),
                              us_address := Some (toLowerCase clean)\<rparr>) db of
             (Some iu, db') \<Rightarrow> (Some iu, db')
           | (None, db') \<Rightarrow> (find_wallet clean db', db')))"

definition resolveUser :: "id_supply \<Rightarrow> string \<Rightarrow> sp_db \<Rightarrow> (string \<times> sp_user) option \<times> sp_db" where
  "resolveUser g identifier db =
     (if identifier = [] then (None, db)
      else let clean = trim identifier in
        case find (matches_user clean) (sd_users db) of
          Some iu \<Rightarrow> (Some iu, db)
        | None \<Rightarrow>
            if startsWith clean ''0x'' then
              (case provision_wallet g clean db of
                 (Some iu, db') \<Rightarrow> (Some iu, db')
               | (None, db') \<Rightarrow> provision_handle g clean db')
            else provision_handle g clean db)"

section \<open>Creating a split\<close>

record CreateSplitDto =
  cs_token :: string
  cs_totalAmount :: rat
  cs_participants :: "string list"
  cs_customAmounts :: "rat list option"
  cs_description :: "string option"

definition share_amounts :: "CreateSplitDto \<Rightarrow> rat list http" where
  "share_amounts dto =
     (case cs_customAmounts dto of
        Some (a # as) \<Rightarrow>
          if length (a # as) \<noteq> length (cs_participants dto)
          then Inl (BadRequest ''Custom amounts must match participants count'')
          else if \<bar>foldl (+) 0 (a # as) - cs_totalAmount dto\<bar> > 1 / 100
          then Inl (BadRequest ''Sum of custom amounts must equal total amount'')
          else Inr (a # as)
      | _ \<Rightarrow>
          Inr (replicate (length (cs_participants dto))
                 (cs_totalAmount dto / of_nat (length (cs_participants dto)))))"

fun resolve_all :: "id_supply \<Rightarrow> (string \<times> rat) list \<Rightarrow> sp_db \<Rightarrow> SplitParticipant list \<times> sp_db" where
  "resolve_all g [] db = ([], db)"
| "resolve_all g ((ident, a) # rest) db =
     (let (u, db1) = resolveUser g ident db;
          (ps, db2) = resolve_all g rest db1
      in (\<lparr>pa_userId = map_option fst u, pa_userIdentifier = ident, pa_shareAmount = a,
           pa_hasPaid = False, pa_txHash = None\<rparr> # ps, db2))"

fun number_rows :: "id_supply \<Rightarrow> nat \<Rightarrow> 'r list \<Rightarrow> 'r table" where
  "number_rows g n [] = []"
| "number_rows g n (r # rs) = (new_id g n, r) # number_rows g (n + 1) rs"

fun notify_all :: "id_supply \<Rightarrow> SplitParticipant table \<Rightarrow> sp_db \<Rightarrow> sp_db" where
  "notify_all g [] db = db"
| "notify_all g ((i, p) # ps) db =
     (let (u, db1) = resolveUser g (pa_userIdentifier p) db;
          db2 = (case u of
                   Some (uid, _) \<Rightarrow> db1\<lparr>sd_notifications := sd_notifications db1 @ [(uid, ''split_request'')]\<rparr>
                 | None \<Rightarrow> db1)
      in notify_all g ps db2)"

definition notifyParticipants :: "id_supply \<Rightarrow> string \<Rightarrow> sp_db \<Rightarrow> sp_db" where
  "notifyParticipants g splitId db =
     (case findUnique (sd_splits db) splitId of
        Some s \<Rightarrow> notify_all g (bs_participants s) db | None \<Rightarrow> db)"

text \<open>The description is the given text or, with \<^term>\<open>Inr\<close>, the generated one from the total and the
  token. \<open>deadline.setDate(deadline.getDate() + 7)\<close>: seven days of 24 hours, as on a server that runs in
  UTC.\<close>

definition createSplit ::
    "id_supply \<Rightarrow> date \<Rightarrow> string \<Rightarrow> string \<Rightarrow> CreateSplitDto \<Rightarrow> sp_db \<Rightarrow> (string \<times> BillSplit, sp_db) outcome" where
  "createSplit g now splitId creatorIdentifier dto db =
     (case resolveUser g creatorIdentifier db of
        (None, db1) \<Rightarrow> (Inl (BadRequest ''Creator user not found''), db1)
      | (Some (creatorId, _), db1) \<Rightarrow>
          if cs_participants dto = []
          then (Inl (BadRequest ''At least one participant is required''), db1)
          else if cs_totalAmount dto \<le> 0
          then (Inl (BadRequest ''Total amount must be greater than 0''), db1)
          else if \<not> distinct (cs_participants dto)
          then (Inl (BadRequest ''Duplicate participants are not allowed''), db1)
          else case share_amounts dto of
            Inl e \<Rightarrow> (Inl e, db1)
          | Inr shares \<Rightarrow>
              let (ps, db2) = resolve_all g (zip (cs_participants dto) shares) db1;
                  split = \<lparr>bs_creatorId = creatorId,
                           bs_description = (case cs_description dto of
                               Some (c # cs) \<Rightarrow> Inl (c # cs)
                             | _ \<Rightarrow> Inr (cs_totalAmount dto, cs_token dto)),
                           bs_token = toUpperCase (cs_token dto), bs_totalAmount = cs_totalAmount dto,
                           bs_status = SplitPending, bs_amountCollected = 0,
                           bs_deadline = Some (now + 7 * 24 * 60 * 60 * 1000),
                           bs_participants = number_rows g (sd_next db2) ps\<rparr>;
                  db3 = db2\<lparr>sd_next := sd_next db2 + length ps,
                            sd_splits := create_row splitId split (sd_splits db2)\<rparr>;
                  db4 = notifyParticipants g splitId db3
              in (Inr (splitId, split),
                  db4\<lparr>sd_activity := sd_activity db4 @ [(creatorId, ''SPLIT_CREATED'')]\<rparr>))"

section \<open>Reading splits\<close>

definition some_nonempty :: "string option list \<Rightarrow> string list" where
  "some_nonempty xs = concat (map (\<lambda>x. case x of Some v \<Rightarrow> if v = [] then [] else [v] | None \<Rightarrow> []) xs)"

definition getSplit :: "id_supply \<Rightarrow> string \<Rightarrow> string option \<Rightarrow> sp_db \<Rightarrow> (BillSplit, sp_db) outcome" where
  "getSplit g splitId callerIdentifier db =
     (case findUnique (sd_splits db) splitId of
        None \<Rightarrow> (Inl (NotFound ''Split not found''), db)
      | Some split \<Rightarrow>
          (case callerIdentifier of
             None \<Rightarrow> (Inr split, db)
           | Some c \<Rightarrow>
               if c = [] then (Inr split, db)
               else case resolveUser g c db of
                 (None, db1) \<Rightarrow> (Inr split, db1)
               | (Some (i, u), db1) \<Rightarrow>
                   let callerHandles =
                         some_nonempty [Some i, us_username u, us_telegramId u, us_whatsappId u, us_discordId u,
                                        us_slackId u, us_address u] @ filter (\<lambda>n. n \<noteq> []) (us_nodes u);
                       isCreator = (bs_creatorId split = i);
                       isParticipant =
                         list_ex (\<lambda>(j, p).
                           pa_userId p = Some i \<or> pa_userIdentifier p \<in> set callerHandles \<or>
                           (case us_address u of
                              Some a \<Rightarrow> a \<noteq> [] \<and> toLowerCase (pa_userIdentifier p) = toLowerCase a
                            | None \<Rightarrow> False)) (bs_participants split)
                   in if \<not> isCreator \<and> \<not> isParticipant
                      then (Inl (Forbidden ''You are not authorized to view this split''), db1)
                      else (Inr split, db1)))"

record split_view =
  vw_id :: string
  vw_split :: BillSplit
  vw_isCreator :: bool
  vw_yourShare :: rat
  vw_hasPaid :: bool

definition getUserSplits :: "id_supply \<Rightarrow> string \<Rightarrow> sp_db \<Rightarrow> split_view list \<times> sp_db" where
  "getUserSplits g identifier db =
     (case resolveUser g identifier db of
        (None, db1) \<Rightarrow> ([], db1)
      | (Some (userId, u), db1) \<Rightarrow>
          let rawWallet = (case us_address u of Some a \<Rightarrow> a | None \<Rightarrow> []);
              rawHandles = some_nonempty [us_username u] @ filter (\<lambda>n. n \<noteq> []) (us_nodes u);
              cleanHandles = map strip_at rawHandles;
              atHandles = map (\<lambda>h. CHR ''@'' # h) cleanHandles;
              identifiers =
                some_nonempty [Some userId, us_username u, us_email u, us_telegramId u, us_whatsappId u,
                               us_discordId u, us_slackId u, Some rawWallet, Some (toLowerCase rawWallet)] @
                filter (\<lambda>h. h \<noteq> []) (cleanHandles @ atHandles);
              ciIdentifiers =
                map toLowerCase (some_nonempty [us_email u, Some rawWallet, Some (toLowerCase rawWallet)]);
              visible = (\<lambda>s. bs_creatorId s = userId \<or>
                list_ex (\<lambda>(j, p). pa_userId p = Some userId \<or> pa_userIdentifier p \<in> set identifiers \<or>
                                 pa_userIdentifier p \<in> set ciIdentifiers) (bs_participants s));
              view = (\<lambda>(i, s).
                let isCreator = (bs_creatorId s = userId);
                    myPart = find (\<lambda>(j, p). pa_userId p = Some userId \<or> pa_userIdentifier p \<in> set identifiers \<or>
                                 toLowerCase (pa_userIdentifier p) \<in> set ciIdentifiers) (bs_participants s)
                in \<lparr>vw_id = i, vw_split = s, vw_isCreator = isCreator,
                    vw_yourShare = (case myPart of
                        Some (_, p) \<Rightarrow> pa_shareAmount p
                      | None \<Rightarrow> bs_totalAmount s /
                          (if bs_participants s = [] then 1 else of_nat (length (bs_participants s)))),
                    vw_hasPaid = (if isCreator then True
                                  else case myPart of Some (_, p) \<Rightarrow> pa_hasPaid p | None \<Rightarrow> False)\<rparr>)
          in (map view (rev (filter (\<lambda>(i, s). visible s) (sd_splits db1))), db1))"

definition getActiveSplits :: "id_supply \<Rightarrow> string \<Rightarrow> sp_db \<Rightarrow> split_view list \<times> sp_db" where
  "getActiveSplits g identifier db =
     (let (vs, db1) = getUserSplits g identifier db in
      (filter (\<lambda>v. bs_status (vw_split v) \<noteq> SplitCompleted) vs, db1))"

section \<open>Paying a share\<close>

definition expired :: "date \<Rightarrow> BillSplit \<Rightarrow> bool" where
  "expired now s \<longleftrightarrow> (case bs_deadline s of Some d \<Rightarrow> d < now | None \<Rightarrow> 0 < now)"

text \<open>The participant row of the payer.\<close>

definition participant_of :: "string \<times> sp_user \<Rightarrow> BillSplit \<Rightarrow> (string \<times> SplitParticipant) option" where
  "participant_of payer s =
     (let (payerId, u) = payer;
          payerIdentifiers =
            some_nonempty [us_username u, us_telegramId u, us_whatsappId u, us_discordId u, us_slackId u] @
            filter (\<lambda>n. n \<noteq> []) (us_nodes u)
      in find (\<lambda>(j, p). pa_userId p = Some payerId \<or> pa_userIdentifier p \<in> set payerIdentifiers)
           (bs_participants s))"

text \<open>The dash of one message is written as a hyphen. The transfer: every exception of the block becomes \<open>Split payment failed\<close>. \<open>ans\<close> is what the
  relayer answers, \<open>tokenKnown\<close> whether \<open>resolveToken\<close> finds the token.\<close>

definition split_transfer_result ::
    "(string \<Rightarrow> bool) \<Rightarrow> string + string \<Rightarrow> sp_user \<Rightarrow> BillSplit \<Rightarrow> sp_db \<Rightarrow> string http" where
  "split_transfer_result tokenKnown ans payer split db =
     (let fail = (\<lambda>m. Inl (BadRequest (''Split payment failed: '' @ m))) in
      if \<not> tokenKnown (bs_token split) then fail (''Token '' @ bs_token split @ '' not configured'')
      else if \<not> us_activeSession payer then fail ''Active session key required for split payment''
      else case Option.bind (findUnique (sd_users db) (bs_creatorId split)) us_address of
        None \<Rightarrow> fail ''Split creator wallet not found''
      | Some _ \<Rightarrow> (case ans of Inl m \<Rightarrow> fail m | Inr tx \<Rightarrow> Inr tx))"

definition settle_split :: "string \<Rightarrow> string \<Rightarrow> string \<Rightarrow> SplitParticipant \<Rightarrow> string \<Rightarrow> BillSplit \<Rightarrow> sp_db \<Rightarrow> sp_db" where
  "settle_split splitId payerId partId part txHash split db =
     (let paid = (\<lambda>p. p\<lparr>pa_hasPaid := True, pa_txHash := Some txHash, pa_userId := Some payerId\<rparr>);
          db1 = db\<lparr>sd_transfers := sd_transfers db @
                   [\<lparr>st_split = splitId, st_participant = partId, st_amount = pa_shareAmount part, st_txHash = txHash\<rparr>],
                   sd_splits := update_row splitId
                     (\<lambda>s. s\<lparr>bs_participants := update_row partId paid (bs_participants s)\<rparr>) (sd_splits db),
                   sd_activity := sd_activity db @ [(payerId, ''SPLIT_PAID'')]\<rparr>;
          db2 = db1\<lparr>sd_splits := update_row splitId
                     (\<lambda>s. s\<lparr>bs_amountCollected := bs_amountCollected s + pa_shareAmount part\<rparr>) (sd_splits db1)\<rparr>;
          allPaid = (case findUnique (sd_splits db2) splitId of
                       Some s \<Rightarrow> list_all (\<lambda>(j, p). pa_hasPaid p) (bs_participants s) | None \<Rightarrow> True)
      in db2\<lparr>sd_splits := update_row splitId
               (\<lambda>s. s\<lparr>bs_status := (if allPaid then SplitCompleted else SplitPartial)\<rparr>) (sd_splits db2),
             sd_notifications := sd_notifications db2 @
               [(bs_creatorId split, if allPaid then ''split_completed'' else ''split_paid'')]\<rparr>)"

definition paySplit ::
    "id_supply \<Rightarrow> (string \<Rightarrow> bool) \<Rightarrow> string + string \<Rightarrow> date \<Rightarrow> string \<Rightarrow> string \<Rightarrow> sp_db \<Rightarrow> (string \<times> rat, sp_db) outcome" where
  "paySplit g tokenKnown ans now splitId payerIdentifier db =
     (case getSplit g splitId None db of
        (Inl e, db0) \<Rightarrow> (Inl e, db0)
      | (Inr split, db0) \<Rightarrow>
          if bs_status split = SplitCompleted then (Inl (BadRequest ''Split is already completed''), db0)
          else if bs_status split = SplitCancelled then (Inl (BadRequest ''Split has been cancelled''), db0)
          else if expired now split
          then (Inl (BadRequest ''Split has expired''),
                db0\<lparr>sd_splits := update_row splitId (\<lambda>s. s\<lparr>bs_status := SplitExpired\<rparr>) (sd_splits db0)\<rparr>)
          else case resolveUser g payerIdentifier db0 of
            (None, db1) \<Rightarrow> (Inl (BadRequest ''Payer must have a smart wallet''), db1)
          | (Some (payerId, u), db1) \<Rightarrow>
              if us_address u = None then (Inl (BadRequest ''Payer must have a smart wallet''), db1)
              else if payerId = bs_creatorId split
              then (Inl (BadRequest ''The split creator does not need to pay - funds are collected to your wallet''), db1)
              else case participant_of (payerId, u) split of
                None \<Rightarrow> (Inl (BadRequest ''You are not a participant in this split''), db1)
              | Some (partId, part) \<Rightarrow>
                  if us_address u = Some []
                  then (Inl (BadRequest ''Smart wallet and relayer service required for split payment''), db1)
                  else case split_transfer_result tokenKnown ans u split db1 of
                    Inl e \<Rightarrow> (Inl e, db1)
                  | Inr txHash \<Rightarrow>
                      (Inr (txHash, pa_shareAmount part),
                       settle_split splitId payerId partId part txHash split db1))"

section \<open>What resolving a user leaves alone\<close>

lemma create_user_splits [simp]:
  "sd_splits (snd (create_user g u db)) = sd_splits db"
  "sd_transfers (snd (create_user g u db)) = sd_transfers db"
  by (simp_all add: create_user_def Let_def)

lemma provision_handle_splits [simp]:
  "sd_splits (snd (provision_handle g c db)) = sd_splits db"
  "sd_transfers (snd (provision_handle g c db)) = sd_transfers db"
  by (simp_all add: provision_handle_def Let_def)

lemma provision_wallet_splits [simp]:
  "sd_splits (snd (provision_wallet g c db)) = sd_splits db"
  "sd_transfers (snd (provision_wallet g c db)) = sd_transfers db"
  unfolding provision_wallet_def case_prod_beta by (simp_all split: option.split)

lemma resolveUser_splits [simp]:
  "sd_splits (snd (resolveUser g x db)) = sd_splits db"
  "sd_transfers (snd (resolveUser g x db)) = sd_transfers db"
  unfolding resolveUser_def Let_def case_prod_beta by (simp_all split: option.split)

lemma resolveUser_found:
  "x \<noteq> [] \<Longrightarrow> find (matches_user (trim x)) (sd_users db) = Some iu \<Longrightarrow> resolveUser g x db = (Some iu, db)"
  by (simp add: resolveUser_def Let_def)

section \<open>Shares\<close>

lemma resolve_all_rows:
  "map pa_shareAmount (fst (resolve_all g xs db)) = map snd xs"
  "map pa_userIdentifier (fst (resolve_all g xs db)) = map fst xs"
  by (induction xs arbitrary: db) (auto simp: Let_def split: prod.splits, (metis fst_conv)+)

lemma number_rows_snd: "map snd (number_rows g n rs) = rs"
  by (induction rs arbitrary: n) simp_all

lemma number_rows_map: "map (f \<circ> snd) (number_rows g n rs) = map f rs"
  using number_rows_snd [of g n rs] by (metis map_map)

lemma foldl_plus_sum: "foldl (+) a xs = a + sum_list (xs :: rat list)"
  by (induction xs arbitrary: a) (simp_all add: add.assoc)

lemma share_amounts_sum:
  assumes "share_amounts dto = Inr as" and "cs_participants dto \<noteq> []"
  shows "length as = length (cs_participants dto) \<and> \<bar>sum_list as - cs_totalAmount dto\<bar> \<le> 1 / 100 \<and>
         (cs_customAmounts dto = None \<longrightarrow> sum_list as = cs_totalAmount dto)"
proof -
  have "of_nat (length (cs_participants dto)) \<noteq> (0 :: rat)" using assms(2) by simp
  then have "sum_list (replicate (length (cs_participants dto))
      (cs_totalAmount dto / of_nat (length (cs_participants dto)))) = cs_totalAmount dto"
    by (simp add: sum_list_replicate)
  with assms show ?thesis
    by (auto simp: share_amounts_def foldl_plus_sum split: option.splits list.splits if_splits)
qed

lemma createSplit_rows:
  assumes "createSplit g now i who dto db = (Inr (j, split), db')"
  shows "\<exists>as. share_amounts dto = Inr as \<and> cs_participants dto \<noteq> [] \<and> 0 < cs_totalAmount dto \<and>
     distinct (cs_participants dto) \<and> j = i \<and> bs_totalAmount split = cs_totalAmount dto \<and>
     bs_status split = SplitPending \<and> bs_amountCollected split = 0 \<and>
     map (pa_shareAmount \<circ> snd) (bs_participants split) = map snd (zip (cs_participants dto) as) \<and>
     map (pa_userIdentifier \<circ> snd) (bs_participants split) = map fst (zip (cs_participants dto) as)"
proof -
  obtain cid u db1 as where "resolveUser g who db = (Some (cid, u), db1)"
    and g: "cs_participants dto \<noteq> []" "0 < cs_totalAmount dto" "distinct (cs_participants dto)"
    and as: "share_amounts dto = Inr as"
    using assms by (auto simp: createSplit_def split: prod.splits option.splits if_splits sum.splits)
  obtain ps db2 where ps: "resolve_all g (zip (cs_participants dto) as) db1 = (ps, db2)" by force
  have "map pa_shareAmount ps = map snd (zip (cs_participants dto) as)"
    "map pa_userIdentifier ps = map fst (zip (cs_participants dto) as)"
    using resolve_all_rows [of g "zip (cs_participants dto) as" db1] ps by simp_all
  then show ?thesis
    using assms \<open>resolveUser g who db = (Some (cid, u), db1)\<close> g as ps
    by (auto simp: createSplit_def number_rows_map Let_def)
qed

section \<open>Collected amounts\<close>

definition collected :: "string \<Rightarrow> sp_db \<Rightarrow> rat" where
  "collected i db = sum_list (map st_amount (filter (\<lambda>t. st_split t = i) (sd_transfers db)))"

definition books_balance :: "sp_db \<Rightarrow> bool" where
  "books_balance db \<longleftrightarrow>
     (\<forall>i s. findUnique (sd_splits db) i = Some s \<longrightarrow> bs_amountCollected s = collected i db)"

lemma settle_split_find:
  "findUnique (sd_splits (settle_split i pid partId p tx split db)) j =
     (if j = i
      then map_option (\<lambda>s.
        let ps = update_row partId (\<lambda>p. p\<lparr>pa_hasPaid := True, pa_txHash := Some tx, pa_userId := Some pid\<rparr>) (bs_participants s)
        in s\<lparr>bs_participants := ps, bs_amountCollected := bs_amountCollected s + pa_shareAmount p,
             bs_status := (if list_all (\<lambda>(j, p). pa_hasPaid p) ps then SplitCompleted else SplitPartial)\<rparr>)
        (findUnique (sd_splits db) j)
      else findUnique (sd_splits db) j)"
  by (auto simp: settle_split_def Let_def split: option.split)

lemma settle_split_transfers:
  "sd_transfers (settle_split i pid partId p tx split db) = sd_transfers db @
     [\<lparr>st_split = i, st_participant = partId, st_amount = pa_shareAmount p, st_txHash = tx\<rparr>]"
  by (simp add: settle_split_def Let_def)

lemma books_settle:
  "books_balance db \<Longrightarrow> books_balance (settle_split i pid partId p tx split db)"
  by (auto simp: books_balance_def collected_def settle_split_find settle_split_transfers Let_def split: if_splits)

lemma books_resolve: "books_balance db \<Longrightarrow> books_balance (snd (resolveUser g x db))"
  by (simp add: books_balance_def collected_def)

lemma paySplit_cases:
  obtains (same) "sd_splits (snd (paySplit g tk ans now i who db)) = sd_splits db"
      "sd_transfers (snd (paySplit g tk ans now i who db)) = sd_transfers db"
  | (expire) "sd_splits (snd (paySplit g tk ans now i who db)) =
        update_row i (\<lambda>s. s\<lparr>bs_status := SplitExpired\<rparr>) (sd_splits db)"
      "sd_transfers (snd (paySplit g tk ans now i who db)) = sd_transfers db"
  | (settle) split pid partId p tx db1 where
      "snd (paySplit g tk ans now i who db) = settle_split i pid partId p tx split db1"
      "findUnique (sd_splits db) i = Some split" "bs_status split \<noteq> SplitCompleted"
      "sd_splits db1 = sd_splits db" "sd_transfers db1 = sd_transfers db"
proof -
  consider (none) "findUnique (sd_splits db) i = None"
    | (closed) s where "findUnique (sd_splits db) i = Some s"
        "bs_status s = SplitCompleted \<or> bs_status s = SplitCancelled"
    | (late) s where "findUnique (sd_splits db) i = Some s" "bs_status s \<noteq> SplitCompleted"
        "bs_status s \<noteq> SplitCancelled" "expired now s"
    | (open_split) s where "findUnique (sd_splits db) i = Some s" "bs_status s \<noteq> SplitCompleted"
        "bs_status s \<noteq> SplitCancelled" "\<not> expired now s"
    by (cases "findUnique (sd_splits db) i") auto
  then show thesis
  proof cases
    case (open_split s)
    obtain r db1 where r: "resolveUser g who db = (r, db1)" by force
    have keep: "sd_splits db1 = sd_splits db" "sd_transfers db1 = sd_transfers db"
      using resolveUser_splits [of g who db] r by simp_all
    show thesis
    proof (cases "\<exists>pid u partId p tx. snd (paySplit g tk ans now i who db) = settle_split i pid partId p tx s db1")
      case True
      then show thesis using settle open_split keep by blast
    next
      case False
      have "snd (paySplit g tk ans now i who db) = db1 \<or>
          (\<exists>pid u partId p tx. snd (paySplit g tk ans now i who db) = settle_split i pid partId p tx s db1)"
        using open_split r
        by (auto simp: paySplit_def getSplit_def split: option.split prod.split sum.split if_split)
      with False keep show thesis using same by simp
    qed
  qed (use same expire in \<open>auto simp: paySplit_def getSplit_def\<close>)
qed

lemma books_pay:
  assumes "books_balance db"
  shows "books_balance (snd (paySplit g tk ans now i who db))"
proof (cases rule: paySplit_cases [of g tk ans now i who db])
  case same
  with assms show ?thesis by (simp add: books_balance_def collected_def)
next
  case expire
  with assms show ?thesis by (auto simp: books_balance_def collected_def split: if_splits)
next
  case (settle split pid partId p tx db1)
  then have "books_balance db1" using assms by (simp add: books_balance_def collected_def)
  with settle show ?thesis by (simp add: books_settle)
qed


section \<open>Properties\<close>

record pay_call =
  pc_ans :: "string + string"
  pc_now :: date
  pc_split :: string
  pc_who :: string

definition pay_step :: "id_supply \<Rightarrow> (string \<Rightarrow> bool) \<Rightarrow> pay_call \<Rightarrow> sp_db \<Rightarrow> sp_db" where
  "pay_step g tk c db = snd (paySplit g tk (pc_ans c) (pc_now c) (pc_split c) (pc_who c) db)"

lemma books_run: "books_balance db \<Longrightarrow> books_balance (fold (pay_step g tk) cs db)"
  by (induction cs arbitrary: db) (simp_all add: pay_step_def books_pay)

definition sample_supply :: id_supply where
  "sample_supply = \<lparr>new_id = (\<lambda>n. ''id'' @ show_nat n), new_suffix = show_nat, can_create = (\<lambda>_. True)\<rparr>"

definition person :: "string \<Rightarrow> string \<times> sp_user" where
  "person n = (n, blank_user\<lparr>us_username := Some n, us_address := Some (''0x'' @ n), us_activeSession := True\<rparr>)"

definition share :: "string \<Rightarrow> bool \<Rightarrow> SplitParticipant" where
  "share n paid = \<lparr>pa_userId = Some n, pa_userIdentifier = n, pa_shareAmount = 5, pa_hasPaid = paid, pa_txHash = None\<rparr>"

definition dinner :: BillSplit where
  "dinner = \<lparr>bs_creatorId = ''carol'', bs_description = Inl ''dinner'', bs_token = ''USDC'', bs_totalAmount = 10,
             bs_status = SplitPartial, bs_amountCollected = 5, bs_deadline = Some 1000,
             bs_participants = [(''p1'', share ''alice'' True), (''p2'', share ''bob'' False)]\<rparr>"

definition sample_splits :: sp_db where
  "sample_splits = \<lparr>sd_users = [person ''alice'', person ''bob'', person ''carol''], sd_splits = [(''s'', dinner)],
                    sd_notifications = [], sd_activity = [],
                    sd_transfers = [\<lparr>st_split = ''s'', st_participant = ''p1'', st_amount = 5, st_txHash = ''t0''\<rparr>],
                    sd_next = 0\<rparr>"

text \<open>A created split has one share for each participant, in their order, and the shares add up to
  the total: exactly for an equal split, within one cent for custom amounts; the total is
  positive, no participant is listed twice, and nothing is collected yet.\<close>

theorem created_shares_cover_total:
  assumes "createSplit g now i who dto db = (Inr (j, split), db')"
  shows "map (pa_userIdentifier \<circ> snd) (bs_participants split) = cs_participants dto \<and>
         distinct (cs_participants dto) \<and> 0 < bs_totalAmount split \<and> bs_amountCollected split = 0 \<and>
         \<bar>sum_list (map (pa_shareAmount \<circ> snd) (bs_participants split)) - bs_totalAmount split\<bar> \<le> 1 / 100 \<and>
         (case cs_customAmounts dto of
            None \<Rightarrow> sum_list (map (pa_shareAmount \<circ> snd) (bs_participants split)) = bs_totalAmount split
          | Some _ \<Rightarrow> True)"
proof -
  obtain as where as: "share_amounts dto = Inr as" "cs_participants dto \<noteq> []" "0 < cs_totalAmount dto"
    "distinct (cs_participants dto)" "bs_totalAmount split = cs_totalAmount dto" "bs_amountCollected split = 0"
    "map (pa_shareAmount \<circ> snd) (bs_participants split) = map snd (zip (cs_participants dto) as)"
    "map (pa_userIdentifier \<circ> snd) (bs_participants split) = map fst (zip (cs_participants dto) as)"
    using createSplit_rows [OF assms] by auto
  with share_amounts_sum [OF as(1,2)] show ?thesis by (auto split: option.split)
qed

theorem created_shares_cover_total_witness:
  "\<exists>split db'. createSplit sample_supply 0 ''n'' ''carol''
      \<lparr>cs_token = ''usdc'', cs_totalAmount = 10, cs_participants = [''alice'', ''bob'', ''carol''],
       cs_customAmounts = None, cs_description = None\<rparr> sample_splits = (Inr (''n'', split), db') \<and>
     sum_list (map (pa_shareAmount \<circ> snd) (bs_participants split)) = bs_totalAmount split"
proof -
  let ?dto = "\<lparr>cs_token = ''usdc'', cs_totalAmount = 10, cs_participants = [''alice'', ''bob'', ''carol''],
       cs_customAmounts = None, cs_description = None\<rparr>"
  have "find (matches_user (trim ''carol'')) (sd_users sample_splits) = Some (person ''carol'')"
    by (simp add: sample_splits_def person_def matches_user_def trim_def is_ws_def strip_at_def same_ci_def
        blank_user_def toLowerCase_def lower_char_def)
  then have "resolveUser sample_supply ''carol'' sample_splits = (Some (person ''carol''), sample_splits)"
    by (simp add: resolveUser_found)
  moreover obtain ps db2 where
    "resolve_all sample_supply (zip (cs_participants ?dto) (replicate 3 (10 / 3))) sample_splits = (ps, db2)"
    by force
  moreover have "share_amounts ?dto = Inr (replicate 3 (10 / 3))" by (simp add: share_amounts_def numeral_eq_Suc)
  ultimately obtain split db' where
    c: "createSplit sample_supply 0 ''n'' ''carol'' ?dto sample_splits = (Inr (''n'', split), db')"
    by (simp add: createSplit_def person_def Let_def del: resolve_all.simps zip_Cons_Cons zip.simps)
  from created_shares_cover_total [OF c] c show ?thesis by auto
qed

text \<open>The amount a split says it has collected is the sum of the transfers made for it, after any
  sequence of payments by anyone, with any answers of the relayer.\<close>

theorem collected_equals_transfers:
  assumes "\<forall>(i, s) \<in> set (sd_splits db). bs_amountCollected s = collected i db"
    and "findUnique (sd_splits (fold (pay_step g tk) calls db)) i = Some s"
  shows "bs_amountCollected s = collected i (fold (pay_step g tk) calls db)"
proof -
  have "books_balance db"
    using assms(1) by (auto simp: books_balance_def findUnique_def dest: map_of_SomeD)
  with books_run [OF this, of g tk calls] assms(2) show ?thesis by (simp add: books_balance_def)
qed

theorem collected_equals_transfers_witness:
  "bs_amountCollected dinner = collected ''s'' sample_splits"
  using collected_equals_transfers [of sample_splits sample_supply "\<lambda>_. True" "[]" "''s''" dinner]
  by (simp add: sample_splits_def dinner_def collected_def findUnique_def)

text \<open>\<open>paySplit\<close> never looks at \<open>hasPaid\<close>: a participant who has paid and whose split is still
  open is charged the share again, and the collected amount grows past what is owed.\<close>

theorem paid_participant_charged_again:
  assumes "findUnique (sd_splits db) i = Some s" and "bs_status s = SplitPartial" and "\<not> expired now s"
    and "who \<noteq> []" and "find (matches_user (trim who)) (sd_users db) = Some (pid, u)"
    and "us_address u = Some (a # as)" and "us_activeSession u" and "pid \<noteq> bs_creatorId s"
    and "participant_of (pid, u) s = Some (partId, p)" and "pa_hasPaid p" and "tk (bs_token s)"
    and "Option.bind (findUnique (sd_users db) (bs_creatorId s)) us_address = Some c"
  shows "fst (paySplit g tk (Inr tx) now i who db) = Inr (tx, pa_shareAmount p) \<and>
         collected i (snd (paySplit g tk (Inr tx) now i who db)) = collected i db + pa_shareAmount p"
  using assms
  by (simp add: paySplit_def getSplit_def resolveUser_found split_transfer_result_def collected_def
      settle_split_transfers Let_def)

theorem paid_participant_charged_again_witness:
  "collected ''s'' (snd (paySplit sample_supply (\<lambda>_. True) (Inr ''t1'') 1 ''s'' ''alice'' sample_splits)) = 10"
proof -
  have u: "find (matches_user (trim ''alice'')) (sd_users sample_splits) = Some (person ''alice'')"
    by (simp add: sample_splits_def person_def matches_user_def trim_def is_ws_def strip_at_def)
  have p: "participant_of (person ''alice'') dinner = Some (''p1'', share ''alice'' True)"
    by (simp add: participant_of_def person_def dinner_def share_def)
  have "collected ''s'' sample_splits = 5" by (simp add: collected_def sample_splits_def)
  with paid_participant_charged_again [of sample_splits "''s''" dinner 1 "''alice''" "fst (person ''alice'')"
      "snd (person ''alice'')" "CHR ''0''" "''xalice''" "''p1''" "share ''alice'' True" "\<lambda>_. True" "''0xcarol''"
      sample_supply "''t1''"] u p
  show ?thesis
    by (simp add: sample_splits_def dinner_def findUnique_def expired_def person_def share_def)
qed

text \<open>A split is shown to a caller who cannot be resolved to a user: the check that the caller is the
  creator or a participant is skipped, so that the identifier \<open>anonymous\<close>, for which no user is
  ever created, reads every split.\<close>

theorem unresolved_caller_reads_every_split:
  assumes "findUnique (sd_splits db) i = Some s" and "find (matches_user ''anonymous'') (sd_users db) = None"
  shows "getSplit g i (Some ''anonymous'') db = (Inr s, db)"
proof -
  have "trim ''anonymous'' = ''anonymous''" by (simp add: trim_def is_ws_def)
  then have "resolveUser g ''anonymous'' db = (None, db)"
    using assms(2) by (simp add: resolveUser_def provision_handle_def startsWith_def Let_def)
  with assms(1) show ?thesis by (simp add: getSplit_def)
qed

theorem unresolved_caller_reads_every_split_witness:
  "getSplit sample_supply ''s'' (Some ''anonymous'') sample_splits = (Inr dinner, sample_splits)"
  using unresolved_caller_reads_every_split [of sample_splits "''s''" dinner sample_supply]
  by (simp add: sample_splits_def person_def matches_user_def findUnique_def strip_at_def same_ci_def
      blank_user_def toLowerCase_def lower_char_def)


end
