(* ===== verification/ProgramAuth.thy ===== *)
theory ProgramAuth
  imports P256 Challenge Accounts
begin

text \<open>
  \<open>contracts/anchor/programs/veriagent_pay/src/auth.rs\<close>: how the program decides that the owner of a
  vault has authorised an action. The challenge is recomputed from the action, the WebAuthn data
  must carry it, and the instruction before the current one must be a call of the secp256r1
  precompile on exactly the signed message and the key of the vault. The last section joins the
  two sides: the instruction that \<open>p256.ts\<close> builds is accepted, and only for the key and the
  message it was built from.

  What the program calls but the repository does not contain is the record \<open>runtime\<close>: the JSON
  reader of \<open>serde_json\<close> on the client data, the base64url reader of \<open>base64ct\<close>, the transfer of the
  SPL token program and the rent of an account of a given size.
\<close>

section \<open>Errors and runtime\<close>

datatype VeriAgentError =
    ProtocolPaused | InvalidStablecoinMint | InvalidRootKeyHash | InvalidAuthorizationExpiry
  | InvalidVaultNonce | InvalidSessionNonce | MissingSecp256r1Instruction | InvalidSecp256r1Instruction
  | InvalidSecp256r1PublicKey | InvalidSecp256r1Message | InvalidAuthenticatorData | InvalidRpIdHash
  | UserVerificationRequired | InvalidClientData | InvalidWebAuthnType | CrossOriginAssertion
  | InvalidWebAuthnOrigin | InvalidWebAuthnChallenge | InvalidSessionWindow | InvalidSessionActions
  | InvalidSessionLimits | SessionRevoked | SessionInactive | SessionActionDenied
  | PerActionLimitExceeded | CumulativeLimitExceeded | ArithmeticOverflow | InvalidTransferAmount
  | IdenticalTokenAccounts | InvalidPaymentLinkExpiry | InvalidRecipientCommitment
  | PaymentLinkNotActive | PaymentLinkExpired | PaymentLinkNotExpired | InvalidPaymentLinkSender
  | InvalidClaimAuthority | InsufficientVaultLamports | InsufficientEscrowLamports
  | IdenticalAccounts | InvalidNativePaymentLink

text \<open>The errors of the account constraints that carry no error of the program, and those of the token
  and system programs.\<close>

datatype program_error = Program VeriAgentError | Framework string

type_synonym 'a result = "program_error + 'a"

definition require :: "bool \<Rightarrow> VeriAgentError \<Rightarrow> unit result" where
  "require c e = (if c then Inr () else Inl (Program e))"

lemma require_simps [simp]: "require True e = Inr ()" "require False e = Inl (Program e)"
  by (simp_all add: require_def)

lemma require_Inr [simp]: "require c e = Inr u \<longleftrightarrow> c"
  by (simp add: require_def)

record client_data =
  cd_type :: string
  cd_challenge :: string
  cd_origin :: string
  cd_crossOrigin :: "bool option"

record 'pk runtime =
  rt_client_data :: "bytes \<Rightarrow> client_data option"
  rt_base64url :: "string \<Rightarrow> bytes option"
  rt_transfer :: "('pk \<rightharpoonup> nat) \<Rightarrow> 'pk \<Rightarrow> 'pk \<Rightarrow> nat \<Rightarrow> ('pk \<rightharpoonup> nat) option"
  rt_rent :: "nat \<Rightarrow> nat"

record 'pk ProtocolConfig =
  cfg_paused :: bool
  cfg_authority :: 'pk
  cfg_stablecoin_mint :: 'pk
  cfg_rp_id_hash :: bytes
  cfg_origin_hash :: bytes
  cfg_cluster_domain :: bytes

section \<open>auth.rs\<close>

definition program_challenge :: "'pk sdk \<Rightarrow> bytes list \<Rightarrow> bytes" where
  "program_challenge S parts = sha256 S (concat (CHALLENGE_DOMAIN # parts))"

definition I64_MAX :: int where "I64_MAX = 2 ^ 63 - 1"

definition MAX_AUTHORIZATION_TTL_SECONDS :: int where "MAX_AUTHORIZATION_TTL_SECONDS = 5 * 60"

definition saturating_add :: "int \<Rightarrow> int \<Rightarrow> int" where
  "saturating_add a b = max (- (2 ^ 63)) (min I64_MAX (a + b))"

definition saturating_sub :: "int \<Rightarrow> int \<Rightarrow> int" where
  "saturating_sub a b = max (- (2 ^ 63)) (min I64_MAX (a - b))"

definition validate_authorization_expiry :: "int \<Rightarrow> int \<Rightarrow> unit result" where
  "validate_authorization_expiry now expires_at =
     require (now \<le> expires_at \<and> expires_at \<le> saturating_add now MAX_AUTHORIZATION_TTL_SECONDS)
       InvalidAuthorizationExpiry"

definition validate_webauthn_data ::
    "'pk sdk \<Rightarrow> 'pk runtime \<Rightarrow> 'pk ProtocolConfig \<Rightarrow> bytes \<Rightarrow> bytes \<Rightarrow> bytes \<Rightarrow> unit result" where
  "validate_webauthn_data S rt config authenticator_data client_data_json expected_challenge =
     bindE (require (37 \<le> length authenticator_data) InvalidAuthenticatorData) (\<lambda>_.
     bindE (require (take 32 authenticator_data = cfg_rp_id_hash config) InvalidRpIdHash) (\<lambda>_.
     bindE (require (authenticator_data ! 32 AND 5 = 5) UserVerificationRequired) (\<lambda>_.
     case rt_client_data rt client_data_json of
       None \<Rightarrow> Inl (Program InvalidClientData)
     | Some cd \<Rightarrow>
         bindE (require (cd_type cd = ''webauthn.get'') InvalidWebAuthnType) (\<lambda>_.
         bindE (require (cd_crossOrigin cd \<noteq> Some True) CrossOriginAssertion) (\<lambda>_.
         bindE (require (sha256 S (utf8 (cd_origin cd)) = cfg_origin_hash config) InvalidWebAuthnOrigin) (\<lambda>_.
         case rt_base64url rt (cd_challenge cd) of
           None \<Rightarrow> Inl (Program InvalidWebAuthnChallenge)
         | Some c \<Rightarrow> require (c = expected_challenge) InvalidWebAuthnChallenge))))))"

definition read_u16 :: "bytes \<Rightarrow> nat \<Rightarrow> nat result" where
  "read_u16 data offset =
     (if length data < offset + 2 then Inl (Program InvalidSecp256r1Instruction)
      else Inr (nat (le_uint (subarray data offset (offset + 2)))))"

definition SECP256R1_DATA_START :: nat where "SECP256R1_DATA_START = 16"

definition validate_secp256r1_instruction ::
    "'pk sdk \<Rightarrow> 'pk instruction \<Rightarrow> bytes \<Rightarrow> bytes \<Rightarrow> unit result" where
  "validate_secp256r1_instruction S ix expected_public_key expected_message =
     bindE (require (ix_programId ix = SECP256R1_PROGRAM_ID S) MissingSecp256r1Instruction) (\<lambda>_.
     bindE (require (ix_keys ix = []) InvalidSecp256r1Instruction) (\<lambda>_.
     let data = ix_data ix in
     bindE (require (SECP256R1_DATA_START \<le> length data \<and> data ! 0 = 1) InvalidSecp256r1Instruction) (\<lambda>_.
     bindE (read_u16 data 2) (\<lambda>signature_offset.
     bindE (read_u16 data 4) (\<lambda>signature_instruction_index.
     bindE (read_u16 data 6) (\<lambda>public_key_offset.
     bindE (read_u16 data 8) (\<lambda>public_key_instruction_index.
     bindE (read_u16 data 10) (\<lambda>message_offset.
     bindE (read_u16 data 12) (\<lambda>message_size.
     bindE (read_u16 data 14) (\<lambda>message_instruction_index.
     let expected_public_key_offset = SECP256R1_DATA_START;
         expected_signature_offset = expected_public_key_offset + 33;
         expected_message_offset = expected_signature_offset + 64
     in
     bindE (require
       (public_key_offset = expected_public_key_offset \<and> signature_offset = expected_signature_offset \<and>
        message_offset = expected_message_offset \<and> message_size = length expected_message \<and>
        signature_instruction_index = 65535 \<and> public_key_instruction_index = 65535 \<and>
        message_instruction_index = 65535 \<and> length data = expected_message_offset + length expected_message)
       InvalidSecp256r1Instruction) (\<lambda>_.
     bindE (require (subarray data expected_public_key_offset expected_signature_offset = expected_public_key)
       InvalidSecp256r1PublicKey) (\<lambda>_.
     require (drop expected_message_offset data = expected_message) InvalidSecp256r1Message))))))))))))"

text \<open>\<open>previous\<close> is the instruction before the current one in the transaction, if there is one.\<close>

definition verify_root_authorization ::
    "'pk sdk \<Rightarrow> 'pk runtime \<Rightarrow> 'pk ProtocolConfig \<Rightarrow> 'pk instruction option \<Rightarrow> int
     \<Rightarrow> bytes \<Rightarrow> bytes \<Rightarrow> bytes \<Rightarrow> bytes \<Rightarrow> int \<Rightarrow> unit result" where
  "verify_root_authorization S rt config previous now root_public_key authenticator_data client_data_json
       expected_challenge expires_at =
     bindE (validate_authorization_expiry now expires_at) (\<lambda>_.
     bindE (validate_webauthn_data S rt config authenticator_data client_data_json expected_challenge) (\<lambda>_.
     case previous of
       None \<Rightarrow> Inl (Program MissingSecp256r1Instruction)
     | Some ix \<Rightarrow>
         validate_secp256r1_instruction S ix root_public_key
           (authenticator_data @ sha256 S client_data_json)))"

section \<open>The two sides of the signature check\<close>

lemma read_u16_u16_at: "offset + 2 \<le> length data \<Longrightarrow> read_u16 data offset = Inr (u16_at data offset)"
  by (simp add: read_u16_def u16_at_def)

lemma validate_secp256r1_iff:
  assumes "createSecp256r1Instruction S p = Inr ix"
  shows "validate_secp256r1_instruction S ix k m = Inr () \<longleftrightarrow>
           k = compressedPublicKey p \<and> m = authenticatorData p @ sha256 S (clientDataJson p)"
proof -
  let ?m = "authenticatorData p @ sha256 S (clientDataJson p)"
  obtain sig where sig: "length sig = 64" and pk: "length (compressedPublicKey p) = 33"
    and len: "length ?m < 65536"
    and ix: "ix = \<lparr>ix_programId = SECP256R1_PROGRAM_ID S, ix_keys = [],
                  ix_data = secp_header (length ?m) @ compressedPublicKey p @ sig @ ?m\<rparr>"
    using createSecp256r1Instruction_Inr [OF assms] by metis
  let ?d = "secp_header (length ?m) @ compressedPublicKey p @ sig @ ?m"
  have d: "length ?d = 113 + length ?m" "?d ! 0 = 1" "drop 113 ?d = ?m"
    "subarray ?d 16 49 = compressedPublicKey p"
    using sig pk by (simp_all add: nth_append secp_header_def subarray_def le_bytes_2)
  have r: "read_u16 ?d 2 = Inr 49" "read_u16 ?d 4 = Inr 65535" "read_u16 ?d 6 = Inr 16"
    "read_u16 ?d 8 = Inr 65535" "read_u16 ?d 10 = Inr 113" "read_u16 ?d 12 = Inr (length ?m)"
    "read_u16 ?d 14 = Inr 65535"
    using u16_at_secp_header [OF len, of "compressedPublicKey p @ sig @ ?m"]
    by (simp_all add: read_u16_u16_at d(1) del: append_assoc length_append)
  have "validate_secp256r1_instruction S ix k m = Inr () \<longleftrightarrow>
      length ?m = length m \<and> compressedPublicKey p = k \<and> ?m = m"
    unfolding validate_secp256r1_instruction_def ix SECP256R1_DATA_START_def Let_def
      instruction.select_convs r bindE_simps d(1)
    using d by (simp add: bindE_Inr_iff)
  then show ?thesis by auto
qed

section \<open>Properties\<close>

text \<open>C35. Client and program agree on the signature instruction: what \<open>createSecp256r1Instruction\<close>
  builds from a proof passes \<open>validate_secp256r1_instruction\<close> of the program for the public key of
  the proof and the message \<open>authenticatorData || SHA-256(clientDataJSON)\<close>, and for no other key
  and no other message.\<close>

theorem program_accepts_client_signature_instruction:
  assumes "createSecp256r1Instruction S p = Inr ix"
  shows "validate_secp256r1_instruction S ix k m = Inr () \<longleftrightarrow>
           k = compressedPublicKey p \<and> m = authenticatorData p @ sha256 S (clientDataJson p)"
  by (rule validate_secp256r1_iff [OF assms])

lemma demo_instruction_exists: "\<exists>ix. createSecp256r1Instruction word_sdk demo_proof = Inr ix"
proof -
  have "derToCompactLowS [0x30, 6, 2, 1, 1, 2, 1, 2] = Inr (be_bytes 32 1 @ be_bytes 32 2)"
    by code_simp
  moreover have "length (utf8 ''{}'') = 2" by code_simp
  ultimately show ?thesis
    by (simp add: createSecp256r1Instruction_def demo_proof_def PUBLIC_KEY_SIZE_def
        webAuthnSignedMessage_def word_sdk_def Let_def)
qed

theorem program_accepts_client_signature_instruction_witness:
  "\<exists>ix. createSecp256r1Instruction word_sdk demo_proof = Inr ix \<and>
     validate_secp256r1_instruction word_sdk ix (compressedPublicKey demo_proof)
       (authenticatorData demo_proof @ sha256 word_sdk (clientDataJson demo_proof)) = Inr ()"
proof -
  obtain ix where ix: "createSecp256r1Instruction word_sdk demo_proof = Inr ix"
    using demo_instruction_exists by blast
  from program_accepts_client_signature_instruction [OF ix] ix show ?thesis by auto
qed


end
