(* ===== verification/Ledger.thy ===== *)
theory Ledger
  imports ProgramAuth
begin

unbundle bit_operations_syntax

text \<open>
  The handlers of the Anchor program (\<open>contracts/anchor/programs/veriagent_pay/src\<close>: \<open>protocol.rs\<close>,
  \<open>wallet.rs\<close>, \<open>native_sol.rs\<close>, \<open>payment_links.rs\<close>) on a ledger: the accounts of the program, the
  token accounts of the stablecoin and the lamports of every address. A handler checks the account
  constraints and the requirements in the order of the code and returns the new ledger or the
  error; a failed instruction leaves the ledger as it was. An address that the seeds of an account
  determine is computed from them, since the framework rejects any other. Unsigned 64-bit fields
  are natural numbers, with every \<open>checked_add\<close> written out.
\<close>

section \<open>State\<close>

record Vault =
  va_root_public_key :: bytes
  va_root_key_hash :: bytes
  va_user_salt :: bytes
  va_nonce :: nat
  va_created_at :: int

record 'pk Session =
  se_revoked :: bool
  se_vault :: 'pk
  se_public_key :: 'pk
  se_action_bitmap :: "16 word"
  se_per_action_limit :: nat
  se_cumulative_limit :: nat
  se_spent :: nat
  se_valid_after :: int
  se_valid_until :: int
  se_nonce :: nat

record 'pk PaymentLink =
  ln_status :: nat
  ln_sender_vault :: 'pk
  ln_mint :: 'pk
  ln_link_id :: bytes
  ln_recipient_commitment :: bytes
  ln_amount :: nat
  ln_expires_at :: int
  ln_created_at :: int
  ln_settled_at :: int
  ln_claimed_destination :: 'pk

record 'pk ledger =
  lg_config :: "'pk ProtocolConfig option"
  lg_claim_authority :: "'pk option"
  lg_vaults :: "'pk \<rightharpoonup> Vault"
  lg_sessions :: "'pk \<rightharpoonup> 'pk Session"
  lg_links :: "'pk \<rightharpoonup> 'pk PaymentLink"
  lg_tokens :: "'pk \<rightharpoonup> nat"
  lg_lamports :: "'pk \<Rightarrow> nat"

text \<open>What a transaction brings: the time of the cluster, its signers, the instruction before the
  current one.\<close>

record 'pk tx =
  tx_now :: int
  tx_signers :: "'pk list"
  tx_previous :: "'pk instruction option"

definition PAYMENT_LINK_STATUS_ACTIVE :: nat where "PAYMENT_LINK_STATUS_ACTIVE = 0"
definition PAYMENT_LINK_STATUS_CLAIMED :: nat where "PAYMENT_LINK_STATUS_CLAIMED = 1"
definition PAYMENT_LINK_STATUS_CANCELLED :: nat where "PAYMENT_LINK_STATUS_CANCELLED = 2"
definition PAYMENT_LINK_STATUS_REFUNDED :: nat where "PAYMENT_LINK_STATUS_REFUNDED = 3"

lemmas link_status_defs = PAYMENT_LINK_STATUS_ACTIVE_def PAYMENT_LINK_STATUS_CLAIMED_def
  PAYMENT_LINK_STATUS_CANCELLED_def PAYMENT_LINK_STATUS_REFUNDED_def

definition SESSION_ACTION_TRANSFER :: "16 word" where "SESSION_ACTION_TRANSFER = 1"
definition SUPPORTED_SESSION_ACTIONS :: "16 word" where "SUPPORTED_SESSION_ACTIONS = SESSION_ACTION_TRANSFER"
definition MAX_SESSION_DURATION_SECONDS :: int where "MAX_SESSION_DURATION_SECONDS = 30 * 24 * 60 * 60"
definition MAX_PAYMENT_LINK_DURATION_SECONDS :: int where "MAX_PAYMENT_LINK_DURATION_SECONDS = 30 * 24 * 60 * 60"

section \<open>Accounts and transfers\<close>

definition anchor :: "bool \<Rightarrow> string \<Rightarrow> unit result" where
  "anchor c e = (if c then Inr () else Inl (Framework e))"

lemma anchor_Inr [simp]: "anchor c e = Inr u \<longleftrightarrow> c"
  by (simp add: anchor_def)

definition fetch :: "('k \<rightharpoonup> 'v) \<Rightarrow> 'k \<Rightarrow> 'v result" where
  "fetch m k = (case m k of None \<Rightarrow> Inl (Framework ''AccountNotInitialized'') | Some v \<Rightarrow> Inr v)"

lemma fetch_Inr [simp]: "fetch m k = Inr v \<longleftrightarrow> m k = Some v"
  by (simp add: fetch_def split: option.split)

definition checked_add :: "nat \<Rightarrow> nat \<Rightarrow> nat result" where
  "checked_add a b = (if a + b < 2 ^ 64 then Inr (a + b) else Inl (Program ArithmeticOverflow))"

lemma checked_add_Inr [simp]: "checked_add a b = Inr c \<longleftrightarrow> c = a + b \<and> a + b < 2 ^ 64"
  by (auto simp: checked_add_def)

definition any_config :: "'pk ledger \<Rightarrow> 'pk ProtocolConfig result" where
  "any_config lg = (case lg_config lg of None \<Rightarrow> Inl (Framework ''AccountNotInitialized'') | Some c \<Rightarrow> Inr c)"

definition live_config :: "'pk ledger \<Rightarrow> 'pk ProtocolConfig result" where
  "live_config lg = bindE (any_config lg) (\<lambda>c. bindE (require (\<not> cfg_paused c) ProtocolPaused) (\<lambda>_. Inr c))"

lemma any_config_Inr [simp]: "any_config lg = Inr c \<longleftrightarrow> lg_config lg = Some c"
  by (simp add: any_config_def split: option.split)

lemma live_config_Inr [simp]: "live_config lg = Inr c \<longleftrightarrow> lg_config lg = Some c \<and> \<not> cfg_paused c"
  by (auto simp: live_config_def bindE_Inr_iff)

definition vault_address :: "'pk sdk \<Rightarrow> bytes \<Rightarrow> bytes \<Rightarrow> 'pk" where
  "vault_address S root_key_hash user_salt =
     findProgramAddress S [VAULT_SEED, root_key_hash, user_salt] (VERIAGENT_PROGRAM_ID S)"

definition link_address :: "'pk sdk \<Rightarrow> 'pk \<Rightarrow> bytes \<Rightarrow> 'pk" where
  "link_address S sender_vault link_id =
     findProgramAddress S [PAYMENT_LINK_SEED, pk_bytes S sender_vault, link_id] (VERIAGENT_PROGRAM_ID S)"

abbreviation session_address :: "'pk sdk \<Rightarrow> 'pk \<Rightarrow> 'pk \<Rightarrow> 'pk" where
  "session_address S vault signer \<equiv> deriveSession S vault signer None"

abbreviation ata :: "'pk sdk \<Rightarrow> 'pk ProtocolConfig \<Rightarrow> 'pk \<Rightarrow> 'pk" where
  "ata S c owner \<equiv> getAssociatedTokenAddress S (cfg_stablecoin_mint c) owner True (TOKEN_PROGRAM_ID S)"

definition seeded_vault :: "'pk sdk \<Rightarrow> 'pk ledger \<Rightarrow> 'pk \<Rightarrow> Vault result" where
  "seeded_vault S lg v =
     bindE (fetch (lg_vaults lg) v) (\<lambda>va.
     bindE (anchor (vault_address S (va_root_key_hash va) (va_user_salt va) = v) ''ConstraintSeeds'') (\<lambda>_. Inr va))"

definition seeded_link :: "'pk sdk \<Rightarrow> 'pk ledger \<Rightarrow> 'pk \<Rightarrow> 'pk PaymentLink result" where
  "seeded_link S lg l =
     bindE (fetch (lg_links lg) l) (\<lambda>pl.
     bindE (anchor (link_address S (ln_sender_vault pl) (ln_link_id pl) = l) ''ConstraintSeeds'') (\<lambda>_. Inr pl))"

definition signed_session :: "'pk sdk \<Rightarrow> 'pk tx \<Rightarrow> 'pk ledger \<Rightarrow> 'pk \<Rightarrow> 'pk \<Rightarrow> 'pk Session result" where
  "signed_session S cx lg v signer =
     bindE (fetch (lg_sessions lg) (session_address S v signer)) (\<lambda>se.
     bindE (anchor (se_vault se = v \<and> se_public_key se = signer) ''ConstraintRaw'') (\<lambda>_.
     bindE (anchor (signer \<in> set (tx_signers cx)) ''AccountNotSigner'') (\<lambda>_. Inr se)))"

text \<open>\<open>init\<close>: the payer funds the new account up to the rent of its size.\<close>

definition fund_account :: "'pk runtime \<Rightarrow> nat \<Rightarrow> 'pk \<Rightarrow> 'pk \<Rightarrow> 'pk ledger \<Rightarrow> 'pk ledger result" where
  "fund_account rt space payer addr lg =
     (let topup = rt_rent rt space - lg_lamports lg addr in
      if payer = addr \<or> lg_lamports lg payer < topup then Inl (Framework ''InsufficientFunds'')
      else Inr (lg\<lparr>lg_lamports := (lg_lamports lg)(payer := lg_lamports lg payer - topup,
                                                    addr := lg_lamports lg addr + topup)\<rparr>))"

definition TOKEN_ACCOUNT_SIZE :: nat where "TOKEN_ACCOUNT_SIZE = 165"

definition init_token_account :: "'pk runtime \<Rightarrow> 'pk \<Rightarrow> 'pk \<Rightarrow> 'pk ledger \<Rightarrow> 'pk ledger result" where
  "init_token_account rt payer addr lg =
     bindE (anchor (lg_tokens lg addr = None) ''AccountAlreadyInUse'') (\<lambda>_.
     bindE (fund_account rt TOKEN_ACCOUNT_SIZE payer addr lg) (\<lambda>lg'.
     Inr (lg'\<lparr>lg_tokens := (lg_tokens lg')(addr \<mapsto> 0)\<rparr>)))"

definition init_token_account_if_needed :: "'pk runtime \<Rightarrow> 'pk \<Rightarrow> 'pk \<Rightarrow> 'pk ledger \<Rightarrow> 'pk ledger result" where
  "init_token_account_if_needed rt payer addr lg =
     (if lg_tokens lg addr = None then init_token_account rt payer addr lg else Inr lg)"

text \<open>\<open>token::transfer_checked\<close>, signed by the program for its own account.\<close>

definition transfer_checked :: "'pk runtime \<Rightarrow> 'pk \<Rightarrow> 'pk \<Rightarrow> nat \<Rightarrow> 'pk ledger \<Rightarrow> 'pk ledger result" where
  "transfer_checked rt source dest amount lg =
     (case rt_transfer rt (lg_tokens lg) source dest amount of
        None \<Rightarrow> Inl (Framework ''TokenError'')
      | Some t \<Rightarrow> Inr (lg\<lparr>lg_tokens := t\<rparr>))"

definition transfer_program_lamports ::
    "'pk runtime \<Rightarrow> nat \<Rightarrow> 'pk \<Rightarrow> 'pk \<Rightarrow> nat \<Rightarrow> VeriAgentError \<Rightarrow> 'pk ledger \<Rightarrow> 'pk ledger result" where
  "transfer_program_lamports rt data_len source dest amount insufficient lg =
     bindE (require (amount \<le> lg_lamports lg source) insufficient) (\<lambda>_.
     let remaining = lg_lamports lg source - amount in
     bindE (require (rt_rent rt data_len \<le> remaining) insufficient) (\<lambda>_.
     bindE (checked_add (lg_lamports lg dest) amount) (\<lambda>destination_balance.
     Inr (lg\<lparr>lg_lamports := (lg_lamports lg)(source := remaining, dest := destination_balance)\<rparr>))))"

section \<open>Sessions\<close>

definition validate_session_policy :: "16 word \<Rightarrow> nat \<Rightarrow> nat \<Rightarrow> int \<Rightarrow> int \<Rightarrow> unit result" where
  "validate_session_policy action_bitmap per_action_limit cumulative_limit valid_after valid_until =
     bindE (require (valid_after \<le> valid_until \<and>
        saturating_sub valid_until valid_after \<le> MAX_SESSION_DURATION_SECONDS) InvalidSessionWindow) (\<lambda>_.
     bindE (require (action_bitmap \<noteq> 0 \<and> action_bitmap AND NOT SUPPORTED_SESSION_ACTIONS = 0) InvalidSessionActions) (\<lambda>_.
     require (0 < per_action_limit \<and> per_action_limit \<le> cumulative_limit) InvalidSessionLimits))"

definition write_session :: "'pk \<Rightarrow> 'pk \<Rightarrow> 16 word \<Rightarrow> nat \<Rightarrow> nat \<Rightarrow> int \<Rightarrow> int \<Rightarrow> 'pk Session" where
  "write_session vault public_key action_bitmap per_action_limit cumulative_limit valid_after valid_until =
     \<lparr>se_revoked = False, se_vault = vault, se_public_key = public_key, se_action_bitmap = action_bitmap,
      se_per_action_limit = per_action_limit, se_cumulative_limit = cumulative_limit, se_spent = 0,
      se_valid_after = valid_after, se_valid_until = valid_until, se_nonce = 0\<rparr>"

text \<open>The checks on a session shared by its three uses, and the spending shared by two of them.\<close>

definition check_session :: "int \<Rightarrow> nat \<Rightarrow> 'pk Session \<Rightarrow> unit result" where
  "check_session now session_nonce se =
     bindE (require (\<not> se_revoked se) SessionRevoked) (\<lambda>_.
     bindE (require (se_valid_after se \<le> now \<and> now \<le> se_valid_until se) SessionInactive) (\<lambda>_.
     bindE (require (se_action_bitmap se AND SESSION_ACTION_TRANSFER \<noteq> 0) SessionActionDenied) (\<lambda>_.
     require (se_nonce se = session_nonce) InvalidSessionNonce)))"

definition bump_session :: "'pk Session \<Rightarrow> 'pk Session result" where
  "bump_session se = bindE (checked_add (se_nonce se) 1) (\<lambda>n. Inr (se\<lparr>se_nonce := n\<rparr>))"

definition spend_session :: "int \<Rightarrow> nat \<Rightarrow> nat \<Rightarrow> 'pk Session \<Rightarrow> 'pk Session result" where
  "spend_session now amount session_nonce se =
     bindE (check_session now session_nonce se) (\<lambda>_.
     bindE (require (amount \<le> se_per_action_limit se) PerActionLimitExceeded) (\<lambda>_.
     bindE (checked_add (se_spent se) amount) (\<lambda>new_spent.
     bindE (require (new_spent \<le> se_cumulative_limit se) CumulativeLimitExceeded) (\<lambda>_.
     bump_session (se\<lparr>se_spent := new_spent\<rparr>)))))"

section \<open>Handlers: protocol.rs and wallet.rs\<close>

text \<open>\<open>stablecoin_mint\<close> is an account of the token program, which the system program is not.\<close>

definition PROTOCOL_CONFIG_SIZE :: nat where "PROTOCOL_CONFIG_SIZE = 8 + 1 + 1 + 1 + 32 + 32 + 32 + 32 + 32"
definition CLAIM_AUTHORITY_CONFIG_SIZE :: nat where "CLAIM_AUTHORITY_CONFIG_SIZE = 8 + 1 + 1 + 32"

definition initialize_protocol ::
    "'pk sdk \<Rightarrow> 'pk runtime \<Rightarrow> 'pk tx \<Rightarrow> 'pk \<Rightarrow> 'pk \<Rightarrow> bytes \<Rightarrow> bytes \<Rightarrow> bytes \<Rightarrow> 'pk ledger \<Rightarrow> 'pk ledger result" where
  "initialize_protocol S rt cx authority stablecoin_mint rp_id_hash origin_hash cluster_domain lg =
     bindE (anchor (authority \<in> set (tx_signers cx)) ''AccountNotSigner'') (\<lambda>_.
     bindE (anchor (lg_config lg = None) ''AccountAlreadyInUse'') (\<lambda>_.
     bindE (fund_account rt PROTOCOL_CONFIG_SIZE authority (deriveProtocolConfig S None) lg) (\<lambda>lg1.
     bindE (anchor (stablecoin_mint \<noteq> SystemProgram_programId S) ''AccountOwnedByWrongProgram'') (\<lambda>_.
     Inr (lg1\<lparr>lg_config := Some \<lparr>cfg_paused = False, cfg_authority = authority,
            cfg_stablecoin_mint = stablecoin_mint, cfg_rp_id_hash = rp_id_hash, cfg_origin_hash = origin_hash,
            cfg_cluster_domain = cluster_domain\<rparr>\<rparr>)))))"

definition initialize_claim_authority ::
    "'pk sdk \<Rightarrow> 'pk runtime \<Rightarrow> 'pk tx \<Rightarrow> 'pk \<Rightarrow> 'pk \<Rightarrow> 'pk ledger \<Rightarrow> 'pk ledger result" where
  "initialize_claim_authority S rt cx protocol_authority authority lg =
     bindE (any_config lg) (\<lambda>c.
     bindE (anchor (protocol_authority = cfg_authority c \<and> protocol_authority \<in> set (tx_signers cx))
       ''ConstraintAddress'') (\<lambda>_.
     bindE (anchor (lg_claim_authority lg = None) ''AccountAlreadyInUse'') (\<lambda>_.
     bindE (fund_account rt CLAIM_AUTHORITY_CONFIG_SIZE protocol_authority (deriveClaimAuthorityConfig S None) lg) (\<lambda>lg1.
     bindE (require (authority \<noteq> SystemProgram_programId S) InvalidClaimAuthority) (\<lambda>_.
     Inr (lg1\<lparr>lg_claim_authority := Some authority\<rparr>))))))"

record proof_args =
  pf_expires_at :: int
  pf_authenticator_data :: bytes
  pf_client_data_json :: bytes

definition le_u64 :: "nat \<Rightarrow> bytes" where "le_u64 n = le_bytes 8 (int n)"
definition le_i64 :: "int \<Rightarrow> bytes" where "le_i64 i = le_bytes 8 i"

text \<open>\<open>crate::ID\<close> and \<open>config.key()\<close>.\<close>

definition challenge_head :: "'pk sdk \<Rightarrow> 'pk ProtocolConfig \<Rightarrow> byte \<Rightarrow> bytes list" where
  "challenge_head S c action =
     [cfg_cluster_domain c, pk_bytes S (VERIAGENT_PROGRAM_ID S), [action],
      pk_bytes S (deriveProtocolConfig S None)]"

definition authorize ::
    "'pk sdk \<Rightarrow> 'pk runtime \<Rightarrow> 'pk tx \<Rightarrow> 'pk ProtocolConfig \<Rightarrow> bytes \<Rightarrow> proof_args \<Rightarrow> bytes list \<Rightarrow> unit result" where
  "authorize S rt cx c root_public_key pf parts =
     verify_root_authorization S rt c (tx_previous cx) (tx_now cx) root_public_key
       (pf_authenticator_data pf) (pf_client_data_json pf) (program_challenge S parts) (pf_expires_at pf)"

definition initialize_vault ::
    "'pk sdk \<Rightarrow> 'pk runtime \<Rightarrow> 'pk tx \<Rightarrow> 'pk \<Rightarrow> bytes \<Rightarrow> bytes \<Rightarrow> bytes \<Rightarrow> proof_args \<Rightarrow> 'pk ledger \<Rightarrow> 'pk ledger result" where
  "initialize_vault S rt cx payer root_public_key root_key_hash user_salt pf lg =
     bindE (live_config lg) (\<lambda>c.
     let vault = vault_address S root_key_hash user_salt in
     bindE (anchor (payer \<in> set (tx_signers cx)) ''AccountNotSigner'') (\<lambda>_.
     bindE (anchor (lg_vaults lg vault = None) ''AccountAlreadyInUse'') (\<lambda>_.
     bindE (fund_account rt VAULT_ACCOUNT_SIZE payer vault lg) (\<lambda>lg1.
     bindE (init_token_account_if_needed rt payer (ata S c vault) lg1) (\<lambda>lg2.
     bindE (require (sha256 S root_public_key = root_key_hash) InvalidRootKeyHash) (\<lambda>_.
     bindE (authorize S rt cx c root_public_key pf
        (challenge_head S c ACTION_INITIALIZE_VAULT @
         [pk_bytes S vault, pk_bytes S (ata S c vault), root_public_key, root_key_hash, user_salt,
          le_u64 0, le_i64 (pf_expires_at pf)])) (\<lambda>_.
     Inr (lg2\<lparr>lg_vaults := (lg_vaults lg2)(vault \<mapsto>
            \<lparr>va_root_public_key = root_public_key, va_root_key_hash = root_key_hash, va_user_salt = user_salt,
             va_nonce = 0, va_created_at = tx_now cx\<rparr>)\<rparr>))))))))"

record 'pk session_args =
  sa_session_public_key :: 'pk
  sa_action_bitmap :: "16 word"
  sa_per_action_limit :: nat
  sa_cumulative_limit :: nat
  sa_valid_after :: int
  sa_valid_until :: int

definition le_u16 :: "16 word \<Rightarrow> bytes" where "le_u16 w = le_bytes 2 (uint w)"

definition session_parts :: "'pk sdk \<Rightarrow> 'pk session_args \<Rightarrow> bytes list" where
  "session_parts S a =
     [pk_bytes S (sa_session_public_key a), le_u16 (sa_action_bitmap a), le_u64 (sa_per_action_limit a),
      le_u64 (sa_cumulative_limit a), le_i64 (sa_valid_after a), le_i64 (sa_valid_until a)]"

definition session_of_args :: "'pk \<Rightarrow> 'pk session_args \<Rightarrow> 'pk Session" where
  "session_of_args vault a =
     write_session vault (sa_session_public_key a) (sa_action_bitmap a) (sa_per_action_limit a)
       (sa_cumulative_limit a) (sa_valid_after a) (sa_valid_until a)"

definition args_policy :: "'pk session_args \<Rightarrow> unit result" where
  "args_policy a =
     validate_session_policy (sa_action_bitmap a) (sa_per_action_limit a) (sa_cumulative_limit a)
       (sa_valid_after a) (sa_valid_until a)"

definition bump_vault :: "'pk \<Rightarrow> Vault \<Rightarrow> 'pk ledger \<Rightarrow> 'pk ledger result" where
  "bump_vault v va lg =
     bindE (checked_add (va_nonce va) 1) (\<lambda>n. Inr (lg\<lparr>lg_vaults := (lg_vaults lg)(v \<mapsto> va\<lparr>va_nonce := n\<rparr>)\<rparr>))"

definition grant_session ::
    "'pk sdk \<Rightarrow> 'pk runtime \<Rightarrow> 'pk tx \<Rightarrow> 'pk \<Rightarrow> 'pk \<Rightarrow> 'pk session_args \<Rightarrow> nat \<Rightarrow> proof_args \<Rightarrow> 'pk ledger \<Rightarrow> 'pk ledger result" where
  "grant_session S rt cx payer vault a vault_nonce pf lg =
     bindE (live_config lg) (\<lambda>c.
     bindE (seeded_vault S lg vault) (\<lambda>va.
     let session = session_address S vault (sa_session_public_key a) in
     bindE (anchor (payer \<in> set (tx_signers cx)) ''AccountNotSigner'') (\<lambda>_.
     bindE (anchor (lg_sessions lg session = None) ''AccountAlreadyInUse'') (\<lambda>_.
     bindE (fund_account rt SESSION_ACCOUNT_SIZE payer session lg) (\<lambda>lg1.
     bindE (require (va_nonce va = vault_nonce) InvalidVaultNonce) (\<lambda>_.
     bindE (args_policy a) (\<lambda>_.
     bindE (authorize S rt cx c (va_root_public_key va) pf
        (challenge_head S c ACTION_GRANT_SESSION @ [pk_bytes S vault, pk_bytes S session] @
         session_parts S a @ [le_u64 vault_nonce, le_i64 (pf_expires_at pf)])) (\<lambda>_.
     bindE (bump_vault vault va lg1) (\<lambda>lg2.
     Inr (lg2\<lparr>lg_sessions := (lg_sessions lg2)(session \<mapsto> session_of_args vault a)\<rparr>))))))))))"

definition initialize_vault_and_grant_session ::
    "'pk sdk \<Rightarrow> 'pk runtime \<Rightarrow> 'pk tx \<Rightarrow> 'pk \<Rightarrow> bytes \<Rightarrow> bytes \<Rightarrow> bytes \<Rightarrow> 'pk session_args \<Rightarrow> proof_args
     \<Rightarrow> 'pk ledger \<Rightarrow> 'pk ledger result" where
  "initialize_vault_and_grant_session S rt cx payer root_public_key root_key_hash user_salt a pf lg =
     bindE (live_config lg) (\<lambda>c.
     let vault = vault_address S root_key_hash user_salt;
         session = session_address S vault (sa_session_public_key a) in
     bindE (anchor (payer \<in> set (tx_signers cx)) ''AccountNotSigner'') (\<lambda>_.
     bindE (anchor (lg_vaults lg vault = None) ''AccountAlreadyInUse'') (\<lambda>_.
     bindE (anchor (lg_sessions lg session = None) ''AccountAlreadyInUse'') (\<lambda>_.
     bindE (fund_account rt VAULT_ACCOUNT_SIZE payer vault lg) (\<lambda>lg1.
     bindE (fund_account rt SESSION_ACCOUNT_SIZE payer session lg1) (\<lambda>lg2.
     bindE (init_token_account_if_needed rt payer (ata S c vault) lg2) (\<lambda>lg3.
     bindE (require (sha256 S root_public_key = root_key_hash) InvalidRootKeyHash) (\<lambda>_.
     bindE (args_policy a) (\<lambda>_.
     bindE (authorize S rt cx c root_public_key pf
        (challenge_head S c ACTION_INITIALIZE_VAULT_AND_GRANT_SESSION @
         [pk_bytes S vault, pk_bytes S session, pk_bytes S (ata S c vault), pk_bytes S (cfg_stablecoin_mint c),
          root_public_key, root_key_hash, user_salt] @
         session_parts S a @ [le_u64 0, le_i64 (pf_expires_at pf)])) (\<lambda>_.
     Inr (lg3\<lparr>lg_vaults := (lg_vaults lg3)(vault \<mapsto>
            \<lparr>va_root_public_key = root_public_key, va_root_key_hash = root_key_hash, va_user_salt = user_salt,
             va_nonce = 1, va_created_at = tx_now cx\<rparr>),
            lg_sessions := (lg_sessions lg3)(session \<mapsto> session_of_args vault a)\<rparr>)))))))))))"

definition transfer_with_passkey ::
    "'pk sdk \<Rightarrow> 'pk runtime \<Rightarrow> 'pk tx \<Rightarrow> 'pk \<Rightarrow> 'pk \<Rightarrow> nat \<Rightarrow> nat \<Rightarrow> proof_args \<Rightarrow> 'pk ledger \<Rightarrow> 'pk ledger result" where
  "transfer_with_passkey S rt cx vault destination amount vault_nonce pf lg =
     bindE (live_config lg) (\<lambda>c.
     bindE (seeded_vault S lg vault) (\<lambda>va.
     bindE (fetch (lg_tokens lg) (ata S c vault)) (\<lambda>_.
     bindE (fetch (lg_tokens lg) destination) (\<lambda>_.
     bindE (require (0 < amount) InvalidTransferAmount) (\<lambda>_.
     bindE (require (ata S c vault \<noteq> destination) IdenticalTokenAccounts) (\<lambda>_.
     bindE (require (va_nonce va = vault_nonce) InvalidVaultNonce) (\<lambda>_.
     bindE (authorize S rt cx c (va_root_public_key va) pf
        (challenge_head S c ACTION_TRANSFER @
         [pk_bytes S vault, pk_bytes S (ata S c vault), pk_bytes S destination, pk_bytes S (cfg_stablecoin_mint c),
          le_u64 amount, le_u64 vault_nonce, le_i64 (pf_expires_at pf)])) (\<lambda>_.
     bindE (bump_vault vault va lg) (\<lambda>lg1.
     transfer_checked rt (ata S c vault) destination amount lg1)))))))))"

definition transfer_with_session ::
    "'pk sdk \<Rightarrow> 'pk runtime \<Rightarrow> 'pk tx \<Rightarrow> 'pk \<Rightarrow> 'pk \<Rightarrow> 'pk \<Rightarrow> nat \<Rightarrow> nat \<Rightarrow> 'pk ledger \<Rightarrow> 'pk ledger result" where
  "transfer_with_session S rt cx vault session_signer destination amount session_nonce lg =
     bindE (live_config lg) (\<lambda>c.
     bindE (seeded_vault S lg vault) (\<lambda>_.
     bindE (signed_session S cx lg vault session_signer) (\<lambda>se.
     bindE (fetch (lg_tokens lg) (ata S c vault)) (\<lambda>_.
     bindE (fetch (lg_tokens lg) destination) (\<lambda>_.
     bindE (require (0 < amount) InvalidTransferAmount) (\<lambda>_.
     bindE (require (ata S c vault \<noteq> destination) IdenticalTokenAccounts) (\<lambda>_.
     bindE (spend_session (tx_now cx) amount session_nonce se) (\<lambda>se'.
     transfer_checked rt (ata S c vault) destination amount
       (lg\<lparr>lg_sessions := (lg_sessions lg)(session_address S vault session_signer \<mapsto> se')\<rparr>)))))))))"


section \<open>Handlers: native\_sol.rs and payment\_links.rs\<close>

definition transfer_sol_with_passkey ::
    "'pk sdk \<Rightarrow> 'pk runtime \<Rightarrow> 'pk tx \<Rightarrow> 'pk \<Rightarrow> 'pk \<Rightarrow> nat \<Rightarrow> nat \<Rightarrow> proof_args \<Rightarrow> 'pk ledger \<Rightarrow> 'pk ledger result" where
  "transfer_sol_with_passkey S rt cx vault recipient amount vault_nonce pf lg =
     bindE (live_config lg) (\<lambda>c.
     bindE (seeded_vault S lg vault) (\<lambda>va.
     bindE (require (0 < amount) InvalidTransferAmount) (\<lambda>_.
     bindE (require (vault \<noteq> recipient) IdenticalAccounts) (\<lambda>_.
     bindE (require (va_nonce va = vault_nonce) InvalidVaultNonce) (\<lambda>_.
     bindE (authorize S rt cx c (va_root_public_key va) pf
        (challenge_head S c ACTION_TRANSFER_SOL @
         [pk_bytes S vault, pk_bytes S recipient, le_u64 amount, le_u64 vault_nonce,
          le_i64 (pf_expires_at pf)])) (\<lambda>_.
     bindE (bump_vault vault va lg) (\<lambda>lg1.
     transfer_program_lamports rt VAULT_ACCOUNT_SIZE vault recipient amount InsufficientVaultLamports lg1)))))))"

record link_args =
  la_link_id :: bytes
  la_recipient_commitment :: bytes
  la_amount :: nat
  la_expires_at :: int

text \<open>The requirements on a new link shared by the two creating handlers, and the account they write.\<close>

definition require_amount :: "link_args \<Rightarrow> unit result" where
  "require_amount a =
     bindE (require (0 < la_amount a) InvalidTransferAmount) (\<lambda>_.
     require (la_recipient_commitment a \<noteq> replicate 32 0) InvalidRecipientCommitment)"

definition require_link_expiry :: "int \<Rightarrow> link_args \<Rightarrow> unit result" where
  "require_link_expiry now a =
     require (now < la_expires_at a \<and> saturating_sub (la_expires_at a) now \<le> MAX_PAYMENT_LINK_DURATION_SECONDS)
       InvalidPaymentLinkExpiry"

definition new_link :: "'pk sdk \<Rightarrow> int \<Rightarrow> 'pk \<Rightarrow> 'pk \<Rightarrow> link_args \<Rightarrow> 'pk PaymentLink" where
  "new_link S now sender_vault mint a =
     \<lparr>ln_status = PAYMENT_LINK_STATUS_ACTIVE, ln_sender_vault = sender_vault, ln_mint = mint,
      ln_link_id = la_link_id a, ln_recipient_commitment = la_recipient_commitment a, ln_amount = la_amount a,
      ln_expires_at = la_expires_at a, ln_created_at = now, ln_settled_at = 0,
      ln_claimed_destination = SystemProgram_programId S\<rparr>"

definition init_link :: "'pk sdk \<Rightarrow> 'pk runtime \<Rightarrow> 'pk tx \<Rightarrow> 'pk \<Rightarrow> 'pk \<Rightarrow> 'pk ledger \<Rightarrow> 'pk ledger result" where
  "init_link S rt cx payer link lg =
     bindE (anchor (payer \<in> set (tx_signers cx)) ''AccountNotSigner'') (\<lambda>_.
     bindE (anchor (lg_links lg link = None) ''AccountAlreadyInUse'') (\<lambda>_.
     fund_account rt PAYMENT_LINK_ACCOUNT_SIZE payer link lg))"

definition create_payment_link_with_session ::
    "'pk sdk \<Rightarrow> 'pk runtime \<Rightarrow> 'pk tx \<Rightarrow> 'pk \<Rightarrow> 'pk \<Rightarrow> 'pk \<Rightarrow> link_args \<Rightarrow> nat \<Rightarrow> 'pk ledger \<Rightarrow> 'pk ledger result" where
  "create_payment_link_with_session S rt cx payer vault session_signer a session_nonce lg =
     bindE (live_config lg) (\<lambda>c.
     bindE (seeded_vault S lg vault) (\<lambda>_.
     bindE (signed_session S cx lg vault session_signer) (\<lambda>se.
     bindE (fetch (lg_tokens lg) (ata S c vault)) (\<lambda>_.
     let link = link_address S vault (la_link_id a) in
     bindE (init_link S rt cx payer link lg) (\<lambda>lg1.
     bindE (init_token_account rt payer (ata S c link) lg1) (\<lambda>lg2.
     bindE (require_amount a) (\<lambda>_.
     bindE (require_link_expiry (tx_now cx) a) (\<lambda>_.
     bindE (spend_session (tx_now cx) (la_amount a) session_nonce se) (\<lambda>se'.
     transfer_checked rt (ata S c vault) (ata S c link) (la_amount a)
       (lg2\<lparr>lg_sessions := (lg_sessions lg2)(session_address S vault session_signer \<mapsto> se'),
            lg_links := (lg_links lg2)(link \<mapsto> new_link S (tx_now cx) vault (cfg_stablecoin_mint c) a)\<rparr>))))))))))"

definition settle_link :: "'pk \<Rightarrow> 'pk PaymentLink \<Rightarrow> nat \<Rightarrow> int \<Rightarrow> 'pk option \<Rightarrow> 'pk ledger \<Rightarrow> 'pk ledger" where
  "settle_link link pl status now dest lg =
     lg\<lparr>lg_links := (lg_links lg)(link \<mapsto> pl\<lparr>ln_status := status, ln_settled_at := now,
          ln_claimed_destination := (case dest of Some d \<Rightarrow> d | None \<Rightarrow> ln_claimed_destination pl)\<rparr>)\<rparr>"

definition claim_authority_signed :: "'pk tx \<Rightarrow> 'pk \<Rightarrow> 'pk ledger \<Rightarrow> unit result" where
  "claim_authority_signed cx claim_authority lg =
     bindE (anchor (claim_authority \<in> set (tx_signers cx)) ''AccountNotSigner'') (\<lambda>_.
     case lg_claim_authority lg of
       None \<Rightarrow> Inl (Framework ''AccountNotInitialized'')
     | Some a \<Rightarrow> require (a = claim_authority) InvalidClaimAuthority)"

definition claim_payment_link ::
    "'pk sdk \<Rightarrow> 'pk runtime \<Rightarrow> 'pk tx \<Rightarrow> 'pk \<Rightarrow> 'pk \<Rightarrow> 'pk \<Rightarrow> 'pk ledger \<Rightarrow> 'pk ledger result" where
  "claim_payment_link S rt cx claim_authority recipient_vault link lg =
     bindE (live_config lg) (\<lambda>c.
     bindE (claim_authority_signed cx claim_authority lg) (\<lambda>_.
     bindE (seeded_vault S lg recipient_vault) (\<lambda>_.
     bindE (seeded_link S lg link) (\<lambda>pl.
     bindE (require (ln_mint pl = cfg_stablecoin_mint c) InvalidStablecoinMint) (\<lambda>_.
     bindE (fetch (lg_tokens lg) (ata S c link)) (\<lambda>_.
     bindE (init_token_account_if_needed rt claim_authority (ata S c recipient_vault) lg) (\<lambda>lg1.
     bindE (require (ln_status pl = PAYMENT_LINK_STATUS_ACTIVE) PaymentLinkNotActive) (\<lambda>_.
     bindE (require (tx_now cx \<le> ln_expires_at pl) PaymentLinkExpired) (\<lambda>_.
     bindE (transfer_checked rt (ata S c link) (ata S c recipient_vault) (ln_amount pl) lg1) (\<lambda>lg2.
     Inr (settle_link link pl PAYMENT_LINK_STATUS_CLAIMED (tx_now cx) (Some recipient_vault) lg2)))))))))))"

definition cancel_payment_link_with_session ::
    "'pk sdk \<Rightarrow> 'pk runtime \<Rightarrow> 'pk tx \<Rightarrow> 'pk \<Rightarrow> 'pk \<Rightarrow> 'pk \<Rightarrow> nat \<Rightarrow> 'pk ledger \<Rightarrow> 'pk ledger result" where
  "cancel_payment_link_with_session S rt cx vault session_signer link session_nonce lg =
     bindE (live_config lg) (\<lambda>c.
     bindE (seeded_vault S lg vault) (\<lambda>_.
     bindE (signed_session S cx lg vault session_signer) (\<lambda>se.
     bindE (seeded_link S lg link) (\<lambda>pl.
     bindE (require (ln_sender_vault pl = vault) InvalidPaymentLinkSender) (\<lambda>_.
     bindE (require (ln_mint pl = cfg_stablecoin_mint c) InvalidStablecoinMint) (\<lambda>_.
     bindE (fetch (lg_tokens lg) (ata S c link)) (\<lambda>_.
     bindE (fetch (lg_tokens lg) (ata S c vault)) (\<lambda>_.
     bindE (require (ln_status pl = PAYMENT_LINK_STATUS_ACTIVE) PaymentLinkNotActive) (\<lambda>_.
     bindE (check_session (tx_now cx) session_nonce se) (\<lambda>_.
     bindE (bump_session se) (\<lambda>se'.
     bindE (transfer_checked rt (ata S c link) (ata S c vault) (ln_amount pl)
        (lg\<lparr>lg_sessions := (lg_sessions lg)(session_address S vault session_signer \<mapsto> se')\<rparr>)) (\<lambda>lg1.
     Inr (settle_link link pl PAYMENT_LINK_STATUS_CANCELLED (tx_now cx) None lg1)))))))))))))"

definition refund_expired_payment_link ::
    "'pk sdk \<Rightarrow> 'pk runtime \<Rightarrow> 'pk tx \<Rightarrow> 'pk \<Rightarrow> 'pk \<Rightarrow> 'pk ledger \<Rightarrow> 'pk ledger result" where
  "refund_expired_payment_link S rt cx sender_vault link lg =
     bindE (any_config lg) (\<lambda>c.
     bindE (seeded_vault S lg sender_vault) (\<lambda>_.
     bindE (seeded_link S lg link) (\<lambda>pl.
     bindE (require (ln_sender_vault pl = sender_vault) InvalidPaymentLinkSender) (\<lambda>_.
     bindE (require (ln_mint pl = cfg_stablecoin_mint c) InvalidStablecoinMint) (\<lambda>_.
     bindE (fetch (lg_tokens lg) (ata S c link)) (\<lambda>_.
     bindE (fetch (lg_tokens lg) (ata S c sender_vault)) (\<lambda>_.
     bindE (require (ln_status pl = PAYMENT_LINK_STATUS_ACTIVE) PaymentLinkNotActive) (\<lambda>_.
     bindE (require (ln_expires_at pl < tx_now cx) PaymentLinkNotExpired) (\<lambda>_.
     bindE (transfer_checked rt (ata S c link) (ata S c sender_vault) (ln_amount pl) lg) (\<lambda>lg1.
     Inr (settle_link link pl PAYMENT_LINK_STATUS_REFUNDED (tx_now cx) None lg1)))))))))))"

definition create_sol_payment_link_with_passkey ::
    "'pk sdk \<Rightarrow> 'pk runtime \<Rightarrow> 'pk tx \<Rightarrow> 'pk \<Rightarrow> 'pk \<Rightarrow> link_args \<Rightarrow> nat \<Rightarrow> proof_args \<Rightarrow> 'pk ledger \<Rightarrow> 'pk ledger result" where
  "create_sol_payment_link_with_passkey S rt cx payer vault a vault_nonce pf lg =
     bindE (live_config lg) (\<lambda>c.
     bindE (seeded_vault S lg vault) (\<lambda>va.
     let link = link_address S vault (la_link_id a) in
     bindE (init_link S rt cx payer link lg) (\<lambda>lg1.
     bindE (require_amount a) (\<lambda>_.
     bindE (require (va_nonce va = vault_nonce) InvalidVaultNonce) (\<lambda>_.
     bindE (require_link_expiry (tx_now cx) a) (\<lambda>_.
     bindE (authorize S rt cx c (va_root_public_key va) pf
        (challenge_head S c ACTION_CREATE_SOL_PAYMENT_LINK @
         [pk_bytes S vault, pk_bytes S link, la_link_id a, la_recipient_commitment a, le_u64 (la_amount a),
          le_i64 (la_expires_at a), le_u64 vault_nonce, le_i64 (pf_expires_at pf)])) (\<lambda>_.
     bindE (bump_vault vault va lg1) (\<lambda>lg2.
     transfer_program_lamports rt VAULT_ACCOUNT_SIZE vault link (la_amount a) InsufficientVaultLamports
       (lg2\<lparr>lg_links := (lg_links lg2)(link \<mapsto>
          new_link S (tx_now cx) vault (SystemProgram_programId S) a)\<rparr>)))))))))"

definition claim_sol_payment_link ::
    "'pk sdk \<Rightarrow> 'pk runtime \<Rightarrow> 'pk tx \<Rightarrow> 'pk \<Rightarrow> 'pk \<Rightarrow> 'pk \<Rightarrow> 'pk ledger \<Rightarrow> 'pk ledger result" where
  "claim_sol_payment_link S rt cx claim_authority recipient_vault link lg =
     bindE (live_config lg) (\<lambda>_.
     bindE (claim_authority_signed cx claim_authority lg) (\<lambda>_.
     bindE (seeded_vault S lg recipient_vault) (\<lambda>_.
     bindE (seeded_link S lg link) (\<lambda>pl.
     bindE (require (ln_mint pl = SystemProgram_programId S) InvalidNativePaymentLink) (\<lambda>_.
     bindE (require (ln_status pl = PAYMENT_LINK_STATUS_ACTIVE) PaymentLinkNotActive) (\<lambda>_.
     bindE (require (tx_now cx \<le> ln_expires_at pl) PaymentLinkExpired) (\<lambda>_.
     bindE (transfer_program_lamports rt PAYMENT_LINK_ACCOUNT_SIZE link recipient_vault (ln_amount pl)
        InsufficientEscrowLamports lg) (\<lambda>lg1.
     Inr (settle_link link pl PAYMENT_LINK_STATUS_CLAIMED (tx_now cx) (Some recipient_vault) lg1)))))))))"

definition cancel_sol_payment_link_with_passkey ::
    "'pk sdk \<Rightarrow> 'pk runtime \<Rightarrow> 'pk tx \<Rightarrow> 'pk \<Rightarrow> 'pk \<Rightarrow> nat \<Rightarrow> proof_args \<Rightarrow> 'pk ledger \<Rightarrow> 'pk ledger result" where
  "cancel_sol_payment_link_with_passkey S rt cx vault link vault_nonce pf lg =
     bindE (live_config lg) (\<lambda>c.
     bindE (seeded_vault S lg vault) (\<lambda>va.
     bindE (seeded_link S lg link) (\<lambda>pl.
     bindE (require (ln_sender_vault pl = vault) InvalidPaymentLinkSender) (\<lambda>_.
     bindE (require (ln_mint pl = SystemProgram_programId S) InvalidNativePaymentLink) (\<lambda>_.
     bindE (require (ln_status pl = PAYMENT_LINK_STATUS_ACTIVE) PaymentLinkNotActive) (\<lambda>_.
     bindE (require (va_nonce va = vault_nonce) InvalidVaultNonce) (\<lambda>_.
     bindE (authorize S rt cx c (va_root_public_key va) pf
        (challenge_head S c ACTION_CANCEL_SOL_PAYMENT_LINK @
         [pk_bytes S vault, pk_bytes S link, le_u64 vault_nonce, le_i64 (pf_expires_at pf)])) (\<lambda>_.
     bindE (bump_vault vault va lg) (\<lambda>lg1.
     bindE (transfer_program_lamports rt PAYMENT_LINK_ACCOUNT_SIZE link vault (ln_amount pl)
        InsufficientEscrowLamports lg1) (\<lambda>lg2.
     Inr (settle_link link pl PAYMENT_LINK_STATUS_CANCELLED (tx_now cx) None lg2)))))))))))"

definition refund_expired_sol_payment_link ::
    "'pk sdk \<Rightarrow> 'pk runtime \<Rightarrow> 'pk tx \<Rightarrow> 'pk \<Rightarrow> 'pk \<Rightarrow> 'pk ledger \<Rightarrow> 'pk ledger result" where
  "refund_expired_sol_payment_link S rt cx sender_vault link lg =
     bindE (any_config lg) (\<lambda>_.
     bindE (seeded_vault S lg sender_vault) (\<lambda>_.
     bindE (seeded_link S lg link) (\<lambda>pl.
     bindE (require (ln_sender_vault pl = sender_vault) InvalidPaymentLinkSender) (\<lambda>_.
     bindE (require (ln_mint pl = SystemProgram_programId S) InvalidNativePaymentLink) (\<lambda>_.
     bindE (require (ln_status pl = PAYMENT_LINK_STATUS_ACTIVE) PaymentLinkNotActive) (\<lambda>_.
     bindE (require (ln_expires_at pl < tx_now cx) PaymentLinkNotExpired) (\<lambda>_.
     bindE (transfer_program_lamports rt PAYMENT_LINK_ACCOUNT_SIZE link sender_vault (ln_amount pl)
        InsufficientEscrowLamports lg) (\<lambda>lg1.
     Inr (settle_link link pl PAYMENT_LINK_STATUS_REFUNDED (tx_now cx) None lg1)))))))))"

section \<open>Programs of instructions\<close>

datatype 'pk call =
    InitializeProtocol 'pk 'pk bytes bytes bytes
  | InitializeClaimAuthority 'pk 'pk
  | InitializeVault 'pk bytes bytes bytes proof_args
  | GrantSession 'pk 'pk "'pk session_args" nat proof_args
  | InitializeVaultAndGrantSession 'pk bytes bytes bytes "'pk session_args" proof_args
  | TransferWithPasskey 'pk 'pk nat nat proof_args
  | TransferWithSession 'pk 'pk 'pk nat nat
  | TransferSolWithPasskey 'pk 'pk nat nat proof_args
  | CreatePaymentLinkWithSession 'pk 'pk 'pk link_args nat
  | ClaimPaymentLink 'pk 'pk 'pk
  | CancelPaymentLinkWithSession 'pk 'pk 'pk nat
  | RefundExpiredPaymentLink 'pk 'pk
  | CreateSolPaymentLinkWithPasskey 'pk 'pk link_args nat proof_args
  | ClaimSolPaymentLink 'pk 'pk 'pk
  | CancelSolPaymentLinkWithPasskey 'pk 'pk nat proof_args
  | RefundExpiredSolPaymentLink 'pk 'pk

fun exec :: "'pk sdk \<Rightarrow> 'pk runtime \<Rightarrow> 'pk tx \<Rightarrow> 'pk call \<Rightarrow> 'pk ledger \<Rightarrow> 'pk ledger result" where
  "exec S rt cx (InitializeProtocol au mint rp og cl) lg = initialize_protocol S rt cx au mint rp og cl lg"
| "exec S rt cx (InitializeClaimAuthority pa au) lg = initialize_claim_authority S rt cx pa au lg"
| "exec S rt cx (InitializeVault p pk h s pf) lg = initialize_vault S rt cx p pk h s pf lg"
| "exec S rt cx (GrantSession p v a n pf) lg = grant_session S rt cx p v a n pf lg"
| "exec S rt cx (InitializeVaultAndGrantSession p pk h s a pf) lg =
     initialize_vault_and_grant_session S rt cx p pk h s a pf lg"
| "exec S rt cx (TransferWithPasskey v d a n pf) lg = transfer_with_passkey S rt cx v d a n pf lg"
| "exec S rt cx (TransferWithSession v sg d a n) lg = transfer_with_session S rt cx v sg d a n lg"
| "exec S rt cx (TransferSolWithPasskey v r a n pf) lg = transfer_sol_with_passkey S rt cx v r a n pf lg"
| "exec S rt cx (CreatePaymentLinkWithSession p v sg a n) lg =
     create_payment_link_with_session S rt cx p v sg a n lg"
| "exec S rt cx (ClaimPaymentLink ca r l) lg = claim_payment_link S rt cx ca r l lg"
| "exec S rt cx (CancelPaymentLinkWithSession v sg l n) lg = cancel_payment_link_with_session S rt cx v sg l n lg"
| "exec S rt cx (RefundExpiredPaymentLink v l) lg = refund_expired_payment_link S rt cx v l lg"
| "exec S rt cx (CreateSolPaymentLinkWithPasskey p v a n pf) lg =
     create_sol_payment_link_with_passkey S rt cx p v a n pf lg"
| "exec S rt cx (ClaimSolPaymentLink ca r l) lg = claim_sol_payment_link S rt cx ca r l lg"
| "exec S rt cx (CancelSolPaymentLinkWithPasskey v l n pf) lg =
     cancel_sol_payment_link_with_passkey S rt cx v l n pf lg"
| "exec S rt cx (RefundExpiredSolPaymentLink v l) lg = refund_expired_sol_payment_link S rt cx v l lg"

text \<open>A failed instruction leaves the ledger as it was; outside the program, anyone may pay into a token
  account or add lamports to an address.\<close>

datatype 'pk event = Instruction "'pk tx" "'pk call" | PayIn 'pk nat | OpenTokenAccount 'pk | AddLamports 'pk nat

fun ledger_step :: "'pk sdk \<Rightarrow> 'pk runtime \<Rightarrow> 'pk event \<Rightarrow> 'pk ledger \<Rightarrow> 'pk ledger" where
  "ledger_step S rt (Instruction cx call) lg = (case exec S rt cx call lg of Inr lg' \<Rightarrow> lg' | Inl _ \<Rightarrow> lg)"
| "ledger_step S rt (PayIn k n) lg =
     lg\<lparr>lg_tokens := (lg_tokens lg)(k := map_option (\<lambda>b. if b + n < 2 ^ 64 then b + n else b) (lg_tokens lg k))\<rparr>"
| "ledger_step S rt (OpenTokenAccount k) lg =
     (if lg_tokens lg k = None then lg\<lparr>lg_tokens := (lg_tokens lg)(k \<mapsto> 0)\<rparr> else lg)"
| "ledger_step S rt (AddLamports k n) lg = lg\<lparr>lg_lamports := (lg_lamports lg)(k := lg_lamports lg k + n)\<rparr>"

definition empty_ledger :: "('pk \<Rightarrow> nat) \<Rightarrow> 'pk ledger" where
  "empty_ledger lam = \<lparr>lg_config = None, lg_claim_authority = None, lg_vaults = Map.empty,
     lg_sessions = Map.empty, lg_links = Map.empty, lg_tokens = Map.empty, lg_lamports = lam\<rparr>"


section \<open>What the steps of a handler do\<close>

definition runtime_ok :: "'pk runtime \<Rightarrow> bool" where
  "runtime_ok rt \<longleftrightarrow>
     (\<forall>t s d a t'. rt_transfer rt t s d a = Some t' \<longrightarrow>
        (\<exists>bs bd. t s = Some bs \<and> t d = Some bd \<and> a \<le> bs \<and>
           t' = (if s = d then t else t(s \<mapsto> bs - a, d \<mapsto> bd + a))))"

named_theorems ledger_simps \<open>when a step of a handler succeeds\<close>

lemma seeded_vault_Inr [ledger_simps]:
  "seeded_vault S lg v = Inr va \<longleftrightarrow>
     lg_vaults lg v = Some va \<and> vault_address S (va_root_key_hash va) (va_user_salt va) = v"
  by (auto simp: seeded_vault_def bindE_Inr_iff)

lemma seeded_link_Inr [ledger_simps]:
  "seeded_link S lg l = Inr pl \<longleftrightarrow>
     lg_links lg l = Some pl \<and> link_address S (ln_sender_vault pl) (ln_link_id pl) = l"
  by (auto simp: seeded_link_def bindE_Inr_iff)

lemma signed_session_Inr [ledger_simps]:
  "signed_session S cx lg v sg = Inr se \<longleftrightarrow>
     lg_sessions lg (session_address S v sg) = Some se \<and> se_vault se = v \<and> se_public_key se = sg \<and>
     sg \<in> set (tx_signers cx)"
  by (auto simp: signed_session_def bindE_Inr_iff)

lemma fund_account_Inr [ledger_simps]:
  "fund_account rt sp p a lg = Inr lg' \<longleftrightarrow>
     p \<noteq> a \<and> rt_rent rt sp - lg_lamports lg a \<le> lg_lamports lg p \<and>
     lg' = lg\<lparr>lg_lamports := (lg_lamports lg)(p := lg_lamports lg p - (rt_rent rt sp - lg_lamports lg a),
                                               a := lg_lamports lg a + (rt_rent rt sp - lg_lamports lg a))\<rparr>"
  by (auto simp: fund_account_def Let_def)

lemma transfer_checked_Inr [ledger_simps]:
  "transfer_checked rt s d a lg = Inr lg' \<longleftrightarrow>
     (\<exists>t. rt_transfer rt (lg_tokens lg) s d a = Some t \<and> lg' = lg\<lparr>lg_tokens := t\<rparr>)"
  by (auto simp: transfer_checked_def split: option.split)

lemma bump_vault_Inr [ledger_simps]:
  "bump_vault v va lg = Inr lg' \<longleftrightarrow>
     va_nonce va + 1 < 2 ^ 64 \<and> lg' = lg\<lparr>lg_vaults := (lg_vaults lg)(v \<mapsto> va\<lparr>va_nonce := va_nonce va + 1\<rparr>)\<rparr>"
  by (auto simp: bump_vault_def bindE_Inr_iff)

lemma transfer_program_lamports_Inr [ledger_simps]:
  "transfer_program_lamports rt n s d a e lg = Inr lg' \<longleftrightarrow>
     a \<le> lg_lamports lg s \<and> rt_rent rt n \<le> lg_lamports lg s - a \<and> lg_lamports lg d + a < 2 ^ 64 \<and>
     lg' = lg\<lparr>lg_lamports := (lg_lamports lg)(s := lg_lamports lg s - a, d := lg_lamports lg d + a)\<rparr>"
  by (auto simp: transfer_program_lamports_def bindE_Inr_iff Let_def)

lemma init_token_account_Inr [ledger_simps]:
  "init_token_account rt p a lg = Inr lg' \<longleftrightarrow>
     lg_tokens lg a = None \<and> (\<exists>lg1. fund_account rt TOKEN_ACCOUNT_SIZE p a lg = Inr lg1 \<and>
       lg' = lg1\<lparr>lg_tokens := (lg_tokens lg1)(a \<mapsto> 0)\<rparr>)"
  by (auto simp: init_token_account_def bindE_Inr_iff)

lemma init_token_account_if_needed_Inr [ledger_simps]:
  "init_token_account_if_needed rt p a lg = Inr lg' \<longleftrightarrow>
     (if lg_tokens lg a = None then init_token_account rt p a lg = Inr lg' else lg' = lg)"
  by (auto simp: init_token_account_if_needed_def)

lemma check_session_Inr [ledger_simps]:
  "check_session now n se = Inr u \<longleftrightarrow>
     \<not> se_revoked se \<and> se_valid_after se \<le> now \<and> now \<le> se_valid_until se \<and>
     se_action_bitmap se AND SESSION_ACTION_TRANSFER \<noteq> 0 \<and> se_nonce se = n"
  by (auto simp: check_session_def bindE_Inr_iff)

lemma bump_session_Inr [ledger_simps]:
  "bump_session se = Inr se' \<longleftrightarrow> se_nonce se + 1 < 2 ^ 64 \<and> se' = se\<lparr>se_nonce := se_nonce se + 1\<rparr>"
  by (auto simp: bump_session_def bindE_Inr_iff)

lemma spend_session_Inr [ledger_simps]:
  "spend_session now a n se = Inr se' \<longleftrightarrow>
     check_session now n se = Inr () \<and> a \<le> se_per_action_limit se \<and> se_spent se + a < 2 ^ 64 \<and>
     se_spent se + a \<le> se_cumulative_limit se \<and> se_nonce se + 1 < 2 ^ 64 \<and>
     se' = se\<lparr>se_spent := se_spent se + a, se_nonce := se_nonce se + 1\<rparr>"
  by (auto simp: spend_session_def bindE_Inr_iff bump_session_Inr)

lemma args_policy_Inr [ledger_simps]:
  "args_policy a = Inr u \<longleftrightarrow>
     sa_valid_after a \<le> sa_valid_until a \<and>
     saturating_sub (sa_valid_until a) (sa_valid_after a) \<le> MAX_SESSION_DURATION_SECONDS \<and>
     sa_action_bitmap a \<noteq> 0 \<and> sa_action_bitmap a AND NOT SUPPORTED_SESSION_ACTIONS = 0 \<and>
     0 < sa_per_action_limit a \<and> sa_per_action_limit a \<le> sa_cumulative_limit a"
  by (auto simp: args_policy_def validate_session_policy_def bindE_Inr_iff)

lemma init_link_Inr [ledger_simps]:
  "init_link S rt cx p l lg = Inr lg' \<longleftrightarrow>
     p \<in> set (tx_signers cx) \<and> lg_links lg l = None \<and> fund_account rt PAYMENT_LINK_ACCOUNT_SIZE p l lg = Inr lg'"
  by (auto simp: init_link_def bindE_Inr_iff)

lemma claim_authority_signed_Inr [ledger_simps]:
  "claim_authority_signed cx ca lg = Inr u \<longleftrightarrow> ca \<in> set (tx_signers cx) \<and> lg_claim_authority lg = Some ca"
  by (auto simp: claim_authority_signed_def bindE_Inr_iff split: option.split)

lemma require_amount_Inr [ledger_simps]:
  "require_amount a = Inr u \<longleftrightarrow> 0 < la_amount a \<and> la_recipient_commitment a \<noteq> replicate 32 0"
  by (auto simp: require_amount_def bindE_Inr_iff)

lemma require_link_expiry_Inr [ledger_simps]:
  "require_link_expiry now a = Inr u \<longleftrightarrow>
     now < la_expires_at a \<and> saturating_sub (la_expires_at a) now \<le> MAX_PAYMENT_LINK_DURATION_SECONDS"
  by (simp add: require_link_expiry_def)


section \<open>Effects of an instruction\<close>

lemmas handler_defs = initialize_protocol_def initialize_claim_authority_def initialize_vault_def
  grant_session_def initialize_vault_and_grant_session_def transfer_with_passkey_def
  transfer_with_session_def transfer_sol_with_passkey_def create_payment_link_with_session_def
  claim_payment_link_def cancel_payment_link_with_session_def refund_expired_payment_link_def
  create_sol_payment_link_with_passkey_def claim_sol_payment_link_def
  cancel_sol_payment_link_with_passkey_def refund_expired_sol_payment_link_def

text \<open>The session an instruction opens, or uses and the amount it spends; the nonce of a vault it uses
  up; the vault it opens; the link it opens or settles.\<close>

fun session_open :: "'pk sdk \<Rightarrow> 'pk call \<Rightarrow> ('pk \<times> 'pk Session) option" where
  "session_open S (GrantSession p v a n pf) =
     Some (session_address S v (sa_session_public_key a), session_of_args v a)"
| "session_open S (InitializeVaultAndGrantSession p pk h s a pf) =
     Some (session_address S (vault_address S h s) (sa_session_public_key a), session_of_args (vault_address S h s) a)"
| "session_open S _ = None"

fun session_use :: "'pk sdk \<Rightarrow> 'pk call \<Rightarrow> ('pk \<times> nat) option" where
  "session_use S (TransferWithSession v sg d a n) = Some (session_address S v sg, a)"
| "session_use S (CreatePaymentLinkWithSession p v sg a n) = Some (session_address S v sg, la_amount a)"
| "session_use S (CancelPaymentLinkWithSession v sg l n) = Some (session_address S v sg, 0)"
| "session_use S _ = None"

fun nonce_use :: "'pk call \<Rightarrow> ('pk \<times> nat) option" where
  "nonce_use (GrantSession p v a n pf) = Some (v, n)"
| "nonce_use (TransferWithPasskey v d a n pf) = Some (v, n)"
| "nonce_use (TransferSolWithPasskey v r a n pf) = Some (v, n)"
| "nonce_use (CreateSolPaymentLinkWithPasskey p v a n pf) = Some (v, n)"
| "nonce_use (CancelSolPaymentLinkWithPasskey v l n pf) = Some (v, n)"
| "nonce_use _ = None"

fun vault_open :: "'pk sdk \<Rightarrow> 'pk call \<Rightarrow> 'pk option" where
  "vault_open S (InitializeVault p pk h s pf) = Some (vault_address S h s)"
| "vault_open S (InitializeVaultAndGrantSession p pk h s a pf) = Some (vault_address S h s)"
| "vault_open S _ = None"

fun link_open :: "'pk sdk \<Rightarrow> 'pk call \<Rightarrow> ('pk \<times> link_args) option" where
  "link_open S (CreatePaymentLinkWithSession p v sg a n) = Some (link_address S v (la_link_id a), a)"
| "link_open S (CreateSolPaymentLinkWithPasskey p v a n pf) = Some (link_address S v (la_link_id a), a)"
| "link_open S _ = None"

fun link_settle :: "'pk call \<Rightarrow> ('pk \<times> nat) option" where
  "link_settle (ClaimPaymentLink ca r l) = Some (l, PAYMENT_LINK_STATUS_CLAIMED)"
| "link_settle (ClaimSolPaymentLink ca r l) = Some (l, PAYMENT_LINK_STATUS_CLAIMED)"
| "link_settle (CancelPaymentLinkWithSession v sg l n) = Some (l, PAYMENT_LINK_STATUS_CANCELLED)"
| "link_settle (CancelSolPaymentLinkWithPasskey v l n pf) = Some (l, PAYMENT_LINK_STATUS_CANCELLED)"
| "link_settle (RefundExpiredPaymentLink v l) = Some (l, PAYMENT_LINK_STATUS_REFUNDED)"
| "link_settle (RefundExpiredSolPaymentLink v l) = Some (l, PAYMENT_LINK_STATUS_REFUNDED)"
| "link_settle _ = None"

definition same_accounts :: "'pk ledger \<Rightarrow> 'pk ledger \<Rightarrow> bool" where
  "same_accounts lg lg' \<longleftrightarrow>
     lg_sessions lg' = lg_sessions lg \<and> lg_vaults lg' = lg_vaults lg \<and> lg_links lg' = lg_links lg \<and>
     lg_config lg' = lg_config lg \<and> lg_claim_authority lg' = lg_claim_authority lg"

lemma seeded_vaultD: "seeded_vault S lg v = Inr va \<Longrightarrow> lg_vaults lg v = Some va"
  by (simp add: ledger_simps)

lemma seeded_linkD: "seeded_link S lg l = Inr pl \<Longrightarrow> lg_links lg l = Some pl"
  by (simp add: ledger_simps)

lemma signed_sessionD: "signed_session S cx lg v sg = Inr se \<Longrightarrow> lg_sessions lg (session_address S v sg) = Some se"
  by (simp add: ledger_simps)

lemma fund_accountD: "fund_account rt sp p a lg = Inr lg' \<Longrightarrow> same_accounts lg lg' \<and> lg_tokens lg' = lg_tokens lg"
  by (simp add: ledger_simps same_accounts_def)

lemma init_token_accountD: "init_token_account rt p a lg = Inr lg' \<Longrightarrow> same_accounts lg lg'"
  by (auto simp: ledger_simps same_accounts_def)

lemma init_token_account_if_neededD: "init_token_account_if_needed rt p a lg = Inr lg' \<Longrightarrow> same_accounts lg lg'"
  by (auto simp: ledger_simps same_accounts_def split: if_splits)

lemma transfer_checkedD:
  "transfer_checked rt s d a lg = Inr lg' \<Longrightarrow> same_accounts lg lg' \<and> lg_lamports lg' = lg_lamports lg"
  by (auto simp: ledger_simps same_accounts_def)

lemma transfer_program_lamportsD:
  "transfer_program_lamports rt n s d a e lg = Inr lg' \<Longrightarrow> same_accounts lg lg' \<and> lg_tokens lg' = lg_tokens lg"
  by (auto simp: ledger_simps same_accounts_def)

lemma init_linkD:
  "init_link S rt cx p l lg = Inr lg' \<Longrightarrow> lg_links lg l = None \<and> same_accounts lg lg' \<and> lg_tokens lg' = lg_tokens lg"
  by (auto simp: init_link_Inr dest: fund_accountD)

lemmas step_dests = seeded_vaultD seeded_linkD signed_sessionD fund_accountD init_token_accountD
  init_token_account_if_neededD transfer_checkedD transfer_program_lamportsD init_linkD

lemmas account_simps = handler_defs bindE_Inr_iff Let_def settle_link_def same_accounts_def bump_vault_Inr

lemma exec_session_open:
  assumes "exec S rt cx call lg = Inr lg'" and "session_open S call = Some (s, se)"
  shows "lg_sessions lg s = None \<and> lg_sessions lg' = (lg_sessions lg)(s \<mapsto> se) \<and> se_spent se = 0 \<and> se_nonce se = 0"
  using assms
  by (cases call)
     (auto simp: account_simps session_of_args_def write_session_def dest!: step_dests)

lemma exec_session_use:
  assumes "exec S rt cx call lg = Inr lg'" and "session_use S call = Some (s, a)"
  shows "\<exists>se. lg_sessions lg s = Some se \<and> a \<le> se_per_action_limit se \<and>
           (0 < a \<longrightarrow> se_spent se + a \<le> se_cumulative_limit se) \<and>
           lg_sessions lg' = (lg_sessions lg)(s \<mapsto> se\<lparr>se_spent := se_spent se + a, se_nonce := se_nonce se + 1\<rparr>)"
  using assms
  by (cases call)
     (auto simp: account_simps spend_session_Inr check_session_Inr bump_session_Inr dest!: step_dests)

lemma exec_session_same:
  assumes "exec S rt cx call lg = Inr lg'" and "session_open S call = None" and "session_use S call = None"
  shows "lg_sessions lg' = lg_sessions lg"
  using assms
  by (cases call) (auto simp: account_simps dest!: step_dests)

lemma exec_nonce_use:
  assumes "exec S rt cx call lg = Inr lg'" and "nonce_use call = Some (v, n)"
  shows "\<exists>va. lg_vaults lg v = Some va \<and> va_nonce va = n \<and> lg_vaults lg' = (lg_vaults lg)(v \<mapsto> va\<lparr>va_nonce := n + 1\<rparr>)"
  using assms
  by (cases call) (auto simp: account_simps dest!: step_dests)

lemma exec_vault_open:
  assumes "exec S rt cx call lg = Inr lg'" and "vault_open S call = Some v"
  shows "lg_vaults lg v = None \<and> (\<exists>va. lg_vaults lg' = (lg_vaults lg)(v \<mapsto> va) \<and> va_nonce va \<le> 1)"
proof -
  have "lg_vaults lg v = None \<and> lg_vaults lg' = (lg_vaults lg)(v \<mapsto> the (lg_vaults lg' v)) \<and>
          va_nonce (the (lg_vaults lg' v)) \<le> 1"
    using assms by (cases call) (auto simp: account_simps dest!: step_dests)
  then show ?thesis by blast
qed

lemma exec_vault_same:
  assumes "exec S rt cx call lg = Inr lg'" and "nonce_use call = None" and "vault_open S call = None"
  shows "lg_vaults lg' = lg_vaults lg"
  using assms
  by (cases call) (auto simp: account_simps dest!: step_dests)

lemma exec_link_open:
  assumes "exec S rt cx call lg = Inr lg'" and "link_open S call = Some (l, a)"
  shows "lg_links lg l = None \<and> (\<exists>v m. lg_links lg' = (lg_links lg)(l \<mapsto> new_link S (tx_now cx) v m a))"
  using assms
  by (cases call) (auto simp: account_simps intro!: exI dest!: step_dests)

lemma exec_link_settle_the:
  assumes "exec S rt cx call lg = Inr lg'" and "link_settle call = Some (l, st)"
  shows "(\<exists>pl. lg_links lg l = Some pl \<and> ln_status pl = PAYMENT_LINK_STATUS_ACTIVE) \<and>
           lg_links lg' = (lg_links lg)(l \<mapsto> the (lg_links lg' l)) \<and> ln_status (the (lg_links lg' l)) = st"
  using assms
  by (cases call) (auto simp: account_simps dest!: step_dests)

lemma exec_link_settle:
  assumes "exec S rt cx call lg = Inr lg'" and "link_settle call = Some (l, st)"
  shows "\<exists>pl pl'. lg_links lg l = Some pl \<and> ln_status pl = PAYMENT_LINK_STATUS_ACTIVE \<and>
           lg_links lg' = (lg_links lg)(l \<mapsto> pl') \<and> ln_status pl' = st"
  using exec_link_settle_the [OF assms] by blast

lemma exec_link_same:
  assumes "exec S rt cx call lg = Inr lg'" and "link_open S call = None" and "link_settle call = None"
  shows "lg_links lg' = lg_links lg"
  using assms
  by (cases call) (auto simp: account_simps dest!: step_dests)


end
