(* ===== verification/LedgerRuns.thy ===== *)
theory LedgerRuns
  imports Ledger
begin

unbundle bit_operations_syntax

text \<open>
  Runs of the program: any sequence of instructions, valid or not, signed by anyone, interleaved
  with payments from outside, from the empty ledger. The state of a run is the ledger with the list
  of the instructions that succeeded; the accounts are shown to be functions of that list. What is
  proved holds for every run, so also for every interleaving of the clients of the program.
\<close>

section \<open>Runs\<close>

locale step_invariant =
  fixes step :: "'e \<Rightarrow> 's \<Rightarrow> 's"
    and inv :: "'s \<Rightarrow> bool"
  assumes step_keeps: "inv s \<Longrightarrow> inv (step e s)"
begin

lemma run_keeps: "inv s \<Longrightarrow> inv (fold step es s)"
  by (induction es arbitrary: s) (auto intro: step_keeps)

end

fun traced_step :: "'pk sdk \<Rightarrow> 'pk runtime \<Rightarrow> 'pk event \<Rightarrow> 'pk ledger \<times> 'pk call list \<Rightarrow> 'pk ledger \<times> 'pk call list" where
  "traced_step S rt (Instruction cx call) (lg, trace) =
     (case exec S rt cx call lg of Inr lg' \<Rightarrow> (lg', trace @ [call]) | Inl _ \<Rightarrow> (lg, trace))"
| "traced_step S rt ev (lg, trace) = (ledger_step S rt ev lg, trace)"

definition traced_run :: "'pk sdk \<Rightarrow> 'pk runtime \<Rightarrow> ('pk \<Rightarrow> nat) \<Rightarrow> 'pk event list \<Rightarrow> 'pk ledger \<times> 'pk call list" where
  "traced_run S rt lam evs = fold (traced_step S rt) evs (empty_ledger lam, [])"

lemma traced_step_ledger: "fst (traced_step S rt ev st) = ledger_step S rt ev (fst st)"
  by (cases st; cases ev) (auto split: sum.split)

lemma traced_run_ledger: "fst (traced_run S rt lam evs) = fold (ledger_step S rt) evs (empty_ledger lam)"
proof -
  have "fst (fold (traced_step S rt) evs st) = fold (ledger_step S rt) evs (fst st)" for st
    by (induction evs arbitrary: st) (simp_all add: traced_step_ledger)
  then show ?thesis by (simp add: traced_run_def)
qed

text \<open>An invariant of the accounts is kept by a traced step when every successful instruction keeps it
  and it does not look at the balances.\<close>

lemma outside_same_accounts: "\<nexists>cx call. ev = Instruction cx call \<Longrightarrow> same_accounts lg (ledger_step S rt ev lg)"
  by (cases ev) (auto simp: same_accounts_def)

lemma traced_step_keeps:
  assumes inv: "I st"
    and exec: "\<And>cx call lg trace lg'. I (lg, trace) \<Longrightarrow> exec S rt cx call lg = Inr lg' \<Longrightarrow> I (lg', trace @ [call])"
    and accounts: "\<And>lg lg' trace. I (lg, trace) \<Longrightarrow> same_accounts lg lg' \<Longrightarrow> I (lg', trace)"
  shows "I (traced_step S rt ev st)"
proof -
  obtain lg trace where st: "st = (lg, trace)" by (cases st)
  show ?thesis
  proof (cases "\<exists>cx call. ev = Instruction cx call")
    case True
    then show ?thesis using inv exec st by (auto split: sum.split)
  next
    case False
    then have "traced_step S rt ev st = (ledger_step S rt ev lg, trace)" using st by (cases ev) auto
    with outside_same_accounts [OF False, of lg S rt] accounts inv st show ?thesis by simp
  qed
qed

section \<open>Sessions\<close>

definition picked :: "('a \<Rightarrow> ('k \<times> 'v) option) \<Rightarrow> 'k \<Rightarrow> 'a list \<Rightarrow> 'v list" where
  "picked f k xs = List.map_filter (\<lambda>x. case f x of Some (k', v) \<Rightarrow> if k' = k then Some v else None | None \<Rightarrow> None) xs"

lemma picked_simps [simp]:
  "picked f k [] = []"
  "picked f k (xs @ [x]) = picked f k xs @ (case f x of Some (k', v) \<Rightarrow> if k' = k then [v] else [] | None \<Rightarrow> [])"
  by (auto simp: picked_def List.map_filter_def split: option.split)

abbreviation session_grants :: "'pk sdk \<Rightarrow> 'pk \<Rightarrow> 'pk call list \<Rightarrow> 'pk Session list" where
  "session_grants S \<equiv> picked (session_open S)"

abbreviation session_amounts :: "'pk sdk \<Rightarrow> 'pk \<Rightarrow> 'pk call list \<Rightarrow> nat list" where
  "session_amounts S \<equiv> picked (session_use S)"

definition session_logged :: "'pk sdk \<Rightarrow> 'pk \<Rightarrow> 'pk call list \<Rightarrow> 'pk Session option \<Rightarrow> bool" where
  "session_logged S s trace acc =
     (case acc of
        None \<Rightarrow> session_grants S s trace = [] \<and> session_amounts S s trace = []
      | Some se \<Rightarrow>
          (\<exists>se0. session_grants S s trace = [se0] \<and>
             se = se0\<lparr>se_spent := sum_list (session_amounts S s trace), se_nonce := length (session_amounts S s trace)\<rparr> \<and>
             sum_list (session_amounts S s trace) \<le> se_cumulative_limit se0 \<and>
             set (session_amounts S s trace) \<subseteq> {..se_per_action_limit se0}))"

lemma session_open_not_use: "session_open S call = Some x \<Longrightarrow> session_use S call = None"
  by (cases call) auto

lemma session_logged_exec:
  assumes inv: "\<And>s. session_logged S s trace (lg_sessions lg s)" and exec: "exec S rt cx call lg = Inr lg'"
  shows "session_logged S s (trace @ [call]) (lg_sessions lg' s)"
proof (cases "session_open S call")
  case (Some x)
  obtain s0 se0 where x: "x = (s0, se0)" by (cases x)
  from exec_session_open [OF exec] Some x
  have "lg_sessions lg s0 = None" "lg_sessions lg' = (lg_sessions lg)(s0 \<mapsto> se0)" "se_spent se0 = 0" "se_nonce se0 = 0"
    by auto
  then show ?thesis
    using inv [of s] Some x session_open_not_use [OF Some]
    by (auto simp: session_logged_def split: option.splits)
next
  case no_open: None
  show ?thesis
  proof (cases "session_use S call")
    case None
    with no_open exec_session_same [OF exec] inv [of s] show ?thesis
      by (auto simp: session_logged_def split: option.splits)
  next
    case (Some x)
    obtain s0 a where x: "x = (s0, a)" by (cases x)
    from exec_session_use [OF exec] Some x obtain se where se: "lg_sessions lg s0 = Some se"
      and a: "a \<le> se_per_action_limit se" "0 < a \<longrightarrow> se_spent se + a \<le> se_cumulative_limit se"
      and lg': "lg_sessions lg' = (lg_sessions lg)(s0 \<mapsto> se\<lparr>se_spent := se_spent se + a, se_nonce := se_nonce se + 1\<rparr>)"
      by blast
    show ?thesis
    proof (cases "s = s0")
      case True
      with inv [of s] se obtain se0 where se0: "session_grants S s trace = [se0]"
        "se = se0\<lparr>se_spent := sum_list (session_amounts S s trace), se_nonce := length (session_amounts S s trace)\<rparr>"
        "sum_list (session_amounts S s trace) \<le> se_cumulative_limit se0"
        "set (session_amounts S s trace) \<subseteq> {..se_per_action_limit se0}"
        by (auto simp: session_logged_def)
      then show ?thesis using True Some x no_open lg' a by (cases "a = 0") (auto simp: session_logged_def)
    next
      case False
      then show ?thesis using inv [of s] Some x no_open lg'
        by (auto simp: session_logged_def split: option.splits)
    qed
  qed
qed

definition sessions_logged :: "'pk sdk \<Rightarrow> 'pk ledger \<times> 'pk call list \<Rightarrow> bool" where
  "sessions_logged S st \<longleftrightarrow> (\<forall>s. session_logged S s (snd st) (lg_sessions (fst st) s))"

interpretation sessions: step_invariant "traced_step S rt" "sessions_logged S" for S rt
proof
  fix st ev
  assume "sessions_logged S st"
  then show "sessions_logged S (traced_step S rt ev st)"
    by (rule traced_step_keeps) (auto simp: sessions_logged_def same_accounts_def intro: session_logged_exec)
qed

text \<open>C2. Over any run, a session account exists exactly when a passkey grant of it succeeded, that
  grant is the only one, and the account is the granted one with \<open>spent\<close> the sum of the amounts and
  \<open>nonce\<close> the number of its uses. The sum never exceeds the cumulative limit of the grant and no
  single amount its per-action limit.\<close>

theorem session_spending_within_grant:
  "case traced_run S rt lam evs of (lg, trace) \<Rightarrow>
     (case lg_sessions lg s of
        None \<Rightarrow> session_grants S s trace = [] \<and> session_amounts S s trace = []
      | Some se \<Rightarrow>
          (\<exists>se0. session_grants S s trace = [se0] \<and>
             se = se0\<lparr>se_spent := sum_list (session_amounts S s trace), se_nonce := length (session_amounts S s trace)\<rparr> \<and>
             sum_list (session_amounts S s trace) \<le> se_cumulative_limit se0 \<and>
             set (session_amounts S s trace) \<subseteq> {..se_per_action_limit se0}))"
proof -
  have "sessions_logged S (empty_ledger lam, [])"
    by (simp add: sessions_logged_def session_logged_def empty_ledger_def)
  from sessions.run_keeps [OF this, of rt evs] show ?thesis
    by (simp add: traced_run_def sessions_logged_def session_logged_def case_prod_beta)
qed

section \<open>Vault nonces\<close>

abbreviation vault_nonces :: "'pk \<Rightarrow> 'pk call list \<Rightarrow> nat list" where
  "vault_nonces \<equiv> picked nonce_use"

definition nonce_logged :: "'pk \<Rightarrow> 'pk call list \<Rightarrow> Vault option \<Rightarrow> bool" where
  "nonce_logged v trace acc =
     (case acc of
        None \<Rightarrow> vault_nonces v trace = []
      | Some va \<Rightarrow> (\<exists>k \<le> 1. k \<le> va_nonce va \<and> vault_nonces v trace = [k..<va_nonce va]))"

lemma vault_open_no_nonce: "vault_open S call = Some v \<Longrightarrow> nonce_use call = None"
  by (cases call) auto

lemma nonce_logged_other:
  "nonce_logged v trace acc \<Longrightarrow> (\<And>n. nonce_use call \<noteq> Some (v, n)) \<Longrightarrow> nonce_logged v (trace @ [call]) acc"
  by (auto simp: nonce_logged_def split: option.splits)

lemma nonce_logged_exec:
  assumes inv: "\<And>v. nonce_logged v trace (lg_vaults lg v)" and exec: "exec S rt cx call lg = Inr lg'"
  shows "nonce_logged v (trace @ [call]) (lg_vaults lg' v)"
proof (cases "nonce_use call")
  case (Some x)
  obtain w n where x: "x = (w, n)" by (cases x)
  from exec_nonce_use [OF exec] Some x obtain va where va: "lg_vaults lg w = Some va" "va_nonce va = n"
    "lg_vaults lg' = (lg_vaults lg)(w \<mapsto> va\<lparr>va_nonce := n + 1\<rparr>)" by blast
  show ?thesis
  proof (cases "v = w")
    case True
    with inv [of v] va obtain k where "k \<le> 1" "k \<le> n" "vault_nonces v trace = [k..<n]"
      by (auto simp: nonce_logged_def)
    with True Some x va show ?thesis by (auto simp: nonce_logged_def intro!: exI [of _ k])
  next
    case False
    with inv [of v] Some x va show ?thesis by (simp add: nonce_logged_other)
  qed
next
  case no_use: None
  show ?thesis
  proof (cases "vault_open S call")
    case (Some w)
    from exec_vault_open [OF exec Some] obtain va where "lg_vaults lg w = None"
      "lg_vaults lg' = (lg_vaults lg)(w \<mapsto> va)" "va_nonce va \<le> 1" by blast
    with inv [of v] no_use show ?thesis by (auto simp: nonce_logged_def split: option.splits)
  next
    case None
    with exec_vault_same [OF exec no_use] inv [of v] no_use show ?thesis by (simp add: nonce_logged_other)
  qed
qed

definition nonces_logged :: "'pk ledger \<times> 'pk call list \<Rightarrow> bool" where
  "nonces_logged st \<longleftrightarrow> (\<forall>v. nonce_logged v (snd st) (lg_vaults (fst st) v))"

interpretation nonces: step_invariant "traced_step S rt" nonces_logged for S :: "'pk sdk" and rt
proof
  fix st :: "'pk ledger \<times> 'pk call list" and ev
  assume "nonces_logged st"
  then show "nonces_logged (traced_step S rt ev st)"
    by (rule traced_step_keeps) (auto simp: nonces_logged_def same_accounts_def intro: nonce_logged_exec)
qed

text \<open>Over any run, the nonces of the passkey authorizations a vault has executed are consecutive
  from 0 (from 1 for a vault opened together with a session, which uses nonce 0) up to the nonce of
  its account. No passkey authorization is therefore executed twice, and none out of order.\<close>

theorem passkey_authorizations_consecutive:
  "case traced_run S rt lam evs of (lg, trace) \<Rightarrow>
     (case lg_vaults lg v of
        None \<Rightarrow> vault_nonces v trace = []
      | Some va \<Rightarrow> (\<exists>k \<le> 1. k \<le> va_nonce va \<and> vault_nonces v trace = [k..<va_nonce va])) \<and>
     distinct (vault_nonces v trace)"
proof -
  have "nonces_logged (empty_ledger lam, [])" by (simp add: nonces_logged_def nonce_logged_def empty_ledger_def)
  from nonces.run_keeps [OF this, of S rt evs] show ?thesis
    unfolding traced_run_def nonces_logged_def nonce_logged_def case_prod_beta
    by (drule_tac x = v in spec) (auto split: option.splits)
qed

section \<open>Payment links\<close>

text \<open>The openings and settlements of a link, in order: \<open>None\<close> an opening, \<open>Some st\<close> the settlement with
  status \<open>st\<close>.\<close>

fun link_event :: "'pk sdk \<Rightarrow> 'pk call \<Rightarrow> ('pk \<times> nat option) option" where
  "link_event S call =
     (case link_open S call of
        Some (l, _) \<Rightarrow> Some (l, None)
      | None \<Rightarrow> map_option (\<lambda>(l, st). (l, Some st)) (link_settle call))"

abbreviation link_history :: "'pk sdk \<Rightarrow> 'pk \<Rightarrow> 'pk call list \<Rightarrow> nat option list" where
  "link_history S \<equiv> picked (link_event S)"

definition link_logged :: "'pk sdk \<Rightarrow> 'pk \<Rightarrow> 'pk call list \<Rightarrow> 'pk PaymentLink option \<Rightarrow> bool" where
  "link_logged S l trace acc =
     (case acc of
        None \<Rightarrow> link_history S l trace = []
      | Some pl \<Rightarrow> link_history S l trace =
          (if ln_status pl = PAYMENT_LINK_STATUS_ACTIVE then [None] else [None, Some (ln_status pl)]))"

lemma link_settle_status: "link_settle call = Some (l, st) \<Longrightarrow> st \<noteq> PAYMENT_LINK_STATUS_ACTIVE"
  by (cases call) (auto simp: link_status_defs)

lemma link_logged_exec:
  assumes inv: "\<And>l. link_logged S l trace (lg_links lg l)" and exec: "exec S rt cx call lg = Inr lg'"
  shows "link_logged S l (trace @ [call]) (lg_links lg' l)"
proof (cases "link_open S call")
  case (Some x)
  obtain k a where x: "x = (k, a)" by (cases x)
  from exec_link_open [OF exec] Some x obtain v m where "lg_links lg k = None"
    "lg_links lg' = (lg_links lg)(k \<mapsto> new_link S (tx_now cx) v m a)" by blast
  with inv [of l] Some x show ?thesis
    by (auto simp: link_logged_def new_link_def split: option.splits)
next
  case no_open: None
  show ?thesis
  proof (cases "link_settle call")
    case (Some x)
    obtain k st where x: "x = (k, st)" by (cases x)
    from exec_link_settle [OF exec] Some x obtain pl pl' where "lg_links lg k = Some pl"
      "ln_status pl = PAYMENT_LINK_STATUS_ACTIVE" "lg_links lg' = (lg_links lg)(k \<mapsto> pl')" "ln_status pl' = st" by blast
    with inv [of l] Some x no_open link_settle_status [of call k st] show ?thesis
      by (auto simp: link_logged_def split: option.splits)
  next
    case None
    with exec_link_same [OF exec no_open] inv [of l] no_open show ?thesis
      by (auto simp: link_logged_def split: option.splits)
  qed
qed

definition links_logged :: "'pk sdk \<Rightarrow> 'pk ledger \<times> 'pk call list \<Rightarrow> bool" where
  "links_logged S st \<longleftrightarrow> (\<forall>l. link_logged S l (snd st) (lg_links (fst st) l))"

interpretation links: step_invariant "traced_step S rt" "links_logged S" for S rt
proof
  fix st ev
  assume "links_logged S st"
  then show "links_logged S (traced_step S rt ev st)"
    by (rule traced_step_keeps) (auto simp: links_logged_def same_accounts_def intro: link_logged_exec)
qed

text \<open>C33. The life of a payment link: over any run, the successful instructions on a link are none while
  it has no account, exactly its opening while it is active, and its opening followed by one
  settlement (claim, cancellation or refund, as its status says) afterwards. A link is therefore
  never opened twice and never paid out twice.\<close>

theorem link_settles_at_most_once:
  "case traced_run S rt lam evs of (lg, trace) \<Rightarrow>
     link_history S l trace =
       (case lg_links lg l of
          None \<Rightarrow> []
        | Some pl \<Rightarrow> if ln_status pl = PAYMENT_LINK_STATUS_ACTIVE then [None] else [None, Some (ln_status pl)])"
proof -
  have "links_logged S (empty_ledger lam, [])" by (simp add: links_logged_def link_logged_def empty_ledger_def)
  then have "link_logged S l (snd (traced_run S rt lam evs)) (lg_links (fst (traced_run S rt lam evs)) l)"
    using links.run_keeps [of S _ rt evs] by (simp add: traced_run_def links_logged_def)
  then show ?thesis by (auto simp: link_logged_def case_prod_beta split: option.splits)
qed

end
