(* ===== verification/LedgerWf.thy ===== *)
theory LedgerWf
  imports LedgerRuns
begin

unbundle bit_operations_syntax

text \<open>
  Well-formed accounts: what a client may rely on when it decodes an account of the program, in any
  state a run can reach.
\<close>

definition vault_wf :: "'pk sdk \<Rightarrow> 'pk \<Rightarrow> Vault \<Rightarrow> bool" where
  "vault_wf S v va \<longleftrightarrow>
     sha256 S (va_root_public_key va) = va_root_key_hash va \<and>
     vault_address S (va_root_key_hash va) (va_user_salt va) = v \<and> va_nonce va < 2 ^ 64"

definition session_wf :: "'pk sdk \<Rightarrow> 'pk \<Rightarrow> 'pk Session \<Rightarrow> bool" where
  "session_wf S s se \<longleftrightarrow>
     session_address S (se_vault se) (se_public_key se) = s \<and> se_action_bitmap se = SESSION_ACTION_TRANSFER \<and>
     0 < se_per_action_limit se \<and> se_per_action_limit se \<le> se_cumulative_limit se \<and>
     se_spent se \<le> se_cumulative_limit se \<and> \<not> se_revoked se \<and>
     se_valid_after se \<le> se_valid_until se \<and>
     se_valid_until se - se_valid_after se \<le> MAX_SESSION_DURATION_SECONDS"

definition link_wf :: "'pk sdk \<Rightarrow> 'pk ledger \<Rightarrow> 'pk \<Rightarrow> 'pk PaymentLink \<Rightarrow> bool" where
  "link_wf S lg l pl \<longleftrightarrow>
     link_address S (ln_sender_vault pl) (ln_link_id pl) = l \<and> lg_vaults lg (ln_sender_vault pl) \<noteq> None \<and>
     0 < ln_amount pl \<and> ln_recipient_commitment pl \<noteq> replicate 32 0 \<and>
     ln_status pl \<le> PAYMENT_LINK_STATUS_REFUNDED \<and> ln_created_at pl < ln_expires_at pl \<and>
     ln_expires_at pl - ln_created_at pl \<le> MAX_PAYMENT_LINK_DURATION_SECONDS \<and>
     (ln_mint pl = SystemProgram_programId S \<or>
      (\<exists>c. lg_config lg = Some c \<and> ln_mint pl = cfg_stablecoin_mint c))"

definition ledger_wf :: "'pk sdk \<Rightarrow> 'pk ledger \<Rightarrow> bool" where
  "ledger_wf S lg \<longleftrightarrow>
     (\<forall>c. lg_config lg = Some c \<longrightarrow> cfg_stablecoin_mint c \<noteq> SystemProgram_programId S \<and> \<not> cfg_paused c) \<and>
     lg_claim_authority lg \<noteq> Some (SystemProgram_programId S) \<and>
     (\<forall>v va. lg_vaults lg v = Some va \<longrightarrow> vault_wf S v va) \<and>
     (\<forall>s se. lg_sessions lg s = Some se \<longrightarrow> session_wf S s se) \<and>
     (\<forall>l pl. lg_links lg l = Some pl \<longrightarrow> link_wf S lg l pl)"

lemma saturating_sub_le: "- (2 ^ 63) \<le> k \<Longrightarrow> k < I64_MAX \<Longrightarrow> saturating_sub a b \<le> k \<longleftrightarrow> a - b \<le> k"
  by (auto simp: saturating_sub_def)

lemma session_duration: "saturating_sub a b \<le> MAX_SESSION_DURATION_SECONDS \<longleftrightarrow> a - b \<le> MAX_SESSION_DURATION_SECONDS"
  by (rule saturating_sub_le) (simp_all add: MAX_SESSION_DURATION_SECONDS_def I64_MAX_def)

lemma link_duration:
  "saturating_sub a b \<le> MAX_PAYMENT_LINK_DURATION_SECONDS \<longleftrightarrow> a - b \<le> MAX_PAYMENT_LINK_DURATION_SECONDS"
  by (rule saturating_sub_le) (simp_all add: MAX_PAYMENT_LINK_DURATION_SECONDS_def I64_MAX_def)

lemma bitmap_transfer_only:
  fixes b :: "16 word"
  assumes "b \<noteq> 0" and "b AND NOT SUPPORTED_SESSION_ACTIONS = 0"
  shows "b = SESSION_ACTION_TRANSFER"
proof -
  have "b = b AND 1" using assms(2) unfolding SUPPORTED_SESSION_ACTIONS_def SESSION_ACTION_TRANSFER_def
    by (metis and.right_neutral bit.conj_disj_distrib bit.disj_cancel_right or.right_neutral)
  then have "b = 0 \<or> b = 1" by (metis and_one_eq mod2_eq_if)
  with assms(1) show ?thesis by (simp add: SESSION_ACTION_TRANSFER_def)
qed

lemma exec_config:
  assumes "exec S rt cx call lg = Inr lg'"
  shows "lg_config lg' = lg_config lg \<or>
         lg_config lg = None \<and> (\<exists>c. lg_config lg' = Some c \<and> cfg_stablecoin_mint c \<noteq> SystemProgram_programId S \<and> \<not> cfg_paused c)"
  using assms by (cases call) (auto simp: account_simps dest!: step_dests)

lemma exec_claim_authority:
  assumes "exec S rt cx call lg = Inr lg'"
  shows "lg_claim_authority lg' = lg_claim_authority lg \<or>
         lg_claim_authority lg = None \<and> (\<exists>a. lg_claim_authority lg' = Some a \<and> a \<noteq> SystemProgram_programId S)"
  using assms by (cases call) (auto simp: account_simps dest!: step_dests)

lemma exec_vault_wf:
  assumes exec: "exec S rt cx call lg = Inr lg'" and wf: "\<And>v va. lg_vaults lg v = Some va \<Longrightarrow> vault_wf S v va"
    and va: "lg_vaults lg' v = Some va"
  shows "vault_wf S v va"
  using assms
  by (cases call) (auto simp: account_simps vault_wf_def split: if_splits dest!: step_dests)

lemma session_of_args_wf:
  "args_policy a = Inr () \<Longrightarrow> session_wf S (session_address S v (sa_session_public_key a)) (session_of_args v a)"
  by (auto simp: args_policy_Inr session_wf_def session_of_args_def write_session_def session_duration bitmap_transfer_only)

lemma exec_session_wf:
  assumes exec: "exec S rt cx call lg = Inr lg'" and wf: "\<And>s se. lg_sessions lg s = Some se \<Longrightarrow> session_wf S s se"
    and se: "lg_sessions lg' s = Some se"
  shows "session_wf S s se"
proof (cases "session_open S call")
  case (Some x)
  with exec obtain v a where x: "x = (session_address S v (sa_session_public_key a), session_of_args v a)"
    and ok: "args_policy a = Inr ()"
    by (cases call) (auto simp: handler_defs bindE_Inr_iff Let_def)
  from exec_session_open [OF exec] Some x se wf session_of_args_wf [OF ok, of S v] show ?thesis
    by (auto split: if_splits)
next
  case no_open: None
  show ?thesis
  proof (cases "session_use S call")
    case None
    with no_open exec_session_same [OF exec] wf se show ?thesis by simp
  next
    case (Some x)
    obtain s0 a where x: "x = (s0, a)" by (cases x)
    from exec_session_use [OF exec] Some x obtain se0 where "lg_sessions lg s0 = Some se0"
      "0 < a \<longrightarrow> se_spent se0 + a \<le> se_cumulative_limit se0"
      "lg_sessions lg' = (lg_sessions lg)(s0 \<mapsto> se0\<lparr>se_spent := se_spent se0 + a, se_nonce := se_nonce se0 + 1\<rparr>)"
      by blast
    with wf [of s0 se0] wf [of s] se show ?thesis
      by (cases "a = 0") (auto simp: session_wf_def split: if_splits)
  qed
qed

lemma exec_vaults_grow: "exec S rt cx call lg = Inr lg' \<Longrightarrow> lg_vaults lg v \<noteq> None \<Longrightarrow> lg_vaults lg' v \<noteq> None"
  by (cases call) (auto simp: account_simps dest!: step_dests)

lemma link_wf_mono:
  assumes "exec S rt cx call lg = Inr lg'" and "link_wf S lg l pl"
  shows "link_wf S lg' l pl"
  using exec_vaults_grow [OF assms(1), of "ln_sender_vault pl"] exec_config [OF assms(1)] assms(2)
  by (auto simp: link_wf_def)

lemma exec_link_wf:
  assumes exec: "exec S rt cx call lg = Inr lg'" and wf: "\<And>l pl. lg_links lg l = Some pl \<Longrightarrow> link_wf S lg l pl"
    and pl: "lg_links lg' l = Some pl"
  shows "link_wf S lg' l pl"
proof -
  have "lg_links lg l = Some pl \<or> link_wf S lg l pl"
    using exec pl wf [of l]
    by (cases call)
       (auto simp: account_simps link_wf_def new_link_def require_amount_Inr require_link_expiry_Inr link_duration
          link_status_defs split: if_splits dest!: step_dests)
  then have "link_wf S lg l pl" using wf by blast
  then show ?thesis by (rule link_wf_mono [OF exec])
qed

lemma ledger_wf_exec:
  assumes wf: "ledger_wf S lg" and exec: "exec S rt cx call lg = Inr lg'"
  shows "ledger_wf S lg'"
proof -
  have "vault_wf S v va" if "lg_vaults lg' v = Some va" for v va
    using exec_vault_wf [OF exec _ that] wf by (simp add: ledger_wf_def)
  moreover have "session_wf S s se" if "lg_sessions lg' s = Some se" for s se
    using exec_session_wf [OF exec _ that] wf by (simp add: ledger_wf_def)
  moreover have "link_wf S lg' l pl" if "lg_links lg' l = Some pl" for l pl
    using exec_link_wf [OF exec _ that] wf by (simp add: ledger_wf_def)
  ultimately show ?thesis
    using exec_config [OF exec] exec_claim_authority [OF exec] wf by (auto simp: ledger_wf_def)
qed

lemma ledger_wf_same: "ledger_wf S lg \<Longrightarrow> same_accounts lg lg' \<Longrightarrow> ledger_wf S lg'"
  by (simp add: ledger_wf_def same_accounts_def link_wf_def)

interpretation accounts: step_invariant "ledger_step S rt" "ledger_wf S" for S rt
proof
  fix lg ev
  assume wf: "ledger_wf S lg"
  show "ledger_wf S (ledger_step S rt ev lg)"
  proof (cases "\<exists>cx call. ev = Instruction cx call")
    case True
    with wf ledger_wf_exec [OF wf] show ?thesis by (auto split: sum.split)
  next
    case False
    with wf show ?thesis by (blast intro: ledger_wf_same outside_same_accounts)
  qed
qed

lemma reachable_wf: "ledger_wf S (fold (ledger_step S rt) evs (empty_ledger lam))"
proof -
  have "ledger_wf S (empty_ledger lam)" by (simp add: ledger_wf_def empty_ledger_def)
  then show ?thesis by (rule accounts.run_keeps)
qed

text \<open>C34. Every account of every reachable ledger is well formed: a vault sits at the address its key hash
  and salt derive and its key hashes to that hash; a session sits at the address of its vault and key, allows exactly
  the transfer action, has spent at most its cumulative limit and lasts at most thirty days; a payment link sits at the
  address of its sender and id, its sender has a vault, its amount is positive, it lives at most thirty days and its mint
  is the configured stablecoin or native SOL. The claim authority is never the system program, and the stablecoin never
  passes for native SOL.\<close>

theorem reachable_accounts_well_formed:
  "ledger_wf S (fold (ledger_step S rt) evs (empty_ledger lam))"
  by (rule reachable_wf)

text \<open>The switches that are meant to stop a key or the protocol are never thrown: in no reachable
  ledger is a session revoked or the protocol paused, because no instruction sets either flag. A
  session key that the backend marks as revoked therefore stays valid for the program until its
  session expires.\<close>

theorem no_session_revoked_no_pause:
  "case fold (ledger_step S rt) evs (empty_ledger lam) of lg \<Rightarrow>
     (\<nexists>s se. lg_sessions lg s = Some se \<and> se_revoked se) \<and> (\<nexists>c. lg_config lg = Some c \<and> cfg_paused c)"
  using reachable_wf [of S rt evs lam]
  by (auto simp: ledger_wf_def session_wf_def)

end
