(* ===== verification/LedgerExample.thy ===== *)
theory LedgerExample
  imports LedgerRuns
begin

text \<open>
  A concrete run: the protocol is initialised, a vault is opened together with a session, paid into,
  and the session opens a payment link. It shows that the hypotheses of the general statements can
  be met by ledgers with accounts of every kind.
\<close>

definition example_sdk :: "256 word sdk" where
  "example_sdk = word_sdk\<lparr>findProgramAddress := (\<lambda>seeds p. of_nat (length (hd seeds)))\<rparr>"

lemma example_sdk_simps [simp]:
  "sha256 example_sdk bs = take 32 (bs @ replicate 32 0)"
  "findProgramAddress example_sdk seeds p = of_nat (length (hd seeds))"
  "getAssociatedTokenAddress example_sdk mint owner b p = mint + owner + p"
  "TOKEN_PROGRAM_ID example_sdk = 2"
  "SystemProgram_programId example_sdk = 4"
  by (simp_all add: example_sdk_def word_sdk_def)

definition example_transfer :: "(256 word \<rightharpoonup> nat) \<Rightarrow> 256 word \<Rightarrow> 256 word \<Rightarrow> nat \<Rightarrow> (256 word \<rightharpoonup> nat) option" where
  "example_transfer t s d a =
     (case (t s, t d) of
        (Some bs, Some bd) \<Rightarrow>
          if a \<le> bs \<and> bd + a < 2 ^ 64 then Some (if s = d then t else t(s \<mapsto> bs - a, d \<mapsto> bd + a)) else None
      | _ \<Rightarrow> None)"

definition example_runtime :: "256 word runtime" where
  "example_runtime =
     \<lparr>rt_client_data = (\<lambda>json. Some \<lparr>cd_type = ''webauthn.get'', cd_challenge = map (\<lambda>b. char_of (unat b)) json,
        cd_origin = ''o'', cd_crossOrigin = None\<rparr>),
      rt_base64url = (\<lambda>s. Some (map (\<lambda>c. of_nat (of_char c)) s)),
      rt_transfer = example_transfer, rt_rent = (\<lambda>n. 0)\<rparr>"

lemma example_runtime_ok: "runtime_ok example_runtime"
  by (auto simp: runtime_ok_def example_runtime_def example_transfer_def split: option.splits if_splits)

definition example_key :: bytes where "example_key = 2 # replicate 32 7"
definition example_auth :: bytes where "example_auth = replicate 32 0 @ [5] @ replicate 4 0"
definition example_challenge :: bytes where
  "example_challenge = take 32 (CHALLENGE_DOMAIN @ replicate 32 0)"

definition example_proof :: WebAuthnProof where
  "example_proof = \<lparr>compressedPublicKey = example_key, authenticatorData = example_auth,
     clientDataJson = example_challenge, signatureDer = [0x30, 6, 2, 1, 1, 2, 1, 2]\<rparr>"

definition example_tx :: "256 word tx" where
  "example_tx = \<lparr>tx_now = 10, tx_signers = [1000],
     tx_previous = (case createSecp256r1Instruction example_sdk example_proof of Inr ix \<Rightarrow> Some ix | Inl _ \<Rightarrow> None)\<rparr>"

definition example_pf :: proof_args where
  "example_pf = \<lparr>pf_expires_at = 100, pf_authenticator_data = example_auth, pf_client_data_json = example_challenge\<rparr>"

definition example_config :: "256 word ProtocolConfig" where
  "example_config = \<lparr>cfg_paused = False, cfg_authority = 1000, cfg_stablecoin_mint = 500,
     cfg_rp_id_hash = replicate 32 0, cfg_origin_hash = sha256 example_sdk (utf8 ''o''),
     cfg_cluster_domain = replicate 32 0\<rparr>"

lemma length_CHALLENGE_DOMAIN: "length CHALLENGE_DOMAIN = 19"
  unfolding CHALLENGE_DOMAIN_def by code_simp

lemma example_program_challenge:
  "program_challenge example_sdk (challenge_head example_sdk example_config act @ parts) = example_challenge"
  by (simp add: program_challenge_def challenge_head_def example_config_def example_challenge_def length_CHALLENGE_DOMAIN)

lemma example_instruction: "\<exists>ix. createSecp256r1Instruction example_sdk example_proof = Inr ix"
proof -
  have "derToCompactLowS [0x30, 6, 2, 1, 1, 2, 1, 2] = Inr (be_bytes 32 1 @ be_bytes 32 2)"
    by code_simp
  then show ?thesis
    by (simp add: createSecp256r1Instruction_def example_proof_def example_key_def example_auth_def PUBLIC_KEY_SIZE_def
        webAuthnSignedMessage_def Let_def)
qed

lemma example_authorize:
  "authorize example_sdk example_runtime example_tx example_config example_key example_pf
     (challenge_head example_sdk example_config act @ parts) = Inr ()"
proof -
  obtain ix where ix: "createSecp256r1Instruction example_sdk example_proof = Inr ix" using example_instruction by blast
  have v: "validate_secp256r1_instruction example_sdk ix example_key (example_auth @ sha256 example_sdk example_challenge) = Inr ()"
    unfolding validate_secp256r1_iff [OF ix] by (simp add: example_proof_def)
  have e: "validate_authorization_expiry 10 100 = Inr ()"
    by (simp add: validate_authorization_expiry_def saturating_add_def I64_MAX_def MAX_AUTHORIZATION_TTL_SECONDS_def)
  have w: "validate_webauthn_data example_sdk example_runtime example_config example_auth example_challenge example_challenge = Inr ()"
    by (simp add: validate_webauthn_data_def example_auth_def example_config_def example_runtime_def nth_append comp_def)
  show ?thesis
    unfolding authorize_def verify_root_authorization_def example_program_challenge
    using v e w by (simp add: example_tx_def example_pf_def ix)
qed

definition example_hash :: bytes where "example_hash = sha256 example_sdk example_key"

definition example_session :: "256 word session_args" where
  "example_session = \<lparr>sa_session_public_key = 1000, sa_action_bitmap = 1, sa_per_action_limit = 50,
     sa_cumulative_limit = 80, sa_valid_after = 0, sa_valid_until = 1000\<rparr>"

definition example_link :: link_args where
  "example_link = \<lparr>la_link_id = replicate 32 3, la_recipient_commitment = replicate 32 9, la_amount = 40,
     la_expires_at = 500\<rparr>"

definition example_vault :: Vault where
  "example_vault = \<lparr>va_root_public_key = example_key, va_root_key_hash = example_hash, va_user_salt = replicate 32 1,
     va_nonce = 1, va_created_at = 10\<rparr>"

lemma example_addresses [simp]:
  "vault_address example_sdk h s = 5" "session_address example_sdk v k = 7" "link_address example_sdk v i = 12"
proof -
  have "length VAULT_SEED = 5" "length SESSION_SEED = 7" "length PAYMENT_LINK_SEED = 12"
    unfolding VAULT_SEED_def SESSION_SEED_def PAYMENT_LINK_SEED_def by code_simp+
  then show "vault_address example_sdk h s = 5" "session_address example_sdk v k = 7" "link_address example_sdk v i = 12"
    by (simp_all add: vault_address_def deriveSession_def link_address_def)
qed

definition example_events :: "256 word event list" where
  "example_events =
     [Instruction example_tx (InitializeProtocol 1000 500 (replicate 32 0) (sha256 example_sdk (utf8 ''o'')) (replicate 32 0)),
      Instruction example_tx (InitializeVaultAndGrantSession 1000 example_key example_hash (replicate 32 1) example_session example_pf),
      PayIn 507 100,
      Instruction example_tx (CreatePaymentLinkWithSession 1000 5 1000 example_link 0)]"

definition example_ledger :: "256 word ledger" where
  "example_ledger =
     \<lparr>lg_config = Some example_config, lg_claim_authority = None, lg_vaults = [5 \<mapsto> example_vault],
      lg_sessions = [7 \<mapsto> (session_of_args 5 example_session)\<lparr>se_spent := 40, se_nonce := 1\<rparr>],
      lg_links = [12 \<mapsto> new_link example_sdk 10 5 500 example_link],
      lg_tokens = [507 \<mapsto> 60, 514 \<mapsto> 40], lg_lamports = (\<lambda>_. 0)\<rparr>"

lemma example_tx_simps [simp]: "tx_now example_tx = 10" "tx_signers example_tx = [1000]"
  by (simp_all add: example_tx_def)

lemma example_fund: "p \<noteq> a \<Longrightarrow> fund_account example_runtime n p a lg = Inr lg"
  by (simp add: fund_account_def example_runtime_def)

lemma example_init_token:
  "p \<noteq> a \<Longrightarrow> lg_tokens lg a = None \<Longrightarrow>
     init_token_account example_runtime p a lg = Inr (lg\<lparr>lg_tokens := (lg_tokens lg)(a \<mapsto> 0)\<rparr>)"
  by (simp add: init_token_account_def example_fund anchor_def)

definition example_opened :: "256 word ledger" where
  "example_opened =
     \<lparr>lg_config = Some example_config, lg_claim_authority = None, lg_vaults = [5 \<mapsto> example_vault],
      lg_sessions = [7 \<mapsto> session_of_args 5 example_session],
      lg_links = Map.empty, lg_tokens = [507 \<mapsto> 0], lg_lamports = (\<lambda>_. 0)\<rparr>"

lemma example_init:
  "exec example_sdk example_runtime example_tx
     (InitializeProtocol 1000 500 (replicate 32 0) (sha256 example_sdk (utf8 ''o'')) (replicate 32 0))
     (empty_ledger (\<lambda>_. 0)) = Inr ((empty_ledger (\<lambda>_. 0))\<lparr>lg_config := Some example_config\<rparr>)"
proof -
  have "length PROTOCOL_SEED = 8" unfolding PROTOCOL_SEED_def by code_simp
  then show ?thesis
    by (simp add: initialize_protocol_def empty_ledger_def anchor_def example_config_def example_fund deriveProtocolConfig_def)
qed

lemma example_policy: "args_policy example_session = Inr ()"
  by (simp add: args_policy_Inr example_session_def saturating_sub_def I64_MAX_def MAX_SESSION_DURATION_SECONDS_def
      SUPPORTED_SESSION_ACTIONS_def SESSION_ACTION_TRANSFER_def)

lemma example_open:
  "exec example_sdk example_runtime example_tx
     (InitializeVaultAndGrantSession 1000 example_key example_hash (replicate 32 1) example_session example_pf)
     ((empty_ledger (\<lambda>_. 0))\<lparr>lg_config := Some example_config\<rparr>) = Inr example_opened"
proof -
  let ?lg = "(empty_ledger (\<lambda>_. 0) :: 256 word ledger)\<lparr>lg_config := Some example_config\<rparr>"
  have c: "live_config ?lg = Inr example_config" by (simp add: example_config_def)
  have t: "init_token_account_if_needed example_runtime 1000 507 ?lg = Inr (?lg\<lparr>lg_tokens := [507 \<mapsto> 0]\<rparr>)"
    by (simp add: init_token_account_if_needed_def example_init_token empty_ledger_def)
  have m: "cfg_stablecoin_mint example_config = 500" by (simp add: example_config_def)
  have h: "sha256 example_sdk example_key = example_hash" by (simp add: example_hash_def)
  show ?thesis
    unfolding exec.simps initialize_vault_and_grant_session_def c bindE_simps Let_def example_addresses
    using t by (simp add: anchor_def require_def example_fund h m example_policy example_authorize example_opened_def
        example_vault_def empty_ledger_def del: example_sdk_simps(1)) 
qed

lemma example_create:
  "exec example_sdk example_runtime example_tx (CreatePaymentLinkWithSession 1000 5 1000 example_link 0)
     (example_opened\<lparr>lg_tokens := [507 \<mapsto> 100]\<rparr>) = Inr example_ledger"
proof -
  let ?lg = "example_opened\<lparr>lg_tokens := [507 \<mapsto> 100]\<rparr>"
  let ?se = "session_of_args 5 example_session"
  have c: "live_config ?lg = Inr example_config" by (simp add: example_config_def example_opened_def)
  have m: "cfg_stablecoin_mint example_config = 500" by (simp add: example_config_def)
  have v: "seeded_vault example_sdk ?lg 5 = Inr example_vault" by (simp add: seeded_vault_Inr example_opened_def)
  have se: "signed_session example_sdk example_tx ?lg 5 1000 = Inr ?se"
    by (simp add: signed_session_Inr example_opened_def session_of_args_def write_session_def example_session_def)
  have tok: "fetch (lg_tokens ?lg) 507 = Inr 100" by simp
  have l: "init_link example_sdk example_runtime example_tx 1000 12 ?lg = Inr ?lg"
    by (simp add: init_link_Inr example_fund example_opened_def)
  have t: "init_token_account example_runtime 1000 514 ?lg = Inr (?lg\<lparr>lg_tokens := [507 \<mapsto> 100, 514 \<mapsto> 0]\<rparr>)"
    by (simp add: example_init_token)
  have a: "require_amount example_link = Inr ()" "require_link_expiry 10 example_link = Inr ()"
    by (simp_all add: require_amount_Inr require_link_expiry_Inr example_link_def saturating_sub_def I64_MAX_def
        MAX_PAYMENT_LINK_DURATION_SECONDS_def)
  have s: "spend_session 10 40 0 ?se = Inr (?se\<lparr>se_spent := 40, se_nonce := 1\<rparr>)"
    by (simp add: spend_session_Inr check_session_Inr session_of_args_def write_session_def example_session_def
        SESSION_ACTION_TRANSFER_def)
  have am: "la_amount example_link = 40" by (simp add: example_link_def)
  show ?thesis
    unfolding exec.simps create_payment_link_with_session_def c bindE_simps Let_def example_addresses v se
      example_sdk_simps m
    using tok l t a s
    by (simp add: am transfer_checked_def example_runtime_def [THEN arg_cong, of rt_transfer] example_transfer_def
        example_opened_def example_ledger_def fetch_def)
qed

lemma example_run: "fold (ledger_step example_sdk example_runtime) example_events (empty_ledger (\<lambda>_. 0)) = example_ledger"
proof -
  have "ledger_step example_sdk example_runtime (PayIn 507 100) example_opened = example_opened\<lparr>lg_tokens := [507 \<mapsto> 100]\<rparr>"
    by (simp add: example_opened_def)
  then show ?thesis
    unfolding example_events_def
    by (simp add: example_init example_open example_create del: exec.simps example_sdk_simps(1) ledger_step.simps(2))
qed

end
