(* ===== verification/LedgerFunds.thy ===== *)
theory LedgerFunds
  imports LedgerWf LedgerExample
begin

text \<open>
  Where the money is: the program creates and destroys no stablecoin, and the escrow of every active
  payment link holds the amount of the link, so that an expired link can always be refunded.
\<close>

section \<open>Conservation\<close>

definition token_sum :: "('pk \<rightharpoonup> nat) \<Rightarrow> nat option" where
  "token_sum t = (if finite (dom t) then Some (\<Sum>k\<in>dom t. the (t k)) else None)"

lemma token_sum_new:
  assumes "t a = None"
  shows "token_sum (t(a \<mapsto> 0)) = token_sum t"
proof -
  have "(\<Sum>k\<in>dom t. the ((t(a \<mapsto> 0)) k)) = (\<Sum>k\<in>dom t. the (t k))"
    by (rule sum.cong) (use assms in auto)
  moreover have "a \<notin> dom t" using assms by blast
  ultimately show ?thesis by (simp add: token_sum_def)
qed

lemma token_sum_move:
  assumes s: "t s = Some bs" and d: "t d = Some bd" and le: "a \<le> bs" and ne: "s \<noteq> d"
  shows "token_sum (t(s \<mapsto> bs - a, d \<mapsto> bd + a)) = token_sum t"
proof (cases "finite (dom t)")
  case True
  let ?t = "t(s \<mapsto> bs - a, d \<mapsto> bd + a)" and ?R = "dom t - {s} - {d}"
  have dom: "dom ?t = dom t" using s d by auto
  have split: "(\<Sum>k\<in>dom t. the (f k)) = the (f s) + the (f d) + (\<Sum>k\<in>?R. the (f k))" for f :: "'a \<rightharpoonup> nat"
    using True s d ne by (simp add: domIff sum.remove [of "dom t" s] sum.remove [of "dom t - {s}" d])
  have "(\<Sum>k\<in>?R. the (?t k)) = (\<Sum>k\<in>?R. the (t k))" by (rule sum.cong) auto
  then have "(\<Sum>k\<in>dom t. the (?t k)) = (\<Sum>k\<in>dom t. the (t k))"
    unfolding split using s d le ne by simp
  then show ?thesis unfolding token_sum_def dom by simp
next
  case False
  moreover have "dom (t(s \<mapsto> bs - a, d \<mapsto> bd + a)) = dom t" using s d by auto
  ultimately show ?thesis by (simp add: token_sum_def)
qed

lemma transfer_moves:
  assumes "runtime_ok rt" and "transfer_checked rt s d a lg = Inr lg'"
  shows "\<exists>bs bd. lg_tokens lg s = Some bs \<and> lg_tokens lg d = Some bd \<and> a \<le> bs \<and>
           lg_tokens lg' = (if s = d then lg_tokens lg else (lg_tokens lg)(s \<mapsto> bs - a, d \<mapsto> bd + a))"
proof -
  from assms(2) obtain t where t: "rt_transfer rt (lg_tokens lg) s d a = Some t" and lg': "lg' = lg\<lparr>lg_tokens := t\<rparr>"
    by (auto simp: transfer_checked_Inr)
  from assms(1) [unfolded runtime_ok_def, rule_format, OF t]
  obtain bs bd where "lg_tokens lg s = Some bs" "lg_tokens lg d = Some bd" "a \<le> bs"
    "t = (if s = d then lg_tokens lg else (lg_tokens lg)(s \<mapsto> bs - a, d \<mapsto> bd + a))"
    by blast
  with lg' show ?thesis by simp
qed

lemma init_token_sum:
  "init_token_account rt p a lg = Inr lg' \<Longrightarrow> token_sum (lg_tokens lg') = token_sum (lg_tokens lg)"
  "init_token_account_if_needed rt p a lg = Inr lg' \<Longrightarrow> token_sum (lg_tokens lg') = token_sum (lg_tokens lg)"
  by (auto simp: ledger_simps token_sum_new split: if_splits)

lemma transfer_token_sum:
  assumes "runtime_ok rt" and "transfer_checked rt s d a lg = Inr lg'"
  shows "token_sum (lg_tokens lg') = token_sum (lg_tokens lg)"
proof -
  from transfer_moves [OF assms] obtain bs bd where b: "lg_tokens lg s = Some bs" "lg_tokens lg d = Some bd" "a \<le> bs"
    and lg': "lg_tokens lg' = (if s = d then lg_tokens lg else (lg_tokens lg)(s \<mapsto> bs - a, d \<mapsto> bd + a))" by blast
  show ?thesis using token_sum_move [of "lg_tokens lg" s bs d bd a] b by (simp add: lg')
qed

lemma fund_token_same:
  "fund_account rt sp p a lg = Inr lg' \<Longrightarrow> lg_tokens lg' = lg_tokens lg"
  "transfer_program_lamports rt n s d amt e lg = Inr lg' \<Longrightarrow> lg_tokens lg' = lg_tokens lg"
  "init_link S rt cx p a lg = Inr lg' \<Longrightarrow> lg_tokens lg' = lg_tokens lg"
  "bump_vault v va lg = Inr lg' \<Longrightarrow> lg_tokens lg' = lg_tokens lg"
  by (auto simp: ledger_simps)

lemmas token_flow_simps = handler_defs bindE_Inr_iff Let_def settle_link_def

lemma exec_token_sum:
  assumes rt: "runtime_ok rt" and exec: "exec S rt cx call lg = Inr lg'"
  shows "token_sum (lg_tokens lg') = token_sum (lg_tokens lg)"
  using exec
  by (cases call)
     (auto simp: token_flow_simps dest!: fund_token_same init_token_sum transfer_token_sum [OF rt])

section \<open>Which balances an instruction lowers\<close>

text \<open>The owner of the token account an instruction pays from, and the account whose lamports it pays
  from; the payer of new accounts is a signer.\<close>

fun token_source :: "'pk call \<Rightarrow> 'pk option" where
  "token_source (TransferWithPasskey v d a n pf) = Some v"
| "token_source (TransferWithSession v sg d a n) = Some v"
| "token_source (CreatePaymentLinkWithSession p v sg a n) = Some v"
| "token_source (ClaimPaymentLink ca r l) = Some l"
| "token_source (CancelPaymentLinkWithSession v sg l n) = Some l"
| "token_source (RefundExpiredPaymentLink v l) = Some l"
| "token_source _ = None"

fun lamport_source :: "'pk call \<Rightarrow> 'pk option" where
  "lamport_source (TransferSolWithPasskey v r a n pf) = Some v"
| "lamport_source (CreateSolPaymentLinkWithPasskey p v a n pf) = Some v"
| "lamport_source (ClaimSolPaymentLink ca r l) = Some l"
| "lamport_source (CancelSolPaymentLinkWithPasskey v l n pf) = Some l"
| "lamport_source (RefundExpiredSolPaymentLink v l) = Some l"
| "lamport_source _ = None"

definition balance_kept :: "'pk \<Rightarrow> ('pk \<rightharpoonup> nat) \<Rightarrow> ('pk \<rightharpoonup> nat) \<Rightarrow> bool" where
  "balance_kept k t t' \<longleftrightarrow> (\<forall>b. t k = Some b \<longrightarrow> (\<exists>b'. t' k = Some b' \<and> b \<le> b'))"

lemma balance_kept_refl: "balance_kept k t t"
  by (simp add: balance_kept_def)

lemma balance_kept_trans: "balance_kept k t t' \<Longrightarrow> balance_kept k t' t'' \<Longrightarrow> balance_kept k t t''"
  unfolding balance_kept_def by (meson order_trans)

lemma init_balance_kept:
  "init_token_account rt p a lg = Inr lg' \<Longrightarrow> balance_kept k (lg_tokens lg) (lg_tokens lg')"
  "init_token_account_if_needed rt p a lg = Inr lg' \<Longrightarrow> balance_kept k (lg_tokens lg) (lg_tokens lg')"
  by (auto simp: ledger_simps balance_kept_def split: if_splits)

lemma transfer_balance_kept:
  assumes "runtime_ok rt" and "transfer_checked rt s d a lg = Inr lg'" and "k \<noteq> s"
  shows "balance_kept k (lg_tokens lg) (lg_tokens lg')"
  using transfer_moves [OF assms(1,2)] assms(3) by (auto simp: balance_kept_def split: if_splits)

lemma exec_balance_kept:
  assumes rt: "runtime_ok rt" and exec: "exec S rt cx call lg = Inr lg'"
    and src: "\<And>c x. lg_config lg = Some c \<Longrightarrow> token_source call = Some x \<Longrightarrow> k \<noteq> ata S c x"
  shows "balance_kept k (lg_tokens lg) (lg_tokens lg')"
proof -
  note kept = init_balance_kept [where k = k] transfer_balance_kept [OF rt, where k = k]
  show ?thesis
    using exec src
    by (cases call)
       (auto simp: token_flow_simps balance_kept_refl dest!: fund_token_same kept intro: balance_kept_trans)
qed

lemma lamports_kept:
  "fund_account rt sp p a lg = Inr lg' \<Longrightarrow> k = p \<or> lg_lamports lg k \<le> lg_lamports lg' k"
  "init_token_account rt p a lg = Inr lg' \<Longrightarrow> k = p \<or> lg_lamports lg k \<le> lg_lamports lg' k"
  "init_token_account_if_needed rt p a lg = Inr lg' \<Longrightarrow> k = p \<or> lg_lamports lg k \<le> lg_lamports lg' k"
  "transfer_program_lamports rt n s d amt e lg = Inr lg' \<Longrightarrow> k = s \<or> lg_lamports lg k \<le> lg_lamports lg' k"
  by (auto simp: ledger_simps split: if_splits)

lemma init_link_lamports_kept:
  "init_link S rt cx p a lg = Inr lg' \<Longrightarrow>
     p \<in> set (tx_signers cx) \<and> (k \<in> set (tx_signers cx) \<or> lg_lamports lg k \<le> lg_lamports lg' k)"
  by (auto simp: ledger_simps)

lemma lamports_same:
  "transfer_checked rt s d amt lg = Inr lg' \<Longrightarrow> lg_lamports lg' = lg_lamports lg"
  "bump_vault v va lg = Inr lg' \<Longrightarrow> lg_lamports lg' = lg_lamports lg"
  "claim_authority_signed cx ca lg = Inr u \<Longrightarrow> ca \<in> set (tx_signers cx)"
  by (auto simp: ledger_simps)

lemma exec_lamports_kept:
  assumes exec: "exec S rt cx call lg = Inr lg'" and k: "k \<notin> set (tx_signers cx)" and src: "lamport_source call \<noteq> Some k"
  shows "lg_lamports lg k \<le> lg_lamports lg' k"
proof -
  note kept = lamports_kept [where k = k] init_link_lamports_kept [where k = k]
  show ?thesis
    using exec k src
    by (cases call)
       (auto simp: token_flow_simps dest!: lamports_same kept)
qed

section \<open>Backing of the active links\<close>

definition backed_link :: "'pk sdk \<Rightarrow> 'pk runtime \<Rightarrow> 'pk ledger \<Rightarrow> 'pk \<Rightarrow> 'pk PaymentLink \<Rightarrow> bool" where
  "backed_link S rt lg l pl \<longleftrightarrow>
     (if ln_mint pl = SystemProgram_programId S
      then rt_rent rt PAYMENT_LINK_ACCOUNT_SIZE + ln_amount pl \<le> lg_lamports lg l
      else \<exists>c b. lg_config lg = Some c \<and> ln_mint pl = cfg_stablecoin_mint c \<and>
             lg_tokens lg (ata S c l) = Some b \<and> ln_amount pl \<le> b)"

definition links_backed :: "'pk sdk \<Rightarrow> 'pk runtime \<Rightarrow> 'pk ledger \<Rightarrow> bool" where
  "links_backed S rt lg \<longleftrightarrow>
     (\<forall>l pl. lg_links lg l = Some pl \<longrightarrow> ln_status pl = PAYMENT_LINK_STATUS_ACTIVE \<longrightarrow> backed_link S rt lg l pl)"

text \<open>Addresses of the ledger do not collide: no vault is a link, and the owners of token accounts have
  different token accounts. The addresses are hashes, so this is a property of a ledger, not of the
  functions that compute them.\<close>

definition addresses_apart :: "'pk sdk \<Rightarrow> 'pk ledger \<Rightarrow> bool" where
  "addresses_apart S lg \<longleftrightarrow>
     dom (lg_vaults lg) \<inter> dom (lg_links lg) = {} \<and>
     (\<forall>c. lg_config lg = Some c \<longrightarrow> inj_on (\<lambda>x. ata S c x) (dom (lg_vaults lg) \<union> dom (lg_links lg)))"

lemma exec_token_source:
  assumes "exec S rt cx call lg = Inr lg'" and "token_source call = Some x"
  shows "lg_vaults lg x \<noteq> None \<or> (\<exists>st. link_settle call = Some (x, st))"
  using assms by (cases call) (auto simp: token_flow_simps dest!: seeded_vaultD)

lemma exec_lamport_source:
  assumes "exec S rt cx call lg = Inr lg'" and "lamport_source call = Some x"
  shows "lg_vaults lg x \<noteq> None \<or> (\<exists>st. link_settle call = Some (x, st))"
  using assms by (cases call) (auto simp: token_flow_simps dest!: seeded_vaultD)

lemma init_link_rent:
  "init_link S rt cx p l lg = Inr lg' \<Longrightarrow> same_accounts lg lg' \<and> rt_rent rt PAYMENT_LINK_ACCOUNT_SIZE \<le> lg_lamports lg' l"
  by (auto simp: ledger_simps same_accounts_def)

lemma lamports_received:
  "transfer_program_lamports rt n s d a e lg = Inr lg' \<Longrightarrow> same_accounts lg lg' \<and> lg_lamports lg' d = lg_lamports lg d + a"
  by (auto simp: ledger_simps same_accounts_def)

lemma tokens_received:
  assumes "runtime_ok rt" and "transfer_checked rt s d a lg = Inr lg'"
  shows "same_accounts lg lg' \<and> (\<exists>b. lg_tokens lg' d = Some b \<and> a \<le> b)"
  using transfer_moves [OF assms] transfer_checkedD [OF assms(2)] by auto

lemma bump_vault_lamports: "bump_vault v va lg = Inr lg' \<Longrightarrow>
  lg_lamports lg' = lg_lamports lg \<and> lg_links lg' = lg_links lg \<and> lg_config lg' = lg_config lg"
  by (auto simp: ledger_simps)

lemma exec_open_backed:
  assumes rt: "runtime_ok rt" and exec: "exec S rt cx call lg = Inr lg'" and opens: "link_open S call = Some (l, a)"
    and mint: "\<And>c. lg_config lg = Some c \<Longrightarrow> cfg_stablecoin_mint c \<noteq> SystemProgram_programId S"
    and pl: "lg_links lg' l = Some pl"
  shows "backed_link S rt lg' l pl"
  using exec opens mint pl
  by (cases call)
     (auto simp: token_flow_simps same_accounts_def new_link_def backed_link_def
        dest!: init_link_rent lamports_received tokens_received [OF rt] bump_vault_lamports init_token_accountD)

lemma backed_link_kept:
  assumes "backed_link S rt lg l pl" and "lg_lamports lg l \<le> lg_lamports lg' l"
    and "\<And>c. lg_config lg = Some c \<Longrightarrow>
           lg_config lg' = Some c \<and> balance_kept (ata S c l) (lg_tokens lg) (lg_tokens lg')"
  shows "backed_link S rt lg' l pl"
proof (cases "ln_mint pl = SystemProgram_programId S")
  case True
  with assms(1,2) show ?thesis by (simp add: backed_link_def)
next
  case False
  with assms(1) obtain c b where c: "lg_config lg = Some c" "ln_mint pl = cfg_stablecoin_mint c"
    and b: "lg_tokens lg (ata S c l) = Some b" "ln_amount pl \<le> b" by (auto simp: backed_link_def)
  from assms(3) [OF c(1)] b obtain b' where "lg_config lg' = Some c" "lg_tokens lg' (ata S c l) = Some b'" "b \<le> b'"
    by (auto simp: balance_kept_def)
  with False c(2) b(2) show ?thesis by (auto simp: backed_link_def)
qed

lemma exec_backed:
  assumes rt: "runtime_ok rt" and exec: "exec S rt cx call lg = Inr lg'" and wf: "ledger_wf S lg"
    and backed: "links_backed S rt lg" and apart: "addresses_apart S lg"
    and signers: "set (tx_signers cx) \<inter> dom (lg_links lg) = {}"
  shows "links_backed S rt lg'"
  unfolding links_backed_def
proof (intro allI impI)
  fix l pl
  assume pl: "lg_links lg' l = Some pl" and act: "ln_status pl = PAYMENT_LINK_STATUS_ACTIVE"
  have mint: "cfg_stablecoin_mint c \<noteq> SystemProgram_programId S" if "lg_config lg = Some c" for c
    using wf that by (simp add: ledger_wf_def)
  show "backed_link S rt lg' l pl"
  proof (cases "\<exists>a. link_open S call = Some (l, a)")
    case True
    then show ?thesis using exec_open_backed [OF rt exec _ mint pl] by blast
  next
    case not_opened: False
    have not_settled: "link_settle call \<noteq> Some (l, st)" for st
      using exec_link_settle [OF exec, of l st] link_settle_status [of call l st] pl act by auto
    have old: "lg_links lg l = Some pl"
    proof (cases "link_open S call")
      case (Some x)
      with not_opened exec_link_open [OF exec] pl show ?thesis by (cases x) auto
    next
      case None
      with not_settled exec_link_settle [OF exec] exec_link_same [OF exec None] pl show ?thesis
        by (cases "link_settle call") force+
    qed
    with backed act have b: "backed_link S rt lg l pl" by (simp add: links_backed_def)
    have lamports: "lg_lamports lg l \<le> lg_lamports lg' l"
    proof (rule exec_lamports_kept [OF exec])
      show "l \<notin> set (tx_signers cx)" using signers old by auto
      show "lamport_source call \<noteq> Some l"
        using exec_lamport_source [OF exec, of l] not_settled old apart by (auto simp: addresses_apart_def)
    qed
    have tokens: "balance_kept (ata S c l) (lg_tokens lg) (lg_tokens lg')" if c: "lg_config lg = Some c" for c
    proof (rule exec_balance_kept [OF rt exec])
      fix c' x assume c': "lg_config lg = Some c'" and x: "token_source call = Some x"
      have "x \<noteq> l" and "x \<in> dom (lg_vaults lg) \<union> dom (lg_links lg)"
        using exec_token_source [OF exec x] not_settled old apart exec_link_settle [OF exec, of x]
        by (auto simp: addresses_apart_def)
      moreover have "inj_on (\<lambda>x. ata S c x) (dom (lg_vaults lg) \<union> dom (lg_links lg))"
        using apart c by (simp add: addresses_apart_def)
      ultimately show "ata S c l \<noteq> ata S c' x" using c c' old by (auto dest: inj_onD)
    qed
    show ?thesis
      by (rule backed_link_kept [OF b lamports]) (use tokens exec_config [OF exec] in auto)
  qed
qed

section \<open>Runs keep the links backed\<close>

definition signers_outside :: "'pk event list \<Rightarrow> 'pk ledger \<Rightarrow> bool" where
  "signers_outside evs lg \<longleftrightarrow>
     list_all (\<lambda>ev. case ev of Instruction cx call \<Rightarrow> set (tx_signers cx) \<inter> dom (lg_links lg) = {} | _ \<Rightarrow> True) evs"

definition grown :: "'pk ledger \<Rightarrow> 'pk ledger \<Rightarrow> bool" where
  "grown lg lg' \<longleftrightarrow>
     dom (lg_vaults lg) \<subseteq> dom (lg_vaults lg') \<and> dom (lg_links lg) \<subseteq> dom (lg_links lg') \<and>
     (\<forall>c. lg_config lg = Some c \<longrightarrow> lg_config lg' = Some c)"

lemma exec_grown:
  assumes "exec S rt cx call lg = Inr lg'"
  shows "grown lg lg'"
proof -
  have "dom (lg_links lg) \<subseteq> dom (lg_links lg')"
    using exec_link_open [OF assms] exec_link_settle [OF assms] exec_link_same [OF assms]
    by (cases "link_open S call"; cases "link_settle call") fastforce+
  moreover have "dom (lg_vaults lg) \<subseteq> dom (lg_vaults lg')" using exec_vaults_grow [OF assms] by blast
  ultimately show ?thesis using exec_config [OF assms] by (auto simp: grown_def)
qed

lemma step_grown: "grown lg (ledger_step S rt ev lg)"
proof (cases "\<exists>cx call. ev = Instruction cx call")
  case True
  then show ?thesis by (auto simp: grown_def [of lg lg] dest: exec_grown split: sum.split)
next
  case False
  from outside_same_accounts [OF this, of lg S rt] show ?thesis by (simp add: grown_def same_accounts_def)
qed

lemma addresses_apart_grown:
  assumes g: "grown lg lg'" and apart: "addresses_apart S lg'"
  shows "addresses_apart S lg"
proof -
  have sub: "dom (lg_vaults lg) \<union> dom (lg_links lg) \<subseteq> dom (lg_vaults lg') \<union> dom (lg_links lg')"
    and dis: "dom (lg_vaults lg) \<inter> dom (lg_links lg) \<subseteq> dom (lg_vaults lg') \<inter> dom (lg_links lg')"
    using g unfolding grown_def by blast+
  have "inj_on (\<lambda>x. ata S c x) (dom (lg_vaults lg) \<union> dom (lg_links lg))" if "lg_config lg = Some c" for c
    using apart g that by (auto simp: addresses_apart_def grown_def intro: inj_on_subset [OF _ sub])
  with apart dis show ?thesis by (simp add: addresses_apart_def)
qed

lemma signers_outside_grown: "grown lg lg' \<Longrightarrow> signers_outside evs lg' \<Longrightarrow> signers_outside evs lg"
  unfolding signers_outside_def grown_def
  by (erule list.pred_mono_strong) (simp split: event.splits, blast)

lemma outside_balances:
  assumes "\<nexists>cx call. ev = Instruction cx call"
  shows "balance_kept k (lg_tokens lg) (lg_tokens (ledger_step S rt ev lg)) \<and>
         lg_lamports lg k \<le> lg_lamports (ledger_step S rt ev lg) k"
  using assms by (cases ev) (auto simp: balance_kept_def)

lemma outside_backed:
  assumes "links_backed S rt lg" and out: "\<nexists>cx call. ev = Instruction cx call"
  shows "links_backed S rt (ledger_step S rt ev lg)"
  unfolding links_backed_def
proof (intro allI impI)
  fix l pl
  assume "lg_links (ledger_step S rt ev lg) l = Some pl" and "ln_status pl = PAYMENT_LINK_STATUS_ACTIVE"
  with assms(1) outside_same_accounts [OF out, of lg S rt] have "backed_link S rt lg l pl"
    by (simp add: links_backed_def same_accounts_def)
  then show "backed_link S rt (ledger_step S rt ev lg) l pl"
    using outside_same_accounts [OF out, of lg S rt]
    by (auto intro!: backed_link_kept [of S rt lg l pl] simp: outside_balances [OF out] same_accounts_def)
qed

lemma run_backed:
  assumes rt: "runtime_ok rt"
  shows "addresses_apart S (fold (ledger_step S rt) evs (empty_ledger lam)) \<Longrightarrow>
         signers_outside evs (fold (ledger_step S rt) evs (empty_ledger lam)) \<Longrightarrow>
         links_backed S rt (fold (ledger_step S rt) evs (empty_ledger lam))"
proof (induction evs rule: rev_induct)
  case Nil
  show ?case by (simp add: links_backed_def empty_ledger_def)
next
  case (snoc ev evs)
  let ?lg = "fold (ledger_step S rt) evs (empty_ledger lam)"
  have grown: "grown ?lg (ledger_step S rt ev ?lg)" by (rule step_grown)
  have apart: "addresses_apart S ?lg" using addresses_apart_grown [OF grown] snoc.prems(1) by simp
  have signers: "signers_outside (evs @ [ev]) ?lg" using signers_outside_grown [OF grown] snoc.prems(2) by simp
  then have backed: "links_backed S rt ?lg" using snoc.IH apart by (simp add: signers_outside_def)
  show ?case
  proof (cases "\<exists>cx call. ev = Instruction cx call")
    case True
    then obtain cx call where ev: "ev = Instruction cx call" by blast
    have "set (tx_signers cx) \<inter> dom (lg_links ?lg) = {}" using signers ev by (simp add: signers_outside_def)
    with exec_backed [OF rt _ reachable_wf backed apart] backed ev show ?thesis by (auto split: sum.split)
  next
    case False
    with outside_backed [OF backed] show ?thesis by simp
  qed
qed

text \<open>C1. Escrow is always covered: in every reachable ledger whose addresses do not collide, the escrow
  of every active payment link holds at least the amount of the link, in stablecoin on the token
  account of the link or in lamports above the rent of the link account. The signers are assumed
  not to be link addresses, which have no private key.\<close>

theorem active_links_are_backed:
  assumes "runtime_ok rt"
    and "addresses_apart S (fold (ledger_step S rt) evs (empty_ledger lam))"
    and "signers_outside evs (fold (ledger_step S rt) evs (empty_ledger lam))"
  shows "links_backed S rt (fold (ledger_step S rt) evs (empty_ledger lam))"
  using assms by (rule run_backed)

lemma example_apart: "addresses_apart example_sdk example_ledger"
  by (simp add: addresses_apart_def example_ledger_def example_config_def inj_on_def)

lemma example_signers: "signers_outside example_events example_ledger"
  by (simp add: signers_outside_def example_events_def example_ledger_def)

theorem active_links_are_backed_witness:
  "fold (ledger_step example_sdk example_runtime) example_events (empty_ledger (\<lambda>_. 0)) = example_ledger \<and>
   links_backed example_sdk example_runtime example_ledger"
proof -
  have "links_backed example_sdk example_runtime
          (fold (ledger_step example_sdk example_runtime) example_events (empty_ledger (\<lambda>_. 0)))"
    by (rule active_links_are_backed) (simp_all only: example_run example_runtime_ok example_apart example_signers)
  then show ?thesis by (simp only: example_run)
qed

section \<open>Refunds\<close>

text \<open>A transfer that the balances allow succeeds: no token account of the stablecoin is frozen.\<close>

definition runtime_live :: "'pk runtime \<Rightarrow> bool" where
  "runtime_live rt \<longleftrightarrow>
     (\<forall>t s d a bs bd. t s = Some bs \<longrightarrow> t d = Some bd \<longrightarrow> a \<le> bs \<longrightarrow> bd + a < 2 ^ 64 \<longrightarrow>
        rt_transfer rt t s d a \<noteq> None)"

definition vaults_have_tokens :: "'pk sdk \<Rightarrow> 'pk ledger \<Rightarrow> bool" where
  "vaults_have_tokens S lg \<longleftrightarrow>
     (\<forall>v. lg_vaults lg v \<noteq> None \<longrightarrow> (\<exists>c. lg_config lg = Some c \<and> ata S c v \<in> dom (lg_tokens lg)))"

lemma tokens_stay:
  "init_token_account rt p a lg = Inr lg' \<Longrightarrow> dom (lg_tokens lg) \<subseteq> dom (lg_tokens lg')"
  "init_token_account_if_needed rt p a lg = Inr lg' \<Longrightarrow> dom (lg_tokens lg) \<subseteq> dom (lg_tokens lg') \<and> a \<in> dom (lg_tokens lg')"
  by (auto simp: ledger_simps split: if_splits)

lemma transfer_tokens_stay:
  assumes "runtime_ok rt" and "transfer_checked rt s d a lg = Inr lg'"
  shows "dom (lg_tokens lg) \<subseteq> dom (lg_tokens lg')"
  using transfer_moves [OF assms] by (auto split: if_splits)

definition opened :: "'pk \<Rightarrow> ('pk \<rightharpoonup> nat) \<Rightarrow> bool" where
  "opened k t \<longleftrightarrow> k \<in> dom t"

lemma exec_opened:
  assumes rt: "runtime_ok rt" and exec: "exec S rt cx call lg = Inr lg'" and k: "opened k (lg_tokens lg)"
  shows "opened k (lg_tokens lg')"
proof -
  have 1: "opened k (lg_tokens lg1) \<longrightarrow> opened k (lg_tokens lg2)"
    if "init_token_account rt p a lg1 = Inr lg2 \<or> init_token_account_if_needed rt p a lg1 = Inr lg2" for p a lg1 lg2
    using that unfolding opened_def by (auto dest!: tokens_stay)
  have 2: "opened k (lg_tokens lg1) \<longrightarrow> opened k (lg_tokens lg2)"
    if "transfer_checked rt s d a lg1 = Inr lg2" for s d a lg1 lg2
    using transfer_tokens_stay [OF rt that] unfolding opened_def by blast
  show ?thesis
    using exec k
    by (cases call) (auto simp: token_flow_simps dest!: fund_token_same 1 [OF disjI1] 1 [OF disjI2] 2)
qed

lemma exec_tokens_stay:
  assumes "runtime_ok rt" and "exec S rt cx call lg = Inr lg'"
  shows "dom (lg_tokens lg) \<subseteq> dom (lg_tokens lg')"
  using exec_opened [OF assms] by (auto simp: opened_def)

lemma init_needed_opens:
  "init_token_account_if_needed rt p a lg = Inr lg' \<Longrightarrow> same_accounts lg lg' \<and> (\<exists>b. lg_tokens lg' a = Some b)"
  by (auto dest: init_token_account_if_neededD tokens_stay(2))

lemma exec_open_tokens:
  assumes "exec S rt cx call lg = Inr lg'" and "vault_open S call = Some v"
  shows "\<exists>c. lg_config lg' = Some c \<and> ata S c v \<in> dom (lg_tokens lg')"
  using assms
  by (cases call) (auto simp: token_flow_simps same_accounts_def dest!: init_needed_opens fund_accountD)

lemma exec_new_vault:
  assumes exec: "exec S rt cx call lg = Inr lg'" and v: "lg_vaults lg' v \<noteq> None" "lg_vaults lg v = None"
  shows "vault_open S call = Some v"
proof (cases "vault_open S call")
  case None
  show ?thesis
  proof (cases "nonce_use call")
    case no_use: None
    with exec_vault_same [OF exec no_use None] v show ?thesis by simp
  next
    case (Some x)
    with exec_nonce_use [OF exec, of "fst x" "snd x"] v show ?thesis by (auto split: if_splits)
  qed
next
  case (Some w)
  with exec_vault_open [OF exec Some] v show ?thesis by (cases "v = w") auto
qed

lemma exec_vaults_have_tokens:
  assumes rt: "runtime_ok rt" and inv: "vaults_have_tokens S lg" and exec: "exec S rt cx call lg = Inr lg'"
  shows "vaults_have_tokens S lg'"
  unfolding vaults_have_tokens_def
proof (intro allI impI)
  fix v assume v: "lg_vaults lg' v \<noteq> None"
  show "\<exists>c. lg_config lg' = Some c \<and> ata S c v \<in> dom (lg_tokens lg')"
  proof (cases "lg_vaults lg v")
    case None
    from exec_open_tokens [OF exec exec_new_vault [OF exec v None]] show ?thesis .
  next
    case (Some va)
    with inv obtain c where c: "lg_config lg = Some c" "ata S c v \<in> dom (lg_tokens lg)"
      by (simp add: vaults_have_tokens_def) blast
    with exec_config [OF exec] exec_tokens_stay [OF rt exec] show ?thesis by auto
  qed
qed

lemma run_vaults_have_tokens:
  assumes rt: "runtime_ok rt"
  shows "vaults_have_tokens S (fold (ledger_step S rt) evs (empty_ledger lam))"
proof (induction evs rule: rev_induct)
  case Nil
  show ?case by (simp add: vaults_have_tokens_def empty_ledger_def)
next
  case (snoc ev evs)
  let ?lg = "fold (ledger_step S rt) evs (empty_ledger lam)"
  show ?case
  proof (cases "\<exists>cx call. ev = Instruction cx call")
    case True
    with snoc.IH exec_vaults_have_tokens [OF rt snoc.IH] show ?thesis by (auto split: sum.split)
  next
    case False
    have "dom (lg_tokens ?lg) \<subseteq> dom (lg_tokens (ledger_step S rt ev ?lg))"
      using outside_balances [OF False, of _ ?lg S rt] by (fastforce simp: balance_kept_def)
    then show ?thesis
      using snoc.IH outside_same_accounts [OF False, of ?lg S rt]
      by (simp add: vaults_have_tokens_def same_accounts_def) blast
  qed
qed

definition refund_call :: "'pk sdk \<Rightarrow> 'pk \<Rightarrow> 'pk PaymentLink \<Rightarrow> 'pk call" where
  "refund_call S l pl =
     (if ln_mint pl = SystemProgram_programId S then RefundExpiredSolPaymentLink (ln_sender_vault pl) l
      else RefundExpiredPaymentLink (ln_sender_vault pl) l)"

definition refund_fits :: "'pk sdk \<Rightarrow> 'pk ledger \<Rightarrow> 'pk PaymentLink \<Rightarrow> bool" where
  "refund_fits S lg pl \<longleftrightarrow>
     lg_lamports lg (ln_sender_vault pl) + ln_amount pl < 2 ^ 64 \<and>
     (case lg_config lg of None \<Rightarrow> True
      | Some c \<Rightarrow> pred_option (\<lambda>b. b + ln_amount pl < 2 ^ 64) (lg_tokens lg (ata S c (ln_sender_vault pl))))"

lemma refund_succeeds:
  assumes live: "runtime_live rt" and wf: "ledger_wf S lg" and tok: "vaults_have_tokens S lg" and backed: "links_backed S rt lg"
    and pl: "lg_links lg l = Some pl" "ln_status pl = PAYMENT_LINK_STATUS_ACTIVE" "ln_expires_at pl < tx_now cx"
    and room: "refund_fits S lg pl"
  shows "\<exists>lg'. exec S rt cx (refund_call S l pl) lg = Inr lg'"
proof -
  have b: "backed_link S rt lg l pl" using backed pl by (simp add: links_backed_def)
  have l: "link_wf S lg l pl" using wf pl by (simp add: ledger_wf_def)
  then obtain va where va: "lg_vaults lg (ln_sender_vault pl) = Some va" by (auto simp: link_wf_def)
  with wf have v: "vault_wf S (ln_sender_vault pl) va" by (simp add: ledger_wf_def)
  from tok va obtain c bd where c: "lg_config lg = Some c" and bd: "lg_tokens lg (ata S c (ln_sender_vault pl)) = Some bd"
    by (auto simp: vaults_have_tokens_def)
  have sv: "seeded_vault S lg (ln_sender_vault pl) = Inr va" and sl: "seeded_link S lg l = Inr pl"
    using va v pl l by (simp_all add: ledger_simps vault_wf_def link_wf_def)
  show ?thesis
  proof (cases "ln_mint pl = SystemProgram_programId S")
    case True
    with b sv sl c pl room show ?thesis
      by (simp add: refund_call_def refund_expired_sol_payment_link_def transfer_program_lamports_Inr backed_link_def
          bindE_Inr_iff refund_fits_def)
  next
    case False
    with b c obtain bs where bs: "lg_tokens lg (ata S c l) = Some bs" "ln_amount pl \<le> bs" "ln_mint pl = cfg_stablecoin_mint c"
      by (auto simp: backed_link_def)
    have "bd + ln_amount pl < 2 ^ 64" using room c bd by (simp add: refund_fits_def)
    from live [unfolded runtime_live_def, rule_format, where t = "lg_tokens lg", OF bs(1) bd bs(2) this]
    obtain t where "rt_transfer rt (lg_tokens lg) (ata S c l) (ata S c (ln_sender_vault pl)) (ln_amount pl) = Some t" by blast
    with False b sv sl c pl bs bd show ?thesis
      by (simp add: refund_call_def refund_expired_payment_link_def transfer_checked_Inr bindE_Inr_iff)
  qed
qed

text \<open>C16. An expired link can always be refunded: in every reachable ledger whose addresses do not collide,
  anyone can return the money of an active link after its expiry, in a transaction without any
  signature of the sender, also while the protocol is paused, and the link is then settled as refunded. Only a
  receiving balance that would overflow its 64 bits stands in the way.\<close>

theorem expired_links_can_be_refunded:
  assumes "runtime_ok rt" and "runtime_live rt"
    and lg: "lg = fold (ledger_step S rt) evs (empty_ledger lam)"
    and "addresses_apart S lg" and "signers_outside evs lg"
    and "lg_links lg l = Some pl" and "ln_status pl = PAYMENT_LINK_STATUS_ACTIVE" and "ln_expires_at pl < tx_now cx"
    and "refund_fits S lg pl"
  shows "\<exists>lg' pl'. exec S rt cx (refund_call S l pl) lg = Inr lg' \<and> lg_links lg' l = Some pl' \<and>
           ln_status pl' = PAYMENT_LINK_STATUS_REFUNDED"
proof -
  have "links_backed S rt lg" using run_backed assms(1,4,5) unfolding lg by blast
  moreover have "vaults_have_tokens S lg" unfolding lg by (rule run_vaults_have_tokens [OF assms(1)])
  moreover have "ledger_wf S lg" unfolding lg by (rule reachable_wf)
  ultimately obtain lg' where lg': "exec S rt cx (refund_call S l pl) lg = Inr lg'"
    using refund_succeeds [OF assms(2) _ _ _ assms(6-9)] by blast
  have "link_settle (refund_call S l pl) = Some (l, PAYMENT_LINK_STATUS_REFUNDED)" by (simp add: refund_call_def)
  from exec_link_settle [OF lg' this] lg' show ?thesis by auto
qed

theorem expired_links_can_be_refunded_witness:
  "\<exists>lg' pl'. exec example_sdk example_runtime (example_tx\<lparr>tx_now := 501\<rparr>)
       (RefundExpiredPaymentLink 5 12) example_ledger = Inr lg' \<and>
     lg_links lg' 12 = Some pl' \<and> ln_status pl' = PAYMENT_LINK_STATUS_REFUNDED"
proof -
  have live: "runtime_live example_runtime"
    by (simp add: runtime_live_def example_runtime_def example_transfer_def)
  let ?pl = "new_link example_sdk 10 5 500 example_link"
  have call: "refund_call example_sdk 12 ?pl = RefundExpiredPaymentLink 5 12"
    by (simp add: refund_call_def new_link_def)
  have "lg_links example_ledger 12 = Some ?pl" "ln_status ?pl = PAYMENT_LINK_STATUS_ACTIVE"
    "ln_expires_at ?pl < tx_now (example_tx\<lparr>tx_now := 501\<rparr>)" "refund_fits example_sdk example_ledger ?pl"
    by (simp_all add: example_ledger_def new_link_def example_link_def refund_fits_def example_config_def)
  from expired_links_can_be_refunded [OF example_runtime_ok live example_run [symmetric] example_apart example_signers this]
  show ?thesis unfolding call .
qed

end
