(* ===== verification/LedgerClient.thy ===== *)
theory LedgerClient
  imports LedgerFunds
begin

unbundle bit_operations_syntax

text \<open>
  Client and program together. The TypeScript package computes the challenge a passkey signs
  (\<open>challenge.ts\<close>) and the signature instruction (\<open>p256.ts\<close>); the program recomputes the challenge from
  its accounts and arguments. Here the two meet: an instruction that needs a passkey succeeds only
  with a signature for the challenge that the package computes for exactly this action, and a transfer
  prepared with the package is executed.
\<close>

section \<open>The request behind an instruction\<close>

fun call_request :: "'pk sdk \<Rightarrow> 'pk ProtocolConfig \<Rightarrow> 'pk call \<Rightarrow> 'pk signing_request option" where
  "call_request S c (InitializeVault p pk h s pf) =
     (let v = vault_address S h s in
      Some (SignInitializeVault
        \<lparr>iv_clusterDomain = cfg_cluster_domain c, iv_programId = VERIAGENT_PROGRAM_ID S,
         iv_config = deriveProtocolConfig S None, iv_vault = v, iv_vaultTokenAccount = ata S c v,
         iv_rootPublicKey = pk, iv_rootKeyHash = h, iv_userSalt = s, iv_expiresAtUnix = pf_expires_at pf\<rparr>))"
| "call_request S c (GrantSession p v a n pf) =
     Some (SignSessionGrant
        \<lparr>sg_clusterDomain = cfg_cluster_domain c, sg_programId = VERIAGENT_PROGRAM_ID S,
         sg_config = deriveProtocolConfig S None, sg_vault = v,
         sg_session = session_address S v (sa_session_public_key a), sg_sessionPublicKey = sa_session_public_key a,
         sg_actionBitmap = jint (uint (sa_action_bitmap a)), sg_perActionLimit = int (sa_per_action_limit a),
         sg_cumulativeLimit = int (sa_cumulative_limit a), sg_validAfterUnix = sa_valid_after a,
         sg_validUntilUnix = sa_valid_until a, sg_vaultNonce = int n, sg_expiresAtUnix = pf_expires_at pf\<rparr>)"
| "call_request S c (InitializeVaultAndGrantSession p pk h s a pf) =
     (let v = vault_address S h s in
      Some (SignVaultAndSession
        \<lparr>ig_clusterDomain = cfg_cluster_domain c, ig_programId = VERIAGENT_PROGRAM_ID S,
         ig_config = deriveProtocolConfig S None, ig_vault = v,
         ig_session = session_address S v (sa_session_public_key a), ig_sessionPublicKey = sa_session_public_key a,
         ig_actionBitmap = jint (uint (sa_action_bitmap a)), ig_perActionLimit = int (sa_per_action_limit a),
         ig_cumulativeLimit = int (sa_cumulative_limit a), ig_validAfterUnix = sa_valid_after a,
         ig_validUntilUnix = sa_valid_until a, ig_expiresAtUnix = pf_expires_at pf, ig_vaultTokenAccount = ata S c v,
         ig_stablecoinMint = cfg_stablecoin_mint c, ig_rootPublicKey = pk, ig_rootKeyHash = h, ig_userSalt = s\<rparr>))"
| "call_request S c (TransferWithPasskey v d a n pf) =
     Some (SignTransfer
        \<lparr>tr_clusterDomain = cfg_cluster_domain c, tr_programId = VERIAGENT_PROGRAM_ID S,
         tr_config = deriveProtocolConfig S None, tr_vault = v, tr_vaultTokenAccount = ata S c v,
         tr_destinationTokenAccount = d, tr_stablecoinMint = cfg_stablecoin_mint c, tr_amount = int a,
         tr_vaultNonce = int n, tr_expiresAtUnix = pf_expires_at pf\<rparr>)"
| "call_request S c (TransferSolWithPasskey v r a n pf) =
     Some (SignSolTransfer
        \<lparr>st_clusterDomain = cfg_cluster_domain c, st_programId = VERIAGENT_PROGRAM_ID S,
         st_config = deriveProtocolConfig S None, st_vault = v, st_recipient = r, st_amountLamports = int a,
         st_vaultNonce = int n, st_expiresAtUnix = pf_expires_at pf\<rparr>)"
| "call_request S c (CreateSolPaymentLinkWithPasskey p v a n pf) =
     Some (SignSolPaymentLink
        \<lparr>pl_clusterDomain = cfg_cluster_domain c, pl_programId = VERIAGENT_PROGRAM_ID S,
         pl_config = deriveProtocolConfig S None, pl_vault = v, pl_paymentLink = link_address S v (la_link_id a),
         pl_linkId = la_link_id a, pl_recipientCommitment = la_recipient_commitment a,
         pl_amountLamports = int (la_amount a), pl_linkExpiresAtUnix = la_expires_at a, pl_vaultNonce = int n,
         pl_proofExpiresAtUnix = pf_expires_at pf\<rparr>)"
| "call_request S c (CancelSolPaymentLinkWithPasskey v l n pf) =
     Some (SignCancelSolPaymentLink
        \<lparr>cl_clusterDomain = cfg_cluster_domain c, cl_programId = VERIAGENT_PROGRAM_ID S,
         cl_config = deriveProtocolConfig S None, cl_vault = v, cl_paymentLink = l, cl_vaultNonce = int n,
         cl_proofExpiresAtUnix = pf_expires_at pf\<rparr>)"
| "call_request S c _ = None"

text \<open>The key that has to sign and the WebAuthn data the instruction carries.\<close>

fun call_signature :: "'pk sdk \<Rightarrow> 'pk ledger \<Rightarrow> 'pk call \<Rightarrow> (bytes \<times> proof_args) option" where
  "call_signature S lg (InitializeVault p pk h s pf) = Some (pk, pf)"
| "call_signature S lg (InitializeVaultAndGrantSession p pk h s a pf) = Some (pk, pf)"
| "call_signature S lg (GrantSession p v a n pf) = map_option (\<lambda>va. (va_root_public_key va, pf)) (lg_vaults lg v)"
| "call_signature S lg (TransferWithPasskey v d a n pf) = map_option (\<lambda>va. (va_root_public_key va, pf)) (lg_vaults lg v)"
| "call_signature S lg (TransferSolWithPasskey v r a n pf) = map_option (\<lambda>va. (va_root_public_key va, pf)) (lg_vaults lg v)"
| "call_signature S lg (CreateSolPaymentLinkWithPasskey p v a n pf) =
     map_option (\<lambda>va. (va_root_public_key va, pf)) (lg_vaults lg v)"
| "call_signature S lg (CancelSolPaymentLinkWithPasskey v l n pf) =
     map_option (\<lambda>va. (va_root_public_key va, pf)) (lg_vaults lg v)"
| "call_signature S lg _ = None"

definition call_authorized ::
    "'pk sdk \<Rightarrow> 'pk runtime \<Rightarrow> 'pk tx \<Rightarrow> 'pk ProtocolConfig \<Rightarrow> bytes \<Rightarrow> proof_args \<Rightarrow> bytes \<Rightarrow> bool" where
  "call_authorized S rt cx c key pf ch \<longleftrightarrow>
     verify_root_authorization S rt c (tx_previous cx) (tx_now cx) key (pf_authenticator_data pf)
       (pf_client_data_json pf) ch (pf_expires_at pf) = Inr ()"

lemma challenge_program: "challenge S parts = program_challenge S parts"
  by (simp add: challenge_def challenge_message_def program_challenge_def)

lemma u64Le_nat: "u64_ok (int n) \<Longrightarrow> u64Le (int n) = Inr (le_u64 n)"
  by (auto simp: u64Le_def u64_ok_def le_u64_def)

lemma i64Le_ok: "i64_ok i \<Longrightarrow> i64Le i = Inr (le_i64 i)"
  by (auto simp: i64Le_def i64_ok_def le_i64_def)

lemma u16Le_word: "u16Le (JNum (unsigned w)) = Inr (le_u16 w)"
proof -
  have w: "JNum (unsigned w) = jint (uint w)" by simp
  have "u16_ok (jint (uint w))" using uint_bounded [of w] unfolding u16_ok_def by (intro exI [of _ "uint w"]) simp
  moreover have "num_int (jint (uint w)) = uint w" by (metis num_int.simps(1) floor_of_int)
  ultimately show ?thesis unfolding w by (simp add: u16Le_unfold le_u16_def del: of_int_uint num_int.simps)
qed

lemma u64Le_0: "u64Le 0 = Inr (le_u64 0)"
  using u64Le_nat [of 0] by (simp add: u64_ok_def)

lemmas wire_simps = u64Le_nat i64Le_ok u16Le_word u64Le_0 assertBytes_def seqE.simps

lemma authorized_requests:
  assumes exec: "exec S rt cx call lg = Inr lg'" and c: "lg_config lg = Some c"
    and rq: "call_request S c call = Some rq" and ok: "request_ok rq"
  shows "\<exists>ch key pf. request_challenge S rq = Inr ch \<and> call_signature S lg call = Some (key, pf) \<and>
           call_authorized S rt cx c key pf ch"
  using exec c rq ok
  by (cases call)
     (auto simp: handler_defs bindE_Inr_iff Let_def request_challenge_eq challenge_program wire_simps
        initializeVaultParts_def transferParts_def sessionGrantParts_def initializeVaultAndGrantSessionParts_def
        solTransferParts_def solPaymentLinkParts_def cancelSolPaymentLinkParts_def
        challenge_head_def session_parts_def authorize_def call_authorized_def dest!: seeded_vaultD)

lemma verify_root_authorization_Inr:
  "verify_root_authorization S rt c prev now key ad json ch e = Inr () \<longleftrightarrow>
     now \<le> e \<and> e \<le> saturating_add now MAX_AUTHORIZATION_TTL_SECONDS \<and>
     validate_webauthn_data S rt c ad json ch = Inr () \<and>
     (\<exists>ix. prev = Some ix \<and> validate_secp256r1_instruction S ix key (ad @ sha256 S json) = Inr ())"
  by (auto simp: verify_root_authorization_def validate_authorization_expiry_def bindE_Inr_iff split: option.split)

lemma validate_webauthn_data_Inr:
  "validate_webauthn_data S rt c ad json ch = Inr () \<longleftrightarrow>
     37 \<le> length ad \<and> take 32 ad = cfg_rp_id_hash c \<and> ad ! 32 AND 5 = 5 \<and>
     (\<exists>cd. rt_client_data rt json = Some cd \<and> cd_type cd = ''webauthn.get'' \<and> cd_crossOrigin cd \<noteq> Some True \<and>
        sha256 S (utf8 (cd_origin cd)) = cfg_origin_hash c \<and> rt_base64url rt (cd_challenge cd) = Some ch)"
  by (auto simp: validate_webauthn_data_def bindE_Inr_iff split: option.splits)

section \<open>Properties\<close>

text \<open>C3. No passkey instruction without a signature for it: when one of the seven instructions that need
  a passkey succeeds, the transaction carried a fresh WebAuthn assertion with user presence and
  verification whose challenge is the one \<open>challenge.ts\<close> computes for exactly this action (cluster,
  program, accounts, amounts, limits, nonce and expiry), signed in the instruction before by the key of
  the vault.\<close>

theorem passkey_instructions_were_signed:
  assumes "exec S rt cx call lg = Inr lg'" and "lg_config lg = Some c"
    and "call_request S c call = Some rq" and "request_ok rq"
  shows "\<exists>ch key pf cd ix.
     request_challenge S rq = Inr ch \<and> call_signature S lg call = Some (key, pf) \<and>
     tx_now cx \<le> pf_expires_at pf \<and> pf_expires_at pf \<le> saturating_add (tx_now cx) MAX_AUTHORIZATION_TTL_SECONDS \<and>
     pf_authenticator_data pf ! 32 AND 5 = 5 \<and> take 32 (pf_authenticator_data pf) = cfg_rp_id_hash c \<and>
     rt_client_data rt (pf_client_data_json pf) = Some cd \<and> cd_type cd = ''webauthn.get'' \<and>
     rt_base64url rt (cd_challenge cd) = Some ch \<and> tx_previous cx = Some ix \<and>
     validate_secp256r1_instruction S ix key
       (pf_authenticator_data pf @ sha256 S (pf_client_data_json pf)) = Inr ()"
proof -
  obtain ch key pf where r: "request_challenge S rq = Inr ch" "call_signature S lg call = Some (key, pf)"
    and a: "call_authorized S rt cx c key pf ch"
    using authorized_requests [OF assms] by blast
  from a r show ?thesis
    unfolding call_authorized_def verify_root_authorization_Inr validate_webauthn_data_Inr by blast
qed

theorem passkey_instructions_were_signed_witness:
  "\<exists>ch rq. call_request example_sdk example_config
        (InitializeVaultAndGrantSession 1000 example_key example_hash (replicate 32 1) example_session example_pf) = Some rq \<and>
      request_challenge example_sdk rq = Inr ch \<and>
      pf_expires_at example_pf \<le> saturating_add (tx_now example_tx) MAX_AUTHORIZATION_TTL_SECONDS"
proof -
  let ?call = "InitializeVaultAndGrantSession 1000 example_key example_hash (replicate 32 1) example_session example_pf"
  obtain rq where rq: "call_request example_sdk example_config ?call = Some rq" by (simp add: Let_def)
  have u: "u16_ok (JNum (unsigned (1 :: 16 word)))" unfolding u16_ok_def by (intro exI [of _ 1]) simp
  have "request_ok rq"
    using rq u by (auto simp: Let_def example_config_def example_key_def example_hash_def example_session_def example_pf_def
        u64_ok_def i64_ok_def)
  from passkey_instructions_were_signed [OF example_open _ rq this] rq show ?thesis by auto
qed

text \<open>C4. A transfer prepared with the package is executed: if the owner signs the challenge that
  \<open>transferChallenge\<close> computes for the transfer and the transaction carries the instruction that
  \<open>createSecp256r1Instruction\<close> builds from the assertion, then the program, with an open vault of that
  key, the current nonce and enough balance, moves exactly the amount from the vault to the
  destination and advances the nonce by one.\<close>

theorem client_transfer_executes:
  assumes rt: "runtime_ok rt" "runtime_live rt"
    and c: "lg_config lg = Some c" "\<not> cfg_paused c"
    and v: "seeded_vault S lg v = Inr va" "va_nonce va + 1 < 2 ^ 64" "length (cfg_cluster_domain c) = 32"
    and b: "lg_tokens lg (ata S c v) = Some bs" "lg_tokens lg d = Some bd" "0 < a" "a \<le> bs" "bd + a < 2 ^ 64" "ata S c v \<noteq> d"
    and rq: "call_request S c (TransferWithPasskey v d a (va_nonce va) pf) = Some (SignTransfer input)"
    and ch: "transferChallenge S input = Inr ch"
    and p: "compressedPublicKey p = va_root_public_key va" "authenticatorData p = pf_authenticator_data pf"
      "clientDataJson p = pf_client_data_json pf" "createSecp256r1Instruction S p = Inr ix"
    and assertion: "validate_webauthn_data S rt c (authenticatorData p) (clientDataJson p) ch = Inr ()"
    and cx: "tx_previous cx = Some ix" "tx_now cx \<le> pf_expires_at pf"
      "pf_expires_at pf \<le> saturating_add (tx_now cx) MAX_AUTHORIZATION_TTL_SECONDS"
  shows "\<exists>lg'. exec S rt cx (TransferWithPasskey v d a (va_nonce va) pf) lg = Inr lg' \<and>
           lg_tokens lg' = (lg_tokens lg)(ata S c v \<mapsto> bs - a, d \<mapsto> bd + a) \<and>
           lg_vaults lg' = (lg_vaults lg)(v \<mapsto> va\<lparr>va_nonce := va_nonce va + 1\<rparr>)"
proof -
  let ?parts = "challenge_head S c ACTION_TRANSFER @
    [pk_bytes S v, pk_bytes S (ata S c v), pk_bytes S d, pk_bytes S (cfg_stablecoin_mint c),
     le_u64 a, le_u64 (va_nonce va), le_i64 (pf_expires_at pf)]"
  have ok: "request_ok (SignTransfer input)"
    using ch by (auto simp: transferChallenge_def transferParts_def bindE_Inr_iff assertBytes_def u64Le_def u64_ok_def
        i64Le_def i64_ok_def split: if_splits)
  then have ch': "ch = program_challenge S ?parts"
    using rq ch by (auto simp: transferChallenge_def transferParts_def wire_simps challenge_program challenge_head_def)
  have "validate_secp256r1_instruction S ix (va_root_public_key va)
          (pf_authenticator_data pf @ sha256 S (pf_client_data_json pf)) = Inr ()"
    using p unfolding validate_secp256r1_iff [OF p(4)] by simp
  then have auth: "authorize S rt cx c (va_root_public_key va) pf ?parts = Inr ()"
    using assertion cx p unfolding authorize_def verify_root_authorization_Inr ch' by simp
  let ?lg = "lg\<lparr>lg_vaults := (lg_vaults lg)(v \<mapsto> va\<lparr>va_nonce := va_nonce va + 1\<rparr>)\<rparr>"
  have bump: "bump_vault v va lg = Inr ?lg" using v(2) by (simp add: bump_vault_Inr)
  obtain t where t: "rt_transfer rt (lg_tokens lg) (ata S c v) d a = Some t"
    using rt(2) [unfolded runtime_live_def, rule_format, where t = "lg_tokens lg", OF b(1,2,4,5)] by blast
  then have tr: "transfer_checked rt (ata S c v) d a ?lg = Inr (?lg\<lparr>lg_tokens := t\<rparr>)"
    by (simp add: transfer_checked_def)
  have mv: "t = (lg_tokens lg)(ata S c v \<mapsto> bs - a, d \<mapsto> bd + a)"
    using transfer_moves [OF rt(1) tr] b by auto
  have "exec S rt cx (TransferWithPasskey v d a (va_nonce va) pf) lg = Inr (?lg\<lparr>lg_tokens := t\<rparr>)"
    unfolding exec.simps transfer_with_passkey_def
    using c v b auth bump tr by (simp add: live_config_def any_config_def fetch_def)
  with mv show ?thesis by simp
qed

theorem client_transfer_executes_witness:
  "\<exists>lg'. exec example_sdk example_runtime example_tx (TransferWithPasskey 5 514 25 1 example_pf) example_ledger = Inr lg' \<and>
     lg_tokens lg' 507 = Some 35 \<and> lg_tokens lg' 514 = Some 65"
proof -
  have live: "runtime_live example_runtime"
    by (simp add: runtime_live_def example_runtime_def example_transfer_def)
  obtain ix where ix: "createSecp256r1Instruction example_sdk example_proof = Inr ix" using example_instruction by blast
  obtain input where rq: "call_request example_sdk example_config (TransferWithPasskey 5 514 25 1 example_pf) = Some (SignTransfer input)"
    by simp
  have ch: "transferChallenge example_sdk input = Inr example_challenge"
  proof -
    have "transferParts example_sdk input = Inr (challenge_head example_sdk example_config ACTION_TRANSFER @
        [pk_bytes example_sdk 5, pk_bytes example_sdk (ata example_sdk example_config 5), pk_bytes example_sdk 514,
         pk_bytes example_sdk (cfg_stablecoin_mint example_config), le_u64 25, le_u64 1, le_i64 100])"
      using rq u64Le_nat [of 25] u64Le_nat [of 1] i64Le_ok [of 100]
      by (auto simp: transferParts_def assertBytes_def challenge_head_def example_config_def example_pf_def
          u64_ok_def i64_ok_def)
    then show ?thesis
      by (simp only: transferChallenge_def challenge_program example_program_challenge bindE_simps)
  qed
  have w: "validate_webauthn_data example_sdk example_runtime example_config (authenticatorData example_proof)
             (clientDataJson example_proof) example_challenge = Inr ()"
    by (simp add: validate_webauthn_data_def example_auth_def example_config_def example_runtime_def nth_append comp_def
        example_proof_def)
  have "\<exists>lg'. exec example_sdk example_runtime example_tx
            (TransferWithPasskey 5 514 25 (va_nonce example_vault) example_pf) example_ledger = Inr lg' \<and>
          lg_tokens lg' = (lg_tokens example_ledger)(ata example_sdk example_config 5 \<mapsto> 60 - 25, 514 \<mapsto> 40 + 25) \<and>
          lg_vaults lg' = (lg_vaults example_ledger)(5 \<mapsto> example_vault\<lparr>va_nonce := va_nonce example_vault + 1\<rparr>)"
  proof (rule client_transfer_executes [OF example_runtime_ok live _ _ _ _ _ _ _ _ _ _ _ _ ch _ _ _ ix w])
    show "call_request example_sdk example_config (TransferWithPasskey 5 514 25 (va_nonce example_vault) example_pf) =
            Some (SignTransfer input)"
      using rq by (simp add: example_vault_def)
    show "seeded_vault example_sdk example_ledger 5 = Inr example_vault"
      by (simp add: seeded_vault_Inr example_ledger_def)
    show "tx_previous example_tx = Some ix" by (simp add: example_tx_def ix)
  qed (simp_all add: example_ledger_def example_vault_def example_proof_def example_pf_def example_config_def
      saturating_add_def I64_MAX_def MAX_AUTHORIZATION_TTL_SECONDS_def)
  then show ?thesis by (auto simp: example_vault_def example_config_def)
qed

end
