(* ===== verification/Handlers.thy ===== *)
theory Handlers
  imports Backend
begin

text \<open>
  Handlers with state and errors, as the services of the backend are written: a sequence of calls
  that read and write the database and the chain, each of which may throw. What was written before
  an exception stays written.
\<close>

section \<open>The monad\<close>

text \<open>A handler takes the state and returns its result or the exception with the state after it.\<close>

type_synonym ('a, 's) handler = "'s \<Rightarrow> 'a http \<times> 's"

definition returnS :: "'a \<Rightarrow> ('a, 's) handler" where "returnS x s = (Inr x, s)"

definition throwS :: "http_error \<Rightarrow> ('a, 's) handler" where "throwS e s = (Inl e, s)"

definition bindS :: "('a, 's) handler \<Rightarrow> ('a \<Rightarrow> ('b, 's) handler) \<Rightarrow> ('b, 's) handler" where
  "bindS m f s = (case m s of (Inl e, s') \<Rightarrow> (Inl e, s') | (Inr x, s') \<Rightarrow> f x s')"

definition liftS :: "'a http \<Rightarrow> ('a, 's) handler" where "liftS r s = (r, s)"

definition getS :: "('s \<Rightarrow> 'a) \<Rightarrow> ('a, 's) handler" where "getS f s = (Inr (f s), s)"

definition modifyS :: "('s \<Rightarrow> 's) \<Rightarrow> (unit, 's) handler" where "modifyS f s = (Inr (), f s)"

definition guardS :: "bool \<Rightarrow> http_error \<Rightarrow> (unit, 's) handler" where
  "guardS c e s = (if c then Inr () else Inl e, s)"

named_theorems handler_simps \<open>when a handler succeeds\<close>

lemma bindS_Inr [handler_simps]: "bindS m f s = (Inr y, t) \<longleftrightarrow> (\<exists>x u. m s = (Inr x, u) \<and> f x u = (Inr y, t))"
  by (auto simp: bindS_def split: prod.splits sum.splits)

lemma returnS_Inr [handler_simps]: "returnS x s = (Inr y, t) \<longleftrightarrow> y = x \<and> t = s"
  by (auto simp: returnS_def)

lemma throwS_Inr [handler_simps]: "throwS e s \<noteq> (Inr y, t)"
  by (simp add: throwS_def)

lemma liftS_Inr [handler_simps]: "liftS r s = (Inr y, t) \<longleftrightarrow> r = Inr y \<and> t = s"
  by (auto simp: liftS_def)

lemma getS_Inr [handler_simps]: "getS f s = (Inr y, t) \<longleftrightarrow> y = f s \<and> t = s"
  by (auto simp: getS_def)

lemma modifyS_Inr [handler_simps]: "modifyS f s = (Inr u, t) \<longleftrightarrow> t = f s"
  by (auto simp: modifyS_def)

lemma guardS_Inr [handler_simps]: "guardS c e s = (Inr u, t) \<longleftrightarrow> c \<and> t = s"
  by (auto simp: guardS_def)

text \<open>The state after a handler that is made of steps which keep a relation to the state before.\<close>

lemma snd_handler [simp]:
  "snd (returnS x s) = s" "snd (throwS e s) = s" "snd (liftS r s) = s" "snd (getS f s) = s" "snd (guardS c e s) = s"
  "snd (modifyS f s) = f s"
  by (simp_all add: returnS_def throwS_def liftS_def getS_def guardS_def modifyS_def)

lemma snd_bindS_cases:
  "snd (bindS m f s) = (case m s of (Inl e, s') \<Rightarrow> s' | (Inr x, s') \<Rightarrow> snd (f x s'))"
  by (auto simp: bindS_def split: prod.splits sum.splits)

lemma bindS_step: "m s = (Inr x, t) \<Longrightarrow> bindS m f s = f x t"
  by (simp add: bindS_def)

lemma handler_eval [simp]:
  "bindS (returnS x) f s = f x s" "bindS (throwS e) f s = (Inl e, s)" "bindS (getS g) f' s = f' (g s) s"
  "bindS (modifyS h) f'' s = f'' () (h s)" "bindS (liftS (Inr x)) f s = f x s" "bindS (liftS (Inl e)) f s = (Inl e, s)"
  "bindS (guardS True e) f'' s = f'' () s" "bindS (guardS False e) f'' s = (Inl e, s)"
  by (simp_all add: bindS_def returnS_def throwS_def getS_def modifyS_def liftS_def guardS_def)

text \<open>\<open>try { m } catch { h; throw }\<close> and a call whose exception is swallowed.\<close>

definition catchS :: "('a, 's) handler \<Rightarrow> (http_error \<Rightarrow> ('a, 's) handler) \<Rightarrow> ('a, 's) handler" where
  "catchS m h s = (case m s of (Inl e, s') \<Rightarrow> h e s' | (Inr x, s') \<Rightarrow> (Inr x, s'))"

lemma catchS_Inr [handler_simps]:
  "catchS m h s = (Inr y, t) \<longleftrightarrow> m s = (Inr y, t) \<or> (\<exists>e u. m s = (Inl e, u) \<and> h e u = (Inr y, t))"
  by (auto simp: catchS_def split: prod.splits sum.splits)

text \<open>A handler on a part of the state.\<close>

definition zoomS :: "('s \<Rightarrow> 't) \<Rightarrow> (('t \<Rightarrow> 't) \<Rightarrow> 's \<Rightarrow> 's) \<Rightarrow> ('a, 't) handler \<Rightarrow> ('a, 's) handler" where
  "zoomS get upd m s = (case m (get s) of (r, t) \<Rightarrow> (r, upd (\<lambda>_. t) s))"

lemma zoomS_Inr [handler_simps]:
  "zoomS get upd m s = (Inr y, s') \<longleftrightarrow> (\<exists>t. m (get s) = (Inr y, t) \<and> s' = upd (\<lambda>_. t) s)"
  by (auto simp: zoomS_def split: prod.splits)

section \<open>What a handler leaves alone\<close>

text \<open>A relation between the states before and after a handler, whatever its result, or when it throws.\<close>

definition keeps :: "('s \<Rightarrow> 's \<Rightarrow> bool) \<Rightarrow> ('a, 's) handler \<Rightarrow> bool" where
  "keeps P m \<longleftrightarrow> (\<forall>s. P s (snd (m s)))"

definition keeps_failing :: "('s \<Rightarrow> 's \<Rightarrow> bool) \<Rightarrow> ('a, 's) handler \<Rightarrow> bool" where
  "keeps_failing P m \<longleftrightarrow> (\<forall>s. failed (fst (m s)) \<longrightarrow> P s (snd (m s)))"

definition never_fails :: "('a, 's) handler \<Rightarrow> bool" where
  "never_fails m \<longleftrightarrow> (\<forall>s. \<not> failed (fst (m s)))"

lemma never_fails_basic: "never_fails (returnS x)" "never_fails (modifyS f)" "never_fails (getS g)"
  by (simp_all add: never_fails_def returnS_def modifyS_def getS_def)

lemma never_fails_bind:
  assumes m: "never_fails m" and h: "\<And>x. never_fails (h x)"
  shows "never_fails (bindS m h)"
  unfolding never_fails_def
proof
  fix s
  obtain r u where ru: "m s = (r, u)" by (cases "m s")
  with m have "\<not> failed r" unfolding never_fails_def by (metis fst_conv)
  then obtain x where "r = Inr x" by (cases r) simp_all
  with ru h [of x] show "\<not> failed (fst (bindS m h s))" by (simp add: bindS_def never_fails_def)
qed

lemma never_fails_keeps_failing: "never_fails m \<Longrightarrow> keeps_failing P m"
  by (simp add: never_fails_def keeps_failing_def)

lemma keeps_failing_then:
  assumes m: "keeps_failing P m" and f: "\<And>x. never_fails (f x)"
  shows "keeps_failing P (bindS m f)"
  unfolding keeps_failing_def
proof (intro allI impI)
  fix s assume fail: "failed (fst (bindS m f s))"
  obtain r u where m': "m s = (r, u)" by (cases "m s")
  with fail f obtain e where "r = Inl e" by (cases r) (auto simp: bindS_def never_fails_def)
  with m m' have "P s u" unfolding keeps_failing_def by (metis failed_simps(1) fst_conv snd_conv)
  with m' \<open>r = Inl e\<close> show "P s (snd (bindS m f s))" by (simp add: bindS_def)
qed

text \<open>A handler that only reads.\<close>

abbreviation only_reads :: "('a, 's) handler \<Rightarrow> bool" where
  "only_reads \<equiv> keeps (\<lambda>s t. t = s)"

lemma bindS_reads: "only_reads m \<Longrightarrow> bindS m f s = (case fst (m s) of Inl e \<Rightarrow> (Inl e, s) | Inr x \<Rightarrow> f x s)"
  by (cases "m s") (auto simp: keeps_def bindS_def dest!: spec [of _ s] split: sum.split)

locale frame =
  fixes P :: "'s \<Rightarrow> 's \<Rightarrow> bool"
  assumes unchanged: "P s s"
    and chained: "P s t \<Longrightarrow> P t u \<Longrightarrow> P s u"
begin

lemma keeps_pure: "keeps P (returnS x)" "keeps P (throwS e)" "keeps P (liftS r)" "keeps P (getS g)" "keeps P (guardS c e)"
  by (simp_all add: keeps_def unchanged returnS_def throwS_def liftS_def getS_def guardS_def)

lemma keeps_modify: "(\<And>s. P s (f s)) \<Longrightarrow> keeps P (modifyS f)"
  by (simp add: keeps_def modifyS_def)

lemma keeps_bind: "keeps P m \<Longrightarrow> (\<And>x. keeps P (f x)) \<Longrightarrow> keeps P (bindS m f)"
  unfolding keeps_def by (auto simp: bindS_def split: prod.split sum.split) (metis snd_conv, metis chained snd_conv)

lemma keeps_failing_keeps: "keeps P m \<Longrightarrow> keeps_failing P m"
  by (simp add: keeps_def keeps_failing_def)

lemma keeps_failing_bind:
  assumes m: "keeps P m" and f: "\<And>x. keeps_failing P (f x)"
  shows "keeps_failing P (bindS m f)"
  unfolding keeps_failing_def
proof (intro allI impI)
  fix s assume fail: "failed (fst (bindS m f s))"
  obtain r u where m': "m s = (r, u)" by (cases "m s")
  then have su: "P s u" using m by (metis keeps_def snd_conv)
  show "P s (snd (bindS m f s))"
  proof (cases r)
    case (Inl e)
    with m' su show ?thesis by (simp add: bindS_def)
  next
    case (Inr x)
    with m' fail have "P u (snd (f x u))" using f [of x] by (simp add: bindS_def keeps_failing_def)
    with Inr m' su show ?thesis by (simp add: bindS_def chained [OF su])
  qed
qed

end

interpretation reading: frame "\<lambda>s t. t = s"
  by unfold_locales simp_all

end
