(* ===== verification/SolanaChain.thy ===== *)
theory SolanaChain
  imports Handlers LedgerClient Amounts
begin

text \<open>
  \<open>backend/src/chains/solana/solana-account.ts\<close> and \<open>solana-chain.service.ts\<close>: the addresses of a user
  and the transactions the backend submits. The record \<open>chain\<close> holds what is given from outside: the
  package and runtime of the program, the \<open>PublicKey\<close> constructor (\<open>None\<close> when it throws) and
  \<open>toBase58\<close>, the fee payer and the mint the deployment is configured with. The accounts are those
  of the ledger. A transaction is a list of instructions that take effect together; the simulation
  fails when one of them does. What the network then does is the argument \<open>net\<close>: the transaction is
  confirmed, rejected, lost, or lands without the backend learning it.
\<close>

record 'pk chain =
  ch_sdk :: "'pk sdk"
  ch_rt :: "'pk runtime"
  ch_parse :: "string \<Rightarrow> 'pk option"
  ch_print :: "'pk \<Rightarrow> string"
  ch_feePayer :: 'pk
  ch_mint :: 'pk

definition chain_ok :: "'pk chain \<Rightarrow> bool" where
  "chain_ok N \<longleftrightarrow> sdk_ok (ch_sdk N) \<and> (\<forall>k. ch_parse N (ch_print N k) = Some k)"

section \<open>solana-account.ts\<close>

definition isSolanaAddress :: "'pk chain \<Rightarrow> string \<Rightarrow> bool" where
  "isSolanaAddress N value = (case ch_parse N value of None \<Rightarrow> False | Some k \<Rightarrow> ch_print N k = value)"

definition identitySalt :: "'pk sdk \<Rightarrow> string \<Rightarrow> string \<Rightarrow> bytes" where
  "identitySalt S platform platformId =
     sha256 S (utf8 ''veriagent:solana:identity:v1'' @ [0] @ utf8 platform @ [0] @ utf8 platformId)"

text \<open>\<open>BigInt(s)\<close> on a decimal or hexadecimal literal.\<close>

definition bigint_of_string :: "string \<Rightarrow> int js" where
  "bigint_of_string s =
     (if take 2 s = ''0x'' then bigint_of_hex (drop 2 s)
      else case bigint_of_dec s of Inr v \<Rightarrow> Inr v | Inl _ \<Rightarrow> Inl JsSyntaxError)"

definition bigintTo32Bytes :: "int \<Rightarrow> bytes js" where
  "bigintTo32Bytes value =
     (if value < 0 \<or> value \<ge> 2 ^ 256
      then Inl (JsError ''P-256 coordinate is outside the uint256 range'')
      else Inr (from_hex (padStart 64 (CHR ''0'') (bigint_to_hex value))))"

definition compressedP256PublicKey :: "string \<Rightarrow> string \<Rightarrow> bytes js" where
  "compressedP256PublicKey publicKeyX publicKeyY =
     bindE (bigint_of_string publicKeyX) (\<lambda>vx.
     bindE (bigintTo32Bytes vx) (\<lambda>x.
     bindE (bigint_of_string publicKeyY) (\<lambda>vy.
     bindE (bigintTo32Bytes vy) (\<lambda>_.
     Inr (word_of_int (2 + vy mod 2) # x)))))"

definition rootKeyHash :: "'pk sdk \<Rightarrow> string \<Rightarrow> string \<Rightarrow> bytes js" where
  "rootKeyHash S publicKeyX publicKeyY =
     bindE (compressedP256PublicKey publicKeyX publicKeyY) (\<lambda>k. Inr (sha256 S k))"

definition deriveVaultAddress :: "'pk chain \<Rightarrow> bytes \<Rightarrow> bytes \<Rightarrow> string js" where
  "deriveVaultAddress N rootHash salt =
     (if length rootHash \<noteq> 32 \<or> length salt \<noteq> 32
      then Inl (JsError ''Solana vault root hash and identity salt must each contain 32 bytes'')
      else Inr (ch_print N (findProgramAddress (ch_sdk N) [utf8 ''vault'', rootHash, salt] (VERIAGENT_PROGRAM_ID (ch_sdk N)))))"

definition deriveVaultFromPasskey ::
    "'pk chain \<Rightarrow> string \<Rightarrow> string \<Rightarrow> string \<Rightarrow> string \<Rightarrow> (string \<times> bytes \<times> bytes) js" where
  "deriveVaultFromPasskey N publicKeyX publicKeyY platform platformId =
     bindE (rootKeyHash (ch_sdk N) publicKeyX publicKeyY) (\<lambda>rootHash.
     let salt = identitySalt (ch_sdk N) platform platformId in
     bindE (deriveVaultAddress N rootHash salt) (\<lambda>address. Inr (address, rootHash, salt)))"

definition bytes32FromStored :: "string \<Rightarrow> bytes js" where
  "bytes32FromStored value =
     (let normalized = (if take 2 value = ''0x'' then drop 2 value else value) in
      if length normalized = 64 \<and> list_all (\<lambda>c. char_nibble c \<noteq> None) normalized then Inr (from_hex normalized)
      else
        let decoded = base64_decode value in
        if length decoded \<noteq> 32 then Inl (JsError ''Stored Solana seed must contain 32 bytes'') else Inr decoded)"

section \<open>solana-chain.service.ts: reading\<close>

definition publicKey :: "'pk chain \<Rightarrow> string \<Rightarrow> string \<Rightarrow> 'pk http" where
  "publicKey N value label =
     (if isSolanaAddress N value then Inr (the (ch_parse N value))
      else Inl (BadRequest (label @ '' is not a valid Solana address'')))"

text \<open>An account with lamports exists. One that is not of the kind read belongs to the token program or to the system
  program, whose accounts have no data: \<open>readVault\<close> takes the latter for no account, the other two refuse it. An
  account of another kind of the program is refused like a foreign one, where the code fails to decode it.\<close>

definition read_account :: "('pk \<rightharpoonup> 'v) \<Rightarrow> 'pk ledger \<Rightarrow> bool \<Rightarrow> string \<Rightarrow> 'pk \<Rightarrow> 'v option http" where
  "read_account m lg system_allowed foreign k =
     (case m k of Some v \<Rightarrow> Inr (Some v)
      | None \<Rightarrow> if lg_tokens lg k \<noteq> None \<or> \<not> system_allowed \<and> 0 < lg_lamports lg k then Inl (BadRequest foreign) else Inr None)"

definition readVault :: "'pk chain \<Rightarrow> string \<Rightarrow> 'pk ledger \<Rightarrow> Vault option http" where
  "readVault N address lg =
     bindE (publicKey N address ''vault'') (\<lambda>k.
     read_account (lg_vaults lg) lg True ''Vault address is not owned by the VeriAgent Solana program'' k)"

definition readSession :: "'pk chain \<Rightarrow> string \<Rightarrow> string \<Rightarrow> 'pk ledger \<Rightarrow> 'pk Session option http" where
  "readSession N vaultAddress sessionPublicKey lg =
     bindE (publicKey N vaultAddress ''vault'') (\<lambda>vault.
     bindE (publicKey N sessionPublicKey ''session public key'') (\<lambda>signer.
     read_account (lg_sessions lg) lg False ''Session address is not owned by the VeriAgent Solana program''
       (session_address (ch_sdk N) vault signer)))"

definition readPaymentLink :: "'pk chain \<Rightarrow> string \<Rightarrow> 'pk ledger \<Rightarrow> 'pk PaymentLink option http" where
  "readPaymentLink N address lg =
     bindE (publicKey N address ''payment link'') (\<lambda>k.
     read_account (lg_links lg) lg False ''Payment link is not owned by the VeriAgent Solana program'' k)"

definition tokenAccountOf :: "'pk chain \<Rightarrow> 'pk \<Rightarrow> 'pk" where
  "tokenAccountOf N owner = getAssociatedTokenAddress (ch_sdk N) (ch_mint N) owner True (TOKEN_PROGRAM_ID (ch_sdk N))"

definition vaultTokenAccount :: "'pk chain \<Rightarrow> string \<Rightarrow> 'pk http" where
  "vaultTokenAccount N vaultAddress =
     bindE (publicKey N vaultAddress ''vault'') (\<lambda>k. Inr (tokenAccountOf N k))"

definition recipientTokenAccount :: "'pk chain \<Rightarrow> string \<Rightarrow> 'pk http" where
  "recipientTokenAccount N recipientAddress =
     bindE (publicKey N recipientAddress ''recipient'') (\<lambda>k. Inr (tokenAccountOf N k))"

definition getVaultUsdcBalance :: "'pk chain \<Rightarrow> string \<Rightarrow> 'pk ledger \<Rightarrow> nat http" where
  "getVaultUsdcBalance N vaultAddress lg =
     bindE (vaultTokenAccount N vaultAddress) (\<lambda>k. Inr (case lg_tokens lg k of Some b \<Rightarrow> b | None \<Rightarrow> 0))"

definition getVaultSolBalance :: "'pk chain \<Rightarrow> string \<Rightarrow> 'pk ledger \<Rightarrow> nat http" where
  "getVaultSolBalance N vaultAddress lg = bindE (publicKey N vaultAddress ''vault'') (\<lambda>k. Inr (lg_lamports lg k))"

definition formatLamports :: "nat \<Rightarrow> string" where
  "formatLamports lamports =
     (let whole = lamports div 1000000000;
          fraction = strip_trailing (CHR ''0'') (padStart 9 (CHR ''0'') (show_nat (lamports mod 1000000000)))
      in if fraction \<noteq> [] then show_nat whole @ ''.'' @ fraction else show_nat whole)"

section \<open>solana-chain.service.ts: transactions\<close>

datatype 'pk tx_op = TxOpenAta 'pk | TxVerify "'pk instruction" | TxCall "'pk call"

text \<open>The effect of the instructions in order, with the instruction before the current one.\<close>

fun run_tx :: "'pk chain \<Rightarrow> int \<Rightarrow> 'pk list \<Rightarrow> 'pk instruction option \<Rightarrow> 'pk tx_op list \<Rightarrow> 'pk ledger \<Rightarrow> 'pk ledger result" where
  "run_tx N now signers prev [] lg = Inr lg"
| "run_tx N now signers prev (TxOpenAta k # ops) lg =
     bindE (init_token_account_if_needed (ch_rt N) (ch_feePayer N) k lg) (run_tx N now signers None ops)"
| "run_tx N now signers prev (TxVerify ix # ops) lg = run_tx N now signers (Some ix) ops lg"
| "run_tx N now signers prev (TxCall call # ops) lg =
     bindE (exec (ch_sdk N) (ch_rt N) \<lparr>tx_now = now, tx_signers = signers, tx_previous = prev\<rparr> call lg)
       (run_tx N now signers None ops)"

datatype net_answer = Confirmed string nat | RejectedByCluster | Lost | LandedUnseen

record confirmed =
  cf_signature :: string
  cf_slot :: nat

text \<open>The instructions name the token accounts of the configured mint; the program accepts only those of
  its own.\<close>

definition mint_matches :: "'pk chain \<Rightarrow> 'pk ledger \<Rightarrow> bool" where
  "mint_matches N lg \<longleftrightarrow> (case lg_config lg of Some c \<Rightarrow> cfg_stablecoin_mint c = ch_mint N | None \<Rightarrow> False)"

definition submit ::
    "'pk chain \<Rightarrow> int \<Rightarrow> net_answer \<Rightarrow> 'pk tx_op list \<Rightarrow> 'pk list \<Rightarrow> (confirmed, 'pk ledger) handler" where
  "submit N now net ops additionalSigners lg =
     (if \<not> mint_matches N lg
      then (Inl (BadRequest ''The Solana action failed simulation. No funds were moved.''), lg)
      else
      case run_tx N now (ch_feePayer N # additionalSigners) None ops lg of
        Inl _ \<Rightarrow> (Inl (BadRequest ''The Solana action failed simulation. No funds were moved.''), lg)
      | Inr lg' \<Rightarrow>
          (case net of
             Confirmed sig slot \<Rightarrow> (Inr \<lparr>cf_signature = sig, cf_slot = slot\<rparr>, lg')
           | RejectedByCluster \<Rightarrow> (Inl (BadRequest ''The Solana transaction was rejected. No success was recorded.''), lg)
           | Lost \<Rightarrow> (Inl (InternalError ''Transaction was not confirmed''), lg)
           | LandedUnseen \<Rightarrow> (Inl (InternalError ''Transaction was not confirmed''), lg')))"

definition transferWithSession ::
    "'pk chain \<Rightarrow> int \<Rightarrow> net_answer \<Rightarrow> string \<Rightarrow> string \<Rightarrow> 'pk \<Rightarrow> nat \<Rightarrow> nat \<Rightarrow> (confirmed, 'pk ledger) handler" where
  "transferWithSession N now net vaultAddress recipientAddress sessionKey amount sessionNonce =
     bindS (liftS (publicKey N vaultAddress ''vault'')) (\<lambda>vault.
     bindS (liftS (recipientTokenAccount N recipientAddress)) (\<lambda>destination.
     submit N now net [TxOpenAta destination, TxCall (TransferWithSession vault sessionKey destination amount sessionNonce)]
       [sessionKey]))"

definition chain_createPaymentLinkWithSession ::
    "'pk chain \<Rightarrow> int \<Rightarrow> net_answer \<Rightarrow> string \<Rightarrow> 'pk \<Rightarrow> link_args \<Rightarrow> nat \<Rightarrow> (confirmed \<times> string, 'pk ledger) handler" where
  "chain_createPaymentLinkWithSession N now net vaultAddress sessionKey a sessionNonce =
     bindS (liftS (publicKey N vaultAddress ''vault'')) (\<lambda>vault.
     bindS (liftS (if length (la_link_id a) = 32 then Inr () else Inl (InternalError ''Payment-link ID must contain 32 bytes''))) (\<lambda>_.
     bindS (submit N now net [TxCall (CreatePaymentLinkWithSession (ch_feePayer N) vault sessionKey a sessionNonce)] [sessionKey])
       (\<lambda>c. returnS (c, ch_print N (link_address (ch_sdk N) vault (la_link_id a))))))"

definition chain_claimPaymentLink ::
    "'pk chain \<Rightarrow> int \<Rightarrow> net_answer \<Rightarrow> string \<Rightarrow> string \<Rightarrow> (confirmed, 'pk ledger) handler" where
  "chain_claimPaymentLink N now net paymentLinkAddress recipientVaultAddress =
     bindS (liftS (publicKey N paymentLinkAddress ''payment link'')) (\<lambda>l.
     bindS (liftS (publicKey N recipientVaultAddress ''recipient vault'')) (\<lambda>v.
     submit N now net [TxCall (ClaimPaymentLink (ch_feePayer N) v l)] []))"

definition chain_claimSolPaymentLink ::
    "'pk chain \<Rightarrow> int \<Rightarrow> net_answer \<Rightarrow> string \<Rightarrow> string \<Rightarrow> (confirmed, 'pk ledger) handler" where
  "chain_claimSolPaymentLink N now net paymentLinkAddress recipientVaultAddress =
     bindS (liftS (publicKey N paymentLinkAddress ''payment link'')) (\<lambda>l.
     bindS (liftS (publicKey N recipientVaultAddress ''recipient vault'')) (\<lambda>v.
     submit N now net [TxCall (ClaimSolPaymentLink (ch_feePayer N) v l)] []))"

definition chain_cancelPaymentLinkWithSession ::
    "'pk chain \<Rightarrow> int \<Rightarrow> net_answer \<Rightarrow> string \<Rightarrow> string \<Rightarrow> 'pk \<Rightarrow> nat \<Rightarrow> (confirmed, 'pk ledger) handler" where
  "chain_cancelPaymentLinkWithSession N now net vaultAddress paymentLinkAddress sessionKey sessionNonce =
     bindS (liftS (publicKey N vaultAddress ''vault'')) (\<lambda>v.
     bindS (liftS (publicKey N paymentLinkAddress ''payment link'')) (\<lambda>l.
     submit N now net [TxCall (CancelPaymentLinkWithSession v sessionKey l sessionNonce)] [sessionKey]))"

definition chain_refundExpiredPaymentLink ::
    "'pk chain \<Rightarrow> int \<Rightarrow> net_answer \<Rightarrow> string \<Rightarrow> string \<Rightarrow> (confirmed, 'pk ledger) handler" where
  "chain_refundExpiredPaymentLink N now net senderVaultAddress paymentLinkAddress =
     bindS (liftS (publicKey N senderVaultAddress ''sender vault'')) (\<lambda>v.
     bindS (liftS (publicKey N paymentLinkAddress ''payment link'')) (\<lambda>l.
     submit N now net [TxCall (RefundExpiredPaymentLink v l)] []))"

definition chain_refundExpiredSolPaymentLink ::
    "'pk chain \<Rightarrow> int \<Rightarrow> net_answer \<Rightarrow> string \<Rightarrow> string \<Rightarrow> (confirmed, 'pk ledger) handler" where
  "chain_refundExpiredSolPaymentLink N now net senderVaultAddress paymentLinkAddress =
     bindS (liftS (publicKey N senderVaultAddress ''sender vault'')) (\<lambda>v.
     bindS (liftS (publicKey N paymentLinkAddress ''payment link'')) (\<lambda>l.
     submit N now net [TxCall (RefundExpiredSolPaymentLink v l)] []))"

text \<open>\<open>submitPasskeyInstruction\<close>: the signature instruction right before the instruction it authorises.\<close>

definition submitPasskeyInstruction ::
    "'pk chain \<Rightarrow> int \<Rightarrow> net_answer \<Rightarrow> WebAuthnProof \<Rightarrow> 'pk call \<Rightarrow> 'pk tx_op list \<Rightarrow> (confirmed, 'pk ledger) handler" where
  "submitPasskeyInstruction N now net pf call beforeVerification =
     bindS (liftS (case createSecp256r1Instruction (ch_sdk N) pf of
              Inr ix \<Rightarrow> Inr ix | Inl _ \<Rightarrow> Inl (InternalError ''Invalid WebAuthn proof''))) (\<lambda>verification.
     submit N now net (beforeVerification @ [TxVerify verification, TxCall call]) [])"

section \<open>Facts\<close>

lemma bigintTo32Bytes_Inr: "bigintTo32Bytes v = Inr b \<longleftrightarrow> 0 \<le> v \<and> v < 2 ^ 256 \<and> b = be_bytes 32 v"
proof (cases "v = 0")
  case True
  have "from_hex (padStart 64 (CHR ''0'') (bigint_to_hex 0)) = be_bytes 32 0" by code_simp
  with True show ?thesis by (auto simp: bigintTo32Bytes_def)
next
  case False
  with bigIntTo32Bytes_eq [of v] show ?thesis by (auto simp: bigintTo32Bytes_def bigIntTo32Bytes_def)
qed

lemma compressedP256PublicKey_Inr:
  "compressedP256PublicKey x y = Inr k \<longleftrightarrow>
     (\<exists>vx vy. bigint_of_string x = Inr vx \<and> bigint_of_string y = Inr vy \<and> 0 \<le> vx \<and> vx < 2 ^ 256 \<and> 0 \<le> vy \<and> vy < 2 ^ 256 \<and>
        k = word_of_int (2 + vy mod 2) # be_bytes 32 vx)"
  by (auto simp: compressedP256PublicKey_def bindE_Inr_iff bigintTo32Bytes_Inr)

lemma compressed_key_shape:
  assumes "compressedP256PublicKey x y = Inr k"
  shows "length k = 33 \<and> (hd k = 2 \<or> hd k = 3)"
proof -
  from assms obtain vy where "hd k = word_of_int (2 + vy mod 2)" and "length k = 33"
    by (auto simp: compressedP256PublicKey_Inr)
  moreover have "vy mod 2 = 0 \<or> vy mod 2 = 1" by auto
  ultimately show ?thesis by auto
qed

lemma publicKey_Inr [simp]: "publicKey N a label = Inr k \<longleftrightarrow> isSolanaAddress N a \<and> ch_parse N a = Some k"
  by (auto simp: publicKey_def isSolanaAddress_def split: option.splits)

lemma printed_address: "chain_ok N \<Longrightarrow> isSolanaAddress N (ch_print N k) \<and> ch_parse N (ch_print N k) = Some k"
  by (simp add: chain_ok_def isSolanaAddress_def)

lemma submit_Inr:
  assumes "submit N now net ops sg lg = (Inr c, lg')"
  shows "mint_matches N lg \<and> run_tx N now (ch_feePayer N # sg) None ops lg = Inr lg' \<and> net = Confirmed (cf_signature c) (cf_slot c)"
  using assms by (auto simp: submit_def split: if_splits sum.splits net_answer.splits)

lemma submit_cases:
  "snd (submit N now net ops sg lg) = lg \<or> run_tx N now (ch_feePayer N # sg) None ops lg = Inr (snd (submit N now net ops sg lg))"
  by (auto simp: submit_def split: sum.splits net_answer.splits)

text \<open>A transaction of one instruction is a step of the ledger.\<close>

lemma run_tx_call: "run_tx N now sg prev [TxCall call] lg = exec (ch_sdk N) (ch_rt N) \<lparr>tx_now = now, tx_signers = sg, tx_previous = prev\<rparr> call lg"
  by (cases "exec (ch_sdk N) (ch_rt N) \<lparr>tx_now = now, tx_signers = sg, tx_previous = prev\<rparr> call lg") simp_all

section \<open>Properties\<close>

text \<open>The backend and the program agree on a user's vault: for any passkey and identity,
  \<open>deriveVaultFromPasskey\<close> returns exactly when both coordinates are numbers below \<open>2\<^sup>2\<^sup>5\<^sup>6\<close>; the
  address it stores parses back to the address that the program derives from the hash of the
  33-byte compressed key and the salt, which is also the address the TypeScript package derives.\<close>

theorem backend_vault_is_program_vault:
  assumes "chain_ok N"
  shows "deriveVaultFromPasskey N x y platform platformId =
     (case compressedP256PublicKey x y of
        Inl e \<Rightarrow> Inl e
      | Inr key \<Rightarrow>
          (let h = sha256 (ch_sdk N) key; salt = identitySalt (ch_sdk N) platform platformId;
               v = vault_address (ch_sdk N) h salt
           in Inr (ch_print N v, h, salt))) \<and>
     publicKey N (ch_print N (vault_address (ch_sdk N) h salt)) ''vault'' = Inr (vault_address (ch_sdk N) h salt) \<and>
     (length h = 32 \<and> length salt = 32 \<longrightarrow> deriveVault (ch_sdk N) h salt None = Inr (vault_address (ch_sdk N) h salt)) \<and>
     (\<forall>key. compressedP256PublicKey x y = Inr key \<longrightarrow> length key = 33 \<and> (hd key = 2 \<or> hd key = 3))"
proof (intro conjI impI allI)
  have len: "length (sha256 (ch_sdk N) m) = 32" for m using assms by (simp add: chain_ok_def sdk_sha_length)
  show "deriveVaultFromPasskey N x y platform platformId =
     (case compressedP256PublicKey x y of
        Inl e \<Rightarrow> Inl e
      | Inr key \<Rightarrow>
          (let h = sha256 (ch_sdk N) key; salt = identitySalt (ch_sdk N) platform platformId;
               v = vault_address (ch_sdk N) h salt
           in Inr (ch_print N v, h, salt)))"
    by (simp add: deriveVaultFromPasskey_def rootKeyHash_def deriveVaultAddress_def identitySalt_def len
        vault_address_def VAULT_SEED_def Let_def split: sum.split)
  show "publicKey N (ch_print N (vault_address (ch_sdk N) h salt)) ''vault'' = Inr (vault_address (ch_sdk N) h salt)"
    using printed_address [OF assms] by simp
  show "deriveVault (ch_sdk N) h salt None = Inr (vault_address (ch_sdk N) h salt)" if "length h = 32 \<and> length salt = 32"
    using that by (simp add: deriveVault_def vault_address_def program_or_default_def)
  show "length key = 33" "hd key = 2 \<or> hd key = 3" if "compressedP256PublicKey x y = Inr key" for key
    using compressed_key_shape [OF that] by blast+
qed

definition example_chain :: "256 word chain" where
  "example_chain =
     \<lparr>ch_sdk = example_sdk, ch_rt = example_runtime, ch_parse = (\<lambda>s. Some (of_nat (length s))),
      ch_print = (\<lambda>k. replicate (unat k) (CHR ''1'')), ch_feePayer = 1000, ch_mint = 500\<rparr>"

lemma example_chain_ok: "chain_ok example_chain"
proof -
  have "sdk_ok example_sdk"
    using word_sdk_ok by (simp add: sdk_ok_def example_sdk_def)
  then show ?thesis by (simp add: chain_ok_def example_chain_def)
qed

theorem backend_vault_is_program_vault_witness:
  "deriveVaultFromPasskey example_chain ''7'' ''8'' ''telegram'' ''42'' =
     (let h = sha256 example_sdk (2 # be_bytes 32 7); salt = identitySalt example_sdk ''telegram'' ''42''
      in Inr (ch_print example_chain 5, h, salt))"
proof -
  have k: "compressedP256PublicKey ''7'' ''8'' = Inr (2 # be_bytes 32 7)" by code_simp
  show ?thesis
    using backend_vault_is_program_vault [OF example_chain_ok, of "''7''" "''8''" "''telegram''" "''42''"] k
    by (simp add: example_chain_def Let_def)
qed

end
