(* ===== verification/ShortLinks.thy ===== *)
theory ShortLinks
  imports Handlers
begin

text \<open>
  \<open>backend/src/shortlinks/shortlinks.service.ts\<close>: the table of short links behind shared payment and
  invitation URLs. The codes that the random generator returns are an argument, the attributed URL
  of the answer is left out. Whether a string is a Solana address (\<open>isSolanaAddress\<close>) is an argument of
  the operations that ask for it. Times are milliseconds.
\<close>

section \<open>Rows\<close>

record ShortLink =
  sl_id :: string
  sl_kind :: string
  sl_senderUserId :: "string option"
  sl_targetUserId :: "string option"
  sl_toAddress :: "string option"
  sl_amount :: "rat option"
  sl_token :: "string option"
  sl_fromUser :: "string option"
  sl_platform :: "string option"
  sl_envelopeId :: "string option"
  sl_merkleProof :: "string option"
  sl_status :: string
  sl_expiresAt :: "int option"
  sl_claimedAt :: "int option"
  sl_claimedBy :: "string option"
  sl_fundingTxHash :: "string option"
  sl_claimTxHash :: "string option"
  sl_clickCount :: nat
  sl_src :: "string option"
  sl_campaign :: "string option"
  sl_partner :: "string option"
  sl_channel :: "string option"
  sl_refCode :: "string option"

record CreateShortLinkDto =
  sd_kind :: string
  sd_senderUserId :: "string option"
  sd_targetUserId :: "string option"
  sd_toAddress :: "string option"
  sd_amount :: "rat option"
  sd_token :: "string option"
  sd_fromUser :: "string option"
  sd_platform :: "string option"
  sd_envelopeId :: "string option"
  sd_merkleProof :: "string option"
  sd_fundingTxHash :: "string option"
  sd_expiresAt :: "int option"
  sd_status :: "string option"
  sd_src :: "string option"
  sd_campaign :: "string option"
  sd_partner :: "string option"
  sd_channel :: "string option"
  sd_refCode :: "string option"

text \<open>\<open>x || y\<close> on strings and numbers: the empty string and zero are falsy.\<close>

definition or_str :: "string option \<Rightarrow> string option \<Rightarrow> string option" where
  "or_str x y = (case x of Some s \<Rightarrow> if s = [] then y else x | None \<Rightarrow> y)"

definition or_null :: "string option \<Rightarrow> string option" where "or_null x = or_str x None"

definition amount_or_null :: "rat option \<Rightarrow> rat option" where
  "amount_or_null x = (if x = Some 0 then None else x)"

definition quoted :: "string \<Rightarrow> string" where "quoted s = CHR 0x27 # s @ [CHR 0x27]"

section \<open>Operations\<close>

text \<open>The loop over at most five codes: it stops at the first code that is free.\<close>

fun free_code :: "nat \<Rightarrow> string list \<Rightarrow> ShortLink table \<Rightarrow> string option" where
  "free_code n [] t = None"
| "free_code n (code # codes) t =
     (if n = 0 then None else if findUnique t code = None then Some code else free_code (n - 1) codes t)"

definition isNativeSolanaPaymentLink :: "(string \<Rightarrow> bool) \<Rightarrow> ShortLink \<Rightarrow> bool" where
  "isNativeSolanaPaymentLink isSolanaAddress link \<longleftrightarrow>
     sl_kind link = ''pay'' \<and> (\<exists>e. or_null (sl_envelopeId link) = Some e \<and> isSolanaAddress e)"

definition shortlink_create ::
    "int \<Rightarrow> string \<Rightarrow> string list \<Rightarrow> CreateShortLinkDto \<Rightarrow> (string, ShortLink table) handler" where
  "shortlink_create now rowId codes dto t =
     (case free_code 5 codes t of
        None \<Rightarrow> (Inl (BadRequest ''Failed to generate a unique short link code after multiple attempts''), t)
      | Some code \<Rightarrow>
          (Inr code, create_row code
            \<lparr>sl_id = rowId, sl_kind = sd_kind dto, sl_senderUserId = or_null (sd_senderUserId dto),
             sl_targetUserId = or_null (sd_targetUserId dto), sl_toAddress = or_null (sd_toAddress dto),
             sl_amount = amount_or_null (sd_amount dto), sl_token = or_str (sd_token dto) (Some ''USDC''),
             sl_fromUser = or_null (sd_fromUser dto), sl_platform = or_null (sd_platform dto),
             sl_envelopeId = or_null (sd_envelopeId dto), sl_merkleProof = or_null (sd_merkleProof dto),
             sl_status = (case or_null (sd_status dto) of Some st \<Rightarrow> st | None \<Rightarrow> ''ACTIVE''),
             sl_expiresAt = (case sd_expiresAt dto of Some e \<Rightarrow> Some e | None \<Rightarrow> Some (now + 24 * 60 * 60 * 1000)),
             sl_claimedAt = None, sl_claimedBy = None, sl_fundingTxHash = or_null (sd_fundingTxHash dto),
             sl_claimTxHash = None, sl_clickCount = 0,
             sl_src = or_null (or_str (sd_src dto) (sd_platform dto)),
             sl_campaign = or_str (sd_campaign dto) (Some (sd_kind dto)), sl_partner = or_null (sd_partner dto),
             sl_channel = or_null (sd_channel dto), sl_refCode = or_null (sd_refCode dto)\<rparr> t))"

definition link_expired :: "int \<Rightarrow> ShortLink \<Rightarrow> bool" where
  "link_expired now link \<longleftrightarrow> (case sl_expiresAt link of Some e \<Rightarrow> e < now | None \<Rightarrow> False)"

definition set_status :: "string \<Rightarrow> ShortLink \<Rightarrow> ShortLink" where "set_status st r = r\<lparr>sl_status := st\<rparr>"

text \<open>The record that \<open>resolve\<close> returns is the one it read, with the status it may have written; the
  click counter of the row is raised after that.\<close>

definition shortlink_resolve :: "(string \<Rightarrow> bool) \<Rightarrow> int \<Rightarrow> string \<Rightarrow> (ShortLink, ShortLink table) handler" where
  "shortlink_resolve isSolanaAddress now code t =
     (case findUnique t code of
        None \<Rightarrow> (Inl (NotFound (''Short link code '' @ quoted code @ '' not found'')), t)
      | Some record \<Rightarrow>
          let expire = sl_status record = ''ACTIVE'' \<and> link_expired now record \<and>
                       \<not> isNativeSolanaPaymentLink isSolanaAddress record;
              record' = (if expire then set_status ''EXPIRED'' record else record);
              t1 = (if expire then update_row code (set_status ''EXPIRED'') t else t)
          in (Inr record', update_row code (\<lambda>r. r\<lparr>sl_clickCount := sl_clickCount r + 1\<rparr>) t1))"

definition shortlink_redeem ::
    "(string \<Rightarrow> bool) \<Rightarrow> int \<Rightarrow> string \<Rightarrow> string \<Rightarrow> string \<Rightarrow> (unit, ShortLink table) handler" where
  "shortlink_redeem isSolanaAddress now code claimerUserId txHash =
     bindS (shortlink_resolve isSolanaAddress now code) (\<lambda>record.
     bindS (guardS (sl_status record = ''ACTIVE'')
       (BadRequest (''Short link code '' @ quoted code @ '' is no longer active (status: '' @ sl_status record @ '')''))) (\<lambda>_.
     if link_expired now record \<and> \<not> isNativeSolanaPaymentLink isSolanaAddress record
     then bindS (modifyS (update_row code (set_status ''EXPIRED'')))
            (\<lambda>_. throwS (BadRequest (''Short link code '' @ quoted code @ '' has expired'')))
     else modifyS (update_row code (\<lambda>r. r\<lparr>sl_status := ''CLAIMED'', sl_claimedAt := Some now,
            sl_claimedBy := Some claimerUserId, sl_claimTxHash := Some txHash\<rparr>))))"

definition shortlink_cancel :: "(string \<Rightarrow> bool) \<Rightarrow> int \<Rightarrow> string \<Rightarrow> string \<Rightarrow> (unit, ShortLink table) handler" where
  "shortlink_cancel isSolanaAddress now code senderUserId =
     bindS (shortlink_resolve isSolanaAddress now code) (\<lambda>record.
     bindS (guardS (or_null (sl_senderUserId record) = None \<or> sl_senderUserId record = Some senderUserId)
       (BadRequest ''Unauthorized to cancel this short link'')) (\<lambda>_.
     bindS (guardS (sl_status record = ''ACTIVE'')
       (BadRequest (''Cannot cancel short link with status '' @ quoted (sl_status record)))) (\<lambda>_.
     modifyS (update_row code (set_status ''CANCELLED'')))))"

text \<open>The sweep reads the expired rows once and updates them one by one.\<close>

definition shortlink_sweepExpired :: "(string \<Rightarrow> bool) \<Rightarrow> int \<Rightarrow> ShortLink table \<Rightarrow> ShortLink list \<times> ShortLink table" where
  "shortlink_sweepExpired isSolanaAddress now t =
     (let expired = filter (\<lambda>(c, r). sl_status r = ''ACTIVE'' \<and> link_expired now r) t;
          ours = filter (\<lambda>(c, r). \<not> isNativeSolanaPaymentLink isSolanaAddress r) expired
      in (map snd ours, fold (\<lambda>(c, r). update_row c (set_status ''EXPIRED'')) ours t))"

section \<open>Life of a row\<close>

datatype shortlink_op =
    OpCreate int string "string list" CreateShortLinkDto
  | OpResolve int string
  | OpRedeem int string string string
  | OpCancel int string string
  | OpSweep int

fun shortlink_step :: "(string \<Rightarrow> bool) \<Rightarrow> shortlink_op \<Rightarrow> ShortLink table \<Rightarrow> ShortLink table" where
  "shortlink_step sol (OpCreate now i codes dto) t = snd (shortlink_create now i codes dto t)"
| "shortlink_step sol (OpResolve now code) t = snd (shortlink_resolve sol now code t)"
| "shortlink_step sol (OpRedeem now code u tx) t = snd (shortlink_redeem sol now code u tx t)"
| "shortlink_step sol (OpCancel now code u) t = snd (shortlink_cancel sol now code u t)"
| "shortlink_step sol (OpSweep now) t = snd (shortlink_sweepExpired sol now t)"

text \<open>Two rows that differ in their click counter at most.\<close>

definition same_row :: "ShortLink \<Rightarrow> ShortLink \<Rightarrow> bool" where
  "same_row r r' \<longleftrightarrow> (\<exists>n. r' = r\<lparr>sl_clickCount := n\<rparr>)"

definition row_kept :: "string \<Rightarrow> ShortLink table \<Rightarrow> ShortLink table \<Rightarrow> bool" where
  "row_kept code t t' \<longleftrightarrow>
     (\<forall>r. findUnique t code = Some r \<longrightarrow> sl_status r \<noteq> ''ACTIVE'' \<longrightarrow>
        (\<exists>r'. findUnique t' code = Some r' \<and> same_row r r'))"

lemma same_row_trans: "same_row r r' \<Longrightarrow> same_row r' r'' \<Longrightarrow> same_row r r''"
  by (auto simp: same_row_def)

lemma same_row_status: "same_row r r' \<Longrightarrow> sl_status r' = sl_status r"
  by (auto simp: same_row_def)

lemma same_row_refl: "same_row r r"
  unfolding same_row_def by (rule exI [of _ "sl_clickCount r"]) simp

lemma same_row_click [simp]: "same_row r (r\<lparr>sl_clickCount := n\<rparr>)"
  by (auto simp: same_row_def)

lemma row_kept_trans:
  assumes "row_kept code t t'" and "row_kept code t' t''"
  shows "row_kept code t t''"
  unfolding row_kept_def
proof (intro allI impI)
  fix r assume "findUnique t code = Some r" and st: "sl_status r \<noteq> ''ACTIVE''"
  with assms(1) obtain r' where "findUnique t' code = Some r'" and s: "same_row r r'" unfolding row_kept_def by blast
  with assms(2) st same_row_status [OF s] obtain r'' where "findUnique t'' code = Some r''" "same_row r' r''"
    unfolding row_kept_def by auto
  with s show "\<exists>r''. findUnique t'' code = Some r'' \<and> same_row r r''" by (blast intro: same_row_trans)
qed

lemma create_row_kept: "row_kept code t (snd (shortlink_create now i codes dto t))"
  by (auto simp: row_kept_def shortlink_create_def findUnique_create same_row_refl split: option.splits)

lemma resolve_row_kept: "row_kept code t (snd (shortlink_resolve sol now c t))"
  by (auto simp: row_kept_def shortlink_resolve_def Let_def same_row_refl split: option.splits)

lemma resolve_status:
  assumes "shortlink_resolve sol now c t = (Inr r, t')"
  shows "\<exists>r'. findUnique t' c = Some r' \<and> sl_status r' = sl_status r"
  using assms by (auto simp: shortlink_resolve_def set_status_def Let_def split: option.splits if_splits)

lemma update_active_kept:
  "findUnique t c = Some r \<Longrightarrow> sl_status r = ''ACTIVE'' \<Longrightarrow> row_kept code t (update_row c f t)"
  by (auto simp: row_kept_def same_row_refl)

lemma row_kept_refl: "row_kept code t t"
  by (auto simp: row_kept_def same_row_refl)

lemma resolved_update_kept:
  assumes "shortlink_resolve sol now c t = (Inr r, t')" and "sl_status r = ''ACTIVE''"
  shows "row_kept code t (update_row c f t')" "row_kept code t t'"
proof -
  show k: "row_kept code t t'" using resolve_row_kept [of code t sol now c] assms(1) by simp
  from resolve_status [OF assms(1)] assms(2) obtain r' where "findUnique t' c = Some r'" "sl_status r' = ''ACTIVE''" by auto
  then show "row_kept code t (update_row c f t')" by (blast intro: row_kept_trans [OF k] update_active_kept)
qed

lemma redeem_row_kept: "row_kept code t (snd (shortlink_redeem sol now c u tx t))"
proof (cases "shortlink_resolve sol now c t")
  case (Pair a t')
  then show ?thesis
    using resolve_row_kept [of code t sol now c]
    by (cases a) (auto simp: shortlink_redeem_def snd_bindS_cases guardS_def modifyS_def throwS_def resolved_update_kept
        split: prod.splits sum.splits if_splits)
qed

lemma cancel_row_kept: "row_kept code t (snd (shortlink_cancel sol now c u t))"
proof (cases "shortlink_resolve sol now c t")
  case (Pair a t')
  then show ?thesis
    using resolve_row_kept [of code t sol now c]
    by (cases a) (auto simp: shortlink_cancel_def snd_bindS_cases guardS_def modifyS_def throwS_def resolved_update_kept
        split: prod.splits sum.splits if_splits)
qed

lemma sweep_row_kept: "keys_unique t \<Longrightarrow> row_kept code t (snd (shortlink_sweepExpired sol now t))"
proof -
  assume keys: "keys_unique t"
  have skip: "findUnique (fold (\<lambda>(c, r). update_row c (set_status ''EXPIRED'')) rows u) code = findUnique u code"
    if "code \<notin> fst ` set rows" for rows u
    using that by (induction rows arbitrary: u) (auto simp: case_prod_beta)
  have out: "code \<notin> fst ` set (filter (\<lambda>(c, r). \<not> isNativeSolanaPaymentLink sol r)
      (filter (\<lambda>(c, r). sl_status r = ''ACTIVE'' \<and> link_expired now r) t))"
    if "findUnique t code = Some r" "sl_status r \<noteq> ''ACTIVE''" for r
    using that keys by (auto simp: keys_unique_def findUnique_def dest!: map_of_SomeD dest: eq_key_imp_eq_value)
  have "findUnique (snd (shortlink_sweepExpired sol now t)) code = Some r"
    if "findUnique t code = Some r" "sl_status r \<noteq> ''ACTIVE''" for r
    unfolding shortlink_sweepExpired_def Let_def snd_conv skip [OF out [OF that]] by (rule that(1))
  then show ?thesis unfolding row_kept_def using same_row_refl by blast
qed

lemma update_row_keys_unique [simp]: "keys_unique (update_row k f t) = keys_unique t"
  by (simp add: keys_unique_def)

lemma free_code_free: "free_code n codes t = Some code \<Longrightarrow> findUnique t code = None"
  by (induction n codes t rule: free_code.induct) (auto split: if_splits)

lemma resolve_keys [simp]: "keys_unique (snd (shortlink_resolve sol now c t)) = keys_unique t"
  by (auto simp: shortlink_resolve_def Let_def split: option.split)

lemma redeem_keys: "keys_unique (snd (shortlink_redeem sol now c u tx t)) = keys_unique t"
  using resolve_keys [of sol now c t]
  by (cases "shortlink_resolve sol now c t")
     (auto simp: shortlink_redeem_def snd_bindS_cases guardS_def modifyS_def throwS_def split: prod.splits sum.splits)

lemma cancel_keys: "keys_unique (snd (shortlink_cancel sol now c u t)) = keys_unique t"
  using resolve_keys [of sol now c t]
  by (cases "shortlink_resolve sol now c t")
     (auto simp: shortlink_cancel_def snd_bindS_cases guardS_def modifyS_def throwS_def split: prod.splits sum.splits)

lemma sweep_keys: "keys_unique (snd (shortlink_sweepExpired sol now t)) = keys_unique t"
proof -
  have "keys_unique (fold (\<lambda>(c, r). update_row c (set_status ''EXPIRED'')) rows u) = keys_unique u" for rows u
    by (induction rows arbitrary: u) (auto simp: case_prod_beta)
  then show ?thesis by (simp add: shortlink_sweepExpired_def Let_def)
qed

lemma step_keys: "keys_unique t \<Longrightarrow> keys_unique (shortlink_step sol op t)"
  by (cases op)
     (auto simp: redeem_keys cancel_keys sweep_keys shortlink_create_def dest: free_code_free intro!: keys_create
        split: option.splits)

lemma step_row_kept: "keys_unique t \<Longrightarrow> row_kept code t (shortlink_step sol op t)"
  by (cases op) (auto simp: create_row_kept resolve_row_kept redeem_row_kept cancel_row_kept sweep_row_kept)

lemma run_row_kept: "keys_unique t \<Longrightarrow> row_kept code t (fold (shortlink_step sol) ops t)"
proof (induction ops arbitrary: t)
  case (Cons op ops)
  from row_kept_trans [OF step_row_kept [OF Cons.prems] Cons.IH [OF step_keys [OF Cons.prems]]] show ?case by simp
qed (simp add: row_kept_refl)

section \<open>Properties\<close>

text \<open>A short link that is claimed, cancelled, expired or failed stays as it is: no sequence of
  creations, lookups, redemptions, cancellations and sweeps, in any order and at any times, changes
  anything but the click counter of its row; in particular it is never claimed a second time and its
  code is never given to another link.\<close>

theorem settled_short_link_is_final:
  assumes "keys_unique t" and "findUnique t code = Some r" and "sl_status r \<noteq> ''ACTIVE''"
  shows "\<exists>n. findUnique (fold (shortlink_step sol) ops t) code = Some (r\<lparr>sl_clickCount := n\<rparr>)"
  using run_row_kept [OF assms(1), of code sol ops] assms(2,3) by (auto simp: row_kept_def same_row_def)

definition sample_link :: ShortLink where
  "sample_link = \<lparr>sl_id = ''i'', sl_kind = ''pay'', sl_senderUserId = Some ''u'', sl_targetUserId = None,
     sl_toAddress = None, sl_amount = Some 5, sl_token = Some ''USDC'', sl_fromUser = None, sl_platform = None,
     sl_envelopeId = None, sl_merkleProof = None, sl_status = ''CLAIMED'', sl_expiresAt = Some 100,
     sl_claimedAt = Some 5, sl_claimedBy = Some ''v'', sl_fundingTxHash = None, sl_claimTxHash = Some ''t'',
     sl_clickCount = 0, sl_src = None, sl_campaign = None, sl_partner = None, sl_channel = None, sl_refCode = None\<rparr>"

theorem settled_short_link_is_final_witness:
  "\<exists>n. findUnique (fold (shortlink_step (\<lambda>_. True)) [OpRedeem 7 ''c'' ''w'' ''t2'', OpSweep 200] [(''c'', sample_link)]) ''c''
     = Some (sample_link\<lparr>sl_clickCount := n\<rparr>)"
  by (rule settled_short_link_is_final) (simp_all add: keys_unique_def findUnique_def sample_link_def)

end
