(* ===== verification/SessionCrypto.thy ===== *)
theory SessionCrypto
  imports Bytes
begin

text \<open>
  \<open>backend/src/relayer/symmetric-crypto.ts\<close> and \<open>key-wrapping.ts\<close>: how a session private key is stored.
  It is encrypted under a data key, and the data key is wrapped by AWS KMS or, without KMS, by the
  master secret of the deployment. The record \<open>ciphers\<close> holds what the code calls: \<open>scryptSync\<close> and
  AES-256-GCM of Node and the two KMS commands; \<open>ciphers_ok\<close> states what they document. The random
  salt and initialisation vector are arguments.
\<close>

section \<open>Primitives\<close>

type_synonym enc_context = "(string \<times> string) list"

record ciphers =
  scrypt :: "string \<Rightarrow> bytes \<Rightarrow> bytes"
  gcm_encrypt :: "bytes \<Rightarrow> bytes \<Rightarrow> bytes \<Rightarrow> bytes \<times> bytes"
  gcm_decrypt :: "bytes \<Rightarrow> bytes \<Rightarrow> bytes \<Rightarrow> bytes \<Rightarrow> bytes option"
  kms_encrypt :: "string \<Rightarrow> enc_context \<Rightarrow> bytes \<Rightarrow> bytes option"
  kms_decrypt :: "string \<Rightarrow> enc_context \<Rightarrow> bytes \<Rightarrow> bytes option"

definition ciphers_ok :: "ciphers \<Rightarrow> bool" where
  "ciphers_ok C \<longleftrightarrow>
     (\<forall>k iv p. gcm_decrypt C k iv (snd (gcm_encrypt C k iv p)) (fst (gcm_encrypt C k iv p)) = Some p) \<and>
     (\<forall>k x p c. kms_encrypt C k x p = Some c \<longrightarrow> kms_decrypt C k x c = Some p) \<and>
     (\<forall>k x y p c. kms_encrypt C k x p = Some c \<longrightarrow> x \<noteq> y \<longrightarrow> kms_decrypt C k y c = None)"

text \<open>The secrets of the deployment; an unset one is the empty string.\<close>

record secrets =
  SESSION_KEY_KMS_KEY_ID :: string
  SESSION_KEY_MASTER_SECRET :: string

text \<open>\<open>String.split(':')\<close>, and \<open>Buffer.toString('utf8')\<close> on the encoding of a Latin-1 string; \<open>None\<close>
  where the result has a character outside the strings of the model.\<close>

fun split_on :: "char \<Rightarrow> string \<Rightarrow> string list" where
  "split_on c [] = [[]]"
| "split_on c (x # s) =
     (if x = c then [] # split_on c s
      else (case split_on c s of p # ps \<Rightarrow> (x # p) # ps | [] \<Rightarrow> [[x]]))"

fun utf8_read :: "bytes \<Rightarrow> string option" where
  "utf8_read [] = Some []"
| "utf8_read (b # bs) =
     (if unat b < 128 then map_option ((#) (char_of (unat b))) (utf8_read bs)
      else case bs of
        c # cs \<Rightarrow>
          if 194 \<le> unat b \<and> unat b < 196 \<and> 128 \<le> unat c \<and> unat c < 192
          then map_option ((#) (char_of ((unat b - 192) * 64 + (unat c - 128)))) (utf8_read cs)
          else None
      | [] \<Rightarrow> None)"

definition text_of :: "bytes \<Rightarrow> string js" where
  "text_of bs = (case utf8_read bs of Some s \<Rightarrow> Inr s | None \<Rightarrow> Inl (JsError ''text outside Latin-1''))"

section \<open>symmetric-crypto.ts\<close>

definition encryptSymmetric :: "ciphers \<Rightarrow> bytes \<Rightarrow> bytes \<Rightarrow> string \<Rightarrow> string \<Rightarrow> string" where
  "encryptSymmetric C salt iv plaintext secretKeyHex =
     (let key = scrypt C secretKeyHex salt;
          (ct, tag) = gcm_encrypt C key iv (utf8 plaintext)
      in ''v2:'' @ to_hex salt @ '':'' @ to_hex iv @ '':'' @ to_hex tag @ '':'' @ to_hex ct)"

text \<open>A blob with fewer than five parts leaves variables undefined, which \<open>Buffer.from\<close> refuses; more
  parts are ignored. \<open>final\<close> throws when the tag does not authenticate the data.\<close>

definition decryptSymmetric :: "ciphers \<Rightarrow> string \<Rightarrow> string \<Rightarrow> string js" where
  "decryptSymmetric C blob secretKeyHex =
     (let parts = split_on (CHR '':'') blob in
      if parts ! 0 = ''v2''
      then
        if length parts < 5 then Inl (JsError ''The first argument must be of type string'')
        else
          let key = scrypt C secretKeyHex (from_hex (parts ! 1)) in
          (case gcm_decrypt C key (from_hex (parts ! 2)) (from_hex (parts ! 3)) (from_hex (parts ! 4)) of
             None \<Rightarrow> Inl (JsError ''Unsupported state or unable to authenticate data'')
           | Some pt \<Rightarrow> text_of pt)
      else Inl (JsError ''Session key blob is malformed, unencrypted, or uses a retired format; refusing to use it''))"

section \<open>key-wrapping.ts\<close>

definition KMS_PREFIX :: string where "KMS_PREFIX = ''kms:v1:''"
definition LEGACY_PREFIX :: string where "LEGACY_PREFIX = ''v2:''"

definition kmsEnabled :: "secrets \<Rightarrow> bool" where
  "kmsEnabled E \<longleftrightarrow> SESSION_KEY_KMS_KEY_ID E \<noteq> []"

definition isLegacyWrapped :: "string \<Rightarrow> bool" where
  "isLegacyWrapped blob \<longleftrightarrow> startsWith blob LEGACY_PREFIX"

definition wrapDataKey :: "ciphers \<Rightarrow> secrets \<Rightarrow> bytes \<Rightarrow> bytes \<Rightarrow> string \<Rightarrow> enc_context \<Rightarrow> string js" where
  "wrapDataKey C E salt iv dataKey ctxt =
     (if \<not> kmsEnabled E
      then
        if SESSION_KEY_MASTER_SECRET E = []
        then Inl (JsError ''Neither SESSION_KEY_KMS_KEY_ID nor SESSION_KEY_MASTER_SECRET is set; refusing to store a session key unwrapped.'')
        else Inr (encryptSymmetric C salt iv dataKey (SESSION_KEY_MASTER_SECRET E))
      else
        case kms_encrypt C (SESSION_KEY_KMS_KEY_ID E) ctxt (utf8 dataKey) of
          None \<Rightarrow> Inl (JsError ''KMS returned no ciphertext for the session data key.'')
        | Some blob \<Rightarrow> Inr (KMS_PREFIX @ base64_encode blob))"

definition unwrapDataKey :: "ciphers \<Rightarrow> secrets \<Rightarrow> string \<Rightarrow> enc_context \<Rightarrow> string js" where
  "unwrapDataKey C E blob ctxt =
     (if startsWith blob KMS_PREFIX
      then
        (case kms_decrypt C (SESSION_KEY_KMS_KEY_ID E) ctxt (base64_decode (drop (length KMS_PREFIX) blob)) of
           None \<Rightarrow> Inl (JsError ''KMS returned no plaintext for the session data key.'')
         | Some pt \<Rightarrow> text_of pt)
      else if isLegacyWrapped blob
      then
        if SESSION_KEY_MASTER_SECRET E = []
        then Inl (JsError ''A session key is still wrapped by the local master secret, but SESSION_KEY_MASTER_SECRET is not set. Keep it configured until the KMS backfill has re-wrapped every row.'')
        else decryptSymmetric C blob (SESSION_KEY_MASTER_SECRET E)
      else Inl (JsError ''Unrecognised session data key format; refusing to guess.''))"

section \<open>wrapContext and decryptSessionKey of solana-relayer.service.ts\<close>

definition wrapContext :: "string option \<Rightarrow> enc_context" where
  "wrapContext keyHash =
     (case keyHash of
        Some k \<Rightarrow> if k = [] then [(''purpose'', ''session-key'')] else [(''purpose'', ''session-key''), (''keyHash'', k)]
      | None \<Rightarrow> [(''purpose'', ''session-key'')])"

definition decryptSessionKey :: "ciphers \<Rightarrow> secrets \<Rightarrow> string \<Rightarrow> string option \<Rightarrow> string option \<Rightarrow> string js" where
  "decryptSessionKey C E encryptedKey encryptedSymmetricKey keyHash =
     (case encryptedSymmetricKey of
        None \<Rightarrow> Inl (JsError ''Session key is missing its wrapped data key'')
      | Some w \<Rightarrow>
          if w = [] then Inl (JsError ''Session key is missing its wrapped data key'')
          else bindE (unwrapDataKey C E w (wrapContext keyHash)) (\<lambda>symmetricKey.
               decryptSymmetric C encryptedKey symmetricKey))"

section \<open>Round trips\<close>

lemma split_on_plain: "c \<notin> set s \<Longrightarrow> split_on c s = [s]"
  by (induction s) auto

lemma split_on_append: "c \<notin> set s \<Longrightarrow> split_on c (s @ c # t) = s # split_on c t"
  by (induction s) (auto split: list.splits)

lemma nibble_not_colon: "n < 16 \<Longrightarrow> nibble_char n \<noteq> CHR '':''"
  by (drule less_16_cases) (auto simp: nibble_char_def)

lemma to_hex_no_colon: "CHR '':'' \<notin> set (to_hex bs)"
proof -
  have "nibble_char (unat b div 16) \<noteq> CHR '':''" "nibble_char (unat b mod 16) \<noteq> CHR '':''" for b :: byte
    by (simp_all add: nibble_not_colon)
  then show ?thesis by (auto simp: to_hex_def) metis+
qed

lemma utf8_read_two:
  "194 \<le> unat b \<Longrightarrow> unat b < 196 \<Longrightarrow> 128 \<le> unat d \<Longrightarrow> unat d < 192 \<Longrightarrow>
     utf8_read (b # d # bs) = map_option ((#) (char_of ((unat b - 192) * 64 + (unat d - 128)))) (utf8_read bs)"
  by simp

lemma utf8_read_char: "utf8_read (utf8_char c @ bs) = map_option ((#) c) (utf8_read bs)"
proof (cases "of_char c < (128 :: nat)")
  case True
  then show ?thesis by (simp add: utf8_char_def Let_def unat_of_nat)
next
  case False
  let ?k = "of_char c :: nat"
  have k: "?k < 256" using of_char_mod_256 [of c, where ?'a = nat] mod_less_divisor [of 256 ?k] by simp
  have d: "?k div 64 < 4" using k by (intro less_mult_imp_div_less) simp
  have d2: "2 \<le> ?k div 64" using div_le_mono [of 128 ?k 64] False by simp
  have 1: "unat (word_of_nat (192 + ?k div 64) :: byte) = 192 + ?k div 64"
    and 2: "unat (word_of_nat (128 + ?k mod 64) :: byte) = 128 + ?k mod 64"
    using d mod_less_divisor [of 64 ?k] by (simp_all only: unat_of_nat) simp_all
  have 3: "(192 + ?k div 64 - 192) * 64 + (128 + ?k mod 64 - 128) = ?k" by simp
  have 4: "128 + ?k mod 64 < 192" by simp
  have "utf8_read (word_of_nat (192 + ?k div 64) # word_of_nat (128 + ?k mod 64) # bs) =
      map_option ((#) (char_of ?k)) (utf8_read bs)"
    using utf8_read_two [of "word_of_nat (192 + ?k div 64)" "word_of_nat (128 + ?k mod 64)" bs] d d2 4
    unfolding 1 2 3 by simp
  then show ?thesis using False by (simp add: utf8_char_def Let_def)
qed

lemma utf8_read_utf8: "utf8_read (utf8 s) = Some s"
  by (induction s) (simp_all add: utf8_def utf8_read_char [unfolded utf8_def])

lemma decrypt_encrypt:
  assumes "ciphers_ok C"
  shows "decryptSymmetric C (encryptSymmetric C salt iv pt k) k = Inr pt"
proof -
  obtain ct tag where g: "gcm_encrypt C (scrypt C k salt) iv (utf8 pt) = (ct, tag)" by (cases "gcm_encrypt C (scrypt C k salt) iv (utf8 pt)")
  have "split_on (CHR '':'') (encryptSymmetric C salt iv pt k) = [''v2'', to_hex salt, to_hex iv, to_hex tag, to_hex ct]"
    using split_on_append [of "CHR '':''" "''v2''"]
    by (simp add: encryptSymmetric_def g Let_def split_on_append to_hex_no_colon split_on_plain)
  moreover have "gcm_decrypt C (scrypt C k salt) iv tag ct = Some (utf8 pt)"
    using assms g unfolding ciphers_ok_def by (metis fst_conv snd_conv)
  ultimately show ?thesis by (simp add: decryptSymmetric_def Let_def text_of_def utf8_read_utf8)
qed

lemma base64_decode_encode: "base64_decode (base64_encode bs) = bs"
  using sextets_small [of _ bs] map_filter_b64 [of "sextets bs"]
  by (simp add: base64_encode_def base64_decode_def unsextets_sextets)

lemma legacy_blob:
  "isLegacyWrapped (encryptSymmetric C salt iv pt k)" "\<not> startsWith (encryptSymmetric C salt iv pt k) KMS_PREFIX"
  by (simp_all add: encryptSymmetric_def isLegacyWrapped_def startsWith_def LEGACY_PREFIX_def KMS_PREFIX_def Let_def
      split: prod.split)

lemma wrap_nonempty: "wrapDataKey C E salt iv k x = Inr w \<Longrightarrow> w \<noteq> []"
  by (auto simp: wrapDataKey_def encryptSymmetric_def KMS_PREFIX_def Let_def split: if_splits option.splits prod.splits)

lemma unwrap_wrap:
  assumes "ciphers_ok C" and "wrapDataKey C E salt iv k x = Inr w"
  shows "unwrapDataKey C E w x = Inr k"
proof (cases "kmsEnabled E")
  case True
  with assms(2) obtain c where c: "kms_encrypt C (SESSION_KEY_KMS_KEY_ID E) x (utf8 k) = Some c"
    and w: "w = KMS_PREFIX @ base64_encode c" by (auto simp: wrapDataKey_def split: option.splits)
  have "kms_decrypt C (SESSION_KEY_KMS_KEY_ID E) x c = Some (utf8 k)"
    using assms(1) c by (simp add: ciphers_ok_def)
  then show ?thesis
    by (simp add: w unwrapDataKey_def startsWith_def base64_decode_encode text_of_def utf8_read_utf8)
next
  case False
  with assms(2) have w: "w = encryptSymmetric C salt iv k (SESSION_KEY_MASTER_SECRET E)" and "SESSION_KEY_MASTER_SECRET E \<noteq> []"
    by (auto simp: wrapDataKey_def split: if_splits)
  then show ?thesis by (simp add: unwrapDataKey_def legacy_blob decrypt_encrypt [OF assms(1)])
qed

lemma wrapContext_inj: "wrapContext (Some a) = wrapContext (Some b) \<longleftrightarrow> a = b"
  by (simp add: wrapContext_def)

section \<open>Properties\<close>

text \<open>A stored session key is recovered exactly, and only for its own row: what
  \<open>provisionSessionKey\<close> stores under the hash of a key is decrypted by \<open>decryptSessionKey\<close> to the key
  that was encrypted, with KMS or with the master secret; and with KMS, the wrapped data key of one
  row is refused when it is presented under the hash of another.\<close>

theorem session_key_storage_round_trip:
  assumes "ciphers_ok C" and "wrapDataKey C E salt1 iv1 dataKey (wrapContext (Some keyHash)) = Inr w"
  shows "decryptSessionKey C E (encryptSymmetric C salt2 iv2 secret dataKey) (Some w) (Some other) =
           (if other = keyHash \<or> \<not> kmsEnabled E then Inr secret
            else Inl (JsError ''KMS returned no plaintext for the session data key.''))"
proof (cases "kmsEnabled E \<and> other \<noteq> keyHash")
  case True
  with assms(2) obtain c where c: "kms_encrypt C (SESSION_KEY_KMS_KEY_ID E) (wrapContext (Some keyHash)) (utf8 dataKey) = Some c"
    and w: "w = KMS_PREFIX @ base64_encode c" by (auto simp: wrapDataKey_def split: option.splits)
  have "kms_decrypt C (SESSION_KEY_KMS_KEY_ID E) (wrapContext (Some other)) c = None"
    using assms(1) c True wrapContext_inj [of keyHash other] unfolding ciphers_ok_def by metis
  with True wrap_nonempty [OF assms(2)] show ?thesis
    by (simp add: decryptSessionKey_def unwrapDataKey_def w startsWith_def base64_decode_encode)
next
  case False
  have "unwrapDataKey C E w (wrapContext (Some other)) = Inr dataKey"
  proof (cases "kmsEnabled E")
    case True
    with False unwrap_wrap [OF assms] show ?thesis by simp
  next
    case no_kms: False
    with assms(2) have "wrapDataKey C E salt1 iv1 dataKey (wrapContext (Some other)) = Inr w" by (simp add: wrapDataKey_def)
    then show ?thesis by (rule unwrap_wrap [OF assms(1)])
  qed
  with False wrap_nonempty [OF assms(2)] show ?thesis
    by (auto simp: decryptSessionKey_def decrypt_encrypt [OF assms(1)])
qed

text \<open>A concrete instance that wraps under one context only.\<close>

definition sample_context :: enc_context where
  "sample_context = [(''purpose'', ''session-key''), (''keyHash'', ''a'')]"

definition sample_ciphers :: ciphers where
  "sample_ciphers =
     \<lparr>scrypt = (\<lambda>s salt. salt), gcm_encrypt = (\<lambda>k iv p. (p, k)), gcm_decrypt = (\<lambda>k iv tag c. if tag = k then Some c else None),
      kms_encrypt = (\<lambda>k x p. if x = sample_context then Some p else None),
      kms_decrypt = (\<lambda>k x c. if x = sample_context then Some c else None)\<rparr>"

lemma sample_ciphers_ok: "ciphers_ok sample_ciphers"
  by (auto simp: ciphers_ok_def sample_ciphers_def)

theorem session_key_storage_round_trip_witness:
  "\<exists>w. wrapDataKey sample_ciphers \<lparr>SESSION_KEY_KMS_KEY_ID = ''k'', SESSION_KEY_MASTER_SECRET = []\<rparr> [] [] ''d''
         (wrapContext (Some ''a'')) = Inr w \<and>
     decryptSessionKey sample_ciphers \<lparr>SESSION_KEY_KMS_KEY_ID = ''k'', SESSION_KEY_MASTER_SECRET = []\<rparr>
       (encryptSymmetric sample_ciphers [] [] ''secret'' ''d'') (Some w) (Some ''b'') =
         Inl (JsError ''KMS returned no plaintext for the session data key.'')"
proof -
  let ?E = "\<lparr>SESSION_KEY_KMS_KEY_ID = ''k'', SESSION_KEY_MASTER_SECRET = []\<rparr>"
  obtain w where w: "wrapDataKey sample_ciphers ?E [] [] ''d'' (wrapContext (Some ''a'')) = Inr w"
    by (simp add: wrapDataKey_def kmsEnabled_def wrapContext_def sample_ciphers_def sample_context_def)
  from session_key_storage_round_trip [OF sample_ciphers_ok w, of "[]" "[]" "''secret''" "''b''"] w show ?thesis
    by (simp add: kmsEnabled_def)
qed

end
