(* ===== verification/SolanaRelayer.thy ===== *)
theory SolanaRelayer
  imports SolanaChain ShortLinks SessionCrypto HotState
begin

text \<open>
  \<open>backend/src/relayer/solana-relayer.service.ts\<close>: the service that spends with session keys and
  settles payment links on the chain. Its state is the database, the cache and the ledger; a handler
  runs at one time \<open>now\<close> (milliseconds) and the chain answers as \<open>net\<close> says. The decoding of a session
  secret into its key pair (\<open>feePayerFromSecret\<close>) is given, \<open>None\<close> where it throws.
\<close>

section \<open>State\<close>

record SessionKey =
  ssk_id :: string
  ssk_userId :: string
  ssk_encryptedKey :: string
  ssk_encryptedSymmetricKey :: "string option"
  ssk_credentialId :: string
  ssk_dailyLimitUSD :: rat
  ssk_perTxLimitUSD :: rat
  ssk_expiryAt :: int
  ssk_revokedAt :: "int option"
  ssk_activatedAt :: "int option"
  ssk_createdAt :: int

record SpendingRecord =
  spr_sessionKeyId :: string
  spr_amountUSD :: rat
  spr_txHash :: string
  spr_timestamp :: int

record SmartWallet =
  wal_address :: string
  wal_publicKeyX :: string
  wal_publicKeyY :: string
  wal_salt :: string
  wal_isDeployed :: bool
  wal_derivationVersion :: "string option"

record relayer_user =
  ru_username :: "string option"
  ru_telegramId :: "string option"
  ru_whatsappId :: "string option"
  ru_discordId :: "string option"
  ru_slackId :: "string option"
  ru_requireBiometricsAlways :: bool
  ru_smartWallet :: "SmartWallet option"

record PasskeyCredential =
  pc_id :: string
  pc_userId :: string
  pc_revokedAt :: "int option"
  pc_lastUsedAt :: "int option"

record AuditEvent =
  ae_userId :: string
  ae_action :: string
  ae_status :: string
  ae_txHash :: "string option"

record 'pk relayer_state =
  rs_ledger :: "'pk ledger"
  rs_users :: "relayer_user table"
  rs_sessionKeys :: "SessionKey table"
  rs_spending :: "SpendingRecord list"
  rs_credentials :: "PasskeyCredential table"
  rs_shortLinks :: "ShortLink table"
  rs_audit :: "AuditEvent list"
  rs_redis :: redis

record 'pk relayer_env =
  re_chain :: "'pk chain"
  re_keypair :: "string \<Rightarrow> 'pk option"
  re_ciphers :: ciphers
  re_secrets :: secrets
  re_spendingStored :: "string \<Rightarrow> bool"

type_synonym ('a, 'pk) relayer_handler = "('a, 'pk relayer_state) handler"

text \<open>The tables of keys are keyed by \<open>keyHash\<close> and \<open>lookupHash\<close>; \<open>update({ where })\<close> throws when no row
  matches.\<close>

definition on_ledger :: "('a, 'pk ledger) handler \<Rightarrow> ('a, 'pk) relayer_handler" where
  "on_ledger = zoomS rs_ledger rs_ledger_update"

definition on_links :: "('a, ShortLink table) handler \<Rightarrow> ('a, 'pk) relayer_handler" where
  "on_links = zoomS rs_shortLinks rs_shortLinks_update"

definition update_link :: "string \<Rightarrow> (ShortLink \<Rightarrow> ShortLink) \<Rightarrow> (unit, 'pk) relayer_handler" where
  "update_link code f =
     bindS (getS (\<lambda>s. findUnique (rs_shortLinks s) code \<noteq> None)) (\<lambda>found.
     bindS (guardS found (InternalError ''Record to update not found'')) (\<lambda>_.
     modifyS (rs_shortLinks_update (update_row code f))))"

definition logAuditEvent :: "string \<Rightarrow> string \<Rightarrow> string \<Rightarrow> string option \<Rightarrow> (unit, 'pk) relayer_handler" where
  "logAuditEvent userId action status txHash =
     modifyS (rs_audit_update (\<lambda>l. l @ [\<lparr>ae_userId = userId, ae_action = action, ae_status = status, ae_txHash = or_null txHash\<rparr>]))"

definition unix_seconds :: "int \<Rightarrow> int" where "unix_seconds ms = ms div 1000"

section \<open>Session keys\<close>

text \<open>The fresh values of a provisioning: the new key pair as its public key and its encoded secret, the
  data key, two salts and vectors, the identifier of the row.\<close>

record 'pk fresh_session =
  fs_key :: 'pk
  fs_secret :: string
  fs_dataKey :: string
  fs_salt :: bytes
  fs_iv :: bytes
  fs_wrapSalt :: bytes
  fs_wrapIv :: bytes
  fs_rowId :: string

definition js_to_http :: "'a js \<Rightarrow> 'a http" where
  "js_to_http r = (case r of Inr x \<Rightarrow> Inr x | Inl _ \<Rightarrow> Inl (InternalError ''Error''))"

definition provisionSessionKey ::
    "'pk relayer_env \<Rightarrow> int \<Rightarrow> 'pk fresh_session \<Rightarrow> string \<Rightarrow> int \<Rightarrow> rat \<Rightarrow> rat \<Rightarrow> (string \<times> string, 'pk) relayer_handler" where
  "provisionSessionKey R now fr userId durationSeconds perTxLimitUSD dailyLimitUSD =
     (let sessionPublicKey = ch_print (re_chain R) (fs_key fr);
          expiryAt = now + durationSeconds * 1000;
          encryptedKey = encryptSymmetric (re_ciphers R) (fs_salt fr) (fs_iv fr) (fs_secret fr) (fs_dataKey fr)
      in
      bindS (liftS (js_to_http (wrapDataKey (re_ciphers R) (re_secrets R) (fs_wrapSalt fr) (fs_wrapIv fr) (fs_dataKey fr)
               (wrapContext (Some sessionPublicKey))))) (\<lambda>encryptedSymmetricKey.
      bindS (getS (\<lambda>s. findUnique (rs_sessionKeys s) sessionPublicKey = None)) (\<lambda>free.
      bindS (guardS free (InternalError ''Unique constraint failed'')) (\<lambda>_.
      bindS (modifyS (rs_sessionKeys_update (create_row sessionPublicKey
        \<lparr>ssk_id = fs_rowId fr, ssk_userId = userId, ssk_encryptedKey = encryptedKey,
         ssk_encryptedSymmetricKey = Some encryptedSymmetricKey, ssk_credentialId = ''solana:'' @ sessionPublicKey,
         ssk_dailyLimitUSD = dailyLimitUSD, ssk_perTxLimitUSD = perTxLimitUSD, ssk_expiryAt = expiryAt,
         ssk_revokedAt = None, ssk_activatedAt = None, ssk_createdAt = now\<rparr>))) (\<lambda>_.
      bindS (modifyS (rs_redis_update (setSessionKey now
        \<lparr>sk_id = fs_rowId fr, sk_userId = userId, sk_keyHash = sessionPublicKey, sk_encryptedKey = encryptedKey,
         sk_encryptedSymmetricKey = Some encryptedSymmetricKey, sk_perTxLimitUSD = perTxLimitUSD,
         sk_dailyLimitUSD = dailyLimitUSD, sk_expiryAt = expiryAt, sk_revokedAt = None\<rparr>))) (\<lambda>_.
      bindS (logAuditEvent userId ''SESSION_KEY_CREATED'' ''SUCCESS'' None) (\<lambda>_.
      returnS (fs_rowId fr, sessionPublicKey))))))))"

definition relayer_revokeSessionKey :: "int \<Rightarrow> string \<Rightarrow> string \<Rightarrow> (unit, 'pk) relayer_handler" where
  "relayer_revokeSessionKey now userId sessionKeyHash =
     bindS (getS (\<lambda>s. findUnique (rs_sessionKeys s) sessionKeyHash)) (\<lambda>session.
     case session of
       None \<Rightarrow> throwS (BadRequest ''Session key not found or unauthorized'')
     | Some row \<Rightarrow>
         bindS (guardS (ssk_userId row = userId) (BadRequest ''Session key not found or unauthorized'')) (\<lambda>_.
         bindS (modifyS (rs_sessionKeys_update (update_row sessionKeyHash (\<lambda>r. r\<lparr>ssk_revokedAt := Some now\<rparr>)))) (\<lambda>_.
         bindS (modifyS (rs_redis_update (revokeSessionKey sessionKeyHash))) (\<lambda>_.
         logAuditEvent userId ''SESSION_KEY_REVOKED'' ''SUCCESS'' None))))"

definition session_usable :: "int \<Rightarrow> string \<Rightarrow> SessionKey option \<Rightarrow> bool" where
  "session_usable now userId row =
     (case row of
        None \<Rightarrow> False
      | Some r \<Rightarrow> ssk_userId r = userId \<and> ssk_revokedAt r = None \<and> ssk_activatedAt r \<noteq> None \<and> now < ssk_expiryAt r)"

definition requireActiveSession :: "'pk relayer_env \<Rightarrow> int \<Rightarrow> string \<Rightarrow> 'pk \<Rightarrow> (SessionKey, 'pk) relayer_handler" where
  "requireActiveSession R now userId sessionKey =
     bindS (getS (\<lambda>s. findUnique (rs_sessionKeys s) (ch_print (re_chain R) sessionKey))) (\<lambda>row.
     bindS (guardS (session_usable now userId row) (Forbidden ''Session key is expired, revoked, or inactive'')) (\<lambda>_.
     returnS (the row)))"

definition spent_since :: "int \<Rightarrow> string \<Rightarrow> SpendingRecord list \<Rightarrow> rat" where
  "spent_since from sessionKeyId rs =
     sum_list (map spr_amountUSD (filter (\<lambda>r. spr_sessionKeyId r = sessionKeyId \<and> from \<le> spr_timestamp r) rs))"

fun jplus :: "rat \<Rightarrow> js_number \<Rightarrow> js_number" where
  "jplus a (JNum b) = JNum (a + b)"
| "jplus a x = x"

definition DAY_MS :: int where "DAY_MS = 24 * 60 * 60 * 1000"

definition assertAvailableDailyLimit :: "int \<Rightarrow> SessionKey \<Rightarrow> js_number \<Rightarrow> (unit, 'pk) relayer_handler" where
  "assertAvailableDailyLimit now row amountUSD =
     bindS (guardS (\<not> jlt (JNum (ssk_perTxLimitUSD row)) amountUSD)
       (Forbidden ''Transaction exceeds the session per-payment limit'')) (\<lambda>_.
     bindS (getS (\<lambda>s. spent_since (now - DAY_MS) (ssk_id row) (rs_spending s))) (\<lambda>recent.
     guardS (\<not> jlt (JNum (ssk_dailyLimitUSD row)) (jplus recent amountUSD))
       (Forbidden ''Transaction exceeds the session daily limit'')))"

definition session_keypair :: "'pk relayer_env \<Rightarrow> string \<Rightarrow> ('pk, 'pk) relayer_handler" where
  "session_keypair R secret =
     liftS (case re_keypair R secret of Some k \<Rightarrow> Inr k | None \<Rightarrow> Inl (InternalError ''Fee-payer keypair''))"

text \<open>\<open>if (!session || session.state.revoked) throw\<close>.\<close>

definition active_grant :: "'pk relayer_env \<Rightarrow> string \<Rightarrow> 'pk \<Rightarrow> ('pk Session, 'pk) relayer_handler" where
  "active_grant R vaultAddress sessionKey =
     bindS (on_ledger (\<lambda>lg. (readSession (re_chain R) vaultAddress (ch_print (re_chain R) sessionKey) lg, lg))) (\<lambda>session.
     bindS (guardS (case session of None \<Rightarrow> False | Some se \<Rightarrow> \<not> se_revoked se)
       (Forbidden ''Session grant is not active on Solana'')) (\<lambda>_. returnS (the session)))"

definition sufficient_balance :: "'pk relayer_env \<Rightarrow> string \<Rightarrow> int \<Rightarrow> (unit, 'pk) relayer_handler" where
  "sufficient_balance R vaultAddress amount =
     bindS (on_ledger (\<lambda>lg. (getVaultUsdcBalance (re_chain R) vaultAddress lg, lg))) (\<lambda>balance.
     guardS (amount \<le> int balance) (BadRequest ''Insufficient USDC balance''))"

text \<open>\<open>spendingRecord.create\<close> can fail, after the transaction it records: \<open>re_spendingStored\<close> is its answer for the
  signature of the transaction.\<close>

definition record_spending :: "'pk relayer_env \<Rightarrow> int \<Rightarrow> string \<Rightarrow> js_number \<Rightarrow> string \<Rightarrow> (unit, 'pk) relayer_handler" where
  "record_spending R now sessionKeyId amountUSD txHash =
     bindS (guardS (re_spendingStored R txHash) (InternalError ''PrismaClientKnownRequestError'')) (\<lambda>_.
     modifyS (rs_spending_update (\<lambda>l. l @
       [\<lparr>spr_sessionKeyId = sessionKeyId, spr_amountUSD = (case amountUSD of JNum x \<Rightarrow> x | _ \<Rightarrow> 0),
         spr_txHash = txHash, spr_timestamp = now\<rparr>])))"

definition biometric_check :: "int \<Rightarrow> string \<Rightarrow> bool \<Rightarrow> (unit, 'pk) relayer_handler" where
  "biometric_check now userId skipBiometricCheck =
     (if skipBiometricCheck then returnS ()
      else
        bindS (getS (\<lambda>s. case findUnique (rs_users s) userId of Some u \<Rightarrow> ru_requireBiometricsAlways u | None \<Rightarrow> False)) (\<lambda>always.
        if \<not> always then returnS ()
        else
          bindS (getS (\<lambda>s. \<exists>(k, c) \<in> set (rs_credentials s). pc_userId c = userId \<and> pc_revokedAt c = None \<and>
                   (case pc_lastUsedAt c of Some t \<Rightarrow> now - 120000 \<le> t | None \<Rightarrow> False))) (\<lambda>recent.
          guardS recent (Forbidden ''Biometric authentication required''))))"

definition executeSessionTransfer ::
    "'pk relayer_env \<Rightarrow> int \<Rightarrow> net_answer \<Rightarrow> string \<Rightarrow> string \<Rightarrow> string \<Rightarrow> string \<Rightarrow> js_number \<Rightarrow> bool \<Rightarrow> (string, 'pk) relayer_handler" where
  "executeSessionTransfer R now net userId vaultAddress recipientAddress secret txAmountUSD skipBiometricCheck =
     bindS (biometric_check now userId skipBiometricCheck) (\<lambda>_.
     bindS (session_keypair R secret) (\<lambda>sessionKey.
     bindS (requireActiveSession R now userId sessionKey) (\<lambda>row.
     bindS (assertAvailableDailyLimit now row txAmountUSD) (\<lambda>_.
     bindS (active_grant R vaultAddress sessionKey) (\<lambda>session.
     bindS (liftS (usdToAtomic txAmountUSD)) (\<lambda>amount.
     bindS (sufficient_balance R vaultAddress amount) (\<lambda>_.
     bindS (on_ledger (transferWithSession (re_chain R) (unix_seconds now) net vaultAddress recipientAddress sessionKey
              (nat amount) (se_nonce session))) (\<lambda>confirmed.
     bindS (record_spending R now (ssk_id row) txAmountUSD (cf_signature confirmed)) (\<lambda>_.
     bindS (logAuditEvent userId ''PAYMENT_RELAYED'' ''SUCCESS'' (Some (cf_signature confirmed))) (\<lambda>_.
     returnS (cf_signature confirmed)))))))))))"

section \<open>Payment links\<close>

definition relayer_createPaymentLinkWithSession ::
    "'pk relayer_env \<Rightarrow> int \<Rightarrow> net_answer \<Rightarrow> string \<Rightarrow> string \<Rightarrow> string \<Rightarrow> js_number \<Rightarrow> bytes \<Rightarrow> bytes \<Rightarrow> int
     \<Rightarrow> (string \<times> string, 'pk) relayer_handler" where
  "relayer_createPaymentLinkWithSession R now net userId vaultAddress secret amountUSD linkId recipientCommitment expiresAtUnix =
     bindS (session_keypair R secret) (\<lambda>sessionKey.
     bindS (requireActiveSession R now userId sessionKey) (\<lambda>row.
     bindS (assertAvailableDailyLimit now row amountUSD) (\<lambda>_.
     bindS (active_grant R vaultAddress sessionKey) (\<lambda>session.
     bindS (liftS (usdToAtomic amountUSD)) (\<lambda>amount.
     bindS (sufficient_balance R vaultAddress amount) (\<lambda>_.
     bindS (on_ledger (chain_createPaymentLinkWithSession (re_chain R) (unix_seconds now) net vaultAddress sessionKey
              \<lparr>la_link_id = linkId, la_recipient_commitment = recipientCommitment, la_amount = nat amount,
               la_expires_at = expiresAtUnix\<rparr> (se_nonce session))) (\<lambda>(confirmed, paymentLink).
     bindS (record_spending R now (ssk_id row) amountUSD (cf_signature confirmed)) (\<lambda>_.
     returnS (cf_signature confirmed, paymentLink)))))))))"

definition relayer_readPaymentLink :: "'pk relayer_env \<Rightarrow> string \<Rightarrow> ('pk PaymentLink option, 'pk) relayer_handler" where
  "relayer_readPaymentLink R paymentLinkAddress =
     on_ledger (\<lambda>lg. (readPaymentLink (re_chain R) paymentLinkAddress lg, lg))"

definition relayer_claimPaymentLink :: "'pk relayer_env \<Rightarrow> int \<Rightarrow> net_answer \<Rightarrow> string \<Rightarrow> string \<Rightarrow> (string, 'pk) relayer_handler" where
  "relayer_claimPaymentLink R now net paymentLinkAddress recipientVaultAddress =
     bindS (relayer_readPaymentLink R paymentLinkAddress) (\<lambda>state.
     case state of
       None \<Rightarrow> throwS (BadRequest ''Payment link does not exist on Solana'')
     | Some pl \<Rightarrow>
         bindS (on_ledger
           (if ln_mint pl = SystemProgram_programId (ch_sdk (re_chain R))
            then chain_claimSolPaymentLink (re_chain R) (unix_seconds now) net paymentLinkAddress recipientVaultAddress
            else chain_claimPaymentLink (re_chain R) (unix_seconds now) net paymentLinkAddress recipientVaultAddress)) (\<lambda>c.
         returnS (cf_signature c)))"

definition relayer_cancelPaymentLinkWithSession ::
    "'pk relayer_env \<Rightarrow> int \<Rightarrow> net_answer \<Rightarrow> string \<Rightarrow> string \<Rightarrow> string \<Rightarrow> string \<Rightarrow> (string, 'pk) relayer_handler" where
  "relayer_cancelPaymentLinkWithSession R now net userId vaultAddress paymentLinkAddress secret =
     bindS (session_keypair R secret) (\<lambda>sessionKey.
     bindS (requireActiveSession R now userId sessionKey) (\<lambda>_.
     bindS (active_grant R vaultAddress sessionKey) (\<lambda>session.
     bindS (on_ledger (chain_cancelPaymentLinkWithSession (re_chain R) (unix_seconds now) net vaultAddress
              paymentLinkAddress sessionKey (se_nonce session))) (\<lambda>c.
     returnS (cf_signature c)))))"

definition relayer_refundExpiredPaymentLink ::
    "'pk relayer_env \<Rightarrow> int \<Rightarrow> net_answer \<Rightarrow> string \<Rightarrow> string \<Rightarrow> (string, 'pk) relayer_handler" where
  "relayer_refundExpiredPaymentLink R now net senderVaultAddress paymentLinkAddress =
     bindS (relayer_readPaymentLink R paymentLinkAddress) (\<lambda>state.
     case state of
       None \<Rightarrow> throwS (BadRequest ''Payment link does not exist on Solana'')
     | Some pl \<Rightarrow>
         bindS (on_ledger
           (if ln_mint pl = SystemProgram_programId (ch_sdk (re_chain R))
            then chain_refundExpiredSolPaymentLink (re_chain R) (unix_seconds now) net senderVaultAddress paymentLinkAddress
            else chain_refundExpiredPaymentLink (re_chain R) (unix_seconds now) net senderVaultAddress paymentLinkAddress)) (\<lambda>c.
         returnS (cf_signature c)))"

definition createPendingSolPaymentLink ::
    "string \<Rightarrow> string list \<Rightarrow> string \<Rightarrow> string \<Rightarrow> string \<Rightarrow> rat \<Rightarrow> string \<Rightarrow> int \<Rightarrow> (string, 'pk) relayer_handler" where
  "createPendingSolPaymentLink rowId codes userId recipientHandle platform amount fromUser expiresAt =
     bindS (getS (\<lambda>s. free_code 5 codes (rs_shortLinks s))) (\<lambda>found.
     case found of
       None \<Rightarrow> throwS (BadRequest ''Could not allocate a unique payment-link code'')
     | Some code \<Rightarrow>
         bindS (modifyS (rs_shortLinks_update (create_row code
           \<lparr>sl_id = rowId, sl_kind = ''pay'', sl_senderUserId = Some userId, sl_targetUserId = Some recipientHandle,
            sl_toAddress = None, sl_amount = Some amount, sl_token = Some ''SOL'', sl_fromUser = Some fromUser,
            sl_platform = Some platform, sl_envelopeId = None, sl_merkleProof = None, sl_status = ''PENDING'',
            sl_expiresAt = Some expiresAt, sl_claimedAt = None, sl_claimedBy = None, sl_fundingTxHash = None,
            sl_claimTxHash = None, sl_clickCount = 0, sl_src = Some platform, sl_campaign = Some ''pay'',
            sl_partner = None, sl_channel = None, sl_refCode = None\<rparr>))) (\<lambda>_. returnS code))"

definition activateSolPaymentLink :: "string \<Rightarrow> string \<Rightarrow> string \<Rightarrow> (unit, 'pk) relayer_handler" where
  "activateSolPaymentLink code paymentLinkAddress fundingTxHash =
     update_link code (\<lambda>r. r\<lparr>sl_envelopeId := Some paymentLinkAddress, sl_fundingTxHash := Some fundingTxHash, sl_status := ''ACTIVE''\<rparr>)"

definition findOwnedSolPaymentLink :: "string \<Rightarrow> string \<Rightarrow> (ShortLink, 'pk) relayer_handler" where
  "findOwnedSolPaymentLink code userId =
     bindS (getS (\<lambda>s. findUnique (rs_shortLinks s) code)) (\<lambda>link.
     bindS (guardS (case link of None \<Rightarrow> False | Some l \<Rightarrow> sl_senderUserId l = Some userId)
       (Forbidden ''Only the sender can cancel this payment'')) (\<lambda>_.
     bindS (guardS (sl_token (the link) = Some ''SOL'' \<and> sl_status (the link) = ''ACTIVE'' \<and> or_null (sl_envelopeId (the link)) \<noteq> None)
       (BadRequest ''This SOL payment link is not cancellable'')) (\<lambda>_.
     returnS (the link))))"

definition markSolPaymentLinkCancelled :: "string \<Rightarrow> string \<Rightarrow> (unit, 'pk) relayer_handler" where
  "markSolPaymentLinkCancelled code transactionHash =
     update_link code (\<lambda>r. r\<lparr>sl_status := ''CANCELLED'', sl_claimTxHash := Some transactionHash\<rparr>)"

definition failPendingSolPaymentLink :: "string \<Rightarrow> (unit, 'pk) relayer_handler" where
  "failPendingSolPaymentLink code =
     modifyS (rs_shortLinks_update (\<lambda>t. snd (updateMany code
       (\<lambda>r. sl_status r = ''PENDING'' \<and> sl_fundingTxHash r = None) (set_status ''FAILED'') t)))"

text \<open>Two entry points that the services of the EVM edition still call.\<close>

definition executeLocalSessionAction :: "(string, 'pk) relayer_handler" where
  "executeLocalSessionAction = throwS (BadRequest ''This feature has not yet been routed to its native Solana instruction.'')"

definition executeOwnerTransfer :: "(string, 'pk) relayer_handler" where
  "executeOwnerTransfer = throwS (BadRequest ''Use the passkey-prepared Solana transfer route'')"

definition mark_deployed :: "string \<Rightarrow> relayer_user \<Rightarrow> relayer_user" where
  "mark_deployed address u =
     (case ru_smartWallet u of
        Some w \<Rightarrow> if wal_address w = address \<and> \<not> wal_isDeployed w
                  then u\<lparr>ru_smartWallet := Some (w\<lparr>wal_isDeployed := True, wal_derivationVersion := Some ''SOLANA_PDA_V1''\<rparr>)\<rparr>
                  else u
      | None \<Rightarrow> u)"

definition ensureVaultDeployed :: "'pk relayer_env \<Rightarrow> string \<Rightarrow> (string, 'pk) relayer_handler" where
  "ensureVaultDeployed R vaultAddress =
     bindS (on_ledger (\<lambda>lg. (readVault (re_chain R) vaultAddress lg, lg))) (\<lambda>vault.
     bindS (guardS (vault \<noteq> None) (BadRequest ''The Solana vault must be authorized with your passkey first'')) (\<lambda>_.
     bindS (modifyS (rs_users_update (map (\<lambda>(i, u). (i, mark_deployed vaultAddress u))))) (\<lambda>_.
     returnS vaultAddress)))"

definition checkRelayerBalance :: "'pk relayer_env \<Rightarrow> nat \<Rightarrow> 'pk relayer_state \<Rightarrow> string \<times> string \<times> bool" where
  "checkRelayerBalance R minimum s =
     (let lamports = lg_lamports (rs_ledger s) (ch_feePayer (re_chain R)) in
      (ch_print (re_chain R) (ch_feePayer (re_chain R)), formatLamports lamports, lamports < minimum))"

section \<open>When the handlers succeed\<close>

lemma on_ledger_Inr [handler_simps]:
  "on_ledger m s = (Inr y, s') \<longleftrightarrow> (\<exists>lg. m (rs_ledger s) = (Inr y, lg) \<and> s' = s\<lparr>rs_ledger := lg\<rparr>)"
  by (auto simp: on_ledger_def zoomS_Inr)

lemma on_links_Inr [handler_simps]:
  "on_links m s = (Inr y, s') \<longleftrightarrow> (\<exists>t. m (rs_shortLinks s) = (Inr y, t) \<and> s' = s\<lparr>rs_shortLinks := t\<rparr>)"
  by (auto simp: on_links_def zoomS_Inr)

lemma biometric_check_Inr [handler_simps]: "biometric_check now u skip s = (Inr y, s') \<Longrightarrow> s' = s"
  by (auto simp: biometric_check_def handler_simps split: if_splits)

lemma session_keypair_Inr [handler_simps]: "session_keypair R secret s = (Inr k, s') \<longleftrightarrow> re_keypair R secret = Some k \<and> s' = s"
  by (auto simp: session_keypair_def handler_simps split: option.splits)

lemma requireActiveSession_Inr [handler_simps]:
  "requireActiveSession R now u k s = (Inr row, s') \<longleftrightarrow>
     s' = s \<and> findUnique (rs_sessionKeys s) (ch_print (re_chain R) k) = Some row \<and> session_usable now u (Some row)"
  by (auto simp: requireActiveSession_def handler_simps session_usable_def split: option.splits)

lemma assertAvailableDailyLimit_Inr [handler_simps]:
  "assertAvailableDailyLimit now row x s = (Inr y, s') \<longleftrightarrow>
     s' = s \<and> \<not> jlt (JNum (ssk_perTxLimitUSD row)) x \<and>
     \<not> jlt (JNum (ssk_dailyLimitUSD row)) (jplus (spent_since (now - DAY_MS) (ssk_id row) (rs_spending s)) x)"
  by (auto simp: assertAvailableDailyLimit_def handler_simps)

lemma active_grant_Inr [handler_simps]:
  "active_grant R v k s = (Inr se, s') \<longleftrightarrow>
     s' = s \<and> readSession (re_chain R) v (ch_print (re_chain R) k) (rs_ledger s) = Inr (Some se) \<and> \<not> se_revoked se"
  by (auto simp: active_grant_def handler_simps split: option.splits)

lemma sufficient_balance_Inr [handler_simps]:
  "sufficient_balance R v a s = (Inr y, s') \<longleftrightarrow>
     s' = s \<and> (\<exists>b. getVaultUsdcBalance (re_chain R) v (rs_ledger s) = Inr b \<and> a \<le> int b)"
  by (auto simp: sufficient_balance_def handler_simps)

lemma usdToAtomic_Inr_num: "usdToAtomic x = Inr a \<Longrightarrow> \<exists>r. x = JNum r \<and> 0 < r"
  by (cases x) (auto split: if_splits)

lemma transferWithSession_Inr:
  "transferWithSession N t net v r k a n lg = (Inr c, lg') \<longleftrightarrow>
     (\<exists>vault dest. publicKey N v ''vault'' = Inr vault \<and> recipientTokenAccount N r = Inr dest \<and>
        submit N t net [TxOpenAta dest, TxCall (TransferWithSession vault k dest a n)] [k] lg = (Inr c, lg'))"
  by (auto simp: transferWithSession_def handler_simps)

definition spending_row :: "int \<Rightarrow> SessionKey \<Rightarrow> js_number \<Rightarrow> string \<Rightarrow> SpendingRecord" where
  "spending_row now row x sig =
     \<lparr>spr_sessionKeyId = ssk_id row, spr_amountUSD = (case x of JNum y \<Rightarrow> y | _ \<Rightarrow> 0), spr_txHash = sig, spr_timestamp = now\<rparr>"

lemma executeSessionTransfer_success:
  assumes "executeSessionTransfer R now net u v r secret x skip s = (Inr sig, s')"
  shows "\<exists>k row se amount vault dest lg1 c. re_keypair R secret = Some k \<and>
     findUnique (rs_sessionKeys s) (ch_print (re_chain R) k) = Some row \<and> session_usable now u (Some row) \<and>
     \<not> jlt (JNum (ssk_perTxLimitUSD row)) x \<and>
     \<not> jlt (JNum (ssk_dailyLimitUSD row)) (jplus (spent_since (now - DAY_MS) (ssk_id row) (rs_spending s)) x) \<and>
     readSession (re_chain R) v (ch_print (re_chain R) k) (rs_ledger s) = Inr (Some se) \<and>
     usdToAtomic x = Inr amount \<and> publicKey (re_chain R) v ''vault'' = Inr vault \<and>
     recipientTokenAccount (re_chain R) r = Inr dest \<and>
     submit (re_chain R) (unix_seconds now) net
       [TxOpenAta dest, TxCall (TransferWithSession vault k dest (nat amount) (se_nonce se))] [k] (rs_ledger s) = (Inr c, lg1) \<and>
     rs_ledger s' = lg1 \<and> sig = cf_signature c \<and> rs_sessionKeys s' = rs_sessionKeys s \<and> rs_shortLinks s' = rs_shortLinks s \<and>
     rs_spending s' = rs_spending s @ [spending_row now row x sig]"
  using assms
  by (auto simp: spending_row_def executeSessionTransfer_def handler_simps transferWithSession_Inr record_spending_def logAuditEvent_def
      dest!: biometric_check_Inr)

section \<open>Spending in a day\<close>

definition within_windows :: "SessionKey table \<Rightarrow> SpendingRecord list \<Rightarrow> bool" where
  "within_windows keys rs \<longleftrightarrow>
     (\<forall>xs r ys. rs = xs @ r # ys \<longrightarrow>
        (\<exists>k row. findUnique keys k = Some row \<and> ssk_id row = spr_sessionKeyId r \<and> 0 < spr_amountUSD r \<and>
           spr_amountUSD r \<le> ssk_perTxLimitUSD row \<and>
           spent_since (spr_timestamp r - DAY_MS) (ssk_id row) (xs @ [r]) \<le> ssk_dailyLimitUSD row))"

lemma within_windows_snoc:
  assumes "within_windows keys rs" and "findUnique keys k = Some row" and "ssk_id row = spr_sessionKeyId r"
    and "0 < spr_amountUSD r" and "spr_amountUSD r \<le> ssk_perTxLimitUSD row"
    and "spent_since (spr_timestamp r - DAY_MS) (ssk_id row) (rs @ [r]) \<le> ssk_dailyLimitUSD row"
  shows "within_windows keys (rs @ [r])"
  unfolding within_windows_def
proof (intro allI impI)
  fix xs q ys
  assume split: "rs @ [r] = xs @ q # ys"
  show "\<exists>k row. findUnique keys k = Some row \<and> ssk_id row = spr_sessionKeyId q \<and> 0 < spr_amountUSD q \<and>
           spr_amountUSD q \<le> ssk_perTxLimitUSD row \<and>
           spent_since (spr_timestamp q - DAY_MS) (ssk_id row) (xs @ [q]) \<le> ssk_dailyLimitUSD row"
  proof (cases ys rule: rev_cases)
    case Nil
    with split have "rs = xs" "r = q" by simp_all
    with assms show ?thesis by blast
  next
    case (snoc zs z)
    with split have "rs = xs @ q # zs" by simp
    with assms(1) show ?thesis unfolding within_windows_def by blast
  qed
qed

lemma spent_since_snoc:
  "spr_sessionKeyId r = i \<Longrightarrow> 0 \<le> DAY_MS \<Longrightarrow>
     spent_since (spr_timestamp r - DAY_MS) i (rs @ [r]) = spent_since (spr_timestamp r - DAY_MS) i rs + spr_amountUSD r"
  by (simp add: spent_since_def)

lemma recorded_within:
  assumes "within_windows (rs_sessionKeys s) (rs_spending s)"
    and "findUnique (rs_sessionKeys s) k = Some row" and "usdToAtomic x = Inr a"
    and "\<not> jlt (JNum (ssk_perTxLimitUSD row)) x"
    and "\<not> jlt (JNum (ssk_dailyLimitUSD row)) (jplus (spent_since (now - DAY_MS) (ssk_id row) (rs_spending s)) x)"
  shows "within_windows (rs_sessionKeys s) (rs_spending s @ [spending_row now row x sig])"
proof -
  obtain y where y: "x = JNum y" "0 < y" using usdToAtomic_Inr_num [OF assms(3)] by blast
  show ?thesis
    by (rule within_windows_snoc [OF assms(1,2)])
       (use y assms(4,5) in \<open>auto simp: spending_row_def spent_since_def DAY_MS_def not_less add.commute\<close>)
qed

end
