(* ===== verification/RelayerRuns.thy ===== *)
theory RelayerRuns
  imports SolanaRelayer
begin

text \<open>
  Runs of the relayer service: its operations as events, each at a time and with an answer of the
  network of its own. What an operation leaves alone is stated with the interface \<open>frame\<close> of \<open>Handlers\<close>,
  interpreted on the relation \<open>keys_kept\<close>; the properties are about whole runs.
\<close>

section \<open>Operations\<close>

datatype 'pk relayer_op =
    OpProvision "'pk fresh_session" string int rat rat
  | OpRevoke string string
  | OpTransfer net_answer string string string string js_number bool
  | OpCreateLink net_answer string string string js_number bytes bytes int
  | OpClaimLink net_answer string string
  | OpCancelLink net_answer string string string string
  | OpRefundLink net_answer string string
  | OpCreatePendingSol string "string list" string string string rat string int
  | OpActivateSol string string string
  | OpMarkSolCancelled string string
  | OpFailPendingSol string
  | OpEnsureVault string

fun relayer_step :: "'pk relayer_env \<Rightarrow> int \<times> 'pk relayer_op \<Rightarrow> 'pk relayer_state \<Rightarrow> 'pk relayer_state" where
  "relayer_step R (now, OpProvision fr u d p l) s = snd (provisionSessionKey R now fr u d p l s)"
| "relayer_step R (now, OpRevoke u h) s = snd (relayer_revokeSessionKey now u h s)"
| "relayer_step R (now, OpTransfer net u v r secret x skip) s = snd (executeSessionTransfer R now net u v r secret x skip s)"
| "relayer_step R (now, OpCreateLink net u v secret x i c e) s =
     snd (relayer_createPaymentLinkWithSession R now net u v secret x i c e s)"
| "relayer_step R (now, OpClaimLink net l v) s = snd (relayer_claimPaymentLink R now net l v s)"
| "relayer_step R (now, OpCancelLink net u v l secret) s = snd (relayer_cancelPaymentLinkWithSession R now net u v l secret s)"
| "relayer_step R (now, OpRefundLink net v l) s = snd (relayer_refundExpiredPaymentLink R now net v l s)"
| "relayer_step R (now, OpCreatePendingSol i codes u h p x f e) s = snd (createPendingSolPaymentLink i codes u h p x f e s)"
| "relayer_step R (now, OpActivateSol c l t) s = snd (activateSolPaymentLink c l t s)"
| "relayer_step R (now, OpMarkSolCancelled c t) s = snd (markSolPaymentLinkCancelled c t s)"
| "relayer_step R (now, OpFailPendingSol c) s = snd (failPendingSolPaymentLink c s)"
| "relayer_step R (now, OpEnsureVault v) s = snd (ensureVaultDeployed R v s)"

abbreviation relayer_run :: "'pk relayer_env \<Rightarrow> (int \<times> 'pk relayer_op) list \<Rightarrow> 'pk relayer_state \<Rightarrow> 'pk relayer_state" where
  "relayer_run R \<equiv> fold (relayer_step R)"

section \<open>What every operation leaves alone\<close>

text \<open>Rows of keys stay, with their owner, identifier and limits; a revoked one stays revoked.\<close>

definition rows_kept :: "SessionKey table \<Rightarrow> SessionKey table \<Rightarrow> bool" where
  "rows_kept t t' \<longleftrightarrow>
     (\<forall>k row. findUnique t k = Some row \<longrightarrow>
        (\<exists>row'. findUnique t' k = Some row' \<and> ssk_id row' = ssk_id row \<and> ssk_dailyLimitUSD row' = ssk_dailyLimitUSD row \<and>
           ssk_perTxLimitUSD row' = ssk_perTxLimitUSD row \<and> (ssk_revokedAt row \<noteq> None \<longrightarrow> ssk_revokedAt row' \<noteq> None)))"

definition keys_kept :: "'pk relayer_state \<Rightarrow> 'pk relayer_state \<Rightarrow> bool" where
  "keys_kept s t \<longleftrightarrow> rs_spending t = rs_spending s \<and> rows_kept (rs_sessionKeys s) (rs_sessionKeys t)"

lemma rows_kept_refl: "rows_kept t t"
  by (simp add: rows_kept_def)

lemma rows_kept_trans: "rows_kept t u \<Longrightarrow> rows_kept u w \<Longrightarrow> rows_kept t w"
  unfolding rows_kept_def by metis

lemma rows_kept_create: "rows_kept t (create_row k r t)"
  by (simp add: rows_kept_def findUnique_create)

lemma rows_kept_revoke: "rows_kept t (update_row k (\<lambda>r. r\<lparr>ssk_revokedAt := Some now\<rparr>) t)"
  by (auto simp: rows_kept_def)

interpretation kept: frame keys_kept
  by unfold_locales (auto simp: keys_kept_def rows_kept_refl intro: rows_kept_trans)

lemma keys_kept_updates:
  "keys_kept s (s\<lparr>rs_ledger := a\<rparr>)" "keys_kept s (rs_shortLinks_update b s)" "keys_kept s (rs_audit_update c s)"
  "keys_kept s (rs_redis_update d s)" "keys_kept s (rs_users_update e s)"
  "keys_kept s (rs_sessionKeys_update (create_row k r) s)"
  "keys_kept s (rs_sessionKeys_update (update_row k (\<lambda>r. r\<lparr>ssk_revokedAt := Some now\<rparr>)) s)"
  by (simp_all add: keys_kept_def rows_kept_refl rows_kept_create rows_kept_revoke)

lemma keeps_on_ledger: "keeps keys_kept (on_ledger m)"
  by (auto simp: keeps_def on_ledger_def zoomS_def keys_kept_updates split: prod.split)

lemma keeps_modifications:
  "keeps keys_kept (modifyS (rs_shortLinks_update b))" "keeps keys_kept (modifyS (rs_audit_update c))"
  "keeps keys_kept (modifyS (rs_redis_update d))" "keeps keys_kept (modifyS (rs_users_update e))"
  "keeps keys_kept (modifyS (rs_sessionKeys_update (create_row k r)))"
  "keeps keys_kept (modifyS (rs_sessionKeys_update (update_row k (\<lambda>r. r\<lparr>ssk_revokedAt := Some now\<rparr>))))"
  by (auto intro: kept.keeps_modify keys_kept_updates)

lemma keeps_option: "(x = None \<Longrightarrow> keeps P m) \<Longrightarrow> (\<And>y. keeps P (f y)) \<Longrightarrow> keeps P (case x of None \<Rightarrow> m | Some y \<Rightarrow> f y)"
  by (cases x) simp_all

lemma keeps_if: "keeps P a \<Longrightarrow> keeps P b \<Longrightarrow> keeps P (if c then a else b)"
  by simp

lemmas keeps_rules = kept.keeps_bind kept.keeps_pure keeps_on_ledger keeps_modifications keeps_option keeps_if

lemma keeps_parts:
  "keeps keys_kept (session_keypair R secret)" "keeps keys_kept (requireActiveSession R now u k)"
  "keeps keys_kept (assertAvailableDailyLimit now row x)" "keeps keys_kept (active_grant R v k)"
  "keeps keys_kept (sufficient_balance R v a)" "keeps keys_kept (biometric_check now u skip)"
  "keeps keys_kept (relayer_readPaymentLink R l)" "keeps keys_kept (update_link c f)" "keeps keys_kept (logAuditEvent u act st t)"
  unfolding session_keypair_def requireActiveSession_def assertAvailableDailyLimit_def active_grant_def sufficient_balance_def
    biometric_check_def relayer_readPaymentLink_def update_link_def logAuditEvent_def
  by (intro keeps_rules)+

lemma keeps_operations:
  "keeps keys_kept (provisionSessionKey R now fr u d p l)" "keeps keys_kept (relayer_revokeSessionKey now u h)"
  "keeps keys_kept (relayer_claimPaymentLink R now net l' v)" "keeps keys_kept (relayer_cancelPaymentLinkWithSession R now net u v l' secret)"
  "keeps keys_kept (relayer_refundExpiredPaymentLink R now net v l')"
  "keeps keys_kept (createPendingSolPaymentLink i codes u h' pf x f e)" "keeps keys_kept (activateSolPaymentLink c l' t)"
  "keeps keys_kept (markSolPaymentLinkCancelled c t)" "keeps keys_kept (failPendingSolPaymentLink c)"
  "keeps keys_kept (ensureVaultDeployed R v)"
  unfolding provisionSessionKey_def relayer_revokeSessionKey_def relayer_claimPaymentLink_def
    relayer_cancelPaymentLinkWithSession_def relayer_refundExpiredPaymentLink_def createPendingSolPaymentLink_def
    activateSolPaymentLink_def markSolPaymentLinkCancelled_def failPendingSolPaymentLink_def ensureVaultDeployed_def Let_def
  by (intro keeps_rules keeps_parts)+

text \<open>The two operations that record a spending have recorded none when they fail.\<close>

lemma recording_fails_clean:
  "keeps_failing keys_kept (record_spending R now i x t)"
  "keeps_failing keys_kept (bindS (record_spending R now i x t) (\<lambda>_. bindS (logAuditEvent u a st h) (\<lambda>_. returnS y)))"
  "keeps_failing keys_kept (bindS (record_spending R now i x t) (\<lambda>_. returnS z))"
proof -
  show one: "keeps_failing keys_kept (record_spending R now i x t)"
    unfolding record_spending_def
    by (intro kept.keeps_failing_bind kept.keeps_pure never_fails_keeps_failing never_fails_basic)
  show "keeps_failing keys_kept (bindS (record_spending R now i x t) (\<lambda>_. bindS (logAuditEvent u a st h) (\<lambda>_. returnS y)))"
    "keeps_failing keys_kept (bindS (record_spending R now i x t) (\<lambda>_. returnS z))"
    unfolding logAuditEvent_def by (intro keeps_failing_then one never_fails_bind never_fails_basic)+
qed

lemma failing_operations:
  "keeps_failing keys_kept (executeSessionTransfer R now net u v r secret x skip)"
  "keeps_failing keys_kept (relayer_createPaymentLinkWithSession R now net u v secret x i c e)"
  unfolding executeSessionTransfer_def relayer_createPaymentLinkWithSession_def split_beta
  by (intro kept.keeps_failing_bind keeps_parts keeps_on_ledger kept.keeps_pure recording_fails_clean)+


text \<open>What a success of the two operations adds to the spending records.\<close>

definition recorded_one :: "'pk relayer_state \<Rightarrow> 'pk relayer_state \<Rightarrow> bool" where
  "recorded_one s t \<longleftrightarrow>
     (\<exists>now k row x a sig. rs_sessionKeys t = rs_sessionKeys s \<and> rs_spending t = rs_spending s @ [spending_row now row x sig] \<and>
        findUnique (rs_sessionKeys s) k = Some row \<and> usdToAtomic x = Inr a \<and> \<not> jlt (JNum (ssk_perTxLimitUSD row)) x \<and>
        \<not> jlt (JNum (ssk_dailyLimitUSD row)) (jplus (spent_since (now - DAY_MS) (ssk_id row) (rs_spending s)) x))"

lemma transfer_records:
  assumes "executeSessionTransfer R now net u v r secret x skip s = (Inr sig, t)"
  shows "recorded_one s t"
  using executeSessionTransfer_success [OF assms] unfolding recorded_one_def by blast

lemma create_link_records:
  assumes "relayer_createPaymentLinkWithSession R now net u v secret x i c e s = (Inr y, t)"
  shows "recorded_one s t"
  using assms unfolding recorded_one_def spending_row_def
  by (auto simp: relayer_createPaymentLinkWithSession_def handler_simps record_spending_def) blast+

lemma step_kept_or_recorded: "keys_kept s (relayer_step R ev s) \<or> recorded_one s (relayer_step R ev s)"
proof -
  obtain now op where ev: "ev = (now, op)" by (cases ev)
  show ?thesis
  proof (cases op)
    case (OpTransfer net u v r secret x skip)
    show ?thesis
    proof (cases "executeSessionTransfer R now net u v r secret x skip s")
      case (Pair res t)
      with failing_operations(1) [of R now net u v r secret x skip] show ?thesis
        by (cases res) (auto simp: ev OpTransfer keeps_failing_def dest!: spec [of _ s] transfer_records)
    qed
  next
    case (OpCreateLink net u v secret x i c e)
    show ?thesis
    proof (cases "relayer_createPaymentLinkWithSession R now net u v secret x i c e s")
      case (Pair res t)
      with failing_operations(2) [of R now net u v secret x i c e] show ?thesis
        by (cases res) (auto simp: ev OpCreateLink keeps_failing_def dest!: spec [of _ s] create_link_records)
    qed
  qed (simp_all add: ev keeps_operations [unfolded keeps_def, rule_format])
qed

lemma within_windows_kept:
  assumes "within_windows t rs" and "rows_kept t t'"
  shows "within_windows t' rs"
  unfolding within_windows_def
proof (intro allI impI)
  fix xs r ys assume "rs = xs @ r # ys"
  with assms(1) obtain k row where "findUnique t k = Some row" "ssk_id row = spr_sessionKeyId r" "0 < spr_amountUSD r"
      "spr_amountUSD r \<le> ssk_perTxLimitUSD row"
      "spent_since (spr_timestamp r - DAY_MS) (ssk_id row) (xs @ [r]) \<le> ssk_dailyLimitUSD row"
    unfolding within_windows_def by blast
  with assms(2) show "\<exists>k row. findUnique t' k = Some row \<and> ssk_id row = spr_sessionKeyId r \<and> 0 < spr_amountUSD r \<and>
           spr_amountUSD r \<le> ssk_perTxLimitUSD row \<and>
           spent_since (spr_timestamp r - DAY_MS) (ssk_id row) (xs @ [r]) \<le> ssk_dailyLimitUSD row"
    unfolding rows_kept_def by metis
qed

lemma step_within_windows:
  assumes "within_windows (rs_sessionKeys s) (rs_spending s)"
  shows "within_windows (rs_sessionKeys (relayer_step R ev s)) (rs_spending (relayer_step R ev s))"
  using step_kept_or_recorded [of s R ev]
proof
  assume "keys_kept s (relayer_step R ev s)"
  with assms show ?thesis by (auto simp: keys_kept_def intro: within_windows_kept)
next
  assume "recorded_one s (relayer_step R ev s)"
  with recorded_within [OF assms] show ?thesis by (auto simp: recorded_one_def)
qed

lemma recorded_rows_kept: "recorded_one s t \<Longrightarrow> rows_kept (rs_sessionKeys s) (rs_sessionKeys t)"
  by (auto simp: recorded_one_def rows_kept_refl)

lemma run_rows_kept: "rows_kept (rs_sessionKeys s) (rs_sessionKeys (relayer_run R ops s))"
proof (induction ops arbitrary: s)
  case (Cons ev ops)
  have "rows_kept (rs_sessionKeys s) (rs_sessionKeys (relayer_step R ev s))"
    using step_kept_or_recorded [of s R ev] recorded_rows_kept by (auto simp: keys_kept_def)
  with Cons [of "relayer_step R ev s"] show ?case by (auto intro: rows_kept_trans)
qed (simp add: rows_kept_refl)

section \<open>Transfers\<close>

lemma reading_ledger: "(\<And>lg. snd (m lg) = lg) \<Longrightarrow> only_reads (on_ledger m)"
  by (simp add: keeps_def on_ledger_def zoomS_def split_beta)

lemmas reading_rules = reading.keeps_bind reading.keeps_pure keeps_option keeps_if

lemma reading_parts:
  "only_reads (session_keypair R secret)" "only_reads (requireActiveSession R now u k)"
  "only_reads (assertAvailableDailyLimit now row x)" "only_reads (active_grant R v k)"
  "only_reads (sufficient_balance R v a)" "only_reads (biometric_check now u skip)" "only_reads (liftS y)"
  unfolding session_keypair_def requireActiveSession_def assertAvailableDailyLimit_def active_grant_def sufficient_balance_def
    biometric_check_def
  by (intro reading_rules reading_ledger snd_conv)+

text \<open>A relayer whose spending records are always written.\<close>

abbreviation storing :: "'pk relayer_env \<Rightarrow> 'pk relayer_env" where
  "storing R \<equiv> R\<lparr>re_spendingStored := \<lambda>_. True\<rparr>"

lemma storing_parts [simp]:
  "session_keypair (storing R) = session_keypair R" "requireActiveSession (storing R) = requireActiveSession R"
  "active_grant (storing R) = active_grant R" "sufficient_balance (storing R) = sufficient_balance R"
  by (auto simp: session_keypair_def requireActiveSession_def active_grant_def sufficient_balance_def fun_eq_iff)

lemma bindS_on_ledger:
  "bindS (on_ledger m) f s =
     (case m (rs_ledger s) of (Inl e, l) \<Rightarrow> (Inl e, s\<lparr>rs_ledger := l\<rparr>) | (Inr x, l) \<Rightarrow> f x (s\<lparr>rs_ledger := l\<rparr>))"
  by (auto simp: bindS_def on_ledger_def zoomS_def split: prod.split sum.split)

lemma submit_confirmation: "submit N n net ops sg lg = (Inr c, l) \<Longrightarrow> \<exists>slot. net = Confirmed (cf_signature c) slot"
  unfolding submit_def by (cases net) (auto simp del: run_tx.simps split: sum.splits if_splits)

lemma sent_confirmation:
  "transferWithSession N n net v r k a m lg = (Inr c, l) \<Longrightarrow> \<exists>slot. net = Confirmed (cf_signature c) slot"
  unfolding transferWithSession_Inr using submit_confirmation by blast

lemma record_stored: "re_spendingStored R sig \<Longrightarrow> record_spending R now i x sig = record_spending (storing R) now i x sig"
  by (simp add: record_spending_def)

lemma same_when_stored:
  assumes "\<And>sig slot. net = Confirmed sig slot \<Longrightarrow> re_spendingStored R sig"
  shows "executeSessionTransfer R now net u v r secret x skip s = executeSessionTransfer (storing R) now net u v r secret x skip s"
proof -
  have tail: "bindS (on_ledger (transferWithSession N n net v r k a m)) f t = bindS (on_ledger (transferWithSession N n net v r k a m)) g t"
    if "\<And>c. re_spendingStored R (cf_signature c) \<Longrightarrow> f c = g c" for N n k a m t and f g :: "confirmed \<Rightarrow> (string, 'a) relayer_handler"
    using assms that sent_confirmation [of N n net v r k a m "rs_ledger t"]
    by (auto simp: bindS_on_ledger split: prod.split sum.split)
  show ?thesis
    unfolding executeSessionTransfer_def
    by (simp add: bindS_reads reading_parts split: sum.split) (intro allI impI tail, simp only: record_stored)
qed

lemma sent_transfer_failing:
  assumes "net \<noteq> LandedUnseen"
  shows "keeps_failing (\<lambda>s t. t = s) (on_ledger (transferWithSession N now net v r k a n))"
  using assms
  by (auto simp: keeps_failing_def on_ledger_def zoomS_def transferWithSession_def bindS_reads reading_parts submit_def liftS_def
      split: prod.split sum.split net_answer.split)

lemma failed_transfer_same:
  assumes "net \<noteq> LandedUnseen" and "\<And>sig slot. net = Confirmed sig slot \<Longrightarrow> re_spendingStored R sig"
  shows "keeps_failing (\<lambda>s t. t = s) (executeSessionTransfer R now net u v r secret x skip)"
proof -
  have "never_fails (record_spending (storing R) now i x sig)" for i sig
    unfolding record_spending_def by (simp add: never_fails_def bindS_def guardS_def modifyS_def)
  then have "keeps_failing (\<lambda>s t. t = s) (executeSessionTransfer (storing R) now net u v r secret x skip)"
    unfolding executeSessionTransfer_def logAuditEvent_def
    by (intro reading.keeps_failing_bind reading_parts keeps_failing_then sent_transfer_failing assms(1) never_fails_bind never_fails_basic)
  then show ?thesis using same_when_stored [OF assms(2)] by (simp add: keeps_failing_def)
qed

text \<open>A transaction that landed without the service learning it, or whose record was not written.\<close>

definition uncounted :: "'pk relayer_env \<Rightarrow> net_answer \<Rightarrow> string \<Rightarrow> nat \<Rightarrow> bool" where
  "uncounted R net sig slot \<longleftrightarrow> net = LandedUnseen \<or> net = Confirmed sig slot \<and> \<not> re_spendingStored R sig"

lemma unseen_transfer:
  "transferWithSession N n LandedUnseen v r k a m lg =
     (case transferWithSession N n (Confirmed sig slot) v r k a m lg of
        (Inl e, l) \<Rightarrow> (Inl e, l)
      | (Inr _, l) \<Rightarrow> (Inl (InternalError ''Transaction was not confirmed''), l))"
  by (cases "publicKey N v ''vault''"; cases "recipientTokenAccount N r")
     (simp_all add: transferWithSession_def submit_def split: sum.split del: run_tx.simps publicKey_Inr)

lemma uncounted_payment:
  assumes "uncounted R net sig slot"
  shows "\<exists>e. executeSessionTransfer R now net u v r secret x skip s =
     (case executeSessionTransfer (storing R) now (Confirmed sig slot) u v r secret x skip s of
        (Inl e, t) \<Rightarrow> (Inl e, t)
      | (Inr _, t) \<Rightarrow> (Inl e, s\<lparr>rs_ledger := rs_ledger t\<rparr>))"
proof -
  define err where "err = (if net = LandedUnseen then InternalError ''Transaction was not confirmed''
      else InternalError ''PrismaClientKnownRequestError'')"
  have tail: "bindS (on_ledger (transferWithSession N n net v r k a m)) f s =
     (case bindS (on_ledger (transferWithSession N n (Confirmed sig slot) v r k a m)) g s of
        (Inl e, t) \<Rightarrow> (Inl e, t)
      | (Inr _, t) \<Rightarrow> (Inl err, s\<lparr>rs_ledger := rs_ledger t\<rparr>))"
    if total: "\<And>x t. \<exists>y t'. g x t = (Inr y, t') \<and> rs_ledger t' = rs_ledger t"
      and refused: "\<And>c t. \<not> re_spendingStored R (cf_signature c) \<Longrightarrow> f c t = (Inl (InternalError ''PrismaClientKnownRequestError''), t)"
    for N n k a m and f g :: "confirmed \<Rightarrow> (string, 'a) relayer_handler"
  proof (cases "transferWithSession N n (Confirmed sig slot) v r k a m (rs_ledger s)")
    case (Pair res l)
    show ?thesis
    proof (cases res)
      case (Inl e)
      with assms unseen_transfer [of N n v r k a m "rs_ledger s" sig slot] Pair show ?thesis
        by (auto simp: bindS_on_ledger uncounted_def)
    next
      case (Inr c)
      have sig: "cf_signature c = sig" using sent_confirmation [of N n "Confirmed sig slot"] Pair Inr by blast
      obtain y t' where g: "g c (s\<lparr>rs_ledger := l\<rparr>) = (Inr y, t')" "rs_ledger t' = l"
        using total [of c "s\<lparr>rs_ledger := l\<rparr>"] by auto
      from assms consider "net = LandedUnseen" | "net = Confirmed sig slot" "\<not> re_spendingStored R sig"
        by (auto simp: uncounted_def)
      then show ?thesis
      proof cases
        case 1
        with Inr g unseen_transfer [of N n v r k a m "rs_ledger s" sig slot] Pair show ?thesis by (simp add: bindS_on_ledger err_def)
      next
        case 2
        with Inr g Pair refused [of c] sig show ?thesis by (simp add: bindS_on_ledger err_def)
      qed
    qed
  qed
  have "executeSessionTransfer R now net u v r secret x skip s =
     (case executeSessionTransfer (storing R) now (Confirmed sig slot) u v r secret x skip s of
        (Inl e, t) \<Rightarrow> (Inl e, t)
      | (Inr _, t) \<Rightarrow> (Inl err, s\<lparr>rs_ledger := rs_ledger t\<rparr>))"
    unfolding executeSessionTransfer_def
    by (simp add: bindS_reads reading_parts split: sum.split)
       (intro allI impI tail, simp_all add: record_spending_def logAuditEvent_def returnS_def modifyS_def bindS_def guardS_def)
  then show ?thesis by blast
qed

text \<open>The transaction of a session transfer: the token account of the recipient is opened, then the
  instruction runs.\<close>

lemma session_transfer_effect:
  assumes rt: "runtime_ok rt" and exec: "exec S rt cx (TransferWithSession v k d a n) lg = Inr lg'"
  shows "\<exists>c se b bd. lg_config lg = Some c \<and> lg_sessions lg (session_address S v k) = Some se \<and> se_nonce se = n \<and>
     lg_tokens lg (ata S c v) = Some b \<and> a \<le> b \<and> lg_tokens lg d = Some bd \<and> ata S c v \<noteq> d \<and>
     lg_tokens lg' = (lg_tokens lg)(ata S c v \<mapsto> b - a, d \<mapsto> bd + a) \<and>
     lg_sessions lg' = (lg_sessions lg)(session_address S v k \<mapsto> se\<lparr>se_spent := se_spent se + a, se_nonce := n + 1\<rparr>)"
proof -
  from exec obtain c se where c: "lg_config lg = Some c" "ata S c v \<noteq> d" "lg_sessions lg (session_address S v k) = Some se"
    "se_nonce se = n"
    and tr: "transfer_checked rt (ata S c v) d a
       (lg\<lparr>lg_sessions := (lg_sessions lg)(session_address S v k \<mapsto> se\<lparr>se_spent := se_spent se + a, se_nonce := n + 1\<rparr>)\<rparr>) = Inr lg'"
    by (auto simp: transfer_with_session_def bindE_Inr_iff spend_session_Inr check_session_Inr signed_session_Inr)
  with transfer_moves [OF rt tr] show ?thesis by (auto simp: transfer_checked_Inr)
qed

lemma opened_account:
  "init_token_account_if_needed rt p d lg = Inr lg' \<Longrightarrow>
     lg_tokens lg' = (lg_tokens lg)(d \<mapsto> case lg_tokens lg d of Some b \<Rightarrow> b | None \<Rightarrow> 0) \<and>
     lg_config lg' = lg_config lg \<and> lg_sessions lg' = lg_sessions lg"
  by (auto simp: init_token_account_if_needed_Inr init_token_account_Inr fund_account_Inr fun_upd_idem split: if_splits)

definition token_balance :: "'pk ledger \<Rightarrow> 'pk \<Rightarrow> nat" where
  "token_balance lg k = (case lg_tokens lg k of Some b \<Rightarrow> b | None \<Rightarrow> 0)"

lemma submitted_transfer:
  assumes rt: "runtime_ok (ch_rt N)"
    and sub: "submit N now net [TxOpenAta d, TxCall (TransferWithSession v k d a n)] sg lg = (Inr c, lg')"
  shows "\<exists>se. tokenAccountOf N v \<noteq> d \<and> a \<le> token_balance lg (tokenAccountOf N v) \<and>
     token_balance lg' (tokenAccountOf N v) + a = token_balance lg (tokenAccountOf N v) \<and>
     token_balance lg' d = token_balance lg d + a \<and>
     (\<forall>q. q \<noteq> d \<and> q \<noteq> tokenAccountOf N v \<longrightarrow> lg_tokens lg' q = lg_tokens lg q) \<and>
     lg_sessions lg (session_address (ch_sdk N) v k) = Some se \<and> se_nonce se = n \<and>
     lg_sessions lg' = (lg_sessions lg)(session_address (ch_sdk N) v k \<mapsto> se\<lparr>se_spent := se_spent se + a, se_nonce := n + 1\<rparr>)"
proof -
  from submit_Inr [OF sub] obtain lg1 where mint: "mint_matches N lg"
    and acc: "init_token_account_if_needed (ch_rt N) (ch_feePayer N) d lg = Inr lg1"
    and call: "exec (ch_sdk N) (ch_rt N) \<lparr>tx_now = now, tx_signers = ch_feePayer N # sg, tx_previous = None\<rparr>
                 (TransferWithSession v k d a n) lg1 = Inr lg'"
    by (auto simp: bindE_Inr_iff simp del: exec.simps)
  note o = opened_account [OF acc]
  obtain c se b bd where e: "lg_config lg1 = Some c" "lg_sessions lg1 (session_address (ch_sdk N) v k) = Some se" "se_nonce se = n"
      "lg_tokens lg1 (ata (ch_sdk N) c v) = Some b" "a \<le> b" "lg_tokens lg1 d = Some bd" "ata (ch_sdk N) c v \<noteq> d"
      "lg_tokens lg' = (lg_tokens lg1)(ata (ch_sdk N) c v \<mapsto> b - a, d \<mapsto> bd + a)"
      "lg_sessions lg' = (lg_sessions lg1)(session_address (ch_sdk N) v k \<mapsto> se\<lparr>se_spent := se_spent se + a, se_nonce := n + 1\<rparr>)"
    using session_transfer_effect [OF rt call] by blast
  have "tokenAccountOf N v = ata (ch_sdk N) c v"
    using mint e(1) o by (auto simp: mint_matches_def tokenAccountOf_def)
  with e o show ?thesis by (auto simp: token_balance_def split: option.split)
qed

lemma usdToAtomic_nonneg: "usdToAtomic x = Inr a \<Longrightarrow> 0 \<le> a"
  using usdToAtomic_Inr_num [of x a] by (auto simp: usdToAtomic_cases simp del: usdToAtomic.simps split: if_splits)

section \<open>Properties\<close>

text \<open>C32. The daily limit of a session holds for what the service records: in any sequence of operations
  that starts without spending records, with any times and any answers of the network, every recorded
  payment is positive and within the limit per payment of a key with its identifier, and together with
  the payments recorded for this identifier in the 24 hours before it stays within the daily limit.\<close>

theorem session_spending_within_daily_limit:
  "let t = relayer_run R ops (s\<lparr>rs_spending := []\<rparr>) in within_windows (rs_sessionKeys t) (rs_spending t)"
proof -
  have "within_windows (rs_sessionKeys t) (rs_spending t) \<Longrightarrow>
          within_windows (rs_sessionKeys (relayer_run R ops t)) (rs_spending (relayer_run R ops t))" for t
    by (induction ops arbitrary: t) (simp_all add: step_within_windows)
  then show ?thesis by (simp add: Let_def within_windows_def)
qed


text \<open>A payment that went through: the key was active, the session granted, exactly the atomic amount of the dollars left
  the token account of the vault and arrived at the account of the recipient, no other token account changed, and
  the session on the chain advanced by this amount and one nonce.\<close>

definition payment_made ::
    "'pk relayer_env \<Rightarrow> int \<Rightarrow> string \<Rightarrow> string \<Rightarrow> string \<Rightarrow> string \<Rightarrow> js_number \<Rightarrow> 'pk relayer_state \<Rightarrow> 'pk ledger \<Rightarrow> SessionKey \<Rightarrow> bool" where
  "payment_made R now u v r secret x s L' row \<longleftrightarrow>
     (\<exists>k se vault dest amount.
        re_keypair R secret = Some k \<and> findUnique (rs_sessionKeys s) (ch_print (re_chain R) k) = Some row \<and>
        session_usable now u (Some row) \<and> publicKey (re_chain R) v ''vault'' = Inr vault \<and>
        recipientTokenAccount (re_chain R) r = Inr dest \<and> usdToAtomic x = Inr (int amount) \<and>
        (let L = rs_ledger s; from = tokenAccountOf (re_chain R) vault in
           from \<noteq> dest \<and> token_balance L' from + amount = token_balance L from \<and>
           token_balance L' dest = token_balance L dest + amount \<and>
           (\<forall>q. q \<noteq> dest \<and> q \<noteq> from \<longrightarrow> lg_tokens L' q = lg_tokens L q) \<and>
           lg_sessions L (session_address (ch_sdk (re_chain R)) vault k) = Some se \<and>
           lg_sessions L' = (lg_sessions L)(session_address (ch_sdk (re_chain R)) vault k \<mapsto>
               se\<lparr>se_spent := se_spent se + amount, se_nonce := se_nonce se + 1\<rparr>)))"

lemma successful_payment:
  assumes "runtime_ok (ch_rt (re_chain R))"
    and run: "executeSessionTransfer R now net u v r secret x skip s = (Inr sig, t)"
  shows "\<exists>row. payment_made R now u v r secret x s (rs_ledger t) row \<and> rs_spending t = rs_spending s @ [spending_row now row x sig]"
proof -
  from executeSessionTransfer_success [OF run]
  obtain k row a vault dest lg1 and se :: "'a Session" and c :: confirmed where
    g: "re_keypair R secret = Some k" "findUnique (rs_sessionKeys s) (ch_print (re_chain R) k) = Some row"
      "session_usable now u (Some row)" "publicKey (re_chain R) v ''vault'' = Inr vault"
      "recipientTokenAccount (re_chain R) r = Inr dest" "usdToAtomic x = Inr a"
    and sub: "submit (re_chain R) (unix_seconds now) net
       [TxOpenAta dest, TxCall (TransferWithSession vault k dest (nat a) (se_nonce se))] [k] (rs_ledger s) = (Inr c, lg1)"
    and t: "rs_ledger t = lg1" "rs_spending t = rs_spending s @ [spending_row now row x sig]"
    by blast
  have a: "a = int (nat a)" using usdToAtomic_nonneg [OF g(6)] by simp
  from submitted_transfer [OF assms(1) sub] obtain se' where
    m: "tokenAccountOf (re_chain R) vault \<noteq> dest" "token_balance lg1 (tokenAccountOf (re_chain R) vault) + nat a =
          token_balance (rs_ledger s) (tokenAccountOf (re_chain R) vault)"
      "token_balance lg1 dest = token_balance (rs_ledger s) dest + nat a"
      "\<forall>q. q \<noteq> dest \<and> q \<noteq> tokenAccountOf (re_chain R) vault \<longrightarrow> lg_tokens lg1 q = lg_tokens (rs_ledger s) q"
      "lg_sessions (rs_ledger s) (session_address (ch_sdk (re_chain R)) vault k) = Some se'"
      "lg_sessions lg1 = (lg_sessions (rs_ledger s))(session_address (ch_sdk (re_chain R)) vault k \<mapsto>
          se'\<lparr>se_spent := se_spent se' + nat a, se_nonce := se_nonce se' + 1\<rparr>)"
    by auto
  show ?thesis
    unfolding payment_made_def Let_def
    by (intro exI [of _ row] exI [of _ k] exI [of _ se'] exI [of _ vault] exI [of _ dest] exI [of _ "nat a"] conjI)
       (use g m t a in simp_all)
qed

lemma payment_made_storing: "payment_made (storing R) now u v r secret x s L row = payment_made R now u v r secret x s L row"
  by (simp add: payment_made_def)

text \<open>C17. A session payment moves the amount that was asked for, and is recorded: when \<open>executeSessionTransfer\<close> returns,
  the payment went through and one spending record was added. When it throws, either nothing changed at all, or the payment
  went through without being counted: the transaction landed without the service learning it, or the service learnt it
  and the spending record could not be written; then the ledger alone changed, and no record was added.\<close>

theorem session_transfer_moves_the_amount:
  assumes "runtime_ok (ch_rt (re_chain R))"
    and "executeSessionTransfer R now net u v r secret x skip s = (res, t)"
  shows "case res of
      Inl e \<Rightarrow> t = s \<or>
        t = s\<lparr>rs_ledger := rs_ledger t\<rparr> \<and> (\<exists>row. payment_made R now u v r secret x s (rs_ledger t) row) \<and>
        (net = LandedUnseen \<or> (\<exists>sig slot. net = Confirmed sig slot \<and> \<not> re_spendingStored R sig))
    | Inr sig \<Rightarrow>
        \<exists>row. payment_made R now u v r secret x s (rs_ledger t) row \<and> rs_spending t = rs_spending s @ [spending_row now row x sig]"
proof (cases res)
  case (Inl e)
  show ?thesis
  proof (cases "\<exists>sig slot. uncounted R net sig slot")
    case False
    then have "t = s"
      using assms(2) Inl failed_transfer_same [of net R now u v r secret x skip] unfolding keeps_failing_def uncounted_def
      by (metis failed_simps(1) fst_conv snd_conv)
    with Inl show ?thesis by simp
  next
    case True
    then obtain sig slot where unc: "uncounted R net sig slot" by blast
    show ?thesis
    proof (cases "executeSessionTransfer (storing R) now (Confirmed sig slot) u v r secret x skip s")
      case (Pair res' t')
      show ?thesis
      proof (cases res')
        case (Inl e')
        with Pair failed_transfer_same [of "Confirmed sig slot" "storing R" now u v r secret x skip] have "t' = s"
          unfolding keeps_failing_def by (auto dest!: spec [of _ s])
        with uncounted_payment [OF unc, of now u v r secret x skip s] Pair Inl assms(2) \<open>res = Inl e\<close> show ?thesis by auto
      next
        case (Inr y)
        then have t: "t = s\<lparr>rs_ledger := rs_ledger t'\<rparr>"
          using uncounted_payment [OF unc, of now u v r secret x skip s] Pair assms(2) \<open>res = Inl e\<close> by auto
        obtain row where "payment_made R now u v r secret x s (rs_ledger t') row"
          using successful_payment [of "storing R" now "Confirmed sig slot" u v r secret x skip s y t'] assms(1) Pair Inr
          by (auto simp: payment_made_storing)
        with t unc \<open>res = Inl e\<close> show ?thesis by (auto simp: uncounted_def)
      qed
    qed
  qed
next
  case (Inr sig)
  with assms show ?thesis using successful_payment by simp
qed


definition example_row :: SessionKey where
  "example_row = \<lparr>ssk_id = ''row'', ssk_userId = ''user'', ssk_encryptedKey = [], ssk_encryptedSymmetricKey = None,
     ssk_credentialId = [], ssk_dailyLimitUSD = 200, ssk_perTxLimitUSD = 50, ssk_expiryAt = 20000, ssk_revokedAt = None,
     ssk_activatedAt = Some 0, ssk_createdAt = 0\<rparr>"

definition example_env :: "256 word relayer_env" where
  "example_env = \<lparr>re_chain = example_chain, re_keypair = (\<lambda>_. Some 1000),
     re_ciphers = \<lparr>scrypt = (\<lambda>_ _. []), gcm_encrypt = (\<lambda>_ _ p. (p, [])), gcm_decrypt = (\<lambda>_ _ _ c. Some c),
       kms_encrypt = (\<lambda>_ _ _. None), kms_decrypt = (\<lambda>_ _ _. None)\<rparr>,
     re_secrets = \<lparr>SESSION_KEY_KMS_KEY_ID = [], SESSION_KEY_MASTER_SECRET = ''m''\<rparr>, re_spendingStored = (\<lambda>_. True)\<rparr>"

definition example_grant :: "256 word Session" where
  "example_grant = (session_of_args 5 example_session)\<lparr>se_spent := 40, se_nonce := 1\<rparr>"

definition example_paid :: "256 word ledger" where
  "example_paid = example_ledger\<lparr>lg_sessions := [7 \<mapsto> (session_of_args 5 example_session)\<lparr>se_spent := 65, se_nonce := Suc 1\<rparr>],
          lg_tokens := [507 \<mapsto> 35, 514 \<mapsto> 65]\<rparr>"

definition example_state :: "256 word relayer_state" where
  "example_state = \<lparr>rs_ledger = example_ledger, rs_users = [],
     rs_sessionKeys = [(ch_print example_chain 1000, example_row)], rs_spending = [], rs_credentials = [],
     rs_shortLinks = [], rs_audit = [], rs_redis = (\<lambda>_. None)\<rparr>"

lemma example_chain_simps [simp]:
  "ch_sdk example_chain = example_sdk" "ch_rt example_chain = example_runtime" "ch_feePayer example_chain = 1000"
  "ch_mint example_chain = 500" "re_chain example_env = example_chain" "re_keypair example_env secret = Some 1000"
  by (simp_all add: example_chain_def example_env_def)

lemma example_publicKey: "publicKey example_chain (ch_print example_chain k) label = Inr k"
  using printed_address [OF example_chain_ok] by simp

lemma example_session_transfer:
  "exec example_sdk example_runtime \<lparr>tx_now = 10, tx_signers = [1000, 1000], tx_previous = None\<rparr>
     (TransferWithSession 5 1000 514 25 1) example_ledger = Inr example_paid"
  by (simp add: example_paid_def transfer_with_session_def example_ledger_def live_config_def any_config_def fetch_def seeded_vault_def
      signed_session_def anchor_def session_of_args_def write_session_def example_session_def spend_session_def check_session_def
      SESSION_ACTION_TRANSFER_def bump_session_def checked_add_def transfer_checked_def example_runtime_def
      example_transfer_def example_config_def fun_upd_twist)

theorem session_transfer_moves_the_amount_witness:
  "\<exists>t. executeSessionTransfer example_env 10000 (Confirmed ''sig'' 7) ''user'' (ch_print example_chain 5) (ch_print example_chain 12)
         ''secret'' (JNum (1 / 40000)) True example_state = (Inr ''sig'', t) \<and>
      token_balance (rs_ledger t) 514 = token_balance example_ledger 514 + 25 \<and> length (rs_spending t) = 1"
proof -
  let ?k = "ch_print example_chain 1000"
  have amount: "usdToAtomic (JNum (1 / 40000)) = Inr 25"
    by (simp add: usdToAtomic_cases fixed_units_def floor_unique [where z = 25] del: usdToAtomic.simps)
  have key: "session_keypair example_env ''secret'' s = (Inr 1000, s)" for s :: "256 word relayer_state"
    by (simp add: session_keypair_def liftS_def)
  have row: "requireActiveSession example_env 10000 ''user'' 1000 example_state = (Inr example_row, example_state)"
    by (simp add: requireActiveSession_Inr example_state_def findUnique_def session_usable_def example_row_def)
  have limit: "assertAvailableDailyLimit 10000 example_row (JNum (1 / 40000)) example_state = (Inr (), example_state)"
    by (simp add: assertAvailableDailyLimit_Inr example_state_def example_row_def spent_since_def)
  have grant: "active_grant example_env (ch_print example_chain 5) 1000 example_state = (Inr example_grant, example_state)"
    unfolding active_grant_Inr
    by (simp add: readSession_def example_publicKey example_state_def example_ledger_def read_account_def example_grant_def
        session_of_args_def write_session_def)
  have balance: "sufficient_balance example_env (ch_print example_chain 5) 25 example_state = (Inr (), example_state)"
    unfolding sufficient_balance_Inr
    by (simp add: getVaultUsdcBalance_def vaultTokenAccount_def example_publicKey example_state_def example_ledger_def
        tokenAccountOf_def)
  have sent: "transferWithSession example_chain (unix_seconds 10000) (Confirmed ''sig'' 7) (ch_print example_chain 5)
      (ch_print example_chain 12) 1000 25 (se_nonce example_grant) example_ledger =
        (Inr \<lparr>cf_signature = ''sig'', cf_slot = 7\<rparr>, example_paid)"
  proof -
    have "recipientTokenAccount example_chain (ch_print example_chain 12) = Inr 514"
      by (simp add: recipientTokenAccount_def example_publicKey tokenAccountOf_def)
    moreover have "mint_matches example_chain example_ledger"
      by (simp add: mint_matches_def example_ledger_def example_config_def)
    moreover have "init_token_account_if_needed example_runtime 1000 514 example_ledger = Inr example_ledger"
      by (simp add: init_token_account_if_needed_def example_ledger_def)
    ultimately show ?thesis
      using example_session_transfer
      by (simp add: transferWithSession_Inr example_publicKey submit_def unix_seconds_def example_grant_def del: exec.simps)
  qed
  let ?t = "example_state\<lparr>rs_ledger := example_paid, rs_spending := [spending_row 10000 example_row (JNum (1 / 40000)) ''sig''],
     rs_audit := [\<lparr>ae_userId = ''user'', ae_action = ''PAYMENT_RELAYED'', ae_status = ''SUCCESS'', ae_txHash = Some ''sig''\<rparr>]\<rparr>"
  have run: "executeSessionTransfer example_env 10000 (Confirmed ''sig'' 7) ''user'' (ch_print example_chain 5)
      (ch_print example_chain 12) ''secret'' (JNum (1 / 40000)) True example_state = (Inr ''sig'', ?t)"
  proof -
    have ledger: "rs_ledger example_state = example_ledger" "rs_spending example_state = []" "rs_audit example_state = []"
      by (simp_all add: example_state_def)
    show ?thesis
      unfolding executeSessionTransfer_def biometric_check_def
      by (simp add: bindS_def key row limit grant balance liftS_def amount on_ledger_def zoomS_def ledger sent
          record_spending_def guardS_def modifyS_def logAuditEvent_def or_null_def returnS_def spending_row_def del: usdToAtomic.simps)
         (simp add: example_state_def example_env_def or_str_def)
  qed
  have rt: "runtime_ok (ch_rt (re_chain example_env))" using example_runtime_ok by simp
  from session_transfer_moves_the_amount [OF rt run] obtain amount' where
    a: "usdToAtomic (JNum (1 / 40000)) = Inr (int amount')"
      "token_balance (rs_ledger ?t) 514 = token_balance example_ledger 514 + amount'"
    by (auto simp: payment_made_def recipientTokenAccount_def example_publicKey tokenAccountOf_def Let_def example_state_def simp del: publicKey_Inr)
  then have "amount' = 25" using amount by simp
  with run a show ?thesis by (intro exI [of _ ?t]) simp
qed


text \<open>The two limits of the service look at the records: a payment that is not counted leaves them as they were, so the
  next one of the same amount passes again, on the chain and in the service.\<close>

theorem uncounted_payment_leaves_the_limits:
  assumes "uncounted R net sig slot" and "executeSessionTransfer R now net u v r secret x skip s = (Inl e, t)"
  shows "assertAvailableDailyLimit now' row y t = (fst (assertAvailableDailyLimit now' row y s), t)"
proof -
  have "rs_spending t = rs_spending s"
  proof (cases "executeSessionTransfer (storing R) now (Confirmed sig slot) u v r secret x skip s")
    case (Pair res t')
    have "res = Inl e' \<Longrightarrow> t' = s" for e'
      using Pair failed_transfer_same [of "Confirmed sig slot" "storing R" now u v r secret x skip]
      unfolding keeps_failing_def by (auto dest!: spec [of _ s])
    with Pair uncounted_payment [OF assms(1), of now u v r secret x skip s] assms(2) show ?thesis by (cases res) auto
  qed
  then show ?thesis by (simp add: assertAvailableDailyLimit_def bindS_def guardS_def getS_def)
qed

text \<open>The check of the daily limit and the record of the payment are two accesses to the database with the transaction
  between them: two payments that overlap are checked against the same records, and their sum may exceed the limit.\<close>

theorem overlapping_payments_pass_the_limit:
  assumes "spent_since (now - DAY_MS) (ssk_id row) (rs_spending s) = 0" and "0 < ssk_dailyLimitUSD row"
    and "ssk_dailyLimitUSD row \<le> ssk_perTxLimitUSD row" and "re_spendingStored R a" "re_spendingStored R b"
  shows "let x = JNum (ssk_dailyLimitUSD row) in
    assertAvailableDailyLimit now row x s = (Inr (), s) \<and>
    ssk_dailyLimitUSD row < spent_since (now - DAY_MS) (ssk_id row)
      (rs_spending (snd (record_spending R now (ssk_id row) x b (snd (record_spending R now (ssk_id row) x a s)))))"
  using assms
  by (simp add: Let_def assertAvailableDailyLimit_Inr record_spending_def bindS_def guardS_def modifyS_def spent_since_def DAY_MS_def)

text \<open>Revoking a session key binds the service only: after a successful \<open>revokeSessionKey\<close> every later
  payment, payment link and cancellation with this key is refused by the service, whatever it has done in
  between, and changes nothing; but the revocation itself left the ledger as it was, where the session is
  as usable as before.\<close>

theorem revocation_binds_the_service_only:
  assumes "relayer_revokeSessionKey now u h s = (Inr (), s1)"
    and "re_keypair R secret = Some k" and "ch_print (re_chain R) k = h"
  shows "rs_ledger s1 = rs_ledger s \<and>
     (let t = relayer_run R ops s1 in
       (\<exists>e. executeSessionTransfer R now' net u' v r secret x skip t = (Inl e, t)) \<and>
       (\<exists>e. relayer_createPaymentLinkWithSession R now' net u' v secret x i c ex t = (Inl e, t)) \<and>
       (\<exists>e. relayer_cancelPaymentLinkWithSession R now' net u' v l secret t = (Inl e, t)))"
proof -
  from assms(1) have led: "rs_ledger s1 = rs_ledger s"
    and "\<exists>row. findUnique (rs_sessionKeys s1) h = Some row \<and> ssk_revokedAt row \<noteq> None"
    by (auto simp: relayer_revokeSessionKey_def handler_simps logAuditEvent_def split: option.splits)
  then obtain row where "findUnique (rs_sessionKeys (relayer_run R ops s1)) h = Some row" "ssk_revokedAt row \<noteq> None"
    using run_rows_kept [of s1 R ops] unfolding rows_kept_def by metis
  then have no: "fst (requireActiveSession R now' u' k (relayer_run R ops s1)) =
      Inl (Forbidden ''Session key is expired, revoked, or inactive'')"
    using assms(3) by (auto simp: requireActiveSession_def session_usable_def bindS_def getS_def guardS_def)
  have key: "fst (session_keypair R secret t) = Inr k" for t :: "'a relayer_state"
    using assms(2) by (simp add: session_keypair_def liftS_def)
  show ?thesis
    using led unfolding executeSessionTransfer_def relayer_createPaymentLinkWithSession_def relayer_cancelPaymentLinkWithSession_def
    by (simp add: Let_def bindS_reads reading_parts key no split: sum.split)
qed

theorem revocation_binds_the_service_only_witness:
  "\<exists>s1 e. relayer_revokeSessionKey 1 ''user'' (ch_print example_chain 1000) example_state = (Inr (), s1) \<and>
     rs_ledger s1 = example_ledger \<and>
     executeSessionTransfer example_env 10000 (Confirmed ''sig'' 7) ''user'' (ch_print example_chain 5) (ch_print example_chain 12)
         ''secret'' (JNum (1 / 40000)) True s1 = (Inl e, s1)"
proof -
  obtain s1 where s1: "relayer_revokeSessionKey 1 ''user'' (ch_print example_chain 1000) example_state = (Inr (), s1)"
    by (simp add: relayer_revokeSessionKey_def bindS_def getS_def guardS_def modifyS_def logAuditEvent_def example_state_def
        findUnique_def example_row_def)
  have k: "re_keypair example_env ''secret'' = Some 1000" "ch_print (re_chain example_env) 1000 = ch_print example_chain 1000"
    by simp_all
  from revocation_binds_the_service_only [OF s1 k, where ops = "[]"] s1 show ?thesis
    by (auto simp: Let_def) (simp add: example_state_def)
qed

end
