(* ===== verification/PaymentLinks.thy ===== *)
theory PaymentLinks
  imports RelayerRuns
begin

text \<open>
  \<open>backend/src/escrow/solana-payment-links.service.ts\<close>: payment links for people who may not have an
  account yet. The money waits in an account of the program, a row of the short links says for whom;
  claiming, cancelling and sweeping go through the relayer. The activity feed, the links into the chat
  platforms and the texts of the log are left out. Rows of the database come in the order of their
  creation, and \<open>findFirst\<close> returns the first.
\<close>

section \<open>Recipients\<close>

definition CLAIM_WINDOW_MS :: int where "CLAIM_WINDOW_MS = 15 * 60 * 1000"
definition MAX_CLAIM_ATTEMPTS :: int where "MAX_CLAIM_ATTEMPTS = 5"
definition LINK_LIFETIME_MS :: int where "LINK_LIFETIME_MS = 24 * 60 * 60 * 1000"

definition linkHandle :: "string \<Rightarrow> string" where
  "linkHandle value = toLowerCase (strip_at (trim value))"

definition paymentLinkRecipientCommitment :: "'pk sdk \<Rightarrow> string \<Rightarrow> string \<Rightarrow> bytes" where
  "paymentLinkRecipientCommitment S platform handle =
     sha256 S (utf8 ''veriagent:solana:payment-link-recipient:v1'' @ [0] @ utf8 (toLowerCase platform) @ [0] @
       utf8 (linkHandle handle))"

definition paymentLinkStatus :: "nat \<Rightarrow> string" where
  "paymentLinkStatus status =
     (if status = 1 then ''CLAIMED'' else if status = 2 then ''CANCELLED'' else if status = 3 then ''EXPIRED'' else ''ACTIVE'')"

definition identities :: "string \<Rightarrow> relayer_user \<Rightarrow> string list" where
  "identities uid u =
     map linkHandle (filter (\<lambda>x. x \<noteq> [])
       (uid # map (\<lambda>x. case x of Some y \<Rightarrow> y | None \<Rightarrow> [])
          [ru_username u, ru_telegramId u, ru_whatsappId u, ru_discordId u, ru_slackId u]))"

text \<open>\<open>user?.smartWallet?.address\<close>, where the empty string counts as missing.\<close>

definition wallet_of :: "relayer_user option \<Rightarrow> string option" where
  "wallet_of user = or_null (case user of Some u \<Rightarrow> map_option wal_address (ru_smartWallet u) | None \<Rightarrow> None)"

definition assertRecipient :: "ShortLink \<Rightarrow> string \<Rightarrow> relayer_user \<Rightarrow> unit http" where
  "assertRecipient link uid claimer =
     (if or_null (sl_toAddress link) \<noteq> None \<and> sl_toAddress link \<noteq> wallet_of (Some claimer)
      then Inl (Forbidden ''This payment belongs to another Solana vault'')
      else
        case or_null (sl_targetUserId link) of
          None \<Rightarrow> Inr ()
        | Some t \<Rightarrow>
            if linkHandle t \<in> set (identities uid claimer) then Inr ()
            else Inl (Forbidden (''This payment was sent specifically to @'' @ linkHandle t)))"

section \<open>Helpers of the handlers\<close>

text \<open>The newest usable session key of a user: \<open>orderBy: { createdAt: 'desc' }, take: 1\<close>.\<close>

fun newest :: "(string \<times> SessionKey) list \<Rightarrow> (string \<times> SessionKey) option" where
  "newest [] = None"
| "newest (x # xs) =
     (case newest xs of
        None \<Rightarrow> Some x
      | Some y \<Rightarrow> if ssk_createdAt (snd x) < ssk_createdAt (snd y) then Some y else Some x)"

definition active_session :: "int \<Rightarrow> string \<Rightarrow> SessionKey table \<Rightarrow> (string \<times> SessionKey) option" where
  "active_session now userId keys =
     newest (filter (\<lambda>(k, r). ssk_userId r = userId \<and> ssk_revokedAt r = None \<and> now < ssk_expiryAt r \<and>
       ssk_activatedAt r \<noteq> None) keys)"

definition session_secret :: "'pk relayer_env \<Rightarrow> string \<times> SessionKey \<Rightarrow> (string, 'pk) relayer_handler" where
  "session_secret R session =
     liftS (js_to_http (decryptSessionKey (re_ciphers R) (re_secrets R) (ssk_encryptedKey (snd session))
       (ssk_encryptedSymmetricKey (snd session)) (Some (fst session))))"

text \<open>\<open>await m.catch(() => undefined)\<close>, and whether \<open>m\<close> returned.\<close>

definition attempted :: "('a, 's) handler \<Rightarrow> (bool, 's) handler" where
  "attempted m s = (case m s of (r, s') \<Rightarrow> (Inr (\<not> failed r), s'))"

text \<open>\<open>update({ where: { id } })\<close>: the row with the identifier.\<close>

definition link_code :: "string \<Rightarrow> ShortLink table \<Rightarrow> string option" where
  "link_code rowId t = map_option fst (find (\<lambda>(c, r). sl_id r = rowId) t)"

definition update_link_by_id :: "string \<Rightarrow> (ShortLink \<Rightarrow> ShortLink) \<Rightarrow> (unit, 'pk) relayer_handler" where
  "update_link_by_id rowId f =
     bindS (getS (\<lambda>s. link_code rowId (rs_shortLinks s))) (\<lambda>code.
     case code of
       None \<Rightarrow> throwS (InternalError ''Record to update not found'')
     | Some c \<Rightarrow> modifyS (rs_shortLinks_update (update_row c f)))"

abbreviation sol_address :: "'pk relayer_env \<Rightarrow> string \<Rightarrow> bool" where
  "sol_address R \<equiv> isSolanaAddress (re_chain R)"

section \<open>Creating\<close>

record CreateEscrowLinkDto =
  ce_senderUserId :: string
  ce_senderVaultAddress :: string
  ce_platform :: string
  ce_recipientHandle :: string
  ce_amount :: js_number
  ce_token :: "string option"
  ce_fromUser :: "string option"

definition link_dto :: "int \<Rightarrow> relayer_user \<Rightarrow> CreateEscrowLinkDto \<Rightarrow> CreateShortLinkDto" where
  "link_dto expiresAt sender dto =
     \<lparr>sd_kind = ''pay'', sd_senderUserId = Some (ce_senderUserId dto), sd_targetUserId = Some (linkHandle (ce_recipientHandle dto)),
      sd_toAddress = None, sd_amount = (case ce_amount dto of JNum x \<Rightarrow> Some x | _ \<Rightarrow> None), sd_token = Some ''USDC'',
      sd_fromUser = or_str (or_str (ce_fromUser dto) (ru_username sender)) (Some ''sender''),
      sd_platform = Some (ce_platform dto), sd_envelopeId = None, sd_merkleProof = None, sd_fundingTxHash = None,
      sd_expiresAt = Some expiresAt, sd_status = Some ''PENDING'', sd_src = None, sd_campaign = None, sd_partner = None,
      sd_channel = None, sd_refCode = None\<rparr>"

definition fund_link ::
    "'pk relayer_env \<Rightarrow> int \<Rightarrow> net_answer \<Rightarrow> string \<Rightarrow> string \<Rightarrow> string \<Rightarrow> CreateEscrowLinkDto \<Rightarrow> (string \<times> string, 'pk) relayer_handler" where
  "fund_link R now net address secret code dto =
     catchS
       (relayer_createPaymentLinkWithSession R now net (ce_senderUserId dto) address secret (ce_amount dto)
          (sha256 (ch_sdk (re_chain R)) (utf8 code))
          (paymentLinkRecipientCommitment (ch_sdk (re_chain R)) (ce_platform dto) (linkHandle (ce_recipientHandle dto)))
          (unix_seconds (now + LINK_LIFETIME_MS)))
       (\<lambda>e. bindS (attempted (update_link code (set_status ''FAILED''))) (\<lambda>_. throwS e))"

definition createClaimLink ::
    "'pk relayer_env \<Rightarrow> int \<Rightarrow> net_answer \<Rightarrow> string \<Rightarrow> string list \<Rightarrow> CreateEscrowLinkDto
     \<Rightarrow> (string \<times> string \<times> string, 'pk) relayer_handler" where
  "createClaimLink R now net rowId codes dto =
     bindS (guardS (toUpperCase (the (or_str (ce_token dto) (Some ''USDC''))) = ''USDC'')
       (BadRequest ''Native Solana payment links currently support USDC'')) (\<lambda>_.
     bindS (guardS (case ce_amount dto of JNum x \<Rightarrow> 0 < x | _ \<Rightarrow> False)
       (BadRequest ''Payment-link amount must be greater than zero'')) (\<lambda>_.
     bindS (getS (\<lambda>s. findUnique (rs_users s) (ce_senderUserId dto))) (\<lambda>sender.
     bindS (guardS (wallet_of sender \<noteq> None)
       (BadRequest ''Sender wallet setup is required before creating a payment link'')) (\<lambda>_.
     let address = the (wallet_of sender) in
     bindS (getS (\<lambda>s. active_session now (ce_senderUserId dto) (rs_sessionKeys s))) (\<lambda>session.
     bindS (guardS (session \<noteq> None) (BadRequest ''No active session key. Authorize a session key and retry.'')) (\<lambda>_.
     bindS (ensureVaultDeployed R address) (\<lambda>_.
     bindS (on_links (shortlink_create now rowId codes (link_dto (now + LINK_LIFETIME_MS) (the sender) dto))) (\<lambda>code.
     bindS (session_secret R (the session)) (\<lambda>secret.
     bindS (fund_link R now net address secret code dto) (\<lambda>(txHash, paymentLink).
     bindS (update_link code (\<lambda>r. r\<lparr>sl_envelopeId := Some paymentLink, sl_fundingTxHash := Some txHash, sl_status := ''ACTIVE''\<rparr>)) (\<lambda>_.
     returnS (code, paymentLink, txHash))))))))))))"

section \<open>Refunding\<close>

text \<open>\<open>refundExpiredLink\<close> returns without doing anything when the row, the sender or the account is
  incomplete; when the account is already settled it copies its status into the row.\<close>

definition refundExpiredLink :: "'pk relayer_env \<Rightarrow> int \<Rightarrow> net_answer \<Rightarrow> ShortLink \<Rightarrow> (unit, 'pk) relayer_handler" where
  "refundExpiredLink R now net link =
     (case (or_null (sl_envelopeId link), or_null (sl_senderUserId link)) of
        (Some e, Some u) \<Rightarrow>
          bindS (getS (\<lambda>s. wallet_of (findUnique (rs_users s) u))) (\<lambda>wallet.
          case wallet of
            None \<Rightarrow> returnS ()
          | Some address \<Rightarrow>
              bindS (relayer_readPaymentLink R e) (\<lambda>state.
              case state of
                None \<Rightarrow> returnS ()
              | Some pl \<Rightarrow>
                  if ln_status pl \<noteq> 0
                  then update_link_by_id (sl_id link) (set_status (paymentLinkStatus (ln_status pl)))
                  else
                    bindS (relayer_refundExpiredPaymentLink R now net address e) (\<lambda>txHash.
                    update_link_by_id (sl_id link) (\<lambda>r. r\<lparr>sl_status := ''EXPIRED'', sl_claimTxHash := Some txHash\<rparr>))))
      | _ \<Rightarrow> returnS ())"

definition expired_links :: "int \<Rightarrow> ShortLink table \<Rightarrow> ShortLink list" where
  "expired_links now t =
     map snd (filter (\<lambda>(c, r). sl_kind r = ''pay'' \<and> sl_status r = ''ACTIVE'' \<and> link_expired now r \<and> sl_envelopeId r \<noteq> None) t)"

fun sweep_links :: "'pk relayer_env \<Rightarrow> int \<Rightarrow> (string \<Rightarrow> net_answer) \<Rightarrow> ShortLink list \<Rightarrow> (ShortLink list, 'pk) relayer_handler" where
  "sweep_links R now nets [] = returnS []"
| "sweep_links R now nets (link # links) =
     bindS (attempted (refundExpiredLink R now (nets (sl_id link)) link)) (\<lambda>finished.
     bindS (sweep_links R now nets links) (\<lambda>refunded.
     returnS (if finished then link # refunded else refunded)))"

definition sweepExpired :: "'pk relayer_env \<Rightarrow> int \<Rightarrow> (string \<Rightarrow> net_answer) \<Rightarrow> (ShortLink list, 'pk) relayer_handler" where
  "sweepExpired R now nets =
     bindS (getS (\<lambda>s. expired_links now (rs_shortLinks s))) (sweep_links R now nets)"

section \<open>Claiming and cancelling\<close>

definition find_claimer :: "string \<Rightarrow> string \<Rightarrow> relayer_user table \<Rightarrow> (string \<times> relayer_user) option" where
  "find_claimer uid address users =
     find (\<lambda>(i, u). i = uid \<or> map_option wal_address (ru_smartWallet u) = Some address) users"

definition expected_amount :: "ShortLink \<Rightarrow> int http" where
  "expected_amount link =
     (let amount = JNum (case sl_amount link of Some x \<Rightarrow> x | None \<Rightarrow> 0) in
      if sl_token link = Some ''SOL'' then linkSolToLamports amount else usdcToAtomic amount)"

definition check_escrow :: "'pk relayer_env \<Rightarrow> ShortLink \<Rightarrow> 'pk PaymentLink option \<Rightarrow> unit http" where
  "check_escrow R link state =
     (case state of
        None \<Rightarrow> Inl (BadRequest ''The Solana payment link is no longer active'')
      | Some pl \<Rightarrow>
          if ln_status pl \<noteq> 0 then Inl (BadRequest ''The Solana payment link is no longer active'')
          else
            let expected = paymentLinkRecipientCommitment (ch_sdk (re_chain R))
                  (the (or_str (sl_platform link) (Some ''web''))) (case sl_targetUserId link of Some t \<Rightarrow> t | None \<Rightarrow> [])
            in if length (ln_recipient_commitment pl) \<noteq> length expected then Inl (InternalError ''RangeError'')
               else if ln_recipient_commitment pl \<noteq> expected
               then Inl (Forbidden ''Payment-link recipient binding does not match'')
               else bindE (expected_amount link) (\<lambda>a.
                    if int (ln_amount pl) \<noteq> a then Inl (BadRequest ''Payment-link amount does not match its on-chain escrow'')
                    else Inr ()))"

definition claim_key :: "string \<Rightarrow> string \<Rightarrow> string" where
  "claim_key code address = ''escrow:claim:'' @ code @ '':'' @ address"

definition limit_attempts :: "bool \<Rightarrow> int \<Rightarrow> string \<Rightarrow> string \<Rightarrow> (unit, 'pk) relayer_handler" where
  "limit_attempts online now code address =
     bindS (zoomS rs_redis rs_redis_update (increment online now (claim_key code address) CLAIM_WINDOW_MS)) (\<lambda>h.
     guardS (totalHits h \<le> MAX_CLAIM_ATTEMPTS) (Forbidden ''Too many claim attempts. Please try again later.''))"

definition active_link :: "'pk relayer_env \<Rightarrow> int \<Rightarrow> net_answer \<Rightarrow> string \<Rightarrow> (ShortLink, 'pk) relayer_handler" where
  "active_link R now net code =
     bindS (on_links (shortlink_resolve (sol_address R) now code)) (\<lambda>link.
     bindS (guardS (sl_status link = ''ACTIVE'')
       (BadRequest (''Claim link is no longer active (status: '' @ sl_status link @ '')''))) (\<lambda>_.
     if link_expired now link
     then bindS (attempted (refundExpiredLink R now net link)) (\<lambda>_. throwS (BadRequest ''Claim link has expired''))
     else
       bindS (guardS (or_null (sl_envelopeId link) \<noteq> None) (BadRequest ''Claim link has no Solana escrow account'')) (\<lambda>_.
       returnS link)))"

definition claim ::
    "'pk relayer_env \<Rightarrow> bool \<Rightarrow> int \<Rightarrow> net_answer \<Rightarrow> string \<Rightarrow> string \<Rightarrow> string \<Rightarrow> (string, 'pk) relayer_handler" where
  "claim R online now net code claimerUserId claimerAddress =
     bindS (limit_attempts online now code claimerAddress) (\<lambda>_.
     bindS (active_link R now net code) (\<lambda>link.
     bindS (getS (\<lambda>s. find_claimer claimerUserId claimerAddress (rs_users s))) (\<lambda>claimer.
     bindS (guardS (wallet_of (map_option snd claimer) \<noteq> None)
       (BadRequest ''Complete passkey wallet setup before claiming'')) (\<lambda>_.
     bindS (liftS (assertRecipient link (fst (the claimer)) (snd (the claimer)))) (\<lambda>_.
     let address = the (wallet_of (map_option snd claimer)); e = the (sl_envelopeId link) in
     bindS (ensureVaultDeployed R address) (\<lambda>_.
     bindS (relayer_readPaymentLink R e) (\<lambda>state.
     bindS (liftS (check_escrow R link state)) (\<lambda>_.
     bindS (relayer_claimPaymentLink R now net e address) (\<lambda>txHash.
     bindS (on_links (shortlink_redeem (sol_address R) now code (fst (the claimer)) txHash)) (\<lambda>_.
     returnS txHash))))))))))"

definition listCancellable :: "string \<Rightarrow> ShortLink table \<Rightarrow> (string \<times> ShortLink) list" where
  "listCancellable senderUserId t =
     take 50 (rev (filter (\<lambda>(c, r). sl_senderUserId r = Some senderUserId \<and> sl_status r = ''ACTIVE'' \<and> sl_kind r = ''pay'') t))"

definition cancelClaimLink :: "'pk relayer_env \<Rightarrow> int \<Rightarrow> net_answer \<Rightarrow> string \<Rightarrow> string \<Rightarrow> (string, 'pk) relayer_handler" where
  "cancelClaimLink R now net code senderUserId =
     bindS (getS (\<lambda>s. findUnique (rs_shortLinks s) code)) (\<lambda>row.
     bindS (guardS (row \<noteq> None) (BadRequest ''Claim link not found'')) (\<lambda>_.
     let link = the row in
     bindS (guardS (sl_senderUserId link = Some senderUserId) (Forbidden ''Only the sender can cancel this payment'')) (\<lambda>_.
     bindS (guardS (sl_status link = ''ACTIVE'')
       (BadRequest (''This payment is no longer active (status: '' @ sl_status link @ '')''))) (\<lambda>_.
     bindS (guardS (or_null (sl_envelopeId link) \<noteq> None) (BadRequest ''Claim link has no Solana escrow account'')) (\<lambda>_.
     bindS (guardS (sl_token link \<noteq> Some ''SOL'')
       (BadRequest ''Native SOL payment links require passkey authorization to cancel'')) (\<lambda>_.
     bindS (getS (\<lambda>s. wallet_of (findUnique (rs_users s) senderUserId))) (\<lambda>wallet.
     bindS (guardS (wallet \<noteq> None) (BadRequest ''Sender wallet not found'')) (\<lambda>_.
     bindS (getS (\<lambda>s. active_session now senderUserId (rs_sessionKeys s))) (\<lambda>session.
     bindS (guardS (session \<noteq> None) (BadRequest ''Authorize a session key before cancelling'')) (\<lambda>_.
     bindS (session_secret R (the session)) (\<lambda>secret.
     bindS (relayer_cancelPaymentLinkWithSession R now net senderUserId (the wallet) (the (sl_envelopeId link)) secret) (\<lambda>txHash.
     bindS (update_link code (\<lambda>r. r\<lparr>sl_status := ''CANCELLED'', sl_claimTxHash := Some txHash\<rparr>)) (\<lambda>_.
     returnS txHash)))))))))))))"

end
