(* ===== verification/Triples.thy ===== *)
theory Triples
  imports Handlers
begin

text \<open>
  Pre- and postconditions of handlers: \<open>triple P m Q E\<close> says that from a state with \<open>P\<close> the handler ends
  with \<open>Q\<close> of its result when it returns and with \<open>E\<close> when it throws. One rule per combinator; a proof
  about a service follows the text of the service.
\<close>

definition triple :: "('s \<Rightarrow> bool) \<Rightarrow> ('a, 's) handler \<Rightarrow> ('a \<Rightarrow> 's \<Rightarrow> bool) \<Rightarrow> ('s \<Rightarrow> bool) \<Rightarrow> bool" where
  "triple P m Q E \<longleftrightarrow>
     (\<forall>s. P s \<longrightarrow> (\<forall>e t. m s = (Inl e, t) \<longrightarrow> E t) \<and> (\<forall>x t. m s = (Inr x, t) \<longrightarrow> Q x t))"

lemma tripleI:
  "(\<And>s e t. P s \<Longrightarrow> m s = (Inl e, t) \<Longrightarrow> E t) \<Longrightarrow> (\<And>s x t. P s \<Longrightarrow> m s = (Inr x, t) \<Longrightarrow> Q x t) \<Longrightarrow> triple P m Q E"
  by (simp add: triple_def)

lemma triple_throws: "triple P m Q E \<Longrightarrow> P s \<Longrightarrow> m s = (Inl e, t) \<Longrightarrow> E t"
  by (simp add: triple_def)

lemma triple_returns: "triple P m Q E \<Longrightarrow> P s \<Longrightarrow> m s = (Inr x, t) \<Longrightarrow> Q x t"
  by (simp add: triple_def)

lemma bindS_Inl: "bindS m f s = (Inl e, t) \<longleftrightarrow> m s = (Inl e, t) \<or> (\<exists>x u. m s = (Inr x, u) \<and> f x u = (Inl e, t))"
  by (auto simp: bindS_def split: prod.splits sum.splits)

abbreviation preserves :: "('s \<Rightarrow> bool) \<Rightarrow> ('a, 's) handler \<Rightarrow> bool" where
  "preserves I m \<equiv> triple I m (\<lambda>_. I) I"

lemma triple_bind: "triple P m Q E \<Longrightarrow> (\<And>x. triple (Q x) (f x) R E) \<Longrightarrow> triple P (bindS m f) R E"
  by (rule tripleI) (auto simp: bindS_Inl bindS_Inr dest: triple_throws triple_returns)

lemma triple_return: "(\<And>s. P s \<Longrightarrow> Q x s) \<Longrightarrow> triple P (returnS x) Q E"
  by (simp add: triple_def returnS_def)

lemma triple_throw: "(\<And>s. P s \<Longrightarrow> E s) \<Longrightarrow> triple P (throwS e) Q E"
  by (simp add: triple_def throwS_def)

lemma triple_get: "triple P (getS g) (\<lambda>x s. P s \<and> x = g s) E"
  by (simp add: triple_def getS_def)

lemma triple_guard: "(\<And>s. P s \<Longrightarrow> E s) \<Longrightarrow> triple P (guardS c e) (\<lambda>_ s. P s \<and> c) E"
  by (simp add: triple_def guardS_def)

lemma triple_lift: "(\<And>s. P s \<Longrightarrow> E s) \<Longrightarrow> triple P (liftS r) (\<lambda>x s. P s \<and> r = Inr x) E"
  by (simp add: triple_def liftS_def split: sum.split)

lemma triple_modify: "(\<And>s. P s \<Longrightarrow> Q () (h s)) \<Longrightarrow> triple P (modifyS h) Q E"
  by (simp add: triple_def modifyS_def)

lemma triple_option: "(x = None \<Longrightarrow> triple P m Q E) \<Longrightarrow> (\<And>y. x = Some y \<Longrightarrow> triple P (f y) Q E) \<Longrightarrow>
    triple P (case x of None \<Rightarrow> m | Some y \<Rightarrow> f y) Q E"
  by (cases x) simp_all

lemma triple_if: "(c \<Longrightarrow> triple P m Q E) \<Longrightarrow> (\<not> c \<Longrightarrow> triple P n Q E) \<Longrightarrow> triple P (if c then m else n) Q E"
  by simp

lemma triple_catch: "triple P m Q E \<Longrightarrow> (\<And>e. triple E (h e) Q F) \<Longrightarrow> triple P (catchS m h) Q F"
  by (rule tripleI) (auto simp: catchS_def split: prod.splits sum.splits dest: triple_throws triple_returns)

lemma triple_weaken:
  "triple P' m Q' E' \<Longrightarrow> (\<And>s. P s \<Longrightarrow> P' s) \<Longrightarrow> (\<And>x s. Q' x s \<Longrightarrow> Q x s) \<Longrightarrow> (\<And>s. E' s \<Longrightarrow> E s) \<Longrightarrow> triple P m Q E"
  by (rule tripleI) (blast dest: triple_throws triple_returns)+

lemma triple_pre: "triple P' m Q E \<Longrightarrow> (\<And>s. P s \<Longrightarrow> P' s) \<Longrightarrow> triple P m Q E"
  by (erule triple_weaken)

lemma triple_conj: "triple P m Q E \<Longrightarrow> triple P' m Q' E' \<Longrightarrow> triple (\<lambda>s. P s \<and> P' s) m (\<lambda>x s. Q x s \<and> Q' x s) (\<lambda>s. E s \<and> E' s)"
  by (rule tripleI) (auto dest: triple_throws triple_returns)

text \<open>A fact about the state that stays true beside a triple.\<close>

lemma triple_frame: "triple P m Q E \<Longrightarrow> preserves F m \<Longrightarrow> triple (\<lambda>s. P s \<and> F s) m (\<lambda>x s. Q x s \<and> F s) (\<lambda>s. E s \<and> F s)"
  by (rule triple_conj)

lemma preserves_keeps: "keeps R m \<Longrightarrow> (\<And>s t. R s t \<Longrightarrow> I s \<Longrightarrow> I t) \<Longrightarrow> preserves I m"
  by (rule tripleI) (metis keeps_def snd_conv)+

lemma preserves_step: "preserves I m \<Longrightarrow> I s \<Longrightarrow> I (snd (m s))"
  by (cases "m s"; cases "fst (m s)") (auto dest: triple_throws triple_returns)

lemma preserves_bind: "preserves I m \<Longrightarrow> (\<And>x. preserves I (f x)) \<Longrightarrow> preserves I (bindS m f)"
  by (rule triple_bind)

lemma preserves_basic:
  "preserves I (returnS x)" "preserves I (throwS e)" "preserves I (getS g)" "preserves I (guardS c e)" "preserves I (liftS r)"
  by (auto simp: triple_def returnS_def throwS_def getS_def guardS_def liftS_def split: sum.split)

text \<open>A step that only has to preserve what is known, and a fact about the result of an earlier step.\<close>

lemma triple_then:
  "preserves P m \<Longrightarrow> (\<And>s. P s \<Longrightarrow> E s) \<Longrightarrow> (\<And>x. triple P (f x) Q E) \<Longrightarrow> triple P (bindS m f) Q E"
  by (rule triple_bind [OF triple_weaken [where P' = P and Q' = "\<lambda>_. P" and E' = P]])

lemma triple_fact: "(C \<Longrightarrow> triple P m Q E) \<Longrightarrow> triple (\<lambda>s. P s \<and> C) m Q E"
  by (auto simp: triple_def)

lemmas preserves_intros = preserves_bind preserves_basic triple_option triple_if

end
