(* ===== verification/LinkRuns.thy ===== *)
theory LinkRuns
  imports PaymentLinks Triples
begin

text \<open>
  Runs of the payment-link service on a ledger that others use as well: the database says that a link is
  claimed, cancelled or refunded only when the ledger says so. The invariant is proved operation by
  operation with the rules of \<open>Triples\<close>.
\<close>

section \<open>A settled link stays settled\<close>

definition settled_kept :: "'pk ledger \<Rightarrow> 'pk ledger \<Rightarrow> bool" where
  "settled_kept lg lg' \<longleftrightarrow>
     (\<forall>l pl. lg_links lg l = Some pl \<longrightarrow> ln_status pl \<noteq> 0 \<longrightarrow> lg_links lg' l = Some pl)"

interpretation settled: frame settled_kept
  by unfold_locales (simp_all add: settled_kept_def)

lemma settled_same_links: "lg_links lg' = lg_links lg \<Longrightarrow> settled_kept lg lg'"
  by (simp add: settled_kept_def)

lemma exec_settled_kept:
  assumes "exec S rt cx call lg = Inr lg'"
  shows "settled_kept lg lg'"
proof (cases "link_open S call")
  case (Some la)
  then obtain l a where "link_open S call = Some (l, a)" by (cases la) simp
  from exec_link_open [OF assms this] show ?thesis by (auto simp: settled_kept_def)
next
  case None
  note no = this
  show ?thesis
  proof (cases "link_settle call")
    case (Some ls)
    then obtain l st where "link_settle call = Some (l, st)" by (cases ls) simp
    from exec_link_settle [OF assms this] show ?thesis by (auto simp: settled_kept_def link_status_defs)
  next
    case None
    with exec_link_same [OF assms no] show ?thesis by (simp add: settled_kept_def)
  qed
qed

lemma run_tx_settled_kept: "run_tx N now sg prev ops lg = Inr lg' \<Longrightarrow> settled_kept lg lg'"
proof (induction N now sg prev ops lg rule: run_tx.induct)
  case (2 N now sg prev k ops lg)
  then obtain lg1 where "init_token_account_if_needed (ch_rt N) (ch_feePayer N) k lg = Inr lg1" "settled_kept lg1 lg'"
    by (auto simp: bindE_Inr_iff)
  then show ?case
    using settled.chained [OF settled_same_links] by (auto dest!: init_token_account_if_neededD simp: same_accounts_def)
next
  case (4 N now sg prev call ops lg)
  then obtain lg1 where "exec (ch_sdk N) (ch_rt N) \<lparr>tx_now = now, tx_signers = sg, tx_previous = prev\<rparr> call lg = Inr lg1"
    "settled_kept lg1 lg'"
    by (auto simp: bindE_Inr_iff simp del: exec.simps)
  then show ?case by (blast intro: settled.chained exec_settled_kept)
qed (auto simp: settled.unchanged)

lemma submit_settled_kept: "keeps settled_kept (submit N now net ops sg)"
  unfolding keeps_def
proof
  fix lg
  show "settled_kept lg (snd (submit N now net ops sg lg))"
    using submit_cases [of N now net ops sg lg] run_tx_settled_kept settled.unchanged by metis
qed

lemmas settled_rules = settled.keeps_bind settled.keeps_pure submit_settled_kept

lemma chain_settled_kept:
  "keeps settled_kept (transferWithSession N now net v r k a n)"
  "keeps settled_kept (chain_createPaymentLinkWithSession N now net v k la n)"
  "keeps settled_kept (chain_claimPaymentLink N now net l v)" "keeps settled_kept (chain_claimSolPaymentLink N now net l v)"
  "keeps settled_kept (chain_cancelPaymentLinkWithSession N now net v l k n)"
  "keeps settled_kept (chain_refundExpiredPaymentLink N now net v l)"
  "keeps settled_kept (chain_refundExpiredSolPaymentLink N now net v l)"
  unfolding transferWithSession_def chain_createPaymentLinkWithSession_def chain_claimPaymentLink_def
    chain_claimSolPaymentLink_def chain_cancelPaymentLinkWithSession_def chain_refundExpiredPaymentLink_def
    chain_refundExpiredSolPaymentLink_def
  by (intro settled_rules)+

text \<open>The status of a link after a transaction that settles it.\<close>

definition link_has_status :: "'pk chain \<Rightarrow> 'pk ledger \<Rightarrow> string \<Rightarrow> nat \<Rightarrow> bool" where
  "link_has_status N lg e st \<longleftrightarrow>
     (\<exists>k pl. ch_parse N e = Some k \<and> lg_links lg k = Some pl \<and> ln_status pl = st)"

lemma submitted_settlement:
  assumes "submit N now net [TxCall call] sg lg = (Inr c, lg')" and "link_settle call = Some (l, st)"
  shows "\<exists>pl. lg_links lg' l = Some pl \<and> ln_status pl = st"
  using submit_Inr [OF assms(1)] exec_link_settle [OF _ assms(2)] unfolding run_tx_call by (metis fun_upd_same)

lemma settling_operations:
  "chain_claimPaymentLink N now net e v lg = (Inr c, lg') \<Longrightarrow> link_has_status N lg' e 1"
  "chain_claimSolPaymentLink N now net e v lg = (Inr c, lg') \<Longrightarrow> link_has_status N lg' e 1"
  "chain_cancelPaymentLinkWithSession N now net v e k n lg = (Inr c, lg') \<Longrightarrow> link_has_status N lg' e 2"
  "chain_refundExpiredPaymentLink N now net v e lg = (Inr c, lg') \<Longrightarrow> link_has_status N lg' e 3"
  "chain_refundExpiredSolPaymentLink N now net v e lg = (Inr c, lg') \<Longrightarrow> link_has_status N lg' e 3"
  unfolding chain_claimPaymentLink_def chain_claimSolPaymentLink_def chain_cancelPaymentLinkWithSession_def
    chain_refundExpiredPaymentLink_def chain_refundExpiredSolPaymentLink_def link_has_status_def
  by (auto simp: handler_simps link_status_defs dest!: submitted_settlement)


section \<open>Rows and accounts\<close>

definition settled_code :: "string \<Rightarrow> nat option" where
  "settled_code st =
     (if st = ''CLAIMED'' then Some 1 else if st = ''CANCELLED'' then Some 2 else if st = ''EXPIRED'' then Some 3 else None)"

abbreviation native_link :: "'pk chain \<Rightarrow> ShortLink \<Rightarrow> bool" where
  "native_link N \<equiv> isNativeSolanaPaymentLink (isSolanaAddress N)"

definition row_match :: "'pk chain \<Rightarrow> 'pk ledger \<Rightarrow> ShortLink \<Rightarrow> bool" where
  "row_match N lg r \<longleftrightarrow>
     (\<forall>st. native_link N r \<longrightarrow> settled_code (sl_status r) = Some st \<longrightarrow> link_has_status N lg (the (sl_envelopeId r)) st)"

text \<open>The rows under the codes \<open>F\<close> are left out: they are the ones that anybody creates through the public route.\<close>

definition table_match :: "string set \<Rightarrow> 'pk chain \<Rightarrow> 'pk ledger \<Rightarrow> ShortLink table \<Rightarrow> bool" where
  "table_match F N lg t \<longleftrightarrow> (\<forall>code r. findUnique t code = Some r \<longrightarrow> code \<notin> F \<longrightarrow> row_match N lg r)"

definition table_ok :: "ShortLink table \<Rightarrow> bool" where
  "table_ok t \<longleftrightarrow> keys_unique t \<and> distinct (map (\<lambda>(c, r). sl_id r) t)"

definition links_inv :: "string set \<Rightarrow> 'pk chain \<Rightarrow> 'pk relayer_state \<Rightarrow> bool" where
  "links_inv F N s \<longleftrightarrow> table_ok (rs_shortLinks s) \<and> table_match F N (rs_ledger s) (rs_shortLinks s)"

lemma settled_code_cases: "settled_code st = Some n \<Longrightarrow> n \<noteq> 0"
  by (auto simp: settled_code_def split: if_splits)

lemma link_has_status_kept: "settled_kept lg lg' \<Longrightarrow> link_has_status N lg e st \<Longrightarrow> st \<noteq> 0 \<Longrightarrow> link_has_status N lg' e st"
  by (auto simp: settled_kept_def link_has_status_def)

lemma row_match_kept: "settled_kept lg lg' \<Longrightarrow> row_match N lg r \<Longrightarrow> row_match N lg' r"
  unfolding row_match_def by (metis link_has_status_kept settled_code_cases)

lemma row_match_open: "settled_code (sl_status r) = None \<Longrightarrow> row_match N lg r"
  by (simp add: row_match_def)

lemma table_match_kept: "settled_kept lg lg' \<Longrightarrow> table_match F N lg t \<Longrightarrow> table_match F N lg' t"
  unfolding table_match_def by (blast intro: row_match_kept)

lemma table_match_update:
  "table_match F N lg t \<Longrightarrow> (\<And>r. findUnique t code = Some r \<Longrightarrow> code \<notin> F \<Longrightarrow> row_match N lg (f r)) \<Longrightarrow> table_match F N lg (update_row code f t)"
  by (auto simp: table_match_def)

lemma table_match_create: "table_match F N lg t \<Longrightarrow> row_match N lg r \<Longrightarrow> table_match F N lg (create_row code r t)"
  by (auto simp: table_match_def findUnique_create split: option.splits if_splits)

lemma table_match_forged: "table_match F N lg t \<Longrightarrow> table_match (insert code F) N lg (create_row code r t)"
  by (auto simp: table_match_def findUnique_create split: option.splits if_splits)

lemma ids_update: "(\<And>r. sl_id (f r) = sl_id r) \<Longrightarrow> map (\<lambda>(c, r). sl_id r) (update_row k f t) = map (\<lambda>(c, r). sl_id r) t"
  by (auto simp: update_row_def)

lemma table_ok_update: "(\<And>r. sl_id (f r) = sl_id r) \<Longrightarrow> table_ok (update_row k f t) = table_ok t"
  by (simp add: table_ok_def ids_update)

lemma table_ok_create:
  "table_ok t \<Longrightarrow> findUnique t k = None \<Longrightarrow> sl_id r \<notin> (\<lambda>(c, r). sl_id r) ` set t \<Longrightarrow> table_ok (create_row k r t)"
  by (simp add: table_ok_def keys_create) (simp add: create_row_def)

text \<open>A record that a handler has read, and its row.\<close>

definition row_is :: "string \<Rightarrow> ShortLink \<Rightarrow> ShortLink table \<Rightarrow> bool" where
  "row_is code link t \<longleftrightarrow>
     (\<exists>r. findUnique t code = Some r \<and> sl_id r = sl_id link \<and> sl_envelopeId r = sl_envelopeId link \<and>
        sl_kind r = sl_kind link)"

lemma row_is_update:
  "(\<And>r. sl_id (f r) = sl_id r) \<Longrightarrow> (\<And>r. sl_envelopeId (f r) = sl_envelopeId r) \<Longrightarrow>
     (\<And>r. sl_kind (f r) = sl_kind r) \<Longrightarrow> row_is code link (update_row k f t) = row_is code link t"
  by (auto simp: row_is_def)

lemma link_code_row:
  assumes "table_ok t" and "row_is code link t"
  shows "link_code (sl_id link) t = Some code"
proof -
  from assms(2) obtain r where r: "(code, r) \<in> set t" "sl_id r = sl_id link"
    by (auto simp: row_is_def findUnique_def dest: map_of_SomeD)
  have unique: "p = q" if "p \<in> set t" "q \<in> set t" "(\<lambda>(c, r). sl_id r) p = (\<lambda>(c, r). sl_id r) q" for p q
    using assms(1) that by (auto simp: table_ok_def distinct_map inj_on_def)
  have "\<exists>x. find (\<lambda>(c, r). sl_id r = sl_id link) t = Some x"
    using r find_None_iff [of "\<lambda>(c, r). sl_id r = sl_id link" t] by (cases "find (\<lambda>(c, r). sl_id r = sl_id link) t") auto
  then obtain x where x: "find (\<lambda>(c, r). sl_id r = sl_id link) t = Some x" by blast
  then have "x \<in> set t" "(\<lambda>(c, r). sl_id r = sl_id link) x" by (auto simp: find_Some_iff dest: nth_mem)
  with unique [OF _ r(1)] r(2) have "x = (code, r)" by (auto simp: case_prod_beta)
  with x show ?thesis by (simp add: link_code_def)
qed

section \<open>The operations keep the invariant\<close>

text \<open>Steps that leave the rows alone and keep what is settled on the ledger.\<close>

definition quiet :: "'pk relayer_state \<Rightarrow> 'pk relayer_state \<Rightarrow> bool" where
  "quiet s t \<longleftrightarrow> rs_shortLinks t = rs_shortLinks s \<and> settled_kept (rs_ledger s) (rs_ledger t)"

interpretation quiet: frame quiet
  by unfold_locales (auto simp: quiet_def settled.unchanged intro: settled.chained)

lemma quiet_on_ledger: "keeps settled_kept m \<Longrightarrow> keeps quiet (on_ledger m)"
  by (simp add: keeps_def on_ledger_def zoomS_def quiet_def split_beta)

lemma quiet_reads: "only_reads m \<Longrightarrow> keeps quiet m"
  by (simp add: keeps_def quiet.unchanged)

lemma quiet_updates:
  "keeps quiet (modifyS (rs_users_update f))" "keeps quiet (modifyS (rs_audit_update g))"
  "keeps quiet (modifyS (rs_spending_update h))" "keeps quiet (zoomS rs_redis rs_redis_update m)"
  by (simp_all add: keeps_def modifyS_def zoomS_def quiet_def settled.unchanged split_beta)

lemma quiet_reading: "(\<And>lg. snd (m lg) = lg) \<Longrightarrow> keeps quiet (on_ledger m)"
  by (rule quiet_on_ledger) (simp add: keeps_def settled.unchanged)

lemmas quiet_rules = quiet.keeps_bind quiet.keeps_pure quiet_updates keeps_option keeps_if
  quiet_reads [OF reading_parts(1)] quiet_reads [OF reading_parts(2)] quiet_reads [OF reading_parts(3)]
  quiet_reads [OF reading_parts(4)] quiet_reads [OF reading_parts(5)]

lemma quiet_operations:
  "keeps quiet (relayer_readPaymentLink R e)" "keeps quiet (ensureVaultDeployed R v)" "keeps quiet (session_secret R p)"
  "keeps quiet (limit_attempts online now code a)" "keeps quiet (relayer_claimPaymentLink R now net e v)"
  "keeps quiet (relayer_cancelPaymentLinkWithSession R now net u v e secret)"
  "keeps quiet (relayer_refundExpiredPaymentLink R now net v e)"
  "keeps quiet (relayer_createPaymentLinkWithSession R now net u v secret x i c ex)"
proof -
  show read: "keeps quiet (relayer_readPaymentLink R e)" for e
    unfolding relayer_readPaymentLink_def by (rule quiet_reading) simp
  show "keeps quiet (ensureVaultDeployed R v)"
    unfolding ensureVaultDeployed_def by (intro quiet_rules quiet_reading snd_conv)
  show "keeps quiet (session_secret R p)" unfolding session_secret_def by (rule quiet.keeps_pure)
  show "keeps quiet (limit_attempts online now code a)" unfolding limit_attempts_def by (intro quiet_rules)
  show "keeps quiet (relayer_claimPaymentLink R now net e v)"
    unfolding relayer_claimPaymentLink_def by (intro quiet_rules read quiet_on_ledger chain_settled_kept)
  show "keeps quiet (relayer_cancelPaymentLinkWithSession R now net u v e secret)"
    unfolding relayer_cancelPaymentLinkWithSession_def by (intro quiet_rules quiet_on_ledger chain_settled_kept)
  show "keeps quiet (relayer_refundExpiredPaymentLink R now net v e)"
    unfolding relayer_refundExpiredPaymentLink_def by (intro quiet_rules read quiet_on_ledger chain_settled_kept)
  show "keeps quiet (relayer_createPaymentLinkWithSession R now net u v secret x i c ex)"
    unfolding relayer_createPaymentLinkWithSession_def record_spending_def split_beta
    by (intro quiet_rules quiet_on_ledger chain_settled_kept)
qed


lemma quiet_inv: "quiet s t \<Longrightarrow> links_inv F N s \<Longrightarrow> links_inv F N t"
  by (auto simp: quiet_def links_inv_def intro: table_match_kept)

abbreviation inv_row :: "string set \<Rightarrow> 'pk relayer_env \<Rightarrow> string \<Rightarrow> ShortLink \<Rightarrow> 'pk relayer_state \<Rightarrow> bool" where
  "inv_row F R code link s \<equiv> links_inv F (re_chain R) s \<and> row_is code link (rs_shortLinks s)"

lemma quiet_inv_row: "quiet s t \<Longrightarrow> inv_row F R code link s \<Longrightarrow> inv_row F R code link t"
  using quiet_inv by (auto simp: quiet_def)

lemma inv_quiet: "keeps quiet m \<Longrightarrow> preserves (links_inv F N) m"
  by (erule preserves_keeps) (rule quiet_inv)

lemma row_quiet: "keeps quiet m \<Longrightarrow> preserves (inv_row F R code link) m"
  by (erule preserves_keeps) (rule quiet_inv_row)

text \<open>Updates of the row of a link that change its status.\<close>

lemma update_status_inv:
  assumes "links_inv F N s" and "\<And>r. sl_id (f r) = sl_id r"
    and "\<And>r. findUnique (rs_shortLinks s) code = Some r \<Longrightarrow> code \<notin> F \<Longrightarrow> row_match N (rs_ledger s) (f r)"
  shows "links_inv F N (rs_shortLinks_update (update_row code f) s)"
  using assms by (auto simp: links_inv_def table_ok_update intro: table_match_update)

lemma settling_update:
  assumes "row_is code link (rs_shortLinks s)" and "sl_envelopeId link = Some e"
    and "link_has_status N (rs_ledger s) e st" and "settled_code status = Some st"
    and "\<And>r. sl_envelopeId (f r) = sl_envelopeId r" and "\<And>r. sl_status (f r) = status"
    and "findUnique (rs_shortLinks s) code = Some r"
  shows "row_match N (rs_ledger s) (f r)"
  using assms by (auto simp: row_is_def row_match_def)

lemma resolve_triple:
  "triple (links_inv F (re_chain R)) (on_links (shortlink_resolve (sol_address R) now code)) (\<lambda>link. inv_row F R code link)
     (links_inv F (re_chain R))"
proof (rule tripleI)
  let ?N = "re_chain R"
  fix s e t assume "links_inv F ?N s" "on_links (shortlink_resolve (sol_address R) now code) s = (Inl e, t)"
  then show "links_inv F ?N t" by (auto simp: on_links_def zoomS_def shortlink_resolve_def Let_def split: option.splits prod.splits)
next
  let ?N = "re_chain R"
  fix s link t
  assume inv: "links_inv F ?N s" and run: "on_links (shortlink_resolve (sol_address R) now code) s = (Inr link, t)"
  from run obtain r where r: "findUnique (rs_shortLinks s) code = Some r"
    and link: "sl_id link = sl_id r" "sl_envelopeId link = sl_envelopeId r" "sl_kind link = sl_kind r"
    and t: "t = rs_shortLinks_update (update_row code (\<lambda>r. r\<lparr>sl_clickCount := sl_clickCount r + 1\<rparr>))
        (if sl_status r = ''ACTIVE'' \<and> link_expired now r \<and> \<not> native_link ?N r
         then rs_shortLinks_update (update_row code (set_status ''EXPIRED'')) s else s)"
    by (auto simp: on_links_Inr shortlink_resolve_def Let_def set_status_def split: option.splits if_splits)
  have click: "row_match ?N lg (q\<lparr>sl_clickCount := n\<rparr>) = row_match ?N lg q" for lg q n
    by (simp add: row_match_def isNativeSolanaPaymentLink_def)
  have expire: "links_inv F ?N (rs_shortLinks_update (update_row code (set_status ''EXPIRED'')) s)"
    if "\<not> native_link ?N r"
    using that r by (intro update_status_inv [OF inv]) (auto simp: set_status_def row_match_def isNativeSolanaPaymentLink_def)
  have clicked: "links_inv F ?N (rs_shortLinks_update (update_row code (\<lambda>r. r\<lparr>sl_clickCount := sl_clickCount r + 1\<rparr>)) u)"
    if "links_inv F ?N u" for u
    by (rule update_status_inv [OF that]) (use that in \<open>simp_all add: click links_inv_def table_match_def\<close>)
  have inv': "links_inv F ?N t"
    unfolding t by (rule clicked) (use inv expire in simp)
  have "row_is code link (rs_shortLinks t)"
    using r link by (auto simp: t row_is_def set_status_def)
  with inv' show "inv_row F R code link t" by simp
qed

lemma id_update_triple:
  assumes "\<And>r. sl_id (f r) = sl_id r" and "\<And>r. sl_envelopeId (f r) = sl_envelopeId r" and "\<And>r. sl_kind (f r) = sl_kind r"
    and "\<And>s. P s \<Longrightarrow> inv_row F R code link s"
    and "\<And>s r. P s \<Longrightarrow> findUnique (rs_shortLinks s) code = Some r \<Longrightarrow> row_match (re_chain R) (rs_ledger s) (f r)"
  shows "triple P (update_link_by_id (sl_id link) f) (\<lambda>_. inv_row F R code link) (inv_row F R code link)"
  unfolding update_link_by_id_def
proof (rule triple_bind [OF triple_get], rule triple_option)
  fix c :: "string option" assume "c = None"
  show "triple (\<lambda>s. P s \<and> c = link_code (sl_id link) (rs_shortLinks s)) (throwS (InternalError ''Record to update not found''))
      (\<lambda>_. inv_row F R code link) (inv_row F R code link)"
    by (rule triple_throw) (use assms(4) in blast)
next
  fix c :: "string option" and k assume "c = Some k"
  show "triple (\<lambda>s. P s \<and> c = link_code (sl_id link) (rs_shortLinks s)) (modifyS (rs_shortLinks_update (update_row k f)))
      (\<lambda>_. inv_row F R code link) (inv_row F R code link)"
  proof (rule triple_modify, elim conjE)
    fix s assume s: "P s" "c = link_code (sl_id link) (rs_shortLinks s)"
    note row = assms(4) [OF s(1)]
    with s(2) \<open>c = Some k\<close> have k: "k = code" using link_code_row by (auto simp: links_inv_def)
    have "links_inv F (re_chain R) (rs_shortLinks_update (update_row k f) s)"
      using row s(1) k by (intro update_status_inv) (auto intro: assms)
    with row show "inv_row F R code link (rs_shortLinks_update (update_row k f) s)"
      by (simp add: row_is_update assms(1,2,3))
  qed
qed

text \<open>\<open>refundExpiredLink\<close>: it copies the status of the account, or settles the account first.\<close>

lemma ledger_read:
  "triple P (relayer_readPaymentLink R e)
     (\<lambda>x s. P s \<and> readPaymentLink (re_chain R) e (rs_ledger s) = Inr x) P"
  by (rule tripleI) (auto simp: relayer_readPaymentLink_def on_ledger_def zoomS_def split: prod.splits)

lemma settled_by_operation:
  "relayer_claimPaymentLink R now net e v s = (Inr sig, t) \<Longrightarrow> link_has_status (re_chain R) (rs_ledger t) e 1"
  "relayer_cancelPaymentLinkWithSession R now net u v e secret s = (Inr sig, t) \<Longrightarrow>
     link_has_status (re_chain R) (rs_ledger t) e 2"
  "relayer_refundExpiredPaymentLink R now net v e s = (Inr sig, t) \<Longrightarrow> link_has_status (re_chain R) (rs_ledger t) e 3"
  by (auto simp: relayer_claimPaymentLink_def relayer_cancelPaymentLinkWithSession_def relayer_refundExpiredPaymentLink_def
      handler_simps split: option.splits if_splits dest!: settling_operations)

lemma settling_triple:
  assumes "keeps quiet m" and "\<And>s x t. m s = (Inr x, t) \<Longrightarrow> K t"
  shows "triple (inv_row F R code link) m (\<lambda>_ s. inv_row F R code link s \<and> K s) (inv_row F R code link)"
proof -
  have "quiet s t" if "m s = (r, t)" for s r t using assms(1) that by (metis keeps_def snd_conv)
  then show ?thesis using assms(2) quiet_inv_row by (intro tripleI) blast+
qed

lemma settling_step:
  "triple (inv_row F R code link) (relayer_claimPaymentLink R now net e v)
     (\<lambda>_ s. inv_row F R code link s \<and> link_has_status (re_chain R) (rs_ledger s) e 1) (inv_row F R code link)"
  "triple (inv_row F R code link) (relayer_cancelPaymentLinkWithSession R now net u v e secret)
     (\<lambda>_ s. inv_row F R code link s \<and> link_has_status (re_chain R) (rs_ledger s) e 2) (inv_row F R code link)"
  "triple (inv_row F R code link) (relayer_refundExpiredPaymentLink R now net v e)
     (\<lambda>_ s. inv_row F R code link s \<and> link_has_status (re_chain R) (rs_ledger s) e 3) (inv_row F R code link)"
  by (rule settling_triple, rule quiet_operations, erule settled_by_operation)+

lemma read_status: "readPaymentLink N e lg = Inr (Some pl) \<Longrightarrow> link_has_status N lg e (ln_status pl)"
  by (auto simp: readPaymentLink_def bindE_Inr_iff read_account_def link_has_status_def split: option.splits if_splits)

lemma copied_status: "settled_code (paymentLinkStatus n) = (if n = 1 \<or> n = 2 \<or> n = 3 then Some n else None)"
  by (simp add: settled_code_def paymentLinkStatus_def)

lemma or_null_Some: "or_null x = Some e \<Longrightarrow> x = Some e"
  by (cases x) (auto simp: or_null_def or_str_def split: if_splits)

lemma refund_triple:
  "triple (inv_row F R code link) (refundExpiredLink R now net link) (\<lambda>_. inv_row F R code link) (inv_row F R code link)"
proof -
  let ?N = "re_chain R"
  have copy: "triple (\<lambda>s. inv_row F R code link s \<and> readPaymentLink ?N e (rs_ledger s) = Inr (Some pl))
      (update_link_by_id (sl_id link) (set_status (paymentLinkStatus (ln_status pl))))
      (\<lambda>_. inv_row F R code link) (inv_row F R code link)"
    if e: "sl_envelopeId link = Some e" for e pl
  proof (rule id_update_triple)
    fix s r assume s: "inv_row F R code link s \<and> readPaymentLink ?N e (rs_ledger s) = Inr (Some pl)"
      and r: "findUnique (rs_shortLinks s) code = Some r"
    then have "sl_envelopeId r = Some e" using e by (auto simp: row_is_def)
    with s read_status [of ?N e "rs_ledger s" pl] show "row_match ?N (rs_ledger s) (set_status (paymentLinkStatus (ln_status pl)) r)"
      by (auto simp: row_match_def set_status_def copied_status split: if_splits)
  qed (auto simp: set_status_def)
  have refund: "triple (inv_row F R code link)
      (bindS (relayer_refundExpiredPaymentLink R now net address e)
        (\<lambda>txHash. update_link_by_id (sl_id link) (\<lambda>r. r\<lparr>sl_status := ''EXPIRED'', sl_claimTxHash := Some txHash\<rparr>)))
      (\<lambda>_. inv_row F R code link) (inv_row F R code link)"
    if e: "sl_envelopeId link = Some e" for e address
    by (rule triple_bind [OF settling_step(3)], rule id_update_triple)
       (use e in \<open>auto intro: settling_update [where status = "''EXPIRED''"] simp: settled_code_def\<close>)
  show ?thesis
    unfolding refundExpiredLink_def
    apply (cases "or_null (sl_envelopeId link)"; cases "or_null (sl_senderUserId link)"; simp)
       apply (auto intro: preserves_basic)[3]
    subgoal for e u
      apply (rule triple_bind [OF preserves_basic(3)], rule triple_option, rule preserves_basic)
      apply (rule triple_bind [OF ledger_read], rule triple_option)
       apply (rule triple_return, simp)
      apply (rule triple_if)
       apply (simp only: copy or_null_Some)
      apply (rule triple_weaken [OF refund [OF or_null_Some]], assumption, simp_all)
      done
    done
qed


lemma attempted_triple: "triple P m (\<lambda>_. Q) Q \<Longrightarrow> triple P (attempted m) (\<lambda>_. Q) E"
proof (rule tripleI)
  assume m: "triple P m (\<lambda>_. Q) Q"
  show "E t" if "attempted m s = (Inl e, t)" for s e t using that by (simp add: attempted_def split: prod.splits)
  show "Q t" if s: "P s" and run: "attempted m s = (Inr x, t)" for s x t
  proof -
    obtain r where r: "m s = (r, t)" using run by (auto simp: attempted_def split: prod.splits)
    then show ?thesis by (cases r) (auto dest: triple_throws [OF m s] triple_returns [OF m s])
  qed
qed

text \<open>The sweep: the rows that were read at the start stay the rows of their records.\<close>

abbreviation has_row :: "ShortLink \<Rightarrow> 'pk relayer_state \<Rightarrow> bool" where
  "has_row link s \<equiv> \<exists>code. row_is code link (rs_shortLinks s)"

lemma rows_preserved:
  "preserves (\<lambda>s. row_is code l (rs_shortLinks s)) (refundExpiredLink R now net link)"
proof -
  let ?P = "\<lambda>s. row_is code l (rs_shortLinks s)"
  have q: "preserves ?P m" if "keeps quiet m" for m :: "('b, 'a) relayer_handler"
    by (rule preserves_keeps [OF that]) (simp add: quiet_def)
  have u: "preserves ?P (update_link_by_id i f)"
    if "\<And>r. sl_id (f r) = sl_id r" "\<And>r. sl_envelopeId (f r) = sl_envelopeId r" "\<And>r. sl_kind (f r) = sl_kind r" for i f
    unfolding update_link_by_id_def
    by (intro preserves_intros triple_modify) (simp add: row_is_update that)
  show ?thesis
    unfolding refundExpiredLink_def
    by (cases "or_null (sl_envelopeId link)"; cases "or_null (sl_senderUserId link)"; simp)
       (intro preserves_intros q quiet_operations u; simp add: set_status_def)+
qed

lemma refund_all_rows:
  "preserves (\<lambda>s. \<forall>l \<in> set ls. has_row l s) (refundExpiredLink R now net link)"
proof (rule tripleI)
  show "\<forall>l \<in> set ls. has_row l t" if "\<forall>l \<in> set ls. has_row l s" "refundExpiredLink R now net link s = (Inl e, t)" for s e t
    using that rows_preserved [of _ _ R now net link] by (meson triple_throws)
  show "\<forall>l \<in> set ls. has_row l t" if "\<forall>l \<in> set ls. has_row l s" "refundExpiredLink R now net link s = (Inr x, t)" for s x t
    using that rows_preserved [of _ _ R now net link] by (meson triple_returns)
qed

lemma refund_has_row:
  "triple (\<lambda>s. links_inv F (re_chain R) s \<and> has_row link s) (refundExpiredLink R now net link) (\<lambda>_. links_inv F (re_chain R))
     (links_inv F (re_chain R))"
  using refund_triple [of F R _ link now net] unfolding triple_def by blast

lemma sweep_triple:
  "triple (\<lambda>s. links_inv F (re_chain R) s \<and> (\<forall>l \<in> set ls. has_row l s)) (sweep_links R now nets ls)
     (\<lambda>_. links_inv F (re_chain R)) (links_inv F (re_chain R))"
proof (induction ls)
  case Nil
  show ?case by (simp add: triple_return)
next
  case (Cons l ls)
  have "triple (\<lambda>s. (links_inv F (re_chain R) s \<and> has_row l s) \<and> (\<forall>l \<in> set ls. has_row l s))
      (refundExpiredLink R now (nets (sl_id l)) l)
      (\<lambda>_ s. links_inv F (re_chain R) s \<and> (\<forall>l \<in> set ls. has_row l s)) (\<lambda>s. links_inv F (re_chain R) s \<and> (\<forall>l \<in> set ls. has_row l s))"
    by (rule triple_frame [OF refund_has_row refund_all_rows])
  then have first: "triple (\<lambda>s. links_inv F (re_chain R) s \<and> (\<forall>k \<in> set (l # ls). has_row k s))
      (attempted (refundExpiredLink R now (nets (sl_id l)) l))
      (\<lambda>_ s. links_inv F (re_chain R) s \<and> (\<forall>k \<in> set ls. has_row k s)) (links_inv F (re_chain R))"
    by (intro attempted_triple) (rule triple_weaken, assumption, auto)
  show ?case
    by (simp only: sweep_links.simps)
       (rule triple_bind [OF first], rule triple_bind [OF Cons.IH], rule triple_return)
qed

lemma expired_have_rows:
  assumes "table_ok (rs_shortLinks s)" and "link \<in> set (expired_links now (rs_shortLinks s))"
  shows "has_row link s"
proof -
  from assms(2) obtain c where "(c, link) \<in> set (rs_shortLinks s)" by (auto simp: expired_links_def)
  with assms(1) have "findUnique (rs_shortLinks s) c = Some link" by (auto simp: table_ok_def findUnique_def keys_unique_def)
  then show ?thesis unfolding row_is_def by blast
qed

lemma sweepExpired_inv: "preserves (links_inv F (re_chain R)) (sweepExpired R now nets)"
  unfolding sweepExpired_def
  by (rule triple_bind [OF triple_get], rule triple_weaken [OF sweep_triple])
     (auto simp: links_inv_def dest: expired_have_rows)


text \<open>Operations on the table of links, step by step.\<close>

lemma on_links_bind: "on_links (bindS m f) = bindS (on_links m) (\<lambda>x. on_links (f x))"
  by (rule ext) (auto simp: on_links_def zoomS_def bindS_def split: prod.split sum.split)

lemma on_links_steps:
  "on_links (guardS c e) = guardS c e" "on_links (throwS e) = throwS e" "on_links (modifyS h) = modifyS (rs_shortLinks_update h)"
  "on_links (if c then a else b) = (if c then on_links a else on_links b)"
  by (auto simp: on_links_def zoomS_def guardS_def throwS_def modifyS_def fun_eq_iff intro!: relayer_state.equality)

lemma on_links_result: "on_links m s = (r, t) \<Longrightarrow> rs_shortLinks t = snd (m (rs_shortLinks s)) \<and> rs_ledger t = rs_ledger s"
  by (auto simp: on_links_def zoomS_def split_beta)

lemma resolve_keeps_row: "preserves (\<lambda>s. row_is c l (rs_shortLinks s)) (on_links (shortlink_resolve sol now code))"
proof -
  have "row_is c l (snd (shortlink_resolve sol now code t)) = row_is c l t" for t
    by (simp add: shortlink_resolve_def Let_def row_is_update set_status_def split: option.split)
  then show ?thesis by (intro tripleI) (simp_all add: on_links_result)
qed

lemma on_links_ledger: "preserves (\<lambda>s. P (rs_ledger s)) (on_links m)"
  by (rule tripleI) (simp_all add: on_links_result)

lemma redeem_triple:
  assumes "sl_envelopeId link = Some e"
  shows "triple (\<lambda>s. inv_row F R code link s \<and> link_has_status (re_chain R) (rs_ledger s) e 1)
    (on_links (shortlink_redeem (sol_address R) now code cid txHash)) (\<lambda>_. links_inv F (re_chain R)) (links_inv F (re_chain R))"
proof -
  let ?N = "re_chain R"
  let ?K = "\<lambda>s. row_is code link (rs_shortLinks s) \<and> link_has_status ?N (rs_ledger s) e 1"
  have resolve: "triple (\<lambda>s. inv_row F R code link s \<and> link_has_status ?N (rs_ledger s) e 1) (on_links (shortlink_resolve (sol_address R) now code))
      (\<lambda>r s. inv_row F R code r s \<and> ?K s) (links_inv F ?N)"
    by (rule triple_weaken, rule triple_frame [OF resolve_triple triple_conj
          [OF resolve_keeps_row on_links_ledger [where P = "\<lambda>lg. link_has_status ?N lg e 1"]]]) auto
  have claimed: "row_match ?N (rs_ledger s) (q\<lparr>sl_status := ''CLAIMED'', sl_claimedAt := a, sl_claimedBy := b, sl_claimTxHash := h\<rparr>)"
    if "?K s" "findUnique (rs_shortLinks s) code = Some q" for s q a b h
    using that assms by (auto simp: row_match_def settled_code_def row_is_def)
  have expired: "row_match ?N (rs_ledger s) (set_status ''EXPIRED'' q)"
    if "row_is code r (rs_shortLinks s)" "\<not> native_link ?N r" "findUnique (rs_shortLinks s) code = Some q" for s q r
    using that by (auto simp: row_match_def row_is_def set_status_def isNativeSolanaPaymentLink_def)
  show ?thesis
    unfolding shortlink_redeem_def on_links_bind on_links_steps
  proof (rule triple_bind [OF resolve], rule triple_then [OF preserves_basic(4)], simp, rule triple_if)
    fix r assume "link_expired now r \<and> \<not> native_link ?N r"
    then have "triple (\<lambda>s. inv_row F R code r s \<and> ?K s) (modifyS (rs_shortLinks_update (update_row code (set_status ''EXPIRED''))))
        (\<lambda>_. links_inv F ?N) (links_inv F ?N)"
      by (intro triple_modify update_status_inv) (auto simp: set_status_def dest: expired)
    then show "triple (\<lambda>s. inv_row F R code r s \<and> ?K s)
        (bindS (modifyS (rs_shortLinks_update (update_row code (set_status ''EXPIRED''))))
          (\<lambda>_. throwS (BadRequest (''Short link code '' @ quoted code @ '' has expired''))))
        (\<lambda>_. links_inv F ?N) (links_inv F ?N)"
      by (rule triple_bind) (rule triple_throw)
  next
    fix r
    show "triple (\<lambda>s. inv_row F R code r s \<and> ?K s)
        (modifyS (rs_shortLinks_update (update_row code (\<lambda>r. r\<lparr>sl_status := ''CLAIMED'', sl_claimedAt := Some now,
            sl_claimedBy := Some cid, sl_claimTxHash := Some txHash\<rparr>))))
        (\<lambda>_. links_inv F ?N) (links_inv F ?N)"
      by (intro triple_modify update_status_inv) (auto intro: claimed)
  qed
qed

lemma active_link_triple:
  "triple (links_inv F (re_chain R)) (active_link R now net code)
     (\<lambda>link s. inv_row F R code link s \<and> or_null (sl_envelopeId link) \<noteq> None) (links_inv F (re_chain R))"
  unfolding active_link_def
proof (rule triple_bind [OF resolve_triple], rule triple_then [OF preserves_basic(4)], simp, rule triple_if)
  fix link
  have "triple (inv_row F R code link) (attempted (refundExpiredLink R now net link)) (\<lambda>_. inv_row F R code link) (links_inv F (re_chain R))"
    by (rule attempted_triple [OF refund_triple])
  then show "triple (inv_row F R code link)
      (bindS (attempted (refundExpiredLink R now net link)) (\<lambda>_. throwS (BadRequest ''Claim link has expired'')))
      (\<lambda>link s. inv_row F R code link s \<and> or_null (sl_envelopeId link) \<noteq> None) (links_inv F (re_chain R))"
    by (rule triple_bind) (rule triple_throw, blast)
next
  fix link
  show "triple (inv_row F R code link)
      (bindS (guardS (or_null (sl_envelopeId link) \<noteq> None) (BadRequest ''Claim link has no Solana escrow account''))
        (\<lambda>_. returnS link))
      (\<lambda>link s. inv_row F R code link s \<and> or_null (sl_envelopeId link) \<noteq> None) (links_inv F (re_chain R))"
    by (rule triple_bind [OF triple_guard], blast, rule triple_return, blast)
qed

lemma claim_inv: "preserves (links_inv F (re_chain R)) (claim R online now net code uid address)"
proof -
  let ?N = "re_chain R"
  have rest: "triple (inv_row F R code link)
      (bindS (relayer_claimPaymentLink R now net (the (sl_envelopeId link)) v) (\<lambda>h.
       bindS (on_links (shortlink_redeem (sol_address R) now code cid h)) (\<lambda>_. returnS h)))
      (\<lambda>_. links_inv F ?N) (links_inv F ?N)" if some: "or_null (sl_envelopeId link) \<noteq> None" for link v cid
  proof -
    obtain e where e: "sl_envelopeId link = Some e" using some by (auto dest: or_null_Some)
    have "triple (inv_row F R code link) (relayer_claimPaymentLink R now net e v)
        (\<lambda>_ s. inv_row F R code link s \<and> link_has_status ?N (rs_ledger s) e 1) (links_inv F ?N)"
      by (rule triple_weaken [OF settling_step(1)]) auto
    then show ?thesis
      unfolding e option.sel
      by (rule triple_bind) (rule triple_bind [OF redeem_triple [OF e]], simp add: triple_return)
  qed
  show ?thesis
    unfolding claim_def Let_def
    apply (rule triple_bind [OF inv_quiet [OF quiet_operations(4)]])
    apply (rule triple_bind [OF active_link_triple], rule triple_fact)
    apply (rule triple_then [OF preserves_basic(3)], blast)
    apply (rule triple_then [OF preserves_basic(4)], blast)
    apply (rule triple_then [OF preserves_basic(5)], blast)
    apply (rule triple_then [OF row_quiet [OF quiet_operations(2)]], blast)
    apply (rule triple_then [OF row_quiet [OF quiet_operations(1)]], blast)
    apply (rule triple_then [OF preserves_basic(5)], blast)
    apply (rule rest, assumption)
    done
qed


lemma update_link_open:
  assumes "\<And>r. sl_id (f r) = sl_id r" and "\<And>r. settled_code (sl_status (f r)) = None"
  shows "preserves (links_inv F N) (update_link code f)"
  unfolding update_link_def
proof (intro preserves_bind preserves_basic)
  show "preserves (links_inv F N) (modifyS (rs_shortLinks_update (update_row code f)))"
    by (rule triple_modify, erule update_status_inv) (simp_all add: assms row_match_open)
qed

lemma cancel_inv: "preserves (links_inv F (re_chain R)) (cancelClaimLink R now net code uid)"
proof -
  let ?N = "re_chain R"
  have settle: "triple (inv_row F R code link)
      (bindS (relayer_cancelPaymentLinkWithSession R now net u v (the (sl_envelopeId link)) secret) (\<lambda>h.
       bindS (update_link code (\<lambda>r. r\<lparr>sl_status := ''CANCELLED'', sl_claimTxHash := Some h\<rparr>)) (\<lambda>_. returnS h)))
      (\<lambda>_. links_inv F ?N) (links_inv F ?N)" if some: "or_null (sl_envelopeId link) \<noteq> None" for link u v secret
  proof -
    obtain e where e: "sl_envelopeId link = Some e" using some by (auto dest: or_null_Some)
    let ?P = "\<lambda>s. inv_row F R code link s \<and> link_has_status ?N (rs_ledger s) e 2"
    have sent: "triple (inv_row F R code link) (relayer_cancelPaymentLinkWithSession R now net u v e secret) (\<lambda>_. ?P) (links_inv F ?N)"
      by (rule triple_weaken [OF settling_step(2)]) auto
    have "triple ?P (update_link code (\<lambda>r. r\<lparr>sl_status := ''CANCELLED'', sl_claimTxHash := Some h\<rparr>)) (\<lambda>_. links_inv F ?N) (links_inv F ?N)"
      for h
      unfolding update_link_def
    proof (rule triple_then [OF preserves_basic(3)], blast, rule triple_then [OF preserves_basic(4)], blast, rule triple_modify)
      fix s assume "?P s"
      then show "links_inv F ?N (rs_shortLinks_update (update_row code (\<lambda>r. r\<lparr>sl_status := ''CANCELLED'', sl_claimTxHash := Some h\<rparr>)) s)"
        using e by (intro update_status_inv) (auto intro: settling_update [where status = "''CANCELLED''"] simp: settled_code_def)
    qed
    then show ?thesis
      unfolding e option.sel by (rule triple_bind [OF sent triple_bind]) (rule triple_return)
  qed
  have found: "links_inv F ?N s \<and> row = findUnique (rs_shortLinks s) code \<Longrightarrow> row \<noteq> None \<Longrightarrow> inv_row F R code (the row) s" for row s
    by (auto simp: row_is_def)
  show ?thesis
    unfolding cancelClaimLink_def Let_def
    apply (rule triple_bind [OF triple_get])
    apply (rule triple_bind [OF triple_guard], blast)
    apply (rule triple_pre)
     prefer 2
     apply (erule conjE, rule found, assumption, assumption)
    apply (rule triple_then [OF preserves_basic(4)], blast)
    apply (rule triple_then [OF preserves_basic(4)], blast)
    apply (rule triple_bind [OF triple_guard], blast, rule triple_fact)
    apply (rule triple_then [OF preserves_basic(4)], blast)
    apply (rule triple_then [OF preserves_basic(3)], blast)
    apply (rule triple_then [OF preserves_basic(4)], blast)
    apply (rule triple_then [OF preserves_basic(3)], blast)
    apply (rule triple_then [OF preserves_basic(4)], blast)
    apply (rule triple_then [OF row_quiet [OF quiet_operations(3)]], blast)
    apply (rule settle, assumption)
    done
qed

text \<open>A new row is pending until its escrow is funded, and failed when that fails.\<close>

definition fresh_id :: "string \<Rightarrow> 'pk relayer_state \<Rightarrow> bool" where
  "fresh_id rowId s \<longleftrightarrow> rowId \<notin> (\<lambda>(c, r). sl_id r) ` set (rs_shortLinks s)"

lemma shortlink_create_Inr:
  assumes "shortlink_create now rowId codes dto t = (Inr code, t')"
  shows "free_code 5 codes t = Some code \<and>
    (\<exists>r. t' = create_row code r t \<and> sl_id r = rowId \<and>
       sl_status r = (case or_null (sd_status dto) of Some st \<Rightarrow> st | None \<Rightarrow> ''ACTIVE''))"
proof (cases "free_code 5 codes t")
  case (Some c)
  with assms show ?thesis unfolding shortlink_create_def option.case by (intro conjI) (simp, intro exI conjI, auto)
qed (use assms in \<open>simp add: shortlink_create_def\<close>)

lemma create_row_inv:
  "triple (\<lambda>s. links_inv F N s \<and> fresh_id rowId s) (on_links (shortlink_create now rowId codes (link_dto ex sender dto)))
     (\<lambda>_. links_inv F N) (links_inv F N)"
proof (rule tripleI)
  let ?create = "shortlink_create now rowId codes (link_dto ex sender dto)"
  show "links_inv F N t" if inv: "links_inv F N s \<and> fresh_id rowId s" and run: "on_links ?create s = (Inl e, t)" for s e t
  proof (cases "free_code 5 codes (rs_shortLinks s)")
    case None
    then have "?create (rs_shortLinks s) = (Inl (BadRequest ''Failed to generate a unique short link code after multiple attempts''), rs_shortLinks s)"
      by (simp add: shortlink_create_def)
    with inv on_links_result [OF run] show ?thesis by (simp add: links_inv_def)
  next
    case (Some code)
    then have "\<exists>t. ?create (rs_shortLinks s) = (Inr code, t)" by (simp add: shortlink_create_def)
    with run show ?thesis by (auto simp: on_links_def zoomS_def)
  qed
  show "links_inv F N t" if inv: "links_inv F N s \<and> fresh_id rowId s" and run: "on_links ?create s = (Inr code, t)" for s code t
  proof -
    from run obtain t' where create: "?create (rs_shortLinks s) = (Inr code, t')" and t: "t = s\<lparr>rs_shortLinks := t'\<rparr>"
      by (auto simp: on_links_Inr)
    from shortlink_create_Inr [OF create] obtain r where t': "t' = create_row code r (rs_shortLinks s)"
      and free: "free_code 5 codes (rs_shortLinks s) = Some code" and r: "sl_id r = rowId" "sl_status r = ''PENDING''"
      by (auto simp: link_dto_def or_null_def or_str_def)
    have "table_ok (create_row code r (rs_shortLinks s))"
      using inv r by (intro table_ok_create free_code_free [OF free]) (auto simp: links_inv_def fresh_id_def)
    moreover have "table_match F N (rs_ledger s) (create_row code r (rs_shortLinks s))"
      using inv r by (intro table_match_create row_match_open) (auto simp: links_inv_def settled_code_def)
    ultimately show ?thesis by (simp add: t t' links_inv_def)
  qed
qed

lemma fund_link_inv: "preserves (links_inv F N) (fund_link R now net a secret code dto)"
proof -
  have failed: "preserves (links_inv F N) (update_link code (set_status ''FAILED''))"
    by (rule update_link_open) (simp_all add: set_status_def settled_code_def)
  show ?thesis
    unfolding fund_link_def
    by (rule triple_catch [OF inv_quiet [OF quiet_operations(8)]], rule triple_then [OF attempted_triple [OF failed]])
       (simp_all add: preserves_basic)
qed

lemma createClaimLink_inv:
  "triple (\<lambda>s. links_inv F N s \<and> fresh_id rowId s) (createClaimLink R now net rowId codes dto) (\<lambda>_. links_inv F N) (links_inv F N)"
proof -
  let ?P = "\<lambda>s. links_inv F N s \<and> fresh_id rowId s"
  have quiet: "preserves ?P m" if "keeps quiet m" for m :: "('b, 'a) relayer_handler"
    by (rule preserves_keeps [OF that], rule conjI, blast intro: quiet_inv, simp add: fresh_id_def quiet_def)
  have funded: "preserves (links_inv F N)
      (update_link code (\<lambda>r. r\<lparr>sl_envelopeId := Some e, sl_fundingTxHash := Some h, sl_status := ''ACTIVE''\<rparr>))" for code e h
    by (rule update_link_open) (simp_all add: settled_code_def)
  show ?thesis
    unfolding createClaimLink_def Let_def split_beta
    apply (rule triple_then [OF preserves_basic(4)], blast)
    apply (rule triple_then [OF preserves_basic(4)], blast)
    apply (rule triple_then [OF preserves_basic(3)], blast)
    apply (rule triple_then [OF preserves_basic(4)], blast)
    apply (rule triple_then [OF preserves_basic(3)], blast)
    apply (rule triple_then [OF preserves_basic(4)], blast)
    apply (rule triple_then [OF quiet [OF quiet_operations(2)]], blast)
    apply (rule triple_bind [OF create_row_inv])
    apply (intro preserves_bind preserves_basic fund_link_inv funded inv_quiet quiet_operations)
    done
qed

section \<open>Runs\<close>

text \<open>The operations of the service, the ones that the public controller and the cron job run on all
  short links, and whatever happens on the ledger. Through \<open>POST api/shortlinks\<close> anybody creates a row with contents of
  their choice, the status and the address of an escrow included. The identifier of a new row is fresh.\<close>

datatype 'pk link_op =
    LinkCreate net_answer string "string list" CreateEscrowLinkDto
  | LinkClaim bool net_answer string string string
  | LinkCancel net_answer string string
  | LinkSweep "string \<Rightarrow> net_answer"
  | LinkOpen string
  | LinkPost string "string list" CreateShortLinkDto
  | RowSweep
  | OnLedger "'pk event"

fun link_step :: "'pk relayer_env \<Rightarrow> int \<times> 'pk link_op \<Rightarrow> 'pk relayer_state \<Rightarrow> 'pk relayer_state" where
  "link_step R (now, LinkCreate net i codes dto) s =
     (if fresh_id i s then snd (createClaimLink R now net i codes dto s) else s)"
| "link_step R (now, LinkClaim online net code u a) s = snd (claim R online now net code u a s)"
| "link_step R (now, LinkCancel net code u) s = snd (cancelClaimLink R now net code u s)"
| "link_step R (now, LinkSweep nets) s = snd (sweepExpired R now nets s)"
| "link_step R (now, LinkOpen code) s = snd (on_links (shortlink_resolve (sol_address R) now code) s)"
| "link_step R (now, LinkPost i codes dto) s =
     (if fresh_id i s then snd (on_links (shortlink_create now i codes dto) s) else s)"
| "link_step R (now, RowSweep) s =
     rs_shortLinks_update (\<lambda>t. snd (shortlink_sweepExpired (sol_address R) now t)) s"
| "link_step R (now, OnLedger ev) s =
     rs_ledger_update (ledger_step (ch_sdk (re_chain R)) (ch_rt (re_chain R)) ev) s"

text \<open>The codes of the rows that a run creates through the public route.\<close>

fun posted :: "int \<times> 'pk link_op \<Rightarrow> 'pk relayer_state \<Rightarrow> string set" where
  "posted (now, LinkPost i codes dto) s = (if fresh_id i s then set_option (free_code 5 codes (rs_shortLinks s)) else {})"
| "posted _ s = {}"

fun posted_codes :: "'pk relayer_env \<Rightarrow> (int \<times> 'pk link_op) list \<Rightarrow> 'pk relayer_state \<Rightarrow> string set" where
  "posted_codes R [] s = {}"
| "posted_codes R (ev # ops) s = posted ev s \<union> posted_codes R ops (link_step R ev s)"

lemma links_inv_more: "links_inv F N s \<Longrightarrow> F \<subseteq> F' \<Longrightarrow> links_inv F' N s"
  by (auto simp: links_inv_def table_match_def)

lemma post_inv:
  assumes inv: "links_inv F N s" and fresh: "fresh_id i s"
  shows "links_inv (F \<union> set_option (free_code 5 codes (rs_shortLinks s))) N (snd (on_links (shortlink_create now i codes dto) s))"
proof (cases "free_code 5 codes (rs_shortLinks s)")
  case None
  then have "snd (on_links (shortlink_create now i codes dto) s) = s" by (simp add: on_links_def zoomS_def shortlink_create_def)
  with inv None show ?thesis by simp
next
  case (Some code)
  then obtain t where run: "shortlink_create now i codes dto (rs_shortLinks s) = (Inr code, t)" by (simp add: shortlink_create_def)
  from shortlink_create_Inr [OF run] obtain r where t: "t = create_row code r (rs_shortLinks s)" "sl_id r = i" by blast
  have "table_ok t"
    unfolding t(1) using inv fresh t(2) by (intro table_ok_create free_code_free [OF Some]) (auto simp: links_inv_def fresh_id_def)
  moreover have "table_match (insert code F) N (rs_ledger s) t"
    unfolding t(1) using inv by (intro table_match_forged) (simp add: links_inv_def)
  ultimately show ?thesis using run Some by (simp add: on_links_def zoomS_def links_inv_def)
qed

lemma ledger_step_settled_kept: "settled_kept lg (ledger_step S rt ev lg)"
  by (cases ev) (auto simp: settled.unchanged settled_same_links intro: exec_settled_kept split: sum.split)

lemma row_sweep_inv:
  assumes "links_inv F N s"
  shows "links_inv F N (rs_shortLinks_update (\<lambda>t. snd (shortlink_sweepExpired (isSolanaAddress N) now t)) s)"
proof -
  have step: "links_inv F N (rs_shortLinks_update (fold (\<lambda>(c, r). update_row c (set_status ''EXPIRED'')) rows) u)"
    if "links_inv F N u" "\<forall>c \<in> fst ` set rows. \<forall>q. findUnique (rs_shortLinks u) c = Some q \<longrightarrow> \<not> native_link N q" for rows u
    using that
  proof (induction rows arbitrary: u)
    case (Cons p rows)
    obtain c r where p: "p = (c, r)" by (cases p)
    let ?u = "rs_shortLinks_update (update_row c (set_status ''EXPIRED'')) u"
    have native: "native_link N (set_status st q) = native_link N q" for st q
      by (simp add: isNativeSolanaPaymentLink_def set_status_def)
    have "links_inv F N ?u"
      using Cons.prems by (intro update_status_inv) (auto simp: set_status_def row_match_def p isNativeSolanaPaymentLink_def)
    moreover have "\<forall>k \<in> fst ` set rows. \<forall>q. findUnique (rs_shortLinks ?u) k = Some q \<longrightarrow> \<not> native_link N q"
    proof (intro ballI allI impI)
      fix k q assume k: "k \<in> fst ` set rows" and q: "findUnique (rs_shortLinks ?u) k = Some q"
      then obtain q' where "findUnique (rs_shortLinks u) k = Some q'" "native_link N q = native_link N q'"
        by (auto simp: native split: if_splits)
      with Cons.prems(2) k show "\<not> native_link N q" by (auto simp: p)
    qed
    ultimately show ?case using Cons.IH [of ?u] by (simp add: p comp_def)
  qed (simp add: links_inv_def)
  have "\<forall>c \<in> fst ` set (filter (\<lambda>(c, r). \<not> native_link N r) (filter P (rs_shortLinks s))). \<forall>q.
      findUnique (rs_shortLinks s) c = Some q \<longrightarrow> \<not> native_link N q" for P
    using assms by (auto simp: links_inv_def table_ok_def keys_unique_def findUnique_def dest: eq_key_imp_eq_value)
  from step [OF assms this [of "\<lambda>(c, r). sl_status r = ''ACTIVE'' \<and> link_expired now r"]]
  show ?thesis by (simp add: links_inv_def shortlink_sweepExpired_def Let_def)
qed

lemma link_step_inv: "links_inv F (re_chain R) s \<Longrightarrow> links_inv (F \<union> posted ev s) (re_chain R) (link_step R ev s)"
proof (induction R ev s rule: link_step.induct)
  case (1 R now net i codes dto s)
  then show ?case
    using createClaimLink_inv [of F "re_chain R" i R now net codes dto]
    by (cases "createClaimLink R now net i codes dto s"; cases "fst (createClaimLink R now net i codes dto s)")
       (auto dest: triple_throws triple_returns)
next
  case (2 R now online net code u a s)
  then show ?case by (simp add: preserves_step [OF claim_inv])
next
  case (3 R now net code u s)
  then show ?case by (simp add: preserves_step [OF cancel_inv])
next
  case (4 R now nets s)
  then show ?case by (simp add: preserves_step [OF sweepExpired_inv])
next
  case (5 R now code s)
  have "preserves (links_inv F (re_chain R)) (on_links (shortlink_resolve (sol_address R) now code))"
    by (rule triple_weaken [OF resolve_triple]) simp_all
  with 5 show ?case by (simp add: preserves_step)
next
  case (6 R now i codes dto s)
  then show ?case by (auto simp: post_inv intro: links_inv_more)
next
  case (7 R now s)
  then show ?case by (simp add: row_sweep_inv)
next
  case (8 R now ev s)
  have "quiet s (link_step R (now, OnLedger ev) s)" by (simp add: quiet_def ledger_step_settled_kept)
  from quiet_inv [OF this 8] show ?case by simp
qed

section \<open>Properties\<close>

text \<open>C15. The database never runs ahead of the chain, but for the rows that the public route lets anybody write: take
  any state in which codes and identifiers of the rows are unique and every payment link outside of \<open>F\<close> that the database
  calls claimed, cancelled or expired is settled that way on the ledger. After any sequence of creations, claims,
  cancellations, sweeps, lookups and posts, with any answers of the network, between any instructions of others on the
  ledger, this still holds for all rows but those of \<open>F\<close> and those whose code a post got: the rows that were posted do not
  disturb the others, whatever they contain.\<close>

theorem link_rows_follow_the_ledger:
  assumes "links_inv F (re_chain R) s"
  shows "links_inv (F \<union> posted_codes R ops s) (re_chain R) (fold (link_step R) ops s)"
  using assms
proof (induction ops arbitrary: F s)
  case (Cons ev ops)
  from Cons.IH [OF link_step_inv [OF Cons.prems]] show ?case by (simp add: Un_assoc)
qed simp

definition example_link_row :: "string \<Rightarrow> ShortLink" where
  "example_link_row status =
     \<lparr>sl_id = ''row'', sl_kind = ''pay'', sl_senderUserId = Some ''user'', sl_targetUserId = Some ''bob'', sl_toAddress = None,
      sl_amount = Some (40 / 10 ^ 6), sl_token = Some ''USDC'', sl_fromUser = None, sl_platform = Some ''web'',
      sl_envelopeId = Some (ch_print example_chain 12), sl_merkleProof = None, sl_status = status, sl_expiresAt = Some 500000,
      sl_claimedAt = None, sl_claimedBy = None, sl_fundingTxHash = None, sl_claimTxHash = None, sl_clickCount = 0,
      sl_src = None, sl_campaign = None, sl_partner = None, sl_channel = None, sl_refCode = None\<rparr>"

definition example_bob :: relayer_user where
  "example_bob = \<lparr>ru_username = None, ru_telegramId = None, ru_whatsappId = None, ru_discordId = None, ru_slackId = None,
     ru_requireBiometricsAlways = False, ru_smartWallet = Some \<lparr>wal_address = ch_print example_chain 5, wal_publicKeyX = [],
       wal_publicKeyY = [], wal_salt = [], wal_isDeployed = True, wal_derivationVersion = None\<rparr>\<rparr>"

definition example_settled :: "256 word relayer_state" where
  "example_settled = example_state
     \<lparr>rs_ledger := example_ledger\<lparr>lg_links := [12 \<mapsto> (new_link example_sdk 10 5 500 example_link)\<lparr>ln_status := 1\<rparr>]\<rparr>,
      rs_users := [(''user'', example_bob)], rs_shortLinks := [(''c'', example_link_row ''ACTIVE'')]\<rparr>"

definition example_post :: CreateShortLinkDto where
  "example_post =
     \<lparr>sd_kind = ''pay'', sd_senderUserId = None, sd_targetUserId = None, sd_toAddress = None, sd_amount = None, sd_token = None,
      sd_fromUser = None, sd_platform = None, sd_envelopeId = Some (ch_print example_chain 12), sd_merkleProof = None,
      sd_fundingTxHash = None, sd_expiresAt = None, sd_status = Some ''CANCELLED'', sd_src = None, sd_campaign = None,
      sd_partner = None, sd_channel = None, sd_refCode = None\<rparr>"

lemma example_settled_simps:
  "rs_ledger example_settled = example_ledger\<lparr>lg_links := [12 \<mapsto> (new_link example_sdk 10 5 500 example_link)\<lparr>ln_status := 1\<rparr>]\<rparr>"
  "rs_users example_settled = [(''user'', example_bob)]" "rs_shortLinks example_settled = [(''c'', example_link_row ''ACTIVE'')]"
  by (simp_all add: example_settled_def)

text \<open>The sweep copies the settlement that it finds on the ledger into the row of the link.\<close>

lemma example_copied:
  assumes "rs_ledger s = rs_ledger example_settled" and "rs_users s = rs_users example_settled"
    and "rs_shortLinks s = (''c'', example_link_row ''ACTIVE'') # rows"
  shows "refundExpiredLink example_env now net (example_link_row ''ACTIVE'') s =
    (Inr (), rs_shortLinks_update (update_row ''c'' (set_status ''CLAIMED'')) s)"
proof -
  have p: "ch_print example_chain k \<noteq> []" if "k \<noteq> 0" for k using that by (simp add: example_chain_def unat_eq_0)
  have "wallet_of (Some example_bob) = Some (ch_print example_chain 5)"
    using p [of 5] by (simp add: wallet_of_def example_bob_def or_null_def or_str_def)
  moreover have "readPaymentLink example_chain (ch_print example_chain 12) (rs_ledger s) =
      Inr (Some ((new_link example_sdk 10 5 500 example_link)\<lparr>ln_status := 1\<rparr>))"
    by (simp add: assms readPaymentLink_def example_publicKey read_account_def example_settled_simps)
  ultimately show ?thesis
    using assms p [of 12]
    by (simp add: refundExpiredLink_def example_link_row_def or_null_def or_str_def bindS_def getS_def findUnique_def example_settled_simps
        relayer_readPaymentLink_def on_ledger_def zoomS_def update_link_by_id_def link_code_def modifyS_def paymentLinkStatus_def)
qed

theorem link_rows_follow_the_ledger_witness:
  "let t = fold (link_step example_env) [(0, LinkPost ''r'' [''x''] example_post), (600000, LinkSweep (\<lambda>_. Lost))] example_settled in
     links_inv {''x''} example_chain t \<and>
     map_option sl_status (findUnique (rs_shortLinks t) ''c'') = Some ''CLAIMED'' \<and>
     map_option sl_status (findUnique (rs_shortLinks t) ''x'') = Some ''CANCELLED''"
proof -
  let ?ops = "[(0, LinkPost ''r'' [''x''] example_post), (600000, LinkSweep (\<lambda>_. Lost))] :: (int \<times> 256 word link_op) list"
  have "links_inv {} example_chain example_settled"
    by (simp add: links_inv_def table_ok_def table_match_def findUnique_def keys_unique_def example_settled_simps row_match_open
        settled_code_def example_link_row_def)
  moreover have "posted_codes example_env ?ops example_settled = {''x''}"
    by (simp add: fresh_id_def example_settled_simps findUnique_def example_link_row_def)
  ultimately have "links_inv {''x''} example_chain (fold (link_step example_env) ?ops example_settled)"
    using link_rows_follow_the_ledger [of "{}" example_env example_settled ?ops] by simp
  moreover obtain row where row: "snd (on_links (shortlink_create 0 ''r'' [''x''] example_post) example_settled) =
      example_settled\<lparr>rs_shortLinks := [(''c'', example_link_row ''ACTIVE''), (''x'', row)]\<rparr>" and st: "sl_status row = ''CANCELLED''"
    by (simp add: on_links_def zoomS_def shortlink_create_def example_settled_simps findUnique_def create_row_def example_post_def
        or_null_def or_str_def)
  moreover from this have "expired_links 600000 [(''c'', example_link_row ''ACTIVE''), (''x'', row)] = [example_link_row ''ACTIVE'']"
    by (simp add: expired_links_def link_expired_def example_link_row_def)
  moreover have "sl_status (set_status ''CLAIMED'' (example_link_row ''ACTIVE'')) = ''CLAIMED''" by (simp add: set_status_def)
  moreover have "fresh_id ''r'' example_settled"
    by (simp add: fresh_id_def example_settled_simps findUnique_def example_link_row_def)
  ultimately show ?thesis
    by (simp add: sweepExpired_def bindS_def getS_def attempted_def example_copied returnS_def example_settled_simps
        findUnique_def update_row_def)
qed

end
