(* ===== verification/LinkClaims.thy ===== *)
theory LinkClaims
  imports LinkRuns
begin

text \<open>
  What a successful claim of a payment link means: for whom the link was made, who was paid and what the
  ledger and the database hold afterwards.
\<close>

section \<open>The steps of a claim\<close>

lemma limit_attempts_Inr: "limit_attempts online now code a s = (Inr y, u) \<Longrightarrow> \<exists>rd. u = s\<lparr>rs_redis := rd\<rparr>"
  by (auto simp: limit_attempts_def handler_simps)

lemma active_link_Inr:
  assumes "active_link R now net code s = (Inr link, u)"
  shows "findUnique (rs_shortLinks s) code = Some link \<and> sl_status link = ''ACTIVE'' \<and> \<not> link_expired now link \<and>
     (\<exists>e. sl_envelopeId link = Some e) \<and>
     u = s\<lparr>rs_shortLinks := update_row code (\<lambda>r. r\<lparr>sl_clickCount := sl_clickCount r + 1\<rparr>) (rs_shortLinks s)\<rparr>"
  using assms
  by (auto simp: active_link_def bindS_Inr guardS_Inr returnS_Inr throwS_Inr on_links_Inr shortlink_resolve_def Let_def set_status_def
      dest: or_null_Some split: if_splits option.splits)

lemma ensureVaultDeployed_Inr:
  "ensureVaultDeployed R v s = (Inr y, u) \<Longrightarrow>
     rs_ledger u = rs_ledger s \<and> rs_shortLinks u = rs_shortLinks s \<and> (\<exists>x. readVault (re_chain R) v (rs_ledger s) = Inr (Some x))"
  by (auto simp: ensureVaultDeployed_def handler_simps)

lemma readPaymentLink_Inr:
  "relayer_readPaymentLink R e s = (Inr y, u) \<Longrightarrow> u = s \<and> readPaymentLink (re_chain R) e (rs_ledger s) = Inr y"
  by (auto simp: relayer_readPaymentLink_def on_ledger_Inr)

lemma read_link_account:
  "readPaymentLink N e lg = Inr (Some pl) \<Longrightarrow> \<exists>l. publicKey N e ''payment link'' = Inr l \<and> lg_links lg l = Some pl"
  by (auto simp: readPaymentLink_def bindE_Inr_iff read_account_def split: option.splits if_splits)

lemma redeem_Inr:
  assumes "on_links (shortlink_redeem sol now code cid tx) s = (Inr y, u)" and "findUnique (rs_shortLinks s) code = Some r"
  shows "rs_ledger u = rs_ledger s \<and> (\<exists>r'. findUnique (rs_shortLinks u) code = Some r' \<and> sl_status r' = ''CLAIMED'' \<and>
     sl_claimedBy r' = Some cid \<and> sl_claimTxHash r' = Some tx \<and> sl_envelopeId r' = sl_envelopeId r)"
  using assms
  by (auto simp: on_links_Inr shortlink_redeem_def bindS_Inr guardS_Inr throwS_Inr modifyS_Inr shortlink_resolve_def Let_def set_status_def
      split: if_splits option.splits)

text \<open>The two instructions that pay out a link.\<close>

definition paid_out :: "'pk PaymentLink \<Rightarrow> int \<Rightarrow> 'pk \<Rightarrow> 'pk PaymentLink" where
  "paid_out pl now v = pl\<lparr>ln_status := PAYMENT_LINK_STATUS_CLAIMED, ln_settled_at := now, ln_claimed_destination := v\<rparr>"

lemma claim_effect:
  assumes "runtime_ok rt" and "exec S rt cx (ClaimPaymentLink ca v l) lg = Inr lg'"
  shows "\<exists>c pl b bd. lg_config lg = Some c \<and> lg_links lg l = Some pl \<and> ln_mint pl = cfg_stablecoin_mint c \<and>
     tx_now cx \<le> ln_expires_at pl \<and> lg_claim_authority lg = Some ca \<and>
     lg_links lg' = (lg_links lg)(l \<mapsto> paid_out pl (tx_now cx) v) \<and>
     lg_tokens lg (ata S c l) = Some b \<and> ln_amount pl \<le> b \<and>
     bd = (case lg_tokens lg (ata S c v) of Some x \<Rightarrow> x | None \<Rightarrow> 0) \<and>
     (ata S c l \<noteq> ata S c v \<longrightarrow>
        lg_tokens lg' = (lg_tokens lg)(ata S c l \<mapsto> b - ln_amount pl, ata S c v \<mapsto> bd + ln_amount pl))"
proof -
  from assms(2) obtain c pl lg1 lg2 where c: "lg_config lg = Some c" "lg_links lg l = Some pl" "ln_mint pl = cfg_stablecoin_mint c"
      "tx_now cx \<le> ln_expires_at pl" "lg_claim_authority lg = Some ca" "lg_tokens lg (ata S c l) \<noteq> None"
    and acc: "init_token_account_if_needed rt ca (ata S c v) lg = Inr lg1"
    and tr: "transfer_checked rt (ata S c l) (ata S c v) (ln_amount pl) lg1 = Inr lg2"
    and lg': "lg' = settle_link l pl PAYMENT_LINK_STATUS_CLAIMED (tx_now cx) (Some v) lg2"
    by (auto simp: claim_payment_link_def bindE_Inr_iff claim_authority_signed_Inr seeded_link_Inr)
  have same: "lg_links lg1 = lg_links lg" "lg_links lg2 = lg_links lg1"
    using init_token_account_if_neededD [OF acc] tr by (auto simp: same_accounts_def transfer_checked_Inr)
  from opened_account [OF acc] transfer_moves [OF assms(1) tr] c(6)
  have "\<exists>b. lg_tokens lg (ata S c l) = Some b \<and> ln_amount pl \<le> b \<and>
     (ata S c l \<noteq> ata S c v \<longrightarrow> lg_tokens lg2 = (lg_tokens lg)(ata S c l \<mapsto> b - ln_amount pl,
        ata S c v \<mapsto> (case lg_tokens lg (ata S c v) of Some x \<Rightarrow> x | None \<Rightarrow> 0) + ln_amount pl))"
    by (auto split: if_splits)
  with c same lg' show ?thesis by (auto simp: settle_link_def paid_out_def)
qed

lemma claim_sol_effect:
  assumes "exec S rt cx (ClaimSolPaymentLink ca v l) lg = Inr lg'"
  shows "\<exists>pl. lg_links lg l = Some pl \<and> ln_mint pl = SystemProgram_programId S \<and> tx_now cx \<le> ln_expires_at pl \<and>
     lg_claim_authority lg = Some ca \<and> lg_links lg' = (lg_links lg)(l \<mapsto> paid_out pl (tx_now cx) v) \<and>
     ln_amount pl \<le> lg_lamports lg l \<and>
     lg_lamports lg' = (lg_lamports lg)(l := lg_lamports lg l - ln_amount pl, v := lg_lamports lg v + ln_amount pl)"
  using assms
  by (auto simp: claim_sol_payment_link_def bindE_Inr_iff claim_authority_signed_Inr seeded_link_Inr transfer_program_lamports_Inr
      settle_link_def paid_out_def)

section \<open>The chain's part of a claim\<close>

text \<open>Where the money of a link goes: lamports for a link in SOL, tokens otherwise.\<close>

definition escrow_moved :: "'pk chain \<Rightarrow> 'pk \<Rightarrow> 'pk PaymentLink \<Rightarrow> 'pk \<Rightarrow> 'pk ledger \<Rightarrow> 'pk ledger \<Rightarrow> bool" where
  "escrow_moved N l pl v lg lg' \<longleftrightarrow>
     (if ln_mint pl = SystemProgram_programId (ch_sdk N)
      then ln_amount pl \<le> lg_lamports lg l \<and>
        lg_lamports lg' = (lg_lamports lg)(l := lg_lamports lg l - ln_amount pl, v := lg_lamports lg v + ln_amount pl)
      else \<exists>b. lg_tokens lg (tokenAccountOf N l) = Some b \<and> ln_amount pl \<le> b \<and>
        (tokenAccountOf N l \<noteq> tokenAccountOf N v \<longrightarrow>
           lg_tokens lg' = (lg_tokens lg)(tokenAccountOf N l \<mapsto> b - ln_amount pl,
             tokenAccountOf N v \<mapsto> token_balance lg (tokenAccountOf N v) + ln_amount pl)))"

lemma submitted_call:
  assumes "submit N now net [TxCall call] [] lg = (Inr c, lg')"
  shows "mint_matches N lg \<and>
     exec (ch_sdk N) (ch_rt N) \<lparr>tx_now = now, tx_signers = [ch_feePayer N], tx_previous = None\<rparr> call lg = Inr lg'"
  using submit_Inr [OF assms] unfolding run_tx_call by blast

lemma relayer_claim_effect:
  fixes R :: "'pk relayer_env"
  assumes "runtime_ok (ch_rt (re_chain R))" and "relayer_claimPaymentLink R now net e w s = (Inr sig, t)"
  shows "\<exists>l pl v. publicKey (re_chain R) e ''payment link'' = Inr l \<and> publicKey (re_chain R) w ''recipient vault'' = Inr v \<and>
     lg_links (rs_ledger s) l = Some pl \<and> unix_seconds now \<le> ln_expires_at pl \<and>
     lg_links (rs_ledger t) = (lg_links (rs_ledger s))(l \<mapsto> paid_out pl (unix_seconds now) v) \<and>
     escrow_moved (re_chain R) l pl v (rs_ledger s) (rs_ledger t) \<and> rs_shortLinks t = rs_shortLinks s"
proof -
  let ?N = "re_chain R"
  from assms(2) obtain pl lg' c where read: "readPaymentLink ?N e (rs_ledger s) = Inr (Some pl)"
    and run: "(if ln_mint pl = SystemProgram_programId (ch_sdk ?N)
        then chain_claimSolPaymentLink ?N (unix_seconds now) net e w
        else chain_claimPaymentLink ?N (unix_seconds now) net e w) (rs_ledger s) = (Inr c, lg')"
    and t: "t = s\<lparr>rs_ledger := lg'\<rparr>"
    unfolding relayer_claimPaymentLink_def
    by (auto simp: bindS_Inr on_ledger_Inr returnS_Inr throwS_Inr dest!: readPaymentLink_Inr split: option.splits)
  from read_link_account [OF read] obtain l where l: "publicKey ?N e ''payment link'' = Inr l" "lg_links (rs_ledger s) l = Some pl"
    by blast
  show ?thesis
  proof (cases "ln_mint pl = SystemProgram_programId (ch_sdk ?N)")
    case True
    with run l obtain v where v: "publicKey ?N w ''recipient vault'' = Inr v"
      and sub: "submit ?N (unix_seconds now) net [TxCall (ClaimSolPaymentLink (ch_feePayer ?N) v l)] [] (rs_ledger s) = (Inr c, lg')"
      by (auto simp: chain_claimSolPaymentLink_def handler_simps simp del: publicKey_Inr)
    from claim_sol_effect [OF submitted_call [OF sub, THEN conjunct2]] show ?thesis using l v t True by (auto simp: escrow_moved_def simp del: publicKey_Inr)
  next
    case False
    with run l obtain v where v: "publicKey ?N w ''recipient vault'' = Inr v"
      and sub: "submit ?N (unix_seconds now) net [TxCall (ClaimPaymentLink (ch_feePayer ?N) v l)] [] (rs_ledger s) = (Inr c, lg')"
      by (auto simp: chain_claimPaymentLink_def handler_simps simp del: publicKey_Inr)
    from submitted_call [OF sub] have m: "mint_matches ?N (rs_ledger s)" ..
    from claim_effect [OF assms(1) submitted_call [OF sub, THEN conjunct2]] obtain cf b where cf: "lg_config (rs_ledger s) = Some cf"
      "unix_seconds now \<le> ln_expires_at pl"
      "lg_links lg' = (lg_links (rs_ledger s))(l \<mapsto> paid_out pl (unix_seconds now) v)"
      "lg_tokens (rs_ledger s) (ata (ch_sdk ?N) cf l) = Some b" "ln_amount pl \<le> b"
      "ata (ch_sdk ?N) cf l \<noteq> ata (ch_sdk ?N) cf v \<longrightarrow> lg_tokens lg' = (lg_tokens (rs_ledger s))
         (ata (ch_sdk ?N) cf l \<mapsto> b - ln_amount pl,
          ata (ch_sdk ?N) cf v \<mapsto> (case lg_tokens (rs_ledger s) (ata (ch_sdk ?N) cf v) of Some x \<Rightarrow> x | None \<Rightarrow> 0) + ln_amount pl)"
      using l by auto
    have "ata (ch_sdk ?N) cf q = tokenAccountOf ?N q" for q
      using m cf(1) by (simp add: mint_matches_def tokenAccountOf_def)
    with cf(4-6) False have "escrow_moved ?N l pl v (rs_ledger s) lg'" by (simp add: escrow_moved_def token_balance_def)
    with l v t cf show ?thesis by (intro exI [of _ l] exI [of _ pl] exI [of _ v]) (simp del: publicKey_Inr)
  qed
qed

lemma assertRecipient_Inr:
  "assertRecipient link uid u = Inr () \<Longrightarrow>
     (or_null (sl_toAddress link) = None \<or> sl_toAddress link = wallet_of (Some u)) \<and>
     (case or_null (sl_targetUserId link) of None \<Rightarrow> True | Some h \<Rightarrow> linkHandle h \<in> set (identities uid u))"
  by (auto simp: assertRecipient_def split: if_splits option.splits)

definition link_commitment :: "'pk relayer_env \<Rightarrow> ShortLink \<Rightarrow> bytes" where
  "link_commitment R link =
     paymentLinkRecipientCommitment (ch_sdk (re_chain R)) (the (or_str (sl_platform link) (Some ''web'')))
       (case sl_targetUserId link of Some t \<Rightarrow> t | None \<Rightarrow> [])"

lemma check_escrow_Inr:
  "check_escrow R link state = Inr () \<longleftrightarrow>
     (\<exists>pl. state = Some pl \<and> ln_status pl = 0 \<and> ln_recipient_commitment pl = link_commitment R link \<and>
        expected_amount link = Inr (int (ln_amount pl)))"
  by (auto simp: check_escrow_def link_commitment_def Let_def bindE_Inr_iff split: option.splits)

text \<open>The guards of a successful claim, with the states before and after the payment.\<close>

lemma claim_success:
  fixes R :: "'pk relayer_env"
  assumes "claim R online now net code uid addr s = (Inr sig, t)"
  shows "\<exists>link e i u w pl s1 t1.
     findUnique (rs_shortLinks s) code = Some link \<and> sl_status link = ''ACTIVE'' \<and> \<not> link_expired now link \<and>
     sl_envelopeId link = Some e \<and> find_claimer uid addr (rs_users s) = Some (i, u) \<and> wallet_of (Some u) = Some w \<and>
     assertRecipient link i u = Inr () \<and> readPaymentLink (re_chain R) e (rs_ledger s) = Inr (Some pl) \<and>
     check_escrow R link (Some pl) = Inr () \<and> rs_ledger s1 = rs_ledger s \<and>
     rs_shortLinks s1 = update_row code (\<lambda>r. r\<lparr>sl_clickCount := sl_clickCount r + 1\<rparr>) (rs_shortLinks s) \<and>
     relayer_claimPaymentLink R now net e w s1 = (Inr sig, t1) \<and>
     on_links (shortlink_redeem (sol_address R) now code i sig) t1 = (Inr (), t)"
proof -
  from assms obtain link claimer state s1 s2 s3 s4 t1 y where
    lim: "limit_attempts online now code addr s = (Inr (), s1)" and
    act: "active_link R now net code s1 = (Inr link, s2)" and
    claimer: "claimer = find_claimer uid addr (rs_users s2)" "wallet_of (map_option snd claimer) \<noteq> None"
      "assertRecipient link (fst (the claimer)) (snd (the claimer)) = Inr ()" and
    vault: "ensureVaultDeployed R (the (wallet_of (map_option snd claimer))) s2 = (Inr y, s3)" and
    read: "relayer_readPaymentLink R (the (sl_envelopeId link)) s3 = (Inr state, s4)" and
    ok: "check_escrow R link state = Inr ()" and
    paid: "relayer_claimPaymentLink R now net (the (sl_envelopeId link)) (the (wallet_of (map_option snd claimer))) s4 = (Inr sig, t1)"
      "on_links (shortlink_redeem (sol_address R) now code (fst (the claimer)) sig) t1 = (Inr (), t)"
    unfolding claim_def Let_def
    by (auto simp: bindS_Inr getS_Inr guardS_Inr liftS_Inr returnS_Inr)
  from limit_attempts_Inr [OF lim] obtain rd where s1: "s1 = s\<lparr>rs_redis := rd\<rparr>" ..
  from active_link_Inr [OF act] obtain e where link: "findUnique (rs_shortLinks s) code = Some link" "sl_status link = ''ACTIVE''"
      "\<not> link_expired now link" "sl_envelopeId link = Some e"
      "s2 = s1\<lparr>rs_shortLinks := update_row code (\<lambda>r. r\<lparr>sl_clickCount := sl_clickCount r + 1\<rparr>) (rs_shortLinks s1)\<rparr>"
    by (auto simp: s1)
  from claimer(2) obtain i u where c: "claimer = Some (i, u)" by (cases claimer) (auto simp: wallet_of_def or_null_def or_str_def)
  with claimer(2) obtain w where w: "wallet_of (Some u) = Some w" by auto
  from ensureVaultDeployed_Inr [OF vault] have s3: "rs_ledger s3 = rs_ledger s" "rs_shortLinks s3 = rs_shortLinks s2"
    by (simp_all add: link(5) s1)
  from ok obtain pl where pl: "state = Some pl" unfolding check_escrow_Inr by blast
  show ?thesis
    using link(1-4) c w claimer ok paid s3 readPaymentLink_Inr [OF read]
    by (intro exI [of _ link] exI [of _ e] exI [of _ i] exI [of _ u] exI [of _ w] exI [of _ pl] exI [of _ s3] exI [of _ t1])
       (simp add: pl link(5) s1)
qed

section \<open>Properties\<close>

text \<open>C10. A claim that succeeds pays the person the link was made for, and in full. The row was active and not expired; the
  account of the escrow was active, its commitment is the one of the platform and handle in the row and
  its amount the amount of the row; the claimer has the address that the row names, if it names one, and the handle that
  the row names, if it names one, is among the identities of the claimer. Then the whole amount moves to
  the vault of the claimer, the escrow is settled as claimed for that vault, no other link changes, and the
  row says by whom and in which transaction it was claimed.\<close>

theorem claim_pays_the_named_recipient:
  fixes R :: "'pk relayer_env"
  assumes "runtime_ok (ch_rt (re_chain R))" and "claim R online now net code uid addr s = (Inr sig, t)"
  shows "\<exists>link e l pl i u w v row.
     findUnique (rs_shortLinks s) code = Some link \<and> sl_status link = ''ACTIVE'' \<and> \<not> link_expired now link \<and>
     sl_envelopeId link = Some e \<and> publicKey (re_chain R) e ''payment link'' = Inr l \<and>
     lg_links (rs_ledger s) l = Some pl \<and> ln_status pl = 0 \<and> unix_seconds now \<le> ln_expires_at pl \<and>
     ln_recipient_commitment pl = link_commitment R link \<and> expected_amount link = Inr (int (ln_amount pl)) \<and>
     find_claimer uid addr (rs_users s) = Some (i, u) \<and> wallet_of (Some u) = Some w \<and>
     publicKey (re_chain R) w ''recipient vault'' = Inr v \<and>
     (or_null (sl_toAddress link) = None \<or> sl_toAddress link = Some w) \<and>
     (case or_null (sl_targetUserId link) of None \<Rightarrow> True | Some h \<Rightarrow> linkHandle h \<in> set (identities i u)) \<and>
     lg_links (rs_ledger t) = (lg_links (rs_ledger s))(l \<mapsto> paid_out pl (unix_seconds now) v) \<and>
     escrow_moved (re_chain R) l pl v (rs_ledger s) (rs_ledger t) \<and>
     findUnique (rs_shortLinks t) code = Some row \<and> sl_status row = ''CLAIMED'' \<and> sl_claimedBy row = Some i \<and>
     sl_claimTxHash row = Some sig \<and> sl_envelopeId row = Some e"
proof -
  from claim_success [OF assms(2)] obtain link e i u w pl s1 t1 where
    row: "findUnique (rs_shortLinks s) code = Some link" "sl_status link = ''ACTIVE''" "\<not> link_expired now link"
      "sl_envelopeId link = Some e" "find_claimer uid addr (rs_users s) = Some (i, u)" "wallet_of (Some u) = Some w" and
    who: "assertRecipient link i u = Inr ()" and
    read: "readPaymentLink (re_chain R) e (rs_ledger s) = Inr (Some pl)" and
    ok: "check_escrow R link (Some pl) = Inr ()" and
    s1: "rs_ledger s1 = rs_ledger s" "rs_shortLinks s1 = update_row code (\<lambda>r. r\<lparr>sl_clickCount := sl_clickCount r + 1\<rparr>) (rs_shortLinks s)" and
    paid: "relayer_claimPaymentLink R now net e w s1 = (Inr sig, t1)" and
    red: "on_links (shortlink_redeem (sol_address R) now code i sig) t1 = (Inr (), t)"
    by blast
  from relayer_claim_effect [OF assms(1) paid] obtain l pl' v where
    l: "publicKey (re_chain R) e ''payment link'' = Inr l" "publicKey (re_chain R) w ''recipient vault'' = Inr v"
      "lg_links (rs_ledger s) l = Some pl'" "unix_seconds now \<le> ln_expires_at pl'"
      "lg_links (rs_ledger t1) = (lg_links (rs_ledger s))(l \<mapsto> paid_out pl' (unix_seconds now) v)"
      "escrow_moved (re_chain R) l pl' v (rs_ledger s) (rs_ledger t1)" "rs_shortLinks t1 = rs_shortLinks s1"
    unfolding s1 by blast
  from read_link_account [OF read] l(1,3) have pl: "pl' = pl" by auto
  have "findUnique (rs_shortLinks t1) code = Some (link\<lparr>sl_clickCount := sl_clickCount link + 1\<rparr>)"
    using row(1) by (simp add: l(7) s1)
  from redeem_Inr [OF red this] row(4) obtain r where
    r: "rs_ledger t = rs_ledger t1" "findUnique (rs_shortLinks t) code = Some r" "sl_status r = ''CLAIMED''"
      "sl_claimedBy r = Some i" "sl_claimTxHash r = Some sig" "sl_envelopeId r = Some e"
    by auto
  note who = assertRecipient_Inr [OF who] and ok = ok [unfolded check_escrow_Inr]
  show ?thesis
    by (intro exI [of _ link] exI [of _ e] exI [of _ l] exI [of _ pl] exI [of _ i] exI [of _ u] exI [of _ w] exI [of _ v] exI [of _ r])
       (use row who ok l r pl in \<open>simp del: publicKey_Inr\<close>)
qed

definition example_claimed_link :: "256 word PaymentLink" where
  "example_claimed_link = (new_link example_sdk 10 5 500 example_link)
     \<lparr>ln_recipient_commitment := link_commitment example_env (example_link_row ''ACTIVE'')\<rparr>"

definition example_waiting :: "256 word relayer_state" where
  "example_waiting = example_state
     \<lparr>rs_ledger := example_ledger\<lparr>lg_claim_authority := Some 1000, lg_links := [12 \<mapsto> example_claimed_link]\<rparr>,
      rs_users := [(''bob'', example_bob)], rs_shortLinks := [(''c'', example_link_row ''ACTIVE'')]\<rparr>"

lemma example_address_nonempty: "k \<noteq> 0 \<Longrightarrow> ch_print example_chain k \<noteq> []"
  by (simp add: example_chain_def unat_eq_0)

lemma example_waiting_simps:
  "rs_ledger example_waiting = example_ledger\<lparr>lg_claim_authority := Some 1000, lg_links := [12 \<mapsto> example_claimed_link]\<rparr>"
  "rs_users example_waiting = [(''bob'', example_bob)]" "rs_shortLinks example_waiting = [(''c'', example_link_row ''ACTIVE'')]"
  "rs_redis example_waiting = (\<lambda>_. None)"
  by (simp_all add: example_waiting_def example_state_def)

lemma example_link_row_simps:
  "sl_status (example_link_row st) = st" "sl_envelopeId (example_link_row st) = Some (ch_print example_chain 12)"
  "sl_expiresAt (example_link_row st) = Some 500000" "sl_toAddress (example_link_row st) = None"
  "sl_targetUserId (example_link_row st) = Some ''bob''" "sl_amount (example_link_row st) = Some (40 / 10 ^ 6)"
  "sl_token (example_link_row st) = Some ''USDC''" "sl_kind (example_link_row st) = ''pay''"
  by (simp_all add: example_link_row_def)

lemma example_claim_settles:
  "\<exists>lg'. exec example_sdk example_runtime \<lparr>tx_now = 10, tx_signers = [1000], tx_previous = None\<rparr> (ClaimPaymentLink 1000 5 12)
     (rs_ledger example_waiting) = Inr lg'"
  by (simp add: example_waiting_simps claim_payment_link_def claim_authority_signed_def example_ledger_def live_config_def any_config_def
      fetch_def seeded_vault_def seeded_link_def anchor_def example_vault_def example_claimed_link_def new_link_def
      init_token_account_if_needed_def transfer_checked_def example_runtime_def example_transfer_def example_config_def
      example_link_def link_status_defs)

lemma example_attempts:
  "\<exists>rd. limit_attempts True 10000 code a (example_waiting :: 256 word relayer_state) = (Inr (), example_waiting\<lparr>rs_redis := rd\<rparr>)"
  by (simp add: limit_attempts_def bindS_def zoomS_def increment_def Let_def example_waiting_simps redis_get_def live_def guardS_def
      MAX_CLAIM_ATTEMPTS_def) blast

lemma example_bob_simps:
  "wallet_of (Some example_bob) = Some (ch_print example_chain 5)" "identities ''bob'' example_bob = [linkHandle ''bob'']"
  "assertRecipient (example_link_row st) ''bob'' example_bob = Inr ()" "find_claimer ''bob'' a [(''bob'', example_bob)] = Some (''bob'', example_bob)"
proof -
  show i: "identities ''bob'' example_bob = [linkHandle ''bob'']" by (simp add: identities_def example_bob_def)
  show w: "wallet_of (Some example_bob) = Some (ch_print example_chain 5)"
    using example_address_nonempty [of 5] by (simp add: wallet_of_def example_bob_def or_null_def or_str_def)
  show "assertRecipient (example_link_row st) ''bob'' example_bob = Inr ()"
    using i by (simp add: assertRecipient_def example_link_row_simps or_null_def or_str_def)
  show "find_claimer ''bob'' a [(''bob'', example_bob)] = Some (''bob'', example_bob)" by (simp add: find_claimer_def)
qed

lemma example_read:
  "readPaymentLink example_chain (ch_print example_chain 12) (rs_ledger example_waiting) = Inr (Some example_claimed_link)"
  by (simp add: readPaymentLink_def example_publicKey read_account_def example_waiting_simps)

lemma example_check: "check_escrow example_env (example_link_row ''ACTIVE'') (Some example_claimed_link) = Inr ()"
proof -
  have "expected_amount (example_link_row ''ACTIVE'') = Inr 40"
    by (simp add: expected_amount_def example_link_row_simps atomic_cases fixed_units_def floor_unique [where z = 40])
  then show ?thesis
    by (simp add: check_escrow_Inr example_claimed_link_def new_link_def example_link_def link_status_defs)
qed

theorem claim_pays_the_named_recipient_witness:
  "\<exists>t. claim example_env True 10000 (Confirmed ''sig'' 7) ''c'' ''bob'' (ch_print example_chain 5) example_waiting = (Inr ''sig'', t) \<and>
     lg_tokens (rs_ledger t) 507 = Some 100 \<and> lg_tokens (rs_ledger t) 514 = Some 0 \<and>
     link_has_status example_chain (rs_ledger t) (ch_print example_chain 12) 1"
proof -
  let ?e = "ch_print example_chain 12" and ?w = "ch_print example_chain 5" and ?net = "Confirmed ''sig'' 7"
  let ?row = "example_link_row ''ACTIVE''" and ?L = "rs_ledger example_waiting"
  obtain rd where s1: "limit_attempts True 10000 ''c'' ?w example_waiting = (Inr (), example_waiting\<lparr>rs_redis := rd\<rparr>)"
    using example_attempts by blast
  let ?s1 = "example_waiting\<lparr>rs_redis := rd\<rparr>"
  let ?s2 = "rs_shortLinks_update (update_row ''c'' (\<lambda>r. r\<lparr>sl_clickCount := sl_clickCount r + 1\<rparr>)) ?s1"
  have native: "isNativeSolanaPaymentLink (isSolanaAddress example_chain) ?row"
    using example_address_nonempty [of 12] printed_address [OF example_chain_ok, of 12]
    by (simp add: isNativeSolanaPaymentLink_def example_link_row_simps or_null_def or_str_def)
  have s2: "active_link example_env 10000 ?net ''c'' ?s1 = (Inr ?row, ?s2)"
    using example_address_nonempty [of 12] native
    by (simp add: active_link_def bindS_def on_links_def zoomS_def shortlink_resolve_def findUnique_def example_waiting_simps
        link_expired_def example_link_row_simps or_null_def or_str_def Let_def guardS_def returnS_def)
  let ?s3 = "rs_users_update (map (\<lambda>(i, u). (i, mark_deployed ?w u))) ?s2"
  have s3: "ensureVaultDeployed example_env ?w ?s2 = (Inr ?w, ?s3)"
    by (simp add: ensureVaultDeployed_def bindS_def on_ledger_def zoomS_def readVault_def example_publicKey read_account_def
        example_waiting_simps example_ledger_def guardS_def modifyS_def returnS_def)
  have s4: "relayer_readPaymentLink example_env ?e ?s3 = (Inr (Some example_claimed_link), ?s3)"
    using example_read by (simp add: relayer_readPaymentLink_def on_ledger_def zoomS_def)
  obtain lg' where lg': "exec example_sdk example_runtime \<lparr>tx_now = 10, tx_signers = [1000], tx_previous = None\<rparr>
      (ClaimPaymentLink 1000 5 12) ?L = Inr lg'" using example_claim_settles by blast
  have "submit example_chain 10 ?net [TxCall (ClaimPaymentLink 1000 5 12)] [] ?L = (Inr \<lparr>cf_signature = ''sig'', cf_slot = 7\<rparr>, lg')"
    unfolding submit_def run_tx_call using lg'
    by (simp add: mint_matches_def example_waiting_simps example_ledger_def example_config_def del: exec.simps)
  then have s5: "relayer_claimPaymentLink example_env 10000 ?net ?e ?w ?s3 = (Inr ''sig'', ?s3\<lparr>rs_ledger := lg'\<rparr>)"
    using s4 by (simp add: relayer_claimPaymentLink_def bindS_def chain_claimPaymentLink_def on_ledger_def zoomS_def liftS_def
        example_publicKey unix_seconds_def returnS_def example_claimed_link_def new_link_def)
  have s6: "\<exists>t. on_links (shortlink_redeem (sol_address example_env) 10000 ''c'' ''bob'' ''sig'') (?s3\<lparr>rs_ledger := lg'\<rparr>) = (Inr (), t)"
    using native by (simp add: on_links_def zoomS_def shortlink_redeem_def bindS_def shortlink_resolve_def findUnique_def
        example_waiting_simps update_row_def link_expired_def example_link_row_simps Let_def guardS_def modifyS_def
        isNativeSolanaPaymentLink_def)
  then obtain t where s6: "on_links (shortlink_redeem (sol_address example_env) 10000 ''c'' ''bob'' ''sig'') (?s3\<lparr>rs_ledger := lg'\<rparr>) = (Inr (), t)" ..
  have users: "rs_users ?s2 = [(''bob'', example_bob)]" by (simp add: example_waiting_simps)
  have run: "claim example_env True 10000 ?net ''c'' ''bob'' ?w example_waiting = (Inr ''sig'', t)"
    unfolding claim_def Let_def
    by (simp only: bindS_def s1 s2 s3 s4 s5 s6 getS_def guardS_def liftS_def returnS_def prod.case sum.case example_check users
        example_bob_simps fst_conv snd_conv option.sel option.map if_True simp_thms example_link_row_simps option.distinct)
  have rt: "runtime_ok (ch_rt (re_chain example_env))" using example_runtime_ok by simp
  have row: "findUnique (rs_shortLinks example_waiting) ''c'' = Some ?row" by (simp add: findUnique_def example_waiting_simps)
  have link: "lg_links ?L 12 = Some example_claimed_link" by (simp add: example_waiting_simps)
  from claim_pays_the_named_recipient [OF rt run] have
    links: "lg_links (rs_ledger t) = (lg_links ?L)(12 \<mapsto> paid_out example_claimed_link (unix_seconds 10000) 5)" and
    moved: "escrow_moved example_chain 12 example_claimed_link 5 ?L (rs_ledger t)"
    by (auto simp: row link example_link_row_simps example_publicKey example_waiting_simps(2) example_bob_simps simp del: publicKey_Inr)
  have "tokenAccountOf example_chain 12 = 514" "tokenAccountOf example_chain 5 = 507" "ln_mint example_claimed_link = 500"
    "ln_amount example_claimed_link = 40" "lg_tokens ?L = [507 \<mapsto> 60, 514 \<mapsto> 40]"
    by (simp_all add: tokenAccountOf_def example_claimed_link_def new_link_def example_link_def example_waiting_simps example_ledger_def)
  then have "lg_tokens (rs_ledger t) 507 = Some 100" "lg_tokens (rs_ledger t) 514 = Some 0"
    using moved by (auto simp: escrow_moved_def token_balance_def)
  moreover have "link_has_status example_chain (rs_ledger t) ?e 1"
    using links printed_address [OF example_chain_ok, of 12] by (simp add: link_has_status_def paid_out_def link_status_defs)
  ultimately show ?thesis using run by blast
qed

end
