(* ===== verification/PasskeyExecution.thy ===== *)
theory PasskeyExecution
  imports SolanaRelayer Instructions
begin

text \<open>
  \<open>backend/src/relayer/solana-passkey-execution.service.ts\<close>: actions that the owner of a vault approves with
  a passkey. A preparation computes the challenge, keeps the action in Redis and returns the challenge;
  the execution takes the action out of Redis, builds its instruction and submits it with the signature.
  The summaries shown to the user are left out. \<open>JSON.parse(...).challenge\<close> is given.
\<close>

section \<open>Environment\<close>

record 'pk passkey_env =
  pe_relayer :: "'pk relayer_env"
  pe_SOLANA_CLUSTER_DOMAIN :: "string option"
  pe_PUBLIC_APP_URL :: "string option"
  pe_json_challenge :: "bytes \<Rightarrow> string option js"

abbreviation pe_chain :: "'pk passkey_env \<Rightarrow> 'pk chain" where "pe_chain E \<equiv> re_chain (pe_relayer E)"
abbreviation pe_sdk :: "'pk passkey_env \<Rightarrow> 'pk sdk" where "pe_sdk E \<equiv> ch_sdk (pe_chain E)"

definition PREPARE_TTL_MS :: int where "PREPARE_TTL_MS = 5 * 60 * 1000"

definition prepare_key :: "string \<Rightarrow> string" where "prepare_key prepareId = ''passkey:prepare:'' @ prepareId"

definition new_public_key :: "'pk chain \<Rightarrow> string \<Rightarrow> 'pk http" where
  "new_public_key N s = (case ch_parse N s of Some k \<Rightarrow> Inr k | None \<Rightarrow> Inl (InternalError ''Invalid public key input''))"

definition clusterDomain :: "'pk passkey_env \<Rightarrow> bytes http" where
  "clusterDomain E =
     (case or_null (pe_SOLANA_CLUSTER_DOMAIN E) of
        None \<Rightarrow> Inl (InternalError ''SOLANA_CLUSTER_DOMAIN is required'')
      | Some configured \<Rightarrow> js_to_http (clusterDomainFromGenesisHash (pe_sdk E) configured))"

definition rootHashBytes :: "'pk sdk \<Rightarrow> string \<Rightarrow> string \<Rightarrow> bytes js" where
  "rootHashBytes S publicKeyX publicKeyY =
     bindE (compressedP256PublicKey publicKeyX publicKeyY) (\<lambda>k. Inr (sha256 S k))"

definition rootHashFromWallet :: "'pk sdk \<Rightarrow> string \<Rightarrow> string \<Rightarrow> string js" where
  "rootHashFromWallet S publicKeyX publicKeyY =
     bindE (rootHashBytes S publicKeyX publicKeyY) (\<lambda>h. Inr (''0x'' @ bytesToHex h))"

definition approvalHandle :: "string \<Rightarrow> string" where
  "approvalHandle value = toLowerCase (strip_at (trim value))"

definition approvalCommitment :: "'pk sdk \<Rightarrow> string \<Rightarrow> string \<Rightarrow> bytes" where
  "approvalCommitment S platform handle =
     sha256 S (utf8 ''veriagent:solana:payment-link-recipient:v1'' @ [0] @ utf8 (toLowerCase platform) @ [0] @
       utf8 (approvalHandle handle))"

section \<open>Staging\<close>

record staged =
  stg_prepareId :: string
  stg_challengeB64Url :: string
  stg_vaultAddress :: string
  stg_expiresAtUnix :: string

definition userWithWallet :: "string \<Rightarrow> (relayer_user \<times> SmartWallet, 'pk) relayer_handler" where
  "userWithWallet userId =
     bindS (getS (\<lambda>s. findUnique (rs_users s) userId)) (\<lambda>user.
     liftS (case user of
         Some u \<Rightarrow> (case ru_smartWallet u of Some w \<Rightarrow> Inr (u, w) | None \<Rightarrow> Inl (NotFound ''No smart wallet for this account''))
       | None \<Rightarrow> Inl (NotFound ''No smart wallet for this account'')))"

definition read_vault :: "'pk passkey_env \<Rightarrow> string \<Rightarrow> (Vault option, 'pk) relayer_handler" where
  "read_vault E address = on_ledger (\<lambda>lg. (readVault (pe_chain E) address lg, lg))"

definition open_vault :: "'pk passkey_env \<Rightarrow> string \<Rightarrow> string \<Rightarrow> (Vault, 'pk) relayer_handler" where
  "open_vault E address message =
     bindS (read_vault E address) (\<lambda>vaultState.
     bindS (guardS (vaultState \<noteq> None) (BadRequest message)) (\<lambda>_. returnS (the vaultState)))"

definition stage :: "int \<Rightarrow> string \<Rightarrow> PreparedAction \<Rightarrow> (staged, 'pk) relayer_handler" where
  "stage now prepareId prepared =
     bindS (modifyS (rs_redis_update (setJson now (prepare_key prepareId) (RPrepared prepared) PREPARE_TTL_MS))) (\<lambda>_.
     returnS \<lparr>stg_prepareId = prepareId, stg_challengeB64Url = pa_challengeB64Url prepared,
       stg_vaultAddress = pa_vaultAddress prepared, stg_expiresAtUnix = pa_expiresAtUnix prepared\<rparr>)"

definition approval_expiry :: "int \<Rightarrow> int" where "approval_expiry now = unix_seconds (now + PREPARE_TTL_MS)"

section \<open>Preparing transfers\<close>

record transfer_params =
  tp_userId :: string
  tp_recipientAddress :: string
  tp_tokenAddress :: string
  tp_tokenDecimals :: int
  tp_tokenSymbol :: string
  tp_amount :: js_number

definition prepareSolTransfer ::
    "'pk passkey_env \<Rightarrow> int \<Rightarrow> string \<Rightarrow> string \<Rightarrow> string \<Rightarrow> js_number \<Rightarrow> (staged, 'pk) relayer_handler" where
  "prepareSolTransfer E now prepareId userId recipientAddress amount =
     bindS (userWithWallet userId) (\<lambda>(user, wallet).
     bindS (open_vault E (wal_address wallet) ''Authorize your Solana vault before sending'') (\<lambda>vaultState.
     bindS (liftS (solToLamports amount)) (\<lambda>amountLamports.
     bindS (liftS (new_public_key (pe_chain E) (wal_address wallet))) (\<lambda>vault.
     bindS (liftS (new_public_key (pe_chain E) recipientAddress)) (\<lambda>recipient.
     bindS (liftS (clusterDomain E)) (\<lambda>domain.
     bindS (liftS (js_to_http (solTransferChallenge (pe_sdk E)
       \<lparr>st_clusterDomain = domain, st_programId = VERIAGENT_PROGRAM_ID (pe_sdk E),
        st_config = deriveProtocolConfig (pe_sdk E) None, st_vault = vault, st_recipient = recipient,
        st_amountLamports = amountLamports, st_vaultNonce = int (va_nonce vaultState),
        st_expiresAtUnix = approval_expiry now\<rparr>))) (\<lambda>challenge.
     stage now prepareId
       \<lparr>pa_userId = userId, pa_vaultAddress = wal_address wallet, pa_challengeB64Url = bytesToBase64Url challenge,
        pa_kind = Kind_sol_transfer, pa_expiresAtUnix = show_bigint (approval_expiry now),
        pa_payload = [(''recipientAddress'', PStr (ch_print (pe_chain E) recipient)),
          (''amountLamports'', PStr (show_bigint amountLamports)), (''vaultNonce'', PStr (show_bigint (int (va_nonce vaultState))))],
        pa_sessionKeyId = None\<rparr>)))))))"

definition prepareTransfer :: "'pk passkey_env \<Rightarrow> int \<Rightarrow> string \<Rightarrow> transfer_params \<Rightarrow> (staged, 'pk) relayer_handler" where
  "prepareTransfer E now prepareId p =
     (if toUpperCase (tp_tokenSymbol p) = ''SOL''
      then prepareSolTransfer E now prepareId (tp_userId p) (tp_recipientAddress p) (tp_amount p)
      else
        bindS (guardS (tp_tokenAddress p = ch_print (pe_chain E) (ch_mint (pe_chain E)) \<and> tp_tokenDecimals p = 6)
          (BadRequest ''The Solana edition supports native USDC only'')) (\<lambda>_.
        bindS (userWithWallet (tp_userId p)) (\<lambda>(user, wallet).
        bindS (open_vault E (wal_address wallet) ''Authorize your Solana vault before sending'') (\<lambda>vaultState.
        bindS (liftS (amountToAtomic (tp_amount p))) (\<lambda>amountAtomic.
        bindS (liftS (new_public_key (pe_chain E) (wal_address wallet))) (\<lambda>vault.
        bindS (liftS (recipientTokenAccount (pe_chain E) (tp_recipientAddress p))) (\<lambda>destination.
        bindS (liftS (clusterDomain E)) (\<lambda>domain.
        bindS (liftS (vaultTokenAccount (pe_chain E) (wal_address wallet))) (\<lambda>source.
        bindS (liftS (js_to_http (transferChallenge (pe_sdk E)
          \<lparr>tr_clusterDomain = domain, tr_programId = VERIAGENT_PROGRAM_ID (pe_sdk E),
           tr_config = deriveProtocolConfig (pe_sdk E) None, tr_vault = vault, tr_vaultTokenAccount = source,
           tr_destinationTokenAccount = destination, tr_stablecoinMint = ch_mint (pe_chain E), tr_amount = amountAtomic,
           tr_vaultNonce = int (va_nonce vaultState), tr_expiresAtUnix = approval_expiry now\<rparr>))) (\<lambda>challenge.
        stage now prepareId
          \<lparr>pa_userId = tp_userId p, pa_vaultAddress = wal_address wallet, pa_challengeB64Url = bytesToBase64Url challenge,
           pa_kind = Kind_transfer, pa_expiresAtUnix = show_bigint (approval_expiry now),
           pa_payload = [(''recipientAddress'', PStr (tp_recipientAddress p)),
             (''destinationTokenAccount'', PStr (ch_print (pe_chain E) destination)),
             (''amountAtomic'', PStr (show_bigint amountAtomic)), (''vaultNonce'', PStr (show_bigint (int (va_nonce vaultState))))],
           pa_sessionKeyId = None\<rparr>))))))))))"

section \<open>Preparing payment links in SOL\<close>

record sol_link_params =
  sl_params_userId :: string
  sl_params_recipientHandle :: string
  sl_params_platform :: string
  sl_params_amount :: js_number
  sl_params_fromUser :: "string option"

text \<open>\<open>paymentLinkAddress\<close> of the chain service. \<open>rowId\<close> and \<open>codes\<close> are the fresh values of the new row.\<close>

definition paymentLinkAddress :: "'pk chain \<Rightarrow> string \<Rightarrow> bytes \<Rightarrow> 'pk http" where
  "paymentLinkAddress N vaultAddress linkId =
     bindE (publicKey N vaultAddress ''vault'') (\<lambda>v. js_to_http (derivePaymentLink (ch_sdk N) v linkId None))"

definition prepareSolPaymentLink ::
    "'pk passkey_env \<Rightarrow> int \<Rightarrow> string \<Rightarrow> string \<Rightarrow> string list \<Rightarrow> sol_link_params \<Rightarrow> (staged \<times> string, 'pk) relayer_handler" where
  "prepareSolPaymentLink E now prepareId rowId codes p =
     bindS (userWithWallet (sl_params_userId p)) (\<lambda>(user, wallet).
     bindS (open_vault E (wal_address wallet) ''Authorize your Solana vault before sending'') (\<lambda>vaultState.
     let linkExpiresAtUnix = unix_seconds now + 24 * 60 * 60; targetHandle = approvalHandle (sl_params_recipientHandle p) in
     bindS (liftS (solToLamports (sl_params_amount p))) (\<lambda>amountLamports.
     bindS (createPendingSolPaymentLink rowId codes (sl_params_userId p) targetHandle (sl_params_platform p)
       (case sl_params_amount p of JNum x \<Rightarrow> x | _ \<Rightarrow> 0)
       (the (or_str (or_str (sl_params_fromUser p) (ru_username user)) (Some ''sender''))) (linkExpiresAtUnix * 1000)) (\<lambda>code.
     let linkId = sha256 (pe_sdk E) (utf8 code);
         recipientCommitment = approvalCommitment (pe_sdk E) (sl_params_platform p) targetHandle in
     bindS (liftS (new_public_key (pe_chain E) (wal_address wallet))) (\<lambda>vault.
     bindS (liftS (paymentLinkAddress (pe_chain E) (wal_address wallet) linkId)) (\<lambda>paymentLink.
     bindS (liftS (clusterDomain E)) (\<lambda>domain.
     bindS (liftS (js_to_http (solPaymentLinkChallenge (pe_sdk E)
       \<lparr>pl_clusterDomain = domain, pl_programId = VERIAGENT_PROGRAM_ID (pe_sdk E),
        pl_config = deriveProtocolConfig (pe_sdk E) None, pl_vault = vault, pl_paymentLink = paymentLink, pl_linkId = linkId,
        pl_recipientCommitment = recipientCommitment, pl_amountLamports = amountLamports,
        pl_linkExpiresAtUnix = linkExpiresAtUnix, pl_vaultNonce = int (va_nonce vaultState),
        pl_proofExpiresAtUnix = approval_expiry now\<rparr>))) (\<lambda>challenge.
     bindS (stage now prepareId
       \<lparr>pa_userId = sl_params_userId p, pa_vaultAddress = wal_address wallet, pa_challengeB64Url = bytesToBase64Url challenge,
        pa_kind = Kind_sol_payment_link, pa_expiresAtUnix = show_bigint (approval_expiry now),
        pa_payload = [(''code'', PStr code), (''paymentLink'', PStr (ch_print (pe_chain E) paymentLink)),
          (''linkId'', PStr (bytesToBase64Url linkId)), (''recipientCommitment'', PStr (bytesToBase64Url recipientCommitment)),
          (''amountLamports'', PStr (show_bigint amountLamports)),
          (''linkExpiresAtUnix'', PStr (show_bigint linkExpiresAtUnix)),
          (''vaultNonce'', PStr (show_bigint (int (va_nonce vaultState))))],
        pa_sessionKeyId = None\<rparr>) (\<lambda>staged.
     returnS (staged, code))))))))))"

definition prepareCancelSolPaymentLink :: "'pk passkey_env \<Rightarrow> int \<Rightarrow> string \<Rightarrow> string \<Rightarrow> string \<Rightarrow> (staged, 'pk) relayer_handler" where
  "prepareCancelSolPaymentLink E now prepareId userId code =
     bindS (findOwnedSolPaymentLink code userId) (\<lambda>link.
     bindS (userWithWallet userId) (\<lambda>(user, wallet).
     bindS (open_vault E (wal_address wallet) ''Authorize your Solana vault before cancelling'') (\<lambda>vaultState.
     bindS (liftS (new_public_key (pe_chain E) (wal_address wallet))) (\<lambda>vault.
     bindS (liftS (new_public_key (pe_chain E) (the (sl_envelopeId link)))) (\<lambda>paymentLink.
     bindS (liftS (clusterDomain E)) (\<lambda>domain.
     bindS (liftS (js_to_http (cancelSolPaymentLinkChallenge (pe_sdk E)
       \<lparr>cl_clusterDomain = domain, cl_programId = VERIAGENT_PROGRAM_ID (pe_sdk E),
        cl_config = deriveProtocolConfig (pe_sdk E) None, cl_vault = vault, cl_paymentLink = paymentLink,
        cl_vaultNonce = int (va_nonce vaultState), cl_proofExpiresAtUnix = approval_expiry now\<rparr>))) (\<lambda>challenge.
     stage now prepareId
       \<lparr>pa_userId = userId, pa_vaultAddress = wal_address wallet, pa_challengeB64Url = bytesToBase64Url challenge,
        pa_kind = Kind_sol_payment_link_cancel, pa_expiresAtUnix = show_bigint (approval_expiry now),
        pa_payload = [(''code'', PStr code), (''paymentLink'', PStr (ch_print (pe_chain E) paymentLink)),
          (''vaultNonce'', PStr (show_bigint (int (va_nonce vaultState))))],
        pa_sessionKeyId = None\<rparr>)))))))"

section \<open>Preparing a session grant\<close>

record grant_params =
  gp_userId :: string
  gp_durationHours :: "rat option"
  gp_durationDays :: "rat option"
  gp_perTxLimitUSD :: "rat option"
  gp_dailyLimitUSD :: "rat option"

definition or_default :: "'a option \<Rightarrow> 'a \<Rightarrow> 'a" where "or_default x d = (case x of Some v \<Rightarrow> v | None \<Rightarrow> d)"

definition grant_hours :: "grant_params \<Rightarrow> rat" where
  "grant_hours p = or_default (gp_durationHours p) (or_default (gp_durationDays p) 7 * 24)"

definition grant_seconds :: "grant_params \<Rightarrow> int" where "grant_seconds p = \<lfloor>grant_hours p * 3600 + 1 / 2\<rfloor>"

definition grant_challenge ::
    "'pk passkey_env \<Rightarrow> int \<Rightarrow> SmartWallet \<Rightarrow> Vault option \<Rightarrow> 'pk \<Rightarrow> 'pk \<Rightarrow> 'pk \<Rightarrow> int \<Rightarrow> int \<Rightarrow> int \<Rightarrow> int \<Rightarrow> bytes http" where
  "grant_challenge E now wallet vaultState vault session sessionPublicKey perActionLimit cumulativeLimit validAfter validUntil =
     bindE (clusterDomain E) (\<lambda>domain.
     case vaultState of
       Some va \<Rightarrow> js_to_http (sessionGrantChallenge (pe_sdk E)
         \<lparr>sg_clusterDomain = domain, sg_programId = VERIAGENT_PROGRAM_ID (pe_sdk E),
          sg_config = deriveProtocolConfig (pe_sdk E) None, sg_vault = vault, sg_session = session,
          sg_sessionPublicKey = sessionPublicKey, sg_actionBitmap = JNum 1, sg_perActionLimit = perActionLimit,
          sg_cumulativeLimit = cumulativeLimit, sg_validAfterUnix = validAfter, sg_validUntilUnix = validUntil,
          sg_vaultNonce = int (va_nonce va), sg_expiresAtUnix = approval_expiry now\<rparr>)
     | None \<Rightarrow>
         bindE (vaultTokenAccount (pe_chain E) (wal_address wallet)) (\<lambda>source.
         bindE (js_to_http (compressedP256PublicKey (wal_publicKeyX wallet) (wal_publicKeyY wallet))) (\<lambda>root.
         bindE (js_to_http (bindE
           (if wal_salt wallet = [] then Inr (''0x'' @ bytesToHex (replicate 32 0))
            else rootHashFromWallet (pe_sdk E) (wal_publicKeyX wallet) (wal_publicKeyY wallet)) bytes32FromStored)) (\<lambda>rootHash.
         bindE (js_to_http (bytes32FromStored (wal_salt wallet))) (\<lambda>salt.
         js_to_http (initializeVaultAndGrantSessionChallenge (pe_sdk E)
           \<lparr>ig_clusterDomain = domain, ig_programId = VERIAGENT_PROGRAM_ID (pe_sdk E),
            ig_config = deriveProtocolConfig (pe_sdk E) None, ig_vault = vault, ig_session = session,
            ig_sessionPublicKey = sessionPublicKey, ig_actionBitmap = JNum 1, ig_perActionLimit = perActionLimit,
            ig_cumulativeLimit = cumulativeLimit, ig_validAfterUnix = validAfter, ig_validUntilUnix = validUntil,
            ig_expiresAtUnix = approval_expiry now, ig_vaultTokenAccount = source, ig_stablecoinMint = ch_mint (pe_chain E),
            ig_rootPublicKey = root, ig_rootKeyHash = rootHash, ig_userSalt = salt\<rparr>))))))"

definition prepareSessionGrant ::
    "'pk passkey_env \<Rightarrow> int \<Rightarrow> string \<Rightarrow> 'pk fresh_session \<Rightarrow> grant_params \<Rightarrow> (staged \<times> string, 'pk) relayer_handler" where
  "prepareSessionGrant E now prepareId fresh p =
     bindS (userWithWallet (gp_userId p)) (\<lambda>(user, wallet).
     let durationHours = grant_hours p; perTxLimitUSD = or_default (gp_perTxLimitUSD p) 50;
         dailyLimitUSD = or_default (gp_dailyLimitUSD p) 200; durationSeconds = grant_seconds p in
     bindS (guardS (0 < durationHours \<and> durationHours \<le> 24 * 30)
       (BadRequest ''Session duration must be between 1 hour and 30 days'')) (\<lambda>_.
     bindS (guardS (0 < perTxLimitUSD \<and> perTxLimitUSD \<le> dailyLimitUSD) (BadRequest ''Session limits are invalid'')) (\<lambda>_.
     bindS (liftS (amountToAtomic (JNum perTxLimitUSD))) (\<lambda>_.
     bindS (provisionSessionKey (pe_relayer E) now fresh (gp_userId p) durationSeconds perTxLimitUSD dailyLimitUSD) (\<lambda>(sessionKeyId, key).
     bindS (liftS (new_public_key (pe_chain E) key)) (\<lambda>sessionPublicKey.
     bindS (liftS (new_public_key (pe_chain E) (wal_address wallet))) (\<lambda>vault.
     let session = deriveSession (pe_sdk E) vault sessionPublicKey None; validUntilUnix = unix_seconds now + durationSeconds in
     bindS (liftS (amountToAtomic (JNum perTxLimitUSD))) (\<lambda>perActionLimit.
     bindS (liftS (amountToAtomic (JNum dailyLimitUSD))) (\<lambda>cumulativeLimit.
     bindS (read_vault E (wal_address wallet)) (\<lambda>vaultState.
     bindS (liftS (grant_challenge E now wallet vaultState vault session sessionPublicKey perActionLimit cumulativeLimit
       (unix_seconds now) validUntilUnix)) (\<lambda>challenge.
     bindS (stage now prepareId
       \<lparr>pa_userId = gp_userId p, pa_vaultAddress = wal_address wallet, pa_challengeB64Url = bytesToBase64Url challenge,
        pa_kind = Kind_session_grant, pa_expiresAtUnix = show_bigint (approval_expiry now),
        pa_payload = [(''initializeVault'', PBool (vaultState = None)), (''session'', PStr (ch_print (pe_chain E) session)),
          (''sessionPublicKey'', PStr (ch_print (pe_chain E) sessionPublicKey)), (''actionBitmap'', PNumber 1),
          (''perActionLimit'', PStr (show_bigint perActionLimit)), (''cumulativeLimit'', PStr (show_bigint cumulativeLimit)),
          (''validAfterUnix'', PStr (show_bigint (unix_seconds now))), (''validUntilUnix'', PStr (show_bigint validUntilUnix)),
          (''vaultNonce'', PStr (show_bigint (case vaultState of Some va \<Rightarrow> int (va_nonce va) | None \<Rightarrow> 0)))],
        pa_sessionKeyId = Some sessionKeyId\<rparr>) (\<lambda>staged.
     returnS (staged, sessionKeyId)))))))))))))"

definition preparePolicyUpdate :: "(staged, 'pk) relayer_handler" where
  "preparePolicyUpdate = throwS (BadRequest ''Solana call policy is encoded in each bounded session grant'')"

definition prepareTokenLimit :: "(staged, 'pk) relayer_handler" where
  "prepareTokenLimit = throwS (BadRequest ''The Solana edition supports one USDC policy per session'')"

section \<open>The instruction of an approved action\<close>

record assertion =
  as_id :: string
  as_authenticatorData :: string
  as_clientDataJSON :: string
  as_signature :: string

text \<open>What an approved action submits: the input of the builder of \<open>program.ts\<close>, the call of the program
  that its bytes encode, whether the accounts it names are the ones the program derives, and the
  instructions before the verification. An instruction with another account fails in simulation.\<close>

record 'pk built =
  bt_input :: "'pk ix_request"
  bt_call :: "'pk call"
  bt_accounts :: bool
  bt_before :: "'pk tx_op list"

definition proof_of :: "int \<Rightarrow> WebAuthnProof \<Rightarrow> proof_args" where
  "proof_of expiresAt pf = \<lparr>pf_expires_at = expiresAt, pf_authenticator_data = authenticatorData pf, pf_client_data_json = clientDataJson pf\<rparr>"

definition build_transfer :: "'pk passkey_env \<Rightarrow> PreparedAction \<Rightarrow> int \<Rightarrow> WebAuthnProof \<Rightarrow> 'pk built http" where
  "build_transfer E pa expiresAt pf =
     (let N = pe_chain E; pay = pa_payload pa in
      bindE (new_public_key N (pa_vaultAddress pa)) (\<lambda>vault.
      bindE (vaultTokenAccount N (pa_vaultAddress pa)) (\<lambda>source.
      bindE (new_public_key N (payload_text pay ''destinationTokenAccount'')) (\<lambda>destination.
      bindE (payload_bigint pay ''amountAtomic'') (\<lambda>amount.
      bindE (payload_bigint pay ''vaultNonce'') (\<lambda>nonce.
      bindE (recipientTokenAccount N (payload_text pay ''recipientAddress'')) (\<lambda>ata.
      Inr \<lparr>bt_input = IxTransferWithPasskey
             \<lparr>pti_payer = ch_feePayer N, pti_config = deriveProtocolConfig (ch_sdk N) None, pti_vault = vault,
              pti_stablecoinMint = ch_mint N, pti_vaultTokenAccount = source, pti_destinationTokenAccount = destination,
              pti_amount = amount, pti_vaultNonce = nonce, pti_proofExpiresAt = expiresAt,
              pti_authenticatorData = authenticatorData pf, pti_clientDataJson = clientDataJson pf,
              pti_programId = Some (VERIAGENT_PROGRAM_ID (ch_sdk N))\<rparr>,
           bt_call = TransferWithPasskey vault destination (nat amount) (nat nonce) (proof_of expiresAt pf),
           bt_accounts = True, bt_before = [TxOpenAta ata]\<rparr>)))))))"

definition build_sol_transfer :: "'pk passkey_env \<Rightarrow> PreparedAction \<Rightarrow> int \<Rightarrow> WebAuthnProof \<Rightarrow> 'pk built http" where
  "build_sol_transfer E pa expiresAt pf =
     (let N = pe_chain E; pay = pa_payload pa in
      bindE (new_public_key N (pa_vaultAddress pa)) (\<lambda>vault.
      bindE (new_public_key N (payload_text pay ''recipientAddress'')) (\<lambda>recipient.
      bindE (payload_bigint pay ''amountLamports'') (\<lambda>amount.
      bindE (payload_bigint pay ''vaultNonce'') (\<lambda>nonce.
      Inr \<lparr>bt_input = IxTransferSol
             \<lparr>spt_payer = ch_feePayer N, spt_config = deriveProtocolConfig (ch_sdk N) None, spt_vault = vault,
              spt_recipient = recipient, spt_amountLamports = amount, spt_vaultNonce = nonce, spt_proofExpiresAt = expiresAt,
              spt_authenticatorData = authenticatorData pf, spt_clientDataJson = clientDataJson pf,
              spt_programId = Some (VERIAGENT_PROGRAM_ID (ch_sdk N))\<rparr>,
           bt_call = TransferSolWithPasskey vault recipient (nat amount) (nat nonce) (proof_of expiresAt pf),
           bt_accounts = True, bt_before = []\<rparr>)))))"

definition build_sol_link :: "'pk passkey_env \<Rightarrow> PreparedAction \<Rightarrow> int \<Rightarrow> WebAuthnProof \<Rightarrow> 'pk built http" where
  "build_sol_link E pa expiresAt pf =
     (let N = pe_chain E; pay = pa_payload pa in
      bindE (new_public_key N (pa_vaultAddress pa)) (\<lambda>vault.
      bindE (new_public_key N (payload_text pay ''paymentLink'')) (\<lambda>link.
      bindE (js_to_http (base64UrlToBytes (payload_text pay ''linkId''))) (\<lambda>linkId.
      bindE (js_to_http (base64UrlToBytes (payload_text pay ''recipientCommitment''))) (\<lambda>commitment.
      bindE (payload_bigint pay ''amountLamports'') (\<lambda>amount.
      bindE (payload_bigint pay ''linkExpiresAtUnix'') (\<lambda>linkExpiresAt.
      bindE (payload_bigint pay ''vaultNonce'') (\<lambda>nonce.
      Inr \<lparr>bt_input = IxCreateSolPaymentLink
             \<lparr>csp_payer = ch_feePayer N, csp_config = deriveProtocolConfig (ch_sdk N) None, csp_vault = vault,
              csp_paymentLink = link, csp_linkId = linkId, csp_recipientCommitment = commitment, csp_amountLamports = amount,
              csp_linkExpiresAtUnix = linkExpiresAt, csp_vaultNonce = nonce, csp_proofExpiresAt = expiresAt,
              csp_authenticatorData = authenticatorData pf, csp_clientDataJson = clientDataJson pf,
              csp_programId = Some (VERIAGENT_PROGRAM_ID (ch_sdk N))\<rparr>,
           bt_call = CreateSolPaymentLinkWithPasskey (ch_feePayer N) vault
             \<lparr>la_link_id = linkId, la_recipient_commitment = commitment, la_amount = nat amount, la_expires_at = linkExpiresAt\<rparr>
             (nat nonce) (proof_of expiresAt pf),
           bt_accounts = (link = link_address (ch_sdk N) vault linkId), bt_before = []\<rparr>))))))))"

definition build_cancel_link :: "'pk passkey_env \<Rightarrow> PreparedAction \<Rightarrow> int \<Rightarrow> WebAuthnProof \<Rightarrow> 'pk built http" where
  "build_cancel_link E pa expiresAt pf =
     (let N = pe_chain E; pay = pa_payload pa in
      bindE (new_public_key N (pa_vaultAddress pa)) (\<lambda>vault.
      bindE (new_public_key N (payload_text pay ''paymentLink'')) (\<lambda>link.
      bindE (payload_bigint pay ''vaultNonce'') (\<lambda>nonce.
      Inr \<lparr>bt_input = IxCancelSolPaymentLink
             \<lparr>cns_payer = ch_feePayer N, cns_config = deriveProtocolConfig (ch_sdk N) None, cns_vault = vault,
              cns_paymentLink = link, cns_vaultNonce = nonce, cns_proofExpiresAt = expiresAt,
              cns_authenticatorData = authenticatorData pf, cns_clientDataJson = clientDataJson pf,
              cns_programId = Some (VERIAGENT_PROGRAM_ID (ch_sdk N))\<rparr>,
           bt_call = CancelSolPaymentLinkWithPasskey vault link (nat nonce) (proof_of expiresAt pf),
           bt_accounts = True, bt_before = []\<rparr>))))"

definition build_grant :: "'pk passkey_env \<Rightarrow> PreparedAction \<Rightarrow> SmartWallet \<Rightarrow> int \<Rightarrow> WebAuthnProof \<Rightarrow> 'pk built http" where
  "build_grant E pa wallet expiresAt pf =
     (let N = pe_chain E; S = ch_sdk N; pay = pa_payload pa; bitmap = payload_number pay ''actionBitmap'' in
      bindE (new_public_key N (payload_text pay ''sessionPublicKey'')) (\<lambda>key.
      bindE (new_public_key N (pa_vaultAddress pa)) (\<lambda>vault.
      bindE (new_public_key N (payload_text pay ''session'')) (\<lambda>session.
      bindE (payload_bigint pay ''perActionLimit'') (\<lambda>perAction.
      bindE (payload_bigint pay ''cumulativeLimit'') (\<lambda>cumulative.
      bindE (payload_bigint pay ''validAfterUnix'') (\<lambda>validAfter.
      bindE (payload_bigint pay ''validUntilUnix'') (\<lambda>validUntil.
      let args = \<lparr>sa_session_public_key = key, sa_action_bitmap = word_of_int (num_int bitmap),
            sa_per_action_limit = nat perAction, sa_cumulative_limit = nat cumulative, sa_valid_after = validAfter,
            sa_valid_until = validUntil\<rparr> in
      if payload_flag pay ''initializeVault''
      then
        bindE (vaultTokenAccount N (pa_vaultAddress pa)) (\<lambda>source.
        bindE (js_to_http (rootHashBytes S (wal_publicKeyX wallet) (wal_publicKeyY wallet))) (\<lambda>rootHash.
        bindE (js_to_http (bytes32FromStored (wal_salt wallet))) (\<lambda>salt.
        Inr \<lparr>bt_input = IxInitializeVaultAndGrantSession
               \<lparr>vgi_payer = ch_feePayer N, vgi_config = deriveProtocolConfig S None, vgi_vault = vault, vgi_session = session,
                vgi_sessionPublicKey = key, vgi_actionBitmap = bitmap, vgi_perActionLimit = perAction,
                vgi_cumulativeLimit = cumulative, vgi_validAfterUnix = validAfter, vgi_validUntilUnix = validUntil,
                vgi_proofExpiresAt = expiresAt, vgi_authenticatorData = authenticatorData pf,
                vgi_clientDataJson = clientDataJson pf, vgi_stablecoinMint = ch_mint N, vgi_vaultTokenAccount = source,
                vgi_rootPublicKey = compressedPublicKey pf, vgi_rootKeyHash = rootHash, vgi_userSalt = salt,
                vgi_programId = Some (VERIAGENT_PROGRAM_ID S)\<rparr>,
             bt_call = InitializeVaultAndGrantSession (ch_feePayer N) (compressedPublicKey pf) rootHash salt args (proof_of expiresAt pf),
             bt_accounts = (session = session_address S vault key \<and> vault = vault_address S rootHash salt),
             bt_before = []\<rparr>)))
      else
        bindE (payload_bigint pay ''vaultNonce'') (\<lambda>nonce.
        Inr \<lparr>bt_input = IxGrantSession
               \<lparr>sgi_payer = ch_feePayer N, sgi_config = deriveProtocolConfig S None, sgi_vault = vault, sgi_session = session,
                sgi_sessionPublicKey = key, sgi_actionBitmap = bitmap, sgi_perActionLimit = perAction,
                sgi_cumulativeLimit = cumulative, sgi_validAfterUnix = validAfter, sgi_validUntilUnix = validUntil,
                sgi_vaultNonce = nonce, sgi_proofExpiresAt = expiresAt, sgi_authenticatorData = authenticatorData pf,
                sgi_clientDataJson = clientDataJson pf, sgi_programId = Some (VERIAGENT_PROGRAM_ID S)\<rparr>,
             bt_call = GrantSession (ch_feePayer N) vault args (nat nonce) (proof_of expiresAt pf),
             bt_accounts = (session = session_address S vault key), bt_before = []\<rparr>)))))))))"

definition build_action :: "'pk passkey_env \<Rightarrow> PreparedAction \<Rightarrow> SmartWallet \<Rightarrow> int \<Rightarrow> WebAuthnProof \<Rightarrow> 'pk built http" where
  "build_action E pa wallet expiresAt pf =
     (case pa_kind pa of
        Kind_transfer \<Rightarrow> build_transfer E pa expiresAt pf
      | Kind_sol_transfer \<Rightarrow> build_sol_transfer E pa expiresAt pf
      | Kind_sol_payment_link \<Rightarrow> build_sol_link E pa expiresAt pf
      | Kind_sol_payment_link_cancel \<Rightarrow> build_cancel_link E pa expiresAt pf
      | Kind_session_grant \<Rightarrow> build_grant E pa wallet expiresAt pf)"

section \<open>Executing an approved action\<close>

definition submit_built :: "'pk chain \<Rightarrow> int \<Rightarrow> net_answer \<Rightarrow> WebAuthnProof \<Rightarrow> 'pk built \<Rightarrow> (confirmed, 'pk ledger) handler" where
  "submit_built N now net pf b =
     (if bt_accounts b then submitPasskeyInstruction N now net pf (bt_call b) (bt_before b)
      else
        bindS (liftS (case createSecp256r1Instruction (ch_sdk N) pf of
          Inr ix \<Rightarrow> Inr ix | Inl _ \<Rightarrow> Inl (InternalError ''Invalid WebAuthn proof''))) (\<lambda>_.
        throwS (BadRequest ''The Solana action failed simulation. No funds were moved.'')))"

definition take_prepared :: "int \<Rightarrow> string \<Rightarrow> (PreparedAction, 'pk) relayer_handler" where
  "take_prepared now prepareId =
     bindS (getS (\<lambda>s. fst (takeJson now (prepare_key prepareId) (rs_redis s)))) (\<lambda>v.
     bindS (modifyS (rs_redis_update (\<lambda>r. snd (takeJson now (prepare_key prepareId) r)))) (\<lambda>_.
     liftS (case v of Some (RPrepared pa) \<Rightarrow> Inr pa | _ \<Rightarrow> Inl (BadRequest ''Approval expired or was already used''))))"

definition lookup_hash :: "'pk passkey_env \<Rightarrow> string \<Rightarrow> string" where
  "lookup_hash E credentialId = bytesToHex (sha256 (pe_sdk E) (utf8 credentialId))"

definition registered_credential :: "'pk passkey_env \<Rightarrow> string \<Rightarrow> string \<Rightarrow> (string, 'pk) relayer_handler" where
  "registered_credential E userId credentialId =
     bindS (getS (\<lambda>s. findUnique (rs_credentials s) (lookup_hash E credentialId))) (\<lambda>credential.
     bindS (guardS (case credential of None \<Rightarrow> False | Some c \<Rightarrow> pc_userId c = userId \<and> pc_revokedAt c = None)
       (Unauthorized ''Passkey is not registered for this account'')) (\<lambda>_.
     returnS (lookup_hash E credentialId)))"

definition assertion_proof :: "SmartWallet \<Rightarrow> assertion \<Rightarrow> WebAuthnProof js" where
  "assertion_proof wallet a =
     bindE (compressedP256PublicKey (wal_publicKeyX wallet) (wal_publicKeyY wallet)) (\<lambda>root.
     bindE (base64UrlToBytes (as_authenticatorData a)) (\<lambda>ad.
     bindE (base64UrlToBytes (as_clientDataJSON a)) (\<lambda>json.
     bindE (base64UrlToBytes (as_signature a)) (\<lambda>sig.
     Inr \<lparr>compressedPublicKey = root, authenticatorData = ad, clientDataJson = json, signatureDer = sig\<rparr>))))"

text \<open>\<open>base64UrlToBuffer\<close> of \<open>passkey-signature.util.ts\<close>, which ignores what is not in the alphabet.\<close>

definition base64UrlToBuffer :: "string \<Rightarrow> bytes" where
  "base64UrlToBuffer value =
     base64_decode (replace_char (CHR ''_'') (CHR ''/'') (replace_char (CHR ''-'') (CHR ''+'') value))"

definition matching_challenge :: "'pk passkey_env \<Rightarrow> PreparedAction \<Rightarrow> assertion \<Rightarrow> unit http" where
  "matching_challenge E prepared a =
     bindE (js_to_http (pe_json_challenge E (base64UrlToBuffer (as_clientDataJSON a)))) (\<lambda>challenge.
     if challenge = Some (pa_challengeB64Url prepared) then Inr ()
     else Inl (Unauthorized ''Signature does not authorize this action''))"

text \<open>The database transaction at the end: all its updates or none.\<close>

definition record_execution :: "int \<Rightarrow> string \<Rightarrow> string \<Rightarrow> PreparedAction \<Rightarrow> (unit, 'pk) relayer_handler" where
  "record_execution now userId credential prepared =
     (let activated = (if pa_kind prepared = Kind_session_grant then or_null (pa_sessionKeyId prepared) else None) in
      bindS (getS (\<lambda>s. case activated of None \<Rightarrow> True | Some i \<Rightarrow> \<exists>(k, r) \<in> set (rs_sessionKeys s). ssk_id r = i)) (\<lambda>found.
      bindS (guardS found (InternalError ''Record to update not found'')) (\<lambda>_.
      modifyS (\<lambda>s. s
        \<lparr>rs_credentials := update_row credential (\<lambda>c. c\<lparr>pc_lastUsedAt := Some now\<rparr>) (rs_credentials s),
         rs_users := update_row userId (\<lambda>u. u\<lparr>ru_smartWallet := map_option
           (\<lambda>w. w\<lparr>wal_isDeployed := True, wal_derivationVersion := Some ''SOLANA_PDA_V1''\<rparr>) (ru_smartWallet u)\<rparr>) (rs_users s),
         rs_sessionKeys := (case activated of
             None \<Rightarrow> rs_sessionKeys s
           | Some i \<Rightarrow> map (\<lambda>(k, r). (k, if ssk_id r = i then r\<lparr>ssk_activatedAt := Some now\<rparr> else r)) (rs_sessionKeys s))\<rparr>))))"

record executed =
  ex_txHash :: string
  ex_kind :: ActionKind
  ex_link :: "(string \<times> string) option"

definition short_url :: "'pk passkey_env \<Rightarrow> string \<Rightarrow> string" where
  "short_url E code =
     (case pe_PUBLIC_APP_URL E of
        None \<Rightarrow> ''undefined''
      | Some u \<Rightarrow> if u \<noteq> [] \<and> last u = CHR ''/'' then butlast u else u) @ ''/c/'' @ code"

definition executeAction ::
    "'pk passkey_env \<Rightarrow> int \<Rightarrow> net_answer \<Rightarrow> string \<Rightarrow> string \<Rightarrow> assertion \<Rightarrow> (executed, 'pk) relayer_handler" where
  "executeAction E now net userId prepareId a =
     bindS (take_prepared now prepareId) (\<lambda>prepared.
     bindS (guardS (pa_userId prepared = userId) (Unauthorized ''This approval belongs to another account'')) (\<lambda>_.
     bindS (liftS (matching_challenge E prepared a)) (\<lambda>_.
     bindS (registered_credential E userId (as_id a)) (\<lambda>credential.
     bindS (userWithWallet userId) (\<lambda>(user, wallet).
     bindS (liftS (js_to_http (assertion_proof wallet a))) (\<lambda>pf.
     bindS (liftS (bigint_of_text (pa_expiresAtUnix prepared))) (\<lambda>expiresAt.
     bindS (liftS (build_action E prepared wallet expiresAt pf)) (\<lambda>b.
     bindS (liftS (js_to_http (ix_build (pe_sdk E) (bt_input b)))) (\<lambda>_.
     let code = payload_text (pa_payload prepared) ''code'' in
     bindS (catchS (on_ledger (submit_built (pe_chain E) (unix_seconds now) net pf b)) (\<lambda>e.
       bindS (if pa_kind prepared = Kind_sol_payment_link then failPendingSolPaymentLink code else returnS ()) (\<lambda>_.
       throwS e))) (\<lambda>confirmed.
     bindS (case pa_kind prepared of
         Kind_sol_payment_link \<Rightarrow>
           activateSolPaymentLink code (payload_text (pa_payload prepared) ''paymentLink'') (cf_signature confirmed)
       | Kind_sol_payment_link_cancel \<Rightarrow> markSolPaymentLinkCancelled code (cf_signature confirmed)
       | _ \<Rightarrow> returnS ()) (\<lambda>_.
     bindS (record_execution now userId credential prepared) (\<lambda>_.
     returnS \<lparr>ex_txHash = cf_signature confirmed, ex_kind = pa_kind prepared,
       ex_link = (if pa_kind prepared = Kind_sol_payment_link then Some (code, short_url E code) else None)\<rparr>))))))))))))"

end
