(* ===== verification/PasskeyRuns.thy ===== *)
theory PasskeyRuns
  imports PasskeyExecution LedgerClient RelayerRuns Triples
begin

text \<open>
  What an approval means: the challenge that a preparation returns is the challenge of the very call that
  the execution submits, the call is what the user asked for, and an approval is used at most once.
\<close>

section \<open>Preparations and what they ask for\<close>

datatype 'pk preparation =
    PrepTransfer transfer_params
  | PrepSolTransfer string string js_number
  | PrepSolLink string "string list" sol_link_params
  | PrepCancel string string
  | PrepGrant "'pk fresh_session" grant_params

fun prepare :: "'pk passkey_env \<Rightarrow> int \<Rightarrow> string \<Rightarrow> 'pk preparation \<Rightarrow> (staged, 'pk) relayer_handler" where
  "prepare E now i (PrepTransfer p) = prepareTransfer E now i p"
| "prepare E now i (PrepSolTransfer u r x) = prepareSolTransfer E now i u r x"
| "prepare E now i (PrepSolLink rowId codes p) = bindS (prepareSolPaymentLink E now i rowId codes p) (\<lambda>(st, _). returnS st)"
| "prepare E now i (PrepCancel u code) = prepareCancelSolPaymentLink E now i u code"
| "prepare E now i (PrepGrant fr p) = bindS (prepareSessionGrant E now i fr p) (\<lambda>(st, _). returnS st)"

fun prep_user :: "'pk preparation \<Rightarrow> string" where
  "prep_user (PrepTransfer p) = tp_userId p"
| "prep_user (PrepSolTransfer u r x) = u"
| "prep_user (PrepSolLink rowId codes p) = sl_params_userId p"
| "prep_user (PrepCancel u code) = u"
| "prep_user (PrepGrant fr p) = gp_userId p"

text \<open>The request that the user asked for in a state: the vault of the wallet and its nonce, the recipient, the
  amount, the handle, the limits.\<close>

fun request_vault :: "'pk signing_request \<Rightarrow> 'pk" where
  "request_vault (SignInitializeVault i) = iv_vault i"
| "request_vault (SignTransfer i) = tr_vault i"
| "request_vault (SignSessionGrant i) = sg_vault i"
| "request_vault (SignVaultAndSession i) = ig_vault i"
| "request_vault (SignSolTransfer i) = st_vault i"
| "request_vault (SignSolPaymentLink i) = pl_vault i"
| "request_vault (SignCancelSolPaymentLink i) = cl_vault i"

definition asks_sol :: "'pk chain \<Rightarrow> string \<Rightarrow> js_number \<Rightarrow> 'pk signing_request \<Rightarrow> bool" where
  "asks_sol N recipient x rq \<longleftrightarrow>
     (\<exists>i. rq = SignSolTransfer i \<and> ch_parse N recipient = Some (st_recipient i) \<and> solToLamports x = Inr (st_amountLamports i))"

definition asks_grant :: "grant_params \<Rightarrow> int \<Rightarrow> int \<Rightarrow> int \<Rightarrow> int \<Rightarrow> bool" where
  "asks_grant p perAction cumulative validAfter validUntil \<longleftrightarrow>
     amountToAtomic (JNum (or_default (gp_perTxLimitUSD p) 50)) = Inr perAction \<and>
     amountToAtomic (JNum (or_default (gp_dailyLimitUSD p) 200)) = Inr cumulative \<and> validUntil = validAfter + grant_seconds p"

fun asks :: "'pk chain \<Rightarrow> ShortLink table \<Rightarrow> 'pk preparation \<Rightarrow> 'pk signing_request \<Rightarrow> bool" where
  "asks N links (PrepTransfer p) rq \<longleftrightarrow>
     (if toUpperCase (tp_tokenSymbol p) = ''SOL'' then asks_sol N (tp_recipientAddress p) (tp_amount p) rq
      else \<exists>i. rq = SignTransfer i \<and> recipientTokenAccount N (tp_recipientAddress p) = Inr (tr_destinationTokenAccount i) \<and>
        amountToAtomic (tp_amount p) = Inr (tr_amount i))"
| "asks N links (PrepSolTransfer u r x) rq \<longleftrightarrow> asks_sol N r x rq"
| "asks N links (PrepSolLink rowId codes p) rq \<longleftrightarrow>
     (\<exists>i code. rq = SignSolPaymentLink i \<and> free_code 5 codes links = Some code \<and> pl_linkId i = sha256 (ch_sdk N) (utf8 code) \<and>
        solToLamports (sl_params_amount p) = Inr (pl_amountLamports i) \<and>
        pl_recipientCommitment i =
          approvalCommitment (ch_sdk N) (sl_params_platform p) (approvalHandle (sl_params_recipientHandle p)))"
| "asks N links (PrepCancel u code) rq \<longleftrightarrow>
     (\<exists>i row e. rq = SignCancelSolPaymentLink i \<and> findUnique links code = Some row \<and> sl_senderUserId row = Some u \<and>
        sl_envelopeId row = Some e \<and> ch_parse N e = Some (cl_paymentLink i))"
| "asks N links (PrepGrant fr p) rq \<longleftrightarrow>
     (\<exists>i. rq = SignSessionGrant i \<and> sg_sessionPublicKey i = fs_key fr \<and>
        asks_grant p (sg_perActionLimit i) (sg_cumulativeLimit i) (sg_validAfterUnix i) (sg_validUntilUnix i)) \<or>
     (\<exists>i. rq = SignVaultAndSession i \<and> ig_sessionPublicKey i = fs_key fr \<and>
        asks_grant p (ig_perActionLimit i) (ig_cumulativeLimit i) (ig_validAfterUnix i) (ig_validUntilUnix i))"

section \<open>Steps\<close>

declare amountToAtomic.simps [simp del] solToLamports.simps [simp del]

lemma js_to_http_Inr [simp]: "js_to_http r = Inr x \<longleftrightarrow> r = Inr x"
  by (cases r) (simp_all add: js_to_http_def)

lemma new_public_key_Inr [simp]: "new_public_key N s = Inr k \<longleftrightarrow> ch_parse N s = Some k"
  by (simp add: new_public_key_def split: option.split)

lemma userWithWallet_Inr:
  "userWithWallet userId s = (Inr (u, w), t) \<longleftrightarrow> t = s \<and> findUnique (rs_users s) userId = Some u \<and> ru_smartWallet u = Some w"
  by (auto simp: userWithWallet_def handler_simps split: option.splits)

lemma read_vault_Inr:
  "read_vault E address s = (Inr va, t) \<longleftrightarrow> t = s \<and> readVault (pe_chain E) address (rs_ledger s) = Inr va"
  by (auto simp: read_vault_def on_ledger_Inr)

lemma open_vault_Inr:
  "open_vault E address m s = (Inr va, t) \<longleftrightarrow> t = s \<and> readVault (pe_chain E) address (rs_ledger s) = Inr (Some va)"
  by (auto simp: open_vault_def handler_simps read_vault_Inr)

lemma stage_Inr:
  "stage now i pa s = (Inr st, t) \<longleftrightarrow>
     t = s\<lparr>rs_redis := (rs_redis s)(prepare_key i \<mapsto> (RPrepared pa, Some (now + PREPARE_TTL_MS)))\<rparr> \<and>
     st = \<lparr>stg_prepareId = i, stg_challengeB64Url = pa_challengeB64Url pa, stg_vaultAddress = pa_vaultAddress pa,
           stg_expiresAtUnix = pa_expiresAtUnix pa\<rparr>"
  by (auto simp: stage_def handler_simps setJson_def redis_set_px_def)

lemmas prepare_simps = handler_simps userWithWallet_Inr read_vault_Inr open_vault_Inr stage_Inr

lemma bigint_of_dec_nonneg: "bigint_of_dec s = Inr i \<Longrightarrow> 0 \<le> i"
  by (auto simp: bigint_of_dec_def split: option.splits)

lemma amounts_nonneg:
  "amountToAtomic x = Inr a \<Longrightarrow> 0 \<le> a" "solToLamports x = Inr b \<Longrightarrow> 0 \<le> b"
  by (cases x; auto simp: amountToAtomic.simps solToLamports.simps dest: bigint_of_dec_nonneg split: if_splits)+

lemma token_accounts_Inr:
  "vaultTokenAccount N a = Inr k \<longleftrightarrow> (\<exists>v. isSolanaAddress N a \<and> ch_parse N a = Some v \<and> k = tokenAccountOf N v)"
  "recipientTokenAccount N a = Inr k \<longleftrightarrow> (\<exists>v. isSolanaAddress N a \<and> ch_parse N a = Some v \<and> k = tokenAccountOf N v)"
  by (auto simp: vaultTokenAccount_def recipientTokenAccount_def bindE_Inr_iff)

lemma printed [simp]: "chain_ok N \<Longrightarrow> ch_parse N (ch_print N k) = Some k"
  by (simp add: chain_ok_def)

section \<open>What an approval stands for\<close>

text \<open>Every instruction that is built from the approval, for the wallet whose key signs, is the call whose
  request was challenged.\<close>

definition stands_for :: "'pk passkey_env \<Rightarrow> SmartWallet \<Rightarrow> PreparedAction \<Rightarrow> 'pk signing_request \<Rightarrow> bool" where
  "stands_for E w pa rq \<longleftrightarrow>
     (\<forall>c e pf b. cfg_stablecoin_mint c = ch_mint (pe_chain E) \<longrightarrow> clusterDomain E = Inr (cfg_cluster_domain c) \<longrightarrow>
        bigint_of_text (pa_expiresAtUnix pa) = Inr e \<longrightarrow>
        compressedP256PublicKey (wal_publicKeyX w) (wal_publicKeyY w) = Inr (compressedPublicKey pf) \<longrightarrow>
        build_action E pa w e pf = Inr b \<longrightarrow> bt_accounts b \<longrightarrow> call_request (pe_sdk E) c (bt_call b) = Some rq)"

text \<open>The state after a preparation holds an approval that stands for the request of its challenge.\<close>

definition approved :: "'pk passkey_env \<Rightarrow> int \<Rightarrow> string \<Rightarrow> 'pk preparation \<Rightarrow> 'pk relayer_state \<Rightarrow> staged \<Rightarrow> 'pk relayer_state \<Rightarrow> bool" where
  "approved E now i prep s st t \<longleftrightarrow>
     (\<exists>pa rq ch u w. findUnique (rs_users s) (prep_user prep) = Some u \<and> ru_smartWallet u = Some w \<and>
        rs_redis t (prepare_key i) = Some (RPrepared pa, Some (now + PREPARE_TTL_MS)) \<and> pa_userId pa = prep_user prep \<and>
        pa_challengeB64Url pa = bytesToBase64Url ch \<and> stg_challengeB64Url st = bytesToBase64Url ch \<and>
        request_challenge (pe_sdk E) rq = Inr ch \<and> ch_parse (pe_chain E) (wal_address w) = Some (request_vault rq) \<and>
        asks (pe_chain E) (rs_shortLinks s) prep rq \<and> stands_for E w pa rq \<and> rs_ledger t = rs_ledger s)"

lemma approvedI:
  assumes "findUnique (rs_users s) (prep_user prep) = Some u" and "ru_smartWallet u = Some w"
    and "stage now i pa s' = (Inr st, t)" and "rs_ledger s' = rs_ledger s"
    and "pa_userId pa = prep_user prep" and "pa_challengeB64Url pa = bytesToBase64Url ch"
    and "request_challenge (pe_sdk E) rq = Inr ch" and "ch_parse (pe_chain E) (wal_address w) = Some (request_vault rq)"
    and "asks (pe_chain E) (rs_shortLinks s) prep rq" and "stands_for E w pa rq"
  shows "approved E now i prep s st t"
  unfolding approved_def using assms
  by (intro exI [of _ pa] exI [of _ rq] exI [of _ ch] exI [of _ u] exI [of _ w]) (auto simp: stage_Inr)

lemma approved_sol_transfer:
  assumes ok: "chain_ok (pe_chain E)" and run: "prepareSolTransfer E now i u r x s = (Inr st, t)"
    and prep: "prep_user prep = u" "\<And>rq. asks_sol (pe_chain E) r x rq \<Longrightarrow> asks (pe_chain E) (rs_shortLinks s) prep rq"
  shows "approved E now i prep s st t"
proof -
  let ?N = "pe_chain E"
  from run obtain user w amount vault to domain ch and va :: Vault where
    g: "findUnique (rs_users s) u = Some user" "ru_smartWallet user = Some w" "solToLamports x = Inr amount"
      "ch_parse ?N (wal_address w) = Some vault" "ch_parse ?N r = Some to" "clusterDomain E = Inr domain"
    and ch: "solTransferChallenge (pe_sdk E)
       \<lparr>st_clusterDomain = domain, st_programId = VERIAGENT_PROGRAM_ID (pe_sdk E),
        st_config = deriveProtocolConfig (pe_sdk E) None, st_vault = vault, st_recipient = to,
        st_amountLamports = amount, st_vaultNonce = int (va_nonce va), st_expiresAtUnix = approval_expiry now\<rparr> = Inr ch"
      (is "solTransferChallenge _ ?i = _")
    and st: "stage now i \<lparr>pa_userId = u, pa_vaultAddress = wal_address w, pa_challengeB64Url = bytesToBase64Url ch,
        pa_kind = Kind_sol_transfer, pa_expiresAtUnix = show_bigint (approval_expiry now),
        pa_payload = [(''recipientAddress'', PStr (ch_print ?N to)),
          (''amountLamports'', PStr (show_bigint amount)), (''vaultNonce'', PStr (show_bigint (int (va_nonce va))))],
        pa_sessionKeyId = None\<rparr> s = (Inr st, t)" (is "stage _ _ ?pa _ = _")
    unfolding prepareSolTransfer_def
    by (auto simp: handler_simps userWithWallet_Inr open_vault_Inr)
  have "stands_for E w ?pa (SignSolTransfer ?i)"
    using g ok by (auto simp: stands_for_def build_action_def build_sol_transfer_def bindE_Inr_iff Let_def proof_of_def dest: amounts_nonneg)
  with g ch prep show ?thesis
    by (intro approvedI [OF _ _ st, where rq = "SignSolTransfer ?i"]) (auto simp: asks_sol_def)
qed

lemma approved_transfer:
  assumes ok: "chain_ok (pe_chain E)" and run: "prepareTransfer E now i p s = (Inr st, t)"
  shows "approved E now i (PrepTransfer p) s st t"
proof (cases "toUpperCase (tp_tokenSymbol p) = ''SOL''")
  case True
  then show ?thesis using run by (intro approved_sol_transfer [OF ok]) (simp_all add: prepareTransfer_def)
next
  case False
  let ?N = "pe_chain E"
  from run False obtain user w amount vault to domain ch and va :: Vault where
    g: "findUnique (rs_users s) (tp_userId p) = Some user" "ru_smartWallet user = Some w" "amountToAtomic (tp_amount p) = Inr amount"
      "ch_parse ?N (wal_address w) = Some vault" "recipientTokenAccount ?N (tp_recipientAddress p) = Inr to"
      "clusterDomain E = Inr domain"
    and ch: "transferChallenge (pe_sdk E)
          \<lparr>tr_clusterDomain = domain, tr_programId = VERIAGENT_PROGRAM_ID (pe_sdk E),
           tr_config = deriveProtocolConfig (pe_sdk E) None, tr_vault = vault, tr_vaultTokenAccount = tokenAccountOf ?N vault,
           tr_destinationTokenAccount = to, tr_stablecoinMint = ch_mint ?N, tr_amount = amount,
           tr_vaultNonce = int (va_nonce va), tr_expiresAtUnix = approval_expiry now\<rparr> = Inr ch"
      (is "transferChallenge _ ?i = _")
    and st: "stage now i \<lparr>pa_userId = tp_userId p, pa_vaultAddress = wal_address w, pa_challengeB64Url = bytesToBase64Url ch,
           pa_kind = Kind_transfer, pa_expiresAtUnix = show_bigint (approval_expiry now),
           pa_payload = [(''recipientAddress'', PStr (tp_recipientAddress p)), (''destinationTokenAccount'', PStr (ch_print ?N to)),
             (''amountAtomic'', PStr (show_bigint amount)), (''vaultNonce'', PStr (show_bigint (int (va_nonce va))))],
           pa_sessionKeyId = None\<rparr> s = (Inr st, t)" (is "stage _ _ ?pa _ = _")
    unfolding prepareTransfer_def
    by (auto simp: handler_simps userWithWallet_Inr open_vault_Inr token_accounts_Inr(1))
  have "stands_for E w ?pa (SignTransfer ?i)"
    using g ok
    by (auto simp: stands_for_def build_action_def build_transfer_def bindE_Inr_iff Let_def proof_of_def tokenAccountOf_def
        dest: amounts_nonneg)
  with g ch False show ?thesis by (intro approvedI [OF _ _ st, where rq = "SignTransfer ?i"]) auto
qed

lemma approved_cancel:
  assumes ok: "chain_ok (pe_chain E)" and run: "prepareCancelSolPaymentLink E now i u code s = (Inr st, t)"
  shows "approved E now i (PrepCancel u code) s st t"
proof -
  let ?N = "pe_chain E"
  from run obtain user w vault link e row domain ch and va :: Vault where
    g: "findUnique (rs_users s) u = Some user" "ru_smartWallet user = Some w" "ch_parse ?N (wal_address w) = Some vault"
      "findUnique (rs_shortLinks s) code = Some row" "sl_senderUserId row = Some u" "sl_envelopeId row = Some e"
      "ch_parse ?N e = Some link" "clusterDomain E = Inr domain"
    and ch: "cancelSolPaymentLinkChallenge (pe_sdk E)
       \<lparr>cl_clusterDomain = domain, cl_programId = VERIAGENT_PROGRAM_ID (pe_sdk E),
        cl_config = deriveProtocolConfig (pe_sdk E) None, cl_vault = vault, cl_paymentLink = link,
        cl_vaultNonce = int (va_nonce va), cl_proofExpiresAtUnix = approval_expiry now\<rparr> = Inr ch"
      (is "cancelSolPaymentLinkChallenge _ ?i = _")
    and st: "stage now i \<lparr>pa_userId = u, pa_vaultAddress = wal_address w, pa_challengeB64Url = bytesToBase64Url ch,
        pa_kind = Kind_sol_payment_link_cancel, pa_expiresAtUnix = show_bigint (approval_expiry now),
        pa_payload = [(''code'', PStr code), (''paymentLink'', PStr (ch_print ?N link)),
          (''vaultNonce'', PStr (show_bigint (int (va_nonce va))))],
        pa_sessionKeyId = None\<rparr> s = (Inr st, t)" (is "stage _ _ ?pa _ = _")
    unfolding prepareCancelSolPaymentLink_def findOwnedSolPaymentLink_def
    by (auto simp: handler_simps userWithWallet_Inr open_vault_Inr or_null_def or_str_def split: option.splits if_splits)
  have "stands_for E w ?pa (SignCancelSolPaymentLink ?i)"
    using g ok by (auto simp: stands_for_def build_action_def build_cancel_link_def bindE_Inr_iff Let_def proof_of_def)
  with g ch show ?thesis by (intro approvedI [OF _ _ st, where rq = "SignCancelSolPaymentLink ?i"]) auto
qed

lemma pending_link_Inr:
  "createPendingSolPaymentLink rowId codes u h pl x f e s = (Inr code, t) \<Longrightarrow>
     free_code 5 codes (rs_shortLinks s) = Some code \<and> rs_ledger t = rs_ledger s"
  unfolding createPendingSolPaymentLink_def by (auto simp: handler_simps split: option.splits)

lemma digest_round_trip: "sdk_ok S \<Longrightarrow> base64UrlToBytes (bytesToBase64Url (sha256 S x)) = Inr (sha256 S x)"
  by (rule base64_round_trip) (auto simp: sdk_ok_def dest: arg_cong [where f = length])

lemma paymentLinkAddress_Inr:
  "paymentLinkAddress N a i = Inr l \<Longrightarrow> \<exists>v. ch_parse N a = Some v \<and> l = link_address (ch_sdk N) v i"
  by (auto simp: paymentLinkAddress_def bindE_Inr_iff derivePaymentLink_def link_address_def program_or_default_def split: if_splits)

lemma approved_sol_link:
  assumes ok: "chain_ok (pe_chain E)" and run: "prepareSolPaymentLink E now i rowId codes p s = (Inr (st, c), t)"
  shows "approved E now i (PrepSolLink rowId codes p) s st t"
proof -
  let ?N = "pe_chain E" and ?h = "approvalHandle (sl_params_recipientHandle p)" and ?until = "unix_seconds now + 86400"
  let ?commit = "approvalCommitment (pe_sdk E) (sl_params_platform p) ?h"
  from run obtain user w vault amount code domain ch s' and va :: Vault where
    g: "findUnique (rs_users s) (sl_params_userId p) = Some user" "ru_smartWallet user = Some w"
      "ch_parse ?N (wal_address w) = Some vault" "solToLamports (sl_params_amount p) = Inr amount"
      "free_code 5 codes (rs_shortLinks s) = Some code" "clusterDomain E = Inr domain" "rs_ledger s' = rs_ledger s"
    and ch: "solPaymentLinkChallenge (pe_sdk E)
       \<lparr>pl_clusterDomain = domain, pl_programId = VERIAGENT_PROGRAM_ID (pe_sdk E),
        pl_config = deriveProtocolConfig (pe_sdk E) None, pl_vault = vault,
        pl_paymentLink = link_address (pe_sdk E) vault (sha256 (pe_sdk E) (utf8 code)), pl_linkId = sha256 (pe_sdk E) (utf8 code),
        pl_recipientCommitment = ?commit, pl_amountLamports = amount,
        pl_linkExpiresAtUnix = ?until, pl_vaultNonce = int (va_nonce va),
        pl_proofExpiresAtUnix = approval_expiry now\<rparr> = Inr ch"
      (is "solPaymentLinkChallenge _ ?i = _")
    and st: "stage now i \<lparr>pa_userId = sl_params_userId p, pa_vaultAddress = wal_address w, pa_challengeB64Url = bytesToBase64Url ch,
        pa_kind = Kind_sol_payment_link, pa_expiresAtUnix = show_bigint (approval_expiry now),
        pa_payload = [(''code'', PStr code),
          (''paymentLink'', PStr (ch_print ?N (link_address (pe_sdk E) vault (sha256 (pe_sdk E) (utf8 code))))),
          (''linkId'', PStr (bytesToBase64Url (sha256 (pe_sdk E) (utf8 code)))),
          (''recipientCommitment'', PStr (bytesToBase64Url ?commit)),
          (''amountLamports'', PStr (show_bigint amount)),
          (''linkExpiresAtUnix'', PStr (show_bigint ?until)),
          (''vaultNonce'', PStr (show_bigint (int (va_nonce va))))],
        pa_sessionKeyId = None\<rparr> s' = (Inr st, t)" (is "stage _ _ ?pa _ = _")
    unfolding prepareSolPaymentLink_def Let_def
    by (auto simp: handler_simps userWithWallet_Inr open_vault_Inr dest!: pending_link_Inr paymentLinkAddress_Inr)
  have digest: "base64UrlToBytes (bytesToBase64Url (sha256 (pe_sdk E) x)) = Inr (sha256 (pe_sdk E) x)" for x
    using ok by (intro digest_round_trip) (simp add: chain_ok_def)
  have commit: "base64UrlToBytes (bytesToBase64Url ?commit) = Inr ?commit" unfolding approvalCommitment_def by (rule digest)
  have "stands_for E w ?pa (SignSolPaymentLink ?i)"
    using g ok by (auto simp: stands_for_def build_action_def build_sol_link_def bindE_Inr_iff Let_def proof_of_def digest commit
        dest: amounts_nonneg)
  with g ch show ?thesis by (intro approvedI [OF _ _ st, where rq = "SignSolPaymentLink ?i"]) auto
qed

lemma stored_digest: "length h = 32 \<Longrightarrow> bytes32FromStored (''0x'' @ to_hex h) = Inr h"
proof -
  have "list_all (\<lambda>c. char_nibble c \<noteq> None) (to_hex bs)" for bs
    by (induction bs) (simp_all add: to_hex_def)
  then show "length h = 32 \<Longrightarrow> ?thesis" by (simp add: bytes32FromStored_def Let_def)
qed

lemma provision_Inr:
  assumes "provisionSessionKey R now fr u d x y s = (Inr (i, key), t)"
  shows "i = fs_rowId fr \<and> key = ch_print (re_chain R) (fs_key fr) \<and> rs_ledger t = rs_ledger s"
  using assms unfolding provisionSessionKey_def logAuditEvent_def by (auto simp: handler_simps Let_def)

lemma unsalted: "bytes32FromStored [] = Inr h \<Longrightarrow> False"
  by (simp add: bytes32FromStored_def base64_decode_def Let_def)

lemma grant_challenge_Inr:
  assumes ok: "sdk_ok (pe_sdk E)"
    and ch: "grant_challenge E now w vaultState vault session key per cum from until = Inr ch"
  obtains (granting) domain and va :: Vault where "vaultState = Some va" and "clusterDomain E = Inr domain"
    and "sessionGrantChallenge (pe_sdk E)
         \<lparr>sg_clusterDomain = domain, sg_programId = VERIAGENT_PROGRAM_ID (pe_sdk E),
          sg_config = deriveProtocolConfig (pe_sdk E) None, sg_vault = vault, sg_session = session,
          sg_sessionPublicKey = key, sg_actionBitmap = JNum 1, sg_perActionLimit = per,
          sg_cumulativeLimit = cum, sg_validAfterUnix = from, sg_validUntilUnix = until,
          sg_vaultNonce = int (va_nonce va), sg_expiresAtUnix = approval_expiry now\<rparr> = Inr ch"
  | (creating) domain v root salt where "vaultState = None" and "clusterDomain E = Inr domain"
    and "ch_parse (pe_chain E) (wal_address w) = Some v"
    and "compressedP256PublicKey (wal_publicKeyX w) (wal_publicKeyY w) = Inr root"
    and "bytes32FromStored (wal_salt w) = Inr salt"
    and "initializeVaultAndGrantSessionChallenge (pe_sdk E)
           \<lparr>ig_clusterDomain = domain, ig_programId = VERIAGENT_PROGRAM_ID (pe_sdk E),
            ig_config = deriveProtocolConfig (pe_sdk E) None, ig_vault = vault, ig_session = session,
            ig_sessionPublicKey = key, ig_actionBitmap = JNum 1, ig_perActionLimit = per,
            ig_cumulativeLimit = cum, ig_validAfterUnix = from, ig_validUntilUnix = until,
            ig_expiresAtUnix = approval_expiry now, ig_vaultTokenAccount = tokenAccountOf (pe_chain E) v,
            ig_stablecoinMint = ch_mint (pe_chain E),
            ig_rootPublicKey = root, ig_rootKeyHash = sha256 (pe_sdk E) root, ig_userSalt = salt\<rparr> = Inr ch"
proof (cases vaultState)
  case (Some va)
  with ch show ?thesis by (auto simp: grant_challenge_def bindE_Inr_iff intro: granting)
next
  case None
  have digest: "bytes32FromStored (''0x'' @ to_hex (sha256 (pe_sdk E) x)) = Inr (sha256 (pe_sdk E) x)" for x
    using ok by (intro stored_digest) (simp add: sdk_ok_def)
  from None ch show ?thesis
    by (cases "wal_salt w = []")
       (auto simp: grant_challenge_def bindE_Inr_iff token_accounts_Inr rootHashFromWallet_def rootHashBytes_def bytesToHex_def digest [simplified]
        dest: unsalted intro: creating)
qed

definition grant_action :: "'pk passkey_env \<Rightarrow> int \<Rightarrow> 'pk fresh_session \<Rightarrow> grant_params \<Rightarrow> string \<Rightarrow> 'pk \<Rightarrow> int \<Rightarrow> int \<Rightarrow> Vault option \<Rightarrow> bytes \<Rightarrow> PreparedAction" where
  "grant_action E now fr p address vault per cum vaultState ch =
     \<lparr>pa_userId = gp_userId p, pa_vaultAddress = address, pa_challengeB64Url = bytesToBase64Url ch,
      pa_kind = Kind_session_grant, pa_expiresAtUnix = show_bigint (approval_expiry now),
      pa_payload = [(''initializeVault'', PBool (vaultState = None)),
        (''session'', PStr (ch_print (pe_chain E) (session_address (pe_sdk E) vault (fs_key fr)))),
        (''sessionPublicKey'', PStr (ch_print (pe_chain E) (fs_key fr))), (''actionBitmap'', PNumber 1),
        (''perActionLimit'', PStr (show_bigint per)), (''cumulativeLimit'', PStr (show_bigint cum)),
        (''validAfterUnix'', PStr (show_bigint (unix_seconds now))),
        (''validUntilUnix'', PStr (show_bigint (unix_seconds now + grant_seconds p))),
        (''vaultNonce'', PStr (show_bigint (case vaultState of Some va \<Rightarrow> int (va_nonce va) | None \<Rightarrow> 0)))],
      pa_sessionKeyId = Some (fs_rowId fr)\<rparr>"

lemma prepared_grant:
  assumes ok: "chain_ok (pe_chain E)" and run: "prepareSessionGrant E now i fr p s = (Inr (st, c), t)"
  obtains user w vault per cum vaultState ch s' where
    "findUnique (rs_users s) (gp_userId p) = Some user" "ru_smartWallet user = Some w"
    "ch_parse (pe_chain E) (wal_address w) = Some vault" "amountToAtomic (JNum (or_default (gp_perTxLimitUSD p) 50)) = Inr per"
    "amountToAtomic (JNum (or_default (gp_dailyLimitUSD p) 200)) = Inr cum" "rs_ledger s' = rs_ledger s"
    "0 < grant_hours p" "grant_hours p \<le> 720" "0 < or_default (gp_perTxLimitUSD p) 50"
    "or_default (gp_perTxLimitUSD p) 50 \<le> or_default (gp_dailyLimitUSD p) 200"
    "grant_challenge E now w vaultState vault (session_address (pe_sdk E) vault (fs_key fr)) (fs_key fr) per cum
       (unix_seconds now) (unix_seconds now + grant_seconds p) = Inr ch"
    "stage now i (grant_action E now fr p (wal_address w) vault per cum vaultState ch) s' = (Inr st, t)"
  using run unfolding prepareSessionGrant_def Let_def grant_action_def
  by (auto simp: handler_simps userWithWallet_Inr read_vault_Inr printed [OF ok] dest!: provision_Inr)

lemma approved_grant:
  assumes ok: "chain_ok (pe_chain E)" and run: "prepareSessionGrant E now i fr p s = (Inr (st, c), t)"
  shows "approved E now i (PrepGrant fr p) s st t"
proof -
  let ?N = "pe_chain E" and ?from = "unix_seconds now" and ?until = "unix_seconds now + grant_seconds p"
  obtain user w vault per cum vaultState ch s' where
    g: "findUnique (rs_users s) (gp_userId p) = Some user" "ru_smartWallet user = Some w"
      "ch_parse ?N (wal_address w) = Some vault" "amountToAtomic (JNum (or_default (gp_perTxLimitUSD p) 50)) = Inr per"
      "amountToAtomic (JNum (or_default (gp_dailyLimitUSD p) 200)) = Inr cum" "rs_ledger s' = rs_ledger s"
    and "0 < grant_hours p" "grant_hours p \<le> 720" "0 < or_default (gp_perTxLimitUSD p) 50"
      "or_default (gp_perTxLimitUSD p) 50 \<le> or_default (gp_dailyLimitUSD p) 200"
    and ch: "grant_challenge E now w vaultState vault (session_address (pe_sdk E) vault (fs_key fr)) (fs_key fr) per cum ?from ?until = Inr ch"
    and st: "stage now i (grant_action E now fr p (wal_address w) vault per cum vaultState ch) s' = (Inr st, t)" (is "stage _ _ ?pa _ = _")
    by (rule prepared_grant [OF ok run])
  have sdk: "sdk_ok (pe_sdk E)" using ok by (simp add: chain_ok_def)
  note g = g amounts_nonneg(1) [OF g(4)] amounts_nonneg(1) [OF g(5)]
  from sdk ch show ?thesis
  proof (cases rule: grant_challenge_Inr)
    case (granting domain va)
    let ?i = "\<lparr>sg_clusterDomain = domain, sg_programId = VERIAGENT_PROGRAM_ID (pe_sdk E),
          sg_config = deriveProtocolConfig (pe_sdk E) None, sg_vault = vault,
          sg_session = session_address (pe_sdk E) vault (fs_key fr),
          sg_sessionPublicKey = fs_key fr, sg_actionBitmap = JNum 1, sg_perActionLimit = per,
          sg_cumulativeLimit = cum, sg_validAfterUnix = ?from, sg_validUntilUnix = ?until,
          sg_vaultNonce = int (va_nonce va), sg_expiresAtUnix = approval_expiry now\<rparr>"
    have "stands_for E w ?pa (SignSessionGrant ?i)"
      using g granting(1,2) ok
      by (auto simp: stands_for_def grant_action_def build_action_def build_grant_def bindE_Inr_iff Let_def proof_of_def)
    with g granting(3) show ?thesis
      by (intro approvedI [OF _ _ st, where rq = "SignSessionGrant ?i"]) (auto simp: asks_grant_def grant_action_def)
  next
    case (creating domain v root salt)
    let ?i = "\<lparr>ig_clusterDomain = domain, ig_programId = VERIAGENT_PROGRAM_ID (pe_sdk E),
            ig_config = deriveProtocolConfig (pe_sdk E) None, ig_vault = vault,
            ig_session = session_address (pe_sdk E) vault (fs_key fr),
            ig_sessionPublicKey = fs_key fr, ig_actionBitmap = JNum 1, ig_perActionLimit = per,
            ig_cumulativeLimit = cum, ig_validAfterUnix = ?from, ig_validUntilUnix = ?until,
            ig_expiresAtUnix = approval_expiry now, ig_vaultTokenAccount = tokenAccountOf ?N v,
            ig_stablecoinMint = ch_mint ?N,
            ig_rootPublicKey = root, ig_rootKeyHash = sha256 (pe_sdk E) root, ig_userSalt = salt\<rparr>"
    have "stands_for E w ?pa (SignVaultAndSession ?i)"
      using g creating(1-5) ok
      by (auto simp: stands_for_def grant_action_def build_action_def build_grant_def bindE_Inr_iff Let_def proof_of_def rootHashBytes_def
          tokenAccountOf_def)
    with g creating(6) show ?thesis
      by (intro approvedI [OF _ _ st, where rq = "SignVaultAndSession ?i"]) (auto simp: asks_grant_def grant_action_def)
  qed
qed

lemma prepare_approved:
  assumes "chain_ok (pe_chain E)" and "prepare E now i prep s = (Inr st, t)"
  shows "approved E now i prep s st t"
proof (cases prep)
  case (PrepSolTransfer u r x)
  with assms show ?thesis by (intro approved_sol_transfer) simp_all
qed (use assms in \<open>auto simp: handler_simps intro: approved_transfer approved_sol_link approved_cancel approved_grant\<close>)

section \<open>Execution\<close>

lemma take_prepared_Inr:
  "take_prepared now i s = (Inr pa, t) \<longleftrightarrow>
     redis_get now (prepare_key i) (rs_redis s) = Some (RPrepared pa) \<and> t = s\<lparr>rs_redis := redis_del (prepare_key i) (rs_redis s)\<rparr>"
  by (auto simp: take_prepared_def handler_simps takeJson_def split: option.splits rvalue.splits)

lemma matching_challenge_Inr:
  "matching_challenge E pa a = Inr () \<longleftrightarrow>
     pe_json_challenge E (base64UrlToBuffer (as_clientDataJSON a)) = Inr (Some (pa_challengeB64Url pa))"
  by (auto simp: matching_challenge_def bindE_Inr_iff)

lemma registered_credential_Inr:
  "registered_credential E u c s = (Inr h, t) \<Longrightarrow> t = s \<and> (\<exists>r. findUnique (rs_credentials s) h = Some r \<and> pc_userId r = u \<and> pc_revokedAt r = None)"
  by (auto simp: registered_credential_def handler_simps split: option.splits)

lemma assertion_proof_key:
  "assertion_proof w a = Inr pf \<Longrightarrow> compressedP256PublicKey (wal_publicKeyX w) (wal_publicKeyY w) = Inr (compressedPublicKey pf)"
  by (auto simp: assertion_proof_def bindE_Inr_iff)

lemma built_before: "build_action E pa w e pf = Inr b \<Longrightarrow> bt_before b = [] \<or> (\<exists>k. bt_before b = [TxOpenAta k])"
  by (cases "pa_kind pa")
     (auto simp: build_action_def build_transfer_def build_sol_transfer_def build_sol_link_def build_cancel_link_def build_grant_def
        Let_def bindE_Inr_iff split: if_splits)

text \<open>The program ran the call on the ledger, in which at most the recipient's token account was opened first.\<close>

definition call_executed :: "'pk chain \<Rightarrow> int \<Rightarrow> WebAuthnProof \<Rightarrow> 'pk call \<Rightarrow> 'pk ledger \<Rightarrow> 'pk ledger \<Rightarrow> bool" where
  "call_executed N now pf call lg lg' \<longleftrightarrow>
     (\<exists>ix lg1. createSecp256r1Instruction (ch_sdk N) pf = Inr ix \<and>
        (lg1 = lg \<or> (\<exists>k. init_token_account_if_needed (ch_rt N) (ch_feePayer N) k lg = Inr lg1)) \<and>
        exec (ch_sdk N) (ch_rt N) \<lparr>tx_now = now, tx_signers = [ch_feePayer N], tx_previous = Some ix\<rparr> call lg1 = Inr lg')"

lemma submit_built_Inr:
  assumes run: "submit_built N now net pf b lg = (Inr c, lg')" and before: "bt_before b = [] \<or> (\<exists>k. bt_before b = [TxOpenAta k])"
  shows "bt_accounts b \<and> mint_matches N lg \<and> call_executed N now pf (bt_call b) lg lg' \<and> net = Confirmed (cf_signature c) (cf_slot c)"
proof -
  from run obtain ix where b: "bt_accounts b" and ix: "createSecp256r1Instruction (ch_sdk N) pf = Inr ix"
    and sub: "submit N now net (bt_before b @ [TxVerify ix, TxCall (bt_call b)]) [] lg = (Inr c, lg')"
    by (auto simp: submit_built_def submitPasskeyInstruction_def handler_simps split: if_splits sum.splits)
  note sub = submit_Inr [OF sub]
  from before have "call_executed N now pf (bt_call b) lg lg'"
  proof
    assume "bt_before b = []"
    with sub ix show ?thesis by (auto simp: call_executed_def bindE_Inr_iff simp del: exec.simps)
  next
    assume "\<exists>k. bt_before b = [TxOpenAta k]"
    with sub obtain k lg1 where "init_token_account_if_needed (ch_rt N) (ch_feePayer N) k lg = Inr lg1"
      "exec (ch_sdk N) (ch_rt N) \<lparr>tx_now = now, tx_signers = [ch_feePayer N], tx_previous = Some ix\<rparr> (bt_call b) lg1 = Inr lg'"
      by (auto simp: bindE_Inr_iff simp del: exec.simps)
    with ix show ?thesis unfolding call_executed_def by blast
  qed
  with b sub show ?thesis by blast
qed

lemma recorded_ledger:
  "record_execution now u c pa s = (Inr (), t) \<Longrightarrow> rs_ledger t = rs_ledger s"
  by (auto simp: record_execution_def handler_simps Let_def)

lemma marked_ledger:
  "(case pa_kind pa of Kind_sol_payment_link \<Rightarrow> activateSolPaymentLink code l sig
      | Kind_sol_payment_link_cancel \<Rightarrow> markSolPaymentLinkCancelled code sig | _ \<Rightarrow> returnS ()) s = (Inr (), t) \<Longrightarrow>
     rs_ledger t = rs_ledger s"
  by (cases "pa_kind pa") (auto simp: activateSolPaymentLink_def markSolPaymentLinkCancelled_def update_link_def handler_simps)

lemma executeAction_success:
  assumes "executeAction E now net u i a s = (Inr ex, t)"
  shows "\<exists>pa user w pf e b c. redis_get now (prepare_key i) (rs_redis s) = Some (RPrepared pa) \<and> pa_userId pa = u \<and>
     matching_challenge E pa a = Inr () \<and> findUnique (rs_users s) u = Some user \<and> ru_smartWallet user = Some w \<and>
     assertion_proof w a = Inr pf \<and> bigint_of_text (pa_expiresAtUnix pa) = Inr e \<and> build_action E pa w e pf = Inr b \<and>
     submit_built (pe_chain E) (unix_seconds now) net pf b (rs_ledger s) = (Inr c, rs_ledger t)"
proof -
  from assms obtain pa cred user w pf e b c s1 s2 s3 where
    g: "redis_get now (prepare_key i) (rs_redis s) = Some (RPrepared pa)" "pa_userId pa = u" "matching_challenge E pa a = Inr ()"
      "findUnique (rs_users s) u = Some user" "ru_smartWallet user = Some w" "assertion_proof w a = Inr pf"
      "bigint_of_text (pa_expiresAtUnix pa) = Inr e" "build_action E pa w e pf = Inr b"
    and sub: "catchS (on_ledger (submit_built (pe_chain E) (unix_seconds now) net pf b)) (\<lambda>x.
       bindS (if pa_kind pa = Kind_sol_payment_link then failPendingSolPaymentLink (payload_text (pa_payload pa) ''code'') else returnS ())
         (\<lambda>_. throwS x)) s1 = (Inr c, s2)" "rs_ledger s1 = rs_ledger s"
    and m: "(case pa_kind pa of Kind_sol_payment_link \<Rightarrow>
           activateSolPaymentLink (payload_text (pa_payload pa) ''code'') (payload_text (pa_payload pa) ''paymentLink'') (cf_signature c)
       | Kind_sol_payment_link_cancel \<Rightarrow> markSolPaymentLinkCancelled (payload_text (pa_payload pa) ''code'') (cf_signature c)
       | _ \<Rightarrow> returnS ()) s2 = (Inr (), s3)"
    and r: "record_execution now u cred pa s3 = (Inr (), t)"
    unfolding executeAction_def Let_def
    by (auto simp: bindS_Inr take_prepared_Inr guardS_Inr liftS_Inr returnS_Inr userWithWallet_Inr dest!: registered_credential_Inr)
  from sub obtain c' where "submit_built (pe_chain E) (unix_seconds now) net pf b (rs_ledger s) = (Inr c', rs_ledger s2)"
    by (auto simp: catchS_Inr on_ledger_Inr handler_simps split: if_splits)
  moreover have "rs_ledger t = rs_ledger s2" using marked_ledger [OF m] recorded_ledger [OF r] by simp
  ultimately show ?thesis using g
    by (intro exI [of _ pa] exI [of _ user] exI [of _ w] exI [of _ pf] exI [of _ e] exI [of _ b] exI [of _ c']) simp
qed

lemma same_wallet_builds:
  assumes "wal_publicKeyX w' = wal_publicKeyX w" "wal_publicKeyY w' = wal_publicKeyY w" "wal_salt w' = wal_salt w"
  shows "build_action E pa w' = build_action E pa w"
  unfolding build_action_def [abs_def] build_grant_def assms by (rule refl)

text \<open>The key and the salt of the wallet of a user.\<close>

definition wallet_seeds :: "'pk relayer_state \<Rightarrow> string \<Rightarrow> (string \<times> string \<times> string) option" where
  "wallet_seeds s u =
     (case findUnique (rs_users s) u of
        Some user \<Rightarrow> map_option (\<lambda>w. (wal_publicKeyX w, wal_publicKeyY w, wal_salt w)) (ru_smartWallet user)
      | None \<Rightarrow> None)"

section \<open>Single use\<close>

definition unprepared :: "string \<Rightarrow> 'pk relayer_state \<Rightarrow> bool" where
  "unprepared i s \<longleftrightarrow> rs_redis s (prepare_key i) = None"

lemma unprepared_modify: "(\<And>s. rs_redis (f s) = rs_redis s) \<Longrightarrow> preserves (unprepared i) (modifyS f)"
  by (rule triple_modify) (simp add: unprepared_def)

lemma unprepared_zoom:
  "preserves (unprepared i) (on_ledger m)" "preserves (unprepared i) (update_link c f)" "preserves (unprepared i) (failPendingSolPaymentLink c)"
proof -
  show "preserves (unprepared i) (on_ledger m)" for m
    by (rule tripleI) (auto simp: on_ledger_def zoomS_def unprepared_def split: prod.splits)
  show "preserves (unprepared i) (update_link c f)" unfolding update_link_def
    by (intro preserves_intros unprepared_modify) simp
  show "preserves (unprepared i) (failPendingSolPaymentLink c)" unfolding failPendingSolPaymentLink_def
    by (rule unprepared_modify) simp
qed

lemma unprepared_stage: "j \<noteq> i \<Longrightarrow> preserves (unprepared i) (stage now j pa)"
  unfolding stage_def
  by (intro preserves_intros triple_modify) (simp add: unprepared_def setJson_def redis_set_px_def prepare_key_def)

lemma unprepared_provision: "preserves (unprepared i) (provisionSessionKey R now fr u d x y)"
proof -
  have prefix: "prepare_key i \<noteq> SK_PREFIX @ h" for h by (simp add: SK_PREFIX_def prepare_key_def)
  show ?thesis
    unfolding provisionSessionKey_def logAuditEvent_def Let_def
    by (intro preserves_intros triple_modify)
       (auto simp: unprepared_def setSessionKey_def setJson_def redis_set_px_def Let_def prefix)
qed

lemma unprepared_reads:
  "preserves (unprepared i) (userWithWallet u)" "preserves (unprepared i) (read_vault E a)" "preserves (unprepared i) (open_vault E a m)"
  "preserves (unprepared i) (findOwnedSolPaymentLink c u)" "preserves (unprepared i) (createPendingSolPaymentLink r cs u h pl x f e)"
  "preserves (unprepared i) (registered_credential E u c)"
proof -
  show r: "preserves (unprepared i) (read_vault E a)" for a unfolding read_vault_def by (rule unprepared_zoom)
  show "preserves (unprepared i) (open_vault E a m)" unfolding open_vault_def by (intro preserves_intros r)
  show "preserves (unprepared i) (userWithWallet u)" unfolding userWithWallet_def by (intro preserves_intros)
  show "preserves (unprepared i) (findOwnedSolPaymentLink c u)" unfolding findOwnedSolPaymentLink_def by (intro preserves_intros)
  show "preserves (unprepared i) (registered_credential E u c)" unfolding registered_credential_def by (intro preserves_intros)
  show "preserves (unprepared i) (createPendingSolPaymentLink r cs u h pl x f e)"
    unfolding createPendingSolPaymentLink_def by (intro preserves_intros unprepared_modify) simp
qed

lemmas unprepared_intros = preserves_intros unprepared_reads unprepared_zoom unprepared_provision unprepared_stage

lemma unprepared_prepare:
  assumes j: "j \<noteq> i"
  shows "preserves (unprepared i) (prepare E now j p)"
proof -
  have sol: "preserves (unprepared i) (prepareSolTransfer E now j u r x)" for u r x
    unfolding prepareSolTransfer_def split_beta by (intro unprepared_intros j)
  have transfer: "preserves (unprepared i) (prepareTransfer E now j q)" for q
    unfolding prepareTransfer_def split_beta by (intro unprepared_intros sol j)
  have link: "preserves (unprepared i) (prepareSolPaymentLink E now j rowId codes q)" for rowId codes q
    unfolding prepareSolPaymentLink_def split_beta Let_def by (intro unprepared_intros j)
  have cancel: "preserves (unprepared i) (prepareCancelSolPaymentLink E now j u code)" for u code
    unfolding prepareCancelSolPaymentLink_def split_beta by (intro unprepared_intros j)
  have grant: "preserves (unprepared i) (prepareSessionGrant E now j fr q)" for fr q
    unfolding prepareSessionGrant_def split_beta Let_def by (intro unprepared_intros j)
  show ?thesis
    by (cases p) (simp_all add: sol transfer link cancel grant split_beta preserves_bind preserves_basic)
qed

lemma unprepared_record: "preserves (unprepared i) (record_execution now u c pa)"
  unfolding record_execution_def Let_def by (intro preserves_intros unprepared_modify) simp

lemma taken_unprepared: "triple (\<lambda>_. True) (take_prepared now i) (\<lambda>_. unprepared i) (unprepared i)"
  by (rule tripleI) (auto simp: take_prepared_def bindS_def getS_def modifyS_def liftS_def takeJson_def unprepared_def redis_del_def)

lemma taken_preserves: "preserves (unprepared i) (take_prepared now j)"
  by (rule tripleI) (auto simp: take_prepared_def bindS_def getS_def modifyS_def liftS_def takeJson_def unprepared_def redis_del_def)

lemma submitted_preserves:
  "preserves (unprepared i) (catchS (on_ledger m) (\<lambda>e. bindS (if c then failPendingSolPaymentLink code else returnS ()) (\<lambda>_. throwS e)))"
  by (rule triple_catch [where E = "unprepared i"]) (intro unprepared_intros)+

lemma marked_preserves:
  "preserves (unprepared i) (case k of Kind_sol_payment_link \<Rightarrow> activateSolPaymentLink code l sig
      | Kind_sol_payment_link_cancel \<Rightarrow> markSolPaymentLinkCancelled code sig | _ \<Rightarrow> returnS ())"
  unfolding activateSolPaymentLink_def markSolPaymentLinkCancelled_def
  by (cases k) (simp_all add: preserves_basic unprepared_zoom)

lemmas executed_intros =
  preserves_bind preserves_basic unprepared_reads unprepared_record submitted_preserves marked_preserves

lemma executed_preserves: "preserves (unprepared i) (executeAction E now net u j a)"
  unfolding executeAction_def Let_def split_beta by (intro executed_intros taken_preserves)

lemma executed_unprepared: "unprepared i (snd (executeAction E now net u i a s))"
proof -
  have "triple (\<lambda>_. True) (executeAction E now net u i a) (\<lambda>_. unprepared i) (unprepared i)"
    unfolding executeAction_def Let_def split_beta by (rule triple_bind [OF taken_unprepared]) (intro executed_intros)
  then show ?thesis
    by (cases "executeAction E now net u i a s"; cases "fst (executeAction E now net u i a s)") (auto dest: triple_throws triple_returns)
qed

section \<open>Runs\<close>

text \<open>What happens between two uses of an approval: preparations, executions, and whatever happens on the
  ledger.\<close>

datatype 'pk passkey_op =
    OpPrepare string "'pk preparation"
  | OpExecute net_answer string string assertion
  | OpLedger "'pk event"

fun passkey_step :: "'pk passkey_env \<Rightarrow> int \<times> 'pk passkey_op \<Rightarrow> 'pk relayer_state \<Rightarrow> 'pk relayer_state" where
  "passkey_step E (now, OpPrepare i p) s = snd (prepare E now i p s)"
| "passkey_step E (now, OpExecute net u i a) s = snd (executeAction E now net u i a s)"
| "passkey_step E (now, OpLedger ev) s = rs_ledger_update (ledger_step (pe_sdk E) (ch_rt (pe_chain E)) ev) s"

fun prepares :: "string \<Rightarrow> int \<times> 'pk passkey_op \<Rightarrow> bool" where
  "prepares i (now, OpPrepare j p) \<longleftrightarrow> j = i"
| "prepares i _ \<longleftrightarrow> False"

lemma unprepared_ledger [simp]: "unprepared i (rs_ledger_update f s) = unprepared i s"
  by (simp add: unprepared_def)

lemma steps_unprepared:
  "unprepared i s \<Longrightarrow> \<forall>op \<in> set ops. \<not> prepares i op \<Longrightarrow> unprepared i (fold (passkey_step E) ops s)"
proof (induction ops arbitrary: s)
  case (Cons op ops)
  have "unprepared i (passkey_step E op s)"
    using Cons.prems
    by (cases "(i, op)" rule: prepares.cases)
       (auto intro: preserves_step [OF unprepared_prepare] preserves_step [OF executed_preserves])
  with Cons show ?case by simp
qed simp

section \<open>Properties\<close>


text \<open>C9. What the owner signs is what is done. Take a preparation that returned a challenge, and a later
  execution of its approval that succeeds, in any state that still has the approval and the same key and
  salt of the wallet. Then the user is the one who prepared it, less than five minutes have passed, the
  signed client data names exactly the challenge that the preparation returned, that challenge is the one
  of \<open>challenge.ts\<close> for a request with the recipient, amount, handle or limits of the preparation and the
  vault of its wallet, and the program executed the call of exactly this request.\<close>

theorem approval_executes_what_was_prepared:
  fixes E :: "'pk passkey_env"
  assumes ok: "chain_ok (pe_chain E)"
    and prep: "prepare E now1 i p s1 = (Inr st, t1)"
    and kept: "rs_redis s2 (prepare_key i) = rs_redis t1 (prepare_key i)" "wallet_seeds s2 (prep_user p) = wallet_seeds s1 (prep_user p)"
    and run: "executeAction E now2 net u i a s2 = (Inr ex, t2)"
    and c: "lg_config (rs_ledger s2) = Some c" "clusterDomain E = Inr (cfg_cluster_domain c)"
  shows "\<exists>rq ch call pf user w. u = prep_user p \<and> now2 < now1 + PREPARE_TTL_MS \<and>
     request_challenge (pe_sdk E) rq = Inr ch \<and> stg_challengeB64Url st = bytesToBase64Url ch \<and>
     pe_json_challenge E (base64UrlToBuffer (as_clientDataJSON a)) = Inr (Some (stg_challengeB64Url st)) \<and>
     asks (pe_chain E) (rs_shortLinks s1) p rq \<and> findUnique (rs_users s1) u = Some user \<and> ru_smartWallet user = Some w \<and>
     ch_parse (pe_chain E) (wal_address w) = Some (request_vault rq) \<and> assertion_proof w a = Inr pf \<and>
     call_request (pe_sdk E) c call = Some rq \<and>
     call_executed (pe_chain E) (unix_seconds now2) pf call (rs_ledger s2) (rs_ledger t2)"
proof -
  from prepare_approved [OF ok prep, unfolded approved_def] obtain pa rq ch user w where
    g: "findUnique (rs_users s1) (prep_user p) = Some user" "ru_smartWallet user = Some w"
      "rs_redis t1 (prepare_key i) = Some (RPrepared pa, Some (now1 + PREPARE_TTL_MS))" "pa_userId pa = prep_user p"
      "pa_challengeB64Url pa = bytesToBase64Url ch" "stg_challengeB64Url st = bytesToBase64Url ch"
      "request_challenge (pe_sdk E) rq = Inr ch" "ch_parse (pe_chain E) (wal_address w) = Some (request_vault rq)"
      "asks (pe_chain E) (rs_shortLinks s1) p rq" "stands_for E w pa rq"
    by blast
  from executeAction_success [OF run] obtain pa' user' w' pf e b cf where
    x: "redis_get now2 (prepare_key i) (rs_redis s2) = Some (RPrepared pa')" "pa_userId pa' = u" "matching_challenge E pa' a = Inr ()"
      "findUnique (rs_users s2) u = Some user'" "ru_smartWallet user' = Some w'" "assertion_proof w' a = Inr pf"
      "bigint_of_text (pa_expiresAtUnix pa') = Inr e" "build_action E pa' w' e pf = Inr b"
      "submit_built (pe_chain E) (unix_seconds now2) net pf b (rs_ledger s2) = (Inr cf, rs_ledger t2)"
    by blast
  from x(1) kept g(3) have pa: "pa' = pa" and time: "now2 < now1 + PREPARE_TTL_MS"
    by (auto simp: redis_get_def live_def split: if_splits)
  have u: "u = prep_user p" using x(2) g(4) pa by simp
  have w: "wal_publicKeyX w' = wal_publicKeyX w" "wal_publicKeyY w' = wal_publicKeyY w" "wal_salt w' = wal_salt w"
    using kept(2) g(1,2) x(4,5) by (simp_all add: wallet_seeds_def u)
  then have pf: "assertion_proof w a = Inr pf" using x(6) by (simp add: assertion_proof_def)
  have b: "build_action E pa w e pf = Inr b" using x(8) by (simp add: same_wallet_builds [OF w] pa)
  note sent = submit_built_Inr [OF x(9) built_before [OF b]]
  have "cfg_stablecoin_mint c = ch_mint (pe_chain E)" using sent c(1) by (simp add: mint_matches_def)
  then have "call_request (pe_sdk E) c (bt_call b) = Some rq"
    using g(10) c(2) x(7) assertion_proof_key [OF pf] b sent unfolding stands_for_def pa by blast
  with g x(3) u time pf sent show ?thesis
    by (intro exI [of _ rq] exI [of _ ch] exI [of _ "bt_call b"] exI [of _ pf] exI [of _ user] exI [of _ w])
       (simp add: pa matching_challenge_Inr)
qed

text \<open>C25. An approval is used at most once: after an execution has taken it, whether it succeeded or not,
  every later execution with the same identifier is refused and changes nothing, whatever is prepared
  under other identifiers, executed or done on the ledger in between.\<close>

theorem approval_is_used_at_most_once:
  assumes "\<forall>op \<in> set ops. \<not> prepares i op"
  shows "let s' = fold (passkey_step E) ops (snd (executeAction E now net u i a s)) in
     executeAction E now' net' u' i a' s' = (Inl (BadRequest ''Approval expired or was already used''), s')"
proof -
  let ?s = "fold (passkey_step E) ops (snd (executeAction E now net u i a s))"
  have "rs_redis ?s (prepare_key i) = None"
    using steps_unprepared [OF executed_unprepared assms] by (simp add: unprepared_def)
  then have "take_prepared now' i ?s = (Inl (BadRequest ''Approval expired or was already used''), ?s)"
    by (simp add: take_prepared_def bindS_def getS_def modifyS_def liftS_def takeJson_def redis_get_def live_def redis_del_def
        fun_upd_idem)
  then show ?thesis by (simp add: executeAction_def bindS_def Let_def)
qed

fun call_session_args :: "'pk call \<Rightarrow> 'pk session_args option" where
  "call_session_args (GrantSession p v a n pf) = Some a"
| "call_session_args (InitializeVaultAndGrantSession p pk h s a pf) = Some a"
| "call_session_args _ = None"

lemma amountToAtomic_num: "amountToAtomic (JNum x) = Inr a \<longleftrightarrow> 0 < x \<and> x < 10 ^ 21 \<and> a = int (fixed_units 6 x)"
  by (auto simp: amountToAtomic.simps atomic_cases split: if_splits)

lemma fixed_units_mono: "x \<le> y \<Longrightarrow> fixed_units f x \<le> fixed_units f y"
  unfolding fixed_units_def by (intro nat_mono floor_mono) (simp add: mult_right_mono)

lemma fixed_units_pos: "0 < fixed_units 6 x \<longleftrightarrow> 1 / 2000000 \<le> x"
  by (simp add: fixed_units_def) (simp add: le_floor_iff field_simps)

lemma grant_seconds_bounds: "0 < grant_hours p \<Longrightarrow> grant_hours p \<le> 720 \<Longrightarrow> 0 \<le> grant_seconds p \<and> grant_seconds p \<le> 2592000"
  unfolding grant_seconds_def by (simp add: le_floor_iff floor_le_iff)

lemma built_session_args:
  assumes "build_action E (grant_action E now fr p address vault per cum vaultState ch) w e pf = Inr b"
  shows "\<exists>key. call_session_args (bt_call b) =
     Some \<lparr>sa_session_public_key = key, sa_action_bitmap = 1, sa_per_action_limit = nat per, sa_cumulative_limit = nat cum,
       sa_valid_after = unix_seconds now, sa_valid_until = unix_seconds now + grant_seconds p\<rparr>"
  using assms by (auto simp: build_action_def build_grant_def grant_action_def bindE_Inr_iff Let_def split: if_splits)

text \<open>The backend and the program agree on which sessions may be granted, but for one case: the
  session of every grant that was prepared meets the policy of the program exactly if the limit per payment is at
  least half a millionth of a dollar. The duration never is the reason for a refusal, not even when it
  rounds to zero seconds.\<close>

theorem prepared_grants_meet_the_program_policy:
  assumes ok: "chain_ok (pe_chain E)"
    and prep: "prepareSessionGrant E now i fr p s = (Inr (st, k), t)"
    and pa: "redis_get now (prepare_key i) (rs_redis t) = Some (RPrepared pa)"
    and b: "build_action E pa w e pf = Inr b"
  shows "\<exists>args. call_session_args (bt_call b) = Some args \<and> sa_valid_until args = sa_valid_after args + grant_seconds p \<and>
     (args_policy args = Inr () \<longleftrightarrow> 1 / 2000000 \<le> or_default (gp_perTxLimitUSD p) 50)"
proof -
  obtain user w' vault per cum vaultState ch s' where
    "findUnique (rs_users s) (gp_userId p) = Some user" "ru_smartWallet user = Some w'"
    "ch_parse (pe_chain E) (wal_address w') = Some vault" and
    a: "amountToAtomic (JNum (or_default (gp_perTxLimitUSD p) 50)) = Inr per"
      "amountToAtomic (JNum (or_default (gp_dailyLimitUSD p) 200)) = Inr cum" and "rs_ledger s' = rs_ledger s"
    and d: "0 < grant_hours p" "grant_hours p \<le> 720" and "0 < or_default (gp_perTxLimitUSD p) 50" and
    l: "or_default (gp_perTxLimitUSD p) 50 \<le> or_default (gp_dailyLimitUSD p) 200" and
    "grant_challenge E now w' vaultState vault (session_address (pe_sdk E) vault (fs_key fr)) (fs_key fr) per cum
       (unix_seconds now) (unix_seconds now + grant_seconds p) = Inr ch" and
    st: "stage now i (grant_action E now fr p (wal_address w') vault per cum vaultState ch) s' = (Inr st, t)"
    by (rule prepared_grant [OF ok prep])
  from st pa have "pa = grant_action E now fr p (wal_address w') vault per cum vaultState ch"
    by (auto simp: stage_Inr redis_get_def live_def split: if_splits)
  from built_session_args [OF b [unfolded this]] obtain key where args: "call_session_args (bt_call b) =
     Some \<lparr>sa_session_public_key = key, sa_action_bitmap = 1, sa_per_action_limit = nat per, sa_cumulative_limit = nat cum,
       sa_valid_after = unix_seconds now, sa_valid_until = unix_seconds now + grant_seconds p\<rparr>" ..
  have "nat per \<le> nat cum" using a l fixed_units_mono [OF l, of 6] by (auto simp: amountToAtomic_num)
  moreover have "0 < nat per \<longleftrightarrow> 1 / 2000000 \<le> or_default (gp_perTxLimitUSD p) 50"
    using a fixed_units_pos by (simp add: amountToAtomic_num)
  ultimately show ?thesis
    using args grant_seconds_bounds [OF d]
    by (simp add: args_policy_Inr saturating_sub_def MAX_SESSION_DURATION_SECONDS_def SUPPORTED_SESSION_ACTIONS_def
        SESSION_ACTION_TRANSFER_def I64_MAX_def)
qed

section \<open>A concrete approval\<close>

definition example_owner :: relayer_user where
  "example_owner = \<lparr>ru_username = None, ru_telegramId = None, ru_whatsappId = None, ru_discordId = None, ru_slackId = None,
     ru_requireBiometricsAlways = False, ru_smartWallet = Some \<lparr>wal_address = ch_print example_chain 5,
       wal_publicKeyX = ''0x'' @ to_hex (replicate 32 7), wal_publicKeyY = ''0x2'', wal_salt = ''0x'' @ to_hex (replicate 32 1),
       wal_isDeployed = True, wal_derivationVersion = None\<rparr>\<rparr>"

definition example_passkey :: "256 word passkey_env" where
  "example_passkey = \<lparr>pe_relayer = example_env, pe_SOLANA_CLUSTER_DOMAIN = Some [CHR 0x00], pe_PUBLIC_APP_URL = None,
     pe_json_challenge = (\<lambda>_. Inr (Some (bytesToBase64Url example_challenge)))\<rparr>"

definition example_assertion :: assertion where
  "example_assertion = \<lparr>as_id = ''c'', as_authenticatorData = bytesToBase64Url example_auth,
     as_clientDataJSON = bytesToBase64Url example_challenge, as_signature = bytesToBase64Url (signatureDer example_proof)\<rparr>"

definition example_owned :: "256 word relayer_state" where
  "example_owned = example_state\<lparr>rs_users := [(''user'', example_owner)],
     rs_credentials := [(lookup_hash example_passkey ''c'', \<lparr>pc_id = ''c'', pc_userId = ''user'', pc_revokedAt = None, pc_lastUsedAt = None\<rparr>)]\<rparr>"

definition example_params :: transfer_params where
  "example_params = \<lparr>tp_userId = ''user'', tp_recipientAddress = ch_print example_chain 12,
     tp_tokenAddress = ch_print example_chain 500, tp_tokenDecimals = 6, tp_tokenSymbol = ''USDC'', tp_amount = JNum (1 / 40000)\<rparr>"

lemma example_passkey_simps [simp]:
  "pe_relayer example_passkey = example_env" "pe_json_challenge example_passkey x = Inr (Some (bytesToBase64Url example_challenge))"
  by (simp_all add: example_passkey_def)

lemma example_domain: "clusterDomain example_passkey = Inr (cfg_cluster_domain example_config)"
proof -
  have "trim [CHR 0x00] = [CHR 0x00]" "utf8 [CHR 0x00] = [0]" by code_simp+
  then show ?thesis
    by (simp add: clusterDomain_def example_passkey_def or_null_def or_str_def clusterDomainFromGenesisHash_def js_to_http_def
        example_config_def Let_def) (simp add: numeral_eq_Suc)
qed

lemma example_owner_key: "compressedP256PublicKey (''0x'' @ to_hex (replicate 32 7)) ''0x2'' = Inr example_key"
proof -
  have x: "bigint_of_string (''0x'' @ to_hex (replicate 32 7)) = Inr (be_uint (replicate 32 7))"
    unfolding bigint_of_string_def by (simp add: bigint_of_hex_to_hex)
  have b: "bigintTo32Bytes (be_uint (replicate 32 7)) = Inr (replicate 32 7)"
    using be_uint_upper [of "replicate 32 7"] by (simp add: bigintTo32Bytes_Inr be_bytes_be_uint)
  have y: "bigint_of_string ''0x2'' = Inr 2" "bigintTo32Bytes 2 = Inr (be_bytes 32 2)" by code_simp (simp add: bigintTo32Bytes_Inr)
  show ?thesis unfolding compressedP256PublicKey_def x y bindE_simps b by (simp add: example_key_def)
qed

lemma example_owned_simps:
  "rs_ledger example_owned = example_ledger" "findUnique (rs_users example_owned) ''user'' = Some example_owner"
  "rs_shortLinks example_owned = []" "rs_redis example_owned = (\<lambda>_. None)"
  by (simp_all add: example_owned_def example_state_def findUnique_def)

lemma example_transfer_challenge:
  "transferChallenge example_sdk
     \<lparr>tr_clusterDomain = cfg_cluster_domain example_config, tr_programId = VERIAGENT_PROGRAM_ID example_sdk,
      tr_config = deriveProtocolConfig example_sdk None, tr_vault = 5, tr_vaultTokenAccount = 507,
      tr_destinationTokenAccount = 514, tr_stablecoinMint = 500, tr_amount = 25,
      tr_vaultNonce = 1, tr_expiresAtUnix = 100\<rparr> = Inr example_challenge"
proof -
  have "transferParts example_sdk
     \<lparr>tr_clusterDomain = cfg_cluster_domain example_config, tr_programId = VERIAGENT_PROGRAM_ID example_sdk,
      tr_config = deriveProtocolConfig example_sdk None, tr_vault = 5, tr_vaultTokenAccount = 507,
      tr_destinationTokenAccount = 514, tr_stablecoinMint = 500, tr_amount = 25,
      tr_vaultNonce = 1, tr_expiresAtUnix = 100\<rparr> =
     Inr (challenge_head example_sdk example_config ACTION_TRANSFER @
        [pk_bytes example_sdk 5, pk_bytes example_sdk 507, pk_bytes example_sdk 514,
         pk_bytes example_sdk 500, le_u64 25, le_u64 1, le_i64 100])"
    using u64Le_nat [of 25] u64Le_nat [of 1] i64Le_ok [of 100]
    by (auto simp: transferParts_def assertBytes_def challenge_head_def example_config_def u64_ok_def i64_ok_def)
  then show ?thesis
    by (simp only: transferChallenge_def challenge_program example_program_challenge bindE_simps)
qed

lemma example_vault_read: "readVault example_chain (ch_print example_chain 5) example_ledger = Inr (Some example_vault)"
  by (simp add: readVault_def example_publicKey read_account_def example_ledger_def)

definition example_prepared :: PreparedAction where
  "example_prepared =
     \<lparr>pa_userId = ''user'', pa_vaultAddress = ch_print example_chain 5, pa_challengeB64Url = bytesToBase64Url example_challenge,
      pa_kind = Kind_transfer, pa_expiresAtUnix = show_bigint 100,
      pa_payload = [(''recipientAddress'', PStr (ch_print example_chain 12)),
        (''destinationTokenAccount'', PStr (ch_print example_chain 514)),
        (''amountAtomic'', PStr (show_bigint 25)), (''vaultNonce'', PStr (show_bigint 1))],
      pa_sessionKeyId = None\<rparr>"

lemma example_prepare:
  "prepare example_passkey (-200000) ''i'' (PrepTransfer example_params) example_owned =
     (Inr \<lparr>stg_prepareId = ''i'', stg_challengeB64Url = bytesToBase64Url example_challenge,
           stg_vaultAddress = ch_print example_chain 5, stg_expiresAtUnix = show_bigint 100\<rparr>,
      example_owned\<lparr>rs_redis := [prepare_key ''i'' \<mapsto> (RPrepared example_prepared, Some 100000)]\<rparr>)"
proof -
  have sym: "toUpperCase ''USDC'' = ''USDC''" by code_simp
  have amount: "amountToAtomic (JNum (1 / 40000)) = Inr 25"
    by (simp add: amountToAtomic_num fixed_units_def floor_unique [where z = 25])
  have expiry: "approval_expiry (-200000) = 100" by (simp add: approval_expiry_def unix_seconds_def PREPARE_TTL_MS_def)
  have keys: "ch_parse example_chain (ch_print example_chain k) = Some k" for k
    using printed_address [OF example_chain_ok] by blast
  show ?thesis
    unfolding prepare.simps prepareTransfer_def
    by (simp add: example_params_def sym amount expiry keys bindS_def guardS_def liftS_def userWithWallet_def getS_def example_owned_simps
        example_owner_def open_vault_def read_vault_def on_ledger_def zoomS_def example_vault_read returnS_def new_public_key_def
        recipientTokenAccount_def vaultTokenAccount_def example_publicKey tokenAccountOf_def example_domain js_to_http_def
        example_transfer_challenge stage_def modifyS_def setJson_def redis_set_px_def PREPARE_TTL_MS_def example_prepared_def
        example_vault_def del: publicKey_Inr)
qed

lemma example_passkey_transfer:
  "exec example_sdk example_runtime example_tx (TransferWithPasskey 5 514 25 1 example_pf) example_ledger =
     Inr (example_ledger\<lparr>lg_vaults := [5 \<mapsto> example_vault\<lparr>va_nonce := Suc 1\<rparr>], lg_tokens := [507 \<mapsto> 35, 514 \<mapsto> 65]\<rparr>)"
proof -
  have v: "seeded_vault example_sdk example_ledger 5 = Inr example_vault"
    by (simp add: seeded_vault_Inr example_ledger_def)
  have c: "live_config example_ledger = Inr example_config"
    by (simp add: live_config_def any_config_def fetch_def example_ledger_def example_config_def anchor_def require_def)
  have k: "va_root_public_key example_vault = example_key" "va_nonce example_vault = 1" by (simp_all add: example_vault_def)
  show ?thesis
    unfolding exec.simps transfer_with_passkey_def c bindE_simps v k example_authorize
    by (simp add: example_ledger_def fetch_def bump_vault_def checked_add_def transfer_checked_def example_runtime_def
        example_transfer_def example_config_def example_vault_def fun_upd_twist)
qed

lemma example_built:
  "\<exists>b ix. build_action example_passkey example_prepared w 100 example_proof = Inr b \<and> bt_accounts b \<and> bt_before b = [TxOpenAta 514] \<and>
     bt_call b = TransferWithPasskey 5 514 25 1 example_pf \<and> ix_build example_sdk (bt_input b) = Inr ix"
proof -
  have keys: "ch_parse example_chain (ch_print example_chain k) = Some k" for k
    using printed_address [OF example_chain_ok] by blast
  have pf: "proof_of 100 example_proof = example_pf" by (simp add: proof_of_def example_proof_def example_pf_def)
  obtain b where b: "build_action example_passkey example_prepared w 100 example_proof = Inr b" "bt_accounts b"
      "bt_before b = [TxOpenAta 514]" "bt_call b = TransferWithPasskey 5 514 25 1 example_pf"
    and input: "\<exists>i. bt_input b = IxTransferWithPasskey i \<and> pti_amount i = 25 \<and> pti_vaultNonce i = 1 \<and> pti_proofExpiresAt i = 100 \<and>
        pti_authenticatorData i = example_auth \<and> pti_clientDataJson i = example_challenge"
    by (simp add: build_action_def build_transfer_def example_prepared_def Let_def new_public_key_def keys vaultTokenAccount_def
        recipientTokenAccount_def example_publicKey tokenAccountOf_def pf [unfolded example_proof_def] example_proof_def del: publicKey_Inr)
  have sdk: "sdk_ok example_sdk" using example_chain_ok by (simp add: chain_ok_def)
  have len: "length example_auth = 37" "length example_challenge = 32" by (simp_all add: example_auth_def example_challenge_def)
  from input obtain i where "bt_input b = IxTransferWithPasskey i" "pti_amount i = 25" "pti_vaultNonce i = 1"
      "pti_proofExpiresAt i = 100" "pti_authenticatorData i = example_auth" "pti_clientDataJson i = example_challenge"
    by blast
  then have "returns (ix_build example_sdk (bt_input b))"
    using ix_returns_iff [OF sdk, of "bt_input b"]
    by (simp add: ix_contract_simps u64_ok_def i64_ok_def len del: ix_build.simps)
  then show ?thesis using b unfolding returns_def by blast
qed

definition example_waiting_approval :: "256 word relayer_state" where
  "example_waiting_approval = example_owned\<lparr>rs_redis := [prepare_key ''i'' \<mapsto> (RPrepared example_prepared, Some 100000)]\<rparr>"

lemma example_execute:
  "\<exists>t. executeAction example_passkey 10000 (Confirmed ''sig'' 7) ''user'' ''i'' example_assertion example_waiting_approval =
     (Inr \<lparr>ex_txHash = ''sig'', ex_kind = Kind_transfer, ex_link = None\<rparr>, t)"
proof -
  let ?s = "example_waiting_approval" and ?net = "Confirmed ''sig'' 7"
  let ?s1 = "?s\<lparr>rs_redis := redis_del (prepare_key ''i'') (rs_redis ?s)\<rparr>"
  obtain w where w: "ru_smartWallet example_owner = Some w" "wal_publicKeyX w = ''0x'' @ to_hex (replicate 32 7)" "wal_publicKeyY w = ''0x2''"
    by (simp add: example_owner_def)
  have take: "take_prepared 10000 ''i'' ?s = (Inr example_prepared, ?s1)"
    by (simp add: take_prepared_Inr example_waiting_approval_def redis_get_def live_def)
  have rest: "findUnique (rs_users ?s) ''user'' = Some example_owner" "rs_ledger ?s = example_ledger"
      "rs_credentials ?s = rs_credentials example_owned"
    by (simp_all add: example_waiting_approval_def example_owned_simps)
  have cred: "registered_credential example_passkey ''user'' ''c'' ?s1 = (Inr (lookup_hash example_passkey ''c''), ?s1)"
    by (simp add: registered_credential_def bindS_def getS_def rest) (simp add: example_owned_def findUnique_def guardS_def returnS_def)
  have user: "userWithWallet ''user'' ?s1 = (Inr (example_owner, w), ?s1)"
    by (simp add: userWithWallet_Inr rest w)
  have "example_auth \<noteq> []" "example_challenge \<noteq> []" "signatureDer example_proof \<noteq> []"
    by (simp_all add: example_auth_def example_challenge_def example_proof_def CHALLENGE_DOMAIN_def)
  then have pf: "assertion_proof w example_assertion = Inr example_proof"
    by (simp add: assertion_proof_def w example_owner_key [simplified] example_assertion_def base64_round_trip) (simp add: example_proof_def)
  obtain b ix where b: "build_action example_passkey example_prepared w 100 example_proof = Inr b" "bt_accounts b"
      "bt_before b = [TxOpenAta 514]" "bt_call b = TransferWithPasskey 5 514 25 1 example_pf" "ix_build example_sdk (bt_input b) = Inr ix"
    using example_built by blast
  obtain vx where vx: "createSecp256r1Instruction example_sdk example_proof = Inr vx" using example_instruction by blast
  obtain lg where lg: "exec example_sdk example_runtime example_tx (TransferWithPasskey 5 514 25 1 example_pf) example_ledger = Inr lg"
    using example_passkey_transfer by blast
  have tx: "\<lparr>tx_now = 10, tx_signers = [1000], tx_previous = Some vx\<rparr> = example_tx" by (simp add: example_tx_def vx)
  have "submit example_chain 10 ?net [TxOpenAta 514, TxVerify vx, TxCall (TransferWithPasskey 5 514 25 1 example_pf)] [] example_ledger =
      (Inr \<lparr>cf_signature = ''sig'', cf_slot = 7\<rparr>, lg)"
  proof -
    have "init_token_account_if_needed example_runtime 1000 514 example_ledger = Inr example_ledger"
      by (simp add: init_token_account_if_needed_def example_ledger_def)
    moreover have "mint_matches example_chain example_ledger" by (simp add: mint_matches_def example_ledger_def example_config_def)
    ultimately show ?thesis unfolding submit_def using lg by (simp add: tx del: exec.simps)
  qed
  then have sub: "submit_built example_chain 10 ?net example_proof b example_ledger = (Inr \<lparr>cf_signature = ''sig'', cf_slot = 7\<rparr>, lg)"
    by (simp add: submit_built_def submitPasskeyInstruction_def b vx bindS_def liftS_def)
  have now: "unix_seconds 10000 = 10" by (simp add: unix_seconds_def)
  have simps: "pa_userId example_prepared = ''user''" "pa_kind example_prepared = Kind_transfer" "as_id example_assertion = ''c''"
      "pa_expiresAtUnix example_prepared = show_bigint 100" "pa_challengeB64Url example_prepared = bytesToBase64Url example_challenge"
    by (simp_all add: example_prepared_def example_assertion_def)
  have m: "matching_challenge example_passkey example_prepared example_assertion = Inr ()"
    by (simp add: matching_challenge_Inr simps)
  show ?thesis
    unfolding executeAction_def Let_def
    by (simp add: bindS_def take simps guardS_def liftS_def m cred user pf b js_to_http_def catchS_def on_ledger_def zoomS_def
        rest now sub record_execution_def getS_def modifyS_def returnS_def)
qed

theorem approval_executes_what_was_prepared_witness:
  "\<exists>st s2 ex t2 rq ch call pf.
     prepare example_passkey (-200000) ''i'' (PrepTransfer example_params) example_owned = (Inr st, s2) \<and>
     executeAction example_passkey 10000 (Confirmed ''sig'' 7) ''user'' ''i'' example_assertion s2 = (Inr ex, t2) \<and>
     asks example_chain [] (PrepTransfer example_params) rq \<and> request_challenge example_sdk rq = Inr ch \<and>
     call_request example_sdk example_config call = Some rq \<and>
     call_executed example_chain 10 pf call example_ledger (rs_ledger t2)"
proof -
  obtain st where prep: "prepare example_passkey (-200000) ''i'' (PrepTransfer example_params) example_owned = (Inr st, example_waiting_approval)"
    using example_prepare by (simp add: example_waiting_approval_def)
  obtain ex t2 where run: "executeAction example_passkey 10000 (Confirmed ''sig'' 7) ''user'' ''i'' example_assertion example_waiting_approval = (Inr ex, t2)"
    using example_execute by blast
  have seeds: "wallet_seeds example_waiting_approval (prep_user (PrepTransfer example_params)) = wallet_seeds example_owned (prep_user (PrepTransfer example_params))"
    by (simp add: wallet_seeds_def example_waiting_approval_def)
  have ledger: "rs_ledger example_waiting_approval = example_ledger" by (simp add: example_waiting_approval_def example_owned_simps)
  have config: "lg_config (rs_ledger example_waiting_approval) = Some example_config" by (simp add: ledger example_ledger_def)
  have ok: "chain_ok (pe_chain example_passkey)" using example_chain_ok by simp
  from approval_executes_what_was_prepared [OF ok prep refl seeds run config example_domain]
  obtain rq ch call pf where "asks example_chain [] (PrepTransfer example_params) rq" "request_challenge example_sdk rq = Inr ch"
     "call_request example_sdk example_config call = Some rq" "call_executed example_chain 10 pf call example_ledger (rs_ledger t2)"
    by (auto simp: ledger example_owned_simps unix_seconds_def simp del: asks.simps)
  with prep run show ?thesis by blast
qed

theorem approval_is_used_at_most_once_witness:
  "\<exists>s'. executeAction example_passkey 20000 Lost ''user'' ''i'' example_assertion s' =
     (Inl (BadRequest ''Approval expired or was already used''), s')"
  using approval_is_used_at_most_once [where ops = "[(15000, OpPrepare ''j'' (PrepTransfer example_params))]" and i = "''i''"
      and E = example_passkey and now = 10000 and net = "Confirmed ''sig'' 7" and u = "''user''" and a = example_assertion
      and s = example_waiting_approval and now' = 20000 and net' = Lost and u' = "''user''" and a' = example_assertion]
  by (auto simp: Let_def simp del: fold.simps)

definition example_fresh :: "256 word fresh_session" where
  "example_fresh = \<lparr>fs_key = 1001, fs_secret = [], fs_dataKey = [], fs_salt = [], fs_iv = [], fs_wrapSalt = [], fs_wrapIv = [],
     fs_rowId = ''new''\<rparr>"

definition example_grant_params :: grant_params where
  "example_grant_params = \<lparr>gp_userId = ''user'', gp_durationHours = Some 1, gp_durationDays = None, gp_perTxLimitUSD = None, gp_dailyLimitUSD = None\<rparr>"

lemma example_grant_challenge:
  "\<exists>ch. grant_challenge example_passkey 0 w (Some example_vault) 5 7 1001 50000000 200000000 0 3600 = Inr ch"
proof -
  let ?i = "\<lparr>sg_clusterDomain = cfg_cluster_domain example_config, sg_programId = VERIAGENT_PROGRAM_ID example_sdk,
          sg_config = deriveProtocolConfig example_sdk None, sg_vault = 5, sg_session = 7,
          sg_sessionPublicKey = 1001, sg_actionBitmap = JNum 1, sg_perActionLimit = 50000000,
          sg_cumulativeLimit = 200000000, sg_validAfterUnix = 0, sg_validUntilUnix = 3600,
          sg_vaultNonce = int (va_nonce example_vault), sg_expiresAtUnix = approval_expiry 0\<rparr>"
  have "u16_ok (JNum 1)" unfolding u16_ok_def by (intro exI [of _ 1]) simp
  then have "returns (request_challenge example_sdk (SignSessionGrant ?i))"
    unfolding request_challenge_eq
    by (simp add: parts_defs returns_seqE returns_enc example_config_def u64_ok_def i64_ok_def example_vault_def approval_expiry_def
        unix_seconds_def PREPARE_TTL_MS_def del: seqE.simps)
  then obtain ch where "sessionGrantChallenge example_sdk ?i = Inr ch" by (auto simp: returns_def)
  then show ?thesis by (simp add: grant_challenge_def example_domain)
qed

theorem prepared_grants_meet_the_program_policy_witness:
  "\<exists>st k t pa w b args.
     prepareSessionGrant example_passkey 0 ''i'' example_fresh example_grant_params example_owned = (Inr (st, k), t) \<and>
     redis_get 0 (prepare_key ''i'') (rs_redis t) = Some (RPrepared pa) \<and>
     build_action example_passkey pa w 300 example_proof = Inr b \<and> call_session_args (bt_call b) = Some args \<and>
     args_policy args = Inr ()"
proof -
  obtain user where user: "userWithWallet ''user'' example_owned = (Inr (example_owner, user), example_owned)" "wal_address user = ch_print example_chain 5"
    by (simp add: userWithWallet_Inr example_owned_simps) (simp add: example_owner_def)
  have limits: "amountToAtomic (JNum 50) = Inr 50000000" "amountToAtomic (JNum 200) = Inr 200000000"
    by (simp_all add: amountToAtomic_num fixed_units_def floor_unique [where z = 50000000] floor_unique [where z = 200000000])
  have terms: "grant_hours example_grant_params = 1" "grant_seconds example_grant_params = 3600"
      "or_default (gp_perTxLimitUSD example_grant_params) 50 = 50" "or_default (gp_dailyLimitUSD example_grant_params) 200 = 200"
      "gp_userId example_grant_params = ''user''"
    by (simp_all add: grant_hours_def grant_seconds_def or_default_def example_grant_params_def floor_unique [where z = 3600])
  have keys: "ch_parse example_chain (ch_print example_chain k) = Some k" for k
    using printed_address [OF example_chain_ok] by blast
  have fresh: "findUnique (rs_sessionKeys example_owned) (ch_print example_chain 1001) = None"
    using keys [of 1000] keys [of 1001] by (auto simp: example_owned_def example_state_def findUnique_def)
  have fr: "fs_key example_fresh = 1001" "fs_rowId example_fresh = ''new''" by (simp_all add: example_fresh_def)
  obtain s1 where provision: "provisionSessionKey example_env 0 example_fresh ''user'' 3600 50 200 example_owned =
      (Inr (''new'', ch_print example_chain 1001), s1)" and s1: "rs_ledger s1 = example_ledger"
    unfolding provisionSessionKey_def
    using fresh by (simp add: bindS_def liftS_def js_to_http_def wrapDataKey_def kmsEnabled_def example_env_def example_fresh_def
        getS_def guardS_def modifyS_def logAuditEvent_def returnS_def Let_def example_owned_simps)
  obtain ch where ch: "grant_challenge example_passkey 0 user (Some example_vault) 5 7 1001 50000000 200000000 0 3600 = Inr ch"
    using example_grant_challenge by blast
  have run: "\<exists>st k t. prepareSessionGrant example_passkey 0 ''i'' example_fresh example_grant_params example_owned = (Inr (st, k), t) \<and>
     rs_redis t (prepare_key ''i'') = Some (RPrepared (grant_action example_passkey 0 example_fresh example_grant_params
       (ch_print example_chain 5) 5 50000000 200000000 (Some example_vault) ch), Some PREPARE_TTL_MS)"
    unfolding prepareSessionGrant_def Let_def
    by (simp add: terms bindS_def guardS_def liftS_def user limits provision new_public_key_def keys read_vault_def on_ledger_def
        zoomS_def s1 example_vault_read unix_seconds_def ch stage_def modifyS_def returnS_def setJson_def redis_set_px_def grant_action_def
        fr)
  then obtain st k t where prep: "prepareSessionGrant example_passkey 0 ''i'' example_fresh example_grant_params example_owned = (Inr (st, k), t)"
    and t: "rs_redis t (prepare_key ''i'') = Some (RPrepared (grant_action example_passkey 0 example_fresh example_grant_params
       (ch_print example_chain 5) 5 50000000 200000000 (Some example_vault) ch), Some PREPARE_TTL_MS)" (is "_ = Some (RPrepared ?pa, _)")
    by blast
  have get: "redis_get 0 (prepare_key ''i'') (rs_redis t) = Some (RPrepared ?pa)"
    by (simp add: redis_get_def live_def t PREPARE_TTL_MS_def)
  obtain b where b: "build_action example_passkey ?pa user 300 example_proof = Inr b"
    by (simp add: build_action_def build_grant_def grant_action_def new_public_key_def keys Let_def terms)
  have ok: "chain_ok (pe_chain example_passkey)" using example_chain_ok by simp
  from prepared_grants_meet_the_program_policy [OF ok prep get b] prep get b show ?thesis
    by (auto simp: terms)
qed

end
