(* ===== verification/Referral.thy ===== *)
theory Referral
  imports Handlers Bytes Dates "HOL-Library.Multiset"
begin

text \<open>
  \<open>backend/src/referral/referral.service.ts\<close> and the retention job \<open>referral-milestone.cron.ts\<close>: referral
  codes, the attribution of a new user to the owner of a code, and the three milestones that release
  points. A milestone reads the referral, claims it by a conditional update and pays in a third step, so
  the operations are written as those steps, which the handlers compose and which the runs at the end
  interleave. Share addresses are left out. Notifications and the activity feed are lists of what was sent.
\<close>

section \<open>Rows\<close>

record ReferralAttribution =
  at_src :: "string option"
  at_campaign :: "string option"
  at_partner :: "string option"
  at_channel :: "string option"

record ReferralCode =
  rc_userId :: string
  rc_code :: string
  rc_clicks :: nat

record Referral =
  rf_referrerId :: string
  rf_refereeId :: string
  rf_points :: nat
  rf_createdAt :: date
  rf_walletCreated :: bool
  rf_walletCreatedAt :: "date option"
  rf_firstSendCompleted :: bool
  rf_firstSendAt :: "date option"
  rf_depositRetainedD7 :: bool
  rf_milestoneCompletedAt :: "date option"
  rf_attribution :: ReferralAttribution

record ref_user =
  us_createdAt :: date
  us_deviceFingerprint :: "string option"

record RewardPoint =
  rw_userId :: string
  rw_points :: nat
  rw_reason :: string

record referral_db =
  fd_users :: "ref_user table"
  fd_codes :: "ReferralCode table"
  fd_referrals :: "Referral table"
  fd_rewards :: "RewardPoint list"
  fd_activity :: "(string \<times> string \<times> nat) list"
  fd_notices :: "(string \<times> string \<times> nat) list"

datatype ReferralRejectionReason =
    unknown_code | self_referral | already_referred | expired | suspended | duplicate_device
  | account_age_gap | velocity_limit

definition WALLET_CREATED :: nat where "WALLET_CREATED = 25"
definition REFEREE_WELCOME :: nat where "REFEREE_WELCOME = 100"
definition FIRST_SEND :: nat where "FIRST_SEND = 25"
definition DEPOSIT_RETAINED_D7 :: nat where "DEPOSIT_RETAINED_D7 = 50"
definition MIN_QUALIFYING_SEND_USD :: rat where "MIN_QUALIFYING_SEND_USD = 5"
definition MAX_PER_DAY :: nat where "MAX_PER_DAY = 10"
definition MIN_ACCOUNT_AGE_GAP_MS :: int where "MIN_ACCOUNT_AGE_GAP_MS = 24 * 60 * 60 * 1000"
definition RETENTION_DAYS :: int where "RETENTION_DAYS = 7"

section \<open>Codes\<close>

definition code_of_user :: "string \<Rightarrow> ReferralCode table \<Rightarrow> (string \<times> ReferralCode) option" where
  "code_of_user u t = find (\<lambda>(i, r). rc_userId r = u) t"

definition code_row :: "string \<Rightarrow> ReferralCode table \<Rightarrow> (string \<times> ReferralCode) option" where
  "code_row c t = find (\<lambda>(i, r). rc_code r = c) t"

definition referral_code :: "byte list \<Rightarrow> string" where
  "referral_code bs = ''VERI-'' @ toUpperCase (bytesToHex bs)"

text \<open>At most five attempts, with the identifiers and random bytes of each. A create fails when the user, the
  code or the identifier is taken; then the code of the user is looked up again.\<close>

fun allocate_code ::
    "nat \<Rightarrow> (string \<times> byte list) list \<Rightarrow> string \<Rightarrow> ReferralCode table \<Rightarrow> (string, ReferralCode table) outcome" where
  "allocate_code (Suc n) ((i, bs) # fresh) u t =
     (if findUnique t i \<noteq> None \<or> code_of_user u t \<noteq> None \<or> code_row (referral_code bs) t \<noteq> None
      then (case code_of_user u t of
              Some (j, raced) \<Rightarrow> (Inr (rc_code raced), t)
            | None \<Rightarrow> allocate_code n fresh u t)
      else (Inr (referral_code bs), create_row i \<lparr>rc_userId = u, rc_code = referral_code bs, rc_clicks = 0\<rparr> t))"
| "allocate_code n fresh u t = (Inl (InternalError ''Unable to allocate a unique referral code''), t)"

definition getOrCreateReferralCode ::
    "(string \<times> byte list) list \<Rightarrow> string \<Rightarrow> referral_db \<Rightarrow> (string, referral_db) outcome" where
  "getOrCreateReferralCode fresh userId db =
     (case code_of_user userId (fd_codes db) of
        Some (i, existing) \<Rightarrow> (Inr (rc_code existing), db)
      | None \<Rightarrow>
          (case allocate_code 5 fresh userId (fd_codes db) of (r, t) \<Rightarrow> (r, db\<lparr>fd_codes := t\<rparr>)))"

section \<open>Attribution\<close>

definition referral_of :: "string \<Rightarrow> Referral table \<Rightarrow> (string \<times> Referral) option" where
  "referral_of u t = find (\<lambda>(i, r). rf_refereeId r = u) t"

definition checkAntiSybil :: "date \<Rightarrow> string \<Rightarrow> string \<Rightarrow> referral_db \<Rightarrow> ReferralRejectionReason option" where
  "checkAntiSybil now referrerId refereeId db =
     (case (findUnique (fd_users db) referrerId, findUnique (fd_users db) refereeId) of
        (Some referrer, Some referee) \<Rightarrow>
          if us_deviceFingerprint referrer \<noteq> None \<and> us_deviceFingerprint referrer \<noteq> Some [] \<and>
             us_deviceFingerprint referrer = us_deviceFingerprint referee
          then Some duplicate_device
          else if us_createdAt referee - us_createdAt referrer < MIN_ACCOUNT_AGE_GAP_MS
          then Some account_age_gap
          else if length (filter (\<lambda>(i, r). rf_referrerId r = referrerId \<and> now - 24 * 60 * 60 * 1000 \<le> rf_createdAt r)
                            (fd_referrals db)) \<ge> MAX_PER_DAY
          then Some velocity_limit
          else None
      | _ \<Rightarrow> Some unknown_code)"

text \<open>What \<open>processReferral\<close> does before it writes the row: the click is counted even for an attribution that is
  rejected; the owner of the code is returned.\<close>

definition refer_check ::
    "date \<Rightarrow> string \<Rightarrow> string \<Rightarrow> referral_db \<Rightarrow> (ReferralRejectionReason + string) \<times> referral_db" where
  "refer_check now referrerCode refereeUserId db =
     (case code_row (toUpperCase (trim referrerCode)) (fd_codes db) of
        None \<Rightarrow> (Inl unknown_code, db)
      | Some (i, refCode) \<Rightarrow>
          let db1 = db\<lparr>fd_codes := update_row i (\<lambda>r. r\<lparr>rc_clicks := rc_clicks r + 1\<rparr>) (fd_codes db)\<rparr> in
          if rc_userId refCode = refereeUserId then (Inl self_referral, db1)
          else if referral_of refereeUserId (fd_referrals db1) \<noteq> None then (Inl already_referred, db1)
          else (case checkAntiSybil now (rc_userId refCode) refereeUserId db1 of
                  Some rejection \<Rightarrow> (Inl rejection, db1)
                | None \<Rightarrow> (Inr (rc_userId refCode), db1)))"

definition new_referral :: "date \<Rightarrow> string \<Rightarrow> string \<Rightarrow> ReferralAttribution \<Rightarrow> Referral" where
  "new_referral now referrerId refereeId attribution =
     \<lparr>rf_referrerId = referrerId, rf_refereeId = refereeId, rf_points = 0, rf_createdAt = now,
      rf_walletCreated = False, rf_walletCreatedAt = None, rf_firstSendCompleted = False, rf_firstSendAt = None,
      rf_depositRetainedD7 = False, rf_milestoneCompletedAt = None, rf_attribution = attribution\<rparr>"

text \<open>The unique columns \<open>id\<close> and \<open>refereeId\<close>: the first writer wins.\<close>

definition refer_create ::
    "date \<Rightarrow> string \<Rightarrow> string \<Rightarrow> string \<Rightarrow> ReferralAttribution \<Rightarrow> referral_db \<Rightarrow> ReferralRejectionReason option \<times> referral_db" where
  "refer_create now newId referrerId refereeUserId attribution db =
     (if findUnique (fd_referrals db) newId \<noteq> None \<or> referral_of refereeUserId (fd_referrals db) \<noteq> None
      then (Some already_referred, db)
      else (None, db\<lparr>fd_referrals := create_row newId (new_referral now referrerId refereeUserId attribution) (fd_referrals db),
                     fd_activity := fd_activity db @ [(refereeUserId, ''REFERRAL_REGISTERED'', 0)]\<rparr>))"

definition processReferral ::
    "date \<Rightarrow> string \<Rightarrow> string \<Rightarrow> string \<Rightarrow> ReferralAttribution \<Rightarrow> referral_db \<Rightarrow> ReferralRejectionReason option \<times> referral_db" where
  "processReferral now newId referrerCode refereeUserId attribution db =
     (case refer_check now referrerCode refereeUserId db of
        (Inl reason, db1) \<Rightarrow> (Some reason, db1)
      | (Inr referrerId, db1) \<Rightarrow> refer_create now newId referrerId refereeUserId attribution db1)"

definition recordDeviceFingerprint :: "string \<Rightarrow> string \<Rightarrow> referral_db \<Rightarrow> referral_db" where
  "recordDeviceFingerprint userId fingerprint db =
     (if fingerprint = [] then db
      else db\<lparr>fd_users := snd (updateMany userId (\<lambda>u. us_deviceFingerprint u = None)
             (\<lambda>u. u\<lparr>us_deviceFingerprint := Some fingerprint\<rparr>) (fd_users db))\<rparr>)"

section \<open>Milestones\<close>

text \<open>The conditional update of a milestone: it claims the referral when the flag is not set yet.\<close>

definition claim_milestone ::
    "(Referral \<Rightarrow> bool) \<Rightarrow> (Referral \<Rightarrow> Referral) \<Rightarrow> string \<Rightarrow> referral_db \<Rightarrow> bool \<times> referral_db" where
  "claim_milestone reached mark i db =
     (case updateMany i (\<lambda>r. \<not> reached r) mark (fd_referrals db) of
        (n, t) \<Rightarrow> (n = 1, db\<lparr>fd_referrals := t\<rparr>))"

definition mark_wallet :: "date \<Rightarrow> Referral \<Rightarrow> Referral" where
  "mark_wallet now r = r\<lparr>rf_walletCreated := True, rf_walletCreatedAt := Some now, rf_points := rf_points r + WALLET_CREATED\<rparr>"

definition mark_send :: "date \<Rightarrow> Referral \<Rightarrow> Referral" where
  "mark_send now r = r\<lparr>rf_firstSendCompleted := True, rf_firstSendAt := Some now, rf_points := rf_points r + FIRST_SEND\<rparr>"

definition mark_deposit :: "date \<Rightarrow> Referral \<Rightarrow> Referral" where
  "mark_deposit now r =
     r\<lparr>rf_depositRetainedD7 := True, rf_milestoneCompletedAt := Some now, rf_points := rf_points r + DEPOSIT_RETAINED_D7\<rparr>"

definition reward :: "string \<Rightarrow> nat \<Rightarrow> string \<Rightarrow> RewardPoint" where
  "reward u p reason = \<lparr>rw_userId = u, rw_points = p, rw_reason = reason\<rparr>"

definition wallet_rewards :: "Referral \<Rightarrow> RewardPoint list" where
  "wallet_rewards r =
     [reward (rf_referrerId r) WALLET_CREATED ''REFERRAL_WALLET_CREATED'',
      reward (rf_refereeId r) REFEREE_WELCOME ''REFERRAL_SIGNUP_BONUS'']"

definition send_rewards :: "Referral \<Rightarrow> RewardPoint list" where
  "send_rewards r = [reward (rf_referrerId r) FIRST_SEND ''REFERRAL_FIRST_SEND'']"

definition deposit_rewards :: "Referral \<Rightarrow> RewardPoint list" where
  "deposit_rewards r = [reward (rf_referrerId r) DEPOSIT_RETAINED_D7 ''REFERRAL_DEPOSIT_RETAINED_D7'']"

text \<open>The payment of a claimed milestone: the points in one transaction, then what is shown to the users.\<close>

definition pay_milestone :: "(Referral \<Rightarrow> RewardPoint list) \<Rightarrow> Referral \<Rightarrow> referral_db \<Rightarrow> referral_db" where
  "pay_milestone rewards r db =
     db\<lparr>fd_rewards := fd_rewards db @ rewards r,
        fd_activity := fd_activity db @ [(rf_referrerId r, ''REFERRAL_REWARDED'', rw_points (hd (rewards r)))],
        fd_notices := fd_notices db @ map (\<lambda>w. (rw_userId w, rw_reason w, rw_points w)) (rewards r)\<rparr>"

text \<open>\<open>ok\<close> says whether the transaction of the rewards succeeds. When it throws, the milestone stays claimed.\<close>

definition settle_milestone ::
    "bool \<Rightarrow> (Referral \<Rightarrow> bool) \<Rightarrow> (Referral \<Rightarrow> Referral) \<Rightarrow> (Referral \<Rightarrow> RewardPoint list) \<Rightarrow> string \<times> Referral
     \<Rightarrow> (bool, referral_db) handler" where
  "settle_milestone ok reached mark rewards row db =
     (case claim_milestone reached mark (fst row) db of
        (claimed, db1) \<Rightarrow>
          if \<not> claimed then (Inr False, db1)
          else if \<not> ok then (Inl (InternalError ''rewardPoint.create''), db1)
          else (Inr True, pay_milestone rewards (snd row) db1))"

definition markWalletCreated :: "bool \<Rightarrow> date \<Rightarrow> string \<Rightarrow> (bool, referral_db) handler" where
  "markWalletCreated ok now refereeUserId db =
     (case referral_of refereeUserId (fd_referrals db) of
        None \<Rightarrow> (Inr False, db)
      | Some row \<Rightarrow>
          if rf_walletCreated (snd row) then (Inr False, db)
          else settle_milestone ok rf_walletCreated (mark_wallet now) wallet_rewards row db)"

definition markFirstSend :: "bool \<Rightarrow> bool \<Rightarrow> date \<Rightarrow> string \<Rightarrow> rat \<Rightarrow> (bool, referral_db) handler" where
  "markFirstSend okWallet ok now refereeUserId amountUsd db =
     (if amountUsd < MIN_QUALIFYING_SEND_USD then (Inr False, db)
      else case referral_of refereeUserId (fd_referrals db) of
        None \<Rightarrow> (Inr False, db)
      | Some row \<Rightarrow>
          if rf_firstSendCompleted (snd row) then (Inr False, db)
          else bindS (if rf_walletCreated (snd row) then returnS False else markWalletCreated okWallet now refereeUserId)
                 (\<lambda>_. settle_milestone ok rf_firstSendCompleted (mark_send now) send_rewards row) db)"

definition markDepositRetainedD7 :: "bool \<Rightarrow> date \<Rightarrow> string \<Rightarrow> (bool, referral_db) handler" where
  "markDepositRetainedD7 ok now refereeUserId db =
     (case referral_of refereeUserId (fd_referrals db) of
        None \<Rightarrow> (Inr False, db)
      | Some row \<Rightarrow>
          if rf_depositRetainedD7 (snd row) then (Inr False, db)
          else settle_milestone ok rf_depositRetainedD7 (mark_deposit now) deposit_rewards row db)"

text \<open>The retention job: the candidates are read once, and each is checked against the deposits and withdrawals
  (user, time, amount) before its milestone is settled. A failure of one is logged.\<close>

definition hasRetainedDeposit ::
    "(string \<times> date \<times> rat) list \<Rightarrow> (string \<times> date \<times> rat) list \<Rightarrow> string \<Rightarrow> date \<Rightarrow> bool" where
  "hasRetainedDeposit deposits withdrawals userId cutoff \<longleftrightarrow>
     (\<exists>d \<in> set deposits. fst d = userId \<and> fst (snd d) \<le> cutoff) \<and>
     sum_list (map (snd \<circ> snd) (filter (\<lambda>d. fst d = userId) deposits)) -
     sum_list (map (snd \<circ> snd) (filter (\<lambda>d. fst d = userId) withdrawals)) > 0"

definition awardRetainedDepositMilestones ::
    "(string \<Rightarrow> bool) \<Rightarrow> (string \<times> date \<times> rat) list \<Rightarrow> (string \<times> date \<times> rat) list \<Rightarrow> date \<Rightarrow> referral_db \<Rightarrow> referral_db" where
  "awardRetainedDepositMilestones ok deposits withdrawals now db =
     fold (\<lambda>(i, r) db'.
         if hasRetainedDeposit deposits withdrawals (rf_refereeId r) (now - RETENTION_DAYS * 24 * 60 * 60 * 1000)
         then snd (markDepositRetainedD7 (ok i) now (rf_refereeId r) db') else db')
       (filter (\<lambda>(i, r). \<not> rf_depositRetainedD7 r \<and> rf_walletCreated r) (fd_referrals db)) db"

section \<open>Reports\<close>

record referral_stats =
  st_code :: string
  st_totalReferrals :: nat
  st_activatedReferrals :: nat
  st_pendingReferrals :: int
  st_referralPoints :: nat
  st_totalPoints :: nat

definition referrals_by :: "string \<Rightarrow> referral_db \<Rightarrow> Referral list" where
  "referrals_by u db = filter (\<lambda>r. rf_referrerId r = u) (map snd (fd_referrals db))"

definition getUserReferralStats ::
    "(string \<times> byte list) list \<Rightarrow> string \<Rightarrow> (referral_stats, referral_db) handler" where
  "getUserReferralStats fresh userId =
     bindS (getOrCreateReferralCode fresh userId) (\<lambda>code.
     getS (\<lambda>db.
       let sent = referrals_by userId db;
           activated = length (filter rf_walletCreated sent)
       in \<lparr>st_code = code, st_totalReferrals = length sent, st_activatedReferrals = activated,
           st_pendingReferrals = int (length sent) - int activated,
           st_referralPoints = sum_list (map rf_points sent),
           st_totalPoints = sum_list (map rw_points (filter (\<lambda>w. rw_userId w = userId) (fd_rewards db)))\<rparr>))"

end
