(* ===== verification/ReferralRuns.thy ===== *)
theory ReferralRuns
  imports Referral
begin

text \<open>
  Runs of the referral service. The handlers of \<open>Referral\<close> are cut where they wait for the database, but for
  the checks before a referral is created, which are one step, and any number of them proceed in any order. The runs show that the referral graph has no cycles and that the
  rewards are those of the milestones reached, each once.
\<close>

section \<open>Interleaved handlers\<close>

text \<open>A handler in progress: what it does next, with the row it read. A first send that found no wallet
  milestone settles this milestone first and then goes on with its own row.\<close>

datatype task =
    Refer string string ReferralAttribution
  | ReferCreate string string ReferralAttribution
  | Wallet string "(string \<times> Referral) option"
  | WalletClaim "string \<times> Referral" "(string \<times> Referral) option"
  | WalletPay "string \<times> Referral" "(string \<times> Referral) option"
  | Send string rat
  | SendClaim "string \<times> Referral"
  | SendPay "string \<times> Referral"
  | Deposit string
  | DepositClaim "string \<times> Referral"
  | DepositPay "string \<times> Referral"

definition then_send :: "(string \<times> Referral) option \<Rightarrow> task option" where
  "then_send k = map_option SendClaim k"

record ref_config =
  cf_db :: referral_db
  cf_tasks :: "task list"
  cf_lost :: "RewardPoint list"

text \<open>One step of a handler: the whole of \<open>refer_check\<close>, or else one access to the database, at the time \<open>now\<close>, with a new identifier, and whether the transaction of
  the rewards succeeds. The last component is what was claimed and not paid.\<close>

fun run_task :: "date \<Rightarrow> string \<Rightarrow> bool \<Rightarrow> task \<Rightarrow> referral_db \<Rightarrow> task option \<times> referral_db \<times> RewardPoint list" where
  "run_task now newId ok (Refer c u a) db =
     (case refer_check now c u db of
        (Inl reason, db1) \<Rightarrow> (None, db1, [])
      | (Inr referrerId, db1) \<Rightarrow> (Some (ReferCreate referrerId u a), db1, []))"
| "run_task now newId ok (ReferCreate p u a) db = (None, snd (refer_create now newId p u a db), [])"
| "run_task now newId ok (Wallet u k) db =
     (case referral_of u (fd_referrals db) of
        None \<Rightarrow> (then_send k, db, [])
      | Some row \<Rightarrow> (if rf_walletCreated (snd row) then then_send k else Some (WalletClaim row k), db, []))"
| "run_task now newId ok (WalletClaim row k) db =
     (case claim_milestone rf_walletCreated (mark_wallet now) (fst row) db of
        (claimed, db1) \<Rightarrow> (if claimed then Some (WalletPay row k) else then_send k, db1, []))"
| "run_task now newId ok (WalletPay row k) db =
     (if ok then (then_send k, pay_milestone wallet_rewards (snd row) db, []) else (None, db, wallet_rewards (snd row)))"
| "run_task now newId ok (Send u amountUsd) db =
     (if amountUsd < MIN_QUALIFYING_SEND_USD then (None, db, [])
      else case referral_of u (fd_referrals db) of
        None \<Rightarrow> (None, db, [])
      | Some row \<Rightarrow>
          (if rf_firstSendCompleted (snd row) then None
           else if rf_walletCreated (snd row) then Some (SendClaim row) else Some (Wallet u (Some row)), db, []))"
| "run_task now newId ok (SendClaim row) db =
     (case claim_milestone rf_firstSendCompleted (mark_send now) (fst row) db of
        (claimed, db1) \<Rightarrow> (if claimed then Some (SendPay row) else None, db1, []))"
| "run_task now newId ok (SendPay row) db =
     (if ok then (None, pay_milestone send_rewards (snd row) db, []) else (None, db, send_rewards (snd row)))"
| "run_task now newId ok (Deposit u) db =
     (case referral_of u (fd_referrals db) of
        None \<Rightarrow> (None, db, [])
      | Some row \<Rightarrow> (if rf_depositRetainedD7 (snd row) then None else Some (DepositClaim row), db, []))"
| "run_task now newId ok (DepositClaim row) db =
     (case claim_milestone rf_depositRetainedD7 (mark_deposit now) (fst row) db of
        (claimed, db1) \<Rightarrow> (if claimed then Some (DepositPay row) else None, db1, []))"
| "run_task now newId ok (DepositPay row) db =
     (if ok then (None, pay_milestone deposit_rewards (snd row) db, []) else (None, db, deposit_rewards (snd row)))"

inductive ref_step :: "ref_config \<Rightarrow> ref_config \<Rightarrow> bool" where
  Called: "\<lbrakk>t = Refer c u a \<or> t = Wallet u None \<or> t = Send u x \<or> t = Deposit u\<rbrakk>
    \<Longrightarrow> ref_step cf (cf\<lparr>cf_tasks := t # cf_tasks cf\<rparr>)"
| Proceeded: "\<lbrakk>cf_tasks cf = before @ t # after; run_task now newId ok t (cf_db cf) = (next, db', lost)\<rbrakk>
    \<Longrightarrow> ref_step cf (cf\<lparr>cf_db := db',
          cf_tasks := before @ (case next of Some t' \<Rightarrow> [t'] | None \<Rightarrow> []) @ after, cf_lost := cf_lost cf @ lost\<rparr>)"
| Registered: "findUnique (fd_users (cf_db cf)) u = None
    \<Longrightarrow> ref_step cf (cf\<lparr>cf_db := (cf_db cf)\<lparr>fd_users := create_row u \<lparr>us_createdAt = now, us_deviceFingerprint = None\<rparr>
          (fd_users (cf_db cf))\<rparr>\<rparr>)"
| Fingerprinted: "ref_step cf (cf\<lparr>cf_db := recordDeviceFingerprint u p (cf_db cf)\<rparr>)"
| Coded: "ref_step cf (cf\<lparr>cf_db := snd (getOrCreateReferralCode fresh u (cf_db cf))\<rparr>)"

inductive ref_reach :: "ref_config \<Rightarrow> ref_config \<Rightarrow> bool" for start where
  Start: "ref_reach start start"
| Step: "ref_reach start cf \<Longrightarrow> ref_step cf cf' \<Longrightarrow> ref_reach start cf'"

definition no_referrals :: "ref_config \<Rightarrow> bool" where
  "no_referrals cf \<longleftrightarrow> fd_referrals (cf_db cf) = [] \<and> fd_rewards (cf_db cf) = [] \<and> cf_tasks cf = [] \<and> cf_lost cf = []"

section \<open>What is due\<close>

definition due :: "Referral \<Rightarrow> RewardPoint list" where
  "due r = (if rf_walletCreated r then wallet_rewards r else []) @
           (if rf_firstSendCompleted r then send_rewards r else []) @
           (if rf_depositRetainedD7 r then deposit_rewards r else [])"

definition all_due :: "Referral table \<Rightarrow> RewardPoint multiset" where
  "all_due t = mset (concat (map (due \<circ> snd) t))"

fun in_payment :: "task \<Rightarrow> RewardPoint list" where
  "in_payment (WalletPay row k) = wallet_rewards (snd row)"
| "in_payment (SendPay row) = send_rewards (snd row)"
| "in_payment (DepositPay row) = deposit_rewards (snd row)"
| "in_payment _ = []"

definition all_in_payment :: "task list \<Rightarrow> RewardPoint multiset" where
  "all_in_payment ts = mset (concat (map in_payment ts))"

lemma all_in_payment_simps [simp]:
  "all_in_payment [] = {#}" "all_in_payment (t # ts) = mset (in_payment t) + all_in_payment ts"
  "all_in_payment (ts @ us) = all_in_payment ts + all_in_payment us"
  by (simp_all add: all_in_payment_def)

lemma all_due_create [simp]: "all_due (create_row i r t) = all_due t + mset (due r)"
  by (simp add: all_due_def create_row_def)

lemma all_due_update:
  assumes "keys_unique t" and "findUnique t k = Some r" and "mset (due (f r)) = mset (due r) + extra"
  shows "all_due (update_row k f t) = all_due t + extra"
  using assms
proof (induction t)
  case (Cons p t)
  obtain i x where p: "p = (i, x)" by force
  have unique: "keys_unique t" "i \<notin> fst ` set t" using Cons.prems(1) by (auto simp: keys_unique_def p)
  have same: "i \<notin> fst ` set t \<Longrightarrow> update_row i f t = t" by (induction t) (auto simp: update_row_def)
  show ?case
  proof (cases "i = k")
    case True
    with Cons.prems same unique show ?thesis by (simp add: p findUnique_def all_due_def update_row_def)
  next
    case False
    with Cons.prems Cons.IH [OF unique(1)] show ?thesis by (simp add: p findUnique_def all_due_def update_row_def)
  qed
qed (simp add: findUnique_def)

section \<open>The invariant\<close>

definition created_at :: "string \<Rightarrow> referral_db \<Rightarrow> date option" where
  "created_at u db = map_option us_createdAt (findUnique (fd_users db) u)"

definition older :: "referral_db \<Rightarrow> string \<Rightarrow> string \<Rightarrow> bool" where
  "older db p u \<longleftrightarrow> (\<exists>a b. created_at p db = Some a \<and> created_at u db = Some b \<and> a + MIN_ACCOUNT_AGE_GAP_MS \<le> b)"

definition row_kept :: "referral_db \<Rightarrow> string \<times> Referral \<Rightarrow> bool" where
  "row_kept db row \<longleftrightarrow>
     (\<exists>r. findUnique (fd_referrals db) (fst row) = Some r \<and> rf_referrerId r = rf_referrerId (snd row) \<and>
          rf_refereeId r = rf_refereeId (snd row))"

definition wallet_done :: "referral_db \<Rightarrow> string \<times> Referral \<Rightarrow> bool" where
  "wallet_done db row \<longleftrightarrow> (\<exists>r. findUnique (fd_referrals db) (fst row) = Some r \<and> rf_walletCreated r)"

fun task_ok :: "referral_db \<Rightarrow> task \<Rightarrow> bool" where
  "task_ok db (ReferCreate p u a) = older db p u"
| "task_ok db (Wallet u k) = (\<forall>row. k = Some row \<longrightarrow> row_kept db row \<and> rf_refereeId (snd row) = u)"
| "task_ok db (WalletClaim row k) = (row_kept db row \<and> (\<forall>row'. k = Some row' \<longrightarrow> row_kept db row' \<and> fst row' = fst row))"
| "task_ok db (WalletPay row k) = (row_kept db row \<and> (\<forall>row'. k = Some row' \<longrightarrow> row_kept db row' \<and> wallet_done db row'))"
| "task_ok db (SendClaim row) = (row_kept db row \<and> wallet_done db row)"
| "task_ok db (SendPay row) = row_kept db row"
| "task_ok db (DepositClaim row) = row_kept db row"
| "task_ok db (DepositPay row) = row_kept db row"
| "task_ok db _ = True"

definition referral_ok :: "referral_db \<Rightarrow> Referral \<Rightarrow> bool" where
  "referral_ok db r \<longleftrightarrow> older db (rf_referrerId r) (rf_refereeId r) \<and> (rf_firstSendCompleted r \<longrightarrow> rf_walletCreated r) \<and>
     rf_points r = sum_list (map rw_points (filter (\<lambda>w. rw_reason w \<noteq> ''REFERRAL_SIGNUP_BONUS'') (due r)))"

definition rows_ok :: "referral_db \<Rightarrow> bool" where
  "rows_ok db \<longleftrightarrow> keys_unique (fd_referrals db) \<and> distinct (map (rf_refereeId \<circ> snd) (fd_referrals db)) \<and>
     (\<forall>i r. findUnique (fd_referrals db) i = Some r \<longrightarrow> referral_ok db r)"

definition balanced :: "ref_config \<Rightarrow> bool" where
  "balanced cf \<longleftrightarrow> mset (fd_rewards (cf_db cf)) + all_in_payment (cf_tasks cf) + mset (cf_lost cf) =
     all_due (fd_referrals (cf_db cf))"

definition ref_inv :: "ref_config \<Rightarrow> bool" where
  "ref_inv cf \<longleftrightarrow> rows_ok (cf_db cf) \<and> (\<forall>t \<in> set (cf_tasks cf). task_ok (cf_db cf) t) \<and> balanced cf"

text \<open>How a step changes the tables: users keep their age, referrals keep their parties and their milestones.\<close>

definition ages_kept :: "referral_db \<Rightarrow> referral_db \<Rightarrow> bool" where
  "ages_kept db db' \<longleftrightarrow> (\<forall>u a. created_at u db = Some a \<longrightarrow> created_at u db' = Some a)"

definition grows :: "referral_db \<Rightarrow> referral_db \<Rightarrow> bool" where
  "grows db db' \<longleftrightarrow> ages_kept db db' \<and>
     (\<forall>i r. findUnique (fd_referrals db) i = Some r \<longrightarrow>
        (\<exists>r'. findUnique (fd_referrals db') i = Some r' \<and> rf_referrerId r' = rf_referrerId r \<and>
              rf_refereeId r' = rf_refereeId r \<and> (rf_walletCreated r \<longrightarrow> rf_walletCreated r')))"

lemma older_grows: "older db p u \<Longrightarrow> ages_kept db db' \<Longrightarrow> older db' p u"
  by (auto simp: older_def ages_kept_def)

lemma row_kept_grows: "row_kept db row \<Longrightarrow> grows db db' \<Longrightarrow> row_kept db' row"
  unfolding row_kept_def grows_def by metis

lemma wallet_done_grows: "wallet_done db row \<Longrightarrow> grows db db' \<Longrightarrow> wallet_done db' row"
  unfolding wallet_done_def grows_def by metis

lemma grows_ages: "grows db db' \<Longrightarrow> ages_kept db db'"
  by (simp add: grows_def)

lemma task_ok_grows: "task_ok db t \<Longrightarrow> grows db db' \<Longrightarrow> task_ok db' t"
  by (cases t) (auto intro: row_kept_grows wallet_done_grows older_grows dest: grows_ages)

lemma grows_refl [simp]: "grows db db"
  by (simp add: grows_def ages_kept_def)

lemma grows_same:
  "fd_users db' = fd_users db \<Longrightarrow> fd_referrals db' = fd_referrals db \<Longrightarrow> grows db db'"
  by (simp add: grows_def ages_kept_def created_at_def)

lemma rows_ok_same:
  "fd_referrals db' = fd_referrals db \<Longrightarrow> ages_kept db db' \<Longrightarrow> rows_ok db \<Longrightarrow> rows_ok db'"
  by (auto simp: rows_ok_def referral_ok_def intro: older_grows)

section \<open>Claiming a milestone\<close>

text \<open>What the three milestones have in common: who is paid does not depend on the progress of the referral, and
  the mark adds exactly the rewards of the milestone to what is due.\<close>

locale milestone =
  fixes reached :: "Referral \<Rightarrow> bool"
    and mark :: "date \<Rightarrow> Referral \<Rightarrow> Referral"
    and rewards :: "Referral \<Rightarrow> RewardPoint list"
    and ready :: "Referral \<Rightarrow> bool"
  assumes reached_mark: "reached (mark n r)"
    and parties: "rf_referrerId (mark n r) = rf_referrerId r" "rf_refereeId (mark n r) = rf_refereeId r"
    and wallet_kept: "rf_walletCreated r \<Longrightarrow> rf_walletCreated (mark n r)"
    and dues: "\<not> reached r \<Longrightarrow> mset (due (mark n r)) = mset (due r) + mset (rewards r)"
    and ok_kept: "\<not> reached r \<Longrightarrow> ready r \<Longrightarrow> referral_ok db r \<Longrightarrow> referral_ok db (mark n r)"
    and same_rewards: "rf_referrerId r = rf_referrerId r' \<Longrightarrow> rf_refereeId r = rf_refereeId r' \<Longrightarrow> rewards r = rewards r'"
begin

lemma claim_of_row:
  assumes "keys_unique (fd_referrals db)" and "findUnique (fd_referrals db) i = Some r"
  shows "claim_milestone reached (mark now) i db =
    (if reached r then (False, db) else (True, db\<lparr>fd_referrals := update_row i (mark now) (fd_referrals db)\<rparr>))"
  using assms by (simp add: claim_milestone_def updateMany_unique)

lemma marked_grows: "grows db (db\<lparr>fd_referrals := update_row i (mark now) (fd_referrals db)\<rparr>)"
  by (auto simp: grows_def ages_kept_def created_at_def parties wallet_kept)

lemma referees_kept: "map (rf_refereeId \<circ> snd) (update_row i (mark now) t) = map (rf_refereeId \<circ> snd) t"
  by (induction t) (auto simp: update_row_def parties)

lemma marked_rows_ok:
  assumes ok: "rows_ok db" and r: "findUnique (fd_referrals db) i = Some r" and new: "\<not> reached r" "ready r"
  shows "rows_ok (db\<lparr>fd_referrals := update_row i (mark now) (fd_referrals db)\<rparr>)" (is "rows_ok ?db'")
proof -
  have older: "older ?db' p u = older db p u" for p u by (simp add: older_def created_at_def)
  then have same: "referral_ok ?db' = referral_ok db" by (auto simp: referral_ok_def fun_eq_iff)
  have "referral_ok db (mark now r)" using ok r new ok_kept by (simp add: rows_ok_def)
  with ok r show ?thesis
    unfolding rows_ok_def same by (auto simp: keys_unique_def referees_kept)
qed

lemma claimed:
  assumes ok: "rows_ok db" and row: "row_kept db row"
    and ready: "\<And>r. findUnique (fd_referrals db) (fst row) = Some r \<Longrightarrow> ready r"
    and claim: "claim_milestone reached (mark now) (fst row) db = (c, db')"
  shows "rows_ok db'" "grows db db'" "fd_rewards db' = fd_rewards db"
    and "all_due (fd_referrals db') = all_due (fd_referrals db) + (if c then mset (rewards (snd row)) else {#})"
    and "\<exists>r. findUnique (fd_referrals db') (fst row) = Some r \<and> reached r"
proof -
  obtain r where r: "findUnique (fd_referrals db) (fst row) = Some r"
    and same: "rf_referrerId r = rf_referrerId (snd row)" "rf_refereeId r = rf_refereeId (snd row)"
    using row by (auto simp: row_kept_def)
  have unique: "keys_unique (fd_referrals db)" using ok by (simp add: rows_ok_def)
  note claim' = claim [unfolded claim_of_row [OF unique r]]
  show "rows_ok db'" using claim' marked_rows_ok [OF ok r] ready [OF r] ok by (auto split: if_splits)
  show "grows db db'" using claim' marked_grows by (auto split: if_splits)
  show "fd_rewards db' = fd_rewards db" using claim' by (auto split: if_splits)
  show "all_due (fd_referrals db') = all_due (fd_referrals db) + (if c then mset (rewards (snd row)) else {#})"
    using claim' all_due_update [where f = "mark now", OF unique r dues] same_rewards [OF same] by (auto split: if_splits)
  show "\<exists>r. findUnique (fd_referrals db') (fst row) = Some r \<and> reached r"
    using claim' r reached_mark by (auto split: if_splits)
qed

end

lemmas milestone_defs = due_def referral_ok_def wallet_rewards_def send_rewards_def deposit_rewards_def reward_def
  WALLET_CREATED_def REFEREE_WELCOME_def FIRST_SEND_def DEPOSIT_RETAINED_D7_def

interpretation wallet: milestone rf_walletCreated mark_wallet wallet_rewards "\<lambda>_. True"
  by unfold_locales (auto simp: mark_wallet_def milestone_defs)

interpretation send: milestone rf_firstSendCompleted mark_send send_rewards rf_walletCreated
  by unfold_locales (auto simp: mark_send_def milestone_defs)

interpretation deposit: milestone rf_depositRetainedD7 mark_deposit deposit_rewards "\<lambda>_. True"
  by unfold_locales (auto simp: mark_deposit_def milestone_defs)

section \<open>Every step keeps the invariant\<close>

lemma rows_okD: "rows_ok db \<Longrightarrow> keys_unique (fd_referrals db)" "rows_ok db \<Longrightarrow> distinct (map (rf_refereeId \<circ> snd) (fd_referrals db))"
  "rows_ok db \<Longrightarrow> findUnique (fd_referrals db) i = Some r \<Longrightarrow> referral_ok db r"
  by (auto simp: rows_ok_def)

lemma find_in: "find P xs = Some x \<Longrightarrow> x \<in> set xs \<and> P x"
  by (induction xs) (auto split: if_splits)

lemma referral_of_row:
  assumes "rows_ok db" and "referral_of u (fd_referrals db) = Some row"
  shows "findUnique (fd_referrals db) (fst row) = Some (snd row)" "rf_refereeId (snd row) = u" "row_kept db row"
proof -
  have "row \<in> set (fd_referrals db)" "rf_refereeId (snd row) = u"
    using find_in [OF assms(2) [unfolded referral_of_def]] by (auto simp: case_prod_beta)
  moreover have "distinct (map fst (fd_referrals db))" using rows_okD(1) [OF assms(1)] by (simp add: keys_unique_def)
  ultimately show "findUnique (fd_referrals db) (fst row) = Some (snd row)" "rf_refereeId (snd row) = u"
    by (auto simp: findUnique_def)
  then show "row_kept db row" by (simp add: row_kept_def)
qed

lemma referral_unique:
  assumes "rows_ok db" and "findUnique (fd_referrals db) i = Some r" and "findUnique (fd_referrals db) j = Some r'"
    and "rf_refereeId r = rf_refereeId r'"
  shows "i = j"
proof -
  have "(i, r) \<in> set (fd_referrals db)" "(j, r') \<in> set (fd_referrals db)"
    using assms(2,3) by (auto simp: findUnique_def dest: map_of_SomeD)
  moreover have "inj_on (rf_refereeId \<circ> snd) (set (fd_referrals db))"
    using rows_okD(2) [OF assms(1)] by (simp add: distinct_map)
  ultimately show ?thesis using assms(4) by (auto dest: inj_onD [where x = "(i, r)" and y = "(j, r')"])
qed

lemma referral_of_kept:
  assumes ok: "rows_ok db" and row: "row_kept db row" "rf_refereeId (snd row) = u"
  obtains row' where "referral_of u (fd_referrals db) = Some row'" "fst row' = fst row"
    "findUnique (fd_referrals db) (fst row) = Some (snd row')"
proof -
  obtain r where r: "findUnique (fd_referrals db) (fst row) = Some r" "rf_refereeId r = u"
    using row by (auto simp: row_kept_def)
  then have "(fst row, r) \<in> set (fd_referrals db)" by (auto simp: findUnique_def dest: map_of_SomeD)
  with r have "referral_of u (fd_referrals db) \<noteq> None"
    by (auto simp: referral_of_def find_None_iff)
  then obtain row' where row': "referral_of u (fd_referrals db) = Some row'" by blast
  note found = referral_of_row [OF ok row']
  have "fst row' = fst row" using referral_unique [OF ok found(1) r(1)] found(2) r(2) by simp
  with row' found(1) that show ?thesis by metis
qed

lemma antisybil_older: "checkAntiSybil now p u db = None \<Longrightarrow> older db p u"
  by (auto simp: checkAntiSybil_def older_def created_at_def split: option.splits if_splits)

lemma refer_check_same:
  "refer_check now c u db = (r, db') \<Longrightarrow>
     fd_users db' = fd_users db \<and> fd_referrals db' = fd_referrals db \<and> fd_rewards db' = fd_rewards db"
  by (auto simp: refer_check_def Let_def split: option.splits if_splits)

lemma antisybil_codes [simp]: "checkAntiSybil now p u (db\<lparr>fd_codes := t\<rparr>) = checkAntiSybil now p u db"
  by (simp add: checkAntiSybil_def)

lemma refer_check_older: "refer_check now c u db = (Inr p, db') \<Longrightarrow> older db p u"
  by (auto simp: refer_check_def Let_def antisybil_older split: option.splits if_splits)

lemma not_referred: "referral_of u t = None \<Longrightarrow> u \<notin> set (map (rf_refereeId \<circ> snd) t)"
  by (fastforce simp: referral_of_def find_None_iff)

lemma refer_create_ok:
  assumes ok: "rows_ok db" and older: "older db p u"
  shows "rows_ok (snd (refer_create now i p u a db))" "grows db (snd (refer_create now i p u a db))"
    "fd_rewards (snd (refer_create now i p u a db)) = fd_rewards db"
    "all_due (fd_referrals (snd (refer_create now i p u a db))) = all_due (fd_referrals db)"
proof -
  have new: "referral_ok (snd (refer_create now i p u a db)) (new_referral now p u a)"
    using older by (auto simp: referral_ok_def new_referral_def due_def older_def created_at_def refer_create_def)
  show "grows db (snd (refer_create now i p u a db))"
    by (auto simp: refer_create_def grows_def ages_kept_def created_at_def findUnique_create)
  then have ages: "ages_kept db (snd (refer_create now i p u a db))" by (rule grows_ages)
  have old: "referral_ok (snd (refer_create now i p u a db)) r" if "referral_ok db r" for r
    using that older_grows [OF _ ages] by (simp add: referral_ok_def)
  show "rows_ok (snd (refer_create now i p u a db))"
  proof (cases "findUnique (fd_referrals db) i \<noteq> None \<or> referral_of u (fd_referrals db) \<noteq> None")
    case True
    with ok show ?thesis by (auto simp: refer_create_def)
  next
    case False
    then have db': "fd_referrals (snd (refer_create now i p u a db)) = create_row i (new_referral now p u a) (fd_referrals db)"
      by (simp add: refer_create_def)
    have "rf_refereeId (new_referral now p u a) = u" by (simp add: new_referral_def)
    moreover have "referral_of u (fd_referrals db) = None" using False by blast
    ultimately have "distinct (map (rf_refereeId \<circ> snd) (create_row i (new_referral now p u a) (fd_referrals db)))"
      using not_referred [of u "fd_referrals db"] rows_okD(2) [OF ok] by (simp add: create_row_def)
    moreover have "keys_unique (create_row i (new_referral now p u a) (fd_referrals db))"
      using False ok by (simp add: keys_create rows_ok_def)
    ultimately show ?thesis
      using new old rows_okD(3) [OF ok]
      unfolding rows_ok_def db' by (auto simp: findUnique_create split: option.splits if_splits)
  qed
  show "fd_rewards (snd (refer_create now i p u a db)) = fd_rewards db"
    "all_due (fd_referrals (snd (refer_create now i p u a db))) = all_due (fd_referrals db)"
    by (simp_all add: refer_create_def new_referral_def due_def)
qed

text \<open>One access keeps the rows in order and moves rewards between what is due, in payment, paid and lost.\<close>

definition step_ok :: "referral_db \<Rightarrow> task \<Rightarrow> task option \<times> referral_db \<times> RewardPoint list \<Rightarrow> bool" where
  "step_ok db t res \<longleftrightarrow>
     (case res of (next, db', lost) \<Rightarrow>
        rows_ok db' \<and> grows db db' \<and> (\<forall>t'. next = Some t' \<longrightarrow> task_ok db' t') \<and>
        mset (fd_rewards db') + (case next of Some t' \<Rightarrow> mset (in_payment t') | None \<Rightarrow> {#}) + mset lost + all_due (fd_referrals db) =
        mset (fd_rewards db) + mset (in_payment t) + all_due (fd_referrals db'))"

lemma then_send_ok:
  "\<forall>row. k = Some row \<longrightarrow> row_kept db row \<and> wallet_done db row \<Longrightarrow> then_send k = Some t' \<Longrightarrow> task_ok db t' \<and> in_payment t' = []"
  by (auto simp: then_send_def)

lemma pay_kept:
  "fd_users (pay_milestone w r db) = fd_users db" "fd_referrals (pay_milestone w r db) = fd_referrals db"
  "mset (fd_rewards (pay_milestone w r db)) = mset (fd_rewards db) + mset (w r)"
  by (simp_all add: pay_milestone_def)

lemma pay_rows_ok: "rows_ok db \<Longrightarrow> rows_ok (pay_milestone w r db)" "grows db (pay_milestone w r db)"
proof -
  show g: "grows db (pay_milestone w r db)" by (rule grows_same) (simp_all add: pay_kept)
  show "rows_ok db \<Longrightarrow> rows_ok (pay_milestone w r db)"
    by (rule rows_ok_same [of _ db]) (simp_all add: pay_kept grows_ages [OF g])
qed

lemma step_ok_pay:
  assumes "rows_ok db" and "in_payment t = w r"
    and "\<And>t'. next = Some t' \<Longrightarrow> task_ok (pay_milestone w r db) t' \<and> in_payment t' = []"
  shows "step_ok db t (if ok then (next, pay_milestone w r db, []) else (None, db, w r))"
  using assms pay_rows_ok(1) [OF assms(1)] pay_rows_ok(2) by (auto simp: step_ok_def pay_kept split: option.splits)

lemma step_ok_stay:
  assumes "rows_ok db" and "in_payment t = []" and "\<And>t'. next = Some t' \<Longrightarrow> task_ok db t' \<and> in_payment t' = []"
  shows "step_ok db t (next, db, [])"
  using assms by (auto simp: step_ok_def split: option.splits)

lemma wallet_task_ok:
  assumes ok: "rows_ok db" and t: "task_ok db (Wallet u k)"
  shows "step_ok db (Wallet u k) (run_task now newId b (Wallet u k) db)"
proof (cases "referral_of u (fd_referrals db)")
  case None
  have "k = None"
    using t None referral_of_kept [OF ok] by (cases k) (auto, metis option.distinct(1))
  with None ok show ?thesis by (auto intro!: step_ok_stay simp: then_send_def)
next
  case (Some row)
  note found = referral_of_row [OF ok Some]
  have k: "row_kept db row' \<and> fst row' = fst row" if "k = Some row'" for row'
    using that t referral_of_kept [OF ok, of row' u] Some by (metis option.inject task_ok.simps(2))
  show ?thesis
  proof (cases "rf_walletCreated (snd row)")
    case True
    then have "wallet_done db row'" if "k = Some row'" for row'
      using found(1) k [OF that] by (simp add: wallet_done_def)
    then have "\<forall>row'. k = Some row' \<longrightarrow> row_kept db row' \<and> wallet_done db row'" using k by blast
    then have "task_ok db t' \<and> in_payment t' = []" if "then_send k = Some t'" for t' using that by (rule then_send_ok)
    with Some True ok show ?thesis by (auto intro!: step_ok_stay)
  next
    case False
    with Some found k ok show ?thesis by (auto intro!: step_ok_stay)
  qed
qed

lemma claim_task_ok:
  assumes ok: "rows_ok db" and t: "task_ok db (WalletClaim row k)"
  shows "step_ok db (WalletClaim row k) (run_task now newId b (WalletClaim row k) db)"
proof -
  obtain c db' where claim: "claim_milestone rf_walletCreated (mark_wallet now) (fst row) db = (c, db')" by force
  note claimed = wallet.claimed [OF ok _ TrueI claim]
  have row: "row_kept db row" using t by simp
  have k: "\<forall>row'. k = Some row' \<longrightarrow> row_kept db' row' \<and> wallet_done db' row'"
    using t claimed(5) [OF row] row_kept_grows [OF _ claimed(2) [OF row]] by (auto simp: wallet_done_def)
  then have "task_ok db' t' \<and> in_payment t' = []" if "then_send k = Some t'" for t'
    using that by (rule then_send_ok)
  then show ?thesis
    using claim k claimed [OF row] row_kept_grows [OF row claimed(2) [OF row]]
    by (auto simp: step_ok_def split: option.splits)
qed

lemma run_task_ok:
  assumes ok: "rows_ok db" and t: "task_ok db t"
  shows "step_ok db t (run_task now newId b t db)"
proof (cases t)
  case (Refer c u a)
  obtain r db' where rc: "refer_check now c u db = (r, db')" by force
  have same: "grows db db'" "rows_ok db'" "fd_rewards db' = fd_rewards db" "fd_referrals db' = fd_referrals db"
    using refer_check_same [OF rc] ok by (auto intro!: grows_same rows_ok_same [of _ db] grows_ages)
  show ?thesis
    using rc same older_grows [OF refer_check_older grows_ages] by (cases r) (auto simp: Refer step_ok_def)
next
  case (ReferCreate p u a)
  with ok t refer_create_ok [OF ok, of p u] show ?thesis by (simp add: step_ok_def)
next
  case (Wallet u k)
  with ok t wallet_task_ok show ?thesis by simp
next
  case (WalletClaim row k)
  with ok t claim_task_ok show ?thesis by simp
next
  case (WalletPay row k)
  let ?db = "pay_milestone wallet_rewards (snd row) db"
  have "\<forall>row'. k = Some row' \<longrightarrow> row_kept ?db row' \<and> wallet_done ?db row'"
    using t pay_rows_ok(2) by (auto simp: WalletPay intro: row_kept_grows wallet_done_grows)
  then have "task_ok ?db t' \<and> in_payment t' = []" if "then_send k = Some t'" for t' using that by (rule then_send_ok)
  with ok show ?thesis unfolding WalletPay run_task.simps by (intro step_ok_pay) auto
next
  case (Send u x)
  show ?thesis
  proof (cases "referral_of u (fd_referrals db)")
    case (Some row)
    with referral_of_row [OF ok Some] ok show ?thesis by (auto intro!: step_ok_stay simp: Send wallet_done_def)
  qed (use ok in \<open>auto intro!: step_ok_stay simp: Send\<close>)
next
  case (SendClaim row)
  obtain c db' where claim: "claim_milestone rf_firstSendCompleted (mark_send now) (fst row) db = (c, db')" by force
  have row: "row_kept db row" and wallet: "\<And>r. findUnique (fd_referrals db) (fst row) = Some r \<Longrightarrow> rf_walletCreated r"
    using t by (auto simp: SendClaim wallet_done_def)
  note claimed = send.claimed [OF ok row wallet claim]
  show ?thesis using claim claimed row_kept_grows [OF row claimed(2)] by (auto simp: SendClaim step_ok_def)
next
  case (SendPay row)
  with ok show ?thesis by (simp only: run_task.simps) (rule step_ok_pay; simp)
next
  case (Deposit u)
  show ?thesis
  proof (cases "referral_of u (fd_referrals db)")
    case (Some row)
    with referral_of_row [OF ok Some] ok show ?thesis by (auto intro!: step_ok_stay simp: Deposit)
  qed (use ok in \<open>auto intro!: step_ok_stay simp: Deposit\<close>)
next
  case (DepositClaim row)
  obtain c db' where claim: "claim_milestone rf_depositRetainedD7 (mark_deposit now) (fst row) db = (c, db')" by force
  have row: "row_kept db row" using t by (simp add: DepositClaim)
  note claimed = deposit.claimed [OF ok row TrueI claim]
  show ?thesis using claim claimed row_kept_grows [OF row claimed(2)] by (auto simp: DepositClaim step_ok_def)
next
  case (DepositPay row)
  with ok show ?thesis by (simp only: run_task.simps) (rule step_ok_pay; simp)
qed

lemma task_inv_same:
  assumes "ref_inv cf" and "grows (cf_db cf) db'" and "fd_referrals db' = fd_referrals (cf_db cf)"
    and "fd_rewards db' = fd_rewards (cf_db cf)"
  shows "ref_inv (cf\<lparr>cf_db := db'\<rparr>)"
  using assms by (auto simp: ref_inv_def balanced_def intro: rows_ok_same task_ok_grows dest: grows_ages)

lemma created_at_fingerprint: "created_at v (recordDeviceFingerprint u p db) = created_at v db"
proof -
  have "map_option us_createdAt (findUnique (snd (updateMany u c (\<lambda>r. r\<lparr>us_deviceFingerprint := d\<rparr>) t)) v) =
      map_option us_createdAt (findUnique t v)" for c d and t :: "ref_user table"
    by (induction t) (auto simp: updateMany_def findUnique_def split: if_splits)
  then show ?thesis by (simp add: recordDeviceFingerprint_def created_at_def)
qed

lemma moved_rewards:
  fixes a :: "'a multiset"
  assumes moved: "a' + n + l + d = a + p + d'" and before: "a + (b + (p + c)) + l0 = d"
  shows "a' + (b + n + c) + (l0 + l) = d'"
proof -
  have "(a + p) + (a' + (b + n + c) + (l0 + l)) = (a + p) + d'"
    using moved unfolding before [symmetric] by (simp add: ac_simps)
  then show ?thesis by (rule add_left_imp_eq)
qed

lemma ref_step_inv: "ref_step cf cf' \<Longrightarrow> ref_inv cf \<Longrightarrow> ref_inv cf'"
proof (induction rule: ref_step.induct)
  case (Called t c u a x cf)
  then show ?case by (auto simp: ref_inv_def balanced_def)
next
  case (Proceeded cf before t after now newId ok "next" db' lost)
  have "task_ok (cf_db cf) t" "rows_ok (cf_db cf)" using Proceeded by (auto simp: ref_inv_def)
  with run_task_ok have step: "step_ok (cf_db cf) t (next, db', lost)" using Proceeded.hyps(2) by metis
  then have keep: "task_ok db' t'" if "t' \<in> set (cf_tasks cf)" for t'
    using that Proceeded.prems task_ok_grows by (auto simp: step_ok_def ref_inv_def)
  have "mset (fd_rewards db') + (all_in_payment before + (case next of Some t' \<Rightarrow> mset (in_payment t') | None \<Rightarrow> {#}) +
        all_in_payment after) + (mset (cf_lost cf) + mset lost) = all_due (fd_referrals db')"
    by (rule moved_rewards [where d = "all_due (fd_referrals (cf_db cf))" and a = "mset (fd_rewards (cf_db cf))" and p = "mset (in_payment t)"])
      (use step Proceeded.prems in \<open>simp_all add: step_ok_def ref_inv_def balanced_def Proceeded.hyps(1)\<close>)
  moreover have "rows_ok db'" using step by (simp add: step_ok_def)
  moreover have "task_ok db' t'" if "next = Some t'" for t' using step that by (simp add: step_ok_def)
  ultimately show ?case
    using keep by (auto simp: ref_inv_def balanced_def Proceeded.hyps(1) add_ac split: option.splits)
next
  case (Registered cf u now)
  have "created_at v ((cf_db cf)\<lparr>fd_users := create_row u \<lparr>us_createdAt = now, us_deviceFingerprint = None\<rparr> (fd_users (cf_db cf))\<rparr>)
      = Some a" if "created_at v (cf_db cf) = Some a" for v a
    using that by (auto simp: created_at_def findUnique_create)
  then have "grows (cf_db cf) ((cf_db cf)\<lparr>fd_users := create_row u \<lparr>us_createdAt = now, us_deviceFingerprint = None\<rparr> (fd_users (cf_db cf))\<rparr>)"
    by (simp add: grows_def ages_kept_def)
  then show ?case using Registered by (intro task_inv_same) auto
next
  case (Fingerprinted cf u p)
  have "fd_referrals (recordDeviceFingerprint u p (cf_db cf)) = fd_referrals (cf_db cf)"
    "fd_rewards (recordDeviceFingerprint u p (cf_db cf)) = fd_rewards (cf_db cf)"
    by (simp_all add: recordDeviceFingerprint_def)
  moreover from this have "grows (cf_db cf) (recordDeviceFingerprint u p (cf_db cf))"
    by (simp add: grows_def ages_kept_def created_at_fingerprint)
  ultimately show ?case using Fingerprinted by (intro task_inv_same)
next
  case (Coded cf fresh u)
  then show ?case
    by (intro task_inv_same)
      (auto intro!: grows_same simp: getOrCreateReferralCode_def split: option.splits prod.splits)
qed

lemma ref_reach_inv: "ref_reach start cf \<Longrightarrow> no_referrals start \<Longrightarrow> ref_inv cf"
proof (induction rule: ref_reach.induct)
  case Start
  then show ?case by (simp add: no_referrals_def ref_inv_def balanced_def rows_ok_def keys_unique_def all_due_def findUnique_def)
qed (simp add: ref_step_inv)

section \<open>Undisturbed handlers\<close>

text \<open>A handler whose steps nobody interrupts, and whose writes succeed, does what \<open>Referral\<close> says.\<close>

fun finish :: "nat \<Rightarrow> date \<Rightarrow> string \<Rightarrow> task \<Rightarrow> referral_db \<Rightarrow> referral_db option" where
  "finish 0 now newId t db = None"
| "finish (Suc n) now newId t db =
     (case run_task now newId True t db of
        (None, db', lost) \<Rightarrow> Some db'
      | (Some t', db', lost) \<Rightarrow> finish n now newId t' db')"

lemma nothing_lost: "run_task now newId True t db = (next, db', lost) \<Longrightarrow> lost = []"
  by (cases t) (auto split: option.splits prod.splits sum.splits if_splits)

lemma finish_reach:
  "finish n now newId t db = Some db' \<Longrightarrow> ref_reach start \<lparr>cf_db = db, cf_tasks = [t], cf_lost = l\<rparr>
     \<Longrightarrow> ref_reach start \<lparr>cf_db = db', cf_tasks = [], cf_lost = l\<rparr>"
proof (induction n arbitrary: t db)
  case (Suc n)
  obtain n' db1 l1 where run: "run_task now newId True t db = (n', db1, l1)" by (metis prod_cases3)
  have "ref_step \<lparr>cf_db = db, cf_tasks = [t], cf_lost = l\<rparr>
      \<lparr>cf_db = db1, cf_tasks = (case n' of Some t' \<Rightarrow> [t'] | None \<Rightarrow> []), cf_lost = l\<rparr>"
    using ref_step.Proceeded [where cf = "\<lparr>cf_db = db, cf_tasks = [t], cf_lost = l\<rparr>" and before = "[]" and after = "[]" and
        t = t and now = now and newId = newId and ok = True] run nothing_lost [OF run] by (simp split: option.splits)
  with Suc.prems(2) have "ref_reach start \<lparr>cf_db = db1, cf_tasks = (case n' of Some t' \<Rightarrow> [t'] | None \<Rightarrow> []), cf_lost = l\<rparr>"
    by (rule ref_reach.Step)
  with Suc.IH Suc.prems(1) run show ?case by (cases n') auto
qed simp

lemma handler_runs:
  "finish 2 now newId (Refer c u a) db = Some (snd (processReferral now newId c u a db))"
  "finish 3 now newId (Wallet u None) db = Some (snd (markWalletCreated True now u db))"
  "finish 3 now newId (Deposit u) db = Some (snd (markDepositRetainedD7 True now u db))"
  by (auto simp: eval_nat_numeral processReferral_def markWalletCreated_def markDepositRetainedD7_def settle_milestone_def
      then_send_def split: option.splits sum.splits prod.splits)

lemma send_runs: "finish 6 now newId (Send u x) db = Some (snd (markFirstSend True True now u x db))"
proof (cases "referral_of u (fd_referrals db)")
  case (Some row)
  then show ?thesis
    by (cases "rf_walletCreated (snd row)")
      (auto simp: eval_nat_numeral markFirstSend_def markWalletCreated_def settle_milestone_def then_send_def bindS_def returnS_def
        split: prod.splits)
qed (simp add: eval_nat_numeral markFirstSend_def)

lemma handler_reach:
  assumes "ref_reach start \<lparr>cf_db = db, cf_tasks = [], cf_lost = l\<rparr>"
  shows "ref_reach start \<lparr>cf_db = snd (processReferral now newId c u a db), cf_tasks = [], cf_lost = l\<rparr>"
    and "ref_reach start \<lparr>cf_db = snd (markFirstSend True True now u x db), cf_tasks = [], cf_lost = l\<rparr>"
proof -
  note called = ref_reach.Step [OF assms ref_step.Called [where u = u and c = c and a = a and x = x]]
  show "ref_reach start \<lparr>cf_db = snd (processReferral now newId c u a db), cf_tasks = [], cf_lost = l\<rparr>"
    by (rule finish_reach [OF handler_runs(1)]) (use called [of "Refer c u a"] in simp)
  show "ref_reach start \<lparr>cf_db = snd (markFirstSend True True now u x db), cf_tasks = [], cf_lost = l\<rparr>"
    by (rule finish_reach [OF send_runs]) (use called [of "Send u x"] in simp)
qed

section \<open>Properties\<close>

definition refers :: "referral_db \<Rightarrow> (string \<times> string) set" where
  "refers db = {(rf_referrerId r, rf_refereeId r) | r. r \<in> snd ` set (fd_referrals db)}"

lemma refers_older: "rows_ok db \<Longrightarrow> (p, u) \<in> refers db \<Longrightarrow> older db p u"
  by (force simp: refers_def rows_ok_def referral_ok_def keys_unique_def findUnique_def)

lemma older_trans: "older db p u \<Longrightarrow> older db u v \<Longrightarrow> older db p v"
  by (auto simp: older_def MIN_ACCOUNT_AGE_GAP_MS_def)

lemma refers_trancl: "(p, u) \<in> (refers db)\<^sup>+ \<Longrightarrow> rows_ok db \<Longrightarrow> older db p u"
  by (induction rule: trancl_induct) (blast intro: refers_older older_trans)+

lemma welcome_once:
  "distinct (map (rf_refereeId \<circ> snd) t) \<Longrightarrow> count (all_due t) (reward u REFEREE_WELCOME ''REFERRAL_SIGNUP_BONUS'') \<le> 1"
proof (induction t)
  case (Cons p t)
  have none: "count (all_due t) (reward v REFEREE_WELCOME ''REFERRAL_SIGNUP_BONUS'') = 0"
    if "v \<notin> (rf_refereeId \<circ> snd) ` set t" for v
    using that by (induction t) (auto simp: all_due_def due_def wallet_rewards_def send_rewards_def deposit_rewards_def reward_def)
  have "count (mset (due r)) (reward u REFEREE_WELCOME ''REFERRAL_SIGNUP_BONUS'') \<le> (if rf_refereeId r = u then 1 else 0)" for r
    by (auto simp: due_def wallet_rewards_def send_rewards_def deposit_rewards_def reward_def)
  from this [of "snd p"] have first: "count (mset (due (snd p))) (reward u REFEREE_WELCOME ''REFERRAL_SIGNUP_BONUS'')
      \<le> (if rf_refereeId (snd p) = u then 1 else 0)" .
  have "all_due (p # t) = mset (due (snd p)) + all_due t" by (simp add: all_due_def)
  then have "count (all_due (p # t)) (reward u REFEREE_WELCOME ''REFERRAL_SIGNUP_BONUS'') =
      count (mset (due (snd p))) (reward u REFEREE_WELCOME ''REFERRAL_SIGNUP_BONUS'') +
      count (all_due t) (reward u REFEREE_WELCOME ''REFERRAL_SIGNUP_BONUS'')" by (simp only: count_union)
  moreover have "count (all_due t) (reward u REFEREE_WELCOME ''REFERRAL_SIGNUP_BONUS'') \<le> (if rf_refereeId (snd p) = u then 0 else 1)"
    using Cons none [of u] by auto
  ultimately show ?case using first by (simp only: split: if_splits)
qed (simp add: all_due_def)

text \<open>C26. However the handlers of the service interleave, the referral graph has no cycle, nobody has two referrers,
  and every referee's account is at least a day younger than the referrer's.\<close>

theorem referral_graph_acyclic:
  assumes "no_referrals start" and "ref_reach start cf"
  shows "acyclic (refers (cf_db cf)) \<and> single_valued ((refers (cf_db cf))\<inverse>) \<and>
    (\<forall>(p, u) \<in> refers (cf_db cf). \<exists>a b. created_at p (cf_db cf) = Some a \<and> created_at u (cf_db cf) = Some b \<and>
       a + 24 * 60 * 60 * 1000 \<le> b)"
proof -
  have ok: "rows_ok (cf_db cf)" using ref_reach_inv assms by (auto simp: ref_inv_def)
  have "single_valued ((refers (cf_db cf))\<inverse>)"
  proof (rule single_valuedI)
    fix u p p' assume "(u, p) \<in> (refers (cf_db cf))\<inverse>" "(u, p') \<in> (refers (cf_db cf))\<inverse>"
    then obtain i r j r' where *: "(i, r) \<in> set (fd_referrals (cf_db cf))" "(j, r') \<in> set (fd_referrals (cf_db cf))"
      "rf_refereeId r = u" "rf_refereeId r' = u" "p = rf_referrerId r" "p' = rf_referrerId r'" by (auto simp: refers_def)
    then have "(i, r) = (j, r')"
      using rows_okD(2) [OF ok] by (auto simp: distinct_map dest: inj_onD [where x = "(i, r)" and y = "(j, r')"])
    with * show "p = p'" by simp
  qed
  moreover have "(u, u) \<notin> (refers (cf_db cf))\<^sup>+" for u
    using refers_trancl [OF _ ok, of u u] by (auto simp: older_def MIN_ACCOUNT_AGE_GAP_MS_def)
  ultimately show ?thesis
    using refers_older [OF ok] by (auto simp: acyclic_def older_def MIN_ACCOUNT_AGE_GAP_MS_def)
qed

text \<open>Two users two days apart, the younger one invited by the older one.\<close>

definition example_referrals :: referral_db where
  "example_referrals =
     \<lparr>fd_users = [(''a'', \<lparr>us_createdAt = 0, us_deviceFingerprint = Some ''x''\<rparr>),
                  (''b'', \<lparr>us_createdAt = 172800000, us_deviceFingerprint = Some ''y''\<rparr>)],
      fd_codes = [(''c'', \<lparr>rc_userId = ''a'', rc_code = ''VERI-1'', rc_clicks = 0\<rparr>)],
      fd_referrals = [], fd_rewards = [], fd_activity = [], fd_notices = []\<rparr>"

definition example_referred :: referral_db where
  "example_referred = snd (processReferral 172800001 ''r'' ''veri-1 '' ''b'' \<lparr>at_src = None, at_campaign = None,
     at_partner = None, at_channel = None\<rparr> example_referrals)"

definition example_rewarded :: referral_db where
  "example_rewarded = snd (markFirstSend True True 172800002 ''b'' 6 example_referred)"

lemma example_referred_row:
  "fd_referrals example_referred = [(''r'', new_referral 172800001 ''a'' ''b'' \<lparr>at_src = None, at_campaign = None,
     at_partner = None, at_channel = None\<rparr>)]" "fd_rewards example_referred = []"
  by (code_simp)+

lemma example_rewarded_rows:
  "map (\<lambda>(i, r). (i, rf_referrerId r, rf_refereeId r, rf_points r)) (fd_referrals example_rewarded) = [(''r'', ''a'', ''b'', 50)]"
  "map rw_points (fd_rewards example_rewarded) = [25, 100, 25]"
  by code_simp+

lemma example_reached:
  "ref_reach \<lparr>cf_db = example_referrals, cf_tasks = [], cf_lost = []\<rparr> \<lparr>cf_db = example_rewarded, cf_tasks = [], cf_lost = []\<rparr>"
  unfolding example_rewarded_def example_referred_def by (intro handler_reach ref_reach.Start)

lemma example_start: "no_referrals \<lparr>cf_db = example_referrals, cf_tasks = [], cf_lost = []\<rparr>"
  by (simp add: no_referrals_def example_referrals_def)

theorem referral_graph_acyclic_witness:
  "(''a'', ''b'') \<in> refers example_rewarded \<and> acyclic (refers example_rewarded)"
proof
  have "(''r'', ''a'', ''b'', 50) \<in> set (map (\<lambda>(i, r). (i, rf_referrerId r, rf_refereeId r, rf_points r)) (fd_referrals example_rewarded))"
    unfolding example_rewarded_rows(1) by simp
  then obtain i r where "(i, r) \<in> set (fd_referrals example_rewarded)" "rf_referrerId r = ''a''" "rf_refereeId r = ''b''"
    unfolding set_map by (elim imageE) (simp split: prod.splits)
  then show "(''a'', ''b'') \<in> refers example_rewarded" unfolding refers_def by (intro CollectI exI [of _ r]) (auto intro: rev_image_eqI)
  show "acyclic (refers example_rewarded)" using referral_graph_acyclic [OF example_start example_reached] by simp
qed

text \<open>C27. However the handlers interleave, every reward of every milestone that a referral reached is accounted for exactly
  once: it was written, or the handler that claimed the milestone has yet to write it, or its transaction failed. So the
  rewards that were written are among those of the milestones reached, and once no handler is under way those missing are
  exactly those whose transaction failed, and none is missing when none failed. A referral earns its referrer at most a
  hundred points, in the order of the milestones, and nobody gets the welcome bonus twice.\<close>

theorem referral_rewards_paid_once:
  assumes "no_referrals start" and "ref_reach start cf"
  shows "mset (fd_rewards (cf_db cf)) + all_in_payment (cf_tasks cf) + mset (cf_lost cf) = all_due (fd_referrals (cf_db cf)) \<and>
    mset (fd_rewards (cf_db cf)) \<subseteq># all_due (fd_referrals (cf_db cf)) \<and>
    (cf_tasks cf = [] \<longrightarrow> all_due (fd_referrals (cf_db cf)) - mset (fd_rewards (cf_db cf)) = mset (cf_lost cf)) \<and>
    (cf_tasks cf = [] \<and> cf_lost cf = [] \<longrightarrow> mset (fd_rewards (cf_db cf)) = all_due (fd_referrals (cf_db cf))) \<and>
    (\<forall>r \<in> snd ` set (fd_referrals (cf_db cf)). rf_points r \<le> 100 \<and> (rf_firstSendCompleted r \<longrightarrow> rf_walletCreated r)) \<and>
    count (mset (fd_rewards (cf_db cf))) (reward u REFEREE_WELCOME ''REFERRAL_SIGNUP_BONUS'') \<le> 1"
proof (intro conjI ballI impI)
  have inv: "ref_inv cf" using ref_reach_inv assms by blast
  then have ok: "rows_ok (cf_db cf)" by (simp add: ref_inv_def)
  show all: "mset (fd_rewards (cf_db cf)) + all_in_payment (cf_tasks cf) + mset (cf_lost cf) = all_due (fd_referrals (cf_db cf))"
    using inv by (auto simp: ref_inv_def balanced_def)
  show "all_due (fd_referrals (cf_db cf)) - mset (fd_rewards (cf_db cf)) = mset (cf_lost cf)" if "cf_tasks cf = []"
    unfolding all [symmetric] that by simp
  show sub: "mset (fd_rewards (cf_db cf)) \<subseteq># all_due (fd_referrals (cf_db cf))"
    unfolding all [symmetric] add.assoc by (rule mset_subset_eq_add_left)
  show "mset (fd_rewards (cf_db cf)) = all_due (fd_referrals (cf_db cf))" if "cf_tasks cf = [] \<and> cf_lost cf = []"
    using all that by simp
  show "count (mset (fd_rewards (cf_db cf))) (reward u REFEREE_WELCOME ''REFERRAL_SIGNUP_BONUS'') \<le> 1"
    using mset_subset_eq_count [OF sub] welcome_once [OF rows_okD(2) [OF ok]] le_trans by blast
  fix r assume r: "r \<in> snd ` set (fd_referrals (cf_db cf))"
  then have "referral_ok (cf_db cf) r" using ok by (force simp: rows_ok_def keys_unique_def findUnique_def)
  then show "rf_points r \<le> 100" and "rf_firstSendCompleted r \<Longrightarrow> rf_walletCreated r"
    by (auto simp: milestone_defs)
qed

theorem referral_rewards_paid_once_witness:
  "mset (fd_rewards example_rewarded) = all_due (fd_referrals example_rewarded) \<and>
   sum_list (map rw_points (fd_rewards example_rewarded)) = 150"
  using referral_rewards_paid_once [OF example_start example_reached] example_rewarded_rows(2) by simp

text \<open>After the transaction of the wallet rewards failed, a second call of the handler finds the milestone reached.\<close>

lemma retry_finds_milestone:
  assumes "keys_unique (fd_referrals db)" and "referral_of u (fd_referrals db) = Some (i, r)" and "\<not> rf_walletCreated r"
    and "markWalletCreated False now u db = (res, db')"
  shows "failed res \<and> fd_rewards db' = fd_rewards db \<and> markWalletCreated ok now' u db' = (Inr False, db')"
proof -
  have row: "(i, r) \<in> set (fd_referrals db)" "rf_refereeId r = u"
    using find_in [OF assms(2) [unfolded referral_of_def]] by auto
  then have r: "findUnique (fd_referrals db) i = Some r" using assms(1) by (simp add: keys_unique_def findUnique_def)
  have "referral_of u (update_row i f t) = Some (i, f r)" if "referral_of u t = Some (i, r)" "distinct (map fst t)"
    "\<And>r. rf_refereeId (f r) = rf_refereeId r" for f t
    using that
  proof (induction t)
    case (Cons p t)
    have same: "i \<notin> fst ` set t \<Longrightarrow> update_row i f t = t" by (induction t) (auto simp: update_row_def)
    show ?case
      using Cons same find_in [of _ t] by (cases p) (auto simp: referral_of_def update_row_def split: if_splits)
  qed (simp add: referral_of_def)
  from this [OF assms(2), of "mark_wallet now"] assms(1) wallet.parties(2)
  have later: "referral_of u (update_row i (mark_wallet now) (fd_referrals db)) = Some (i, mark_wallet now r)"
    by (simp add: keys_unique_def)
  have "res = Inl (InternalError ''rewardPoint.create'')"
    "db' = db\<lparr>fd_referrals := update_row i (mark_wallet now) (fd_referrals db)\<rparr>"
    using assms(2-4) wallet.claim_of_row [OF assms(1) r, of now] by (auto simp: markWalletCreated_def settle_milestone_def)
  with later show ?thesis by (simp add: markWalletCreated_def mark_wallet_def)
qed

lemma reach_trans: "ref_reach cf cf' \<Longrightarrow> ref_reach start cf \<Longrightarrow> ref_reach start cf'"
  by (induction rule: ref_reach.induct) (blast intro: ref_reach.Step)+

lemma lost_for_good: "ref_reach cf cf' \<Longrightarrow> mset (cf_lost cf) \<subseteq># mset (cf_lost cf')"
proof (induction rule: ref_reach.induct)
  case (Step cf1 cf2)
  have "mset (cf_lost cf1) \<subseteq># mset (cf_lost cf2)" using Step.hyps(2) by cases auto
  with Step.IH show ?case by (rule subset_mset.trans)
qed simp

text \<open>C31. A transaction of rewards that fails is not made up for. A handler that has claimed a milestone and whose write of
  the rewards fails ends there, and the rewards of this milestone stay unpaid in every state that any handlers reach from
  there, in any order, with any outcome of their own writes: what was written and what was lost here always fit together
  into what the referrals are due. When it was the wallet milestone, the referee never gets the welcome bonus.\<close>

theorem failed_reward_is_never_paid:
  assumes "no_referrals start" and "ref_reach start cf" and "cf_tasks cf = before @ t # after"
    and "t = WalletPay row k \<or> t = SendPay row \<or> t = DepositPay row"
    and "run_task now newId False t (cf_db cf) = (cont, db', lost)"
    and "ref_reach (cf\<lparr>cf_db := db', cf_tasks := before @ (case cont of Some t' \<Rightarrow> [t'] | None \<Rightarrow> []) @ after,
        cf_lost := cf_lost cf @ lost\<rparr>) cf'"
  shows "cont = None \<and> db' = cf_db cf \<and> lost \<noteq> [] \<and>
    mset (fd_rewards (cf_db cf')) + mset lost \<subseteq># all_due (fd_referrals (cf_db cf')) \<and>
    (t = WalletPay row k \<longrightarrow>
       count (mset (fd_rewards (cf_db cf'))) (reward (rf_refereeId (snd row)) REFEREE_WELCOME ''REFERRAL_SIGNUP_BONUS'') = 0)"
proof -
  have failed: "cont = None" "db' = cf_db cf" "lost = in_payment t" "lost \<noteq> []" using assms(4,5) by (auto simp: milestone_defs)
  have "ref_reach start cf'"
    using reach_trans [OF assms(6) ref_reach.Step [OF assms(2) ref_step.Proceeded [OF assms(3,5)]]] .
  with assms(1) have inv: "ref_inv cf'" by (blast intro: ref_reach_inv)
  have "mset lost \<subseteq># mset (cf_lost cf')" using subset_mset.trans [OF mset_subset_eq_add_right lost_for_good [OF assms(6), simplified]] by simp
  moreover have "mset (fd_rewards (cf_db cf')) + mset (cf_lost cf') \<subseteq># all_due (fd_referrals (cf_db cf'))"
    using inv unfolding ref_inv_def balanced_def by (metis add.commute add.left_commute mset_subset_eq_add_left)
  ultimately have sub: "mset (fd_rewards (cf_db cf')) + mset lost \<subseteq># all_due (fd_referrals (cf_db cf'))"
    by (meson subset_mset.add_left_mono subset_mset.trans)
  have "count (mset (fd_rewards (cf_db cf'))) (reward (rf_refereeId (snd row)) REFEREE_WELCOME ''REFERRAL_SIGNUP_BONUS'') = 0"
    if "t = WalletPay row k"
  proof -
    let ?w = "reward (rf_refereeId (snd row)) REFEREE_WELCOME ''REFERRAL_SIGNUP_BONUS''"
    have "0 < count (mset lost) ?w" using that failed(3) by (simp add: milestone_defs)
    moreover have "count (mset (fd_rewards (cf_db cf'))) ?w + count (mset lost) ?w \<le> 1"
      using mset_subset_eq_count [OF sub, of ?w] welcome_once [OF rows_okD(2)] inv unfolding ref_inv_def count_union by (meson le_trans)
    ultimately show ?thesis by linarith
  qed
  with failed sub show ?thesis by blast
qed

text \<open>The younger user's wallet is there, its rewards are lost; then a first send completes.\<close>

definition example_claimed :: referral_db where
  "example_claimed = example_referred\<lparr>fd_referrals := update_row ''r'' (mark_wallet 172800002) (fd_referrals example_referred)\<rparr>"

lemma example_under_way:
  "ref_reach \<lparr>cf_db = example_referrals, cf_tasks = [], cf_lost = []\<rparr>
     \<lparr>cf_db = example_claimed, cf_tasks = [WalletPay (hd (fd_referrals example_referred)) None], cf_lost = []\<rparr>"
proof -
  let ?start = "\<lparr>cf_db = example_referrals, cf_tasks = [], cf_lost = []\<rparr>"
  let ?at = "\<lambda>db t. \<lparr>cf_db = db, cf_tasks = [t], cf_lost = []\<rparr>"
  have step: "ref_reach ?start (?at db' t')" if "ref_reach ?start (?at db t)" "run_task now i ok t db = (Some t', db', [])" for db db' t t' now i ok
    using ref_reach.Step [OF that(1) ref_step.Proceeded [of "?at db t" "[]" t "[]" now i ok "Some t'" db' "[]"]] that(2)
    by simp
  have "ref_reach ?start \<lparr>cf_db = example_referred, cf_tasks = [], cf_lost = []\<rparr>"
    unfolding example_referred_def by (intro handler_reach ref_reach.Start)
  from ref_reach.Step [OF this ref_step.Called [of "Wallet ''b'' None"]]
  have "ref_reach ?start (?at example_referred (Wallet ''b'' None))" by simp
  from step [OF this, of 172800002 "''x''" True "WalletClaim (hd (fd_referrals example_referred)) None"]
  have "ref_reach ?start (?at example_referred (WalletClaim (hd (fd_referrals example_referred)) None))"
    by (simp add: example_referred_row referral_of_def new_referral_def)
  from step [OF this, of 172800002 "''x''" True "WalletPay (hd (fd_referrals example_referred)) None" example_claimed]
  show ?thesis
    by (simp add: example_claimed_def example_referred_row claim_milestone_def updateMany_def new_referral_def update_row_def)
qed

theorem failed_reward_is_never_paid_witness:
  "let db = snd (markFirstSend True True 172800004 ''b'' 6 example_claimed)
   in map rw_points (fd_rewards db) = [25] \<and>
      count (mset (fd_rewards db)) (reward ''b'' REFEREE_WELCOME ''REFERRAL_SIGNUP_BONUS'') = 0"
proof -
  let ?row = "hd (fd_referrals example_referred)"
  let ?lost = "wallet_rewards (snd ?row)"
  let ?db = "snd (markFirstSend True True 172800004 ''b'' 6 example_claimed)"
  have later: "ref_reach \<lparr>cf_db = example_claimed, cf_tasks = [], cf_lost = ?lost\<rparr> \<lparr>cf_db = ?db, cf_tasks = [], cf_lost = ?lost\<rparr>"
    by (rule handler_reach(2) [OF ref_reach.Start])
  have "rf_refereeId (snd ?row) = ''b''" by (simp add: example_referred_row new_referral_def)
  moreover have "map rw_points (fd_rewards ?db) = [25]" unfolding example_claimed_def example_referred_def by code_simp
  ultimately show ?thesis
    using failed_reward_is_never_paid [OF example_start example_under_way, where before = "[]" and after = "[]" and row = ?row and k = None
        and t = "WalletPay ?row None" and cont = None and lost = ?lost and db' = example_claimed and cf' = "\<lparr>cf_db = ?db, cf_tasks = [], cf_lost = ?lost\<rparr>"]
      later by simp
qed

end
