(* ===== verification/Paging.thy ===== *)
theory Paging
  imports Backend "HOL-Library.Multiset" "HOL-Library.List_Lexorder" "HOL-Library.Char_ord"
begin

text \<open>
  The loop in which the scheduled jobs read a table page by page: at most \<open>n\<close> rows in the order of their
  identifiers, after the last row of the page before, until a page is empty or not full. It is a loop without a
  bound in the code, so its model may fail to return. Between two of its accesses to the table others may write: the
  loop takes what they do there as an argument. The interface \<open>shared_pages\<close> states when the loop returns all the same,
  and that it visits no row twice; \<open>steady_pages\<close> adds that no row stops matching, and then none is left out;
  \<open>paging\<close> is the loop on its own.
\<close>

section \<open>Reading a page\<close>

text \<open>\<open>findMany({ where, orderBy: { id: 'asc' }, take: n, cursor, skip: 1 })\<close>, on the rows that match.\<close>

definition in_id_order :: "'r table \<Rightarrow> 'r table" where
  "in_id_order t = sort_key fst t"

definition find_page :: "nat \<Rightarrow> string option \<Rightarrow> 'r table \<Rightarrow> 'r table" where
  "find_page n cursor t =
     take n (case cursor of None \<Rightarrow> t | Some c \<Rightarrow> drop 1 (filter (\<lambda>row. c \<le> fst row) t))"

text \<open>\<open>others cursor\<close> is what others do to the state before the page after \<open>cursor\<close> is read; what they do while a page is
  visited is part of \<open>visit\<close>. The rows that were visited are returned, in order, with the state.\<close>

partial_function (option) each_page ::
    "nat \<Rightarrow> ('s \<Rightarrow> 'r table) \<Rightarrow> ('r table \<Rightarrow> 's \<Rightarrow> 's) \<Rightarrow> (string option \<Rightarrow> 's \<Rightarrow> 's) \<Rightarrow> string option \<Rightarrow> 's \<Rightarrow>
     ('r table \<times> 's) option" where
  "each_page n rows visit others cursor s =
     (let s0 = others cursor s; page = find_page n cursor (rows s0) in
      if page = [] then Some ([], s0)
      else let s' = visit page s0 in
        if length page < n then Some (page, s')
        else Option.bind (each_page n rows visit others (Some (fst (last page))) s') (\<lambda>(seen, s''). Some (page @ seen, s'')))"

lemma each_page_ends:
  assumes "find_page n cursor (rows (others cursor s)) = page" and "page = [] \<or> length page < n"
  shows "each_page n rows visit others cursor s = Some (page, if page = [] then others cursor s else visit page (others cursor s))"
  using assms by (subst each_page.simps) (auto simp: Let_def)

lemma each_page_goes_on:
  assumes "find_page n cursor (rows (others cursor s)) = page" and "\<not> (page = [] \<or> length page < n)"
  shows "each_page n rows visit others cursor s = Option.bind
    (each_page n rows visit others (Some (fst (last page))) (visit page (others cursor s))) (\<lambda>(seen, s'). Some (page @ seen, s'))"
  using assms by (subst each_page.simps) (simp add: Let_def)

abbreviation keys_of :: "'r table \<Rightarrow> string set" where
  "keys_of t \<equiv> fst ` set t"

fun after_cursor :: "string option \<Rightarrow> string \<Rightarrow> bool" where
  "after_cursor None i = True"
| "after_cursor (Some c) i = (c < i)"

lemma find_page_subset: "set (find_page n cursor t) \<subseteq> set t"
proof (cases cursor)
  case None
  then show ?thesis by (simp add: find_page_def set_take_subset)
next
  case (Some c)
  have "set (take n (drop 1 (filter P t))) \<subseteq> set t" for P
    using set_take_subset [of n] set_drop_subset [of 1] filter_is_subset [of P t] by (meson order_trans)
  then show ?thesis by (simp add: Some find_page_def)
qed

lemma find_page_sorted:
  assumes "sorted_wrt (<) (map fst t)"
  shows "sorted_wrt (<) (map fst (find_page n cursor t))"
proof -
  have "sorted_wrt (<) (map fst (filter P t))" for P using assms by (simp add: sorted_wrt_map sorted_wrt_filter)
  then show ?thesis
    using assms by (auto simp: find_page_def take_map [symmetric] drop_map [symmetric] sorted_wrt_take sorted_wrt_drop split: option.split)
qed

lemma find_page_after:
  assumes "sorted_wrt (<) (map fst t)" and "i \<in> keys_of (find_page n cursor t)"
  shows "after_cursor cursor i"
proof (cases cursor)
  case (Some c)
  let ?rows = "filter (\<lambda>row. c \<le> fst row) t"
  have "sorted_wrt (<) (map fst ?rows)" using assms(1) by (simp add: sorted_wrt_map sorted_wrt_filter)
  moreover obtain row where "row \<in> set (drop 1 ?rows)" "i = fst row"
    using assms(2) by (auto simp: Some find_page_def dest: in_set_takeD)
  ultimately show ?thesis using Some by (cases ?rows) (auto simp: filter_eq_Cons_iff intro: le_less_trans)
qed simp

lemma find_page_all_after:
  assumes "sorted_wrt (<) (map fst t)" and "\<forall>c. cursor = Some c \<longrightarrow> c \<in> keys_of t"
  shows "find_page n cursor t = take n (filter (\<lambda>row. after_cursor cursor (fst row)) t)"
proof (cases cursor)
  case (Some c)
  then obtain a r b where t: "t = a @ (c, r) # b" using assms(2) by (force dest: split_list)
  then have "\<forall>row \<in> set a. fst row < c" "\<forall>row \<in> set b. c < fst row" using assms(1) by (auto simp: sorted_wrt_append)
  then have "filter (\<lambda>row. c \<le> fst row) a = []" "filter (\<lambda>row. c < fst row) a = []"
    "filter (\<lambda>row. c \<le> fst row) b = b" "filter (\<lambda>row. c < fst row) b = b"
    by (auto simp: filter_empty_conv filter_id_conv order.strict_iff_not)
  then show ?thesis by (simp add: Some t find_page_def)
qed (simp add: find_page_def)

text \<open>A cursor whose row does not match any more: \<open>skip: 1\<close> passes over the next row instead.\<close>

lemma find_page_skips:
  assumes "c \<notin> keys_of t" and "filter (\<lambda>row. c < fst row) t = row # rest"
  shows "find_page n (Some c) t = take n rest"
proof -
  have "filter (\<lambda>row. c \<le> fst row) t = filter (\<lambda>row. c < fst row) t" using assms(1) by (auto simp: le_less intro: filter_cong)
  with assms(2) show ?thesis by (simp add: find_page_def)
qed

section \<open>The interfaces\<close>

locale shared_pages =
  fixes n :: nat
    and rows :: "'s \<Rightarrow> 'r table"
    and visit :: "'r table \<Rightarrow> 's \<Rightarrow> 's"
    and others :: "string option \<Rightarrow> 's \<Rightarrow> 's"
    and good :: "'s \<Rightarrow> bool"
    and X :: "string set"
    and ok :: "string \<times> 'r \<Rightarrow> bool"
  assumes some: "0 < n"
    and ordered: "good s \<Longrightarrow> sorted_wrt (<) (map fst (rows s))"
    and bounded: "good s \<Longrightarrow> finite X"
    and named: "good s \<Longrightarrow> keys_of (rows s) \<subseteq> X"
    and matching: "good s \<Longrightarrow> row \<in> set (rows s) \<Longrightarrow> ok row"
    and good_visit: "good s \<Longrightarrow> good (visit page s)"
    and good_others: "good s \<Longrightarrow> good (others cursor s)"
begin

definition ahead :: "string option \<Rightarrow> nat" where
  "ahead cursor = card {i \<in> X. after_cursor cursor i}"

text \<open>The cursor moves on over a finite set of identifiers, whatever others do.\<close>

lemma moves_on:
  assumes "good s" and "find_page n cursor (rows s) = page" and "page \<noteq> []"
  shows "ahead (Some (fst (last page))) < ahead cursor" "after_cursor cursor (fst (last page))"
    "\<And>i. i \<in> keys_of page \<Longrightarrow> i \<le> fst (last page)" "\<And>i. fst (last page) < i \<Longrightarrow> after_cursor cursor i"
proof -
  have "last page \<in> set page" using assms(3) by simp
  then have X: "fst (last page) \<in> X" and after: "after_cursor cursor (fst (last page))"
    using assms(2) find_page_subset [of n cursor "rows s"] named [OF assms(1)] find_page_after [OF ordered [OF assms(1)], of _ n cursor] by auto
  have later: "after_cursor cursor i" if "fst (last page) < i" for i using after that by (cases cursor) auto
  have "{i \<in> X. after_cursor (Some (fst (last page))) i} \<subset> {i \<in> X. after_cursor cursor i}" using X after later by auto
  with bounded [OF assms(1)] show "ahead (Some (fst (last page))) < ahead cursor" unfolding ahead_def by (intro psubset_card_mono) auto
  show "after_cursor cursor (fst (last page))" "\<And>i. fst (last page) < i \<Longrightarrow> after_cursor cursor i" using after later by auto
  have "sorted_wrt (<) (map fst page)" using find_page_sorted [OF ordered [OF assms(1)]] assms(2) by metis
  with assms(3) show "i \<le> fst (last page)" if "i \<in> keys_of page" for i
    using that by (cases page rule: rev_cases) (auto simp: sorted_wrt_append less_imp_le)
qed

lemma returns_in_order:
  "good s \<Longrightarrow> \<exists>seen s'. each_page n rows visit others cursor s = Some (seen, s') \<and> good s' \<and>
     sorted_wrt (<) (map fst seen) \<and> (\<forall>i \<in> keys_of seen. after_cursor cursor i) \<and> (\<forall>row \<in> set seen. ok row)"
proof (induction "ahead cursor" arbitrary: s cursor rule: less_induct)
  case less
  let ?s = "others cursor s"
  let ?page = "find_page n cursor (rows ?s)"
  note good = good_others [OF less.prems, of cursor]
  note order = find_page_sorted [OF ordered [OF good]] and after = find_page_after [OF ordered [OF good]]
  have ok: "\<forall>row \<in> set ?page. ok row" using find_page_subset matching [OF good] by blast
  show ?case
  proof (cases "?page = [] \<or> length ?page < n")
    case True
    moreover have "\<forall>i \<in> keys_of ?page. after_cursor cursor i" using after by blast
    ultimately show ?thesis
      unfolding each_page_ends [of n cursor rows others s, OF refl True] using order ok good_visit [OF good] good by simp
  next
    case False
    note moved = moves_on [OF good refl]
    from less.hyps [OF moved(1) good_visit [OF good, of ?page]] False obtain seen s' where
      run: "each_page n rows visit others (Some (fst (last ?page))) (visit ?page ?s) = Some (seen, s')" and s': "good s'"
      and seen: "sorted_wrt (<) (map fst seen)" "\<forall>i \<in> keys_of seen. fst (last ?page) < i" "\<forall>row \<in> set seen. ok row" by auto
    have "sorted_wrt (<) (map fst ?page @ map fst seen)"
      unfolding sorted_wrt_append
    proof (intro conjI ballI)
      fix i j assume "i \<in> set (map fst ?page)" "j \<in> set (map fst seen)"
      then have "i \<le> fst (last ?page)" "fst (last ?page) < j" using moved(3) seen(2) False by auto
      then show "i < j" by (rule le_less_trans)
    qed (use order seen(1) in blast)+
    moreover have "\<forall>i \<in> keys_of (?page @ seen). after_cursor cursor i"
      unfolding set_append image_Un using after moved(4) seen(2) False by blast
    moreover have "\<forall>row \<in> set (?page @ seen). ok row" using seen(3) ok by auto
    ultimately show ?thesis
      unfolding each_page_goes_on [of n cursor rows others s, OF refl False] run by (simp add: s' del: set_append)
  qed
qed

text \<open>When the row of the cursor has stopped matching, the next row is not visited, in this page or later.\<close>

lemma passed_over:
  assumes "good s" and "c \<notin> keys_of (rows (others (Some c) s))"
    and "filter (\<lambda>row. c < fst row) (rows (others (Some c) s)) = (i, r) # rest"
  shows "\<exists>seen s'. each_page n rows visit others (Some c) s = Some (seen, s') \<and> i \<notin> keys_of seen"
proof -
  let ?s = "others (Some c) s"
  let ?page = "find_page n (Some c) (rows ?s)"
  note good = good_others [OF assms(1), of "Some c"]
  have "sorted_wrt (<) (map fst ((i, r) # rest))"
    unfolding assms(3) [symmetric] using ordered [OF good] by (simp add: sorted_wrt_map sorted_wrt_filter)
  then have later: "\<forall>j \<in> keys_of ?page. i < j" by (auto simp: find_page_skips [OF assms(2,3)] dest: in_set_takeD)
  show ?thesis
  proof (cases "?page = [] \<or> length ?page < n")
    case True
    with later show ?thesis unfolding each_page_ends [of n "Some c" rows others s, OF refl True] by blast
  next
    case False
    then have "fst (last ?page) \<in> keys_of ?page" by simp
    with later have "i < fst (last ?page)" by blast
    moreover from returns_in_order [OF good_visit [OF good, of ?page], of "Some (fst (last ?page))"]
    obtain seen s' where run: "each_page n rows visit others (Some (fst (last ?page))) (visit ?page ?s) = Some (seen, s')"
      and "\<forall>j \<in> keys_of seen. fst (last ?page) < j" by auto
    ultimately have "i \<notin> keys_of (?page @ seen)" using later by (metis Un_iff image_Un less_asym less_irrefl set_append)
    then show ?thesis unfolding each_page_goes_on [of n "Some c" rows others s, OF refl False] run by (simp del: set_append)
  qed
qed

end

text \<open>Rows may start to match, but none stops.\<close>

locale steady_pages = shared_pages +
  assumes steady_visit: "good s \<Longrightarrow> keys_of (rows s) \<subseteq> keys_of (rows (visit page s))"
    and steady_others: "good s \<Longrightarrow> keys_of (rows s) \<subseteq> keys_of (rows (others cursor s))"
begin

lemma none_left_out:
  "good s \<Longrightarrow> \<forall>c. cursor = Some c \<longrightarrow> c \<in> keys_of (rows s) \<Longrightarrow> i \<in> keys_of (rows s) \<Longrightarrow> after_cursor cursor i \<Longrightarrow>
     each_page n rows visit others cursor s = Some (seen, s') \<Longrightarrow> i \<in> keys_of seen"
proof (induction "ahead cursor" arbitrary: s cursor seen s' rule: less_induct)
  case less
  let ?s = "others cursor s"
  let ?left = "filter (\<lambda>row. after_cursor cursor (fst row)) (rows ?s)"
  note good = good_others [OF less.prems(1), of cursor] and stay = steady_others [OF less.prems(1), of cursor]
  have page: "find_page n cursor (rows ?s) = take n ?left"
    using find_page_all_after [OF ordered [OF good]] less.prems(2) stay by blast
  have i: "i \<in> keys_of ?left" using less.prems(3,4) stay by force
  then have some_left: "?left \<noteq> []" by (metis empty_iff image_empty list.set(1))
  let ?page = "take n ?left"
  show ?case
  proof (cases "length ?left < n")
    case True
    with each_page_ends [of n cursor rows others s, OF page] less.prems(5) i show ?thesis by simp
  next
    case full: False
    then have nonempty: "?page \<noteq> []" "length ?page = n" using some by auto
    with each_page_goes_on [of n cursor rows others s, OF page] less.prems(5) obtain rest s'' where seen: "seen = ?page @ rest" and
      run: "each_page n rows visit others (Some (fst (last ?page))) (visit ?page ?s) = Some (rest, s'')"
      by (auto simp: bind_eq_Some_conv)
    show ?thesis
    proof (cases "i \<in> keys_of ?page")
      case False
      have "sorted_wrt (<) (map fst ?left)" using ordered [OF good] by (simp add: sorted_wrt_map sorted_wrt_filter)
      then have "sorted_wrt (<) (map fst ?page @ map fst (drop n ?left))" by (metis append_take_drop_id map_append)
      then have "\<forall>x \<in> keys_of ?page. \<forall>y \<in> keys_of (drop n ?left). x < y" unfolding sorted_wrt_append by simp
      moreover have "i \<in> keys_of (drop n ?left)" using i False by (metis Un_iff append_take_drop_id image_Un set_append)
      moreover have last: "last ?page \<in> set ?page" using nonempty by simp
      ultimately have "fst (last ?page) < i" by blast
      have kept: "keys_of (rows s) \<subseteq> keys_of (rows (visit ?page ?s))" "keys_of (rows ?s) \<subseteq> keys_of (rows (visit ?page ?s))"
        using steady_visit [OF good] stay by blast+
      have "fst (last ?page) \<in> keys_of (rows ?s)" using last by (force dest: in_set_takeD)
      with kept less.prems(3) \<open>fst (last ?page) < i\<close> have "i \<in> keys_of rest"
        by (intro less.hyps [OF moves_on(1) [OF good page nonempty(1)] good_visit [OF good] _ _ _ run]) auto
      then show ?thesis by (simp add: seen image_Un)
    qed (simp add: seen image_Un)
  qed
qed

end

text \<open>The loop on its own.\<close>

locale paging =
  fixes n :: nat
    and rows :: "'s \<Rightarrow> 'r table"
    and visit :: "'r table \<Rightarrow> 's \<Rightarrow> 's"
    and good :: "'s \<Rightarrow> bool"
  assumes some: "0 < n"
    and ordered: "good s \<Longrightarrow> sorted_wrt (<) (map fst (rows s))"
    and good_kept: "good s \<Longrightarrow> good (visit page s)"
    and rows_kept: "rows (visit page s) = rows s"
    and visit_empty: "visit [] s = s"
    and in_pages: "distinct (map fst (a @ b)) \<Longrightarrow> visit (a @ b) s = visit b (visit a s)"
begin

lemma page_after:
  assumes "sorted_wrt (<) (map fst (before @ (c, r) # rest))"
  shows "find_page n (Some c) (before @ (c, r) # rest) = take n rest"
proof -
  have "\<forall>row \<in> set before. fst row < c" "\<forall>row \<in> set rest. c < fst row"
    using assms by (auto simp: sorted_wrt_append)
  then have "filter (\<lambda>row. c \<le> fst row) before = []" "filter (\<lambda>row. c \<le> fst row) rest = rest"
    by (auto simp: filter_empty_conv filter_id_conv order.strict_iff_not)
  then show ?thesis by (simp add: find_page_def)
qed

lemma loop_from:
  "good s \<Longrightarrow> rows s = before @ rest \<Longrightarrow> cursor = (if before = [] then None else Some (fst (last before)))
     \<Longrightarrow> each_page n rows visit (\<lambda>_ s. s) cursor s = Some (rest, visit rest s)"
proof (induction "length rest" arbitrary: s before rest cursor rule: less_induct)
  case less
  have page: "find_page n cursor (rows s) = take n rest"
  proof (cases before rule: rev_cases)
    case Nil
    with less.prems show ?thesis by (simp add: find_page_def)
  next
    case (snoc init row)
    with less.prems ordered [OF less.prems(1)] page_after [of init "fst row" "snd row" rest] show ?thesis by simp
  qed
  show ?case
  proof (cases "rest = []")
    case True
    with page show ?thesis by (subst each_page.simps) (simp add: visit_empty)
  next
    case False
    show ?thesis
    proof (cases "length rest < n")
      case True
      with page False show ?thesis using some by (subst each_page.simps) (simp add: Let_def)
    next
      case full: False
      let ?page = "take n rest" and ?rest = "drop n rest"
      have taken: "?page \<noteq> []" "length ?rest < length rest" "length ?page = n" using False full some by auto
      have "distinct (map fst (before @ rest))"
        using ordered [OF less.prems(1)] less.prems(2) strict_sorted_iff by metis
      then have "distinct (map fst (?page @ ?rest))" by simp
      then have whole: "visit rest s = visit ?rest (visit ?page s)" using in_pages [of ?page ?rest] by simp
      have "each_page n rows visit (\<lambda>_ s. s) (Some (fst (last ?page))) (visit ?page s) =
          Some (?rest, visit ?rest (visit ?page s))"
        by (rule less.hyps [where before = "before @ ?page"])
          (use taken less.prems in \<open>simp_all add: good_kept rows_kept\<close>)
      with page taken whole show ?thesis by (subst each_page.simps) (simp add: Let_def)
    qed
  qed
qed

text \<open>The loop returns, after as many pages as it takes, and has visited all rows.\<close>

lemma returns_after_all: "good s \<Longrightarrow> each_page n rows visit (\<lambda>_ s. s) None s = Some (rows s, visit (rows s) s)"
  by (rule loop_from [where before = "[]"]) simp_all

end

lemma ids_ordered: "keys_unique t \<Longrightarrow> sorted_wrt (<) (map fst (in_id_order (filter c t)))"
proof -
  assume "keys_unique t"
  then have "distinct (map fst (filter c t))" by (induction t) (auto simp: keys_unique_def)
  moreover have "sorted (map fst (in_id_order (filter c t)))" by (simp add: in_id_order_def)
  moreover have "mset (map fst (in_id_order (filter c t))) = mset (map fst (filter c t))" by (simp add: in_id_order_def)
  ultimately show ?thesis by (simp add: strict_sorted_iff in_id_order_def distinct_map)
qed

end
