(* ===== verification/Notifications.thy ===== *)
theory Notifications
  imports Paging Dates
begin

text \<open>
  \<open>backend/src/notifications/notifications.service.ts\<close>, the routing of \<open>unified-notification.service.ts\<close> and the
  win-back job \<open>growth/dormant-user-winback.cron.ts\<close>. Preferences are objects with boolean fields, so they are
  maps from field names; spreading one object over another is \<open>++\<close>. Which of the database accesses that the code
  guards with \<open>try\<close> succeed is an argument. The texts for each platform and the replacement of identifiers by
  names inside them are left out; what leaves the service is a list of platforms and addresses.
\<close>

section \<open>Rows\<close>

datatype NotificationCategory = socialProof | spending | saving | virality | reputation

definition category_field :: "NotificationCategory \<Rightarrow> string" where
  "category_field c = (case c of socialProof \<Rightarrow> ''socialProof'' | spending \<Rightarrow> ''spending'' | saving \<Rightarrow> ''saving''
     | virality \<Rightarrow> ''virality'' | reputation \<Rightarrow> ''reputation'')"

record notif_user =
  nu_username :: "string option"
  nu_email :: "string option"
  nu_telegramId :: "string option"
  nu_telegramChatId :: "string option"
  nu_whatsappId :: "string option"
  nu_discordId :: "string option"
  nu_slackId :: "string option"
  nu_address :: "string option"
  nu_socialNodes :: "(string \<times> string) list"
  nu_createdAt :: date
  nu_active :: bool

record NotificationLog =
  nl_userId :: string
  nl_category :: NotificationCategory
  nl_type :: string
  nl_sentAt :: date

record Notification =
  nt_userId :: string
  nt_type :: string
  nt_title :: string
  nt_body :: string
  nt_read :: bool

record InteractionStreak =
  sk_userId :: string
  sk_lastActiveAt :: date
  sk_currentStreak :: int

record notif_db =
  nd_users :: "notif_user table"
  nd_memory :: "string \<rightharpoonup> (string \<rightharpoonup> bool)"
  nd_preferences :: "string \<rightharpoonup> (string \<rightharpoonup> bool)"
  nd_log :: "NotificationLog list"
  nd_rows :: "Notification table"
  nd_streaks :: "InteractionStreak table"
  nd_activity :: "(string \<times> date) list"
  nd_sent :: "(string \<times> string) list"

text \<open>Which guarded accesses succeed, and which bots and webhooks are configured.\<close>

record notif_env =
  ne_readOk :: bool
  ne_countOk :: bool
  ne_logOk :: bool
  ne_rowOk :: bool
  ne_telegramBot :: bool
  ne_whatsappBot :: bool
  ne_discordBot :: bool
  ne_slackBot :: bool
  ne_discordWebhook :: "string option"
  ne_slackWebhook :: "string option"

record CreateNotificationDto =
  cn_userId :: string
  cn_type :: string
  cn_title :: string
  cn_body :: string
  cn_suppressPlatformPush :: bool

section \<open>Preferences\<close>

definition default_preferences :: "string \<rightharpoonup> bool" where
  "default_preferences = map_of (map (\<lambda>f. (f, True)) [''socialProof'', ''spending'', ''saving'', ''virality'', ''reputation'',
     ''telegramNotifications'', ''whatsappNotifications'', ''discordNotifications'', ''slackNotifications'',
     ''webPushNotifications''])"

definition getUserPreferences :: "notif_env \<Rightarrow> string \<Rightarrow> notif_db \<Rightarrow> (string \<rightharpoonup> bool)" where
  "getUserPreferences E userId db =
     (case nd_memory db userId of
        Some prefs \<Rightarrow> default_preferences ++ prefs
      | None \<Rightarrow>
          if ne_readOk E then (case nd_preferences db userId of Some prefs \<Rightarrow> default_preferences ++ prefs
                                                              | None \<Rightarrow> default_preferences)
          else default_preferences)"

definition updateUserPreferences ::
    "notif_env \<Rightarrow> string \<Rightarrow> (string \<rightharpoonup> bool) \<Rightarrow> notif_db \<Rightarrow> (string \<rightharpoonup> bool) \<times> notif_db" where
  "updateUserPreferences E userId prefs db =
     (let updated = getUserPreferences E userId db ++ prefs in
      (updated, db\<lparr>nd_memory := (nd_memory db)(userId \<mapsto> updated),
                  nd_preferences := (if ne_rowOk E then (nd_preferences db)(userId \<mapsto> updated) else nd_preferences db)\<rparr>))"

definition truthy :: "bool option \<Rightarrow> bool" where "truthy x \<longleftrightarrow> x = Some True"

section \<open>Frequency caps\<close>

definition DAY :: int where "DAY = 24 * 60 * 60 * 1000"

definition log_count :: "string \<Rightarrow> NotificationCategory \<Rightarrow> string option \<Rightarrow> date \<Rightarrow> notif_db \<Rightarrow> nat" where
  "log_count userId category only since db =
     length (filter (\<lambda>e. nl_userId e = userId \<and> nl_category e = category \<and> (only = None \<or> only = Some (nl_type e)) \<and>
       since \<le> nl_sentAt e) (nd_log db))"

definition over_cap :: "date \<Rightarrow> string \<Rightarrow> NotificationCategory \<Rightarrow> string \<Rightarrow> notif_db \<Rightarrow> bool" where
  "over_cap now userId category type db =
     (case category of
        socialProof \<Rightarrow> 3 \<le> log_count userId category None (now - 7 * DAY) db
      | spending \<Rightarrow> 2 \<le> log_count userId category None (now - DAY) db
      | saving \<Rightarrow> 1 \<le> log_count userId category None (now - DAY) db
      | virality \<Rightarrow>
          if type = ''DOUBLE_REWARD'' then 1 \<le> log_count userId category (Some ''DOUBLE_REWARD'') (now - 30 * DAY) db
          else 2 \<le> log_count userId category None (now - DAY) db
      | reputation \<Rightarrow> 2 \<le> log_count userId category None (now - DAY) db)"

definition shouldSend :: "notif_env \<Rightarrow> date \<Rightarrow> string \<Rightarrow> NotificationCategory \<Rightarrow> string \<Rightarrow> notif_db \<Rightarrow> bool" where
  "shouldSend E now userId category type db \<longleftrightarrow>
     getUserPreferences E userId db (category_field category) \<noteq> Some False \<and>
     (ne_countOk E \<longrightarrow> \<not> over_cap now userId category type db)"

section \<open>Notifications\<close>

definition insensitive :: "string option \<Rightarrow> string \<Rightarrow> bool" where
  "insensitive x y \<longleftrightarrow> map_option toLowerCase x = Some (toLowerCase y)"

definition first_user :: "(string \<Rightarrow> notif_user \<Rightarrow> bool) \<Rightarrow> notif_db \<Rightarrow> string option" where
  "first_user c db = map_option fst (find (\<lambda>(i, u). c i u) (nd_users db))"

definition resolveValidUserId :: "notif_env \<Rightarrow> string \<Rightarrow> notif_db \<Rightarrow> string option" where
  "resolveValidUserId E identifier db =
     (if identifier = [] \<or> \<not> ne_readOk E then None
      else if findUnique (nd_users db) identifier \<noteq> None then Some identifier
      else first_user (\<lambda>i u. nu_username u = Some (strip_at identifier) \<or> nu_telegramId u = Some identifier \<or>
             nu_whatsappId u = Some identifier \<or> nu_discordId u = Some identifier \<or> nu_slackId u = Some identifier \<or>
             insensitive (nu_address u) identifier \<or> (\<exists>n \<in> set (nu_socialNodes u). snd n = identifier)) db)"

definition NotificationTypes :: "string list" where
  "NotificationTypes = [''TRANSACTION_SENT'', ''TRANSACTION_RECEIVED'', ''YIELD_EARNED'', ''SPLIT_REQUEST'', ''ENVELOPE_CLAIMED'',
     ''REFERRAL_REWARD'', ''SUBSCRIPTION_DUE'', ''POOL_INVITATION'', ''POOL_LOAN_REQUESTED'', ''POOL_LOAN_APPROVED'',
     ''POOL_LOAN_REPAID'', ''BADGE_EARNED'', ''VAULT_DEPOSIT'', ''VAULT_WITHDRAWAL'', ''ENVELOPE_CREATED'', ''MONEY_RECEIVED'',
     ''MONEY_SENT'', ''SUBSCRIPTION_SUCCESS'', ''SUBSCRIPTION_FAILED'', ''ADMIN_ALERT'', ''SPLIT_PAID'', ''SPLIT_COMPLETED'',
     ''SYSTEM'']"

definition mapNotificationType :: "string \<Rightarrow> string" where
  "mapNotificationType type =
     (if type = [] then ''SYSTEM'' else if toUpperCase type \<in> set NotificationTypes then toUpperCase type else ''SYSTEM'')"

definition telegram_chat :: "string \<Rightarrow> notif_db \<Rightarrow> string option" where
  "telegram_chat userId db =
     (if startsWith userId ''tg_'' then Some (drop 3 userId)
      else case findUnique (nd_users db) userId of
        None \<Rightarrow> None
      | Some u \<Rightarrow> (case nu_telegramChatId u of Some x \<Rightarrow> if x = [] then nu_telegramId u else Some x | None \<Rightarrow> nu_telegramId u))"

definition nonempty :: "string option \<Rightarrow> string list" where
  "nonempty x = (case x of Some s \<Rightarrow> if s = [] then [] else [s] | None \<Rightarrow> [])"

definition dispatchMultiPlatformPush :: "notif_env \<Rightarrow> string \<Rightarrow> notif_db \<Rightarrow> (string \<times> string) list" where
  "dispatchMultiPlatformPush E userId db =
     (let prefs = getUserPreferences E userId db in
      (if truthy (prefs ''telegramNotifications'') \<and> ne_telegramBot E
       then map (Pair ''telegram'') (nonempty (telegram_chat userId db)) else []) @
      (if truthy (prefs ''discordNotifications'') then map (Pair ''discord'') (nonempty (ne_discordWebhook E)) else []) @
      (if truthy (prefs ''slackNotifications'') then map (Pair ''slack'') (nonempty (ne_slackWebhook E)) else []))"

definition createNotification :: "notif_env \<Rightarrow> string \<Rightarrow> CreateNotificationDto \<Rightarrow> notif_db \<Rightarrow> Notification \<times> notif_db" where
  "createNotification E newId dto db =
     (let target = resolveValidUserId E (cn_userId dto) db;
          stored = target \<noteq> None \<and> ne_rowOk E;
          notification = \<lparr>nt_userId = (if stored then the target else cn_userId dto), nt_type = mapNotificationType (cn_type dto),
             nt_title = cn_title dto, nt_body = cn_body dto, nt_read = False\<rparr>
      in (notification, db\<lparr>nd_rows := (if stored then create_row newId notification (nd_rows db) else nd_rows db),
            nd_sent := nd_sent db @ [(''web'', cn_userId dto)] @
              (if cn_suppressPlatformPush dto then [] else dispatchMultiPlatformPush E (cn_userId dto) db)\<rparr>))"

definition log_entry :: "string \<Rightarrow> NotificationCategory \<Rightarrow> string \<Rightarrow> date \<Rightarrow> notif_db \<Rightarrow> notif_db" where
  "log_entry userId category type now db =
     db\<lparr>nd_log := nd_log db @ [\<lparr>nl_userId = userId, nl_category = category, nl_type = type, nl_sentAt = now\<rparr>]\<rparr>"

definition sendIfAllowed ::
    "notif_env \<Rightarrow> date \<Rightarrow> string \<Rightarrow> string \<Rightarrow> NotificationCategory \<Rightarrow> CreateNotificationDto \<Rightarrow> notif_db
     \<Rightarrow> Notification option \<times> notif_db" where
  "sendIfAllowed E now newId userId category dto db =
     (if \<not> shouldSend E now userId category (cn_type dto) db then (None, db)
      else
        let db1 = (case resolveValidUserId E userId db of
                     Some u \<Rightarrow> if ne_logOk E then log_entry u category (cn_type dto) now db else db
                   | None \<Rightarrow> db)
        in map_prod Some id (createNotification E newId dto db1))"

section \<open>Reading\<close>

definition notifications_of :: "string \<Rightarrow> bool option \<Rightarrow> notif_db \<Rightarrow> Notification table" where
  "notifications_of userId read db =
     filter (\<lambda>(i, n). nt_userId n = userId \<and> (read = None \<or> read = Some (nt_read n))) (nd_rows db)"

text \<open>The newest come first; a page or a limit of zero means the default.\<close>

definition findNotificationsForUser :: "string \<Rightarrow> bool option \<Rightarrow> nat option \<Rightarrow> nat option \<Rightarrow> notif_db
     \<Rightarrow> Notification table \<times> nat \<times> nat" where
  "findNotificationsForUser userId read limit page db =
     (let pageNum = (case page of Some p \<Rightarrow> if p = 0 then 1 else p | None \<Rightarrow> 1);
          limitNum = (case limit of Some l \<Rightarrow> if l = 0 then 20 else l | None \<Rightarrow> 20);
          found = notifications_of userId read db
      in (take limitNum (drop ((pageNum - 1) * limitNum) (rev found)), length found, (length found + limitNum - 1) div limitNum))"

definition getUnreadCount :: "string \<Rightarrow> notif_db \<Rightarrow> nat" where
  "getUnreadCount userId db = length (notifications_of userId (Some False) db)"

definition markAsRead :: "string \<Rightarrow> string \<Rightarrow> notif_db \<Rightarrow> notif_db" where
  "markAsRead i userId db =
     db\<lparr>nd_rows := snd (updateMany i (\<lambda>n. nt_userId n = userId) (\<lambda>n. n\<lparr>nt_read := True\<rparr>) (nd_rows db))\<rparr>"

definition markAllAsRead :: "string \<Rightarrow> notif_db \<Rightarrow> notif_db" where
  "markAllAsRead userId db =
     db\<lparr>nd_rows := map (\<lambda>(i, n). if nt_userId n = userId \<and> \<not> nt_read n then (i, n\<lparr>nt_read := True\<rparr>) else (i, n)) (nd_rows db)\<rparr>"

section \<open>The streak saver\<close>

text \<open>A scheduled job awaits the database between its accesses, and others write in the meantime. A run takes what they do as an
  argument, for each point at which the job is cut: before it reads the page after a cursor, before it reads the last
  activities and messages of the users of a page, before it turns to a row, and before it writes the marker of a win-back.
  What the job does for one row up to there is one step.\<close>

datatype job_point = BeforePage "string option" | BeforeBatch "string list" | BeforeRow string | BeforeMark string

type_synonym others = "job_point \<Rightarrow> notif_db \<Rightarrow> notif_db"

abbreviation alone :: others where
  "alone \<equiv> \<lambda>_ db. db"

definition streak_rows :: "date \<Rightarrow> notif_db \<Rightarrow> InteractionStreak table" where
  "streak_rows cutoff db =
     in_id_order (filter (\<lambda>(i, r). sk_lastActiveAt r \<le> cutoff \<and> 1 \<le> sk_currentStreak r) (nd_streaks db))"

definition streak_reminder :: "string \<Rightarrow> CreateNotificationDto" where
  "streak_reminder userId =
     \<lparr>cn_userId = userId, cn_type = ''SYSTEM'', cn_title = ''Streak Saver Reminder!'',
      cn_body = ''Your activity streak ends in 1 hour. Open the app or send a command to keep it alive!'',
      cn_suppressPlatformPush = False\<rparr>"

definition remind_batch ::
    "notif_env \<Rightarrow> (string \<Rightarrow> string) \<Rightarrow> date \<Rightarrow> others \<Rightarrow> InteractionStreak table \<Rightarrow> notif_db \<Rightarrow> notif_db" where
  "remind_batch E newId now others batch db =
     fold (\<lambda>(i, r) db'. snd (sendIfAllowed E now (newId i) (sk_userId r) saving (streak_reminder (sk_userId r)) (others (BeforeRow i) db')))
       batch db"

text \<open>The result has the rows that were visited as well.\<close>

definition handleStreakSaverCron ::
    "notif_env \<Rightarrow> (string \<Rightarrow> string) \<Rightarrow> date \<Rightarrow> others \<Rightarrow> notif_db \<Rightarrow> (InteractionStreak table \<times> notif_db) option" where
  "handleStreakSaverCron E newId now others db =
     each_page 100 (streak_rows (now - 23 * 60 * 60 * 1000)) (remind_batch E newId now others) (others \<circ> BeforePage) None db"

section \<open>Notifications on every platform\<close>

text \<open>\<open>s.includes(p)\<close>.\<close>

fun includes_str :: "string \<Rightarrow> string \<Rightarrow> bool" where
  "includes_str [] p = (p = [])"
| "includes_str (c # s) p = (startsWith (c # s) p \<or> includes_str s p)"

definition mapEventTypeToCategory :: "string \<Rightarrow> NotificationCategory" where
  "mapEventTypeToCategory type =
     (if includes_str type ''money_'' \<or> includes_str type ''vault_'' \<or> includes_str type ''envelope_'' then spending
      else if includes_str type ''vault_deposit'' then saving
      else if includes_str type ''referral_'' \<or> includes_str type ''envelope_created'' then virality
      else if includes_str type ''badge_'' then reputation
      else if includes_str type ''pool_'' \<or> includes_str type ''split_'' then socialProof
      else spending)"

text \<open>The linked accounts, with the columns of the user for a platform that has none.\<close>

definition getUserSocialNodes :: "notif_user \<Rightarrow> (string \<times> string) list" where
  "getUserSocialNodes u =
     nu_socialNodes u @
     concat (map (\<lambda>(platform, column). if platform \<in> set (map (toLowerCase \<circ> fst) (nu_socialNodes u)) then []
                                      else map (Pair platform) (nonempty (column u)))
       [(''telegram'', nu_telegramId), (''whatsapp'', nu_whatsappId), (''discord'', nu_discordId), (''slack'', nu_slackId)])"

definition event_user :: "string \<Rightarrow> notif_db \<Rightarrow> string option" where
  "event_user x db =
     (let clean = strip_at x in
      first_user (\<lambda>i u. i = x \<or> insensitive (nu_username u) clean \<or> nu_telegramId u = Some x \<or> nu_telegramId u = Some clean \<or>
        nu_whatsappId u = Some x \<or> nu_whatsappId u = Some clean \<or> nu_email u = Some x \<or> insensitive (nu_address u) x) db)"

text \<open>The preferences here are those of the database only, with the defaults for the platforms. The recipient is looked
  up under the same identifiers again.\<close>

definition platform_preferences :: "notif_env \<Rightarrow> string \<Rightarrow> notif_db \<Rightarrow> (string \<rightharpoonup> bool)" where
  "platform_preferences E userId db =
     (if \<not> ne_readOk E then default_preferences
      else case Option.bind (first_user (\<lambda>i u. i = userId \<or> insensitive (nu_username u) (strip_at userId) \<or>
                   nu_telegramId u = Some userId \<or> nu_whatsappId u = Some userId) db) (nd_preferences db) of
        Some prefs \<Rightarrow> default_preferences ++ prefs
      | None \<Rightarrow> default_preferences)"

definition platform_target :: "(string \<times> string) list \<Rightarrow> string \<Rightarrow> (string \<times> string) list" where
  "platform_target nodes platform =
     (case find (\<lambda>n. fst n = platform) nodes of
        Some n \<Rightarrow> map (Pair platform) (nonempty (Some (snd n)))
      | None \<Rightarrow> [])"

definition notifyUser :: "notif_env \<Rightarrow> date \<Rightarrow> string \<Rightarrow> string \<Rightarrow> string \<Rightarrow> string \<Rightarrow> string \<Rightarrow> notif_db \<Rightarrow> notif_db" where
  "notifyUser E now newId userId type title body db =
     (let resolved = (if ne_readOk E then event_user userId db else None);
          canonical = (case resolved of Some u \<Rightarrow> u | None \<Rightarrow> userId);
          nodes = (if \<not> ne_readOk E then []
                   else case Option.bind (event_user canonical db) (findUnique (nd_users db)) of
                     Some u \<Rightarrow> getUserSocialNodes u | None \<Rightarrow> []);
          prefs = platform_preferences E canonical db;
          db1 = (case resolved of
                   Some u \<Rightarrow> if ne_logOk E then log_entry u (mapEventTypeToCategory type) type now db else db
                 | None \<Rightarrow> db);
          db2 = (if truthy (prefs ''webPushNotifications'')
                 then snd (createNotification E newId \<lparr>cn_userId = canonical, cn_type = type, cn_title = title, cn_body = body,
                        cn_suppressPlatformPush = True\<rparr> db1)
                 else db1)
      in db2\<lparr>nd_sent := nd_sent db2 @
           (if truthy (prefs ''telegramNotifications'') \<and> ne_telegramBot E then platform_target nodes ''telegram'' else []) @
           (if truthy (prefs ''whatsappNotifications'') \<and> ne_whatsappBot E then platform_target nodes ''whatsapp'' else []) @
           (if truthy (prefs ''discordNotifications'') \<and> ne_discordBot E then platform_target nodes ''discord'' else []) @
           (if truthy (prefs ''slackNotifications'') \<and> ne_slackBot E then platform_target nodes ''slack'' else [])\<rparr>)"

section \<open>Winning back dormant users\<close>

definition INACTIVITY_DAYS :: int where "INACTIVITY_DAYS = 14"
definition BATCH_SIZE :: nat where "BATCH_SIZE = 100"
definition WINBACK_NOTIFICATION_TYPE :: string where "WINBACK_NOTIFICATION_TYPE = ''dormant_win_back''"

definition dormant_users :: "date \<Rightarrow> notif_db \<Rightarrow> notif_user table" where
  "dormant_users inactiveSince db =
     in_id_order (filter (\<lambda>(i, u). nu_active u \<and> nu_createdAt u \<le> inactiveSince \<and>
       \<not> (\<exists>a \<in> set (nd_activity db). fst a = i \<and> inactiveSince \<le> snd a)) (nd_users db))"

definition latest :: "date list \<Rightarrow> date option" where
  "latest ts = (if ts = [] then None else Some (Max (set ts)))"

definition last_activity :: "string \<Rightarrow> notif_db \<Rightarrow> date option" where
  "last_activity u db = latest (map snd (filter (\<lambda>a. fst a = u) (nd_activity db)))"

definition winbacks_of :: "string \<Rightarrow> notif_db \<Rightarrow> date list" where
  "winbacks_of u db =
     map nl_sentAt (filter (\<lambda>e. nl_userId e = u \<and> nl_type e = WINBACK_NOTIFICATION_TYPE) (nd_log db))"

definition winback_due :: "notif_db \<Rightarrow> string \<Rightarrow> notif_user \<Rightarrow> bool" where
  "winback_due db i u \<longleftrightarrow>
     (case latest (winbacks_of i db) of
        None \<Rightarrow> True
      | Some winbackAt \<Rightarrow>
          \<not> (case last_activity i db of Some t \<Rightarrow> t | None \<Rightarrow> nu_createdAt u) \<le> winbackAt)"

text \<open>The last activities and win-backs are read once for the page; \<open>markOk\<close> says for which users the marker row is
  written.\<close>

definition winback_batch ::
    "notif_env \<Rightarrow> (string \<Rightarrow> bool) \<Rightarrow> (string \<Rightarrow> string) \<Rightarrow> date \<Rightarrow> others \<Rightarrow> notif_user table \<Rightarrow> notif_db \<Rightarrow> notif_db" where
  "winback_batch E markOk newId now others batch db =
     (let db0 = others (BeforeBatch (map fst batch)) db in
      fold (\<lambda>(i, u) db'.
         if \<not> winback_due db0 i u then db'
         else let db1 = others (BeforeMark i) (notifyUser E now (newId i) i ''admin_alert'' ''We saved your spot''
                     ''Come back to send, save, or claim a Red Envelope in seconds.'' (others (BeforeRow i) db'))
              in if markOk i then log_entry i reputation WINBACK_NOTIFICATION_TYPE now db1 else db1)
       batch db0)"

definition sendDormantUserWinbacks ::
    "notif_env \<Rightarrow> (string \<Rightarrow> bool) \<Rightarrow> (string \<Rightarrow> string) \<Rightarrow> date \<Rightarrow> others \<Rightarrow> notif_db \<Rightarrow>
     (notif_user table \<times> notif_db) option" where
  "sendDormantUserWinbacks E markOk newId now others db =
     each_page BATCH_SIZE (dormant_users (now - INACTIVITY_DAYS * DAY)) (winback_batch E markOk newId now others)
       (others \<circ> BeforePage) None db"

end
