(* ===== verification/NotificationRuns.thy ===== *)
theory NotificationRuns
  imports Notifications
begin

text \<open>
  Properties of \<open>Notifications\<close>: the page loops of the two scheduled jobs return and visit no user twice, whatever others
  write between their steps, and every user who matches throughout when no row stops matching; the
  frequency caps hold in every window, and a user gets one win-back message per spell of inactivity. The loops are
  interpretations of \<open>paging\<close>.
\<close>

section \<open>What the operations leave alone\<close>

lemma create_leaves [simp]:
  "nd_users (snd (createNotification E i dto db)) = nd_users db" "nd_log (snd (createNotification E i dto db)) = nd_log db"
  "nd_streaks (snd (createNotification E i dto db)) = nd_streaks db" "nd_activity (snd (createNotification E i dto db)) = nd_activity db"
  by (simp_all add: createNotification_def Let_def)

lemma log_entry_leaves [simp]:
  "nd_users (log_entry u c t now db) = nd_users db" "nd_streaks (log_entry u c t now db) = nd_streaks db"
  "nd_activity (log_entry u c t now db) = nd_activity db"
  "nd_log (log_entry u c t now db) = nd_log db @ [\<lparr>nl_userId = u, nl_category = c, nl_type = t, nl_sentAt = now\<rparr>]"
  by (simp_all add: log_entry_def)

lemma send_leaves [simp]:
  "nd_users (snd (sendIfAllowed E now i u c dto db)) = nd_users db"
  "nd_streaks (snd (sendIfAllowed E now i u c dto db)) = nd_streaks db"
  by (auto simp: sendIfAllowed_def Let_def split: option.split)

lemma notify_leaves [simp]:
  "nd_users (notifyUser E now i u t title body db) = nd_users db"
  "nd_streaks (notifyUser E now i u t title body db) = nd_streaks db"
  "nd_activity (notifyUser E now i u t title body db) = nd_activity db"
  by (auto simp: notifyUser_def Let_def split: option.split)

lemma notify_log:
  "nd_log (notifyUser E now i u type title body db) = nd_log db \<or>
   (\<exists>v. nd_log (notifyUser E now i u type title body db) = nd_log (log_entry v (mapEventTypeToCategory type) type now db))"
  by (auto simp: notifyUser_def Let_def split: option.split)

section \<open>The two jobs\<close>

definition unique_rows :: "notif_db \<Rightarrow> bool" where
  "unique_rows db \<longleftrightarrow> keys_unique (nd_users db) \<and> keys_unique (nd_streaks db) \<and> distinct (map (sk_userId \<circ> snd) (nd_streaks db))"

lemma remind_batch_leaves [simp]:
  "nd_users (remind_batch E ids now alone batch db) = nd_users db" "nd_streaks (remind_batch E ids now alone batch db) = nd_streaks db"
  by (induction batch arbitrary: db) (auto simp: remind_batch_def split: prod.splits)

interpretation reminders: paging 100 "streak_rows cutoff" "remind_batch E ids now alone" unique_rows
  by unfold_locales
    (auto simp: unique_rows_def streak_rows_def remind_batch_def [of _ _ _ _ "_ @ _"] ids_ordered, simp_all add: remind_batch_def)

definition winback_step ::
    "notif_env \<Rightarrow> (string \<Rightarrow> bool) \<Rightarrow> (string \<Rightarrow> string) \<Rightarrow> date \<Rightarrow> notif_db \<Rightarrow> string \<times> notif_user \<Rightarrow> notif_db \<Rightarrow> notif_db" where
  "winback_step E markOk ids now db row db' =
     (if \<not> winback_due db (fst row) (snd row) then db'
      else let db1 = notifyUser E now (ids (fst row)) (fst row) ''admin_alert'' ''We saved your spot''
                  ''Come back to send, save, or claim a Red Envelope in seconds.'' db'
           in if markOk (fst row) then log_entry (fst row) reputation WINBACK_NOTIFICATION_TYPE now db1 else db1)"

lemma winback_batch_fold: "winback_batch E markOk ids now alone batch db = fold (winback_step E markOk ids now db) batch db"
  unfolding winback_batch_def unfolding Let_def by (rule fold_cong) (auto simp: winback_step_def fun_eq_iff Let_def)

lemma winback_step_leaves [simp]:
  "nd_users (winback_step E markOk ids now db row db') = nd_users db'"
  "nd_streaks (winback_step E markOk ids now db row db') = nd_streaks db'"
  "nd_activity (winback_step E markOk ids now db row db') = nd_activity db'"
  by (simp_all add: winback_step_def Let_def)

lemma winback_fold_leaves [simp]:
  "nd_users (fold (winback_step E markOk ids now db) batch db') = nd_users db'"
  "nd_streaks (fold (winback_step E markOk ids now db) batch db') = nd_streaks db'"
  "nd_activity (fold (winback_step E markOk ids now db) batch db') = nd_activity db'"
  by (induction batch arbitrary: db') simp_all

lemma winbacks_of_notify: "winbacks_of v (notifyUser E now i u ''admin_alert'' title body db) = winbacks_of v db"
  using notify_log [of E now i u "''admin_alert''" title body db]
  by (auto simp: winbacks_of_def WINBACK_NOTIFICATION_TYPE_def)

lemma winbacks_of_step:
  "winbacks_of v (winback_step E markOk ids now db row db') = winbacks_of v db' @
     (if v = fst row \<and> winback_due db (fst row) (snd row) \<and> markOk v then [now] else [])"
  by (auto simp: winback_step_def Let_def winbacks_of_def log_entry_def)
     (auto simp: winbacks_of_def [symmetric] winbacks_of_notify)

lemma winbacks_of_fold:
  "v \<notin> fst ` set batch \<Longrightarrow> winbacks_of v (fold (winback_step E markOk ids now db) batch db') = winbacks_of v db'"
  by (induction batch arbitrary: db') (auto simp: winbacks_of_step)

text \<open>The snapshot of a page is as good as one for each user, because a page does not name a user twice.\<close>

lemma winback_in_pages:
  assumes "distinct (map fst (a @ b))"
  shows "winback_batch E markOk ids now alone (a @ b) db = winback_batch E markOk ids now alone b (winback_batch E markOk ids now alone a db)"
proof -
  let ?db = "fold (winback_step E markOk ids now db) a db"
  have "winback_due ?db i u = winback_due db i u" if "(i, u) \<in> set b" for i u
  proof -
    have "i \<notin> fst ` set a" using that assms by force
    then have "winbacks_of i ?db = winbacks_of i db" "last_activity i ?db = last_activity i db"
      by (simp_all add: winbacks_of_fold last_activity_def)
    then show ?thesis by (simp only: winback_due_def)
  qed
  then have "fold (winback_step E markOk ids now db) b ?db = fold (winback_step E markOk ids now ?db) b ?db"
    by (intro fold_cong) (auto simp: winback_step_def fun_eq_iff)
  then show ?thesis by (simp add: winback_batch_fold)
qed

interpretation winbacks: paging BATCH_SIZE "dormant_users since" "winback_batch E markOk ids now alone" unique_rows
proof unfold_locales
  show "0 < BATCH_SIZE" by (simp add: BATCH_SIZE_def)
  show "unique_rows db \<Longrightarrow> sorted_wrt (<) (map fst (dormant_users since db))" for db
    by (simp add: unique_rows_def dormant_users_def ids_ordered)
  show "unique_rows db \<Longrightarrow> unique_rows (winback_batch E markOk ids now alone page db)" for page db
    by (simp add: unique_rows_def winback_batch_fold)
  show "dormant_users since (winback_batch E markOk ids now alone page db) = dormant_users since db" for page db
    by (simp add: dormant_users_def winback_batch_fold)
  show "winback_batch E markOk ids now alone [] db = db" for db by (simp add: winback_batch_def)
  show "distinct (map fst (a @ b)) \<Longrightarrow>
     winback_batch E markOk ids now alone (a @ b) db = winback_batch E markOk ids now alone b (winback_batch E markOk ids now alone a db)" for a b db
    by (rule winback_in_pages)
qed

lemma winback_job: "unique_rows db \<Longrightarrow> sendDormantUserWinbacks E markOk ids now alone db =
    Some (dormant_users (now - INACTIVITY_DAYS * DAY) db, winback_batch E markOk ids now alone (dormant_users (now - INACTIVITY_DAYS * DAY) db) db)"
  unfolding sendDormantUserWinbacks_def comp_def by (rule winbacks.returns_after_all)

lemma streak_job: "unique_rows db \<Longrightarrow> handleStreakSaverCron E ids now alone db =
    Some (streak_rows (now - 23 * 60 * 60 * 1000) db, remind_batch E ids now alone (streak_rows (now - 23 * 60 * 60 * 1000) db) db)"
  unfolding handleStreakSaverCron_def comp_def by (rule reminders.returns_after_all)

section \<open>Others in between\<close>

text \<open>What others leave as it is while a job runs: users are registered under finitely many identifiers, and a streak row is
  for one user from the start, its \<open>owner\<close>.\<close>

definition owned :: "string set \<Rightarrow> (string \<rightharpoonup> string) \<Rightarrow> notif_db \<Rightarrow> bool" where
  "owned X owner db \<longleftrightarrow>
     unique_rows db \<and> keys_of (nd_users db) \<subseteq> X \<and> (\<forall>(i, r) \<in> set (nd_streaks db). owner i = Some (sk_userId r))"

definition shared :: "string set \<Rightarrow> (string \<rightharpoonup> string) \<Rightarrow> others \<Rightarrow> notif_db \<Rightarrow> bool" where
  "shared X owner others db \<longleftrightarrow>
     finite X \<and> finite (dom owner) \<and> owned X owner db \<and> (\<forall>p db. owned X owner db \<longrightarrow> owned X owner (others p db))"

text \<open>No row stops matching.\<close>

definition steady :: "(notif_db \<Rightarrow> 'r table) \<Rightarrow> others \<Rightarrow> bool" where
  "steady rows others \<longleftrightarrow> (\<forall>p db. keys_of (rows db) \<subseteq> keys_of (rows (others p db)))"

lemma shared_others: "shared X owner others db \<Longrightarrow> shared X owner others (others p db)"
  by (simp add: shared_def)

lemma shared_same:
  "nd_users db' = nd_users db \<Longrightarrow> nd_streaks db' = nd_streaks db \<Longrightarrow> shared X owner others db \<Longrightarrow> shared X owner others db'"
  by (simp add: shared_def owned_def unique_rows_def)

lemma steady_step: "steady rows others \<Longrightarrow> A \<subseteq> keys_of (rows db) \<Longrightarrow> A \<subseteq> keys_of (rows (others p db))"
  unfolding steady_def by blast

lemma fold_keeps: "(\<And>x s. P s \<Longrightarrow> P (f x s)) \<Longrightarrow> P s \<Longrightarrow> P (fold f xs s)"
  by (induction xs arbitrary: s) simp_all

lemma in_order_rows [simp]: "set (in_id_order t) = set t"
  by (simp add: in_id_order_def)

lemma remind_batch_keeps:
  assumes "\<And>p db. P db \<Longrightarrow> P (others p db)" and "\<And>db db'. nd_streaks db' = nd_streaks db \<Longrightarrow> nd_users db' = nd_users db \<Longrightarrow> P db \<Longrightarrow> P db'"
    and "P db"
  shows "P (remind_batch E ids now others batch db)"
  unfolding remind_batch_def
proof (rule fold_keeps)
  fix row :: "string \<times> InteractionStreak" and db assume "P db"
  then have "P (snd (sendIfAllowed E now i u c dto (others p db)))" for i u c dto p
    by (rule assms(2) [OF send_leaves(2,1) assms(1)])
  then show "P ((\<lambda>(i, r) db'. snd (sendIfAllowed E now (ids i) (sk_userId r) saving (streak_reminder (sk_userId r))
      (others (BeforeRow i) db'))) row db)"
    by (cases row) simp
qed (rule assms(3))

lemma winback_batch_keeps:
  assumes "\<And>p db. P db \<Longrightarrow> P (others p db)"
    and "\<And>db db'. nd_users db' = nd_users db \<Longrightarrow> nd_streaks db' = nd_streaks db \<Longrightarrow> nd_activity db' = nd_activity db \<Longrightarrow> P db \<Longrightarrow> P db'"
    and "P db"
  shows "P (winback_batch E markOk ids now others batch db)"
  unfolding winback_batch_def Let_def
proof (rule fold_keeps)
  fix row :: "string \<times> notif_user" and db assume "P db"
  then have told: "P (others (BeforeMark (fst row)) (notifyUser E now (ids (fst row)) (fst row) type title body (others (BeforeRow (fst row)) db)))"
    for type title body by (intro assms(1)) (rule assms(2) [OF notify_leaves], rule assms(1))
  moreover have "P (log_entry u c t now db)" if "P db" for u c t db by (rule assms(2) [OF log_entry_leaves(1-3) that])
  ultimately show "P ((\<lambda>(i, u) db'. if \<not> winback_due db0 i u then db'
      else if markOk i then log_entry i reputation WINBACK_NOTIFICATION_TYPE now (others (BeforeMark i) (notifyUser E now (ids i) i
           ''admin_alert'' ''We saved your spot'' ''Come back to send, save, or claim a Red Envelope in seconds.'' (others (BeforeRow i) db')))
      else others (BeforeMark i) (notifyUser E now (ids i) i ''admin_alert'' ''We saved your spot''
           ''Come back to send, save, or claim a Red Envelope in seconds.'' (others (BeforeRow i) db'))) row db)" for db0
    using \<open>P db\<close> by (cases row) simp
qed (use assms in blast)

interpretation shared_reminders: shared_pages 100 "streak_rows cutoff" "remind_batch E ids now others" "others \<circ> BeforePage"
    "shared X owner others" "dom owner" "\<lambda>(i, r). owner i = Some (sk_userId r) \<and> sk_lastActiveAt r \<le> cutoff \<and> 1 \<le> sk_currentStreak r"
proof unfold_locales
  show "shared X owner others db \<Longrightarrow> shared X owner others (remind_batch E ids now others page db)" for page db
    by (rule remind_batch_keeps) (auto intro: shared_others shared_same)
qed (auto simp: shared_others, auto simp: shared_def owned_def unique_rows_def streak_rows_def ids_ordered)

interpretation shared_winbacks: shared_pages BATCH_SIZE "dormant_users since" "winback_batch E markOk ids now others"
    "others \<circ> BeforePage" "shared X owner others" X "\<lambda>(i, u). nu_active u \<and> nu_createdAt u \<le> since"
proof unfold_locales
  show "shared X owner others db \<Longrightarrow> shared X owner others (winback_batch E markOk ids now others page db)" for page db
    by (rule winback_batch_keeps) (auto intro: shared_others shared_same)
qed (auto simp: shared_others BATCH_SIZE_def, auto simp: shared_def owned_def unique_rows_def dormant_users_def ids_ordered)

interpretation steady_reminders: steady_pages 100 "streak_rows cutoff" "remind_batch E ids now others" "others \<circ> BeforePage"
    "\<lambda>db. shared X owner others db \<and> steady (streak_rows cutoff) others" "dom owner"
    "\<lambda>(i, r). owner i = Some (sk_userId r) \<and> sk_lastActiveAt r \<le> cutoff \<and> 1 \<le> sk_currentStreak r"
proof unfold_locales
  show "shared X owner others db \<and> steady (streak_rows cutoff) others \<Longrightarrow>
      keys_of (streak_rows cutoff db) \<subseteq> keys_of (streak_rows cutoff (remind_batch E ids now others page db))" for page db
    by (rule remind_batch_keeps [where P = "\<lambda>db'. keys_of (streak_rows cutoff db) \<subseteq> keys_of (streak_rows cutoff db')"])
      (erule conjE, erule (1) steady_step, simp add: streak_rows_def, simp)
qed (simp_all add: shared_reminders.good_visit shared_others,
    auto simp: shared_def owned_def unique_rows_def streak_rows_def steady_def ids_ordered)

interpretation steady_winbacks: steady_pages BATCH_SIZE "dormant_users since" "winback_batch E markOk ids now others"
    "others \<circ> BeforePage" "\<lambda>db. shared X owner others db \<and> steady (dormant_users since) others" X
    "\<lambda>(i, u). nu_active u \<and> nu_createdAt u \<le> since"
proof unfold_locales
  show "shared X owner others db \<and> steady (dormant_users since) others \<Longrightarrow>
      keys_of (dormant_users since db) \<subseteq> keys_of (dormant_users since (winback_batch E markOk ids now others page db))" for page db
    by (rule winback_batch_keeps [where P = "\<lambda>db'. keys_of (dormant_users since db) \<subseteq> keys_of (dormant_users since db')"])
      (erule conjE, erule (1) steady_step, simp add: dormant_users_def, simp)
qed (simp_all add: shared_winbacks.some shared_winbacks.good_visit shared_others,
    auto simp: shared_def owned_def unique_rows_def dormant_users_def steady_def ids_ordered)

section \<open>Histories\<close>

datatype nd_op =
    OpWinback notif_env "string \<Rightarrow> string" date
  | OpStreakSaver notif_env "string \<Rightarrow> string" date
  | OpSend notif_env date string string NotificationCategory CreateNotificationDto
  | OpNotify notif_env date string string string string string
  | OpPreferences notif_env string "string \<rightharpoonup> bool"
  | OpRead string string
  | OpActivity string date
  | OpRegister string notif_user

text \<open>The marker rows of the win-backs are written.\<close>

fun nd_apply :: "nd_op \<Rightarrow> notif_db \<Rightarrow> notif_db" where
  "nd_apply (OpWinback E ids now) db = (case sendDormantUserWinbacks E (\<lambda>_. True) ids now alone db of Some (seen, db') \<Rightarrow> db' | None \<Rightarrow> db)"
| "nd_apply (OpStreakSaver E ids now) db = (case handleStreakSaverCron E ids now alone db of Some (seen, db') \<Rightarrow> db' | None \<Rightarrow> db)"
| "nd_apply (OpSend E now i u c dto) db = snd (sendIfAllowed E now i u c dto db)"
| "nd_apply (OpNotify E now i u type title body) db = notifyUser E now i u type title body db"
| "nd_apply (OpPreferences E u prefs) db = snd (updateUserPreferences E u prefs db)"
| "nd_apply (OpRead i u) db = markAllAsRead u (markAsRead i u db)"
| "nd_apply (OpActivity u t) db = db\<lparr>nd_activity := nd_activity db @ [(u, t)]\<rparr>"
| "nd_apply (OpRegister u row) db =
     (if findUnique (nd_users db) u = None then db\<lparr>nd_users := create_row u row (nd_users db)\<rparr> else db)"

abbreviation nd_history :: "nd_op list \<Rightarrow> notif_db \<Rightarrow> notif_db" where
  "nd_history \<equiv> fold nd_apply"

section \<open>One win-back per spell\<close>

lemma sent_categories:
  "winbacks_of v (snd (sendIfAllowed E now i u c dto db)) = winbacks_of v db \<or> cn_type dto = WINBACK_NOTIFICATION_TYPE"
  by (auto simp: sendIfAllowed_def Let_def winbacks_of_def split: option.split)

lemma winbacks_of_batch:
  "distinct (map fst batch) \<Longrightarrow> winbacks_of v (fold (winback_step E (\<lambda>_. True) ids now db) batch db') =
     winbacks_of v db' @ (if \<exists>u. (v, u) \<in> set batch \<and> winback_due db v u then [now] else [])"
proof (induction batch arbitrary: db')
  case (Cons row batch)
  show ?case
  proof (cases "v = fst row")
    case True
    with Cons.prems have "v \<notin> fst ` set batch" by simp
    then show ?thesis
      using True by (cases row) (auto simp: winbacks_of_fold winbacks_of_step image_iff)
  next
    case False
    with Cons show ?thesis by (cases row) (auto simp: winbacks_of_step)
  qed
qed simp

definition between_spells :: "notif_db \<Rightarrow> string \<Rightarrow> date \<Rightarrow> date \<Rightarrow> bool" where
  "between_spells db u w w' \<longleftrightarrow> (\<exists>a. (u, a) \<in> set (nd_activity db) \<and> w < a \<and> a + INACTIVITY_DAYS * DAY < w')"

definition spells_ok :: "notif_db \<Rightarrow> bool" where
  "spells_ok db \<longleftrightarrow> (\<forall>u. sorted_wrt (between_spells db u) (winbacks_of u db) \<and>
     (\<forall>w \<in> set (winbacks_of u db). \<exists>row. findUnique (nd_users db) u = Some row \<and> nu_createdAt row \<le> w))"

lemma latest_bounds: "latest ts = Some m \<Longrightarrow> w \<in> set ts \<Longrightarrow> w \<le> m" "latest ts = Some m \<Longrightarrow> m \<in> set ts"
  by (auto simp: latest_def split: if_splits)

lemma dormant_row:
  assumes "unique_rows db" and "(u, row) \<in> set (dormant_users since db)"
  shows "findUnique (nd_users db) u = Some row" "nu_createdAt row \<le> since" "(u, a) \<in> set (nd_activity db) \<Longrightarrow> a < since"
  using assms by (auto simp: dormant_users_def in_id_order_def unique_rows_def keys_unique_def findUnique_def not_le)

lemma due_after_activity:
  assumes ok: "unique_rows db" "spells_ok db" and row: "(u, row) \<in> set (dormant_users (now - INACTIVITY_DAYS * DAY) db)"
    and due: "winback_due db u row" and w: "w \<in> set (winbacks_of u db)"
  shows "between_spells db u w now"
proof -
  note dormant = dormant_row [OF ok(1) row]
  obtain m where m: "latest (winbacks_of u db) = Some m" using w by (cases "latest (winbacks_of u db)") (auto simp: latest_def split: if_splits)
  have "nu_createdAt row \<le> m" using ok(2) latest_bounds(2) [OF m] dormant(1) by (fastforce simp: spells_ok_def)
  with due m obtain t where t: "last_activity u db = Some t" "m < t"
    by (auto simp: winback_due_def split: option.splits)
  then have "(u, t) \<in> set (nd_activity db)" using latest_bounds(2) by (fastforce simp: last_activity_def)
  moreover from this have "t < now - INACTIVITY_DAYS * DAY" by (rule dormant(3))
  ultimately show ?thesis using t(2) latest_bounds(1) [OF m w] by (auto simp: between_spells_def)
qed

lemma spells_grow:
  assumes "spells_ok db" and "set (nd_activity db) \<subseteq> set (nd_activity db')"
    and "\<And>u row. findUnique (nd_users db) u = Some row \<Longrightarrow> findUnique (nd_users db') u = Some row"
    and "\<And>u. winbacks_of u db' = winbacks_of u db"
  shows "spells_ok db'"
  using assms unfolding spells_ok_def between_spells_def by (fastforce elim: sorted_wrt_mono_rel [rotated])

lemma spells_winback:
  assumes "unique_rows db" and "spells_ok db"
  shows "spells_ok (nd_apply (OpWinback E ids now) db)"
proof -
  let ?since = "now - INACTIVITY_DAYS * DAY"
  let ?db = "winback_batch E (\<lambda>_. True) ids now alone (dormant_users ?since db) db"
  have "distinct (map fst (dormant_users ?since db))"
    using winbacks.ordered [OF assms(1)] strict_sorted_iff by metis
  then have ws: "winbacks_of u ?db = winbacks_of u db @
      (if \<exists>row. (u, row) \<in> set (dormant_users ?since db) \<and> winback_due db u row then [now] else [])" for u
    unfolding winback_batch_fold by (rule winbacks_of_batch)
  have same: "nd_activity ?db = nd_activity db" "nd_users ?db = nd_users db" by (simp_all add: winback_batch_fold)
  have "nu_createdAt row \<le> now" if "(u, row) \<in> set (dormant_users ?since db)" for u row
    using dormant_row(2) [OF assms(1) that] by (simp add: INACTIVITY_DAYS_def DAY_def)
  then have "spells_ok ?db"
    using assms(2) dormant_row(1) [OF assms(1)] due_after_activity [OF assms]
    unfolding spells_ok_def ws same between_spells_def by (auto simp: sorted_wrt_append)
  then show ?thesis by (simp add: winback_job [OF assms(1)])
qed

text \<open>The types of the notifications that TypeScript accepts: those of the enumeration, and the events other than the marker.\<close>

fun well_typed :: "nd_op \<Rightarrow> bool" where
  "well_typed (OpSend E now i u c dto) \<longleftrightarrow> cn_type dto \<in> set NotificationTypes"
| "well_typed (OpNotify E now i u type title body) \<longleftrightarrow> type \<noteq> WINBACK_NOTIFICATION_TYPE"
| "well_typed _ \<longleftrightarrow> True"

lemma marker_no_type: "WINBACK_NOTIFICATION_TYPE \<notin> set NotificationTypes"
  by (simp add: WINBACK_NOTIFICATION_TYPE_def NotificationTypes_def)

lemma unique_apply: "unique_rows db \<Longrightarrow> unique_rows (nd_apply op db)"
proof (cases op)
  case (OpWinback E ids now)
  moreover assume "unique_rows db"
  ultimately show ?thesis using winbacks.good_kept by (simp add: winback_job)
next
  case (OpStreakSaver E ids now)
  moreover assume "unique_rows db"
  ultimately show ?thesis using reminders.good_kept by (simp add: streak_job)
qed (auto simp: unique_rows_def keys_create updateUserPreferences_def Let_def markAllAsRead_def markAsRead_def)

lemma winbacks_of_remind: "winbacks_of v (remind_batch E ids now alone batch db) = winbacks_of v db"
proof (induction batch arbitrary: db)
  case (Cons row batch)
  have "winbacks_of v (snd (sendIfAllowed E now i u saving (streak_reminder u) db)) = winbacks_of v db" for i u and db
    using sent_categories [of v E now i u saving "streak_reminder u" db] by (simp add: streak_reminder_def WINBACK_NOTIFICATION_TYPE_def)
  with Cons show ?case by (cases row) (simp add: remind_batch_def)
qed (simp add: remind_batch_def)

lemma remind_batch_activity: "nd_activity (remind_batch E ids now alone batch db) = nd_activity db"
proof (induction batch arbitrary: db)
  case (Cons row batch)
  have "nd_activity (snd (sendIfAllowed E now i u c dto db)) = nd_activity db" for i u c dto and db
    by (auto simp: sendIfAllowed_def Let_def split: option.split)
  with Cons show ?case by (cases row) (simp add: remind_batch_def)
qed (simp add: remind_batch_def)

lemma spells_apply:
  assumes unique: "unique_rows db" and ok: "spells_ok db" and typed: "well_typed op"
  shows "spells_ok (nd_apply op db)"
proof (cases op)
  case (OpWinback E ids now)
  with spells_winback unique ok show ?thesis by simp
next
  case (OpStreakSaver E ids now)
  then show ?thesis
    using ok by (auto simp: streak_job [OF unique] winbacks_of_remind remind_batch_activity intro: spells_grow)
next
  case (OpSend E now i u c dto)
  have "winbacks_of v (snd (sendIfAllowed E now i u c dto db)) = winbacks_of v db" for v
    using sent_categories [of v E now i u c dto db] typed marker_no_type by (auto simp: OpSend)
  moreover have "nd_activity (snd (sendIfAllowed E now i u c dto db)) = nd_activity db"
    by (auto simp: sendIfAllowed_def Let_def split: option.split)
  ultimately show ?thesis using ok by (auto simp: OpSend intro: spells_grow)
next
  case (OpNotify E now i u type title body)
  then have "winbacks_of v (notifyUser E now i u type title body db) = winbacks_of v db" for v
    using notify_log [of E now i u type title body db] typed by (auto simp: winbacks_of_def)
  with ok show ?thesis by (auto simp: OpNotify intro: spells_grow)
qed (use ok in \<open>auto simp: updateUserPreferences_def Let_def markAllAsRead_def markAsRead_def winbacks_of_def findUnique_create
       intro: spells_grow split: option.split\<close>)

lemma spells_history:
  "unique_rows db \<Longrightarrow> spells_ok db \<Longrightarrow> \<forall>op \<in> set ops. well_typed op \<Longrightarrow> spells_ok (nd_history ops db)"
  by (induction ops arbitrary: db) (simp_all add: unique_apply spells_apply)

section \<open>Frequency caps\<close>

text \<open>What \<open>sendIfAllowed\<close> delivered, in order.\<close>

record delivery =
  dl_userId :: string
  dl_category :: NotificationCategory
  dl_type :: string
  dl_at :: date

fun delivered :: "nd_op \<Rightarrow> notif_db \<Rightarrow> delivery list" where
  "delivered (OpSend E now i u c dto) db =
     (if fst (sendIfAllowed E now i u c dto db) = None then []
      else [\<lparr>dl_userId = u, dl_category = c, dl_type = cn_type dto, dl_at = now\<rparr>])"
| "delivered _ db = []"

fun deliveries :: "nd_op list \<Rightarrow> notif_db \<Rightarrow> delivery list" where
  "deliveries [] db = []"
| "deliveries (op # ops) db = delivered op db @ deliveries ops (nd_apply op db)"

text \<open>The caps of the code: for each category the length of the window and the number of messages; the messages of type
  \<open>DOUBLE_REWARD\<close> have a cap of their own.\<close>

definition doubled :: "NotificationCategory \<Rightarrow> string \<Rightarrow> bool" where
  "doubled c type \<longleftrightarrow> c = virality \<and> type = ''DOUBLE_REWARD''"

definition cap_window :: "NotificationCategory \<Rightarrow> bool \<Rightarrow> int" where
  "cap_window c double = (if double then 30 * DAY else if c = socialProof then 7 * DAY else DAY)"

definition cap_messages :: "NotificationCategory \<Rightarrow> bool \<Rightarrow> nat" where
  "cap_messages c double = (if double then 1 else if c = socialProof then 3 else if c = saving then 1 else 2)"

definition sends_recorded :: "nd_op \<Rightarrow> bool" where
  "sends_recorded op \<longleftrightarrow> (case op of OpSend E now i u c dto \<Rightarrow> ne_readOk E \<and> ne_countOk E \<and> ne_logOk E | _ \<Rightarrow> True)"

definition in_group :: "string \<Rightarrow> NotificationCategory \<Rightarrow> bool \<Rightarrow> delivery \<Rightarrow> bool" where
  "in_group u c double d \<longleftrightarrow> dl_userId d = u \<and> dl_category d = c \<and> doubled c (dl_type d) = double"

definition logged :: "NotificationLog \<Rightarrow> delivery" where
  "logged e = \<lparr>dl_userId = nl_userId e, dl_category = nl_category e, dl_type = nl_type e, dl_at = nl_sentAt e\<rparr>"

definition group_count :: "string \<Rightarrow> NotificationCategory \<Rightarrow> bool \<Rightarrow> date \<Rightarrow> delivery list \<Rightarrow> nat" where
  "group_count u c double since ds = length (filter (\<lambda>d. in_group u c double d \<and> since \<le> dl_at d) ds)"

lemma group_count_append [simp]: "group_count u c double a (xs @ ys) = group_count u c double a xs + group_count u c double a ys"
  by (simp add: group_count_def)

lemma fold_log_grows:
  "(\<And>x s. x \<in> set xs \<Longrightarrow> \<exists>extra. nd_log (f x s) = nd_log s @ extra) \<Longrightarrow> \<exists>extra. nd_log (fold f xs s) = nd_log s @ extra"
proof (induction xs arbitrary: s)
  case (Cons x xs)
  obtain e where "nd_log (f x s) = nd_log s @ e" using Cons.prems by force
  moreover obtain e' where "nd_log (fold f xs (f x s)) = nd_log (f x s) @ e'" using Cons by force
  ultimately show ?case by simp
qed simp

lemma send_log:
  "nd_log (snd (sendIfAllowed E now i u c dto db)) =
     (if shouldSend E now u c (cn_type dto) db
      then case resolveValidUserId E u db of
             Some v \<Rightarrow> if ne_logOk E then nd_log (log_entry v c (cn_type dto) now db) else nd_log db
           | None \<Rightarrow> nd_log db
      else nd_log db)"
  by (auto simp: sendIfAllowed_def Let_def split: option.split)

lemma log_only_grows:
  assumes "unique_rows db"
  shows "\<exists>extra. nd_log (nd_apply op db) = nd_log db @ extra"
proof (cases op)
  case (OpWinback E ids now)
  have "\<exists>extra. nd_log (winback_step E m ids now db0 row db) = nd_log db @ extra" for m db0 row db
    using notify_log [of E now "ids (fst row)" "fst row" "''admin_alert''" "''We saved your spot''"
        "''Come back to send, save, or claim a Red Envelope in seconds.''" db] by (auto simp: winback_step_def Let_def)
  then show ?thesis unfolding OpWinback nd_apply.simps winback_job [OF assms] winback_batch_fold by (simp add: fold_log_grows)
next
  case (OpStreakSaver E ids now)
  then show ?thesis
    unfolding OpStreakSaver nd_apply.simps streak_job [OF assms] remind_batch_def
    by (auto intro!: fold_log_grows simp: send_log split: option.split)
next
  case (OpSend E now i u c dto)
  then show ?thesis by (auto simp: send_log split: option.split)
next
  case (OpNotify E now i u type title body)
  then show ?thesis using notify_log [of E now i u type title body db] by auto
qed (auto simp: updateUserPreferences_def Let_def markAllAsRead_def markAsRead_def)

lemma users_kept: "unique_rows db \<Longrightarrow> findUnique (nd_users db) u \<noteq> None \<Longrightarrow> findUnique (nd_users (nd_apply op db)) u \<noteq> None"
  by (cases op) (auto simp: winback_job streak_job winback_batch_fold updateUserPreferences_def Let_def markAllAsRead_def
      markAsRead_def findUnique_create split: option.split)

lemma known_user:
  "ne_readOk E \<Longrightarrow> u \<noteq> [] \<Longrightarrow> findUnique (nd_users db) u \<noteq> None \<Longrightarrow> resolveValidUserId E u db = Some u"
  by (auto simp: resolveValidUserId_def)

text \<open>A delivery to a known user is in the log.\<close>

lemma delivery_logged:
  assumes "unique_rows db" and "u \<noteq> []" and "findUnique (nd_users db) u \<noteq> None" and "sends_recorded op"
  shows "group_count u c double a (delivered op db) + group_count u c double a (map logged (nd_log db))
    \<le> group_count u c double a (map logged (nd_log (nd_apply op db)))"
proof (cases "\<exists>E now i c' dto. op = OpSend E now i u c' dto \<and> fst (sendIfAllowed E now i u c' dto db) \<noteq> None")
  case True
  then obtain E now i c' dto where op: "op = OpSend E now i u c' dto" "shouldSend E now u c' (cn_type dto) db"
    by (auto simp: sendIfAllowed_def split: if_splits)
  then have "resolveValidUserId E u db = Some u" "ne_logOk E"
    using assms known_user by (auto simp: sends_recorded_def)
  with op show ?thesis by (auto simp: send_log group_count_def in_group_def logged_def)
next
  case False
  then have "group_count u c double a (delivered op db) = 0"
    by (cases op) (auto simp: group_count_def in_group_def)
  moreover obtain extra where "nd_log (nd_apply op db) = nd_log db @ extra" using log_only_grows [OF assms(1)] by blast
  ultimately show ?thesis by simp
qed

lemma deliveries_logged:
  "unique_rows db \<Longrightarrow> u \<noteq> [] \<Longrightarrow> findUnique (nd_users db) u \<noteq> None \<Longrightarrow> \<forall>op \<in> set ops. sends_recorded op \<Longrightarrow>
     group_count u c double a (deliveries ops db) + group_count u c double a (map logged (nd_log db))
       \<le> group_count u c double a (map logged (nd_log (nd_history ops db)))"
proof (induction ops arbitrary: db)
  case (Cons op ops)
  have "group_count u c double a (deliveries ops (nd_apply op db)) + group_count u c double a (map logged (nd_log (nd_apply op db)))
      \<le> group_count u c double a (map logged (nd_log (nd_history ops (nd_apply op db))))"
    by (rule Cons.IH) (use Cons.prems unique_apply users_kept in auto)
  moreover have "group_count u c double a (delivered op db) + group_count u c double a (map logged (nd_log db))
      \<le> group_count u c double a (map logged (nd_log (nd_apply op db)))"
    using Cons.prems by (intro delivery_logged) auto
  ultimately show ?case by simp
qed (simp add: group_count_def)

lemma filter_more: "(\<And>x. P x \<Longrightarrow> Q x) \<Longrightarrow> length (filter P xs) \<le> length (filter Q xs)"
  by (induction xs) auto

lemma sent_below_cap:
  assumes "ne_countOk E" and "shouldSend E now u c type db"
  shows "group_count u c (doubled c type) (now - cap_window c (doubled c type)) (map logged (nd_log db))
    < cap_messages c (doubled c type)"
proof -
  have all: "group_count u c d since (map logged (nd_log db)) \<le> log_count u c None since db" for d since
    by (simp add: group_count_def log_count_def filter_map in_group_def logged_def o_def) (rule filter_more; simp)
  have doubles: "group_count u virality True since (map logged (nd_log db)) \<le> log_count u virality (Some ''DOUBLE_REWARD'') since db" for since
    by (simp add: group_count_def log_count_def filter_map in_group_def logged_def doubled_def o_def) (rule filter_more; simp)
  show ?thesis
    using assms all [of "doubled c type" "now - cap_window c (doubled c type)"] doubles [of "now - 30 * DAY"]
    by (cases c) (auto simp: shouldSend_def over_cap_def doubled_def cap_window_def cap_messages_def split: if_splits)
qed

lemma deliveries_snoc: "deliveries (ops @ [op]) db = deliveries ops db @ delivered op (nd_history ops db)"
  by (induction ops arbitrary: db) simp_all

lemma history_kept:
  "unique_rows db \<Longrightarrow> unique_rows (nd_history ops db) \<and>
     (findUnique (nd_users db) u \<noteq> None \<longrightarrow> findUnique (nd_users (nd_history ops db)) u \<noteq> None)"
proof (induction ops arbitrary: db)
  case (Cons op ops)
  then show ?case using unique_apply users_kept by fastforce
qed simp

lemma caps_in_window:
  assumes "unique_rows db" and "u \<noteq> []" and "findUnique (nd_users db) u \<noteq> None" and "\<forall>op \<in> set ops. sends_recorded op"
  shows "length (filter (\<lambda>d. in_group u c double d \<and> a \<le> dl_at d \<and> dl_at d \<le> a + cap_window c double) (deliveries ops db))
    \<le> cap_messages c double"
  using assms(4)
proof (induction ops rule: rev_induct)
  case (snoc op ops)
  let ?in = "\<lambda>d. in_group u c double d \<and> a \<le> dl_at d \<and> dl_at d \<le> a + cap_window c double"
  let ?db = "nd_history ops db"
  show ?case
  proof (cases "filter ?in (delivered op ?db) = []")
    case True
    with snoc show ?thesis by (simp add: deliveries_snoc)
  next
    case False
    then obtain E now i dto where op: "op = OpSend E now i u c dto" "shouldSend E now u c (cn_type dto) ?db"
      and at: "a \<le> now" "now \<le> a + cap_window c double" "doubled c (cn_type dto) = double"
      by (cases op) (auto simp: in_group_def sendIfAllowed_def split: if_splits)
    have "length (filter ?in (deliveries ops db)) \<le> group_count u c double (now - cap_window c double) (deliveries ops db)"
      unfolding group_count_def using at by (intro filter_more) auto
    also have "\<dots> \<le> group_count u c double (now - cap_window c double) (map logged (nd_log ?db))"
      using deliveries_logged [OF assms(1-3), of ops c double "now - cap_window c double"] snoc.prems by simp
    also have "\<dots> < cap_messages c double"
      using sent_below_cap [OF _ op(2)] snoc.prems at(3) by (auto simp: op sends_recorded_def)
    finally show ?thesis using False by (auto simp: deliveries_snoc op(1) split: if_splits)
  qed
qed simp

section \<open>Properties\<close>

text \<open>A user who has been silent for twenty days, with a streak, and one who was active today.\<close>

definition example_member :: "date \<Rightarrow> notif_user" where
  "example_member t = \<lparr>nu_username = None, nu_email = None, nu_telegramId = None, nu_telegramChatId = None, nu_whatsappId = None,
     nu_discordId = None, nu_slackId = None, nu_address = None, nu_socialNodes = [], nu_createdAt = t, nu_active = True\<rparr>"

definition example_members :: notif_db where
  "example_members = \<lparr>nd_users = [(''b'', example_member 0), (''a'', example_member 0)], nd_memory = Map.empty,
     nd_preferences = Map.empty, nd_log = [], nd_rows = [],
     nd_streaks = [(''s'', \<lparr>sk_userId = ''a'', sk_lastActiveAt = 0, sk_currentStreak = 3\<rparr>)],
     nd_activity = [(''b'', 20 * DAY)], nd_sent = []\<rparr>"

definition example_bots :: notif_env where
  "example_bots = \<lparr>ne_readOk = True, ne_countOk = True, ne_logOk = True, ne_rowOk = True, ne_telegramBot = False,
     ne_whatsappBot = False, ne_discordBot = False, ne_slackBot = False, ne_discordWebhook = None, ne_slackWebhook = None\<rparr>"

lemma example_unique: "unique_rows example_members"
  by (simp add: unique_rows_def keys_unique_def example_members_def)

lemma example_silent:
  "map fst (dormant_users (20 * DAY - INACTIVITY_DAYS * DAY) example_members) = [''a'']"
  "map fst (streak_rows (20 * DAY - 23 * 60 * 60 * 1000) example_members) = [''s'']"
  by (simp_all add: dormant_users_def streak_rows_def in_id_order_def example_members_def example_member_def INACTIVITY_DAYS_def DAY_def)



text \<open>A user can be passed over although no page failed: when the last user of a full page becomes active before the next
  page is read, the first user after is not visited by this run, dormant or not.\<close>

lemma dormant_user_passed_over:
  assumes "shared X owner others db" and "c \<notin> keys_of (dormant_users since (others (BeforePage (Some c)) db))"
    and "filter (\<lambda>row. c < fst row) (dormant_users since (others (BeforePage (Some c)) db)) = (i, u) # rest"
  shows "\<exists>seen db'. each_page BATCH_SIZE (dormant_users since) (winback_batch E markOk ids now others) (others \<circ> BeforePage) (Some c) db =
    Some (seen, db') \<and> i \<notin> keys_of seen"
  by (rule shared_winbacks.passed_over [OF assms(1)]) (unfold comp_apply, rule assms(2), rule assms(3))

lemma ordered_distinct: "sorted_wrt (<) (ids :: string list) \<Longrightarrow> distinct ids"
  by (simp add: strict_sorted_iff)

lemma one_streak_each:
  fixes seen :: "InteractionStreak table"
  assumes "sorted_wrt (<) (map fst seen)" and "inj_on owner (dom owner)" and "\<forall>(i, r) \<in> set seen. owner i = Some (sk_userId r)"
  shows "distinct (map (sk_userId \<circ> snd) seen)"
proof -
  have keys: "distinct (map fst seen)" using assms(1) by (rule ordered_distinct)
  have "inj_on (sk_userId \<circ> snd) (set seen)"
  proof (rule inj_onI)
    fix a b assume ab: "a \<in> set seen" "b \<in> set seen" "(sk_userId \<circ> snd) a = (sk_userId \<circ> snd) b"
    then have "owner (fst a) = Some (sk_userId (snd a))" "owner (fst b) = Some (sk_userId (snd a))" using assms(3) by auto
    then have "fst a = fst b" using assms(2) by (metis domI inj_onD)
    with keys ab show "a = b" by (metis distinct_map inj_onD)
  qed
  with keys show ?thesis by (simp add: distinct_map)
qed


text \<open>While the jobs run, somebody registers whenever the identifier is free.\<close>

definition joining :: others where
  "joining p db = nd_apply (OpRegister ''c'' (example_member 0)) db"

lemma example_shared: "shared {''a'', ''b'', ''c''} [''s'' \<mapsto> ''a''] joining example_members"
proof -
  have "owned {''a'', ''b'', ''c''} [''s'' \<mapsto> ''a''] (joining p db)" if "owned {''a'', ''b'', ''c''} [''s'' \<mapsto> ''a''] db" for p db
    using that unique_apply [of db "OpRegister ''c'' (example_member 0)"] by (auto simp: owned_def joining_def create_row_def)
  then show ?thesis by (simp add: shared_def owned_def example_unique) (simp add: example_members_def)
qed


text \<open>In any history a user gets no second win-back message unless an activity of this user came after the message
  before, and fourteen days without any activity after that one. The marker rows are assumed to be written: without its
  row a message is repeated by the next run.\<close>

theorem one_winback_per_spell:
  assumes "unique_rows db" and "nd_log db = []" and "\<forall>op \<in> set ops. well_typed op"
  shows "sorted_wrt (\<lambda>w w'. \<exists>a. (u, a) \<in> set (nd_activity (nd_history ops db)) \<and> w < a \<and> a + INACTIVITY_DAYS * DAY < w')
    (winbacks_of u (nd_history ops db))"
proof -
  have "spells_ok db" using assms(2) by (simp add: spells_ok_def winbacks_of_def)
  with assms have "spells_ok (nd_history ops db)" by (intro spells_history)
  then show ?thesis by (simp add: spells_ok_def between_spells_def [abs_def])
qed

theorem one_winback_per_spell_witness:
  "winbacks_of ''a'' (nd_history [OpWinback example_bots id (20 * DAY)] example_members) = [20 * DAY] \<and>
   sorted_wrt (\<lambda>w w'. \<exists>a. (''a'', a) \<in> set (nd_activity (nd_history [OpWinback example_bots id (20 * DAY),
       OpWinback example_bots id (21 * DAY)] example_members)) \<and> w < a \<and> a + INACTIVITY_DAYS * DAY < w')
     (winbacks_of ''a'' (nd_history [OpWinback example_bots id (20 * DAY), OpWinback example_bots id (21 * DAY)] example_members))"
proof
  let ?since = "20 * DAY - INACTIVITY_DAYS * DAY"
  obtain row where row: "dormant_users ?since example_members = [(''a'', row)]" using example_silent(1) by force
  have "winback_due example_members ''a'' row"
    by (simp add: winback_due_def winbacks_of_def latest_def example_members_def)
  then show "winbacks_of ''a'' (nd_history [OpWinback example_bots id (20 * DAY)] example_members) = [20 * DAY]"
    by (simp add: winback_job [OF example_unique] row winback_batch_fold winbacks_of_step)
      (simp add: winbacks_of_def example_members_def)
qed (rule one_winback_per_spell [OF example_unique], simp_all add: example_members_def)

text \<open>However the operations follow each other, \<open>sendIfAllowed\<close> delivers to a known user in any window no more messages
  of a category than its cap: three a week of \<open>socialProof\<close>, one a day of \<open>saving\<close>, two a day of the others and one
  \<open>DOUBLE_REWARD\<close> in thirty days, provided the log is read and written.\<close>

theorem frequency_caps_hold:
  assumes "unique_rows db" and "u \<noteq> []" and "findUnique (nd_users db) u \<noteq> None" and "\<forall>op \<in> set ops. sends_recorded op"
  shows "length (filter (\<lambda>d. dl_userId d = u \<and> dl_category d = c \<and> doubled c (dl_type d) = double \<and>
      a \<le> dl_at d \<and> dl_at d \<le> a + cap_window c double) (deliveries ops db)) \<le> cap_messages c double"
  using caps_in_window [OF assms] by (simp add: in_group_def conj_assoc)

theorem frequency_caps_hold_witness:
  "length (filter (\<lambda>d. dl_userId d = ''a'' \<and> dl_category d = saving \<and> doubled saving (dl_type d) = False \<and>
      0 \<le> dl_at d \<and> dl_at d \<le> 0 + cap_window saving False)
      (deliveries [OpSend example_bots 5 ''x'' ''a'' saving (streak_reminder ''a''),
         OpSend example_bots 6 ''y'' ''a'' saving (streak_reminder ''a'')] example_members)) \<le> 1 \<and>
   shouldSend example_bots 5 ''a'' saving ''SYSTEM'' example_members"
proof
  show "shouldSend example_bots 5 ''a'' saving ''SYSTEM'' example_members"
    by (simp add: shouldSend_def over_cap_def log_count_def example_members_def getUserPreferences_def default_preferences_def
        category_field_def)
next
  show "length (filter (\<lambda>d. dl_userId d = ''a'' \<and> dl_category d = saving \<and> doubled saving (dl_type d) = False \<and>
      0 \<le> dl_at d \<and> dl_at d \<le> 0 + cap_window saving False)
      (deliveries [OpSend example_bots 5 ''x'' ''a'' saving (streak_reminder ''a''),
         OpSend example_bots 6 ''y'' ''a'' saving (streak_reminder ''a'')] example_members)) \<le> 1"
    using frequency_caps_hold [OF example_unique, of "''a''" "[OpSend example_bots 5 ''x'' ''a'' saving (streak_reminder ''a''),
         OpSend example_bots 6 ''y'' ''a'' saving (streak_reminder ''a'')]" saving False 0]
    by (simp add: example_members_def findUnique_def sends_recorded_def example_bots_def cap_messages_def del: deliveries.simps)
qed

text \<open>The branch for deposits of the mapping of events to categories, and the one for created envelopes, are never taken: the
  branch before them covers their names.\<close>

lemma includes_prefix: "includes_str s (p @ q) \<Longrightarrow> includes_str s p"
  by (induction s) (auto simp: startsWith_def dest: arg_cong [where f = "take (length p)"])

lemma no_event_is_saving: "mapEventTypeToCategory type \<noteq> saving"
  using includes_prefix [of type "''vault_''" "''deposit''"] by (auto simp: mapEventTypeToCategory_def)

lemma created_envelope_is_spending: "includes_str type ''envelope_created'' \<Longrightarrow> mapEventTypeToCategory type = spending"
  using includes_prefix [of type "''envelope_''" "''created''"] by (auto simp: mapEventTypeToCategory_def)

end
