(* ===== verification/JsText.thy ===== *)
theory JsText
  imports Prelude
begin

text \<open>
  Texts as JavaScript has them, lists of UTF-16 code units, with the operations and the regular expressions that the
  parser of chat commands uses. Case mappings are those of ASCII and Latin-1 and the few other letters that they
  take to ASCII; every other letter is left as it is.
\<close>

section \<open>Code units\<close>

type_synonym unit16 = int
type_synonym js_text = "unit16 list"

definition lit :: "string \<Rightarrow> js_text" where "lit s = map of_char s"

definition is_space :: "unit16 \<Rightarrow> bool" where
  "is_space c \<longleftrightarrow> 9 \<le> c \<and> c \<le> 13 \<or> c = 32 \<or> c = 160 \<or> c = 0x1680 \<or> 0x2000 \<le> c \<and> c \<le> 0x200A \<or> c = 0x2028 \<or> c = 0x2029 \<or>
     c = 0x202F \<or> c = 0x205F \<or> c = 0x3000 \<or> c = 0xFEFF"

definition is_digit :: "unit16 \<Rightarrow> bool" where "is_digit c \<longleftrightarrow> 48 \<le> c \<and> c \<le> 57"

definition is_letter :: "unit16 \<Rightarrow> bool" where "is_letter c \<longleftrightarrow> 65 \<le> c \<and> c \<le> 90 \<or> 97 \<le> c \<and> c \<le> 122"

definition is_word :: "unit16 \<Rightarrow> bool" where "is_word c \<longleftrightarrow> is_digit c \<or> is_letter c \<or> c = 95"

definition lower_unit :: "unit16 \<Rightarrow> unit16" where
  "lower_unit c = (if 65 \<le> c \<and> c \<le> 90 \<or> 192 \<le> c \<and> c \<le> 222 \<and> c \<noteq> 215 then c + 32
     else if c = 0x212A then 107 else if c = 0x212B then 229 else c)"

definition upper_unit :: "unit16 \<Rightarrow> unit16" where
  "upper_unit c = (if 97 \<le> c \<and> c \<le> 122 \<or> 224 \<le> c \<and> c \<le> 254 \<and> c \<noteq> 247 then c - 32
     else if c = 0x17F then 83 else if c = 0x131 then 73 else c)"

definition text_lower :: "js_text \<Rightarrow> js_text" where "text_lower s = map lower_unit s"

definition text_upper :: "js_text \<Rightarrow> js_text" where
  "text_upper s = concat (map (\<lambda>c. if c = 223 then [83, 83] else [upper_unit c]) s)"

definition text_trim :: "js_text \<Rightarrow> js_text" where
  "text_trim s = rev (dropWhile is_space (rev (dropWhile is_space s)))"

text \<open>\<open>s.split(/[...]+/)\<close>: the words between the runs of units of a class; one empty word before a leading run and one
  after a trailing run.\<close>

function split_on :: "(unit16 \<Rightarrow> bool) \<Rightarrow> js_text \<Rightarrow> js_text list" where
  "split_on P s =
     (case dropWhile (\<lambda>c. \<not> P c) s of
        [] \<Rightarrow> [s]
      | c # rest \<Rightarrow> takeWhile (\<lambda>c. \<not> P c) s # split_on P (dropWhile P rest))"
  by pat_completeness auto
termination
proof (relation "measure (length \<circ> snd)", simp)
  fix P :: "unit16 \<Rightarrow> bool" and s rest :: js_text and c
  assume "dropWhile (\<lambda>c. \<not> P c) s = c # rest"
  then have "Suc (length rest) \<le> length s" by (metis length_Cons length_dropWhile_le)
  moreover have "length (dropWhile P rest) \<le> length rest" by (rule length_dropWhile_le)
  ultimately show "((P, dropWhile P rest), P, s) \<in> measure (length \<circ> snd)" by simp
qed

declare split_on.simps [simp del]

abbreviation split_spaces :: "js_text \<Rightarrow> js_text list" where "split_spaces \<equiv> split_on is_space"

text \<open>\<open>s.split(sep)\<close> for a separator of one unit, and \<open>words.join(sep)\<close>.\<close>

fun split_at :: "unit16 \<Rightarrow> js_text \<Rightarrow> js_text list" where
  "split_at sep [] = [[]]"
| "split_at sep (c # s) =
     (if c = sep then [] # split_at sep s
      else case split_at sep s of w # ws \<Rightarrow> (c # w) # ws | [] \<Rightarrow> [[c]])"

fun join_with :: "js_text \<Rightarrow> js_text list \<Rightarrow> js_text" where
  "join_with sep [] = []"
| "join_with sep [w] = w"
| "join_with sep (w # ws) = w @ sep @ join_with sep ws"

definition item :: "'a list \<Rightarrow> nat \<Rightarrow> 'a option" where
  "item xs i = (if i < length xs then Some (xs ! i) else None)"

section \<open>Numbers\<close>

definition digits_value :: "js_text \<Rightarrow> rat" where
  "digits_value ds = fold (\<lambda>d n. 10 * n + of_int (d - 48)) ds 0"

definition starts :: "js_text \<Rightarrow> js_text \<Rightarrow> bool" where "starts s p \<longleftrightarrow> take (length p) s = p"

text \<open>The exponent of a decimal literal, if the text goes on with one.\<close>

definition exponent :: "js_text \<Rightarrow> int" where
  "exponent s =
     (case s of
        e # rest \<Rightarrow>
          if e \<noteq> 101 \<and> e \<noteq> 69 then 0
          else
            let neg = starts rest [45];
                ds = takeWhile is_digit (if neg \<or> starts rest [43] then drop 1 rest else rest);
                v = \<lfloor>digits_value ds\<rfloor>
            in if neg then - v else v
      | [] \<Rightarrow> 0)"

definition scale10 :: "rat \<Rightarrow> int \<Rightarrow> rat" where
  "scale10 x e = (if 0 \<le> e then x * 10 ^ nat e else x / 10 ^ nat (- e))"

definition decimal_prefix :: "js_text \<Rightarrow> js_number" where
  "decimal_prefix s =
     (if starts s (lit ''Infinity'') then JInf
      else
        let whole = takeWhile is_digit s;
            rest = dropWhile is_digit s;
            frac = (if starts rest [46] then takeWhile is_digit (drop 1 rest) else []);
            rest' = (if starts rest [46] then dropWhile is_digit (drop 1 rest) else rest)
        in if whole = [] \<and> frac = [] then JNaN
           else JNum (scale10 (digits_value (whole @ frac)) (exponent rest' - int (length frac))))"

fun jneg :: "js_number \<Rightarrow> js_number" where
  "jneg (JNum r) = JNum (- r)"
| "jneg JInf = JNegInf"
| "jneg JNegInf = JInf"
| "jneg JNaN = JNaN"

definition parseFloat :: "js_text \<Rightarrow> js_number" where
  "parseFloat s =
     (let s' = dropWhile is_space s in
      if starts s' [45] then jneg (decimal_prefix (drop 1 s'))
      else decimal_prefix (if starts s' [43] then drop 1 s' else s'))"

text \<open>\<open>parseFloat(undefined)\<close> reads the text of \<open>undefined\<close>.\<close>

definition parseFloat_opt :: "js_text option \<Rightarrow> js_number" where
  "parseFloat_opt x = (case x of Some s \<Rightarrow> parseFloat s | None \<Rightarrow> JNaN)"

definition hex_digit :: "unit16 \<Rightarrow> bool" where
  "hex_digit c \<longleftrightarrow> is_digit c \<or> 65 \<le> c \<and> c \<le> 70 \<or> 97 \<le> c \<and> c \<le> 102"

definition hex_digits_value :: "js_text \<Rightarrow> rat" where
  "hex_digits_value ds =
     fold (\<lambda>d n. 16 * n + of_int (if is_digit d then d - 48 else if d \<le> 70 then d - 55 else d - 87)) ds 0"

definition int_prefix :: "js_text \<Rightarrow> js_number" where
  "int_prefix s =
     (if starts s [48, 120] \<or> starts s [48, 88]
      then let ds = takeWhile hex_digit (drop 2 s) in if ds = [] then JNaN else JNum (hex_digits_value ds)
      else let ds = takeWhile is_digit s in if ds = [] then JNaN else JNum (digits_value ds))"

definition parseInt :: "js_text \<Rightarrow> js_number" where
  "parseInt s =
     (let s' = dropWhile is_space s in
      if starts s' [45] then jneg (int_prefix (drop 1 s'))
      else int_prefix (if starts s' [43] then drop 1 s' else s'))"

section \<open>Regular expressions\<close>

text \<open>The patterns of the parser have characters, sequences, alternatives, greedy repetitions and capturing groups. A
  state of a match is what the groups captured and the text that is left. The matcher returns the states after all
  ways to match, in the order in which the backtracking search of ECMAScript tries them, so the first one is the
  match. An iteration that consumes nothing ends a repetition.\<close>

datatype regex =
    Empty
  | Unit "unit16 \<Rightarrow> bool"
  | Seq regex regex
  | Alt regex regex
  | Star regex
  | Group nat regex

type_synonym captures = "(nat \<times> js_text) list"
type_synonym mstate = "captures \<times> js_text"

function rmatch :: "regex \<Rightarrow> mstate \<Rightarrow> mstate list" where
  "rmatch Empty st = [st]"
| "rmatch (Unit p) st = (case snd st of c # s \<Rightarrow> if p c then [(fst st, s)] else [] | [] \<Rightarrow> [])"
| "rmatch (Seq a b) st = concat (map (rmatch b) (rmatch a st))"
| "rmatch (Alt a b) st = rmatch a st @ rmatch b st"
| "rmatch (Star a) st =
     concat (map (rmatch (Star a)) (filter (\<lambda>st'. length (snd st') < length (snd st)) (rmatch a st))) @ [st]"
| "rmatch (Group n a) st =
     map (\<lambda>(cs, rest). ((n, take (length (snd st) - length rest) (snd st)) # cs, rest)) (rmatch a st)"
  by pat_completeness auto
termination
  by (relation "measures [size \<circ> fst, length \<circ> snd \<circ> snd]") auto

text \<open>\<open>text.match(r)\<close>: the first position where the expression matches.\<close>

fun regex_search :: "regex \<Rightarrow> js_text \<Rightarrow> captures option" where
  "regex_search r s =
     (case rmatch r ([], s) of
        st # _ \<Rightarrow> Some (fst st)
      | [] \<Rightarrow> (case s of [] \<Rightarrow> None | _ # s' \<Rightarrow> regex_search r s'))"

declare regex_search.simps [simp del]

text \<open>\<open>/^r/.test(s)\<close>.\<close>

definition regex_starts :: "regex \<Rightarrow> js_text \<Rightarrow> bool" where
  "regex_starts r s \<longleftrightarrow> rmatch r ([], s) \<noteq> []"

definition Opt :: "regex \<Rightarrow> regex" where "Opt r = Alt r Empty"
definition Plus :: "regex \<Rightarrow> regex" where "Plus r = Seq r (Star r)"

fun Times :: "nat \<Rightarrow> regex \<Rightarrow> regex" where
  "Times 0 r = Empty"
| "Times (Suc n) r = Seq r (Times n r)"

fun Seqs :: "regex list \<Rightarrow> regex" where
  "Seqs [] = Empty"
| "Seqs [r] = r"
| "Seqs (r # rs) = Seq r (Seqs rs)"

fun Alts :: "regex list \<Rightarrow> regex" where
  "Alts [] = Unit (\<lambda>_. False)"
| "Alts [r] = r"
| "Alts (r # rs) = Alt r (Alts rs)"

definition Exactly :: "unit16 \<Rightarrow> regex" where "Exactly c = Unit (\<lambda>x. x = c)"

text \<open>A literal word without regard to case. \<open>Canonicalize\<close> takes no other letter to ASCII.\<close>

definition fold_case :: "unit16 \<Rightarrow> unit16" where
  "fold_case c = (if 65 \<le> c \<and> c \<le> 90 then c + 32 else c)"

definition Word :: "string \<Rightarrow> regex" where
  "Word w = Seqs (map (\<lambda>c. Unit (\<lambda>x. fold_case x = of_char c)) w)"

abbreviation Spaces :: regex where "Spaces \<equiv> Plus (Unit is_space)"
abbreviation Spaces0 :: regex where "Spaces0 \<equiv> Star (Unit is_space)"
abbreviation Digits :: regex where "Digits \<equiv> Plus (Unit is_digit)"

definition captured :: "nat \<Rightarrow> captures \<Rightarrow> js_text option" where
  "captured n cs = map_of cs n"

section \<open>Printed numbers are read back\<close>

lemma fold_digits: "fold (\<lambda>d n. 10 * n + of_int (d - 48)) (xs @ [x]) (v :: rat) = 10 * fold (\<lambda>d n. 10 * n + of_int (d - 48)) xs v + of_int (x - 48)"
  by simp

lemma digit_unit: "d < 10 \<Longrightarrow> (of_char (char_of (48 + d)) :: int) = 48 + int d"
proof -
  assume "d < 10"
  then have "(of_char (char_of (48 + d) :: char) :: nat) = 48 + d" by simp
  moreover have "(of_char c :: int) = int (of_char c)" for c :: char by (simp add: of_nat_of_char)
  ultimately show ?thesis by simp
qed

lemma shown_digits:
  "digits_value (lit (show_nat n)) = of_nat n \<and> (\<forall>c \<in> set (lit (show_nat n)). is_digit c) \<and> lit (show_nat n) \<noteq> []"
proof (induction n rule: less_induct)
  case (less n)
  show ?case
  proof (cases "n < 10")
    case True
    then show ?thesis
      by (subst (1 2 3) show_nat_def, subst (1 2 3) dec_le.simps) (auto simp: digits_value_def is_digit_def lit_def digit_unit)
  next
    case False
    have "lit (show_nat n) = lit (show_nat (n div 10)) @ [of_char (char_of (48 + n mod 10))]"
      unfolding show_nat_def by (subst dec_le.simps) (use False in \<open>simp add: lit_def\<close>)
    moreover have "(of_char (char_of (48 + n mod 10)) :: int) = 48 + int (n mod 10)"
      by (simp add: digit_unit)
    moreover have "(of_nat n :: rat) = 10 * of_nat (n div 10) + of_nat (n mod 10)"
      by (metis of_nat_add of_nat_mult of_nat_numeral mult_div_mod_eq)
    ultimately show ?thesis
      using less [of "n div 10"] False by (simp add: digits_value_def is_digit_def)
  qed
qed

lemma digits_start:
  assumes "\<forall>c \<in> set s. is_digit c" and "\<exists>c \<in> set p. \<not> is_digit c"
  shows "\<not> starts s p"
proof
  assume "starts s p"
  then have "set p \<subseteq> set s" unfolding starts_def using set_take_subset [of "length p" s] by simp
  with assms show False by auto
qed

text \<open>A word with a letter is not the start of a number.\<close>

lemma digits_plain:
  assumes "\<forall>c \<in> set s. is_digit c"
  shows "dropWhile is_space s = s" "text_trim s = s" "\<not> starts s [45]" "\<not> starts s [43]" "\<not> starts s [46]" "\<not> starts s (lit ''Infinity'')"
    "takeWhile is_digit s = s" "dropWhile is_digit s = []"
proof -
  have trimmed: "dropWhile is_space u = u" if "\<forall>c \<in> set u. is_digit c" for u
    using that by (cases u) (auto simp: is_digit_def is_space_def)
  then show "dropWhile is_space s = s" using assms .
  show "text_trim s = s" unfolding text_trim_def using trimmed [of s] trimmed [of "rev s"] assms by simp
  show "\<not> starts s [45]" "\<not> starts s [43]" "\<not> starts s [46]" by (rule digits_start [OF assms]; simp add: is_digit_def)+
  show "\<not> starts s (lit ''Infinity'')" by (rule digits_start [OF assms]) (simp add: lit_def is_digit_def)
  show "takeWhile is_digit s = s" "dropWhile is_digit s = []" using assms by simp_all
qed

lemma decimal_prefix_shown: "decimal_prefix (lit (show_nat n)) = JNum (of_nat n)"
proof -
  have digits: "\<forall>c \<in> set (lit (show_nat n)). is_digit c" and value_is: "digits_value (lit (show_nat n)) = of_nat n" and "lit (show_nat n) \<noteq> []"
    using shown_digits by blast+
  note plain = digits_plain [OF digits]
  show ?thesis
    unfolding decimal_prefix_def Let_def plain by (simp add: plain(6) value_is \<open>lit (show_nat n) \<noteq> []\<close> starts_def [of "[]"] exponent_def scale10_def)
qed

end
