(* ===== verification/Commands.thy ===== *)
theory Commands
  imports JsText
begin

text \<open>
  \<open>backend/src/platform/command-parser.service.ts\<close> and \<open>resolveToken\<close> of \<open>config/tokens.config.ts\<close>: the chat commands.
  Slash commands and fixed patterns are read by the deterministic parser, everything else by a language model, whose
  answer is an argument, absent when it fails or takes too long. \<open>parseRegex\<close> is one chain of conditions; it is cut here
  into groups that are tried in the order of the code. The time a parse takes is left out. Of a parameter that is
  not given and one that is \<open>null\<close> no difference is made.
\<close>

section \<open>Tokens\<close>

record TokenInfo =
  ti_symbol :: js_text
  ti_name :: js_text
  ti_address :: js_text
  ti_decimals :: nat
  ti_icon :: js_text

definition DEFAULT_TOKEN_SYMBOL :: js_text where "DEFAULT_TOKEN_SYMBOL = lit ''USDC''"
definition NATIVE_TOKEN_ADDRESS :: js_text where "NATIVE_TOKEN_ADDRESS = lit ''11111111111111111111111111111111''"

text \<open>\<open>mint\<close> is the address of the USDC mint of the deployment.\<close>

definition getSupportedTokens :: "js_text \<Rightarrow> (js_text \<times> TokenInfo) list" where
  "getSupportedTokens mint =
     [(lit ''USDC'', \<lparr>ti_symbol = lit ''USDC'', ti_name = lit ''USD Coin'', ti_address = mint, ti_decimals = 6, ti_icon = lit ''USDC''\<rparr>),
      (lit ''SOL'', \<lparr>ti_symbol = lit ''SOL'', ti_name = lit ''Solana'', ti_address = NATIVE_TOKEN_ADDRESS, ti_decimals = 9,
        ti_icon = lit ''SOL''\<rparr>)]"

definition resolveToken :: "js_text \<Rightarrow> js_text option \<Rightarrow> TokenInfo option" where
  "resolveToken mint symbol =
     (case symbol of
        Some s \<Rightarrow> map_of (getSupportedTokens mint) (if s = [] then DEFAULT_TOKEN_SYMBOL else text_upper (text_trim s))
      | None \<Rightarrow> map_of (getSupportedTokens mint) DEFAULT_TOKEN_SYMBOL)"

section \<open>Commands\<close>

datatype CommandIntent =
    START | HELP | PAY | REQUEST | REQUESTS_MENU | SAVE | ENVELOPE | ENVELOPES_MENU | VAULTS_MENU | POOLS_MENU
  | POOL_INVITE | POOL_JOIN | POOL_DEPOSIT | POOL_REQUEST | SPLIT | SPLITS_MENU | REFERRAL | SUBSCRIBE | WALLET | DASHBOARD
  | BALANCE | CONTACTS | HISTORY | LEADERBOARD | BADGES | INVITE | STATS | PENDING | CANCEL | ADMIN_STATS | ADMIN_INSIGHTS
  | ADMIN_ALERT | ADMIN_ADD | VERIFY | MENU | TOKENS | ADD_TOKEN | REMOVE_TOKEN | UNKNOWN

record CommandParams =
  cp_amount :: "js_number option"
  cp_tokenSymbol :: "js_text option"
  cp_tokenInfo :: "TokenInfo option"
  cp_unsupportedToken :: "js_text option"
  cp_tokenAddress :: "js_text option"
  cp_recipient :: "js_text option"
  cp_participants :: "js_text list option"
  cp_memo :: "js_text option"
  cp_claimsCount :: "js_number option"
  cp_intervalDays :: "js_number option"
  cp_poolName :: "js_text option"
  cp_poolId :: "js_text option"
  cp_members :: "js_text list option"
  cp_code :: "js_text option"
  cp_adminArgs :: "js_text option list"

definition no_params :: CommandParams where
  "no_params = \<lparr>cp_amount = None, cp_tokenSymbol = None, cp_tokenInfo = None, cp_unsupportedToken = None, cp_tokenAddress = None,
     cp_recipient = None, cp_participants = None, cp_memo = None, cp_claimsCount = None, cp_intervalDays = None, cp_poolName = None,
     cp_poolId = None, cp_members = None, cp_code = None, cp_adminArgs = []\<rparr>"

type_synonym command = "CommandIntent \<times> CommandParams"

definition given :: "js_text option \<Rightarrow> bool" where "given x \<longleftrightarrow> x \<noteq> None \<and> x \<noteq> Some []"

definition or_text :: "js_text option \<Rightarrow> js_text option \<Rightarrow> js_text option" where "or_text x y = (if given x then x else y)"

definition or_else :: "'a option \<Rightarrow> 'a option \<Rightarrow> 'a option" where
  "or_else x y = (case x of Some a \<Rightarrow> Some a | None \<Rightarrow> y)"

section \<open>Slash commands and buttons\<close>

definition menu :: "CommandIntent \<Rightarrow> command option" where "menu i = Some (i, no_params)"

definition instant_commands :: "js_text list \<Rightarrow> js_text \<Rightarrow> js_text \<Rightarrow> command option" where
  "instant_commands tokens first fullLower =
     (if first = lit ''/start'' then menu START
      else if first = lit ''/help'' \<or> fullLower = [0x2139, 0xFE0F] @ lit '' help'' \<or> first = lit ''help'' then menu HELP
      else if first = lit ''/wallet'' \<or> fullLower = [0xD83D, 0xDCB3] @ lit '' wallet'' then menu WALLET
      else if first = lit ''/dashboard'' \<or> fullLower = lit ''dashboard'' \<or> fullLower = [0xD83D, 0xDDA5, 0xFE0F] @ lit '' dashboard''
      then menu DASHBOARD
      else if first = lit ''/balance'' then menu BALANCE
      else if first = lit ''/contacts'' \<or> fullLower = lit ''contacts'' \<or> fullLower = lit ''my contacts'' then menu CONTACTS
      else if first = lit ''/history'' \<or> first = lit ''/activity'' \<or> first = lit ''/transactions'' \<or> first = lit ''/tx'' \<or>
        fullLower = [0xD83D, 0xDCDC] @ lit '' history'' \<or> fullLower = [0xD83D, 0xDCDC] @ lit '' activity'' \<or>
        fullLower = lit ''transactions'' \<or> fullLower = lit ''my activity'' then menu HISTORY
      else if first = lit ''/referral'' \<or> first = lit ''/invite'' \<or> fullLower = [0xD83C, 0xDF81] @ lit '' refer & earn''
      then menu INVITE
      else if first = lit ''/leaderboard'' \<or> fullLower = [0xD83C, 0xDFC6] @ lit '' leaderboard'' then menu LEADERBOARD
      else if first = lit ''/badges'' \<or> fullLower = [0xD83C, 0xDF96, 0xFE0F] @ lit '' badges'' then menu BADGES
      else if first = lit ''/stats'' then menu STATS
      else if first = lit ''/tokens'' \<or> fullLower = [0xD83E, 0xDE99] @ lit '' tokens'' then menu TOKENS
      else if first = lit ''/addtoken'' \<or> first = lit ''/watchtoken''
      then Some (ADD_TOKEN, no_params\<lparr>cp_tokenAddress := item tokens 1\<rparr>)
      else if first = lit ''/removetoken'' \<or> first = lit ''/unwatchtoken''
      then Some (REMOVE_TOKEN, no_params\<lparr>cp_tokenAddress := item tokens 1\<rparr>)
      else if first = lit ''/pending'' \<or> fullLower = [0x23F3] @ lit '' pending'' \<or> fullLower = lit ''pending payments''
      then menu PENDING
      else if first = lit ''/cancel''
      then (let code = map_option text_trim (item tokens 1) in
            if given code then Some (CANCEL, no_params\<lparr>cp_code := code\<rparr>) else menu PENDING)
      else if fullLower = [0xD83D, 0xDCB8] @ lit '' send'' then menu PAY
      else if first = lit ''/requests'' \<or> fullLower = [0xD83D, 0xDCE5] @ lit '' requests'' \<or>
        fullLower = [0xD83D, 0xDCE5] @ lit '' request'' then menu REQUESTS_MENU
      else if first = lit ''/splits'' \<or> fullLower = [0xD83D, 0xDCCA] @ lit '' splits'' \<or> fullLower = [0xD83D, 0xDCCA] @ lit '' split''
      then menu SPLITS_MENU
      else if first = lit ''/envelopes'' \<or> fullLower = [0xD83E, 0xDDE7] @ lit '' envelopes'' \<or>
        fullLower = [0xD83E, 0xDDE7] @ lit '' red envelope'' then menu ENVELOPES_MENU
      else if first = lit ''/pools'' \<or> first = lit ''/pool'' \<or> fullLower = [0xD83D, 0xDC65] @ lit '' pools'' \<or>
        fullLower = [0xD83C, 0xDFE6] @ lit '' group pools'' then menu POOLS_MENU
      else None)"

definition pool_commands :: "js_text \<Rightarrow> js_text list \<Rightarrow> js_text \<Rightarrow> js_text \<Rightarrow> command option" where
  "pool_commands mint tokens first fullLower =
     (if first = lit ''/pool'' \<and> item tokens 1 = Some (lit ''invite'') \<and> given (item tokens 2)
      then Some (POOL_INVITE, no_params\<lparr>cp_poolId := item tokens 2,
             cp_members := Some (filter (\<lambda>m. m \<noteq> []) (map text_trim (split_at 44 (join_with (lit '' '') (drop 3 tokens)))))\<rparr>)
      else if first = lit ''/pool'' \<and> item tokens 1 = Some (lit ''join'') \<and> given (item tokens 2)
      then Some (POOL_JOIN, no_params\<lparr>cp_poolId := item tokens 2\<rparr>)
      else if first = lit ''/pool'' \<and> item tokens 1 = Some (lit ''deposit'') \<and> given (item tokens 2) \<and> given (item tokens 3)
      then (let symbol = or_text (item tokens 4) (Some DEFAULT_TOKEN_SYMBOL);
                info = resolveToken mint symbol
            in Some (POOL_DEPOSIT, no_params\<lparr>cp_poolId := item tokens 2, cp_amount := Some (parseFloat_opt (item tokens 3)),
                 cp_tokenSymbol := or_text (map_option ti_symbol info) symbol, cp_tokenInfo := info\<rparr>))
      else if first = lit ''/pool'' \<and> item tokens 1 = Some (lit ''request'') \<and> given (item tokens 2) \<and> given (item tokens 3)
      then Some (POOL_REQUEST, no_params\<lparr>cp_poolId := item tokens 2, cp_amount := Some (parseFloat_opt (item tokens 3)),
             cp_memo := (let purpose = join_with (lit '' '') (drop 4 tokens) in if purpose = [] then None else Some purpose)\<rparr>)
      else if first = lit ''/menu'' \<or> fullLower = [0xD83D, 0xDCD1] @ lit '' menu'' then menu MENU
      else if fullLower = [0xD83C, 0xDFE6] @ lit '' vaults'' \<or> fullLower = [0xD83C, 0xDFAF] @ lit '' save ai'' then menu VAULTS_MENU
      else None)"

text \<open>The parameters of a token: its symbol when it is supported, else what was written.\<close>

definition token_params :: "js_text \<Rightarrow> js_text option \<Rightarrow> CommandParams" where
  "token_params mint symbol =
     (let info = resolveToken mint symbol in
      no_params\<lparr>cp_tokenSymbol := or_text (map_option ti_symbol info) symbol, cp_tokenInfo := info,
        cp_unsupportedToken := (if info = None then symbol else None)\<rparr>)"

definition slash_pay :: "js_text \<Rightarrow> js_text list \<Rightarrow> command" where
  "slash_pay mint tokens =
     (let named = resolveToken mint (item tokens 2) \<noteq> None;
          symbol = (if named then item tokens 2 else Some DEFAULT_TOKEN_SYMBOL);
          recipient = (if named then item tokens 3 else item tokens 2);
          memoIndex = (if named then 4 else 3)
      in (PAY, (token_params mint symbol)\<lparr>cp_amount := Some (parseFloat_opt (item tokens 1)), cp_recipient := recipient,
            cp_memo := Some (join_with (lit '' '') (drop memoIndex tokens))\<rparr>))"

definition slash_request :: "js_text \<Rightarrow> js_text list \<Rightarrow> command" where
  "slash_request mint tokens =
     (let named = resolveToken mint (item tokens 2) \<noteq> None;
          symbol = (if named then item tokens 2 else Some DEFAULT_TOKEN_SYMBOL);
          recipient = (if named then item tokens 3 else item tokens 2);
          from = given (item tokens 3) \<and> map_option text_lower (item tokens 3) = Some (lit ''from'') \<and> given (item tokens 4)
      in (REQUEST, (token_params mint symbol)\<lparr>cp_amount := Some (parseFloat_opt (item tokens 1)),
            cp_recipient := (if from then item tokens 4 else recipient)\<rparr>))"

definition slash_split :: "js_text \<Rightarrow> js_text list \<Rightarrow> command" where
  "slash_split mint tokens =
     (let maybe = (if given (item tokens 2) then resolveToken mint (item tokens 2) else None);
          symbol = (case maybe of Some info \<Rightarrow> ti_symbol info | None \<Rightarrow> DEFAULT_TOKEN_SYMBOL);
          info = resolveToken mint (Some symbol)
      in (SPLIT, no_params\<lparr>cp_amount := Some (parseFloat_opt (item tokens 1)),
            cp_tokenSymbol := or_text (map_option ti_symbol info) (Some symbol), cp_tokenInfo := info,
            cp_participants := Some (filter (\<lambda>p. p \<noteq> []) (map text_trim (drop (if maybe = None then 2 else 3) tokens)))\<rparr>))"

definition slash_admin :: "js_text list \<Rightarrow> command" where
  "slash_admin tokens =
     (let sub = map_option text_lower (item tokens 1) in
      if sub = Some (lit ''stats'') then (ADMIN_STATS, no_params)
      else if sub = Some (lit ''insights'') then (ADMIN_INSIGHTS, no_params)
      else if sub = Some (lit ''alert'') then (ADMIN_ALERT, no_params\<lparr>cp_adminArgs := [Some (join_with (lit '' '') (drop 2 tokens))]\<rparr>)
      else if sub = Some (lit ''whitelist'') \<and> map_option text_lower (item tokens 2) = Some (lit ''add'')
      then (ADMIN_ADD, no_params\<lparr>cp_adminArgs := [item tokens 3, item tokens 4]\<rparr>)
      else (ADMIN_STATS, no_params))"

definition structured_commands :: "js_text \<Rightarrow> js_text list \<Rightarrow> js_text \<Rightarrow> command option" where
  "structured_commands mint tokens first =
     (if first = lit ''/pay'' then Some (slash_pay mint tokens)
      else if first = lit ''/request'' then Some (slash_request mint tokens)
      else if first = lit ''/save''
      then Some (SAVE, no_params\<lparr>cp_amount := Some (parseFloat_opt (or_text (item tokens 1) (Some (lit ''100''))))\<rparr>)
      else if first = lit ''/envelope''
      then Some (ENVELOPE, no_params\<lparr>cp_amount := Some (parseFloat_opt (or_text (item tokens 1) (Some (lit ''50'')))),
             cp_claimsCount := map_option parseInt (or_text (item tokens 2) (Some (lit ''5'')))\<rparr>)
      else if first = lit ''/split'' then Some (slash_split mint tokens)
      else if first = lit ''/subscribe''
      then Some (SUBSCRIBE, no_params\<lparr>cp_amount := Some (parseFloat_opt (item tokens 1)), cp_recipient := item tokens 2,
             cp_intervalDays := map_option parseInt (or_text (item tokens 3) (Some (lit ''30'')))\<rparr>)
      else if first = lit ''/admin'' then Some (slash_admin tokens)
      else None)"

section \<open>Patterns\<close>

definition Amount :: "nat \<Rightarrow> regex" where
  "Amount n = Group n (Seq Digits (Opt (Seq (Exactly 46) Digits)))"

definition Currency :: regex where "Currency = Opt (Alts [Exactly 36, Exactly 0x20AC, Exactly 163])"

definition Letters :: "nat \<Rightarrow> regex" where "Letters n = Opt (Group n (Plus (Unit is_letter)))"

definition Recipient :: "nat \<Rightarrow> regex" where
  "Recipient n = Group n (Alts
     [Seqs [Exactly 48, Unit (\<lambda>c. fold_case c = 120), Times 40 (Unit hex_digit)],
      Seq (Opt (Exactly 64)) (Plus (Unit (\<lambda>c. is_word c \<or> c = 46))),
      Seqs [Opt (Exactly 43), Unit is_digit,
        Times 6 (Unit (\<lambda>c. is_digit c \<or> is_space c \<or> c = 45 \<or> c = 40 \<or> c = 41)),
        Star (Unit (\<lambda>c. is_digit c \<or> is_space c \<or> c = 45 \<or> c = 40 \<or> c = 41))]])"

definition Memo :: "nat \<Rightarrow> regex" where
  "Memo n = Opt (Seqs [Spaces, Word ''for'', Spaces,
     Group n (Plus (Unit (\<lambda>c. c \<noteq> 10 \<and> c \<noteq> 13 \<and> c \<noteq> 0x2028 \<and> c \<noteq> 0x2029)))])"

definition money_pattern :: "string list \<Rightarrow> string \<Rightarrow> regex" where
  "money_pattern verbs preposition = Seqs
     [Alts (map Word verbs), Spaces,
      Alt (Seqs [Currency, Amount 1, Spaces0, Letters 2]) (Seqs [Letters 3, Spaces0, Currency, Amount 4]),
      Spaces, Opt (Seq (Word preposition) Spaces), Recipient 5, Memo 6]"

definition regexPayPattern :: regex where "regexPayPattern = money_pattern [''send'', ''pay'', ''transfer''] ''to''"

definition regexRequestPattern :: regex where "regexRequestPattern = money_pattern [''request'', ''ask''] ''from''"

definition regexSavePattern :: regex where
  "regexSavePattern = Seqs [Alts [Word ''save'', Word ''deposit'', Word ''compound''], Spaces, Opt (Exactly 36), Amount 1]"

definition regexSplitPattern :: regex where
  "regexSplitPattern = Seqs [Word ''split'', Spaces, Opt (Seq (Word ''the'') Spaces), Opt (Exactly 36), Amount 1, Spaces,
     Opt (Seq (Word ''bill'') Spaces), Word ''with'', Spaces,
     Group 2 (Plus (Seqs [Opt (Exactly 64), Plus (Unit is_word), Star (Unit (\<lambda>c. is_space c \<or> c = 44 \<or> is_letter c))]))]"

definition regexVerifyPattern :: regex where
  "regexVerifyPattern = Seqs [Alts [Word ''/verify'', Word ''verify''], Spaces, Group 1 Digits]"

text \<open>What a match of a payment or a request means. When the word taken for the token is the preposition, or \<open>for\<close>, the
  default token is meant.\<close>

definition natural_money :: "js_text \<Rightarrow> CommandIntent \<Rightarrow> string \<Rightarrow> captures \<Rightarrow> command" where
  "natural_money mint intent preposition m =
     (let amount = parseFloat_opt (or_text (captured 1 m) (captured 4 m));
          raw = or_text (captured 2 m) (captured 3 m);
          word = map_option text_lower raw;
          misread = given raw \<and> (word = Some (lit preposition) \<or> word = Some (lit ''for''));
          recipient = (if misread \<and> word \<noteq> Some (lit preposition) then raw else captured 5 m);
          raw' = (if misread then Some DEFAULT_TOKEN_SYMBOL else raw);
          symbol = (if given raw' then map_option text_upper raw' else Some DEFAULT_TOKEN_SYMBOL)
      in if amount = JNaN then (UNKNOWN, no_params)
         else (intent, (token_params mint symbol)\<lparr>cp_amount := Some amount, cp_recipient := recipient, cp_memo := captured 6 m\<rparr>))"

text \<open>\<open>split(/[\s,and]+/)\<close>: the class has the letters of \<open>and\<close>.\<close>

definition separator :: "unit16 \<Rightarrow> bool" where
  "separator c \<longleftrightarrow> is_space c \<or> c = 44 \<or> c = 97 \<or> c = 110 \<or> c = 100"

definition natural_split :: "captures \<Rightarrow> command" where
  "natural_split m =
     (SPLIT, no_params\<lparr>cp_amount := Some (parseFloat_opt (captured 1 m)),
        cp_participants := Some (filter (\<lambda>h. h \<noteq> []) (split_on separator (case captured 2 m of Some s \<Rightarrow> s | None \<Rightarrow> [])))\<rparr>)"

definition natural_patterns :: "js_text \<Rightarrow> js_text \<Rightarrow> command option" where
  "natural_patterns mint text =
     (case regex_search regexVerifyPattern text of
        Some m \<Rightarrow> Some (VERIFY, no_params\<lparr>cp_adminArgs := [captured 1 m]\<rparr>)
      | None \<Rightarrow>
     (case regex_search regexPayPattern text of
        Some m \<Rightarrow> Some (natural_money mint PAY ''to'' m)
      | None \<Rightarrow>
     (case regex_search regexRequestPattern text of
        Some m \<Rightarrow> Some (natural_money mint REQUEST ''from'' m)
      | None \<Rightarrow>
     (case regex_search regexSavePattern text of
        Some m \<Rightarrow> Some (SAVE, no_params\<lparr>cp_amount := Some (parseFloat_opt (captured 1 m))\<rparr>)
      | None \<Rightarrow>
     (case regex_search regexSplitPattern text of
        Some m \<Rightarrow> Some (natural_split m)
      | None \<Rightarrow> None)))))"

text \<open>\<open>what('?s| is)\<close>\<close>

definition Whats :: regex where "Whats = Seq (Word ''what'') (Alt (Seq (Opt (Exactly 39)) (Word ''s'')) (Word '' is''))"

definition phrases :: "string list \<Rightarrow> string list \<Rightarrow> regex" where
  "phrases heads tails = Seqs [Alts (map Word heads), Word '' '', Alts (map Word tails)]"

definition conversation :: "js_text \<Rightarrow> CommandIntent" where
  "conversation fullLower =
     (if regex_starts (Alts [Seqs [Whats, Word '' my '', Alts (map Word [''balance'', ''funds''])],
           Seq (Word ''how much '') (Alts (map Word [''do i have'', ''money''])),
           Seqs [Word ''check '', Opt (Word ''my ''), Alts (map Word [''balance'', ''funds''])]]) fullLower then BALANCE
      else if regex_starts (Seqs [Alt (Word ''show'') Whats, Word '' my '', Alts (map Word [''wallet'', ''address'', ''account''])]) fullLower
      then WALLET
      else if regex_starts (phrases [''show'', ''view'', ''my''] [''contacts'', ''payees'']) fullLower then CONTACTS
      else if regex_starts (phrases [''show'', ''view''] [''leaderboard'', ''rankings'']) fullLower then LEADERBOARD
      else if regex_starts (phrases [''show'', ''view'', ''my''] [''badges'', ''achievements'']) fullLower then BADGES
      else if regex_starts (phrases [''show'', ''get'', ''my''] [''invite'', ''referral'', ''invite link'']) fullLower then INVITE
      else if regex_starts (phrases [''show'', ''view'', ''my''] [''stats'', ''statistics'']) fullLower then STATS
      else if regex_starts (Alts (map Word [''what can you do'', ''how does this work'', ''help me'', ''what are the commands'']))
        fullLower then HELP
      else UNKNOWN)"

definition first_word :: "js_text \<Rightarrow> js_text" where
  "first_word text = hd (split_at 64 (text_lower (hd (split_spaces text))))"

definition parseRegex :: "js_text \<Rightarrow> js_text \<Rightarrow> command" where
  "parseRegex mint text =
     (let tokens = split_spaces text;
          first = first_word text;
          fullLower = text_lower (text_trim text)
      in case or_else (instant_commands tokens first fullLower)
              (or_else (pool_commands mint tokens first fullLower)
              (or_else (structured_commands mint tokens first) (natural_patterns mint text))) of
           Some c \<Rightarrow> c
         | None \<Rightarrow> (conversation fullLower, no_params))"

section \<open>The language model\<close>

record NlpResult =
  nr_intent :: js_text
  nr_allowed :: "bool option"
  nr_confidence :: "rat option"
  nr_params :: CommandParams

definition mapNlpIntentToAction :: "js_text \<Rightarrow> CommandIntent" where
  "mapNlpIntentToAction nlpIntent =
     (let i = text_lower nlpIntent;
          one = (\<lambda>ws. \<exists>w \<in> set ws. i = lit w)
      in if one [''send'', ''pay'', ''transfer''] then PAY
         else if one [''request'', ''ask''] then REQUEST
         else if one [''split''] then SPLIT
         else if one [''envelope'', ''red_envelope''] then ENVELOPE
         else if one [''save'', ''deposit''] then SAVE
         else if one [''subscribe'', ''recurring''] then SUBSCRIBE
         else if one [''pool'', ''pools''] then POOLS_MENU
         else if one [''wallet'', ''account'', ''address''] then WALLET
         else if one [''balance'', ''check_balance''] then BALANCE
         else if one [''contacts'', ''payees''] then CONTACTS
         else if one [''leaderboard'', ''rankings''] then LEADERBOARD
         else if one [''badges'', ''achievements''] then BADGES
         else if one [''referral'', ''invite''] then INVITE
         else if one [''stats''] then STATS
         else if one [''pending''] then PENDING
         else if one [''cancel''] then CANCEL
         else if one [''help''] then HELP
         else UNKNOWN)"

record ParsedCommand =
  pc_command :: command
  pc_confidence :: rat
  pc_nlp :: bool

definition or_number :: "js_number option \<Rightarrow> rat \<Rightarrow> js_number option" where
  "or_number x d = (case x of Some n \<Rightarrow> if n = JNaN \<or> n = JNum 0 then Some (JNum d) else Some n | None \<Rightarrow> Some (JNum d))"

definition nlp_command :: "js_text \<Rightarrow> NlpResult \<Rightarrow> command" where
  "nlp_command mint r =
     (let p = nr_params r;
          raw = map_option text_upper (or_text (cp_tokenSymbol p) (Some DEFAULT_TOKEN_SYMBOL))
      in (mapNlpIntentToAction (nr_intent r),
          (token_params mint raw)\<lparr>cp_amount := cp_amount p, cp_recipient := cp_recipient p, cp_memo := cp_memo p,
             cp_claimsCount := or_number (cp_claimsCount p) 5, cp_intervalDays := or_number (cp_intervalDays p) 30,
             cp_participants := Some (case cp_participants p of Some ps \<Rightarrow> ps | None \<Rightarrow> []), cp_poolName := cp_poolName p\<rparr>))"

definition nlp_trusted :: "NlpResult \<Rightarrow> bool" where
  "nlp_trusted r \<longleftrightarrow> nr_intent r \<noteq> [] \<and> nr_intent r \<noteq> lit ''unknown'' \<and> nr_allowed r \<noteq> Some False \<and>
     3 / 5 \<le> (case nr_confidence r of Some c \<Rightarrow> c | None \<Rightarrow> 17 / 20)"

definition parseCommand :: "js_text \<Rightarrow> (js_text \<Rightarrow> NlpResult option) \<Rightarrow> js_text \<Rightarrow> ParsedCommand" where
  "parseCommand mint nlp text =
     (let unknown = \<lparr>pc_command = (UNKNOWN, no_params), pc_confidence = 0, pc_nlp = False\<rparr>;
          trimmed = text_trim text;
          fixed = parseRegex mint trimmed
      in if trimmed = [] then unknown
         else if fst fixed \<noteq> UNKNOWN then \<lparr>pc_command = fixed, pc_confidence = 1, pc_nlp = False\<rparr>
         else case nlp trimmed of
           None \<Rightarrow> unknown
         | Some r \<Rightarrow>
             if nlp_trusted r \<and> mapNlpIntentToAction (nr_intent r) \<noteq> UNKNOWN
             then \<lparr>pc_command = nlp_command mint r,
                   pc_confidence = (case nr_confidence r of Some c \<Rightarrow> c | None \<Rightarrow> 17 / 20), pc_nlp = True\<rparr>
             else unknown)"

end
