(* ===== verification/CommandProps.thy ===== *)
theory CommandProps
  imports Commands
begin

text \<open>
  Properties of the parser of chat commands: what the deterministic parser reads back, which commands no message can
  reach, what the patterns do to names, and what the language model can and cannot cause.
\<close>

section \<open>Words\<close>

lemma lit_simps [simp]: "lit [] = []" "lit (c # s) = of_char c # lit s" "lit s = lit t \<longleftrightarrow> s = t"
proof -
  show "lit [] = []" "lit (c # s) = of_char c # lit s" by (simp_all add: lit_def)
  have "inj (of_char :: char \<Rightarrow> int)" by (rule injI) simp
  then show "lit s = lit t \<longleftrightarrow> s = t" by (simp add: lit_def inj_map_eq_map)
qed

lemma split_on_word: "\<forall>c \<in> set w. \<not> P c \<Longrightarrow> split_on P w = [w]"
proof -
  assume "\<forall>c \<in> set w. \<not> P c"
  then have "dropWhile (\<lambda>c. \<not> P c) w = []" by simp
  then show ?thesis by (subst split_on.simps) (simp only: list.case)
qed

lemma split_on_first:
  assumes "\<forall>c \<in> set w. \<not> P c" and "P b" and "dropWhile P rest = rest"
  shows "split_on P (w @ b # rest) = w # split_on P rest"
proof -
  have "dropWhile (\<lambda>c. \<not> P c) (w @ b # rest) = b # rest" "takeWhile (\<lambda>c. \<not> P c) (w @ b # rest) = w"
    using assms(1,2) by simp_all
  then show ?thesis using assms(3) by (subst split_on.simps) simp
qed

definition word :: "js_text \<Rightarrow> bool" where
  "word w \<longleftrightarrow> w \<noteq> [] \<and> (\<forall>c \<in> set w. \<not> is_space c)"

lemma word_starts: "word w \<Longrightarrow> dropWhile is_space (w @ s) = w @ s"
  by (cases w) (simp_all add: word_def)

lemma blank_is_space: "is_space 32" by (simp add: is_space_def)

lemma split_words: "ws \<noteq> [] \<Longrightarrow> \<forall>w \<in> set ws. word w \<Longrightarrow> split_spaces (join_with [32] ws) = ws"
proof (induction ws rule: induct_list012)
  case (2 w)
  then show ?case by (simp add: split_on_word word_def)
next
  case (3 w v ws)
  have "dropWhile is_space (join_with [32] (v # ws)) = join_with [32] (v # ws)"
    using 3(4) word_starts [of v] by (cases ws) (simp_all, metis append_Nil2)
  then show ?case using 3 split_on_first [of w is_space 32] blank_is_space by (simp add: word_def)
qed simp

section \<open>Which commands a group of conditions gives\<close>

definition all_but :: "CommandIntent set \<Rightarrow> command option \<Rightarrow> bool" where
  "all_but bad c \<longleftrightarrow> pred_option (\<lambda>c. fst c \<notin> bad) c"

lemma all_but_if: "all_but bad x \<Longrightarrow> all_but bad y \<Longrightarrow> all_but bad (if b then x else y)"
  by simp

lemma all_but_menu: "i \<notin> bad \<Longrightarrow> all_but bad (menu i)" "i \<notin> bad \<Longrightarrow> all_but bad (Some (i, p))" "all_but bad None"
  by (simp_all add: all_but_def menu_def)

lemma all_but_D: "all_but bad c \<Longrightarrow> c = Some (i, p) \<Longrightarrow> i \<notin> bad"
  by (auto simp: all_but_def)

lemma all_but_or_else: "all_but bad x \<Longrightarrow> (x = None \<Longrightarrow> all_but bad y) \<Longrightarrow> all_but bad (or_else x y)"
  by (cases x) (simp_all add: or_else_def all_but_def)

lemma all_but_less: "all_but bad c \<Longrightarrow> bad' \<subseteq> bad \<Longrightarrow> all_but bad' c"
  by (cases c) (auto simp: all_but_def)

lemma instant_all_but:
  "bad \<subseteq> {POOL_INVITE, POOL_JOIN, POOL_DEPOSIT, POOL_REQUEST, SPLIT} \<Longrightarrow> all_but bad (instant_commands tokens first lower)"
  unfolding instant_commands_def Let_def by (intro all_but_if all_but_menu) auto

lemma pool_menu_first: "instant_commands tokens first lower = None \<Longrightarrow> first \<noteq> lit ''/pool''"
proof
  assume "first = lit ''/pool''"
  then have "instant_commands tokens first lower \<noteq> None" by (simp add: instant_commands_def menu_def)
  moreover assume "instant_commands tokens first lower = None"
  ultimately show False by blast
qed

lemma pool_all_but: "first \<noteq> lit ''/pool'' \<Longrightarrow>
    all_but {POOL_INVITE, POOL_JOIN, POOL_DEPOSIT, POOL_REQUEST, SPLIT} (pool_commands mint tokens first lower)"
  by (simp add: pool_commands_def all_but_menu)

lemma pool_no_split: "all_but {SPLIT} (pool_commands mint tokens first lower)"
  unfolding pool_commands_def Let_def by (intro all_but_if all_but_menu) auto

lemma structured_all_but: "all_but {POOL_INVITE, POOL_JOIN, POOL_DEPOSIT, POOL_REQUEST} (structured_commands mint tokens first)"
  unfolding structured_commands_def slash_pay_def slash_request_def slash_split_def slash_admin_def Let_def
  by (intro all_but_if all_but_menu) (simp_all add: all_but_def)

lemma structured_no_split: "first \<noteq> lit ''/split'' \<Longrightarrow> all_but {SPLIT} (structured_commands mint tokens first)"
  by (simp add: structured_commands_def slash_pay_def slash_request_def slash_admin_def Let_def all_but_menu)


lemma parseRegex_all_but:
  assumes "\<And>tokens first lower. all_but bad (or_else (instant_commands tokens first lower) (or_else (pool_commands mint tokens first lower)
      (or_else (structured_commands mint tokens first) (natural_patterns mint t))))" (is "\<And>tokens first lower. all_but bad (?chain tokens first lower)")
    and "\<And>lower. conversation lower \<notin> bad"
  shows "fst (parseRegex mint t) \<notin> bad"
proof -
  let ?c = "?chain (split_spaces t) (first_word t) (text_lower (text_trim t))"
  have "all_but bad ?c" by (rule assms(1))
  then show ?thesis using assms(2) by (cases ?c) (simp_all add: parseRegex_def Let_def all_but_def)
qed

lemma natural_money_intent: "fst (natural_money mint i w m) \<in> {UNKNOWN, i}"
  by (simp add: natural_money_def Let_def)

lemma natural_all_but: "all_but {POOL_INVITE, POOL_JOIN, POOL_DEPOSIT, POOL_REQUEST} (natural_patterns mint t)"
proof -
  have "all_but {POOL_INVITE, POOL_JOIN, POOL_DEPOSIT, POOL_REQUEST} (Some (natural_money mint i w m))"
    if "i = PAY \<or> i = REQUEST" for i w m
    using natural_money_intent [of mint i w m] that by (auto simp: all_but_def)
  then show ?thesis by (simp add: natural_patterns_def all_but_menu natural_split_def split: option.split)
qed

section \<open>What no message reaches\<close>

text \<open>No message is ever read as one of the commands \<open>/pool invite\<close>, \<open>/pool join\<close>, \<open>/pool deposit\<close> and
  \<open>/pool request\<close>, whatever the language model answers: the menu of the pools takes every message that starts with
  \<open>/pool\<close> before their branches are tried.\<close>

theorem pool_subcommands_unreachable:
  "fst (pc_command (parseCommand mint nlp text)) \<notin> {POOL_INVITE, POOL_JOIN, POOL_DEPOSIT, POOL_REQUEST}"
proof -
  let ?bad = "{POOL_INVITE, POOL_JOIN, POOL_DEPOSIT, POOL_REQUEST}"
  have talk: "conversation lower \<notin> ?bad" for lower by (simp add: conversation_def)
  have model: "mapNlpIntentToAction i \<notin> ?bad" for i by (simp add: mapNlpIntentToAction_def Let_def)
  have "all_but ?bad (pool_commands mint tokens first lower)" if "instant_commands tokens first lower = None" for tokens first lower
    by (rule all_but_less [OF pool_all_but [OF pool_menu_first [OF that]]]) blast
  then have "all_but ?bad (or_else (instant_commands tokens first lower) (or_else (pool_commands mint tokens first lower)
      (or_else (structured_commands mint tokens first) (natural_patterns mint t))))" for tokens first lower t
    by (intro all_but_or_else instant_all_but structured_all_but natural_all_but) auto
  then have fixed: "fst (parseRegex mint t) \<notin> ?bad" for t
    using talk by (rule parseRegex_all_but)
  show ?thesis using fixed model by (auto simp: parseCommand_def nlp_command_def Let_def split: option.splits)
qed

text \<open>C30. The language model is asked only about what the deterministic parser does not know, its answer counts only when it is
  allowed and confident enough, and it never causes a command of administrators, a verification or a change of the token
  list.\<close>

theorem model_cannot_command:
  assumes "pc_nlp (parseCommand mint nlp text)"
  shows "fst (parseRegex mint (text_trim text)) = UNKNOWN \<and>
    (\<exists>r. nlp (text_trim text) = Some r \<and> nr_allowed r \<noteq> Some False \<and> 3 / 5 \<le> pc_confidence (parseCommand mint nlp text)) \<and>
    fst (pc_command (parseCommand mint nlp text)) \<notin> {ADMIN_STATS, ADMIN_INSIGHTS, ADMIN_ALERT, ADMIN_ADD, VERIFY, ADD_TOKEN, REMOVE_TOKEN,
      UNKNOWN}"
proof -
  have "mapNlpIntentToAction i \<notin> {ADMIN_STATS, ADMIN_INSIGHTS, ADMIN_ALERT, ADMIN_ADD, VERIFY, ADD_TOKEN, REMOVE_TOKEN}" for i
    by (simp add: mapNlpIntentToAction_def Let_def)
  then show ?thesis
    using assms by (auto simp: parseCommand_def nlp_command_def nlp_trusted_def Let_def split: option.splits if_splits)
qed

section \<open>Names in a bill split\<close>

lemma split_on_class: "p \<in> set (split_on P s) \<Longrightarrow> c \<in> set p \<Longrightarrow> \<not> P c"
proof (induction P s rule: split_on.induct)
  case (1 P s)
  show ?case
  proof (cases "dropWhile (\<lambda>c. \<not> P c) s")
    case Nil
    with 1(2,3) show ?thesis by (subst (asm) split_on.simps) (auto simp: dropWhile_eq_Nil_conv)
  next
    case (Cons b rest)
    with 1 show ?thesis by (subst (asm) (2) split_on.simps) (auto dest: set_takeWhileD)
  qed
qed

text \<open>When a sentence, not the slash command, is read as a bill split, no participant's name has the letter a, n or d: the class that
  separates the names contains the letters of \<open>and\<close>, so that \<open>alice\<close> is read as \<open>lice\<close>.\<close>

theorem spoken_split_tears_names:
  assumes "parseRegex mint text = (SPLIT, p)" and "first_word text \<noteq> lit ''/split''"
  shows "\<exists>ps. cp_participants p = Some ps \<and> (\<forall>name \<in> set ps. \<forall>c \<in> set name. c \<noteq> 97 \<and> c \<noteq> 110 \<and> c \<noteq> 100)"
proof -
  have "instant_commands tokens first lower \<noteq> Some (SPLIT, p)" "pool_commands mint tokens first lower \<noteq> Some (SPLIT, p)"
    for tokens first lower
    using all_but_D [OF instant_all_but [of "{SPLIT}" tokens first lower]] all_but_D [OF pool_no_split [of mint tokens first lower]]
    by auto
  moreover have "structured_commands mint tokens first \<noteq> Some (SPLIT, p)" if "first \<noteq> lit ''/split''" for tokens first
    using all_but_D [OF structured_no_split [OF that, of mint tokens]] by auto
  moreover have "conversation lower \<noteq> SPLIT" for lower by (simp add: conversation_def)
  ultimately have "natural_patterns mint text = Some (SPLIT, p)"
    using assms by (auto simp: parseRegex_def Let_def or_else_def split: option.splits)
  then obtain m where "natural_split m = (SPLIT, p)"
    by (auto simp: natural_patterns_def natural_money_def Let_def split: option.splits if_splits)
  then have "p = snd (natural_split m)" by simp
  then have "cp_participants p = Some (filter (\<lambda>h. h \<noteq> []) (split_on separator (case captured 2 m of Some s \<Rightarrow> s | None \<Rightarrow> [])))"
    by (simp add: natural_split_def)
  moreover have "c \<noteq> 97 \<and> c \<noteq> 110 \<and> c \<noteq> 100" if "name \<in> set (split_on separator s)" "c \<in> set name" for s name c
    using split_on_class [OF that] by (simp add: separator_def)
  ultimately show ?thesis by auto
qed

text \<open>The sentence of a split whose second name has the letter a.\<close>

lemma example_split:
  "parseRegex (lit ''M'') (lit ''split 9 with @a b'') =
     (SPLIT, no_params\<lparr>cp_amount := Some (JNum 9), cp_participants := Some [lit ''@'', lit ''b'']\<rparr>)"
  "first_word (lit ''split 9 with @a b'') \<noteq> lit ''/split''"
  by code_simp+

theorem spoken_split_tears_names_witness:
  "\<exists>ps. cp_participants (snd (parseRegex (lit ''M'') (lit ''split 9 with @a b''))) = Some ps \<and> ps = [lit ''@'', lit ''b''] \<and>
     (\<forall>name \<in> set ps. \<forall>c \<in> set name. c \<noteq> 97 \<and> c \<noteq> 110 \<and> c \<noteq> 100)"
  using spoken_split_tears_names [OF example_split] by (simp add: example_split(1) del: lit_simps)

text \<open>A name before \<open>for\<close> is taken for the token, and \<open>for\<close> for the recipient; and a payment is read from any sentence with the
  words, also one that forbids it.\<close>

lemma name_read_as_token:
  "let c = parseRegex (lit ''M'') (lit ''pay 5 bo for x'')
   in fst c = PAY \<and> cp_recipient (snd c) = Some (lit ''for'') \<and> cp_unsupportedToken (snd c) = Some (lit ''BO'')"
  by code_simp

lemma negation_ignored:
  "let c = parseRegex (lit ''M'') (lit ''no pay 5 to @b'')
   in fst c = PAY \<and> cp_recipient (snd c) = Some (lit ''@b'') \<and> cp_amount (snd c) = Some (JNum 5)"
  by code_simp

text \<open>A model that answers every question with a payment of seven.\<close>

definition example_model :: "js_text \<Rightarrow> NlpResult option" where
  "example_model s = Some \<lparr>nr_intent = lit ''pay'', nr_allowed = None, nr_confidence = Some (9 / 10),
     nr_params = no_params\<lparr>cp_amount := Some (JNum 7)\<rparr>\<rparr>"

lemma example_asked:
  "pc_nlp (parseCommand (lit ''M'') example_model (lit ''hello''))"
  "fst (pc_command (parseCommand (lit ''M'') example_model (lit ''hello''))) = PAY"
  by code_simp+

theorem model_cannot_command_witness:
  "fst (pc_command (parseCommand (lit ''M'') example_model (lit ''hello''))) = PAY \<and>
   3 / 5 \<le> pc_confidence (parseCommand (lit ''M'') example_model (lit ''hello''))"
  using model_cannot_command [OF example_asked(1)] example_asked(2) by blast

section \<open>Reading back a payment\<close>

text \<open>An amount as users write it: the whole part, and after a point the digits of the fraction, if there are any.\<close>

definition amount_text :: "nat \<Rightarrow> js_text \<Rightarrow> js_text" where
  "amount_text n cents = lit (show_nat n) @ (if cents = [] then [] else 46 # cents)"

definition amount_value :: "nat \<Rightarrow> js_text \<Rightarrow> rat" where
  "amount_value n cents = of_nat n + digits_value cents / 10 ^ length cents"

text \<open>The numbers that are doubles. The model reads every decimal exactly, JavaScript does so for these.\<close>

definition is_double :: "rat \<Rightarrow> bool" where
  "is_double x \<longleftrightarrow> (\<exists>(m::int) (k::nat). \<bar>m\<bar> < 2 ^ 53 \<and> k \<le> 1022 \<and> x * 2 ^ k = of_int m)"

lemma digits_value_append: "digits_value (ds @ ds') = digits_value ds * 10 ^ length ds' + digits_value ds'"
proof (induction ds' rule: rev_induct)
  case (snoc d ds')
  have step: "digits_value (xs @ [d]) = 10 * digits_value xs + of_int (d - 48)" for xs
    by (simp only: digits_value_def fold_digits)
  show ?case unfolding append_assoc [symmetric] step snoc.IH by (simp add: algebra_simps)
qed (simp add: digits_value_def)

lemma parseFloat_amount:
  assumes "\<forall>d \<in> set cents. is_digit d"
  shows "parseFloat (amount_text n cents) = JNum (amount_value n cents)"
proof -
  let ?w = "lit (show_nat n)" and ?s = "amount_text n cents"
  have point: "\<not> is_digit 46" by (simp add: is_digit_def)
  have w: "\<forall>c \<in> set ?w. is_digit c" "digits_value ?w = of_nat n" "?w \<noteq> []" using shown_digits by blast+
  obtain c s where cs: "?s = c # s" "is_digit c" using w by (cases ?w) (auto simp: amount_text_def)
  have no_space: "dropWhile is_space ?s = ?s" and no_sign: "\<not> starts ?s [45]" "\<not> starts ?s [43]"
    and no_word: "\<not> starts ?s (lit ''Infinity'')"
    using cs(2) by (auto simp: cs(1) is_digit_def is_space_def starts_def)
  have whole: "takeWhile is_digit ?s = ?w" and rest: "dropWhile is_digit ?s = (if cents = [] then [] else 46 # cents)"
    using w(1) point by (simp_all add: amount_text_def)
  have cents: "takeWhile is_digit cents = cents" "dropWhile is_digit cents = []" using assms by simp_all
  have "decimal_prefix ?s = JNum (amount_value n cents)"
    unfolding decimal_prefix_def Let_def whole rest using no_word w(2,3)
    by (simp add: starts_def exponent_def scale10_def cents digits_value_append amount_value_def field_simps digits_value_def [of "[]"]
        del: lit_simps)
  then show ?thesis unfolding parseFloat_def Let_def no_space using no_sign by simp
qed

lemma trim_keeps_first: "\<not> is_space c \<Longrightarrow> \<exists>s'. text_trim (c # s) = c # s'"
proof -
  assume c: "\<not> is_space c"
  have "\<exists>ys. dropWhile is_space (xs @ [c]) = ys @ [c]" for xs using c by (induction xs) auto
  then obtain ys where "dropWhile is_space (rev s @ [c]) = ys @ [c]" by blast
  with c show ?thesis by (simp add: text_trim_def)
qed

lemma word_lit_pay: "word (lit ''/pay'')"
  by (simp add: word_def is_space_def)

lemma word_amount: "\<forall>d \<in> set cents. is_digit d \<Longrightarrow> word (amount_text n cents)"
  using shown_digits [of n] by (fastforce simp: word_def amount_text_def is_digit_def is_space_def)

text \<open>C29. A message \<open>/pay\<close> with an amount, a supported token, a recipient and the words of a memo is read as exactly this
  payment, the cents of the amount included. The amount is a whole number or has a fraction of any length; that it is a
  double excludes the numbers that JavaScript rounds when it reads them.\<close>

theorem slash_pay_read_back:
  assumes "resolveToken mint (Some symbol) = Some info" and "\<forall>w \<in> set (symbol # recipient # memo). w \<noteq> [] \<and> (\<forall>c \<in> set w. \<not> is_space c)"
    and "\<forall>d \<in> set cents. is_digit d" and "is_double (amount_value n cents)"
  shows "parseRegex mint (join_with [32] ([lit ''/pay'', amount_text n cents, symbol, recipient] @ memo)) =
    (PAY, no_params\<lparr>cp_amount := Some (JNum (amount_value n cents)), cp_tokenSymbol := Some (ti_symbol info), cp_tokenInfo := Some info,
       cp_recipient := Some recipient, cp_memo := Some (join_with [32] memo)\<rparr>)"
proof -
  let ?ws = "[lit ''/pay'', amount_text n cents, symbol, recipient] @ memo"
  let ?text = "join_with [32] ?ws"
  have tokens: "split_spaces ?text = ?ws"
    using assms(2) word_lit_pay word_amount [OF assms(3)] by (intro split_words) (auto simp: word_def)
  have first: "first_word ?text = lit ''/pay''"
    unfolding first_word_def tokens by (simp add: text_lower_def lower_unit_def)
  obtain s where "?text = 47 # s" by simp
  moreover obtain s' where "text_trim (47 # s) = 47 # s'" using trim_keeps_first [of 47 s] by (auto simp: is_space_def)
  ultimately obtain s'' where lower: "text_lower (text_trim ?text) = 47 # s''" by (simp add: text_lower_def lower_unit_def)
  have none: "instant_commands ?ws (lit ''/pay'') (47 # s'') = None" "pool_commands mint ?ws (lit ''/pay'') (47 # s'') = None"
    by (simp_all add: instant_commands_def pool_commands_def)
  have named: "ti_symbol info \<noteq> []"
    using assms(1) by (auto simp: resolveToken_def getSupportedTokens_def split: if_splits option.splits)
  have pay: "slash_pay mint ?ws = (PAY, no_params\<lparr>cp_amount := Some (JNum (amount_value n cents)), cp_tokenSymbol := Some (ti_symbol info),
      cp_tokenInfo := Some info, cp_recipient := Some recipient, cp_memo := Some (join_with [32] memo)\<rparr>)"
    unfolding slash_pay_def Let_def using assms(1) named
    by (simp add: item_def token_params_def or_text_def given_def parseFloat_opt_def parseFloat_amount [OF assms(3)] no_params_def)
  show ?thesis
    unfolding parseRegex_def Let_def tokens first lower none or_else_def
    by (simp only: structured_commands_def pay refl if_True option.case)
qed

theorem slash_pay_read_back_witness:
  "\<exists>info. resolveToken (lit ''M'') (Some (lit ''usdc'')) = Some info \<and>
     parseRegex (lit ''M'') (join_with [32] ([lit ''/pay'', lit ''12.50'', lit ''usdc'', lit ''@bob''] @ [lit ''rent'', lit ''May''])) =
       (PAY, no_params\<lparr>cp_amount := Some (JNum (25 / 2)), cp_tokenSymbol := Some (ti_symbol info), cp_tokenInfo := Some info,
          cp_recipient := Some (lit ''@bob''), cp_memo := Some (lit ''rent May'')\<rparr>)"
proof -
  obtain info where info: "resolveToken (lit ''M'') (Some (lit ''usdc'')) = Some info"
    by (simp add: resolveToken_def getSupportedTokens_def text_upper_def upper_unit_def text_trim_def is_space_def)
  have words: "\<forall>w \<in> set (lit ''usdc'' # lit ''@bob'' # [lit ''rent'', lit ''May'']). w \<noteq> [] \<and> (\<forall>c \<in> set w. \<not> is_space c)"
    by (simp add: is_space_def)
  have amount: "amount_text 12 (lit ''50'') = lit ''12.50''" "amount_value 12 (lit ''50'') = 25 / 2" by code_simp+
  have "is_double (25 / 2)" unfolding is_double_def by (intro exI [of _ 25] exI [of _ 1]) simp
  moreover have "\<forall>d \<in> set (lit ''50''). is_digit d" by (simp add: is_digit_def)
  ultimately show ?thesis
    using slash_pay_read_back [OF info words, of "lit ''50''" 12] info unfolding amount by (simp del: append.simps)
qed

end
