(* ===== verification/Identity.thy ===== *)
theory Identity
  imports SolanaChain HotState
begin

text \<open>
  \<open>backend/src/identity/identity.service.ts\<close> with \<open>config/provisional-identity.ts\<close>, the entry
  \<open>onboarding.controller.ts\<close> and the tokens of \<open>jsonwebtoken\<close>: which user an identity of a chat platform belongs
  to, how a user registers, and which wallet a handle stands for. A user row carries its wallet. The columns that
  the schema declares unique are checked by every write. The order in which \<open>findFirst\<close> looks is that of the
  table. Fresh identifiers are arguments; writes that the code does not wait for take effect at once, and their
  failures are ignored as in the code. The check of the launch parameters of Telegram is left out.
\<close>

section \<open>Rows\<close>

record IdentityWallet =
  sw_address :: string
  sw_publicKeyX :: string
  sw_publicKeyY :: string
  sw_salt :: string
  sw_isDeployed :: bool
  sw_factoryAddress :: "string option"
  sw_derivationVersion :: "string option"

record identity_user =
  iu_email :: "string option"
  iu_telegramId :: "string option"
  iu_telegramChatId :: "string option"
  iu_whatsappId :: "string option"
  iu_slackId :: "string option"
  iu_discordId :: "string option"
  iu_username :: "string option"
  iu_smartWallet :: "IdentityWallet option"

record SocialNode =
  sn_userId :: string
  sn_platform :: string
  sn_platformUserId :: string
  sn_username :: "string option"

record StoredPasskey =
  pc_userId :: string
  pc_lookupHash :: "string option"
  pc_credentialId :: "string option"
  pc_encryptedPayload :: "string option"
  pc_wrappedDek :: "string option"
  pc_kekVersion :: int
  pc_iv :: "string option"
  pc_authTag :: "string option"
  pc_publicKeyX :: "string option"
  pc_publicKeyY :: "string option"
  pc_counter :: int
  pc_credentialPublicKey :: "bytes option"
  pc_deviceType :: "string option"
  pc_backedUp :: bool
  pc_backupStateKnown :: bool
  pc_label :: "string option"
  pc_lastUsedAt :: "date option"
  pc_revokedAt :: "date option"

record identity_db =
  im_users :: "identity_user table"
  im_nodes :: "SocialNode table"
  im_credentials :: "StoredPasskey table"
  im_redis :: redis
  im_activity :: "(string \<times> string) list"

text \<open>A credential row as the database fills it in.\<close>

definition empty_credential :: "string \<Rightarrow> StoredPasskey" where
  "empty_credential userId =
     \<lparr>pc_userId = userId, pc_lookupHash = None, pc_credentialId = None, pc_encryptedPayload = None, pc_wrappedDek = None,
      pc_kekVersion = 0, pc_iv = None, pc_authTag = None, pc_publicKeyX = None, pc_publicKeyY = None, pc_counter = 0,
      pc_credentialPublicKey = None, pc_deviceType = None, pc_backedUp = False, pc_backupStateKnown = False,
      pc_label = None, pc_lastUsedAt = None, pc_revokedAt = None\<rparr>"

section \<open>Tokens\<close>

text \<open>What \<open>jwt.sign\<close> and \<open>jwt.verify\<close> promise: a token is read back with its claims until the second it expires.\<close>

record jwt_claims =
  jc_userId :: "string option"
  jc_walletAddress :: "string option"
  jc_jti :: "string option"
  jc_pkv :: bool
  jc_iat :: "int option"
  jc_exp :: "int option"

record jwt =
  jwt_sign :: "jwt_claims \<Rightarrow> string \<Rightarrow> string"
  jwt_verify :: "int \<Rightarrow> string \<Rightarrow> string \<Rightarrow> jwt_claims option"

definition jwt_ok :: "jwt \<Rightarrow> bool" where
  "jwt_ok J \<longleftrightarrow>
     (\<forall>now c secret. jwt_verify J now (jwt_sign J c secret) secret =
        (if \<exists>e. jc_exp c = Some e \<and> e \<le> now then None else Some c))"

definition seconds :: "date \<Rightarrow> int" where "seconds t = t div 1000"

text \<open>\<open>ie_ethersId\<close> is \<open>ethers.id\<close>, the hash of a text.\<close>

record 'pk identity_env =
  ie_chain :: "'pk chain"
  ie_jwt :: jwt
  ie_jwtSecret :: string
  ie_ethersId :: "string \<Rightarrow> string"

section \<open>provisional-identity.ts\<close>

definition PROVISIONAL_ID_PREFIX :: string where "PROVISIONAL_ID_PREFIX = ''pending:''"

definition provisionalPlatformId :: "string \<Rightarrow> string" where
  "provisionalPlatformId handle = PROVISIONAL_ID_PREFIX @ strip_at handle"

definition isProvisionalPlatformId :: "string option \<Rightarrow> bool" where
  "isProvisionalPlatformId i = (case i of Some s \<Rightarrow> s \<noteq> [] \<and> startsWith s PROVISIONAL_ID_PREFIX | None \<Rightarrow> False)"

definition WEB_ID_PREFIX :: string where "WEB_ID_PREFIX = ''web:''"

definition webPlatformId :: "string \<Rightarrow> string" where "webPlatformId uuid = WEB_ID_PREFIX @ uuid"

definition isWebPlatformId :: "string option \<Rightarrow> bool" where
  "isWebPlatformId i = (case i of Some s \<Rightarrow> s \<noteq> [] \<and> startsWith s WEB_ID_PREFIX | None \<Rightarrow> False)"

definition webPlaceholderUsername :: "byte list \<Rightarrow> string" where
  "webPlaceholderUsername bs = ''web_'' @ to_hex bs"

definition isWebPlaceholderUsername :: "string option \<Rightarrow> bool" where
  "isWebPlaceholderUsername u =
     (case u of
        Some s \<Rightarrow> length s = 14 \<and> startsWith s ''web_'' \<and>
          list_all (\<lambda>c. c \<in> set ''0123456789abcdef'') (drop 4 s)
      | None \<Rightarrow> False)"

section \<open>Writes under the unique columns\<close>

definition shared :: "'a option \<Rightarrow> 'a option \<Rightarrow> bool" where
  "shared x y \<longleftrightarrow> x \<noteq> None \<and> x = y"

definition users_clash :: "identity_user \<Rightarrow> identity_user \<Rightarrow> bool" where
  "users_clash u v \<longleftrightarrow>
     shared (iu_email u) (iu_email v) \<or> shared (iu_telegramId u) (iu_telegramId v) \<or>
     shared (iu_whatsappId u) (iu_whatsappId v) \<or> shared (iu_slackId u) (iu_slackId v) \<or>
     shared (iu_discordId u) (iu_discordId v) \<or> shared (iu_username u) (iu_username v) \<or>
     shared (map_option sw_address (iu_smartWallet u)) (map_option sw_address (iu_smartWallet v))"

definition unique_violation :: http_error where
  "unique_violation = InternalError ''P2002: Unique constraint failed''"

definition missing_record :: http_error where
  "missing_record = InternalError ''P2025: Record to update not found''"

definition update_user :: "string \<Rightarrow> (identity_user \<Rightarrow> identity_user) \<Rightarrow> (unit, identity_db) handler" where
  "update_user i f db =
     (case findUnique (im_users db) i of
        None \<Rightarrow> (Inl missing_record, db)
      | Some u \<Rightarrow>
          if \<exists>(j, v) \<in> set (im_users db). j \<noteq> i \<and> users_clash (f u) v then (Inl unique_violation, db)
          else (Inr (), db\<lparr>im_users := update_row i f (im_users db)\<rparr>))"

definition insert_user :: "string \<Rightarrow> identity_user \<Rightarrow> (unit, identity_db) handler" where
  "insert_user i u db =
     (if findUnique (im_users db) i \<noteq> None \<or> (\<exists>(j, v) \<in> set (im_users db). users_clash u v)
      then (Inl unique_violation, db)
      else (Inr (), db\<lparr>im_users := create_row i u (im_users db)\<rparr>))"

definition first_user :: "(string \<Rightarrow> identity_user \<Rightarrow> bool) \<Rightarrow> identity_db \<Rightarrow> (string \<times> identity_user) option" where
  "first_user c db = find (\<lambda>(i, u). c i u) (im_users db)"

definition find_node :: "string \<Rightarrow> string \<Rightarrow> identity_db \<Rightarrow> (string \<times> SocialNode) option" where
  "find_node platform platformUserId db =
     find (\<lambda>(i, n). sn_platform n = platform \<and> sn_platformUserId n = platformUserId) (im_nodes db)"

text \<open>\<open>socialNode.upsert\<close> on the unique pair of platform and identifier. A node belongs to a user that exists.\<close>

definition upsert_node ::
    "string \<Rightarrow> string \<Rightarrow> string \<Rightarrow> (SocialNode \<Rightarrow> SocialNode) \<Rightarrow> SocialNode \<Rightarrow> (unit, identity_db) handler" where
  "upsert_node newId platform platformUserId change new db =
     (case find_node platform platformUserId db of
        Some (i, n) \<Rightarrow>
          if findUnique (im_users db) (sn_userId (change n)) = None then (Inl missing_record, db)
          else if \<exists>(j, m) \<in> set (im_nodes db). j \<noteq> i \<and> sn_platform m = sn_platform (change n) \<and>
                  sn_platformUserId m = sn_platformUserId (change n) then (Inl unique_violation, db)
          else (Inr (), db\<lparr>im_nodes := update_row i change (im_nodes db)\<rparr>)
      | None \<Rightarrow>
          if findUnique (im_users db) (sn_userId new) = None then (Inl missing_record, db)
          else if findUnique (im_nodes db) newId \<noteq> None \<or>
                  find_node (sn_platform new) (sn_platformUserId new) db \<noteq> None then (Inl unique_violation, db)
          else (Inr (), db\<lparr>im_nodes := create_row newId new (im_nodes db)\<rparr>))"

text \<open>\<open>promise.catch(() => ...)\<close>: what was written stays, the error is dropped.\<close>

definition ignoring :: "('a, 's) handler \<Rightarrow> (unit, 's) handler" where
  "ignoring m s = (Inr (), snd (m s))"

definition record_activity :: "string \<Rightarrow> string \<Rightarrow> identity_db \<Rightarrow> identity_db" where
  "record_activity u action db = db\<lparr>im_activity := im_activity db @ [(u, action)]\<rparr>"

definition map_handle :: "date \<Rightarrow> string \<Rightarrow> string \<Rightarrow> identity_db \<Rightarrow> identity_db" where
  "map_handle now handle address db = db\<lparr>im_redis := setHandleMapping now handle address (im_redis db)\<rparr>"


section \<open>Which user an identity belongs to\<close>

datatype column = TelegramId | WhatsappId | DiscordId | SlackId

definition platformIdColumn :: "string \<Rightarrow> column option" where
  "platformIdColumn platform =
     (let p = toLowerCase platform in
      if p = ''telegram'' then Some TelegramId
      else if p = ''whatsapp'' then Some WhatsappId
      else if p = ''discord'' then Some DiscordId
      else if p = ''slack'' then Some SlackId
      else None)"

fun column_value :: "column \<Rightarrow> identity_user \<Rightarrow> string option" where
  "column_value TelegramId u = iu_telegramId u"
| "column_value WhatsappId u = iu_whatsappId u"
| "column_value DiscordId u = iu_discordId u"
| "column_value SlackId u = iu_slackId u"

fun set_column :: "column \<Rightarrow> string option \<Rightarrow> identity_user \<Rightarrow> identity_user" where
  "set_column TelegramId x u = u\<lparr>iu_telegramId := x\<rparr>"
| "set_column WhatsappId x u = u\<lparr>iu_whatsappId := x\<rparr>"
| "set_column DiscordId x u = u\<lparr>iu_discordId := x\<rparr>"
| "set_column SlackId x u = u\<lparr>iu_slackId := x\<rparr>"

text \<open>\<open>username ? ... : ...\<close>: the empty name counts as none.\<close>

definition some_text :: "string option \<Rightarrow> string option" where
  "some_text x = (if x = Some [] then None else x)"

text \<open>\<open>syncSocialNode\<close> reads the node and then writes it; between the two another handler may run.\<close>

definition foreign_node :: "string \<Rightarrow> string \<Rightarrow> string \<Rightarrow> identity_db \<Rightarrow> bool" where
  "foreign_node userId platform platformUserId db \<longleftrightarrow>
     (case find_node platform platformUserId db of Some (i, n) \<Rightarrow> sn_userId n \<noteq> userId | None \<Rightarrow> False)"

definition write_node :: "string \<Rightarrow> string \<Rightarrow> string \<Rightarrow> string \<Rightarrow> string option \<Rightarrow> (bool, identity_db) handler" where
  "write_node newId userId platform platformUserId username =
     bindS (upsert_node newId platform platformUserId
              (\<lambda>n. n\<lparr>sn_userId := userId, sn_username :=
                 (case some_text username of Some s \<Rightarrow> Some (strip_at s) | None \<Rightarrow> sn_username n)\<rparr>)
              \<lparr>sn_userId = userId, sn_platform = platform, sn_platformUserId = platformUserId,
               sn_username = map_option strip_at username\<rparr>) (\<lambda>_.
     bindS (case platformIdColumn platform of
              Some column \<Rightarrow> ignoring (update_user userId (set_column column (Some platformUserId)))
            | None \<Rightarrow> returnS ()) (\<lambda>_.
     returnS True))"

definition syncSocialNode :: "string \<Rightarrow> string \<Rightarrow> string \<Rightarrow> string \<Rightarrow> string option \<Rightarrow> (bool, identity_db) handler" where
  "syncSocialNode newId userId platform platformUserId username db =
     (if foreign_node userId (toLowerCase platform) platformUserId db then (Inr False, db)
      else write_node newId userId (toLowerCase platform) platformUserId username db)"

text \<open>The account that waits for its owner under the handle, if there is one. The transaction writes the node
  and the column, or nothing.\<close>

definition adoptProvisionalAccount :: "string \<Rightarrow> string \<Rightarrow> string \<Rightarrow> string option \<Rightarrow> identity_db \<Rightarrow> string option \<times> identity_db" where
  "adoptProvisionalAccount newId platform platformUserId username db =
     (case (some_text username, platformIdColumn platform) of
        (Some name, Some column) \<Rightarrow>
          let provisionalId = provisionalPlatformId name in
          if provisionalId = ''pending:'' @ platformUserId then (None, db)
          else
            (case (case find_node platform provisionalId db of
                     Some (i, n) \<Rightarrow> Some (sn_userId n)
                   | None \<Rightarrow> map_option fst (first_user (\<lambda>i u. column_value column u = Some provisionalId) db)) of
               None \<Rightarrow> (None, db)
             | Some userId \<Rightarrow>
                 (case bindS (upsert_node newId platform provisionalId
                          (\<lambda>n. n\<lparr>sn_platformUserId := platformUserId, sn_username := Some (strip_at name)\<rparr>)
                          \<lparr>sn_userId = userId, sn_platform = platform, sn_platformUserId = platformUserId,
                           sn_username = Some (strip_at name)\<rparr>)
                        (\<lambda>_. update_user userId (set_column column (Some platformUserId))) db of
                    (Inr _, db1) \<Rightarrow> (Some userId, db1)
                  | (Inl _, _) \<Rightarrow> (None, db)))
      | _ \<Rightarrow> (None, db))"

definition identity_resolveUser :: "string \<Rightarrow> string \<Rightarrow> string \<Rightarrow> string option \<Rightarrow> identity_db \<Rightarrow> string option \<times> identity_db" where
  "identity_resolveUser newId platform platformUserId username db =
     (let p = toLowerCase platform in
      if platform = [] \<or> platformUserId = [] then (None, db)
      else case find_node p platformUserId db of
        Some (i, n) \<Rightarrow> (Some (sn_userId n), db)
      | None \<Rightarrow>
          (case platformIdColumn p of
             None \<Rightarrow> (None, db)
           | Some column \<Rightarrow>
               (case first_user (\<lambda>i u. column_value column u = Some platformUserId) db of
                  Some (i, u) \<Rightarrow> (Some i, snd (syncSocialNode newId i p platformUserId (some_text (iu_username u)) db))
                | None \<Rightarrow> adoptProvisionalAccount newId p platformUserId username db)))"

section \<open>Linking\<close>

definition promoteWebPlaceholderUsername :: "date \<Rightarrow> string \<Rightarrow> string option \<Rightarrow> identity_db \<Rightarrow> identity_db" where
  "promoteWebPlaceholderUsername now userId username db =
     (let handle = (case username of Some s \<Rightarrow> trim (strip_at s) | None \<Rightarrow> []) in
      case findUnique (im_users db) userId of
        None \<Rightarrow> db
      | Some u \<Rightarrow>
          if handle = [] \<or> \<not> isWebPlaceholderUsername (iu_username u) then db
          else (case update_user userId (\<lambda>u. u\<lparr>iu_username := Some handle\<rparr>) db of
                  (Inl _, db1) \<Rightarrow> db1
                | (Inr _, db1) \<Rightarrow>
                    (case iu_smartWallet u of Some w \<Rightarrow> map_handle now handle (sw_address w) db1 | None \<Rightarrow> db1)))"

text \<open>The result is whether the identity was linked already.\<close>

definition linkAccount :: "date \<Rightarrow> string \<Rightarrow> string \<Rightarrow> string \<Rightarrow> string \<Rightarrow> string option \<Rightarrow> (bool, identity_db) handler" where
  "linkAccount now newId userId platform platformUserId username db =
     (let p = toLowerCase platform in
      if platformIdColumn p = None then (Inl (BadRequest (''Unsupported platform: '' @ platform)), db)
      else if findUnique (im_users db) userId = None then (Inl (NotFound ''Account not found''), db)
      else case find_node p platformUserId db of
        Some (i, n) \<Rightarrow>
          if sn_userId n = userId then (Inr True, db)
          else (Inl (BadRequest (''This '' @ platform @ '' account is already linked to a different VeriAgent Pay account. Disconnect it there first.'')), db)
      | None \<Rightarrow>
          bindS (syncSocialNode newId userId p platformUserId username) (\<lambda>linked.
          bindS (guardS linked (BadRequest (''This '' @ platform @ '' account is already linked elsewhere.''))) (\<lambda>_.
          bindS (modifyS (promoteWebPlaceholderUsername now userId username)) (\<lambda>_.
          bindS (modifyS (record_activity userId ''ACCOUNT_LINKED'')) (\<lambda>_.
          returnS False)))) db)"

definition unlinkAccount :: "string \<Rightarrow> string \<Rightarrow> (unit, identity_db) handler" where
  "unlinkAccount userId platform db =
     (let p = toLowerCase platform in
      case platformIdColumn p of
        None \<Rightarrow> (Inl (BadRequest (''Unsupported platform: '' @ platform)), db)
      | Some column \<Rightarrow>
          (case findUnique (im_users db) userId of
             None \<Rightarrow> (Inl (NotFound ''Account not found''), db)
           | Some u \<Rightarrow>
               if \<not> (\<exists>(i, n) \<in> set (im_nodes db). sn_userId n = userId \<and> sn_platform n \<noteq> p) \<and> some_text (iu_email u) = None
               then (Inl (BadRequest ''This is your only sign-in method. Link another platform or add an email before disconnecting it.''), db)
               else
                 bindS (modifyS (\<lambda>db. db\<lparr>im_nodes :=
                          filter (\<lambda>(i, n). \<not> (sn_userId n = userId \<and> sn_platform n = p)) (im_nodes db)\<rparr>)) (\<lambda>_.
                 bindS (ignoring (update_user userId (set_column column None))) (\<lambda>_.
                 modifyS (record_activity userId ''ACCOUNT_UNLINKED''))) db))"


section \<open>Registration\<close>

definition derived :: "'a js \<Rightarrow> 'a http" where
  "derived r = (case r of Inr x \<Rightarrow> Inr x | Inl _ \<Rightarrow> Inl (InternalError ''Error''))"

text \<open>A wallet that was made up for a recipient without a passkey.\<close>

definition placeholder_key :: "string \<Rightarrow> bool" where
  "placeholder_key x \<longleftrightarrow> x = ''0x0'' \<or> x = ''0''"

definition registered_wallet :: "'pk identity_env \<Rightarrow> string \<Rightarrow> string \<Rightarrow> string \<times> bytes \<times> bytes \<Rightarrow> IdentityWallet" where
  "registered_wallet E pubKeyX pubKeyY derivation =
     \<lparr>sw_address = fst derivation, sw_publicKeyX = pubKeyX, sw_publicKeyY = pubKeyY,
      sw_salt = ''0x'' @ to_hex (snd (snd derivation)), sw_isDeployed = False,
      sw_factoryAddress = Some (ch_print (ie_chain E) (VERIAGENT_PROGRAM_ID (ch_sdk (ie_chain E)))),
      sw_derivationVersion = Some ''SOLANA_PDA_V1''\<rparr>"

text \<open>The row that the registration takes for the account of the identity.\<close>

definition registered_before :: "string \<Rightarrow> string \<Rightarrow> string \<Rightarrow> identity_db \<Rightarrow> (string \<times> identity_user) option" where
  "registered_before platform platformId cleanUsername db =
     first_user (\<lambda>i u.
       platform = ''telegram'' \<and> (iu_telegramId u = Some platformId \<or> iu_telegramId u = Some cleanUsername) \<or>
       platform = ''whatsapp'' \<and> iu_whatsappId u = Some platformId \<or>
       iu_username u = Some cleanUsername \<or>
       platform \<noteq> ''telegram'' \<and> iu_username u = Some (toLowerCase cleanUsername)) db"

definition with_identity :: "string \<Rightarrow> string \<Rightarrow> string \<Rightarrow> identity_user \<Rightarrow> identity_user" where
  "with_identity platform platformId cleanUsername u =
     u\<lparr>iu_username := Some cleanUsername,
       iu_telegramId := (if platform = ''telegram'' then Some platformId else iu_telegramId u),
       iu_whatsappId := (if platform = ''whatsapp'' then Some platformId else iu_whatsappId u),
       iu_slackId := (if platform = ''slack'' then Some platformId else iu_slackId u),
       iu_discordId := (if platform = ''discord'' then Some platformId else iu_discordId u)\<rparr>"

definition no_identity :: identity_user where
  "no_identity = \<lparr>iu_email = None, iu_telegramId = None, iu_telegramChatId = None, iu_whatsappId = None, iu_slackId = None,
     iu_discordId = None, iu_username = None, iu_smartWallet = None\<rparr>"

text \<open>The row is written first, then the wallet of a row that has a made-up one.\<close>

definition register_row ::
    "string \<Rightarrow> string \<Rightarrow> string \<Rightarrow> string \<Rightarrow> IdentityWallet \<Rightarrow> (string, identity_db) handler" where
  "register_row newId platform platformId cleanUsername wallet db =
     (case registered_before platform platformId cleanUsername db of
        Some (i, existing) \<Rightarrow>
          bindS (update_user i (with_identity platform platformId cleanUsername)) (\<lambda>_.
          bindS (case iu_smartWallet existing of
                   Some w \<Rightarrow>
                     if placeholder_key (sw_publicKeyX w)
                     then update_user i (\<lambda>u. u\<lparr>iu_smartWallet := Some wallet\<rparr>)
                     else returnS ()
                 | None \<Rightarrow> returnS ()) (\<lambda>_.
          returnS i)) db
      | None \<Rightarrow>
          bindS (insert_user newId ((with_identity platform platformId cleanUsername no_identity)\<lparr>iu_smartWallet := Some wallet\<rparr>))
            (\<lambda>_. returnS newId) db)"

text \<open>The plaintext credential of the older enrolment; a failure is logged.\<close>

definition legacy_credential :: "string \<Rightarrow> string \<Rightarrow> string \<Rightarrow> string \<Rightarrow> string \<Rightarrow> identity_db \<Rightarrow> identity_db" where
  "legacy_credential newId userId credentialId pubKeyX pubKeyY db =
     (case find (\<lambda>(i, c). pc_credentialId c = Some credentialId) (im_credentials db) of
        Some (i, c) \<Rightarrow>
          db\<lparr>im_credentials := update_row i (\<lambda>c. c\<lparr>pc_publicKeyX := Some pubKeyX, pc_publicKeyY := Some pubKeyY\<rparr>) (im_credentials db)\<rparr>
      | None \<Rightarrow>
          if findUnique (im_credentials db) newId \<noteq> None then db
          else db\<lparr>im_credentials := create_row newId ((empty_credential userId)\<lparr>pc_credentialId := Some credentialId,
                 pc_publicKeyX := Some pubKeyX, pc_publicKeyY := Some pubKeyY\<rparr>) (im_credentials db)\<rparr>)"

record Registered =
  rg_userId :: string
  rg_smartAccountAddress :: "string option"
  rg_isDeployed :: bool
  rg_accessToken :: string
  rg_username :: "string option"

text \<open>The identifiers of the rows that may be created, and of the token.\<close>

record fresh_ids =
  fi_user :: string
  fi_node :: string
  fi_credential :: string
  fi_jti :: string

definition identity_token :: "'pk identity_env \<Rightarrow> date \<Rightarrow> string \<Rightarrow> string option \<Rightarrow> string \<Rightarrow> string" where
  "identity_token E now userId walletAddress jti =
     jwt_sign (ie_jwt E) \<lparr>jc_userId = Some userId, jc_walletAddress = walletAddress, jc_jti = Some jti, jc_pkv = False,
       jc_iat = Some (seconds now), jc_exp = Some (seconds now + 24 * 3600)\<rparr> (ie_jwtSecret E)"

definition registerUser ::
    "'pk identity_env \<Rightarrow> date \<Rightarrow> fresh_ids \<Rightarrow> string \<Rightarrow> string \<Rightarrow> string \<Rightarrow> string \<Rightarrow> string \<Rightarrow> string
     \<Rightarrow> (Registered, identity_db) handler" where
  "registerUser E now ids platform platformId username pubKeyX pubKeyY credentialId =
     bindS (liftS (derived (deriveVaultFromPasskey (ie_chain E) pubKeyX pubKeyY platform platformId))) (\<lambda>derivation.
     let smartAccountAddress = fst derivation; cleanUsername = strip_at username in
     bindS (register_row (fi_user ids) platform platformId cleanUsername (registered_wallet E pubKeyX pubKeyY derivation)) (\<lambda>userId.
     bindS (if platform = ''web'' then returnS ()
            else ignoring (syncSocialNode (fi_node ids) userId platform platformId (Some cleanUsername))) (\<lambda>_.
     bindS (modifyS (map_handle now platformId smartAccountAddress \<circ> map_handle now username smartAccountAddress)) (\<lambda>_.
     bindS (getS (\<lambda>db. findUnique (im_users db) userId)) (\<lambda>row.
     let wallet = Option.bind row iu_smartWallet;
         resolvedAddress = (case wallet of Some w \<Rightarrow> sw_address w | None \<Rightarrow> smartAccountAddress) in
     bindS (modifyS (if credentialId = [] then id else legacy_credential (fi_credential ids) userId credentialId pubKeyX pubKeyY)) (\<lambda>_.
     bindS (modifyS (record_activity userId ''USER_REGISTERED'')) (\<lambda>_.
     returnS \<lparr>rg_userId = userId, rg_smartAccountAddress = Some resolvedAddress,
              rg_isDeployed = (case wallet of Some w \<Rightarrow> sw_isDeployed w | None \<Rightarrow> False),
              rg_accessToken = identity_token E now userId (Some resolvedAddress) (fi_jti ids),
              rg_username = Option.bind row iu_username\<rparr>)))))))"

section \<open>Handles and wallets\<close>

definition normalizePhone :: "string \<Rightarrow> string" where
  "normalizePhone input =
     trim (filter (\<lambda>c. \<not> (is_ws c \<or> c = CHR ''+'' \<or> c = CHR ''-'' \<or> c = CHR ''('' \<or> c = CHR '')'')) input)"

definition computeCounterfactualAddress :: "'pk identity_env \<Rightarrow> string \<Rightarrow> string \<Rightarrow> string http" where
  "computeCounterfactualAddress E salt ownerKeyHash =
     derived (bindE (bytes32FromStored ownerKeyHash) (\<lambda>hash.
              bindE (bytes32FromStored salt) (\<lambda>saltBytes.
              deriveVaultAddress (ie_chain E) hash saltBytes)))"

definition same_insensitive :: "string option \<Rightarrow> string \<Rightarrow> bool" where
  "same_insensitive x y \<longleftrightarrow> map_option toLowerCase x = Some (toLowerCase y)"

definition placeholder_wallet :: "string \<Rightarrow> string \<Rightarrow> IdentityWallet" where
  "placeholder_wallet address salt =
     \<lparr>sw_address = address, sw_publicKeyX = ''0x0'', sw_publicKeyY = ''0x0'', sw_salt = salt, sw_isDeployed = False,
      sw_factoryAddress = None, sw_derivationVersion = None\<rparr>"

definition identity_of :: "string \<Rightarrow> string \<Rightarrow> identity_user" where
  "identity_of platform cleanHandle =
     no_identity\<lparr>iu_username := Some cleanHandle,
       iu_telegramId := (if platform = ''telegram'' then Some cleanHandle else None),
       iu_whatsappId := (if platform = ''whatsapp'' then Some cleanHandle else None),
       iu_slackId := (if platform = ''slack'' then Some cleanHandle else None),
       iu_discordId := (if platform = ''discord'' then Some cleanHandle else None)\<rparr>"

text \<open>The three lookups of \<open>resolveContact\<close>, in their order.\<close>

definition cached_contact :: "date \<Rightarrow> string \<Rightarrow> identity_db \<Rightarrow> string option" where
  "cached_contact now trimmed db =
     (let phone = normalizePhone trimmed in
      case resolveHandle now (strip_at trimmed) (im_redis db) of Some a \<Rightarrow> Some a
      | None \<Rightarrow> (case resolveHandle now trimmed (im_redis db) of Some a \<Rightarrow> Some a
      | None \<Rightarrow> if phone = [] then None else resolveHandle now phone (im_redis db)))"

definition username_match :: "string \<Rightarrow> string option \<Rightarrow> string \<Rightarrow> bool" where
  "username_match platform x y \<longleftrightarrow> (if toLowerCase platform = ''telegram'' then x = Some y else same_insensitive x y)"

definition wallet_address :: "identity_user \<Rightarrow> string option" where
  "wallet_address u = some_text (map_option sw_address (iu_smartWallet u))"

definition linked_contact :: "string \<Rightarrow> string \<Rightarrow> identity_db \<Rightarrow> string option" where
  "linked_contact platform trimmed db =
     (let plain = strip_at trimmed; phone = normalizePhone trimmed in
      case find (\<lambda>(i, n). toLowerCase (sn_platform n) = toLowerCase platform \<and>
          (username_match platform (sn_username n) trimmed \<or> username_match platform (sn_username n) plain \<or>
           username_match platform (sn_username n) (CHR ''@'' # plain) \<or> sn_platformUserId n = plain \<or>
           phone \<noteq> [] \<and> sn_platformUserId n = phone)) (im_nodes db) of
        Some (i, n) \<Rightarrow> Option.bind (findUnique (im_users db) (sn_userId n)) wallet_address
      | None \<Rightarrow> None)"

definition known_contact :: "string \<Rightarrow> string \<Rightarrow> identity_db \<Rightarrow> (string \<times> identity_user) option" where
  "known_contact platform trimmed db =
     (let plain = strip_at trimmed; phone = normalizePhone trimmed in
      first_user (\<lambda>i u. username_match platform (iu_username u) plain \<or> iu_telegramId u = Some plain \<or>
        iu_whatsappId u = Some plain \<or> iu_discordId u = Some plain \<or> iu_slackId u = Some plain \<or>
        phone \<noteq> [] \<and> (iu_whatsappId u = Some phone \<or> iu_telegramId u = Some phone)) db)"

definition all_digits :: "string \<Rightarrow> bool" where
  "all_digits s \<longleftrightarrow> s \<noteq> [] \<and> list_all (\<lambda>c. c \<in> set ''0123456789'') s"

definition counterfactual_id :: "string \<Rightarrow> string \<Rightarrow> string" where
  "counterfactual_id platform trimmed =
     (let phone = normalizePhone trimmed; raw = (if phone \<noteq> [] then phone else strip_at trimmed)
      in if platform = ''telegram'' then raw else toLowerCase raw)"

definition zero_hash :: string where "zero_hash = ''0x'' @ to_hex (replicate 32 0)"

definition resolveContact ::
    "'pk identity_env \<Rightarrow> date \<Rightarrow> string \<Rightarrow> string \<Rightarrow> string \<Rightarrow> bool \<Rightarrow> (string, identity_db) handler" where
  "resolveContact E now newId platform handle allowUnregisteredCounterfactual db =
     (let trimmed = trim handle; plain = strip_at trimmed in
      if trimmed = [] then (Inl (BadRequest ''Recipient handle or address is required''), db)
      else if isSolanaAddress (ie_chain E) trimmed then (Inr trimmed, db)
      else case cached_contact now trimmed db of Some a \<Rightarrow> (Inr a, db)
      | None \<Rightarrow> (case linked_contact platform trimmed db of
          Some a \<Rightarrow> (Inr a, map_handle now trimmed a db)
        | None \<Rightarrow> (case Option.bind (known_contact platform trimmed db) (\<lambda>(i, u). map_option (\<lambda>a. (i, u, a)) (wallet_address u)) of
            Some (i, u, a) \<Rightarrow>
              let db1 = (if platform = ''telegram'' \<and> iu_telegramId u \<noteq> Some plain \<and> all_digits plain
                         then snd (update_user i (\<lambda>u. u\<lparr>iu_telegramId := Some plain\<rparr>) db) else db)
              in (Inr a, map_handle now trimmed a db1)
          | None \<Rightarrow>
              if allowUnregisteredCounterfactual then
                let salt = ''0x'' @ to_hex (identitySalt (ch_sdk (ie_chain E)) platform (counterfactual_id platform trimmed));
                    cleanHandle = (if platform = ''telegram'' then plain else toLowerCase plain) in
                bindS (liftS (computeCounterfactualAddress E salt zero_hash)) (\<lambda>address.
                bindS (ignoring (insert_user newId ((identity_of platform cleanHandle)\<lparr>iu_smartWallet := Some (placeholder_wallet address salt)\<rparr>)))
                  (\<lambda>_.
                bindS (modifyS (map_handle now trimmed address)) (\<lambda>_.
                returnS address))) db
              else (Inl (NotFound ((if startsWith trimmed ''@'' then trimmed else CHR ''@'' # trimmed) @
                      '' is not registered yet. Invite them to VeriAgent Pay!'')), db))))"

text \<open>\<open>resolveHandle\<close> of the identity service, with its default platform.\<close>

definition identity_resolveHandle :: "'pk identity_env \<Rightarrow> date \<Rightarrow> string \<Rightarrow> string \<Rightarrow> string \<Rightarrow> (string, identity_db) handler" where
  "identity_resolveHandle E now newId handle platform = resolveContact E now newId platform handle True"



definition short_address :: "string \<Rightarrow> string" where
  "short_address a = take 6 a @ ''...'' @ drop (length a - 4) a"

definition at_handle :: "string \<Rightarrow> string" where
  "at_handle s = (if startsWith s ''@'' then s else CHR ''@'' # s)"

text \<open>The handle of a user on the platform the caller asked for, and the first that the user has.\<close>

definition platform_handle :: "string \<Rightarrow> identity_user \<Rightarrow> string option" where
  "platform_handle platform u =
     (if platform = ''telegram'' \<and> some_text (iu_telegramId u) \<noteq> None
      then Some (CHR ''@'' # the (case some_text (iu_username u) of Some n \<Rightarrow> Some n | None \<Rightarrow> iu_telegramId u))
      else if platform = ''whatsapp'' then some_text (iu_whatsappId u)
      else if platform = ''discord'' then some_text (iu_discordId u)
      else if platform = ''slack'' then some_text (iu_slackId u)
      else None)"

definition any_handle :: "string \<Rightarrow> identity_user \<Rightarrow> SocialNode list \<Rightarrow> string" where
  "any_handle address u nodes =
     (case some_text (iu_username u) of Some n \<Rightarrow> CHR ''@'' # n
      | None \<Rightarrow> (case some_text (iu_telegramId u) of Some n \<Rightarrow> CHR ''@'' # n
      | None \<Rightarrow> (case some_text (iu_whatsappId u) of Some n \<Rightarrow> n
      | None \<Rightarrow> (case nodes of
          n # _ \<Rightarrow> (case some_text (sn_username n) of Some h \<Rightarrow> at_handle h | None \<Rightarrow> short_address address)
        | [] \<Rightarrow> short_address address))))"

definition handleForAddress :: "'pk identity_env \<Rightarrow> date \<Rightarrow> string \<Rightarrow> string option \<Rightarrow> identity_db \<Rightarrow> string \<times> identity_db" where
  "handleForAddress E now address platform db =
     (if address = [] then (''Unknown'', db)
      else if \<not> isSolanaAddress (ie_chain E) address then (address, db)
      else case getHandleForAddress now address (im_redis db) of Some h \<Rightarrow> (h, db)
      | None \<Rightarrow>
          (case first_user (\<lambda>i u. map_option sw_address (iu_smartWallet u) = Some address) db of
             None \<Rightarrow> (short_address address, db)
           | Some (i, u) \<Rightarrow>
               let nodes = map snd (filter (\<lambda>(j, n). sn_userId n = i) (im_nodes db));
                   own = Option.bind (some_text platform) (\<lambda>p.
                     Option.bind (find (\<lambda>n. toLowerCase (sn_platform n) = toLowerCase p) nodes) (\<lambda>n. some_text (sn_username n)))
               in case own of Some s \<Rightarrow> (at_handle s, map_handle now (at_handle s) address db)
                  | None \<Rightarrow>
                      (case Option.bind (some_text platform) (\<lambda>p. platform_handle p u) of Some h \<Rightarrow> (h, db)
                       | None \<Rightarrow> (any_handle address u nodes, map_handle now (any_handle address u nodes) address db))))"

definition resolveUserByHandle :: "string \<Rightarrow> identity_db \<Rightarrow> (string \<times> identity_user) option" where
  "resolveUserByHandle handle db =
     (let plain = strip_at handle in
      first_user (\<lambda>i u. iu_username u = Some plain \<or> iu_telegramId u = Some plain \<or> iu_whatsappId u = Some plain \<or>
        iu_discordId u = Some plain \<or> iu_slackId u = Some plain) db)"

definition findSocialNodeByHandle :: "string \<Rightarrow> string \<Rightarrow> identity_db \<Rightarrow> SocialNode option" where
  "findSocialNodeByHandle platform handle db =
     (let plain = strip_at handle in
      case find (\<lambda>(i, n). sn_platform n = platform \<and>
          (sn_username n = Some handle \<or> sn_username n = Some plain \<or> sn_platformUserId n = plain)) (im_nodes db) of
        Some (i, n) \<Rightarrow> Some n
      | None \<Rightarrow>
          map_option (\<lambda>(i, u). \<lparr>sn_userId = i, sn_platform = platform, sn_platformUserId = plain, sn_username = iu_username u\<rparr>)
            (first_user (\<lambda>i u. iu_username u = Some plain \<or> iu_telegramId u = Some plain \<or> iu_whatsappId u = Some plain \<or>
               iu_discordId u = Some plain) db))"

section \<open>The onboarding entry\<close>

text \<open>A missing chat identifier is left as it is by the update.\<close>

definition linkTelegramChatId ::
    "'pk identity_env \<Rightarrow> date \<Rightarrow> fresh_ids \<Rightarrow> string \<Rightarrow> string \<Rightarrow> string option \<Rightarrow> string \<Rightarrow> string option
     \<Rightarrow> (string, identity_db) handler" where
  "linkTelegramChatId E now ids platform platformId chatId username providedAddress db =
     (let existing = first_user (\<lambda>i u. if platform = ''telegram'' then iu_telegramId u = Some platformId
                                  else iu_username u = Some username) db in
      bindS (case some_text providedAddress of
               Some a \<Rightarrow> returnS a
             | None \<Rightarrow> (case Option.bind existing (wallet_address \<circ> snd) of
                 Some a \<Rightarrow> returnS a
               | None \<Rightarrow> resolveContact E now (fi_credential ids) platform platformId True)) (\<lambda>address.
      bindS (case existing of
               Some (i, e) \<Rightarrow>
                 update_user i (\<lambda>u. u\<lparr>iu_telegramId := (if platform = ''telegram'' then Some platformId else iu_telegramId e),
                   iu_telegramChatId := (case chatId of Some c \<Rightarrow> Some c | None \<Rightarrow> iu_telegramChatId u),
                   iu_username := (if username = [] then iu_username e else Some username)\<rparr>)
             | None \<Rightarrow>
                 insert_user (fi_user ids) (no_identity\<lparr>iu_username := Some username,
                   iu_telegramId := (if platform = ''telegram'' then Some platformId else None), iu_telegramChatId := chatId,
                   iu_smartWallet := Some (placeholder_wallet address (ie_ethersId E (platform @ ''_'' @ platformId)))\<rparr>)) (\<lambda>_.
      bindS (modifyS (\<lambda>db.
               let db1 = map_handle now platformId address (map_handle now username address db) in
               if address = [] then db
               else (case some_text chatId of Some c \<Rightarrow> map_handle now c address db1 | None \<Rightarrow> db1))) (\<lambda>_.
      returnS address))) db)"

record OnboardingCompleteDto =
  oc_chatId :: "string option"
  oc_platform :: "string option"
  oc_platformId :: "string option"
  oc_username :: "string option"
  oc_walletAddress :: "string option"
  oc_publicKeyX :: "string option"
  oc_publicKeyY :: "string option"
  oc_credentialId :: "string option"

text \<open>The route is public. A request with key material is refused at once, so the branch of the body that would register
  it is not reached.\<close>

definition completeOnboarding ::
    "'pk identity_env \<Rightarrow> date \<Rightarrow> fresh_ids \<Rightarrow> OnboardingCompleteDto \<Rightarrow> (string, identity_db) handler" where
  "completeOnboarding E now ids dto =
     bindS (guardS (some_text (oc_publicKeyX dto) = None \<and> some_text (oc_publicKeyY dto) = None \<and> some_text (oc_credentialId dto) = None)
       (Unauthorized ''Legacy public-key onboarding is disabled. Use the verified WebAuthn registration ceremony.'')) (\<lambda>_.
     bindS (guardS (some_text (oc_chatId dto) \<noteq> None \<or> some_text (oc_platformId dto) \<noteq> None)
       (BadRequest ''chatId or platformId is required'')) (\<lambda>_.
     let platform = (case some_text (oc_platform dto) of Some p \<Rightarrow> p | None \<Rightarrow> ''telegram'');
         platformId = (case some_text (oc_platformId dto) of Some p \<Rightarrow> p | None \<Rightarrow> the (oc_chatId dto));
         username = (case some_text (oc_username dto) of Some n \<Rightarrow> n | None \<Rightarrow> ''user_'' @ platformId)
     in linkTelegramChatId E now ids platform platformId (oc_chatId dto) username (oc_walletAddress dto)))"


end
