(* ===== verification/CredentialVault.thy ===== *)
theory CredentialVault
  imports Identity SessionCrypto
begin

text \<open>
  \<open>backend/src/identity/credential-vault.service.ts\<close>: the storage of the public keys of passkeys under envelope
  encryption. A record is encrypted under a data key of its own, which is wrapped by a versioned key of the
  deployment; the rotation wraps it again under the current version. AES-256-GCM is that of \<open>ciphers\<close>; \<open>JSON\<close> on
  a payload and the COSE encoding of a public key, from other packages, are functions of the environment.
\<close>

section \<open>Environment\<close>

record CredentialPayload =
  cp_userId :: string
  cp_publicKeyX :: string
  cp_publicKeyY :: string
  cp_walletAddress :: "string option"

record vault_env =
  ve_ciphers :: ciphers
  ve_sha256 :: "bytes \<Rightarrow> bytes"
  ve_stringify :: "CredentialPayload \<Rightarrow> string"
  ve_parse :: "string \<Rightarrow> CredentialPayload option"
  ve_cose :: "bytes \<Rightarrow> bytes \<Rightarrow> bytes"
  ve_decode :: "bytes \<Rightarrow> (bytes option \<times> bytes option) option"
  ve_keks :: "int \<rightharpoonup> bytes"
  ve_current :: int

definition vault_ok :: "vault_env \<Rightarrow> bool" where
  "vault_ok V \<longleftrightarrow> ciphers_ok (ve_ciphers V) \<and> (\<forall>p. ve_parse V (ve_stringify V p) = Some p)"

text \<open>The key ring: the versions up to the current one that the configuration has. \<open>None\<close> when the start fails.\<close>

fun load_versions :: "(nat \<Rightarrow> string option) \<Rightarrow> nat \<Rightarrow> nat list \<Rightarrow> (int \<rightharpoonup> bytes) option" where
  "load_versions config current [] = Some Map.empty"
| "load_versions config current (v # vs) =
     (case some_text (config v) of
        Some hexKey \<Rightarrow>
          if length hexKey \<noteq> 64 then None
          else map_option (\<lambda>m. if m (int v) = None then m(int v \<mapsto> from_hex hexKey) else m) (load_versions config current vs)
      | None \<Rightarrow> if v = current then None else load_versions config current vs)"

definition loadKeks :: "nat \<Rightarrow> (nat \<Rightarrow> string option) \<Rightarrow> (int \<rightharpoonup> bytes) option" where
  "loadKeks currentVersion config =
     (if currentVersion = 0 then Some Map.empty else load_versions config currentVersion [1..<Suc currentVersion])"

section \<open>Wrapping\<close>

definition wrapDek :: "vault_env \<Rightarrow> bytes \<Rightarrow> bytes \<Rightarrow> bytes \<Rightarrow> string" where
  "wrapDek V iv dek kek =
     (let (ct, tag) = gcm_encrypt (ve_ciphers V) kek iv dek in to_hex iv @ '':'' @ to_hex ct @ '':'' @ to_hex tag)"

definition unwrapDek :: "vault_env \<Rightarrow> string \<Rightarrow> bytes \<Rightarrow> bytes option" where
  "unwrapDek V wrappedDek kek =
     (let parts = SessionCrypto.split_on (CHR '':'') wrappedDek in
      if length parts < 3 then None
      else gcm_decrypt (ve_ciphers V) kek (from_hex (parts ! 0)) (from_hex (parts ! 2)) (from_hex (parts ! 1)))"

text \<open>The random data key and initialisation vectors of one encryption.\<close>

record vault_random =
  vr_dek :: bytes
  vr_iv :: bytes
  vr_wrapIv :: bytes

definition sealed ::
    "vault_env \<Rightarrow> vault_random \<Rightarrow> bytes \<Rightarrow> CredentialPayload \<Rightarrow> StoredPasskey \<Rightarrow> StoredPasskey" where
  "sealed V R kek payload c =
     (let (ct, tag) = gcm_encrypt (ve_ciphers V) (vr_dek R) (vr_iv R) (utf8 (ve_stringify V payload)) in
      c\<lparr>pc_encryptedPayload := Some (to_hex ct), pc_wrappedDek := Some (wrapDek V (vr_wrapIv R) (vr_dek R) kek),
        pc_kekVersion := ve_current V, pc_iv := Some (to_hex (vr_iv R)), pc_authTag := Some (to_hex tag)\<rparr>)"

definition unsealed :: "vault_env \<Rightarrow> string \<Rightarrow> string \<Rightarrow> int \<Rightarrow> string \<Rightarrow> string \<Rightarrow> CredentialPayload option" where
  "unsealed V encryptedPayload wrappedDek kekVersion ivHex authTagHex =
     Option.bind (ve_keks V kekVersion) (\<lambda>kek.
     Option.bind (unwrapDek V wrappedDek kek) (\<lambda>dek.
     Option.bind (gcm_decrypt (ve_ciphers V) dek (from_hex ivHex) (from_hex authTagHex) (from_hex encryptedPayload)) (\<lambda>pt.
     Option.bind (utf8_read pt) (ve_parse V))))"

section \<open>Rows\<close>

definition computeLookupHash :: "vault_env \<Rightarrow> string \<Rightarrow> string" where
  "computeLookupHash V credentialId = to_hex (ve_sha256 V (utf8 credentialId))"

definition findByLookupOrCredentialId ::
    "string \<Rightarrow> string \<Rightarrow> StoredPasskey table \<Rightarrow> (string \<times> StoredPasskey) option" where
  "findByLookupOrCredentialId lookupHash credentialId t =
     find (\<lambda>(i, c). pc_lookupHash c = Some lookupHash \<or> pc_credentialId c = Some credentialId) t"

definition credentials_clash :: "StoredPasskey \<Rightarrow> StoredPasskey \<Rightarrow> bool" where
  "credentials_clash c d \<longleftrightarrow> shared (pc_lookupHash c) (pc_lookupHash d) \<or> shared (pc_credentialId c) (pc_credentialId d)"

definition update_credential ::
    "string \<Rightarrow> (StoredPasskey \<Rightarrow> StoredPasskey) \<Rightarrow> (unit, StoredPasskey table) handler" where
  "update_credential i f t =
     (case findUnique t i of
        None \<Rightarrow> (Inl missing_record, t)
      | Some c \<Rightarrow>
          if \<exists>(j, d) \<in> set t. j \<noteq> i \<and> credentials_clash (f c) d then (Inl unique_violation, t)
          else (Inr (), update_row i f t))"

definition create_credential :: "string \<Rightarrow> StoredPasskey \<Rightarrow> (unit, StoredPasskey table) handler" where
  "create_credential i c t =
     (if findUnique t i \<noteq> None \<or> (\<exists>(j, d) \<in> set t. credentials_clash c d) then (Inl unique_violation, t)
      else (Inr (), create_row i c t))"

definition the_kek :: "vault_env \<Rightarrow> bytes http" where
  "the_kek V = (case ve_keks V (ve_current V) of Some k \<Rightarrow> Inr k | None \<Rightarrow> Inl (InternalError ''TypeError''))"

text \<open>What both enrolments write: the plain columns are cleared.\<close>

definition seal_row ::
    "vault_env \<Rightarrow> vault_random \<Rightarrow> bytes \<Rightarrow> string \<Rightarrow> CredentialPayload \<Rightarrow> StoredPasskey \<Rightarrow> StoredPasskey" where
  "seal_row V R kek lookupHash payload c =
     (sealed V R kek payload c)\<lparr>pc_lookupHash := Some lookupHash, pc_credentialId := None, pc_publicKeyX := None,
        pc_publicKeyY := None\<rparr>"

definition storeCredential ::
    "vault_env \<Rightarrow> vault_random \<Rightarrow> string \<Rightarrow> string \<Rightarrow> CredentialPayload \<Rightarrow> (string, StoredPasskey table) handler" where
  "storeCredential V R newId credentialId payload t =
     (let lookupHash = computeLookupHash V credentialId in
      case (ve_current V = 0, findByLookupOrCredentialId lookupHash credentialId t) of
        (True, Some (i, c)) \<Rightarrow>
          bindS (update_credential i (\<lambda>c. c\<lparr>pc_lookupHash := Some lookupHash, pc_publicKeyX := Some (cp_publicKeyX payload),
            pc_publicKeyY := Some (cp_publicKeyY payload)\<rparr>)) (\<lambda>_. returnS i) t
      | (True, None) \<Rightarrow>
          bindS (create_credential newId ((empty_credential (cp_userId payload))\<lparr>pc_lookupHash := Some lookupHash,
            pc_credentialId := Some credentialId, pc_publicKeyX := Some (cp_publicKeyX payload),
            pc_publicKeyY := Some (cp_publicKeyY payload)\<rparr>)) (\<lambda>_. returnS newId) t
      | (False, found) \<Rightarrow>
          bindS (liftS (the_kek V)) (\<lambda>kek.
          (case found of
             Some (i, c) \<Rightarrow> bindS (update_credential i (seal_row V R kek lookupHash payload)) (\<lambda>_. returnS i)
           | None \<Rightarrow> bindS (create_credential newId (seal_row V R kek lookupHash payload (empty_credential (cp_userId payload))))
               (\<lambda>_. returnS newId))) t)"

definition read_credential :: "vault_env \<Rightarrow> StoredPasskey \<Rightarrow> CredentialPayload option" where
  "read_credential V c =
     (case (some_text (pc_encryptedPayload c), pc_wrappedDek c, pc_iv c, pc_authTag c) of
        (Some blob, Some wrapped, Some iv, Some tag) \<Rightarrow>
          if pc_kekVersion c = 0 then None else unsealed V blob wrapped (pc_kekVersion c) iv tag
      | _ \<Rightarrow> None)"

definition plain_credential :: "StoredPasskey \<Rightarrow> CredentialPayload option" where
  "plain_credential c =
     (case (some_text (pc_publicKeyX c), some_text (pc_publicKeyY c)) of
        (Some x, Some y) \<Rightarrow> Some \<lparr>cp_userId = pc_userId c, cp_publicKeyX = x, cp_publicKeyY = y, cp_walletAddress = None\<rparr>
      | _ \<Rightarrow> None)"

text \<open>The identifier and the counter of the row, with what the row says.\<close>

definition lookupAndDecrypt ::
    "vault_env \<Rightarrow> string \<Rightarrow> StoredPasskey table \<Rightarrow> (string \<times> CredentialPayload \<times> int) option" where
  "lookupAndDecrypt V credentialId t =
     (case findByLookupOrCredentialId (computeLookupHash V credentialId) credentialId t of
        None \<Rightarrow> None
      | Some (i, c) \<Rightarrow>
          map_option (\<lambda>p. (i, p, pc_counter c))
            (if pc_kekVersion c = 0 \<or> some_text (pc_encryptedPayload c) = None then plain_credential c
             else read_credential V c))"

definition incrementCounter :: "vault_env \<Rightarrow> string \<Rightarrow> StoredPasskey table \<Rightarrow> StoredPasskey table" where
  "incrementCounter V credentialId t =
     map (\<lambda>(i, c). if pc_lookupHash c = Some (computeLookupHash V credentialId) \<or> pc_credentialId c = Some credentialId
                   then (i, c\<lparr>pc_counter := pc_counter c + 1\<rparr>) else (i, c)) t"

section \<open>Rotation\<close>

definition rotateRecord :: "vault_env \<Rightarrow> bytes \<Rightarrow> string \<Rightarrow> (bool, StoredPasskey table) handler" where
  "rotateRecord V wrapIv recordId t =
     (case findUnique t recordId of
        None \<Rightarrow> (Inr False, t)
      | Some c \<Rightarrow>
          (case some_text (pc_wrappedDek c) of
             None \<Rightarrow> (Inr False, t)
           | Some wrapped \<Rightarrow>
               if pc_kekVersion c \<ge> ve_current V then (Inr False, t)
               else (case Option.bind (ve_keks V (pc_kekVersion c)) (unwrapDek V wrapped) of
                   None \<Rightarrow> (Inr False, t)
                 | Some dek \<Rightarrow>
                     bindS (liftS (the_kek V)) (\<lambda>kek.
                     bindS (modifyS (update_row recordId (\<lambda>c. c\<lparr>pc_wrappedDek := Some (wrapDek V wrapIv dek kek),
                       pc_kekVersion := ve_current V\<rparr>))) (\<lambda>_. returnS True)) t)))"

definition stale :: "vault_env \<Rightarrow> StoredPasskey \<Rightarrow> bool" where
  "stale V c \<longleftrightarrow> pc_kekVersion c < ve_current V \<and> pc_encryptedPayload c \<noteq> None"

text \<open>The records are read once; \<open>ivs\<close> has the initialisation vector of each.\<close>

fun rotate_records :: "vault_env \<Rightarrow> (string \<Rightarrow> bytes) \<Rightarrow> string list \<Rightarrow> nat \<times> nat \<Rightarrow> (nat \<times> nat, StoredPasskey table) handler" where
  "rotate_records V ivs [] n t = (Inr n, t)"
| "rotate_records V ivs (i # is) (rotated, left) t =
     (case rotateRecord V (ivs i) i t of
        (Inl e, t') \<Rightarrow> (Inl e, t')
      | (Inr success, t') \<Rightarrow> rotate_records V ivs is (if success then (rotated + 1, left) else (rotated, left + 1)) t')"

definition rotateAll :: "vault_env \<Rightarrow> (string \<Rightarrow> bytes) \<Rightarrow> (nat \<times> nat, StoredPasskey table) handler" where
  "rotateAll V ivs t =
     (if ve_current V = 0 then (Inr (0, 0), t)
      else rotate_records V ivs (map fst (filter (\<lambda>(i, c). stale V c) t)) (0, 0) t)"


section \<open>Migration\<close>

definition coordinateToBytes :: "string \<Rightarrow> bytes http" where
  "coordinateToBytes value =
     derived (bindE (bigint_of_string value) (\<lambda>coordinate.
       if coordinate \<le> 0 \<or> coordinate \<ge> 2 ^ 256 then Inl (JsError ''P-256 coordinate is out of range'')
       else Inr (from_hex (padStart 64 (CHR ''0'') (bigint_to_hex coordinate)))))"

definition cose_key :: "vault_env \<Rightarrow> string \<Rightarrow> string \<Rightarrow> bytes http" where
  "cose_key V publicKeyX publicKeyY =
     bindE (coordinateToBytes publicKeyX) (\<lambda>x.
     bindE (coordinateToBytes publicKeyY) (\<lambda>y.
     if ve_decode V (ve_cose V x y) = None then Inl (InternalError ''Error'') else Inr (ve_cose V x y)))"

text \<open>The wallets of the users, for the payload, are given by \<open>walletOf\<close>.\<close>

definition migrateLegacyRecord ::
    "vault_env \<Rightarrow> vault_random \<Rightarrow> (string \<Rightarrow> string option) \<Rightarrow> string \<Rightarrow> (bool, StoredPasskey table) handler" where
  "migrateLegacyRecord V R walletOf credentialId t =
     (let lookupHash = computeLookupHash V credentialId in
      if ve_current V = 0 then (Inr False, t)
      else case findByLookupOrCredentialId lookupHash credentialId t of
        None \<Rightarrow> (Inr False, t)
      | Some (i, c) \<Rightarrow>
          (case plain_credential c of
             None \<Rightarrow> (Inr False, t)
           | Some p \<Rightarrow>
               if pc_kekVersion c > 0 then (Inr False, t)
               else bindS (liftS (the_kek V)) (\<lambda>kek.
                    bindS (update_credential i (seal_row V R kek lookupHash (p\<lparr>cp_walletAddress := some_text (walletOf (pc_userId c))\<rparr>)))
                      (\<lambda>_. returnS True)) t))"

definition webauthn_row :: "string \<Rightarrow> bytes \<Rightarrow> string option \<Rightarrow> StoredPasskey \<Rightarrow> StoredPasskey" where
  "webauthn_row lookupHash cose label c =
     c\<lparr>pc_lookupHash := Some lookupHash, pc_credentialPublicKey := Some cose, pc_deviceType := Some ''unknown'',
       pc_backedUp := False, pc_backupStateKnown := False,
       pc_label := Some (case some_text label of Some l \<Rightarrow> l | None \<Rightarrow> ''Legacy testnet passkey'')\<rparr>"

definition credential_of_hash :: "string \<Rightarrow> StoredPasskey table \<Rightarrow> (string \<times> StoredPasskey) option" where
  "credential_of_hash lookupHash t = find (\<lambda>(i, c). pc_lookupHash c = Some lookupHash) t"

definition ensureWebAuthnPublicKey :: "vault_env \<Rightarrow> string \<Rightarrow> (bytes option, StoredPasskey table) handler" where
  "ensureWebAuthnPublicKey V credentialId t =
     (let lookupHash = computeLookupHash V credentialId;
          existing = credential_of_hash lookupHash t in
      case Option.bind existing (pc_credentialPublicKey \<circ> snd) of
        Some key \<Rightarrow> (Inr (Some key), t)
      | None \<Rightarrow>
          (case lookupAndDecrypt V credentialId t of
             None \<Rightarrow> (Inr None, t)
           | Some (i, p, n) \<Rightarrow>
               bindS (liftS (cose_key V (cp_publicKeyX p) (cp_publicKeyY p))) (\<lambda>cose t.
                 case findUnique t i of
                   Some c \<Rightarrow>
                     if pc_credentialPublicKey c = None \<and> pc_revokedAt c = None
                     then bindS (update_credential i (webauthn_row lookupHash cose (Option.bind existing (pc_label \<circ> snd))))
                            (\<lambda>_. returnS (Some cose)) t
                     else (Inr (Option.bind (credential_of_hash lookupHash t) (pc_credentialPublicKey \<circ> snd)), t)
                 | None \<Rightarrow> (Inr (Option.bind (credential_of_hash lookupHash t) (pc_credentialPublicKey \<circ> snd)), t)) t))"

text \<open>What the batch makes of a row without a public key: its index and its COSE key, if it has both.\<close>

definition migrated_row :: "vault_env \<Rightarrow> StoredPasskey \<Rightarrow> (string \<times> bytes) option" where
  "migrated_row V c =
     Option.bind (case plain_credential c of Some p \<Rightarrow> Some p
                  | None \<Rightarrow> if pc_kekVersion c \<le> 0 then None else read_credential V c) (\<lambda>p.
     case cose_key V (cp_publicKeyX p) (cp_publicKeyY p) of
       Inl _ \<Rightarrow> None
     | Inr cose \<Rightarrow>
         (case some_text (pc_lookupHash c) of
            Some h \<Rightarrow> Some (h, cose)
          | None \<Rightarrow> map_option (\<lambda>i. (computeLookupHash V i, cose)) (some_text (pc_credentialId c))))"

record MigrationReport =
  mr_candidates :: nat
  mr_compatible :: nat
  mr_incompatible :: nat
  mr_migrated :: nat

fun apply_migration :: "(string \<times> string \<times> bytes) list \<Rightarrow> (unit, StoredPasskey table) handler" where
  "apply_migration [] t = (Inr (), t)"
| "apply_migration ((i, h, cose) # rest) t =
     bindS (update_credential i (webauthn_row h cose None)) (\<lambda>_. apply_migration rest) t"

text \<open>The updates are one transaction.\<close>

definition migrateLegacyWebAuthnPublicKeys ::
    "vault_env \<Rightarrow> bool \<Rightarrow> bool \<Rightarrow> (MigrationReport, StoredPasskey table) handler" where
  "migrateLegacyWebAuthnPublicKeys V apply_them requireAllCompatible t =
     (let records = filter (\<lambda>(i, c). pc_credentialPublicKey c = None \<and> pc_revokedAt c = None) t;
          compatible = List.map_filter (\<lambda>(i, c). map_option (\<lambda>m. (i, m)) (migrated_row V c)) records;
          incompatible = length records - length compatible;
          report = \<lparr>mr_candidates = length records, mr_compatible = length compatible, mr_incompatible = incompatible,
                    mr_migrated = 0\<rparr>
      in if \<not> apply_them \<or> requireAllCompatible \<and> incompatible > 0 then (Inr report, t)
         else case apply_migration compatible t of
           (Inl e, _) \<Rightarrow> (Inl e, t)
         | (Inr _, t') \<Rightarrow> (Inr (report\<lparr>mr_migrated := length compatible\<rparr>), t'))"

end
