(* ===== verification/SignedLinks.thy ===== *)
theory SignedLinks
  imports Bytes JsText HotState "HOL-Library.List_Lexorder" "HOL-Library.Char_ord"
begin

text \<open>
  The signed links of the backend: \<open>generateSignedDeepLink\<close> of \<open>platform/platform.service.ts\<close> and
  \<open>platform/payment-escalation.service.ts\<close>, with \<open>URLSearchParams\<close> and \<open>Number\<close> of the language. The HMAC is an
  argument that takes the secret and the text to the hexadecimal signature. Parameters are pairs of a name and a
  value; a number among them is given by its text. The texts of the messages are left out.
\<close>

section \<open>URLSearchParams\<close>

definition form_safe :: "byte \<Rightarrow> bool" where
  "form_safe b \<longleftrightarrow>
     (let k = unat b in 48 \<le> k \<and> k \<le> 57 \<or> 65 \<le> k \<and> k \<le> 90 \<or> 97 \<le> k \<and> k \<le> 122 \<or> k = 42 \<or> k = 45 \<or> k = 46 \<or> k = 95)"

definition form_byte :: "byte \<Rightarrow> string" where
  "form_byte b =
     (if form_safe b then [char_of (unat b)]
      else if b = 32 then ''+''
      else CHR ''%'' # toUpperCase (to_hex [b]))"

definition form_encode :: "string \<Rightarrow> string" where
  "form_encode s = concat (map form_byte (utf8 s))"

definition form_pair :: "string \<times> string \<Rightarrow> string" where
  "form_pair kv = form_encode (fst kv) @ ''='' @ form_encode (snd kv)"

fun join_str :: "string \<Rightarrow> string list \<Rightarrow> string" where
  "join_str sep [] = []"
| "join_str sep [w] = w"
| "join_str sep (w # ws) = w @ sep @ join_str sep ws"

definition search_params :: "(string \<times> string) list \<Rightarrow> string" where
  "search_params kvs = join_str ''&'' (map form_pair kvs)"

section \<open>Number\<close>

text \<open>\<open>Number(s)\<close>: the whole text has to be a literal, white space around it aside.\<close>

definition exponent_text :: "js_text \<Rightarrow> bool" where
  "exponent_text s \<longleftrightarrow> s = [] \<or>
     (hd s = 101 \<or> hd s = 69) \<and>
     (let t = tl s; ds = (if starts t [45] \<or> starts t [43] then drop 1 t else t) in ds \<noteq> [] \<and> list_all is_digit ds)"

definition unsigned_number :: "js_text \<Rightarrow> js_number" where
  "unsigned_number s =
     (if s = lit ''Infinity'' then JInf
      else
        let rest = dropWhile is_digit s;
            rest' = (if starts rest [46] then dropWhile is_digit (drop 1 rest) else rest)
        in if starts s (lit ''Infinity'') \<or> \<not> exponent_text rest' then JNaN else decimal_prefix s)"

definition radix_number :: "int \<Rightarrow> js_text \<Rightarrow> js_number" where
  "radix_number radix ds =
     (let digit = (\<lambda>c. if is_digit c then c - 48 else if 97 \<le> c then c - 87 else c - 55) in
      if ds \<noteq> [] \<and> list_all (\<lambda>c. hex_digit c \<and> digit c < radix) ds
      then JNum (fold (\<lambda>c n. of_int radix * n + of_int (digit c)) ds 0) else JNaN)"

definition number_of_text :: "js_text \<Rightarrow> js_number" where
  "number_of_text s =
     (let t = text_trim s in
      if t = [] then JNum 0
      else if starts t [48, 120] \<or> starts t [48, 88] then radix_number 16 (drop 2 t)
      else if starts t [48, 111] \<or> starts t [48, 79] then radix_number 8 (drop 2 t)
      else if starts t [48, 98] \<or> starts t [48, 66] then radix_number 2 (drop 2 t)
      else if starts t [45] then jneg (unsigned_number (drop 1 t))
      else unsigned_number (if starts t [43] then drop 1 t else t))"

definition Number :: "string option \<Rightarrow> js_number" where
  "Number x = (case x of Some s \<Rightarrow> number_of_text (lit s) | None \<Rightarrow> JNaN)"

section \<open>generateSignedDeepLink\<close>

definition ATTRIBUTION_KEYS :: "string list" where
  "ATTRIBUTION_KEYS = [''ref'', ''src'', ''campaign'', ''partner'', ''channel'']"

definition sorted_params :: "(string \<times> string) list \<Rightarrow> (string \<times> string) list" where
  "sorted_params kvs = sort_key fst kvs"

text \<open>\<open>Object.keys(...).sort()\<close> on an object: a later entry of the same name replaces the earlier one.\<close>

fun object_entries :: "(string \<times> string) list \<Rightarrow> (string \<times> string) list" where
  "object_entries [] = []"
| "object_entries ((k, v) # kvs) =
     (if k \<in> fst ` set kvs then object_entries kvs else (k, v) # object_entries kvs)"

definition signed_query :: "date \<Rightarrow> (string \<times> string option) list \<Rightarrow> string" where
  "signed_query now params =
     (let signable = [(k, v). (k, Some v) \<leftarrow> params, k \<notin> set ATTRIBUTION_KEYS];
          expires = show_int (now div 1000 + 15 * 60)
      in search_params (sorted_params (object_entries (signable @ [(''expires'', expires)]))))"


definition deep_link_signature :: "(string \<Rightarrow> string \<Rightarrow> string) \<Rightarrow> string \<Rightarrow> date \<Rightarrow> (string \<times> string option) list \<Rightarrow> string" where
  "deep_link_signature hmac secret now params = hmac secret (signed_query now params)"

section \<open>payment-escalation.service.ts\<close>

definition ESCALATION_TTL_MS :: int where "ESCALATION_TTL_MS = 15 * 60 * 1000"

definition SIGNED_FIELDS :: "string list" where
  "SIGNED_FIELDS = [''amount'', ''count'', ''expires'', ''note'', ''to'', ''token'']"

datatype EscalationReason = over_limit | no_session_key | session_expired | biometrics_required

datatype EscalationAction = send | envelope

datatype EscalationVerdict = valid_link | missing_signature | bad_signature | expired_link | malformed

record EscalationParams =
  ep_to :: "string option"
  ep_token :: string
  ep_amount :: string
  ep_note :: "string option"
  ep_count :: "string option"
  ep_action :: "EscalationAction option"
  ep_reason :: EscalationReason

definition canonicalize :: "(string \<times> string) list \<Rightarrow> string" where
  "canonicalize given_fields = search_params (sorted_params (filter (\<lambda>(k, v). k \<in> set SIGNED_FIELDS) given_fields))"

definition given_text :: "string option \<Rightarrow> string list" where
  "given_text x = (case x of Some s \<Rightarrow> if s = [] then [] else [s] | None \<Rightarrow> [])"

definition signable :: "date \<Rightarrow> EscalationParams \<Rightarrow> (string \<times> string) list" where
  "signable now p =
     [(''amount'', ep_amount p), (''expires'', show_int ((now + ESCALATION_TTL_MS) div 1000)), (''token'', ep_token p)] @
     map (Pair ''to'') (given_text (ep_to p)) @ map (Pair ''note'') (given_text (ep_note p)) @
     (case ep_count p of Some c \<Rightarrow> [(''count'', c)] | None \<Rightarrow> [])"

definition pathFor :: "EscalationAction \<Rightarrow> EscalationReason \<Rightarrow> string" where
  "pathFor action reason =
     (if action \<noteq> envelope then ''/send'' else if reason = over_limit then ''/envelopes'' else ''/keys'')"

definition buildPrompt_link :: "(string \<Rightarrow> string) \<Rightarrow> string \<Rightarrow> date \<Rightarrow> EscalationParams \<Rightarrow> string" where
  "buildPrompt_link sign base now p =
     (let canonical = canonicalize (signable now p);
          action = (case ep_action p of Some a \<Rightarrow> a | None \<Rightarrow> send)
      in base @ pathFor action (ep_reason p) @ ''?'' @ canonical @ ''&sig='' @ sign canonical @ ''&escalated=1'')"

text \<open>The query parameters of the link, as the page that opens it reads them.\<close>

definition link_query :: "(string \<Rightarrow> string) \<Rightarrow> date \<Rightarrow> EscalationParams \<Rightarrow> string \<rightharpoonup> string" where
  "link_query sign now p =
     map_of (sorted_params (signable now p) @ [(''sig'', sign (canonicalize (signable now p))), (''escalated'', ''1'')])"

definition query_fields :: "(string \<rightharpoonup> string) \<Rightarrow> (string \<times> string) list" where
  "query_fields query = concat (map (\<lambda>key. map (Pair key) (given_text (query key))) SIGNED_FIELDS)"

text \<open>\<open>timingSafeEqual\<close> sees byte strings of the same length only.\<close>

definition verify_escalation :: "(string \<Rightarrow> string) \<Rightarrow> date \<Rightarrow> (string \<rightharpoonup> string) \<Rightarrow> EscalationVerdict" where
  "verify_escalation sign now query =
     (let given_fields = query_fields query in
      case given_text (query ''sig'') of [] \<Rightarrow> missing_signature
      | provided # _ \<Rightarrow>
          if \<not> {''amount'', ''token'', ''expires''} \<subseteq> fst ` set given_fields then malformed
          else if utf8 provided \<noteq> utf8 (sign (canonicalize given_fields)) then bad_signature
          else (case Number (map_of given_fields ''expires'') of
                  JNum e \<Rightarrow> if e * 1000 < of_int now then expired_link else valid_link
                | _ \<Rightarrow> expired_link))"

text \<open>What \<open>classify\<close> reads from a failed payment: its code and its message.\<close>

definition classify :: "string \<Rightarrow> string \<Rightarrow> EscalationReason option" where
  "classify code message =
     (let says = (\<lambda>w. contains_ci w message) in
      if code = ''SESSION_KEY_REQUIRED'' \<or> says ''no active session key'' then Some no_session_key
      else if code = ''SESSION_EXPIRED'' \<or> says ''expired'' \<or> says ''revoked'' then Some session_expired
      else if code = ''SESSION_BYPASSED_BIOMETRICS_REQUIRED'' \<or> says ''biometric'' then Some biometrics_required
      else if says ''exceeds'' \<or> says ''limit'' \<or> says ''dailylimitexceeded'' \<or> says ''per_tx_limit'' \<or> says ''daily_limit'' \<or>
        says ''policy_blocked'' then Some over_limit
      else None)"


end
