(* ===== verification/WebAuthn.thy ===== *)
theory WebAuthn
  imports CredentialVault SignedLinks ShortLinks
begin

text \<open>
  \<open>backend/src/identity/webauthn.service.ts\<close> with its controller and \<open>auth/guards/jwt-auth.guard.ts\<close>: the
  ceremonies that register a passkey and sign in with one, the sessions they issue, the gate that checks access
  tokens, and the check of \<open>relayer.controller.ts\<close> that a token is fresh from a passkey. The verification of \<open>@simplewebauthn/server\<close> is a function of the environment: what it finds in a
  response that is valid for a challenge, and nothing when it rejects or throws. Random values are arguments. What
  the growth services are told of a new wallet is a list.
\<close>

section \<open>Rows\<close>

record RegistrationContext =
  cx_platform :: string
  cx_platformId :: string
  cx_chatId :: "string option"
  cx_username :: string
  cx_label :: "string option"
  cx_expires :: "string option"
  cx_sig :: "string option"
  cx_claimCode :: "string option"
  cx_referralCode :: "string option"
  cx_deviceFingerprint :: "string option"
  cx_src :: "string option"
  cx_campaign :: "string option"
  cx_partner :: "string option"
  cx_channel :: "string option"

record WebAuthnChallenge =
  wc_challenge :: string
  wc_flow :: string
  wc_userId :: "string option"
  wc_context :: "RegistrationContext option"
  wc_expiresAt :: date
  wc_usedAt :: "date option"

record RefreshToken =
  rt_tokenHash :: string
  rt_userId :: string
  rt_expiresAt :: date

record auth_db =
  ad_identity :: identity_db
  ad_challenges :: "WebAuthnChallenge table"
  ad_refresh :: "RefreshToken table"
  ad_links :: "ShortLink table"
  ad_onboarded :: "(string \<times> RegistrationContext) list"

record RegistrationInfo =
  ri_credentialId :: string
  ri_publicKey :: bytes
  ri_counter :: int
  ri_deviceType :: string
  ri_backedUp :: bool

record AuthenticationInfo =
  ai_newCounter :: int
  ai_deviceType :: string
  ai_backedUp :: bool

record AuthenticationResponse =
  ar_id :: string
  ar_assertion :: string

record 'pk auth_env =
  ae_identity :: "'pk identity_env"
  ae_vault :: vault_env
  ae_hmac :: "string \<Rightarrow> string \<Rightarrow> string"
  ae_deeplinkSecret :: string
  ae_registration :: "string \<Rightarrow> string \<Rightarrow> RegistrationInfo option"
  ae_authentication :: "AuthenticationResponse \<Rightarrow> string \<Rightarrow> bytes \<Rightarrow> int \<Rightarrow> AuthenticationInfo option"
  ae_requireRecoverable :: bool

type_synonym 'a auth_handler = "('a, auth_db) handler"

definition CHALLENGE_TTL_MS :: int where "CHALLENGE_TTL_MS = 5 * 60 * 1000"

definition on_identity :: "('a, identity_db) handler \<Rightarrow> 'a auth_handler" where
  "on_identity m = zoomS ad_identity ad_identity_update m"

definition on_credentials :: "('a, StoredPasskey table) handler \<Rightarrow> 'a auth_handler" where
  "on_credentials m = on_identity (zoomS im_credentials im_credentials_update m)"

abbreviation credentials :: "auth_db \<Rightarrow> StoredPasskey table" where
  "credentials db \<equiv> im_credentials (ad_identity db)"

abbreviation users :: "auth_db \<Rightarrow> identity_user table" where "users db \<equiv> im_users (ad_identity db)"

section \<open>Sessions\<close>

definition bearer_token :: "string option \<Rightarrow> string option" where
  "bearer_token header =
     (case header of Some h \<Rightarrow> if startsWith h ''Bearer '' then Some (drop 7 h) else None | None \<Rightarrow> None)"

definition authenticateBearer :: "'pk auth_env \<Rightarrow> date \<Rightarrow> string option \<Rightarrow> string option" where
  "authenticateBearer E now header =
     Option.bind (bearer_token header) (\<lambda>token.
     Option.bind (jwt_verify (ie_jwt (ae_identity E)) (seconds now) token (ie_jwtSecret (ae_identity E))) jc_userId)"

text \<open>The random values of a session: the identifier of the token, the refresh token and the identifier of its row.\<close>

record session_random =
  sr_jti :: string
  sr_refresh :: string
  sr_row :: string

record AuthSession =
  se_accessToken :: string
  se_refreshToken :: string

definition token_hash :: "'pk auth_env \<Rightarrow> string \<Rightarrow> string" where
  "token_hash E token = to_hex (sha256 (ch_sdk (ie_chain (ae_identity E))) (utf8 token))"

definition access_token :: "'pk auth_env \<Rightarrow> date \<Rightarrow> string \<Rightarrow> string option \<Rightarrow> string \<Rightarrow> string" where
  "access_token E now userId walletAddress jti =
     jwt_sign (ie_jwt (ae_identity E)) \<lparr>jc_userId = Some userId, jc_walletAddress = walletAddress, jc_jti = Some jti,
       jc_pkv = True, jc_iat = Some (seconds now), jc_exp = Some (seconds now + 15 * 60)\<rparr> (ie_jwtSecret (ae_identity E))"

definition issueSession :: "'pk auth_env \<Rightarrow> date \<Rightarrow> session_random \<Rightarrow> string \<Rightarrow> string option \<Rightarrow> AuthSession auth_handler" where
  "issueSession E now R userId walletAddress db =
     (if findUnique (ad_refresh db) (sr_row R) \<noteq> None \<or>
         (\<exists>(i, t) \<in> set (ad_refresh db). rt_tokenHash t = token_hash E (sr_refresh R))
      then (Inl unique_violation, db)
      else (Inr \<lparr>se_accessToken = access_token E now userId walletAddress (sr_jti R), se_refreshToken = sr_refresh R\<rparr>,
            db\<lparr>ad_refresh := create_row (sr_row R) \<lparr>rt_tokenHash = token_hash E (sr_refresh R), rt_userId = userId,
                 rt_expiresAt = now + 30 * 24 * 3600000\<rparr> (ad_refresh db)\<rparr>))"

section \<open>Challenges\<close>

definition saveChallenge ::
    "date \<Rightarrow> string \<Rightarrow> string \<Rightarrow> string \<Rightarrow> RegistrationContext option \<Rightarrow> string option \<Rightarrow> string auth_handler" where
  "saveChallenge now newId flow text context userId db =
     (let kept = filter (\<lambda>(i, c). now \<le> wc_expiresAt c) (ad_challenges db) in
      if findUnique kept newId \<noteq> None \<or> (\<exists>(i, c) \<in> set kept. wc_challenge c = text)
      then (Inl unique_violation, db\<lparr>ad_challenges := kept\<rparr>)
      else (Inr newId, db\<lparr>ad_challenges := create_row newId \<lparr>wc_challenge = text, wc_flow = flow, wc_userId = userId,
             wc_context = context, wc_expiresAt = now + CHALLENGE_TTL_MS, wc_usedAt = None\<rparr> kept\<rparr>))"

text \<open>\<open>consumeChallenge\<close> reads the row, and then marks it by a conditional update.\<close>

definition read_challenge :: "date \<Rightarrow> string \<Rightarrow> string \<Rightarrow> auth_db \<Rightarrow> WebAuthnChallenge http" where
  "read_challenge now i flow db =
     (case findUnique (ad_challenges db) i of
        Some c \<Rightarrow>
          if wc_flow c \<noteq> flow \<or> wc_usedAt c \<noteq> None \<or> wc_expiresAt c \<le> now
          then Inl (Unauthorized ''Passkey challenge is invalid, expired, or already used.'')
          else Inr c
      | None \<Rightarrow> Inl (Unauthorized ''Passkey challenge is invalid, expired, or already used.''))"

definition mark_challenge :: "date \<Rightarrow> string \<Rightarrow> unit auth_handler" where
  "mark_challenge now i db =
     (case updateMany i (\<lambda>c. wc_usedAt c = None \<and> now < wc_expiresAt c) (\<lambda>c. c\<lparr>wc_usedAt := Some now\<rparr>) (ad_challenges db) of
        (n, t) \<Rightarrow> (if n = 1 then Inr () else Inl (Unauthorized ''Passkey challenge was already used.''), db\<lparr>ad_challenges := t\<rparr>))"

definition consumeChallenge :: "date \<Rightarrow> string \<Rightarrow> string \<Rightarrow> WebAuthnChallenge auth_handler" where
  "consumeChallenge now i flow =
     bindS (\<lambda>db. (read_challenge now i flow db, db)) (\<lambda>c. bindS (mark_challenge now i) (\<lambda>_. returnS c))"

section \<open>Who may register\<close>

definition verifyClaimCode :: "date \<Rightarrow> string \<Rightarrow> auth_db \<Rightarrow> ShortLink http" where
  "verifyClaimCode now code db =
     (case findUnique (ad_links db) code of
        None \<Rightarrow> Inl (Unauthorized ''Invalid claim code.'')
      | Some link \<Rightarrow>
          if sl_status link \<noteq> ''ACTIVE'' then Inl (Unauthorized ''Claim link is no longer active.'')
          else if link_expired now link then Inl (Unauthorized ''Claim link has expired.'')
          else Inr link)"

definition provisionalIdForClaim :: "RegistrationContext \<Rightarrow> ShortLink \<Rightarrow> string" where
  "provisionalIdForClaim context link =
     (let supplied = strip_at (cx_platformId context);
          target = map_option strip_at (sl_targetUserId link);
          handle = strip_at (cx_username context)
      in if Some supplied = target \<or> supplied = handle \<or> startsWith supplied ''user_''
         then provisionalPlatformId (case some_text target of Some t \<Rightarrow> t | None \<Rightarrow> handle)
         else cx_platformId context)"

definition link_params :: "string \<Rightarrow> RegistrationContext \<Rightarrow> (string \<times> string) list" where
  "link_params idKey context =
     sorted_params ([(''expires'', case cx_expires context of Some e \<Rightarrow> e | None \<Rightarrow> ''undefined''), (''platform'', cx_platform context),
       (idKey, cx_platformId context), (''username'', cx_username context)] @
       map (Pair ''chatId'') (given_text (cx_chatId context)))"

text \<open>\<open>timingSafeEqual\<close> throws when the lengths of the bytes differ although those of the texts agree.\<close>

definition same_signature :: "string \<Rightarrow> string \<Rightarrow> bool http" where
  "same_signature provided expected =
     (if length provided \<noteq> length expected then Inr False
      else if length (utf8 provided) \<noteq> length (utf8 expected) then Inl (InternalError ''RangeError'')
      else Inr (provided = expected))"

definition verifyOnboardingLink :: "'pk auth_env \<Rightarrow> date \<Rightarrow> RegistrationContext \<Rightarrow> unit http" where
  "verifyOnboardingLink E now context =
     (let secret = ae_deeplinkSecret E;
          provided = (case cx_sig context of Some s \<Rightarrow> s | None \<Rightarrow> []);
          fresh = (case Number (cx_expires context) of JNum e \<Rightarrow> of_int (now div 1000) \<le> e | _ \<Rightarrow> False)
      in if secret = [] then Inl (Unauthorized ''DEEPLINK_SECRET is required for passkey onboarding'')
         else if \<not> fresh
         then Inl (Unauthorized ''Onboarding link is invalid or expired. Request a new link from the bot.'')
         else
           bindE (same_signature provided (ae_hmac E secret (search_params (link_params ''platformId'' context)))) (\<lambda>valid.
           bindE (if valid \<or> cx_platformId context = [] then Inr valid
                  else same_signature provided (ae_hmac E secret (search_params (link_params ''userId'' context)))) (\<lambda>valid.
           if valid then Inr () else Inl (Unauthorized ''Onboarding link signature is invalid.''))))"


section \<open>Registration\<close>

record options_random =
  or_uuid :: string
  or_bytes :: "byte list"
  or_challenge :: string
  or_row :: string

definition self_serve :: "RegistrationContext \<Rightarrow> string option \<Rightarrow> bool" where
  "self_serve context authenticatedUserId \<longleftrightarrow>
     some_text authenticatedUserId = None \<and> some_text (cx_claimCode context) = None \<and> cx_platform context = ''web''"

definition minted :: "options_random \<Rightarrow> RegistrationContext \<Rightarrow> RegistrationContext" where
  "minted R context =
     context\<lparr>cx_platformId := webPlatformId (or_uuid R), cx_username := webPlaceholderUsername (or_bytes R)\<rparr>"

text \<open>The context that is stored with the challenge, if the caller may register under it.\<close>

definition authorized_context ::
    "'pk auth_env \<Rightarrow> date \<Rightarrow> options_random \<Rightarrow> RegistrationContext \<Rightarrow> string option \<Rightarrow> auth_db \<Rightarrow> RegistrationContext http" where
  "authorized_context E now R given authenticatedUserId db =
     (let web = self_serve given authenticatedUserId;
          context = (if web then minted R given else given)
      in if cx_platformId context = [] \<or> cx_username context = []
         then Inl (BadRequest ''platformId and username are required'')
         else if some_text authenticatedUserId \<noteq> None then Inr context
         else case some_text (cx_claimCode context) of
           Some code \<Rightarrow>
             bindE (verifyClaimCode now code db) (\<lambda>link. Inr (context\<lparr>cx_platformId := provisionalIdForClaim context link\<rparr>))
         | None \<Rightarrow>
             if web then Inr context else bindE (verifyOnboardingLink E now context) (\<lambda>_. Inr context))"

definition registrationOptions ::
    "'pk auth_env \<Rightarrow> date \<Rightarrow> options_random \<Rightarrow> RegistrationContext \<Rightarrow> string option \<Rightarrow> string auth_handler" where
  "registrationOptions E now R context authenticatedUserId =
     bindS (\<lambda>db. (authorized_context E now R context authenticatedUserId db, db)) (\<lambda>c.
     saveChallenge now (or_row R) ''registration'' (or_challenge R) (Some c) authenticatedUserId)"

definition no_context :: RegistrationContext where
  "no_context = \<lparr>cx_platform = ''web'', cx_platformId = [], cx_chatId = None, cx_username = [], cx_label = None, cx_expires = None,
     cx_sig = None, cx_claimCode = None, cx_referralCode = None, cx_deviceFingerprint = None,
     cx_src = None, cx_campaign = None, cx_partner = None, cx_channel = None\<rparr>"

definition registrationOptionsForUser ::
    "'pk auth_env \<Rightarrow> date \<Rightarrow> options_random \<Rightarrow> string \<Rightarrow> string option \<Rightarrow> string auth_handler" where
  "registrationOptionsForUser E now R userId label db =
     (case findUnique (users db) userId of
        None \<Rightarrow> (Inl (Unauthorized ''User account not found.''), db)
      | Some u \<Rightarrow>
          let ids = given_text (iu_telegramId u) @ given_text (iu_whatsappId u) @ given_text (iu_slackId u) @ given_text (iu_discordId u);
              platform = (if some_text (iu_telegramId u) \<noteq> None then ''telegram''
                          else if some_text (iu_whatsappId u) \<noteq> None then ''whatsapp''
                          else if some_text (iu_slackId u) \<noteq> None then ''slack''
                          else if some_text (iu_discordId u) \<noteq> None then ''discord'' else ''web'')
          in registrationOptions E now R
               (no_context\<lparr>cx_platform := platform,
                  cx_platformId := (case ids of i # _ \<Rightarrow> i | [] \<Rightarrow> webPlatformId (or_uuid R)),
                  cx_username := (case some_text (iu_username u) of Some n \<Rightarrow> n | None \<Rightarrow> ''user_'' @ take 8 userId),
                  cx_label := Some (case some_text label of Some l \<Rightarrow> l | None \<Rightarrow> ''Additional passkey'')\<rparr>)
               (Some userId) db)"

text \<open>The route: a request with a claim code or a signed link is anonymous whatever token it carries. A token whose user is
  gone counts as none.\<close>

fun is_unauthorized :: "http_error \<Rightarrow> bool" where
  "is_unauthorized (Unauthorized m) = True"
| "is_unauthorized _ = False"

definition registration_route ::
    "'pk auth_env \<Rightarrow> date \<Rightarrow> options_random \<Rightarrow> string option \<Rightarrow> RegistrationContext \<Rightarrow> string auth_handler" where
  "registration_route E now R header body =
     (let onboarding = some_text (cx_claimCode body) \<noteq> None \<or> (some_text (cx_sig body) \<noteq> None \<and> some_text (cx_expires body) \<noteq> None) in
      case (if onboarding then None else some_text (authenticateBearer E now header)) of
        Some userId \<Rightarrow>
          catchS (registrationOptionsForUser E now R userId (cx_label body))
            (\<lambda>e. if is_unauthorized e then registrationOptions E now R body None else throwS e)
      | None \<Rightarrow> registrationOptions E now R body None)"

definition is_active :: "StoredPasskey \<Rightarrow> bool" where
  "is_active c \<longleftrightarrow> pc_revokedAt c = None \<and> pc_credentialPublicKey c \<noteq> None"

definition active_credentials :: "string \<Rightarrow> StoredPasskey table \<Rightarrow> StoredPasskey table" where
  "active_credentials userId t = filter (\<lambda>(i, c). pc_userId c = userId \<and> is_active c) t"

definition assertAccountRemainsRecoverable :: "'pk auth_env \<Rightarrow> string option \<Rightarrow> string \<Rightarrow> auth_db \<Rightarrow> unit http" where
  "assertAccountRemainsRecoverable E authenticatedUserId deviceType db =
     (if \<not> ae_requireRecoverable E \<or> deviceType = ''multiDevice'' then Inr ()
      else if (\<exists>u. some_text authenticatedUserId = Some u \<and>
                (\<exists>(i, c) \<in> set (active_credentials u (credentials db)). pc_backedUp c)) then Inr ()
      else Inl (BadRequest ''This passkey is stored only on this device, so losing the device would permanently lose access to your wallet.''))"

definition existing_account :: "WebAuthnChallenge \<Rightarrow> RegistrationContext \<Rightarrow> auth_db \<Rightarrow> (string \<times> identity_user) option" where
  "existing_account c context db =
     (case some_text (wc_userId c) of
        Some u \<Rightarrow> map_option (Pair u) (findUnique (users db) u)
      | None \<Rightarrow> first_user (\<lambda>i u. \<exists>column \<in> set [TelegramId, WhatsappId, SlackId, DiscordId].
                  column_value column u = Some (cx_platformId context)) (ad_identity db))"

definition has_passkey :: "identity_user \<Rightarrow> bool" where
  "has_passkey u \<longleftrightarrow> (\<exists>w. iu_smartWallet u = Some w \<and> \<not> placeholder_key (sw_publicKeyX w))"

text \<open>The two coordinates as decimal texts.\<close>

definition decimal_coordinate :: "bytes \<Rightarrow> string" where
  "decimal_coordinate bs = show_int (be_uint bs)"

definition credential_values ::
    "RegistrationInfo \<Rightarrow> string \<Rightarrow> string \<Rightarrow> string \<Rightarrow> string option \<Rightarrow> StoredPasskey \<Rightarrow> StoredPasskey" where
  "credential_values info userId x y label c =
     c\<lparr>pc_userId := userId, pc_credentialPublicKey := Some (ri_publicKey info), pc_publicKeyX := Some x, pc_publicKeyY := Some y,
       pc_counter := ri_counter info, pc_deviceType := Some (ri_deviceType info), pc_backedUp := ri_backedUp info,
       pc_backupStateKnown := True, pc_label := some_text label, pc_revokedAt := None\<rparr>"

text \<open>\<open>passkeyCredential.upsert({ where: { lookupHash } })\<close>: a row with this credential is taken over, whoever owns it.\<close>

definition upsert_credential ::
    "string \<Rightarrow> string \<Rightarrow> RegistrationInfo \<Rightarrow> string \<Rightarrow> string \<Rightarrow> string \<Rightarrow> string option \<Rightarrow> (unit, StoredPasskey table) handler" where
  "upsert_credential newId lookupHash info userId x y label t =
     (case credential_of_hash lookupHash t of
        Some (i, c) \<Rightarrow> update_credential i (credential_values info userId x y label) t
      | None \<Rightarrow> create_credential newId
          ((credential_values info userId x y label (empty_credential userId))\<lparr>pc_lookupHash := Some lookupHash\<rparr>) t)"

record Verified =
  vf_userId :: string
  vf_walletAddress :: "string option"
  vf_session :: AuthSession
  vf_credentialId :: string
  vf_shouldGrantSessionKey :: bool

record verify_random =
  vr_ids :: fresh_ids
  vr_session :: session_random

definition account_for ::
    "'pk auth_env \<Rightarrow> date \<Rightarrow> fresh_ids \<Rightarrow> WebAuthnChallenge \<Rightarrow> RegistrationContext \<Rightarrow> string \<Rightarrow> string \<Rightarrow> (bool \<times> Registered) auth_handler" where
  "account_for E now ids c context x y db =
     (case existing_account c context db of
        Some (i, u) \<Rightarrow>
          if has_passkey u
          then (Inr (True, \<lparr>rg_userId = i, rg_smartAccountAddress = wallet_address u,
                  rg_isDeployed = (\<exists>w. iu_smartWallet u = Some w \<and> sw_isDeployed w),
                  rg_accessToken = identity_token (ae_identity E) now i (wallet_address u) (fi_jti ids), rg_username = iu_username u\<rparr>), db)
          else bindS (on_identity (registerUser (ae_identity E) now ids (cx_platform context) (cx_platformId context)
                 (cx_username context) x y [])) (\<lambda>r. returnS (False, r)) db
      | None \<Rightarrow>
          bindS (on_identity (registerUser (ae_identity E) now ids (cx_platform context) (cx_platformId context)
             (cx_username context) x y [])) (\<lambda>r. returnS (False, r)) db)"

definition verifyRegistration ::
    "'pk auth_env \<Rightarrow> date \<Rightarrow> verify_random \<Rightarrow> string \<Rightarrow> string \<Rightarrow> Verified auth_handler" where
  "verifyRegistration E now R challengeId response =
     bindS (consumeChallenge now challengeId ''registration'') (\<lambda>c.
     case ae_registration E response (wc_challenge c) of
       None \<Rightarrow> throwS (Unauthorized ''Passkey registration verification failed.'')
     | Some info \<Rightarrow>
         (case ve_decode (ae_vault E) (ri_publicKey info) of
            Some (Some xb, Some yb) \<Rightarrow>
              let x = decimal_coordinate xb; y = decimal_coordinate yb;
                  context = (case wc_context c of Some k \<Rightarrow> k | None \<Rightarrow> no_context) in
              bindS (\<lambda>db. (assertAccountRemainsRecoverable E (wc_userId c) (ri_deviceType info) db, db)) (\<lambda>_.
              bindS (account_for E now (vr_ids R) c context x y) (\<lambda>(known, r).
              bindS (on_credentials (upsert_credential (fi_credential (vr_ids R))
                       (computeLookupHash (ae_vault E) (ri_credentialId info)) info (rg_userId r) x y (cx_label context))) (\<lambda>_.
              bindS (modifyS (\<lambda>db. if known then db else db\<lparr>ad_onboarded := ad_onboarded db @ [(rg_userId r, context)]\<rparr>)) (\<lambda>_.
              bindS (issueSession E now (vr_session R) (rg_userId r) (some_text (rg_smartAccountAddress r))) (\<lambda>session.
              returnS \<lparr>vf_userId = rg_userId r, vf_walletAddress = rg_smartAccountAddress r, vf_session = session,
                       vf_credentialId = ri_credentialId info,
                       vf_shouldGrantSessionKey = (\<not> known \<and> some_text (rg_smartAccountAddress r) \<noteq> None)\<rparr>)))))
          | Some _ \<Rightarrow> throwS (BadRequest ''Only P-256 passkeys are supported.'')
          | None \<Rightarrow> throwS (InternalError ''Error'')))"

section \<open>Signing in\<close>

definition authenticationOptions :: "date \<Rightarrow> options_random \<Rightarrow> string auth_handler" where
  "authenticationOptions now R = saveChallenge now (or_row R) ''authentication'' (or_challenge R) None None"

text \<open>The credential of the response. One of the older enrolment gets its public key first.\<close>

definition stored_credential :: "'pk auth_env \<Rightarrow> string \<Rightarrow> (string \<times> StoredPasskey) option auth_handler" where
  "stored_credential E credentialId db =
     (let lookupHash = computeLookupHash (ae_vault E) credentialId;
          stored = credential_of_hash lookupHash (credentials db);
          revoked = (\<exists>p. stored = Some p \<and> pc_revokedAt (snd p) \<noteq> None);
          keyed = (\<exists>p. stored = Some p \<and> pc_credentialPublicKey (snd p) \<noteq> None)
      in if \<not> keyed \<and> \<not> revoked
         then bindS (on_credentials (ensureWebAuthnPublicKey (ae_vault E) credentialId))
                (\<lambda>_. getS (\<lambda>db. credential_of_hash lookupHash (credentials db))) db
         else (Inr stored, db))"

definition verifyAuthentication ::
    "'pk auth_env \<Rightarrow> date \<Rightarrow> session_random \<Rightarrow> string \<Rightarrow> AuthenticationResponse \<Rightarrow> Verified auth_handler" where
  "verifyAuthentication E now R challengeId response =
     bindS (consumeChallenge now challengeId ''authentication'') (\<lambda>c.
     bindS (stored_credential E (ar_id response)) (\<lambda>stored.
     case stored of
       Some (i, s) \<Rightarrow>
         (case (pc_revokedAt s, pc_credentialPublicKey s) of
            (None, Some key) \<Rightarrow>
              (case ae_authentication E response (wc_challenge c) key (pc_counter s) of
                 None \<Rightarrow> throwS (Unauthorized ''Passkey authentication verification failed.'')
               | Some info \<Rightarrow>
                   bindS (on_credentials (update_credential i (\<lambda>s. s\<lparr>pc_counter := ai_newCounter info, pc_backedUp := ai_backedUp info,
                     pc_backupStateKnown := True, pc_deviceType := Some (ai_deviceType info), pc_lastUsedAt := Some now\<rparr>))) (\<lambda>_.
                   bindS (getS (\<lambda>db. findUnique (users db) (pc_userId s))) (\<lambda>user.
                   case user of
                     None \<Rightarrow> throwS (Unauthorized ''User account not found.'')
                   | Some u \<Rightarrow>
                       bindS (issueSession E now R (pc_userId s) (wallet_address u)) (\<lambda>session.
                       returnS \<lparr>vf_userId = pc_userId s, vf_walletAddress = wallet_address u, vf_session = session,
                                vf_credentialId = ar_id response, vf_shouldGrantSessionKey = False\<rparr>))))
          | _ \<Rightarrow> throwS (Unauthorized ''Passkey is not registered or must be securely re-enrolled.''))
     | None \<Rightarrow> throwS (Unauthorized ''Passkey is not registered or must be securely re-enrolled.'')))"

definition listCredentials :: "string \<Rightarrow> auth_db \<Rightarrow> StoredPasskey table" where
  "listCredentials userId db = active_credentials userId (credentials db)"

text \<open>\<open>revokeCredential\<close> counts the active passkeys and then revokes one; between the two another handler may run.\<close>

definition may_revoke :: "string \<Rightarrow> string \<Rightarrow> auth_db \<Rightarrow> unit http" where
  "may_revoke userId i db =
     (if \<not> (\<exists>c. findUnique (credentials db) i = Some c \<and> pc_userId c = userId \<and> pc_revokedAt c = None)
      then Inl (BadRequest ''Passkey not found.'')
      else if length (active_credentials userId (credentials db)) \<le> 1
      then Inl (BadRequest ''Add another passkey before revoking your last passkey.'')
      else Inr ())"

definition revoke_row :: "date \<Rightarrow> string \<Rightarrow> string \<Rightarrow> unit auth_handler" where
  "revoke_row now userId i =
     bindS (on_credentials (update_credential i (\<lambda>c. c\<lparr>pc_revokedAt := Some now\<rparr>))) (\<lambda>_.
     modifyS (\<lambda>db. db\<lparr>ad_refresh := filter (\<lambda>(j, t). rt_userId t \<noteq> userId) (ad_refresh db)\<rparr>))"

definition revokeCredential :: "date \<Rightarrow> string \<Rightarrow> string \<Rightarrow> unit auth_handler" where
  "revokeCredential now userId i = bindS (\<lambda>db. (may_revoke userId i db, db)) (\<lambda>_. revoke_row now userId i)"

section \<open>Refreshing and leaving\<close>

definition refresh_of_hash :: "string \<Rightarrow> auth_db \<Rightarrow> (string \<times> RefreshToken) option" where
  "refresh_of_hash h db = find (\<lambda>(i, t). rt_tokenHash t = h) (ad_refresh db)"

text \<open>\<open>delete({ where: { id } })\<close> throws when the row is gone.\<close>

definition delete_refresh :: "string \<Rightarrow> unit auth_handler" where
  "delete_refresh i db =
     (if findUnique (ad_refresh db) i = None then (Inl missing_record, db)
      else (Inr (), db\<lparr>ad_refresh := filter (\<lambda>(j, t). j \<noteq> i) (ad_refresh db)\<rparr>))"

definition refresh_rejected :: http_error where
  "refresh_rejected = Unauthorized ''Refresh token is invalid or expired''"

text \<open>The rotation of a token that was found and has not expired: the row goes before the session is issued.\<close>

definition rotate_refresh :: "'pk auth_env \<Rightarrow> date \<Rightarrow> session_random \<Rightarrow> string \<times> RefreshToken \<Rightarrow> (string \<times> AuthSession) auth_handler" where
  "rotate_refresh E now R row =
     bindS (delete_refresh (fst row)) (\<lambda>_.
     bindS (getS (\<lambda>db. Option.bind (findUnique (users db) (rt_userId (snd row))) wallet_address)) (\<lambda>wallet.
     bindS (issueSession E now R (rt_userId (snd row)) wallet) (\<lambda>session.
     returnS (rt_userId (snd row), session))))"

definition refresh_session :: "'pk auth_env \<Rightarrow> date \<Rightarrow> session_random \<Rightarrow> string \<Rightarrow> (string \<times> AuthSession) auth_handler" where
  "refresh_session E now R refreshToken db =
     (case refresh_of_hash (token_hash E refreshToken) db of
        None \<Rightarrow> (Inl refresh_rejected, db)
      | Some row \<Rightarrow>
          if rt_expiresAt (snd row) \<le> now
          then bindS (delete_refresh (fst row)) (\<lambda>_. throwS refresh_rejected) db
          else rotate_refresh E now R row db)"

definition revoked_key :: "string \<Rightarrow> string" where "revoked_key jti = ''jwt:revoked:'' @ jti"

text \<open>The mark of a revoked token is written to Redis; \<open>stored\<close> is whether that succeeds. \<open>logout\<close> swallows the failure.\<close>

definition revoke_token :: "bool \<Rightarrow> date \<Rightarrow> jwt_claims \<Rightarrow> auth_db \<Rightarrow> auth_db" where
  "revoke_token stored now claims db =
     (case (some_text (jc_jti claims), jc_exp claims) of
        (Some jti, Some e) \<Rightarrow>
          if e = 0 \<or> \<not> stored then db
          else snd (on_identity (modifyS (\<lambda>d. d\<lparr>im_redis := setValue now (revoked_key jti) ''1'' (max 1 (e - seconds now)) (im_redis d)\<rparr>)) db)
      | _ \<Rightarrow> db)"

definition logout :: "'pk auth_env \<Rightarrow> bool \<Rightarrow> date \<Rightarrow> string option \<Rightarrow> string option \<Rightarrow> auth_db \<Rightarrow> auth_db" where
  "logout E stored now refreshToken header db =
     (let db1 = (case some_text refreshToken of
                   Some t \<Rightarrow> db\<lparr>ad_refresh := filter (\<lambda>(i, r). rt_tokenHash r \<noteq> token_hash E t) (ad_refresh db)\<rparr>
                 | None \<Rightarrow> db)
      in case Option.bind (bearer_token header) (\<lambda>t. jwt_verify (ie_jwt (ae_identity E)) (seconds now) t (ie_jwtSecret (ae_identity E))) of
           Some claims \<Rightarrow> revoke_token stored now claims db1
         | None \<Rightarrow> db1)"

definition legacyRefreshToken :: "'pk auth_env \<Rightarrow> date \<Rightarrow> session_random \<Rightarrow> string \<Rightarrow> (string \<times> AuthSession) auth_handler" where
  "legacyRefreshToken E now R userId db =
     (case findUnique (users db) userId of
        None \<Rightarrow> (Inl (Unauthorized ''User not found''), db)
      | Some u \<Rightarrow> bindS (issueSession E now R userId (wallet_address u)) (\<lambda>session. returnS (userId, session)) db)"

section \<open>The gate\<close>

definition auth_required :: http_error where "auth_required = Unauthorized ''Authentication required''"

record RequestUser =
  ru_userId :: string
  ru_walletAddress :: "string option"

text \<open>The user that \<open>canActivate\<close> attaches to the request; a public route is let through without one. Every exception in
  the gate refuses the request, also when Redis, which is \<open>online\<close> or not, does not answer.\<close>

definition canActivate :: "'pk auth_env \<Rightarrow> bool \<Rightarrow> date \<Rightarrow> bool \<Rightarrow> string option \<Rightarrow> auth_db \<Rightarrow> RequestUser option http" where
  "canActivate E online now isPublic header db =
     (if isPublic then Inr None
      else case bearer_token header of
        None \<Rightarrow> Inl auth_required
      | Some token \<Rightarrow>
          (case jwt_verify (ie_jwt (ae_identity E)) (seconds now) (trim token) (ie_jwtSecret (ae_identity E)) of
             None \<Rightarrow> Inl auth_required
           | Some claims \<Rightarrow>
               (case (some_text (jc_userId claims), some_text (jc_jti claims)) of
                  (Some u, Some jti) \<Rightarrow>
                    if \<not> online \<or> redis_exists now (revoked_key jti) (im_redis (ad_identity db)) then Inl auth_required
                    else Inr (Some \<lparr>ru_userId = u, ru_walletAddress = jc_walletAddress claims\<rparr>)
                | _ \<Rightarrow> Inl auth_required)))"


text \<open>\<open>authHeader.replace(/^Bearer\s+/i, '')\<close>.\<close>

definition strip_bearer :: "string \<Rightarrow> string" where
  "strip_bearer h =
     (let rest = drop 6 h in
      if toLowerCase (take 6 h) = ''bearer'' \<and> rest \<noteq> [] \<and> is_ws (hd rest) then dropWhile is_ws rest else h)"

definition isPasskeyFreshlyVerified :: "'pk auth_env \<Rightarrow> date \<Rightarrow> string option \<Rightarrow> string \<Rightarrow> bool" where
  "isPasskeyFreshlyVerified E now passkeyHeader authHeader \<longleftrightarrow>
     authHeader \<noteq> [] \<and>
     (case jwt_verify (ie_jwt (ae_identity E)) (seconds now) (strip_bearer authHeader) (ie_jwtSecret (ae_identity E)) of
        None \<Rightarrow> False
      | Some claims \<Rightarrow>
          jc_pkv claims \<and>
          (case jc_iat claims of Some i \<Rightarrow> i \<noteq> 0 \<and> seconds now - i < 120 | None \<Rightarrow> False) \<and>
          (some_text passkeyHeader = None \<or> passkeyHeader = Some ''true''))"


end
