(* ===== verification/AuthExample.thy ===== *)
theory AuthExample
  imports WebAuthn
begin

text \<open>
  A concrete environment for the passkey services: tokens that are their claims written out, an assertion that is
  valid when it repeats the challenge, and empty tables. It shows that the hypotheses of the properties can be met.
\<close>

section \<open>A concrete environment\<close>

text \<open>Texts that are written one behind the other, each behind a mark for every character.\<close>

definition pack :: "string \<Rightarrow> string" where "pack s = replicate (length s) (CHR ''a'') @ CHR ''b'' # s"

definition unpack :: "string \<Rightarrow> string \<times> string" where
  "unpack t = (let n = length (takeWhile (\<lambda>c. c = CHR ''a'') t); r = drop (Suc n) t in (take n r, drop n r))"

lemma unpack_pack [simp]: "unpack (pack s @ r) = (s, r)"
proof -
  have "takeWhile (\<lambda>c. c = CHR ''a'') (replicate n (CHR ''a'') @ CHR ''b'' # u) = replicate n (CHR ''a'')" for n u
    by (induction n) simp_all
  then show ?thesis by (simp add: pack_def unpack_def Let_def)
qed

fun opt_text :: "string option \<Rightarrow> string" where
  "opt_text None = []"
| "opt_text (Some s) = CHR ''x'' # s"

fun text_opt :: "string \<Rightarrow> string option" where
  "text_opt [] = None"
| "text_opt (c # s) = Some s"

definition int_text :: "int \<Rightarrow> string" where
  "int_text i = replicate (nat i) (CHR ''+'') @ replicate (nat (- i)) (CHR ''-'')"

definition text_int :: "string \<Rightarrow> int" where
  "text_int s = int (length (filter (\<lambda>c. c = CHR ''+'') s)) - int (length (filter (\<lambda>c. c = CHR ''-'') s))"

lemma text_opt_text [simp]: "text_opt (opt_text x) = x" by (cases x) simp_all

lemma text_int_text [simp]: "text_int (int_text i) = i" by (auto simp: text_int_def int_text_def)

definition sample_sign :: "jwt_claims \<Rightarrow> string \<Rightarrow> string" where
  "sample_sign c secret =
     CHR ''x'' # pack secret @ pack (opt_text (jc_userId c)) @ pack (opt_text (jc_walletAddress c)) @ pack (opt_text (jc_jti c)) @
       pack (opt_text (if jc_pkv c then Some [] else None)) @ pack (opt_text (map_option int_text (jc_iat c))) @
       pack (opt_text (map_option int_text (jc_exp c))) @ ''x''"

definition sample_verify :: "int \<Rightarrow> string \<Rightarrow> string \<Rightarrow> jwt_claims option" where
  "sample_verify now t secret =
     (let (s, r) = unpack (tl t); (u, r) = unpack r; (w, r) = unpack r; (j, r) = unpack r; (p, r) = unpack r;
          (i, r) = unpack r; (e, r) = unpack r;
          c = \<lparr>jc_userId = text_opt u, jc_walletAddress = text_opt w, jc_jti = text_opt j, jc_pkv = (p \<noteq> []),
               jc_iat = map_option text_int (text_opt i), jc_exp = map_option text_int (text_opt e)\<rparr>
      in if s \<noteq> secret \<or> (\<exists>e \<in> set_option (jc_exp c). e \<le> now) then None else Some c)"

definition sample_jwt :: jwt where
  "sample_jwt = \<lparr>jwt_sign = sample_sign, jwt_verify = sample_verify\<rparr>"

lemma text_int_option [simp]: "map_option text_int (map_option int_text x) = x"
  by (cases x) simp_all

lemma sample_verify_sign:
  "sample_verify now (sample_sign c secret) secret = (if \<exists>e. jc_exp c = Some e \<and> e \<le> now then None else Some c)"
proof -
  have "sample_verify now (sample_sign c secret) secret =
      (if \<exists>e \<in> set_option (jc_exp c). e \<le> now then None else Some c)"
    unfolding sample_verify_def sample_sign_def Let_def
    by (simp add: jwt_claims.equality del: option.map_comp)
  then show ?thesis by (simp add: elem_set)
qed

lemma sample_jwt_ok: "jwt_ok sample_jwt"
  by (simp add: jwt_ok_def sample_jwt_def sample_verify_sign)

lemma sample_sign_trimmed: "trim (sample_sign c secret) = sample_sign c secret"
proof -
  have "dropWhile is_ws (CHR ''x'' # s) = CHR ''x'' # s" for s by (simp add: is_ws_def)
  then show ?thesis by (simp add: trim_def sample_sign_def)
qed

definition sample_stringify :: "CredentialPayload \<Rightarrow> string" where
  "sample_stringify p = pack (cp_userId p) @ pack (cp_publicKeyX p) @ pack (cp_publicKeyY p) @ pack (opt_text (cp_walletAddress p))"

definition sample_parse :: "string \<Rightarrow> CredentialPayload option" where
  "sample_parse t =
     (let (u, r) = unpack t; (x, r) = unpack r; (y, r) = unpack r; (w, r) = unpack r
      in Some \<lparr>cp_userId = u, cp_publicKeyX = x, cp_publicKeyY = y, cp_walletAddress = text_opt w\<rparr>)"

definition sample_vault :: vault_env where
  "sample_vault =
     \<lparr>ve_ciphers = sample_ciphers, ve_sha256 = id, ve_stringify = sample_stringify, ve_parse = sample_parse,
      ve_cose = (\<lambda>x y. x @ y), ve_decode = (\<lambda>k. Some (Some (take 32 k), Some (drop 32 k))),
      ve_keks = [1 \<mapsto> [1], 2 \<mapsto> [2]], ve_current = 2\<rparr>"

lemma sample_vault_ok: "vault_ok sample_vault"
proof -
  have "sample_parse (sample_stringify p) = Some p" for p
    using unpack_pack [of "opt_text (cp_walletAddress p)" "[]"]
    by (simp add: sample_parse_def sample_stringify_def)
  then show ?thesis by (simp add: vault_ok_def sample_vault_def sample_ciphers_ok)
qed

definition sample_auth :: "256 word auth_env" where
  "sample_auth =
     \<lparr>ae_identity = \<lparr>ie_chain = example_chain, ie_jwt = sample_jwt, ie_jwtSecret = ''s'', ie_ethersId = id\<rparr>,
      ae_vault = sample_vault,
      ae_hmac = (\<lambda>secret m. secret @ m), ae_deeplinkSecret = ''d'',
      ae_registration = (\<lambda>response ch. if response = ch
        then Some \<lparr>ri_credentialId = response, ri_publicKey = be_bytes 32 7 @ be_bytes 32 8, ri_counter = 0,
               ri_deviceType = ''multiDevice'', ri_backedUp = True\<rparr>
        else None),
      ae_authentication = (\<lambda>r ch key n. if ar_assertion r = ch
        then Some \<lparr>ai_newCounter = n + 1, ai_deviceType = ''multiDevice'', ai_backedUp = True\<rparr> else None),
      ae_requireRecoverable = True\<rparr>"

definition empty_auth :: auth_db where
  "empty_auth =
     \<lparr>ad_identity = \<lparr>im_users = [], im_nodes = [], im_credentials = [], im_redis = Map.empty, im_activity = []\<rparr>,
      ad_challenges = [], ad_refresh = [], ad_links = [], ad_onboarded = []\<rparr>"

text \<open>A database with a challenge, the same after a ceremony, and the values of a ceremony.\<close>

definition sample_challenge :: WebAuthnChallenge where
  "sample_challenge = \<lparr>wc_challenge = ''text'', wc_flow = ''registration'', wc_userId = None, wc_context = None,
     wc_expiresAt = 100, wc_usedAt = None\<rparr>"

definition challenged_auth :: auth_db where
  "challenged_auth = empty_auth\<lparr>ad_challenges := [(''c'', sample_challenge)]\<rparr>"

definition marked_auth :: auth_db where
  "marked_auth = empty_auth\<lparr>ad_challenges := [(''c'', sample_challenge\<lparr>wc_usedAt := Some 20\<rparr>)]\<rparr>"

definition sample_session :: session_random where
  "sample_session = \<lparr>sr_jti = ''j'', sr_refresh = ''new'', sr_row = ''r2''\<rparr>"

definition sample_verification :: verify_random where
  "sample_verification = \<lparr>vr_ids = \<lparr>fi_user = ''u1'', fi_node = ''n1'', fi_credential = ''p1'', fi_jti = ''j''\<rparr>,
     vr_session = sample_session\<rparr>"

definition sample_response :: AuthenticationResponse where
  "sample_response = \<lparr>ar_id = ''cred'', ar_assertion = ''text''\<rparr>"

definition other_session :: session_random where
  "other_session = \<lparr>sr_jti = ''k'', sr_refresh = ''third'', sr_row = ''r3''\<rparr>"

definition sample_refresh :: RefreshToken where
  "sample_refresh = \<lparr>rt_tokenHash = token_hash sample_auth ''old'', rt_userId = ''u'', rt_expiresAt = 100\<rparr>"

definition refreshable_auth :: auth_db where
  "refreshable_auth = empty_auth\<lparr>ad_refresh := [(''r1'', sample_refresh)]\<rparr>"

definition refreshed_auth :: auth_db where
  "refreshed_auth = snd (refresh_session sample_auth 10 sample_session ''old'' refreshable_auth)"

end
