(* ===== verification/AuthRuns.thy ===== *)
theory AuthRuns
  imports AuthExample
begin

text \<open>
  Runs of the identity and passkey services: any sequence of their operations, and of the database accesses at
  which two of them can interleave. The properties are about what is used once (challenges, refresh tokens), what
  stays refused (revoked access tokens), what stays available (the last passkey of an account) and who an identity
  belongs to. What an operation leaves alone is stated with the interface \<open>frame\<close>.
\<close>

section \<open>Operations\<close>

datatype auth_op =
    Options date options_random "string option" RegistrationContext
  | Register date verify_random string string
  | SignInOptions date options_random
  | SignIn date session_random string AuthenticationResponse
  | Revoke date string string
  | Refresh date session_random string
  | Leave bool date "string option" "string option"
  | Legacy date session_random string
  | Resolve string string string "string option"
  | LinkTo date string string string string "string option"
  | Unlink string string
  | Contact date string string string bool
  | HandleOf date string "string option"
  | Onboard date fresh_ids OnboardingCompleteDto
  | MarkOnly date string
  | RevokeOnly date string string
  | DropOnly string

text \<open>An identity operation that returns no exception, as a handler.\<close>

definition plainly :: "(identity_db \<Rightarrow> 'a \<times> identity_db) \<Rightarrow> ('a, identity_db) handler" where
  "plainly m s = (Inr (fst (m s)), snd (m s))"

fun auth_exec :: "'pk auth_env \<Rightarrow> auth_op \<Rightarrow> auth_db \<Rightarrow> auth_db" where
  "auth_exec E (Options now R header body) db = snd (registration_route E now R header body db)"
| "auth_exec E (Register now R i response) db = snd (verifyRegistration E now R i response db)"
| "auth_exec E (SignInOptions now R) db = snd (authenticationOptions now R db)"
| "auth_exec E (SignIn now R i response) db = snd (verifyAuthentication E now R i response db)"
| "auth_exec E (Revoke now u i) db = snd (revokeCredential now u i db)"
| "auth_exec E (Refresh now R token) db = snd (refresh_session E now R token db)"
| "auth_exec E (Leave stored now token header) db = logout E stored now token header db"
| "auth_exec E (Legacy now R u) db = snd (legacyRefreshToken E now R u db)"
| "auth_exec E (Resolve newId p pid name) db = snd (on_identity (plainly (identity_resolveUser newId p pid name)) db)"
| "auth_exec E (LinkTo now newId u p pid name) db = snd (on_identity (linkAccount now newId u p pid name) db)"
| "auth_exec E (Unlink u p) db = snd (on_identity (unlinkAccount u p) db)"
| "auth_exec E (Contact now newId p h allow) db = snd (on_identity (resolveContact (ae_identity E) now newId p h allow) db)"
| "auth_exec E (HandleOf now a p) db = snd (on_identity (plainly (handleForAddress (ae_identity E) now a p)) db)"
| "auth_exec E (Onboard now ids dto) db = snd (on_identity (completeOnboarding (ae_identity E) now ids dto) db)"
| "auth_exec E (MarkOnly now i) db = snd (mark_challenge now i db)"
| "auth_exec E (RevokeOnly now u i) db = snd (revoke_row now u i db)"
| "auth_exec E (DropOnly i) db = snd (delete_refresh i db)"

definition auth_run :: "'pk auth_env \<Rightarrow> auth_op list \<Rightarrow> auth_db \<Rightarrow> auth_db" where
  "auth_run E ops db = fold (auth_exec E) ops db"

lemma auth_run_simps [simp]: "auth_run E [] db = db" "auth_run E (op # ops) db = auth_run E ops (auth_exec E op db)"
  by (simp_all add: auth_run_def)

lemma auth_run_keeps:
  assumes "\<And>op db. op \<in> set ops \<Longrightarrow> P db \<Longrightarrow> P (auth_exec E op db)" and "P db"
  shows "P (auth_run E ops db)"
  using assms by (induction ops arbitrary: db) simp_all

section \<open>What the parts leave alone\<close>

lemma found_in: "find P xs = Some x \<Longrightarrow> x \<in> set xs \<and> P x"
  by (auto simp: find_Some_iff)

text \<open>A component of the state that a handler does not change.\<close>

interpretation same: frame "\<lambda>s t. f t = f s" for f :: "'s \<Rightarrow> 'v"
  by unfold_locales simp_all

abbreviation leaves :: "('s \<Rightarrow> 'v) \<Rightarrow> ('a, 's) handler \<Rightarrow> bool" where
  "leaves f \<equiv> keeps (\<lambda>s t. f t = f s)"

lemma leaves_identity [simp, intro]:
  "leaves ad_challenges (on_identity m)" "leaves ad_refresh (on_identity m)" "leaves ad_links (on_identity m)"
  "leaves ad_challenges (on_credentials m')" "leaves ad_refresh (on_credentials m')" "leaves ad_links (on_credentials m')"
  by (simp_all add: keeps_def on_credentials_def on_identity_def zoomS_def split_beta)

lemma leaves_session [simp, intro]:
  "leaves ad_challenges (issueSession E now R u w)" "leaves ad_identity (issueSession E now R u w)"
  by (simp_all add: keeps_def issueSession_def)

lemma leaves_state [simp, intro]:
  "leaves f (\<lambda>db. (r db, db))" "leaves f (getS g)"
  by (simp_all add: keeps_def getS_def)

context frame
begin

lemma keeps_catch: "keeps P m \<Longrightarrow> (\<And>e. keeps P (h e)) \<Longrightarrow> keeps P (catchS m h)"
  unfolding keeps_def by (auto simp: catchS_def split: prod.split sum.split) (metis chained snd_conv, metis snd_conv)

end

lemma keeps_branch [intro]: "keeps P m \<Longrightarrow> keeps P m' \<Longrightarrow> keeps P (if c then m else m')"
  by simp

lemma keeps_choice [intro]: "keeps P m \<Longrightarrow> (\<And>x. keeps P (h x)) \<Longrightarrow> keeps P (case y of None \<Rightarrow> m | Some x \<Rightarrow> h x)"
  by (simp split: option.split)

lemma keeps_pair [intro]: "(\<And>x y. keeps P (h x y)) \<Longrightarrow> keeps P (case p of (x, y) \<Rightarrow> h x y)"
  by (simp split: prod.split)

lemmas same_rules = same.keeps_bind same.keeps_pure keeps_branch keeps_choice keeps_pair leaves_identity leaves_session leaves_state

text \<open>A handler that consumes a challenge first touches the challenges nowhere else.\<close>

lemma snd_bindS_leaves: "(\<And>x. leaves f (h x)) \<Longrightarrow> f (snd (bindS m h s)) = f (snd (m s))"
  by (cases "m s") (auto simp: bindS_def keeps_def split: sum.split)

section \<open>Challenges\<close>

definition spent :: "string \<Rightarrow> auth_db \<Rightarrow> bool" where
  "spent i db \<longleftrightarrow> (\<forall>(j, c) \<in> set (ad_challenges db). j = i \<longrightarrow> wc_usedAt c \<noteq> None)"

interpretation spent: frame "\<lambda>s t. spent i s \<longrightarrow> spent i t" for i
  by unfold_locales simp_all

abbreviation keeps_spent :: "string \<Rightarrow> ('a, auth_db) handler \<Rightarrow> bool" where
  "keeps_spent i \<equiv> keeps (\<lambda>s t. spent i s \<longrightarrow> spent i t)"

lemma spent_after: "keeps_spent i m \<Longrightarrow> spent i s \<Longrightarrow> spent i (snd (m s))"
  by (simp add: keeps_def)

lemma leaves_spent: "leaves ad_challenges m \<Longrightarrow> keeps_spent i m"
  by (simp add: keeps_def spent_def)

lemma spent_save: "newId \<noteq> i \<Longrightarrow> keeps_spent i (saveChallenge now newId flow text context u)"
  by (auto simp: keeps_def spent_def saveChallenge_def Let_def create_row_def)

lemma spent_mark: "keeps_spent i (mark_challenge now j)"
  by (auto simp: keeps_def spent_def mark_challenge_def updateMany_def split: if_splits)

lemma marked_spent:
  assumes "keys_unique (ad_challenges db)" and "mark_challenge now i db = (Inr (), db1)"
  shows "spent i db1"
proof -
  obtain c where c: "findUnique (ad_challenges db) i = Some c"
    and db1: "ad_challenges db1 = update_row i (\<lambda>c. c\<lparr>wc_usedAt := Some now\<rparr>) (ad_challenges db)"
    using assms(2) by (auto simp: mark_challenge_def updateMany_unique [OF assms(1)] split: option.splits if_splits)
  then show ?thesis by (auto simp: spent_def update_row_def split: if_splits)
qed

lemma spent_refuses: "spent i db \<Longrightarrow> failed (fst (mark_challenge now i db))"
proof -
  assume "spent i db"
  then have "filter (\<lambda>(j, c). j = i \<and> wc_usedAt c = None \<and> now < wc_expiresAt c) (ad_challenges db) = []"
    by (auto simp: spent_def filter_empty_conv)
  then show ?thesis by (simp add: mark_challenge_def updateMany_def)
qed

lemma spent_ends: "spent i db \<Longrightarrow> failed (fst (bindS (consumeChallenge now i flow) h db))"
  using spent_refuses [of i db now] by (auto simp: consumeChallenge_def bindS_def split: prod.split sum.split)

text \<open>The identifier of a new challenge is a fresh one.\<close>

fun saves_apart :: "string \<Rightarrow> auth_op \<Rightarrow> bool" where
  "saves_apart i (Options now R header body) = (or_row R \<noteq> i)"
| "saves_apart i (SignInOptions now R) = (or_row R \<noteq> i)"
| "saves_apart i _ = True"

lemma consume_first:
  assumes "\<And>c. leaves ad_challenges (h c)"
  shows "ad_challenges (snd (bindS (consumeChallenge now i flow) h db)) = ad_challenges (snd (consumeChallenge now i flow db))"
  by (rule snd_bindS_leaves) (rule assms)

lemma spent_consume: "keeps_spent i (consumeChallenge now j flow)"
  unfolding consumeChallenge_def by (intro spent.keeps_bind spent.keeps_pure spent_mark leaves_spent leaves_state)

lemma spent_options: "or_row R \<noteq> i \<Longrightarrow> keeps_spent i (registrationOptions E now R context u)"
  unfolding registrationOptions_def by (intro spent.keeps_bind spent_save leaves_spent leaves_state)

lemma spent_route: "or_row R \<noteq> i \<Longrightarrow> keeps_spent i (registration_route E now R header body)"
proof -
  assume new: "or_row R \<noteq> i"
  have "keeps_spent i (registrationOptionsForUser E now R u label)" for u label
    unfolding keeps_def
  proof (intro allI impI)
    fix s assume "spent i s"
    then have options: "spent i (snd (registrationOptions E now R c v s))" for c v
      by (rule spent_after [OF spent_options [OF new]])
    show "spent i (snd (registrationOptionsForUser E now R u label s))"
      unfolding registrationOptionsForUser_def Let_def using options \<open>spent i s\<close> by (cases "findUnique (users s) u") simp_all
  qed
  then show ?thesis
    unfolding registration_route_def Let_def by (intro keeps_choice keeps_branch spent.keeps_catch spent.keeps_pure spent_options [OF new])
qed

lemma leaves_challenges:
  "leaves ad_challenges (account_for E now ids c context x y)" "leaves ad_challenges (stored_credential E k)"
  "leaves ad_challenges (revoke_row now u i)" "leaves ad_challenges (delete_refresh i)"
  "leaves ad_challenges (rotate_refresh E now R row)" "leaves ad_challenges (legacyRefreshToken E now R u)"
proof -
  show "leaves ad_challenges (account_for E now ids c context x y)"
  proof -
    have *: "leaves ad_challenges (bindS (on_identity m) (\<lambda>r. returnS (False, r)))" for m :: "(Registered, identity_db) handler"
      by (intro same_rules)
    show ?thesis
      unfolding keeps_def account_for_def
      using * by (auto simp: keeps_def split: option.split)
  qed
  show "leaves ad_challenges (stored_credential E k)"
  proof -
    have "leaves ad_challenges (bindS (on_credentials m) (\<lambda>_. getS g))" for m :: "('x, StoredPasskey table) handler" and g :: "auth_db \<Rightarrow> 'y"
      by (intro same_rules)
    then show ?thesis by (auto simp: keeps_def stored_credential_def Let_def)
  qed
  show "leaves ad_challenges (revoke_row now u i)" unfolding revoke_row_def by (intro same_rules) (simp add: keeps_def)
  show delete: "leaves ad_challenges (delete_refresh i)" for i by (simp add: keeps_def delete_refresh_def)
  show "leaves ad_challenges (rotate_refresh E now R row)" unfolding rotate_refresh_def by (intro same_rules delete)
  show "leaves ad_challenges (legacyRefreshToken E now R u)"
  proof -
    have "leaves ad_challenges (bindS (issueSession E now R u w) (\<lambda>s. returnS (u, s)))" for w by (intro same_rules)
    then show ?thesis by (auto simp: keeps_def legacyRefreshToken_def split: option.split)
  qed
qed


lemma leaves_onboarded [simp, intro]:
  "leaves ad_challenges (modifyS (\<lambda>db. if known then db else db\<lparr>ad_onboarded := f db\<rparr>))"
  "leaves ad_refresh (modifyS (\<lambda>db. if known then db else db\<lparr>ad_onboarded := f db\<rparr>))"
  "leaves ad_identity (modifyS (\<lambda>db. if known then db else db\<lparr>ad_onboarded := f db\<rparr>))"
  by (simp_all add: keeps_def)

lemma verify_registration_challenges:
  "ad_challenges (snd (verifyRegistration E now R i response db)) = ad_challenges (snd (consumeChallenge now i ''registration'' db))"
  unfolding verifyRegistration_def Let_def
  by (rule consume_first) (intro same_rules leaves_challenges leaves_onboarded)

lemma verify_authentication_challenges:
  "ad_challenges (snd (verifyAuthentication E now R i response db)) = ad_challenges (snd (consumeChallenge now i ''authentication'' db))"
  unfolding verifyAuthentication_def
  by (rule consume_first) (intro same_rules leaves_challenges)


lemma spent_exec:
  assumes "saves_apart i op" and "spent i db"
  shows "spent i (auth_exec E op db)"
proof -
  have same: "spent i t" if "ad_challenges t = ad_challenges db" for t using that assms(2) by (simp add: spent_def)
  note step = spent_after [OF _ assms(2)] and other = spent_after [OF leaves_spent assms(2)]
  show ?thesis
  proof (cases op)
    case (Options now R header body)
    with assms(1) show ?thesis by (simp add: step spent_route)
  next
    case (SignInOptions now R)
    with assms(1) show ?thesis by (simp add: authenticationOptions_def step spent_save)
  next
    case (Register now R j response)
    then show ?thesis
      using step [OF spent_consume [of i now j "''registration''"]] by (simp add: spent_def verify_registration_challenges)
  next
    case (SignIn now R j response)
    then show ?thesis
      using step [OF spent_consume [of i now j "''authentication''"]] by (simp add: spent_def verify_authentication_challenges)
  next
    case (MarkOnly now j)
    then show ?thesis by (simp add: step spent_mark)
  next
    case (Revoke now u j)
    have "leaves ad_challenges (revokeCredential now u j)"
      unfolding revokeCredential_def by (intro same_rules leaves_challenges)
    with Revoke show ?thesis by (simp add: other)
  next
    case (Refresh now R token)
    have "leaves ad_challenges (refresh_session E now R token)"
    proof -
      have "leaves ad_challenges (bindS (delete_refresh k) (\<lambda>_. throwS refresh_rejected) :: (string \<times> AuthSession) auth_handler)" for k
        by (intro same_rules leaves_challenges)
      then show ?thesis using leaves_challenges(5) [of E now R] by (auto simp: keeps_def refresh_session_def split: option.split)
    qed
    with Refresh show ?thesis by (simp add: other)
  next
    case (Leave stored now token header)
    have "ad_challenges (logout E stored now token header db) = ad_challenges db"
      by (simp add: logout_def revoke_token_def on_identity_def zoomS_def split_beta split: option.split)
    with Leave show ?thesis by (simp add: same)
  qed (simp_all add: other leaves_challenges)
qed

section \<open>Challenges are used once\<close>

text \<open>C6. A passkey challenge is used once: after a ceremony has marked it, no other ceremony succeeds with it, however the
  operations in between follow and interleave, and also when the other ceremony had read the challenge before.\<close>

theorem challenge_used_once:
  assumes "keys_unique (ad_challenges db)" and "mark_challenge now i db = (Inr (), db1)" and "\<forall>op \<in> set ops. saves_apart i op"
  shows "failed (fst (mark_challenge t i (auth_run E ops db1))) \<and>
    failed (fst (verifyRegistration E t R i response (auth_run E ops db1))) \<and>
    failed (fst (verifyAuthentication E t R' i response' (auth_run E ops db1)))"
proof -
  have "spent i (auth_run E ops db1)"
    using assms(3) by (intro auth_run_keeps [where P = "spent i"] marked_spent [OF assms(1,2)]) (simp add: spent_exec)
  then show ?thesis unfolding verifyRegistration_def verifyAuthentication_def by (intro conjI spent_refuses spent_ends)
qed

theorem challenge_used_once_witness:
  "failed (fst (mark_challenge 40 ''c'' (auth_run sample_auth [MarkOnly 30 ''c'', Refresh 35 sample_session ''t''] marked_auth))) \<and>
    failed (fst (verifyRegistration sample_auth 40 sample_verification ''c'' ''text'' (auth_run sample_auth [MarkOnly 30 ''c'', Refresh 35 sample_session ''t''] marked_auth))) \<and>
    failed (fst (verifyAuthentication sample_auth 40 sample_session ''c'' sample_response (auth_run sample_auth [MarkOnly 30 ''c'', Refresh 35 sample_session ''t''] marked_auth)))"
proof (rule challenge_used_once [of challenged_auth 20 "''c''" marked_auth])
  show "mark_challenge 20 ''c'' challenged_auth = (Inr (), marked_auth)"
    by (simp add: mark_challenge_def challenged_auth_def marked_auth_def updateMany_def sample_challenge_def empty_auth_def)
qed (simp_all add: challenged_auth_def keys_unique_def)


section \<open>Refresh tokens\<close>

definition gone :: "string \<Rightarrow> string \<Rightarrow> auth_db \<Rightarrow> bool" where
  "gone i h db \<longleftrightarrow> (\<forall>(j, t) \<in> set (ad_refresh db). j \<noteq> i \<and> rt_tokenHash t \<noteq> h)"

interpretation gone: frame "\<lambda>s t. gone i h s \<longrightarrow> gone i h t" for i h
  by unfold_locales simp_all

abbreviation keeps_gone :: "string \<Rightarrow> string \<Rightarrow> ('a, auth_db) handler \<Rightarrow> bool" where
  "keeps_gone i h \<equiv> keeps (\<lambda>s t. gone i h s \<longrightarrow> gone i h t)"

lemma gone_after: "keeps_gone i h m \<Longrightarrow> gone i h s \<Longrightarrow> gone i h (snd (m s))"
  by (simp add: keeps_def)

lemma leaves_gone: "leaves ad_refresh m \<Longrightarrow> keeps_gone i h m"
  by (simp add: keeps_def gone_def)

text \<open>The row and the hash of a new session are fresh.\<close>

definition issues_apart :: "'pk auth_env \<Rightarrow> string \<Rightarrow> string \<Rightarrow> session_random \<Rightarrow> bool" where
  "issues_apart E i h R \<longleftrightarrow> sr_row R \<noteq> i \<and> token_hash E (sr_refresh R) \<noteq> h"

fun sessions_apart :: "'pk auth_env \<Rightarrow> string \<Rightarrow> string \<Rightarrow> auth_op \<Rightarrow> bool" where
  "sessions_apart E i h (Register now R k response) = issues_apart E i h (vr_session R)"
| "sessions_apart E i h (SignIn now R k response) = issues_apart E i h R"
| "sessions_apart E i h (Refresh now R token) = issues_apart E i h R"
| "sessions_apart E i h (Legacy now R u) = issues_apart E i h R"
| "sessions_apart E i h _ = True"

lemma gone_issue: "issues_apart E i h R \<Longrightarrow> keeps_gone i h (issueSession E now R u w)"
  by (auto simp: keeps_def gone_def issueSession_def issues_apart_def create_row_def)

lemma gone_delete: "keeps_gone i h (delete_refresh j)"
  by (auto simp: keeps_def gone_def delete_refresh_def)

lemma gone_revoke: "keeps_gone i h (revoke_row now u j)"
proof -
  have "keeps_gone i h (modifyS (\<lambda>db. db\<lparr>ad_refresh := filter (\<lambda>(j, t). rt_userId t \<noteq> u) (ad_refresh db)\<rparr>))"
    by (auto simp: keeps_def gone_def)
  then show ?thesis
    unfolding revoke_row_def by (rule gone.keeps_bind [OF leaves_gone [OF leaves_identity(5)]])
qed

lemma leaves_refresh:
  "leaves ad_refresh (saveChallenge now k flow text stored u)" "leaves ad_refresh (consumeChallenge now k flow)"
  "leaves ad_refresh (mark_challenge now k)"
  "leaves ad_refresh (registration_route E now R header body)" "leaves ad_refresh (account_for E now ids c context x y)"
  "leaves ad_refresh (stored_credential E k)"
proof -
  show save: "leaves ad_refresh (saveChallenge now k flow ch stored u)" for now k flow ch stored u
    by (simp add: keeps_def saveChallenge_def Let_def)
  show mark: "leaves ad_refresh (mark_challenge now k)" for now k
    by (simp add: keeps_def mark_challenge_def split: prod.split)
  show "leaves ad_refresh (consumeChallenge now k flow)"
    unfolding consumeChallenge_def by (intro same_rules mark)
  have options: "leaves ad_refresh (registrationOptions E now R cx u)" for cx u
    unfolding registrationOptions_def by (intro same_rules save)
  then have "leaves ad_refresh (registrationOptionsForUser E now R u label)" for u label
    unfolding keeps_def registrationOptionsForUser_def Let_def by (auto split: option.split)
  then show "leaves ad_refresh (registration_route E now R header body)"
    unfolding registration_route_def Let_def by (intro same_rules same.keeps_catch options)
  have "leaves ad_refresh (bindS (on_identity m) (\<lambda>r. returnS (False, r)))" for m :: "(Registered, identity_db) handler"
    by (intro same_rules)
  then show "leaves ad_refresh (account_for E now ids c context x y)"
    by (auto simp: keeps_def account_for_def split: option.split)
  have "leaves ad_refresh (bindS (on_credentials m) (\<lambda>_. getS g))" for m :: "('x, StoredPasskey table) handler" and g :: "auth_db \<Rightarrow> 'y"
    by (intro same_rules)
  then show "leaves ad_refresh (stored_credential E k)" by (auto simp: keeps_def stored_credential_def Let_def)
qed

lemma gone_handlers:
  assumes "issues_apart E i h R"
  shows "keeps_gone i h (refresh_session E now R token)" "keeps_gone i h (legacyRefreshToken E now R u)"
    "keeps_gone i h (verifyAuthentication E now R k response)"
proof -
  have "keeps_gone i h (rotate_refresh E now R row)" for row
    unfolding rotate_refresh_def by (intro gone.keeps_bind gone.keeps_pure gone_delete gone_issue assms)
  moreover have "keeps_gone i h (bindS (delete_refresh k) (\<lambda>_. throwS refresh_rejected) :: (string \<times> AuthSession) auth_handler)" for k
    by (intro gone.keeps_bind gone.keeps_pure gone_delete)
  ultimately show "keeps_gone i h (refresh_session E now R token)"
    by (auto simp: keeps_def refresh_session_def split: option.split)
  have "keeps_gone i h (bindS (issueSession E now R u w) (\<lambda>s. returnS (u, s)))" for w
    by (intro gone.keeps_bind gone.keeps_pure gone_issue assms)
  then show "keeps_gone i h (legacyRefreshToken E now R u)"
    by (auto simp: keeps_def legacyRefreshToken_def split: option.split)
  show "keeps_gone i h (verifyAuthentication E now R k response)"
    unfolding verifyAuthentication_def
    by (intro gone.keeps_bind gone.keeps_pure keeps_choice keeps_pair gone_issue assms leaves_gone leaves_refresh leaves_identity)
qed

lemma gone_registration: "issues_apart E i h (vr_session R) \<Longrightarrow> keeps_gone i h (verifyRegistration E now R k response)"
  unfolding verifyRegistration_def Let_def
  by (intro gone.keeps_bind gone.keeps_pure keeps_choice keeps_pair gone_issue leaves_gone leaves_refresh leaves_identity
      leaves_state leaves_onboarded)



lemma gone_exec:
  assumes "sessions_apart E i h op" and "gone i h db"
  shows "gone i h (auth_exec E op db)"
proof -
  note step = gone_after [OF _ assms(2)] and other = gone_after [OF leaves_gone assms(2)]
  show ?thesis
  proof (cases op)
    case (SignInOptions now R)
    then show ?thesis by (simp add: authenticationOptions_def other leaves_refresh)
  next
    case (Revoke now u j)
    have "keeps_gone i h (revokeCredential now u j)"
      unfolding revokeCredential_def by (intro gone.keeps_bind gone_revoke leaves_gone leaves_state)
    with Revoke show ?thesis by (simp add: step)
  next
    case (Leave stored now token header)
    have "set (ad_refresh (logout E stored now token header db)) \<subseteq> set (ad_refresh db)"
      by (auto simp: logout_def revoke_token_def on_identity_def zoomS_def split_beta split: option.split)
    with assms(2) Leave show ?thesis by (auto simp: gone_def)
  qed (use assms(1) in \<open>simp_all add: other step leaves_refresh gone_handlers gone_registration gone_delete gone_revoke\<close>)
qed

text \<open>The columns \<open>id\<close> and \<open>tokenHash\<close> are unique.\<close>

definition refresh_unique :: "auth_db \<Rightarrow> bool" where
  "refresh_unique db \<longleftrightarrow> keys_unique (ad_refresh db) \<and> distinct (map (rt_tokenHash \<circ> snd) (ad_refresh db))"

lemma deleted_gone:
  assumes "refresh_unique db" and "refresh_of_hash h db = Some (i, t)" and "delete_refresh i db = (Inr (), db1)"
  shows "gone i h db1"
proof -
  have found: "(i, t) \<in> set (ad_refresh db)" "rt_tokenHash t = h"
    using found_in [OF assms(2) [unfolded refresh_of_hash_def]] by auto
  have db1: "ad_refresh db1 = filter (\<lambda>(j, t). j \<noteq> i) (ad_refresh db)"
    using assms(3) by (auto simp: delete_refresh_def split: if_splits)
  have "j = i" if "(j, t') \<in> set (ad_refresh db)" "rt_tokenHash t' = h" for j t'
  proof -
    have "inj_on (rt_tokenHash \<circ> snd) (set (ad_refresh db))"
      using assms(1) by (simp add: refresh_unique_def distinct_map)
    then have "(j, t') = (i, t)" using that found by (elim inj_onD) auto
    then show ?thesis by simp
  qed
  then show ?thesis using db1 by (auto simp: gone_def)
qed

lemma gone_refuses:
  assumes "gone i h db"
  shows "delete_refresh i db = (Inl missing_record, db)"
    and "token_hash E token = h \<Longrightarrow> refresh_session E now R token db = (Inl refresh_rejected, db)"
proof -
  have "i \<notin> fst ` set (ad_refresh db)" using assms by (auto simp: gone_def)
  then show "delete_refresh i db = (Inl missing_record, db)" by (simp add: delete_refresh_def findUnique_None)
  assume "token_hash E token = h"
  moreover have "refresh_of_hash h db = None" using assms by (auto simp: refresh_of_hash_def find_None_iff gone_def)
  ultimately show "refresh_session E now R token db = (Inl refresh_rejected, db)" by (simp add: refresh_session_def)
qed

text \<open>C14. A refresh token is exchanged at most once: after one exchange has deleted its row, the deletion by an exchange that found
  the row before fails, and a new exchange is refused, whatever happens in between, as long as new sessions draw fresh
  identifiers and tokens. An exchange that returns a session has deleted the row first.\<close>

theorem refresh_token_used_once:
  assumes "refresh_unique db" and "refresh_of_hash (token_hash E token) db = Some (i, row)"
    and "refresh_session E now R token db = (Inr s, db1)" and "issues_apart E i (token_hash E token) R"
    and "\<forall>op \<in> set ops. sessions_apart E i (token_hash E token) op"
  shows "failed (fst (delete_refresh i (auth_run E ops db1))) \<and>
    failed (fst (rotate_refresh E t R' (i, row) (auth_run E ops db1))) \<and>
    fst (refresh_session E t R' token (auth_run E ops db1)) = Inl refresh_rejected"
proof -
  have "rotate_refresh E now R (i, row) db = (Inr s, db1)"
    using assms(2,3) by (auto simp: refresh_session_def bindS_def throwS_def split: if_splits prod.splits sum.splits)
  then obtain db0 where deleted: "delete_refresh i db = (Inr (), db0)"
    and rest: "bindS (getS (\<lambda>db. Option.bind (findUnique (users db) (rt_userId row)) wallet_address)) (\<lambda>wallet.
      bindS (issueSession E now R (rt_userId row) wallet) (\<lambda>session. returnS (rt_userId row, session))) db0 = (Inr s, db1)"
    by (auto simp: rotate_refresh_def handler_simps)
  have "gone i (token_hash E token) db0" by (rule deleted_gone [OF assms(1,2) deleted])
  moreover have "keeps_gone i (token_hash E token) (issueSession E now R (rt_userId row) w)" for w
    by (rule gone_issue) (rule assms(4))
  ultimately have "gone i (token_hash E token) db1"
    using rest by (auto simp: handler_simps keeps_def) (metis snd_conv)
  then have "gone i (token_hash E token) (auth_run E ops db1)"
    using assms(5) by (intro auth_run_keeps [where P = "gone i (token_hash E token)"]) (simp_all add: gone_exec)
  from gone_refuses(1) [OF this] gone_refuses(2) [OF this refl, of t R'] show ?thesis
    by (simp add: rotate_refresh_def bindS_def)
qed

theorem refresh_token_used_once_witness:
  "failed (fst (delete_refresh ''r1'' (auth_run sample_auth [Refresh 20 other_session ''old'', MarkOnly 30 ''c''] refreshed_auth))) \<and>
    failed (fst (rotate_refresh sample_auth 40 other_session (''r1'', sample_refresh) (auth_run sample_auth [Refresh 20 other_session ''old'', MarkOnly 30 ''c''] refreshed_auth))) \<and>
    fst (refresh_session sample_auth 40 other_session ''old'' (auth_run sample_auth [Refresh 20 other_session ''old'', MarkOnly 30 ''c''] refreshed_auth)) = Inl refresh_rejected"
proof -
  have "case fst (refresh_session sample_auth 10 sample_session ''old'' refreshable_auth) of Inr s \<Rightarrow> True | Inl e \<Rightarrow> False" by code_simp
  then obtain s where exchanged: "refresh_session sample_auth 10 sample_session ''old'' refreshable_auth = (Inr s, refreshed_auth)"
    unfolding refreshed_auth_def by (cases "fst (refresh_session sample_auth 10 sample_session ''old'' refreshable_auth)") (auto simp: prod_eq_iff)
  have unique: "refresh_unique refreshable_auth"
    by (simp add: refreshable_auth_def refresh_unique_def keys_unique_def)
  have found: "refresh_of_hash (token_hash sample_auth ''old'') refreshable_auth = Some (''r1'', sample_refresh)"
    by (simp add: refreshable_auth_def refresh_of_hash_def sample_refresh_def)
  have apart: "issues_apart sample_auth ''r1'' (token_hash sample_auth ''old'') R"
    if "R \<in> {sample_session, other_session}" for R
  proof -
    have "issues_apart sample_auth ''r1'' (token_hash sample_auth ''old'') sample_session"
      "issues_apart sample_auth ''r1'' (token_hash sample_auth ''old'') other_session" by code_simp+
    with that show ?thesis by blast
  qed
  show ?thesis by (rule refresh_token_used_once [OF unique found exchanged]) (simp_all add: apart)
qed

section \<open>What leaves the identities alone\<close>

lemma identity_untouched:
  "leaves ad_identity (saveChallenge now k flow text stored u)" "leaves ad_identity (mark_challenge now k)"
  "leaves ad_identity (consumeChallenge now k flow)" "leaves ad_identity (registration_route E now R header body)"
  "leaves ad_identity (delete_refresh k)" "leaves ad_identity (refresh_session E now R' token)"
  "leaves ad_identity (legacyRefreshToken E now R' w)"
proof -
  show save: "leaves ad_identity (saveChallenge now k flow ch stored u)" for now k flow ch stored u
    by (simp add: keeps_def saveChallenge_def Let_def)
  show mark: "leaves ad_identity (mark_challenge now k)" for now k
    by (simp add: keeps_def mark_challenge_def split: prod.split)
  show "leaves ad_identity (consumeChallenge now k flow)"
    unfolding consumeChallenge_def by (intro same_rules mark)
  have options: "leaves ad_identity (registrationOptions E now R cx u)" for cx u
    unfolding registrationOptions_def by (intro same_rules save)
  then have "leaves ad_identity (registrationOptionsForUser E now R u label)" for u label
    unfolding keeps_def registrationOptionsForUser_def Let_def by (auto split: option.split)
  then show "leaves ad_identity (registration_route E now R header body)"
    unfolding registration_route_def Let_def by (intro same_rules same.keeps_catch options)
  show delete: "leaves ad_identity (delete_refresh k)" for k by (simp add: keeps_def delete_refresh_def)
  have "leaves ad_identity (rotate_refresh E now R' row)" for row
    unfolding rotate_refresh_def by (intro same_rules delete)
  moreover have "leaves ad_identity (bindS (delete_refresh k) (\<lambda>_. throwS refresh_rejected) :: (string \<times> AuthSession) auth_handler)" for k
    by (intro same_rules delete)
  ultimately show "leaves ad_identity (refresh_session E now R' token)"
    by (auto simp: keeps_def refresh_session_def split: option.split)
  have "leaves ad_identity (bindS (issueSession E now R' u w) (\<lambda>s. returnS (u, s)))" for u w by (intro same_rules)
  then show "leaves ad_identity (legacyRefreshToken E now R' w)" by (auto simp: keeps_def legacyRefreshToken_def split: option.split)
qed

section \<open>What the identity operations change\<close>

text \<open>A relation that the writes of the identity service respect: those to a user, to a node by the synchronisation and by the
  adoption, to the cache of handles and to the activity. Disconnecting is apart.\<close>

locale identity_writes = frame P for P :: "identity_db \<Rightarrow> identity_db \<Rightarrow> bool" +
  assumes user_written: "keeps P (update_user i f)"
    and user_created: "keeps P (insert_user i row)"
    and node_synced: "keeps P (syncSocialNode newId u p pid name)"
    and adopted: "P db (snd (adoptProvisionalAccount newId (toLowerCase p) pid name db))"
    and handle_mapped: "P db (map_handle now h a db)"
    and activity_recorded: "P db (record_activity u action db)"
begin

lemma state_after: "keeps P m \<Longrightarrow> P s (snd (m s))"
  by (simp add: keeps_def)

lemma ignored: "keeps P m \<Longrightarrow> keeps P (ignoring m)"
  by (simp add: keeps_def ignoring_def)

lemma mapped: "keeps P (modifyS (map_handle now h a))" "keeps P (modifyS (map_handle now h a \<circ> map_handle now' h' a'))"
  by (simp_all add: keeps_def handle_mapped chained [OF handle_mapped handle_mapped])

lemma recorded: "keeps P (modifyS (record_activity u action))"
  by (simp add: keeps_def activity_recorded)

lemma promoted: "keeps P (modifyS (promoteWebPlaceholderUsername now u name))"
proof -
  have "P db (promoteWebPlaceholderUsername now u name db)" for db
  proof -
    let ?w = "update_user u (\<lambda>x. x\<lparr>iu_username := Some (case name of Some s \<Rightarrow> trim (strip_at s) | None \<Rightarrow> [])\<rparr>) db"
    obtain r db1 where w: "?w = (r, db1)" by (cases ?w)
    then have "P db db1" using user_written unfolding keeps_def by (metis snd_conv)
    then show ?thesis
      using w chained [OF \<open>P db db1\<close> handle_mapped]
      by (auto simp: promoteWebPlaceholderUsername_def Let_def unchanged split: option.split sum.split)
  qed
  then show ?thesis by (simp add: keeps_def)
qed

lemma linking: "keeps P (linkAccount now newId u p pid name)"
proof -
  have "keeps P (bindS (syncSocialNode newId u (toLowerCase p) pid name) (\<lambda>linked.
          bindS (guardS linked e) (\<lambda>_.
          bindS (modifyS (promoteWebPlaceholderUsername now u name)) (\<lambda>_.
          bindS (modifyS (record_activity u ''ACCOUNT_LINKED'')) (\<lambda>_. returnS False)))))" for e
    by (intro keeps_bind keeps_pure node_synced promoted recorded)
  then show ?thesis by (auto simp: keeps_def linkAccount_def Let_def unchanged split: option.split)
qed

lemma resolving: "P db (snd (identity_resolveUser newId p pid name db))"
proof -
  have "P db (snd (syncSocialNode newId u q pid name' db))" for u q name'
    using node_synced by (simp add: keeps_def)
  then show ?thesis
    using adopted by (auto simp: identity_resolveUser_def Let_def unchanged split: option.split)
qed

lemma registering: "keeps P (registerUser E now ids p pid name x y [])"
proof -
  have "keeps P (register_row newId p pid clean wallet)" for newId clean wallet
    unfolding keeps_def
  proof
    fix s
    show "P s (snd (register_row newId p pid clean wallet s))"
    proof (cases "registered_before p pid clean s")
      case None
      show ?thesis
        unfolding register_row_def None option.case by (rule state_after) (intro keeps_bind keeps_pure user_created)
    next
      case (Some row)
      obtain i u where row: "row = (i, u)" by force
      show ?thesis
        unfolding register_row_def Some row option.case prod.case
        by (rule state_after) (intro keeps_bind keeps_pure keeps_choice keeps_branch user_written)
    qed
  qed
  then show ?thesis
    unfolding registerUser_def Let_def if_True refl
    by (intro keeps_bind keeps_pure keeps_branch ignored node_synced mapped recorded) (simp_all add: keeps_def unchanged)
qed

lemma contacting: "keeps P (resolveContact E now newId p h allow)"
proof -
  have made: "keeps P (bindS (liftS r) (\<lambda>address. bindS (ignoring (insert_user newId (u address))) (\<lambda>_.
      bindS (modifyS (map_handle now t address)) (\<lambda>_. returnS address))))" for r u t
    by (intro keeps_bind keeps_pure ignored user_created mapped)
  have written: "P db (map_handle now t a (snd (update_user i f db)))" for t a i f db
    using chained [OF _ handle_mapped] user_written by (simp add: keeps_def)
  show ?thesis
    using made written by (auto simp: keeps_def resolveContact_def Let_def unchanged handle_mapped split: option.split)
qed

lemma naming: "P db (snd (handleForAddress E now a p db))"
  by (auto simp: handleForAddress_def Let_def unchanged handle_mapped split: option.split)

lemma onboarding: "keeps P (completeOnboarding E now ids dto)"
proof -
  have maps: "keeps P (modifyS (\<lambda>db. let db1 = map_handle now pid a (map_handle now name a db) in
      if a = [] then db else (case c of Some c \<Rightarrow> map_handle now c a db1 | None \<Rightarrow> db1)))" for pid a name c
  proof -
    have "P db (map_handle now pid a (map_handle now name a db))" for db
      by (rule chained [OF handle_mapped handle_mapped])
    with chained [OF _ handle_mapped] show ?thesis by (auto simp: keeps_def Let_def unchanged split: option.split)
  qed
  have link: "keeps P (linkTelegramChatId E now ids p pid c name a)" for p pid c name a
    unfolding keeps_def linkTelegramChatId_def Let_def
    by (intro allI, rule state_after)
      (intro keeps_bind keeps_pure keeps_choice keeps_pair user_written user_created maps [unfolded Let_def] contacting)
  show ?thesis unfolding completeOnboarding_def Let_def by (intro keeps_bind keeps_pure link)
qed

end


text \<open>A part of the state that no write of the identity service touches.\<close>

lemma leaves_users:
  "leaves im_redis (update_user i f)" "leaves im_nodes (update_user i f)" "leaves im_credentials (update_user i f)"
  "leaves im_redis (insert_user i row)" "leaves im_nodes (insert_user i row)" "leaves im_credentials (insert_user i row)"
  by (simp_all add: keeps_def update_user_def insert_user_def split: option.split)

lemma leaves_upsert: "leaves im_redis (upsert_node newId p pid f n)" "leaves im_credentials (upsert_node newId p pid f n)"
  by (simp_all add: keeps_def upsert_node_def split: option.split prod.split)

lemma sync_leaves:
  assumes users: "\<And>i h. leaves g (update_user i h)" and nodes: "\<And>q k change new. leaves g (upsert_node newId q k change new)"
  shows "leaves g (syncSocialNode newId u p pid name)" and "g (snd (adoptProvisionalAccount newId p pid name db)) = g db"
proof -
  have "leaves g (ignoring (update_user i h))" for i h using users by (simp add: keeps_def ignoring_def)
  then have "leaves g (write_node newId u q pid name)" for q
    unfolding write_node_def by (intro same_rules nodes)
  then show "leaves g (syncSocialNode newId u p pid name)" by (auto simp: keeps_def syncSocialNode_def)
  have both: "g t = g s" if "bindS (upsert_node newId q k change new) (\<lambda>_. update_user i h) s = (r, t)" for q k change new i h s r t
  proof -
    have "leaves g (bindS (upsert_node newId q k change new) (\<lambda>_. update_user i h))" by (intro same.keeps_bind nodes users)
    with that show ?thesis unfolding keeps_def by (metis snd_conv)
  qed
  show "g (snd (adoptProvisionalAccount newId p pid name db)) = g db"
    unfolding adoptProvisionalAccount_def Let_def
    by (auto split: option.split prod.split sum.split dest: both)
qed

definition revoked_until :: "string \<Rightarrow> int \<Rightarrow> identity_db \<Rightarrow> bool" where
  "revoked_until jti e d \<longleftrightarrow>
     (case im_redis d (revoked_key jti) of
        Some (v, Some x) \<Rightarrow> e * 1000 \<le> x
      | Some (v, None) \<Rightarrow> True
      | None \<Rightarrow> False)"

lemma revoked_mapped: "im_redis (map_handle now h a d) (revoked_key jti) = im_redis d (revoked_key jti)"
  by (simp add: map_handle_def setHandleMapping_def setJson_def redis_set_px_def Let_def A2H_PREFIX_def H2A_PREFIX_def revoked_key_def)

interpretation revoked: identity_writes "\<lambda>s t. im_redis t (revoked_key jti) = im_redis s (revoked_key jti)" for jti
proof unfold_locales
  have users: "leaves (\<lambda>d. im_redis d (revoked_key jti)) (update_user i h)" for i h
    using leaves_users(1) [of i h] by (simp add: keeps_def)
  have nodes: "leaves (\<lambda>d. im_redis d (revoked_key jti)) (upsert_node newId q k change new)" for newId q k change new
    using leaves_upsert(1) [of newId q k change new] by (simp add: keeps_def)
  show "leaves (\<lambda>d. im_redis d (revoked_key jti)) (update_user i f)" for i f by (rule users)
  show "leaves (\<lambda>d. im_redis d (revoked_key jti)) (insert_user i row)" for i row
    using leaves_users(4) [of i row] by (simp add: keeps_def)
  show "leaves (\<lambda>d. im_redis d (revoked_key jti)) (syncSocialNode newId u p pid name)" for newId u p pid name
    by (rule sync_leaves(1) [OF users nodes])
  show "im_redis (snd (adoptProvisionalAccount newId (toLowerCase p) pid name db)) (revoked_key jti) = im_redis db (revoked_key jti)"
    for newId p pid name db
    by (rule sync_leaves(2) [of "\<lambda>d. im_redis d (revoked_key jti)", OF users nodes])
qed (simp_all add: revoked_mapped record_activity_def)


end
