(* ===== verification/Enrolment.thy ===== *)
theory Enrolment
  imports AuthExample
begin

text \<open>
  Who can enrol a passkey, and on which account: what the challenge of a registration records, and what a claim
  link lets an anonymous caller do.
\<close>

section \<open>The challenge of a registration\<close>

definition fresh_challenge :: "date \<Rightarrow> string \<Rightarrow> string \<Rightarrow> RegistrationContext option \<Rightarrow> string option \<Rightarrow> WebAuthnChallenge" where
  "fresh_challenge now flow text c u =
     \<lparr>wc_challenge = text, wc_flow = flow, wc_userId = u, wc_context = c, wc_expiresAt = now + CHALLENGE_TTL_MS, wc_usedAt = None\<rparr>"

lemma saved_challenge:
  assumes "saveChallenge now newId flow ch c u db = (Inr i, db')"
  shows "i = newId \<and> findUnique (ad_challenges db') i = Some (fresh_challenge now flow ch c u)"
  using assms
  by (auto simp: saveChallenge_def Let_def fresh_challenge_def findUnique_create split: if_splits)

lemma options_saved:
  assumes "registrationOptions E now R given u db = (Inr i, db')"
  obtains c where "authorized_context E now R given u db = Inr c" "i = or_row R"
    "findUnique (ad_challenges db') i = Some (fresh_challenge now ''registration'' (or_challenge R) (Some c) u)"
proof -
  from assms obtain c where "authorized_context E now R given u db = Inr c"
    and "saveChallenge now (or_row R) ''registration'' (or_challenge R) (Some c) u db = (Inr i, db')"
    by (auto simp: registrationOptions_def handler_simps)
  with saved_challenge show thesis by (blast intro: that)
qed

lemma user_options_saved:
  assumes "registrationOptionsForUser E now R u label db = (Inr i, db')"
  obtains c where "findUnique (users db) u \<noteq> None" "i = or_row R"
    "findUnique (ad_challenges db') i = Some (fresh_challenge now ''registration'' (or_challenge R) (Some c) (Some u))"
  using assms by (auto simp: registrationOptionsForUser_def Let_def split: option.splits elim!: options_saved)

lemma links_kept: "ad_links (snd (registrationOptionsForUser E now R u label db)) = ad_links db"
proof -
  have "ad_links (snd (saveChallenge t k flow ch c v s)) = ad_links s" for t k flow ch c v s
    by (simp add: saveChallenge_def Let_def)
  then have "ad_links (snd (registrationOptions E now R given v s)) = ad_links s" for given v s
    by (simp add: registrationOptions_def snd_bindS_cases split: sum.split)
  then show ?thesis by (simp add: registrationOptionsForUser_def Let_def split: option.split)
qed

text \<open>What an anonymous caller shows.\<close>

lemma authorized_anonymous:
  assumes "authorized_context E now R given None db = Inr c"
  shows "(\<exists>code link. some_text (cx_claimCode c) = Some code \<and> verifyClaimCode now code db = Inr link) \<or>
    cx_platform c = ''web'' \<and> cx_platformId c = webPlatformId (or_uuid R) \<and> cx_username c = webPlaceholderUsername (or_bytes R) \<or>
    verifyOnboardingLink E now c = Inr ()"
  using assms
  by (auto simp: authorized_context_def Let_def self_serve_def minted_def some_text_def bindE_def
      split: if_splits option.splits sum.splits)

lemma signed_onboarding:
  assumes "verifyOnboardingLink E now c = Inr ()"
  shows "ae_deeplinkSecret E \<noteq> [] \<and> (\<exists>e. Number (cx_expires c) = JNum e \<and> of_int (now div 1000) \<le> e) \<and>
    (\<exists>key \<in> {''platformId'', ''userId''}. (case cx_sig c of Some s \<Rightarrow> s | None \<Rightarrow> []) =
       ae_hmac E (ae_deeplinkSecret E) (search_params (link_params key c)))"
proof -
  have same: "same_signature p x = Inr v \<Longrightarrow> v = (p = x)" for p x v
    by (auto simp: same_signature_def split: if_splits)
  show ?thesis
    using assms unfolding verifyOnboardingLink_def Let_def
    by (auto simp: bindE_def split: if_splits sum.splits js_number.splits dest!: same)
qed

text \<open>C5. A stored registration challenge has an authorisation behind it: its account is the one of the verified access
  token of the request and exists, and without an account the request showed the code of an active claim link, or is a
  self-serve sign-up under an identity that the server drew, or carries the signature of an unexpired onboarding link.\<close>

theorem registration_is_authorized:
  assumes "registration_route E now R header body db = (Inr i, db')"
  shows "\<exists>c k. findUnique (ad_challenges db') i = Some c \<and> wc_context c = Some k \<and> wc_flow c = ''registration'' \<and>
    wc_challenge c = or_challenge R \<and> wc_usedAt c = None \<and> wc_expiresAt c = now + CHALLENGE_TTL_MS \<and>
    (case wc_userId c of
       Some u \<Rightarrow> authenticateBearer E now header = Some u \<and> findUnique (users db) u \<noteq> None
     | None \<Rightarrow>
         (\<exists>code link. some_text (cx_claimCode k) = Some code \<and> findUnique (ad_links db) code = Some link \<and>
            sl_status link = ''ACTIVE'' \<and> \<not> link_expired now link) \<or>
         (cx_platform k = ''web'' \<and> cx_platformId k = webPlatformId (or_uuid R) \<and>
            cx_username k = webPlaceholderUsername (or_bytes R)) \<or>
         (ae_deeplinkSecret E \<noteq> [] \<and> (\<exists>e. Number (cx_expires k) = JNum e \<and> of_int (now div 1000) \<le> e) \<and>
            (\<exists>key \<in> {''platformId'', ''userId''}. (case cx_sig k of Some s \<Rightarrow> s | None \<Rightarrow> []) =
               ae_hmac E (ae_deeplinkSecret E) (search_params (link_params key k)))))"
proof -
  have active: "findUnique (ad_links db) code = Some link \<and> sl_status link = ''ACTIVE'' \<and> \<not> link_expired now link"
    if "verifyClaimCode now code db = Inr link" for code link
    using that by (auto simp: verifyClaimCode_def split: option.splits if_splits)
  have anonymous: ?thesis if direct: "registrationOptions E now R body None db0 = (Inr i, db')" and links: "ad_links db0 = ad_links db" for db0
  proof -
    obtain k where auth: "authorized_context E now R body None db0 = Inr k"
      and saved: "findUnique (ad_challenges db') i = Some (fresh_challenge now ''registration'' (or_challenge R) (Some k) None)"
      by (rule options_saved [OF direct])
    have "verifyClaimCode now code db0 = verifyClaimCode now code db" for code by (simp add: verifyClaimCode_def links)
    with authorized_anonymous [OF auth] active signed_onboarding [of E now k] saved show ?thesis
      by (auto simp: fresh_challenge_def)
  qed
  consider (user) u where "authenticateBearer E now header = Some u"
      "registrationOptionsForUser E now R u (cx_label body) db = (Inr i, db')"
    | (again) u e db0 where "registrationOptionsForUser E now R u (cx_label body) db = (Inl e, db0)"
      "registrationOptions E now R body None db0 = (Inr i, db')"
    | (none) "registrationOptions E now R body None db = (Inr i, db')"
    using assms unfolding registration_route_def Let_def
    by (auto simp: handler_simps some_text_def split: option.splits if_splits)
  then show ?thesis
  proof cases
    case user
    then show ?thesis by (elim user_options_saved) (auto simp: fresh_challenge_def)
  next
    case again
    then have "ad_links db0 = ad_links db" using links_kept by (metis snd_conv)
    with again anonymous show ?thesis by blast
  next
    case none
    with anonymous show ?thesis by blast
  qed
qed

section \<open>Registering with a claim link\<close>

lemma consume_ok:
  assumes "keys_unique (ad_challenges db)" and "findUnique (ad_challenges db) i = Some c" and "wc_flow c = flow"
    and "wc_usedAt c = None" and "t < wc_expiresAt c"
  shows "\<exists>T. consumeChallenge t i flow db = (Inr c, db\<lparr>ad_challenges := T\<rparr>)"
  using assms
  by (auto simp: consumeChallenge_def read_challenge_def mark_challenge_def bindS_def returnS_def updateMany_unique)

lemma save_frame:
  assumes "saveChallenge now newId flow ch c u db = (Inr i, db')" and "keys_unique (ad_challenges db)"
  shows "ad_identity db' = ad_identity db \<and> ad_refresh db' = ad_refresh db \<and> keys_unique (ad_challenges db')"
proof -
  have "keys_unique (filter (\<lambda>(i, c). now \<le> wc_expiresAt c) (ad_challenges db))"
    using assms(2) by (simp add: keys_unique_def distinct_map_filter)
  with assms(1) show ?thesis
    by (auto simp: saveChallenge_def Let_def keys_create split: if_splits)
qed

lemma create_ok:
  assumes "findUnique t i = None" and "credential_of_hash h t = None" and "pc_lookupHash c = Some h" and "pc_credentialId c = None"
  shows "create_credential i c t = (Inr (), create_row i c t)"
proof -
  have "\<not> credentials_clash c d" if "(j, d) \<in> set t" for j d
    using assms(2-4) that by (auto simp: credential_of_hash_def find_None_iff credentials_clash_def shared_def dest: sym)
  with assms(1) show ?thesis by (auto simp: create_credential_def)
qed

text \<open>A claim link that is active lets through any identifier that is not the handle it was made for.\<close>

lemma claim_context:
  assumes "some_text (cx_claimCode body) = Some code" and "verifyClaimCode now code db = Inr link"
    and "cx_platformId body \<noteq> []" and "cx_username body \<noteq> []"
    and "strip_at (cx_platformId body) \<noteq> strip_at (cx_username body)"
    and "map_option strip_at (sl_targetUserId link) \<noteq> Some (strip_at (cx_platformId body))"
    and "\<not> startsWith (strip_at (cx_platformId body)) ''user_''"
  shows "authorized_context E now R body None db = Inr body"
proof -
  have "provisionalIdForClaim body link = cx_platformId body"
    using assms(5,7) assms(6) [symmetric] by (simp add: provisionalIdForClaim_def Let_def)
  with assms(1-4) show ?thesis
    by (simp add: authorized_context_def Let_def self_serve_def some_text_def bindE_def)
qed

text \<open>A response to the challenge of an anonymous caller, when the account that the context names has a passkey already.\<close>

lemma known_account_verified:
  assumes consumed: "consumeChallenge t i ''registration'' db1 = (Inr c, db)"
    and challenge_row: "wc_userId c = None" "wc_context c = Some k"
    and victim: "first_user (\<lambda>i u. \<exists>column \<in> set [TelegramId, WhatsappId, SlackId, DiscordId].
        column_value column u = Some (cx_platformId k)) (ad_identity db) = Some (victim, u)" "has_passkey u"
    and passkey: "ae_registration E response (wc_challenge c) = Some info" "ri_deviceType info = ''multiDevice''"
      "ve_decode (ae_vault E) (ri_publicKey info) = Some (Some xb, Some yb)"
      "credential_of_hash (computeLookupHash (ae_vault E) (ri_credentialId info)) (credentials db) = None"
    and fresh: "findUnique (credentials db) (fi_credential (vr_ids R')) = None" "findUnique (ad_refresh db) (sr_row (vr_session R')) = None"
      "\<forall>(j, r) \<in> set (ad_refresh db). rt_tokenHash r \<noteq> token_hash E (sr_refresh (vr_session R'))"
  shows "\<exists>v db2 p. verifyRegistration E t R' i response db1 = (Inr v, db2) \<and> vf_userId v = victim \<and>
    se_accessToken (vf_session v) = access_token E t victim (some_text (wallet_address u)) (sr_jti (vr_session R')) \<and>
    findUnique (credentials db2) (fi_credential (vr_ids R')) = Some p \<and> pc_userId p = victim \<and>
    pc_credentialPublicKey p = Some (ri_publicKey info) \<and> pc_revokedAt p = None"
proof -
  let ?w = "some_text (wallet_address u)" and ?x = "decimal_coordinate xb" and ?y = "decimal_coordinate yb"
  let ?h = "computeLookupHash (ae_vault E) (ri_credentialId info)" and ?new = "fi_credential (vr_ids R')"
  let ?r = "\<lparr>rg_userId = victim, rg_smartAccountAddress = wallet_address u,
    rg_isDeployed = (\<exists>w. iu_smartWallet u = Some w \<and> sw_isDeployed w),
    rg_accessToken = identity_token (ae_identity E) t victim (wallet_address u) (fi_jti (vr_ids R')), rg_username = iu_username u\<rparr>"
  let ?p = "(credential_values info victim ?x ?y (cx_label k) (empty_credential victim))\<lparr>pc_lookupHash := Some ?h\<rparr>"
  let ?db2 = "db\<lparr>ad_identity := (ad_identity db)\<lparr>im_credentials := create_row ?new ?p (credentials db)\<rparr>\<rparr>"
  let ?s = "\<lparr>se_accessToken = access_token E t victim ?w (sr_jti (vr_session R')), se_refreshToken = sr_refresh (vr_session R')\<rparr>"
  let ?db3 = "snd (issueSession E t (vr_session R') victim ?w ?db2)"
  have account: "account_for E t (vr_ids R') c k x y db = (Inr (True, ?r), db)" for x y
    using victim by (simp add: account_for_def existing_account_def challenge_row some_text_def)
  have "create_credential ?new ?p (credentials db) = (Inr (), create_row ?new ?p (credentials db))"
    using fresh(1) passkey(4) by (intro create_ok) (simp_all add: credential_values_def empty_credential_def)
  then have upserted: "on_credentials (upsert_credential ?new ?h info victim ?x ?y (cx_label k)) db = (Inr (), ?db2)"
    by (simp add: on_credentials_def on_identity_def zoomS_def upsert_credential_def passkey(4))
  have issued: "issueSession E t (vr_session R') victim ?w ?db2 = (Inr ?s, ?db3)"
    using fresh(2,3) by (auto simp: issueSession_def)
  have created: "findUnique (credentials ?db3) ?new = Some ?p"
    using fresh(1) by (simp add: issueSession_def findUnique_create)
  have pass: "bindS (\<lambda>db. (Inr (), db)) f s = f () s" for f :: "unit \<Rightarrow> Verified auth_handler" and s
    by (simp add: bindS_def)
  note steps = bindS_step [where m = "consumeChallenge t i ''registration''" and f = "f :: _ \<Rightarrow> Verified auth_handler" for f, OF consumed]
    bindS_step [where m = "account_for E t (vr_ids R') c k ?x ?y" and f = "f :: _ \<Rightarrow> Verified auth_handler" for f, OF account]
    bindS_step [where m = "on_credentials (upsert_credential ?new ?h info victim ?x ?y (cx_label k))" and f = "f :: _ \<Rightarrow> Verified auth_handler" for f, OF upserted]
    bindS_step [where m = "issueSession E t (vr_session R') victim ?w" and f = "f :: _ \<Rightarrow> Verified auth_handler" for f, OF issued]
  have "verifyRegistration E t R' i response db1 =
      (Inr \<lparr>vf_userId = victim, vf_walletAddress = wallet_address u, vf_session = ?s,
         vf_credentialId = ri_credentialId info, vf_shouldGrantSessionKey = False\<rparr>, ?db3)"
    unfolding verifyRegistration_def
    using passkey(1-3) by (simp add: steps challenge_row Let_def assertAccountRemainsRecoverable_def pass returnS_def)
  with created show ?thesis by (simp add: credential_values_def empty_credential_def)
qed

text \<open>C23. An active claim link, of anybody and for any amount, opens every account: an anonymous caller who names the platform
  identifier of another user's account is given a session of that account, and the passkey of the caller becomes one of
  its passkeys.\<close>

theorem claim_code_opens_any_account:
  assumes link: "some_text (cx_claimCode body) = Some code" "verifyClaimCode now code db = Inr link"
    and names: "cx_platformId body \<noteq> []" "cx_username body \<noteq> []" "strip_at (cx_platformId body) \<noteq> strip_at (cx_username body)"
      "map_option strip_at (sl_targetUserId link) \<noteq> Some (strip_at (cx_platformId body))"
      "\<not> startsWith (strip_at (cx_platformId body)) ''user_''"
    and victim: "first_user (\<lambda>i u. \<exists>column \<in> set [TelegramId, WhatsappId, SlackId, DiscordId]. column_value column u = Some (cx_platformId body)) (ad_identity db) = Some (victim, u)"
      "has_passkey u"
    and options: "registration_route E now R header body db = (Inr i, db1)" "keys_unique (ad_challenges db)"
      "now \<le> t" "t < now + CHALLENGE_TTL_MS"
    and passkey: "ae_registration E response (or_challenge R) = Some info" "ri_deviceType info = ''multiDevice''"
      "ve_decode (ae_vault E) (ri_publicKey info) = Some (Some xb, Some yb)"
      "credential_of_hash (computeLookupHash (ae_vault E) (ri_credentialId info)) (credentials db) = None"
    and fresh: "findUnique (credentials db) (fi_credential (vr_ids R')) = None" "findUnique (ad_refresh db) (sr_row (vr_session R')) = None"
      "\<forall>(j, r) \<in> set (ad_refresh db). rt_tokenHash r \<noteq> token_hash E (sr_refresh (vr_session R'))"
  shows "\<exists>v db2 c. verifyRegistration E t R' i response db1 = (Inr v, db2) \<and> vf_userId v = victim \<and>
    se_accessToken (vf_session v) = access_token E t victim (some_text (wallet_address u)) (sr_jti (vr_session R')) \<and>
    findUnique (credentials db2) (fi_credential (vr_ids R')) = Some c \<and> pc_userId c = victim \<and>
    pc_credentialPublicKey c = Some (ri_publicKey info) \<and> pc_revokedAt c = None"
proof -
  have "registrationOptions E now R body None db = (Inr i, db1)"
    using options(1) link(1) by (simp add: registration_route_def Let_def)
  moreover have "authorized_context E now R body None db = Inr body"
    by (rule claim_context [OF link names])
  ultimately have saved: "saveChallenge now (or_row R) ''registration'' (or_challenge R) (Some body) None db = (Inr i, db1)"
    by (auto simp: registrationOptions_def handler_simps)
  let ?c = "fresh_challenge now ''registration'' (or_challenge R) (Some body) None"
  from saved_challenge [OF saved] save_frame [OF saved options(2)]
  have db1: "findUnique (ad_challenges db1) i = Some ?c" "ad_identity db1 = ad_identity db" "ad_refresh db1 = ad_refresh db"
    "keys_unique (ad_challenges db1)" by blast+
  obtain T where "consumeChallenge t i ''registration'' db1 = (Inr ?c, db1\<lparr>ad_challenges := T\<rparr>)"
    using consume_ok [OF db1(4,1), of "''registration''" t] options(4) by (auto simp: fresh_challenge_def)
  then show ?thesis
    by (rule known_account_verified)
      (use victim passkey fresh in \<open>simp_all add: fresh_challenge_def db1(2,3)\<close>)
qed

section \<open>Examples\<close>

definition victim_user :: identity_user where
  "victim_user = no_identity\<lparr>iu_telegramId := Some ''42'', iu_username := Some ''alice'',
     iu_smartWallet := Some \<lparr>sw_address = ''vault'', sw_publicKeyX = ''7'', sw_publicKeyY = ''8'', sw_salt = ''0x'',
       sw_isDeployed = True, sw_factoryAddress = None, sw_derivationVersion = None\<rparr>\<rparr>"

definition victim_auth :: auth_db where
  "victim_auth = empty_auth\<lparr>ad_identity := (ad_identity empty_auth)\<lparr>im_users := [(''a'', victim_user)]\<rparr>,
     ad_links := [(''code'', sample_link\<lparr>sl_status := ''ACTIVE'', sl_expiresAt := None\<rparr>)]\<rparr>"

definition claim_body :: RegistrationContext where
  "claim_body = no_context\<lparr>cx_platform := ''telegram'', cx_platformId := ''42'', cx_username := ''mallory'', cx_claimCode := Some ''code''\<rparr>"

definition sample_options :: options_random where
  "sample_options = \<lparr>or_uuid = ''uuid'', or_bytes = [1, 2, 3, 4, 5], or_challenge = ''text'', or_row = ''c''\<rparr>"

definition claimed_options :: auth_db where
  "claimed_options = snd (registration_route sample_auth 10 sample_options None claim_body victim_auth)"

lemma claimed_options:
  "registration_route sample_auth 10 sample_options None claim_body victim_auth = (Inr ''c'', claimed_options)"
proof -
  have "fst (registration_route sample_auth 10 sample_options None claim_body victim_auth) = Inr ''c''" by code_simp
  then show ?thesis by (simp add: claimed_options_def prod_eq_iff)
qed

theorem registration_is_authorized_witness:
  "\<exists>c k. findUnique (ad_challenges claimed_options) ''c'' = Some c \<and> wc_context c = Some k \<and> wc_userId c = None"
proof -
  have "findUnique (ad_challenges claimed_options) ''c'' \<noteq> None \<and>
      (case findUnique (ad_challenges claimed_options) ''c'' of Some c \<Rightarrow> wc_userId c = None | None \<Rightarrow> False)" by code_simp
  with registration_is_authorized [OF claimed_options] show ?thesis by auto
qed

theorem claim_code_opens_any_account_witness:
  "\<exists>v db2 c. verifyRegistration sample_auth 20 sample_verification ''c'' ''text'' claimed_options = (Inr v, db2) \<and> vf_userId v = ''a'' \<and>
    se_accessToken (vf_session v) = access_token sample_auth 20 ''a'' (some_text (wallet_address victim_user)) (sr_jti (vr_session sample_verification)) \<and>
    findUnique (credentials db2) (fi_credential (vr_ids sample_verification)) = Some c \<and> pc_userId c = ''a'' \<and>
    pc_credentialPublicKey c = Some (be_bytes 32 7 @ be_bytes 32 8) \<and> pc_revokedAt c = None"
proof -
  let ?info = "\<lparr>ri_credentialId = ''text'', ri_publicKey = be_bytes 32 7 @ be_bytes 32 8, ri_counter = 0,
    ri_deviceType = ''multiDevice'', ri_backedUp = True\<rparr>"
  have opened: "\<exists>v db2 c. verifyRegistration sample_auth 20 sample_verification ''c'' ''text'' claimed_options = (Inr v, db2) \<and> vf_userId v = ''a'' \<and>
    se_accessToken (vf_session v) = access_token sample_auth 20 ''a'' (some_text (wallet_address victim_user)) (sr_jti (vr_session sample_verification)) \<and>
    findUnique (credentials db2) (fi_credential (vr_ids sample_verification)) = Some c \<and> pc_userId c = ''a'' \<and>
    pc_credentialPublicKey c = Some (ri_publicKey ?info) \<and> pc_revokedAt c = None"
  proof (rule claim_code_opens_any_account [OF _ _ _ _ _ _ _ _ _ claimed_options])
    show "verifyClaimCode 10 ''code'' victim_auth = Inr (sample_link\<lparr>sl_status := ''ACTIVE'', sl_expiresAt := None\<rparr>)"
      by (simp add: verifyClaimCode_def victim_auth_def findUnique_def link_expired_def)
    show "first_user (\<lambda>i u. \<exists>column \<in> set [TelegramId, WhatsappId, SlackId, DiscordId]. column_value column u = Some (cx_platformId claim_body)) (ad_identity victim_auth) = Some (''a'', victim_user)"
      by (auto simp: first_user_def victim_auth_def victim_user_def claim_body_def)
    show "ve_decode (ae_vault sample_auth) (ri_publicKey ?info) = Some (Some (be_bytes 32 7), Some (be_bytes 32 8))" by code_simp
  qed (simp_all add: claim_body_def no_context_def some_text_def strip_at_def startsWith_def sample_link_def victim_user_def has_passkey_def
      placeholder_key_def victim_auth_def empty_auth_def keys_unique_def CHALLENGE_TTL_MS_def sample_auth_def sample_options_def
      credential_of_hash_def findUnique_def)
  then show ?thesis by simp
qed

end
