(* ===== verification/AuthGuards.thy ===== *)
theory AuthGuards
  imports AuthRuns Enrolment
begin

text \<open>
  What a session may still do once it was ended, on the runs of \<open>AuthRuns\<close>: a token that was revoked by
  signing out stays refused.
\<close>

section \<open>Signing out\<close>

text \<open>The mark of a revoked token is a key of the hot state that no other operation writes.\<close>

definition mark_of :: "string \<Rightarrow> auth_db \<Rightarrow> (rvalue \<times> date option) option" where
  "mark_of jti db = im_redis (ad_identity db) (revoked_key jti)"

lemma mark_identity:
  "keeps (\<lambda>s t. im_redis t (revoked_key jti) = im_redis s (revoked_key jti)) m \<Longrightarrow> leaves (mark_of jti) (on_identity m)"
  by (simp add: keeps_def mark_of_def on_identity_def zoomS_def split_beta)

lemma mark_credentials: "leaves (mark_of jti) (on_credentials m)"
  by (simp add: keeps_def mark_of_def on_credentials_def on_identity_def zoomS_def split_beta)

lemma leaves_mark: "leaves ad_identity m \<Longrightarrow> leaves (mark_of jti) m"
  by (simp add: keeps_def mark_of_def)

lemma mark_sessions:
  "leaves (mark_of jti) (issueSession E now R u w)" "leaves (mark_of jti) (revokeCredential now u i)"
  "leaves (mark_of jti) (revoke_row now u i)"
proof -
  show "leaves (mark_of jti) (issueSession E now R u w)" by (rule leaves_mark) (rule leaves_session)
  show revoke: "leaves (mark_of jti) (revoke_row now u i)"
    unfolding revoke_row_def by (intro same_rules mark_credentials) (simp add: keeps_def mark_of_def)
  show "leaves (mark_of jti) (revokeCredential now u i)" unfolding revokeCredential_def by (intro same_rules revoke)
qed

lemmas mark_untouched = identity_untouched [THEN leaves_mark]

lemma mark_ceremonies:
  "leaves (mark_of jti) (verifyRegistration E now R i response)" "leaves (mark_of jti) (verifyAuthentication E now R' i response')"
proof -
  have "leaves (mark_of jti) (on_identity (registerUser (ae_identity E) now ids p pid name x y []))" for ids p pid name x y
    by (rule mark_identity) (rule revoked.registering)
  then have "leaves (mark_of jti) (bindS (on_identity (registerUser (ae_identity E) now ids p pid name x y [])) (\<lambda>r. returnS (False, r)))"
    for ids p pid name x y
    by (intro same_rules)
  then have account: "leaves (mark_of jti) (account_for E now ids c cx x y)" for ids c cx x y
    by (auto simp: keeps_def account_for_def split: option.split)
  have "leaves (mark_of jti) (modifyS (\<lambda>db. if known then db else db\<lparr>ad_onboarded := f db\<rparr>))" for known f
    by (simp add: keeps_def mark_of_def)
  then show "leaves (mark_of jti) (verifyRegistration E now R i response)"
    unfolding verifyRegistration_def Let_def by (intro same_rules mark_untouched mark_sessions mark_credentials account)
  have "leaves (mark_of jti) (bindS (on_credentials m) (\<lambda>_. getS g))" for m :: "('x, StoredPasskey table) handler" and g :: "auth_db \<Rightarrow> 'y"
    by (intro same_rules mark_credentials)
  then have "leaves (mark_of jti) (stored_credential E k)" for k by (auto simp: keeps_def stored_credential_def Let_def)
  then show "leaves (mark_of jti) (verifyAuthentication E now R' i response')"
    unfolding verifyAuthentication_def by (intro same_rules mark_untouched mark_sessions mark_credentials)
qed

lemma mark_unlinked: "keeps (\<lambda>s t. im_redis t (revoked_key jti) = im_redis s (revoked_key jti)) (unlinkAccount u p)"
proof -
  have users: "leaves im_redis (ignoring (update_user i f))" for i f
    using leaves_users(1) [of i f] by (simp add: keeps_def ignoring_def)
  have "leaves im_redis (bindS (modifyS (\<lambda>db. db\<lparr>im_nodes := filter f (im_nodes db)\<rparr>)) (\<lambda>_.
      bindS (ignoring (update_user u g)) (\<lambda>_. modifyS (record_activity u action))))" for f g action
    by (intro same_rules users) (simp_all add: keeps_def record_activity_def)
  then have "leaves im_redis (unlinkAccount u p)"
    by (auto simp: keeps_def unlinkAccount_def Let_def split: option.split)
  then show ?thesis by (simp add: keeps_def)
qed

lemma plain_keeps: "(\<And>db. P db (snd (m db))) \<Longrightarrow> keeps P (plainly m)"
  by (simp add: keeps_def plainly_def)

fun is_leave :: "auth_op \<Rightarrow> bool" where
  "is_leave (Leave stored now token header) = True"
| "is_leave _ = False"

lemma mark_exec:
  assumes "\<not> is_leave op"
  shows "mark_of jti (auth_exec E op db) = mark_of jti db"
proof -
  have after: "mark_of jti (snd (m db)) = mark_of jti db" if "leaves (mark_of jti) m" for m :: "'x auth_handler"
    using that by (simp add: keeps_def)
  note rules = mark_untouched mark_sessions mark_ceremonies mark_identity plain_keeps mark_unlinked
    revoked.resolving revoked.linking revoked.contacting revoked.naming revoked.onboarding
  show ?thesis
    using assms by (cases op) (simp_all add: authenticationOptions_def, (rule after, intro rules)+)
qed

lemma bearer_token_text [simp]: "bearer_token (Some (CHR ''B'' # CHR ''e'' # CHR ''a'' # CHR ''r'' # CHR ''e'' # CHR ''r'' # CHR '' '' # tok)) = Some tok"
  by (simp add: bearer_token_def startsWith_def numeral_eq_Suc)

definition header_claims :: "'pk auth_env \<Rightarrow> date \<Rightarrow> string option \<Rightarrow> jwt_claims option" where
  "header_claims E now header =
     Option.bind (bearer_token header) (\<lambda>t. jwt_verify (ie_jwt (ae_identity E)) (seconds now) t (ie_jwtSecret (ae_identity E)))"

text \<open>Tokens with the same identifier end at the same time or later.\<close>

fun same_token :: "'pk auth_env \<Rightarrow> string \<Rightarrow> int \<Rightarrow> auth_op \<Rightarrow> bool" where
  "same_token E jti e (Leave stored now token header) =
     (case header_claims E now header of
        Some c \<Rightarrow> jc_jti c = Some jti \<longrightarrow> (case jc_exp c of Some x \<Rightarrow> e \<le> x | None \<Rightarrow> True)
      | None \<Rightarrow> True)"
| "same_token E jti e _ = True"

lemma logout_cases:
  "logout E stored now token header db =
     (let db1 = (case some_text token of
                   Some t \<Rightarrow> db\<lparr>ad_refresh := filter (\<lambda>(i, r). rt_tokenHash r \<noteq> token_hash E t) (ad_refresh db)\<rparr>
                 | None \<Rightarrow> db)
      in case header_claims E now header of Some c \<Rightarrow> revoke_token stored now c db1 | None \<Rightarrow> db1)"
  by (simp add: logout_def header_claims_def)

lemma mark_revoked:
  "mark_of jti (revoke_token stored now c db) =
     (case (some_text (jc_jti c), jc_exp c) of
        (Some j, Some e) \<Rightarrow>
          if stored \<and> e \<noteq> 0 \<and> j = jti then Some (RText ''1'', Some (now + max 1 (e - seconds now) * 1000)) else mark_of jti db
      | _ \<Rightarrow> mark_of jti db)"
  by (auto simp: revoke_token_def mark_of_def on_identity_def zoomS_def modifyS_def setValue_def redis_set_px_def revoked_key_def
      split: option.split)

lemma ttl_covers: "e * 1000 \<le> now + max 1 (e - seconds now) * 1000"
proof -
  have "seconds now * 1000 \<le> now" by (simp add: seconds_def)
  moreover have "(e - seconds now) * 1000 \<le> max 1 (e - seconds now) * 1000" by (intro mult_right_mono) simp_all
  ultimately show ?thesis by (simp add: algebra_simps)
qed

lemma revoked_until_mark:
  "revoked_until jti e (ad_identity db) \<longleftrightarrow>
     (case mark_of jti db of Some (v, Some x) \<Rightarrow> e * 1000 \<le> x | Some (v, None) \<Rightarrow> True | None \<Rightarrow> False)"
  by (simp add: revoked_until_def mark_of_def)

lemma revoked_exec:
  assumes "same_token E jti e op" and "revoked_until jti e (ad_identity db)"
  shows "revoked_until jti e (ad_identity (auth_exec E op db))"
proof (cases "is_leave op")
  case False
  with assms(2) show ?thesis by (simp add: revoked_until_mark mark_exec)
next
  case True
  then obtain stored now token header where op: "op = Leave stored now token header" by (cases op) simp_all
  have keep: "mark_of jti (case some_text token of Some t \<Rightarrow> db\<lparr>ad_refresh := f t\<rparr> | None \<Rightarrow> db) = mark_of jti db" for f
    by (simp add: mark_of_def split: option.split)
  show ?thesis
  proof (cases "header_claims E now header")
    case None
    with assms(2) show ?thesis by (simp add: op logout_cases revoked_until_mark keep)
  next
    case (Some c)
    with assms(1) have later: "some_text (jc_jti c) = Some jti \<Longrightarrow> jc_exp c = Some x \<Longrightarrow> e \<le> x" for x
      by (auto simp: op some_text_def split: if_splits)
    have covers: "e * 1000 \<le> now + max 1 (x - seconds now) * 1000" if "e \<le> x" for x
      using ttl_covers [of x now] that by simp
    have marked: "revoked_until jti e (ad_identity (revoke_token stored now c db1))" if same: "mark_of jti db1 = mark_of jti db" for db1
    proof (cases "mark_of jti (revoke_token stored now c db1) = mark_of jti db")
      case True
      with assms(2) show ?thesis by (simp add: revoked_until_mark)
    next
      case False
      with same obtain x where "some_text (jc_jti c) = Some jti" "jc_exp c = Some x"
        and new: "mark_of jti (revoke_token stored now c db1) = Some (RText ''1'', Some (now + max 1 (x - seconds now) * 1000))"
        unfolding mark_revoked by (auto split: option.splits if_splits)
      with later covers show ?thesis by (simp add: revoked_until_mark)
    qed
    with Some keep show ?thesis by (simp add: op logout_cases Let_def)
  qed
qed

lemma logout_revokes:
  assumes "header_claims E now header = Some c" and "some_text (jc_jti c) = Some jti" and "jc_exp c = Some e" and "e \<noteq> 0"
  shows "revoked_until jti e (ad_identity (logout E True now token header db))"
  using assms ttl_covers [of e now] by (simp add: logout_cases Let_def revoked_until_mark mark_revoked)

lemma revoked_refused:
  assumes "revoked_until jti e (ad_identity db)" and "seconds t < e"
  shows "redis_exists t (revoked_key jti) (im_redis (ad_identity db))"
proof -
  have "t < e * 1000" using assms(2) by (simp add: seconds_def)
  with assms(1) show ?thesis
    by (auto simp: revoked_until_def redis_exists_def redis_get_def live_def split: option.splits)
qed

text \<open>C11. Signing out is final at the gate: once the mark of the access token has reached the hot state, \<open>canActivate\<close> refuses
  this token on every route that is not public, whatever operations follow, also after the mark has left the hot state and
  when the hot state does not answer. That the gate is not asked everywhere is the next statement.\<close>

theorem logout_is_final:
  assumes "jwt_ok (ie_jwt (ae_identity E))"
    and "tok = access_token E issued u w jti" and "trim tok = tok" and "jti \<noteq> []" and "0 \<le> issued" and "now \<le> t"
    and "\<forall>op \<in> set ops. same_token E jti (seconds issued + 15 * 60) op"
  shows "canActivate E online t False (Some (''Bearer '' @ tok)) (auth_run E ops (logout E True now token (Some (''Bearer '' @ tok)) db)) =
    Inl auth_required"
proof -
  let ?e = "seconds issued + 15 * 60"
  let ?db = "auth_run E ops (logout E True now token (Some (''Bearer '' @ tok)) db)"
  have bearer: "bearer_token (Some (''Bearer '' @ tok)) = Some tok" by simp
  have "\<exists>c. jc_jti c = Some jti \<and> jc_exp c = Some ?e \<and>
      (\<forall>s. jwt_verify (ie_jwt (ae_identity E)) s tok (ie_jwtSecret (ae_identity E)) = (if ?e \<le> s then None else Some c))"
    using assms(1) unfolding assms(2) access_token_def jwt_ok_def
    by (intro exI [of _ "\<lparr>jc_userId = Some u, jc_walletAddress = w, jc_jti = Some jti, jc_pkv = True,
          jc_iat = Some (seconds issued), jc_exp = Some ?e\<rparr>"]) simp
  then obtain c where claims: "jc_jti c = Some jti" "jc_exp c = Some ?e"
    and verify: "\<And>s. jwt_verify (ie_jwt (ae_identity E)) s tok (ie_jwtSecret (ae_identity E)) = (if ?e \<le> s then None else Some c)"
    by blast
  show ?thesis
  proof (cases "?e \<le> seconds t")
    case True
    then show ?thesis by (simp add: canActivate_def bearer assms(3) verify)
  next
    case False
    moreover have "seconds now \<le> seconds t" using assms(6) by (simp add: seconds_def zdiv_mono1)
    ultimately have "header_claims E now (Some (''Bearer '' @ tok)) = Some c"
      by (simp add: header_claims_def bearer verify)
    moreover have "0 < ?e" using assms(5) by (simp add: seconds_def pos_imp_zdiv_nonneg_iff add_nonneg_pos)
    ultimately have "revoked_until jti ?e (ad_identity (logout E True now token (Some (''Bearer '' @ tok)) db))"
      using claims assms(4) by (intro logout_revokes) (simp_all add: some_text_def)
    then have "revoked_until jti ?e (ad_identity ?db)"
      using assms(7) by (intro auth_run_keeps [where P = "\<lambda>db. revoked_until jti ?e (ad_identity db)"]) (simp_all add: revoked_exec)
    with False have "redis_exists t (revoked_key jti) (im_redis (ad_identity ?db))" by (intro revoked_refused) (assumption, linarith)
    then show ?thesis
      by (simp add: canActivate_def bearer assms(3) verify claims some_text_def split: option.split)
  qed
qed

theorem logout_is_final_witness:
  "canActivate sample_auth True 1000 False (Some (''Bearer '' @ access_token sample_auth 0 ''u'' None ''j''))
     (auth_run sample_auth [Leave True 500 None (Some (''Bearer '' @ access_token sample_auth 0 ''u'' None ''k'')), MarkOnly 600 ''c'']
       (logout sample_auth True 400 None (Some (''Bearer '' @ access_token sample_auth 0 ''u'' None ''j'')) empty_auth)) =
   Inl auth_required"
proof (rule logout_is_final [OF _ refl])
  show "trim (access_token sample_auth 0 ''u'' None ''j'') = access_token sample_auth 0 ''u'' None ''j''"
    by (simp add: access_token_def sample_auth_def sample_jwt_def sample_sign_trimmed)
  have "header_claims sample_auth 500 (Some (''Bearer '' @ access_token sample_auth 0 ''u'' None ''k'')) =
      Some \<lparr>jc_userId = Some ''u'', jc_walletAddress = None, jc_jti = Some ''k'', jc_pkv = True, jc_iat = Some 0, jc_exp = Some 900\<rparr>"
    by (simp add: header_claims_def access_token_def sample_auth_def sample_jwt_def
        sample_verify_sign seconds_def)
  then show "\<forall>op \<in> set [Leave True 500 None (Some (''Bearer '' @ access_token sample_auth 0 ''u'' None ''k'')), MarkOnly 600 ''c''].
      same_token sample_auth ''j'' (seconds 0 + 15 * 60) op"
    by simp
qed (simp_all add: sample_auth_def sample_jwt_ok)

section \<open>Where the gate is not asked\<close>

text \<open>A mark that is not written is lost without a trace: the token stays accepted.\<close>

lemma lost_mark: "canActivate E online t False header (logout E False now token given db) = canActivate E online t False header db"
proof -
  have "revoke_token False now c s = s" for c s by (simp add: revoke_token_def split: option.split)
  then have "ad_identity (logout E False now token given db) = ad_identity db"
    by (simp add: logout_cases Let_def split: option.split)
  then show ?thesis by (simp add: canActivate_def split: option.split)
qed

lemma issued_claims:
  assumes "jwt_ok (ie_jwt (ae_identity E))" and "seconds t < seconds issued + 15 * 60"
  shows "authenticateBearer E t (Some (''Bearer '' @ access_token E issued u w jti)) = Some u"
  using assms by (simp add: authenticateBearer_def access_token_def jwt_ok_def)

lemma user_options_given:
  assumes "findUnique (users db) u \<noteq> None" and "u \<noteq> []" and "findUnique (ad_challenges db) (or_row R) = None"
    and "\<forall>(i, c) \<in> set (ad_challenges db). wc_challenge c \<noteq> or_challenge R"
  shows "fst (registrationOptionsForUser E t R u label db) = Inr (or_row R)"
proof -
  have given: "v \<in> set (given_text x) \<Longrightarrow> v \<noteq> []" for v x by (cases x) (auto simp: given_text_def split: if_splits)
  have first: "(case ids of i # _ \<Rightarrow> i | [] \<Rightarrow> webPlatformId uuid) \<noteq> []" if "\<forall>v \<in> set ids. v \<noteq> []" for ids uuid
    using that by (simp add: webPlatformId_def WEB_ID_PREFIX_def split: list.split)
  have name: "(case some_text x of Some n \<Rightarrow> n | None \<Rightarrow> ''user_'' @ take 8 u) \<noteq> []" for x
    by (simp add: some_text_def split: option.split)
  have authorized: "authorized_context E t R given (Some u) db = Inr given"
    if "cx_platformId given \<noteq> []" "cx_username given \<noteq> []" for given
    using that assms(2) by (simp add: authorized_context_def self_serve_def some_text_def Let_def)
  have "findUnique (filter P (ad_challenges db)) (or_row R) = None" for P
    using assms(3) by (auto simp: findUnique_def map_of_eq_None_iff)
  then have "fst (saveChallenge t (or_row R) flow (or_challenge R) c v db) = Inr (or_row R)" for flow c v
    using assms(4) by (auto simp: saveChallenge_def Let_def)
  then have "fst (registrationOptions E t R given (Some u) db) = Inr (or_row R)"
    if "cx_platformId given \<noteq> []" "cx_username given \<noteq> []" for given
    using authorized [OF that] by (simp add: registrationOptions_def bindS_def)
  note options = this
  obtain v where "findUnique (users db) u = Some v" using assms(1) by blast
  then show ?thesis
    unfolding registrationOptionsForUser_def Let_def by (simp only: option.case) (intro options, auto intro!: first name dest: given)
qed

text \<open>C12. The registration route does not ask the gate, and reads the token without asking whether it was revoked. An account
  signs out, and whatever happens next: while its access token is not out of date, a request for a registration challenge
  that carries this token, and neither a claim code nor a signed link, is still answered with a stored challenge for
  enrolling a passkey on that account, as long as the account exists and the random identifier and challenge are new.\<close>

theorem signed_out_token_enrols:
  assumes "jwt_ok (ie_jwt (ae_identity E))" and "tok = access_token E issued u w jti" and "u \<noteq> []"
    and "seconds t < seconds issued + 15 * 60"
    and "some_text (cx_claimCode body) = None" and "some_text (cx_sig body) = None"
    and "db1 = auth_run E ops (logout E stored now token (Some (''Bearer '' @ tok)) db)"
    and "findUnique (users db1) u \<noteq> None" and "findUnique (ad_challenges db1) (or_row R) = None"
    and "\<forall>(i, c) \<in> set (ad_challenges db1). wc_challenge c \<noteq> or_challenge R"
  shows "\<exists>db2 c. registration_route E t R (Some (''Bearer '' @ tok)) body db1 = (Inr (or_row R), db2) \<and>
    findUnique (ad_challenges db2) (or_row R) = Some (fresh_challenge t ''registration'' (or_challenge R) (Some c) (Some u))"
proof -
  obtain db2 where run: "registrationOptionsForUser E t R u (cx_label body) db1 = (Inr (or_row R), db2)"
    using user_options_given [OF assms(8,3,9,10)] by (metis prod.collapse)
  have "some_text (authenticateBearer E t (Some (''Bearer '' @ tok))) = Some u"
    using issued_claims [OF assms(1,4)] assms(2,3) by (simp add: some_text_def)
  then have "registration_route E t R (Some (''Bearer '' @ tok)) body db1 = (Inr (or_row R), db2)"
    using assms(5,6) run by (simp add: registration_route_def catchS_def)
  then show ?thesis using user_options_saved [OF run] by metis
qed

definition signed_out_token :: string where
  "signed_out_token = access_token sample_auth 0 ''a'' None ''j''"

definition signed_out_auth :: auth_db where
  "signed_out_auth = logout sample_auth True 400 None (Some (''Bearer '' @ signed_out_token)) victim_auth"

lemma signed_out_claims:
  assumes "t < 900000"
  shows "header_claims sample_auth t (Some (''Bearer '' @ signed_out_token)) = Some \<lparr>jc_userId = Some ''a'', jc_walletAddress = None, jc_jti = Some ''j'', jc_pkv = True, jc_iat = Some 0, jc_exp = Some 900\<rparr>"
proof -
  have "t div 1000 < 900" using assms by linarith
  then show ?thesis
    by (simp add: header_claims_def signed_out_token_def access_token_def sample_auth_def sample_jwt_def sample_verify_sign seconds_def)
qed

theorem signed_out_token_enrols_witness:
  "canActivate sample_auth True 500 False (Some (''Bearer '' @ signed_out_token)) signed_out_auth = Inl auth_required \<and>
   (\<exists>db c. registration_route sample_auth 500 sample_options (Some (''Bearer '' @ signed_out_token)) no_context signed_out_auth =
        (Inr ''c'', db) \<and>
      findUnique (ad_challenges db) ''c'' = Some (fresh_challenge 500 ''registration'' ''text'' (Some c) (Some ''a'')))"
proof
  have "revoked_until ''j'' 900 (ad_identity signed_out_auth)"
    unfolding signed_out_auth_def by (rule logout_revokes [OF signed_out_claims]) (simp_all add: some_text_def)
  then have "redis_exists 500 (revoked_key ''j'') (im_redis (ad_identity signed_out_auth))"
    by (rule revoked_refused) (simp add: seconds_def)
  moreover have "trim signed_out_token = signed_out_token"
    by (simp add: signed_out_token_def access_token_def sample_auth_def sample_jwt_def sample_sign_trimmed)
  ultimately show "canActivate sample_auth True 500 False (Some (''Bearer '' @ signed_out_token)) signed_out_auth = Inl auth_required"
    using signed_out_claims [of 500] by (simp add: canActivate_def header_claims_def some_text_def)
  have jwt: "jwt_ok (ie_jwt (ae_identity sample_auth))" by (simp add: sample_auth_def sample_jwt_ok)
  have out: "signed_out_auth = revoke_token True 400 \<lparr>jc_userId = Some ''a'', jc_walletAddress = None, jc_jti = Some ''j'',
      jc_pkv = True, jc_iat = Some 0, jc_exp = Some 900\<rparr> victim_auth"
    unfolding signed_out_auth_def logout_cases by (subst signed_out_claims) (simp_all add: some_text_def)
  have state: "findUnique (users signed_out_auth) ''a'' \<noteq> None" "ad_challenges signed_out_auth = []"
    unfolding out by (simp_all add: revoke_token_def some_text_def on_identity_def zoomS_def modifyS_def victim_auth_def empty_auth_def findUnique_def)
  from signed_out_token_enrols [OF jwt signed_out_token_def, where ops = "[]" and body = no_context and stored = True and now = 400
      and token = None and db = victim_auth and t = 500 and R = sample_options and ?db1.0 = signed_out_auth] state
  show "\<exists>db c. registration_route sample_auth 500 sample_options (Some (''Bearer '' @ signed_out_token)) no_context signed_out_auth =
        (Inr ''c'', db) \<and>
      findUnique (ad_challenges db) ''c'' = Some (fresh_challenge 500 ''registration'' ''text'' (Some c) (Some ''a''))"
    by (simp add: signed_out_auth_def no_context_def some_text_def seconds_def sample_options_def findUnique_def)
qed

end
