(* ===== verification/LastPasskey.thy ===== *)
theory LastPasskey
  imports AuthRuns
begin

text \<open>
  An account keeps a passkey: on the runs of \<open>AuthRuns\<close>, what the operations do to the rows of credentials.
\<close>

section \<open>An active passkey\<close>

text \<open>A table in which the user has an active passkey whose index is outside a set.\<close>

definition holds_passkey :: "string \<Rightarrow> string set \<Rightarrow> StoredPasskey table \<Rightarrow> bool" where
  "holds_passkey u H t \<longleftrightarrow> keys_unique t \<and>
     (\<exists>(i, c) \<in> set t. pc_userId c = u \<and> is_active c \<and> pc_lookupHash c \<notin> Some ` H)"

interpretation passkey: frame "\<lambda>s t. holds_passkey u H s \<longrightarrow> holds_passkey u H t" for u H
  by unfold_locales simp_all

interpretation account: frame "\<lambda>s t. holds_passkey u H (credentials s) \<longrightarrow> holds_passkey u H (credentials t)" for u H
  by unfold_locales simp_all

abbreviation keeps_passkey :: "string \<Rightarrow> string set \<Rightarrow> ('a, StoredPasskey table) handler \<Rightarrow> bool" where
  "keeps_passkey u H \<equiv> keeps (\<lambda>s t. holds_passkey u H s \<longrightarrow> holds_passkey u H t)"

abbreviation keeps_account :: "string \<Rightarrow> string set \<Rightarrow> ('a, auth_db) handler \<Rightarrow> bool" where
  "keeps_account u H \<equiv> keeps (\<lambda>s t. holds_passkey u H (credentials s) \<longrightarrow> holds_passkey u H (credentials t))"

lemma holds_active: "holds_passkey u {} t \<longleftrightarrow> keys_unique t \<and> active_credentials u t \<noteq> []"
  by (auto simp: holds_passkey_def active_credentials_def filter_empty_conv)

lemma keys_unique_update [simp]: "keys_unique (update_row i f t) = keys_unique t"
  by (simp add: keys_unique_def)

lemma holds_update:
  assumes "holds_passkey u H t"
    and "\<And>c. (i, c) \<in> set t \<Longrightarrow> pc_userId c = u \<Longrightarrow> is_active c \<Longrightarrow> pc_lookupHash c \<notin> Some ` H \<Longrightarrow>
      pc_userId (f c) = u \<and> is_active (f c) \<and> pc_lookupHash (f c) \<notin> Some ` H"
  shows "holds_passkey u H (update_row i f t)"
proof -
  obtain j c where jc: "(j, c) \<in> set t" "pc_userId c = u" "is_active c" "pc_lookupHash c \<notin> Some ` H"
    using assms(1) by (auto simp: holds_passkey_def)
  have "(j, if j = i then f c else c) \<in> set (update_row i f t)"
    using jc(1) by (force simp: update_row_def)
  moreover have "pc_userId (if j = i then f c else c) = u \<and> is_active (if j = i then f c else c) \<and>
      pc_lookupHash (if j = i then f c else c) \<notin> Some ` H"
    using jc assms(2) by auto
  ultimately show ?thesis using assms(1) unfolding holds_passkey_def by auto
qed

lemma holds_create: "holds_passkey u H t \<Longrightarrow> findUnique t i = None \<Longrightarrow> holds_passkey u H (create_row i c t)"
  by (auto simp: holds_passkey_def keys_create create_row_def findUnique_None keys_unique_def)

lemma keeps_update:
  assumes "\<And>c. pc_userId c = u \<Longrightarrow> is_active c \<Longrightarrow> pc_lookupHash c \<notin> Some ` H \<Longrightarrow>
      pc_userId (f c) = u \<and> is_active (f c) \<and> pc_lookupHash (f c) \<notin> Some ` H"
  shows "keeps_passkey u H (update_credential i f)"
  using assms by (auto simp: keeps_def update_credential_def intro!: holds_update split: option.split)

lemma keeps_create: "keeps_passkey u H (create_credential i c)"
  by (auto simp: keeps_def create_credential_def intro!: holds_create)

text \<open>The upsert of a registration writes no row outside the indices in the set.\<close>

lemma keeps_upsert:
  assumes "h \<in> H"
  shows "keeps_passkey u H (upsert_credential newId h info v x y label)"
  unfolding keeps_def
proof (intro allI impI)
  fix t assume t: "holds_passkey u H t"
  show "holds_passkey u H (snd (upsert_credential newId h info v x y label t))"
  proof (cases "credential_of_hash h t")
    case None
    with t show ?thesis
      using keeps_create unfolding upsert_credential_def by (simp add: keeps_def)
  next
    case (Some p)
    obtain i c where p: "p = (i, c)" by force
    have ic: "(i, c) \<in> set t" "pc_lookupHash c = Some h"
      using found_in [OF Some [unfolded credential_of_hash_def]] by (auto simp: p)
    have "d = c" if "(i, d) \<in> set t" for d
      using t that ic(1) by (auto simp: holds_passkey_def keys_unique_def dest: eq_key_imp_eq_value)
    with t ic(2) assms have "holds_passkey u H (update_row i f t)" for f
      by (intro holds_update) auto
    with t Some p show ?thesis
      by (auto simp: upsert_credential_def update_credential_def split: option.split)
  qed
qed

lemma keeps_ensure: "keeps_passkey u {} (ensureWebAuthnPublicKey V k)"
proof -
  have row: "keeps_passkey u {} (update_credential i (webauthn_row h cose label))" for i h cose label
    by (rule keeps_update) (simp add: webauthn_row_def is_active_def)
  have "keeps_passkey u {} (bindS (update_credential i (webauthn_row h cose label)) (\<lambda>_. returnS x))"
    for i h cose label and x :: "bytes option"
    by (intro passkey.keeps_bind passkey.keeps_pure row)
  then have "keeps_passkey u {} (\<lambda>t. case findUnique t i of
       Some c \<Rightarrow> if pc_credentialPublicKey c = None \<and> pc_revokedAt c = None
           then bindS (update_credential i (webauthn_row h cose label)) (\<lambda>_. returnS (Some cose)) t else (Inr (r t), t)
     | None \<Rightarrow> (Inr (r t), t))" for i h cose label r
    by (auto simp: keeps_def split: option.split)
  then have "keeps_passkey u {} (bindS (liftS b) (\<lambda>cose t. case findUnique t i of
       Some c \<Rightarrow> if pc_credentialPublicKey c = None \<and> pc_revokedAt c = None
           then bindS (update_credential i (webauthn_row h cose label)) (\<lambda>_. returnS (Some cose)) t
           else (Inr (Option.bind (credential_of_hash h t) (pc_credentialPublicKey \<circ> snd)), t)
     | None \<Rightarrow> (Inr (Option.bind (credential_of_hash h t) (pc_credentialPublicKey \<circ> snd)), t)))" for b i h label
    by (intro passkey.keeps_bind passkey.keeps_pure)
  then show ?thesis
    by (auto simp: keeps_def ensureWebAuthnPublicKey_def Let_def split: option.split prod.split)
qed

section \<open>Operations\<close>

lemma on_credentials_keeps: "keeps_passkey u H m \<Longrightarrow> keeps_account u H (on_credentials m)"
  by (simp add: keeps_def on_credentials_def on_identity_def zoomS_def split_beta)

lemma leaves_account: "leaves credentials m \<Longrightarrow> keeps_account u H m"
  by (simp add: keeps_def)

lemma on_identity_leaves: "keeps (\<lambda>s t. im_credentials t = im_credentials s) m \<Longrightarrow> leaves credentials (on_identity m)"
  by (simp add: keeps_def on_identity_def zoomS_def split_beta)

interpretation stored: identity_writes "\<lambda>s t. im_credentials t = im_credentials s"
proof unfold_locales
  show "leaves im_credentials (update_user i f)" for i f by (rule leaves_users(3))
  show "leaves im_credentials (insert_user i row)" for i row by (rule leaves_users(6))
  show "leaves im_credentials (syncSocialNode newId u p pid name)" for newId u p pid name
    by (rule sync_leaves(1) [OF leaves_users(3) leaves_upsert(2)])
  show "im_credentials (snd (adoptProvisionalAccount newId (toLowerCase p) pid name db)) = im_credentials db" for newId p pid name db
    by (rule sync_leaves(2) [of im_credentials, OF leaves_users(3) leaves_upsert(2)])
qed (simp_all add: map_handle_def record_activity_def)

lemma untouched_account: "leaves ad_identity m \<Longrightarrow> keeps_account u H m"
  by (simp add: keeps_def)

text \<open>The indices that the response of a registration can stand for.\<close>

definition reported :: "'pk auth_env \<Rightarrow> string \<Rightarrow> string set" where
  "reported E response = {computeLookupHash (ae_vault E) (ri_credentialId info) | ch info. ae_registration E response ch = Some info}"

lemma keeps_account_for: "keeps_account u H (account_for E now ids c cx x y)"
proof -
  have "leaves credentials (on_identity (registerUser (ae_identity E) now ids p pid name x y []))" for p pid name
    by (rule on_identity_leaves) (rule stored.registering)
  then have "leaves credentials (bindS (on_identity (registerUser (ae_identity E) now ids p pid name x y [])) (\<lambda>r. returnS (False, r)))" for p pid name
    by (intro same_rules)
  then show ?thesis by (auto simp: keeps_def account_for_def split: option.split)
qed

lemma keeps_registration: "keeps_account u (reported E response) (verifyRegistration E now R i response)"
proof -
  note rules = account.keeps_bind account.keeps_pure keeps_choice keeps_pair
  have rest: "keeps_account u (reported E response)
     (bindS (\<lambda>db. (assertAccountRemainsRecoverable E v dev db, db)) (\<lambda>_.
      bindS (account_for E now (vr_ids R) c cx x y) (\<lambda>(known, r).
      bindS (on_credentials (upsert_credential k (computeLookupHash (ae_vault E) (ri_credentialId info)) info (rg_userId r) x y label)) (\<lambda>_.
      bindS (modifyS (\<lambda>db. if known then db else db\<lparr>ad_onboarded := f r db\<rparr>)) (\<lambda>_.
      bindS (issueSession E now (vr_session R) (rg_userId r) (w r)) (\<lambda>session. returnS (g known r session)))))))"
    if "ae_registration E response ch = Some info" for ch info v dev c cx x y k label f w and g :: "bool \<Rightarrow> Registered \<Rightarrow> AuthSession \<Rightarrow> Verified"
  proof -
    have "computeLookupHash (ae_vault E) (ri_credentialId info) \<in> reported E response" using that by (auto simp: reported_def)
    then show ?thesis
      by (intro rules keeps_account_for on_credentials_keeps keeps_upsert untouched_account leaves_session leaves_onboarded leaves_state) assumption
  qed
  show ?thesis
    unfolding verifyRegistration_def Let_def
  proof (intro account.keeps_bind untouched_account [OF identity_untouched(3)], goal_cases)
    case (1 c)
    show ?case
    proof (cases "ae_registration E response (wc_challenge c)")
      case None
      then show ?thesis by (simp add: account.keeps_pure)
    next
      case (Some info)
      show ?thesis unfolding Some option.case by (intro rules rest [OF Some])
    qed
  qed
qed

lemma keeps_authentication: "keeps_account u {} (verifyAuthentication E now R i response)"
proof -
  have used: "keeps_account u {} (on_credentials (update_credential k (\<lambda>s. s\<lparr>pc_counter := n, pc_backedUp := b,
      pc_backupStateKnown := True, pc_deviceType := dev, pc_lastUsedAt := Some now\<rparr>)))" for k n b dev
    by (intro on_credentials_keeps keeps_update) (simp add: is_active_def)
  have "keeps_account u {} (bindS (on_credentials (ensureWebAuthnPublicKey V k)) (\<lambda>_. getS g))" for V k and g :: "auth_db \<Rightarrow> (string \<times> StoredPasskey) option"
    by (intro account.keeps_bind account.keeps_pure on_credentials_keeps keeps_ensure)
  then have "keeps_account u {} (stored_credential E k)" for k by (auto simp: keeps_def stored_credential_def Let_def)
  then show ?thesis
    unfolding verifyAuthentication_def
    by (intro account.keeps_bind account.keeps_pure keeps_choice keeps_pair used untouched_account [OF identity_untouched(3)]
        untouched_account [OF leaves_session(2)])
qed

lemma revoking_keeps_one:
  assumes "holds_passkey u {} (credentials db)"
  shows "holds_passkey u {} (credentials (snd (revokeCredential now v i db)))"
proof (cases "may_revoke v i db")
  case (Inl e)
  with assms show ?thesis by (simp add: revokeCredential_def bindS_def)
next
  case (Inr x)
  then have two: "1 < length (active_credentials v (credentials db))"
    and row: "\<exists>c. findUnique (credentials db) i = Some c \<and> pc_userId c = v"
    by (auto simp: may_revoke_def split: if_splits)
  let ?revoke = "update_credential i (\<lambda>c. c\<lparr>pc_revokedAt := Some now\<rparr>)"
  have unique: "keys_unique (credentials db)" using assms by (simp add: holds_passkey_def)
  have "\<exists>(j, c) \<in> set (credentials db). pc_userId c = u \<and> is_active c \<and> j \<noteq> i"
  proof (rule ccontr)
    assume none: "\<not> (\<exists>(j, c) \<in> set (credentials db). pc_userId c = u \<and> is_active c \<and> j \<noteq> i)"
    obtain j c where jc: "(j, c) \<in> set (credentials db)" "pc_userId c = u" "is_active c"
      using assms by (auto simp: holds_passkey_def)
    with none have "(i, c) \<in> set (credentials db)" by auto
    then have "v = u" using row unique jc(2) by (auto simp: findUnique_def keys_unique_def dest: map_of_is_SomeI)
    have "card (set (map fst (active_credentials u (credentials db)))) \<le> card {i}"
      using none by (intro card_mono) (auto simp: active_credentials_def)
    moreover have "distinct (map fst (active_credentials u (credentials db)))"
      using unique by (simp add: active_credentials_def keys_unique_def distinct_map_filter)
    ultimately have "length (map fst (active_credentials u (credentials db))) \<le> card {i}"
      using distinct_card [of "map fst (active_credentials u (credentials db))"] by simp
    with two \<open>v = u\<close> show False by simp
  qed
  then have "holds_passkey u {} (snd (?revoke (credentials db)))"
  proof -
    have "(j, c) \<in> set (update_row i f (credentials db))" if "(j, c) \<in> set (credentials db)" "j \<noteq> i" for j c f
      using that by (force simp: update_row_def)
    moreover from \<open>\<exists>(j, c) \<in> set (credentials db). pc_userId c = u \<and> is_active c \<and> j \<noteq> i\<close>
    obtain j c where "(j, c) \<in> set (credentials db)" "pc_userId c = u" "is_active c" "j \<noteq> i" by auto
    ultimately have "holds_passkey u {} (update_row i f (credentials db))" for f
      using unique unfolding holds_passkey_def by auto
    moreover have "holds_passkey u {} (credentials db)" by (rule assms)
    ultimately show ?thesis by (simp add: update_credential_def split: option.split)
  qed
  moreover have "credentials (snd (revokeCredential now v i db)) = snd (?revoke (credentials db))"
    by (simp add: revokeCredential_def revoke_row_def Inr bindS_def on_credentials_def on_identity_def zoomS_def modifyS_def
        split: prod.split sum.split)
  ultimately show ?thesis by simp
qed

section \<open>Runs\<close>

text \<open>A registration reports an index that is not stored yet, and a revocation is not torn apart.\<close>

fun one_by_one :: "'pk auth_env \<Rightarrow> auth_op list \<Rightarrow> auth_db \<Rightarrow> bool" where
  "one_by_one E [] db = True"
| "one_by_one E (op # ops) db =
     ((case op of
         Register now R i response \<Rightarrow> \<forall>(j, c) \<in> set (credentials db). pc_lookupHash c \<notin> Some ` reported E response
       | RevokeOnly now u i \<Rightarrow> False
       | _ \<Rightarrow> True) \<and> one_by_one E ops (auth_exec E op db))"

lemma leaves_credentials:
  "leaves credentials (on_identity (plainly (identity_resolveUser newId p pid name)))"
  "leaves credentials (on_identity (linkAccount now newId u p pid name))"
  "leaves credentials (on_identity (resolveContact F now newId p h allow))"
  "leaves credentials (on_identity (plainly (handleForAddress F now a q)))"
  "leaves credentials (on_identity (completeOnboarding F now ids dto))"
proof -
  show "leaves credentials (on_identity (linkAccount now newId u p pid name))"
    "leaves credentials (on_identity (resolveContact F now newId p h allow))"
    "leaves credentials (on_identity (completeOnboarding F now ids dto))"
    by (intro on_identity_leaves stored.linking stored.contacting stored.onboarding)+
  show "leaves credentials (on_identity (plainly (identity_resolveUser newId p pid name)))"
    by (rule on_identity_leaves) (simp add: keeps_def plainly_def stored.resolving)
  show "leaves credentials (on_identity (plainly (handleForAddress F now a q)))"
    by (rule on_identity_leaves) (simp add: keeps_def plainly_def stored.naming)
qed

lemma unlinked_credentials: "leaves credentials (on_identity (unlinkAccount u p))"
proof -
  have users: "leaves im_credentials (ignoring (update_user i f))" for i f
    using leaves_users(3) [of i f] by (simp add: keeps_def ignoring_def)
  have "leaves im_credentials (bindS (modifyS (\<lambda>db. db\<lparr>im_nodes := filter f (im_nodes db)\<rparr>)) (\<lambda>_.
      bindS (ignoring (update_user u g)) (\<lambda>_. modifyS (record_activity u action))))" for f g action
    by (intro same_rules users) (simp_all add: keeps_def record_activity_def)
  then have "leaves im_credentials (unlinkAccount u p)"
    by (auto simp: keeps_def unlinkAccount_def Let_def split: option.split)
  then show ?thesis by (rule on_identity_leaves)
qed

lemma holds_exec:
  assumes "one_by_one E [op] db" and "holds_passkey u {} (credentials db)"
  shows "holds_passkey u {} (credentials (auth_exec E op db))"
proof -
  have after: "holds_passkey u {} (credentials (snd (m db)))" if "keeps_account u {} m" for m :: "'x auth_handler"
    using that assms(2) by (simp add: keeps_def)
  have same: "holds_passkey u {} (credentials (snd (m db)))" if "leaves credentials m" for m :: "'x auth_handler"
    using that assms(2) by (simp add: keeps_def)
  have untouched: "holds_passkey u {} (credentials (snd (m db)))" if "leaves ad_identity m" for m :: "'x auth_handler"
    using that assms(2) by (simp add: keeps_def)
  show ?thesis
  proof (cases op)
    case (Register now R i response)
    then have "holds_passkey u (reported E response) (credentials db)"
      using assms unfolding holds_passkey_def by simp fast
    then have "holds_passkey u (reported E response) (credentials (auth_exec E op db))"
      using keeps_registration [of u E response now R i] Register by (simp add: keeps_def)
    then show ?thesis by (auto simp: holds_passkey_def)
  next
    case (Revoke now v i)
    with assms(2) show ?thesis by (simp add: revoking_keeps_one)
  next
    case (Leave stored now token header)
    have "credentials (logout E stored now token header db) = credentials db"
      by (simp add: logout_def revoke_token_def on_identity_def zoomS_def modifyS_def Let_def split: option.split)
    with assms(2) Leave show ?thesis by simp
  next
    case (SignIn now R i response)
    then show ?thesis by (simp add: after keeps_authentication)
  qed (use assms(1) in \<open>simp_all add: same leaves_credentials unlinked_credentials untouched identity_untouched authenticationOptions_def\<close>)
qed

text \<open>C13. Nobody locks an account out: an account with an active passkey has one after any sequence of the operations of the
  identity and passkey services, revocations of its passkeys by its owner included, as long as every revocation runs from
  its check to its write undisturbed and no new passkey reports the identifier of a stored one.\<close>

theorem last_passkey_kept:
  assumes "keys_unique (credentials db)" and "listCredentials u db \<noteq> []" and "one_by_one E ops db"
  shows "listCredentials u (auth_run E ops db) \<noteq> []"
proof -
  have "holds_passkey u {} (credentials (auth_run E ops db))"
    if "holds_passkey u {} (credentials db)" "one_by_one E ops db" for db
    using that by (induction ops arbitrary: db) (simp_all add: holds_exec)
  with assms show ?thesis by (simp add: holds_active listCredentials_def)
qed

section \<open>Revocations that overlap\<close>

definition credentials_apart :: "StoredPasskey table \<Rightarrow> bool" where
  "credentials_apart t \<longleftrightarrow> (\<forall>(i, c) \<in> set t. \<forall>(j, d) \<in> set t. i \<noteq> j \<longrightarrow> \<not> credentials_clash c d)"

lemma revoke_row_active:
  assumes "keys_unique (credentials db)" and "credentials_apart (credentials db)" and "findUnique (credentials db) i \<noteq> None"
  shows "credentials (snd (revoke_row now u i db)) = update_row i (\<lambda>c. c\<lparr>pc_revokedAt := Some now\<rparr>) (credentials db)"
proof -
  obtain c where c: "findUnique (credentials db) i = Some c" using assms(3) by auto
  then have member: "(i, c) \<in> set (credentials db)" by (auto simp: findUnique_def dest: map_of_SomeD)
  have "\<not> (\<exists>(j, d) \<in> set (credentials db). j \<noteq> i \<and> credentials_clash (c\<lparr>pc_revokedAt := Some now\<rparr>) d)"
    using assms(2) member by (fastforce simp: credentials_apart_def credentials_clash_def)
  with c have "update_credential i (\<lambda>c. c\<lparr>pc_revokedAt := Some now\<rparr>) (credentials db) =
      (Inr (), update_row i (\<lambda>c. c\<lparr>pc_revokedAt := Some now\<rparr>) (credentials db))"
    by (simp add: update_credential_def)
  then show ?thesis
    by (simp add: revoke_row_def bindS_def on_credentials_def on_identity_def zoomS_def modifyS_def)
qed

lemma active_revoked:
  "active_credentials u (update_row i (\<lambda>c. c\<lparr>pc_revokedAt := Some now\<rparr>) t) = filter (\<lambda>(j, c). j \<noteq> i) (active_credentials u t)"
  by (induction t) (auto simp: active_credentials_def update_row_def is_active_def)

lemma apart_revoked: "credentials_apart t \<Longrightarrow> credentials_apart (update_row i (\<lambda>c. c\<lparr>pc_revokedAt := r\<rparr>) t)"
  by (fastforce simp: credentials_apart_def update_row_def credentials_clash_def split: if_splits)

text \<open>C24. The check of a revocation does not hold until its write: when the owner of an account with two passkeys revokes both at
  the same time, each request sees two passkeys and passes, and the account has none.\<close>

theorem overlapping_revocations_lock_out:
  assumes "keys_unique (credentials db)" and "credentials_apart (credentials db)"
    and "map fst (listCredentials u db) = [i, j]" and "i \<noteq> j"
  shows "may_revoke u i db = Inr () \<and> may_revoke u j db = Inr () \<and>
    listCredentials u (auth_run E [RevokeOnly t u i, RevokeOnly t' u j] db) = []"
proof -
  obtain c d where active: "active_credentials u (credentials db) = [(i, c), (j, d)]"
    using assms(3) by (auto simp: listCredentials_def map_eq_Cons_conv)
  have member: "(k, x) \<in> set (credentials db) \<and> pc_userId x = u \<and> is_active x" if "(k, x) \<in> {(i, c), (j, d)}" for k x
    using that arg_cong [OF active, of set] by (auto simp: active_credentials_def)
  have rows: "(i, c) \<in> set (credentials db)" "pc_userId c = u" "is_active c"
      "(j, d) \<in> set (credentials db)" "pc_userId d = u" "is_active d"
    using member [of i c] member [of j d] by blast+
  then have found: "findUnique (credentials db) i = Some c" "findUnique (credentials db) j = Some d"
    using assms(1) by (auto simp: findUnique_def keys_unique_def)
  let ?db = "snd (revoke_row t u i db)"
  have first: "credentials ?db = update_row i (\<lambda>c. c\<lparr>pc_revokedAt := Some t\<rparr>) (credentials db)"
    using revoke_row_active [OF assms(1,2), of i t u] found by simp
  then have "credentials (snd (revoke_row t' u j ?db)) = update_row j (\<lambda>c. c\<lparr>pc_revokedAt := Some t'\<rparr>) (credentials ?db)"
    using assms(1,2,4) found by (intro revoke_row_active) (simp_all add: apart_revoked)
  then have "listCredentials u (auth_run E [RevokeOnly t u i, RevokeOnly t' u j] db) = []"
    using assms(4) by (simp add: listCredentials_def first active_revoked active)
  moreover have "may_revoke u i db = Inr ()" "may_revoke u j db = Inr ()"
    using found rows by (simp_all add: may_revoke_def active is_active_def)
  ultimately show ?thesis by simp
qed

section \<open>Examples\<close>

definition sample_passkey :: "string \<Rightarrow> StoredPasskey" where
  "sample_passkey h = (empty_credential ''a'')\<lparr>pc_lookupHash := Some h, pc_credentialPublicKey := Some [1]\<rparr>"

definition two_passkeys :: auth_db where
  "two_passkeys = empty_auth\<lparr>ad_identity := (ad_identity empty_auth)\<lparr>im_credentials := [(''p'', sample_passkey ''1''), (''q'', sample_passkey ''2'')]\<rparr>\<rparr>"

lemma two_passkeys:
  "keys_unique (credentials two_passkeys)" "listCredentials ''a'' two_passkeys = [(''p'', sample_passkey ''1''), (''q'', sample_passkey ''2'')]"
  by (simp_all add: two_passkeys_def keys_unique_def listCredentials_def active_credentials_def is_active_def
      sample_passkey_def empty_credential_def)

theorem last_passkey_kept_witness:
  "listCredentials ''a'' (auth_run sample_auth [Revoke 10 ''a'' ''p'', Revoke 20 ''a'' ''q''] two_passkeys) \<noteq> []"
  by (rule last_passkey_kept) (simp_all add: two_passkeys)

theorem overlapping_revocations_lock_out_witness:
  "may_revoke ''a'' ''p'' two_passkeys = Inr () \<and> may_revoke ''a'' ''q'' two_passkeys = Inr () \<and>
    listCredentials ''a'' (auth_run sample_auth [RevokeOnly 10 ''a'' ''p'', RevokeOnly 11 ''a'' ''q''] two_passkeys) = []"
proof (rule overlapping_revocations_lock_out)
  show "credentials_apart (credentials two_passkeys)"
    by (simp add: two_passkeys_def credentials_apart_def credentials_clash_def shared_def sample_passkey_def empty_credential_def)
qed (simp_all add: two_passkeys)

end
