(* ===== verification/VaultRotation.thy ===== *)
theory VaultRotation
  imports AuthExample
begin

text \<open>
  The rotation of the keys of \<open>CredentialVault\<close>: what the records say does not change, and the keys of the older
  versions are not needed any more.
\<close>

section \<open>Wrapping\<close>

lemma unwrapDek_wrapDek:
  assumes "ciphers_ok (ve_ciphers V)"
  shows "unwrapDek V (wrapDek V iv dek kek) kek = Some dek"
proof -
  obtain ct tag where g: "gcm_encrypt (ve_ciphers V) kek iv dek = (ct, tag)" by force
  then have "gcm_decrypt (ve_ciphers V) kek iv tag ct = Some dek"
    using assms unfolding ciphers_ok_def by (metis fst_conv snd_conv)
  with g show ?thesis
    by (simp add: wrapDek_def unwrapDek_def Let_def split_on_append split_on_plain to_hex_no_colon)
qed

lemma wrapped_text: "some_text (Some (wrapDek V iv dek kek)) = Some (wrapDek V iv dek kek)"
  by (auto simp: wrapDek_def some_text_def split: prod.split)

section \<open>Rotating\<close>

text \<open>The record after its rotation under a key.\<close>

definition rewrapped :: "vault_env \<Rightarrow> bytes \<Rightarrow> bytes \<Rightarrow> StoredPasskey \<Rightarrow> StoredPasskey" where
  "rewrapped V wrapIv kek c =
     (case some_text (pc_wrappedDek c) of
        None \<Rightarrow> c
      | Some wrapped \<Rightarrow>
          if pc_kekVersion c \<ge> ve_current V then c
          else case Option.bind (ve_keks V (pc_kekVersion c)) (unwrapDek V wrapped) of
            None \<Rightarrow> c
          | Some dek \<Rightarrow> c\<lparr>pc_wrappedDek := Some (wrapDek V wrapIv dek kek), pc_kekVersion := ve_current V\<rparr>)"

lemma rotate_one:
  assumes "ve_keks V (ve_current V) = Some kek"
  shows "\<exists>b t'. rotateRecord V wrapIv i t = (Inr b, t') \<and>
    (\<forall>j. findUnique t' j = (if j = i then map_option (rewrapped V wrapIv kek) (findUnique t j) else findUnique t j))"
proof -
  have kek: "the_kek V = Inr kek" using assms by (simp add: the_kek_def)
  show ?thesis
  proof (cases "findUnique t i")
    case None
    then show ?thesis by (auto simp: rotateRecord_def intro: exI [of _ False])
  next
    case (Some c)
    show ?thesis
    proof (cases "some_text (pc_wrappedDek c)")
      case None
      with Some show ?thesis by (auto simp: rotateRecord_def rewrapped_def intro: exI [of _ False])
    next
      case (Some w)
      note w = this
      show ?thesis
      proof (cases "ve_current V \<le> pc_kekVersion c \<or> Option.bind (ve_keks V (pc_kekVersion c)) (unwrapDek V w) = None")
        case True
        with w \<open>findUnique t i = Some c\<close> show ?thesis
          by (auto simp: rotateRecord_def rewrapped_def split: option.split intro: exI [of _ False])
      next
        case False
        then obtain dek where "Option.bind (ve_keks V (pc_kekVersion c)) (unwrapDek V w) = Some dek" by auto
        with False w kek \<open>findUnique t i = Some c\<close> show ?thesis
          by (auto simp: rotateRecord_def rewrapped_def returnS_def intro: exI [of _ True])
      qed
    qed
  qed
qed

lemma rotate_all_records:
  assumes "ve_keks V (ve_current V) = Some kek" and "distinct is"
  shows "\<exists>n' t'. rotate_records V ivs is n t = (Inr n', t') \<and> fst n' + snd n' = fst n + snd n + length is \<and>
    (\<forall>j. findUnique t' j = (if j \<in> set is then map_option (rewrapped V (ivs j) kek) (findUnique t j) else findUnique t j))"
  using assms(2)
proof (induction "is" arbitrary: n t)
  case (Cons i "is")
  obtain a b where n: "n = (a, b)" by force
  obtain s t1 where one: "rotateRecord V (ivs i) i t = (Inr s, t1)"
    and t1: "\<And>j. findUnique t1 j = (if j = i then map_option (rewrapped V (ivs i) kek) (findUnique t j) else findUnique t j)"
    using rotate_one [OF assms(1), of "ivs i" i t] by blast
  let ?n = "if s then (a + 1, b) else (a, b + 1)"
  have n1: "fst ?n + snd ?n = a + b + 1" by simp
  have "distinct is" using Cons.prems by simp
  then obtain n' t' where run: "rotate_records V ivs is ?n t1 = (Inr n', t')"
    and sum: "fst n' + snd n' = fst ?n + snd ?n + length is"
    and t': "\<And>j. findUnique t' j = (if j \<in> set is then map_option (rewrapped V (ivs j) kek) (findUnique t1 j) else findUnique t1 j)"
    using Cons.IH [of ?n t1] by blast
  from run have "rotate_records V ivs (i # is) n t = (Inr n', t')" by (simp add: n one)
  moreover have "findUnique t' j = (if j \<in> set (i # is) then map_option (rewrapped V (ivs j) kek) (findUnique t j) else findUnique t j)" for j
    using Cons.prems by (auto simp: t' t1)
  ultimately show ?case using sum n1 by (intro exI [of _ n'] exI [of _ t']) (simp add: n)
qed simp

text \<open>A reading of a record does not change when it is wrapped again, and needs the current key only.\<close>

definition current_only :: "vault_env \<Rightarrow> vault_env" where
  "current_only V = V\<lparr>ve_keks := ve_keks V |` {ve_current V}\<rparr>"

lemma read_rewrapped:
  assumes "ciphers_ok (ve_ciphers V)" and "ve_keks V (ve_current V) = Some kek" and "ve_current V \<noteq> 0"
    and "read_credential V c = Some p" and "pc_kekVersion c \<le> ve_current V"
  shows "read_credential (current_only V) (rewrapped V iv kek c) = Some p"
proof -
  have same: "unwrapDek (current_only V) = unwrapDek V" "ve_ciphers (current_only V) = ve_ciphers V" "ve_parse (current_only V) = ve_parse V"
    by (simp_all add: fun_eq_iff unwrapDek_def current_only_def Let_def)
  obtain blob wrapped ivt tag where c: "some_text (pc_encryptedPayload c) = Some blob" "pc_wrappedDek c = Some wrapped"
      "pc_iv c = Some ivt" "pc_authTag c = Some tag" "pc_kekVersion c \<noteq> 0"
    and un: "unsealed V blob wrapped (pc_kekVersion c) ivt tag = Some p"
    using assms(4) by (auto simp: read_credential_def split: option.splits if_splits)
  from un obtain old dek pt where old: "ve_keks V (pc_kekVersion c) = Some old" "unwrapDek V wrapped old = Some dek"
      "gcm_decrypt (ve_ciphers V) dek (from_hex ivt) (from_hex tag) (from_hex blob) = Some pt" "Option.bind (utf8_read pt) (ve_parse V) = Some p"
    by (auto simp: unsealed_def bind_eq_Some_conv)
  have "wrapped \<noteq> []" using old(2) by (auto simp: unwrapDek_def)
  then have given: "some_text (pc_wrappedDek c) = Some wrapped" by (simp add: some_text_def c)
  show ?thesis
  proof (cases "ve_current V \<le> pc_kekVersion c")
    case True
    with assms(2,5) old given c show ?thesis
      by (simp add: rewrapped_def read_credential_def unsealed_def same) (simp add: current_only_def)
  next
    case False
    with assms(1-3) old given c show ?thesis
      by (simp add: rewrapped_def read_credential_def unsealed_def same) (simp add: current_only_def unwrapDek_wrapDek)
  qed
qed

text \<open>C22. The rotation loses nothing: with the key of the current version configured it runs to its end, counts every record of
  an older version once, and afterwards every record that could be read says the same, with the current key alone.\<close>

theorem rotation_keeps_credentials:
  assumes "vault_ok V" and "ve_current V \<noteq> 0" and "ve_keks V (ve_current V) = Some kek" and "keys_unique t"
  shows "\<exists>n m t'. rotateAll V ivs t = (Inr (n, m), t') \<and> n + m = length (filter (\<lambda>(i, c). stale V c) t) \<and>
    (\<forall>i c p. findUnique t i = Some c \<and> read_credential V c = Some p \<and> pc_kekVersion c \<le> ve_current V \<longrightarrow>
       (\<exists>c'. findUnique t' i = Some c' \<and> read_credential (current_only V) c' = Some p))"
proof -
  let ?is = "map fst (filter (\<lambda>(i, c). stale V c) t)"
  have "distinct ?is" using assms(4) by (simp add: keys_unique_def distinct_map_filter)
  then obtain n t' where run: "rotate_records V ivs ?is (0, 0) t = (Inr n, t')" "fst n + snd n = length ?is"
    and t': "\<And>j. findUnique t' j = (if j \<in> set ?is then map_option (rewrapped V (ivs j) kek) (findUnique t j) else findUnique t j)"
    using rotate_all_records [OF assms(3), of ?is ivs "(0, 0)" t] by auto
  have ok: "ciphers_ok (ve_ciphers V)" using assms(1) by (simp add: vault_ok_def)
  have "\<exists>c'. findUnique t' i = Some c' \<and> read_credential (current_only V) c' = Some p"
    if row: "findUnique t i = Some c" "read_credential V c = Some p" "pc_kekVersion c \<le> ve_current V" for i c p
  proof (cases "i \<in> set ?is")
    case True
    with row show ?thesis using read_rewrapped [OF ok assms(3,2) row(2,3)] by (simp add: t')
  next
    case False
    have "(i, c) \<in> set t" using row(1) by (simp add: findUnique_def map_of_SomeD)
    with False have "\<not> stale V c" by force
    moreover have "pc_encryptedPayload c \<noteq> None"
      using row(2) by (auto simp: read_credential_def some_text_def split: option.splits if_splits)
    ultimately have "ve_current V \<le> pc_kekVersion c" by (auto simp: stale_def)
    then have "rewrapped V [] kek c = c" by (simp add: rewrapped_def split: option.split)
    with read_rewrapped [OF ok assms(3,2) row(2,3), of "[]"] False row(1) show ?thesis by (simp add: t')
  qed
  with run assms(2) show ?thesis by (cases n) (auto simp: rotateAll_def)
qed

definition old_record :: StoredPasskey where
  "old_record = sealed (sample_vault\<lparr>ve_current := 1\<rparr>) \<lparr>vr_dek = [9], vr_iv = [8], vr_wrapIv = [7]\<rparr> [1]
     \<lparr>cp_userId = ''u'', cp_publicKeyX = ''7'', cp_publicKeyY = ''8'', cp_walletAddress = None\<rparr> (empty_credential ''u'')"

theorem rotation_keeps_credentials_witness:
  "\<exists>n m t' c'. rotateAll sample_vault (\<lambda>_. [5]) [(''i'', old_record)] = (Inr (n, m), t') \<and> findUnique t' ''i'' = Some c' \<and>
    read_credential (current_only sample_vault) c' =
      Some \<lparr>cp_userId = ''u'', cp_publicKeyX = ''7'', cp_publicKeyY = ''8'', cp_walletAddress = None\<rparr>"
proof -
  let ?p = "\<lparr>cp_userId = ''u'', cp_publicKeyX = ''7'', cp_publicKeyY = ''8'', cp_walletAddress = None\<rparr>"
  have reads: "read_credential sample_vault old_record = Some ?p" by code_simp
  have version: "pc_kekVersion old_record \<le> ve_current sample_vault" by code_simp
  have "ve_current sample_vault \<noteq> 0" "ve_keks sample_vault (ve_current sample_vault) = Some [2]" by (simp_all add: sample_vault_def)
  from rotation_keeps_credentials [OF sample_vault_ok this, of "[(''i'', old_record)]" "\<lambda>_. [5]"] reads version
  show ?thesis by (auto simp: keys_unique_def findUnique_def)
qed

end
