(* ===== verification/LinkSignatures.thy ===== *)
theory LinkSignatures
  imports Enrolment "HOL-Library.Multiset"
begin

text \<open>
  What the signatures of \<open>SignedLinks\<close> say: a canonical text stands for one list of parameters, a link of the
  backend is accepted until it expires, and a link that is accepted carries the values that were signed.
\<close>

section \<open>A canonical text stands for one list\<close>

lemma upper_nibble: "n < 16 \<Longrightarrow> toUpperCase [nibble_char n] = [upper_char (nibble_char n)]"
  by (drule less_16_cases) (auto simp: nibble_char_def toUpperCase_def)

fun hex_of :: "char \<Rightarrow> nat" where
  "hex_of c = (let k = of_char c in if k < 58 then k - 48 else k - 55)"

fun form_decode :: "string \<Rightarrow> bytes" where
  "form_decode [] = []"
| "form_decode (c # s) =
     (if c = CHR ''%'' then of_nat (16 * hex_of (s ! 0) + hex_of (s ! 1)) # form_decode (drop 2 s)
      else (if c = CHR ''+'' then 32 else of_nat (of_char c)) # form_decode s)"

lemma hex_of_nibble: "n < 16 \<Longrightarrow> hex_of (upper_char (nibble_char n)) = n"
  by (drule less_16_cases) (auto simp: nibble_char_def upper_char_def Let_def)

text \<open>The character of a byte.\<close>

lemma byte_char: "(of_char (char_of (unat b) :: char) :: nat) = unat b" for b :: byte
proof -
  have "unat b < 256" using unsigned_less [of b, where ?'a = nat] by simp
  then show ?thesis by (simp add: of_char_of)
qed

lemma byte_char_eq: "(char_of (unat b) :: char) = c \<Longrightarrow> unat b = of_char c" for b :: byte
  using byte_char [of b] by simp

lemma form_byte_hex:
  "\<not> form_safe b \<Longrightarrow> b \<noteq> 32 \<Longrightarrow>
    form_byte b = [CHR ''%'', upper_char (nibble_char (unat b div 16)), upper_char (nibble_char (unat b mod 16))]"
proof -
  have "unat b div 16 < 16" using unsigned_less [of b, where ?'a = nat] by (intro less_mult_imp_div_less) simp
  moreover have "toUpperCase [a, c] = toUpperCase [a] @ toUpperCase [c]" for a c by (simp add: toUpperCase_def)
  ultimately show "\<not> form_safe b \<Longrightarrow> b \<noteq> 32 \<Longrightarrow> ?thesis"
    by (simp add: form_byte_def to_hex_def upper_nibble)
qed

lemma form_decode_byte: "form_decode (form_byte b @ s) = b # form_decode s"
proof (cases "form_safe b \<or> b = 32")
  case True
  have "(char_of (unat b) :: char) \<noteq> CHR ''%''" "(char_of (unat b) :: char) \<noteq> CHR ''+''" if "form_safe b"
    using that by (auto simp: form_safe_def Let_def dest!: byte_char_eq)
  then show ?thesis
    using True byte_char [of b] by (cases "form_safe b") (simp_all add: form_byte_def)
next
  case False
  have "unat b div 16 < 16" using unsigned_less [of b, where ?'a = nat] by (intro less_mult_imp_div_less) simp
  then have "hex_of (upper_char (nibble_char (unat b div 16))) = unat b div 16" "hex_of (upper_char (nibble_char (unat b mod 16))) = unat b mod 16"
    by (simp_all only: hex_of_nibble mod_less_divisor)
  with False show ?thesis by (simp add: form_byte_hex del: hex_of.simps)
qed

lemma form_decode_encode: "form_decode (form_encode s) = utf8 s"
proof -
  have "form_decode (concat (map form_byte bs)) = bs" for bs
    by (induction bs) (simp_all add: form_decode_byte)
  then show ?thesis by (simp add: form_encode_def)
qed

lemma utf8_inj: "utf8 s = utf8 t \<Longrightarrow> s = t"
  by (metis utf8_read_utf8 option.inject)

lemma form_encode_inj: "form_encode s = form_encode t \<Longrightarrow> s = t"
  by (rule utf8_inj) (metis form_decode_encode)

lemma form_byte_plain: "CHR ''&'' \<notin> set (form_byte b)" "CHR ''='' \<notin> set (form_byte b)"
proof -
  have nib: "upper_char (nibble_char n) \<noteq> CHR ''&'' \<and> upper_char (nibble_char n) \<noteq> CHR ''=''" if "n < 16" for n
    using less_16_cases [OF that] by (auto simp: nibble_char_def upper_char_def Let_def dest!: arg_cong [of _ _ "of_char :: char \<Rightarrow> nat"])
  have "unat b div 16 < 16" using unsigned_less [of b, where ?'a = nat] by (intro less_mult_imp_div_less) simp
  then have bad: "\<not> form_safe b \<and> b \<noteq> 32 \<Longrightarrow> CHR ''&'' \<notin> set (form_byte b) \<and> CHR ''='' \<notin> set (form_byte b)"
    using nib [of "unat b div 16"] nib [of "unat b mod 16"] by (auto simp: form_byte_hex)
  have "(char_of (unat b) :: char) \<noteq> CHR ''&''" "(char_of (unat b) :: char) \<noteq> CHR ''=''" if "form_safe b"
    using that by (auto simp: form_safe_def Let_def dest!: byte_char_eq)
  with bad show "CHR ''&'' \<notin> set (form_byte b)" "CHR ''='' \<notin> set (form_byte b)"
    by (cases "form_safe b"; cases "b = 32"; force simp: form_byte_def)+
qed

lemma form_encode_plain: "CHR ''&'' \<notin> set (form_encode s)" "CHR ''='' \<notin> set (form_encode s)"
  by (auto simp: form_encode_def form_byte_plain)

lemma form_pair_inj: "form_pair p = form_pair q \<Longrightarrow> p = q"
proof -
  assume eq: "form_pair p = form_pair q"
  have split: "SessionCrypto.split_on (CHR ''='') (form_pair p) = [form_encode (fst p), form_encode (snd p)]" for p
    by (simp add: form_pair_def split_on_append split_on_plain form_encode_plain)
  from eq split [of p] split [of q] show "p = q" by (auto simp: prod_eq_iff dest: form_encode_inj)
qed

lemma split_joined:
  assumes "\<forall>w \<in> set (w # ws). CHR ''&'' \<notin> set w"
  shows "SessionCrypto.split_on (CHR ''&'') (join_str ''&'' (w # ws)) = w # ws"
  using assms by (induction ws arbitrary: w) (simp_all add: split_on_append split_on_plain)

lemma search_params_inj: "search_params ps = search_params qs \<Longrightarrow> ps = qs"
proof -
  assume eq: "search_params ps = search_params qs"
  have plain: "CHR ''&'' \<notin> set (form_pair p)" for p
    using form_encode_plain by (auto simp: form_pair_def)
  have nonempty: "search_params (p # ps) \<noteq> []" for p ps
    by (cases ps) (simp_all add: search_params_def form_pair_def)
  have split: "SessionCrypto.split_on (CHR ''&'') (search_params (p # ps)) = map form_pair (p # ps)" for p ps
    unfolding search_params_def list.map by (rule split_joined) (auto simp: plain)
  have "map form_pair ps = map form_pair qs"
  proof (cases ps; cases qs)
    fix p ps' q qs' assume "ps = p # ps'" "qs = q # qs'"
    with eq split [of p ps'] split [of q qs'] show ?thesis by simp
  qed (use eq nonempty in \<open>auto simp: search_params_def dest: sym\<close>)
  then show "ps = qs" using form_pair_inj by (metis list.inj_map_strong)
qed

section \<open>The number of a printed expiry\<close>

lemma Number_shown: "Number (Some (show_nat n)) = JNum (of_nat n)"
proof -
  have digits: "\<forall>c \<in> set (lit (show_nat n)). is_digit c" and "lit (show_nat n) \<noteq> []" using shown_digits by blast+
  note plain = digits_plain [OF digits]
  have radix: "\<not> starts (lit (show_nat n)) [48, c]" if "\<not> is_digit c" for c
    by (rule digits_start [OF digits]) (use that in simp)
  have "lit (show_nat n) \<noteq> lit ''Infinity''" using plain(6) by (auto simp: starts_def)
  moreover have "\<not> starts [] [46]" by (simp add: starts_def)
  ultimately have "unsigned_number (lit (show_nat n)) = decimal_prefix (lit (show_nat n))"
    by (simp add: unsigned_number_def plain exponent_text_def)
  then show ?thesis
    using \<open>lit (show_nat n) \<noteq> []\<close>
    by (simp add: Number_def number_of_text_def plain radix is_digit_def decimal_prefix_shown)
qed

lemma Number_expiry: "0 \<le> v \<Longrightarrow> Number (Some (show_int v)) = JNum (of_int v)"
  by (simp add: show_int_def Number_shown)

section \<open>The fields of an escalation link\<close>

lemma field_order:
  "''amount'' \<le> ''count''" "''count'' \<le> ''expires''" "''expires'' \<le> ''note''" "''note'' \<le> ''to''" "''to'' \<le> ''token''"
  "''chatId'' \<le> ''expires''" "''expires'' \<le> ''platform''" "''platform'' \<le> ''platformId''" "''platformId'' \<le> ''username''"
  "''platform'' \<le> ''userId''" "''userId'' \<le> ''username''"
  by code_simp+

lemmas field_orders = field_order field_order [THEN order_trans]

lemma sorted_params_eq:
  "mset ps = mset qs \<Longrightarrow> distinct (map fst ps) \<Longrightarrow> sorted (map fst qs) \<Longrightarrow> sorted_params ps = qs"
  unfolding sorted_params_def by (rule sort_key_inj_key_eq) (auto simp: distinct_map)

lemma given_text_cases:
  obtains "given_text x = []" | v where "given_text x = [v]" "x = Some v" "v \<noteq> []"
  by (cases x; cases "x = Some []") (auto simp: given_text_def)

definition ordered_fields :: "date \<Rightarrow> EscalationParams \<Rightarrow> (string \<times> string) list" where
  "ordered_fields now p =
     [(''amount'', ep_amount p)] @ (case ep_count p of Some c \<Rightarrow> [(''count'', c)] | None \<Rightarrow> []) @
     [(''expires'', show_int ((now + ESCALATION_TTL_MS) div 1000))] @ map (Pair ''note'') (given_text (ep_note p)) @
     map (Pair ''to'') (given_text (ep_to p)) @ [(''token'', ep_token p)]"

lemma sorted_signable: "sorted_params (signable now p) = ordered_fields now p"
proof (rule sorted_params_eq)
  show "mset (signable now p) = mset (ordered_fields now p)"
    by (simp add: signable_def ordered_fields_def split: option.split)
  show "distinct (map fst (signable now p))"
    by (cases "ep_to p" rule: given_text_cases; cases "ep_note p" rule: given_text_cases; cases "ep_count p") (simp_all add: signable_def)
  show "sorted (map fst (ordered_fields now p))"
    by (cases "ep_to p" rule: given_text_cases; cases "ep_note p" rule: given_text_cases; cases "ep_count p")
      (simp_all add: ordered_fields_def)
qed

lemma shown_nonempty: "show_int v \<noteq> []"
  using shown_digits [of "nat v"] by (auto simp: show_int_def lit_def)

lemma query_of_link:
  assumes "ep_amount p \<noteq> []" "ep_token p \<noteq> []" "ep_count p \<noteq> Some []"
  shows "query_fields (link_query sign now p) = sorted_params (signable now p)"
proof -
  have given: "given_text (Some v) = [v]" if "v \<noteq> []" for v using that by (simp add: given_text_def)
  have none: "given_text None = []" by (simp add: given_text_def)
  show ?thesis
    unfolding link_query_def sorted_signable
    by (cases "ep_to p" rule: given_text_cases; cases "ep_note p" rule: given_text_cases; cases "ep_count p")
      (use assms in \<open>auto simp: query_fields_def ordered_fields_def SIGNED_FIELDS_def given none shown_nonempty\<close>)
qed

text \<open>The parameters that the bots give to \<open>generateSignedDeepLink\<close> for the page \<open>/onboard\<close>.\<close>

definition onboard_params :: "RegistrationContext \<Rightarrow> (string \<times> string option) list" where
  "onboard_params c =
     [(''platform'', Some (cx_platform c)), (''chatId'', cx_chatId c), (''platformId'', Some (cx_platformId c)),
      (''username'', Some (cx_username c))]"

section \<open>Sample links\<close>

definition sample_signature :: "string \<Rightarrow> string" where "sample_signature t = CHR ''s'' # t"

definition sample_payment :: EscalationParams where
  "sample_payment =
     \<lparr>ep_to = Some ''@bob'', ep_token = ''USDC'', ep_amount = ''50'', ep_note = None, ep_count = None, ep_action = None, ep_reason = over_limit\<rparr>"

definition sample_query :: "string \<rightharpoonup> string" where
  "sample_query =
     map_of [(''amount'', ''50''), (''expires'', ''900''), (''to'', ''@bob''), (''token'', ''USDC''),
       (''sig'', ''samount=50&expires=900&to=%40bob&token=USDC'')]"

definition sample_onboarding :: RegistrationContext where
  "sample_onboarding =
     \<lparr>cx_platform = ''telegram'', cx_platformId = ''7'', cx_chatId = Some ''9'', cx_username = ''bob'', cx_label = None,
      cx_expires = Some ''900'', cx_sig = Some ''dchatId=9&expires=900&platform=telegram&platformId=7&username=bob'',
      cx_claimCode = None, cx_referralCode = None, cx_deviceFingerprint = None,
      cx_src = None, cx_campaign = None, cx_partner = None, cx_channel = None\<rparr>"

lemma sample_link_signed: "canonicalize (signable 0 sample_payment) = ''amount=50&expires=900&to=%40bob&token=USDC''"
  by code_simp

lemma sample_query_accepted: "verify_escalation sample_signature 900000 sample_query = valid_link"
  by code_simp

lemma sample_onboarding_signed:
  "deep_link_signature (ae_hmac sample_auth) (ae_deeplinkSecret sample_auth) 0 (onboard_params sample_onboarding) =
    ''dchatId=9&expires=900&platform=telegram&platformId=7&username=bob''"
  by code_simp

lemma sample_onboarding_accepted: "verifyOnboardingLink sample_auth 900000 sample_onboarding = Inr ()"
  by code_simp

section \<open>Escalation links\<close>

lemma canonical_fields: "set (query_fields q) \<subseteq> {(k, v). k \<in> set SIGNED_FIELDS \<and> v \<noteq> []}"
  by (auto simp: query_fields_def given_text_def split: option.splits if_splits)

lemma signable_fields: "set (signable now p) \<subseteq> {(k, v). k \<in> set SIGNED_FIELDS}"
  by (auto simp: signable_def SIGNED_FIELDS_def split: option.splits)

lemma canonicalize_signed:
  "set fs \<subseteq> {(k, v). k \<in> set SIGNED_FIELDS} \<Longrightarrow> canonicalize fs = search_params (sorted_params fs)"
  unfolding canonicalize_def by (subst filter_True) auto

lemma sorted_params_sorted [simp]: "sorted_params (sorted_params fs) = sorted_params fs"
  unfolding sorted_params_def by (rule sort_key_id_if_sorted) simp

lemma set_sorted_params [simp]: "set (sorted_params fs) = set fs"
  by (simp add: sorted_params_def)

text \<open>C21. A link that the escalation service builds is accepted by its own verifier, with the fields as the page reads them
from the query, until the second of its expiry: the text that was signed is the one the verifier rebuilds. After that it is
expired, and nothing else.\<close>

theorem escalation_link_round_trip:
  assumes "ep_amount p \<noteq> []" "ep_token p \<noteq> []" "ep_count p \<noteq> Some []" and "\<And>t. sign t \<noteq> []" and "0 \<le> now"
  shows "verify_escalation sign later (link_query sign now p) =
    (if (now + ESCALATION_TTL_MS) div 1000 * 1000 < later then expired_link else valid_link)"
proof -
  let ?fs = "signable now p" and ?e = "(now + ESCALATION_TTL_MS) div 1000"
  have rebuilt: "query_fields (link_query sign now p) = sorted_params ?fs" using assms(1-3) by (rule query_of_link)
  have "fst ` set (sorted_params ?fs) \<subseteq> set SIGNED_FIELDS" using signable_fields [of now p] by auto
  then have "map_of (sorted_params ?fs) ''sig'' = None"
    by (subst map_of_eq_None_iff) (auto simp: SIGNED_FIELDS_def)
  then have shown: "given_text (link_query sign now p ''sig'') = [sign (canonicalize ?fs)]"
    using assms(4) by (simp add: link_query_def map_add_def given_text_def)
  have same: "canonicalize (sorted_params ?fs) = canonicalize ?fs"
    using signable_fields [of now p] by (simp add: canonicalize_signed)
  have lists: "{''amount'', ''token'', ''expires''} \<subseteq> fst ` set (sorted_params ?fs)"
    by (force simp: signable_def)
  have "0 \<le> ?e" using \<open>0 \<le> now\<close> by (simp add: ESCALATION_TTL_MS_def)
  moreover have "map_of (sorted_params ?fs) ''expires'' = Some (show_int ?e)"
    unfolding sorted_signable by (simp add: ordered_fields_def split: option.split)
  ultimately have expiry: "Number (map_of (sorted_params ?fs) ''expires'') = JNum (of_int ?e)"
    by (simp add: Number_expiry)
  have "(of_int ?e * 1000 < (of_int later :: rat)) = (?e * 1000 < later)"
    by (metis of_int_less_iff of_int_mult of_int_numeral)
  then show ?thesis
    using lists by (simp add: verify_escalation_def Let_def rebuilt shown same expiry)
qed

lemma escalation_link_round_trip_witness:
  "verify_escalation sample_signature 900000 (link_query sample_signature 0 sample_payment) = valid_link \<and>
   verify_escalation sample_signature 900001 (link_query sample_signature 0 sample_payment) = expired_link"
  using escalation_link_round_trip [of sample_payment sample_signature 0 900000] escalation_link_round_trip [of sample_payment sample_signature 0 900001]
  by (simp add: sample_payment_def sample_signature_def ESCALATION_TTL_MS_def)


lemma query_fields_of: "k \<in> set SIGNED_FIELDS \<Longrightarrow> set (given_text (q k)) = {v. (k, v) \<in> set (query_fields q)}"
  by (auto simp: query_fields_def)

lemma given_text_eq: "set (given_text x) = {v} \<longleftrightarrow> x = Some v \<and> v \<noteq> []" "set (given_text x) = set (given_text y) \<longleftrightarrow> given_text x = given_text y"
  by (cases x rule: given_text_cases; cases y rule: given_text_cases; auto simp: given_text_def split: option.splits if_splits)+

lemma query_of_expires: "map_of (query_fields q) ''expires'' = (case given_text (q ''expires'') of v # _ \<Rightarrow> Some v | [] \<Rightarrow> None)"
proof -
  have skip: "map_of (map (Pair k) vs @ rest) k' = map_of rest k'" if "k \<noteq> k'" for k k' :: string and vs rest
    using that by (induction vs) (simp_all del: map_of_append)
  have skip_last: "map_of (map (Pair k) vs) k' = None" if "k \<noteq> k'" for k k' :: string and vs :: "string list"
    using that by (induction vs) simp_all
  show ?thesis
    by (cases "given_text (q ''expires'')")
      (simp_all add: query_fields_def SIGNED_FIELDS_def skip skip_last del: map_of_append)
qed

text \<open>C18. The signature of an escalation link binds what the page acts on: a query that the verifier accepts under the
signature that was issued for a payment shows the amount, the token, the recipient, the note and the number of claimers
of that payment and is opened in time, whatever else was edited, unless two different canonical texts have one signature.\<close>

theorem escalation_binds_fields:
  assumes accepted: "verify_escalation sign later q = valid_link" and sig: "q ''sig'' = Some (sign (canonicalize (signable now p)))" and "0 \<le> now"
  shows "canonicalize (query_fields q) \<noteq> canonicalize (signable now p) \<and>
      sign (canonicalize (query_fields q)) = sign (canonicalize (signable now p)) \<or>
    q ''amount'' = Some (ep_amount p) \<and> q ''token'' = Some (ep_token p) \<and> given_text (q ''to'') = given_text (ep_to p) \<and>
    given_text (q ''note'') = given_text (ep_note p) \<and> given_text (q ''count'') = given_text (ep_count p) \<and>
    later \<le> (now + ESCALATION_TTL_MS) div 1000 * 1000"
proof -
  let ?fs = "signable now p" and ?e = "(now + ESCALATION_TTL_MS) div 1000"
  have checked: "sign (canonicalize (query_fields q)) = sign (canonicalize ?fs)"
    and timely: "\<exists>e. Number (map_of (query_fields q) ''expires'') = JNum e \<and> of_int later \<le> e * 1000"
    using accepted sig
    by (auto simp: verify_escalation_def Let_def given_text_def not_less split: list.splits option.splits if_splits js_number.splits dest: utf8_inj)
  have ?thesis if same: "canonicalize (query_fields q) = canonicalize ?fs"
  proof -
    have "sorted_params (query_fields q) = sorted_params ?fs"
      using same canonical_fields [of q] signable_fields [of now p]
      by (subst (asm) (1 2) canonicalize_signed) (auto dest: search_params_inj)
    then have fields: "set (query_fields q) = set ?fs" by (metis set_sorted_params)
    have field: "set (given_text (q k)) = {v. (k, v) \<in> set ?fs}" if "k \<in> set SIGNED_FIELDS" for k
      using query_fields_of [OF that, of q] fields by simp
    have only: "set (given_text (q k)) = vs" if "k \<in> set SIGNED_FIELDS" "{v. (k, v) \<in> set ?fs} = vs" for k vs
      using field that by simp
    have "set (given_text (q ''amount'')) = {ep_amount p}" "set (given_text (q ''token'')) = {ep_token p}"
      "set (given_text (q ''expires'')) = {show_int ?e}"
      and others: "set (given_text (q ''to'')) = set (given_text (ep_to p))" "set (given_text (q ''note'')) = set (given_text (ep_note p))"
      and counted: "set (given_text (q ''count'')) = (case ep_count p of Some c \<Rightarrow> {c} | None \<Rightarrow> {})"
      by (rule only; auto simp: signable_def SIGNED_FIELDS_def split: option.split)+
    then have plain: "q ''amount'' = Some (ep_amount p)" "q ''token'' = Some (ep_token p)" "q ''expires'' = Some (show_int ?e)"
      by (simp_all add: given_text_eq(1))
    have optional: "given_text (q ''to'') = given_text (ep_to p)" "given_text (q ''note'') = given_text (ep_note p)"
      using others by (simp_all only: given_text_eq(2))
    have "given_text (q ''count'') = given_text (ep_count p)"
      using counted by (cases "ep_count p") (auto simp: given_text_eq(1), simp_all add: given_text_def)
    moreover have "map_of (query_fields q) ''expires'' = Some (show_int ?e)"
      using plain(3) shown_nonempty [of ?e] by (simp add: query_of_expires given_text_def)
    then have "of_int later \<le> (of_int ?e * 1000 :: rat)"
      using timely \<open>0 \<le> now\<close> by (simp add: Number_expiry ESCALATION_TTL_MS_def)
    then have "later \<le> ?e * 1000" by (metis of_int_le_iff of_int_mult of_int_numeral)
    ultimately show ?thesis using plain optional by blast
  qed
  then show ?thesis using checked by blast
qed

lemma escalation_binds_fields_witness:
  "sample_query ''amount'' = Some ''50'' \<and> given_text (sample_query ''to'') = [''@bob'']"
proof -
  have "sample_query ''sig'' = Some (sample_signature (canonicalize (signable 0 sample_payment)))"
    by (simp add: sample_link_signed sample_query_def sample_signature_def)
  from escalation_binds_fields [OF sample_query_accepted this] show ?thesis
    by (simp add: sample_signature_def sample_payment_def given_text_def)
qed

section \<open>Onboarding links\<close>

definition onboard_fields :: "date \<Rightarrow> RegistrationContext \<Rightarrow> (string \<times> string) list" where
  "onboard_fields now c =
     (case cx_chatId c of Some i \<Rightarrow> [(''chatId'', i)] | None \<Rightarrow> []) @
     [(''expires'', show_int (now div 1000 + 15 * 60)), (''platform'', cx_platform c), (''platformId'', cx_platformId c),
      (''username'', cx_username c)]"

lemma signed_query_fields: "signed_query now (onboard_params c) = search_params (onboard_fields now c)"
proof -
  let ?e = "show_int (now div 1000 + 15 * 60)"
  define entries where "entries =
    object_entries ([(k, v). (k, Some v) \<leftarrow> onboard_params c, k \<notin> set ATTRIBUTION_KEYS] @ [(''expires'', ?e)])"
  have "entries = [(''platform'', cx_platform c)] @ (case cx_chatId c of Some i \<Rightarrow> [(''chatId'', i)] | None \<Rightarrow> []) @
      [(''platformId'', cx_platformId c), (''username'', cx_username c), (''expires'', ?e)]"
    unfolding entries_def by (simp add: onboard_params_def ATTRIBUTION_KEYS_def split: option.split)
  then have "sorted_params entries = onboard_fields now c"
    by (intro sorted_params_eq) (auto simp: onboard_fields_def split: option.split)
  then show ?thesis by (simp add: signed_query_def Let_def entries_def)
qed

lemma link_params_fields:
  assumes "cx_expires c = Some (show_int (now div 1000 + 15 * 60))" and "cx_chatId c \<noteq> Some []"
  shows "link_params ''platformId'' c = onboard_fields now c"
proof -
  have "map (Pair ''chatId'') (given_text (cx_chatId c)) = (case cx_chatId c of Some i \<Rightarrow> [(''chatId'', i)] | None \<Rightarrow> [])"
    using assms(2) by (auto simp: given_text_def split: option.split)
  then show ?thesis
    unfolding link_params_def assms(1)
    by (intro sorted_params_eq) (auto simp: onboard_fields_def split: option.split)
qed

text \<open>C20. The onboarding link that a bot sends opens the registration: the verifier of the passkey service, which rebuilds
the signed text field by field, accepts the link that the platform service signed for the same account, for the
fifteen minutes that it is good.\<close>

theorem onboarding_link_round_trip:
  assumes "cx_expires c = Some (show_int (now div 1000 + 15 * 60))"
    and "cx_sig c = Some (deep_link_signature (ae_hmac E) (ae_deeplinkSecret E) now (onboard_params c))"
    and "cx_chatId c \<noteq> Some []" and "ae_deeplinkSecret E \<noteq> []" and "0 \<le> now"
  shows "verifyOnboardingLink E later c =
    (if later div 1000 \<le> now div 1000 + 15 * 60 then Inr ()
     else Inl (Unauthorized ''Onboarding link is invalid or expired. Request a new link from the bot.''))"
proof -
  have "0 \<le> now div 1000 + 15 * 60" using assms(5) by simp
  then have "Number (cx_expires c) = JNum (of_int (now div 1000 + 15 * 60))" unfolding assms(1) by (rule Number_expiry)
  moreover have "(of_int (later div 1000) \<le> (of_int (now div 1000 + 15 * 60) :: rat)) = (later div 1000 \<le> now div 1000 + 15 * 60)"
    by (rule of_int_le_iff)
  ultimately show ?thesis
    using assms
    by (simp add: verifyOnboardingLink_def Let_def deep_link_signature_def signed_query_fields link_params_fields same_signature_def bindE_def
        del: of_int_add)
qed

lemma onboarding_link_round_trip_witness:
  "verifyOnboardingLink sample_auth 900000 sample_onboarding = Inr () \<and>
   verifyOnboardingLink sample_auth 901000 sample_onboarding =
     Inl (Unauthorized ''Onboarding link is invalid or expired. Request a new link from the bot.'')"
proof -
  have "cx_expires sample_onboarding = Some (show_int (0 div 1000 + 15 * 60))" by code_simp
  moreover have "cx_sig sample_onboarding =
      Some (deep_link_signature (ae_hmac sample_auth) (ae_deeplinkSecret sample_auth) 0 (onboard_params sample_onboarding))"
    unfolding sample_onboarding_signed by (simp add: sample_onboarding_def)
  ultimately show ?thesis
    using onboarding_link_round_trip [of sample_onboarding 0 sample_auth 900000] onboarding_link_round_trip [of sample_onboarding 0 sample_auth 901000]
    by (simp add: sample_onboarding_def sample_auth_def)
qed

text \<open>C19. The signature of an onboarding link binds the account: a registration that the verifier accepts under the
signature issued for an account names the platform, the identifier, the user name and the chat of that account and comes
in time, unless one of the two texts the verifier tries is another one with the same signature.\<close>

theorem onboarding_binds_account:
  assumes accepted: "verifyOnboardingLink E later c = Inr ()" and "0 \<le> now"
    and sig: "cx_sig c = Some (deep_link_signature (ae_hmac E) (ae_deeplinkSecret E) now (onboard_params p))"
  shows "(\<exists>key \<in> {''platformId'', ''userId''}. search_params (link_params key c) \<noteq> signed_query now (onboard_params p) \<and>
      ae_hmac E (ae_deeplinkSecret E) (search_params (link_params key c)) =
      ae_hmac E (ae_deeplinkSecret E) (signed_query now (onboard_params p))) \<or>
    cx_platform c = cx_platform p \<and> cx_platformId c = cx_platformId p \<and> cx_username c = cx_username p \<and>
    given_text (cx_chatId c) = given_text (cx_chatId p) \<and> later div 1000 \<le> now div 1000 + 15 * 60"
proof -
  obtain key e where key: "key \<in> {''platformId'', ''userId''}"
    and same: "ae_hmac E (ae_deeplinkSecret E) (signed_query now (onboard_params p)) =
      ae_hmac E (ae_deeplinkSecret E) (search_params (link_params key c))"
    and e: "Number (cx_expires c) = JNum e" "of_int (later div 1000) \<le> e"
    using signed_onboarding [OF accepted] unfolding sig deep_link_signature_def option.case by blast
  have ?thesis if "search_params (link_params key c) = signed_query now (onboard_params p)"
  proof -
    from that have "link_params key c = onboard_fields now p" unfolding signed_query_fields by (rule search_params_inj)
    then have fields: "set (link_params key c) = set (onboard_fields now p)" by simp
    have field: "v = w" if "(k, v) \<in> set (link_params key c)" "\<And>u. (k, u) \<in> set (onboard_fields now p) \<Longrightarrow> u = w" for k v w
      using that fields by blast
    have "(''platformId'', cx_platformId p) \<in> set (link_params key c)"
      unfolding fields by (simp add: onboard_fields_def)
    with key have [simp]: "key = ''platformId''"
      by (auto simp: link_params_def)
    note names = link_params_def onboard_fields_def
    have "cx_platform c = cx_platform p" by (rule field [of "''platform''"]) (auto simp: names split: option.splits)
    moreover have "cx_platformId c = cx_platformId p" by (rule field [of "''platformId''"]) (auto simp: names split: option.splits)
    moreover have "cx_username c = cx_username p" by (rule field [of "''username''"]) (auto simp: names split: option.splits)
    moreover have expiry: "(case cx_expires c of Some e \<Rightarrow> e | None \<Rightarrow> ''undefined'') = show_int (now div 1000 + 15 * 60)"
      by (rule field [of "''expires''"]) (auto simp: names split: option.splits)
    moreover have "later div 1000 \<le> now div 1000 + 15 * 60"
    proof (cases "cx_expires c")
      case None
      with e show ?thesis by (simp add: Number_def)
    next
      case (Some x)
      with expiry \<open>0 \<le> now\<close> have "Number (cx_expires c) = JNum (of_int (now div 1000 + 15 * 60))"
        by (simp add: Number_expiry del: of_int_add)
      with e show ?thesis by (simp only: js_number.inject of_int_le_iff)
    qed
    moreover have "set (given_text (cx_chatId c)) = (case cx_chatId p of Some i \<Rightarrow> {i} | None \<Rightarrow> {})"
    proof -
      have "set (given_text (cx_chatId c)) = {v. (''chatId'', v) \<in> set (link_params key c)}" by (auto simp: names)
      then show ?thesis unfolding fields by (auto simp: names split: option.split)
    qed
    then have "given_text (cx_chatId c) = given_text (cx_chatId p)"
      by (cases "cx_chatId p") (auto simp: given_text_eq(1), simp_all add: given_text_def)
    ultimately show ?thesis by blast
  qed
  then show ?thesis using key same [symmetric] by blast
qed

lemma onboarding_binds_account_witness:
  "cx_platformId sample_onboarding = ''7'' \<and> (900000::int) div 1000 \<le> 15 * 60"
proof -
  have "cx_sig sample_onboarding =
      Some (deep_link_signature (ae_hmac sample_auth) (ae_deeplinkSecret sample_auth) 0 (onboard_params sample_onboarding))"
    unfolding sample_onboarding_signed by (simp add: sample_onboarding_def)
  from onboarding_binds_account [OF sample_onboarding_accepted _ this] show ?thesis
    by (simp add: sample_auth_def sample_onboarding_def)
qed

end
