(* ===== verification/Spec2Isabelle.thy ===== *)
theory Spec2Isabelle
  imports Challenge P256 Instructions RelayerPolicy Growth ClaimRetry HotState Requests Splits
    LedgerWf LedgerClient RelayerRuns LinkRuns LinkClaims PasskeyRuns
    ReferralRuns NotificationRuns CommandProps AuthGuards Enrolment LastPasskey VaultRotation LinkSignatures
begin

text \<open>
  VeriAgent Pay on Solana: a verification development.

  The program lets users pay in stablecoin and SOL from vaults that a passkey controls. It has three
  layers, and the development follows them from the bottom up.

  The TypeScript package \<open>src/packages/chain-solana\<close> encodes what the others exchange: integers and
  bytes (\<open>Bytes\<close>), the challenges a passkey signs (\<open>Challenge\<close>, from \<open>challenge.ts\<close>), the DER signatures
  and the secp256r1 instruction (\<open>P256\<close>, from \<open>p256.ts\<close> and \<open>veridex-passkey.ts\<close>), addresses and account
  decoders (\<open>Accounts\<close>) and instruction builders (\<open>Instructions\<close>, both from \<open>program.ts\<close>). \<open>Sdk\<close> collects
  what these use of \<open>web3.js\<close> as a record of parameters, \<open>Borsh\<close> the wire structs of the program.

  The Anchor program \<open>src/contracts/anchor/programs/veriagent_pay\<close> holds the money: \<open>ProgramAuth\<close> is
  \<open>auth.rs\<close>; \<open>Ledger\<close> has the sixteen instructions of \<open>protocol.rs\<close>, \<open>wallet.rs\<close>, \<open>native_sol.rs\<close> and
  \<open>payment_links.rs\<close> as functions on a ledger of accounts, token balances and lamports, \<open>exec\<close> is the
  dispatch of \<open>lib.rs\<close>, and \<open>ledger_step\<close> adds what happens outside the program. \<open>LedgerRuns\<close> proves
  invariants of runs with their trace through the interface \<open>step_invariant\<close>, \<open>LedgerWf\<close> the well-formedness
  of reachable accounts, \<open>LedgerFunds\<close> the conservation and the coverage of escrow and the liveness of
  refunds, \<open>LedgerClient\<close> that client and program agree on what is signed. \<open>LedgerExample\<close> is a concrete run
  that shows the hypotheses can be met.

  The backend \<open>src/backend\<close> keeps accounts, session keys and links in a database and submits transactions.
  \<open>Backend\<close> has exceptions, tables and numbers, \<open>Handlers\<close> the state and exception monad in which its
  services are written, with the interface \<open>frame\<close> for what a handler leaves alone. \<open>SolanaChain\<close> is
  \<open>solana-account.ts\<close> and \<open>solana-chain.service.ts\<close>; its \<open>submit\<close> runs a transaction of instructions of
  \<open>Ledger\<close>. \<open>SolanaRelayer\<close> is \<open>solana-relayer.service.ts\<close> on top of it, with \<open>SessionCrypto\<close>
  (\<open>symmetric-crypto.ts\<close>, \<open>key-wrapping.ts\<close>), \<open>ShortLinks\<close> (\<open>shortlinks.service.ts\<close>), \<open>HotState\<close>
  (\<open>redis.service.ts\<close>, \<open>hot-state.service.ts\<close>) and \<open>Amounts\<close> (the conversions to atomic units); \<open>RelayerRuns\<close>
  has the properties of its runs. \<open>PaymentLinks\<close> is \<open>solana-payment-links.service.ts\<close> on the relayer and the
  short links; \<open>LinkRuns\<close> shows, with the pre- and postconditions of \<open>Triples\<close>, that its rows follow the ledger, but for
  those that the public route of \<open>shortlinks.controller.ts\<close> lets anybody write,
  \<open>LinkClaims\<close> what a claim pays and to whom. \<open>Prepared\<close> and
  \<open>PasskeyExecution\<close> are \<open>solana-passkey-execution.service.ts\<close>, \<open>PasskeyRuns\<close> shows that an approval executes what was
  prepared, once. \<open>RelayerPolicy\<close>, \<open>Streak\<close>, \<open>Growth\<close>, \<open>ClaimRetry\<close>, \<open>Requests\<close> and \<open>Splits\<close>
  are the services of the same names; \<open>Dates\<close> is the calendar of ECMAScript. \<open>Referral\<close> is \<open>referral.service.ts\<close>
  with its retention job, and \<open>ReferralRuns\<close> cuts its handlers at their accesses to the database (the checks before a referral is created are
  one step), runs them interleaved, and proves of the three milestones through the interface \<open>milestone\<close> that each is paid once
  or lost for good. \<open>Notifications\<close> is
  \<open>notifications.service.ts\<close>, the routing of \<open>unified-notification.service.ts\<close> and \<open>dormant-user-winback.cron.ts\<close>; the
  page loops of its jobs are \<open>Paging\<close>, with the interfaces \<open>shared_pages\<close> and \<open>steady_pages\<close> for what others write in
  between, and \<open>NotificationRuns\<close> has the caps and the return of the jobs. \<open>Commands\<close>
  is \<open>command-parser.service.ts\<close> on the texts and regular expressions of \<open>JsText\<close>, with its properties in
  \<open>CommandProps\<close>.

  Who a user is: \<open>Identity\<close> is \<open>identity.service.ts\<close> with the onboarding entry and the provisional identifiers,
  \<open>CredentialVault\<close> is \<open>credential-vault.service.ts\<close>, \<open>SignedLinks\<close> has the signed links of the backend, and \<open>WebAuthn\<close> is
  \<open>webauthn.service.ts\<close> with its controller and the gate \<open>jwt-auth.guard.ts\<close>: the ceremonies that register a passkey and
  sign in with one, and the sessions they issue. \<open>Enrolment\<close> shows who can enrol a passkey on which account, \<open>AuthRuns\<close>
  runs the operations interleaved and shows what is used once, with the interface \<open>identity_writes\<close> for the writes of the
  identity service, \<open>AuthGuards\<close> that signing out is final at the gate, and that the route for registration options does not ask the gate, \<open>LastPasskey\<close> that an account keeps a passkey,
  \<open>VaultRotation\<close> that a change of keys loses nothing; \<open>LinkSignatures\<close> that a signed link is accepted until it expires and binds what was
  signed, but for collisions of the HMAC; \<open>AuthExample\<close> has a concrete environment. \<open>Prelude\<close> has what all share.

  Modelling. Fallible code returns a sum with the error on the left. Integers of a fixed width are words in
  the encodings and the bitmaps; on the ledger an unsigned 64-bit field is a natural number with every
  \<open>checked_add\<close> written out. JavaScript numbers are rationals with NaN and the infinities, so the rounding of
  binary floating point is not represented; strings are Latin-1, but for the messages that the command parser reads, which are
  lists of UTF-16 code units with the case mapping of the letters the parser compares. Code outside the repository is an argument:
  the record \<open>sdk\<close> (hashing, program addresses), \<open>runtime\<close> (JSON, base64url, the token program, rent),
  \<open>chain\<close> (base58 and the deployment), \<open>ciphers\<close> (scrypt, AES-GCM, KMS), \<open>jwt\<close> (the tokens of jsonwebtoken) and
  \<open>vault_env\<close> (JSON and COSE of credentials), each with a predicate \<open>_ok\<close> where a theorem relies on documented
  behaviour; what the WebAuthn library finds in a response and the HMAC of links are functions of \<open>auth_env\<close>. Fresh identifiers, keys and codes are arguments of the
  operation, the answer of the network is the argument \<open>net\<close> of \<open>submit\<close>. An address is computed from its
  seeds, as the framework enforces; the theorems that need it state that the addresses of one ledger do not
  collide (\<open>addresses_apart\<close>), never that the hash is injective. An account of another program is known to the
  ledger as a token account only.

  What is one step: an operation of the relayer, the payment links, the requests and the bill splits runs as a whole, and the
  theorems on sequences of them, the daily limit of a session among them, are about operations one after another; that
  overlapping payments pass the daily limit is the theorem \<open>overlapping_payments_pass_the_limit\<close>. The handlers of
  referrals, passkeys and sessions, the retries of claims and the scheduled jobs are cut where they wait for the database, and
  others come in between.

  Loops are structural recursions over lists. The page loops of the scheduled jobs have no bound in the code; they are
  partial functions, and that they return is a theorem. The backtracking matcher of regular expressions
  terminates because an iteration that consumes nothing ends a repetition. The search for a free short code takes at most five of the
  offered codes, as the code does; no other bound is chosen.

  Not modelled: the web front end, the EVM edition of relayer, escrow and vault, savings pools and Merkle
  envelopes, which move money only through the session executions that the Solana relayer refuses, the chat
  platforms, the check of the launch parameters of Telegram, badges, reputation and leaderboards, deposits and administration. The texts
  of messages and the parameters of addresses are left out where they have no effect on what is modelled. The parts are listed
  with the reason in the manifest.
\<close>

end
